(* ===== verification/Prelude.thy ===== *)
theory Prelude
  imports Main "HOL-Library.Word" "HOL-Library.Monad_Syntax"
begin

text \<open>
  Shared vocabulary of the development: the machine integers of the C code, its error codes,
  and a small memory discipline for C arrays.

  A C computation that can leave its arrays is modelled with result type \<open>'a option\<close>:
  \<open>None\<close> is undefined behaviour (an access outside the object), \<open>Some\<close> the value computed.
  That an operation is memory safe is then the theorem that it does not return \<open>None\<close>.
  An array is the list of its elements; its length never changes.
\<close>

section \<open>Machine integers and error codes\<close>

type_synonym u8 = "8 word"
type_synonym u16 = "16 word"
type_synonym u32 = "32 word"

text \<open>The errno values of Zephyr's C library that the modelled code returns (negated).\<close>

abbreviation (input) EPERM :: int where "EPERM \<equiv> 1"
abbreviation (input) ENOENT :: int where "ENOENT \<equiv> 2"
abbreviation (input) EIO :: int where "EIO \<equiv> 5"
abbreviation (input) ENXIO :: int where "ENXIO \<equiv> 6"
abbreviation (input) EAGAIN :: int where "EAGAIN \<equiv> 11"
abbreviation (input) ENOMEM :: int where "ENOMEM \<equiv> 12"
abbreviation (input) EACCES :: int where "EACCES \<equiv> 13"
abbreviation (input) EFAULT :: int where "EFAULT \<equiv> 14"
abbreviation (input) EBUSY :: int where "EBUSY \<equiv> 16"
abbreviation (input) ENODEV :: int where "ENODEV \<equiv> 19"
abbreviation (input) EINVAL :: int where "EINVAL \<equiv> 22"
abbreviation (input) ENOMSG :: int where "ENOMSG \<equiv> 35"
abbreviation (input) ENODATA :: int where "ENODATA \<equiv> 61"
abbreviation (input) ETIMEDOUT :: int where "ETIMEDOUT \<equiv> 116"
abbreviation (input) EALREADY :: int where "EALREADY \<equiv> 120"
abbreviation (input) EMSGSIZE :: int where "EMSGSIZE \<equiv> 122"
abbreviation (input) ENOTSUP :: int where "ENOTSUP \<equiv> 134"
abbreviation (input) ECANCELED :: int where "ECANCELED \<equiv> 140"

named_theorems mem_simps \<open>memory accesses that stay inside their array\<close>
named_theorems cfg_defs \<open>build-time constants of the firmware\<close>

section \<open>Division of C\<close>

text \<open>C divides signed integers towards zero; HOL's \<open>div\<close> rounds down.\<close>

definition c_div :: "int \<Rightarrow> int \<Rightarrow> int" where
  "c_div a b = sgn a * sgn b * (\<bar>a\<bar> div \<bar>b\<bar>)"

definition c_mod :: "int \<Rightarrow> int \<Rightarrow> int" where
  "c_mod a b = a - b * c_div a b"

lemma c_div_nonneg: "0 \<le> a \<Longrightarrow> 0 < b \<Longrightarrow> c_div a b = a div b"
  by (cases "a = 0") (auto simp: c_div_def)

lemma c_div_minus: "c_div (- a) b = - c_div a b"
  by (simp add: c_div_def sgn_minus)

lemma c_div_abs: "0 < b \<Longrightarrow> \<bar>c_div a b\<bar> = \<bar>a\<bar> div b"
  by (cases "a = 0") (auto simp: c_div_def abs_mult abs_sgn_eq pos_imp_zdiv_nonneg_iff)

lemma c_div_bounds:
  assumes "0 < b" and "\<bar>a\<bar> \<le> b * k"
  shows "\<bar>c_div a b\<bar> \<le> k"
proof -
  have "\<bar>a\<bar> div b \<le> (b * k) div b"
    using assms by (intro zdiv_mono1) auto
  then show ?thesis
    using assms(1) by (simp add: c_div_abs)
qed

text \<open>The value of a C integer stored in a signed or unsigned 32-bit object.\<close>

definition i32 :: "int \<Rightarrow> int" where
  "i32 x = (x + 2 ^ 31) mod 2 ^ 32 - 2 ^ 31"

definition wrap_u32 :: "int \<Rightarrow> int" where
  "wrap_u32 x = x mod 2 ^ 32"

definition wrap_u16 :: "int \<Rightarrow> int" where
  "wrap_u16 x = x mod 2 ^ 16"

lemma i32_id: "- (2 ^ 31) \<le> x \<Longrightarrow> x < 2 ^ 31 \<Longrightarrow> i32 x = x"
  by (simp add: i32_def)

lemma i32_range: "- (2 ^ 31) \<le> i32 x \<and> i32 x < 2 ^ 31"
proof -
  have "0 \<le> (x + 2 ^ 31) mod 2 ^ 32" and "(x + 2 ^ 31) mod 2 ^ 32 < 2 ^ 32"
    by simp_all
  then show ?thesis by (simp add: i32_def)
qed

lemma i32_wrap_u32: "i32 (wrap_u32 x) = i32 x"
  by (simp add: i32_def wrap_u32_def mod_add_left_eq)

lemma i32_cong: "x mod 2 ^ 32 = y mod 2 ^ 32 \<Longrightarrow> i32 x = i32 y"
  by (metis i32_wrap_u32 wrap_u32_def)

section \<open>Arrays\<close>

definition rd :: "'a list \<Rightarrow> nat \<Rightarrow> 'a option" where
  "rd a i = (if i < length a then Some (a ! i) else None)"

definition wr :: "'a list \<Rightarrow> nat \<Rightarrow> 'a \<Rightarrow> 'a list option" where
  "wr a i x = (if i < length a then Some (a[i := x]) else None)"

text \<open>\<open>rd_range\<close> and \<open>wr_range\<close> are the two halves of a \<open>memcpy\<close>.\<close>

definition rd_range :: "'a list \<Rightarrow> nat \<Rightarrow> nat \<Rightarrow> 'a list option" where
  "rd_range a off n = (if off + n \<le> length a then Some (take n (drop off a)) else None)"

definition wr_range :: "'a list \<Rightarrow> nat \<Rightarrow> 'a list \<Rightarrow> 'a list option" where
  "wr_range a off xs =
     (if off + length xs \<le> length a
      then Some (take off a @ xs @ drop (off + length xs) a) else None)"

lemma rd_in [mem_simps]: "i < length a \<Longrightarrow> rd a i = Some (a ! i)"
  by (simp add: rd_def)

lemma rd_out: "length a \<le> i \<Longrightarrow> rd a i = None"
  by (simp add: rd_def)

lemma wr_in [mem_simps]: "i < length a \<Longrightarrow> wr a i x = Some (a[i := x])"
  by (simp add: wr_def)

lemma rd_range_in [mem_simps]:
  "off + n \<le> length a \<Longrightarrow> rd_range a off n = Some (take n (drop off a))"
  by (simp add: rd_range_def)

lemma wr_range_in [mem_simps]:
  "off + length xs \<le> length a \<Longrightarrow>
   wr_range a off xs = Some (take off a @ xs @ drop (off + length xs) a)"
  by (simp add: wr_range_def)

lemma rd_take: "i < n \<Longrightarrow> n \<le> length a \<Longrightarrow> rd (take n a) i = rd a i"
  by (simp add: rd_def)

lemma rd_range_take:
  "off + k \<le> n \<Longrightarrow> n \<le> length a \<Longrightarrow> rd_range (take n a) off k = rd_range a off k"
  by (auto simp: rd_range_def drop_take min_def)

lemma rd_range_length: "rd_range a off n = Some xs \<Longrightarrow> length xs = n"
  by (auto simp: rd_range_def split: if_splits)

lemma wr_length: "wr a i x = Some a' \<Longrightarrow> length a' = length a"
  by (auto simp: wr_def split: if_splits)

lemma wr_range_length: "wr_range a off xs = Some a' \<Longrightarrow> length a' = length a"
  by (auto simp: wr_range_def split: if_splits)

lemma wr_range_take:
  "wr_range a off xs = Some a' \<Longrightarrow> take (length xs) (drop off a') = xs"
  by (auto simp: wr_range_def split: if_splits)

text \<open>The array-to-array copy loop \<open>for (i = 0; i < n; i++) dst[pos++] = src[i];\<close>\<close>

fun copy_loop :: "'a list \<Rightarrow> nat \<Rightarrow> nat \<Rightarrow> nat \<Rightarrow> 'a list \<Rightarrow> (nat \<times> 'a list) option" where
  "copy_loop src i 0 pos dst = Some (pos, dst)"
| "copy_loop src i (Suc k) pos dst = do {
     x \<leftarrow> rd src i;
     dst' \<leftarrow> wr dst pos x;
     copy_loop src (Suc i) k (Suc pos) dst' }"

lemma update_take_drop:
  "pos < length dst \<Longrightarrow> take (Suc pos) (dst[pos := x]) = take pos dst @ [x]"
  by (simp add: take_Suc_conv_app_nth)

lemma copy_loop_ok [mem_simps]:
  "i + k \<le> length src \<Longrightarrow> pos + k \<le> length dst \<Longrightarrow>
   copy_loop src i k pos dst =
     Some (pos + k, take pos dst @ take k (drop i src) @ drop (pos + k) dst)"
proof (induction k arbitrary: i pos dst)
  case 0
  then show ?case by simp
next
  case (Suc k)
  have "take (Suc k) (drop i src) = src ! i # take k (drop (Suc i) src)"
    using Suc.prems by (simp add: Cons_nth_drop_Suc [symmetric])
  then show ?case
    using Suc.prems Suc.IH [of "Suc i" "Suc pos" "dst[pos := src ! i]"]
    by (simp add: rd_def wr_def update_take_drop)
qed

lemma copy_loop_out:
  "i \<le> length src \<Longrightarrow> length src < i + k \<Longrightarrow> copy_loop src i k pos dst = None"
proof (induction k arbitrary: i pos dst)
  case 0
  then show ?case by simp
next
  case (Suc k)
  then show ?case
    by (cases "i < length src") (auto simp: rd_def wr_def)
qed

section \<open>Facts about bytes\<close>

lemma u8_less: "unat (x :: u8) < 256"
  using unsigned_less [of x] by simp

lemma u8_of_nat: "n < 256 \<Longrightarrow> unat (of_nat n :: u8) = n"
  by (simp add: unat_of_nat)

lemma u8_add: "unat (x :: u8) + unat y < 256 \<Longrightarrow> unat (x + y) = unat x + unat y"
  by (simp add: unat_word_ariths)

lemma u8_eq_iff: "(x :: u8) = y \<longleftrightarrow> unat x = unat y"
  by (simp add: word_unat_eq_iff)

lemma u8_succ: "(b :: u8) \<noteq> 255 \<Longrightarrow> unat (b + 1) = unat b + 1"
  using u8_less [of b] u8_add [of b 1] by (simp add: u8_eq_iff)

lemma nth_take_drop: "n < k \<Longrightarrow> off + k \<le> length a \<Longrightarrow> take k (drop off a) ! n = a ! (off + n)"
  by simp

section \<open>Numbers in shell arguments\<close>

text \<open>\<open>isdigit\<close> and \<open>strtoul\<close> with base 10, which saturates at \<open>ULONG_MAX\<close> of the 32-bit target.\<close>

definition is_digit :: "char \<Rightarrow> bool" where
  "is_digit c \<longleftrightarrow> 48 \<le> (of_char c :: nat) \<and> (of_char c :: nat) \<le> 57"

definition strtoul :: "string \<Rightarrow> nat" where
  "strtoul cs = min (2 ^ 32 - 1)
     (foldl (\<lambda>n c. 10 * n + (of_char c - 48)) 0 (takeWhile is_digit cs))"

section \<open>Error checks\<close>

text \<open>
  \<open>ERR_CHK\<close> and \<open>__ASSERT\<close> stop the firmware (\<open>k_oops\<close>). Where an operation contains them, \<open>None\<close>
  stands for a stop as well as for undefined behaviour.
\<close>

definition err_chk :: "int \<Rightarrow> unit option" where
  "err_chk ret = (if ret = 0 then Some () else None)"

definition assert_ok :: "bool \<Rightarrow> unit option" where
  "assert_ok b = (if b then Some () else None)"

lemma err_chk_0 [simp]: "err_chk 0 = Some ()"
  by (simp add: err_chk_def)

lemma assert_ok_True [simp]: "assert_ok True = Some ()"
  by (simp add: assert_ok_def)

end
