(* ===== verification/PaCmdParser.thy ===== *)
theory PaCmdParser
  imports Prelude
begin

text \<open>
  The UART command protocol: \<open>src/core/pa_protocol.h\<close> (opcodes, result codes, limits,
  command structures) and \<open>src/core/pa_cmd_parser.c\<close> (parser and serialisers).

  A C pointer that the code compares with \<open>NULL\<close> is an \<open>option\<close>. An out-parameter is
  passed with its old contents and returned with its new ones.
\<close>

section \<open>Protocol constants and structures (pa_protocol.h)\<close>

abbreviation (input) PA_OPCODE_STATUS_GET_REQ :: u8 where "PA_OPCODE_STATUS_GET_REQ \<equiv> 0x00"
abbreviation (input) PA_OPCODE_STATUS_GET_RSP :: u8 where "PA_OPCODE_STATUS_GET_RSP \<equiv> 0x01"
abbreviation (input) PA_OPCODE_DATA_SEND_REQ :: u8 where "PA_OPCODE_DATA_SEND_REQ \<equiv> 0x10"
abbreviation (input) PA_OPCODE_DATA_SEND_RSP :: u8 where "PA_OPCODE_DATA_SEND_RSP \<equiv> 0x11"
abbreviation (input) PA_OPCODE_DATA_SEND_COMPLETE :: u8 where "PA_OPCODE_DATA_SEND_COMPLETE \<equiv> 0x12"

abbreviation (input) PA_RESULT_SUCCESS :: u8 where "PA_RESULT_SUCCESS \<equiv> 0x00"
abbreviation (input) PA_RESULT_BUSY :: u8 where "PA_RESULT_BUSY \<equiv> 0x01"
abbreviation (input) PA_RESULT_INVALID_SID :: u8 where "PA_RESULT_INVALID_SID \<equiv> 0x02"
abbreviation (input) PA_RESULT_DATA_TOO_LARGE :: u8 where "PA_RESULT_DATA_TOO_LARGE \<equiv> 0x03"
abbreviation (input) PA_RESULT_NOT_READY :: u8 where "PA_RESULT_NOT_READY \<equiv> 0x04"

abbreviation (input) PA_MAX_ADV_SETS :: nat where "PA_MAX_ADV_SETS \<equiv> 4"
abbreviation (input) PA_MAX_DATA_SIZE :: nat where "PA_MAX_DATA_SIZE \<equiv> 252"

record pa_status_get_rsp =
  num_advertising :: u8
  adv_sid :: "u8 list"
  pa_available_bytes :: "u8 list"

record pa_data_send_req =
  advertising_sid :: u8
  data_length :: u8
  req_data :: "u8 list"

text \<open>The arrays of the structures have their declared sizes.\<close>

definition wf_status_rsp :: "pa_status_get_rsp \<Rightarrow> bool" where
  "wf_status_rsp r \<longleftrightarrow>
     length (adv_sid r) = PA_MAX_ADV_SETS \<and> length (pa_available_bytes r) = PA_MAX_ADV_SETS"

definition wf_req :: "pa_data_send_req \<Rightarrow> bool" where
  "wf_req r \<longleftrightarrow> length (req_data r) = PA_MAX_DATA_SIZE"

section \<open>Parser (pa_cmd_parse)\<close>

text \<open>
  \<open>pa_cmd_parse buf len opcode payload\<close> returns the C return value and the contents of the
  two out-parameters. \<open>len\<close> is the caller's claim about \<open>buf\<close>; the reads are checked against
  the list itself. \<open>cmd_length + 1\<close> is computed in \<open>int\<close>; the bound \<open>3 + data_length\<close> of the
  last check is cast to \<open>uint8_t\<close>, hence the word addition.
\<close>

definition parse_data_send ::
  "u8 list \<Rightarrow> u8 \<Rightarrow> u8 \<Rightarrow> pa_data_send_req option \<Rightarrow>
   (int \<times> u8 option \<times> pa_data_send_req option) option" where
  "parse_data_send b cmd_length op payload =
     (case payload of
        None \<Rightarrow> Some (-1, Some op, None)
      | Some p \<Rightarrow>
          if cmd_length < 3 then Some (-2, Some op, Some p)
          else do {
            sid \<leftarrow> rd b 2;
            dl \<leftarrow> rd b 3;
            let p1 = p\<lparr>advertising_sid := sid, data_length := dl\<rparr>;
            if PA_MAX_DATA_SIZE < unat dl then Some (-2, Some op, Some p1)
            else if cmd_length < 3 + dl then Some (-2, Some op, Some p1)
            else if 0 < dl then do {
              bs \<leftarrow> rd_range b 4 (unat dl);
              d \<leftarrow> wr_range (req_data p1) 0 bs;
              Some (0, Some op, Some (p1\<lparr>req_data := d\<rparr>)) }
            else Some (0, Some op, Some p1) })"

definition pa_cmd_parse ::
  "u8 list option \<Rightarrow> nat \<Rightarrow> u8 option \<Rightarrow> pa_data_send_req option \<Rightarrow>
   (int \<times> u8 option \<times> pa_data_send_req option) option" where
  "pa_cmd_parse buf len opcode payload =
     (case buf of
        None \<Rightarrow> Some (-1, opcode, payload)
      | Some b \<Rightarrow>
          if opcode = None \<or> len < 2 then Some (-1, opcode, payload)
          else do {
            cmd_length \<leftarrow> rd b 0;
            if len < unat cmd_length + 1 then Some (-2, opcode, payload)
            else do {
              op \<leftarrow> rd b 1;
              if op = PA_OPCODE_STATUS_GET_REQ then Some (0, Some op, payload)
              else if op = PA_OPCODE_DATA_SEND_REQ then parse_data_send b cmd_length op payload
              else Some (-3, Some op, payload) } })"

section \<open>Serialisers\<close>

text \<open>
  \<open>buf\<close> is the caller's buffer and \<open>buf_size\<close> the size it passes. The loop bound
  \<open>num_advertising\<close> is not compared with the array size by the code: reading past
  \<open>adv_sid\<close> is \<open>None\<close> here.
\<close>

definition pa_cmd_serialize_status_rsp ::
  "pa_status_get_rsp option \<Rightarrow> u8 list option \<Rightarrow> nat \<Rightarrow> (int \<times> u8 list option) option" where
  "pa_cmd_serialize_status_rsp rsp buf buf_size =
     (case (rsp, buf) of
        (Some r, Some b) \<Rightarrow>
          (let total = 1 + 1 + 1 + unat (num_advertising r) * 2
           in if buf_size < total then Some (-1, buf)
              else do {
                b \<leftarrow> wr b 0 (of_nat (total - 1));
                b \<leftarrow> wr b 1 PA_OPCODE_STATUS_GET_RSP;
                b \<leftarrow> wr b 2 (num_advertising r);
                (pos, b) \<leftarrow> copy_loop (adv_sid r) 0 (unat (num_advertising r)) 3 b;
                (pos, b) \<leftarrow>
                  copy_loop (pa_available_bytes r) 0 (unat (num_advertising r)) pos b;
                Some (int pos, Some b) })
      | _ \<Rightarrow> Some (-1, buf))"

definition pa_cmd_serialize_data_send_rsp ::
  "u8 \<Rightarrow> u8 list option \<Rightarrow> nat \<Rightarrow> (int \<times> u8 list option) option" where
  "pa_cmd_serialize_data_send_rsp result buf buf_size =
     (case buf of
        None \<Rightarrow> Some (-1, None)
      | Some b \<Rightarrow>
          if buf_size < 3 then Some (-1, Some b)
          else do {
            b \<leftarrow> wr b 0 0x02;
            b \<leftarrow> wr b 1 PA_OPCODE_DATA_SEND_RSP;
            b \<leftarrow> wr b 2 result;
            Some (3, Some b) })"

definition pa_cmd_serialize_data_send_complete ::
  "u8 list option \<Rightarrow> nat \<Rightarrow> (int \<times> u8 list option) option" where
  "pa_cmd_serialize_data_send_complete buf buf_size =
     (case buf of
        None \<Rightarrow> Some (-1, None)
      | Some b \<Rightarrow>
          if buf_size < 2 then Some (-1, Some b)
          else do {
            b \<leftarrow> wr b 0 0x01;
            b \<leftarrow> wr b 1 PA_OPCODE_DATA_SEND_COMPLETE;
            Some (2, Some b) })"

section \<open>The protocol's frames\<close>

text \<open>
  The frames as the protocol document lays them out: what the host sends and what it expects
  to receive. They are the reference the C routines are compared with.
\<close>

definition frame_status_get_req :: "u8 list" where
  "frame_status_get_req = [1, PA_OPCODE_STATUS_GET_REQ]"

definition frame_data_send_req :: "u8 \<Rightarrow> u8 list \<Rightarrow> u8 list" where
  "frame_data_send_req sid d =
     [of_nat (3 + length d), PA_OPCODE_DATA_SEND_REQ, sid, of_nat (length d)] @ d"

definition frame_status_rsp :: "(u8 \<times> u8) list \<Rightarrow> u8 list" where
  "frame_status_rsp sets =
     [of_nat (2 + 2 * length sets), PA_OPCODE_STATUS_GET_RSP, of_nat (length sets)]
     @ map fst sets @ map snd sets"

definition frame_data_send_rsp :: "u8 \<Rightarrow> u8 list" where
  "frame_data_send_rsp result = [2, PA_OPCODE_DATA_SEND_RSP, result]"

definition frame_data_send_complete :: "u8 list" where
  "frame_data_send_complete = [1, PA_OPCODE_DATA_SEND_COMPLETE]"

text \<open>What a received byte sequence means, or why it is rejected.\<close>

datatype command = StatusGet | DataSend u8 "u8 list"
datatype parse_error = TooShort | LengthMismatch | UnknownOpcode

definition decode_data_send :: "u8 list \<Rightarrow> parse_error + command" where
  "decode_data_send b =
     (let cl = unat (b ! 0); dl = unat (b ! 3)
      in if cl < 3 then Inl LengthMismatch
         else if dl \<le> PA_MAX_DATA_SIZE \<and> 3 + dl \<le> cl
              then Inr (DataSend (b ! 2) (take dl (drop 4 b)))
              else Inl LengthMismatch)"

definition decode_command :: "u8 list \<Rightarrow> parse_error + command" where
  "decode_command b =
     (if length b < 2 then Inl TooShort
      else if length b < unat (b ! 0) + 1 then Inl LengthMismatch
      else if b ! 1 = PA_OPCODE_STATUS_GET_REQ then Inr StatusGet
      else if b ! 1 = PA_OPCODE_DATA_SEND_REQ then decode_data_send b
      else Inl UnknownOpcode)"

fun error_code :: "parse_error \<Rightarrow> int" where
  "error_code TooShort = -1"
| "error_code LengthMismatch = -2"
| "error_code UnknownOpcode = -3"

text \<open>
  What the caller of \<open>pa_cmd_parse\<close> sees: the return code and, on success, the command held
  by the out-parameters.
\<close>

definition read_command :: "u8 \<Rightarrow> pa_data_send_req \<Rightarrow> command" where
  "read_command op p =
     (if op = PA_OPCODE_STATUS_GET_REQ then StatusGet
      else DataSend (advertising_sid p) (take (unat (data_length p)) (req_data p)))"

section \<open>Lemmas\<close>

lemmas parse_defs = pa_cmd_parse_def parse_data_send_def

lemma short_word_bound:
  "unat (dl :: u8) \<le> 252 \<Longrightarrow> cl < 3 + dl \<longleftrightarrow> unat cl < 3 + unat dl"
  by (simp add: word_less_nat_alt u8_add)

lemma word_pos: "0 < (dl :: u8) \<longleftrightarrow> 0 < unat dl"
  by (simp add: word_less_nat_alt)

lemma word_less_3: "(cl :: u8) < 3 \<longleftrightarrow> unat cl < 3"
  by (simp add: word_less_nat_alt)

text \<open>The data-send branch, read as arithmetic on naturals.\<close>

lemma parse_data_send_ok:
  assumes len: "unat cl + 1 \<le> length b" and wf: "wf_req p" and cl: "cl = b ! 0"
  shows "\<exists>op' p'. parse_data_send b cl op (Some p) =
           Some (case decode_data_send b of Inl e \<Rightarrow> error_code e | Inr _ \<Rightarrow> 0, Some op, Some p')
         \<and> wf_req p'
         \<and> (\<forall>c. decode_data_send b = Inr c \<longrightarrow>
               c = DataSend (advertising_sid p') (take (unat (data_length p')) (req_data p')))"
proof (cases "unat cl < 3")
  case True
  then show ?thesis
    using wf cl by (auto simp: parse_data_send_def decode_data_send_def word_less_3)
next
  case False
  then have rds: "rd b 2 = Some (b ! 2)" "rd b 3 = Some (b ! 3)"
    using len by (auto intro!: rd_in)
  show ?thesis
  proof (cases "unat (b ! 3) \<le> 252 \<and> 3 + unat (b ! 3) \<le> unat cl")
    case True
    then show ?thesis
      using False rds len wf cl
      by (auto simp: parse_data_send_def decode_data_send_def word_less_3 word_pos
            short_word_bound wf_req_def rd_range_def wr_range_def Let_def)
  next
    case bad: False
    then show ?thesis
      using False rds wf cl
      by (cases "unat (b ! 3) \<le> 252")
        (auto simp: parse_data_send_def decode_data_send_def word_less_3
            short_word_bound wf_req_def Let_def)
  qed
qed

text \<open>
  \<open>pa_cmd_parse\<close> implements \<open>decode_command\<close>: no access leaves \<open>buf\<close> or \<open>payload\<close>, the
  return value is the decoder's verdict, and on success the out-parameters hold the command.
\<close>

lemma parse_refines:
  assumes wf: "wf_req p"
  shows "\<exists>op' p'. pa_cmd_parse (Some b) (length b) (Some op) (Some p) =
           Some (case decode_command b of Inl e \<Rightarrow> error_code e | Inr _ \<Rightarrow> 0, Some op', Some p')
         \<and> wf_req p'
         \<and> (\<forall>c. decode_command b = Inr c \<longrightarrow>
               (op' = PA_OPCODE_STATUS_GET_REQ \<or> op' = PA_OPCODE_DATA_SEND_REQ)
               \<and> c = read_command op' p')"
proof (cases "2 \<le> length b \<and> unat (b ! 0) + 1 \<le> length b")
  case False
  then show ?thesis
    using wf by (auto simp: pa_cmd_parse_def decode_command_def rd_def)
next
  case True
  then have rds: "rd b 0 = Some (b ! 0)" "rd b 1 = Some (b ! 1)"
    by (auto intro!: rd_in)
  show ?thesis
  proof (cases "b ! 1 = PA_OPCODE_DATA_SEND_REQ")
    case True': True
    obtain p' where "parse_data_send b (b ! 0) (b ! 1) (Some p) =
        Some (case decode_data_send b of Inl e \<Rightarrow> error_code e | Inr _ \<Rightarrow> 0, Some (b ! 1), Some p')"
      and "wf_req p'"
      and "\<forall>c. decode_data_send b = Inr c \<longrightarrow>
              c = DataSend (advertising_sid p') (take (unat (data_length p')) (req_data p'))"
      using parse_data_send_ok [of "b ! 0" b p "b ! 1"] True wf by auto
    then show ?thesis
      using True True' rds by (auto simp: pa_cmd_parse_def decode_command_def read_command_def)
  next
    case False
    then show ?thesis
      using True rds wf by (auto simp: pa_cmd_parse_def decode_command_def read_command_def)
  qed
qed

text \<open>Bytes of the buffer behind the announced length do not matter.\<close>

lemma parse_take:
  assumes n: "n \<le> length b"
  shows "pa_cmd_parse (Some b) n op p = pa_cmd_parse (Some (take n b)) n op p"
proof (cases "2 \<le> n \<and> unat (b ! 0) + 1 \<le> n")
  case False
  then show ?thesis
    using n by (cases "n < 2") (auto simp: pa_cmd_parse_def rd_def)
next
  case True
  then have rds: "rd (take n b) 0 = rd b 0" "rd (take n b) 1 = rd b 1" "rd b 0 = Some (b ! 0)"
    using n by (auto simp: rd_take rd_def)
  have "parse_data_send b (b ! 0) x p = parse_data_send (take n b) (b ! 0) x p" for x
  proof (cases "unat (b ! 0) < 3")
    case True
    then show ?thesis by (simp add: parse_data_send_def word_less_3 split: option.split)
  next
    case False
    then have "rd (take n b) 2 = rd b 2" "rd (take n b) 3 = rd b 3"
      using True n by (auto simp: rd_take)
    moreover have "rd_range (take n b) 4 (unat dl) = rd_range b 4 (unat dl)"
      if "unat dl \<le> 252" "\<not> b ! 0 < 3 + dl" for dl
      using that True n short_word_bound [of dl "b ! 0"] by (intro rd_range_take) auto
    ultimately show ?thesis
      by (auto simp: parse_data_send_def Let_def bind_eq_Some_conv intro!: Option.bind_cong
          split: option.split)
  qed
  then show ?thesis
    using rds True by (auto simp: pa_cmd_parse_def intro!: Option.bind_cong)
qed

lemma unat_add_of_nat: "k + n < 256 \<Longrightarrow> unat (of_nat k + of_nat n :: u8) = k + n"
  using u8_of_nat [of "k + n"] by simp

lemma decode_frame_data_send:
  assumes "length d \<le> PA_MAX_DATA_SIZE"
  shows "decode_command (frame_data_send_req sid d) = Inr (DataSend sid d)"
proof -
  have "unat (3 + of_nat (length d) :: u8) = 3 + length d"
    using assms unat_add_of_nat [of 3 "length d"] by simp
  moreover have "unat (of_nat (length d) :: u8) = length d"
    using assms by (simp add: u8_of_nat)
  ultimately show ?thesis
    using assms by (simp add: decode_command_def decode_data_send_def frame_data_send_req_def)
qed

lemma decode_frame_status_get: "decode_command frame_status_get_req = Inr StatusGet"
  by (simp add: decode_command_def frame_status_get_req_def)

text \<open>The serialisers write the frames, into a prefix of the buffer.\<close>

lemma serialize_status_rsp_ok:
  assumes wf: "wf_status_rsp r" and n: "unat (num_advertising r) = n" "n \<le> PA_MAX_ADV_SETS"
    and size: "3 + 2 * n \<le> buf_size" "buf_size \<le> length b"
  shows "pa_cmd_serialize_status_rsp (Some r) (Some b) buf_size =
    Some (int (3 + 2 * n),
      Some (frame_status_rsp (zip (take n (adv_sid r)) (take n (pa_available_bytes r)))
            @ drop (3 + 2 * n) b))"
proof -
  have num: "num_advertising r = of_nat n"
    using n(1) by auto
  obtain x y z b' where b: "b = x # y # z # b'"
    using size by (cases b; cases "tl b"; cases "tl (tl b)") auto
  show ?thesis
    using wf n size num
    by (simp add: pa_cmd_serialize_status_rsp_def wf_status_rsp_def b wr_def mem_simps
        frame_status_rsp_def min_def mult.commute numeral_2_eq_2 numeral_3_eq_3)
qed

lemma serialize_status_rsp_out:
  assumes "wf_status_rsp r" and "PA_MAX_ADV_SETS < unat (num_advertising r)"
    and "3 + 2 * unat (num_advertising r) \<le> buf_size"
  shows "pa_cmd_serialize_status_rsp (Some r) (Some b) buf_size = None"
proof -
  have "copy_loop (adv_sid r) 0 (unat (num_advertising r)) 3 d = None" for d
    using assms(1,2) by (intro copy_loop_out) (auto simp: wf_status_rsp_def)
  then show ?thesis
    using assms(3)
    by (auto simp: pa_cmd_serialize_status_rsp_def Let_def bind_eq_None_conv split: option.splits)
qed

lemma serialize_data_send_rsp_ok:
  assumes "3 \<le> buf_size" and "buf_size \<le> length b"
  shows "pa_cmd_serialize_data_send_rsp result (Some b) buf_size =
    Some (3, Some (frame_data_send_rsp result @ drop 3 b))"
proof -
  obtain x y z b' where "b = x # y # z # b'"
    using assms by (cases b; cases "tl b"; cases "tl (tl b)") auto
  then show ?thesis
    using assms
    by (simp add: pa_cmd_serialize_data_send_rsp_def frame_data_send_rsp_def wr_def
        numeral_2_eq_2)
qed

lemma serialize_data_send_complete_ok:
  assumes "2 \<le> buf_size" and "buf_size \<le> length b"
  shows "pa_cmd_serialize_data_send_complete (Some b) buf_size =
    Some (2, Some (frame_data_send_complete @ drop 2 b))"
proof -
  obtain x y b' where "b = x # y # b'"
    using assms by (cases b; cases "tl b") auto
  then show ?thesis
    using assms
    by (simp add: pa_cmd_serialize_data_send_complete_def frame_data_send_complete_def wr_def)
qed

lemma length_frame_status_rsp: "length (frame_status_rsp sets) = 3 + 2 * length sets"
  by (simp add: frame_status_rsp_def)

section \<open>Properties\<close>

text \<open>C10: For every received byte sequence whose length is passed truthfully, the parser
  stays inside the buffer and the payload, and returns exactly the verdict of the protocol's
  decoder: code 0 and the decoded command for a well-formed frame, -1 for a frame of fewer than
  two bytes, -2 for a bad length, -3 for an unknown opcode.\<close>

theorem parse_implements_decoder:
  assumes "length (req_data p) = PA_MAX_DATA_SIZE"
  shows "\<exists>op' p'. pa_cmd_parse (Some b) (length b) (Some op) (Some p) =
           Some (case decode_command b of Inl e \<Rightarrow> error_code e | Inr _ \<Rightarrow> 0, Some op', Some p')
         \<and> length (req_data p') = PA_MAX_DATA_SIZE
         \<and> (\<forall>c. decode_command b = Inr c \<longrightarrow> c = read_command op' p')"
  using parse_refines [of p b op] assms by (auto simp: wf_req_def)

theorem parse_implements_decoder_witness:
  "\<exists>op' p'. pa_cmd_parse (Some [4, 0x10, 7, 1, 99]) (length [4, 0x10, 7, 1, 99 :: u8]) (Some 0)
       (Some \<lparr>advertising_sid = 0, data_length = 0, req_data = replicate 252 0\<rparr>) =
     Some (0, Some op', Some p') \<and> read_command op' p' = DataSend 7 [99]"
  using parse_implements_decoder
    [of "\<lparr>advertising_sid = 0, data_length = 0, req_data = replicate 252 0\<rparr>" "[4, 0x10, 7, 1, 99]" 0]
  by (auto simp: decode_command_def decode_data_send_def)

text \<open>A data send request that the host encodes as the protocol says, with at most 252
  data bytes, is parsed back to the same SID and the same data, and its opcode is the request's.\<close>

lemma parse_frame_roundtrip:
  assumes "length d \<le> PA_MAX_DATA_SIZE" and "length (req_data p) = PA_MAX_DATA_SIZE"
  shows "\<exists>op' p'. pa_cmd_parse (Some (frame_data_send_req sid d))
             (length (frame_data_send_req sid d)) (Some op) (Some p) = Some (0, Some op', Some p')
         \<and> read_command op' p' = DataSend sid d"
  using parse_refines [of p "frame_data_send_req sid d" op] assms
  by (auto simp: wf_req_def decode_frame_data_send)

text \<open>The status response is the protocol's frame for the reported advertising sets,
  written at the start of the buffer with the rest untouched, whenever at most four sets are
  reported and they fit; with more than four sets reported and room for them the routine reads
  past its arrays.\<close>

lemma serialize_status_rsp_frame:
  assumes "length (adv_sid r) = PA_MAX_ADV_SETS"
    and "length (pa_available_bytes r) = PA_MAX_ADV_SETS"
    and "3 + 2 * unat (num_advertising r) \<le> length b"
  shows "pa_cmd_serialize_status_rsp (Some r) (Some b) (length b) =
    (let n = unat (num_advertising r)
     in if n \<le> PA_MAX_ADV_SETS
        then Some (int (3 + 2 * n),
               Some (frame_status_rsp (zip (take n (adv_sid r)) (take n (pa_available_bytes r)))
                     @ drop (3 + 2 * n) b))
        else None)"
  using assms serialize_status_rsp_ok [of r "unat (num_advertising r)" "length b" b]
    serialize_status_rsp_out [of r "length b" b]
  by (simp add: wf_status_rsp_def Let_def)

end
