(* ===== verification/PaPorts.thy ===== *)
theory PaPorts
  imports PaCmdParser
begin

text \<open>
  The platform-independent ports of \<open>src/ports/\<close>: each C structure of function pointers is a
  record of functions over a world \<open>'w\<close>, which stands for everything the \<open>void *ctx\<close> of the
  ports can reach. Callbacks handed to a port are named by \<open>callback\<close>, one constructor per
  function whose address the program passes.

  The locale \<open>pa_platform\<close> is the contract between the application layer and any set of
  adapters: what a caller may observe of the world (bytes on the wire, the armed timer, the
  advertised data) and how each port operation changes it.
\<close>

section \<open>Ports\<close>

datatype callback = Pa_service_on_command | Pa_service_on_pa_interval | Button_event_handler

record pa_adv_info =
  sid :: u8
  available_bytes :: u8

record 'w pa_port_uart =
  uart_init :: "'w \<Rightarrow> callback \<Rightarrow> int \<times> 'w"
  uart_send :: "'w \<Rightarrow> u8 list \<Rightarrow> nat \<Rightarrow> (int \<times> 'w) option"

record 'w pa_port_ble_pa =
  set_data :: "'w \<Rightarrow> u8 \<Rightarrow> u8 list \<Rightarrow> u8 \<Rightarrow> (int \<times> 'w) option"
  get_status :: "'w \<Rightarrow> pa_adv_info list \<Rightarrow> u8 \<Rightarrow> (int \<times> u8 \<times> pa_adv_info list \<times> 'w) option"
  is_ready :: "'w \<Rightarrow> bool"

record 'w pa_port_timer =
  start_oneshot :: "'w \<Rightarrow> u32 \<Rightarrow> callback \<Rightarrow> int \<times> 'w"
  timer_stop :: "'w \<Rightarrow> int \<times> 'w"

datatype pa_button_id =
  PA_BUTTON_PLAY_PAUSE | PA_BUTTON_VOLUME_UP | PA_BUTTON_VOLUME_DOWN | PA_BUTTON_ACTION
| PA_BUTTON_ID_COUNT

datatype pa_button_action = PA_BUTTON_PRESSED

datatype pa_led_id =
  PA_LED_CONN_STATUS | PA_LED_SYNC_STATUS | PA_LED_APP_STATUS | PA_LED_ID_COUNT

record 'w pa_port_led =
  port_led_on :: "'w \<Rightarrow> pa_led_id \<Rightarrow> int \<times> 'w"
  port_led_off :: "'w \<Rightarrow> pa_led_id \<Rightarrow> int \<times> 'w"
  port_led_blink :: "'w \<Rightarrow> pa_led_id \<Rightarrow> int \<times> 'w"

section \<open>Contract\<close>

locale pa_platform =
  fixes uart :: "'w pa_port_uart"
    and ble :: "'w pa_port_ble_pa"
    and timer :: "'w pa_port_timer"
    and wire :: "'w \<Rightarrow> u8 list"
    and armed :: "'w \<Rightarrow> (u32 \<times> callback) option"
    and advertised :: "'w \<Rightarrow> u8 list"
    and ok :: "'w \<Rightarrow> bool"
  assumes send_law: "ok w \<Longrightarrow> n \<le> length d \<Longrightarrow>
      \<exists>r w'. uart_send uart w d n = Some (r, w') \<and> ok w' \<and> wire w' = wire w @ take n d
        \<and> armed w' = armed w \<and> advertised w' = advertised w \<and> is_ready ble w' = is_ready ble w"
    and set_data_law: "ok w \<Longrightarrow> unat len \<le> length d \<Longrightarrow> unat len \<le> PA_MAX_DATA_SIZE \<Longrightarrow>
      \<exists>r w'. set_data ble w s d len = Some (r, w') \<and> ok w' \<and> wire w' = wire w
        \<and> armed w' = armed w \<and> is_ready ble w' = is_ready ble w
        \<and> advertised w' = (if r = 0 then take (unat len) d else advertised w)"
    and get_status_law: "ok w \<Longrightarrow> length info = PA_MAX_ADV_SETS \<Longrightarrow>
      \<exists>r n info' w'. get_status ble w info (of_nat PA_MAX_ADV_SETS) = Some (r, n, info', w')
        \<and> unat n \<le> PA_MAX_ADV_SETS \<and> length info' = PA_MAX_ADV_SETS
        \<and> ok w' \<and> wire w' = wire w \<and> armed w' = armed w \<and> advertised w' = advertised w
        \<and> is_ready ble w' = is_ready ble w"
    and start_law: "ok w \<Longrightarrow> start_oneshot timer w ms cb = (r, w') \<Longrightarrow>
      ok w' \<and> wire w' = wire w \<and> armed w' = Some (ms, cb) \<and> advertised w' = advertised w
        \<and> is_ready ble w' = is_ready ble w"

end
