(* ===== verification/PaDataManager.thy ===== *)
theory PaDataManager
  imports PaCmdParser
begin

text \<open>
  The transmission state machine of \<open>src/core/pa_data_manager.c\<close>: one slot of periodic
  advertising data that is idle, pending or complete. The abstract machine \<open>slot\<close> is what the
  component promises; \<open>slot_of\<close> relates a context to it. The locale \<open>single_slot\<close> states
  the contract a client may rely on, and is interpreted on the code's operations.
\<close>

section \<open>State (pa_data_manager.h)\<close>

datatype pa_data_state = PA_STATE_IDLE | PA_STATE_PENDING | PA_STATE_COMPLETE

record pa_data_context =
  state :: pa_data_state
  current_sid :: u8
  ctx_data :: "u8 list"
  ctx_data_length :: u8
  baas_overhead :: u8

definition wf_ctx :: "pa_data_context \<Rightarrow> bool" where
  "wf_ctx c \<longleftrightarrow> length (ctx_data c) = PA_MAX_DATA_SIZE \<and>
     unat (ctx_data_length c) \<le> PA_MAX_DATA_SIZE - unat (baas_overhead c)"

section \<open>Operations\<close>

text \<open>A context pointer that the code compares with \<open>NULL\<close> is an option.\<close>

definition pa_data_mgr_init :: "pa_data_context option \<Rightarrow> u8 \<Rightarrow> pa_data_context option" where
  "pa_data_mgr_init ctx overhead =
     (case ctx of
        None \<Rightarrow> None
      | Some _ \<Rightarrow>
          Some \<lparr>state = PA_STATE_IDLE, current_sid = 0, ctx_data = replicate PA_MAX_DATA_SIZE 0,
                ctx_data_length = 0, baas_overhead = overhead\<rparr>)"

definition pa_data_mgr_available_bytes :: "pa_data_context option \<Rightarrow> u8" where
  "pa_data_mgr_available_bytes ctx =
     (case ctx of
        None \<Rightarrow> 0
      | Some c \<Rightarrow>
          if of_nat PA_MAX_DATA_SIZE \<le> baas_overhead c then 0
          else of_nat PA_MAX_DATA_SIZE - baas_overhead c)"

definition pa_data_mgr_submit ::
  "pa_data_context option \<Rightarrow> u8 \<Rightarrow> u8 list option \<Rightarrow> u8 \<Rightarrow>
   (u8 \<times> pa_data_context option) option" where
  "pa_data_mgr_submit ctx sid data data_len =
     (case (ctx, data) of
        (Some c, Some d) \<Rightarrow>
          if state c \<noteq> PA_STATE_IDLE then Some (PA_RESULT_BUSY, ctx)
          else if pa_data_mgr_available_bytes ctx < data_len
            then Some (PA_RESULT_DATA_TOO_LARGE, ctx)
          else do {
            src \<leftarrow> rd_range d 0 (unat data_len);
            dst \<leftarrow> wr_range (ctx_data c) 0 src;
            Some (PA_RESULT_SUCCESS,
              Some (c\<lparr>current_sid := sid, ctx_data_length := data_len, ctx_data := dst,
                       state := PA_STATE_PENDING\<rparr>)) }
      | _ \<Rightarrow> Some (PA_RESULT_NOT_READY, ctx))"

definition pa_data_mgr_on_pa_interval ::
  "pa_data_context option \<Rightarrow> bool \<times> pa_data_context option" where
  "pa_data_mgr_on_pa_interval ctx =
     (case ctx of
        None \<Rightarrow> (False, None)
      | Some c \<Rightarrow>
          if state c \<noteq> PA_STATE_PENDING then (False, ctx)
          else (True, Some (c\<lparr>state := PA_STATE_COMPLETE\<rparr>)))"

definition pa_data_mgr_reset :: "pa_data_context option \<Rightarrow> pa_data_context option" where
  "pa_data_mgr_reset ctx =
     (case ctx of
        None \<Rightarrow> None
      | Some c \<Rightarrow> Some (c\<lparr>state := PA_STATE_IDLE, ctx_data_length := 0\<rparr>))"

definition pa_data_mgr_state_get :: "pa_data_context option \<Rightarrow> pa_data_state" where
  "pa_data_mgr_state_get ctx = (case ctx of None \<Rightarrow> PA_STATE_IDLE | Some c \<Rightarrow> state c)"

lemmas mgr_defs = pa_data_mgr_init_def pa_data_mgr_available_bytes_def pa_data_mgr_submit_def
  pa_data_mgr_on_pa_interval_def pa_data_mgr_reset_def pa_data_mgr_state_get_def

section \<open>The abstract slot\<close>

datatype slot = Idle | Pending u8 "u8 list" | Complete u8 "u8 list"

definition payload :: "pa_data_context \<Rightarrow> u8 list" where
  "payload c = take (unat (ctx_data_length c)) (ctx_data c)"

definition slot_of :: "pa_data_context \<Rightarrow> slot" where
  "slot_of c = (case state c of
      PA_STATE_IDLE \<Rightarrow> Idle
    | PA_STATE_PENDING \<Rightarrow> Pending (current_sid c) (payload c)
    | PA_STATE_COMPLETE \<Rightarrow> Complete (current_sid c) (payload c))"

definition capacity :: "u8 \<Rightarrow> nat" where
  "capacity overhead = PA_MAX_DATA_SIZE - unat overhead"

fun slot_submit :: "nat \<Rightarrow> slot \<Rightarrow> u8 \<Rightarrow> u8 list \<Rightarrow> u8 \<times> slot" where
  "slot_submit cap Idle sid d =
     (if length d \<le> cap then (PA_RESULT_SUCCESS, Pending sid d)
      else (PA_RESULT_DATA_TOO_LARGE, Idle))"
| "slot_submit cap s sid d = (PA_RESULT_BUSY, s)"

fun slot_elapse :: "slot \<Rightarrow> bool \<times> slot" where
  "slot_elapse (Pending sid d) = (True, Complete sid d)"
| "slot_elapse s = (False, s)"

section \<open>Lemmas\<close>

lemma available_capacity: "unat (pa_data_mgr_available_bytes (Some c)) = capacity (baas_overhead c)"
  by (auto simp: pa_data_mgr_available_bytes_def capacity_def word_le_nat_alt unat_sub)

lemma init_wf: "pa_data_mgr_init (Some c) ov = Some c' \<Longrightarrow> wf_ctx c' \<and> slot_of c' = Idle"
  by (auto simp: pa_data_mgr_init_def wf_ctx_def slot_of_def)

text \<open>
  The submission refines the abstract one: it never leaves the arrays when \<open>data\<close> holds
  \<open>data_len\<close> bytes, and result code and new slot are those of \<open>slot_submit\<close>.
\<close>

lemma submit_refines:
  assumes wf: "wf_ctx c" and len: "unat dl \<le> length d"
  shows "\<exists>r c'. pa_data_mgr_submit (Some c) sid (Some d) dl = Some (r, Some c')
     \<and> wf_ctx c' \<and> baas_overhead c' = baas_overhead c
     \<and> (r, slot_of c') =
         slot_submit (capacity (baas_overhead c)) (slot_of c) sid (take (unat dl) d)
     \<and> (r \<noteq> PA_RESULT_SUCCESS \<longrightarrow> c' = c)"
proof (cases "state c = PA_STATE_IDLE \<and> unat dl \<le> capacity (baas_overhead c)")
  case True
  then have dl: "unat dl \<le> PA_MAX_DATA_SIZE" "\<not> pa_data_mgr_available_bytes (Some c) < dl"
    using available_capacity [of c] by (auto simp: capacity_def word_less_nat_alt)
  then show ?thesis
    using dl wf len True
    by (auto simp: pa_data_mgr_submit_def rd_range_def wr_range_def wf_ctx_def slot_of_def
        payload_def capacity_def min_def)
next
  case False
  then show ?thesis
    using wf len available_capacity [of c]
    by (cases "state c")
      (auto simp: pa_data_mgr_submit_def slot_of_def word_less_nat_alt min_def)
qed

lemma elapse_refines:
  assumes "wf_ctx c"
  shows "\<exists>t c'. pa_data_mgr_on_pa_interval (Some c) = (t, Some c')
     \<and> wf_ctx c' \<and> baas_overhead c' = baas_overhead c \<and> (t, slot_of c') = slot_elapse (slot_of c)"
  using assms
  by (cases "state c")
    (auto simp: pa_data_mgr_on_pa_interval_def slot_of_def wf_ctx_def payload_def)

lemma reset_refines:
  assumes "wf_ctx c"
  shows "\<exists>c'. pa_data_mgr_reset (Some c) = Some c'
     \<and> wf_ctx c' \<and> baas_overhead c' = baas_overhead c \<and> slot_of c' = Idle"
  using assms by (auto simp: pa_data_mgr_reset_def slot_of_def wf_ctx_def)

section \<open>The contract of a single slot\<close>

text \<open>
  What a client of the manager relies on: a busy slot refuses data and is left alone, an
  accepted submission makes it busy, only a reset frees it.
\<close>

datatype 'r slot_op = Submit 'r | Elapse | Reset

text \<open>A run of operations: the number of accepted submissions and of resets.\<close>

fun slot_run ::
  "('c \<Rightarrow> 'r \<Rightarrow> u8 \<times> 'c) \<Rightarrow> ('c \<Rightarrow> bool \<times> 'c) \<Rightarrow> ('c \<Rightarrow> 'c) \<Rightarrow> 'c \<Rightarrow> 'r slot_op list
   \<Rightarrow> nat \<times> nat \<times> 'c" where
  "slot_run sub el rs c [] = (0, 0, c)"
| "slot_run sub el rs c (Submit r # ops) =
     (let (e, c') = sub c r; (a, z, c'') = slot_run sub el rs c' ops
      in (if e = PA_RESULT_SUCCESS then Suc a else a, z, c''))"
| "slot_run sub el rs c (Elapse # ops) = slot_run sub el rs (snd (el c)) ops"
| "slot_run sub el rs c (Reset # ops) =
     (let (a, z, c') = slot_run sub el rs (rs c) ops in (a, Suc z, c'))"

locale single_slot =
  fixes submit :: "'c \<Rightarrow> 'r \<Rightarrow> u8 \<times> 'c"
    and elapse :: "'c \<Rightarrow> bool \<times> 'c"
    and reset :: "'c \<Rightarrow> 'c"
    and busy :: "'c \<Rightarrow> bool"
    and inv :: "'c \<Rightarrow> bool"
  assumes submit_busy: "inv c \<Longrightarrow> busy c \<Longrightarrow> submit c r = (PA_RESULT_BUSY, c)"
    and submit_success: "inv c \<Longrightarrow> submit c r = (PA_RESULT_SUCCESS, c') \<Longrightarrow> busy c'"
    and submit_refused: "inv c \<Longrightarrow> submit c r = (e, c') \<Longrightarrow> e \<noteq> PA_RESULT_SUCCESS \<Longrightarrow> c' = c"
    and submit_inv: "inv c \<Longrightarrow> submit c r = (e, c') \<Longrightarrow> inv c'"
    and elapse_busy: "inv c \<Longrightarrow> elapse c = (t, c') \<Longrightarrow> busy c' = busy c \<and> inv c'"
    and reset_free: "inv c \<Longrightarrow> \<not> busy (reset c) \<and> inv (reset c)"
begin

lemma run_bound:
  "inv c \<Longrightarrow> slot_run submit elapse reset c ops = (a, z, c') \<Longrightarrow> inv c' \<and> a + (if busy c then 1 else 0) \<le> z + 1"
proof (induction ops arbitrary: c a z c')
  case Nil
  then show ?case by simp
next
  case (Cons op ops)
  show ?case
  proof (cases op)
    case (Submit r)
    obtain e c1 where s: "submit c r = (e, c1)" by fastforce
    obtain a' z' c2 where r: "slot_run submit elapse reset c1 ops = (a', z', c2)"
      by (metis prod_cases3)
    have "inv c1" using submit_inv Cons.prems(1) s by blast
    then have IH: "inv c2 \<and> a' + (if busy c1 then 1 else 0) \<le> z' + 1"
      using Cons.IH r by blast
    show ?thesis
    proof (cases "e = PA_RESULT_SUCCESS")
      case True
      have "\<not> busy c" using submit_busy [OF Cons.prems(1)] s True by fastforce
      moreover have "busy c1" using submit_success Cons.prems(1) s True by blast
      ultimately show ?thesis using IH Cons.prems(2) s r True Submit by simp
    next
      case False
      then have "c1 = c" using submit_refused Cons.prems(1) s by blast
      then show ?thesis using IH Cons.prems(2) s r False Submit by simp
    qed
  next
    case Elapse
    then show ?thesis
      using Cons elapse_busy [of c "fst (elapse c)" "snd (elapse c)"] by fastforce
  next
    case Reset
    then show ?thesis
      using Cons reset_free [of c] by (fastforce split: prod.splits)
  qed
qed

end

text \<open>The code's operations on a valid context, as the client calls them.\<close>

definition mgr_submit :: "pa_data_context \<Rightarrow> u8 \<times> u8 list \<Rightarrow> u8 \<times> pa_data_context" where
  "mgr_submit c r =
     (case pa_data_mgr_submit (Some c) (fst r) (Some (snd r)) (of_nat (length (snd r))) of
        Some (e, Some c') \<Rightarrow> (e, c')
      | _ \<Rightarrow> (PA_RESULT_NOT_READY, c))"

definition mgr_elapse :: "pa_data_context \<Rightarrow> bool \<times> pa_data_context" where
  "mgr_elapse c = (case pa_data_mgr_on_pa_interval (Some c) of (t, c') \<Rightarrow> (t, the c'))"

definition mgr_reset :: "pa_data_context \<Rightarrow> pa_data_context" where
  "mgr_reset c = the (pa_data_mgr_reset (Some c))"

lemma of_nat_length_le: "unat (of_nat (length d) :: u8) \<le> length d"
  by (simp add: unat_of_nat)

lemma mgr_submit_props:
  assumes "wf_ctx c"
  shows "wf_ctx (snd (mgr_submit c r))
    \<and> (mgr_submit c r = (fst (mgr_submit c r), snd (mgr_submit c r)))
    \<and> (fst (mgr_submit c r) = PA_RESULT_SUCCESS \<longrightarrow>
         state c = PA_STATE_IDLE \<and> state (snd (mgr_submit c r)) = PA_STATE_PENDING)
    \<and> (fst (mgr_submit c r) \<noteq> PA_RESULT_SUCCESS \<longrightarrow> snd (mgr_submit c r) = c)
    \<and> (state c \<noteq> PA_STATE_IDLE \<longrightarrow> mgr_submit c r = (PA_RESULT_BUSY, c))"
proof -
  obtain e c' where s: "pa_data_mgr_submit (Some c) (fst r) (Some (snd r)) (of_nat (length (snd r)))
      = Some (e, Some c')"
    and wf: "wf_ctx c'" and keep: "e \<noteq> PA_RESULT_SUCCESS \<longrightarrow> c' = c"
    using submit_refines [OF assms of_nat_length_le, of "fst r" "snd r"] by blast
  have "e = PA_RESULT_SUCCESS \<Longrightarrow> state c = PA_STATE_IDLE \<and> state c' = PA_STATE_PENDING"
    and "state c \<noteq> PA_STATE_IDLE \<Longrightarrow> e = PA_RESULT_BUSY"
    using s by (auto simp: pa_data_mgr_submit_def bind_eq_Some_conv split: if_splits)
  then show ?thesis using s wf keep by (auto simp: mgr_submit_def)
qed

interpretation mgr: single_slot mgr_submit mgr_elapse mgr_reset
  "\<lambda>c. state c \<noteq> PA_STATE_IDLE" wf_ctx
proof (unfold_locales, goal_cases)
  case (1 c r) then show ?case using mgr_submit_props [of c r] by simp
next
  case (2 c r c') then show ?case using mgr_submit_props [of c r] by simp
next
  case (3 c r e c') then show ?case using mgr_submit_props [of c r] by simp
next
  case (4 c r e c') then show ?case using mgr_submit_props [of c r] by simp
next
  case (5 c t c')
  then show ?case
    by (auto simp: mgr_elapse_def pa_data_mgr_on_pa_interval_def wf_ctx_def split: if_splits)
next
  case (6 c)
  then show ?case by (auto simp: mgr_reset_def pa_data_mgr_reset_def wf_ctx_def)
qed

section \<open>Properties\<close>

text \<open>C13: Submitting data refines the abstract slot: on a valid context, with a source array
  that holds the announced bytes, no access leaves an array; the result is SUCCESS exactly when
  the slot is idle and the data fits the capacity left by the BASE overhead, DATA\_TOO\_LARGE or
  BUSY otherwise; an accepted slot is pending with exactly the submitted SID and bytes, and a
  refusal changes nothing.\<close>

theorem submit_implements_slot:
  assumes "wf_ctx c" and "unat dl \<le> length d"
  shows "\<exists>r c'. pa_data_mgr_submit (Some c) sid (Some d) dl = Some (r, Some c')
     \<and> wf_ctx c'
     \<and> (r, slot_of c') =
         slot_submit (252 - unat (baas_overhead c)) (slot_of c) sid (take (unat dl) d)
     \<and> (r \<noteq> PA_RESULT_SUCCESS \<longrightarrow> c' = c)"
  using submit_refines [OF assms, of sid] by (auto simp: capacity_def)

theorem submit_implements_slot_witness:
  "wf_ctx (the (pa_data_mgr_init (Some undefined) 10)) \<and>
   (\<exists>c'. pa_data_mgr_submit (pa_data_mgr_init (Some undefined) 10) 1 (Some [7, 8, 9]) 2
           = Some (PA_RESULT_SUCCESS, Some c') \<and> slot_of c' = Pending 1 [7, 8])"
proof -
  obtain c where c: "pa_data_mgr_init (Some undefined) 10 = Some c" "wf_ctx c"
      "slot_of c = Idle" "baas_overhead c = 10"
    by (auto simp: pa_data_mgr_init_def wf_ctx_def slot_of_def)
  have "unat (2 :: u8) \<le> length [7, 8, 9 :: u8]" by simp
  from submit_implements_slot [OF c(2) this, of 1] c show ?thesis by auto
qed

text \<open>C14: Over any sequence of submissions, interval expiries and resets from a valid context,
  the number of accepted submissions exceeds the number of resets by at most one, and not at all
  when the slot was busy at the start: at most one transmission is in flight.\<close>

theorem one_transmission_in_flight:
  assumes "wf_ctx c" and "slot_run mgr_submit mgr_elapse mgr_reset c ops = (a, z, c')"
  shows "a + (if state c \<noteq> PA_STATE_IDLE then 1 else 0) \<le> z + 1 \<and> wf_ctx c'"
  using mgr.run_bound [OF assms] by simp

theorem one_transmission_in_flight_witness:
  "\<exists>c a z c'. wf_ctx c \<and>
     slot_run mgr_submit mgr_elapse mgr_reset c
       [Submit (1, [7]), Submit (2, [8]), Elapse, Reset, Submit (3, [9])] = (a, z, c') \<and>
     a \<le> z + 1"
proof -
  obtain c where c: "wf_ctx c"
    using init_wf [of undefined 0] by (auto simp: pa_data_mgr_init_def)
  obtain a z c' where r: "slot_run mgr_submit mgr_elapse mgr_reset c
       [Submit (1, [7]), Submit (2, [8]), Elapse, Reset, Submit (3, [9])] = (a, z, c')"
    by (metis prod_cases3)
  from one_transmission_in_flight [OF c r] c r show ?thesis by fastforce
qed

end
