(* ===== verification/PaService.thy ===== *)
theory PaService
  imports PaPorts PaDataManager
begin

text \<open>
  The orchestrator \<open>src/app/pa_service.c\<close>: it parses commands received on the UART port,
  drives the transmission state machine and the BLE and timer ports, and answers on the wire.
  The operations take the ports they call; the client lemmas are proved in the locale
  \<open>pa_platform\<close> for every platform that keeps its laws.
\<close>

section \<open>State\<close>

abbreviation (input) PA_SERVICE_TX_BUF_SIZE :: nat where "PA_SERVICE_TX_BUF_SIZE \<equiv> 260"

record pa_service =
  pa_ctx :: pa_data_context
  tx_buf :: "u8 list"

definition wf_svc :: "pa_service \<Rightarrow> bool" where
  "wf_svc s \<longleftrightarrow> wf_ctx (pa_ctx s) \<and> length (tx_buf s) = PA_SERVICE_TX_BUF_SIZE"

section \<open>Operations\<close>

text \<open>The three ports are non-null in every call of the program, so only \<open>svc\<close> is an option.\<close>

definition pa_service_init ::
  "'w pa_port_uart \<Rightarrow> pa_service option \<Rightarrow> u8 \<Rightarrow> 'w \<Rightarrow> int \<times> pa_service option \<times> 'w" where
  "pa_service_init uart svc overhead w =
     (case svc of
        None \<Rightarrow> (-1, None, w)
      | Some s \<Rightarrow>
          (let s = s\<lparr>pa_ctx := the (pa_data_mgr_init (Some (pa_ctx s)) overhead)\<rparr>;
               (ret, w) = uart_init uart w Pa_service_on_command
           in if ret \<noteq> 0 then (ret, Some s, w) else (0, Some s, w)))"

text \<open>\<open>if (len > 0) svc->uart->send(svc->uart->ctx, svc->tx_buf, len)\<close>\<close>

definition send_tx :: "'w pa_port_uart \<Rightarrow> int \<Rightarrow> pa_service \<Rightarrow> 'w \<Rightarrow> (pa_service \<times> 'w) option" where
  "send_tx uart len svc w =
     (if 0 < len then do {
        (_, w) \<leftarrow> uart_send uart w (tx_buf svc) (nat len);
        Some (svc, w) }
      else Some (svc, w))"

text \<open>
  The loop that copies the reported sets into the response:
  \<open>for (i = 0; i < rsp.num_advertising && i < PA_MAX_ADV_SETS; i++)\<close>.
\<close>

fun fill_status :: "pa_adv_info list \<Rightarrow> nat \<Rightarrow> nat \<Rightarrow> pa_status_get_rsp \<Rightarrow> pa_status_get_rsp option" where
  "fill_status info i 0 rsp = Some rsp"
| "fill_status info i (Suc k) rsp = do {
     x \<leftarrow> rd info i;
     sids \<leftarrow> wr (adv_sid rsp) i (sid x);
     avs \<leftarrow> wr (pa_available_bytes rsp) i (available_bytes x);
     fill_status info (Suc i) k (rsp\<lparr>adv_sid := sids, pa_available_bytes := avs\<rparr>) }"

text \<open>\<open>info0\<close> is the uninitialised content of the local array \<open>info\<close>.\<close>

definition collect_status ::
  "'w pa_port_ble_pa \<Rightarrow> pa_adv_info list \<Rightarrow> 'w \<Rightarrow> (pa_status_get_rsp \<times> 'w) option" where
  "collect_status ble info0 w = (
     let rsp = \<lparr>num_advertising = 0, adv_sid = replicate PA_MAX_ADV_SETS 0,
                pa_available_bytes = replicate PA_MAX_ADV_SETS 0\<rparr>
     in if is_ready ble w then do {
          (_, n, info, w) \<leftarrow> get_status ble w info0 (of_nat PA_MAX_ADV_SETS);
          rsp \<leftarrow> fill_status info 0 (min (unat n) PA_MAX_ADV_SETS) (rsp\<lparr>num_advertising := n\<rparr>);
          Some (rsp, w) }
        else Some (rsp, w))"

definition handle_status_get_req ::
  "'w pa_port_uart \<Rightarrow> 'w pa_port_ble_pa \<Rightarrow> pa_adv_info list \<Rightarrow> pa_service \<Rightarrow> 'w
   \<Rightarrow> (pa_service \<times> 'w) option" where
  "handle_status_get_req uart ble info0 svc w = do {
     (rsp, w) \<leftarrow> collect_status ble info0 w;
     (len, buf) \<leftarrow> pa_cmd_serialize_status_rsp (Some rsp) (Some (tx_buf svc)) PA_SERVICE_TX_BUF_SIZE;
     send_tx uart len (svc\<lparr>tx_buf := the buf\<rparr>) w }"

definition send_data_rsp ::
  "'w pa_port_uart \<Rightarrow> u8 \<Rightarrow> pa_service \<Rightarrow> 'w \<Rightarrow> (pa_service \<times> 'w) option" where
  "send_data_rsp uart result svc w = do {
     (len, buf) \<leftarrow> pa_cmd_serialize_data_send_rsp result (Some (tx_buf svc)) PA_SERVICE_TX_BUF_SIZE;
     send_tx uart len (svc\<lparr>tx_buf := the buf\<rparr>) w }"

definition handle_data_send_req ::
  "'w pa_port_uart \<Rightarrow> 'w pa_port_ble_pa \<Rightarrow> 'w pa_port_timer \<Rightarrow> pa_data_send_req
   \<Rightarrow> pa_service \<Rightarrow> 'w \<Rightarrow> (pa_service \<times> 'w) option" where
  "handle_data_send_req uart ble timer req svc w =
     (if \<not> is_ready ble w then send_data_rsp uart PA_RESULT_NOT_READY svc w
      else do {
        (result, ctx) \<leftarrow> pa_data_mgr_submit (Some (pa_ctx svc)) (advertising_sid req)
                          (Some (req_data req)) (data_length req);
        let svc = svc\<lparr>pa_ctx := the ctx\<rparr>;
        if result \<noteq> PA_RESULT_SUCCESS then send_data_rsp uart result svc w
        else do {
          (ret, w) \<leftarrow> set_data ble w (advertising_sid req) (req_data req) (data_length req);
          if ret \<noteq> 0
          then send_data_rsp uart PA_RESULT_NOT_READY
                 (svc\<lparr>pa_ctx := the (pa_data_mgr_reset (Some (pa_ctx svc)))\<rparr>) w
          else (let (_, w) = start_oneshot timer w 250 Pa_service_on_pa_interval
                in send_data_rsp uart result svc w) } })"

text \<open>\<open>payload0\<close> and \<open>opcode0\<close> are the uninitialised locals handed to the parser.\<close>

definition pa_service_on_command ::
  "'w pa_port_uart \<Rightarrow> 'w pa_port_ble_pa \<Rightarrow> 'w pa_port_timer
   \<Rightarrow> pa_adv_info list \<Rightarrow> u8 \<Rightarrow> pa_data_send_req
   \<Rightarrow> u8 list \<Rightarrow> nat \<Rightarrow> pa_service \<Rightarrow> 'w \<Rightarrow> (pa_service \<times> 'w) option" where
  "pa_service_on_command uart ble timer info0 opcode0 payload0 data len svc w = do {
     (ret, opcode, payload) \<leftarrow> pa_cmd_parse (Some data) len (Some opcode0) (Some payload0);
     if ret \<noteq> 0 then Some (svc, w)
     else if the opcode = PA_OPCODE_STATUS_GET_REQ then handle_status_get_req uart ble info0 svc w
     else if the opcode = PA_OPCODE_DATA_SEND_REQ
       then handle_data_send_req uart ble timer (the payload) svc w
     else Some (svc, w) }"

definition pa_service_on_pa_interval ::
  "'w pa_port_uart \<Rightarrow> pa_service \<Rightarrow> 'w \<Rightarrow> (pa_service \<times> 'w) option" where
  "pa_service_on_pa_interval uart svc w =
     (let (transitioned, ctx) = pa_data_mgr_on_pa_interval (Some (pa_ctx svc));
          svc = svc\<lparr>pa_ctx := the ctx\<rparr>
      in if transitioned then do {
           (len, buf) \<leftarrow> pa_cmd_serialize_data_send_complete (Some (tx_buf svc)) PA_SERVICE_TX_BUF_SIZE;
           (svc, w) \<leftarrow> send_tx uart len (svc\<lparr>tx_buf := the buf\<rparr>) w;
           Some (svc\<lparr>pa_ctx := the (pa_data_mgr_reset (Some (pa_ctx svc)))\<rparr>, w) }
         else Some (svc, w))"

lemma on_command_take:
  "n \<le> length b \<Longrightarrow> pa_service_on_command uart ble timer i0 op0 p0 b n svc w =
    pa_service_on_command uart ble timer i0 op0 p0 (take n b) (length (take n b)) svc w"
  unfolding pa_service_on_command_def by (subst parse_take) (simp_all add: min_absorb2)

section \<open>What a data send request does\<close>

text \<open>
  The visible outcome of a request for \<open>(s, d)\<close>: the result byte answered, and the slot, the
  armed timer and the advertised data afterwards. \<open>accepted\<close> is the BLE port's verdict, which
  matters only when the data got as far as the port.
\<close>

definition data_send_outcome ::
  "bool \<Rightarrow> nat \<Rightarrow> bool \<Rightarrow> u8 \<Rightarrow> u8 list \<Rightarrow> slot \<times> (u32 \<times> callback) option \<times> u8 list
   \<Rightarrow> u8 \<times> slot \<times> (u32 \<times> callback) option \<times> u8 list" where
  "data_send_outcome ready cap accepted s d view =
     (case view of (slot, tm, adv) \<Rightarrow>
        if \<not> ready then (PA_RESULT_NOT_READY, view)
        else if slot \<noteq> Idle then (PA_RESULT_BUSY, view)
        else if cap < length d then (PA_RESULT_DATA_TOO_LARGE, view)
        else if \<not> accepted then (PA_RESULT_NOT_READY, view)
        else (PA_RESULT_SUCCESS, Pending s d, Some (250, Pa_service_on_pa_interval), d))"

text \<open>Whether the BLE port takes the data of a request.\<close>

definition port_accepts :: "'w pa_port_ble_pa \<Rightarrow> 'w \<Rightarrow> pa_data_send_req \<Rightarrow> bool" where
  "port_accepts ble w req =
     (case set_data ble w (advertising_sid req) (req_data req) (data_length req) of
        None \<Rightarrow> False | Some (r, _) \<Rightarrow> r = 0)"

section \<open>Client lemmas, for every platform\<close>

lemma fill_status_ok:
  "length info = PA_MAX_ADV_SETS \<Longrightarrow> length (adv_sid r) = PA_MAX_ADV_SETS \<Longrightarrow>
   length (pa_available_bytes r) = PA_MAX_ADV_SETS \<Longrightarrow> i + k \<le> PA_MAX_ADV_SETS \<Longrightarrow>
   \<exists>r'. fill_status info i k r = Some r' \<and> wf_status_rsp r' \<and> num_advertising r' = num_advertising r
     \<and> (\<forall>j < PA_MAX_ADV_SETS. adv_sid r' ! j =
          (if i \<le> j \<and> j < i + k then sid (info ! j) else adv_sid r ! j)
        \<and> pa_available_bytes r' ! j =
          (if i \<le> j \<and> j < i + k then available_bytes (info ! j) else pa_available_bytes r ! j))"
proof (induction k arbitrary: i r)
  case 0
  then show ?case by (auto simp: wf_status_rsp_def)
next
  case (Suc k)
  let ?r = "r\<lparr>adv_sid := (adv_sid r)[i := sid (info ! i)],
              pa_available_bytes := (pa_available_bytes r)[i := available_bytes (info ! i)]\<rparr>"
  have "fill_status info i (Suc k) r = fill_status info (Suc i) k ?r"
    using Suc.prems by (simp add: mem_simps)
  with Suc.IH [of ?r "Suc i"] Suc.prems show ?case
    by (auto simp: nth_list_update less_Suc_eq_le Suc_le_eq le_less split: if_splits)
qed

context pa_platform
begin

text \<open>Nothing but the wire changes.\<close>

definition only_wire :: "'w \<Rightarrow> u8 list \<Rightarrow> 'w \<Rightarrow> bool" where
  "only_wire w out w' \<longleftrightarrow> ok w' \<and> wire w' = wire w @ out \<and> armed w' = armed w
     \<and> advertised w' = advertised w \<and> is_ready ble w' = is_ready ble w"

lemma send_tx_ok:
  assumes "ok w" and "0 < n" and "nat n \<le> length (tx_buf svc)"
  shows "\<exists>w'. send_tx uart n svc w = Some (svc, w') \<and> only_wire w (take (nat n) (tx_buf svc)) w'"
  using send_law [OF assms(1,3)] assms(2) by (auto simp: send_tx_def only_wire_def)

lemma send_data_rsp_ok:
  assumes "ok w" and "wf_svc svc"
  shows "\<exists>svc' w'. send_data_rsp uart r svc w = Some (svc', w') \<and> wf_svc svc'
     \<and> pa_ctx svc' = pa_ctx svc \<and> only_wire w (frame_data_send_rsp r) w'"
proof -
  let ?buf = "frame_data_send_rsp r @ drop 3 (tx_buf svc)"
  have "pa_cmd_serialize_data_send_rsp r (Some (tx_buf svc)) PA_SERVICE_TX_BUF_SIZE = Some (3, Some ?buf)"
    using assms(2) by (intro serialize_data_send_rsp_ok) (auto simp: wf_svc_def)
  then show ?thesis
    using assms send_tx_ok [OF assms(1), of 3 "svc\<lparr>tx_buf := ?buf\<rparr>"]
    by (auto simp: send_data_rsp_def wf_svc_def frame_data_send_rsp_def)
qed

text \<open>The sets a response reports.\<close>

definition sets_of :: "pa_status_get_rsp \<Rightarrow> (u8 \<times> u8) list" where
  "sets_of r = zip (take (unat (num_advertising r)) (adv_sid r))
                   (take (unat (num_advertising r)) (pa_available_bytes r))"

text \<open>The sets the BLE port offers, none when it is not ready.\<close>

definition offered :: "pa_adv_info list \<Rightarrow> 'w \<Rightarrow> (u8 \<times> u8) list" where
  "offered info0 w =
     (if is_ready ble w
      then (case get_status ble w info0 (of_nat PA_MAX_ADV_SETS) of
              None \<Rightarrow> []
            | Some (_, n, info, _) \<Rightarrow> map (\<lambda>x. (sid x, available_bytes x)) (take (unat n) info))
      else [])"

lemma collect_status_ok:
  assumes w: "ok w" and info: "length info0 = PA_MAX_ADV_SETS"
  shows "\<exists>r w'. collect_status ble info0 w = Some (r, w') \<and> wf_status_rsp r
     \<and> unat (num_advertising r) \<le> PA_MAX_ADV_SETS \<and> only_wire w [] w' \<and> sets_of r = offered info0 w"
proof (cases "is_ready ble w")
  case False
  then show ?thesis
    using w by (simp add: collect_status_def wf_status_rsp_def only_wire_def sets_of_def offered_def)
next
  case True
  let ?r0 = "\<lparr>num_advertising = 0, adv_sid = replicate PA_MAX_ADV_SETS 0,
                pa_available_bytes = replicate PA_MAX_ADV_SETS 0\<rparr> :: pa_status_get_rsp"
  obtain rr n info w1 where g: "get_status ble w info0 (of_nat PA_MAX_ADV_SETS) = Some (rr, n, info, w1)"
    and n: "unat n \<le> PA_MAX_ADV_SETS" "length info = PA_MAX_ADV_SETS" and w1: "only_wire w [] w1"
    using get_status_law [OF w info] by (auto simp: only_wire_def)
  obtain r where f: "fill_status info 0 (min (unat n) PA_MAX_ADV_SETS) (?r0\<lparr>num_advertising := n\<rparr>) = Some r"
    and wfr: "wf_status_rsp r" and num: "num_advertising r = n"
    and vals: "\<forall>j < PA_MAX_ADV_SETS. j < unat n \<longrightarrow>
       adv_sid r ! j = sid (info ! j) \<and> pa_available_bytes r ! j = available_bytes (info ! j)"
    using fill_status_ok [OF n(2), of "?r0\<lparr>num_advertising := n\<rparr>" 0 "min (unat n) PA_MAX_ADV_SETS"] n(1)
    by auto
  have "sets_of r = map (\<lambda>x. (sid x, available_bytes x)) (take (unat n) info)"
    using vals n wfr num by (intro nth_equalityI) (auto simp: wf_status_rsp_def sets_of_def)
  then show ?thesis
    using True g f wfr w1 num n(1) by (simp add: collect_status_def offered_def)
qed

lemma status_get_ok:
  assumes w: "ok w" and svc: "wf_svc svc" and info: "length info0 = PA_MAX_ADV_SETS"
  shows "\<exists>svc' w'. handle_status_get_req uart ble info0 svc w = Some (svc', w')
     \<and> wf_svc svc' \<and> pa_ctx svc' = pa_ctx svc \<and> length (offered info0 w) \<le> PA_MAX_ADV_SETS
     \<and> only_wire w (frame_status_rsp (offered info0 w)) w'"
proof -
  obtain r w1 where c: "collect_status ble info0 w = Some (r, w1)" and r: "wf_status_rsp r"
      "unat (num_advertising r) \<le> PA_MAX_ADV_SETS" "sets_of r = offered info0 w"
    and w1: "only_wire w [] w1"
    using collect_status_ok [OF w info] by blast
  let ?n = "unat (num_advertising r)"
  let ?buf = "frame_status_rsp (sets_of r) @ drop (3 + 2 * ?n) (tx_buf svc)"
  have l: "length (frame_status_rsp (sets_of r)) = 3 + 2 * ?n" "length (sets_of r) = ?n"
    using r(1,2) by (simp_all add: length_frame_status_rsp wf_status_rsp_def sets_of_def)
  have s: "pa_cmd_serialize_status_rsp (Some r) (Some (tx_buf svc)) PA_SERVICE_TX_BUF_SIZE =
      Some (int (3 + 2 * ?n), Some ?buf)"
    using r svc unfolding sets_of_def by (intro serialize_status_rsp_ok) (auto simp: wf_svc_def)
  have "ok w1" using w1 by (simp add: only_wire_def)
  then obtain w2 where t: "send_tx uart (int (3 + 2 * ?n)) (svc\<lparr>tx_buf := ?buf\<rparr>) w1 =
      Some (svc\<lparr>tx_buf := ?buf\<rparr>, w2)" and w2: "only_wire w1 (frame_status_rsp (sets_of r)) w2"
    using send_tx_ok [of w1 "int (3 + 2 * ?n)" "svc\<lparr>tx_buf := ?buf\<rparr>"] l svc r
    by (auto simp: wf_svc_def nat_int simp del: of_nat_add of_nat_mult)
  have "handle_status_get_req uart ble info0 svc w = Some (svc\<lparr>tx_buf := ?buf\<rparr>, w2)"
    unfolding handle_status_get_req_def c using s t by simp
  moreover have "wf_svc (svc\<lparr>tx_buf := ?buf\<rparr>)" using svc l r by (simp add: wf_svc_def)
  moreover have "only_wire w (frame_status_rsp (sets_of r)) w2"
    using w1 w2 by (simp add: only_wire_def)
  ultimately show ?thesis using r l by auto
qed

text \<open>The whole handler of a data send request, on every branch.\<close>

lemma data_send_ok:
  assumes w: "ok w" and svc: "wf_svc svc" and req: "wf_req req"
    and len: "unat (data_length req) \<le> PA_MAX_DATA_SIZE"
  defines "d \<equiv> take (unat (data_length req)) (req_data req)"
  shows "\<exists>res svc' w'. handle_data_send_req uart ble timer req svc w = Some (svc', w')
     \<and> wf_svc svc' \<and> ok w' \<and> is_ready ble w' = is_ready ble w
     \<and> baas_overhead (pa_ctx svc') = baas_overhead (pa_ctx svc)
     \<and> wire w' = wire w @ frame_data_send_rsp res
     \<and> (res, slot_of (pa_ctx svc'), armed w', advertised w') =
         data_send_outcome (is_ready ble w) (capacity (baas_overhead (pa_ctx svc)))
           (port_accepts ble w req) (advertising_sid req) d (slot_of (pa_ctx svc), armed w, advertised w)"
proof (cases "is_ready ble w")
  case False
  then show ?thesis
    using send_data_rsp_ok [OF w svc, of PA_RESULT_NOT_READY]
    by (auto simp: handle_data_send_req_def data_send_outcome_def only_wire_def)
next
  case True
  let ?cap = "capacity (baas_overhead (pa_ctx svc))"
  have dl: "unat (data_length req) \<le> length (req_data req)"
    using req len by (simp add: wf_req_def)
  obtain r c' where s: "pa_data_mgr_submit (Some (pa_ctx svc)) (advertising_sid req)
        (Some (req_data req)) (data_length req) = Some (r, Some c')"
    and wfc: "wf_ctx c'" "baas_overhead c' = baas_overhead (pa_ctx svc)"
    and ref: "(r, slot_of c') = slot_submit ?cap (slot_of (pa_ctx svc)) (advertising_sid req) d"
    and same: "r \<noteq> PA_RESULT_SUCCESS \<longrightarrow> c' = pa_ctx svc"
    using submit_refines [OF _ dl, of "pa_ctx svc" "advertising_sid req"] svc
    unfolding d_def wf_svc_def by blast
  have wf1: "wf_svc (svc\<lparr>pa_ctx := c'\<rparr>)" using wfc svc by (simp add: wf_svc_def)
  show ?thesis
  proof (cases "r = PA_RESULT_SUCCESS")
    case False
    then show ?thesis
      using True s same ref send_data_rsp_ok [OF w wf1, of r]
      by (cases "slot_of (pa_ctx svc)")
        (auto simp: handle_data_send_req_def data_send_outcome_def only_wire_def split: if_splits)
  next
    case succ: True
    then have idle: "slot_of (pa_ctx svc) = Idle" "length d \<le> ?cap"
      and pend: "slot_of c' = Pending (advertising_sid req) d"
      using ref by (cases "slot_of (pa_ctx svc)"; auto split: if_splits)+
    obtain e w1 where sd: "set_data ble w (advertising_sid req) (req_data req) (data_length req)
        = Some (e, w1)" and w1: "ok w1" "wire w1 = wire w" "armed w1 = armed w"
        "is_ready ble w1 = is_ready ble w" "advertised w1 = (if e = 0 then d else advertised w)"
      using set_data_law [OF w dl len] unfolding d_def by blast
    show ?thesis
    proof (cases "e = 0")
      case False
      obtain c0 where rs: "pa_data_mgr_reset (Some c') = Some c0" "wf_ctx c0"
          "baas_overhead c0 = baas_overhead c'" "slot_of c0 = Idle"
        using reset_refines [OF wfc(1)] by blast
      have wf2: "wf_svc (svc\<lparr>pa_ctx := c0\<rparr>)" using rs svc by (simp add: wf_svc_def)
      have "data_send_outcome (is_ready ble w) ?cap False (advertising_sid req) d
          (slot_of (pa_ctx svc), armed w, advertised w)
          = (PA_RESULT_NOT_READY, Idle, armed w, advertised w)"
        using True idle by (simp add: data_send_outcome_def)
      then show ?thesis
        using True succ s sd False rs wfc w1 send_data_rsp_ok [OF w1(1) wf2, of PA_RESULT_NOT_READY]
        by (auto simp: handle_data_send_req_def only_wire_def port_accepts_def)
    next
      case acc: True
      obtain q w2 where st: "start_oneshot timer w1 250 Pa_service_on_pa_interval = (q, w2)"
        by fastforce
      note w2 = start_law [OF w1(1) st]
      have "data_send_outcome (is_ready ble w) ?cap True (advertising_sid req) d
          (slot_of (pa_ctx svc), armed w, advertised w)
          = (PA_RESULT_SUCCESS, Pending (advertising_sid req) d,
             Some (250, Pa_service_on_pa_interval), d)"
        using True idle by (simp add: data_send_outcome_def)
      then show ?thesis
        using True succ s sd acc st wfc w1 w2 pend
          send_data_rsp_ok [OF conjunct1 [OF w2] wf1, of PA_RESULT_SUCCESS]
        by (auto simp: handle_data_send_req_def only_wire_def port_accepts_def)
    qed
  qed
qed

text \<open>A received frame: rejected frames leave no trace, others run their handler.\<close>

lemma on_command_rejected:
  assumes "wf_req p0" and "decode_command b = Inl e"
  shows "pa_service_on_command uart ble timer info0 op0 p0 b (length b) svc w = Some (svc, w)"
  using parse_refines [OF assms(1), of b op0] assms(2)
  by (cases e) (auto simp: pa_service_on_command_def)

lemma on_command_status:
  assumes "wf_req p0" and "decode_command b = Inr StatusGet"
  shows "pa_service_on_command uart ble timer info0 op0 p0 b (length b) svc w =
    handle_status_get_req uart ble info0 svc w"
  using parse_refines [OF assms(1), of b op0] assms(2)
  by (auto simp: pa_service_on_command_def read_command_def)

lemma on_command_data:
  assumes "wf_req p0" and "decode_command b = Inr (DataSend s d)"
  shows "\<exists>req. pa_service_on_command uart ble timer info0 op0 p0 b (length b) svc w =
      handle_data_send_req uart ble timer req svc w \<and> wf_req req
      \<and> advertising_sid req = s \<and> take (unat (data_length req)) (req_data req) = d
      \<and> unat (data_length req) = length d \<and> length d \<le> PA_MAX_DATA_SIZE"
proof -
  obtain op' p' where p: "pa_cmd_parse (Some b) (length b) (Some op0) (Some p0) =
        Some (0, Some op', Some p')" and wf: "wf_req p'"
    and r: "DataSend s d = read_command op' p'"
    and op: "op' = PA_OPCODE_STATUS_GET_REQ \<or> op' = PA_OPCODE_DATA_SEND_REQ"
    using parse_refines [OF assms(1), of b op0] assms(2) by auto
  have 1: "op' = PA_OPCODE_DATA_SEND_REQ" "advertising_sid p' = s"
      "take (unat (data_length p')) (req_data p') = d"
    using r op by (auto simp: read_command_def split: if_splits)
  have 2: "length d \<le> PA_MAX_DATA_SIZE"
    using assms(2) by (auto simp: decode_command_def decode_data_send_def Let_def split: if_splits)
  have len: "unat (data_length p') \<le> PA_MAX_DATA_SIZE"
    using p 1(1)
    by (auto simp: pa_cmd_parse_def parse_data_send_def bind_eq_Some_conv Let_def
        split: if_splits option.splits)
  then have "unat (data_length p') = length d"
    using wf 1(3) by (auto simp: wf_req_def)
  then show ?thesis
    using p wf 1 2 by (intro exI [of _ p']) (simp add: pa_service_on_command_def)
qed

lemma on_pa_interval_ok:
  assumes w: "ok w" and svc: "wf_svc svc"
  shows "\<exists>svc' w'. pa_service_on_pa_interval uart svc w = Some (svc', w') \<and> wf_svc svc'
    \<and> baas_overhead (pa_ctx svc') = baas_overhead (pa_ctx svc)
    \<and> (if state (pa_ctx svc) = PA_STATE_PENDING
        then slot_of (pa_ctx svc') = Idle \<and> only_wire w frame_data_send_complete w'
        else svc' = svc \<and> w' = w)"
proof (cases "state (pa_ctx svc) = PA_STATE_PENDING")
  case False
  then show ?thesis
    using w svc by (auto simp: pa_service_on_pa_interval_def pa_data_mgr_on_pa_interval_def)
next
  case True
  let ?c = "pa_ctx svc\<lparr>state := PA_STATE_COMPLETE\<rparr>"
  let ?buf = "frame_data_send_complete @ drop 2 (tx_buf svc)"
  let ?svc = "svc\<lparr>pa_ctx := ?c, tx_buf := ?buf\<rparr>"
  have "wf_ctx ?c" using svc by (simp add: wf_svc_def wf_ctx_def)
  then obtain c0 where rs: "pa_data_mgr_reset (Some ?c) = Some c0" "wf_ctx c0"
      "baas_overhead c0 = baas_overhead (pa_ctx svc)" "slot_of c0 = Idle"
    using reset_refines [of ?c] by auto
  have s: "pa_cmd_serialize_data_send_complete (Some (tx_buf svc)) PA_SERVICE_TX_BUF_SIZE =
      Some (2, Some ?buf)"
    using svc by (intro serialize_data_send_complete_ok) (auto simp: wf_svc_def)
  obtain w2 where t: "send_tx uart 2 ?svc w = Some (?svc, w2)"
    and w2: "only_wire w frame_data_send_complete w2"
    using send_tx_ok [OF w, of 2 ?svc] svc by (auto simp: wf_svc_def frame_data_send_complete_def)
  show ?thesis
    using True s t w2 rs svc
    by (auto simp: pa_service_on_pa_interval_def pa_data_mgr_on_pa_interval_def wf_svc_def
        frame_data_send_complete_def)
qed

end

end
