(* ===== verification/ZephyrKernel.thy ===== *)
theory ZephyrKernel
  imports Prelude
begin

text \<open>
  The kernel services the adapters use, as far as the code relies on them. The system work
  queue runs items in submission order, one at a time, and a work item that is still queued is
  not queued twice (\<open>k_work_submit\<close>). A one-shot timer is armed with a delay until it expires
  or is stopped; starting it again replaces the delay (\<open>k_timer_start\<close>).
\<close>

section \<open>System work queue\<close>

datatype work_item = Rx_work | Timer_work

type_synonym workq = "work_item list"

definition k_work_submit :: "'w \<Rightarrow> 'w list \<Rightarrow> 'w list" where
  "k_work_submit w q = (if w \<in> set q then q else q @ [w])"

lemma k_work_submit_set [simp]: "set (k_work_submit w q) = insert w (set q)"
  by (auto simp: k_work_submit_def)

lemma k_work_submit_distinct: "distinct q \<Longrightarrow> distinct (k_work_submit w q)"
  by (simp add: k_work_submit_def)

lemma k_work_submit_idem: "k_work_submit w (k_work_submit w q) = k_work_submit w q"
  by (auto simp: k_work_submit_def)

section \<open>One-shot timer\<close>

type_synonym k_timer = "u32 option"

definition k_timer_start :: "u32 \<Rightarrow> k_timer \<Rightarrow> k_timer" where
  "k_timer_start ms t = Some ms"

definition k_timer_stop :: "k_timer \<Rightarrow> k_timer" where
  "k_timer_stop t = None"

end
