(* ===== verification/UartAdapter.thy ===== *)
theory UartAdapter
  imports PaPorts ZephyrKernel
begin

text \<open>
  The UART adapter \<open>src/adapters/zephyr_uart_adapter.c\<close>: its interrupt handler cuts the byte
  stream into frames by their \<open>Command_Length\<close> header and hands each one to the work queue;
  \<open>rx_work_handler\<close> passes it to the registered callback; \<open>adapter_send\<close> writes bytes out.

  \<open>rx_pos\<close> and \<open>rx_expected\<close> are \<open>uint8_t\<close> in the code and words here, with their wrap-around.
\<close>

section \<open>State\<close>

abbreviation (input) UART_RX_BUF_SIZE :: nat where "UART_RX_BUF_SIZE \<equiv> 260"

record uart_adapter_state =
  dev_ready :: bool
  rx_cb :: "callback option"
  rx_buf :: "u8 list"
  rx_pos :: u8
  rx_expected :: u8
  rx_header_received :: bool
  rx_frame :: "u8 list"
  rx_frame_len :: nat

definition zephyr_uart_adapter_create :: uart_adapter_state where
  "zephyr_uart_adapter_create =
     \<lparr>dev_ready = False, rx_cb = None, rx_buf = replicate UART_RX_BUF_SIZE 0, rx_pos = 0,
      rx_expected = 0, rx_header_received = False, rx_frame = replicate UART_RX_BUF_SIZE 0,
      rx_frame_len = 0\<rparr>"

section \<open>Operations\<close>

text \<open>\<open>device_is_ready\<close> is the argument \<open>rdy\<close>.\<close>

definition uart_adapter_init ::
  "bool \<Rightarrow> uart_adapter_state \<Rightarrow> callback \<Rightarrow> int \<times> uart_adapter_state" where
  "uart_adapter_init rdy s cb =
     (if \<not> rdy then (- ENODEV, s\<lparr>dev_ready := False\<rparr>)
      else (0, s\<lparr>dev_ready := True, rx_cb := Some cb, rx_pos := 0, rx_header_received := False\<rparr>))"

text \<open>One byte read from the UART FIFO by the interrupt handler.\<close>

definition rx_byte ::
  "u8 \<Rightarrow> uart_adapter_state \<times> workq \<Rightarrow> (uart_adapter_state \<times> workq) option" where
  "rx_byte byte sq = (case sq of (s, q) \<Rightarrow>
     if \<not> rx_header_received s then do {
       buf \<leftarrow> wr (rx_buf s) 0 byte;
       let s = s\<lparr>rx_buf := buf, rx_pos := 1, rx_expected := byte + 1, rx_header_received := True\<rparr>;
       if rx_expected s \<le> 1 \<or> UART_RX_BUF_SIZE < unat (rx_expected s)
       then Some (s\<lparr>rx_header_received := False, rx_pos := 0\<rparr>, q)
       else Some (s, q) }
     else do {
       s \<leftarrow> (if unat (rx_pos s) < UART_RX_BUF_SIZE then do {
               buf \<leftarrow> wr (rx_buf s) (unat (rx_pos s)) byte;
               Some (s\<lparr>rx_buf := buf, rx_pos := rx_pos s + 1\<rparr>) }
             else Some s);
       if rx_expected s \<le> rx_pos s then do {
         bytes \<leftarrow> rd_range (rx_buf s) 0 (unat (rx_pos s));
         frame \<leftarrow> wr_range (rx_frame s) 0 bytes;
         Some (s\<lparr>rx_frame := frame, rx_frame_len := unat (rx_pos s),
                  rx_header_received := False, rx_pos := 0\<rparr>,
               k_work_submit Rx_work q) }
       else Some (s, q) })"

text \<open>
  The interrupt handler: \<open>updated\<close> is the result of \<open>uart_irq_update\<close>; \<open>fifo\<close> lists what the
  calls of \<open>uart_fifo_read\<close> return while \<open>uart_irq_rx_ready\<close> holds, \<open>None\<close> for a read that
  does not deliver a byte (which ends the loop).
\<close>

fun isr_loop ::
  "u8 option list \<Rightarrow> uart_adapter_state \<times> workq \<Rightarrow> (uart_adapter_state \<times> workq) option" where
  "isr_loop [] sq = Some sq"
| "isr_loop (None # rest) sq = Some sq"
| "isr_loop (Some byte # rest) sq = do { sq \<leftarrow> rx_byte byte sq; isr_loop rest sq }"

definition uart_isr_callback ::
  "bool \<Rightarrow> u8 option list \<Rightarrow> uart_adapter_state \<times> workq \<Rightarrow> (uart_adapter_state \<times> workq) option" where
  "uart_isr_callback updated fifo sq = (if \<not> updated then Some sq else isr_loop fifo sq)"

text \<open>The work item: the callback to run, with the frame and its length.\<close>

definition rx_work_handler :: "uart_adapter_state \<Rightarrow> (callback \<times> u8 list \<times> nat) option" where
  "rx_work_handler s = (case rx_cb s of
      None \<Rightarrow> None
    | Some cb \<Rightarrow> Some (cb, rx_frame s, rx_frame_len s))"

text \<open>\<open>uart_poll_out\<close> puts one byte on the wire.\<close>

fun send_loop :: "u8 list \<Rightarrow> nat \<Rightarrow> nat \<Rightarrow> u8 list \<Rightarrow> u8 list option" where
  "send_loop data i 0 wire = Some wire"
| "send_loop data i (Suc k) wire = do { x \<leftarrow> rd data i; send_loop data (Suc i) k (wire @ [x]) }"

definition uart_adapter_send :: "u8 list \<Rightarrow> nat \<Rightarrow> u8 list \<Rightarrow> (int \<times> u8 list) option" where
  "uart_adapter_send data len wire = do { wire \<leftarrow> send_loop data 0 len wire; Some (0, wire) }"

section \<open>Invariant\<close>

definition wf_uart :: "uart_adapter_state \<Rightarrow> bool" where
  "wf_uart s \<longleftrightarrow>
     length (rx_buf s) = UART_RX_BUF_SIZE \<and> length (rx_frame s) = UART_RX_BUF_SIZE
     \<and> rx_frame_len s \<le> 255
     \<and> (if rx_header_received s
        then 1 \<le> unat (rx_pos s) \<and> unat (rx_pos s) < unat (rx_expected s)
             \<and> 2 \<le> unat (rx_expected s)
             \<and> unat (rx_expected s) = unat (rx_buf s ! 0) + 1
        else rx_pos s = 0)"

text \<open>The frame last completed, and the bytes of the frame being received.\<close>

definition delivered :: "uart_adapter_state \<Rightarrow> u8 list" where
  "delivered s = take (rx_frame_len s) (rx_frame s)"

definition partial_frame :: "uart_adapter_state \<Rightarrow> u8 list" where
  "partial_frame s = take (unat (rx_pos s)) (rx_buf s)"

section \<open>The abstract deframer\<close>

text \<open>
  One byte, appended to the partial frame \<open>p\<close>: the new partial frame and the completed frame, if
  any. A header of 0 or 255 is discarded.
\<close>

definition deframe_byte :: "u8 \<Rightarrow> u8 list \<Rightarrow> u8 list \<times> u8 list option" where
  "deframe_byte x p =
     (if p = [] then (if x = 0 \<or> x = 255 then ([], None) else ([x], None))
      else let p' = p @ [x]
           in if length p' = unat (hd p) + 1 then ([], Some p') else (p', None))"

fun deframe :: "u8 list \<Rightarrow> u8 list \<Rightarrow> u8 list \<times> u8 list list" where
  "deframe [] p = (p, [])"
| "deframe (x # xs) p =
     (let (p', f) = deframe_byte x p; (p'', fs) = deframe xs p'
      in (p'', (case f of None \<Rightarrow> fs | Some g \<Rightarrow> g # fs)))"

section \<open>Lemmas\<close>

lemma wf_create: "wf_uart zephyr_uart_adapter_create"
  by (simp add: wf_uart_def zephyr_uart_adapter_create_def)

lemma wf_init: "wf_uart s \<Longrightarrow> uart_adapter_init rdy s cb = (0, s') \<Longrightarrow> wf_uart s'"
  by (auto simp: wf_uart_def uart_adapter_init_def split: if_splits)

lemma partial_nonempty: "wf_uart s \<Longrightarrow> partial_frame s = [] \<longleftrightarrow> \<not> rx_header_received s"
  by (auto simp: wf_uart_def partial_frame_def split: if_splits)

lemma header_word: "(b :: u8) + 1 \<le> 1 \<longleftrightarrow> b = 0 \<or> b = 255"
proof (cases "b = 255")
  case False
  then show ?thesis using u8_succ [of b] by (auto simp: word_le_nat_alt unat_eq_zero)
qed (simp add: word_le_nat_alt)

text \<open>Each byte does to the adapter what it does to the abstract deframer.\<close>

lemma rx_byte_header:
  assumes wf: "wf_uart s" and h: "\<not> rx_header_received s"
  shows "\<exists>s'. rx_byte b (s, q) = Some (s', q) \<and> wf_uart s' \<and> rx_cb s' = rx_cb s
     \<and> deframe_byte b (partial_frame s) = (partial_frame s', None) \<and> delivered s' = delivered s"
proof -
  obtain x xs where buf: "rx_buf s = x # xs" "length xs = 259"
    using wf by (cases "rx_buf s") (auto simp: wf_uart_def)
  have p: "partial_frame s = []" using partial_nonempty [OF wf] h by simp
  have le: "unat (b + 1) \<le> 260" using u8_less [of "b + 1"] by simp
  show ?thesis
  proof (cases "b = 0 \<or> b = 255")
    case True
    then show ?thesis
      using wf h buf p header_word [of b]
      by (auto simp: rx_byte_def wr_def wf_uart_def deframe_byte_def partial_frame_def
          delivered_def Let_def)
  next
    case False
    then have "unat b \<noteq> 0" and "b \<noteq> 255"
      by (auto simp: unat_eq_zero)
    then show ?thesis
      using False wf h buf p header_word [of b] le u8_succ [of b]
      by (auto simp: rx_byte_def wr_def wf_uart_def deframe_byte_def partial_frame_def
          delivered_def Let_def)
  qed
qed

lemma rx_byte_body:
  assumes wf: "wf_uart s" and h: "rx_header_received s"
  shows "\<exists>s' q' f. rx_byte b (s, q) = Some (s', q') \<and> wf_uart s' \<and> rx_cb s' = rx_cb s
     \<and> deframe_byte b (partial_frame s) = (partial_frame s', f)
     \<and> (case f of None \<Rightarrow> q' = q \<and> delivered s' = delivered s
         | Some g \<Rightarrow> q' = k_work_submit Rx_work q \<and> delivered s' = g)"
proof -
  let ?n = "unat (rx_pos s)" and ?e = "unat (rx_expected s)"
  let ?buf = "(rx_buf s)[?n := b]"
  have n: "1 \<le> ?n" "?n < ?e" "?e = unat (rx_buf s ! 0) + 1" "length (rx_buf s) = 260"
      "length (rx_frame s) = 260" "?e < 256"
    using wf h u8_less [of "rx_expected s"] by (auto simp: wf_uart_def)
  have succ: "unat (rx_pos s + 1) = ?n + 1"
    using n u8_add [of "rx_pos s" 1] by simp
  have p: "partial_frame s \<noteq> []" using partial_nonempty [OF wf] h by simp
  have hd: "hd (partial_frame s) = rx_buf s ! 0" "length (partial_frame s) = ?n"
    using n by (cases "rx_buf s"; auto simp: partial_frame_def hd_take)+
  have app: "take (Suc ?n) ?buf = partial_frame s @ [b]"
    using n by (simp add: partial_frame_def update_take_drop)
  have w: "wr (rx_buf s) ?n b = Some ?buf" using n by (simp add: wr_def)
  show ?thesis
  proof (cases "?e \<le> ?n + 1")
    case True
    then have "?e = ?n + 1" using n by simp
    then show ?thesis
      using wf h n succ p hd app w
      by (auto simp: rx_byte_def word_le_nat_alt rd_range_def wr_range_def wf_uart_def
          deframe_byte_def partial_frame_def delivered_def Let_def)
  next
    case False
    then show ?thesis
      using wf h n succ p hd app w
      by (auto simp: rx_byte_def word_le_nat_alt wf_uart_def
          deframe_byte_def partial_frame_def delivered_def Let_def)
  qed
qed

lemma rx_byte_refines:
  assumes "wf_uart s"
  shows "\<exists>s' q' f. rx_byte b (s, q) = Some (s', q') \<and> wf_uart s' \<and> rx_cb s' = rx_cb s
     \<and> deframe_byte b (partial_frame s) = (partial_frame s', f)
     \<and> (case f of None \<Rightarrow> q' = q \<and> delivered s' = delivered s
         | Some g \<Rightarrow> q' = k_work_submit Rx_work q \<and> delivered s' = g)"
  using rx_byte_header [OF assms, of b q] rx_byte_body [OF assms, of b q]
  by (cases "rx_header_received s") auto

text \<open>The whole handler, over the bytes it reads before the FIFO is empty or a read fails.\<close>

fun fifo_bytes :: "u8 option list \<Rightarrow> u8 list" where
  "fifo_bytes [] = []"
| "fifo_bytes (None # rest) = []"
| "fifo_bytes (Some x # rest) = x # fifo_bytes rest"

lemma isr_loop_refines:
  assumes "wf_uart s"
  shows "\<exists>s' q' fs. isr_loop fifo (s, q) = Some (s', q') \<and> wf_uart s' \<and> rx_cb s' = rx_cb s
     \<and> deframe (fifo_bytes fifo) (partial_frame s) = (partial_frame s', fs)
     \<and> (if fs = [] then q' = q \<and> delivered s' = delivered s
         else q' = k_work_submit Rx_work q \<and> delivered s' = last fs)"
  using assms
proof (induction fifo "(s, q)" arbitrary: s q rule: isr_loop.induct)
  case 1
  then show ?case by simp
next
  case 2
  then show ?case by simp
next
  case (3 b rest s q)
  obtain s1 q1 f where 1: "rx_byte b (s, q) = Some (s1, q1)" "wf_uart s1" "rx_cb s1 = rx_cb s"
      "deframe_byte b (partial_frame s) = (partial_frame s1, f)"
      "case f of None \<Rightarrow> q1 = q \<and> delivered s1 = delivered s
         | Some g \<Rightarrow> q1 = k_work_submit Rx_work q \<and> delivered s1 = g"
    using rx_byte_refines [OF "3.prems", of b q] by blast
  obtain s2 q2 fs where 2: "isr_loop rest (s1, q1) = Some (s2, q2)" "wf_uart s2"
      "rx_cb s2 = rx_cb s1"
      "deframe (fifo_bytes rest) (partial_frame s1) = (partial_frame s2, fs)"
      "if fs = [] then q2 = q1 \<and> delivered s2 = delivered s1
         else q2 = k_work_submit Rx_work q1 \<and> delivered s2 = last fs"
    using "3.hyps" [OF 1(1,2)] by blast
  show ?case
    using 1 2 by (cases f) (auto simp: k_work_submit_idem split: if_splits)
qed

lemma send_loop_ok: "i + k \<le> length d \<Longrightarrow> send_loop d i k w = Some (w @ take k (drop i d))"
  by (induction k arbitrary: i w) (auto simp: rd_def Cons_nth_drop_Suc [symmetric])

lemma uart_adapter_send_ok: "n \<le> length d \<Longrightarrow> uart_adapter_send d n w = Some (0, w @ take n d)"
  by (simp add: uart_adapter_send_def send_loop_ok)

text \<open>The deframer on whole frames.\<close>

lemma deframe_append:
  "deframe (xs @ ys) p =
     (let (p', fs) = deframe xs p; (p'', gs) = deframe ys p' in (p'', fs @ gs))"
  by (induction xs arbitrary: p) (auto split: prod.splits option.splits)

definition uart_frame :: "u8 list \<Rightarrow> bool" where
  "uart_frame f \<longleftrightarrow> f \<noteq> [] \<and> length f = unat (hd f) + 1 \<and> 1 \<le> unat (hd f) \<and> unat (hd f) \<le> 254"

lemma deframe_body:
  "p \<noteq> [] \<Longrightarrow> xs \<noteq> [] \<Longrightarrow> length p + length xs = unat (hd p) + 1 \<Longrightarrow>
   deframe xs p = ([], [p @ xs])"
proof (induction xs arbitrary: p)
  case Nil
  then show ?case by simp
next
  case (Cons x xs)
  show ?case
  proof (cases "xs = []")
    case True
    then show ?thesis using Cons.prems by (simp add: deframe_byte_def)
  next
    case False
    then have "length p \<noteq> unat (hd p)" using Cons.prems(3) by (cases xs) auto
    with False show ?thesis
      using Cons.prems Cons.IH [of "p @ [x]"] by (simp add: deframe_byte_def Let_def)
  qed
qed

lemma deframe_frame: "uart_frame f \<Longrightarrow> deframe f [] = ([], [f])"
proof -
  assume f: "uart_frame f"
  then obtain h xs where h: "f = h # xs" "xs \<noteq> []" "length xs = unat h" "h \<noteq> 0" "h \<noteq> 255"
    by (cases f) (fastforce simp: uart_frame_def)+
  then show ?thesis using deframe_body [of "[h]" xs] by (simp add: deframe_byte_def)
qed

lemma deframe_frames: "\<forall>f \<in> set fs. uart_frame f \<Longrightarrow> deframe (concat fs) [] = ([], fs)"
  by (induction fs) (auto simp: deframe_append deframe_frame)

end
