(* ===== verification/BlePaAdapter.thy ===== *)
theory BlePaAdapter
  imports PaPorts
begin

text \<open>
  The periodic advertising adapter \<open>src/adapters/zephyr_ble_pa_adapter.c\<close>: it composes the
  advertising data from the BASE element of the broadcast source and the custom element, and
  hands it to the Bluetooth stack. The stack is a parameter: \<open>bt_set\<close> is
  \<open>bt_le_per_adv_set_data\<close> acting on a stack state \<open>'bt\<close>, \<open>bt_info\<close> is
  \<open>bt_le_ext_adv_get_info\<close> (its return code and the \<open>id\<close> it reports). An advertising set
  handle is a number.
\<close>

section \<open>State\<close>

abbreviation (input) BT_DATA_VS :: u8 where "BT_DATA_VS \<equiv> 0xFF"

record bt_data =
  ad_type :: u8
  ad_len :: u8
  ad_data :: "u8 list"

record ble_pa_adapter_state =
  ext_adv :: "nat option"
  base_per_adv :: "bt_data list option"
  base_per_adv_count :: nat
  custom_ad_buf :: "u8 list"
  combined_per_adv :: "bt_data list"
  base_data_overhead :: u8

definition zephyr_ble_pa_adapter_create :: ble_pa_adapter_state where
  "zephyr_ble_pa_adapter_create =
     \<lparr>ext_adv = None, base_per_adv = None, base_per_adv_count = 0,
      custom_ad_buf = replicate PA_MAX_DATA_SIZE 0,
      combined_per_adv = replicate 2 \<lparr>ad_type = 0, ad_len = 0, ad_data = []\<rparr>,
      base_data_overhead = 0\<rparr>"

section \<open>Operations\<close>

definition zephyr_ble_pa_adapter_set_ext_adv ::
  "ble_pa_adapter_state \<Rightarrow> nat option \<Rightarrow> ble_pa_adapter_state" where
  "zephyr_ble_pa_adapter_set_ext_adv s adv = s\<lparr>ext_adv := adv\<rparr>"

definition zephyr_ble_pa_adapter_set_base_per_adv ::
  "ble_pa_adapter_state \<Rightarrow> bt_data list option \<Rightarrow> nat \<Rightarrow> u8 \<Rightarrow> ble_pa_adapter_state" where
  "zephyr_ble_pa_adapter_set_base_per_adv s base cnt overhead =
     s\<lparr>base_per_adv := base, base_per_adv_count := cnt, base_data_overhead := overhead\<rparr>"

definition ble_adapter_is_ready :: "ble_pa_adapter_state \<Rightarrow> bool" where
  "ble_adapter_is_ready s \<longleftrightarrow> ext_adv s \<noteq> None"

text \<open>
  The custom element is written to entry \<open>base_per_adv_count\<close> of the two-entry array; its
  \<open>data\<close> pointer is the whole custom buffer, of which \<open>data_len\<close> bytes count. The SID argument \<open>asid\<close> is
  only logged.
\<close>

definition ble_adapter_set_data ::
  "(nat \<Rightarrow> bt_data list \<Rightarrow> 'bt \<Rightarrow> int \<times> 'bt) \<Rightarrow> ble_pa_adapter_state \<Rightarrow> 'bt
   \<Rightarrow> u8 \<Rightarrow> u8 list \<Rightarrow> u8 \<Rightarrow> (int \<times> ble_pa_adapter_state \<times> 'bt) option" where
  "ble_adapter_set_data bt_set s bt asid data data_len =
     (case ext_adv s of
        None \<Rightarrow> Some (- EAGAIN, s, bt)
      | Some adv \<Rightarrow>
          if PA_MAX_DATA_SIZE < unat data_len then Some (- EINVAL, s, bt)
          else do {
            src \<leftarrow> rd_range data 0 (unat data_len);
            buf \<leftarrow> wr_range (custom_ad_buf s) 0 src;
            let s = s\<lparr>custom_ad_buf := buf\<rparr>;
            comb \<leftarrow> (case base_per_adv s of
                Some base \<Rightarrow>
                  if 0 < base_per_adv_count s then do {
                    b0 \<leftarrow> rd base 0;
                    wr (combined_per_adv s) 0 b0 }
                  else Some (combined_per_adv s)
              | None \<Rightarrow> Some (combined_per_adv s));
            comb \<leftarrow> wr comb (base_per_adv_count s)
                       \<lparr>ad_type = BT_DATA_VS, ad_len = data_len, ad_data = custom_ad_buf s\<rparr>;
            let s = s\<lparr>combined_per_adv := comb\<rparr>;
            ads \<leftarrow> rd_range comb 0 (base_per_adv_count s + 1);
            let (ret, bt) = bt_set adv ads bt;
            Some (ret, s, bt) })"

definition ble_adapter_get_status ::
  "(nat \<Rightarrow> int \<times> u8) \<Rightarrow> ble_pa_adapter_state \<Rightarrow> pa_adv_info list \<Rightarrow> u8
   \<Rightarrow> (int \<times> u8 \<times> pa_adv_info list) option" where
  "ble_adapter_get_status bt_info s info max_entries =
     (case ext_adv s of
        None \<Rightarrow> Some (0, 0, info)
      | Some adv \<Rightarrow>
          if 1 \<le> max_entries then do {
            let (ret, adv_id) = bt_info adv;
            let overhead = base_data_overhead s + 2;
            info \<leftarrow> wr info 0
              \<lparr>sid = (if ret = 0 then adv_id else 0),
               available_bytes = (if of_nat PA_MAX_DATA_SIZE \<le> overhead then 0
                                  else of_nat PA_MAX_DATA_SIZE - overhead)\<rparr>;
            Some (0, 1, info) }
          else Some (0, 1, info))"

section \<open>Lemmas\<close>

text \<open>
  The BASE reference the program registers has one entry (or none): with more, the custom
  element would not fit the two-entry array.
\<close>

definition wf_ble :: "ble_pa_adapter_state \<Rightarrow> bool" where
  "wf_ble s \<longleftrightarrow> length (custom_ad_buf s) = PA_MAX_DATA_SIZE \<and> length (combined_per_adv s) = 2
     \<and> base_per_adv_count s \<le> 1
     \<and> (\<forall>b. base_per_adv s = Some b \<longrightarrow> base_per_adv_count s \<le> length b)"

definition base_elements :: "ble_pa_adapter_state \<Rightarrow> bt_data list" where
  "base_elements s = (if base_per_adv_count s = 0 then []
     else case base_per_adv s of None \<Rightarrow> [combined_per_adv s ! 0] | Some b \<Rightarrow> [b ! 0])"

lemma wf_ble_create: "wf_ble zephyr_ble_pa_adapter_create"
  by (simp add: wf_ble_def zephyr_ble_pa_adapter_create_def)

lemma set_ext_adv_wf: "wf_ble s \<Longrightarrow> wf_ble (zephyr_ble_pa_adapter_set_ext_adv s adv)"
  by (simp add: wf_ble_def zephyr_ble_pa_adapter_set_ext_adv_def)

lemma set_base_wf:
  "wf_ble s \<Longrightarrow> cnt \<le> 1 \<Longrightarrow> cnt \<le> length b \<Longrightarrow>
   wf_ble (zephyr_ble_pa_adapter_set_base_per_adv s (Some b) cnt ov)"
  by (simp add: wf_ble_def zephyr_ble_pa_adapter_set_base_per_adv_def)

text \<open>What the stack is given: the BASE element, if any, and then the custom element.\<close>

lemma set_data_ok:
  assumes wf: "wf_ble s" and adv: "ext_adv s = Some adv"
    and len: "unat dl \<le> PA_MAX_DATA_SIZE" "unat dl \<le> length d"
  shows "\<exists>s' buf. ble_adapter_set_data bt_set s bt a d dl =
       (let (r, bt') = bt_set adv
              (base_elements s @ [\<lparr>ad_type = BT_DATA_VS, ad_len = dl, ad_data = buf\<rparr>]) bt
        in Some (r, s', bt'))
     \<and> take (unat dl) buf = take (unat dl) d \<and> custom_ad_buf s' = buf \<and> wf_ble s'
     \<and> ext_adv s' = ext_adv s \<and> base_per_adv s' = base_per_adv s
     \<and> base_per_adv_count s' = base_per_adv_count s
     \<and> base_data_overhead s' = base_data_overhead s"
proof -
  let ?buf = "take (unat dl) d @ drop (unat dl) (custom_ad_buf s)"
  let ?el = "\<lparr>ad_type = BT_DATA_VS, ad_len = dl, ad_data = ?buf\<rparr>"
  obtain x y where comb: "combined_per_adv s = [x, y]"
    using wf by (cases "combined_per_adv s"; cases "tl (combined_per_adv s)")
      (auto simp: wf_ble_def)
  have wrb: "wr_range (custom_ad_buf s) 0 (take (unat dl) d) = Some ?buf"
    using wf len by (auto simp: wf_ble_def wr_range_def min_def)
  have cnt: "base_per_adv_count s = 0 \<or> base_per_adv_count s = 1"
    using wf by (auto simp: wf_ble_def)
  then show ?thesis
  proof
    assume c: "base_per_adv_count s = 0"
    then show ?thesis
      using wf adv len comb wrb
      by (intro exI [of _ "s\<lparr>custom_ad_buf := ?buf, combined_per_adv := [?el, y]\<rparr>"] exI [of _ ?buf])
        (auto simp: ble_adapter_set_data_def Let_def rd_range_def wr_def base_elements_def wf_ble_def
          split: option.splits)
  next
    assume c: "base_per_adv_count s = 1"
    let ?b0 = "case base_per_adv s of None \<Rightarrow> x | Some b \<Rightarrow> b ! 0"
    show ?thesis
      using wf adv len comb wrb c
      by (intro exI [of _ "s\<lparr>custom_ad_buf := ?buf, combined_per_adv := [?b0, ?el]\<rparr>"] exI [of _ ?buf])
        (auto simp: ble_adapter_set_data_def Let_def rd_range_def rd_def wr_def base_elements_def wf_ble_def
          split: option.splits prod.splits)
  qed
qed

text \<open>A second BASE element would make the adapter write past its array.\<close>

lemma set_data_overflow:
  assumes "ext_adv s = Some adv" and "length (combined_per_adv s) = 2"
    and "2 \<le> base_per_adv_count s" and "unat dl \<le> PA_MAX_DATA_SIZE"
  shows "ble_adapter_set_data bt_set s bt a d dl = None"
proof -
  have "wr c (base_per_adv_count s) e = None" if "length c = 2" for c and e :: bt_data
    using that assms(3) by (simp add: wr_def)
  moreover have "length c = 2" if "wr (combined_per_adv s) 0 b = Some c" for b c
    using that wr_length assms(2) by metis
  ultimately show ?thesis
    using assms by (auto simp: ble_adapter_set_data_def bind_eq_None_conv Let_def
        split: option.splits)
qed

lemma get_status_ok:
  assumes "1 \<le> length info" and "1 \<le> unat mx"
  shows "\<exists>n info'. ble_adapter_get_status bt_info s info mx = Some (0, n, info')
     \<and> length info' = length info \<and> unat n = (if ext_adv s = None then 0 else 1)
     \<and> (\<forall>adv. ext_adv s = Some adv \<longrightarrow>
          sid (info' ! 0) = (if fst (bt_info adv) = 0 then snd (bt_info adv) else 0)
        \<and> unat (available_bytes (info' ! 0)) =
            PA_MAX_DATA_SIZE - (unat (base_data_overhead s) + 2) mod 256)"
proof (cases "ext_adv s")
  case None
  then show ?thesis by (simp add: ble_adapter_get_status_def)
next
  case (Some adv)
  obtain r i where b: "bt_info adv = (r, i)" by fastforce
  have ov: "unat (base_data_overhead s + 2) = (unat (base_data_overhead s) + 2) mod 256"
    by (simp add: unat_word_ariths)
  have av: "unat (250 - base_data_overhead s) = 252 - unat (base_data_overhead s + 2)"
    if "base_data_overhead s + 2 \<le> 252"
    using unat_sub [OF that] by simp
  have "(1 :: u8) \<le> mx" using assms(2) by (simp add: word_le_nat_alt)
  moreover obtain x xs where "info = x # xs" using assms(1) by (cases info) auto
  ultimately show ?thesis
    using Some b ov av
    by (auto simp: ble_adapter_get_status_def wr_def word_le_nat_alt unat_sub)
qed

end
