(* ===== verification/TimerAdapter.thy ===== *)
theory TimerAdapter
  imports PaPorts ZephyrKernel
begin

text \<open>
  The one-shot timer adapter \<open>src/adapters/zephyr_timer_adapter.c\<close>: expiry, in interrupt
  context, submits a work item; the work item runs the callback in thread context.
\<close>

record timer_adapter_state =
  ktimer :: k_timer
  timer_cb :: "callback option"

definition zephyr_timer_adapter_create :: timer_adapter_state where
  "zephyr_timer_adapter_create = \<lparr>ktimer = None, timer_cb = None\<rparr>"

definition timer_adapter_start_oneshot ::
  "timer_adapter_state \<Rightarrow> u32 \<Rightarrow> callback \<Rightarrow> int \<times> timer_adapter_state" where
  "timer_adapter_start_oneshot s ms cb =
     (0, s\<lparr>timer_cb := Some cb, ktimer := k_timer_start ms (ktimer s)\<rparr>)"

definition timer_adapter_stop :: "timer_adapter_state \<Rightarrow> int \<times> timer_adapter_state" where
  "timer_adapter_stop s = (0, s\<lparr>ktimer := k_timer_stop (ktimer s)\<rparr>)"

text \<open>Expiry of the armed timer: the kernel disarms it and calls \<open>timer_expiry_fn\<close>.\<close>

definition timer_expiry_fn :: "timer_adapter_state \<Rightarrow> workq \<Rightarrow> timer_adapter_state \<times> workq" where
  "timer_expiry_fn s q = (s\<lparr>ktimer := None\<rparr>, k_work_submit Timer_work q)"

definition timer_work_handler :: "timer_adapter_state \<Rightarrow> callback option" where
  "timer_work_handler s = timer_cb s"

definition timer_armed :: "timer_adapter_state \<Rightarrow> (u32 \<times> callback) option" where
  "timer_armed s = (case (ktimer s, timer_cb s) of
      (Some ms, Some cb) \<Rightarrow> Some (ms, cb) | _ \<Rightarrow> None)"

lemma start_armed:
  "timer_adapter_start_oneshot s ms cb = (r, s') \<Longrightarrow> r = 0 \<and> timer_armed s' = Some (ms, cb)"
  by (auto simp: timer_adapter_start_oneshot_def timer_armed_def k_timer_start_def)

end
