(* ===== verification/PaFirmware.thy ===== *)
theory PaFirmware
  imports PaService UartAdapter BlePaAdapter TimerAdapter
begin

text \<open>
  The assembled PA data path: the ports made of the Zephyr adapters (the wiring of
  \<open>broadcast_source/main.c\<close>), the interpretation of the platform contract on them, and the
  firmware as a step relation over its interrupts and work items.
\<close>

section \<open>The world of the adapters\<close>

text \<open>\<open>bt\<close> is the state of the Bluetooth stack, \<open>wire_out\<close> the bytes sent by \<open>uart_poll_out\<close>.\<close>

record 'bt zworld =
  z_uart :: uart_adapter_state
  z_wire :: "u8 list"
  z_ble :: ble_pa_adapter_state
  z_bt :: 'bt
  z_timer :: timer_adapter_state

text \<open>The ports as main() wires them.\<close>

definition uart_port :: "bool \<Rightarrow> 'bt zworld pa_port_uart" where
  "uart_port rdy =
     \<lparr>uart_init = (\<lambda>w cb. let (r, u) = uart_adapter_init rdy (z_uart w) cb in (r, w\<lparr>z_uart := u\<rparr>)),
      uart_send = (\<lambda>w d n. do { (r, out) \<leftarrow> uart_adapter_send d n (z_wire w);
                               Some (r, w\<lparr>z_wire := out\<rparr>) })\<rparr>"

definition ble_pa_port ::
  "(nat \<Rightarrow> bt_data list \<Rightarrow> 'bt \<Rightarrow> int \<times> 'bt) \<Rightarrow> (nat \<Rightarrow> int \<times> u8) \<Rightarrow> 'bt zworld pa_port_ble_pa" where
  "ble_pa_port bt_set bt_info =
     \<lparr>set_data = (\<lambda>w s d n. do {
         (r, b, bt) \<leftarrow> ble_adapter_set_data bt_set (z_ble w) (z_bt w) s d n;
         Some (r, w\<lparr>z_ble := b, z_bt := bt\<rparr>) }),
      get_status = (\<lambda>w info mx. do {
         (r, n, info) \<leftarrow> ble_adapter_get_status bt_info (z_ble w) info mx;
         Some (r, n, info, w) }),
      is_ready = (\<lambda>w. ble_adapter_is_ready (z_ble w))\<rparr>"

definition timer_port :: "'bt zworld pa_port_timer" where
  "timer_port =
     \<lparr>start_oneshot = (\<lambda>w ms cb. let (r, t) = timer_adapter_start_oneshot (z_timer w) ms cb
                                 in (r, w\<lparr>z_timer := t\<rparr>)),
      timer_stop = (\<lambda>w. let (r, t) = timer_adapter_stop (z_timer w) in (r, w\<lparr>z_timer := t\<rparr>))\<rparr>"

lemmas port_defs = uart_port_def ble_pa_port_def timer_port_def

section \<open>A stack that records the advertised data\<close>

text \<open>
  The documented behaviour of \<open>bt_le_per_adv_set_data\<close> that matters here: on success the
  advertised data are the given elements, on failure they stay as they were. \<open>verdict\<close> is the
  return code, as the stack decides it.
\<close>

type_synonym bt_stack = "bt_data list"

definition bt_set_of :: "(nat \<Rightarrow> bt_data list \<Rightarrow> int) \<Rightarrow> nat \<Rightarrow> bt_data list \<Rightarrow> bt_stack \<Rightarrow> int \<times> bt_stack" where
  "bt_set_of verdict adv ads bt = (let r = verdict adv ads in (r, if r = 0 then ads else bt))"

text \<open>The bytes of an element that count, and the custom data last advertised.\<close>

definition ad_bytes :: "bt_data \<Rightarrow> u8 list" where
  "ad_bytes e = take (unat (ad_len e)) (ad_data e)"

definition custom_data :: "bt_stack \<Rightarrow> u8 list" where
  "custom_data ads =
     (let es = filter (\<lambda>e. ad_type e = BT_DATA_VS) ads
      in if es = [] then [] else ad_bytes (last es))"

definition z_ok :: "bt_stack zworld \<Rightarrow> bool" where
  "z_ok w \<longleftrightarrow> wf_uart (z_uart w) \<and> wf_ble (z_ble w)"

lemma custom_data_last:
  "custom_data (base @ [\<lparr>ad_type = BT_DATA_VS, ad_len = dl, ad_data = buf\<rparr>]) = take (unat dl) buf"
  by (simp add: custom_data_def ad_bytes_def)

lemma port_set_data:
  assumes "z_ok w" and "unat dl \<le> length d" and "unat dl \<le> PA_MAX_DATA_SIZE"
  shows "\<exists>r w'. set_data (ble_pa_port (bt_set_of verdict) bt_info) w s d dl = Some (r, w')
     \<and> z_ok w' \<and> z_wire w' = z_wire w \<and> z_timer w' = z_timer w \<and> z_uart w' = z_uart w
     \<and> ext_adv (z_ble w') = ext_adv (z_ble w)
     \<and> custom_data (z_bt w') = (if r = 0 then take (unat dl) d else custom_data (z_bt w))"
proof (cases "ext_adv (z_ble w)")
  case None
  then show ?thesis
    using assms by (auto simp: ble_pa_port_def ble_adapter_set_data_def)
next
  case (Some adv)
  obtain s' buf where e: "ble_adapter_set_data (bt_set_of verdict) (z_ble w) (z_bt w) s d dl =
       (let (r, bt') = bt_set_of verdict adv
              (base_elements (z_ble w) @ [\<lparr>ad_type = BT_DATA_VS, ad_len = dl, ad_data = buf\<rparr>]) (z_bt w)
        in Some (r, s', bt'))"
    and b: "take (unat dl) buf = take (unat dl) d" "wf_ble s'" "ext_adv s' = ext_adv (z_ble w)"
    using set_data_ok [OF _ Some assms(3,2), of "bt_set_of verdict" "z_bt w" s] assms(1)
    unfolding z_ok_def by blast
  show ?thesis
    using assms(1) b
    by (auto simp: ble_pa_port_def e bt_set_of_def Let_def z_ok_def custom_data_last)
qed

section \<open>The Zephyr adapters keep the platform contract\<close>

interpretation zephyr: pa_platform "uart_port rdy" "ble_pa_port (bt_set_of verdict) bt_info"
  timer_port z_wire "\<lambda>w. timer_armed (z_timer w)" "\<lambda>w. custom_data (z_bt w)" z_ok
  for rdy verdict bt_info
proof (unfold_locales, goal_cases)
  case (1 w n d)
  then show ?case
    by (simp add: port_defs uart_adapter_send_ok z_ok_def)
next
  case (2 w len d s)
  then show ?case
    using port_set_data [of w len d verdict bt_info s]
    by (auto simp: ble_pa_port_def ble_adapter_is_ready_def)
next
  case (3 w info)
  have "\<exists>n info'. ble_adapter_get_status bt_info (z_ble w) info (of_nat PA_MAX_ADV_SETS) = Some (0, n, info')
     \<and> length info' = length info \<and> unat n \<le> 1"
    using get_status_ok [of info "of_nat PA_MAX_ADV_SETS" bt_info "z_ble w"] 3(2)
    by (fastforce split: if_splits)
  then show ?case
    using 3 by (fastforce simp: ble_pa_port_def)
next
  case (4 w ms cb r w')
  then show ?case
    using start_armed [of "z_timer w" ms cb]
    by (fastforce simp: timer_port_def z_ok_def ble_pa_port_def split: prod.splits)
qed

section \<open>The firmware as events\<close>

text \<open>
  The state: the service, the world and the system work queue. An event is an interrupt, the
  work queue running its next item, the advertiser becoming ready, or the button thread
  writing its test data. \<open>Run_work\<close> carries what the environment decides while the handler
  runs: the stack's verdict, and the contents of the handler's uninitialised locals. Handlers
  and interrupts are atomic: an interrupt that arrives during a work item is an event after it.
\<close>

record fw =
  svc :: pa_service
  world :: "bt_stack zworld"
  queue :: workq

datatype event =
  Uart_irq bool "u8 option list"
| Timer_irq
| Run_work "nat \<Rightarrow> bt_data list \<Rightarrow> int" "nat \<Rightarrow> int \<times> u8" "pa_adv_info list" u8 pa_data_send_req
| Ext_adv_ready nat
| Button_data "nat \<Rightarrow> bt_data list \<Rightarrow> int" "u8 list"

definition run_callback ::
  "(nat \<Rightarrow> bt_data list \<Rightarrow> int) \<Rightarrow> (nat \<Rightarrow> int \<times> u8) \<Rightarrow> pa_adv_info list \<Rightarrow> u8 \<Rightarrow> pa_data_send_req
   \<Rightarrow> work_item \<Rightarrow> fw \<Rightarrow> fw option" where
  "run_callback verdict bt_info info0 op0 p0 item f =
     (case item of
        Rx_work \<Rightarrow>
          (case rx_work_handler (z_uart (world f)) of
             Some (Pa_service_on_command, frame, len) \<Rightarrow> do {
               (s, w) \<leftarrow> pa_service_on_command (uart_port True)
                          (ble_pa_port (bt_set_of verdict) bt_info) timer_port
                          info0 op0 p0 frame len (svc f) (world f);
               Some (f\<lparr>svc := s, world := w\<rparr>) }
           | _ \<Rightarrow> Some f)
      | Timer_work \<Rightarrow>
          (case timer_work_handler (z_timer (world f)) of
             Some Pa_service_on_pa_interval \<Rightarrow> do {
               (s, w) \<leftarrow> pa_service_on_pa_interval (uart_port True) (svc f) (world f);
               Some (f\<lparr>svc := s, world := w\<rparr>) }
           | _ \<Rightarrow> Some f))"

fun fw_step :: "event \<Rightarrow> fw \<Rightarrow> fw option" where
  "fw_step (Uart_irq upd fifo) f = do {
     (u, q) \<leftarrow> uart_isr_callback upd fifo (z_uart (world f), queue f);
     Some (f\<lparr>world := (world f)\<lparr>z_uart := u\<rparr>, queue := q\<rparr>) }"
| "fw_step Timer_irq f =
     (if ktimer (z_timer (world f)) = None then Some f
      else (let (t, q) = timer_expiry_fn (z_timer (world f)) (queue f)
            in Some (f\<lparr>world := (world f)\<lparr>z_timer := t\<rparr>, queue := q\<rparr>)))"
| "fw_step (Run_work verdict bt_info info0 op0 p0) f =
     (case queue f of
        [] \<Rightarrow> Some f
      | item # q \<Rightarrow> run_callback verdict bt_info info0 op0 p0 item (f\<lparr>queue := q\<rparr>))"
| "fw_step (Ext_adv_ready adv) f =
     Some (f\<lparr>world := (world f)\<lparr>z_ble := zephyr_ble_pa_adapter_set_ext_adv (z_ble (world f)) (Some adv)\<rparr>\<rparr>)"
| "fw_step (Button_data verdict d) f =
     (let ble = ble_pa_port (bt_set_of verdict) (\<lambda>_. (0, 0))
      in if is_ready ble (world f) then do {
           (_, w) \<leftarrow> set_data ble (world f) 0 d (of_nat (length d));
           Some (f\<lparr>world := w\<rparr>) }
         else Some f)"

text \<open>What is left undetermined has the size of the C object it stands for.\<close>

fun wf_event :: "event \<Rightarrow> bool" where
  "wf_event (Run_work verdict bt_info info0 op0 p0) \<longleftrightarrow> length info0 = PA_MAX_ADV_SETS \<and> wf_req p0"
| "wf_event (Button_data verdict d) \<longleftrightarrow> length d \<le> 8"
| "wf_event _ \<longleftrightarrow> True"

text \<open>
  The state main() has built when \<open>pa_service_init\<close> has returned 0 and the BASE reference is
  registered: \<open>cnt\<close> is the number of periodic advertising elements, 0 or 1.
\<close>

definition fw_init :: "bt_data \<Rightarrow> nat \<Rightarrow> u8 \<Rightarrow> u8 \<Rightarrow> bt_stack \<Rightarrow> fw" where
  "fw_init base cnt base_overhead baas_ov bt =
     (let w0 = \<lparr>z_uart = zephyr_uart_adapter_create, z_wire = [],
                z_ble = zephyr_ble_pa_adapter_create, z_bt = bt,
                z_timer = zephyr_timer_adapter_create\<rparr>;
          s0 = \<lparr>pa_ctx = the (pa_data_mgr_init (Some undefined) 0),
                tx_buf = replicate PA_SERVICE_TX_BUF_SIZE 0\<rparr>;
          (_, s, w) = pa_service_init (uart_port True) (Some s0) baas_ov w0
      in \<lparr>svc = the s,
          world = w\<lparr>z_ble := zephyr_ble_pa_adapter_set_base_per_adv (z_ble w) (Some [base]) cnt base_overhead\<rparr>,
          queue = []\<rparr>)"

inductive fw_reach :: "fw \<Rightarrow> bool" where
  init: "cnt \<le> 1 \<Longrightarrow> fw_reach (fw_init base cnt ov baas bt)"
| step: "fw_reach f \<Longrightarrow> wf_event e \<Longrightarrow> fw_step e f = Some f' \<Longrightarrow> fw_reach f'"

section \<open>Invariant\<close>

text \<open>
  The slot is pending exactly while its timer is armed or its expiry is queued, never both.
\<close>

definition fw_inv :: "fw \<Rightarrow> bool" where
  "fw_inv f \<longleftrightarrow>
     wf_svc (svc f) \<and> z_ok (world f) \<and> distinct (queue f)
     \<and> rx_cb (z_uart (world f)) = Some Pa_service_on_command
     \<and> state (pa_ctx (svc f)) \<noteq> PA_STATE_COMPLETE
     \<and> (state (pa_ctx (svc f)) = PA_STATE_PENDING \<longleftrightarrow>
          ktimer (z_timer (world f)) \<noteq> None \<or> Timer_work \<in> set (queue f))
     \<and> \<not> (ktimer (z_timer (world f)) \<noteq> None \<and> Timer_work \<in> set (queue f))
     \<and> (state (pa_ctx (svc f)) = PA_STATE_PENDING \<longrightarrow>
          timer_cb (z_timer (world f)) = Some Pa_service_on_pa_interval)
     \<and> (ktimer (z_timer (world f)) = None \<or> ktimer (z_timer (world f)) = Some 250)"

lemma slot_state:
  "slot_of c = Idle \<longleftrightarrow> state c = PA_STATE_IDLE"
  "slot_of c = Pending a d \<Longrightarrow> state c = PA_STATE_PENDING"
  by (cases "state c"; simp add: slot_of_def)+

lemma fw_init_inv: "cnt \<le> 1 \<Longrightarrow> fw_inv (fw_init base cnt ov baas bt)"
  by (auto simp: fw_inv_def fw_init_def pa_service_init_def pa_data_mgr_init_def uart_port_def
      uart_adapter_init_def zephyr_uart_adapter_create_def zephyr_timer_adapter_create_def
      zephyr_ble_pa_adapter_create_def zephyr_ble_pa_adapter_set_base_per_adv_def
      wf_svc_def wf_ctx_def z_ok_def wf_uart_def wf_ble_def)

lemma timer_armed_iff:
  "timer_armed t = Some (250, cb) \<longleftrightarrow> ktimer t = Some 250 \<and> timer_cb t = Some cb"
  by (auto simp: timer_armed_def split: option.splits)

text \<open>The adapters' fields a handler leaves alone.\<close>

lemma frame_of_take: "rx_work_handler u = Some (cb, b, n) \<Longrightarrow> delivered u = take n b"
  by (auto simp: rx_work_handler_def delivered_def split: option.splits)

lemma step_uart:
  assumes inv: "fw_inv f"
  shows "\<exists>f' u q fs. fw_step (Uart_irq upd fifo) f = Some f' \<and> fw_inv f'
     \<and> f' = f\<lparr>world := (world f)\<lparr>z_uart := u\<rparr>, queue := q\<rparr> \<and> wf_uart u
     \<and> deframe (if upd then fifo_bytes fifo else []) (partial_frame (z_uart (world f)))
          = (partial_frame u, fs)
     \<and> (if fs = [] then q = queue f \<and> delivered u = delivered (z_uart (world f))
         else q = k_work_submit Rx_work (queue f) \<and> delivered u = last fs)"
proof -
  have wf: "wf_uart (z_uart (world f))" using inv by (simp add: fw_inv_def z_ok_def)
  obtain u q fs where u: "isr_loop fifo (z_uart (world f), queue f) = Some (u, q)" "wf_uart u"
      "rx_cb u = rx_cb (z_uart (world f))"
      "deframe (fifo_bytes fifo) (partial_frame (z_uart (world f))) = (partial_frame u, fs)"
      "if fs = [] then q = queue f \<and> delivered u = delivered (z_uart (world f))
         else q = k_work_submit Rx_work (queue f) \<and> delivered u = last fs"
    using isr_loop_refines [OF wf, of fifo "queue f"] by blast
  have q: "distinct q" "Timer_work \<in> set q \<longleftrightarrow> Timer_work \<in> set (queue f)"
    using u(5) inv by (auto simp: fw_inv_def k_work_submit_distinct split: if_splits)
  have inv': "fw_inv (f\<lparr>world := (world f)\<lparr>z_uart := u\<rparr>, queue := q\<rparr>)"
    using inv u(2,3) q by (simp add: fw_inv_def z_ok_def)
  show ?thesis
  proof (cases upd)
    case True
    then show ?thesis
      using inv' u
      by (intro exI [of _ "f\<lparr>world := (world f)\<lparr>z_uart := u\<rparr>, queue := q\<rparr>"] exI [of _ u] exI [of _ q] exI [of _ fs])
        (simp add: uart_isr_callback_def)
  next
    case False
    then show ?thesis
      using inv wf
      by (intro exI [of _ f] exI [of _ "z_uart (world f)"] exI [of _ "queue f"] exI [of _ "[]"])
        (simp add: uart_isr_callback_def)
  qed
qed

lemma step_timer:
  assumes inv: "fw_inv f"
  shows "\<exists>f'. fw_step Timer_irq f = Some f' \<and> fw_inv f' \<and> svc f' = svc f
     \<and> z_wire (world f') = z_wire (world f) \<and> z_bt (world f') = z_bt (world f)
     \<and> (state (pa_ctx (svc f)) = PA_STATE_PENDING \<longrightarrow> Timer_work \<in> set (queue f'))
     \<and> (ktimer (z_timer (world f)) \<noteq> None \<longrightarrow> queue f' = queue f @ [Timer_work])"
  using inv
  by (auto simp: timer_expiry_fn_def fw_inv_def z_ok_def k_work_submit_distinct k_work_submit_def)

text \<open>The work item of the timer: completion of the pending transmission.\<close>

lemma run_timer:
  assumes inv: "fw_inv f" and q: "queue f = Timer_work # q"
  shows "\<exists>f'. fw_step (Run_work verdict bt_info info0 op0 p0) f = Some f' \<and> fw_inv f'
     \<and> slot_of (pa_ctx (svc f')) = Idle \<and> queue f' = q
     \<and> z_wire (world f') = z_wire (world f) @ frame_data_send_complete
     \<and> custom_data (z_bt (world f')) = custom_data (z_bt (world f))"
proof -
  have pend: "state (pa_ctx (svc f)) = PA_STATE_PENDING"
    and cb: "timer_cb (z_timer (world f)) = Some Pa_service_on_pa_interval"
    and z: "z_ok (world f)" "wf_svc (svc f)" "ktimer (z_timer (world f)) = None"
      "Timer_work \<notin> set q" "distinct q"
    using inv q by (auto simp: fw_inv_def)
  obtain s w where s: "pa_service_on_pa_interval (uart_port True) (svc f) (world f) = Some (s, w)"
      "wf_svc s" "slot_of (pa_ctx s) = Idle"
    and w: "zephyr.only_wire verdict bt_info (world f) frame_data_send_complete w"
    using zephyr.on_pa_interval_ok [OF z(1,2), of True verdict bt_info] pend by auto
  have st: "state (pa_ctx s) = PA_STATE_IDLE" using s(3) slot_state by blast
  have frame: "z_uart w = z_uart (world f)" "z_timer w = z_timer (world f)"
    using s(1) by (auto simp: pa_service_on_pa_interval_def send_tx_def uart_port_def bind_eq_Some_conv
        Let_def split: prod.splits if_splits)
  show ?thesis
    using inv q s w st frame z cb
    by (auto simp: run_callback_def timer_work_handler_def fw_inv_def zephyr.only_wire_def)
qed

text \<open>The handlers leave the UART receiver alone, and the timer but for starting it.\<close>

definition timer_kept :: "timer_adapter_state \<Rightarrow> timer_adapter_state \<Rightarrow> bool" where
  "timer_kept t t' \<longleftrightarrow>
     t' = t \<or> (ktimer t' = Some 250 \<and> timer_cb t' = Some Pa_service_on_pa_interval)"

lemma send_data_rsp_frame:
  "send_data_rsp (uart_port r) res s w = Some (s', w') \<Longrightarrow> z_uart w' = z_uart w \<and> z_timer w' = z_timer w"
  by (auto simp: send_data_rsp_def send_tx_def uart_port_def bind_eq_Some_conv split: if_splits)

lemma set_data_frame:
  "set_data (ble_pa_port bs bi) w s d n = Some (r, w') \<Longrightarrow> z_uart w' = z_uart w \<and> z_timer w' = z_timer w"
  by (auto simp: ble_pa_port_def bind_eq_Some_conv)

lemma status_frame:
  assumes "handle_status_get_req (uart_port r) (ble_pa_port bs bi) info s w = Some (s', w')"
  shows "z_uart w' = z_uart w \<and> z_timer w' = z_timer w"
proof -
  have "w1 = w" if "collect_status (ble_pa_port bs bi) info w = Some (x, w1)" for x w1
    using that by (auto simp: collect_status_def ble_pa_port_def bind_eq_Some_conv Let_def split: if_splits)
  then show ?thesis
    using assms by (fastforce simp: handle_status_get_req_def send_tx_def uart_port_def
        bind_eq_Some_conv split: if_splits)
qed

lemma data_send_frame:
  assumes "handle_data_send_req (uart_port r) (ble_pa_port bs bi) timer_port req s w = Some (s', w')"
  shows "z_uart w' = z_uart w \<and> timer_kept (z_timer w) (z_timer w')"
proof (cases "is_ready (ble_pa_port bs bi) w")
  case False
  then show ?thesis
    using assms send_data_rsp_frame [of r _ s w] by (auto simp: handle_data_send_req_def timer_kept_def)
next
  case True
  obtain res ctx where sub: "pa_data_mgr_submit (Some (pa_ctx s)) (advertising_sid req)
      (Some (req_data req)) (data_length req) = Some (res, ctx)"
    using assms True by (auto simp: handle_data_send_req_def bind_eq_Some_conv)
  show ?thesis
  proof (cases "res = PA_RESULT_SUCCESS")
    case False
    then show ?thesis
      using assms True sub send_data_rsp_frame [of r res _ w]
      by (auto simp: handle_data_send_req_def timer_kept_def Let_def)
  next
    case succ: True
    then obtain e w1 where sd: "set_data (ble_pa_port bs bi) w (advertising_sid req) (req_data req)
        (data_length req) = Some (e, w1)"
      using assms True sub by (auto simp: handle_data_send_req_def bind_eq_Some_conv Let_def)
    show ?thesis
      using assms True sub succ sd set_data_frame [OF sd] send_data_rsp_frame
      by (auto simp: handle_data_send_req_def timer_kept_def Let_def timer_port_def
          timer_adapter_start_oneshot_def k_timer_start_def split: if_splits dest!: send_data_rsp_frame)
  qed
qed

lemma kept_armed:
  assumes "timer_kept t t'" and "timer_armed t' = timer_armed t"
  shows "ktimer t' = ktimer t \<and> timer_cb t' = timer_cb t"
  using assms by (auto simp: timer_kept_def timer_armed_def split: option.splits)

text \<open>The work item of the UART: the delivered frame is executed as a command.\<close>

definition command_effect :: "(nat \<Rightarrow> bt_data list \<Rightarrow> int) \<Rightarrow> u8 list \<Rightarrow> fw \<Rightarrow> fw \<Rightarrow> bool" where
  "command_effect verdict b f f' \<longleftrightarrow>
     (case decode_command b of
        Inl _ \<Rightarrow> svc f' = svc f \<and> world f' = world f
      | Inr StatusGet \<Rightarrow>
          pa_ctx (svc f') = pa_ctx (svc f)
          \<and> (\<exists>sets. length sets = (if ble_adapter_is_ready (z_ble (world f)) then 1 else 0)
               \<and> z_wire (world f') = z_wire (world f) @ frame_status_rsp sets)
          \<and> timer_armed (z_timer (world f')) = timer_armed (z_timer (world f))
          \<and> custom_data (z_bt (world f')) = custom_data (z_bt (world f))
      | Inr (DataSend s d) \<Rightarrow>
          (\<exists>acc res. ((\<forall>adv ads. verdict adv ads = 0) \<longrightarrow> acc)
            \<and> ((\<forall>adv ads. verdict adv ads \<noteq> 0) \<longrightarrow> \<not> acc)
            \<and> z_wire (world f') = z_wire (world f) @ frame_data_send_rsp res
            \<and> (res, slot_of (pa_ctx (svc f')), timer_armed (z_timer (world f')), custom_data (z_bt (world f')))
              = data_send_outcome (ble_adapter_is_ready (z_ble (world f)))
                  (capacity (baas_overhead (pa_ctx (svc f)))) acc s d
                  (slot_of (pa_ctx (svc f)), timer_armed (z_timer (world f)), custom_data (z_bt (world f)))))"

lemma port_accepts_verdict:
  assumes "z_ok w" and "wf_req req" and "unat (data_length req) \<le> PA_MAX_DATA_SIZE"
    and "ext_adv (z_ble w) \<noteq> None"
  shows "((\<forall>adv ads. verdict adv ads = 0) \<longrightarrow> port_accepts (ble_pa_port (bt_set_of verdict) bi) w req)
       \<and> ((\<forall>adv ads. verdict adv ads \<noteq> 0) \<longrightarrow> \<not> port_accepts (ble_pa_port (bt_set_of verdict) bi) w req)"
proof -
  obtain adv where adv: "ext_adv (z_ble w) = Some adv" using assms(4) by blast
  have len: "unat (data_length req) \<le> length (req_data req)" using assms(2,3) by (simp add: wf_req_def)
  obtain s' buf where e: "ble_adapter_set_data (bt_set_of verdict) (z_ble w) (z_bt w)
       (advertising_sid req) (req_data req) (data_length req) =
       (let (r, bt') = bt_set_of verdict adv (base_elements (z_ble w) @
              [\<lparr>ad_type = BT_DATA_VS, ad_len = data_length req, ad_data = buf\<rparr>]) (z_bt w)
        in Some (r, s', bt'))"
    using set_data_ok [OF _ adv assms(3) len, of "bt_set_of verdict" "z_bt w"] assms(1)
    unfolding z_ok_def by blast
  then show ?thesis
    by (auto simp: port_accepts_def ble_pa_port_def bt_set_of_def Let_def)
qed

lemma outcome_not_ready:
  "data_send_outcome False cap acc s d v = data_send_outcome False cap acc' s d v"
  by (simp add: data_send_outcome_def)

lemma run_data_send:
  assumes z: "z_ok (world f)" and svc: "wf_svc (svc f)" and req: "wf_req req"
    and len: "unat (data_length req) \<le> PA_MAX_DATA_SIZE"
  shows "\<exists>acc res s w. handle_data_send_req (uart_port True) (ble_pa_port (bt_set_of verdict) bi)
            timer_port req (svc f) (world f) = Some (s, w)
     \<and> wf_svc s \<and> z_ok w \<and> z_uart w = z_uart (world f)
     \<and> timer_kept (z_timer (world f)) (z_timer w)
     \<and> ((\<forall>adv ads. verdict adv ads = 0) \<longrightarrow> acc) \<and> ((\<forall>adv ads. verdict adv ads \<noteq> 0) \<longrightarrow> \<not> acc)
     \<and> z_wire w = z_wire (world f) @ frame_data_send_rsp res
     \<and> (res, slot_of (pa_ctx s), timer_armed (z_timer w), custom_data (z_bt w))
       = data_send_outcome (ble_adapter_is_ready (z_ble (world f)))
           (capacity (baas_overhead (pa_ctx (svc f)))) acc (advertising_sid req)
           (take (unat (data_length req)) (req_data req))
           (slot_of (pa_ctx (svc f)), timer_armed (z_timer (world f)), custom_data (z_bt (world f)))"
proof -
  let ?ble = "ble_pa_port (bt_set_of verdict) bi"
  have rdy: "is_ready ?ble (world f) = ble_adapter_is_ready (z_ble (world f))"
    by (simp add: ble_pa_port_def)
  obtain res s w where h: "handle_data_send_req (uart_port True) ?ble timer_port req (svc f) (world f)
        = Some (s, w)" "wf_svc s" "z_ok w"
      "z_wire w = z_wire (world f) @ frame_data_send_rsp res"
      "(res, slot_of (pa_ctx s), timer_armed (z_timer w), custom_data (z_bt w))
       = data_send_outcome (ble_adapter_is_ready (z_ble (world f)))
           (capacity (baas_overhead (pa_ctx (svc f)))) (port_accepts ?ble (world f) req)
           (advertising_sid req) (take (unat (data_length req)) (req_data req))
           (slot_of (pa_ctx (svc f)), timer_armed (z_timer (world f)), custom_data (z_bt (world f)))"
    using zephyr.data_send_ok [OF z svc req len, of True verdict bi] rdy by auto
  let ?acc = "if ble_adapter_is_ready (z_ble (world f)) then port_accepts ?ble (world f) req
              else (\<forall>adv ads. verdict adv ads = 0)"
  have acc: "((\<forall>adv ads. verdict adv ads = 0) \<longrightarrow> ?acc) \<and> ((\<forall>adv ads. verdict adv ads \<noteq> 0) \<longrightarrow> \<not> ?acc)"
    using port_accepts_verdict [OF z req len, of verdict bi] by (auto simp: ble_adapter_is_ready_def)
  have "data_send_outcome (ble_adapter_is_ready (z_ble (world f))) c (port_accepts ?ble (world f) req) sd d v
      = data_send_outcome (ble_adapter_is_ready (z_ble (world f))) c ?acc sd d v" for c sd d v
    by (simp add: data_send_outcome_def)
  with h acc data_send_frame [OF h(1)] show ?thesis
    by (intro exI [of _ ?acc] exI [of _ res] exI [of _ s] exI [of _ w]) auto
qed

lemma offered_length:
  assumes "length info0 = PA_MAX_ADV_SETS"
  shows "length (zephyr.offered bt_set bt_info info0 w) =
     (if ble_adapter_is_ready (z_ble w) then 1 else 0)"
proof (cases "ext_adv (z_ble w)")
  case None
  then show ?thesis unfolding zephyr.offered_def by (simp add: ble_pa_port_def ble_adapter_is_ready_def)
next
  case (Some adv)
  have "1 \<le> length info0" "1 \<le> unat (of_nat PA_MAX_ADV_SETS :: u8)" using assms by simp_all
  from get_status_ok [OF this, of bt_info "z_ble w"] Some assms show ?thesis
    unfolding zephyr.offered_def by (auto simp: ble_pa_port_def ble_adapter_is_ready_def)
qed

lemma inv_after_send:
  assumes inv: "fw_inv f" and q: "queue f = Rx_work # q"
    and w: "wf_svc s" "z_ok w" "z_uart w = z_uart (world f)" "timer_kept (z_timer (world f)) (z_timer w)"
    and out: "(res, slot_of (pa_ctx s), timer_armed (z_timer w), adv)
       = data_send_outcome rdy cap acc sd d (slot_of (pa_ctx (svc f)), timer_armed (z_timer (world f)), adv0)"
  shows "fw_inv (f\<lparr>queue := q, svc := s, world := w\<rparr>)"
proof (cases "slot_of (pa_ctx s) = slot_of (pa_ctx (svc f)) \<and>
              timer_armed (z_timer w) = timer_armed (z_timer (world f))")
  case True
  then have "ktimer (z_timer w) = ktimer (z_timer (world f))" "timer_cb (z_timer w) = timer_cb (z_timer (world f))"
    using kept_armed [OF w(4)] by auto
  moreover have "state (pa_ctx s) = state (pa_ctx (svc f))"
    using True by (cases "state (pa_ctx s)"; cases "state (pa_ctx (svc f))"; simp add: slot_of_def)
  ultimately show ?thesis using inv q w by (auto simp: fw_inv_def)
next
  case False
  then have i: "state (pa_ctx (svc f)) = PA_STATE_IDLE" "slot_of (pa_ctx s) = Pending sd d"
    and t: "timer_armed (z_timer w) = Some (250, Pa_service_on_pa_interval)"
    using out slot_state by (auto simp: data_send_outcome_def split: if_splits)
  then have "state (pa_ctx s) = PA_STATE_PENDING" using slot_state by blast
  then show ?thesis using inv q w i t by (auto simp: fw_inv_def timer_armed_iff)
qed

lemma run_rx:
  assumes inv: "fw_inv f" and q: "queue f = Rx_work # q"
    and ev: "length info0 = PA_MAX_ADV_SETS" "wf_req p0"
  shows "\<exists>f'. fw_step (Run_work verdict bt_info info0 op0 p0) f = Some f' \<and> fw_inv f'
     \<and> queue f' = q \<and> z_uart (world f') = z_uart (world f)
     \<and> command_effect verdict (delivered (z_uart (world f))) f f'"
proof -
  let ?u = "z_uart (world f)" and ?b = "delivered (z_uart (world f))"
  let ?uart = "uart_port True" and ?ble = "ble_pa_port (bt_set_of verdict) bt_info"
  have z: "z_ok (world f)" "wf_svc (svc f)" "wf_uart ?u" using inv by (auto simp: fw_inv_def z_ok_def)
  have cb: "rx_work_handler ?u = Some (Pa_service_on_command, rx_frame ?u, rx_frame_len ?u)"
    using inv by (simp add: fw_inv_def rx_work_handler_def)
  have n: "rx_frame_len ?u \<le> length (rx_frame ?u)" using z(3) by (simp add: wf_uart_def)
  have step: "fw_step (Run_work verdict bt_info info0 op0 p0) f = do {
       (s, w) \<leftarrow> pa_service_on_command ?uart ?ble timer_port info0 op0 p0 ?b (length ?b) (svc f) (world f);
       Some (f\<lparr>queue := q, svc := s, world := w\<rparr>) }"
    using q cb by (simp add: run_callback_def on_command_take [OF n] delivered_def)
  show ?thesis
  proof (cases "decode_command ?b")
    case (Inl e)
    have inv': "fw_inv (f\<lparr>queue := q\<rparr>)" using inv q by (auto simp: fw_inv_def)
    show ?thesis
      unfolding step using Inl inv' by (simp add: zephyr.on_command_rejected [OF ev(2) Inl] command_effect_def)
  next
    case (Inr c)
    show ?thesis
    proof (cases c)
      case StatusGet
      with Inr have d: "decode_command ?b = Inr StatusGet" by simp
      obtain s w where h: "handle_status_get_req ?uart ?ble info0 (svc f) (world f) = Some (s, w)"
          "wf_svc s" "pa_ctx s = pa_ctx (svc f)"
        and o: "zephyr.only_wire verdict bt_info (world f)
                  (frame_status_rsp (zephyr.offered verdict bt_info info0 (world f))) w"
        using zephyr.status_get_ok [OF z(1,2) ev(1), of True verdict bt_info] by blast
      have inv': "fw_inv (f\<lparr>queue := q, svc := s, world := w\<rparr>)"
        using inv q h o status_frame [OF h(1)] by (auto simp: fw_inv_def zephyr.only_wire_def)
      show ?thesis
        unfolding step using inv' h o d status_frame [OF h(1)] offered_length [OF ev(1), of verdict bt_info "world f"]
        by (auto simp: zephyr.on_command_status [OF ev(2) d] command_effect_def zephyr.only_wire_def)
    next
      case (DataSend sd d)
      with Inr have dc: "decode_command ?b = Inr (DataSend sd d)" by simp
      obtain req where r: "pa_service_on_command ?uart ?ble timer_port info0 op0 p0 ?b (length ?b) (svc f) (world f)
            = handle_data_send_req ?uart ?ble timer_port req (svc f) (world f)" "wf_req req"
          "advertising_sid req = sd" "take (unat (data_length req)) (req_data req) = d"
          "unat (data_length req) \<le> PA_MAX_DATA_SIZE"
        using zephyr.on_command_data [OF ev(2) dc, of True verdict bt_info info0 op0 "svc f" "world f"]
        by fastforce
      obtain acc res s w where h: "handle_data_send_req ?uart ?ble timer_port req (svc f) (world f) = Some (s, w)"
          "wf_svc s" "z_ok w" "z_uart w = ?u" "timer_kept (z_timer (world f)) (z_timer w)"
          "(\<forall>adv ads. verdict adv ads = 0) \<longrightarrow> acc" "(\<forall>adv ads. verdict adv ads \<noteq> 0) \<longrightarrow> \<not> acc"
          "z_wire w = z_wire (world f) @ frame_data_send_rsp res"
          "(res, slot_of (pa_ctx s), timer_armed (z_timer w), custom_data (z_bt w))
            = data_send_outcome (ble_adapter_is_ready (z_ble (world f)))
               (capacity (baas_overhead (pa_ctx (svc f)))) acc sd d
               (slot_of (pa_ctx (svc f)), timer_armed (z_timer (world f)), custom_data (z_bt (world f)))"
        using run_data_send [OF z(1,2) r(2,5), of verdict bt_info] unfolding r(3,4) by blast
      show ?thesis
        unfolding step r(1) h(1) command_effect_def dc
        using inv_after_send [OF inv q h(2-5,9)] h(4,6-9)
        by (auto intro!: exI [of _ acc] exI [of _ res])
    qed
  qed
qed

lemma step_ext_adv: "fw_inv f \<Longrightarrow> \<exists>f'. fw_step (Ext_adv_ready adv) f = Some f' \<and> fw_inv f'"
  by (auto simp: fw_inv_def z_ok_def wf_ble_def zephyr_ble_pa_adapter_set_ext_adv_def)

lemma step_button:
  assumes inv: "fw_inv f" and d: "length d \<le> 8"
  shows "\<exists>f'. fw_step (Button_data verdict d) f = Some f' \<and> fw_inv f' \<and> svc f' = svc f"
proof -
  have len: "unat (of_nat (length d) :: u8) = length d" using d by (simp add: u8_of_nat)
  obtain r w where w: "set_data (ble_pa_port (bt_set_of verdict) (\<lambda>_. (0, 0))) (world f) 0 d
        (of_nat (length d)) = Some (r, w)"
      "z_ok w" "z_timer w = z_timer (world f)" "z_uart w = z_uart (world f)"
    using port_set_data [of "world f" "of_nat (length d)" d verdict "\<lambda>_. (0, 0)" 0] inv d len
    by (auto simp: fw_inv_def)
  then have "fw_inv (f\<lparr>world := w\<rparr>)" using inv by (simp add: fw_inv_def)
  then show ?thesis using w inv by (simp add: Let_def)
qed

declare fw_step.simps [simp del]

lemma step_run:
  assumes "fw_inv f" and "length info0 = PA_MAX_ADV_SETS" and "wf_req p0"
  shows "\<exists>f'. fw_step (Run_work verdict bt_info info0 op0 p0) f = Some f' \<and> fw_inv f'"
proof (cases "queue f")
  case Nil
  then show ?thesis using assms(1) by (simp add: fw_step.simps)
next
  case (Cons item q)
  then show ?thesis
    using run_rx [OF assms(1) _ assms(2,3), of q] run_timer [OF assms(1), of q]
    by (cases item) blast+
qed

lemma step_inv: "fw_inv f \<Longrightarrow> wf_event e \<Longrightarrow> \<exists>f'. fw_step e f = Some f' \<and> fw_inv f'"
proof (cases e)
  case (Uart_irq upd fifo)
  assume "fw_inv f"
  from step_uart [OF this, of upd fifo] Uart_irq show ?thesis by auto
next
  case Timer_irq
  assume "fw_inv f"
  from step_timer [OF this] Timer_irq show ?thesis by auto
next
  case (Run_work v b i oc p)
  assume "fw_inv f" and "wf_event e"
  then show ?thesis using step_run [of f i p v b oc] Run_work by auto
next
  case (Ext_adv_ready adv)
  assume "fw_inv f"
  from step_ext_adv [OF this, of adv] Ext_adv_ready show ?thesis by auto
next
  case (Button_data v d)
  assume "fw_inv f" and "wf_event e"
  then show ?thesis using step_button [of f d v] Button_data by auto
qed

lemma reach_inv: "fw_reach f \<Longrightarrow> fw_inv f"
proof (induction rule: fw_reach.induct)
  case (init cnt base ov baas bt)
  then show ?case by (rule fw_init_inv)
next
  case (step f e f')
  then show ?case using step_inv [of f e] by auto
qed

text \<open>Runs of events.\<close>

fun fw_run :: "event list \<Rightarrow> fw \<Rightarrow> fw option" where
  "fw_run [] f = Some f"
| "fw_run (e # es) f = do { f \<leftarrow> fw_step e f; fw_run es f }"

lemma fw_run_append: "fw_run (es @ es') f = do { f \<leftarrow> fw_run es f; fw_run es' f }"
  by (induction es arbitrary: f) (auto intro!: Option.bind_cong)

lemma run_reach: "fw_reach f \<Longrightarrow> list_all wf_event es \<Longrightarrow> fw_run es f = Some f' \<Longrightarrow> fw_reach f'"
  by (induction es arbitrary: f) (auto simp: bind_eq_Some_conv intro: fw_reach.step)

lemma run_inv: "fw_inv f \<Longrightarrow> list_all wf_event es \<Longrightarrow> \<exists>f'. fw_run es f = Some f' \<and> fw_inv f'"
proof (induction es arbitrary: f)
  case Nil
  then show ?case by simp
next
  case (Cons e es)
  then obtain f1 where "fw_step e f = Some f1" "fw_inv f1" using step_inv [of f e] by auto
  then show ?case using Cons by simp
qed

text \<open>A reachable state for the witnesses: an advertiser is ready and nothing has been received.\<close>

definition fw_example :: fw where
  "fw_example = the (fw_step (Ext_adv_ready 1)
     (fw_init \<lparr>ad_type = 0x16, ad_len = 30, ad_data = replicate 30 0\<rparr> 1 32 0 []))"

lemma fw_example_reach: "fw_reach fw_example"
  unfolding fw_example_def
  by (rule fw_reach.step [OF fw_reach.init, of 1 "Ext_adv_ready 1"])
    (simp_all add: fw_step.simps)

definition no_locals :: pa_data_send_req where
  "no_locals = \<lparr>advertising_sid = 0, data_length = 0, req_data = replicate PA_MAX_DATA_SIZE 0\<rparr>"

definition no_info :: "pa_adv_info list" where
  "no_info = replicate PA_MAX_ADV_SETS \<lparr>sid = 0, available_bytes = 0\<rparr>"

abbreviation (input) run_work :: event where
  "run_work \<equiv> Run_work (\<lambda>_ _. 0) (\<lambda>_. (0, 0)) no_info 0 no_locals"

lemma wf_run_work [simp]: "wf_event run_work"
  by (simp add: no_info_def no_locals_def wf_req_def)

text \<open>Receiving a frame in any number of interrupts.\<close>

definition irqs :: "u8 list list \<Rightarrow> event list" where
  "irqs chunks = map (\<lambda>c. Uart_irq True (map Some c)) chunks"

lemma fifo_bytes_Some [simp]: "fifo_bytes (map Some c) = c"
  by (induction c) auto

lemma run_irqs:
  assumes "fw_inv f"
  shows "\<exists>f' u q fs. fw_run (irqs chunks) f = Some f' \<and> fw_inv f'
     \<and> f' = f\<lparr>world := (world f)\<lparr>z_uart := u\<rparr>, queue := q\<rparr>
     \<and> deframe (concat chunks) (partial_frame (z_uart (world f))) = (partial_frame u, fs)
     \<and> (if fs = [] then q = queue f \<and> delivered u = delivered (z_uart (world f))
         else q = k_work_submit Rx_work (queue f) \<and> delivered u = last fs)"
  using assms
proof (induction chunks arbitrary: f)
  case Nil
  then show ?case
    by (intro exI [of _ f] exI [of _ "z_uart (world f)"] exI [of _ "queue f"] exI [of _ "[]"])
      (simp add: irqs_def)
next
  case (Cons c chunks)
  obtain f1 u1 q1 fs1 where 1: "fw_step (Uart_irq True (map Some c)) f = Some f1" "fw_inv f1"
      "f1 = f\<lparr>world := (world f)\<lparr>z_uart := u1\<rparr>, queue := q1\<rparr>"
      "deframe c (partial_frame (z_uart (world f))) = (partial_frame u1, fs1)"
      "if fs1 = [] then q1 = queue f \<and> delivered u1 = delivered (z_uart (world f))
         else q1 = k_work_submit Rx_work (queue f) \<and> delivered u1 = last fs1"
    using step_uart [OF Cons.prems, of True "map Some c"] by (simp split del: if_split) blast
  obtain f2 u2 q2 fs2 where 2: "fw_run (irqs chunks) f1 = Some f2" "fw_inv f2"
      "f2 = f1\<lparr>world := (world f1)\<lparr>z_uart := u2\<rparr>, queue := q2\<rparr>"
      "deframe (concat chunks) (partial_frame (z_uart (world f1))) = (partial_frame u2, fs2)"
      "if fs2 = [] then q2 = queue f1 \<and> delivered u2 = delivered (z_uart (world f1))
         else q2 = k_work_submit Rx_work (queue f1) \<and> delivered u2 = last fs2"
    using Cons.IH [OF 1(2)] by blast
  have "fw_run (irqs (c # chunks)) f = Some f2" using 1(1) 2(1) by (simp add: irqs_def)
  moreover have "f2 = f\<lparr>world := (world f)\<lparr>z_uart := u2\<rparr>, queue := q2\<rparr>" using 1(3) 2(3) by simp
  moreover have "deframe (concat (c # chunks)) (partial_frame (z_uart (world f))) = (partial_frame u2, fs1 @ fs2)"
    using 1(3,4) 2(4) by (simp add: deframe_append)
  moreover have "if fs1 @ fs2 = [] then q2 = queue f \<and> delivered u2 = delivered (z_uart (world f))
         else q2 = k_work_submit Rx_work (queue f) \<and> delivered u2 = last (fs1 @ fs2)"
    using 1(3,5) 2(5) by (auto simp: k_work_submit_idem split: if_splits)
  ultimately show ?case using 2(2) by blast
qed

text \<open>Every frame the deframer completes has a header from 1 to 254 and that many bytes.\<close>

definition wf_partial :: "u8 list \<Rightarrow> bool" where
  "wf_partial p \<longleftrightarrow> p = [] \<or> (1 \<le> unat (hd p) \<and> unat (hd p) \<le> 254)"

lemma deframe_byte_wf:
  "wf_partial p \<Longrightarrow> deframe_byte x p = (p', f) \<Longrightarrow>
   wf_partial p' \<and> (\<forall>g. f = Some g \<longrightarrow> uart_frame g)"
  using u8_less [of x]
  by (auto simp: deframe_byte_def wf_partial_def uart_frame_def Let_def u8_eq_iff split: if_splits)

lemma deframe_wf:
  "wf_partial p \<Longrightarrow> deframe xs p = (p', fs) \<Longrightarrow> \<forall>f \<in> set fs. uart_frame f"
proof (induction xs arbitrary: p p' fs)
  case Nil
  then show ?case by simp
next
  case (Cons x xs)
  obtain p1 f where d: "deframe_byte x p = (p1, f)" by fastforce
  obtain p2 fs2 where e: "deframe xs p1 = (p2, fs2)" by fastforce
  from deframe_byte_wf [OF Cons.prems(1) d] Cons.IH [OF _ e] Cons.prems(2) d e
  show ?case by (auto split: option.splits)
qed

lemma wf_uart_partial: "wf_uart u \<Longrightarrow> wf_partial (partial_frame u)"
  using u8_less [of "rx_expected u"]
  by (cases "rx_buf u") (auto simp: wf_uart_def wf_partial_def partial_frame_def hd_take split: if_splits)

lemma data_send_length: "decode_command b = Inr (DataSend s d) \<Longrightarrow> length d + 3 \<le> unat (b ! 0)"
  by (auto simp: decode_command_def decode_data_send_def Let_def split: if_splits)

text \<open>Draining the work queue up to the timer's item.\<close>

fun is_run :: "event \<Rightarrow> bool" where
  "is_run (Run_work _ _ _ _ _) = True"
| "is_run _ = False"

lemma effect_wire: "command_effect v b f f' \<Longrightarrow> \<exists>out. z_wire (world f') = z_wire (world f) @ out"
  by (auto simp: command_effect_def split: sum.splits command.splits)

lemma drain:
  assumes "fw_inv f" and "Timer_work \<in> set (queue f)"
    and "list_all is_run ws" and "list_all wf_event ws"
    and "length ws = Suc (length (takeWhile (\<lambda>i. i \<noteq> Timer_work) (queue f)))"
  shows "\<exists>f' out. fw_run ws f = Some f' \<and> slot_of (pa_ctx (svc f')) = Idle
     \<and> z_wire (world f') = z_wire (world f) @ out @ frame_data_send_complete"
  using assms
proof (induction ws arbitrary: f)
  case Nil
  then show ?case by simp
next
  case (Cons e ws)
  obtain v b i c p where e: "e = Run_work v b i c p" using Cons.prems(3) by (cases e) auto
  obtain item q where q: "queue f = item # q" using Cons.prems(2) by (cases "queue f") auto
  show ?case
  proof (cases item)
    case Timer_work
    then have "ws = []" using Cons.prems(5) q by simp
    with run_timer [OF Cons.prems(1), of q v b i c p] q Timer_work e show ?thesis by auto
  next
    case Rx_work
    obtain f1 where 1: "fw_step e f = Some f1" "fw_inv f1" "queue f1 = q"
        "command_effect v (delivered (z_uart (world f))) f f1"
      using run_rx [OF Cons.prems(1), of q i p v b c] q Rx_work e Cons.prems(4) by auto
    obtain out1 where o1: "z_wire (world f1) = z_wire (world f) @ out1"
      using effect_wire [OF 1(4)] by blast
    have "Timer_work \<in> set (queue f1)"
      "length ws = Suc (length (takeWhile (\<lambda>i. i \<noteq> Timer_work) (queue f1)))"
      using Cons.prems(2,5) q Rx_work 1(3) by auto
    then obtain f' out where "fw_run ws f1 = Some f'" "slot_of (pa_ctx (svc f')) = Idle"
        "z_wire (world f') = z_wire (world f1) @ out @ frame_data_send_complete"
      using Cons.IH [OF 1(2)] Cons.prems(3,4) by auto
    then show ?thesis
      using 1(1) o1 by (intro exI [of _ f'] exI [of _ "out1 @ out"]) simp
  qed
qed

lemma fw_example_facts:
  "partial_frame (z_uart (world fw_example)) = []" "queue fw_example = []"
  "state (pa_ctx (svc fw_example)) = PA_STATE_IDLE" "ext_adv (z_ble (world fw_example)) = Some 1"
  "baas_overhead (pa_ctx (svc fw_example)) = 0" "z_wire (world fw_example) = []"
  by (simp_all add: fw_example_def fw_step.simps fw_init_def partial_frame_def uart_port_def
      uart_adapter_init_def pa_service_init_def zephyr_uart_adapter_create_def
      pa_data_mgr_init_def zephyr_ble_pa_adapter_set_ext_adv_def)

lemma example_received:
  assumes "uart_frame b"
  shows "\<exists>f u. fw_run (irqs [b]) fw_example = Some f \<and> fw_reach f
    \<and> f = fw_example\<lparr>world := (world fw_example)\<lparr>z_uart := u\<rparr>, queue := [Rx_work]\<rparr> \<and> delivered u = b"
proof -
  obtain f u q where f: "fw_run (irqs [b]) fw_example = Some f"
      "f = fw_example\<lparr>world := (world fw_example)\<lparr>z_uart := u\<rparr>, queue := q\<rparr>"
      "q = [Rx_work]" "delivered u = b"
    using run_irqs [OF reach_inv [OF fw_example_reach], of "[b]"] deframe_frame [OF assms]
    by (auto simp: fw_example_facts k_work_submit_def)
  have "list_all wf_event (irqs [b])" by (simp add: irqs_def)
  then have "fw_reach f" using run_reach [OF fw_example_reach _ f(1)] by blast
  with f show ?thesis by auto
qed

section \<open>Properties\<close>

text \<open>C3: The firmware's PA data path never leaves its arrays and never gets out of step:
  from every state reachable through interrupts, work items, advertiser and button events, every
  further event runs to completion without an out-of-bounds access, the slot is never left in
  COMPLETE, and it is PENDING exactly while its 250 ms timer is armed or the expiry is queued,
  never both.\<close>

theorem firmware_safe:
  assumes "fw_reach f" and "wf_event e"
  shows "\<exists>f'. fw_step e f = Some f' \<and> state (pa_ctx (svc f')) \<noteq> PA_STATE_COMPLETE
    \<and> (state (pa_ctx (svc f')) = PA_STATE_PENDING \<longleftrightarrow>
         (ktimer (z_timer (world f')) = Some 250) \<noteq> (Timer_work \<in> set (queue f')))"
proof -
  obtain f' where "fw_step e f = Some f'" "fw_inv f'"
    using step_inv [OF reach_inv [OF assms(1)] assms(2)] by blast
  then show ?thesis by (auto simp: fw_inv_def)
qed

theorem firmware_safe_witness:
  "fw_reach fw_example \<and> (\<exists>f'. fw_step (Uart_irq True [Some 1, Some 0]) fw_example = Some f'
     \<and> state (pa_ctx (svc f')) \<noteq> PA_STATE_COMPLETE)"
  using firmware_safe [OF fw_example_reach, of "Uart_irq True [Some 1, Some 0]"] fw_example_reach
  by auto

text \<open>C11: However the interrupt handler is invoked, it frames the byte stream as the protocol
  says: it stays inside its buffers and produces exactly the frames of the abstract deframer
  (a header byte 1 to 254 followed by that many bytes; headers 0 and 255 are dropped), leaves the
  last of them for the work item and queues that item exactly when there is one.\<close>

theorem uart_isr_deframes:
  assumes "wf_uart u"
  shows "\<exists>u' q' fs. uart_isr_callback True fifo (u, q) = Some (u', q') \<and> wf_uart u'
     \<and> deframe (fifo_bytes fifo) (partial_frame u) = (partial_frame u', fs)
     \<and> (if fs = [] then q' = q \<and> delivered u' = delivered u
         else q' = k_work_submit Rx_work q \<and> delivered u' = last fs)"
proof -
  obtain u' q' fs where "isr_loop fifo (u, q) = Some (u', q')" "wf_uart u'"
      "deframe (fifo_bytes fifo) (partial_frame u) = (partial_frame u', fs)"
      "if fs = [] then q' = q \<and> delivered u' = delivered u
       else q' = k_work_submit Rx_work q \<and> delivered u' = last fs"
    using isr_loop_refines [OF assms, of fifo q] by blast
  then show ?thesis
    by (intro exI [of _ u'] exI [of _ q'] exI [of _ fs]) (simp add: uart_isr_callback_def)
qed

theorem uart_isr_deframes_witness:
  "wf_uart zephyr_uart_adapter_create \<and>
   (\<exists>u' q'. uart_isr_callback True [Some 0, Some 1, Some 9] (zephyr_uart_adapter_create, []) = Some (u', q')
      \<and> delivered u' = [1, 9] \<and> q' = [Rx_work])"
proof -
  have d: "deframe (fifo_bytes [Some 0, Some 1, Some 9]) (partial_frame zephyr_uart_adapter_create)
      = ([], [[1, 9]])"
    by (simp add: partial_frame_def zephyr_uart_adapter_create_def deframe_byte_def)
  show ?thesis
    using uart_isr_deframes [OF wf_create, of "[Some 0, Some 1, Some 9]" "[]"] d wf_create
    by (auto simp: k_work_submit_def)
qed

text \<open>C12: Executing the work item of a received frame does exactly what the protocol prescribes
  for the frame's bytes: a malformed or unknown frame changes nothing and is not answered; a status
  request is answered with one set when an advertiser is ready and none otherwise; a data request
  gets one response whose result, and the effect on slot, timer and advertised data, are those of
  \<open>data_send_outcome\<close>.\<close>

theorem received_frame_executed:
  assumes "fw_reach f" and "queue f = Rx_work # q"
    and "length info0 = 4" and "length (req_data p0) = 252"
  shows "\<exists>f'. fw_step (Run_work verdict bt_info info0 op0 p0) f = Some f' \<and> queue f' = q
     \<and> command_effect verdict (delivered (z_uart (world f))) f f'"
  using run_rx [OF reach_inv [OF assms(1)] assms(2,3), of p0 verdict bt_info op0] assms(4)
  unfolding wf_req_def by blast

theorem received_frame_executed_witness:
  "\<exists>f q f'. fw_reach f \<and> queue f = Rx_work # q \<and> fw_step run_work f = Some f'
     \<and> command_effect (\<lambda>_ _. 0) [1, 0] f f'"
proof -
  have "uart_frame [1, 0]" by (simp add: uart_frame_def)
  then obtain f u where f: "fw_reach f"
      "f = fw_example\<lparr>world := (world fw_example)\<lparr>z_uart := u\<rparr>, queue := [Rx_work]\<rparr>" "delivered u = [1, 0]"
    using example_received by blast
  have "queue f = [Rx_work]" using f by simp
  from received_frame_executed [OF f(1) this, of no_info no_locals "\<lambda>_ _. 0" "\<lambda>_. (0, 0)" 0] f
  show ?thesis by (auto simp: no_info_def no_locals_def)
qed

text \<open>C1: End to end delivery: in a reachable state with an idle slot, an idle receiver and a
  ready advertiser, a data request of at most 251 bytes within the capacity, arriving in any number
  of interrupts, is executed by one work item: if the stack takes the data, the host gets SUCCESS,
  exactly the sent bytes are advertised, and the completion timer is armed with 250 ms.\<close>

theorem data_request_delivered:
  assumes "fw_reach f" and "concat chunks = frame_data_send_req s d"
    and "partial_frame (z_uart (world f)) = []" and "queue f = []"
    and "state (pa_ctx (svc f)) = PA_STATE_IDLE" and "ext_adv (z_ble (world f)) \<noteq> None"
    and "length d \<le> 251" and "length d + unat (baas_overhead (pa_ctx (svc f))) \<le> 252"
    and "length info0 = 4" and "length (req_data p0) = 252"
  shows "\<exists>f'. fw_run (irqs chunks @ [Run_work (\<lambda>_ _. 0) bt_info info0 op0 p0]) f = Some f'
     \<and> z_wire (world f') = z_wire (world f) @ frame_data_send_rsp PA_RESULT_SUCCESS
     \<and> custom_data (z_bt (world f')) = d
     \<and> slot_of (pa_ctx (svc f')) = Pending s d
     \<and> timer_armed (z_timer (world f')) = Some (250, Pa_service_on_pa_interval)"
proof -
  have "uart_frame (frame_data_send_req s d)"
    using assms(7) unat_add_of_nat [of 3 "length d"]
    by (simp add: uart_frame_def frame_data_send_req_def)
  then have df: "deframe (concat chunks) [] = ([], [frame_data_send_req s d])"
    using assms(2) deframe_frame by simp
  obtain f1 u q where 1: "fw_run (irqs chunks) f = Some f1" "fw_inv f1"
      "f1 = f\<lparr>world := (world f)\<lparr>z_uart := u\<rparr>, queue := q\<rparr>"
      "q = [Rx_work]" "delivered u = frame_data_send_req s d"
    using run_irqs [OF reach_inv [OF assms(1)], of chunks] df assms(3,4)
    by (auto simp: k_work_submit_def)
  have "queue f1 = [Rx_work]" using 1(3,4) by simp
  then obtain f2 where 2: "fw_step (Run_work (\<lambda>_ _. 0) bt_info info0 op0 p0) f1 = Some f2"
      "command_effect (\<lambda>_ _. 0) (frame_data_send_req s d) f1 f2"
    using run_rx [OF 1(2), of "[]" info0 p0 "\<lambda>_ _. 0" bt_info op0] assms(9,10) 1(3,5)
    by (auto simp: wf_req_def)
  have "slot_of (pa_ctx (svc f)) = Idle" using assms(5) slot_state by blast
  then have "z_wire (world f2) = z_wire (world f) @ frame_data_send_rsp PA_RESULT_SUCCESS
     \<and> custom_data (z_bt (world f2)) = d \<and> slot_of (pa_ctx (svc f2)) = Pending s d
     \<and> timer_armed (z_timer (world f2)) = Some (250, Pa_service_on_pa_interval)"
    using 2(2) assms(6-8) 1(3)
    by (auto simp: command_effect_def decode_frame_data_send data_send_outcome_def
        ble_adapter_is_ready_def capacity_def split: if_splits)
  then show ?thesis using 1(1) 2(1) by (auto simp: fw_run_append)
qed

theorem data_request_delivered_witness:
  "\<exists>f'. fw_run (irqs [[5, 0x10], [1, 2, 7, 8]] @ [run_work]) fw_example = Some f'
     \<and> z_wire (world f') = [2, 0x11, 0] \<and> custom_data (z_bt (world f')) = [7, 8]"
  using data_request_delivered [OF fw_example_reach, of "[[5, 0x10], [1, 2, 7, 8]]" 1 "[7, 8]"
      no_info no_locals "\<lambda>_. (0, 0)" 0]
  by (auto simp: fw_example_facts frame_data_send_req_def frame_data_send_rsp_def no_info_def no_locals_def)

text \<open>C2: Every accepted transmission completes: from a reachable state with a pending slot, once
  the timer has expired and the work queue has run up to the expiry item (at most two items),
  whatever commands are executed on the way, the slot is idle again and the host has been sent the
  completion notification last.\<close>

theorem transmission_completes:
  assumes "fw_reach f" and "state (pa_ctx (svc f)) = PA_STATE_PENDING"
    and "fw_step Timer_irq f = Some f1" and "list_all is_run ws" and "list_all wf_event ws"
    and "length ws = Suc (length (takeWhile (\<lambda>i. i \<noteq> Timer_work) (queue f1)))"
  shows "length ws \<le> 2
     \<and> (\<exists>f' out. fw_run ws f1 = Some f' \<and> slot_of (pa_ctx (svc f')) = Idle
          \<and> z_wire (world f') = z_wire (world f) @ out @ frame_data_send_complete)"
proof -
  have inv: "fw_inv f1" and t: "Timer_work \<in> set (queue f1)" and w: "z_wire (world f1) = z_wire (world f)"
    using step_timer [OF reach_inv [OF assms(1)]] assms(2,3) by auto
  have "distinct (takeWhile (\<lambda>i. i \<noteq> Timer_work) (queue f1))"
    using inv by (simp add: fw_inv_def distinct_takeWhile)
  moreover have "set (takeWhile (\<lambda>i. i \<noteq> Timer_work) (queue f1)) \<subseteq> {Rx_work}"
    using work_item.exhaust by (auto dest!: set_takeWhileD)
  ultimately have "length (takeWhile (\<lambda>i. i \<noteq> Timer_work) (queue f1)) \<le> card {Rx_work}"
    by (metis card_mono distinct_card finite.intros)
  then show ?thesis using drain [OF inv t assms(4-6)] w assms(6) by auto
qed

theorem transmission_completes_witness:
  "\<exists>f f1 f' out. fw_reach f \<and> state (pa_ctx (svc f)) = PA_STATE_PENDING
     \<and> fw_step Timer_irq f = Some f1 \<and> fw_run [run_work] f1 = Some f'
     \<and> z_wire (world f') = z_wire (world f) @ out @ [1, 0x12]"
proof -
  have "uart_frame (frame_data_send_req 1 [7])" by (simp add: uart_frame_def frame_data_send_req_def)
  then obtain f0 u where 0: "fw_reach f0" "delivered u = frame_data_send_req 1 [7]"
      "f0 = fw_example\<lparr>world := (world fw_example)\<lparr>z_uart := u\<rparr>, queue := [Rx_work]\<rparr>"
    using example_received by blast
  have "queue f0 = [Rx_work]" using 0 by simp
  then obtain f where 1: "fw_step run_work f0 = Some f" "queue f = []"
      "command_effect (\<lambda>_ _. 0) (frame_data_send_req 1 [7]) f0 f"
    using run_rx [OF reach_inv [OF 0(1)], of "[]" no_info no_locals "\<lambda>_ _. 0" "\<lambda>_. (0, 0)" 0] 0
    by (auto simp: no_info_def no_locals_def wf_req_def)
  have idle: "slot_of (pa_ctx (svc fw_example)) = Idle"
    using fw_example_facts(3) slot_state by blast
  have d: "decode_command (frame_data_send_req 1 [7]) = Inr (DataSend 1 [7])"
    by (simp add: decode_frame_data_send)
  have s: "slot_of (pa_ctx (svc f)) = Pending 1 [7]" and t: "ktimer (z_timer (world f)) = Some 250"
    using 1(3) 0(3) d idle fw_example_facts
    by (auto simp: command_effect_def data_send_outcome_def ble_adapter_is_ready_def capacity_def
        timer_armed_iff)
  have pend: "state (pa_ctx (svc f)) = PA_STATE_PENDING" using s slot_state by blast
  have r: "fw_reach f" using fw_reach.step [OF 0(1) wf_run_work 1(1)] .
  obtain f1 where f1: "fw_step Timer_irq f = Some f1" "queue f1 = [Timer_work]"
    using step_timer [OF reach_inv [OF r]] t 1(2) by auto
  from transmission_completes [OF r pend f1(1), of "[run_work]"] f1 r pend show ?thesis
    by (auto simp: frame_data_send_complete_def no_info_def no_locals_def wf_req_def)
qed

text \<open>C15: The receive buffer holds one frame: two frames that arrive before the work queue runs
  leave one work item, which executes the second frame; the first is lost without an answer.\<close>

theorem back_to_back_frame_lost:
  assumes "fw_reach f" and "partial_frame (z_uart (world f)) = []" and "queue f = []"
    and "uart_frame a" and "uart_frame b"
  shows "\<exists>f' u. fw_step (Uart_irq True (map Some (a @ b))) f = Some f' \<and> queue f' = [Rx_work]
     \<and> f' = f\<lparr>world := (world f)\<lparr>z_uart := u\<rparr>, queue := [Rx_work]\<rparr> \<and> delivered u = b"
proof -
  have "deframe (a @ b) [] = ([], [a, b])"
    using deframe_frames [of "[a, b]"] assms(4,5) by simp
  then show ?thesis
    using step_uart [OF reach_inv [OF assms(1)], of True "map Some (a @ b)"] assms(2,3)
    by (auto simp: k_work_submit_def simp del: map_append)
qed

theorem back_to_back_frame_lost_witness:
  "\<exists>f'. fw_step (Uart_irq True (map Some ([1, 0] @ [2, 0x11, 5]))) fw_example = Some f'
     \<and> queue f' = [Rx_work] \<and> delivered (z_uart (world f')) = [2, 0x11, 5]"
proof -
  have "uart_frame [1, 0]" and "uart_frame [2, 0x11, 5]" by (simp_all add: uart_frame_def)
  from back_to_back_frame_lost [OF fw_example_reach fw_example_facts(1,2) this]
  show ?thesis by auto
qed

text \<open>The protocol's largest request cannot be received: a data request that the UART adapter
  delivers carries at most 251 data bytes, although the parser accepts 252 (the frame would need
  the header 255, which the adapter discards because its length counter is 8 bits wide).\<close>

lemma uart_limits_payload:
  assumes "wf_uart u" and "uart_isr_callback True fifo (u, []) = Some (u', [Rx_work])"
    and "decode_command (delivered u') = Inr (DataSend s d)"
  shows "length d \<le> 251"
proof -
  obtain fs where fs: "deframe (fifo_bytes fifo) (partial_frame u) = (partial_frame u', fs)"
      "fs \<noteq> []" "delivered u' = last fs"
    using isr_loop_refines [OF assms(1), of fifo "[]"] assms(2)
    by (fastforce simp: uart_isr_callback_def split: if_splits)
  then have "uart_frame (delivered u')"
    using deframe_wf [OF wf_uart_partial [OF assms(1)] fs(1)] by simp
  then have "unat (delivered u' ! 0) \<le> 254" by (auto simp: uart_frame_def hd_conv_nth)
  with data_send_length [OF assms(3)] show ?thesis by simp
qed

theorem uart_limits_payload_witness:
  "\<exists>u'. uart_isr_callback True (map Some (frame_data_send_req 1 [7])) (zephyr_uart_adapter_create, [])
      = Some (u', [Rx_work]) \<and> decode_command (delivered u') = Inr (DataSend 1 [7])
      \<and> length [7 :: u8] \<le> 251"
proof -
  have "uart_frame (frame_data_send_req 1 [7])" by (simp add: uart_frame_def frame_data_send_req_def)
  then have df: "deframe (frame_data_send_req 1 [7]) [] = ([], [frame_data_send_req 1 [7]])"
    by (rule deframe_frame)
  have p: "partial_frame zephyr_uart_adapter_create = []"
    by (simp add: partial_frame_def zephyr_uart_adapter_create_def)
  obtain u' where u: "uart_isr_callback True (map Some (frame_data_send_req 1 [7])) (zephyr_uart_adapter_create, [])
      = Some (u', [Rx_work])" "delivered u' = frame_data_send_req 1 [7]"
    using isr_loop_refines [OF wf_create, of "map Some (frame_data_send_req 1 [7])" "[]"] df p
    by (auto simp: uart_isr_callback_def k_work_submit_def)
  have d: "decode_command (delivered u') = Inr (DataSend 1 [7])"
    by (simp add: u(2) decode_frame_data_send)
  from uart_limits_payload [OF wf_create u(1) d] u d show ?thesis by auto
qed

text \<open>The SID of a request is not checked: in every reachable state a data request is answered
  with SUCCESS, BUSY, DATA\_TOO\_LARGE or NOT\_READY, never with INVALID\_SID, whatever
  SID it names.\<close>

lemma sid_never_rejected:
  assumes "fw_reach f" and "queue f = Rx_work # q"
    and "length info0 = 4" and "length (req_data p0) = 252"
    and "decode_command (delivered (z_uart (world f))) = Inr (DataSend s d)"
  shows "\<exists>f' res. fw_step (Run_work verdict bt_info info0 op0 p0) f = Some f'
     \<and> z_wire (world f') = z_wire (world f) @ frame_data_send_rsp res
     \<and> res \<in> {PA_RESULT_SUCCESS, PA_RESULT_BUSY, PA_RESULT_DATA_TOO_LARGE, PA_RESULT_NOT_READY}"
proof -
  obtain f' where f': "fw_step (Run_work verdict bt_info info0 op0 p0) f = Some f'"
      "command_effect verdict (delivered (z_uart (world f))) f f'"
    using run_rx [OF reach_inv [OF assms(1)] assms(2,3), of p0 verdict bt_info op0] assms(4)
    unfolding wf_req_def by blast
  have "fst (data_send_outcome r c a s d v) \<in>
      {PA_RESULT_SUCCESS, PA_RESULT_BUSY, PA_RESULT_DATA_TOO_LARGE, PA_RESULT_NOT_READY}" for r c a v
    by (auto simp: data_send_outcome_def split: prod.splits)
  then show ?thesis using f' assms(5) unfolding command_effect_def
    by (simp split: if_split_asm) (metis fst_conv)
qed

end
