(* ===== verification/LedModule.thy ===== *)
theory LedModule
  imports PaPorts
begin

text \<open>
  The LED module \<open>src/modules/led.c\<close> and the LED port adapter
  \<open>src/adapters/zephyr_led_adapter.c\<close>. LED units and the number of GPIOs of each come from the
  devicetree: they are the list \<open>units\<close>. The GPIO driver is the parameter \<open>drv\<close>, which gives
  the return code of each \<open>gpio_pin_set_dt\<close> and may depend on the calls made before; the state
  keeps the log of those calls, and \<open>pin_level\<close> reads off the level a pin was last set to.
\<close>

section \<open>State\<close>

abbreviation (input) LED_COLOR_OFF :: nat where "LED_COLOR_OFF \<equiv> 0"
abbreviation (input) LED_COLOR_GREEN :: nat where "LED_COLOR_GREEN \<equiv> 2"
abbreviation (input) LED_COLOR_WHITE :: nat where "LED_COLOR_WHITE \<equiv> 7"
abbreviation (input) LED_COLOR_NUM :: nat where "LED_COLOR_NUM \<equiv> 8"
abbreviation (input) LED_ON :: nat where "LED_ON \<equiv> 7"
abbreviation (input) LED_AUDIO_NOT_ASSIGNED :: nat where "LED_AUDIO_NOT_ASSIGNED \<equiv> 255"
abbreviation (input) LED_MONOCHROME :: nat where "LED_MONOCHROME \<equiv> 1"
abbreviation (input) NUM_COLORS_RGB :: nat where "NUM_COLORS_RGB \<equiv> 3"
abbreviation (input) BLINK_FREQ_MS :: nat where "BLINK_FREQ_MS \<equiv> 1000"

record led_unit_data =
  num_gpios :: nat
  cfg_blink :: bool
  cfg_color :: nat

text \<open>One GPIO call: unit, index of the GPIO in the unit, level, return code. Newest first.\<close>

type_synonym gpio_log = "(nat \<times> nat \<times> bool \<times> int) list"
type_synonym gpio_driver = "gpio_log \<Rightarrow> nat \<Rightarrow> nat \<Rightarrow> bool \<Rightarrow> int"

record led_state =
  led_units :: "led_unit_data list"
  led_log :: gpio_log
  led_initialized :: bool
  on_phase :: bool
  blink_timer :: "(nat \<times> nat) option"
  blink_work :: bool

definition led_boot :: "nat list \<Rightarrow> led_state" where
  "led_boot gpios = \<lparr>led_units = map (\<lambda>n. \<lparr>num_gpios = n, cfg_blink = False, cfg_color = LED_COLOR_OFF\<rparr>) gpios,
     led_log = [], led_initialized = False, on_phase = False, blink_timer = None, blink_work = False\<rparr>"

fun pin_level :: "gpio_log \<Rightarrow> nat \<Rightarrow> nat \<Rightarrow> bool" where
  "pin_level [] u i = False"
| "pin_level ((u', i', v, r) # l) u i = (if u' = u \<and> i' = i \<and> r = 0 then v else pin_level l u i)"

section \<open>Operations\<close>

text \<open>The driver's call on GPIO \<open>i\<close> of unit \<open>u\<close>, an access to element \<open>i\<close> of the unit's array.\<close>

definition gpio_pin_set_dt ::
  "gpio_driver \<Rightarrow> nat \<Rightarrow> nat \<Rightarrow> bool \<Rightarrow> led_state \<Rightarrow> (int \<times> led_state) option" where
  "gpio_pin_set_dt drv u i v s = do {
     unit \<leftarrow> rd (led_units s) u;
     if i < num_gpios unit then
       (let r = drv (led_log s) u i v in Some (r, s\<lparr>led_log := (u, i, v, r) # led_log s\<rparr>))
     else None }"

fun led_rgb_loop ::
  "gpio_driver \<Rightarrow> nat \<Rightarrow> nat \<Rightarrow> nat list \<Rightarrow> led_state \<Rightarrow> (int \<times> led_state) option" where
  "led_rgb_loop drv u color [] s = Some (0, s)"
| "led_rgb_loop drv u color (i # is) s = do {
     (ret, s) \<leftarrow> gpio_pin_set_dt drv u i (bit color i) s;
     if ret \<noteq> 0 then Some (ret, s) else led_rgb_loop drv u color is s }"

definition led_set_int ::
  "gpio_driver \<Rightarrow> nat \<Rightarrow> nat \<Rightarrow> led_state \<Rightarrow> (int \<times> led_state) option" where
  "led_set_int drv led color s =
     (if led = LED_AUDIO_NOT_ASSIGNED then Some (0, s)
      else do {
        unit \<leftarrow> rd (led_units s) led;
        if num_gpios unit = LED_MONOCHROME then gpio_pin_set_dt drv led 0 (color \<noteq> 0) s
        else led_rgb_loop drv led color [0..<NUM_COLORS_RGB] s })"

definition led_blink_timer_handler :: "led_state \<Rightarrow> led_state" where
  "led_blink_timer_handler s = s\<lparr>blink_work := True\<rparr>"

text \<open>
  The blink loop of the work handler: a nonzero result is the error that \<open>ERR_CHK\<close> turns into
  \<open>k_oops\<close>. The loop counter is a \<open>uint8_t\<close>, so with more than 255 units it would not end
  (\<open>None\<close> below).
\<close>

fun led_blink_loop :: "gpio_driver \<Rightarrow> nat list \<Rightarrow> led_state \<Rightarrow> (int \<times> led_state) option" where
  "led_blink_loop drv [] s = Some (0, s)"
| "led_blink_loop drv (i # is) s = do {
     unit \<leftarrow> rd (led_units s) i;
     (ret, s) \<leftarrow> (if cfg_blink unit
                 then led_set_int drv i (if on_phase s then cfg_color unit else LED_COLOR_OFF) s
                 else Some (0, s));
     if ret \<noteq> 0 then Some (ret, s) else led_blink_loop drv is s }"

definition led_blink_work_handler :: "gpio_driver \<Rightarrow> led_state \<Rightarrow> (int \<times> led_state) option" where
  "led_blink_work_handler drv s =
     (if 255 < length (led_units s) then None
      else do {
        (ret, s) \<leftarrow> led_blink_loop drv [0..<length (led_units s)] (s\<lparr>blink_work := False\<rparr>);
        if ret \<noteq> 0 then Some (ret, s) else Some (0, s\<lparr>on_phase := \<not> on_phase s\<rparr>) })"

definition led_set ::
  "gpio_driver \<Rightarrow> nat \<Rightarrow> nat \<Rightarrow> bool \<Rightarrow> led_state \<Rightarrow> (int \<times> led_state) option" where
  "led_set drv led color blink s =
     (if \<not> led_initialized s then Some (- EPERM, s)
      else if led = LED_AUDIO_NOT_ASSIGNED then Some (0, s)
      else do {
        (ret, s) \<leftarrow> led_set_int drv led color s;
        if ret \<noteq> 0 then Some (ret, s)
        else do {
          unit \<leftarrow> rd (led_units s) led;
          us \<leftarrow> wr (led_units s) led (unit\<lparr>cfg_blink := blink, cfg_color := color\<rparr>);
          Some (0, s\<lparr>led_units := us\<rparr>) } })"

text \<open>
  \<open>led_on\<close> and \<open>led_blink\<close> take the colour as a variadic argument: \<open>args\<close> lists what the caller
  passed, and reading an argument that was not passed is undefined behaviour.
\<close>

definition led_colored ::
  "gpio_driver \<Rightarrow> nat \<Rightarrow> int list \<Rightarrow> bool \<Rightarrow> led_state \<Rightarrow> (int \<times> led_state) option" where
  "led_colored drv led args blink s =
     (if led = LED_AUDIO_NOT_ASSIGNED then Some (0, s)
      else do {
        unit \<leftarrow> rd (led_units s) led;
        if num_gpios unit = LED_MONOCHROME then led_set drv led LED_ON blink s
        else do {
          color \<leftarrow> rd args 0;
          if color \<le> 0 \<or> int LED_COLOR_NUM \<le> color then Some (- EINVAL, s)
          else led_set drv led (nat color) blink s } })"

definition led_on :: "gpio_driver \<Rightarrow> nat \<Rightarrow> int list \<Rightarrow> led_state \<Rightarrow> (int \<times> led_state) option" where
  "led_on drv led args s = led_colored drv led args False s"

definition led_blink :: "gpio_driver \<Rightarrow> nat \<Rightarrow> int list \<Rightarrow> led_state \<Rightarrow> (int \<times> led_state) option" where
  "led_blink drv led args s = led_colored drv led args True s"

definition led_off :: "gpio_driver \<Rightarrow> nat \<Rightarrow> led_state \<Rightarrow> (int \<times> led_state) option" where
  "led_off drv led s =
     (if led = LED_AUDIO_NOT_ASSIGNED then Some (0, s) else led_set drv led LED_COLOR_OFF False s)"

text \<open>
  Initialisation: \<open>ready u j\<close> is \<open>device_is_ready\<close> of the port of GPIO \<open>j\<close> of unit \<open>u\<close>, \<open>cfg u j\<close>
  the result of configuring it as an inactive output, which drives it low.
\<close>

fun led_init_pins ::
  "(nat \<Rightarrow> nat \<Rightarrow> bool) \<Rightarrow> (nat \<Rightarrow> nat \<Rightarrow> int) \<Rightarrow> nat \<Rightarrow> nat list \<Rightarrow> led_state \<Rightarrow> int \<times> led_state" where
  "led_init_pins ready cfg u [] s = (0, s)"
| "led_init_pins ready cfg u (j # js) s =
     (if \<not> ready u j then (- ENODEV, s)
      else let ret = cfg u j; s = s\<lparr>led_log := (u, j, False, ret) # led_log s\<rparr>
           in if ret \<noteq> 0 then (ret, s) else led_init_pins ready cfg u js s)"

fun led_init_units ::
  "(nat \<Rightarrow> nat \<Rightarrow> bool) \<Rightarrow> (nat \<Rightarrow> nat \<Rightarrow> int) \<Rightarrow> nat list \<Rightarrow> led_state \<Rightarrow> int \<times> led_state" where
  "led_init_units ready cfg [] s = (0, s)"
| "led_init_units ready cfg (u # us) s =
     (case led_init_pins ready cfg u [0..<num_gpios (led_units s ! u)] s of (ret, s) \<Rightarrow>
        if ret \<noteq> 0 then (ret, s) else led_init_units ready cfg us s)"

definition led_init ::
  "(nat \<Rightarrow> nat \<Rightarrow> bool) \<Rightarrow> (nat \<Rightarrow> nat \<Rightarrow> int) \<Rightarrow> led_state \<Rightarrow> int \<times> led_state" where
  "led_init ready cfg s =
     (if led_initialized s then (- EPERM, s)
      else case led_init_units ready cfg [0..<length (led_units s)] s of (ret, s) \<Rightarrow>
        if ret \<noteq> 0 then (ret, s)
        else (0, s\<lparr>blink_timer := Some (BLINK_FREQ_MS div 2, BLINK_FREQ_MS div 2),
                   led_initialized := True\<rparr>))"

section \<open>The port adapter\<close>

text \<open>
  The LED units a board's devicetree assigns to the four roles; \<open>LED_AUDIO_NOT_ASSIGNED\<close> where
  the node is missing. The boards of the repository are \<open>nrf5340_audio_dk\<close> and \<open>nrf5340dk\<close>.
\<close>

record led_board =
  led_audio_device_type :: nat
  led_audio_conn_status :: nat
  led_audio_sync_status :: nat
  led_audio_app_status :: nat
  board_gpios :: "nat list"

definition audio_dk_leds :: led_board where
  "audio_dk_leds = \<lparr>led_audio_device_type = 0, led_audio_conn_status = 2,
     led_audio_sync_status = 3, led_audio_app_status = 4, board_gpios = [3, 3, 1, 1, 1]\<rparr>"

definition nrf5340dk_leds :: led_board where
  "nrf5340dk_leds = \<lparr>led_audio_device_type = LED_AUDIO_NOT_ASSIGNED, led_audio_conn_status = 0,
     led_audio_sync_status = 1, led_audio_app_status = 2, board_gpios = [1, 1, 1]\<rparr>"

fun led_id_map :: "led_board \<Rightarrow> pa_led_id \<Rightarrow> nat option" where
  "led_id_map b PA_LED_CONN_STATUS = Some (led_audio_conn_status b)"
| "led_id_map b PA_LED_SYNC_STATUS = Some (led_audio_sync_status b)"
| "led_id_map b PA_LED_APP_STATUS = Some (led_audio_app_status b)"
| "led_id_map b PA_LED_ID_COUNT = None"

definition adapter_led_on ::
  "gpio_driver \<Rightarrow> led_board \<Rightarrow> pa_led_id \<Rightarrow> led_state \<Rightarrow> (int \<times> led_state) option" where
  "adapter_led_on drv b led s =
     (case led_id_map b led of None \<Rightarrow> Some (- 1, s) | Some u \<Rightarrow> led_on drv u [] s)"

definition adapter_led_off ::
  "gpio_driver \<Rightarrow> led_board \<Rightarrow> pa_led_id \<Rightarrow> led_state \<Rightarrow> (int \<times> led_state) option" where
  "adapter_led_off drv b led s =
     (case led_id_map b led of None \<Rightarrow> Some (- 1, s) | Some u \<Rightarrow> led_off drv u s)"

definition adapter_led_blink ::
  "gpio_driver \<Rightarrow> led_board \<Rightarrow> pa_led_id \<Rightarrow> led_state \<Rightarrow> (int \<times> led_state) option" where
  "adapter_led_blink drv b led s =
     (case led_id_map b led of None \<Rightarrow> Some (- 1, s) | Some u \<Rightarrow> led_blink drv u [] s)"

section \<open>What the LEDs show\<close>

text \<open>GPIO \<open>i\<close> of a unit of \<open>n\<close> GPIOs when the unit shows colour \<open>c\<close>.\<close>

definition color_pin :: "nat \<Rightarrow> nat \<Rightarrow> nat \<Rightarrow> bool" where
  "color_pin n c i = (if n = LED_MONOCHROME then c \<noteq> 0 else bit c i)"

definition displays :: "led_state \<Rightarrow> nat \<Rightarrow> nat \<Rightarrow> bool" where
  "displays s u c \<longleftrightarrow> (\<forall>i<num_gpios (led_units s ! u).
      pin_level (led_log s) u i = color_pin (num_gpios (led_units s ! u)) c i)"

definition wf_gpios :: "nat list \<Rightarrow> bool" where
  "wf_gpios gs \<longleftrightarrow> length gs \<le> 255 \<and> (\<forall>n\<in>set gs. n = LED_MONOCHROME \<or> n = NUM_COLORS_RGB)"

definition gpio_works :: "gpio_driver \<Rightarrow> bool" where
  "gpio_works drv \<longleftrightarrow> (\<forall>l u i v. drv l u i v = 0)"

definition led_inv :: "nat list \<Rightarrow> led_state \<Rightarrow> bool" where
  "led_inv gs s \<longleftrightarrow> wf_gpios gs \<and> map num_gpios (led_units s) = gs
     \<and> (\<forall>u<length gs. displays s u (cfg_color (led_units s ! u))
          \<or> cfg_blink (led_units s ! u) \<and> displays s u LED_COLOR_OFF)"

lemma led_inv_units:
  assumes "led_inv gs s"
  shows "length (led_units s) = length gs"
    and "u < length gs \<Longrightarrow> num_gpios (led_units s ! u) = gs ! u"
    and "u < length gs \<Longrightarrow> gs ! u = 1 \<or> gs ! u = 3"
    and "length gs \<le> 255"
  using assms unfolding led_inv_def wf_gpios_def
  by (metis length_map, metis length_map nth_map, meson nth_mem, simp)

lemma gpio_pin_set_ok:
  "gpio_works drv \<Longrightarrow> u < length (led_units s) \<Longrightarrow> i < num_gpios (led_units s ! u) \<Longrightarrow>
   gpio_pin_set_dt drv u i v s = Some (0, s\<lparr>led_log := (u, i, v, 0) # led_log s\<rparr>)"
  by (simp add: gpio_pin_set_dt_def gpio_works_def mem_simps)

lemma led_set_int_ok:
  assumes "gpio_works drv" and "u < length (led_units s)" and "u \<noteq> 255"
    and "num_gpios (led_units s ! u) = 1 \<or> num_gpios (led_units s ! u) = 3"
  obtains l where "led_set_int drv u c s = Some (0, s\<lparr>led_log := l\<rparr>)"
    and "\<And>i. i < num_gpios (led_units s ! u) \<Longrightarrow>
              pin_level l u i = color_pin (num_gpios (led_units s ! u)) c i"
    and "\<And>u' i. u' \<noteq> u \<Longrightarrow> pin_level l u' i = pin_level (led_log s) u' i"
proof (cases "num_gpios (led_units s ! u) = 1")
  case True
  show thesis
    by (rule that [of "(u, 0, c \<noteq> 0, 0) # led_log s"])
      (use assms True in \<open>auto simp: led_set_int_def mem_simps gpio_pin_set_ok color_pin_def\<close>)
next
  case False
  then have n: "num_gpios (led_units s ! u) = 3"
    using assms(4) by simp
  have "[0..<3] = [0, 1, 2 :: nat]"
    by (simp add: upt_rec)
  then show thesis
    by (intro that [of "(u, 2, bit c 2, 0) # (u, 1, bit c 1, 0) # (u, 0, bit c 0, 0) # led_log s"])
      (use assms n in \<open>auto simp: led_set_int_def mem_simps gpio_pin_set_ok color_pin_def less_Suc_eq
         numeral_3_eq_3 numeral_2_eq_2\<close>)
qed

lemma displays_log:
  "(\<And>i. pin_level l u i = pin_level (led_log s) u i) \<Longrightarrow> displays (s\<lparr>led_log := l\<rparr>) u c = displays s u c"
  by (simp add: displays_def)

lemma led_set_ok:
  assumes "gpio_works drv" and "led_inv gs s" and "u = 255 \<or> u < length gs"
  obtains r s' where "led_set drv u c b s = Some (r, s')" and "led_inv gs s'"
    and "led_initialized s \<Longrightarrow> r = 0"
    and "led_initialized s \<Longrightarrow> u \<noteq> 255 \<Longrightarrow>
           displays s' u c \<and> led_units s' ! u = (led_units s ! u)\<lparr>cfg_blink := b, cfg_color := c\<rparr>"
    and "\<And>v. v \<noteq> u \<Longrightarrow> v < length gs \<Longrightarrow> led_units s' ! v = led_units s ! v"
    and "led_initialized s' = led_initialized s"
proof (cases "led_initialized s \<and> u \<noteq> 255")
  case False
  then show thesis
    by (intro that [of "if led_initialized s then 0 else - EPERM" s])
      (use assms in \<open>auto simp: led_set_def\<close>)
next
  case True
  note units = led_inv_units [OF assms(2)]
  have u: "u < length gs" "u < length (led_units s)"
    using True assms(3) units by auto
  obtain l where l: "led_set_int drv u c s = Some (0, s\<lparr>led_log := l\<rparr>)"
    and pin: "\<And>i. i < num_gpios (led_units s ! u) \<Longrightarrow>
              pin_level l u i = color_pin (num_gpios (led_units s ! u)) c i"
    and other: "\<And>u' i. u' \<noteq> u \<Longrightarrow> pin_level l u' i = pin_level (led_log s) u' i"
    by (rule led_set_int_ok [OF assms(1) u(2), of c]) (use True u units in auto)
  let ?s = "s\<lparr>led_log := l, led_units := (led_units s)[u := (led_units s ! u)
              \<lparr>cfg_blink := b, cfg_color := c\<rparr>]\<rparr>"
  have run: "led_set drv u c b s = Some (0, ?s)"
    using True l u by (simp add: led_set_def mem_simps)
  have shown: "displays ?s u c"
    using pin u by (simp add: displays_def)
  have keep: "displays ?s v d = displays s v d" if "v \<noteq> u" for v d
    using that other by (simp add: displays_def)
  have "led_inv gs ?s"
    unfolding led_inv_def
  proof (intro conjI allI impI)
    show "wf_gpios gs" using assms(2) by (simp add: led_inv_def)
    show "map num_gpios (led_units ?s) = gs"
      using assms(2) u by (auto simp: led_inv_def map_update list_eq_iff_nth_eq nth_list_update)
  next
    fix v assume v: "v < length gs"
    show "displays ?s v (cfg_color (led_units ?s ! v))
          \<or> cfg_blink (led_units ?s ! v) \<and> displays ?s v 0"
    proof (cases "v = u")
      case True
      then show ?thesis using shown u by simp
    next
      case False
      then show ?thesis
        using assms(2) v keep [OF False] by (simp add: led_inv_def)
    qed
  qed
  then show thesis
    by (rule that [OF run]) (use shown u True in auto)
qed

text \<open>\<open>s'\<close> is \<open>s\<close> after the blink loop has visited the units \<open>is\<close>.\<close>

definition blinked :: "nat list \<Rightarrow> led_state \<Rightarrow> led_state \<Rightarrow> bool" where
  "blinked is s s' \<longleftrightarrow>
     (\<exists>l. s' = s\<lparr>led_log := l\<rparr>)
   \<and> (\<forall>u\<in>set is. cfg_blink (led_units s ! u) \<longrightarrow>
        displays s' u (if on_phase s then cfg_color (led_units s ! u) else LED_COLOR_OFF))
   \<and> (\<forall>u c. u \<notin> set is \<or> \<not> cfg_blink (led_units s ! u) \<longrightarrow> displays s' u c = displays s u c)"

lemma blinked_inv:
  assumes "led_inv gs s" and "blinked is s s'"
  shows "led_inv gs s'"
proof -
  have same: "led_units s' = led_units s"
    using assms(2) by (auto simp: blinked_def)
  have "displays s' u (cfg_color (led_units s ! u))
        \<or> cfg_blink (led_units s ! u) \<and> displays s' u LED_COLOR_OFF" if "u < length gs" for u
  proof (cases "u \<in> set is \<and> cfg_blink (led_units s ! u)")
    case True
    then have "displays s' u (if on_phase s then cfg_color (led_units s ! u) else LED_COLOR_OFF)"
      using assms(2) unfolding blinked_def by blast
    then show ?thesis
      using True by (cases "on_phase s") simp_all
  next
    case False
    then have "displays s' u c = displays s u c" for c
      using assms(2) unfolding blinked_def by blast
    then show ?thesis
      using assms(1) that by (simp add: led_inv_def)
  qed
  then show ?thesis
    using assms(1) same by (simp add: led_inv_def)
qed

lemma led_blink_loop_ok:
  assumes "gpio_works drv"
  shows "led_inv gs s \<Longrightarrow> distinct is \<Longrightarrow> \<forall>i\<in>set is. i < length gs \<Longrightarrow>
    \<exists>s'. led_blink_loop drv is s = Some (0, s') \<and> blinked is s s'"
proof (induction "is" arbitrary: s)
  case Nil
  have "blinked [] s s"
    unfolding blinked_def by (intro conjI exI [of _ "led_log s"]) auto
  then show ?case by simp
next
  case (Cons i js)
  note units = led_inv_units [OF Cons.prems(1)]
  have i: "i < length gs" "i < length (led_units s)" "i \<noteq> 255"
    using Cons.prems(3) units by auto
  have n: "num_gpios (led_units s ! i) = 1 \<or> num_gpios (led_units s ! i) = 3"
    using i units by simp
  let ?c = "if on_phase s then cfg_color (led_units s ! i) else LED_COLOR_OFF"
  show ?case
  proof (cases "cfg_blink (led_units s ! i)")
    case False
    obtain s' where "led_blink_loop drv js s = Some (0, s')" "blinked js s s'"
      using Cons.IH [OF Cons.prems(1)] Cons.prems(2,3) by auto
    moreover from this(2) False have "blinked (i # js) s s'"
      by (auto simp: blinked_def)
    ultimately show ?thesis
      using False i by (auto simp: mem_simps)
  next
    case True
    obtain l where l: "led_set_int drv i ?c s = Some (0, s\<lparr>led_log := l\<rparr>)"
      and pin: "\<And>j. j < num_gpios (led_units s ! i) \<Longrightarrow>
              pin_level l i j = color_pin (num_gpios (led_units s ! i)) ?c j"
      and other: "\<And>u' j. u' \<noteq> i \<Longrightarrow> pin_level l u' j = pin_level (led_log s) u' j"
      by (rule led_set_int_ok [OF assms i(2,3) n, of ?c]) blast
    let ?s = "s\<lparr>led_log := l\<rparr>"
    have di: "displays ?s i ?c"
      using pin by (simp add: displays_def)
    have keep: "displays ?s u c = displays s u c" if "u \<noteq> i" for u c
      using other that by (simp add: displays_def)
    have one: "blinked [i] s ?s"
      unfolding blinked_def using di keep True by (intro conjI exI [of _ l]) auto
    obtain s' where l': "led_blink_loop drv js ?s = Some (0, s')" and js: "blinked js ?s s'"
      using Cons.IH [OF blinked_inv [OF Cons.prems(1) one]] Cons.prems(2,3) by auto
    obtain l' where s': "s' = s\<lparr>led_log := l'\<rparr>"
      using js by (auto simp: blinked_def)
    have run: "led_blink_loop drv (i # js) s = Some (0, s')"
      using True l l' i by (simp add: mem_simps)
    have "i \<notin> set js" using Cons.prems(2) by simp
    then have first: "displays s' i ?c"
      using js di unfolding blinked_def by blast
    have later: "displays s' u (if on_phase s then cfg_color (led_units s ! u) else LED_COLOR_OFF)"
      if "u \<in> set js" "cfg_blink (led_units s ! u)" for u
      using js that by (cases "on_phase s") (simp_all add: blinked_def)
    have same: "displays s' u c = displays s u c"
      if "u \<noteq> i" "u \<notin> set js \<or> \<not> cfg_blink (led_units s ! u)" for u c
      using js that keep by (simp add: blinked_def)
    have "blinked (i # js) s s'"
      unfolding blinked_def
    proof (intro conjI ballI allI impI)
      show "\<exists>l. s' = s\<lparr>led_log := l\<rparr>" using s' by blast
    next
      fix u assume "u \<in> set (i # js)" "cfg_blink (led_units s ! u)"
      then show "displays s' u (if on_phase s then cfg_color (led_units s ! u) else LED_COLOR_OFF)"
        using first later set_ConsD by metis
    next
      fix u c assume "u \<notin> set (i # js) \<or> \<not> cfg_blink (led_units s ! u)"
      then show "displays s' u c = displays s u c"
        using same [of u c] True by auto
    qed
    then show ?thesis using run by blast
  qed
qed

lemma led_blink_work_ok:
  assumes "gpio_works drv" and "led_inv gs s"
  obtains s' where "led_blink_work_handler drv s = Some (0, s')" and "led_inv gs s'"
    and "on_phase s' = (\<not> on_phase s)" and "led_units s' = led_units s"
    and "led_initialized s' = led_initialized s"
    and "\<And>u. u < length gs \<Longrightarrow> cfg_blink (led_units s ! u) \<Longrightarrow>
           displays s' u (if on_phase s then cfg_color (led_units s ! u) else LED_COLOR_OFF)"
proof -
  note units = led_inv_units [OF assms(2)]
  let ?s = "s\<lparr>blink_work := False\<rparr>"
  have inv: "led_inv gs ?s"
    using assms(2) by (simp add: led_inv_def displays_def)
  obtain s1 where run: "led_blink_loop drv [0..<length gs] ?s = Some (0, s1)"
    and bl: "blinked [0..<length gs] ?s s1"
    using led_blink_loop_ok [OF assms(1) inv, of "[0..<length gs]"] by auto
  obtain l where s1: "s1 = ?s\<lparr>led_log := l\<rparr>"
    using bl by (auto simp: blinked_def)
  show thesis
  proof (rule that [of "s1\<lparr>on_phase := \<not> on_phase s\<rparr>"])
    show "led_blink_work_handler drv s = Some (0, s1\<lparr>on_phase := \<not> on_phase s\<rparr>)"
      using run units by (simp add: led_blink_work_handler_def s1)
    show "led_inv gs (s1\<lparr>on_phase := \<not> on_phase s\<rparr>)"
      using blinked_inv [OF inv bl] by (simp add: led_inv_def displays_def)
    show "displays (s1\<lparr>on_phase := \<not> on_phase s\<rparr>) u
        (if on_phase s then cfg_color (led_units s ! u) else LED_COLOR_OFF)"
      if "u < length gs" "cfg_blink (led_units s ! u)" for u
      using bl that by (simp add: blinked_def displays_def)
  qed (simp_all add: s1)
qed

section \<open>Runs of the module\<close>

text \<open>The calls of the module's interface, the timer and the work item, in any order.\<close>

datatype led_op =
  Op_on nat "int list" | Op_off nat | Op_blink nat "int list" | Op_timer | Op_work

fun led_exec :: "gpio_driver \<Rightarrow> led_op \<Rightarrow> led_state \<Rightarrow> (int \<times> led_state) option" where
  "led_exec drv (Op_on u args) s = led_on drv u args s"
| "led_exec drv (Op_off u) s = led_off drv u s"
| "led_exec drv (Op_blink u args) s = led_blink drv u args s"
| "led_exec drv Op_timer s = Some (0, led_blink_timer_handler s)"
| "led_exec drv Op_work s = led_blink_work_handler drv s"

fun led_run :: "gpio_driver \<Rightarrow> led_op list \<Rightarrow> led_state \<Rightarrow> led_state option" where
  "led_run drv [] s = Some s"
| "led_run drv (p # ps) s = do { (r, s) \<leftarrow> led_exec drv p s; led_run drv ps s }"

text \<open>Calls within the interface's contract: a unit of the board, and a colour for an RGB unit.\<close>

definition unit_ok :: "nat list \<Rightarrow> nat \<Rightarrow> int list \<Rightarrow> bool" where
  "unit_ok gs u args \<longleftrightarrow>
     u = LED_AUDIO_NOT_ASSIGNED \<or> u < length gs \<and> (gs ! u = LED_MONOCHROME \<or> args \<noteq> [])"

fun op_ok :: "nat list \<Rightarrow> led_op \<Rightarrow> bool" where
  "op_ok gs (Op_on u args) = unit_ok gs u args"
| "op_ok gs (Op_blink u args) = unit_ok gs u args"
| "op_ok gs (Op_off u) = unit_ok gs u [0]"
| "op_ok gs Op_timer = True"
| "op_ok gs Op_work = True"

lemma led_colored_ok:
  assumes "gpio_works drv" and "led_inv gs s" and "unit_ok gs u args"
  shows "\<exists>r s'. led_colored drv u args b s = Some (r, s') \<and> led_inv gs s'
           \<and> led_initialized s' = led_initialized s"
proof (cases "u = 255")
  case True
  then show ?thesis using assms(2) by (simp add: led_colored_def)
next
  case False
  then have u: "u < length gs" and a: "gs ! u = 1 \<or> args \<noteq> []"
    using assms(3) by (auto simp: unit_ok_def)
  have run: "\<exists>r s'. led_set drv u c b s = Some (r, s') \<and> led_inv gs s'
      \<and> led_initialized s' = led_initialized s" for c
    by (rule led_set_ok [OF assms(1,2), of u c b]) (use u in blast)+
  show ?thesis
    using False u a run led_inv_units [OF assms(2)] assms(2)
    by (auto simp: led_colored_def mem_simps)
qed

lemma led_exec_ok:
  assumes "gpio_works drv" and "led_inv gs s" and "op_ok gs p"
  shows "\<exists>r s'. led_exec drv p s = Some (r, s') \<and> led_inv gs s'
           \<and> led_initialized s' = led_initialized s"
proof (cases p)
  case (Op_off u)
  have "u = 255 \<or> u < length gs" using assms(3) Op_off by (auto simp: unit_ok_def)
  then have "\<exists>r s'. led_set drv u 0 False s = Some (r, s') \<and> led_inv gs s'
      \<and> led_initialized s' = led_initialized s"
    by (rule led_set_ok [OF assms(1,2), of u 0 False]) blast
  then show ?thesis
    using assms(2) Op_off by (simp add: led_off_def)
next
  case Op_timer
  then show ?thesis
    using assms(2) by (simp add: led_blink_timer_handler_def led_inv_def displays_def)
next
  case Op_work
  show ?thesis
    by (rule led_blink_work_ok [OF assms(1,2)]) (use Op_work in auto)
qed (use assms led_colored_ok in \<open>auto simp: led_on_def led_blink_def\<close>)

lemma led_run_ok:
  assumes "gpio_works drv"
  shows "led_inv gs s \<Longrightarrow> list_all (op_ok gs) ps \<Longrightarrow>
    \<exists>s'. led_run drv ps s = Some s' \<and> led_inv gs s' \<and> led_initialized s' = led_initialized s"
proof (induction ps arbitrary: s)
  case (Cons p ps)
  then show ?case
    using led_exec_ok [OF assms, of gs s p] by fastforce
qed simp

lemma led_init_pins_ok:
  "led_init_pins (\<lambda>u j. True) (\<lambda>u j. 0) u js s
   = (0, s\<lparr>led_log := rev (map (\<lambda>j. (u, j, False, 0)) js) @ led_log s\<rparr>)"
  by (induction js arbitrary: s) (auto simp: Let_def)

abbreviation (input) all_low :: "gpio_log \<Rightarrow> bool" where
  "all_low l \<equiv> list_all (\<lambda>(u, i, v, r). \<not> v) l"

lemma pin_level_low: "all_low l \<Longrightarrow> \<not> pin_level l u i"
  by (induction l u i rule: pin_level.induct) auto

lemma led_init_units_ok:
  "\<exists>l. led_init_units (\<lambda>u j. True) (\<lambda>u j. 0) us s = (0, s\<lparr>led_log := l @ led_log s\<rparr>) \<and> all_low l"
proof (induction us arbitrary: s)
  case Nil
  then show ?case by (intro exI [of _ "[]"]) simp
next
  case (Cons u us)
  let ?m = "rev (map (\<lambda>j. (u, j, False, 0 :: int)) [0..<num_gpios (led_units s ! u)])"
  obtain l where "led_init_units (\<lambda>u j. True) (\<lambda>u j. 0) us (s\<lparr>led_log := ?m @ led_log s\<rparr>)
      = (0, s\<lparr>led_log := l @ ?m @ led_log s\<rparr>)" "all_low l"
    using Cons [of "s\<lparr>led_log := ?m @ led_log s\<rparr>"] by auto
  moreover have "all_low ?m" by (simp add: list_all_iff)
  ultimately show ?case
    by (intro exI [of _ "l @ ?m"]) (simp add: led_init_pins_ok)
qed

lemma led_init_ok:
  assumes "wf_gpios gs"
  obtains s where "led_init (\<lambda>u j. True) (\<lambda>u j. 0) (led_boot gs) = (0, s)"
    and "led_inv gs s" and "led_initialized s"
proof -
  obtain l where l: "led_init_units (\<lambda>u j. True) (\<lambda>u j. 0) [0..<length gs] (led_boot gs)
      = (0, (led_boot gs)\<lparr>led_log := l\<rparr>)" "all_low l"
    using led_init_units_ok [of "[0..<length gs]" "led_boot gs"] by (auto simp: led_boot_def)
  have "\<not> pin_level l u i" for u i
    by (rule pin_level_low [OF l(2)])
  then show thesis
    using l assms
    by (intro that [of "(led_boot gs)\<lparr>led_log := l, blink_timer := Some (500, 500),
          led_initialized := True\<rparr>"])
      (auto simp: led_init_def led_inv_def displays_def color_pin_def led_boot_def comp_def)
qed

section \<open>Properties\<close>

text \<open>
  What the callers asked for: whether a unit is to blink, and its colour. A unit of one GPIO is on
  whatever the colour; a colour outside the enumeration is refused and changes nothing.
\<close>

definition colored_request :: "nat list \<Rightarrow> nat \<Rightarrow> int list \<Rightarrow> bool \<Rightarrow> bool \<times> nat \<Rightarrow> bool \<times> nat" where
  "colored_request gs u args b q =
     (if gs ! u = LED_MONOCHROME then (b, LED_ON)
      else if 0 < args ! 0 \<and> args ! 0 < int LED_COLOR_NUM then (b, nat (args ! 0)) else q)"

fun asked :: "nat list \<Rightarrow> nat \<Rightarrow> led_op \<Rightarrow> bool \<times> nat \<Rightarrow> bool \<times> nat" where
  "asked gs v (Op_on u args) q = (if u = v then colored_request gs v args False q else q)"
| "asked gs v (Op_blink u args) q = (if u = v then colored_request gs v args True q else q)"
| "asked gs v (Op_off u) q = (if u = v then (False, LED_COLOR_OFF) else q)"
| "asked gs v Op_timer q = q"
| "asked gs v Op_work q = q"

definition last_request :: "nat list \<Rightarrow> nat \<Rightarrow> led_op list \<Rightarrow> bool \<times> nat" where
  "last_request gs v ps = fold (asked gs v) ps (False, LED_COLOR_OFF)"

definition config_of :: "led_state \<Rightarrow> nat \<Rightarrow> bool \<times> nat" where
  "config_of s v = (cfg_blink (led_units s ! v), cfg_color (led_units s ! v))"

lemma led_set_config:
  assumes "gpio_works drv" and "led_inv gs s" and "led_initialized s" and "u < length gs"
  shows "\<exists>s'. led_set drv u c b s = Some (0, s')
    \<and> (\<forall>v<length gs. config_of s' v = (if v = u then (b, c) else config_of s v))"
proof -
  have "u \<noteq> 255" using assms(2,4) led_inv_units(4) by fastforce
  then show ?thesis
    by (rule_tac led_set_ok [OF assms(1,2), of u c b]) (use assms(3,4) in \<open>auto simp: config_of_def\<close>)
qed

lemma led_colored_config:
  assumes "gpio_works drv" and "led_inv gs s" and "led_initialized s" and "unit_ok gs u args"
    and "led_colored drv u args b s = Some (r, s')" and "v < length gs"
  shows "config_of s' v = (if u = v then colored_request gs v args b (config_of s v) else config_of s v)"
proof (cases "u = 255")
  case True
  then show ?thesis
    using assms(5,6) led_inv_units(4) [OF assms(2)] by (auto simp: led_colored_def)
next
  case False
  then have u: "u < length gs" "gs ! u = 1 \<or> args \<noteq> []"
    using assms(4) by (auto simp: unit_ok_def)
  have set: "led_set drv u c b s = Some (r, s') \<Longrightarrow> config_of s' v = (if v = u then (b, c) else config_of s v)" for c
    using led_set_config [OF assms(1-3) u(1), of c b] assms(6) by auto
  show ?thesis
    using assms(5) False u led_inv_units [OF assms(2)] set
    by (auto simp: led_colored_def colored_request_def mem_simps split: if_splits)
qed

lemma led_blink_loop_units: "led_blink_loop drv is s = Some (r, s') \<Longrightarrow> led_units s' = led_units s"
proof (induction "is" arbitrary: s)
  case (Cons i js)
  have int: "led_set_int drv i c t = Some (q, t') \<Longrightarrow> led_units t' = led_units t" for c t q t'
  proof -
    have "led_rgb_loop drv i c ks t = Some (q, t') \<Longrightarrow> led_units t' = led_units t" for ks t
      by (induction ks arbitrary: t) (fastforce simp: gpio_pin_set_dt_def Let_def split: bind_splits if_splits)+
    then show "led_set_int drv i c t = Some (q, t') \<Longrightarrow> led_units t' = led_units t"
      by (auto simp: led_set_int_def gpio_pin_set_dt_def Let_def split: bind_splits if_splits)
  qed
  show ?case
    using Cons by (fastforce dest!: int split: bind_splits if_splits)
qed simp

lemma led_exec_config:
  assumes "gpio_works drv" and "led_inv gs s" and "led_initialized s" and "op_ok gs p"
    and "led_exec drv p s = Some (r, s')" and "v < length gs"
  shows "config_of s' v = asked gs v p (config_of s v)"
proof (cases p)
  case (Op_off u)
  have u: "u = 255 \<or> u < length gs" using assms(4) Op_off by (auto simp: unit_ok_def)
  show ?thesis
  proof (cases "u = 255")
    case True
    then show ?thesis
      using assms(5,6) Op_off led_inv_units(4) [OF assms(2)] by (auto simp: led_off_def)
  next
    case False
    then show ?thesis
      using u assms(5,6) Op_off led_set_config [OF assms(1-3), of u 0 False] by (auto simp: led_off_def)
  qed
next
  case Op_work
  then have "led_units s' = led_units s"
    using assms(5) by (fastforce simp: led_blink_work_handler_def dest!: led_blink_loop_units split: bind_splits if_splits)
  then show ?thesis using Op_work by (simp add: config_of_def)
qed (use assms led_colored_config in \<open>auto simp: led_on_def led_blink_def led_blink_timer_handler_def config_of_def\<close>)

lemma led_run_config:
  assumes "gpio_works drv"
  shows "led_inv gs s \<Longrightarrow> led_initialized s \<Longrightarrow> list_all (op_ok gs) ps \<Longrightarrow> led_run drv ps s = Some s'
    \<Longrightarrow> v < length gs \<Longrightarrow> config_of s' v = fold (asked gs v) ps (config_of s v)"
proof (induction ps arbitrary: s)
  case (Cons p ps)
  obtain r s1 where s1: "led_exec drv p s = Some (r, s1)" "led_inv gs s1" "led_initialized s1"
    using led_exec_ok [OF assms Cons.prems(1), of p] Cons.prems(2,3) by auto
  then show ?case
    using Cons.IH [OF s1(2,3)] Cons.prems led_exec_config [OF assms Cons.prems(1,2) _ s1(1)] by simp
qed simp

lemma led_boot_config:
  assumes "wf_gpios gs" and "led_init (\<lambda>u j. True) (\<lambda>u j. 0) (led_boot gs) = (0, s)" and "v < length gs"
  shows "config_of s v = (False, LED_COLOR_OFF)"
proof -
  obtain l where "led_init_units (\<lambda>u j. True) (\<lambda>u j. 0) [0..<length gs] (led_boot gs)
      = (0, (led_boot gs)\<lparr>led_log := l @ led_log (led_boot gs)\<rparr>)"
    using led_init_units_ok [of "[0..<length gs]" "led_boot gs"] by blast
  then show ?thesis
    using assms(2,3) by (auto simp: led_init_def led_boot_def config_of_def split: if_splits)
qed

text \<open>C29: The LEDs show what was last asked for. On any board whose units have one GPIO or
  three (at most 255 units), with working GPIOs, any sequence of calls of led_on, led_off and led_blink
  within the interface's contract (unit of the board or "not assigned", a colour for an RGB
  unit), interleaved in any way with expiries of the blink timer and runs of the blink work
  item, stays inside the module's arrays. After it every unit shows on its pins exactly the colour of
  the last of these calls that named it and was not refused (nothing, if there was none), or that call
  asked for blinking and the unit is in its dark half-period; and after the blink work has run next,
  the blinking units are all lit or all dark, by the phase, which toggles, and the others show their
  colour.\<close>

theorem leds_show_last_request:
  assumes "wf_gpios gs" and "gpio_works drv" and "list_all (op_ok gs) ps"
  shows "\<exists>s0 s s'. led_init (\<lambda>u j. True) (\<lambda>u j. 0) (led_boot gs) = (0, s0)
    \<and> led_run drv ps s0 = Some s
    \<and> led_blink_work_handler drv s = Some (0, s') \<and> on_phase s' = (\<not> on_phase s)
    \<and> (\<forall>u<length gs. case last_request gs u ps of (blink, color) \<Rightarrow>
         (displays s u color \<or> blink \<and> displays s u LED_COLOR_OFF)
         \<and> displays s' u (if blink \<and> \<not> on_phase s then LED_COLOR_OFF else color))"
proof -
  obtain s0 where s0: "led_init (\<lambda>u j. True) (\<lambda>u j. 0) (led_boot gs) = (0, s0)" "led_inv gs s0" "led_initialized s0"
    using led_init_ok [OF assms(1)] by blast
  obtain s where s: "led_run drv ps s0 = Some s" "led_inv gs s"
    using led_run_ok [OF assms(2) s0(2) assms(3)] by blast
  have req: "last_request gs u ps = (cfg_blink (led_units s ! u), cfg_color (led_units s ! u))" if "u < length gs" for u
    using led_run_config [OF assms(2) s0(2,3) assms(3) s(1) that] led_boot_config [OF assms(1) s0(1) that]
    by (simp add: last_request_def config_of_def)
  obtain s' where s': "led_blink_work_handler drv s = Some (0, s')" "led_inv gs s'"
      "on_phase s' = (\<not> on_phase s)" "led_units s' = led_units s"
    and blink: "\<And>u. u < length gs \<Longrightarrow> cfg_blink (led_units s ! u) \<Longrightarrow>
           displays s' u (if on_phase s then cfg_color (led_units s ! u) else LED_COLOR_OFF)"
    using led_blink_work_ok [OF assms(2) s(2)] by metis
  have all: "displays s' u (if cfg_blink (led_units s ! u) \<and> \<not> on_phase s then LED_COLOR_OFF
           else cfg_color (led_units s ! u))" if "u < length gs" for u
    using blink [OF that] s'(2,4) that
    by (cases "cfg_blink (led_units s ! u)") (auto simp: led_inv_def)
  have "displays s u (cfg_color (led_units s ! u)) \<or> cfg_blink (led_units s ! u) \<and> displays s u LED_COLOR_OFF"
    if "u < length gs" for u
    using s(2) that by (simp add: led_inv_def)
  then show ?thesis
    using s0 s s' all req by (intro exI [of _ s0] exI [of _ s] exI [of _ s']) simp
qed

theorem leds_show_last_request_witness:
  "\<exists>s s'. led_blink_work_handler (\<lambda>l u i v. 0) s = Some (0, s')
    \<and> displays s 0 LED_COLOR_OFF \<and> displays s' 1 LED_COLOR_GREEN
    \<and> displays s' 4 (if on_phase s then LED_ON else LED_COLOR_OFF)"
proof -
  let ?ps = "[Op_on 0 [2], Op_on 1 [2], Op_blink 4 [], Op_timer, Op_work, Op_off 0, Op_on 1 [9]]"
  have ok: "wf_gpios [3, 3, 1, 1, 1]" "gpio_works (\<lambda>l u i v. 0)" "list_all (op_ok [3, 3, 1, 1, 1]) ?ps"
    by (simp_all add: wf_gpios_def gpio_works_def unit_ok_def)
  have req: "last_request [3, 3, 1, 1, 1] 0 ?ps = (False, 0)" "last_request [3, 3, 1, 1, 1] 1 ?ps = (False, 2)"
      "last_request [3, 3, 1, 1, 1] 4 ?ps = (True, 7)"
    by (simp_all add: last_request_def colored_request_def)
  obtain s s' where run: "led_blink_work_handler (\<lambda>l u i v. 0) s = Some (0, s')"
    and all: "\<forall>u<length [3, 3, 1, 1, 1 :: nat]. case last_request [3, 3, 1, 1, 1] u ?ps of (blink, color) \<Rightarrow>
         (displays s u color \<or> blink \<and> displays s u LED_COLOR_OFF)
         \<and> displays s' u (if blink \<and> \<not> on_phase s then LED_COLOR_OFF else color)"
    using leds_show_last_request [OF ok] by blast
  have "displays s 0 LED_COLOR_OFF" using all [THEN spec, of 0] unfolding req by simp
  moreover have "displays s' 1 LED_COLOR_GREEN" using all [THEN spec, of 1] unfolding req by simp
  moreover have "displays s' 4 (if on_phase s then LED_ON else LED_COLOR_OFF)"
    using all [THEN spec, of 4] unfolding req by (simp split: if_splits)
  ultimately show ?thesis using run by blast
qed

text \<open>The LED port never reads the colour argument it does not pass. On both boards of the
  repository, every call of the LED port (on, off, blink, for every LED identifier) in
  an initialised module is free of undefined behaviour; it returns 0 and the unit then shows white
  (on) or nothing (off), except for the out-of-range identifier, which returns -1 and changes
  nothing. The adapter calls led_on and led_blink without a colour, which is sound only because the
  boards give these three roles monochrome units.\<close>

lemma led_port_safe:
  assumes "b = audio_dk_leds \<or> b = nrf5340dk_leds" and "gpio_works drv"
    and "led_inv (board_gpios b) s" and "led_initialized s"
  shows "case led_id_map b led of
      None \<Rightarrow> adapter_led_on drv b led s = Some (- 1, s) \<and> adapter_led_off drv b led s = Some (- 1, s)
             \<and> adapter_led_blink drv b led s = Some (- 1, s)
    | Some u \<Rightarrow>
        (\<exists>s'. adapter_led_on drv b led s = Some (0, s') \<and> displays s' u LED_COLOR_WHITE
           \<and> led_inv (board_gpios b) s' \<and> \<not> cfg_blink (led_units s' ! u))
      \<and> (\<exists>s'. adapter_led_off drv b led s = Some (0, s') \<and> displays s' u LED_COLOR_OFF
           \<and> led_inv (board_gpios b) s' \<and> \<not> cfg_blink (led_units s' ! u))
      \<and> (\<exists>s'. adapter_led_blink drv b led s = Some (0, s') \<and> displays s' u LED_COLOR_WHITE
           \<and> led_inv (board_gpios b) s' \<and> cfg_blink (led_units s' ! u))"
proof (cases "led_id_map b led")
  case None
  then show ?thesis
    by (simp add: adapter_led_on_def adapter_led_off_def adapter_led_blink_def)
next
  case (Some u)
  have u: "u < length (board_gpios b)" "board_gpios b ! u = 1" "u \<noteq> 255"
    using Some assms(1) by (cases led; auto simp: audio_dk_leds_def nrf5340dk_leds_def)+
  have set: "\<exists>s'. led_set drv u c bl s = Some (0, s') \<and> displays s' u c
      \<and> led_inv (board_gpios b) s' \<and> cfg_blink (led_units s' ! u) = bl" for c bl
    by (rule led_set_ok [OF assms(2,3), of u c bl]) (use u assms(4) in auto)
  note units = led_inv_units [OF assms(3)]
  have mono: "led_colored drv u [] bl s = led_set drv u LED_ON bl s" for bl
    using u units by (simp add: led_colored_def mem_simps)
  show ?thesis
    using Some u set [of 7 False] set [of 7 True] set [of 0 False]
    by (simp add: adapter_led_on_def adapter_led_off_def adapter_led_blink_def led_on_def
        led_off_def led_blink_def mono)
qed

end
