(* ===== verification/ButtonModule.thy ===== *)
theory ButtonModule
  imports PaPorts "HOL-Library.Multiset"
begin

text \<open>
  The button driver \<open>src/modules/button_handler.c\<close> and the button port adapter
  \<open>src/adapters/zephyr_button_adapter.c\<close>: a GPIO interrupt with a debounce timer puts a message
  into a queue of one element, a thread publishes it on the zbus channel \<open>button_chan\<close>, the
  adapter's subscriber thread reads the channel and runs the registered callback.

  The button table (pins, in devicetree order) and the assignment of pins to functions come from
  the board; the results of driver calls are arguments. Of zbus the model has what its
  documentation says: publishing overwrites the channel's message and notifies an added observer,
  whose queue holds a bounded number of notifications; reading gives the current message.
\<close>

section \<open>State\<close>

abbreviation (input) BUTTON_NOT_ASSIGNED :: u32 where "BUTTON_NOT_ASSIGNED \<equiv> 255"
abbreviation (input) BUTTON_PRESS :: nat where "BUTTON_PRESS \<equiv> 1"

record button_msg =
  button_pin :: u32
  button_action :: nat

record button_board =
  btn_pins :: "u8 list"
  pin_play_pause :: u32
  pin_volume_up :: u32
  pin_volume_down :: u32
  pin_button_4 :: u32
  pin_button_5 :: u32
  sub_queue_size :: nat

record button_state =
  button_q :: "button_msg option"
  debounce_is_ongoing :: bool
  debounce_timer :: bool
  button_chan :: button_msg
  btn_observed :: bool
  btn_notified :: nat
  btn_cb :: "callback option"
  btn_callbacks :: "u32 list"

definition button_boot :: button_state where
  "button_boot = \<lparr>button_q = None, debounce_is_ongoing = False, debounce_timer = False,
     button_chan = \<lparr>button_pin = 0, button_action = 0\<rparr>, btn_observed = False, btn_notified = 0,
     btn_cb = None, btn_callbacks = []\<rparr>"

section \<open>From interrupt mask to button\<close>

text \<open>\<open>while (pin_msk) { pin_msk = pin_msk >> 1; (*pin_out)++; }\<close>\<close>

lemma drop_bit_less: "(m :: u32) \<noteq> 0 \<Longrightarrow> unat (drop_bit 1 m) < unat m"
  by (simp add: drop_bit_eq_div unat_div unat_gt_0 div_less_dividend)

function msk_loop :: "u32 \<Rightarrow> u32 \<Rightarrow> u32" where
  "msk_loop pin_msk pin_out =
     (if pin_msk = 0 then pin_out else msk_loop (drop_bit 1 pin_msk) (pin_out + 1))"
  by pat_completeness auto
termination by (relation "measure (\<lambda>(m, p). unat m)") (auto intro: drop_bit_less [unfolded One_nat_def])

declare msk_loop.simps [simp del]

text \<open>The result code and \<open>*pin_out\<close>, whose value before the call is the second argument.\<close>

definition pin_msk_to_pin :: "u32 \<Rightarrow> u32 \<Rightarrow> int \<times> u32" where
  "pin_msk_to_pin pin_msk pin_out =
     (if pin_msk = 0 then (- EACCES, pin_out)
      else if and pin_msk (pin_msk - 1) \<noteq> 0 then (- EACCES, pin_out)
      else (0, msk_loop pin_msk 0 - 1))"

text \<open>The search of the table; \<open>i\<close> is the loop's \<open>uint8_t\<close> counter.\<close>

fun btn_search :: "u8 \<Rightarrow> u8 list \<Rightarrow> u8 \<Rightarrow> u8 option" where
  "btn_search btn_pin [] i = None"
| "btn_search btn_pin (p # ps) i = (if btn_pin = p then Some i else btn_search btn_pin ps (i + 1))"

definition pin_to_btn_idx :: "button_board \<Rightarrow> u8 \<Rightarrow> u32 \<Rightarrow> int \<times> u32" where
  "pin_to_btn_idx b btn_pin pin_idx =
     (case btn_search btn_pin (btn_pins b) 0 of
        Some i \<Rightarrow> (0, ucast i) | None \<Rightarrow> (- ENODEV, pin_idx))"

section \<open>Interrupt, debounce and publishing\<close>

definition on_button_debounce_timeout :: "button_state \<Rightarrow> button_state" where
  "on_button_debounce_timeout s = s\<lparr>debounce_is_ongoing := False, debounce_timer := False\<rparr>"

text \<open>
  The interrupt handler. A nonzero result is the error that \<open>ERR_CHK\<close> turns into \<open>k_oops\<close>.
  A full queue loses the message, and debouncing starts all the same.
\<close>

definition button_isr :: "button_board \<Rightarrow> u32 \<Rightarrow> button_state \<Rightarrow> int \<times> button_state" where
  "button_isr b pin_msk s =
     (if debounce_is_ongoing s then (0, s)
      else case pin_msk_to_pin pin_msk 0 of (ret, pin) \<Rightarrow>
        if ret \<noteq> 0 then (ret, s)
        else case pin_to_btn_idx b (ucast pin) 0 of (ret, btn_idx) \<Rightarrow>
          if ret \<noteq> 0 then (ret, s)
          else (0, s\<lparr>button_q := (case button_q s of
                        None \<Rightarrow> Some \<lparr>button_pin = pin, button_action = BUTTON_PRESS\<rparr>
                      | Some m \<Rightarrow> Some m),
                     debounce_is_ongoing := True, debounce_timer := True\<rparr>))"

text \<open>\<open>zbus_chan_pub\<close> on \<open>button_chan\<close>.\<close>

definition button_chan_pub :: "button_board \<Rightarrow> button_msg \<Rightarrow> button_state \<Rightarrow> button_state" where
  "button_chan_pub b m s = s\<lparr>button_chan := m,
     btn_notified := (if btn_observed s \<and> btn_notified s < sub_queue_size b
                      then btn_notified s + 1 else btn_notified s)\<rparr>"

text \<open>One iteration of the publishing thread's loop; it waits while the queue is empty.\<close>

definition button_publish_thread :: "button_board \<Rightarrow> button_state \<Rightarrow> button_state" where
  "button_publish_thread b s = (case button_q s of
      None \<Rightarrow> s | Some m \<Rightarrow> button_chan_pub b m (s\<lparr>button_q := None\<rparr>))"

section \<open>The other operations of the driver\<close>

text \<open>\<open>out\<close> is the pointer argument: \<open>None\<close> for \<open>NULL\<close>. \<open>lvl\<close> is the result of \<open>gpio_pin_get\<close>.\<close>

definition button_pressed ::
  "button_board \<Rightarrow> (nat \<Rightarrow> bool) \<Rightarrow> int \<Rightarrow> u8 \<Rightarrow> bool option \<Rightarrow> int \<times> bool option" where
  "button_pressed b ready lvl pin out =
     (if pin = 255 \<or> out = None then (- EINVAL, out)
      else case pin_to_btn_idx b pin 0 of (ret, btn_idx) \<Rightarrow>
        if ret \<noteq> 0 then (- EINVAL, out)
        else if \<not> ready (unat btn_idx) then (- EINVAL, out)
        else if lvl = 0 then (0, Some False)
        else if lvl = 1 then (0, Some True)
        else (lvl, out))"

text \<open>
  Initialisation of the buttons from the \<open>i\<close>-th on: \<open>ready\<close>, \<open>cfg\<close>, \<open>add\<close> and \<open>irq\<close> are what
  the GPIO driver answers for it.
\<close>

fun button_init_loop ::
  "(nat \<Rightarrow> bool) \<Rightarrow> (nat \<Rightarrow> int) \<Rightarrow> (nat \<Rightarrow> int) \<Rightarrow> (nat \<Rightarrow> int) \<Rightarrow> u8 list \<Rightarrow> nat \<Rightarrow> button_state
   \<Rightarrow> int \<times> button_state" where
  "button_init_loop ready cfg add irq [] i s = (0, s)"
| "button_init_loop ready cfg add irq (p # ps) i s =
     (if \<not> ready i then (- ENODEV, s)
      else if cfg i \<noteq> 0 then (cfg i, s)
      else if add i \<noteq> 0 then (add i, s)
      else let s = s\<lparr>btn_callbacks := btn_callbacks s @ [push_bit (unat p) 1]\<rparr>
           in if irq i \<noteq> 0 then (irq i, s)
              else button_init_loop ready cfg add irq ps (Suc i) s)"

definition button_handler_init ::
  "button_board \<Rightarrow> (nat \<Rightarrow> bool) \<Rightarrow> (nat \<Rightarrow> int) \<Rightarrow> (nat \<Rightarrow> int) \<Rightarrow> (nat \<Rightarrow> int) \<Rightarrow> button_state
   \<Rightarrow> int \<times> button_state" where
  "button_handler_init b ready cfg add irq s =
     (if btn_pins b = [] then (- EINVAL, s)
      else button_init_loop ready cfg add irq (btn_pins b) 0 s)"

text \<open>The shell command \<open>buttons push\<close>, whose index is cut to a \<open>uint8_t\<close>.\<close>

definition cmd_push_btn :: "button_board \<Rightarrow> string list \<Rightarrow> button_state \<Rightarrow> int \<times> button_state" where
  "cmd_push_btn b argv s =
     (if length argv \<noteq> 2 then (- EINVAL, s)
      else if argv ! 1 = [] \<or> \<not> is_digit (hd (argv ! 1)) then (- EINVAL, s)
      else let btn_idx = unat (of_nat (strtoul (argv ! 1)) :: u8) in
        if length (btn_pins b) \<le> btn_idx then (- EINVAL, s)
        else (0, button_chan_pub b
                \<lparr>button_pin = ucast (btn_pins b ! btn_idx), button_action = BUTTON_PRESS\<rparr> s))"

section \<open>The port adapter\<close>

definition map_pin_to_id :: "button_board \<Rightarrow> u32 \<Rightarrow> pa_button_id" where
  "map_pin_to_id b pin =
     (if pin = pin_play_pause b then PA_BUTTON_PLAY_PAUSE
      else if pin = pin_volume_up b then PA_BUTTON_VOLUME_UP
      else if pin = pin_volume_down b then PA_BUTTON_VOLUME_DOWN
      else if pin = pin_button_4 b \<or> pin = pin_button_5 b then PA_BUTTON_ACTION
      else PA_BUTTON_ID_COUNT)"

definition button_adapter_init :: "int \<Rightarrow> callback \<Rightarrow> button_state \<Rightarrow> int \<times> button_state" where
  "button_adapter_init add_obs cb s =
     (let s = s\<lparr>btn_cb := Some cb\<rparr> in
      if add_obs \<noteq> 0 then (add_obs, s) else (0, s\<lparr>btn_observed := True\<rparr>))"

text \<open>
  One iteration of the adapter's thread, which waits while there is no notification; \<open>rd_ret\<close> is
  the result of \<open>zbus_chan_read\<close>. The result names the callback run and its first argument.
\<close>

definition button_thread_fn ::
  "button_board \<Rightarrow> int \<Rightarrow> button_state \<Rightarrow> (callback \<times> pa_button_id) option \<times> button_state" where
  "button_thread_fn b rd_ret s =
     (if btn_notified s = 0 then (None, s)
      else let s = s\<lparr>btn_notified := btn_notified s - 1\<rparr>; msg = button_chan s in
        if rd_ret \<noteq> 0 then (None, s)
        else if button_action msg \<noteq> BUTTON_PRESS then (None, s)
        else let id = map_pin_to_id b (button_pin msg) in
          if id = PA_BUTTON_ID_COUNT then (None, s)
          else (case btn_cb s of None \<Rightarrow> (None, s) | Some cb \<Rightarrow> (Some (cb, id), s)))"

section \<open>Masks with one bit\<close>

lemma one_bit_nat: "0 < x \<Longrightarrow> and x (x - 1) = 0 \<Longrightarrow> \<exists>p. (x :: nat) = 2 ^ p"
proof (induction x rule: less_induct)
  case (less x)
  show ?case
  proof (cases "even x")
    case True
    then obtain y where y: "x = 2 * y" by blast
    have "0 < y" using less.prems y by simp
    have "x div 2 = y" "(x - 1) div 2 = y - 1"
      using \<open>0 < y\<close> y by linarith+
    then have "and x (x - 1) = 2 * and y (y - 1)"
      using True by (subst and_nat_rec) simp
    then have "and y (y - 1) = 0" using less.prems by simp
    then obtain p where "y = 2 ^ p" using less.IH [of y] \<open>0 < y\<close> y by auto
    then have "x = 2 ^ Suc p" using y by simp
    then show ?thesis ..
  next
    case False
    then obtain y where y: "x = 2 * y + 1" by (elim oddE)
    have "and x (x - 1) = 2 * and y y"
      using y by (subst and_nat_rec) simp
    then have "x = 2 ^ 0" using less.prems y by simp
    then show ?thesis ..
  qed
qed

lemma power_div_2: "p \<noteq> 0 \<Longrightarrow> (2 :: nat) ^ p div 2 = 2 ^ (p - 1)"
  by (cases p) simp_all

lemma unat_pow2:
  assumes "p < 32"
  shows "unat (2 ^ p :: u32) = 2 ^ p"
proof -
  have "(2 :: nat) ^ p < 2 ^ 32"
    using assms by (intro power_strict_increasing) simp_all
  then have "unat (of_nat (2 ^ p) :: u32) = 2 ^ p"
    by (simp add: unat_of_nat del: of_nat_power)
  then show ?thesis by simp
qed

lemma one_bit_word:
  "(m :: u32) \<noteq> 0 \<and> and m (m - 1) = 0 \<longleftrightarrow> (\<exists>p<32. m = push_bit p 1)"
proof
  assume *: "m \<noteq> 0 \<and> and m (m - 1) = 0"
  then have "0 < unat m" by (simp add: unat_gt_0)
  have "unat (m - 1) = unat m - 1"
    using * by (simp add: unat_minus_one)
  then have "and (unat m) (unat m - 1) = 0"
    using * by (metis unsigned_and_eq unsigned_0)
  then obtain p where p: "unat m = 2 ^ p"
    using one_bit_nat \<open>0 < unat m\<close> by blast
  have "(2 :: nat) ^ p < 2 ^ 32"
    using unsigned_less [of m, where ?'a = nat] p by simp
  then have "p < 32" by (rule power_less_imp_less_exp [rotated]) simp
  moreover from this p have "m = push_bit p 1"
    by (simp add: word_unat_eq_iff unat_pow2)
  ultimately show "\<exists>p<32. m = push_bit p 1" by blast
next
  assume "\<exists>p<32. m = push_bit p 1"
  then obtain p where p: "p < 32" "m = push_bit p 1" by blast
  have m: "m \<noteq> 0"
    using p unat_pow2 [of p] by auto
  have "m - 1 = mask p"
    using p by (simp add: mask_eq_exp_minus_1 push_bit_eq_mult)
  then have "and m (m - 1) = 0"
    using p by (auto intro!: bit_word_eqI simp: bit_simps)
  then show "m \<noteq> 0 \<and> and m (m - 1) = 0"
    using m by blast
qed

lemma msk_loop_pow: "unat m = 2 ^ p \<Longrightarrow> msk_loop m k = k + of_nat p + 1"
proof (induction p arbitrary: m k)
  case 0
  then have "m = 1" by (simp add: word_unat_eq_iff)
  then have "drop_bit 1 m = 0" by simp
  then show ?case
    using \<open>m = 1\<close> by (subst msk_loop.simps) (subst msk_loop.simps, simp)
next
  case (Suc p)
  then have "m \<noteq> 0" by auto
  have "unat (drop_bit 1 m) = 2 ^ p"
    using Suc.prems by (simp add: drop_bit_eq_div unat_div)
  then show ?case
    using \<open>m \<noteq> 0\<close> Suc.IH by (subst msk_loop.simps) (simp add: algebra_simps)
qed

section \<open>Runs of the module\<close>

text \<open>
  The events: the interrupt with a mask, expiry of the debounce timer (nothing when it is not
  running), an iteration of the publishing thread, an iteration of the subscriber thread with
  the result of its read. \<open>Inl\<close> is the error \<open>k_oops\<close> was raised with.
\<close>

datatype button_event = Isr u32 | Debounce_expiry | Publish | Subscriber int

definition button_step ::
  "button_board \<Rightarrow> button_event \<Rightarrow> button_state \<Rightarrow> int + (pa_button_id list \<times> button_state)" where
  "button_step b e s = (case e of
     Isr m \<Rightarrow> (case button_isr b m s of (ret, s) \<Rightarrow> if ret \<noteq> 0 then Inl ret else Inr ([], s))
   | Debounce_expiry \<Rightarrow> Inr ([], if debounce_timer s then on_button_debounce_timeout s else s)
   | Publish \<Rightarrow> Inr ([], button_publish_thread b s)
   | Subscriber r \<Rightarrow> (case button_thread_fn b r s of
        (None, s) \<Rightarrow> Inr ([], s) | (Some (cb, i), s) \<Rightarrow> Inr ([i], s)))"

fun button_run ::
  "button_board \<Rightarrow> button_event list \<Rightarrow> button_state \<Rightarrow> int + (pa_button_id list \<times> button_state)" where
  "button_run b [] s = Inr ([], s)"
| "button_run b (e # es) s = (case button_step b e s of
     Inl r \<Rightarrow> Inl r
   | Inr (ids, s) \<Rightarrow> (case button_run b es s of
       Inl r \<Rightarrow> Inl r | Inr (ids', s) \<Rightarrow> Inr (ids @ ids', s)))"

text \<open>What the GPIO driver guarantees: a callback registered for one pin gets that pin's bit only.\<close>

definition masks_ok :: "button_board \<Rightarrow> button_event \<Rightarrow> bool" where
  "masks_ok b e = (case e of Isr m \<Rightarrow> (\<exists>p\<in>set (btn_pins b). m = push_bit (unat p) 1) | _ \<Rightarrow> True)"

definition wf_board :: "button_board \<Rightarrow> bool" where
  "wf_board b \<longleftrightarrow> (\<forall>p\<in>set (btn_pins b). p < 32)"

definition pressed_pins :: "button_board \<Rightarrow> button_event list \<Rightarrow> u32 set" where
  "pressed_pins b es = {ucast p | p. p \<in> set (btn_pins b) \<and> Isr (push_bit (unat p) 1) \<in> set es}"

text \<open>Messages on their way to the callback.\<close>

definition in_flight :: "button_state \<Rightarrow> nat" where
  "in_flight s = (if button_q s = None then 0 else 1) + btn_notified s"

text \<open>Every message of a press carries one of the pins \<open>P\<close>.\<close>

definition btn_inv :: "u32 set \<Rightarrow> button_state \<Rightarrow> bool" where
  "btn_inv P s \<longleftrightarrow> debounce_timer s = debounce_is_ongoing s
     \<and> (\<forall>m. button_q s = Some m \<longrightarrow> button_pin m \<in> P)
     \<and> (button_action (button_chan s) = BUTTON_PRESS \<longrightarrow> button_pin (button_chan s) \<in> P)"

lemma btn_search_found: "btn_pin \<in> set ps \<Longrightarrow> \<exists>k. btn_search btn_pin ps i = Some k"
  by (induction ps arbitrary: i) auto

lemma mask_pin:
  assumes "p < 32"
  shows "pin_msk_to_pin (2 ^ p) x = (0, of_nat p)"
proof -
  have "(2 ^ p :: u32) \<noteq> 0" "and (2 ^ p :: u32) (2 ^ p - 1) = 0"
    using assms one_bit_word [of "2 ^ p"] by auto
  then show ?thesis
    using msk_loop_pow [OF unat_pow2 [OF assms], of 0] by (simp add: pin_msk_to_pin_def)
qed

lemma button_isr_ok:
  assumes "wf_board b" and "p \<in> set (btn_pins b)"
  shows "button_isr b (2 ^ unat p) s =
     (0, if debounce_is_ongoing s then s
         else s\<lparr>button_q := Some (case button_q s of
                  None \<Rightarrow> \<lparr>button_pin = ucast p, button_action = BUTTON_PRESS\<rparr> | Some m \<Rightarrow> m),
                debounce_is_ongoing := True, debounce_timer := True\<rparr>)"
proof -
  have p: "unat p < 32"
    using assms by (auto simp: wf_board_def word_less_nat_alt)
  have c: "(of_nat (unat p) :: u32) = ucast p" "(ucast (ucast p :: u32) :: u8) = p"
    by (simp_all add: word_unat_eq_iff unsigned_ucast_eq take_bit_word_eq_self)
  obtain k where k: "btn_search p (btn_pins b) 0 = Some k"
    using btn_search_found assms(2) by blast
  show ?thesis
    by (auto simp: button_isr_def mask_pin [OF p] c k pin_to_btn_idx_def split: option.splits)
qed

definition potential :: "button_state \<Rightarrow> nat" where
  "potential s = in_flight s + (if debounce_is_ongoing s then 0 else 1)"

lemma btn_inv_mono: "P \<subseteq> Q \<Longrightarrow> btn_inv P s \<Longrightarrow> btn_inv Q s"
  by (auto simp: btn_inv_def)

lemma button_step_ok:
  assumes "wf_board b" and "masks_ok b e" and "btn_inv P s" and "pressed_pins b [e] \<subseteq> P"
  obtains ids s' where "button_step b e s = Inr (ids, s')" and "btn_inv P s'"
    and "set ids \<subseteq> map_pin_to_id b ` P - {PA_BUTTON_ID_COUNT}"
    and "length ids + potential s' \<le> potential s + (if e = Debounce_expiry then 1 else 0)"
proof (cases e)
  case (Isr m)
  then obtain p where p: "p \<in> set (btn_pins b)" "m = 2 ^ unat p"
    using assms(2) by (auto simp: masks_ok_def)
  then have "ucast p \<in> P"
    using assms(4) Isr by (auto simp: pressed_pins_def)
  then show ?thesis
    using assms(3) Isr p
    by (intro that [of "[]" "snd (button_isr b m s)"])
      (auto simp: button_step_def button_isr_ok [OF assms(1) p(1)] btn_inv_def potential_def
        in_flight_def split: option.splits)
next
  case Debounce_expiry
  then show ?thesis
    using assms(3)
    by (intro that [of "[]" "if debounce_timer s then on_button_debounce_timeout s else s"])
      (auto simp: button_step_def btn_inv_def potential_def in_flight_def
        on_button_debounce_timeout_def)
next
  case Publish
  then show ?thesis
    using assms(3)
    by (intro that [of "[]" "button_publish_thread b s"])
      (auto simp: button_step_def btn_inv_def potential_def in_flight_def button_chan_pub_def
        button_publish_thread_def split: option.splits)
next
  case (Subscriber r)
  show ?thesis
  proof (cases "fst (button_thread_fn b r s)")
    case None
    then show ?thesis
      using assms(3) Subscriber
      by (intro that [of "[]" "snd (button_thread_fn b r s)"])
        (auto simp: button_step_def btn_inv_def potential_def in_flight_def button_thread_fn_def
          Let_def split: option.splits if_splits)
  next
    case (Some c)
    then obtain cb i where "fst (button_thread_fn b r s) = Some (cb, i)" by (cases c) auto
    then show ?thesis
      using assms(3) Subscriber
      by (intro that [of "[i]" "snd (button_thread_fn b r s)"])
        (auto simp: button_step_def btn_inv_def potential_def in_flight_def button_thread_fn_def
          Let_def split: option.splits if_splits)
  qed
qed

lemma button_run_ok:
  assumes "wf_board b"
  shows "list_all (masks_ok b) es \<Longrightarrow> btn_inv P s \<Longrightarrow> pressed_pins b es \<subseteq> P \<Longrightarrow>
    \<exists>ids s'. button_run b es s = Inr (ids, s') \<and> btn_inv P s'
      \<and> set ids \<subseteq> map_pin_to_id b ` P - {PA_BUTTON_ID_COUNT}
      \<and> length ids + potential s' \<le> potential s + count_list es Debounce_expiry"
proof (induction es arbitrary: s)
  case Nil
  then show ?case by simp
next
  case (Cons e es)
  have sub: "pressed_pins b [e] \<subseteq> P" "pressed_pins b es \<subseteq> P"
    using Cons.prems(3) by (auto simp: pressed_pins_def)
  have ok: "masks_ok b e" "list_all (masks_ok b) es"
    using Cons.prems(1) by simp_all
  obtain ids s' where step: "button_step b e s = Inr (ids, s')" and inv: "btn_inv P s'"
    and ids: "set ids \<subseteq> map_pin_to_id b ` P - {PA_BUTTON_ID_COUNT}"
    and pot: "length ids + potential s' \<le> potential s + (if e = Debounce_expiry then 1 else 0)"
    by (rule button_step_ok [OF assms ok(1) Cons.prems(2) sub(1)])
  obtain ids' s'' where "button_run b es s' = Inr (ids', s'')" "btn_inv P s''"
    "set ids' \<subseteq> map_pin_to_id b ` P - {PA_BUTTON_ID_COUNT}"
    "length ids' + potential s'' \<le> potential s' + count_list es Debounce_expiry"
    using Cons.IH [OF ok(2) inv sub(2)] by blast
  then show ?case
    using step ids pot by (intro exI [of _ "ids @ ids'"] exI [of _ s'']) auto
qed

lemma button_init_loop_ok:
  "button_init_loop (\<lambda>i. True) (\<lambda>i. 0) (\<lambda>i. 0) (\<lambda>i. 0) ps i s =
   (0, s\<lparr>btn_callbacks := btn_callbacks s @ map (\<lambda>p. push_bit (unat p) 1) ps\<rparr>)"
  by (induction ps arbitrary: i s) (auto simp: Let_def)

text \<open>The state after a successful initialisation of driver and adapter.\<close>

definition button_start :: "button_board \<Rightarrow> callback \<Rightarrow> button_state" where
  "button_start b cb = snd (button_adapter_init 0 cb (snd (button_handler_init b (\<lambda>i. True)
     (\<lambda>i. 0) (\<lambda>i. 0) (\<lambda>i. 0) button_boot)))"

lemma button_start_simps:
  "button_q (button_start b cb) = None" "\<not> debounce_is_ongoing (button_start b cb)"
  "\<not> debounce_timer (button_start b cb)" "btn_notified (button_start b cb) = 0"
  "btn_observed (button_start b cb)" "btn_cb (button_start b cb) = Some cb"
  "button_action (button_chan (button_start b cb)) = 0"
  by (auto simp: button_start_def button_adapter_init_def button_handler_init_def
      button_init_loop_ok button_boot_def)

section \<open>Properties\<close>

text \<open>pin_msk_to_pin decodes exactly the one-bit masks: a mask BIT(p) with p below 32
  gives 0 and p, for every other mask, the empty one included, the result is -EACCES and the output
  is not written. So the loop that shifts the mask ends, and inverts BIT.\<close>

lemma pin_msk_to_pin_exact:
  "if \<exists>p<32. m = push_bit p 1
   then \<exists>p<32. m = push_bit p 1 \<and> pin_msk_to_pin m x = (0, of_nat p)
   else pin_msk_to_pin m x = (- EACCES, x)"
proof (cases "\<exists>p<32. m = push_bit p 1")
  case True
  then obtain p where "p < 32" "m = 2 ^ p" by auto
  then have "\<exists>p<32. m = push_bit p 1 \<and> pin_msk_to_pin m x = (0, of_nat p)"
    using mask_pin by (intro exI [of _ p]) simp
  with True show ?thesis by simp
next
  case False
  then have "m = 0 \<or> and m (m - 1) \<noteq> 0"
    using one_bit_word by blast
  then have "pin_msk_to_pin m x = (- EACCES, x)"
    by (auto simp: pin_msk_to_pin_def)
  with False show ?thesis by simp
qed

text \<open>C28: Button presses are debounced and never crash. With a GPIO driver that passes each
  callback its own pin's bit, no sequence of interrupts, debounce expiries and iterations of the two
  threads trips an ERR_CHK; the application's callback runs at most once more than the debounce timer
  expired, and only with identifiers of buttons that were pressed, never with the out-of-range
  identifier.\<close>

theorem presses_debounced:
  assumes "wf_board b" and "list_all (masks_ok b) es"
  shows "\<exists>ids s. button_run b es (button_start b cb) = Inr (ids, s)
    \<and> length ids \<le> count_list es Debounce_expiry + 1
    \<and> set ids \<subseteq> map_pin_to_id b ` pressed_pins b es - {PA_BUTTON_ID_COUNT}"
proof -
  have "btn_inv (pressed_pins b es) (button_start b cb)"
    by (simp add: btn_inv_def button_start_simps)
  moreover have "potential (button_start b cb) = 1"
    by (simp add: potential_def in_flight_def button_start_simps)
  ultimately show ?thesis
    using button_run_ok [OF assms(1,2), of "pressed_pins b es" "button_start b cb"] by auto
qed

definition example_buttons :: button_board where
  "example_buttons = \<lparr>btn_pins = [2, 3, 4, 5, 6], pin_play_pause = 4, pin_volume_up = 3,
     pin_volume_down = 2, pin_button_4 = 5, pin_button_5 = 6, sub_queue_size = 1\<rparr>"

lemma example_buttons_wf: "wf_board example_buttons"
  by (simp add: wf_board_def example_buttons_def word_less_nat_alt)

theorem presses_debounced_witness:
  "\<exists>ids s. button_run example_buttons [Isr 8, Isr 16, Publish, Subscriber 0, Debounce_expiry]
       (button_start example_buttons Button_event_handler) = Inr (ids, s)
    \<and> length ids \<le> count_list [Isr 8, Isr 16, Publish, Subscriber 0, Debounce_expiry] Debounce_expiry + 1
    \<and> set ids \<subseteq> map_pin_to_id example_buttons
        ` pressed_pins example_buttons [Isr 8, Isr 16, Publish, Subscriber 0, Debounce_expiry]
        - {PA_BUTTON_ID_COUNT}"
  by (rule presses_debounced [OF example_buttons_wf])
    (simp add: masks_ok_def example_buttons_def)

text \<open>A press reaches the application. With nothing in flight and no debouncing, a press of
  an assigned button, followed by any number of further presses before the debounce timer expires,
  runs the callback exactly once, with the identifier of the first button; after the expiry the
  module is again as before, ready for the next press.\<close>

lemma press_delivered:
  assumes "wf_board b" and "p \<in> set (btn_pins b)" and "set ps \<subseteq> set (btn_pins b)"
    and "map_pin_to_id b (ucast p) \<noteq> PA_BUTTON_ID_COUNT" and "0 < sub_queue_size b"
    and "\<not> debounce_is_ongoing s" and "button_q s = None" and "btn_notified s = 0"
    and "btn_observed s" and "btn_cb s = Some cb"
  shows "\<exists>s'. button_run b (Isr (push_bit (unat p) 1) # map (\<lambda>p. Isr (push_bit (unat p) 1)) ps
             @ [Publish, Subscriber 0, Debounce_expiry]) s
           = Inr ([map_pin_to_id b (ucast p)], s')
    \<and> \<not> debounce_is_ongoing s' \<and> button_q s' = None \<and> btn_notified s' = 0
    \<and> btn_observed s' \<and> btn_cb s' = Some cb"
proof -
  let ?s = "s\<lparr>button_q := Some \<lparr>button_pin = ucast p, button_action = BUTTON_PRESS\<rparr>,
              debounce_is_ongoing := True, debounce_timer := True\<rparr>"
  let ?rest = "[Publish, Subscriber 0, Debounce_expiry]"
  have "button_run b (map (\<lambda>p. Isr (push_bit (unat p) 1)) ps @ ?rest) ?s = button_run b ?rest ?s"
    using assms(3)
    by (induction ps) (auto simp: button_step_def button_isr_ok [OF assms(1)] split: sum.splits)
  moreover have "button_step b (Isr (push_bit (unat p) 1)) s = Inr ([], ?s)"
    using assms by (simp add: button_step_def button_isr_ok)
  moreover have "\<exists>s'. button_run b ?rest ?s = Inr ([map_pin_to_id b (ucast p)], s')
    \<and> \<not> debounce_is_ongoing s' \<and> button_q s' = None \<and> btn_notified s' = 0
    \<and> btn_observed s' \<and> btn_cb s' = Some cb"
    using assms by (simp add: button_step_def button_publish_thread_def button_chan_pub_def
        button_thread_fn_def on_button_debounce_timeout_def Let_def)
  ultimately show ?thesis
    by (auto split: sum.splits)
qed

theorem press_delivered_witness:
  "\<exists>s'. button_run example_buttons (Isr (push_bit (unat (3 :: u8)) 1)
          # map (\<lambda>p. Isr (push_bit (unat p) 1)) [4, 3 :: u8]
             @ [Publish, Subscriber 0, Debounce_expiry]) (button_start example_buttons Button_event_handler)
           = Inr ([map_pin_to_id example_buttons (ucast (3 :: u8))], s')
    \<and> \<not> debounce_is_ongoing s' \<and> button_q s' = None \<and> btn_notified s' = 0
    \<and> btn_observed s' \<and> btn_cb s' = Some Button_event_handler"
  by (rule press_delivered [OF example_buttons_wf])
    (simp_all add: example_buttons_def map_pin_to_id_def button_start_simps)

end
