(* ===== verification/DatapathModel.thy ===== *)
theory DatapathModel
  imports Complex_Main LedModule
begin

text \<open>
  The audio datapath \<open>src/audio/audio_datapath.c\<close> and the I2S driver \<open>src/modules/audio_i2s.c\<close>:
  state and operations. A block is one millisecond of stereo samples; \<open>fifo\<close> is the circular
  array of \<open>FIFO_NUM_BLKS\<close> blocks between the decoder and I2S.

  Build-time configuration and the code outside the repository (codec, tone generator, mixing)
  are the fields of \<open>dp_env\<close>. \<open>None\<close> is undefined behaviour, a failed assertion or a tripped
  \<open>ERR_CHK\<close>. Timestamps are 32-bit words; \<open>int32_t\<close> values are integers with \<open>i32\<close> written out
  where they wrap.
\<close>

section \<open>Configuration and externals\<close>

record audio_frame =
  ref_ts_us :: u32
  data_rx_ts_us :: u32
  frame_data :: "u8 list"
  bad_data :: bool

text \<open>A value of C type \<open>float\<close>: \<open>None\<close> is not-a-number.\<close>

type_synonym c_float = "rat option"

text \<open>
  The build configuration and the calls that leave the module. \<open>e_decode\<close> is one call of
  \<open>sw_codec_decode\<close>: the code, and, if the call sets its outputs, the samples and their size in
  bytes. It is a function of the frame because the codec's state is not this module's; theory
  \<open>AudioSystem\<close> puts the model of \<open>sw_codec_decode\<close> with its state in its place for every frame.
\<close>

record dp_env =
  max_pres_dly_us :: nat
  min_pres_dly_us :: nat
  sample_rate_hz :: nat
  frame_duration_us :: nat
  bit_depth_octets :: nat
  is_headset :: bool
  stream_bidirectional :: bool
  audio_source_i2s :: bool
  presentation_delay_us :: nat
  audio_test_tone :: bool
  sd_card_playback :: bool
  audio_q_max :: nat
  e_gpio :: gpio_driver
  e_board :: led_board
  e_decode :: "audio_frame \<Rightarrow> int \<times> (int list \<times> nat) option"
  e_sd_mix :: "int list \<Rightarrow> nat \<Rightarrow> int list"
  e_tone_gen :: "nat \<Rightarrow> c_float \<Rightarrow> int \<times> int list"
  e_contin :: "nat \<Rightarrow> int list \<Rightarrow> nat \<Rightarrow> int \<times> int list \<times> nat"
  e_pcm_mix :: "int list \<Rightarrow> int list \<Rightarrow> int \<times> int list"
  e_strtof :: "string \<Rightarrow> c_float"

abbreviation (input) BLK_PERIOD_US :: nat where "BLK_PERIOD_US \<equiv> 1000"
abbreviation (input) DRIFT_MEAS_PERIOD_US :: nat where "DRIFT_MEAS_PERIOD_US \<equiv> 100000"
abbreviation (input) DRIFT_COMP_WAITING_CNT :: nat where "DRIFT_COMP_WAITING_CNT \<equiv> 100"
abbreviation (input) DRIFT_ERR_THRESH_LOCK :: int where "DRIFT_ERR_THRESH_LOCK \<equiv> 16"
abbreviation (input) DRIFT_ERR_THRESH_UNLOCK :: int where "DRIFT_ERR_THRESH_UNLOCK \<equiv> 32"
abbreviation (input) APLL_FREQ_MIN :: int where "APLL_FREQ_MIN \<equiv> 36824"
abbreviation (input) APLL_FREQ_CENTER :: int where "APLL_FREQ_CENTER \<equiv> 39846"
abbreviation (input) APLL_FREQ_MAX :: int where "APLL_FREQ_MAX \<equiv> 42868"
abbreviation (input) JUST_IN_TIME_TARGET_DLY_US :: int where "JUST_IN_TIME_TARGET_DLY_US \<equiv> 3000"
abbreviation (input) JUST_IN_TIME_BOUND_US :: int where "JUST_IN_TIME_BOUND_US \<equiv> 2500"
abbreviation (input) LOG_INTERVAL_BLKS :: nat where "LOG_INTERVAL_BLKS \<equiv> 5000"

definition NUM_BLKS :: "nat \<Rightarrow> nat" where
  "NUM_BLKS d = d div BLK_PERIOD_US"

definition FIFO_NUM_BLKS :: "dp_env \<Rightarrow> nat" where
  "FIFO_NUM_BLKS e = NUM_BLKS (max_pres_dly_us e * 2)"

definition NUM_BLKS_IN_FRAME :: "dp_env \<Rightarrow> nat" where
  "NUM_BLKS_IN_FRAME e = NUM_BLKS (frame_duration_us e)"

definition BLK_MONO_NUM_SAMPS :: "dp_env \<Rightarrow> nat" where
  "BLK_MONO_NUM_SAMPS e = sample_rate_hz e * BLK_PERIOD_US div 1000000"

definition BLK_STEREO_NUM_SAMPS :: "dp_env \<Rightarrow> nat" where
  "BLK_STEREO_NUM_SAMPS e = BLK_MONO_NUM_SAMPS e * 2"

definition BLK_STEREO_SIZE_OCTETS :: "dp_env \<Rightarrow> nat" where
  "BLK_STEREO_SIZE_OCTETS e = BLK_MONO_NUM_SAMPS e * bit_depth_octets e * 2"

definition MAX_FIFO_SIZE :: "dp_env \<Rightarrow> nat" where
  "MAX_FIFO_SIZE e = FIFO_NUM_BLKS e * BLK_MONO_NUM_SAMPS e * 2"

definition PRES_COMP_NUM_DATA_PTS :: "dp_env \<Rightarrow> nat" where
  "PRES_COMP_NUM_DATA_PTS e = DRIFT_MEAS_PERIOD_US div frame_duration_us e"

definition SDU_REF_CH_DELTA_MAX_US :: "dp_env \<Rightarrow> nat" where
  "SDU_REF_CH_DELTA_MAX_US e = frame_duration_us e div 1000"

definition NEXT_IDX :: "dp_env \<Rightarrow> nat \<Rightarrow> nat" where
  "NEXT_IDX e i = (if i < FIFO_NUM_BLKS e - 1 then i + 1 else 0)"

definition PREV_IDX :: "dp_env \<Rightarrow> nat \<Rightarrow> nat" where
  "PREV_IDX e i = (if 0 < i then i - 1 else FIFO_NUM_BLKS e - 1)"

section \<open>State\<close>

datatype drift_comp_state =
  DRIFT_STATE_INIT | DRIFT_STATE_CALIB | DRIFT_STATE_OFFSET | DRIFT_STATE_LOCKED

datatype pres_comp_state = PRES_STATE_INIT | PRES_STATE_MEAS | PRES_STATE_WAIT | PRES_STATE_LOCKED

text \<open>What an I2S transmit pointer can point to: a block of the FIFO or an alternate buffer.\<close>

datatype tx_ptr = Tx_null | Tx_fifo nat | Tx_alt0 | Tx_alt1

datatype audio_i2s_state =
  AUDIO_I2S_STATE_UNINIT | AUDIO_I2S_STATE_IDLE | AUDIO_I2S_STATE_STARTED

text \<open>The I2S peripheral: the buffer it plays, and the one it will play next if it is set.\<close>

record i2s_hw =
  i2s_state :: audio_i2s_state
  i2s_cur :: tx_ptr
  i2s_next :: "tx_ptr option"

record ctrl_blk =
  datapath_initialized :: bool
  stream_started :: bool
  decoded_data :: "int list"
  fifo :: "int list"
  prod_blk_idx :: nat
  cons_blk_idx :: nat
  prod_blk_ts :: "u32 list"
  total_blk_underruns :: u32
  prev_drift_sdu_ref_us :: u32
  prev_pres_sdu_ref_us :: u32
  current_pres_dly_us :: u32
  drift_state :: drift_comp_state
  drift_ctr :: u16
  meas_start_time_us :: u32
  center_freq :: u32
  drift_enabled :: bool
  pres_state :: pres_comp_state
  pres_ctr :: u16
  sum_err_dly_us :: int
  pres_delay_us :: u32
  pres_enabled :: bool
  tone_active :: bool
  test_tone :: "int list"
  tone_pos :: nat
  tone_timer :: "nat option"
  tone_stop_work :: bool
  alt_buf_0 :: "int list"
  alt_buf_1 :: "int list"
  buf_0_in_use :: bool
  buf_1_in_use :: bool
  num_calls :: u32
  tx_buf :: tx_ptr
  underrun_condition :: bool
  num_overruns :: u32
  num_overruns_printed :: u32
  audio_q :: "int list list"
  pool_avail :: nat
  jit_print_count :: int
  hfclkaudio :: int
  i2s :: i2s_hw
  leds :: led_state

section \<open>FIFO occupancy and clock error\<close>

definition filled_blocks_get :: "dp_env \<Rightarrow> ctrl_blk \<Rightarrow> nat" where
  "filled_blocks_get e s =
     (if cons_blk_idx s < prod_blk_idx s then prod_blk_idx s - cons_blk_idx s
      else if prod_blk_idx s < cons_blk_idx s
      then (FIFO_NUM_BLKS e - cons_blk_idx s) + prod_blk_idx s
      else 0)"

definition err_us_calculate :: "u32 \<Rightarrow> u32 \<Rightarrow> int" where
  "err_us_calculate sdu_ref_us frame_start_ts_us =
     (let total_err = uint sdu_ref_us - uint frame_start_ts_us;
          err_neg = total_err < 0;
          total_err = (if err_neg then total_err * - 1 else total_err);
          err_us = total_err mod int BLK_PERIOD_US;
          err_us = (if int (BLK_PERIOD_US div 2) < err_us then err_us - int BLK_PERIOD_US else err_us)
      in if err_neg then err_us * - 1 else err_us)"

definition hfclkaudio_set :: "int \<Rightarrow> ctrl_blk \<Rightarrow> ctrl_blk" where
  "hfclkaudio_set freq_value s =
     (let freq_val = wrap_u16 freq_value;
          freq_val = min freq_val APLL_FREQ_MAX;
          freq_val = max freq_val APLL_FREQ_MIN
      in s\<lparr>hfclkaudio := freq_val\<rparr>)"

text \<open>\<open>APLL_FREQ_ADJ(t)\<close>: the product is a signed 32-bit multiplication.\<close>

definition APLL_FREQ_ADJ :: "int \<Rightarrow> int option" where
  "APLL_FREQ_ADJ t =
     (if - (2 ^ 31) \<le> t * 1000 \<and> t * 1000 < 2 ^ 31 then Some (c_div (- (t * 1000)) 331) else None)"

section \<open>Drift compensation\<close>

definition drift_comp_state_set :: "drift_comp_state \<Rightarrow> ctrl_blk \<Rightarrow> ctrl_blk" where
  "drift_comp_state_set new_state s =
     (if new_state = drift_state s then s else s\<lparr>drift_state := new_state\<rparr>)"

text \<open>The common part of OFFSET and LOCKED: the halved error and the state with the clock adjusted.\<close>

definition drift_regulate :: "u32 \<Rightarrow> ctrl_blk \<Rightarrow> (int \<times> ctrl_blk) option" where
  "drift_regulate frame_start_ts_us s = do {
     let s = s\<lparr>drift_ctr := 0\<rparr>;
     let err_us = c_div (err_us_calculate (prev_drift_sdu_ref_us s) frame_start_ts_us) 2;
     freq_adj \<leftarrow> APLL_FREQ_ADJ err_us;
     Some (err_us, hfclkaudio_set (uint (center_freq s) + freq_adj) s) }"

definition audio_datapath_drift_compensation :: "dp_env \<Rightarrow> u32 \<Rightarrow> ctrl_blk \<Rightarrow> ctrl_blk option" where
  "audio_datapath_drift_compensation e frame_start_ts_us s =
     (let s = (if is_headset e then s\<lparr>prev_drift_sdu_ref_us := prev_pres_sdu_ref_us s\<rparr> else s);
          waiting = unat (drift_ctr s + 1) < DRIFT_COMP_WAITING_CNT
      in case drift_state s of
        DRIFT_STATE_INIT \<Rightarrow>
          (if prev_drift_sdu_ref_us s \<noteq> 0
           then Some (drift_comp_state_set DRIFT_STATE_CALIB
                        (s\<lparr>meas_start_time_us := prev_drift_sdu_ref_us s\<rparr>))
           else Some s)
      | DRIFT_STATE_CALIB \<Rightarrow>
          (if waiting then Some (s\<lparr>drift_ctr := drift_ctr s + 1\<rparr>)
           else do {
             let s = s\<lparr>drift_ctr := 0\<rparr>;
             let err_us = sint (of_nat DRIFT_MEAS_PERIOD_US
                              - (prev_drift_sdu_ref_us s - meas_start_time_us s) :: u32);
             freq_adj \<leftarrow> APLL_FREQ_ADJ err_us;
             let s = s\<lparr>center_freq := of_int (APLL_FREQ_CENTER + freq_adj)\<rparr>;
             if APLL_FREQ_MAX < uint (center_freq s) \<or> uint (center_freq s) < APLL_FREQ_MIN
             then Some (drift_comp_state_set DRIFT_STATE_INIT s)
             else Some (drift_comp_state_set DRIFT_STATE_OFFSET
                          (hfclkaudio_set (uint (center_freq s)) s)) })
      | DRIFT_STATE_OFFSET \<Rightarrow>
          (if waiting then Some (s\<lparr>drift_ctr := drift_ctr s + 1\<rparr>)
           else do {
             (err_us, s) \<leftarrow> drift_regulate frame_start_ts_us s;
             Some (if err_us < DRIFT_ERR_THRESH_LOCK \<and> - DRIFT_ERR_THRESH_LOCK < err_us
                   then drift_comp_state_set DRIFT_STATE_LOCKED s else s) })
      | DRIFT_STATE_LOCKED \<Rightarrow>
          (if waiting then Some (s\<lparr>drift_ctr := drift_ctr s + 1\<rparr>)
           else do {
             (err_us, s) \<leftarrow> drift_regulate frame_start_ts_us s;
             Some (if DRIFT_ERR_THRESH_UNLOCK < err_us \<or> err_us < - DRIFT_ERR_THRESH_UNLOCK
                   then drift_comp_state_set DRIFT_STATE_INIT s else s) }))"

section \<open>Presentation compensation\<close>

text \<open>A change of state switches the sync LED, through the LED module.\<close>

definition pres_comp_state_set :: "dp_env \<Rightarrow> pres_comp_state \<Rightarrow> ctrl_blk \<Rightarrow> ctrl_blk option" where
  "pres_comp_state_set e new_state s =
     (if new_state = pres_state s then Some s
      else do {
        let s = s\<lparr>pres_state := new_state\<rparr>;
        (ret, l) \<leftarrow> (if new_state = PRES_STATE_LOCKED
                    then led_on (e_gpio e) (led_audio_sync_status (e_board e)) [] (leds s)
                    else led_off (e_gpio e) (led_audio_sync_status (e_board e)) (leds s));
        err_chk ret;
        Some (s\<lparr>leds := l\<rparr>) })"

text \<open>One iteration per remaining block: mute it and stamp it \<open>k\<close> periods before \<open>recv\<close>.\<close>

fun pres_insert :: "dp_env \<Rightarrow> u32 \<Rightarrow> nat \<Rightarrow> ctrl_blk \<Rightarrow> ctrl_blk option" where
  "pres_insert e recv 0 s = Some s"
| "pres_insert e recv (Suc k) s = do {
     f \<leftarrow> wr_range (fifo s) (prod_blk_idx s * BLK_STEREO_NUM_SAMPS e)
            (replicate (BLK_STEREO_NUM_SAMPS e) 0);
     ts \<leftarrow> wr (prod_blk_ts s) (prod_blk_idx s) (recv - of_nat (Suc k * BLK_PERIOD_US));
     pres_insert e recv k
       (s\<lparr>fifo := f, prod_blk_ts := ts, prod_blk_idx := NEXT_IDX e (prod_blk_idx s)\<rparr>) }"

definition pres_remove :: "dp_env \<Rightarrow> nat \<Rightarrow> ctrl_blk \<Rightarrow> ctrl_blk" where
  "pres_remove e k s = s\<lparr>prod_blk_idx := (PREV_IDX e ^^ k) (prod_blk_idx s)\<rparr>"

text \<open>The adjustment in blocks for a mean error of \<open>pres_adj_us\<close>: the nearest whole number, limited.\<close>

definition pres_adj_blks :: "dp_env \<Rightarrow> int \<Rightarrow> int" where
  "pres_adj_blks e pres_adj_us =
     (let adj = (if 0 \<le> pres_adj_us then pres_adj_us + int (BLK_PERIOD_US div 2)
                 else pres_adj_us - int (BLK_PERIOD_US div 2));
          blks = c_div adj (int BLK_PERIOD_US)
      in if int (FIFO_NUM_BLKS e div 2) < blks then int (FIFO_NUM_BLKS e div 2)
         else if blks < - int (FIFO_NUM_BLKS e div 2) then - int (FIFO_NUM_BLKS e div 2)
         else blks)"

text \<open>The switch on the state: the error to correct in microseconds, and the new state.\<close>

definition pres_comp_switch :: "dp_env \<Rightarrow> int \<Rightarrow> ctrl_blk \<Rightarrow> (int \<times> ctrl_blk) option" where
  "pres_comp_switch e wanted_pres_dly_us s = (case pres_state s of
     PRES_STATE_INIT \<Rightarrow> do {
       s \<leftarrow> pres_comp_state_set e PRES_STATE_MEAS (s\<lparr>pres_ctr := 0, sum_err_dly_us := 0\<rparr>);
       Some (0, s) }
   | PRES_STATE_MEAS \<Rightarrow>
       (if unat (pres_ctr s) < PRES_COMP_NUM_DATA_PTS e
        then Some (0, s\<lparr>pres_ctr := pres_ctr s + 1,
               sum_err_dly_us := i32 (sum_err_dly_us s
                                        + (wanted_pres_dly_us - uint (current_pres_dly_us s)))\<rparr>)
        else do {
          let s = s\<lparr>pres_ctr := 0\<rparr>;
          let adj = c_div (sum_err_dly_us s) (int (PRES_COMP_NUM_DATA_PTS e));
          s \<leftarrow> pres_comp_state_set e
                 (if int (BLK_PERIOD_US div 2) \<le> adj \<or> adj \<le> - int (BLK_PERIOD_US div 2)
                  then PRES_STATE_WAIT else PRES_STATE_LOCKED) s;
          Some (adj, s) })
   | PRES_STATE_WAIT \<Rightarrow> do {
       let ctr = pres_ctr s;
       let s = s\<lparr>pres_ctr := ctr + 1\<rparr>;
       s \<leftarrow> (if max_pres_dly_us e * 2 div frame_duration_us e < unat ctr
             then pres_comp_state_set e PRES_STATE_INIT s else Some s);
       Some (0, s) }
   | PRES_STATE_LOCKED \<Rightarrow> Some (0, s))"

definition audio_datapath_presentation_compensation ::
  "dp_env \<Rightarrow> u32 \<Rightarrow> u32 \<Rightarrow> bool \<Rightarrow> ctrl_blk \<Rightarrow> ctrl_blk option" where
  "audio_datapath_presentation_compensation e recv_frame_ts_us sdu_ref_us sdu_ref_not_consecutive s =
     (if drift_state s \<noteq> DRIFT_STATE_LOCKED then pres_comp_state_set e PRES_STATE_INIT s
      else do {
        s \<leftarrow> (if sdu_ref_not_consecutive
              then pres_comp_state_set e PRES_STATE_WAIT (s\<lparr>pres_ctr := 0\<rparr>) else Some s);
        let wanted_pres_dly_us = sint (pres_delay_us s - (recv_frame_ts_us - sdu_ref_us));
        (pres_adj_us, s) \<leftarrow> pres_comp_switch e wanted_pres_dly_us s;
        if pres_adj_us = 0 then Some s
        else let blks = pres_adj_blks e pres_adj_us in
          if 0 < blks then pres_insert e recv_frame_ts_us (nat blks) s
          else if blks < 0 then Some (pres_remove e (nat (- blks)) s)
          else Some s })"

section \<open>Test tone\<close>

definition tone_stop_worker :: "ctrl_blk \<Rightarrow> ctrl_blk" where
  "tone_stop_worker s =
     s\<lparr>tone_active := False, test_tone := replicate (length (test_tone s)) 0, tone_stop_work := False\<rparr>"

definition tone_stop_timer_handler :: "ctrl_blk \<Rightarrow> ctrl_blk" where
  "tone_stop_timer_handler s = s\<lparr>tone_timer := None, tone_stop_work := True\<rparr>"

definition audio_datapath_tone_play ::
  "dp_env \<Rightarrow> nat \<Rightarrow> nat \<Rightarrow> c_float \<Rightarrow> ctrl_blk \<Rightarrow> int \<times> ctrl_blk" where
  "audio_datapath_tone_play e freq dur_ms amplitude s =
     (if tone_active s then (- EBUSY, s)
      else if audio_test_tone e then
        (case e_tone_gen e freq amplitude of (ret, samples) \<Rightarrow>
           let s = s\<lparr>test_tone := samples\<rparr> in
           if ret \<noteq> 0 then (ret, s)
           else (0, s\<lparr>tone_timer := (if dur_ms \<noteq> 0 then Some dur_ms else tone_timer s),
                      tone_active := True\<rparr>))
      else (- ENXIO, s))"

definition audio_datapath_tone_stop :: "ctrl_blk \<Rightarrow> ctrl_blk" where
  "audio_datapath_tone_stop s = s\<lparr>tone_timer := None, tone_stop_work := True\<rparr>"

section \<open>Transmit buffers\<close>

definition tx_read :: "dp_env \<Rightarrow> tx_ptr \<Rightarrow> ctrl_blk \<Rightarrow> int list option" where
  "tx_read e p s = (case p of
     Tx_null \<Rightarrow> None
   | Tx_fifo i \<Rightarrow> rd_range (fifo s) (i * BLK_STEREO_NUM_SAMPS e) (BLK_STEREO_NUM_SAMPS e)
   | Tx_alt0 \<Rightarrow> Some (alt_buf_0 s) | Tx_alt1 \<Rightarrow> Some (alt_buf_1 s))"

definition tx_write :: "dp_env \<Rightarrow> tx_ptr \<Rightarrow> int list \<Rightarrow> ctrl_blk \<Rightarrow> ctrl_blk option" where
  "tx_write e p b s = (case p of
     Tx_null \<Rightarrow> None
   | Tx_fifo i \<Rightarrow> do { f \<leftarrow> wr_range (fifo s) (i * BLK_STEREO_NUM_SAMPS e) b; Some (s\<lparr>fifo := f\<rparr>) }
   | Tx_alt0 \<Rightarrow> Some (s\<lparr>alt_buf_0 := b\<rparr>) | Tx_alt1 \<Rightarrow> Some (s\<lparr>alt_buf_1 := b\<rparr>))"

definition tone_mix :: "dp_env \<Rightarrow> tx_ptr \<Rightarrow> ctrl_blk \<Rightarrow> ctrl_blk option" where
  "tone_mix e p s = do {
     let (ret, tone_buf, pos) = e_contin e (BLK_MONO_NUM_SAMPS e) (test_tone s) (tone_pos s);
     err_chk ret;
     let s = s\<lparr>tone_pos := pos\<rparr>;
     b \<leftarrow> tx_read e p s;
     let (ret, mixed) = e_pcm_mix e b tone_buf;
     err_chk ret;
     tx_write e p mixed s }"

definition alt_buffer_get :: "ctrl_blk \<Rightarrow> int \<times> tx_ptr \<times> ctrl_blk" where
  "alt_buffer_get s =
     (if \<not> buf_0_in_use s then (0, Tx_alt0, s\<lparr>buf_0_in_use := True\<rparr>)
      else if \<not> buf_1_in_use s then (0, Tx_alt1, s\<lparr>buf_1_in_use := True\<rparr>)
      else (- ENOMEM, tx_buf s, s))"

definition alt_buffer_free :: "tx_ptr \<Rightarrow> ctrl_blk \<Rightarrow> ctrl_blk" where
  "alt_buffer_free p s =
     (if p = Tx_alt0 then s\<lparr>buf_0_in_use := False\<rparr>
      else if p = Tx_alt1 then s\<lparr>buf_1_in_use := False\<rparr> else s)"

definition alt_buffer_free_both :: "ctrl_blk \<Rightarrow> ctrl_blk" where
  "alt_buffer_free_both s = s\<lparr>buf_0_in_use := False, buf_1_in_use := False\<rparr>"

section \<open>The I2S driver\<close>

definition tx_on :: "dp_env \<Rightarrow> bool" where
  "tx_on e \<longleftrightarrow> stream_bidirectional e \<or> is_headset e"

definition rx_on :: "dp_env \<Rightarrow> bool" where
  "rx_on e \<longleftrightarrow> stream_bidirectional e \<or> \<not> is_headset e"

text \<open>\<open>rx\<close> tells whether the receive pointer is not \<open>NULL\<close>.\<close>

definition audio_i2s_set_next_buf :: "dp_env \<Rightarrow> tx_ptr \<Rightarrow> bool \<Rightarrow> i2s_hw \<Rightarrow> i2s_hw option" where
  "audio_i2s_set_next_buf e tx rx h = do {
     assert_ok (i2s_state h = AUDIO_I2S_STATE_STARTED);
     assert_ok (rx_on e \<longrightarrow> rx);
     assert_ok (tx_on e \<longrightarrow> tx \<noteq> Tx_null);
     Some (h\<lparr>i2s_next := Some tx\<rparr>) }"

definition audio_i2s_start :: "dp_env \<Rightarrow> tx_ptr \<Rightarrow> bool \<Rightarrow> i2s_hw \<Rightarrow> i2s_hw option" where
  "audio_i2s_start e tx rx h = do {
     assert_ok (i2s_state h = AUDIO_I2S_STATE_IDLE);
     assert_ok (rx_on e \<longrightarrow> rx);
     assert_ok (tx_on e \<longrightarrow> tx \<noteq> Tx_null);
     Some (h\<lparr>i2s_cur := tx, i2s_next := None, i2s_state := AUDIO_I2S_STATE_STARTED\<rparr>) }"

definition audio_i2s_stop :: "i2s_hw \<Rightarrow> i2s_hw option" where
  "audio_i2s_stop h = do {
     assert_ok (i2s_state h = AUDIO_I2S_STATE_STARTED);
     Some (h\<lparr>i2s_state := AUDIO_I2S_STATE_IDLE\<rparr>) }"

definition audio_i2s_init :: "ctrl_blk \<Rightarrow> ctrl_blk option" where
  "audio_i2s_init s = do {
     assert_ok (i2s_state (i2s s) = AUDIO_I2S_STATE_UNINIT);
     Some (s\<lparr>hfclkaudio := APLL_FREQ_CENTER, i2s := (i2s s)\<lparr>i2s_state := AUDIO_I2S_STATE_IDLE\<rparr>\<rparr>) }"

section \<open>Block completion\<close>

text \<open>
  The next transmit buffer: the next block of the FIFO, or a muted alternate buffer in under-run.
  \<open>streaming\<close> is \<open>stream_state_get() == STATE_STREAMING\<close>.
\<close>

definition tx_next :: "dp_env \<Rightarrow> bool \<Rightarrow> ctrl_blk \<Rightarrow> ctrl_blk option" where
  "tx_next e streaming s =
     (let next_out_blk_idx = NEXT_IDX e (cons_blk_idx s) in
      if next_out_blk_idx \<noteq> prod_blk_idx s
      then Some (s\<lparr>cons_blk_idx := next_out_blk_idx, underrun_condition := False,
                   tx_buf := Tx_fifo next_out_blk_idx\<rparr>)
      else do {
        let s = (if streaming
                 then s\<lparr>underrun_condition := True,
                        total_blk_underruns := total_blk_underruns s + 1\<rparr> else s);
        let (ret, p, s) = alt_buffer_get s;
        err_chk ret;
        tx_write e p (replicate (BLK_STEREO_NUM_SAMPS e) 0) (s\<lparr>tx_buf := p\<rparr>) })"

text \<open>The transmit half.\<close>

definition i2s_tx :: "dp_env \<Rightarrow> bool \<Rightarrow> tx_ptr \<Rightarrow> ctrl_blk \<Rightarrow> ctrl_blk option" where
  "i2s_tx e streaming tx_buf_released s = do {
     assert_ok (tx_buf_released \<noteq> Tx_null);
     s \<leftarrow> tx_next e streaming s;
     if tone_active s then tone_mix e (tx_buf s) s else Some s }"

text \<open>
  The receive half. \<open>audio_q\<close> holds the buffers queued for the encoder, at most \<open>audio_q_max\<close>;
  \<open>pool_avail\<close> counts the free buffers of \<open>pool_i2s_rx\<close>.
\<close>

definition i2s_rx :: "dp_env \<Rightarrow> int list option \<Rightarrow> ctrl_blk \<Rightarrow> ctrl_blk option" where
  "i2s_rx e rx_buf_released s = do {
     blk \<leftarrow> rx_buf_released;
     s \<leftarrow> (if audio_q_max e \<le> length (audio_q s) \<or> pool_avail s = 0
           then (case audio_q s of
                   [] \<Rightarrow> None
                 | stale # q \<Rightarrow> Some (s\<lparr>num_overruns := num_overruns s + 1, audio_q := q,
                                       pool_avail := pool_avail s + 1\<rparr>))
           else Some s);
     let s = (if unat (num_calls s) mod LOG_INTERVAL_BLKS = 0
                 \<and> num_overruns s \<noteq> num_overruns_printed s
              then s\<lparr>num_overruns_printed := num_overruns s\<rparr> else s);
     assert_ok (0 < pool_avail s);
     let s = s\<lparr>pool_avail := pool_avail s - 1\<rparr>;
     assert_ok (length (audio_q s) < audio_q_max e);
     Some (s\<lparr>audio_q := audio_q s @ [blk]\<rparr>) }"

definition audio_datapath_i2s_blk_complete ::
  "dp_env \<Rightarrow> bool \<Rightarrow> u32 \<Rightarrow> int list option \<Rightarrow> tx_ptr \<Rightarrow> ctrl_blk \<Rightarrow> ctrl_blk option" where
  "audio_datapath_i2s_blk_complete e streaming frame_start_ts_us rx_buf_released tx_buf_released s = do {
     let s = alt_buffer_free tx_buf_released (s\<lparr>num_calls := num_calls s + 1\<rparr>);
     ts \<leftarrow> rd (prod_blk_ts s) (cons_blk_idx s);
     let s = s\<lparr>current_pres_dly_us := frame_start_ts_us - ts\<rparr>;
     s \<leftarrow> (if tx_on e then i2s_tx e streaming tx_buf_released s else Some s);
     s \<leftarrow> (if rx_on e then i2s_rx e rx_buf_released s else Some s);
     h \<leftarrow> audio_i2s_set_next_buf e (tx_buf s) (rx_buf_released \<noteq> None) (i2s s);
     let s = s\<lparr>i2s := h\<rparr>;
     if drift_enabled s then audio_datapath_drift_compensation e frame_start_ts_us s else Some s }"

text \<open>
  The interrupt: the peripheral has played its current buffer, goes on with the next one and asks
  for another; the driver's handler calls the datapath with the released buffers.
\<close>

definition i2s_comp_handler ::
  "dp_env \<Rightarrow> bool \<Rightarrow> u32 \<Rightarrow> int list option \<Rightarrow> ctrl_blk \<Rightarrow> ctrl_blk option" where
  "i2s_comp_handler e streaming ts rx s = do {
     nxt \<leftarrow> i2s_next (i2s s);
     let released = i2s_cur (i2s s);
     let s = s\<lparr>i2s := (i2s s)\<lparr>i2s_cur := nxt, i2s_next := None\<rparr>\<rparr>;
     if rx = None \<and> released = Tx_null then Some s
     else audio_datapath_i2s_blk_complete e streaming ts rx released s }"

definition audio_datapath_i2s_start :: "dp_env \<Rightarrow> ctrl_blk \<Rightarrow> ctrl_blk option" where
  "audio_datapath_i2s_start e s = do {
     let idx_0 = PREV_IDX e (cons_blk_idx s);
     let idx_1 = PREV_IDX e idx_0;
     let (tx_0, tx_1, s) = (if tx_on e then (Tx_fifo idx_0, Tx_fifo idx_1, s\<lparr>cons_blk_idx := idx_1\<rparr>)
                            else (Tx_null, Tx_null, s));
     h \<leftarrow> audio_i2s_start e tx_0 True (i2s s);
     h \<leftarrow> audio_i2s_set_next_buf e tx_1 True h;
     Some (s\<lparr>i2s := h\<rparr>) }"

definition audio_datapath_i2s_stop :: "ctrl_blk \<Rightarrow> ctrl_blk option" where
  "audio_datapath_i2s_stop s = do {
     h \<leftarrow> audio_i2s_stop (i2s s);
     Some (alt_buffer_free_both (s\<lparr>i2s := h\<rparr>)) }"

section \<open>Timing against the controller\<close>

text \<open>\<open>audio_system_fifo_rx_block_drop\<close> of \<open>src/audio/audio_system.c\<close>.\<close>

definition audio_system_fifo_rx_block_drop :: "ctrl_blk \<Rightarrow> int \<times> ctrl_blk" where
  "audio_system_fifo_rx_block_drop s = (case audio_q s of
     [] \<Rightarrow> (- ECANCELED, s) | b # q \<Rightarrow> (0, s\<lparr>audio_q := q, pool_avail := pool_avail s + 1\<rparr>))"

definition jit_diff :: "u32 \<Rightarrow> u32 \<Rightarrow> int" where
  "jit_diff tx_sync_ts_us curr_ts_us =
     (let diff = uint tx_sync_ts_us - uint curr_ts_us
      in if diff < - ((2 ^ 32 - 1) div 2) then diff + (2 ^ 32 - 1) else diff)"

definition audio_datapath_just_in_time_check_and_adjust :: "u32 \<Rightarrow> u32 \<Rightarrow> ctrl_blk \<Rightarrow> ctrl_blk" where
  "audio_datapath_just_in_time_check_and_adjust tx_sync_ts_us curr_ts_us s =
     (let diff = jit_diff tx_sync_ts_us curr_ts_us;
          s = s\<lparr>jit_print_count := i32 (jit_print_count s + 1)\<rparr>
      in if diff < JUST_IN_TIME_TARGET_DLY_US - JUST_IN_TIME_BOUND_US
            \<or> JUST_IN_TIME_TARGET_DLY_US + JUST_IN_TIME_BOUND_US < diff
         then (case audio_system_fifo_rx_block_drop s of (ret, s) \<Rightarrow>
                 if ret \<noteq> 0 then s else s\<lparr>jit_print_count := 0\<rparr>)
         else s)"

record sdu_ref_msg =
  tx_sync_ts_us :: u32
  curr_ts_us :: u32
  adjust :: bool

definition audio_datapath_sdu_ref_update :: "dp_env \<Rightarrow> sdu_ref_msg \<Rightarrow> ctrl_blk \<Rightarrow> ctrl_blk" where
  "audio_datapath_sdu_ref_update e msg s =
     (if audio_source_i2s e \<and> stream_started s then
        let s = s\<lparr>prev_drift_sdu_ref_us := tx_sync_ts_us msg\<rparr> in
        if adjust msg \<and> tx_sync_ts_us msg \<noteq> 0
        then audio_datapath_just_in_time_check_and_adjust (tx_sync_ts_us msg) (curr_ts_us msg) s
        else s
      else s)"

definition audio_datapath_pres_delay_us_set :: "dp_env \<Rightarrow> u32 \<Rightarrow> ctrl_blk \<Rightarrow> int \<times> ctrl_blk" where
  "audio_datapath_pres_delay_us_set e delay_us s =
     (if \<not> (min_pres_dly_us e \<le> unat delay_us \<and> unat delay_us \<le> max_pres_dly_us e)
      then (- EINVAL, s) else (0, s\<lparr>pres_delay_us := delay_us\<rparr>))"

definition audio_datapath_pres_delay_us_get :: "ctrl_blk \<Rightarrow> u32" where
  "audio_datapath_pres_delay_us_get s = pres_delay_us s"

section \<open>Decoded audio into the FIFO\<close>

text \<open>The copy loop: block \<open>i\<close> of the frame to the block \<open>out_blk_idx\<close> of the FIFO.\<close>

fun stream_out_loop ::
  "dp_env \<Rightarrow> u32 \<Rightarrow> nat \<Rightarrow> nat \<Rightarrow> nat \<Rightarrow> ctrl_blk \<Rightarrow> (nat \<times> ctrl_blk) option" where
  "stream_out_loop e rx_ts i 0 out_blk_idx s = Some (out_blk_idx, s)"
| "stream_out_loop e rx_ts i (Suc k) out_blk_idx s = do {
     b \<leftarrow> rd_range (decoded_data s) (i * BLK_STEREO_NUM_SAMPS e) (BLK_STEREO_NUM_SAMPS e);
     f \<leftarrow> wr_range (fifo s) (out_blk_idx * BLK_STEREO_NUM_SAMPS e) b;
     ts \<leftarrow> wr (prod_blk_ts s) out_blk_idx (rx_ts + of_nat (i * BLK_PERIOD_US));
     stream_out_loop e rx_ts (Suc i) k (NEXT_IDX e out_blk_idx) (s\<lparr>fifo := f, prod_blk_ts := ts\<rparr>) }"

text \<open>The decoded frame is added to the FIFO, unless the occupancy forbids it.\<close>

definition fifo_put :: "dp_env \<Rightarrow> u32 \<Rightarrow> ctrl_blk \<Rightarrow> ctrl_blk option" where
  "fifo_put e rx_ts s =
     (if FIFO_NUM_BLKS e < filled_blocks_get e s + NUM_BLKS_IN_FRAME e then Some s
      else do {
        (idx, s) \<leftarrow> stream_out_loop e rx_ts 0 (NUM_BLKS_IN_FRAME e) (prod_blk_idx s) s;
        Some (s\<lparr>prod_blk_idx := idx\<rparr>) })"

text \<open>The reference time of the frame: the value used, and whether the frame is not consecutive.\<close>

definition sdu_ref_check :: "dp_env \<Rightarrow> u32 \<Rightarrow> u32 \<Rightarrow> u32 \<times> bool" where
  "sdu_ref_check e prev ref =
     (if prev \<noteq> 0 then
        let delta = unat (ref - prev) in
        if delta < frame_duration_us e + frame_duration_us e div 2 then
          if frame_duration_us e + SDU_REF_CH_DELTA_MAX_US e < delta
             \<or> delta < frame_duration_us e - SDU_REF_CH_DELTA_MAX_US e
          then (prev + of_nat (frame_duration_us e), False)
          else (ref, False)
        else (ref, True)
      else (ref, False))"

text \<open>
  A frame for which the decoder reports an error without setting its outputs leaves \<open>pcm_size\<close>
  uninitialised: reading it is undefined. \<open>None\<close> as the frame is a \<open>NULL\<close> pointer.
\<close>

definition audio_datapath_stream_out :: "dp_env \<Rightarrow> audio_frame option \<Rightarrow> ctrl_blk \<Rightarrow> ctrl_blk option" where
  "audio_datapath_stream_out e audio_frame s =
     (if \<not> stream_started s then Some s
      else do {
        frame \<leftarrow> audio_frame;
        if ref_ts_us frame = prev_pres_sdu_ref_us s \<and> ref_ts_us frame \<noteq> 0 then Some s
        else do {
          let (ref, not_consecutive) = sdu_ref_check e (prev_pres_sdu_ref_us s) (ref_ts_us frame);
          let s = s\<lparr>prev_pres_sdu_ref_us := ref\<rparr>;
          s \<leftarrow> (if pres_enabled s
                then audio_datapath_presentation_compensation e (data_rx_ts_us frame) ref
                       not_consecutive s
                else Some s);
          (pcm, pcm_size) \<leftarrow> snd (e_decode e (frame\<lparr>ref_ts_us := ref\<rparr>));
          let pcm = (if sd_card_playback e then e_sd_mix e pcm pcm_size else pcm);
          let s = s\<lparr>decoded_data := pcm\<rparr>;
          if pcm_size \<noteq> BLK_STEREO_SIZE_OCTETS e * NUM_BLKS_IN_FRAME e then Some s
          else fifo_put e (data_rx_ts_us frame) s } })"

section \<open>Start, stop, initialisation\<close>

text \<open>\<open>q\<close> is the content of the queue passed in.\<close>

definition audio_datapath_start :: "dp_env \<Rightarrow> int list list \<Rightarrow> ctrl_blk \<Rightarrow> (int \<times> ctrl_blk) option" where
  "audio_datapath_start e q s =
     (if \<not> datapath_initialized s then Some (- ECANCELED, s)
      else if \<not> stream_started s then do {
        let s = s\<lparr>audio_q := q, fifo := replicate (MAX_FIFO_SIZE e) 0, prod_blk_idx := 0,
                  cons_blk_idx := 0, prod_blk_ts := replicate (FIFO_NUM_BLKS e) 0,
                  total_blk_underruns := 0\<rparr>;
        s \<leftarrow> audio_datapath_i2s_start e s;
        Some (0, s\<lparr>stream_started := True\<rparr>) }
      else Some (- EALREADY, s))"

definition audio_datapath_stop :: "dp_env \<Rightarrow> ctrl_blk \<Rightarrow> (int \<times> ctrl_blk) option" where
  "audio_datapath_stop e s =
     (if stream_started s then do {
        s \<leftarrow> audio_datapath_i2s_stop (s\<lparr>stream_started := False\<rparr>);
        s \<leftarrow> pres_comp_state_set e PRES_STATE_INIT
               (s\<lparr>prev_pres_sdu_ref_us := 0, prev_drift_sdu_ref_us := 0\<rparr>);
        Some (0, s) }
      else Some (- EALREADY, s))"

definition audio_datapath_init :: "dp_env \<Rightarrow> ctrl_blk \<Rightarrow> (int \<times> ctrl_blk) option" where
  "audio_datapath_init e s = do {
     let s = s\<lparr>datapath_initialized := False, stream_started := False, decoded_data := [],
               fifo := replicate (MAX_FIFO_SIZE e) 0, prod_blk_idx := 0, cons_blk_idx := 0,
               prod_blk_ts := replicate (FIFO_NUM_BLKS e) 0, total_blk_underruns := 0,
               prev_drift_sdu_ref_us := 0, prev_pres_sdu_ref_us := 0, current_pres_dly_us := 0,
               drift_state := DRIFT_STATE_INIT, drift_ctr := 0, meas_start_time_us := 0,
               center_freq := 0, drift_enabled := False, pres_state := PRES_STATE_INIT,
               pres_ctr := 0, sum_err_dly_us := 0, pres_delay_us := 0, pres_enabled := False,
               audio_q := []\<rparr>;
     s \<leftarrow> audio_i2s_init s;
     Some (0, s\<lparr>datapath_initialized := True, drift_enabled := True,
                pres_enabled := \<not> (stream_bidirectional e \<and> \<not> is_headset e),
                pres_delay_us := of_nat (presentation_delay_us e)\<rparr>) }"

text \<open>The memory of the module before \<open>main\<close>: zeroed statics.\<close>

definition dp_boot :: "dp_env \<Rightarrow> led_state \<Rightarrow> ctrl_blk" where
  "dp_boot e l = \<lparr>datapath_initialized = False, stream_started = False, decoded_data = [],
     fifo = replicate (MAX_FIFO_SIZE e) 0, prod_blk_idx = 0, cons_blk_idx = 0,
     prod_blk_ts = replicate (FIFO_NUM_BLKS e) 0, total_blk_underruns = 0,
     prev_drift_sdu_ref_us = 0, prev_pres_sdu_ref_us = 0, current_pres_dly_us = 0,
     drift_state = DRIFT_STATE_INIT, drift_ctr = 0, meas_start_time_us = 0, center_freq = 0,
     drift_enabled = False, pres_state = PRES_STATE_INIT, pres_ctr = 0, sum_err_dly_us = 0,
     pres_delay_us = 0, pres_enabled = False, tone_active = False,
     test_tone = [], tone_pos = 0, tone_timer = None, tone_stop_work = False,
     alt_buf_0 = replicate (BLK_STEREO_NUM_SAMPS e) 0, alt_buf_1 = replicate (BLK_STEREO_NUM_SAMPS e) 0,
     buf_0_in_use = False, buf_1_in_use = False, num_calls = 0, tx_buf = Tx_null,
     underrun_condition = False, num_overruns = 0, num_overruns_printed = 0, audio_q = [],
     pool_avail = FIFO_NUM_BLKS e, jit_print_count = 0, hfclkaudio = 0,
     i2s = \<lparr>i2s_state = AUDIO_I2S_STATE_UNINIT, i2s_cur = Tx_null, i2s_next = None\<rparr>, leds = l\<rparr>"

section \<open>Shell commands\<close>

definition bad_amplitude :: "c_float \<Rightarrow> bool" where
  "bad_amplitude a = (case a of None \<Rightarrow> False | Some q \<Rightarrow> q \<le> 0 \<or> 1 < q)"

text \<open>
  \<open>preempts\<close> tells whether the work queue runs the stop work item, submitted by the command's own
  \<open>tone_stop\<close>, before the command goes on.
\<close>

definition cmd_i2s_tone_play :: "dp_env \<Rightarrow> bool \<Rightarrow> string list \<Rightarrow> ctrl_blk \<Rightarrow> int \<times> ctrl_blk" where
  "cmd_i2s_tone_play e preempts argv s =
     (if length argv \<noteq> 4 then (- EINVAL, s)
      else if argv ! 1 = [] \<or> \<not> is_digit (hd (argv ! 1)) then (- EINVAL, s)
      else if argv ! 2 = [] \<or> \<not> is_digit (hd (argv ! 2)) then (- EINVAL, s)
      else
        let freq = strtoul (argv ! 1) mod 2 ^ 16;
            dur_ms = strtoul (argv ! 2) mod 2 ^ 16;
            amplitude = e_strtof e (argv ! 3)
        in if bad_amplitude amplitude then (- EINVAL, s)
           else case audio_datapath_tone_play e freq dur_ms amplitude s of (ret, s) \<Rightarrow>
             if ret = - EBUSY
             then let s = audio_datapath_tone_stop s;
                      s = (if preempts then tone_stop_worker s else s)
                  in audio_datapath_tone_play e freq dur_ms amplitude s
             else (ret, s))"

definition cmd_i2s_tone_stop :: "ctrl_blk \<Rightarrow> int \<times> ctrl_blk" where
  "cmd_i2s_tone_stop s = (0, audio_datapath_tone_stop s)"

definition cmd_hfclkaudio_drift_comp_enable :: "ctrl_blk \<Rightarrow> int \<times> ctrl_blk" where
  "cmd_hfclkaudio_drift_comp_enable s = (0, s\<lparr>drift_enabled := True\<rparr>)"

definition cmd_hfclkaudio_drift_comp_disable :: "ctrl_blk \<Rightarrow> int \<times> ctrl_blk" where
  "cmd_hfclkaudio_drift_comp_disable s =
     (0, if pres_enabled s then s
         else drift_comp_state_set DRIFT_STATE_INIT (s\<lparr>drift_enabled := False, drift_ctr := 0\<rparr>))"

definition cmd_audio_pres_comp_enable :: "ctrl_blk \<Rightarrow> int \<times> ctrl_blk" where
  "cmd_audio_pres_comp_enable s = (0, if drift_enabled s then s\<lparr>pres_enabled := True\<rparr> else s)"

definition cmd_audio_pres_comp_disable :: "dp_env \<Rightarrow> ctrl_blk \<Rightarrow> (int \<times> ctrl_blk) option" where
  "cmd_audio_pres_comp_disable e s = do {
     s \<leftarrow> pres_comp_state_set e PRES_STATE_INIT (s\<lparr>pres_enabled := False\<rparr>);
     Some (0, s) }"

end
