(* ===== verification/DatapathFifo.thy ===== *)
theory DatapathFifo
  imports DatapathModel
begin

text \<open>
  The FIFO of the audio datapath as a queue. \<open>pending\<close> reads the queue of the blocks that I2S has
  still to play off the circular array and its two indices; the locale \<open>block_queue\<close> is the
  contract of a producer of frames and a consumer of blocks around such a queue, and the datapath's
  \<open>audio_datapath_stream_out\<close> and \<open>i2s_comp_handler\<close> are shown to satisfy it.
\<close>

section \<open>The contract\<close>

text \<open>
  A run of frames put (\<open>Inl\<close>) and blocks got (\<open>Inr\<close>): the blocks played, without the muted ones,
  the frames accepted, and the final state. It is \<open>None\<close> when a step fails, or when a frame comes
  while the queue already holds \<open>cap\<close> blocks.
\<close>

fun queue_run ::
  "('f \<Rightarrow> 's \<Rightarrow> 's option) \<Rightarrow> ('i \<Rightarrow> 's \<Rightarrow> ('b option \<times> 's) option) \<Rightarrow> ('s \<Rightarrow> 'b list) \<Rightarrow> nat
   \<Rightarrow> ('f + 'i) list \<Rightarrow> 's \<Rightarrow> ('b list \<times> 'f list \<times> 's) option" where
  "queue_run put get content cap [] s = Some ([], [], s)"
| "queue_run put get content cap (Inl f # es) s =
     (if length (content s) < cap then do {
        s' \<leftarrow> put f s;
        (out, fs, t) \<leftarrow> queue_run put get content cap es s';
        Some (out, if content s' = content s then fs else f # fs, t) }
      else None)"
| "queue_run put get content cap (Inr i # es) s = do {
     (b, s') \<leftarrow> get i s;
     (out, fs, t) \<leftarrow> queue_run put get content cap es s';
     Some ((case b of None \<Rightarrow> out | Some x \<Rightarrow> x # out), fs, t) }"

locale block_queue =
  fixes put :: "'f \<Rightarrow> 's \<Rightarrow> 's option"
    and get :: "'i \<Rightarrow> 's \<Rightarrow> ('b option \<times> 's) option"
    and content :: "'s \<Rightarrow> 'b list"
    and blocks :: "'f \<Rightarrow> 'b list"
    and cap :: nat
    and ok :: "'s \<Rightarrow> bool"
  assumes put_law: "ok s \<Longrightarrow> length (content s) < cap \<Longrightarrow> put f s = Some s' \<Longrightarrow>
      ok s' \<and> (content s' = content s \<or> content s' = content s @ blocks f)"
    and get_law: "ok s \<Longrightarrow> get i s = Some (b, s') \<Longrightarrow>
      ok s' \<and> (case b of None \<Rightarrow> content s = [] \<and> content s' = [] | Some x \<Rightarrow> content s = x # content s')"
begin

lemma run_in_order:
  "ok s \<Longrightarrow> queue_run put get content cap es s = Some (out, fs, t) \<Longrightarrow>
   ok t \<and> out @ content t = content s @ concat (map blocks fs)"
proof (induction es arbitrary: s out fs)
  case Nil
  then show ?case by simp
next
  case (Cons x es)
  show ?case
  proof (cases x)
    case (Inl f)
    obtain s' fs' where *: "length (content s) < cap" "put f s = Some s'"
        "queue_run put get content cap es s' = Some (out, fs', t)"
        "fs = (if content s' = content s then fs' else f # fs')"
      using Cons.prems(2) Inl by (auto split: if_splits bind_splits)
    have law: "ok s' \<and> (content s' = content s \<or> content s' = content s @ blocks f)"
      using put_law [OF Cons.prems(1) *(1,2)] .
    then have "ok t \<and> out @ content t = content s' @ concat (map blocks fs')"
      using Cons.IH *(3) by blast
    then show ?thesis
      using *(4) law by auto
  next
    case (Inr i)
    obtain b s' out' where *: "get i s = Some (b, s')"
        "queue_run put get content cap es s' = Some (out', fs, t)"
        "out = (case b of None \<Rightarrow> out' | Some x \<Rightarrow> x # out')"
      using Cons.prems(2) Inr by (auto split: bind_splits)
    have law: "ok s' \<and> (case b of None \<Rightarrow> content s = [] \<and> content s' = [] | Some x \<Rightarrow> content s = x # content s')"
      using get_law [OF Cons.prems(1) *(1)] .
    then have "ok t \<and> out' @ content t = content s' @ concat (map blocks fs)"
      using Cons.IH *(2) by blast
    then show ?thesis
      using *(3) law by (cases b) auto
  qed
qed

end

section \<open>Index arithmetic\<close>

text \<open>The FIFO's well-formedness: at least three blocks, arrays of the right length, indices inside.\<close>

definition wf_env :: "dp_env \<Rightarrow> bool" where
  "wf_env e \<longleftrightarrow> 3 \<le> FIFO_NUM_BLKS e \<and> 0 < NUM_BLKS_IN_FRAME e \<and> NUM_BLKS_IN_FRAME e < FIFO_NUM_BLKS e"

definition wf_fifo :: "dp_env \<Rightarrow> ctrl_blk \<Rightarrow> bool" where
  "wf_fifo e s \<longleftrightarrow> wf_env e
     \<and> length (fifo s) = FIFO_NUM_BLKS e * BLK_STEREO_NUM_SAMPS e
     \<and> length (prod_blk_ts s) = FIFO_NUM_BLKS e
     \<and> prod_blk_idx s < FIFO_NUM_BLKS e \<and> cons_blk_idx s < FIFO_NUM_BLKS e"

lemma NEXT_IDX_mod: "wf_env e \<Longrightarrow> i < FIFO_NUM_BLKS e \<Longrightarrow> NEXT_IDX e i = (i + 1) mod FIFO_NUM_BLKS e"
  by (cases "i = FIFO_NUM_BLKS e - 1") (auto simp: NEXT_IDX_def wf_env_def)

lemma NEXT_IDX_less: "wf_env e \<Longrightarrow> NEXT_IDX e i < FIFO_NUM_BLKS e"
  by (auto simp: NEXT_IDX_def wf_env_def)

lemma PREV_IDX_less: "wf_env e \<Longrightarrow> i < FIFO_NUM_BLKS e \<Longrightarrow> PREV_IDX e i < FIFO_NUM_BLKS e"
  by (auto simp: PREV_IDX_def wf_env_def)

lemma NEXT_PREV: "wf_env e \<Longrightarrow> i < FIFO_NUM_BLKS e \<Longrightarrow> NEXT_IDX e (PREV_IDX e i) = i"
  by (auto simp: NEXT_IDX_def PREV_IDX_def wf_env_def)

lemma PREV_NEXT: "wf_env e \<Longrightarrow> i < FIFO_NUM_BLKS e \<Longrightarrow> PREV_IDX e (NEXT_IDX e i) = i"
  by (auto simp: NEXT_IDX_def PREV_IDX_def wf_env_def)

text \<open>The \<open>k\<close>-th block after index \<open>i\<close>.\<close>

definition idx_add :: "dp_env \<Rightarrow> nat \<Rightarrow> nat \<Rightarrow> nat" where
  "idx_add e i k = (i + k) mod FIFO_NUM_BLKS e"

lemma idx_add_less: "wf_env e \<Longrightarrow> idx_add e i k < FIFO_NUM_BLKS e"
  by (auto simp: idx_add_def wf_env_def)

lemma idx_add_0: "i < FIFO_NUM_BLKS e \<Longrightarrow> idx_add e i 0 = i"
  by (simp add: idx_add_def)

lemma idx_add_Suc: "wf_env e \<Longrightarrow> NEXT_IDX e (idx_add e i k) = idx_add e i (Suc k)"
  by (simp add: NEXT_IDX_mod idx_add_less) (simp add: idx_add_def mod_Suc_eq)

lemma idx_add_NEXT: "wf_env e \<Longrightarrow> i < FIFO_NUM_BLKS e \<Longrightarrow> idx_add e (NEXT_IDX e i) k = idx_add e i (Suc k)"
  by (simp add: NEXT_IDX_mod) (simp add: idx_add_def mod_Suc_eq mod_add_left_eq)

lemma idx_add_inj:
  assumes "i < FIFO_NUM_BLKS e" "j < FIFO_NUM_BLKS e" "k < FIFO_NUM_BLKS e"
    and "idx_add e i j = idx_add e i k"
  shows "j = k"
proof -
  have "(i + l) mod FIFO_NUM_BLKS e = (if i + l < FIFO_NUM_BLKS e then i + l else i + l - FIFO_NUM_BLKS e)"
    if "l < FIFO_NUM_BLKS e" for l
    using that assms(1) by (simp add: mod_if)
  from this [OF assms(2)] this [OF assms(3)] show ?thesis
    using assms by (auto simp: idx_add_def split: if_splits)
qed

section \<open>The queue in the circular array\<close>

definition fifo_block :: "dp_env \<Rightarrow> ctrl_blk \<Rightarrow> nat \<Rightarrow> int list" where
  "fifo_block e s i = take (BLK_STEREO_NUM_SAMPS e) (drop (i * BLK_STEREO_NUM_SAMPS e) (fifo s))"

text \<open>The number of blocks after the one at the consumer index, up to the producer index.\<close>

definition ahead :: "dp_env \<Rightarrow> ctrl_blk \<Rightarrow> nat" where
  "ahead e s = (prod_blk_idx s + (FIFO_NUM_BLKS e - 1 - cons_blk_idx s)) mod FIFO_NUM_BLKS e"

definition pending :: "dp_env \<Rightarrow> ctrl_blk \<Rightarrow> int list list" where
  "pending e s = map (\<lambda>k. fifo_block e s (idx_add e (cons_blk_idx s) k)) [1..<Suc (ahead e s)]"

lemma length_pending [simp]: "length (pending e s) = ahead e s"
  by (simp add: pending_def)

lemma ahead_less: "wf_env e \<Longrightarrow> ahead e s < FIFO_NUM_BLKS e"
  by (auto simp: ahead_def wf_env_def)

lemma ahead_prod:
  assumes "wf_fifo e s"
  shows "idx_add e (cons_blk_idx s) (Suc (ahead e s)) = prod_blk_idx s"
proof -
  let ?N = "FIFO_NUM_BLKS e" and ?c = "cons_blk_idx s" and ?p = "prod_blk_idx s"
  have c: "?c < ?N" and p: "?p < ?N" using assms by (auto simp: wf_fifo_def)
  have "(?c + Suc ((?p + (?N - 1 - ?c)) mod ?N)) mod ?N = (Suc ?c + (?p + (?N - 1 - ?c))) mod ?N"
    by (metis add_Suc_right add_Suc mod_add_right_eq)
  also have "Suc ?c + (?p + (?N - 1 - ?c)) = ?p + ?N"
    using c by simp
  finally show ?thesis
    using p by (simp add: idx_add_def ahead_def)
qed

lemma ahead_unique:
  assumes "wf_fifo e s" and "k < FIFO_NUM_BLKS e"
    and "idx_add e (cons_blk_idx s) (Suc k) = prod_blk_idx s"
  shows "ahead e s = k"
proof -
  let ?i = "NEXT_IDX e (cons_blk_idx s)"
  have w: "wf_env e" "cons_blk_idx s < FIFO_NUM_BLKS e" using assms(1) by (auto simp: wf_fifo_def)
  have "idx_add e ?i (ahead e s) = idx_add e ?i k"
    using assms(3) ahead_prod [OF assms(1)] by (simp add: idx_add_NEXT w)
  then show ?thesis
    using idx_add_inj NEXT_IDX_less [OF w(1)] ahead_less [OF w(1)] assms(2) by blast
qed

lemma filled_ahead:
  assumes "wf_fifo e s"
  shows "filled_blocks_get e s = (if ahead e s = FIFO_NUM_BLKS e - 1 then 0 else Suc (ahead e s))"
proof -
  let ?N = "FIFO_NUM_BLKS e" and ?c = "cons_blk_idx s" and ?p = "prod_blk_idx s"
  have c: "?c < ?N" and p: "?p < ?N" using assms by (auto simp: wf_fifo_def)
  consider "?c < ?p" | "?p < ?c" | "?p = ?c" by linarith
  then show ?thesis
  proof cases
    case 1
    then have "?p + (?N - 1 - ?c) = (?p - ?c - 1) + ?N" using c p by simp
    then have "ahead e s = (?p - ?c - 1) mod ?N"
      unfolding ahead_def by (simp only: mod_add_self2)
    then have "ahead e s = ?p - ?c - 1"
      using p by simp
    then show ?thesis using 1 c p by (auto simp: filled_blocks_get_def)
  next
    case 2
    then have "?p + (?N - 1 - ?c) < ?N" using c by simp
    then have "ahead e s = ?p + (?N - 1 - ?c)" by (simp add: ahead_def)
    then show ?thesis using 2 c p by (auto simp: filled_blocks_get_def)
  next
    case 3
    then have "ahead e s = ?N - 1" using c by (simp add: ahead_def)
    then show ?thesis using 3 by (simp add: filled_blocks_get_def)
  qed
qed

section \<open>Writing a block\<close>

lemma nth_wr_range:
  assumes "off + length b \<le> length f" and "n < length f"
  shows "(take off f @ b @ drop (off + length b) f) ! n
         = (if off \<le> n \<and> n < off + length b then b ! (n - off) else f ! n)"
  using assms by (auto simp: nth_append min_def)

lemma take_drop_length: "a + b \<le> length g \<Longrightarrow> length (take b (drop a g)) = b"
  by simp

lemma block_inside: "i < N \<Longrightarrow> i * B + B \<le> N * (B :: nat)"
proof -
  assume "i < N"
  then have "Suc i * B \<le> N * B" by (intro mult_le_mono1) simp
  then show ?thesis by simp
qed

lemma block_update:
  assumes "length f = N * B" and "length b = B" and "i < N" and "j < N"
  shows "take B (drop (j * B) (take (i * B) f @ b @ drop (i * B + B) f))
         = (if j = i then b else take B (drop (j * B) f))"
proof (rule nth_equalityI)
  have i: "i * B + B \<le> N * B" and j: "j * B + B \<le> N * B"
    using assms(3,4) block_inside by blast+
  let ?f = "take (i * B) f @ b @ drop (i * B + B) f"
  have len: "length ?f = N * B" using assms(1,2) i by simp
  have sub: "length (take B (drop (j * B) g)) = B" if "length g = N * B" for g :: "'a list"
    using take_drop_length [of "j * B" B g] that j by (simp only:)
  show "length (take B (drop (j * B) ?f)) = length (if j = i then b else take B (drop (j * B) f))"
    using sub [OF len] sub [OF assms(1)] assms(2) by (metis (mono_tags))
  fix n assume "n < length (take B (drop (j * B) ?f))"
  then have n: "n < B" using sub [OF len] by (simp only:)
  have "take B (drop (j * B) ?f) ! n = ?f ! (j * B + n)"
    using nth_take_drop [OF n, of "j * B" ?f] j len by simp
  also have "\<dots> = (if i * B \<le> j * B + n \<and> j * B + n < i * B + B then b ! (j * B + n - i * B)
                  else f ! (j * B + n))"
    using nth_wr_range [of "i * B" b f "j * B + n"] assms(1,2) i j n by simp
  also have "\<dots> = (if j = i then b else take B (drop (j * B) f)) ! n"
  proof (cases "j = i")
    case True
    then show ?thesis using n by simp
  next
    case False
    then consider "Suc j \<le> i" | "Suc i \<le> j" by linarith
    then have "\<not> (i * B \<le> j * B + n \<and> j * B + n < i * B + B)"
    proof cases
      case 1
      then have "Suc j * B \<le> i * B" by (rule mult_le_mono1)
      then show ?thesis using n by simp
    next
      case 2
      then have "Suc i * B \<le> j * B" by (rule mult_le_mono1)
      then show ?thesis by simp
    qed
    then show ?thesis
      using False nth_take_drop [OF n, of "j * B" f] j assms(1) by (simp only: if_False)
  qed
  finally show "take B (drop (j * B) ?f) ! n = (if j = i then b else take B (drop (j * B) f)) ! n" .
qed

text \<open>\<open>s'\<close> is \<open>s\<close> with other contents in the FIFO and its time stamps.\<close>

definition same_but_fifo :: "ctrl_blk \<Rightarrow> ctrl_blk \<Rightarrow> bool" where
  "same_but_fifo s s' \<longleftrightarrow> (\<exists>f ts. s' = s\<lparr>fifo := f, prod_blk_ts := ts\<rparr>
     \<and> length f = length (fifo s) \<and> length ts = length (prod_blk_ts s))"

lemma same_but_fifo_trans: "same_but_fifo s s' \<Longrightarrow> same_but_fifo s' s'' \<Longrightarrow> same_but_fifo s s''"
  by (force simp: same_but_fifo_def)

lemma same_but_fifo_fields:
  "same_but_fifo s s' \<Longrightarrow> tone_active s' = tone_active s \<and> pres_enabled s' = pres_enabled s
     \<and> i2s s' = i2s s \<and> stream_started s' = stream_started s
     \<and> decoded_data s' = decoded_data s \<and> cons_blk_idx s' = cons_blk_idx s"
  by (auto simp: same_but_fifo_def)

text \<open>One block of a frame.\<close>

definition pcm_block :: "dp_env \<Rightarrow> int list \<Rightarrow> nat \<Rightarrow> int list" where
  "pcm_block e pcm i = take (BLK_STEREO_NUM_SAMPS e) (drop (i * BLK_STEREO_NUM_SAMPS e) pcm)"

lemma stream_out_loop_ok:
  assumes "wf_env e"
  shows "length (fifo s) = FIFO_NUM_BLKS e * BLK_STEREO_NUM_SAMPS e \<Longrightarrow>
    length (prod_blk_ts s) = FIFO_NUM_BLKS e \<Longrightarrow> idx < FIFO_NUM_BLKS e \<Longrightarrow>
    (i + k) * BLK_STEREO_NUM_SAMPS e \<le> length (decoded_data s) \<Longrightarrow> k < FIFO_NUM_BLKS e \<Longrightarrow>
    \<exists>s'. stream_out_loop e rx i k idx s = Some (idx_add e idx k, s') \<and> same_but_fifo s s'
      \<and> (\<forall>j<k. fifo_block e s' (idx_add e idx j) = pcm_block e (decoded_data s) (i + j)
           \<and> prod_blk_ts s' ! idx_add e idx j = rx + of_nat ((i + j) * BLK_PERIOD_US))
      \<and> (\<forall>x<FIFO_NUM_BLKS e. (\<forall>j<k. x \<noteq> idx_add e idx j) \<longrightarrow>
           fifo_block e s' x = fifo_block e s x \<and> prod_blk_ts s' ! x = prod_blk_ts s ! x)"
proof (induction k arbitrary: i idx s)
  case 0
  then show ?case
    by (auto simp: same_but_fifo_def idx_add_0 intro!: exI [of _ "fifo s"] exI [of _ "prod_blk_ts s"])
next
  case (Suc k)
  let ?B = "BLK_STEREO_NUM_SAMPS e" and ?N = "FIFO_NUM_BLKS e"
  let ?b = "pcm_block e (decoded_data s) i"
  let ?f = "take (idx * ?B) (fifo s) @ ?b @ drop (idx * ?B + ?B) (fifo s)"
  let ?ts = "(prod_blk_ts s)[idx := rx + of_nat (i * BLK_PERIOD_US)]"
  let ?s = "s\<lparr>fifo := ?f, prod_blk_ts := ?ts\<rparr>"
  have in_pcm: "i * ?B + ?B \<le> length (decoded_data s)"
    using Suc.prems(4) by (simp add: algebra_simps)
  then have lb: "length ?b = ?B" by (simp add: pcm_block_def)
  have idx: "idx * ?B + ?B \<le> length (fifo s)"
    using Suc.prems(1,3) block_inside by simp
  have lf: "length ?f = ?N * ?B" using idx lb Suc.prems(1) by simp
  have "rd_range (decoded_data s) (i * ?B) ?B = Some ?b"
    using in_pcm by (simp add: rd_range_in pcm_block_def)
  moreover have "wr_range (fifo s) (idx * ?B) ?b = Some ?f"
    using wr_range_in [of "idx * ?B" ?b "fifo s"] idx lb by simp
  ultimately have step: "stream_out_loop e rx i (Suc k) idx s
      = stream_out_loop e rx (Suc i) k (NEXT_IDX e idx) ?s"
    using Suc.prems(2,3) by (simp add: wr_in)
  have blk: "fifo_block e ?s x = (if x = idx then ?b else fifo_block e s x)" if "x < ?N" for x
    using block_update [OF Suc.prems(1) lb Suc.prems(3) that] by (simp add: fifo_block_def)
  have next_idx: "NEXT_IDX e idx < ?N" using NEXT_IDX_less [OF assms] .
  obtain s' where s': "stream_out_loop e rx (Suc i) k (NEXT_IDX e idx) ?s
        = Some (idx_add e (NEXT_IDX e idx) k, s')" "same_but_fifo ?s s'"
    and new: "\<forall>j<k. fifo_block e s' (idx_add e (NEXT_IDX e idx) j) = pcm_block e (decoded_data s) (Suc i + j)
         \<and> prod_blk_ts s' ! idx_add e (NEXT_IDX e idx) j = rx + of_nat ((Suc i + j) * BLK_PERIOD_US)"
    and old: "\<forall>x<?N. (\<forall>j<k. x \<noteq> idx_add e (NEXT_IDX e idx) j) \<longrightarrow>
         fifo_block e s' x = fifo_block e ?s x \<and> prod_blk_ts s' ! x = ?ts ! x"
    using Suc.IH [of ?s "NEXT_IDX e idx" "Suc i"] Suc.prems lf next_idx by auto
  have shift: "idx_add e (NEXT_IDX e idx) j = idx_add e idx (Suc j)" for j
    using idx_add_NEXT [OF assms Suc.prems(3)] .
  have idx0: "idx_add e idx 0 = idx" using idx_add_0 [OF Suc.prems(3)] .
  have first: "idx_add e idx (Suc j) \<noteq> idx" if "j < k" for j
    using that idx_add_inj [OF Suc.prems(3), of "Suc j" 0] Suc.prems(5) idx0 by auto
  have "\<forall>j<k. idx \<noteq> idx_add e (NEXT_IDX e idx) j"
    using first shift by metis
  then have at_idx: "fifo_block e s' idx = ?b" "prod_blk_ts s' ! idx = rx + of_nat (i * BLK_PERIOD_US)"
    using old blk [OF Suc.prems(3)] Suc.prems(2,3) by simp_all
  have same: "same_but_fifo s s'"
    using s'(2) lf Suc.prems(1) by (fastforce simp: same_but_fifo_def)
  have new': "fifo_block e s' (idx_add e idx j) = pcm_block e (decoded_data s) (i + j)
         \<and> prod_blk_ts s' ! idx_add e idx j = rx + of_nat ((i + j) * BLK_PERIOD_US)"
    if "j < Suc k" for j
    using that new shift at_idx idx0 by (cases j) auto
  have old': "fifo_block e s' x = fifo_block e s x \<and> prod_blk_ts s' ! x = prod_blk_ts s ! x"
    if "x < ?N" "\<forall>j<Suc k. x \<noteq> idx_add e idx j" for x
  proof -
    have "x \<noteq> idx" using that(2) idx0 by auto
    moreover have "\<forall>j<k. x \<noteq> idx_add e (NEXT_IDX e idx) j"
      using that(2) shift by auto
    ultimately show ?thesis
      using old blk that(1) by simp
  qed
  show ?case
    using step s'(1) same new' old' shift by (intro exI [of _ s']) auto
qed

section \<open>The operations on the queue\<close>

lemma idx_add_assoc: "idx_add e (idx_add e i j) k = idx_add e i (j + k)"
  by (simp add: idx_add_def mod_add_left_eq add.assoc)

lemma upt_split: "[1..<Suc (a + n)] = [1..<Suc a] @ map (\<lambda>j. Suc a + j) [0..<n]"
proof -
  have "[1..<Suc a + n] = [1..<Suc a] @ [Suc a..<Suc a + n]"
    by (rule upt_add_eq_append) simp
  moreover have "[Suc a..<Suc a + n] = map (\<lambda>j. j + Suc a) [0..<n]"
    by (subst map_add_upt) (simp add: add.commute)
  ultimately show ?thesis
    by (simp add: add.commute)
qed

text \<open>A frame's blocks.\<close>

definition pcm_blocks :: "dp_env \<Rightarrow> int list \<Rightarrow> int list list" where
  "pcm_blocks e pcm = map (pcm_block e pcm) [0..<NUM_BLKS_IN_FRAME e]"

lemma fifo_put_queue:
  assumes "wf_fifo e s" and "length (decoded_data s) = NUM_BLKS_IN_FRAME e * BLK_STEREO_NUM_SAMPS e"
    and "Suc (ahead e s) < FIFO_NUM_BLKS e"
  obtains s' where "fifo_put e rx s = Some s'" and "wf_fifo e s'"
    and "pending e s' = pending e s
           @ (if ahead e s + NUM_BLKS_IN_FRAME e < FIFO_NUM_BLKS e then pcm_blocks e (decoded_data s) else [])"
    and "same_but_fifo (s\<lparr>prod_blk_idx := prod_blk_idx s'\<rparr>) s'"
proof (cases "ahead e s + NUM_BLKS_IN_FRAME e < FIFO_NUM_BLKS e")
  case False
  have "ahead e s \<noteq> FIFO_NUM_BLKS e - 1" using assms(3) by simp
  then have "fifo_put e rx s = Some s"
    using filled_ahead [OF assms(1)] False by (simp add: fifo_put_def)
  then show thesis
    by (rule that) (use assms(1) False in \<open>auto simp: same_but_fifo_def
        intro!: exI [of _ "fifo s"] exI [of _ "prod_blk_ts s"]\<close>)
next
  case True
  let ?N = "FIFO_NUM_BLKS e" and ?n = "NUM_BLKS_IN_FRAME e" and ?p = "prod_blk_idx s"
    and ?c = "cons_blk_idx s" and ?a = "ahead e s"
  have w: "wf_env e" "?p < ?N" "?c < ?N"
    "length (fifo s) = ?N * BLK_STEREO_NUM_SAMPS e" "length (prod_blk_ts s) = ?N"
    using assms(1) by (simp_all add: wf_fifo_def)
  have nN: "?n < ?N" using w(1) by (simp add: wf_env_def)
  obtain s1 where s1: "stream_out_loop e rx 0 ?n ?p s = Some (idx_add e ?p ?n, s1)" "same_but_fifo s s1"
    and new: "\<forall>j<?n. fifo_block e s1 (idx_add e ?p j) = pcm_block e (decoded_data s) (0 + j)
           \<and> prod_blk_ts s1 ! idx_add e ?p j = rx + of_nat ((0 + j) * BLK_PERIOD_US)"
    and old: "\<forall>x<?N. (\<forall>j<?n. x \<noteq> idx_add e ?p j) \<longrightarrow>
           fifo_block e s1 x = fifo_block e s x \<and> prod_blk_ts s1 ! x = prod_blk_ts s ! x"
    using stream_out_loop_ok [OF w(1) w(4,5,2), of 0 ?n rx] assms(2) nN by auto
  let ?s = "s1\<lparr>prod_blk_idx := idx_add e ?p ?n\<rparr>"
  have "?a \<noteq> ?N - 1" using assms(3) by simp
  then have run: "fifo_put e rx s = Some ?s"
    using filled_ahead [OF assms(1)] True s1(1) by (simp add: fifo_put_def)
  obtain f ts where f: "s1 = s\<lparr>fifo := f, prod_blk_ts := ts\<rparr>" "length f = length (fifo s)"
      "length ts = length (prod_blk_ts s)"
    using s1(2) by (auto simp: same_but_fifo_def)
  have wf: "wf_fifo e ?s"
    using assms(1) f idx_add_less [OF w(1)] by (simp add: wf_fifo_def)
  have p: "?p = idx_add e ?c (Suc ?a)" using ahead_prod [OF assms(1)] by simp
  have cons: "cons_blk_idx ?s = ?c" using f by simp
  have a: "ahead e ?s = ?a + ?n"
    using ahead_unique [OF wf True] cons by (simp add: p idx_add_assoc)
  have blk: "fifo_block e ?s i = fifo_block e s1 i" for i by (simp add: fifo_block_def)
  have keep: "fifo_block e ?s (idx_add e ?c k) = fifo_block e s (idx_add e ?c k)" if "k < Suc ?a" for k
  proof -
    have "idx_add e ?c k \<noteq> idx_add e ?p j" if "j < ?n" for j
      using idx_add_inj [OF w(3), of k "Suc ?a + j"] that \<open>k < Suc ?a\<close> True
      by (auto simp: p idx_add_assoc)
    then show ?thesis
      using old idx_add_less [OF w(1)] blk by simp
  qed
  have added: "fifo_block e ?s (idx_add e ?c (Suc ?a + j)) = pcm_block e (decoded_data s) j"
    if "j < ?n" for j
    using new that blk by (simp add: p idx_add_assoc)
  have "pending e ?s = map (\<lambda>k. fifo_block e ?s (idx_add e ?c k)) [1..<Suc (?a + ?n)]"
    by (simp only: pending_def a cons)
  also have "\<dots> = map (\<lambda>k. fifo_block e ?s (idx_add e ?c k)) [1..<Suc ?a]
      @ map (\<lambda>j. fifo_block e ?s (idx_add e ?c (Suc ?a + j))) [0..<?n]"
    by (simp only: upt_split map_append map_map comp_def)
  also have "map (\<lambda>k. fifo_block e ?s (idx_add e ?c k)) [1..<Suc ?a] = pending e s"
    unfolding pending_def by (rule map_cong [OF refl], rule keep) auto
  also have "map (\<lambda>j. fifo_block e ?s (idx_add e ?c (Suc ?a + j))) [0..<?n] = pcm_blocks e (decoded_data s)"
    unfolding pcm_blocks_def by (rule map_cong [OF refl], rule added) auto
  finally have pend: "pending e ?s = pending e s @ pcm_blocks e (decoded_data s)" .
  have "same_but_fifo (s\<lparr>prod_blk_idx := idx_add e ?p ?n\<rparr>) ?s"
    unfolding same_but_fifo_def using f by (intro exI [of _ f] exI [of _ ts]) simp
  then show thesis
    by (intro that [OF run wf]) (use pend True in simp_all)
qed

lemma tx_next_queue:
  assumes "wf_fifo e s" and "tx_next e streaming s = Some s'"
  shows "wf_fifo e s'"
    and "case pending e s of
           [] \<Rightarrow> pending e s' = [] \<and> (tx_buf s' = Tx_alt0 \<or> tx_buf s' = Tx_alt1)
         | b # q \<Rightarrow> pending e s' = q
             \<and> (\<exists>i<FIFO_NUM_BLKS e. tx_buf s' = Tx_fifo i \<and> fifo_block e s' i = b)"
    and "fifo s' = fifo s"
proof -
  let ?N = "FIFO_NUM_BLKS e" and ?p = "prod_blk_idx s" and ?c = "cons_blk_idx s" and ?a = "ahead e s"
  have w: "wf_env e" "?p < ?N" "?c < ?N" "3 \<le> ?N"
    using assms(1) by (simp_all add: wf_fifo_def wf_env_def)
  have p: "idx_add e ?c (Suc ?a) = ?p" by (rule ahead_prod [OF assms(1)])
  have n: "NEXT_IDX e ?c = idx_add e ?c 1"
    using idx_add_NEXT [OF w(1,3), of 0] idx_add_0 NEXT_IDX_less [OF w(1)] by simp
  have "wf_fifo e s' \<and> (case pending e s of
           [] \<Rightarrow> pending e s' = [] \<and> (tx_buf s' = Tx_alt0 \<or> tx_buf s' = Tx_alt1)
         | b # q \<Rightarrow> pending e s' = q
             \<and> (\<exists>i<FIFO_NUM_BLKS e. tx_buf s' = Tx_fifo i \<and> fifo_block e s' i = b)) \<and> fifo s' = fifo s"
  proof (cases "?a = 0")
    case True
    then have "NEXT_IDX e ?c = ?p" using n p by simp
    then show ?thesis
      using assms True
      by (auto simp: tx_next_def alt_buffer_get_def tx_write_def err_chk_def wf_fifo_def pending_def
          ahead_def Let_def split: if_splits)
  next
    case False
    have "NEXT_IDX e ?c \<noteq> ?p"
    proof (cases "Suc ?a < ?N")
      case True
      then show ?thesis
        using idx_add_inj [OF w(3), of 1 "Suc ?a"] False n p w(4) by auto
    next
      case full: False
      then have "Suc ?a = ?N" using ahead_less [OF w(1), of s] by simp
      then have "?p = idx_add e ?c 0" using p by (simp add: idx_add_def)
      then show ?thesis
        using idx_add_inj [OF w(3), of 1 0] n w(4) by auto
    qed
    then have s': "s' = s\<lparr>cons_blk_idx := NEXT_IDX e ?c, underrun_condition := False,
        tx_buf := Tx_fifo (NEXT_IDX e ?c)\<rparr>"
      using assms(2) by (simp add: tx_next_def Let_def)
    have nl: "NEXT_IDX e ?c < ?N" by (rule NEXT_IDX_less [OF w(1)])
    have wf: "wf_fifo e s'" using assms(1) nl by (simp add: s' wf_fifo_def)
    have sh: "idx_add e (NEXT_IDX e ?c) k = idx_add e ?c (Suc k)" for k
      by (rule idx_add_NEXT [OF w(1,3)])
    have a': "ahead e s' = ?a - 1"
    proof (rule ahead_unique [OF wf])
      show "?a - 1 < ?N" using ahead_less [OF w(1), of s] by simp
      have "cons_blk_idx s' = NEXT_IDX e ?c" and "prod_blk_idx s' = ?p" by (simp_all add: s')
      then show "idx_add e (cons_blk_idx s') (Suc (?a - 1)) = prod_blk_idx s'"
        using False p by (simp only: sh Suc_pred) simp
    qed
    have "[1..<Suc ?a] = 1 # map Suc [1..<Suc (?a - 1)]"
      using False by (simp add: map_Suc_upt upt_conv_Cons)
    then have "pending e s = fifo_block e s (NEXT_IDX e ?c) # pending e s'"
      unfolding pending_def a' by (simp add: s' fifo_block_def idx_add_assoc comp_def n del: upt_Suc)
    then show ?thesis
      using wf nl by (auto simp: s' fifo_block_def)
  qed
  then show "wf_fifo e s'"
    and "case pending e s of
           [] \<Rightarrow> pending e s' = [] \<and> (tx_buf s' = Tx_alt0 \<or> tx_buf s' = Tx_alt1)
         | b # q \<Rightarrow> pending e s' = q
             \<and> (\<exists>i<FIFO_NUM_BLKS e. tx_buf s' = Tx_fifo i \<and> fifo_block e s' i = b)"
    and "fifo s' = fifo s"
    by blast+
qed

section \<open>The queue under the whole handlers\<close>

text \<open>The parts of the state that the queue and its operations depend on.\<close>

definition queue_view :: "ctrl_blk \<Rightarrow> int list \<times> u32 list \<times> nat \<times> nat \<times> bool \<times> bool" where
  "queue_view s = (fifo s, prod_blk_ts s, prod_blk_idx s, cons_blk_idx s, tone_active s, pres_enabled s)"

lemma queue_view_cong:
  assumes "queue_view s = queue_view s'"
  shows "wf_fifo e s = wf_fifo e s'" and "pending e s = pending e s'" and "ahead e s = ahead e s'"
    and "fifo_block e s i = fifo_block e s' i"
    and "tone_active s = tone_active s'" and "pres_enabled s = pres_enabled s'"
  using assms by (auto simp: queue_view_def wf_fifo_def pending_def ahead_def fifo_block_def)

lemma i2s_rx_view:
  "i2s_rx e rx s = Some s' \<Longrightarrow> queue_view s' = queue_view s \<and> tx_buf s' = tx_buf s \<and> i2s s' = i2s s"
  by (auto simp: i2s_rx_def queue_view_def assert_ok_def Let_def
      split: bind_splits if_splits list.splits)

lemma drift_view:
  "audio_datapath_drift_compensation e ts s = Some s' \<Longrightarrow>
   queue_view s' = queue_view s \<and> tx_buf s' = tx_buf s \<and> i2s s' = i2s s"
  by (auto simp: audio_datapath_drift_compensation_def drift_regulate_def queue_view_def
      drift_comp_state_set_def hfclkaudio_set_def Let_def
      split: drift_comp_state.splits if_splits bind_splits)

lemma tx_next_view:
  "tx_next e streaming s = Some s' \<Longrightarrow>
   tone_active s' = tone_active s \<and> pres_enabled s' = pres_enabled s \<and> i2s s' = i2s s"
  by (auto simp: tx_next_def alt_buffer_get_def tx_write_def err_chk_def Let_def split: if_splits)

text \<open>The block that the interrupt handed to I2S: \<open>None\<close> for a muted alternate buffer.\<close>

definition handed_over :: "dp_env \<Rightarrow> ctrl_blk \<Rightarrow> int list option" where
  "handed_over e s = (case tx_buf s of Tx_fifo i \<Rightarrow> Some (fifo_block e s i) | _ \<Rightarrow> None)"

text \<open>
  A frame gets as far as the decoder if the stream runs and the frame is not a repetition. Before,
  the presentation compensation may correct the delay, by inserting muted blocks into the FIFO or
  removing blocks from it: \<open>adjusts_nothing\<close> says that for this frame it leaves the FIFO alone,
  being switched off, still measuring or waiting, or locked. A put of a frame is defined then.
\<close>

definition taken_up :: "audio_frame \<Rightarrow> ctrl_blk \<Rightarrow> bool" where
  "taken_up f s \<longleftrightarrow> stream_started s \<and> \<not> (ref_ts_us f = prev_pres_sdu_ref_us s \<and> ref_ts_us f \<noteq> 0)"

definition compensated :: "dp_env \<Rightarrow> audio_frame \<Rightarrow> ctrl_blk \<Rightarrow> ctrl_blk option" where
  "compensated e f s =
     (case sdu_ref_check e (prev_pres_sdu_ref_us s) (ref_ts_us f) of (ref, nc) \<Rightarrow>
        if pres_enabled s
        then audio_datapath_presentation_compensation e (data_rx_ts_us f) ref nc (s\<lparr>prev_pres_sdu_ref_us := ref\<rparr>)
        else Some (s\<lparr>prev_pres_sdu_ref_us := ref\<rparr>))"

definition adjusts_nothing :: "dp_env \<Rightarrow> audio_frame \<Rightarrow> ctrl_blk \<Rightarrow> bool" where
  "adjusts_nothing e f s \<longleftrightarrow>
     (case compensated e f s of None \<Rightarrow> True | Some s' \<Rightarrow> queue_view s' = queue_view s)"

definition dp_put :: "dp_env \<Rightarrow> audio_frame \<Rightarrow> ctrl_blk \<Rightarrow> ctrl_blk option" where
  "dp_put e f s = (if taken_up f s \<longrightarrow> adjusts_nothing e f s
     then audio_datapath_stream_out e (Some f) s else None)"

definition dp_get ::
  "dp_env \<Rightarrow> bool \<times> u32 \<times> int list option \<Rightarrow> ctrl_blk \<Rightarrow> (int list option \<times> ctrl_blk) option" where
  "dp_get e i s = (case i of (streaming, ts, rx) \<Rightarrow> do {
     s' \<leftarrow> i2s_comp_handler e streaming ts rx s;
     Some (handed_over e s', s') })"

text \<open>The decoded blocks of a frame.\<close>

definition frame_blocks :: "dp_env \<Rightarrow> audio_frame \<Rightarrow> int list list" where
  "frame_blocks e f = (case snd (e_decode e f) of
      None \<Rightarrow> []
    | Some (pcm, n) \<Rightarrow> pcm_blocks e (if sd_card_playback e then e_sd_mix e pcm n else pcm))"

text \<open>
  What is relied on of the codec: it does not look at the reference time (the code's
  \<open>sw_codec_decode\<close> reads only \<open>bad_data\<close>), and a decoded size of one frame is that many samples,
  also after mixing.
\<close>

definition codec_ok :: "dp_env \<Rightarrow> bool" where
  "codec_ok e \<longleftrightarrow>
     (\<forall>f r. e_decode e (f\<lparr>ref_ts_us := r\<rparr>) = e_decode e f)
   \<and> (\<forall>f pcm. snd (e_decode e f) = Some (pcm, BLK_STEREO_SIZE_OCTETS e * NUM_BLKS_IN_FRAME e) \<longrightarrow>
        length pcm = NUM_BLKS_IN_FRAME e * BLK_STEREO_NUM_SAMPS e)
   \<and> (\<forall>pcm n. length (e_sd_mix e pcm n) = length pcm)"

text \<open>
  The states in which the queue is a queue: a build that transmits, no test tone mixed into the
  blocks, and the peripheral has a buffer to play and a next one.
\<close>

definition queue_ok :: "dp_env \<Rightarrow> ctrl_blk \<Rightarrow> bool" where
  "queue_ok e s \<longleftrightarrow> tx_on e \<and> codec_ok e \<and> wf_fifo e s \<and> \<not> tone_active s
     \<and> i2s_cur (i2s s) \<noteq> Tx_null \<and> i2s_next (i2s s) \<noteq> Some Tx_null"

lemma pres_set_i2s: "pres_comp_state_set e st s = Some s' \<Longrightarrow> i2s s' = i2s s"
  by (auto simp: pres_comp_state_set_def Let_def split: bind_splits if_splits)

lemma pres_insert_i2s: "pres_insert e recv k s = Some s' \<Longrightarrow> i2s s' = i2s s"
  by (induction k arbitrary: s) (auto split: bind_splits)

lemma presentation_i2s:
  assumes "audio_datapath_presentation_compensation e recv sdu nc s = Some s'"
  shows "i2s s' = i2s s"
proof -
  have sw: "i2s u = i2s t" if "pres_comp_switch e w t = Some (a, u)" for a t u w
    using that by (auto simp: pres_comp_switch_def Let_def split: pres_comp_state.splits bind_splits if_splits
        dest!: pres_set_i2s)
  show ?thesis
    using assms by (auto simp: audio_datapath_presentation_compensation_def pres_remove_def Let_def
        split: bind_splits if_splits dest!: pres_set_i2s sw pres_insert_i2s)
qed

lemma compensated_queue:
  assumes "compensated e f s = Some s1" and "adjusts_nothing e f s"
  shows "queue_view s1 = queue_view s" and "i2s s1 = i2s s"
proof -
  show "queue_view s1 = queue_view s" using assms by (simp add: adjusts_nothing_def)
  show "i2s s1 = i2s s"
    using assms(1) by (auto simp: compensated_def split: prod.splits if_splits dest!: presentation_i2s)
qed

text \<open>The handler, after the compensation.\<close>

definition decode_put :: "dp_env \<Rightarrow> audio_frame \<Rightarrow> ctrl_blk \<Rightarrow> ctrl_blk option" where
  "decode_put e f s = do {
     (pcm, n) \<leftarrow> snd (e_decode e f);
     let s = s\<lparr>decoded_data := if sd_card_playback e then e_sd_mix e pcm n else pcm\<rparr>;
     if n \<noteq> BLK_STEREO_SIZE_OCTETS e * NUM_BLKS_IN_FRAME e then Some s else fifo_put e (data_rx_ts_us f) s }"

lemma stream_out_parts:
  assumes "codec_ok e"
  shows "audio_datapath_stream_out e (Some f) s =
    (if taken_up f s then do { s \<leftarrow> compensated e f s; decode_put e f s } else Some s)"
proof -
  have dec: "e_decode e (f\<lparr>ref_ts_us := r\<rparr>) = e_decode e f" for r
    using assms by (simp add: codec_ok_def)
  obtain ref nc where ref: "sdu_ref_check e (prev_pres_sdu_ref_us s) (ref_ts_us f) = (ref, nc)"
    by fastforce
  have "audio_datapath_stream_out e (Some f) s = do { s \<leftarrow> compensated e f s; decode_put e f s }" if "taken_up f s"
    using that unfolding audio_datapath_stream_out_def compensated_def decode_put_def taken_up_def Let_def
    by (auto simp: dec ref)
  then show ?thesis
    by (auto simp: taken_up_def audio_datapath_stream_out_def)
qed

lemma decode_put_queue:
  assumes "queue_ok e s" and "length (pending e s) < FIFO_NUM_BLKS e - 1" and "decode_put e f s = Some s'"
  shows "queue_ok e s' \<and> (pending e s' = pending e s \<or> pending e s' = pending e s @ frame_blocks e f)"
proof -
  have ok: "wf_fifo e s" "codec_ok e" using assms(1) by (simp_all add: queue_ok_def)
  have a: "Suc (ahead e s) < FIFO_NUM_BLKS e" using assms(2) by simp
  obtain pcm n where pn: "snd (e_decode e f) = Some (pcm, n)"
    using assms(3) by (auto simp: decode_put_def split: bind_splits)
  let ?s = "s\<lparr>decoded_data := if sd_card_playback e then e_sd_mix e pcm n else pcm\<rparr>"
  have v: "queue_view ?s = queue_view s" by (simp add: queue_view_def)
  show ?thesis
  proof (cases "n = BLK_STEREO_SIZE_OCTETS e * NUM_BLKS_IN_FRAME e")
    case False
    then have "s' = ?s" using assms(3) pn by (simp add: decode_put_def Let_def)
    then show ?thesis
      using assms(1) queue_view_cong [OF v] by (simp add: queue_ok_def)
  next
    case True
    then have len: "length (decoded_data ?s) = NUM_BLKS_IN_FRAME e * BLK_STEREO_NUM_SAMPS e"
      using pn ok(2) by (simp add: codec_ok_def)
    obtain s2 where s2: "fifo_put e (data_rx_ts_us f) ?s = Some s2" "wf_fifo e s2"
      and pend: "pending e s2 = pending e ?s
         @ (if ahead e ?s + NUM_BLKS_IN_FRAME e < FIFO_NUM_BLKS e then pcm_blocks e (decoded_data ?s) else [])"
      and same: "same_but_fifo (?s\<lparr>prod_blk_idx := prod_blk_idx s2\<rparr>) s2"
      by (rule fifo_put_queue [of e ?s "data_rx_ts_us f"]) (use ok(1) a len queue_view_cong [OF v] in auto)
    have s': "s' = s2" using assms(3) pn s2(1) unfolding True by (simp add: decode_put_def Let_def)
    have "queue_ok e s'"
      using assms(1) s2(2) same_but_fifo_fields [OF same] unfolding s' by (simp add: queue_ok_def)
    moreover have "frame_blocks e f = pcm_blocks e (decoded_data ?s)"
      by (simp add: frame_blocks_def pn)
    ultimately show ?thesis
      using pend queue_view_cong(2) [OF v, of e] unfolding s' by auto
  qed
qed

lemma dp_put_law:
  assumes "queue_ok e s" and "length (pending e s) < FIFO_NUM_BLKS e - 1"
    and "dp_put e f s = Some s'"
  shows "queue_ok e s' \<and> (pending e s' = pending e s \<or> pending e s' = pending e s @ frame_blocks e f)"
proof (cases "taken_up f s")
  case False
  then have "s' = s"
    using assms(1,3) by (simp add: dp_put_def stream_out_parts queue_ok_def)
  then show ?thesis using assms(1) by simp
next
  case True
  then obtain s1 where adj: "adjusts_nothing e f s" and s1: "compensated e f s = Some s1" "decode_put e f s1 = Some s'"
    using assms(1,3) by (auto simp: dp_put_def stream_out_parts queue_ok_def split: if_splits bind_splits)
  note q = compensated_queue [OF s1(1) adj]
  have "queue_ok e s1"
    using assms(1) q(2) queue_view_cong [OF q(1)] by (simp add: queue_ok_def)
  then show ?thesis
    using decode_put_queue [OF _ _ s1(2)] assms(2) queue_view_cong(2) [OF q(1), of e] by simp
qed

lemma dp_get_law:
  assumes "queue_ok e s" and "dp_get e i s = Some (b, s')"
  shows "queue_ok e s' \<and> (case b of None \<Rightarrow> pending e s = [] \<and> pending e s' = []
                            | Some x \<Rightarrow> pending e s = x # pending e s')"
proof -
  obtain streaming ts rx where i: "i = (streaming, ts, rx)" by (cases i) auto
  have ok: "tx_on e" "\<not> tone_active s" "wf_fifo e s" "i2s_cur (i2s s) \<noteq> Tx_null" "i2s_next (i2s s) \<noteq> Some Tx_null"
    using assms(1) by (simp_all add: queue_ok_def)
  have run: "i2s_comp_handler e streaming ts rx s = Some s'" and b: "b = handed_over e s'"
    using assms(2) by (auto simp: dp_get_def i split: bind_splits)
  obtain nxt where nxt: "i2s_next (i2s s) = Some nxt" "nxt \<noteq> Tx_null"
    using run ok(5) by (cases "i2s_next (i2s s)") (auto simp: i2s_comp_handler_def)
  let ?rel = "i2s_cur (i2s s)"
  define s0 where "s0 = s\<lparr>i2s := (i2s s)\<lparr>i2s_cur := nxt, i2s_next := None\<rparr>, num_calls := num_calls s + 1\<rparr>"
  define s1 where "s1 = alt_buffer_free ?rel s0"
  obtain t where t: "rd (prod_blk_ts s1) (cons_blk_idx s1) = Some t"
    using run nxt ok(4)
    by (auto simp: i2s_comp_handler_def audio_datapath_i2s_blk_complete_def s1_def s0_def Let_def
        split: bind_splits)
  define s2 where "s2 = s1\<lparr>current_pres_dly_us := ts - t\<rparr>"
  have v2: "queue_view s2 = queue_view s" and i2: "i2s s2 = i2s s0"
    by (simp_all add: s2_def s1_def s0_def alt_buffer_free_def queue_view_def)
  have "audio_datapath_i2s_blk_complete e streaming ts rx ?rel
      (s\<lparr>i2s := (i2s s)\<lparr>i2s_cur := nxt, i2s_next := None\<rparr>\<rparr>) = Some s'"
    using run nxt ok(4) by (simp add: i2s_comp_handler_def)
  then obtain s3 s4 h where s3: "i2s_tx e streaming ?rel s2 = Some s3"
    and s4: "(if rx_on e then i2s_rx e rx s3 else Some s3) = Some s4"
    and h: "audio_i2s_set_next_buf e (tx_buf s4) (rx \<noteq> None) (i2s s4) = Some h"
    and s5: "(if drift_enabled (s4\<lparr>i2s := h\<rparr>)
              then audio_datapath_drift_compensation e ts (s4\<lparr>i2s := h\<rparr>) else Some (s4\<lparr>i2s := h\<rparr>)) = Some s'"
    using ok(1) t
    by (auto simp: audio_datapath_i2s_blk_complete_def s2_def s1_def s0_def Let_def split: bind_splits)
  have tn: "tx_next e streaming s2 = Some s3"
    using s3 ok(2) queue_view_cong(5) [OF v2] tx_next_view
    by (auto simp: i2s_tx_def assert_ok_def split: bind_splits if_splits)
  have wf2: "wf_fifo e s2" using ok(3) queue_view_cong [OF v2] by simp
  note q = tx_next_queue [OF wf2 tn]
  have v4: "queue_view s4 = queue_view s3 \<and> tx_buf s4 = tx_buf s3 \<and> i2s s4 = i2s s3"
    using s4 i2s_rx_view by (cases "rx_on e") auto
  have v5: "queue_view s' = queue_view s4 \<and> tx_buf s' = tx_buf s4 \<and> i2s s' = h"
    using s5 drift_view [of e ts "s4\<lparr>i2s := h\<rparr>" s']
    by (cases "drift_enabled s4") (auto simp: queue_view_def)
  have v: "queue_view s' = queue_view s3" and tx: "tx_buf s' = tx_buf s3" using v4 v5 by simp_all
  have h': "h = (i2s s3)\<lparr>i2s_next := Some (tx_buf s3)\<rparr>" "tx_buf s3 \<noteq> Tx_null"
    using h v4 ok(1) by (auto simp: audio_i2s_set_next_buf_def assert_ok_def split: bind_splits if_splits)
  have "i2s_cur h = nxt" using tx_next_view [OF tn] i2 h'(1) by (simp add: s0_def)
  then have "i2s_cur (i2s s') \<noteq> Tx_null" "i2s_next (i2s s') \<noteq> Some Tx_null"
    using v5 h' nxt(2) by simp_all
  moreover have "\<not> tone_active s'"
    using assms(1) queue_view_cong(5) [OF v] queue_view_cong(5) [OF v2] tx_next_view [OF tn]
    by (simp add: queue_ok_def)
  ultimately have "queue_ok e s'"
    using assms(1) q(1) queue_view_cong(1) [OF v] by (simp add: queue_ok_def)
  moreover have "pending e s' = pending e s3" "handed_over e s' = handed_over e s3"
    using queue_view_cong [OF v] tx by (simp_all add: handed_over_def split: tx_ptr.splits)
  moreover have "pending e s2 = pending e s"
    using queue_view_cong [OF v2] by simp
  ultimately show ?thesis
    using q(2) b by (cases "pending e s") (auto simp: handed_over_def)
qed

interpretation dp_fifo: block_queue "dp_put e" "dp_get e" "pending e" "frame_blocks e"
    "FIFO_NUM_BLKS e - 1" "queue_ok e" for e
  using dp_put_law dp_get_law by unfold_locales blast+

section \<open>Properties\<close>

lemma fifo_put_full:
  assumes "wf_fifo e s" and "length (decoded_data s) = NUM_BLKS_IN_FRAME e * BLK_STEREO_NUM_SAMPS e"
    and "Suc (ahead e s) = FIFO_NUM_BLKS e"
  obtains s' where "fifo_put e rx s = Some s'" and "pending e s' = tl (pcm_blocks e (decoded_data s))"
proof -
  let ?N = "FIFO_NUM_BLKS e" and ?n = "NUM_BLKS_IN_FRAME e" and ?p = "prod_blk_idx s"
    and ?c = "cons_blk_idx s"
  have w: "wf_env e" "?p < ?N" "?c < ?N" "0 < ?n" "?n < ?N"
    "length (fifo s) = ?N * BLK_STEREO_NUM_SAMPS e" "length (prod_blk_ts s) = ?N"
    using assms(1) by (simp_all add: wf_fifo_def wf_env_def)
  have pc: "?p = ?c"
    using ahead_prod [OF assms(1)] assms(3) w(3) by (simp add: idx_add_def)
  have filled: "filled_blocks_get e s = 0"
    by (simp add: filled_blocks_get_def pc)
  obtain s1 where s1: "stream_out_loop e rx 0 ?n ?p s = Some (idx_add e ?p ?n, s1)" "same_but_fifo s s1"
    and new: "\<forall>j<?n. fifo_block e s1 (idx_add e ?p j) = pcm_block e (decoded_data s) (0 + j)
           \<and> prod_blk_ts s1 ! idx_add e ?p j = rx + of_nat ((0 + j) * BLK_PERIOD_US)"
    using stream_out_loop_ok [OF w(1,6,7,2), of 0 ?n rx] assms(2) w(5) by auto
  let ?s = "s1\<lparr>prod_blk_idx := idx_add e ?p ?n\<rparr>"
  have run: "fifo_put e rx s = Some ?s"
    using filled s1(1) w(5) by (simp add: fifo_put_def)
  obtain f ts where f: "s1 = s\<lparr>fifo := f, prod_blk_ts := ts\<rparr>" "length f = length (fifo s)"
      "length ts = length (prod_blk_ts s)"
    using s1(2) by (auto simp: same_but_fifo_def)
  have wf: "wf_fifo e ?s"
    using assms(1) f idx_add_less [OF w(1)] by (simp add: wf_fifo_def)
  have cons: "cons_blk_idx ?s = ?c" using f by simp
  have a: "ahead e ?s = ?n - 1"
    by (rule ahead_unique [OF wf]) (use w f pc in simp_all)
  have "[1..<Suc (?n - 1)] = map Suc [0..<?n - 1]"
    by (simp add: map_Suc_upt)
  moreover have "[0..<?n] = 0 # map Suc [0..<?n - 1]"
    using w(4) by (simp add: map_Suc_upt upt_conv_Cons)
  moreover have "fifo_block e ?s (idx_add e ?c (Suc j)) = pcm_block e (decoded_data s) (Suc j)"
    if "j < ?n - 1" for j
    using new that pc by (auto simp: fifo_block_def)
  ultimately have "pending e ?s = tl (pcm_blocks e (decoded_data s))"
    unfolding pending_def a cons pcm_blocks_def by simp
  then show thesis by (rule that [OF run])
qed

text \<open>
  A small datapath for examples: a bidirectional gateway with a FIFO of six blocks of two samples,
  frames of one block, and a codec that decodes every frame to the samples 1, 2.
\<close>

definition example_env :: dp_env where
  "example_env = \<lparr>max_pres_dly_us = 3000, min_pres_dly_us = 1000, sample_rate_hz = 1000,
     frame_duration_us = 1000, bit_depth_octets = 2, is_headset = False, stream_bidirectional = True,
     audio_source_i2s = True, presentation_delay_us = 2000, audio_test_tone = False,
     sd_card_playback = False, audio_q_max = 4, e_gpio = (\<lambda>l u i v. 0), e_board = nrf5340dk_leds,
     e_decode = (\<lambda>f. (0, Some ([1, 2], 4))), e_sd_mix = (\<lambda>p n. p), e_tone_gen = (\<lambda>f a. (0, [])),
     e_contin = (\<lambda>n l p. (0, [], p)), e_pcm_mix = (\<lambda>a b. (0, a)), e_strtof = (\<lambda>s. None)\<rparr>"

definition example_dp :: ctrl_blk where
  "example_dp = the (do {
     (r, s) \<leftarrow> audio_datapath_init example_env (dp_boot example_env (led_boot [1, 1, 1]));
     (r, s) \<leftarrow> audio_datapath_start example_env [] s;
     Some s })"

lemmas example_consts = example_env_def FIFO_NUM_BLKS_def NUM_BLKS_def NUM_BLKS_IN_FRAME_def
  BLK_MONO_NUM_SAMPS_def BLK_STEREO_NUM_SAMPS_def BLK_STEREO_SIZE_OCTETS_def MAX_FIFO_SIZE_def

lemma example_dp_simps:
  "stream_started example_dp" "length (fifo example_dp) = 12" "prod_blk_idx example_dp = 0"
  "cons_blk_idx example_dp = 4" "length (prod_blk_ts example_dp) = 6" "\<not> tone_active example_dp"
  "\<not> pres_enabled example_dp" "i2s_cur (i2s example_dp) = Tx_fifo 5"
  "i2s_next (i2s example_dp) = Some (Tx_fifo 4)" "prev_pres_sdu_ref_us example_dp = 0"
  by (simp_all add: example_dp_def audio_datapath_init_def audio_datapath_start_def audio_i2s_init_def
      audio_datapath_i2s_start_def audio_i2s_start_def audio_i2s_set_next_buf_def dp_boot_def PREV_IDX_def
      example_consts tx_on_def rx_on_def Let_def)

lemma example_zeros:
  "replicate 12 (0 :: int) = [0, 0, 0, 0, 0, 0, 0, 0, 0, 0, 0, 0]" "replicate 6 (0 :: u32) = [0, 0, 0, 0, 0, 0]"
  by (simp_all add: eval_nat_numeral)

lemma example_dp_more:
  "fifo example_dp = [0, 0, 0, 0, 0, 0, 0, 0, 0, 0, 0, 0]" "prod_blk_ts example_dp = [0, 0, 0, 0, 0, 0]"
  "num_calls example_dp = 0" "drift_enabled example_dp" "drift_state example_dp = DRIFT_STATE_INIT"
  "audio_q example_dp = []" "pool_avail example_dp = 6" "num_overruns example_dp = 0"
  "num_overruns_printed example_dp = 0" "prev_drift_sdu_ref_us example_dp = 0"
  "drift_ctr example_dp = 0" "i2s_state (i2s example_dp) = AUDIO_I2S_STATE_STARTED"
  by (simp_all add: example_dp_def audio_datapath_init_def audio_datapath_start_def audio_i2s_init_def
      audio_datapath_i2s_start_def audio_i2s_start_def audio_i2s_set_next_buf_def dp_boot_def PREV_IDX_def
      example_consts tx_on_def rx_on_def Let_def example_zeros)

definition example_frame :: audio_frame where
  "example_frame = \<lparr>ref_ts_us = 1000, data_rx_ts_us = 1000, frame_data = [], bad_data = False\<rparr>"

text \<open>A frame that fills the FIFO exactly makes it look empty. The overrun check of
  stream_out accepts a frame when the filled blocks and the frame together equal the
  capacity; then the producer index meets the consumer index, filled_blocks_get returns 0 although
  every block but the one at the consumer index is still to be played, and the next frame, which
  should be discarded as an overrun, is accepted: it overwrites the oldest blocks, and all the
  others are never played.\<close>

lemma full_fifo_looks_empty:
  assumes "wf_fifo e s" and "length (decoded_data s) = NUM_BLKS_IN_FRAME e * BLK_STEREO_NUM_SAMPS e"
    and "filled_blocks_get e s + NUM_BLKS_IN_FRAME e = FIFO_NUM_BLKS e"
    and "0 < filled_blocks_get e s"
  shows "\<exists>s' s''. fifo_put e rx s = Some s' \<and> length (pending e s') = FIFO_NUM_BLKS e - 1
    \<and> filled_blocks_get e s' = 0
    \<and> fifo_put e rx' s' = Some s'' \<and> pending e s'' = tl (pcm_blocks e (decoded_data s))"
proof -
  let ?N = "FIFO_NUM_BLKS e" and ?n = "NUM_BLKS_IN_FRAME e"
  have n: "0 < ?n" using assms(1) by (simp add: wf_fifo_def wf_env_def)
  have a: "filled_blocks_get e s = Suc (ahead e s)"
    using filled_ahead [OF assms(1)] assms(4) by (simp split: if_splits)
  have lt: "Suc (ahead e s) < ?N" "ahead e s + ?n < ?N" "ahead e s + ?n = ?N - 1"
    using assms(3) a n by auto
  obtain s' where s': "fifo_put e rx s = Some s'" "wf_fifo e s'"
      "pending e s' = pending e s @ (if ahead e s + ?n < ?N then pcm_blocks e (decoded_data s) else [])"
      "same_but_fifo (s\<lparr>prod_blk_idx := prod_blk_idx s'\<rparr>) s'"
    by (rule fifo_put_queue [OF assms(1,2) lt(1)])
  then have len: "length (pending e s') = ?N - 1"
    using lt by (simp add: pcm_blocks_def)
  then have full: "Suc (ahead e s') = ?N"
    using n lt by simp
  have dec: "decoded_data s' = decoded_data s"
    using same_but_fifo_fields [OF s'(4)] by simp
  have fill: "filled_blocks_get e s' = 0"
    using filled_ahead [OF s'(2)] full by auto
  obtain s'' where "fifo_put e rx' s' = Some s''" "pending e s'' = tl (pcm_blocks e (decoded_data s))"
    using fifo_put_full [OF s'(2), of rx'] dec assms(2) full by metis
  then show ?thesis
    using s'(1) len fill by blast
qed

theorem full_fifo_looks_empty_witness:
  "\<exists>s' s''. fifo_put example_env 0 (example_dp\<lparr>cons_blk_idx := 1, decoded_data := [1, 2]\<rparr>) = Some s'
    \<and> length (pending example_env s') = FIFO_NUM_BLKS example_env - 1
    \<and> filled_blocks_get example_env s' = 0
    \<and> fifo_put example_env 0 s' = Some s''
    \<and> pending example_env s''
        = tl (pcm_blocks example_env (decoded_data (example_dp\<lparr>cons_blk_idx := 1, decoded_data := [1, 2]\<rparr>)))"
  by (rule full_fifo_looks_empty)
    (simp_all add: wf_fifo_def wf_env_def example_dp_simps example_consts filled_blocks_get_def)

end
