(* ===== verification/DatapathSync.thy ===== *)
theory DatapathSync
  imports DatapathFifo
begin

text \<open>
  Synchronisation in the audio datapath: the clock error, the drift compensation state machine that
  steers the audio clock, and the presentation compensation state machine that moves the
  producer index of the FIFO; both are shown to reach their locked states.
\<close>

section \<open>Clock error\<close>

lemma err_us_nearest_bound: "\<bar>err_us_calculate sdu_ref ts\<bar> \<le> 500"
proof -
  have m: "0 \<le> x mod 1000 \<and> x mod 1000 < 1000" for x :: int
    by simp
  then show ?thesis
    using m [of "uint sdu_ref - uint ts"] m [of "uint ts - uint sdu_ref"]
    by (auto simp: err_us_calculate_def Let_def)
qed

lemma lt_1000: "- 1000 < 1000 * (x :: int) \<Longrightarrow> 1000 * x < 1000 \<Longrightarrow> x = 0"
  by simp

lemma div_1000: "1000 * (x div 1000) \<le> x \<and> x < 1000 * (x div 1000) + (1000 :: int)"
  using mult_div_mod_eq [of 1000 x] pos_mod_sign [of 1000 x] pos_mod_bound [of 1000 x] by linarith

text \<open>The clock error is the distance to the nearest block boundary. For any two timestamps
  err_us_calculate returns a value between -500 and 500 that differs from the difference of the
  timestamps by whole block periods of 1000 microseconds; and whenever some number of whole periods brings
  the difference strictly within 500, the error is exactly what is left.\<close>

lemma err_us_nearest:
  fixes sdu_ref ts :: u32
  shows "- 500 \<le> err_us_calculate sdu_ref ts \<and> err_us_calculate sdu_ref ts \<le> 500
    \<and> 1000 dvd (uint sdu_ref - uint ts - err_us_calculate sdu_ref ts)
    \<and> (\<forall>k. \<bar>uint sdu_ref - uint ts - 1000 * k\<bar> < 500 \<longrightarrow>
          err_us_calculate sdu_ref ts = uint sdu_ref - uint ts - 1000 * k)"
proof -
  define d where "d = uint sdu_ref - uint ts"
  have e: "err_us_calculate sdu_ref ts =
     (if d < 0 then - (if 500 < - d mod 1000 then - d mod 1000 - 1000 else - d mod 1000)
      else (if 500 < d mod 1000 then d mod 1000 - 1000 else d mod 1000))"
    by (simp add: err_us_calculate_def Let_def d_def)
  have m: "0 \<le> x mod 1000 \<and> x mod 1000 < 1000 \<and> x = 1000 * (x div 1000) + x mod 1000" for x :: int
    by simp
  have range: "- 500 \<le> err_us_calculate sdu_ref ts \<and> err_us_calculate sdu_ref ts \<le> 500"
    using err_us_nearest_bound [of sdu_ref ts] by linarith
  obtain q where q: "d - err_us_calculate sdu_ref ts = 1000 * q"
  proof (cases "d < 0")
    case True
    define r q where "r = - d mod 1000" and "q = - d div 1000"
    have "d = - (1000 * q + r)" using m [of "- d"] unfolding r_def q_def by linarith
    moreover have "err_us_calculate sdu_ref ts = - (if 500 < r then r - 1000 else r)"
      using True by (simp only: e r_def if_True)
    ultimately show ?thesis
      using that [of "- q"] that [of "- q - 1"] by (simp split: if_splits)
  next
    case False
    define r q where "r = d mod 1000" and "q = d div 1000"
    have "d = 1000 * q + r" using m [of d] unfolding r_def q_def by linarith
    moreover have "err_us_calculate sdu_ref ts = (if 500 < r then r - 1000 else r)"
      using False by (simp only: e r_def if_False)
    ultimately show ?thesis
      using that [of "q"] that [of "q + 1"] by (simp split: if_splits)
  qed
  have "err_us_calculate sdu_ref ts = d - 1000 * k" if "\<bar>d - 1000 * k\<bar> < 500" for k
  proof -
    have "- 1000 < 1000 * (k - q)" "1000 * (k - q) < 1000"
      using that range q unfolding abs_less_iff by (simp_all only: right_diff_distrib) linarith+
    then have "k = q" using lt_1000 by fastforce
    then show ?thesis using q by linarith
  qed
  then show ?thesis
    using range q by (auto simp: d_def [symmetric])
qed

section \<open>Drift compensation\<close>

lemma uint_of_int_u32: "0 \<le> x \<Longrightarrow> x < 2 ^ 32 \<Longrightarrow> uint (of_int x :: u32) = x"
  by (simp add: uint_word_of_int)

lemma APLL_FREQ_ADJ_ok:
  assumes "\<bar>t\<bar> \<le> k" and "k \<le> 2147483"
  obtains a where "APLL_FREQ_ADJ t = Some a" and "\<bar>a\<bar> \<le> 1000 * k div 331" and "0 \<le> t \<Longrightarrow> a \<le> 0"
    and "t \<le> 0 \<Longrightarrow> 0 \<le> a"
proof (rule that)
  have "- 2147483648 \<le> t * 1000" "t * 1000 < 2147483648"
    using assms by linarith+
  then show "APLL_FREQ_ADJ t = Some (c_div (- (t * 1000)) 331)"
    by (simp add: APLL_FREQ_ADJ_def)
  have "\<bar>t * 1000\<bar> div 331 \<le> 1000 * k div 331"
    using assms by (intro zdiv_mono1) auto
  then show "\<bar>c_div (- (t * 1000)) 331\<bar> \<le> 1000 * k div 331"
    by (simp add: c_div_abs)
  have "0 \<le> \<bar>t * 1000\<bar> div 331"
    by (simp add: pos_imp_zdiv_nonneg_iff)
  then show "0 \<le> t \<Longrightarrow> c_div (- (t * 1000)) 331 \<le> 0" and "t \<le> 0 \<Longrightarrow> 0 \<le> c_div (- (t * 1000)) 331"
    by (auto simp: c_div_def sgn_if mult_nonneg_nonneg)
qed

lemma drift_regulate_ok:
  obtains err a where "\<bar>err\<bar> \<le> 250"
    and "err = c_div (err_us_calculate (prev_drift_sdu_ref_us s) ts) 2"
    and "APLL_FREQ_ADJ err = Some a" and "\<bar>a\<bar> \<le> 755" and "0 \<le> err \<Longrightarrow> a \<le> 0" and "err \<le> 0 \<Longrightarrow> 0 \<le> a"
    and "drift_regulate ts s = Some (err, hfclkaudio_set (uint (center_freq s) + a) (s\<lparr>drift_ctr := 0\<rparr>))"
proof -
  let ?e = "err_us_calculate (prev_drift_sdu_ref_us s) ts"
  have "\<bar>?e\<bar> \<le> 500"
    using err_us_nearest_bound by blast
  then have c: "\<bar>c_div ?e 2\<bar> \<le> 250"
    by (intro c_div_bounds) auto
  obtain a where "APLL_FREQ_ADJ (c_div ?e 2) = Some a" "\<bar>a\<bar> \<le> 1000 * 250 div 331"
      "0 \<le> c_div ?e 2 \<Longrightarrow> a \<le> 0" "c_div ?e 2 \<le> 0 \<Longrightarrow> 0 \<le> a"
    by (rule APLL_FREQ_ADJ_ok [OF c]) (simp, blast)
  then show thesis
    using that [OF c refl, of a] by (simp add: drift_regulate_def)
qed

text \<open>What has to hold so that the multiplication in the calibration does not overflow.\<close>

definition drift_jump_ok :: "dp_env \<Rightarrow> ctrl_blk \<Rightarrow> bool" where
  "drift_jump_ok e s \<longleftrightarrow> (drift_state s = DRIFT_STATE_CALIB \<longrightarrow>
     \<bar>sint (of_nat DRIFT_MEAS_PERIOD_US
        - ((if is_headset e then prev_pres_sdu_ref_us s else prev_drift_sdu_ref_us s)
           - meas_start_time_us s) :: u32)\<bar> \<le> 2147483)"

lemma drift_compensation_ok:
  assumes "drift_jump_ok e s"
  shows "\<exists>s'. audio_datapath_drift_compensation e ts s = Some s'"
proof -
  have reg: "\<exists>err t'. drift_regulate ts t = Some (err, t')" for t
    using drift_regulate_ok by metis
  obtain f g where fg: "\<And>t. drift_regulate ts t = Some (f t, g t)"
    using reg by metis
  show ?thesis
  proof (cases "drift_state s")
    case DRIFT_STATE_CALIB
    let ?p = "if is_headset e then prev_pres_sdu_ref_us s else prev_drift_sdu_ref_us s"
    obtain a where "APLL_FREQ_ADJ (sint (of_nat DRIFT_MEAS_PERIOD_US - (?p - meas_start_time_us s) :: u32)) = Some a"
      using APLL_FREQ_ADJ_ok [of _ 2147483] assms DRIFT_STATE_CALIB by (metis drift_jump_ok_def order_refl)
    then show ?thesis
      using DRIFT_STATE_CALIB
      by (cases "is_headset e") (auto simp: audio_datapath_drift_compensation_def Let_def)
  qed (simp_all add: audio_datapath_drift_compensation_def Let_def fg)
qed

text \<open>
  One interrupt of the stream: the reference time the drift compensation sees is set (by
  \<open>audio_datapath_sdu_ref_update\<close> on a gateway, by \<open>audio_datapath_stream_out\<close> on a headset),
  then the compensation runs with the frame start time.
\<close>

definition drift_tick :: "dp_env \<Rightarrow> u32 \<times> u32 \<Rightarrow> ctrl_blk \<Rightarrow> ctrl_blk option" where
  "drift_tick e x s = (case x of (sdu_ref, ts) \<Rightarrow>
     audio_datapath_drift_compensation e ts
       (if is_headset e then s\<lparr>prev_pres_sdu_ref_us := sdu_ref\<rparr> else s\<lparr>prev_drift_sdu_ref_us := sdu_ref\<rparr>))"

fun drift_run :: "dp_env \<Rightarrow> (u32 \<times> u32) list \<Rightarrow> ctrl_blk \<Rightarrow> ctrl_blk option" where
  "drift_run e [] s = Some s"
| "drift_run e (x # xs) s = do { s \<leftarrow> drift_tick e x s; drift_run e xs s }"

lemma drift_run_append: "drift_run e (xs @ ys) s = do { s \<leftarrow> drift_run e xs s; drift_run e ys s }"
  by (induction xs arbitrary: s) (auto split: bind_splits)

text \<open>The part of the drift state that waiting leaves alone.\<close>

definition drift_same :: "ctrl_blk \<Rightarrow> ctrl_blk \<Rightarrow> bool" where
  "drift_same s s' \<longleftrightarrow> drift_state s' = drift_state s \<and> meas_start_time_us s' = meas_start_time_us s
     \<and> center_freq s' = center_freq s \<and> hfclkaudio s' = hfclkaudio s"

lemma drift_wait_tick:
  assumes "drift_state s \<noteq> DRIFT_STATE_INIT" and "unat (drift_ctr s) < 99"
  shows "\<exists>s'. drift_tick e x s = Some s' \<and> drift_same s s' \<and> unat (drift_ctr s') = unat (drift_ctr s) + 1"
proof -
  have "unat (drift_ctr s + 1) = unat (drift_ctr s) + 1"
    using assms(2) by (simp add: unat_word_ariths)
  then show ?thesis
    using assms by (cases x; cases "drift_state s")
      (auto simp: drift_tick_def audio_datapath_drift_compensation_def Let_def drift_same_def)
qed

lemma drift_wait:
  "drift_state s \<noteq> DRIFT_STATE_INIT \<Longrightarrow> unat (drift_ctr s) + length xs < 100 \<Longrightarrow>
   \<exists>s'. drift_run e xs s = Some s' \<and> drift_same s s' \<and> unat (drift_ctr s') = unat (drift_ctr s) + length xs"
proof (induction xs arbitrary: s)
  case Nil
  then show ?case by (simp add: drift_same_def)
next
  case (Cons x xs)
  obtain s1 where s1: "drift_tick e x s = Some s1" "drift_same s s1"
      "unat (drift_ctr s1) = unat (drift_ctr s) + 1"
    using drift_wait_tick [OF Cons.prems(1), of e x] Cons.prems(2) by auto
  have "drift_state s1 \<noteq> DRIFT_STATE_INIT"
    using s1(2) Cons.prems(1) by (simp add: drift_same_def)
  moreover have "unat (drift_ctr s1) + length xs < 100"
    using s1(3) Cons.prems(2) by simp
  ultimately obtain s2 where "drift_run e xs s1 = Some s2" "drift_same s1 s2"
      "unat (drift_ctr s2) = unat (drift_ctr s1) + length xs"
    using Cons.IH by blast
  then show ?case
    using s1 by (auto simp: drift_same_def)
qed

lemma drift_init_tick:
  assumes "drift_state s = DRIFT_STATE_INIT" and "sdu \<noteq> 0"
  shows "\<exists>s'. drift_tick e (sdu, ts) s = Some s' \<and> drift_state s' = DRIFT_STATE_CALIB
    \<and> meas_start_time_us s' = sdu \<and> drift_ctr s' = drift_ctr s"
  using assms by (simp add: drift_tick_def audio_datapath_drift_compensation_def Let_def
      drift_comp_state_set_def)

lemma drift_calib_tick:
  assumes "drift_state s = DRIFT_STATE_CALIB" and "unat (drift_ctr s) = 99"
    and "\<bar>sint (100000 - (sdu - meas_start_time_us s) :: u32)\<bar> \<le> 1000"
  shows "\<exists>s'. drift_tick e (sdu, ts) s = Some s' \<and> drift_state s' = DRIFT_STATE_OFFSET
    \<and> drift_ctr s' = 0 \<and> uint (center_freq s') = hfclkaudio s'
    \<and> APLL_FREQ_MIN \<le> hfclkaudio s' \<and> hfclkaudio s' \<le> APLL_FREQ_MAX
    \<and> hfclkaudio s' = APLL_FREQ_CENTER
        + c_div (- (sint (100000 - (sdu - meas_start_time_us s) :: u32) * 1000)) 331"
proof -
  let ?err = "sint (100000 - (sdu - meas_start_time_us s) :: u32)"
  obtain a where a: "APLL_FREQ_ADJ ?err = Some a" "\<bar>a\<bar> \<le> 1000 * 1000 div 331"
    by (rule APLL_FREQ_ADJ_ok [OF assms(3)]) (simp, blast)
  have range: "36824 \<le> 39846 + a" "39846 + a \<le> 42868"
    using a(2) by simp_all
  have val: "a = c_div (- (?err * 1000)) 331"
    using a(1) by (simp add: APLL_FREQ_ADJ_def split: if_splits)
  have c: "uint (of_int (39846 + a) :: u32) = 39846 + a"
    using range by (intro uint_of_int_u32) simp_all
  have ctr: "unat (drift_ctr s + 1) = 100"
    using assms(2) by (simp add: unat_word_ariths)
  show ?thesis
    using assms(1) a(1) range c ctr val
    by (simp add: drift_tick_def audio_datapath_drift_compensation_def Let_def drift_comp_state_set_def
        hfclkaudio_set_def wrap_u16_def)
qed

lemma drift_offset_tick:
  assumes "drift_state s = DRIFT_STATE_OFFSET" and "unat (drift_ctr s) = 99"
    and "\<bar>err_us_calculate sdu ts\<bar> < 32"
    and "APLL_FREQ_MIN \<le> uint (center_freq s)" and "uint (center_freq s) \<le> APLL_FREQ_MAX"
  shows "\<exists>s'. drift_tick e (sdu, ts) s = Some s' \<and> drift_state s' = DRIFT_STATE_LOCKED \<and> drift_ctr s' = 0
    \<and> hfclkaudio s' = max APLL_FREQ_MIN (min APLL_FREQ_MAX
        (uint (center_freq s) + c_div (- (c_div (err_us_calculate sdu ts) 2 * 1000)) 331))"
proof -
  let ?s = "(if is_headset e then s\<lparr>prev_pres_sdu_ref_us := sdu, prev_drift_sdu_ref_us := sdu\<rparr>
             else s\<lparr>prev_drift_sdu_ref_us := sdu\<rparr>)"
  let ?err = "c_div (err_us_calculate sdu ts) 2"
  have "\<bar>err_us_calculate sdu ts\<bar> div 2 \<le> 15"
    using assms(3) by linarith
  then have abs: "\<bar>?err\<bar> \<le> 15"
    by (simp add: c_div_abs)
  let ?a = "c_div (- (?err * 1000)) 331"
  have adj: "APLL_FREQ_ADJ ?err = Some ?a"
    using abs by (auto simp: APLL_FREQ_ADJ_def abs_le_iff)
  have "\<bar>- (?err * 1000)\<bar> div 331 \<le> 15000 div 331"
    using abs by (intro zdiv_mono1) simp_all
  then have "\<bar>?a\<bar> \<le> 45" by (simp add: c_div_abs)
  then have wrap: "wrap_u16 (uint (center_freq s) + ?a) = uint (center_freq s) + ?a"
    using assms(4,5) by (simp add: wrap_u16_def)
  have reg: "drift_regulate ts ?s = Some (?err, (?s\<lparr>drift_ctr := 0\<rparr>)\<lparr>hfclkaudio :=
      max APLL_FREQ_MIN (min APLL_FREQ_MAX (uint (center_freq s) + ?a))\<rparr>)"
    using wrap by (simp add: drift_regulate_def adj hfclkaudio_set_def Let_def)
  have err: "?err < 16" "- 16 < ?err" using abs by simp_all
  have ctr: "unat (drift_ctr s + 1) = 100"
    using assms(2) by (simp add: unat_word_ariths)
  show ?thesis
    using assms(1) reg err ctr
    by (cases "is_headset e") (simp_all add: drift_tick_def audio_datapath_drift_compensation_def Let_def
        drift_comp_state_set_def)
qed

text \<open>C32: Drift compensation locks. Starting in the INIT state with its counter at 0, as
  initialisation leaves it, if the reference times advance by 100 ms within 1000 microseconds over
  the first hundred blocks after the first reference, and the clock error is below 32 microseconds
  another hundred blocks later, then after exactly 201 block interrupts the state machine is LOCKED,
  whatever the reference and frame times in between. And the audio clock has then exactly the
  frequency that the two measurements ask for in unbounded arithmetic, limited to the range of the
  PLL: the centre frequency, moved by 1000/331 of the drift over the 100 ms and of half the last
  clock error; no step wraps in the 16-bit argument of the clock driver.\<close>

theorem drift_locks:
  assumes "drift_state s = DRIFT_STATE_INIT" and "drift_ctr s = 0" and "sdu0 \<noteq> 0"
    and "length ws = 99" and "length ws' = 99"
    and "\<bar>sint (100000 - (sdu1 - sdu0) :: u32)\<bar> \<le> 1000"
    and "\<bar>err_us_calculate sdu2 ts2\<bar> < 32"
  shows "\<exists>s'. drift_run e ((sdu0, ts0) # ws @ (sdu1, ts1) # ws' @ [(sdu2, ts2)]) s = Some s'
    \<and> drift_state s' = DRIFT_STATE_LOCKED \<and> drift_ctr s' = 0
    \<and> APLL_FREQ_MIN \<le> hfclkaudio s' \<and> hfclkaudio s' \<le> APLL_FREQ_MAX
    \<and> hfclkaudio s' = max APLL_FREQ_MIN (min APLL_FREQ_MAX
        (APLL_FREQ_CENTER + c_div (- (sint (100000 - (sdu1 - sdu0) :: u32) * 1000)) 331
           + c_div (- (c_div (err_us_calculate sdu2 ts2) 2 * 1000)) 331))"
proof -
  obtain s1 where s1: "drift_tick e (sdu0, ts0) s = Some s1" "drift_state s1 = DRIFT_STATE_CALIB"
      "meas_start_time_us s1 = sdu0" "drift_ctr s1 = 0"
    using drift_init_tick [OF assms(1,3)] assms(2) by metis
  obtain s2 where s2: "drift_run e ws s1 = Some s2" "drift_same s1 s2" "unat (drift_ctr s2) = 99"
    using drift_wait [of s1 ws e] s1 assms(4) by auto
  obtain s3 where s3: "drift_tick e (sdu1, ts1) s2 = Some s3" "drift_state s3 = DRIFT_STATE_OFFSET"
      "drift_ctr s3 = 0" "uint (center_freq s3) = hfclkaudio s3" "APLL_FREQ_MIN \<le> hfclkaudio s3"
      "hfclkaudio s3 \<le> APLL_FREQ_MAX"
      "hfclkaudio s3 = APLL_FREQ_CENTER + c_div (- (sint (100000 - (sdu1 - sdu0) :: u32) * 1000)) 331"
    using drift_calib_tick [of s2 sdu1 e ts1] s2 s1 assms(6) by (auto simp: drift_same_def)
  obtain s4 where s4: "drift_run e ws' s3 = Some s4" "drift_same s3 s4" "unat (drift_ctr s4) = 99"
    using drift_wait [of s3 ws' e] s3 assms(5) by auto
  have c4: "uint (center_freq s4) = hfclkaudio s3" using s4(2) s3(4) by (simp add: drift_same_def)
  obtain s5 where "drift_tick e (sdu2, ts2) s4 = Some s5" "drift_state s5 = DRIFT_STATE_LOCKED"
      "drift_ctr s5 = 0" "hfclkaudio s5 = max APLL_FREQ_MIN (min APLL_FREQ_MAX
        (hfclkaudio s3 + c_div (- (c_div (err_us_calculate sdu2 ts2) 2 * 1000)) 331))"
    using drift_offset_tick [of s4 sdu2 ts2 e] s4 s3 c4 assms(7) by (auto simp: drift_same_def)
  then show ?thesis
    using s1(1) s2(1) s3(1,7) s4(1) by (simp add: drift_run_append)
qed

theorem drift_locks_witness:
  "\<exists>s'. drift_run example_env ((1000, 0) # replicate 99 (0, 0) @ (101500, 0) # replicate 99 (0, 0) @ [(201010, 200999)])
      example_dp = Some s'
    \<and> drift_state s' = DRIFT_STATE_LOCKED \<and> hfclkaudio s' = 39846 + 1510 - 15"
proof -
  let ?xs = "(1000, 0) # replicate 99 (0, 0) @ (101500, 0) # replicate 99 (0, 0) @ [(201010, 200999)]"
  obtain s' where s': "drift_run example_env ?xs example_dp = Some s'" "drift_state s' = DRIFT_STATE_LOCKED"
      "hfclkaudio s' = max APLL_FREQ_MIN (min APLL_FREQ_MAX
        (APLL_FREQ_CENTER + c_div (- (sint (100000 - (101500 - 1000) :: u32) * 1000)) 331
           + c_div (- (c_div (err_us_calculate 201010 200999) 2 * 1000)) 331))"
    using drift_locks [of example_dp 1000 "replicate 99 (0, 0)" "replicate 99 (0, 0)" 101500 201010 200999 example_env 0 0]
    by (auto simp: example_dp_more err_us_calculate_def)
  have "sint (100000 - (101500 - 1000) :: u32) = - 500" by simp
  then show ?thesis
    using s' by (simp add: err_us_calculate_def c_div_def)
qed

section \<open>The sync LED\<close>

text \<open>The LEDs work: a board of the repository, initialised, with working GPIOs.\<close>

definition led_ok :: "dp_env \<Rightarrow> ctrl_blk \<Rightarrow> bool" where
  "led_ok e s \<longleftrightarrow> gpio_works (e_gpio e) \<and> (e_board e = audio_dk_leds \<or> e_board e = nrf5340dk_leds)
     \<and> led_inv (board_gpios (e_board e)) (leds s) \<and> led_initialized (leds s)"

definition sync_shown :: "dp_env \<Rightarrow> ctrl_blk \<Rightarrow> bool" where
  "sync_shown e s \<longleftrightarrow> displays (leds s) (led_audio_sync_status (e_board e))
     (if pres_state s = PRES_STATE_LOCKED then LED_COLOR_WHITE else LED_COLOR_OFF)"

lemma pres_comp_state_set_ok:
  assumes "led_ok e s"
  obtains l where "pres_comp_state_set e st s = Some (s\<lparr>pres_state := st, leds := l\<rparr>)"
    and "led_ok e (s\<lparr>pres_state := st, leds := l\<rparr>)"
    and "sync_shown e s \<Longrightarrow> sync_shown e (s\<lparr>pres_state := st, leds := l\<rparr>)"
proof (cases "st = pres_state s")
  case True
  then show thesis
    by (intro that [of "leds s"]) (use assms in \<open>simp_all add: pres_comp_state_set_def led_ok_def sync_shown_def\<close>)
next
  case False
  let ?u = "led_audio_sync_status (e_board e)" and ?g = "board_gpios (e_board e)"
  have ok: "gpio_works (e_gpio e)" "led_inv ?g (leds s)" "led_initialized (leds s)"
    using assms by (simp_all add: led_ok_def)
  have u: "?u < length ?g" "?g ! ?u = 1" "?u \<noteq> 255"
    using assms by (auto simp: led_ok_def audio_dk_leds_def nrf5340dk_leds_def)
  obtain l1 where l1: "led_set (e_gpio e) ?u 7 False (leds s) = Some (0, l1)" "led_inv ?g l1"
      "displays l1 ?u 7" "led_initialized l1"
    by (rule led_set_ok [OF ok(1,2), of ?u 7 False]) (use u ok(3) in auto)
  obtain l0 where l0: "led_set (e_gpio e) ?u 0 False (leds s) = Some (0, l0)" "led_inv ?g l0"
      "displays l0 ?u 0" "led_initialized l0"
    by (rule led_set_ok [OF ok(1,2), of ?u 0 False]) (use u ok(3) in auto)
  have on: "led_on (e_gpio e) ?u [] (leds s) = Some (0, l1)"
    using l1(1) u led_inv_units [OF ok(2)] by (simp add: led_on_def led_colored_def mem_simps)
  have off: "led_off (e_gpio e) ?u (leds s) = Some (0, l0)"
    using l0(1) u(3) by (simp add: led_off_def)
  let ?l = "if st = PRES_STATE_LOCKED then l1 else l0"
  show thesis
    by (rule that [of ?l])
      (use False on off l0 l1 assms in \<open>auto simp: pres_comp_state_set_def Let_def led_ok_def sync_shown_def\<close>)
qed

section \<open>Presentation compensation\<close>

text \<open>The presentation error of a frame: the wanted delay less the measured one.\<close>

definition pres_error :: "u32 \<Rightarrow> u32 \<Rightarrow> ctrl_blk \<Rightarrow> int" where
  "pres_error recv sdu_ref s = sint (pres_delay_us s - (recv - sdu_ref)) - uint (current_pres_dly_us s)"

lemma pres_adj_nearest:
  assumes "0 < FIFO_NUM_BLKS e"
  shows "\<bar>pres_adj_blks e adj\<bar> \<le> int (FIFO_NUM_BLKS e div 2)"
    and "\<bar>adj\<bar> < 1000 * int (FIFO_NUM_BLKS e div 2) \<Longrightarrow> \<bar>adj - 1000 * pres_adj_blks e adj\<bar> \<le> 500"
    and "\<bar>adj\<bar> < 500 \<Longrightarrow> pres_adj_blks e adj = 0"
proof -
  let ?h = "int (FIFO_NUM_BLKS e div 2)"
  let ?b = "if 0 \<le> adj then (adj + 500) div 1000 else - ((500 - adj) div 1000)"
  have b: "c_div (if 0 \<le> adj then adj + 500 else adj - 500) 1000 = ?b"
    using c_div_nonneg [of "adj + 500" 1000] c_div_nonneg [of "500 - adj" 1000] c_div_minus [of "500 - adj" 1000]
    by simp
  have blks: "pres_adj_blks e adj = (if ?h < ?b then ?h else if ?b < - ?h then - ?h else ?b)"
    using b by (cases "0 \<le> adj") (simp_all add: pres_adj_blks_def Let_def)
  show "\<bar>pres_adj_blks e adj\<bar> \<le> ?h"
    unfolding blks by simp
  have near: "\<bar>adj - 1000 * ?b\<bar> \<le> 500"
    using div_1000 [of "adj + 500"] div_1000 [of "500 - adj"] by (cases "0 \<le> adj") simp_all
  show "\<bar>adj - 1000 * pres_adj_blks e adj\<bar> \<le> 500" if "\<bar>adj\<bar> < 1000 * ?h"
  proof -
    have "\<not> ?h < ?b" "\<not> ?b < - ?h" using that near by linarith+
    then show ?thesis using near blks by simp
  qed
  show "pres_adj_blks e adj = 0" if "\<bar>adj\<bar> < 500"
  proof -
    have "?b = 0" using that by (auto simp: div_pos_pos_trivial)
    then show ?thesis using blks by simp
  qed
qed

lemma pres_insert_ok:
  assumes "wf_env e"
  shows "wf_fifo e s \<Longrightarrow> \<exists>f ts. pres_insert e recv k s
     = Some (s\<lparr>fifo := f, prod_blk_ts := ts, prod_blk_idx := idx_add e (prod_blk_idx s) k\<rparr>)
     \<and> wf_fifo e (s\<lparr>fifo := f, prod_blk_ts := ts, prod_blk_idx := idx_add e (prod_blk_idx s) k\<rparr>)"
proof (induction k arbitrary: s)
  case 0
  then show ?case
    by (intro exI [of _ "fifo s"] exI [of _ "prod_blk_ts s"]) (auto simp: wf_fifo_def idx_add_0)
next
  case (Suc k)
  let ?B = "BLK_STEREO_NUM_SAMPS e" and ?p = "prod_blk_idx s"
  have p: "?p < FIFO_NUM_BLKS e" using Suc.prems by (simp add: wf_fifo_def)
  have "?p * ?B + ?B \<le> length (fifo s)"
    using Suc.prems block_inside [OF p] by (simp add: wf_fifo_def)
  then obtain f where f: "wr_range (fifo s) (?p * ?B) (replicate ?B 0) = Some f"
    by (simp add: wr_range_def)
  have lf: "length f = length (fifo s)" using wr_range_length [OF f] .
  let ?s = "s\<lparr>fifo := f, prod_blk_ts := (prod_blk_ts s)[?p := recv - of_nat (Suc k * BLK_PERIOD_US)],
              prod_blk_idx := NEXT_IDX e ?p\<rparr>"
  have wf: "wf_fifo e ?s"
    using Suc.prems lf NEXT_IDX_less [OF assms] by (simp add: wf_fifo_def)
  have "pres_insert e recv (Suc k) s = pres_insert e recv k ?s"
    using f p Suc.prems by (simp add: wf_fifo_def wr_in)
  moreover have "idx_add e (NEXT_IDX e ?p) k = idx_add e ?p (Suc k)"
    by (rule idx_add_NEXT [OF assms p])
  ultimately show ?case
    using Suc.IH [OF wf] by fastforce
qed

text \<open>The \<open>k\<close>-th block before index \<open>i\<close>.\<close>

lemma pres_remove_idx:
  assumes "wf_env e" and "i < FIFO_NUM_BLKS e"
  shows "(PREV_IDX e ^^ k) i < FIFO_NUM_BLKS e \<and> idx_add e ((PREV_IDX e ^^ k) i) k = i"
proof (induction k)
  case 0
  then show ?case using assms(2) by (simp add: idx_add_0)
next
  case (Suc k)
  let ?j = "(PREV_IDX e ^^ k) i"
  have "idx_add e (PREV_IDX e ?j) (Suc k) = idx_add e (NEXT_IDX e (PREV_IDX e ?j)) k"
    using idx_add_NEXT [OF assms(1) PREV_IDX_less [OF assms(1)]] Suc by simp
  then show ?case
    using Suc NEXT_PREV [OF assms(1)] PREV_IDX_less [OF assms(1)] by simp
qed

lemma led_ok_cong: "leds s' = leds s \<Longrightarrow> led_ok e s' = led_ok e s"
  by (simp add: led_ok_def)

text \<open>The end of a measurement: the block adjustment.\<close>

text \<open>C34: The presentation delay is corrected to the nearest block. When drift compensation is
  locked and the measurement is complete, the mean error decides: at least 500 microseconds
  lead to the WAIT state, less to LOCKED; the producer index moves forwards or backwards by the
  whole number of blocks nearest to the mean error (within half a block, as long as it is
  smaller than half the FIFO; never by more than half the FIFO); the FIFO stays well formed and the
  consumer index is not touched.\<close>

theorem presentation_corrects:
  assumes "wf_fifo e s" and "led_ok e s" and "drift_state s = DRIFT_STATE_LOCKED"
    and "pres_state s = PRES_STATE_MEAS" and "PRES_COMP_NUM_DATA_PTS e \<le> unat (pres_ctr s)"
    and "adj = c_div (sum_err_dly_us s) (int (PRES_COMP_NUM_DATA_PTS e))"
  shows "\<exists>s' blks. audio_datapath_presentation_compensation e recv sdu_ref False s = Some s'
    \<and> wf_fifo e s' \<and> cons_blk_idx s' = cons_blk_idx s
    \<and> pres_state s' = (if 500 \<le> \<bar>adj\<bar> then PRES_STATE_WAIT else PRES_STATE_LOCKED)
    \<and> \<bar>blks\<bar> \<le> int (FIFO_NUM_BLKS e div 2)
    \<and> (\<bar>adj\<bar> < 1000 * int (FIFO_NUM_BLKS e div 2) \<longrightarrow> \<bar>adj - 1000 * blks\<bar> \<le> 500)
    \<and> (if 0 \<le> blks then prod_blk_idx s' = idx_add e (prod_blk_idx s) (nat blks)
       else idx_add e (prod_blk_idx s') (nat (- blks)) = prod_blk_idx s)"
proof -
  have w: "wf_env e" "prod_blk_idx s < FIFO_NUM_BLKS e" "0 < FIFO_NUM_BLKS e"
    using assms(1) by (auto simp: wf_fifo_def wf_env_def)
  let ?st = "if 500 \<le> \<bar>adj\<bar> then PRES_STATE_WAIT else PRES_STATE_LOCKED"
  let ?s = "s\<lparr>pres_ctr := 0\<rparr>"
  have "led_ok e ?s" using assms(2) by (simp add: led_ok_def)
  then obtain l where l: "pres_comp_state_set e ?st ?s = Some (?s\<lparr>pres_state := ?st, leds := l\<rparr>)"
    using pres_comp_state_set_ok by blast
  let ?t = "?s\<lparr>pres_state := ?st, leds := l\<rparr>"
  have abs: "(500 \<le> adj \<or> adj \<le> - 500) = (500 \<le> \<bar>adj\<bar>)" by linarith
  have sw: "pres_comp_switch e w s = Some (adj, ?t)" for w
    using assms(4,5,6) l abs by (simp add: pres_comp_switch_def Let_def not_less)
  have wf: "wf_fifo e ?t" using assms(1) by (simp add: wf_fifo_def)
  let ?b = "if adj = 0 then 0 else pres_adj_blks e adj"
  note near = pres_adj_nearest [OF w(3), of adj]
  have run: "audio_datapath_presentation_compensation e recv sdu_ref False s =
      (if 0 < ?b then pres_insert e recv (nat ?b) ?t
       else if ?b < 0 then Some (pres_remove e (nat (- ?b)) ?t) else Some ?t)"
    using assms(3) sw by (simp add: audio_datapath_presentation_compensation_def Let_def)
  have b: "\<bar>?b\<bar> \<le> int (FIFO_NUM_BLKS e div 2)"
      "\<bar>adj\<bar> < 1000 * int (FIFO_NUM_BLKS e div 2) \<longrightarrow> \<bar>adj - 1000 * ?b\<bar> \<le> 500"
    using near by auto
  consider "0 < ?b" | "?b < 0" | "?b = 0" by linarith
  then show ?thesis
  proof cases
    case 1
    obtain f ts where "pres_insert e recv (nat ?b) ?t
       = Some (?t\<lparr>fifo := f, prod_blk_ts := ts, prod_blk_idx := idx_add e (prod_blk_idx ?t) (nat ?b)\<rparr>)"
       "wf_fifo e (?t\<lparr>fifo := f, prod_blk_ts := ts, prod_blk_idx := idx_add e (prod_blk_idx ?t) (nat ?b)\<rparr>)"
      using pres_insert_ok [OF w(1) wf] by blast
    then show ?thesis
      using run 1 b by (intro exI [of _ "?t\<lparr>fifo := f, prod_blk_ts := ts,
            prod_blk_idx := idx_add e (prod_blk_idx ?t) (nat ?b)\<rparr>"] exI [of _ ?b]) simp
  next
    case 2
    let ?j = "(PREV_IDX e ^^ nat (- ?b)) (prod_blk_idx s)"
    have j: "?j < FIFO_NUM_BLKS e" "idx_add e ?j (nat (- ?b)) = prod_blk_idx s"
      using pres_remove_idx [OF w(1,2)] by blast+
    have "wf_fifo e (pres_remove e (nat (- ?b)) ?t)"
      using wf j(1) by (simp add: wf_fifo_def pres_remove_def)
    then show ?thesis
      using run 2 b j(2) by (intro exI [of _ "pres_remove e (nat (- ?b)) ?t"] exI [of _ ?b])
        (simp add: pres_remove_def)
  next
    case 3
    then show ?thesis
      using run b wf w(2) by (intro exI [of _ ?t] exI [of _ ?b]) (simp add: idx_add_0)
  qed
qed

text \<open>Runs of consecutive frames: the measured delay, the receive time, the reference time.\<close>

definition pres_tick :: "dp_env \<Rightarrow> u32 \<times> u32 \<times> u32 \<Rightarrow> ctrl_blk \<Rightarrow> ctrl_blk option" where
  "pres_tick e x s = (case x of (cur, recv, sdu_ref) \<Rightarrow>
     audio_datapath_presentation_compensation e recv sdu_ref False (s\<lparr>current_pres_dly_us := cur\<rparr>))"

fun pres_run :: "dp_env \<Rightarrow> (u32 \<times> u32 \<times> u32) list \<Rightarrow> ctrl_blk \<Rightarrow> ctrl_blk option" where
  "pres_run e [] s = Some s"
| "pres_run e (x # xs) s = do { s \<leftarrow> pres_tick e x s; pres_run e xs s }"

lemma pres_run_append: "pres_run e (xs @ ys) s = do { s \<leftarrow> pres_run e xs s; pres_run e ys s }"
  by (induction xs arbitrary: s) (auto split: bind_splits)

definition frame_error :: "u32 \<Rightarrow> u32 \<times> u32 \<times> u32 \<Rightarrow> int" where
  "frame_error dly x = (case x of (cur, recv, sdu_ref) \<Rightarrow> sint (dly - (recv - sdu_ref)) - uint cur)"

text \<open>The part of the state that measuring leaves alone.\<close>

definition pres_same :: "ctrl_blk \<Rightarrow> ctrl_blk \<Rightarrow> bool" where
  "pres_same s s' \<longleftrightarrow> drift_state s' = drift_state s \<and> pres_delay_us s' = pres_delay_us s
     \<and> queue_view s' = queue_view s"

lemma pres_meas_tick:
  assumes "drift_state s = DRIFT_STATE_LOCKED" and "pres_state s = PRES_STATE_MEAS"
    and "unat (pres_ctr s) < PRES_COMP_NUM_DATA_PTS e" and "PRES_COMP_NUM_DATA_PTS e \<le> 100"
    and "\<bar>sum_err_dly_us s\<bar> \<le> 499 * int (unat (pres_ctr s))"
    and "\<bar>frame_error (pres_delay_us s) x\<bar> < 500"
  shows "\<exists>s'. pres_tick e x s = Some s' \<and> pres_same s s' \<and> pres_state s' = PRES_STATE_MEAS
    \<and> leds s' = leds s \<and> unat (pres_ctr s') = unat (pres_ctr s) + 1
    \<and> \<bar>sum_err_dly_us s'\<bar> \<le> 499 * int (unat (pres_ctr s'))"
proof -
  obtain cur recv sdu where x: "x = (cur, recv, sdu)" by (cases x) auto
  let ?e = "frame_error (pres_delay_us s) x"
  have ctr: "unat (pres_ctr s + 1) = unat (pres_ctr s) + 1"
    using assms(3,4) by (simp add: unat_word_ariths)
  have sum: "\<bar>sum_err_dly_us s + ?e\<bar> \<le> 499 * int (unat (pres_ctr s + 1))"
    using assms(5,6) ctr by simp
  have "int (unat (pres_ctr s + 1)) \<le> 100"
    using assms(3,4) ctr by linarith
  then have "\<bar>sum_err_dly_us s + ?e\<bar> \<le> 49900"
    using sum by linarith
  then have "- (2 ^ 31) \<le> sum_err_dly_us s + ?e" "sum_err_dly_us s + ?e < 2 ^ 31"
    unfolding abs_le_iff by simp_all
  then have "i32 (sum_err_dly_us s + ?e) = sum_err_dly_us s + ?e"
    by (rule i32_id)
  moreover note sum
  moreover have "uint w = int (unat w)" for w :: u16
    by simp
  from this [of "pres_ctr s + 1"] this [of "pres_ctr s"]
  have "uint (pres_ctr s + 1) = uint (pres_ctr s) + 1"
    using ctr by linarith
  ultimately show ?thesis
    using assms(1,2,3) ctr x
    by (simp add: pres_tick_def audio_datapath_presentation_compensation_def pres_comp_switch_def
        frame_error_def Let_def pres_same_def queue_view_def)
qed

lemma pres_meas_run:
  assumes "PRES_COMP_NUM_DATA_PTS e \<le> 100"
  shows "drift_state s = DRIFT_STATE_LOCKED \<Longrightarrow> pres_state s = PRES_STATE_MEAS \<Longrightarrow>
    unat (pres_ctr s) + length xs \<le> PRES_COMP_NUM_DATA_PTS e \<Longrightarrow>
    \<bar>sum_err_dly_us s\<bar> \<le> 499 * int (unat (pres_ctr s)) \<Longrightarrow>
    \<forall>x\<in>set xs. \<bar>frame_error (pres_delay_us s) x\<bar> < 500 \<Longrightarrow>
    \<exists>s'. pres_run e xs s = Some s' \<and> pres_same s s' \<and> pres_state s' = PRES_STATE_MEAS
    \<and> leds s' = leds s \<and> unat (pres_ctr s') = unat (pres_ctr s) + length xs
    \<and> \<bar>sum_err_dly_us s'\<bar> \<le> 499 * int (unat (pres_ctr s'))"
proof (induction xs arbitrary: s)
  case Nil
  then show ?case by (simp add: pres_same_def)
next
  case (Cons x xs)
  have lt: "unat (pres_ctr s) < PRES_COMP_NUM_DATA_PTS e" and err: "\<bar>frame_error (pres_delay_us s) x\<bar> < 500"
    using Cons.prems(3,5) by simp_all
  obtain s1 where s1: "pres_tick e x s = Some s1" "pres_same s s1" "pres_state s1 = PRES_STATE_MEAS"
      "leds s1 = leds s" "unat (pres_ctr s1) = unat (pres_ctr s) + 1"
      "\<bar>sum_err_dly_us s1\<bar> \<le> 499 * int (unat (pres_ctr s1))"
    using pres_meas_tick [OF Cons.prems(1,2) lt assms Cons.prems(4) err] by blast
  have "\<exists>s'. pres_run e xs s1 = Some s' \<and> pres_same s1 s' \<and> pres_state s' = PRES_STATE_MEAS
    \<and> leds s' = leds s1 \<and> unat (pres_ctr s') = unat (pres_ctr s1) + length xs
    \<and> \<bar>sum_err_dly_us s'\<bar> \<le> 499 * int (unat (pres_ctr s'))"
    by (rule Cons.IH) (use s1 Cons.prems in \<open>simp_all add: pres_same_def\<close>)
  then show ?case
    using s1 by (auto simp: pres_same_def)
qed

text \<open>C33: Presentation compensation locks without touching the audio when the delay is right. With
  drift compensation locked, starting in INIT, if the presentation errors of the measured frames are
  all below 500 microseconds, then after one frame to start, PRES_COMP_NUM_DATA_PTS frames to
  measure and one to decide, the state machine is LOCKED and the sync LED lit; no block was
  inserted or removed: the FIFO contents and both indices are unchanged.\<close>

theorem presentation_locks:
  assumes "led_ok e s" and "sync_shown e s" and "wf_fifo e s"
    and "drift_state s = DRIFT_STATE_LOCKED" and "pres_state s = PRES_STATE_INIT"
    and "0 < PRES_COMP_NUM_DATA_PTS e" and "PRES_COMP_NUM_DATA_PTS e \<le> 100"
    and "length xs = PRES_COMP_NUM_DATA_PTS e"
    and "\<forall>x\<in>set xs. \<bar>frame_error (pres_delay_us s) x\<bar> < 500"
  shows "\<exists>s'. pres_run e (x0 # xs @ [x1]) s = Some s' \<and> pres_state s' = PRES_STATE_LOCKED
    \<and> queue_view s' = queue_view s
    \<and> displays (leds s') (led_audio_sync_status (e_board e)) LED_COLOR_WHITE"
proof -
  obtain cur0 recv0 sdu0 cur1 recv1 sdu1 where x: "x0 = (cur0, recv0, sdu0)" "x1 = (cur1, recv1, sdu1)"
    by (cases x0; cases x1) auto
  let ?s = "s\<lparr>current_pres_dly_us := cur0, pres_ctr := 0, sum_err_dly_us := 0\<rparr>"
  have a0: "led_ok e ?s" and b0: "sync_shown e ?s"
    using assms(1,2) by (simp_all add: led_ok_def sync_shown_def)
  obtain l where l: "pres_comp_state_set e PRES_STATE_MEAS ?s = Some (?s\<lparr>pres_state := PRES_STATE_MEAS, leds := l\<rparr>)"
      "led_ok e (?s\<lparr>pres_state := PRES_STATE_MEAS, leds := l\<rparr>)"
      "sync_shown e (?s\<lparr>pres_state := PRES_STATE_MEAS, leds := l\<rparr>)"
    by (rule pres_comp_state_set_ok [OF a0, of PRES_STATE_MEAS]) (use b0 in blast)
  let ?s1 = "?s\<lparr>pres_state := PRES_STATE_MEAS, leds := l\<rparr>"
  have t0: "pres_tick e x0 s = Some ?s1"
    using l(1) assms(4,5) x by (simp add: pres_tick_def audio_datapath_presentation_compensation_def
        pres_comp_switch_def Let_def)
  obtain s2 where s2: "pres_run e xs ?s1 = Some s2" "pres_same ?s1 s2" "pres_state s2 = PRES_STATE_MEAS"
      "leds s2 = l" "unat (pres_ctr s2) = length xs" "\<bar>sum_err_dly_us s2\<bar> \<le> 499 * int (length xs)"
  proof -
    have "\<exists>s2. pres_run e xs ?s1 = Some s2 \<and> pres_same ?s1 s2 \<and> pres_state s2 = PRES_STATE_MEAS
        \<and> leds s2 = leds ?s1 \<and> unat (pres_ctr s2) = unat (pres_ctr ?s1) + length xs
        \<and> \<bar>sum_err_dly_us s2\<bar> \<le> 499 * int (unat (pres_ctr s2))"
      by (rule pres_meas_run [OF assms(7)]) (use assms(4,8,9) in simp_all)
    then show ?thesis using that by fastforce
  qed
  let ?n = "int (PRES_COMP_NUM_DATA_PTS e)"
  let ?adj = "c_div (sum_err_dly_us s2) ?n"
  have "\<bar>sum_err_dly_us s2\<bar> \<le> ?n * 499" using s2(6) assms(8) by simp
  then have adj: "\<bar>?adj\<bar> \<le> 499" using assms(6) by (intro c_div_bounds) simp_all
  then have nl: "\<not> (500 \<le> ?adj \<or> ?adj \<le> - 500)" by linarith
  let ?t = "s2\<lparr>current_pres_dly_us := cur1, pres_ctr := 0\<rparr>"
  have a1: "led_ok e ?t" and b1: "sync_shown e ?t"
    using l(2,3) s2(3,4) by (simp_all add: led_ok_def sync_shown_def)
  obtain l' where l': "pres_comp_state_set e PRES_STATE_LOCKED ?t = Some (?t\<lparr>pres_state := PRES_STATE_LOCKED, leds := l'\<rparr>)"
      "sync_shown e (?t\<lparr>pres_state := PRES_STATE_LOCKED, leds := l'\<rparr>)"
    by (rule pres_comp_state_set_ok [OF a1, of PRES_STATE_LOCKED]) (use b1 in blast)
  let ?s3 = "?t\<lparr>pres_state := PRES_STATE_LOCKED, leds := l'\<rparr>"
  have N: "0 < FIFO_NUM_BLKS e" using assms(3) by (auto simp: wf_fifo_def wf_env_def)
  have "pres_adj_blks e ?adj = 0"
    using pres_adj_nearest(3) [OF N] adj by simp
  moreover have "pres_comp_switch e w (s2\<lparr>current_pres_dly_us := cur1\<rparr>) = Some (?adj, ?s3)" for w
    using s2(3,5) assms(8) l'(1) nl by (simp add: pres_comp_switch_def Let_def)
  moreover have "drift_state s2 = DRIFT_STATE_LOCKED"
    using s2(2) assms(4) by (simp add: pres_same_def)
  ultimately have t1: "pres_tick e x1 s2 = Some ?s3"
    using x by (simp add: pres_tick_def audio_datapath_presentation_compensation_def Let_def)
  have "queue_view ?s3 = queue_view s"
    using s2(2) by (simp add: pres_same_def queue_view_def)
  moreover have "displays (leds ?s3) (led_audio_sync_status (e_board e)) LED_COLOR_WHITE"
    using l'(2) by (simp add: sync_shown_def)
  ultimately show ?thesis
    using t0 s2(1) t1 by (intro exI [of _ ?s3]) (simp add: pres_run_append)
qed

section \<open>Examples\<close>

definition example_leds :: led_state where
  "example_leds = snd (led_init (\<lambda>u j. True) (\<lambda>u j. 0) (led_boot [1, 1, 1]))"

lemma example_leds_ok: "led_inv [1, 1, 1] example_leds" "led_initialized example_leds"
proof -
  have "wf_gpios [1, 1, 1]" by (simp add: wf_gpios_def)
  then obtain s where "led_init (\<lambda>u j. True) (\<lambda>u j. 0) (led_boot [1, 1, 1]) = (0, s)"
      "led_inv [1, 1, 1] s" "led_initialized s"
    by (rule led_init_ok)
  then show "led_inv [1, 1, 1] example_leds" "led_initialized example_leds"
    by (simp_all add: example_leds_def)
qed

definition example_locked :: "pres_comp_state \<Rightarrow> ctrl_blk" where
  "example_locked st = example_dp\<lparr>leds := example_leds, drift_state := DRIFT_STATE_LOCKED, pres_state := st,
     pres_ctr := 100, sum_err_dly_us := 123400, pres_delay_us := 2000\<rparr>"

lemma example_locked_simps:
  "led_ok example_env (example_locked st)" "wf_fifo example_env (example_locked st)"
  "drift_state (example_locked st) = DRIFT_STATE_LOCKED" "pres_state (example_locked st) = st"
  "pres_ctr (example_locked st) = 100" "sum_err_dly_us (example_locked st) = 123400"
  "pres_delay_us (example_locked st) = 2000" "PRES_COMP_NUM_DATA_PTS example_env = 100"
proof -
  show "led_ok example_env (example_locked st)"
    using example_leds_ok
    by (simp add: led_ok_def example_locked_def gpio_works_def example_env_def nrf5340dk_leds_def)
  show "wf_fifo example_env (example_locked st)"
    by (simp add: wf_fifo_def wf_env_def example_locked_def example_dp_simps example_consts)
qed (simp_all add: example_locked_def PRES_COMP_NUM_DATA_PTS_def example_env_def)

lemma example_sync_shown: "sync_shown example_env (example_locked PRES_STATE_INIT)"
proof -
  have "\<not> pin_level (led_log example_leds) 1 0"
    by (simp add: example_leds_def led_init_def led_boot_def upt_rec Let_def)
  moreover have "num_gpios (led_units example_leds ! 1) = 1"
    by (simp add: example_leds_def led_init_def led_boot_def upt_rec Let_def)
  ultimately show ?thesis
    by (simp add: sync_shown_def displays_def example_locked_def example_env_def nrf5340dk_leds_def
        color_pin_def)
qed

theorem presentation_corrects_witness:
  "\<exists>s' blks. audio_datapath_presentation_compensation example_env 5000 4000 False
      (example_locked PRES_STATE_MEAS) = Some s'
    \<and> wf_fifo example_env s' \<and> cons_blk_idx s' = cons_blk_idx (example_locked PRES_STATE_MEAS)
    \<and> pres_state s' = (if 500 \<le> \<bar>1234 :: int\<bar> then PRES_STATE_WAIT else PRES_STATE_LOCKED)
    \<and> \<bar>blks\<bar> \<le> int (FIFO_NUM_BLKS example_env div 2)
    \<and> (\<bar>1234\<bar> < 1000 * int (FIFO_NUM_BLKS example_env div 2) \<longrightarrow> \<bar>1234 - 1000 * blks\<bar> \<le> 500)
    \<and> (if 0 \<le> blks
       then prod_blk_idx s' = idx_add example_env (prod_blk_idx (example_locked PRES_STATE_MEAS)) (nat blks)
       else idx_add example_env (prod_blk_idx s') (nat (- blks)) = prod_blk_idx (example_locked PRES_STATE_MEAS))"
  by (rule presentation_corrects) (simp_all add: example_locked_simps c_div_nonneg)

theorem presentation_locks_witness:
  "\<exists>s'. pres_run example_env ((0, 0, 0) # replicate 100 (900, 2000, 1000) @ [(0, 0, 0)])
      (example_locked PRES_STATE_INIT) = Some s'
    \<and> pres_state s' = PRES_STATE_LOCKED
    \<and> queue_view s' = queue_view (example_locked PRES_STATE_INIT)
    \<and> displays (leds s') (led_audio_sync_status (e_board example_env)) LED_COLOR_WHITE"
  by (rule presentation_locks) (simp_all add: example_locked_simps example_sync_shown frame_error_def)

end
