(* ===== verification/DatapathSafety.thy ===== *)
theory DatapathSafety
  imports DatapathSync
begin

text \<open>
  The audio datapath as a system: every entry point is an event, and an invariant shows that no
  order of events reaches undefined behaviour, a failed assertion or a tripped \<open>ERR_CHK\<close>.
\<close>

section \<open>Events\<close>

datatype dp_event =
  Ev_frame audio_frame
| Ev_block bool u32 "int list option"
| Ev_start "int list list"
| Ev_stop
| Ev_sdu_ref sdu_ref_msg
| Ev_pres_delay u32
| Ev_tone_play nat nat c_float
| Ev_tone_stop
| Ev_tone_timer
| Ev_tone_work
| Ev_drift_enable
| Ev_drift_disable
| Ev_pres_enable
| Ev_pres_disable
| Ev_encoder_get
| Ev_buffer_unref

definition dp_step :: "dp_env \<Rightarrow> dp_event \<Rightarrow> ctrl_blk \<Rightarrow> ctrl_blk option" where
  "dp_step e ev s = (case ev of
     Ev_frame f \<Rightarrow> audio_datapath_stream_out e (Some f) s
   | Ev_block streaming ts rx \<Rightarrow> i2s_comp_handler e streaming ts rx s
   | Ev_start q \<Rightarrow> map_option snd (audio_datapath_start e q s)
   | Ev_stop \<Rightarrow> map_option snd (audio_datapath_stop e s)
   | Ev_sdu_ref m \<Rightarrow> Some (audio_datapath_sdu_ref_update e m s)
   | Ev_pres_delay d \<Rightarrow> Some (snd (audio_datapath_pres_delay_us_set e d s))
   | Ev_tone_play f d a \<Rightarrow> Some (snd (audio_datapath_tone_play e f d a s))
   | Ev_tone_stop \<Rightarrow> Some (snd (cmd_i2s_tone_stop s))
   | Ev_tone_timer \<Rightarrow> Some (tone_stop_timer_handler s)
   | Ev_tone_work \<Rightarrow> Some (tone_stop_worker s)
   | Ev_drift_enable \<Rightarrow> Some (snd (cmd_hfclkaudio_drift_comp_enable s))
   | Ev_drift_disable \<Rightarrow> Some (snd (cmd_hfclkaudio_drift_comp_disable s))
   | Ev_pres_enable \<Rightarrow> Some (snd (cmd_audio_pres_comp_enable s))
   | Ev_pres_disable \<Rightarrow> map_option snd (cmd_audio_pres_comp_disable e s)
   | Ev_encoder_get \<Rightarrow> Some (s\<lparr>audio_q := tl (audio_q s)\<rparr>)
   | Ev_buffer_unref \<Rightarrow> Some (s\<lparr>pool_avail := pool_avail s + 1\<rparr>))"

text \<open>
  What the environment has to respect: I2S interrupts only while the stream runs, with a receive
  buffer if there is reception, with a free receive buffer or a queued one to drop, and a reference
  time that did not jump by more than two seconds during calibration. A frame that reaches the
  decoder has to be decoded: when decoding fails, the code goes on with an uninitialised size.
\<close>

definition ev_ok :: "dp_env \<Rightarrow> dp_event \<Rightarrow> ctrl_blk \<Rightarrow> bool" where
  "ev_ok e ev s = (case ev of
     Ev_frame f \<Rightarrow> taken_up f s \<longrightarrow> snd (e_decode e f) \<noteq> None
   | Ev_block streaming ts rx \<Rightarrow> stream_started s \<and> (rx_on e \<longrightarrow> rx \<noteq> None)
       \<and> (rx_on e \<longrightarrow> 0 < pool_avail s \<or> audio_q s \<noteq> []) \<and> (drift_enabled s \<longrightarrow> drift_jump_ok e s)
   | Ev_start q \<Rightarrow> length q \<le> audio_q_max e
   | _ \<Rightarrow> True)"

fun dp_run :: "dp_env \<Rightarrow> dp_event list \<Rightarrow> ctrl_blk \<Rightarrow> ctrl_blk option" where
  "dp_run e [] s = Some s"
| "dp_run e (ev # evs) s = do { s \<leftarrow> dp_step e ev s; dp_run e evs s }"

fun evs_ok :: "dp_env \<Rightarrow> dp_event list \<Rightarrow> ctrl_blk \<Rightarrow> bool" where
  "evs_ok e [] s = True"
| "evs_ok e (ev # evs) s =
     (ev_ok e ev s \<and> (case dp_step e ev s of None \<Rightarrow> True | Some s' \<Rightarrow> evs_ok e evs s'))"

text \<open>
  What is relied on of the code outside: the mixer and the tone generator succeed, a frame decoded
  to the size of one frame is that many samples, and mixing keeps the sizes.
\<close>

definition externals_ok :: "dp_env \<Rightarrow> bool" where
  "externals_ok e \<longleftrightarrow> codec_ok e \<and> wf_env e \<and> 0 < audio_q_max e
     \<and> (\<forall>n l p. fst (e_contin e n l p) = 0)
     \<and> (\<forall>a b. fst (e_pcm_mix e a b) = 0 \<and> length (snd (e_pcm_mix e a b)) = length a)"

section \<open>Invariant\<close>

text \<open>
  The alternate buffers marked in use are exactly those that I2S plays or will play next, and
  they are different.
\<close>

definition alt_inv :: "tx_ptr \<Rightarrow> tx_ptr \<Rightarrow> ctrl_blk \<Rightarrow> bool" where
  "alt_inv cur nxt s \<longleftrightarrow> buf_0_in_use s = (cur = Tx_alt0 \<or> nxt = Tx_alt0)
     \<and> buf_1_in_use s = (cur = Tx_alt1 \<or> nxt = Tx_alt1)
     \<and> (cur = nxt \<longrightarrow> cur \<noteq> Tx_alt0 \<and> cur \<noteq> Tx_alt1)"

definition i2s_inv :: "dp_env \<Rightarrow> ctrl_blk \<Rightarrow> bool" where
  "i2s_inv e s \<longleftrightarrow>
     (if stream_started s
      then i2s_state (i2s s) = AUDIO_I2S_STATE_STARTED
         \<and> (\<exists>nxt. i2s_next (i2s s) = Some nxt
              \<and> (tx_on e \<longrightarrow> i2s_cur (i2s s) \<noteq> Tx_null \<and> nxt \<noteq> Tx_null \<and> alt_inv (i2s_cur (i2s s)) nxt s))
      else i2s_state (i2s s) = AUDIO_I2S_STATE_IDLE \<and> \<not> buf_0_in_use s \<and> \<not> buf_1_in_use s)"

definition dp_inv :: "dp_env \<Rightarrow> ctrl_blk \<Rightarrow> bool" where
  "dp_inv e s \<longleftrightarrow> wf_fifo e s \<and> led_ok e s \<and> sync_shown e s \<and> (pres_enabled s \<longrightarrow> drift_enabled s)
     \<and> datapath_initialized s \<and> i2s_inv e s
     \<and> APLL_FREQ_MIN \<le> hfclkaudio s \<and> hfclkaudio s \<le> APLL_FREQ_MAX
     \<and> length (audio_q s) \<le> audio_q_max e"

lemmas dp_inv_defs = dp_inv_def wf_fifo_def led_ok_def sync_shown_def i2s_inv_def alt_inv_def

text \<open>The fields of the invariant that the presentation compensation leaves alone.\<close>

definition outside_pres :: "ctrl_blk \<Rightarrow> ctrl_blk \<Rightarrow> bool" where
  "outside_pres s s' \<longleftrightarrow> pres_enabled s' = pres_enabled s \<and> drift_enabled s' = drift_enabled s
     \<and> datapath_initialized s' = datapath_initialized s \<and> stream_started s' = stream_started s
     \<and> i2s s' = i2s s \<and> buf_0_in_use s' = buf_0_in_use s \<and> buf_1_in_use s' = buf_1_in_use s
     \<and> hfclkaudio s' = hfclkaudio s \<and> audio_q s' = audio_q s \<and> drift_state s' = drift_state s"

definition pres_inv :: "dp_env \<Rightarrow> ctrl_blk \<Rightarrow> bool" where
  "pres_inv e s \<longleftrightarrow> wf_fifo e s \<and> led_ok e s \<and> sync_shown e s"

lemma i2s_inv_cong:
  "stream_started s' = stream_started s \<Longrightarrow> i2s s' = i2s s \<Longrightarrow> buf_0_in_use s' = buf_0_in_use s \<Longrightarrow>
   buf_1_in_use s' = buf_1_in_use s \<Longrightarrow> i2s_inv e s' = i2s_inv e s"
  by (simp add: i2s_inv_def alt_inv_def)

lemma dp_inv_outside:
  assumes "dp_inv e s" and "outside_pres s s'" and "pres_inv e s'"
  shows "dp_inv e s'"
proof -
  have "i2s_inv e s' = i2s_inv e s"
    using assms(2) by (intro i2s_inv_cong) (simp_all add: outside_pres_def)
  then show ?thesis
    using assms by (simp add: dp_inv_def pres_inv_def outside_pres_def)
qed

lemma dp_inv_pres: "dp_inv e s \<Longrightarrow> pres_inv e s"
  by (simp add: dp_inv_def pres_inv_def)

lemma outside_trans: "outside_pres s s' \<Longrightarrow> outside_pres s' s'' \<Longrightarrow> outside_pres s s''"
  by (simp add: outside_pres_def)

lemma pres_set_inv:
  assumes "pres_inv e s"
  shows "\<exists>s'. pres_comp_state_set e st s = Some s' \<and> pres_inv e s' \<and> outside_pres s s'"
proof -
  have ok: "led_ok e s" "sync_shown e s" "wf_fifo e s"
    using assms by (simp_all add: pres_inv_def)
  obtain l where "pres_comp_state_set e st s = Some (s\<lparr>pres_state := st, leds := l\<rparr>)"
      "led_ok e (s\<lparr>pres_state := st, leds := l\<rparr>)" "sync_shown e (s\<lparr>pres_state := st, leds := l\<rparr>)"
    by (rule pres_comp_state_set_ok [OF ok(1), of st]) (use ok(2) in blast)
  then show ?thesis
    using ok(3) by (simp add: pres_inv_def outside_pres_def wf_fifo_def)
qed

lemma pres_fields_inv:
  "pres_inv e (s\<lparr>pres_ctr := c\<rparr>) = pres_inv e s" "outside_pres s (s\<lparr>pres_ctr := c\<rparr>)"
  "pres_inv e (s\<lparr>pres_ctr := c, sum_err_dly_us := n\<rparr>) = pres_inv e s"
  "outside_pres s (s\<lparr>pres_ctr := c, sum_err_dly_us := n\<rparr>)"
  by (simp_all add: pres_inv_def outside_pres_def wf_fifo_def led_ok_def sync_shown_def)

lemma pres_switch_inv:
  assumes "pres_inv e s"
  shows "\<exists>adj s'. pres_comp_switch e w s = Some (adj, s') \<and> pres_inv e s' \<and> outside_pres s s'"
proof (cases "pres_state s")
  case PRES_STATE_INIT
  obtain s' where "pres_comp_state_set e PRES_STATE_MEAS (s\<lparr>pres_ctr := 0, sum_err_dly_us := 0\<rparr>) = Some s'"
      "pres_inv e s'" "outside_pres (s\<lparr>pres_ctr := 0, sum_err_dly_us := 0\<rparr>) s'"
    using pres_set_inv assms pres_fields_inv(3) by blast
  then show ?thesis
    using PRES_STATE_INIT outside_trans [OF pres_fields_inv(4)] by (auto simp: pres_comp_switch_def)
next
  case PRES_STATE_MEAS
  show ?thesis
  proof (cases "unat (pres_ctr s) < PRES_COMP_NUM_DATA_PTS e")
    case True
    then show ?thesis
      using PRES_STATE_MEAS assms by (auto simp: pres_comp_switch_def pres_fields_inv)
  next
    case False
    let ?adj = "c_div (sum_err_dly_us s) (int (PRES_COMP_NUM_DATA_PTS e))"
    obtain s' where "pres_comp_state_set e (if 500 \<le> ?adj \<or> ?adj \<le> - 500 then PRES_STATE_WAIT
        else PRES_STATE_LOCKED) (s\<lparr>pres_ctr := 0\<rparr>) = Some s'"
        "pres_inv e s'" "outside_pres (s\<lparr>pres_ctr := 0\<rparr>) s'"
      using pres_set_inv assms pres_fields_inv(1) by blast
    then show ?thesis
      using PRES_STATE_MEAS False outside_trans [OF pres_fields_inv(2)]
      by (auto simp: pres_comp_switch_def Let_def)
  qed
next
  case PRES_STATE_WAIT
  let ?s = "s\<lparr>pres_ctr := pres_ctr s + 1\<rparr>"
  obtain s' where "pres_comp_state_set e PRES_STATE_INIT ?s = Some s'" "pres_inv e s'" "outside_pres ?s s'"
    using pres_set_inv assms pres_fields_inv(1) by blast
  then show ?thesis
    using PRES_STATE_WAIT assms pres_fields_inv(1,2) outside_trans [OF pres_fields_inv(2)]
    by (auto simp: pres_comp_switch_def Let_def)
next
  case PRES_STATE_LOCKED
  then show ?thesis
    using assms by (simp add: pres_comp_switch_def outside_pres_def)
qed

lemma pres_move_inv:
  assumes "pres_inv e s"
  shows "\<exists>s'. (if 0 < b then pres_insert e recv (nat b) s
               else if b < 0 then Some (pres_remove e (nat (- b)) s) else Some s) = Some s'
           \<and> pres_inv e s' \<and> outside_pres s s'"
proof -
  have w: "wf_env e" "wf_fifo e s" "prod_blk_idx s < FIFO_NUM_BLKS e"
    using assms by (auto simp: pres_inv_def wf_fifo_def)
  consider "0 < b" | "b < 0" | "b = 0" by linarith
  then show ?thesis
  proof cases
    case 1
    then show ?thesis
      using pres_insert_ok [OF w(1,2), of recv "nat b"] assms
      by (auto simp: pres_inv_def outside_pres_def led_ok_def sync_shown_def)
  next
    case 2
    then show ?thesis
      using pres_remove_idx [OF w(1,3), of "nat (- b)"] assms
      by (auto simp: pres_inv_def outside_pres_def led_ok_def sync_shown_def pres_remove_def wf_fifo_def)
  next
    case 3
    then show ?thesis using assms by (simp add: outside_pres_def)
  qed
qed

lemma presentation_inv:
  assumes "pres_inv e s"
  shows "\<exists>s'. audio_datapath_presentation_compensation e recv sdu nc s = Some s'
           \<and> pres_inv e s' \<and> outside_pres s s'"
proof (cases "drift_state s = DRIFT_STATE_LOCKED")
  case False
  then show ?thesis
    using pres_set_inv [OF assms] by (simp add: audio_datapath_presentation_compensation_def)
next
  case True
  obtain s1 where s1: "(if nc then pres_comp_state_set e PRES_STATE_WAIT (s\<lparr>pres_ctr := 0\<rparr>) else Some s) = Some s1"
      "pres_inv e s1" "outside_pres s s1"
  proof (cases nc)
    case True
    obtain s' where "pres_comp_state_set e PRES_STATE_WAIT (s\<lparr>pres_ctr := 0\<rparr>) = Some s'" "pres_inv e s'"
        "outside_pres (s\<lparr>pres_ctr := 0\<rparr>) s'"
      using pres_set_inv assms pres_fields_inv(1) by blast
    then show ?thesis using that True outside_trans [OF pres_fields_inv(2)] by auto
  next
    case False
    then show ?thesis using that assms by (auto simp: outside_pres_def)
  qed
  obtain adj s2 where s2: "pres_comp_switch e (sint (pres_delay_us s1 - (recv - sdu))) s1 = Some (adj, s2)"
      "pres_inv e s2" "outside_pres s1 s2"
    using pres_switch_inv [OF s1(2)] by blast
  obtain s3 where s3: "(if 0 < pres_adj_blks e adj then pres_insert e recv (nat (pres_adj_blks e adj)) s2
               else if pres_adj_blks e adj < 0 then Some (pres_remove e (nat (- pres_adj_blks e adj)) s2)
               else Some s2) = Some s3" "pres_inv e s3" "outside_pres s2 s3"
    using pres_move_inv [OF s2(2)] by blast
  have "audio_datapath_presentation_compensation e recv sdu nc s = (if adj = 0 then Some s2 else Some s3)"
    using True s1(1) s2(1) s3(1) by (simp add: audio_datapath_presentation_compensation_def Let_def)
  then show ?thesis
    using s2 s3 s1(3) outside_trans by metis
qed

section \<open>The single operations\<close>

lemma stream_out_loop_safe:
  assumes "wf_fifo e s" and "length (decoded_data s) = NUM_BLKS_IN_FRAME e * BLK_STEREO_NUM_SAMPS e"
  shows "\<exists>s'. fifo_put e rx s = Some s' \<and> wf_fifo e s' \<and> (\<exists>f ts i. s' = s\<lparr>fifo := f, prod_blk_ts := ts, prod_blk_idx := i\<rparr>)"
proof (cases "FIFO_NUM_BLKS e < filled_blocks_get e s + NUM_BLKS_IN_FRAME e")
  case True
  then show ?thesis
    using assms(1) by (auto simp: fifo_put_def intro!: exI [of _ "fifo s"] exI [of _ "prod_blk_ts s"]
        exI [of _ "prod_blk_idx s"])
next
  case False
  have w: "wf_env e" "prod_blk_idx s < FIFO_NUM_BLKS e" "NUM_BLKS_IN_FRAME e < FIFO_NUM_BLKS e"
    "length (fifo s) = FIFO_NUM_BLKS e * BLK_STEREO_NUM_SAMPS e" "length (prod_blk_ts s) = FIFO_NUM_BLKS e"
    using assms(1) by (auto simp: wf_fifo_def wf_env_def)
  obtain s1 where s1: "stream_out_loop e rx 0 (NUM_BLKS_IN_FRAME e) (prod_blk_idx s) s
        = Some (idx_add e (prod_blk_idx s) (NUM_BLKS_IN_FRAME e), s1)" "same_but_fifo s s1"
    using stream_out_loop_ok [OF w(1,4,5,2), of 0 "NUM_BLKS_IN_FRAME e" rx] assms(2) w(3) by auto
  obtain f ts where f: "s1 = s\<lparr>fifo := f, prod_blk_ts := ts\<rparr>" "length f = length (fifo s)"
      "length ts = length (prod_blk_ts s)"
    using s1(2) by (auto simp: same_but_fifo_def)
  have "wf_fifo e (s1\<lparr>prod_blk_idx := idx_add e (prod_blk_idx s) (NUM_BLKS_IN_FRAME e)\<rparr>)"
    using assms(1) f idx_add_less [OF w(1)] by (simp add: wf_fifo_def)
  then show ?thesis
    using False s1(1) f(1) by (auto simp: fifo_put_def)
qed

lemma dp_inv_fields:
  "dp_inv e s \<Longrightarrow> dp_inv e (s\<lparr>prev_pres_sdu_ref_us := r\<rparr>)"
  "dp_inv e s \<Longrightarrow> dp_inv e (s\<lparr>decoded_data := d\<rparr>)"
  by (auto simp: dp_inv_def wf_fifo_def led_ok_def sync_shown_def i2s_inv_def alt_inv_def)

lemma stream_out_inv:
  assumes "externals_ok e" and "dp_inv e s" and "taken_up f s \<Longrightarrow> snd (e_decode e f) \<noteq> None"
  shows "\<exists>s'. audio_datapath_stream_out e (Some f) s = Some s' \<and> dp_inv e s'"
proof (cases "stream_started s \<and> \<not> (ref_ts_us f = prev_pres_sdu_ref_us s \<and> ref_ts_us f \<noteq> 0)")
  case False
  then show ?thesis
    using assms(2) by (auto simp: audio_datapath_stream_out_def)
next
  case True
  obtain ref nc where ref: "sdu_ref_check e (prev_pres_sdu_ref_us s) (ref_ts_us f) = (ref, nc)"
    by fastforce
  have nd: "(ref_ts_us f = prev_pres_sdu_ref_us s \<and> ref_ts_us f \<noteq> 0) = False"
    using True by simp
  let ?s = "s\<lparr>prev_pres_sdu_ref_us := ref\<rparr>"
  have inv: "dp_inv e ?s" by (rule dp_inv_fields(1) [OF assms(2)])
  obtain s1 where s1: "(if pres_enabled ?s
      then audio_datapath_presentation_compensation e (data_rx_ts_us f) ref nc ?s else Some ?s) = Some s1"
      "dp_inv e s1"
  proof (cases "pres_enabled ?s")
    case True
    obtain s' where "audio_datapath_presentation_compensation e (data_rx_ts_us f) ref nc ?s = Some s'"
        "pres_inv e s'" "outside_pres ?s s'"
      using presentation_inv [OF dp_inv_pres [OF inv]] by blast
    then show ?thesis using that True dp_inv_outside [OF inv] by simp
  next
    case False
    then show ?thesis using that inv by simp
  qed
  obtain pcm n where pn: "snd (e_decode e (f\<lparr>ref_ts_us := ref\<rparr>)) = Some (pcm, n)"
    using assms(1,3) True by (cases "e_decode e f") (auto simp: externals_ok_def codec_ok_def taken_up_def)
  let ?pcm = "if sd_card_playback e then e_sd_mix e pcm n else pcm"
  let ?t = "s1\<lparr>decoded_data := ?pcm\<rparr>"
  have invt: "dp_inv e ?t" by (rule dp_inv_fields(2) [OF s1(2)])
  have run: "audio_datapath_stream_out e (Some f) s =
     (if n \<noteq> BLK_STEREO_SIZE_OCTETS e * NUM_BLKS_IN_FRAME e then Some ?t else fifo_put e (data_rx_ts_us f) ?t)"
    unfolding audio_datapath_stream_out_def
    using True nd ref s1(1) pn by (auto simp: Let_def simp del: if_split split: prod.splits)
  show ?thesis
  proof (cases "n = BLK_STEREO_SIZE_OCTETS e * NUM_BLKS_IN_FRAME e")
    case False
    then show ?thesis using run invt by simp
  next
    case True
    then have "length (decoded_data ?t) = NUM_BLKS_IN_FRAME e * BLK_STEREO_NUM_SAMPS e"
      using pn assms(1) by (auto simp: externals_ok_def codec_ok_def)
    then obtain s' fi ts i where s': "fifo_put e (data_rx_ts_us f) ?t = Some s'" "wf_fifo e s'"
        "s' = ?t\<lparr>fifo := fi, prod_blk_ts := ts, prod_blk_idx := i\<rparr>"
      using stream_out_loop_safe [of e ?t] invt unfolding dp_inv_def by blast
    have "i2s_inv e s' = i2s_inv e ?t" by (intro i2s_inv_cong) (simp_all add: s'(3))
    then have "dp_inv e s'"
      using invt s'(2) unfolding dp_inv_def by (simp add: s'(3) led_ok_def sync_shown_def)
    then show ?thesis using run True s'(1) by simp
  qed
qed

text \<open>Drift compensation keeps the clock in range and touches nothing else of the invariant.\<close>

definition outside_drift :: "ctrl_blk \<Rightarrow> ctrl_blk \<Rightarrow> bool" where
  "outside_drift s s' \<longleftrightarrow> pres_enabled s' = pres_enabled s \<and> drift_enabled s' = drift_enabled s
     \<and> datapath_initialized s' = datapath_initialized s \<and> stream_started s' = stream_started s
     \<and> i2s s' = i2s s \<and> buf_0_in_use s' = buf_0_in_use s \<and> buf_1_in_use s' = buf_1_in_use s
     \<and> audio_q s' = audio_q s \<and> queue_view s' = queue_view s \<and> leds s' = leds s
     \<and> pres_state s' = pres_state s"

definition drift_keeps :: "ctrl_blk \<Rightarrow> ctrl_blk \<Rightarrow> bool" where
  "drift_keeps s s' \<longleftrightarrow> outside_drift s s' \<and> APLL_FREQ_MIN \<le> hfclkaudio s' \<and> hfclkaudio s' \<le> APLL_FREQ_MAX"

lemma drift_keeps_intros:
  "drift_keeps s t \<Longrightarrow> drift_keeps s (t\<lparr>drift_ctr := c\<rparr>)"
  "drift_keeps s t \<Longrightarrow> drift_keeps s (t\<lparr>meas_start_time_us := u\<rparr>)"
  "drift_keeps s t \<Longrightarrow> drift_keeps s (t\<lparr>prev_drift_sdu_ref_us := u\<rparr>)"
  "drift_keeps s t \<Longrightarrow> drift_keeps s (t\<lparr>center_freq := u\<rparr>)"
  "drift_keeps s t \<Longrightarrow> drift_keeps s (drift_comp_state_set st t)"
  "drift_keeps s t \<Longrightarrow> drift_keeps s (hfclkaudio_set x t)"
  by (simp_all add: drift_keeps_def outside_drift_def queue_view_def drift_comp_state_set_def
      hfclkaudio_set_def Let_def)

lemma drift_inv:
  assumes "audio_datapath_drift_compensation e ts s = Some s'"
    and "APLL_FREQ_MIN \<le> hfclkaudio s" "hfclkaudio s \<le> APLL_FREQ_MAX"
  shows "drift_keeps s s'"
proof -
  define t where "t = (if is_headset e then s\<lparr>prev_drift_sdu_ref_us := prev_pres_sdu_ref_us s\<rparr> else s)"
  have "drift_keeps s s"
    using assms(2,3) by (simp add: drift_keeps_def outside_drift_def)
  then have t: "drift_keeps s t" and st: "drift_state t = drift_state s" "drift_ctr t = drift_ctr s"
    by (simp_all add: t_def drift_keeps_intros)
  have reg: "drift_keeps s u" if "drift_regulate ts t = Some (err, u)" for err u
    using that t by (auto simp: drift_regulate_def Let_def intro!: drift_keeps_intros split: bind_splits)
  show ?thesis
    using assms(1) t reg st unfolding audio_datapath_drift_compensation_def Let_def t_def [symmetric]
    by (cases "drift_state s") (auto intro!: drift_keeps_intros split: if_splits bind_splits)
qed

lemma outside_drift_inv:
  assumes "dp_inv e s" and "drift_keeps s s'"
  shows "dp_inv e s'"
proof -
  have o: "outside_drift s s'" using assms(2) by (simp add: drift_keeps_def)
  have "i2s_inv e s' = i2s_inv e s"
    using o by (intro i2s_inv_cong) (simp_all add: outside_drift_def)
  moreover have "wf_fifo e s' = wf_fifo e s"
    using o by (intro queue_view_cong(1)) (simp add: outside_drift_def)
  ultimately show ?thesis
    using assms by (simp add: dp_inv_def drift_keeps_def outside_drift_def led_ok_def sync_shown_def)
qed

section \<open>The I2S interrupt\<close>

text \<open>What the transmit and the receive half leave alone.\<close>

definition tx_keeps :: "ctrl_blk \<Rightarrow> ctrl_blk \<Rightarrow> bool" where
  "tx_keeps s s' \<longleftrightarrow> pres_enabled s' = pres_enabled s \<and> drift_enabled s' = drift_enabled s
     \<and> datapath_initialized s' = datapath_initialized s \<and> stream_started s' = stream_started s
     \<and> i2s s' = i2s s \<and> hfclkaudio s' = hfclkaudio s \<and> leds s' = leds s \<and> pres_state s' = pres_state s
     \<and> drift_state s' = drift_state s \<and> meas_start_time_us s' = meas_start_time_us s
     \<and> prev_drift_sdu_ref_us s' = prev_drift_sdu_ref_us s
     \<and> prev_pres_sdu_ref_us s' = prev_pres_sdu_ref_us s"

definition q_keeps :: "ctrl_blk \<Rightarrow> ctrl_blk \<Rightarrow> bool" where
  "q_keeps s s' \<longleftrightarrow> audio_q s' = audio_q s \<and> pool_avail s' = pool_avail s"

definition alt_keeps :: "ctrl_blk \<Rightarrow> ctrl_blk \<Rightarrow> bool" where
  "alt_keeps s s' \<longleftrightarrow> buf_0_in_use s' = buf_0_in_use s \<and> buf_1_in_use s' = buf_1_in_use s \<and> tx_buf s' = tx_buf s"

lemmas keeps_defs = tx_keeps_def q_keeps_def alt_keeps_def

lemma tx_next_inv:
  assumes "wf_fifo e s" and "buf_0_in_use s = (cur = Tx_alt0)" and "buf_1_in_use s = (cur = Tx_alt1)"
  shows "\<exists>s'. tx_next e streaming s = Some s' \<and> wf_fifo e s' \<and> tx_buf s' \<noteq> Tx_null
           \<and> alt_inv cur (tx_buf s') s' \<and> (\<exists>b. tx_read e (tx_buf s') s' = Some b \<and> length b = BLK_STEREO_NUM_SAMPS e)
           \<and> tx_keeps s s' \<and> q_keeps s s' \<and> tone_active s' = tone_active s"
proof (cases "NEXT_IDX e (cons_blk_idx s) = prod_blk_idx s")
  case True
  then show ?thesis
    using assms by (cases cur) (auto simp: tx_next_def alt_buffer_get_def tx_write_def tx_read_def
        alt_inv_def keeps_defs wf_fifo_def Let_def)
next
  case False
  have n: "NEXT_IDX e (cons_blk_idx s) < FIFO_NUM_BLKS e"
    using assms(1) NEXT_IDX_less by (simp add: wf_fifo_def)
  have "NEXT_IDX e (cons_blk_idx s) * BLK_STEREO_NUM_SAMPS e + BLK_STEREO_NUM_SAMPS e \<le> length (fifo s)"
    using block_inside [OF n, of "BLK_STEREO_NUM_SAMPS e"] assms(1) by (simp add: wf_fifo_def)
  then show ?thesis
    using assms n False by (auto simp: tx_next_def tx_read_def mem_simps alt_inv_def keeps_defs
        wf_fifo_def Let_def)
qed

lemma tone_mix_inv:
  assumes "externals_ok e" and "wf_fifo e s" and "tx_read e p s = Some b"
    and "length b = BLK_STEREO_NUM_SAMPS e"
  shows "\<exists>s'. tone_mix e p s = Some s' \<and> wf_fifo e s' \<and> tx_keeps s s' \<and> q_keeps s s' \<and> alt_keeps s s'"
proof -
  obtain ret tb pos where c: "e_contin e (BLK_MONO_NUM_SAMPS e) (test_tone s) (tone_pos s) = (ret, tb, pos)"
    by (cases "e_contin e (BLK_MONO_NUM_SAMPS e) (test_tone s) (tone_pos s)") auto
  obtain r m where m: "e_pcm_mix e b tb = (r, m)" by fastforce
  have ok: "ret = 0" "r = 0" "length m = length b"
    using assms(1) c m unfolding externals_ok_def by (metis fst_conv snd_conv)+
  have rd: "tx_read e p (s\<lparr>tone_pos := pos\<rparr>) = Some b"
    using assms(3) by (simp add: tx_read_def split: tx_ptr.splits)
  have "\<exists>s'. tx_write e p m (s\<lparr>tone_pos := pos\<rparr>) = Some s' \<and> wf_fifo e s' \<and> tx_keeps s s' \<and> q_keeps s s' \<and> alt_keeps s s'"
    using assms(2,3,4) ok(3)
    by (cases p) (auto simp: tx_read_def tx_write_def rd_range_def wr_range_def wf_fifo_def keeps_defs
        split: if_splits)
  then show ?thesis
    using c m ok rd by (simp add: tone_mix_def)
qed

lemma i2s_tx_inv:
  assumes "externals_ok e" and "wf_fifo e s" and "rel \<noteq> Tx_null"
    and "buf_0_in_use s = (cur = Tx_alt0)" and "buf_1_in_use s = (cur = Tx_alt1)"
  shows "\<exists>s'. i2s_tx e streaming rel s = Some s' \<and> wf_fifo e s' \<and> tx_buf s' \<noteq> Tx_null
           \<and> alt_inv cur (tx_buf s') s' \<and> tx_keeps s s' \<and> q_keeps s s'"
proof -
  obtain s1 b where s1: "tx_next e streaming s = Some s1" "wf_fifo e s1" "tx_buf s1 \<noteq> Tx_null"
      "alt_inv cur (tx_buf s1) s1" "tx_read e (tx_buf s1) s1 = Some b" "length b = BLK_STEREO_NUM_SAMPS e"
      "tx_keeps s s1" "q_keeps s s1"
    using tx_next_inv [OF assms(2,4,5)] by blast
  obtain s2 where s2: "tone_mix e (tx_buf s1) s1 = Some s2" "wf_fifo e s2" "tx_keeps s1 s2" "q_keeps s1 s2"
      "alt_keeps s1 s2"
    using tone_mix_inv [OF assms(1) s1(2,5,6)] by blast
  have "alt_inv cur (tx_buf s2) s2" "tx_buf s2 \<noteq> Tx_null" "tx_keeps s s2" "q_keeps s s2"
    using s1 s2 by (simp_all add: alt_inv_def keeps_defs)
  then show ?thesis
    using s1 s2 assms(3) by (cases "tone_active s1") (auto simp: i2s_tx_def)
qed

lemma i2s_rx_inv:
  assumes "0 < audio_q_max e" and "length (audio_q s) \<le> audio_q_max e" and "rx \<noteq> None"
    and "0 < pool_avail s \<or> audio_q s \<noteq> []" and "wf_fifo e s"
  shows "\<exists>s'. i2s_rx e rx s = Some s' \<and> length (audio_q s') \<le> audio_q_max e \<and> wf_fifo e s'
           \<and> tx_keeps s s' \<and> alt_keeps s s'"
proof (cases "audio_q_max e \<le> length (audio_q s) \<or> pool_avail s = 0")
  case True
  then obtain b q where "audio_q s = b # q"
    using assms(1,4) by (cases "audio_q s") auto
  then show ?thesis
    using assms True by (auto simp: i2s_rx_def keeps_defs wf_fifo_def Let_def)
next
  case False
  then show ?thesis
    using assms by (auto simp: i2s_rx_def keeps_defs wf_fifo_def Let_def)
qed

lemma tx_keeps_trans: "tx_keeps s s' \<Longrightarrow> tx_keeps s' s'' \<Longrightarrow> tx_keeps s s''"
  by (simp add: tx_keeps_def)

lemma blk_complete_inv:
  assumes "externals_ok e" and "wf_fifo e s" and "length (audio_q s) \<le> audio_q_max e"
    and "i2s_state (i2s s) = AUDIO_I2S_STATE_STARTED" and "drift_enabled s \<longrightarrow> drift_jump_ok e s"
    and "APLL_FREQ_MIN \<le> hfclkaudio s" and "hfclkaudio s \<le> APLL_FREQ_MAX"
    and "rx_on e \<longrightarrow> rx \<noteq> None \<and> (0 < pool_avail s \<or> audio_q s \<noteq> [])"
    and "tx_on e \<longrightarrow> rel \<noteq> Tx_null \<and> i2s_cur (i2s s) \<noteq> Tx_null \<and> alt_inv rel (i2s_cur (i2s s)) s"
  shows "\<exists>s1 s'. audio_datapath_i2s_blk_complete e streaming ts rx rel s = Some s' \<and> tx_keeps s s1
           \<and> length (audio_q s1) \<le> audio_q_max e \<and> wf_fifo e s1
           \<and> (tx_on e \<longrightarrow> tx_buf s1 \<noteq> Tx_null \<and> alt_inv (i2s_cur (i2s s)) (tx_buf s1) s1)
           \<and> drift_keeps (s1\<lparr>i2s := (i2s s)\<lparr>i2s_next := Some (tx_buf s1)\<rparr>\<rparr>) s'"
proof -
  let ?cur = "i2s_cur (i2s s)"
  let ?s0 = "alt_buffer_free rel (s\<lparr>num_calls := num_calls s + 1\<rparr>)"
  obtain t where t: "rd (prod_blk_ts ?s0) (cons_blk_idx ?s0) = Some t"
    using assms(2) by (auto simp: wf_fifo_def rd_def alt_buffer_free_def)
  define s1 where "s1 = ?s0\<lparr>current_pres_dly_us := ts - t\<rparr>"
  have k1: "tx_keeps s s1" "q_keeps s s1" and w1: "wf_fifo e s1"
    using assms(2) by (simp_all add: s1_def alt_buffer_free_def keeps_defs wf_fifo_def)
  have alt1: "buf_0_in_use s1 = (?cur = Tx_alt0) \<and> buf_1_in_use s1 = (?cur = Tx_alt1)" if "tx_on e"
    using assms(9) that by (auto simp: s1_def alt_buffer_free_def alt_inv_def)
  obtain s2 where s2: "(if tx_on e then i2s_tx e streaming rel s1 else Some s1) = Some s2" "wf_fifo e s2"
      "tx_keeps s1 s2" "q_keeps s1 s2" "tx_on e \<longrightarrow> tx_buf s2 \<noteq> Tx_null \<and> alt_inv ?cur (tx_buf s2) s2"
  proof (cases "tx_on e")
    case True
    then show ?thesis
      using i2s_tx_inv [OF assms(1) w1, of rel ?cur streaming] alt1 assms(9) that by auto
  next
    case False
    then show ?thesis using that [of s1] w1 by (simp add: keeps_defs)
  qed
  obtain s3 where s3: "(if rx_on e then i2s_rx e rx s2 else Some s2) = Some s3"
      "length (audio_q s3) \<le> audio_q_max e" "wf_fifo e s3" "tx_keeps s2 s3" "alt_keeps s2 s3"
  proof (cases "rx_on e")
    case True
    have "0 < audio_q_max e" using assms(1) by (simp add: externals_ok_def)
    then have "\<exists>s'. i2s_rx e rx s2 = Some s' \<and> length (audio_q s') \<le> audio_q_max e \<and> wf_fifo e s'
        \<and> tx_keeps s2 s' \<and> alt_keeps s2 s'"
      using True assms(3,8) k1 s2(2,4) by (intro i2s_rx_inv) (simp_all add: q_keeps_def)
    then show ?thesis using that True by auto
  next
    case False
    then show ?thesis using that [of s2] assms(3) k1 s2(2,4) by (simp add: keeps_defs)
  qed
  have k: "tx_keeps s s3" using k1(1) s2(3) s3(4) by (blast intro: tx_keeps_trans)
  have alt3: "tx_on e \<longrightarrow> tx_buf s3 \<noteq> Tx_null \<and> alt_inv ?cur (tx_buf s3) s3"
    using s2(5) s3(5) by (simp add: alt_inv_def alt_keeps_def)
  have nx: "audio_i2s_set_next_buf e (tx_buf s3) (rx \<noteq> None) (i2s s3) = Some ((i2s s)\<lparr>i2s_next := Some (tx_buf s3)\<rparr>)"
    using k alt3 assms(4,8) by (auto simp: audio_i2s_set_next_buf_def tx_keeps_def)
  let ?s4 = "s3\<lparr>i2s := (i2s s)\<lparr>i2s_next := Some (tx_buf s3)\<rparr>\<rparr>"
  have fr: "APLL_FREQ_MIN \<le> hfclkaudio ?s4" "hfclkaudio ?s4 \<le> APLL_FREQ_MAX"
    using k assms(6,7) by (simp_all add: tx_keeps_def)
  obtain s5 where s5: "(if drift_enabled ?s4 then audio_datapath_drift_compensation e ts ?s4 else Some ?s4) = Some s5"
      "drift_keeps ?s4 s5"
  proof (cases "drift_enabled s3")
    case True
    have "drift_jump_ok e ?s4"
      using True assms(5) k by (cases "is_headset e") (simp_all add: drift_jump_ok_def tx_keeps_def)
    then obtain s' where "audio_datapath_drift_compensation e ts ?s4 = Some s'"
      using drift_compensation_ok by blast
    then show ?thesis using that True drift_inv [OF _ fr] by simp
  next
    case False
    then show ?thesis using that fr by (simp add: drift_keeps_def outside_drift_def)
  qed
  have "audio_datapath_i2s_blk_complete e streaming ts rx rel s = Some s5"
    unfolding audio_datapath_i2s_blk_complete_def Let_def
    by (simp only: t s1_def [symmetric] s2(1) s3(1) nx s5(1) Option.bind.bind_lunit)
  then show ?thesis
    using k s3(2,3) alt3 s5(2) by blast
qed

lemma handler_inv:
  assumes "externals_ok e" and "dp_inv e s" and "ev_ok e (Ev_block streaming ts rx) s"
  shows "\<exists>s'. i2s_comp_handler e streaming ts rx s = Some s' \<and> dp_inv e s'"
proof -
  have ok: "stream_started s" "rx_on e \<longrightarrow> rx \<noteq> None \<and> (0 < pool_avail s \<or> audio_q s \<noteq> [])"
      "drift_enabled s \<longrightarrow> drift_jump_ok e s"
    using assms(3) by (auto simp: ev_ok_def)
  have inv: "wf_fifo e s" "led_ok e s" "sync_shown e s" "length (audio_q s) \<le> audio_q_max e"
      "APLL_FREQ_MIN \<le> hfclkaudio s" "hfclkaudio s \<le> APLL_FREQ_MAX" "i2s_inv e s"
      "pres_enabled s \<longrightarrow> drift_enabled s" "datapath_initialized s"
    using assms(2) by (simp_all add: dp_inv_def)
  let ?rel = "i2s_cur (i2s s)"
  obtain nxt where n: "i2s_next (i2s s) = Some nxt" "i2s_state (i2s s) = AUDIO_I2S_STATE_STARTED"
      "tx_on e \<longrightarrow> ?rel \<noteq> Tx_null \<and> nxt \<noteq> Tx_null \<and> alt_inv ?rel nxt s"
    using inv(7) ok(1) by (auto simp: i2s_inv_def)
  let ?s = "s\<lparr>i2s := (i2s s)\<lparr>i2s_cur := nxt, i2s_next := None\<rparr>\<rparr>"
  have "\<not> (rx = None \<and> ?rel = Tx_null)"
    using n(3) ok(2) by (auto simp: tx_on_def rx_on_def)
  then have run: "i2s_comp_handler e streaming ts rx s = audio_datapath_i2s_blk_complete e streaming ts rx ?rel ?s"
    using n(1) by (auto simp: i2s_comp_handler_def)
  have "wf_fifo e ?s = wf_fifo e s" "drift_jump_ok e ?s = drift_jump_ok e s"
    by (simp_all add: wf_fifo_def drift_jump_ok_def)
  then have "\<exists>s1 s'. audio_datapath_i2s_blk_complete e streaming ts rx ?rel ?s = Some s' \<and> tx_keeps ?s s1
           \<and> length (audio_q s1) \<le> audio_q_max e \<and> wf_fifo e s1
           \<and> (tx_on e \<longrightarrow> tx_buf s1 \<noteq> Tx_null \<and> alt_inv (i2s_cur (i2s ?s)) (tx_buf s1) s1)
           \<and> drift_keeps (s1\<lparr>i2s := (i2s ?s)\<lparr>i2s_next := Some (tx_buf s1)\<rparr>\<rparr>) s'"
    using inv ok n by (intro blk_complete_inv [OF assms(1)]) (simp_all add: alt_inv_def)
  then obtain s1 s' where s': "audio_datapath_i2s_blk_complete e streaming ts rx ?rel ?s = Some s'"
      "tx_keeps ?s s1" "length (audio_q s1) \<le> audio_q_max e" "wf_fifo e s1"
      "tx_on e \<longrightarrow> tx_buf s1 \<noteq> Tx_null \<and> alt_inv nxt (tx_buf s1) s1"
      "drift_keeps (s1\<lparr>i2s := (i2s ?s)\<lparr>i2s_next := Some (tx_buf s1)\<rparr>\<rparr>) s'"
    by auto
  let ?s2 = "s1\<lparr>i2s := (i2s ?s)\<lparr>i2s_next := Some (tx_buf s1)\<rparr>\<rparr>"
  have "i2s_inv e ?s2"
    using s'(2,5) n ok(1) by (simp add: i2s_inv_def alt_inv_def tx_keeps_def)
  moreover have "wf_fifo e ?s2" using s'(4) by (simp add: wf_fifo_def)
  ultimately have "dp_inv e ?s2"
    using inv s'(2,3) by (simp add: dp_inv_def tx_keeps_def led_ok_def sync_shown_def)
  then show ?thesis
    using run s'(1) outside_drift_inv [OF _ s'(6)] by auto
qed

section \<open>The other events\<close>

lemma start_inv:
  assumes "dp_inv e s" and "length q \<le> audio_q_max e"
  shows "\<exists>r s'. audio_datapath_start e q s = Some (r, s') \<and> dp_inv e s'"
proof (cases "stream_started s")
  case True
  then show ?thesis
    using assms by (simp add: audio_datapath_start_def dp_inv_def)
next
  case False
  have w: "wf_env e" "i2s_state (i2s s) = AUDIO_I2S_STATE_IDLE" "\<not> buf_0_in_use s" "\<not> buf_1_in_use s"
    using assms(1) False by (auto simp: dp_inv_def wf_fifo_def i2s_inv_def)
  have i: "PREV_IDX e (PREV_IDX e 0) < FIFO_NUM_BLKS e" "0 < FIFO_NUM_BLKS e"
    using PREV_IDX_less [OF w(1)] w(1) by (auto simp: wf_env_def)
  have l: "MAX_FIFO_SIZE e = FIFO_NUM_BLKS e * BLK_STEREO_NUM_SAMPS e"
    by (simp add: MAX_FIFO_SIZE_def BLK_STEREO_NUM_SAMPS_def)
  show ?thesis
    using assms w i False l
    by (cases "tx_on e")
      (simp_all add: audio_datapath_start_def audio_datapath_i2s_start_def audio_i2s_start_def
        audio_i2s_set_next_buf_def dp_inv_defs Let_def)
qed

lemma stop_inv:
  assumes "dp_inv e s"
  shows "\<exists>r s'. audio_datapath_stop e s = Some (r, s') \<and> dp_inv e s'"
proof (cases "stream_started s")
  case False
  then show ?thesis
    using assms by (simp add: audio_datapath_stop_def)
next
  case True
  let ?h = "(i2s s)\<lparr>i2s_state := AUDIO_I2S_STATE_IDLE\<rparr>"
  let ?s = "alt_buffer_free_both (s\<lparr>stream_started := False, i2s := ?h\<rparr>)\<lparr>prev_pres_sdu_ref_us := 0, prev_drift_sdu_ref_us := 0\<rparr>"
  have "i2s_state (i2s s) = AUDIO_I2S_STATE_STARTED"
    using assms True by (auto simp: dp_inv_def i2s_inv_def)
  then have "audio_datapath_i2s_stop (s\<lparr>stream_started := False\<rparr>)
      = Some (alt_buffer_free_both (s\<lparr>stream_started := False, i2s := ?h\<rparr>))"
    by (simp add: audio_datapath_i2s_stop_def audio_i2s_stop_def)
  then have run: "audio_datapath_stop e s = map_option (Pair 0) (pres_comp_state_set e PRES_STATE_INIT ?s)"
    using True by (cases "pres_comp_state_set e PRES_STATE_INIT ?s") (simp_all add: audio_datapath_stop_def)
  have inv: "dp_inv e ?s"
    using assms by (auto simp: dp_inv_def wf_fifo_def led_ok_def sync_shown_def i2s_inv_def alt_buffer_free_both_def)
  obtain s' where s': "pres_comp_state_set e PRES_STATE_INIT ?s = Some s'" "pres_inv e s'" "outside_pres ?s s'"
    using pres_set_inv [OF dp_inv_pres [OF inv]] by blast
  then show ?thesis
    using run dp_inv_outside [OF inv] by auto
qed

text \<open>Two states that agree on what the invariant reads.\<close>

definition dp_same :: "ctrl_blk \<Rightarrow> ctrl_blk \<Rightarrow> bool" where
  "dp_same s s' \<longleftrightarrow> fifo s' = fifo s \<and> prod_blk_ts s' = prod_blk_ts s \<and> prod_blk_idx s' = prod_blk_idx s
     \<and> cons_blk_idx s' = cons_blk_idx s \<and> leds s' = leds s \<and> pres_state s' = pres_state s
     \<and> datapath_initialized s' = datapath_initialized s \<and> stream_started s' = stream_started s
     \<and> i2s s' = i2s s \<and> buf_0_in_use s' = buf_0_in_use s \<and> buf_1_in_use s' = buf_1_in_use s
     \<and> hfclkaudio s' = hfclkaudio s"

lemma dp_inv_same:
  assumes "dp_inv e s" and "dp_same s s'" and "pres_enabled s' \<longrightarrow> drift_enabled s'"
    and "length (audio_q s') \<le> audio_q_max e"
  shows "dp_inv e s'"
proof -
  have "i2s_inv e s' = i2s_inv e s"
    using assms(2) by (intro i2s_inv_cong) (simp_all add: dp_same_def)
  then show ?thesis
    using assms by (simp add: dp_inv_def dp_same_def wf_fifo_def led_ok_def sync_shown_def)
qed

lemma dp_inv_flags: "dp_inv e s \<Longrightarrow> (pres_enabled s \<longrightarrow> drift_enabled s) \<and> length (audio_q s) \<le> audio_q_max e"
  by (simp add: dp_inv_def)

lemma pres_disable_inv:
  assumes "dp_inv e s"
  shows "\<exists>r s'. cmd_audio_pres_comp_disable e s = Some (r, s') \<and> dp_inv e s'"
proof -
  have inv: "dp_inv e (s\<lparr>pres_enabled := False\<rparr>)"
    using dp_inv_flags [OF assms] by (intro dp_inv_same [OF assms]) (simp_all add: dp_same_def)
  then obtain s' where "pres_comp_state_set e PRES_STATE_INIT (s\<lparr>pres_enabled := False\<rparr>) = Some s'"
      "pres_inv e s'" "outside_pres (s\<lparr>pres_enabled := False\<rparr>) s'"
    using pres_set_inv [OF dp_inv_pres [OF inv]] by blast
  then show ?thesis
    using dp_inv_outside [OF inv] by (simp add: cmd_audio_pres_comp_disable_def)
qed

text \<open>The fields that the remaining events change are not those of the invariant.\<close>

lemma tone_inv:
  assumes "dp_inv e s"
  shows "dp_inv e (snd (audio_datapath_tone_play e f d a s))" and "dp_inv e (audio_datapath_tone_stop s)"
    and "dp_inv e (tone_stop_timer_handler s)" and "dp_inv e (tone_stop_worker s)"
  using dp_inv_flags [OF assms]
  by (auto intro!: dp_inv_same [OF assms] simp: dp_same_def audio_datapath_tone_play_def
      audio_datapath_tone_stop_def tone_stop_timer_handler_def tone_stop_worker_def Let_def split: prod.splits)

lemma queue_pop_inv:
  assumes "dp_inv e s" and "length q \<le> length (audio_q s)"
  shows "dp_inv e (s\<lparr>audio_q := q\<rparr>)" "dp_inv e (s\<lparr>audio_q := q, pool_avail := n\<rparr>)"
  using dp_inv_flags [OF assms(1)] assms(2)
  by (auto intro!: dp_inv_same [OF assms(1)] simp: dp_same_def)

lemma misc_inv:
  assumes "dp_inv e s"
  shows "dp_inv e (s\<lparr>jit_print_count := j\<rparr>)" "dp_inv e (s\<lparr>prev_drift_sdu_ref_us := u\<rparr>)"
    "dp_inv e (s\<lparr>pres_delay_us := u\<rparr>)" "dp_inv e (s\<lparr>drift_enabled := True\<rparr>)"
    "drift_enabled s \<Longrightarrow> dp_inv e (s\<lparr>pres_enabled := True\<rparr>)"
    "\<not> pres_enabled s \<Longrightarrow> dp_inv e (drift_comp_state_set st (s\<lparr>drift_enabled := False, drift_ctr := c\<rparr>))"
    "dp_inv e (s\<lparr>pool_avail := n\<rparr>)"
  using dp_inv_flags [OF assms]
  by (auto intro!: dp_inv_same [OF assms] simp: dp_same_def drift_comp_state_set_def)

lemma sdu_ref_inv:
  assumes "dp_inv e s"
  shows "dp_inv e (audio_datapath_sdu_ref_update e m s)"
proof -
  have "dp_inv e (audio_datapath_just_in_time_check_and_adjust t c s')" if "dp_inv e s'" for t c s'
  proof -
    let ?s = "s'\<lparr>jit_print_count := i32 (jit_print_count s' + 1)\<rparr>"
    have "dp_inv e (snd (audio_system_fifo_rx_block_drop ?s))"
      using queue_pop_inv(2) [OF misc_inv(1) [OF that]] misc_inv(1) [OF that]
      by (auto simp: audio_system_fifo_rx_block_drop_def split: list.splits)
    then show ?thesis
      using misc_inv(1) that
      by (auto simp: audio_datapath_just_in_time_check_and_adjust_def Let_def split: prod.splits)
  qed
  then show ?thesis
    using assms misc_inv(2) by (simp add: audio_datapath_sdu_ref_update_def Let_def)
qed

lemma dp_step_inv:
  assumes "externals_ok e" and "dp_inv e s" and "ev_ok e ev s"
  shows "\<exists>s'. dp_step e ev s = Some s' \<and> dp_inv e s'"
proof (cases ev)
  case (Ev_frame f)
  then show ?thesis using stream_out_inv [OF assms(1,2)] assms(3) by (simp add: dp_step_def ev_ok_def)
next
  case (Ev_block st ts rx)
  then show ?thesis using handler_inv [OF assms(1,2)] assms(3) by (simp add: dp_step_def)
next
  case (Ev_start q)
  then have "length q \<le> audio_q_max e" using assms(3) by (simp add: ev_ok_def)
  then obtain r s' where "audio_datapath_start e q s = Some (r, s')" "dp_inv e s'"
    using start_inv [OF assms(2)] by blast
  then show ?thesis using Ev_start by (simp add: dp_step_def)
next
  case Ev_stop
  obtain r s' where "audio_datapath_stop e s = Some (r, s')" "dp_inv e s'"
    using stop_inv [OF assms(2)] by blast
  then show ?thesis using Ev_stop by (simp add: dp_step_def)
next
  case Ev_pres_disable
  obtain r s' where "cmd_audio_pres_comp_disable e s = Some (r, s')" "dp_inv e s'"
    using pres_disable_inv [OF assms(2)] by blast
  then show ?thesis using Ev_pres_disable by (simp add: dp_step_def)
next
  case Ev_drift_disable
  then show ?thesis
    using assms(2) misc_inv(6) [OF assms(2)] by (simp add: dp_step_def cmd_hfclkaudio_drift_comp_disable_def)
qed (use assms(2) tone_inv sdu_ref_inv misc_inv queue_pop_inv in \<open>simp_all add: dp_step_def
      audio_datapath_pres_delay_us_set_def cmd_i2s_tone_stop_def cmd_hfclkaudio_drift_comp_enable_def
      cmd_audio_pres_comp_enable_def\<close>)

lemma dp_run_inv:
  "externals_ok e \<Longrightarrow> dp_inv e s \<Longrightarrow> evs_ok e evs s \<Longrightarrow> \<exists>s'. dp_run e evs s = Some s' \<and> dp_inv e s'"
proof (induction evs arbitrary: s)
  case Nil
  then show ?case by simp
next
  case (Cons ev evs)
  then obtain s1 where "dp_step e ev s = Some s1" "dp_inv e s1"
    using dp_step_inv by fastforce
  then show ?case
    using Cons by simp
qed

lemma init_inv:
  assumes "externals_ok e" and "led_ok e (dp_boot e l)"
    and "displays l (led_audio_sync_status (e_board e)) LED_COLOR_OFF"
  shows "\<exists>s. audio_datapath_init e (dp_boot e l) = Some (0, s) \<and> dp_inv e s"
proof -
  have "MAX_FIFO_SIZE e = FIFO_NUM_BLKS e * BLK_STEREO_NUM_SAMPS e"
    by (simp add: MAX_FIFO_SIZE_def BLK_STEREO_NUM_SAMPS_def)
  moreover have "wf_env e" "0 < FIFO_NUM_BLKS e"
    using assms(1) by (auto simp: externals_ok_def wf_env_def)
  ultimately show ?thesis
    using assms by (simp add: audio_datapath_init_def audio_i2s_init_def dp_boot_def dp_inv_def wf_fifo_def
        led_ok_def sync_shown_def i2s_inv_def)
qed

section \<open>Examples\<close>

lemma example_leds_dark: "displays example_leds (led_audio_sync_status nrf5340dk_leds) LED_COLOR_OFF"
proof -
  have "\<not> pin_level (led_log example_leds) 1 0" "num_gpios (led_units example_leds ! 1) = 1"
    by (simp_all add: example_leds_def led_init_def led_boot_def upt_rec Let_def)
  then show ?thesis
    by (simp add: displays_def nrf5340dk_leds_def color_pin_def)
qed

lemma example_externals: "externals_ok example_env" "led_ok example_env (dp_boot example_env example_leds)"
proof -
  show "externals_ok example_env"
    by (simp add: externals_ok_def codec_ok_def wf_env_def example_consts)
  show "led_ok example_env (dp_boot example_env example_leds)"
    using example_leds_ok
    by (simp add: led_ok_def dp_boot_def gpio_works_def example_env_def nrf5340dk_leds_def)
qed

text \<open>The gateway of the examples after its start, and after a frame.\<close>

lemma example_started:
  assumes "audio_datapath_init (example_env\<lparr>audio_test_tone := b\<rparr>) (dp_boot (example_env\<lparr>audio_test_tone := b\<rparr>) l) = Some (r, s0)"
  shows "audio_datapath_start (example_env\<lparr>audio_test_tone := b\<rparr>) [] s0 = Some (0, example_dp\<lparr>leds := l\<rparr>)"
  using assms
  by (auto simp: example_dp_def audio_datapath_init_def audio_datapath_start_def audio_i2s_init_def
      audio_datapath_i2s_start_def audio_i2s_start_def audio_i2s_set_next_buf_def dp_boot_def PREV_IDX_def
      example_consts tx_on_def rx_on_def Let_def)

lemma example_framed:
  assumes "ref_ts_us f = 1000" and "data_rx_ts_us f = 1000" and "snd (g f) = Some ([1, 2], 4)"
  shows "audio_datapath_stream_out (example_env\<lparr>audio_test_tone := b, e_decode := g\<rparr>) (Some f) (example_dp\<lparr>leds := l\<rparr>)
     = Some (example_dp\<lparr>leds := l, prev_pres_sdu_ref_us := 1000, decoded_data := [1, 2],
         fifo := [1, 2, 0, 0, 0, 0, 0, 0, 0, 0, 0, 0], prod_blk_ts := [1000, 0, 0, 0, 0, 0], prod_blk_idx := 1\<rparr>)"
proof -
  have f: "f\<lparr>ref_ts_us := 1000\<rparr> = f" using assms(1) by (cases f) simp
  show ?thesis
    by (simp add: audio_datapath_stream_out_def example_dp_simps example_dp_more assms f
        sdu_ref_check_def fifo_put_def filled_blocks_get_def example_consts
        rd_range_def wr_range_def wr_def NEXT_IDX_def)
qed

lemma example_env_same: "example_env\<lparr>e_decode := \<lambda>f. (0, Some ([1, 2], 4))\<rparr> = example_env"
    "example_env\<lparr>audio_test_tone := False\<rparr> = example_env"
  by (simp_all add: example_env_def)

lemma example_frame_step:
  "dp_step example_env (Ev_frame example_frame) (example_dp\<lparr>leds := l\<rparr>)
     = Some (example_dp\<lparr>leds := l, prev_pres_sdu_ref_us := 1000, decoded_data := [1, 2],
         fifo := [1, 2, 0, 0, 0, 0, 0, 0, 0, 0, 0, 0], prod_blk_ts := [1000, 0, 0, 0, 0, 0], prod_blk_idx := 1\<rparr>)"
  using example_framed [of example_frame "\<lambda>f. (0, Some ([1, 2], 4))" False l]
  by (simp add: dp_step_def example_env_same) (simp add: example_frame_def)

text \<open>An interrupt is fine after the frame.\<close>

lemma example_block_ok:
  "ev_ok (example_env\<lparr>audio_test_tone := b\<rparr>) (Ev_block True 5000 (Some [0, 0]))
     (example_dp\<lparr>leds := l, prev_pres_sdu_ref_us := 1000, decoded_data := [1, 2],
         fifo := [1, 2, 0, 0, 0, 0, 0, 0, 0, 0, 0, 0], prod_blk_ts := [1000, 0, 0, 0, 0, 0], prod_blk_idx := 1\<rparr>)"
  by (simp add: ev_ok_def drift_jump_ok_def example_dp_simps example_dp_more)

definition example_events :: "dp_event list" where
  "example_events = [Ev_start [], Ev_frame example_frame, Ev_block True 5000 (Some [0, 0]), Ev_tone_stop, Ev_stop, Ev_stop]"

lemma evs_ok_quiet:
  "\<forall>ev \<in> set evs. (case ev of Ev_block _ _ _ \<Rightarrow> False | Ev_frame _ \<Rightarrow> False | Ev_start q \<Rightarrow> q = [] | _ \<Rightarrow> True) \<Longrightarrow>
   evs_ok e evs s"
  by (induction evs arbitrary: s) (auto simp: ev_ok_def split: dp_event.splits option.splits)

lemma example_events_ok:
  assumes "audio_datapath_init example_env (dp_boot example_env l) = Some (r, s0)"
  shows "evs_ok example_env example_events s0"
proof -
  have "dp_step example_env (Ev_start []) s0 = Some (example_dp\<lparr>leds := l\<rparr>)"
    using example_started [of False l r s0] assms by (simp add: example_env_same dp_step_def)
  moreover have "ev_ok example_env (Ev_frame f) s" for f s by (simp add: ev_ok_def example_env_def)
  moreover have "ev_ok example_env (Ev_start []) s0" "ev_ok example_env Ev_stop s" "ev_ok example_env Ev_tone_stop s" for s
    by (simp_all add: ev_ok_def)
  ultimately show ?thesis
    using example_block_ok [of False l]
    by (simp add: example_events_def example_frame_step example_env_same evs_ok_quiet split: option.split)
qed





section \<open>Properties\<close>





text \<open>C31: The audio datapath is safe. After initialisation, for every order of frames from the
  radio, I2S interrupts, starts and stops, time references, tones and shell commands: no operation
  leaves its arrays, fails an assertion or trips an error check; in particular the two alternate
  buffers never run out. And then the sync LED shows exactly whether the presentation delay is locked,
  presentation compensation is never enabled without drift compensation, the audio clock stays within
  the range of its PLL, and the I2S peripheral runs exactly while the stream is started. This is
  shown for orders in which: an interrupt comes only while the stream runs, with a receive buffer
  in a build that receives, and with a free buffer of the receive pool or a queued one to drop; each
  frame that reaches the decoder is decoded (after a decoding error the code reads an uninitialised
  size); while drift compensation calibrates, the time references of one measurement differ from the
  clock by at most about two seconds (beyond, the adjustment overflows); and the queue given to start
  is not longer than it may be. The mixer and the tone generator are assumed to succeed, mixing to keep
  the number of samples, a decoded size of one frame to be that many samples, the sync LED to be one of the
  board's, working and off at the start, and the FIFO to have room for more than a frame.\<close>

theorem datapath_safe:
  assumes "externals_ok e" and "led_ok e (dp_boot e l)"
    and "displays l (led_audio_sync_status (e_board e)) LED_COLOR_OFF"
    and "audio_datapath_init e (dp_boot e l) = Some (r, s0)" and "evs_ok e evs s0"
  shows "\<exists>s. dp_run e evs s0 = Some s
    \<and> displays (leds s) (led_audio_sync_status (e_board e))
        (if pres_state s = PRES_STATE_LOCKED then LED_COLOR_WHITE else LED_COLOR_OFF)
    \<and> (pres_enabled s \<longrightarrow> drift_enabled s)
    \<and> APLL_FREQ_MIN \<le> hfclkaudio s \<and> hfclkaudio s \<le> APLL_FREQ_MAX
    \<and> i2s_state (i2s s) = (if stream_started s then AUDIO_I2S_STATE_STARTED else AUDIO_I2S_STATE_IDLE)
    \<and> prod_blk_idx s < FIFO_NUM_BLKS e \<and> cons_blk_idx s < FIFO_NUM_BLKS e"
proof -
  obtain s where s: "dp_run e evs s0 = Some s" "dp_inv e s"
    using init_inv [OF assms(1-3)] assms(4,5) dp_run_inv [OF assms(1)] by auto
  then have "sync_shown e s" "i2s_inv e s" "wf_fifo e s"
    by (simp_all add: dp_inv_def)
  then show ?thesis
    using s by (auto simp: dp_inv_def sync_shown_def i2s_inv_def wf_fifo_def split: if_splits)
qed

theorem datapath_safe_witness:
  "\<exists>s0 s. audio_datapath_init example_env (dp_boot example_env example_leds) = Some (0, s0)
    \<and> dp_run example_env example_events s0 = Some s
    \<and> APLL_FREQ_MIN \<le> hfclkaudio s \<and> hfclkaudio s \<le> APLL_FREQ_MAX"
proof -
  have dark: "displays example_leds (led_audio_sync_status (e_board example_env)) LED_COLOR_OFF"
    using example_leds_dark by (simp add: example_env_def)
  obtain s0 where s0: "audio_datapath_init example_env (dp_boot example_env example_leds) = Some (0, s0)"
    using init_inv [OF example_externals dark] by blast
  have "evs_ok example_env example_events s0" by (rule example_events_ok [OF s0])
  then show ?thesis
    using datapath_safe [OF example_externals dark s0] s0 by blast
qed

end
