(* ===== verification/SwCodec.thy ===== *)
theory SwCodec
  imports Prelude
begin

text \<open>
  The software codec selection \<open>src/audio/sw_codec_select.c\<close>: initialisation, encoding of a stereo
  PCM frame to one or two LC3 channels, decoding to a stereo PCM frame.

  The LC3 library, the PCM channel modifier and the sample rate converter of the SDK are parameters
  with an abstract state \<open>'x\<close>; each returns its code, the bytes it writes and its new state. A
  function that writes more than the buffer it is given holds is undefined behaviour (\<open>None\<close>).
\<close>

section \<open>Configuration\<close>

type_synonym bytes = "u8 list"

datatype sw_codec_select = SW_CODEC_NONE | SW_CODEC_LC3

text \<open>Channel modes are numbers: a zeroed configuration has mode 0, outside the enumeration.\<close>

abbreviation (input) SW_CODEC_MONO :: nat where "SW_CODEC_MONO \<equiv> 1"
abbreviation (input) SW_CODEC_STEREO :: nat where "SW_CODEC_STEREO \<equiv> 2"
abbreviation (input) BT_AUDIO_LOCATION_FRONT_LEFT :: u32 where "BT_AUDIO_LOCATION_FRONT_LEFT \<equiv> 1"
abbreviation (input) BT_AUDIO_LOCATION_FRONT_RIGHT :: u32 where "BT_AUDIO_LOCATION_FRONT_RIGHT \<equiv> 2"

record sw_codec_encoder =
  enc_enabled :: bool
  enc_bitrate :: int
  enc_channel_mode :: nat
  enc_num_ch :: nat
  enc_audio_ch :: nat
  enc_sample_rate_hz :: u32

record sw_codec_decoder =
  dec_enabled :: bool
  dec_channel_mode :: nat
  dec_num_ch :: nat
  dec_audio_ch :: nat
  dec_sample_rate_hz :: u32

record sw_codec_config =
  sw_codec :: sw_codec_select
  decoder :: sw_codec_decoder
  encoder :: sw_codec_encoder
  codec_initialized :: bool

text \<open>The fields of the SDK's \<open>audio_metadata\<close> and \<open>net_buf\<close> that the modelled code uses.\<close>

datatype audio_coding = PCM | LC3

record audio_metadata =
  data_coding :: audio_coding
  data_len_us :: nat
  bytes_per_location :: nat
  locations :: u32
  meta_ref_ts_us :: u32
  meta_data_rx_ts_us :: u32
  meta_bad_data :: bool

record net_buf =
  buf_data :: bytes
  buf_size :: nat
  buf_meta :: audio_metadata

section \<open>Externals and state\<close>

record 'x codec_env =
  cfg_lc3 :: bool
  enc_channels_max :: nat
  dec_channels_max :: nat
  PCM_NUM_BYTES_MONO :: nat
  ENC_MAX_FRAME_SIZE :: nat
  system_rate_hz :: u32
  cfg_src :: bool
  cfg_bidirectional_gateway :: bool
  x_lc3_init :: "'x \<Rightarrow> int \<times> 'x"
  x_enc_init :: "u32 \<Rightarrow> int \<Rightarrow> nat \<Rightarrow> 'x \<Rightarrow> int \<times> 'x"
  x_dec_init :: "u32 \<Rightarrow> nat \<Rightarrow> 'x \<Rightarrow> int \<times> 'x"
  x_enc_uninit :: "'x \<Rightarrow> int \<times> 'x"
  x_dec_uninit :: "'x \<Rightarrow> int \<times> 'x"
  x_enc_run :: "nat \<Rightarrow> bytes \<Rightarrow> nat \<Rightarrow> 'x \<Rightarrow> int \<times> bytes \<times> 'x"
  x_dec_run :: "nat \<Rightarrow> bytes \<Rightarrow> bool \<Rightarrow> 'x \<Rightarrow> int \<times> bytes \<times> 'x"
  x_split :: "bytes \<Rightarrow> int \<times> bytes \<times> bytes"
  x_combine :: "bytes \<Rightarrow> bytes \<Rightarrow> int \<times> bytes"
  x_copy_pad :: "bytes \<Rightarrow> int \<times> bytes"
  x_zero_pad :: "bytes \<Rightarrow> nat \<Rightarrow> int \<times> bytes"
  x_src_open :: "bool \<times> nat \<Rightarrow> 'x \<Rightarrow> int \<times> 'x"
  x_src_process :: "bool \<times> nat \<Rightarrow> u32 \<Rightarrow> u32 \<Rightarrow> bytes \<Rightarrow> 'x \<Rightarrow> int \<times> bytes \<times> 'x"

definition PCM_NUM_BYTES_STEREO :: "'x codec_env \<Rightarrow> nat" where
  "PCM_NUM_BYTES_STEREO e = PCM_NUM_BYTES_MONO e * 2"

record 'x codec_state =
  m_config :: sw_codec_config
  codec_ext :: 'x

text \<open>A zero-initialised mono buffer holding \<open>xs\<close> at its start.\<close>

definition mono_buf :: "'x codec_env \<Rightarrow> bytes \<Rightarrow> bytes" where
  "mono_buf e xs = xs @ replicate (PCM_NUM_BYTES_MONO e - length xs) 0"

definition SW_CODEC_OVERRIDE_PLC :: bool where
  "SW_CODEC_OVERRIDE_PLC = False"

text \<open>
  The code tests \<open>IS_ENABLED(SAMPLE_RATE_CONVERTER)\<close>, without the \<open>CONFIG_\<close> prefix of Kconfig
  symbols: no such macro exists, so the test is always false.
\<close>

definition IS_ENABLED_SAMPLE_RATE_CONVERTER :: bool where
  "IS_ENABLED_SAMPLE_RATE_CONVERTER = False"

section \<open>Sample rate conversion\<close>

text \<open>
  The data is the first \<open>n\<close> bytes of the buffer \<open>buf\<close>; the result is the code, the buffer that
  \<open>data_ptr\<close> points to and its size.
\<close>

definition sw_codec_sample_rate_convert ::
  "'x codec_env \<Rightarrow> bool \<times> nat \<Rightarrow> u32 \<Rightarrow> u32 \<Rightarrow> bytes \<Rightarrow> nat \<Rightarrow> 'x \<Rightarrow> (int \<times> bytes \<times> nat \<times> 'x) option" where
  "sw_codec_sample_rate_convert e ctx input_rate output_rate buf n x =
     (if input_rate = output_rate then Some (0, buf, n, x)
      else if cfg_src e then do {
        input \<leftarrow> rd_range buf 0 n;
        let (ret, out, x) = x_src_process e ctx input_rate output_rate input x;
        if ret \<noteq> 0 then Some (ret, buf, n, x)
        else do {
          assert_ok (length out \<le> PCM_NUM_BYTES_MONO e);
          Some (0, mono_buf e out, length out, x) } }
      else Some (- ENOTSUP, buf, n, x))"

text \<open>
  The conversion loop over the channels \<open>i, i + 1, \<dots>\<close> (\<open>k\<close> of them). The converted buffers are
  collected; the size is one variable, left by the last conversion.
\<close>

fun convert_loop ::
  "'x codec_env \<Rightarrow> bool \<Rightarrow> u32 \<Rightarrow> u32 \<Rightarrow> bytes list \<Rightarrow> nat \<Rightarrow> nat \<Rightarrow> nat \<Rightarrow> bytes list \<Rightarrow> nat \<Rightarrow> 'x
     \<Rightarrow> (int \<times> bytes list \<times> nat \<times> 'x) option" where
  "convert_loop e enc rate_in rate_out bufs n i 0 ptrs sz x = Some (0, ptrs, sz, x)"
| "convert_loop e enc rate_in rate_out bufs n i (Suc k) ptrs sz x = do {
     buf \<leftarrow> rd bufs i;
     (ret, b, m, x) \<leftarrow> sw_codec_sample_rate_convert e (enc, i) rate_in rate_out buf n x;
     if ret \<noteq> 0 then Some (ret, ptrs, m, x)
     else convert_loop e enc rate_in rate_out bufs n (Suc i) k (ptrs @ [b]) m x }"

section \<open>Encoding\<close>

definition sw_codec_is_initialized :: "'x codec_state \<Rightarrow> bool" where
  "sw_codec_is_initialized st = codec_initialized (m_config st)"

text \<open>One call of \<open>sw_codec_lc3_enc_run\<close>, on the first \<open>n\<close> bytes of a channel's buffer.\<close>

definition enc_run ::
  "'x codec_env \<Rightarrow> bytes list \<Rightarrow> nat \<Rightarrow> nat \<Rightarrow> nat \<Rightarrow> 'x \<Rightarrow> (int \<times> bytes \<times> 'x) option" where
  "enc_run e ptrs ch n room x = do {
     buf \<leftarrow> rd ptrs ch;
     pcm \<leftarrow> rd_range buf 0 n;
     let (ret, out, x) = x_enc_run e ch pcm room x;
     assert_ok (length out \<le> room);
     Some (ret, out, x) }"

text \<open>
  The switch on the channel mode: the code, the bytes written to \<open>m_encoded_data\<close>, the final
  value of \<open>encoded_bytes_written\<close>, and whether the locations are set to front left.
\<close>

definition encode_channels ::
  "'x codec_env \<Rightarrow> nat \<Rightarrow> bytes list \<Rightarrow> nat \<Rightarrow> 'x \<Rightarrow> (int \<times> bytes \<times> nat \<times> bool \<times> 'x) option" where
  "encode_channels e mode ptrs n x =
     (let room = ENC_MAX_FRAME_SIZE e * enc_channels_max e in
      if mode = SW_CODEC_MONO then do {
        (ret, a, x) \<leftarrow> enc_run e ptrs 0 n room x;
        Some (ret, a, length a mod 2 ^ 16, True, x) }
      else if mode = SW_CODEC_STEREO then do {
        (ret, a, x) \<leftarrow> enc_run e ptrs 0 n room x;
        if ret \<noteq> 0 then Some (ret, a, 0, False, x)
        else do {
          (ret, b, x) \<leftarrow> enc_run e ptrs 1 n (room - length a) x;
          let written = length b mod 2 ^ 16;
          Some (ret, a @ b, (written + written) mod 2 ^ 16, False, x) } }
      else Some (- ENODEV, [], 0, False, x))"

text \<open>
  Bytes of \<open>m_encoded_data\<close> that no encoder wrote are indeterminate: appending them to the frame is
  \<open>None\<close>, as is appending more than the frame has room for.
\<close>

definition sw_codec_encode ::
  "'x codec_env \<Rightarrow> net_buf \<Rightarrow> 'x codec_state \<Rightarrow> (int \<times> net_buf \<times> 'x codec_state) option" where
  "sw_codec_encode e frame st =
     (let enc = encoder (m_config st) in
      if \<not> enc_enabled enc then Some (- ENXIO, frame, st)
      else case sw_codec (m_config st) of
        SW_CODEC_NONE \<Rightarrow> Some (- ENODEV, frame, st)
      | SW_CODEC_LC3 \<Rightarrow>
          if \<not> cfg_lc3 e then Some (0, frame, st)
          else do {
            assert_ok (0 < enc_channel_mode enc);
            let (ret, l, r) = x_split e (buf_data frame);
            if ret \<noteq> 0 then Some (ret, frame, st)
            else do {
              assert_ok (1 < enc_channels_max e \<and> length l \<le> PCM_NUM_BYTES_MONO e
                \<and> length r \<le> PCM_NUM_BYTES_MONO e);
              (ret, ptrs, n, x) \<leftarrow> convert_loop e True (system_rate_hz e) (enc_sample_rate_hz enc)
                 ([mono_buf e l, mono_buf e r] @ replicate (enc_channels_max e - 2) (mono_buf e []))
                 (length l) 0 (enc_channel_mode enc) [] 0 (codec_ext st);
              if ret \<noteq> 0 then Some (ret, frame, st\<lparr>codec_ext := x\<rparr>)
              else do {
                (ret, out, written, left, x) \<leftarrow> encode_channels e (enc_channel_mode enc) ptrs n x;
                let st = st\<lparr>codec_ext := x\<rparr>;
                if ret \<noteq> 0 then Some (ret, frame, st)
                else do {
                  data \<leftarrow> rd_range out 0 written;
                  assert_ok (written \<le> buf_size frame);
                  let meta = (if left then (buf_meta frame)\<lparr>locations := BT_AUDIO_LOCATION_FRONT_LEFT\<rparr>
                              else buf_meta frame);
                  Some (0, frame\<lparr>buf_data := data, buf_meta := meta\<lparr>data_coding := LC3\<rparr>\<rparr>, st) } } } })"

section \<open>Decoding\<close>

definition dec_run ::
  "'x codec_env \<Rightarrow> nat \<Rightarrow> bytes \<Rightarrow> bool \<Rightarrow> 'x \<Rightarrow> (int \<times> bytes \<times> 'x) option" where
  "dec_run e ch data bad x = do {
     assert_ok (ch < dec_channels_max e);
     let (ret, out, x) = x_dec_run e ch data bad x;
     assert_ok (length out \<le> PCM_NUM_BYTES_MONO e);
     Some (ret, out, x) }"

text \<open>
  One decoded channel as a stereo block: duplicated on a bidirectional gateway, next to silence
  elsewhere. Then the two channels of a stereo frame. The result is the code, and the bytes of the
  static stereo buffer if the code sets the output pointers.
\<close>

definition decode_mono ::
  "'x codec_env \<Rightarrow> sw_codec_decoder \<Rightarrow> net_buf \<Rightarrow> 'x \<Rightarrow> (int \<times> bytes option \<times> 'x) option" where
  "decode_mono e dec frame x =
     (if meta_bad_data (buf_meta frame) \<and> SW_CODEC_OVERRIDE_PLC then None
      else do {
        (ret, out, x) \<leftarrow> dec_run e 0 (buf_data frame) (meta_bad_data (buf_meta frame)) x;
        if ret \<noteq> 0 then Some (ret, None, x)
        else do {
          (ret, buf, n, x) \<leftarrow> sw_codec_sample_rate_convert e (False, 0) (dec_sample_rate_hz dec)
             (system_rate_hz e) (mono_buf e out) (length out mod 2 ^ 16) x;
          if ret \<noteq> 0 then Some (ret, None, x)
          else do {
            pcm \<leftarrow> rd_range buf 0 n;
            let (ret, stereo) = (if cfg_bidirectional_gateway e then x_copy_pad e pcm
                                 else x_zero_pad e pcm (dec_audio_ch dec));
            assert_ok (length stereo \<le> PCM_NUM_BYTES_STEREO e);
            Some (ret, if ret \<noteq> 0 then None else Some stereo, x) } } })"

definition decode_stereo ::
  "'x codec_env \<Rightarrow> sw_codec_decoder \<Rightarrow> net_buf \<Rightarrow> 'x \<Rightarrow> (int \<times> bytes option \<times> 'x) option" where
  "decode_stereo e dec frame x =
     (let bad = meta_bad_data (buf_meta frame); half = length (buf_data frame) div 2 in
      if bad \<and> SW_CODEC_OVERRIDE_PLC then None
      else do {
        (ret, l, x) \<leftarrow> dec_run e 0 (take half (buf_data frame)) bad x;
        if ret \<noteq> 0 then Some (ret, None, x)
        else do {
          (ret, r, x) \<leftarrow> dec_run e 1 (take half (drop half (buf_data frame))) bad x;
          if ret \<noteq> 0 then Some (ret, None, x)
          else do {
            (ret, ptrs, n, x) \<leftarrow> convert_loop e False (dec_sample_rate_hz dec) (system_rate_hz e)
               [mono_buf e l, mono_buf e r] (length r mod 2 ^ 16) 0 (dec_channel_mode dec) [] 0 x;
            if ret \<noteq> 0 then Some (ret, None, x)
            else do {
              lb \<leftarrow> rd ptrs 0;
              rb \<leftarrow> rd ptrs 1;
              lp \<leftarrow> rd_range lb 0 n;
              rp \<leftarrow> rd_range rb 0 n;
              let (ret, stereo) = x_combine e lp rp;
              assert_ok (length stereo \<le> PCM_NUM_BYTES_STEREO e);
              Some (ret, if ret \<noteq> 0 then None else Some stereo, x) } } } })"

definition sw_codec_decode ::
  "'x codec_env \<Rightarrow> net_buf \<Rightarrow> 'x codec_state \<Rightarrow> (int \<times> bytes option \<times> 'x codec_state) option" where
  "sw_codec_decode e frame st =
     (let dec = decoder (m_config st) in
      if \<not> dec_enabled dec then Some (- ENXIO, None, st)
      else case sw_codec (m_config st) of
        SW_CODEC_NONE \<Rightarrow> Some (- ENODEV, None, st)
      | SW_CODEC_LC3 \<Rightarrow>
          if \<not> cfg_lc3 e then Some (0, None, st)
          else do {
            assert_ok (0 < dec_channel_mode dec);
            (ret, out, x) \<leftarrow>
               (if dec_channel_mode dec = SW_CODEC_MONO then decode_mono e dec frame (codec_ext st)
                else if dec_channel_mode dec = SW_CODEC_STEREO then decode_stereo e dec frame (codec_ext st)
                else Some (- ENODEV, None, codec_ext st));
            Some (ret, out, st\<lparr>codec_ext := x\<rparr>) })"

section \<open>Initialisation\<close>

text \<open>\<open>return false\<close> of the unsupported codec is the code 0.\<close>

definition uninit_encoder :: "'x codec_env \<Rightarrow> sw_codec_config \<Rightarrow> 'x codec_state \<Rightarrow> int \<times> 'x codec_state" where
  "uninit_encoder e cfg st =
     (if enc_enabled (encoder cfg) then
        if \<not> enc_enabled (encoder (m_config st)) then (- EALREADY, st)
        else case x_enc_uninit e (codec_ext st) of (ret, x) \<Rightarrow>
          let st = st\<lparr>codec_ext := x\<rparr> in
          if ret \<noteq> 0 then (ret, st)
          else (0, st\<lparr>m_config := (m_config st)\<lparr>encoder := (encoder (m_config st))\<lparr>enc_enabled := False\<rparr>\<rparr>\<rparr>)
      else (0, st))"

definition uninit_decoder :: "'x codec_env \<Rightarrow> sw_codec_config \<Rightarrow> 'x codec_state \<Rightarrow> int \<times> 'x codec_state" where
  "uninit_decoder e cfg st =
     (if dec_enabled (decoder cfg) then
        if \<not> dec_enabled (decoder (m_config st)) then (- EALREADY, st)
        else case x_dec_uninit e (codec_ext st) of (ret, x) \<Rightarrow>
          let st = st\<lparr>codec_ext := x\<rparr> in
          if ret \<noteq> 0 then (ret, st)
          else (0, st\<lparr>m_config := (m_config st)\<lparr>decoder := (decoder (m_config st))\<lparr>dec_enabled := False\<rparr>\<rparr>\<rparr>)
      else (0, st))"

definition sw_codec_uninit :: "'x codec_env \<Rightarrow> sw_codec_config \<Rightarrow> 'x codec_state \<Rightarrow> int \<times> 'x codec_state" where
  "sw_codec_uninit e cfg st =
     (if sw_codec (m_config st) \<noteq> sw_codec cfg then (- ENODEV, st)
      else case sw_codec (m_config st) of
        SW_CODEC_NONE \<Rightarrow> (0, st)
      | SW_CODEC_LC3 \<Rightarrow>
          (case (if cfg_lc3 e then uninit_encoder e cfg st else (0, st)) of (ret, st) \<Rightarrow>
           if ret \<noteq> 0 then (ret, st)
           else case (if cfg_lc3 e then uninit_decoder e cfg st else (0, st)) of (ret, st) \<Rightarrow>
             if ret \<noteq> 0 then (ret, st)
             else (0, st\<lparr>m_config := (m_config st)\<lparr>codec_initialized := False\<rparr>\<rparr>)))"

text \<open>The LC3 part: the library once, the encoder and the decoder if the configuration asks for them.\<close>

definition init_lc3 :: "'x codec_env \<Rightarrow> sw_codec_config \<Rightarrow> 'x codec_state \<Rightarrow> int \<times> 'x codec_state" where
  "init_lc3 e cfg st =
     (case (if sw_codec (m_config st) \<noteq> SW_CODEC_LC3 then x_lc3_init e (codec_ext st)
            else (0, codec_ext st)) of (ret, x) \<Rightarrow>
      if ret \<noteq> 0 then (ret, st\<lparr>codec_ext := x\<rparr>)
      else if enc_enabled (encoder cfg) \<and> enc_enabled (encoder (m_config st))
      then (- EALREADY, st\<lparr>codec_ext := x\<rparr>)
      else case (if enc_enabled (encoder cfg)
                 then x_enc_init e (enc_sample_rate_hz (encoder cfg)) (enc_bitrate (encoder cfg))
                        (enc_num_ch (encoder cfg)) x
                 else (0, x)) of (ret, x) \<Rightarrow>
        if ret \<noteq> 0 then (ret, st\<lparr>codec_ext := x\<rparr>)
        else if dec_enabled (decoder cfg) \<and> dec_enabled (decoder (m_config st))
        then (- EALREADY, st\<lparr>codec_ext := x\<rparr>)
        else case (if dec_enabled (decoder cfg)
                   then x_dec_init e (dec_sample_rate_hz (decoder cfg)) (dec_num_ch (decoder cfg)) x
                   else (0, x)) of (ret, x) \<Rightarrow> (ret, st\<lparr>codec_ext := x\<rparr>))"

fun src_open_loop :: "'x codec_env \<Rightarrow> bool \<Rightarrow> nat \<Rightarrow> nat \<Rightarrow> 'x \<Rightarrow> int \<times> 'x" where
  "src_open_loop e enc i 0 x = (0, x)"
| "src_open_loop e enc i (Suc k) x = (case x_src_open e (enc, i) x of (ret, x) \<Rightarrow>
     if ret \<noteq> 0 then (ret, x) else src_open_loop e enc (Suc i) k x)"

definition src_open_all :: "'x codec_env \<Rightarrow> bool \<Rightarrow> bool \<Rightarrow> nat \<Rightarrow> 'x codec_state \<Rightarrow> int \<times> 'x codec_state" where
  "src_open_all e enc enabled n st =
     (if enabled \<and> IS_ENABLED_SAMPLE_RATE_CONVERTER
      then (case src_open_loop e enc 0 n (codec_ext st) of (ret, x) \<Rightarrow> (ret, st\<lparr>codec_ext := x\<rparr>))
      else (0, st))"

definition sw_codec_init :: "'x codec_env \<Rightarrow> sw_codec_config \<Rightarrow> 'x codec_state \<Rightarrow> int \<times> 'x codec_state" where
  "sw_codec_init e cfg st = (case sw_codec cfg of
     SW_CODEC_NONE \<Rightarrow> (0, st)
   | SW_CODEC_LC3 \<Rightarrow>
       if \<not> cfg_lc3 e then (- ENODEV, st)
       else case init_lc3 e cfg st of (ret, st) \<Rightarrow>
         if ret \<noteq> 0 then (ret, st)
         else case src_open_all e True (enc_enabled (encoder cfg)) (enc_channel_mode (encoder cfg)) st of
           (ret, st) \<Rightarrow>
             if ret \<noteq> 0 then (ret, st)
             else case src_open_all e False (dec_enabled (decoder cfg)) (dec_channel_mode (decoder cfg)) st of
               (ret, st) \<Rightarrow>
                 if ret \<noteq> 0 then (ret, st)
                 else (0, st\<lparr>m_config := cfg\<lparr>codec_initialized := True\<rparr>\<rparr>))"

section \<open>Lemmas\<close>

lemma mono_buf_read [simp]: "rd_range (mono_buf e xs) 0 (length xs) = Some xs"
  by (simp add: rd_range_def mono_buf_def)

lemma convert_loop_same_rate:
  "i + k \<le> length bufs \<Longrightarrow> convert_loop e enc r r bufs n i k ptrs sz x
     = Some (0, ptrs @ take k (drop i bufs), if k = 0 then sz else n, x)"
proof (induction k arbitrary: i ptrs sz)
  case (Suc k)
  then have "take (Suc k) (drop i bufs) = bufs ! i # take k (drop (Suc i) bufs)"
    by (simp add: Cons_nth_drop_Suc [symmetric])
  then show ?case
    using Suc by (simp add: mem_simps sw_codec_sample_rate_convert_def)
qed simp

text \<open>A library in which every call succeeds.\<close>

lemma codec_calls_ok:
  assumes "\<forall>x. fst (x_lc3_init e x) = 0 \<and> fst (x_enc_uninit e x) = 0 \<and> fst (x_dec_uninit e x) = 0"
    and "\<forall>r b n x. fst (x_enc_init e r b n x) = 0" and "\<forall>r n x. fst (x_dec_init e r n x) = 0"
  obtains i eu du ei di where "\<And>x. x_lc3_init e x = (0, i x)" and "\<And>x. x_enc_uninit e x = (0, eu x)"
    and "\<And>x. x_dec_uninit e x = (0, du x)" and "\<And>r b n x. x_enc_init e r b n x = (0, ei r b n x)"
    and "\<And>r n x. x_dec_init e r n x = (0, di r n x)"
  by (rule that [of "\<lambda>x. snd (x_lc3_init e x)" "\<lambda>x. snd (x_enc_uninit e x)" "\<lambda>x. snd (x_dec_uninit e x)"
        "\<lambda>r b n x. snd (x_enc_init e r b n x)" "\<lambda>r n x. snd (x_dec_init e r n x)"])
    (use assms in \<open>simp_all add: prod_eq_iff\<close>)

lemmas codec_init_defs = sw_codec_init_def init_lc3_def src_open_all_def IS_ENABLED_SAMPLE_RATE_CONVERTER_def
lemmas codec_uninit_defs = sw_codec_uninit_def uninit_encoder_def uninit_decoder_def sw_codec_is_initialized_def

text \<open>What the stereo encoder and decoder do, when the library calls succeed and no rate is converted.\<close>

definition stereo_tx :: "'x codec_env \<Rightarrow> 'x codec_state \<Rightarrow> bool" where
  "stereo_tx e st \<longleftrightarrow> cfg_lc3 e \<and> sw_codec (m_config st) = SW_CODEC_LC3
     \<and> enc_enabled (encoder (m_config st)) \<and> enc_channel_mode (encoder (m_config st)) = SW_CODEC_STEREO
     \<and> enc_sample_rate_hz (encoder (m_config st)) = system_rate_hz e \<and> 2 \<le> enc_channels_max e"

definition stereo_rx :: "'x codec_env \<Rightarrow> 'x codec_state \<Rightarrow> bool" where
  "stereo_rx e st \<longleftrightarrow> cfg_lc3 e \<and> sw_codec (m_config st) = SW_CODEC_LC3
     \<and> dec_enabled (decoder (m_config st)) \<and> dec_channel_mode (decoder (m_config st)) = SW_CODEC_STEREO
     \<and> dec_sample_rate_hz (decoder (m_config st)) = system_rate_hz e \<and> 2 \<le> dec_channels_max e"

lemma encode_stereo:
  assumes "stereo_tx e st" and "x_split e (buf_data frame) = (0, l, r)"
    and "length l \<le> PCM_NUM_BYTES_MONO e" and "length r = length l"
    and "x_enc_run e 0 l (ENC_MAX_FRAME_SIZE e * enc_channels_max e) (codec_ext st) = (0, a, x1)"
    and "x_enc_run e 1 r (ENC_MAX_FRAME_SIZE e * enc_channels_max e - length a) x1 = (0, b, x2)"
    and "length a + length b \<le> ENC_MAX_FRAME_SIZE e * enc_channels_max e"
    and "length b + length b < 2 ^ 16" and "length b + length b \<le> buf_size frame"
  shows "sw_codec_encode e frame st =
     (if length b \<le> length a
      then Some (0, frame\<lparr>buf_data := take (length b + length b) (a @ b),
                          buf_meta := (buf_meta frame)\<lparr>data_coding := LC3\<rparr>\<rparr>, st\<lparr>codec_ext := x2\<rparr>)
      else None)"
proof -
  let ?bufs = "[mono_buf e l, mono_buf e r] @ replicate (enc_channels_max e - 2) (mono_buf e [])"
  have conv: "convert_loop e True (system_rate_hz e) (enc_sample_rate_hz (encoder (m_config st))) ?bufs
      (length l) 0 2 [] 0 (codec_ext st) = Some (0, [mono_buf e l, mono_buf e r], length l, codec_ext st)"
    using assms(1) convert_loop_same_rate [of 0 2 ?bufs e True "system_rate_hz e" "length l" "[]" 0 "codec_ext st"]
    by (simp add: stereo_tx_def del: convert_loop.simps)
  have r: "rd_range (mono_buf e r) 0 (length l) = Some r"
    using mono_buf_read [of e r] assms(4) by simp
  have small: "length b mod 65536 = length b" "(length b + length b) mod 65536 = length b + length b"
    "length b \<le> ENC_MAX_FRAME_SIZE e * enc_channels_max e - length a"
    using assms(7,8) by simp_all
  have enc: "encode_channels e 2 [mono_buf e l, mono_buf e r] (length l) (codec_ext st)
      = Some (0, a @ b, length b + length b, False, x2)"
    using assms(5,6,7) r small
    by (simp add: encode_channels_def enc_run_def mem_simps Let_def)
  show ?thesis
    using assms(1-4,9) conv enc
    by (auto simp: sw_codec_encode_def stereo_tx_def rd_range_def Let_def)
qed

lemma decode_stereo_halves:
  assumes "stereo_rx e st" and "buf_data frame = a @ b" and "length a = length b"
    and "x_dec_run e 0 a (meta_bad_data (buf_meta frame)) (codec_ext st) = (0, pl, x1)"
    and "x_dec_run e 1 b (meta_bad_data (buf_meta frame)) x1 = (0, pr, x2)"
    and "length pl \<le> PCM_NUM_BYTES_MONO e" and "length pr = length pl" and "length pr < 2 ^ 16"
    and "x_combine e pl pr = (0, s)" and "length s \<le> PCM_NUM_BYTES_STEREO e"
  shows "sw_codec_decode e frame st = Some (0, Some s, st\<lparr>codec_ext := x2\<rparr>)"
proof -
  let ?bufs = "[mono_buf e pl, mono_buf e pr]"
  have conv: "convert_loop e False (system_rate_hz e) (system_rate_hz e) ?bufs (length pr) 0 2 [] 0 x2
      = Some (0, ?bufs, length pr, x2)"
    using convert_loop_same_rate [of 0 2 ?bufs e False "system_rate_hz e" "length pr" "[]" 0 x2]
    by (simp del: convert_loop.simps)
  have l: "rd_range (mono_buf e pr) 0 (length pl) = Some pr"
    using mono_buf_read [of e pr] assms(7) by simp
  have "decode_stereo e (decoder (m_config st)) frame (codec_ext st) = Some (0, Some s, x2)"
    using assms conv l
    by (simp add: decode_stereo_def dec_run_def stereo_rx_def SW_CODEC_OVERRIDE_PLC_def mem_simps Let_def)
  then show ?thesis
    using assms(1) by (simp add: sw_codec_decode_def stereo_rx_def)
qed

section \<open>Example\<close>

text \<open>A codec that copies its input; the left channel may get an extra byte.\<close>

definition example_codec :: "bool \<Rightarrow> unit codec_env" where
  "example_codec extra = \<lparr>cfg_lc3 = True, enc_channels_max = 2, dec_channels_max = 2, PCM_NUM_BYTES_MONO = 4,
     ENC_MAX_FRAME_SIZE = 4, system_rate_hz = 48000, cfg_src = False, cfg_bidirectional_gateway = False,
     x_lc3_init = (\<lambda>x. (0, x)), x_enc_init = (\<lambda>r b n x. (0, x)), x_dec_init = (\<lambda>r n x. (0, x)),
     x_enc_uninit = (\<lambda>x. (0, x)), x_dec_uninit = (\<lambda>x. (0, x)),
     x_enc_run = (\<lambda>ch pcm n x. (0, if extra \<and> ch = 0 then 9 # pcm else pcm, x)),
     x_dec_run = (\<lambda>ch d bad x. (0, d, x)), x_split = (\<lambda>d. (0, [hd d], [last d])),
     x_combine = (\<lambda>l r. (0, l @ r)), x_copy_pad = (\<lambda>d. (0, d @ d)), x_zero_pad = (\<lambda>d c. (0, d)),
     x_src_open = (\<lambda>c x. (0, x)), x_src_process = (\<lambda>c i r d x. (0, d, x))\<rparr>"

definition example_codec_cfg :: "bool \<Rightarrow> bool \<Rightarrow> sw_codec_config" where
  "example_codec_cfg enc dec = \<lparr>sw_codec = SW_CODEC_LC3,
     decoder = \<lparr>dec_enabled = dec, dec_channel_mode = 2, dec_num_ch = 2, dec_audio_ch = 0, dec_sample_rate_hz = 48000\<rparr>,
     encoder = \<lparr>enc_enabled = enc, enc_bitrate = 96000, enc_channel_mode = 2, enc_num_ch = 2, enc_audio_ch = 0,
                enc_sample_rate_hz = 48000\<rparr>, codec_initialized = enc \<or> dec\<rparr>"

definition example_buf :: net_buf where
  "example_buf = \<lparr>buf_data = [5, 6], buf_size = 8, buf_meta = \<lparr>data_coding = PCM, data_len_us = 10000,
     bytes_per_location = 1, locations = 3, meta_ref_ts_us = 0, meta_data_rx_ts_us = 0, meta_bad_data = False\<rparr>\<rparr>"

lemmas example_codec_defs = example_codec_def example_codec_cfg_def example_buf_def

section \<open>Properties\<close>

text \<open>C37: A stereo frame goes from the encoder to the decoder with its channels apart. Both codecs
  are configured for LC3 in stereo at the rate of the system (so no sample rate is converted), and the
  buffers have room for what the library returns. Whatever the LC3 library computes: if the encoding of the left samples gives the bytes a, that of the right
  samples the bytes b, as many, then the frame encoded on the source holds exactly a followed by b,
  is marked as LC3, and a stereo decoder that receives it hands a to its first decoder and b to its
  second, and returns the combination of what the two decoders produce.\<close>

theorem stereo_channels_roundtrip:
  assumes "stereo_tx e st" and "x_split e (buf_data frame) = (0, l, r)"
    and "length l \<le> PCM_NUM_BYTES_MONO e" and "length r = length l"
    and "x_enc_run e 0 l (ENC_MAX_FRAME_SIZE e * enc_channels_max e) (codec_ext st) = (0, a, x1)"
    and "x_enc_run e 1 r (ENC_MAX_FRAME_SIZE e * enc_channels_max e - length a) x1 = (0, b, x2)"
    and "length a = length b" and "length a + length b \<le> ENC_MAX_FRAME_SIZE e * enc_channels_max e"
    and "length b + length b < 2 ^ 16" and "length b + length b \<le> buf_size frame"
    and "stereo_rx e' st'"
    and "x_dec_run e' 0 a (meta_bad_data (buf_meta frame)) (codec_ext st') = (0, pl, y1)"
    and "x_dec_run e' 1 b (meta_bad_data (buf_meta frame)) y1 = (0, pr, y2)"
    and "length pl \<le> PCM_NUM_BYTES_MONO e'" and "length pr = length pl" and "length pr < 2 ^ 16"
    and "x_combine e' pl pr = (0, s)" and "length s \<le> PCM_NUM_BYTES_STEREO e'"
  shows "\<exists>frame'. sw_codec_encode e frame st = Some (0, frame', st\<lparr>codec_ext := x2\<rparr>)
    \<and> buf_data frame' = a @ b \<and> data_coding (buf_meta frame') = LC3
    \<and> sw_codec_decode e' frame' st' = Some (0, Some s, st'\<lparr>codec_ext := y2\<rparr>)"
proof -
  let ?f = "frame\<lparr>buf_data := a @ b, buf_meta := (buf_meta frame)\<lparr>data_coding := LC3\<rparr>\<rparr>"
  have "sw_codec_encode e frame st = Some (0, ?f, st\<lparr>codec_ext := x2\<rparr>)"
    using encode_stereo [OF assms(1-6,8-10)] assms(7) by simp
  moreover have "sw_codec_decode e' ?f st' = Some (0, Some s, st'\<lparr>codec_ext := y2\<rparr>)"
    by (rule decode_stereo_halves [OF assms(11) _ assms(7)]) (use assms(12-18) in simp_all)
  ultimately show ?thesis by auto
qed

theorem stereo_channels_roundtrip_witness:
  "\<exists>frame'. sw_codec_encode (example_codec False) example_buf
        \<lparr>m_config = example_codec_cfg True True, codec_ext = ()\<rparr>
      = Some (0, frame', \<lparr>m_config = example_codec_cfg True True, codec_ext = ()\<rparr>)
    \<and> buf_data frame' = [5] @ [6] \<and> data_coding (buf_meta frame') = LC3
    \<and> sw_codec_decode (example_codec False) frame' \<lparr>m_config = example_codec_cfg True True, codec_ext = ()\<rparr>
      = Some (0, Some [5, 6], \<lparr>m_config = example_codec_cfg True True, codec_ext = ()\<rparr>)"
  using stereo_channels_roundtrip [of "example_codec False" "\<lparr>m_config = example_codec_cfg True True, codec_ext = ()\<rparr>"
      example_buf "[5]" "[6]" "[5]" "()" "[6]" "()" "example_codec False"
      "\<lparr>m_config = example_codec_cfg True True, codec_ext = ()\<rparr>" "[5]" "()" "[6]" "()" "[5, 6]"]
  by (simp add: example_codec_defs stereo_tx_def stereo_rx_def PCM_NUM_BYTES_STEREO_def)

text \<open>The encoded length counts the second channel twice. If the encoder gives fewer bytes for the
  right channel than for the left, the frame handed on is cut: it has twice the length of the right
  channel's bytes, so the tail of the right channel is missing; if it gives more, the code reads
  bytes of its stack buffer that nothing wrote. The frame is right only when both channels have the
  same number of bytes, as at a constant bit rate.\<close>

lemma stereo_length_counts_second_twice:
  assumes "stereo_tx e st" and "x_split e (buf_data frame) = (0, l, r)"
    and "length l \<le> PCM_NUM_BYTES_MONO e" and "length r = length l"
    and "x_enc_run e 0 l (ENC_MAX_FRAME_SIZE e * enc_channels_max e) (codec_ext st) = (0, a, x1)"
    and "x_enc_run e 1 r (ENC_MAX_FRAME_SIZE e * enc_channels_max e - length a) x1 = (0, b, x2)"
    and "length a + length b \<le> ENC_MAX_FRAME_SIZE e * enc_channels_max e"
    and "length b + length b < 2 ^ 16" and "length b + length b \<le> buf_size frame"
    and "length a \<noteq> length b"
  shows "if length b < length a
    then \<exists>frame' st'. sw_codec_encode e frame st = Some (0, frame', st')
           \<and> length (buf_data frame') = 2 * length b \<and> length (buf_data frame') < length (a @ b)
    else sw_codec_encode e frame st = None"
  using encode_stereo [OF assms(1-9)] assms(10) by auto

theorem stereo_length_counts_second_twice_witness:
  "\<exists>frame' st'. sw_codec_encode (example_codec True) example_buf
      \<lparr>m_config = example_codec_cfg True True, codec_ext = ()\<rparr> = Some (0, frame', st')
    \<and> length (buf_data frame') = 2 * length [6 :: u8] \<and> length (buf_data frame') < length ([9, 5] @ [6 :: u8])"
  using stereo_length_counts_second_twice [of "example_codec True"
      "\<lparr>m_config = example_codec_cfg True True, codec_ext = ()\<rparr>" example_buf "[5]" "[6]" "[9, 5]" "()" "[6]" "()"]
  by (simp add: example_codec_defs stereo_tx_def)

text \<open>The life of the codec. With a library that succeeds, initialising from the state where
  nothing is enabled takes over the configuration and marks it initialised; initialising again what is
  enabled is refused with -EALREADY and changes nothing but the library's own state; uninitialising
  with the same configuration disables what was enabled and clears the initialised mark, after which
  encoding and decoding are refused with -ENXIO and initialising again succeeds.\<close>

lemma codec_lifecycle:
  assumes "cfg_lc3 e" and "sw_codec cfg = SW_CODEC_LC3" and "enc_enabled (encoder cfg) \<or> dec_enabled (decoder cfg)"
    and "\<not> enc_enabled (encoder (m_config st))" and "\<not> dec_enabled (decoder (m_config st))"
    and "\<forall>x. fst (x_lc3_init e x) = 0 \<and> fst (x_enc_uninit e x) = 0 \<and> fst (x_dec_uninit e x) = 0"
    and "\<forall>r b n x. fst (x_enc_init e r b n x) = 0" and "\<forall>r n x. fst (x_dec_init e r n x) = 0"
  shows "\<exists>st1 st2 st3. sw_codec_init e cfg st = (0, st1) \<and> m_config st1 = cfg\<lparr>codec_initialized := True\<rparr>
    \<and> fst (sw_codec_init e cfg st1) = - EALREADY \<and> m_config (snd (sw_codec_init e cfg st1)) = m_config st1
    \<and> sw_codec_uninit e cfg st1 = (0, st2) \<and> \<not> sw_codec_is_initialized st2
    \<and> sw_codec_encode e frame st2 = Some (- ENXIO, frame, st2)
    \<and> sw_codec_decode e frame st2 = Some (- ENXIO, None, st2)
    \<and> sw_codec_init e cfg st2 = (0, st3) \<and> m_config st3 = m_config st1"
proof -
  obtain i eu du ei di where ok [simp]: "\<And>x. x_lc3_init e x = (0, i x)" "\<And>x. x_enc_uninit e x = (0, eu x)"
      "\<And>x. x_dec_uninit e x = (0, du x)" "\<And>r b n x. x_enc_init e r b n x = (0, ei r b n x)"
      "\<And>r n x. x_dec_init e r n x = (0, di r n x)"
    using codec_calls_ok [OF assms(6-8)] by metis
  have init: "\<exists>st1. sw_codec_init e cfg s = (0, st1) \<and> m_config st1 = cfg\<lparr>codec_initialized := True\<rparr>"
    if "\<not> enc_enabled (encoder (m_config s))" "\<not> dec_enabled (decoder (m_config s))" for s
    using that assms(1,2) by (auto simp: codec_init_defs)
  obtain st1 where st1: "sw_codec_init e cfg st = (0, st1)" "m_config st1 = cfg\<lparr>codec_initialized := True\<rparr>"
    using init [OF assms(4,5)] by blast
  have again: "fst (sw_codec_init e cfg st1) = - EALREADY \<and> m_config (snd (sw_codec_init e cfg st1)) = m_config st1"
    using assms(1-3) st1(2) by (auto simp: codec_init_defs)
  have "\<exists>st2. sw_codec_uninit e cfg st1 = (0, st2) \<and> \<not> sw_codec_is_initialized st2
      \<and> \<not> enc_enabled (encoder (m_config st2)) \<and> \<not> dec_enabled (decoder (m_config st2))"
    using assms(1,2) st1(2)
    by (cases "enc_enabled (encoder cfg)"; cases "dec_enabled (decoder cfg)")
      (simp_all add: codec_uninit_defs Let_def)
  then obtain st2 where st2: "sw_codec_uninit e cfg st1 = (0, st2)" "\<not> sw_codec_is_initialized st2"
      "\<not> enc_enabled (encoder (m_config st2))" "\<not> dec_enabled (decoder (m_config st2))"
    by blast
  obtain st3 where "sw_codec_init e cfg st2 = (0, st3)" "m_config st3 = m_config st1"
    using init [OF st2(3,4)] st1(2) by auto
  then show ?thesis
    using st1 again st2 by (auto simp: sw_codec_encode_def sw_codec_decode_def Let_def)
qed

text \<open>An unsupported codec is reported as success, and a second initialisation can lose a decoder.
  Initialising with no codec returns 0, as success does, and changes nothing: the caller cannot
  tell that nothing was initialised. And initialising only an encoder while a decoder runs returns 0
  but takes the new configuration over the old one: the decoder counts as disabled from then on, is
  never uninitialised, and decoding is refused with -ENXIO.\<close>

lemma codec_init_hides_errors:
  assumes "sw_codec cfg = SW_CODEC_NONE" and "cfg_lc3 e" and "sw_codec cfg' = SW_CODEC_LC3"
    and "enc_enabled (encoder cfg')" and "\<not> dec_enabled (decoder cfg')"
    and "sw_codec (m_config st) = SW_CODEC_LC3" and "\<not> enc_enabled (encoder (m_config st))"
    and "dec_enabled (decoder (m_config st))" and "\<forall>r b n x. fst (x_enc_init e r b n x) = 0"
  shows "sw_codec_init e cfg st = (0, st)
    \<and> (\<exists>st'. sw_codec_init e cfg' st = (0, st') \<and> \<not> dec_enabled (decoder (m_config st'))
         \<and> sw_codec_decode e frame st' = Some (- ENXIO, None, st'))"
proof -
  obtain x where "x_enc_init e (enc_sample_rate_hz (encoder cfg')) (enc_bitrate (encoder cfg'))
      (enc_num_ch (encoder cfg')) (codec_ext st) = (0, x)"
    using assms(9) by (metis prod.collapse)
  then show ?thesis
    using assms(1-8) by (auto simp: codec_init_defs sw_codec_decode_def Let_def)
qed

end
