(* ===== verification/AudioSystem.thy ===== *)
theory AudioSystem
  imports DatapathSafety SwCodec "HOL-Library.While_Combinator"
begin

text \<open>
  The audio system \<open>src/audio/audio_system.c\<close>: the codec configuration, the encoder thread, the
  test tone, and start and stop, which drive the software codec (theory \<open>SwCodec\<close>) and the audio
  datapath (theory \<open>DatapathModel\<close>). The configuration with I2S as the audio source is modelled;
  of the USB configuration, the decoder into the transmit queue is.

  The hardware codec driver and the tone generator of the SDK are parameters. \<open>None\<close> is undefined
  behaviour, a failed assertion or a tripped \<open>ERR_CHK\<close>.
\<close>

section \<open>State\<close>

record 'x sys_env =
  s_dp :: dp_env
  s_codec :: "'x codec_env"
  cfg_lc3_selected :: bool
  mono_to_all_receivers :: bool
  board_audio_dk :: bool
  device_location :: u32
  device_location_default :: nat
  FRAME_SIZE_BYTES :: nat
  BLOCK_SIZE_BYTES :: nat
  FIFO_FRAME_SPLIT_NUM :: nat
  FIFO_TX_BLOCK_COUNT :: nat
  tone_buf_bytes :: nat
  bit_depth_bits :: nat
  x_hw_conf_enable :: int
  x_hw_soft_reset :: int
  x_hw_init :: int
  x_tone_gen :: "u32 \<Rightarrow> int \<times> bytes"
  x_contin :: "nat \<Rightarrow> bytes \<Rightarrow> u32 \<Rightarrow> int \<times> bytes \<times> u32"

record 'x audio_system =
  sw_codec_cfg :: sw_codec_config
  sys_codec :: "'x codec_state"
  sys_dp :: ctrl_blk
  encoder_sig :: bool
  encoder_thread_id :: bool
  enc_test_tone :: bytes
  enc_test_tone_pos :: u32
  test_tone_hz :: u32
  audio_q_rx_pool :: nat
  audio_q_tx :: "bytes list"
  audio_q_tx_pool :: nat

abbreviation (input) TEST_TONE_BASE_FREQ_HZ :: u32 where "TEST_TONE_BASE_FREQ_HZ \<equiv> 1000"

section \<open>Configuration of the codec\<close>

definition sample_rate_valid :: "u32 \<Rightarrow> bool" where
  "sample_rate_valid hz \<longleftrightarrow> hz = 16000 \<or> hz = 24000 \<or> hz = 48000"

definition audio_gateway_configure :: "'x sys_env \<Rightarrow> sw_codec_config \<Rightarrow> sw_codec_config option" where
  "audio_gateway_configure e cfg = do {
     assert_ok (cfg_lc3_selected e);
     let cfg = cfg\<lparr>sw_codec := SW_CODEC_LC3\<rparr>;
     let cfg = (if stream_bidirectional (s_dp e)
                then cfg\<lparr>decoder := (decoder cfg)\<lparr>dec_audio_ch := device_location_default e,
                       dec_num_ch := 1, dec_channel_mode := SW_CODEC_MONO\<rparr>\<rparr>
                else cfg);
     let num_ch = (if mono_to_all_receivers e then 1 else 2);
     Some (cfg\<lparr>encoder := (encoder cfg)\<lparr>enc_num_ch := num_ch,
             enc_channel_mode := (if num_ch = 1 then SW_CODEC_MONO else SW_CODEC_STEREO)\<rparr>\<rparr>) }"

definition POPCOUNT :: "u32 \<Rightarrow> nat" where
  "POPCOUNT w = length (filter (bit w) [0..<32])"

definition audio_headset_configure :: "'x sys_env \<Rightarrow> sw_codec_config \<Rightarrow> sw_codec_config option" where
  "audio_headset_configure e cfg = do {
     assert_ok (cfg_lc3_selected e);
     let cfg = cfg\<lparr>sw_codec := SW_CODEC_LC3\<rparr>;
     let cfg = (if stream_bidirectional (s_dp e)
                then cfg\<lparr>encoder := (encoder cfg)\<lparr>enc_audio_ch := 0, enc_num_ch := 1,
                       enc_channel_mode := SW_CODEC_MONO\<rparr>\<rparr>
                else cfg);
     let loc = device_location e;
     let dec = (decoder cfg)\<lparr>dec_num_ch := POPCOUNT loc\<rparr>;
     dec \<leftarrow> (if loc = BT_AUDIO_LOCATION_FRONT_LEFT
             then Some (dec\<lparr>dec_audio_ch := 0, dec_channel_mode := SW_CODEC_MONO\<rparr>)
             else if loc = BT_AUDIO_LOCATION_FRONT_RIGHT
             then Some (dec\<lparr>dec_audio_ch := 1, dec_channel_mode := SW_CODEC_MONO\<rparr>)
             else if loc = or BT_AUDIO_LOCATION_FRONT_LEFT BT_AUDIO_LOCATION_FRONT_RIGHT
             then Some (dec\<lparr>dec_channel_mode := SW_CODEC_STEREO\<rparr>)
             else None);
     let dec = (if sd_card_playback (s_dp e) then dec\<lparr>dec_num_ch := dec_num_ch dec + 1\<rparr> else dec);
     Some (cfg\<lparr>decoder := dec\<rparr>) }"

definition audio_system_config_set ::
  "u32 \<Rightarrow> u32 \<Rightarrow> u32 \<Rightarrow> 'x audio_system \<Rightarrow> int \<times> 'x audio_system" where
  "audio_system_config_set encoder_sample_rate_hz encoder_bitrate decoder_sample_rate_hz st =
     (if \<not> sample_rate_valid encoder_sample_rate_hz \<and> encoder_sample_rate_hz \<noteq> 0 then (- EINVAL, st)
      else
        let cfg = sw_codec_cfg st;
            cfg = (if sample_rate_valid encoder_sample_rate_hz
                   then cfg\<lparr>encoder := (encoder cfg)\<lparr>enc_sample_rate_hz := encoder_sample_rate_hz\<rparr>\<rparr> else cfg)
        in if \<not> sample_rate_valid decoder_sample_rate_hz \<and> decoder_sample_rate_hz \<noteq> 0
           then (- EINVAL, st\<lparr>sw_codec_cfg := cfg\<rparr>)
           else
             let cfg = (if sample_rate_valid decoder_sample_rate_hz
                        then cfg\<lparr>decoder := (decoder cfg)\<lparr>dec_enabled := True,
                                   dec_sample_rate_hz := decoder_sample_rate_hz\<rparr>\<rparr>
                        else cfg);
                 cfg = (if encoder_bitrate \<noteq> 0
                        then cfg\<lparr>encoder := (encoder cfg)\<lparr>enc_enabled := True,
                                   enc_bitrate := sint encoder_bitrate\<rparr>\<rparr>
                        else cfg)
             in (0, st\<lparr>sw_codec_cfg := cfg\<rparr>))"

definition audio_system_decoder_num_ch_get :: "'x audio_system \<Rightarrow> int" where
  "audio_system_decoder_num_ch_get st = int (dec_num_ch (decoder (sw_codec_cfg st)))"

section \<open>Test tone\<close>

text \<open>
  \<open>tone_gen\<close> writes one period into the static buffer: a period that does not fit is written past its
  end, which is \<open>None\<close>; the size check of the code comes after it.
\<close>

definition audio_system_encode_test_tone_set ::
  "'x sys_env \<Rightarrow> u32 \<Rightarrow> 'x audio_system \<Rightarrow> (int \<times> 'x audio_system) option" where
  "audio_system_encode_test_tone_set e freq st =
     (if freq = 0 then Some (0, st\<lparr>enc_test_tone := []\<rparr>)
      else if audio_test_tone (s_dp e) then do {
        let (ret, tone) = x_tone_gen e freq;
        assert_ok (length tone \<le> tone_buf_bytes e);
        err_chk ret;
        let st = st\<lparr>enc_test_tone := tone\<rparr>;
        if tone_buf_bytes e < length tone then Some (- ENOMEM, st) else Some (0, st) }
      else Some (- ENXIO, st))"

definition audio_system_encode_test_tone_step ::
  "'x sys_env \<Rightarrow> 'x audio_system \<Rightarrow> (int \<times> 'x audio_system) option" where
  "audio_system_encode_test_tone_step e st =
     (if bit_depth_bits e \<noteq> 16 then Some (- ECANCELED, st)
      else
        let hz = (if test_tone_hz st = 0 then TEST_TONE_BASE_FREQ_HZ
                  else if TEST_TONE_BASE_FREQ_HZ * 4 \<le> test_tone_hz st then 0
                  else test_tone_hz st * 2)
        in audio_system_encode_test_tone_set e hz (st\<lparr>test_tone_hz := hz\<rparr>))"

section \<open>Encoder thread\<close>

definition audio_system_encoder_start :: "'x audio_system \<Rightarrow> 'x audio_system" where
  "audio_system_encoder_start st = st\<lparr>encoder_sig := True\<rparr>"

definition audio_system_encoder_stop :: "'x audio_system \<Rightarrow> 'x audio_system" where
  "audio_system_encoder_stop st = st\<lparr>encoder_sig := False\<rparr>"

text \<open>A buffer without room for the data is a failed assertion of \<open>net_buf\<close>.\<close>

definition net_buf_add_mem :: "net_buf \<Rightarrow> bytes \<Rightarrow> net_buf option" where
  "net_buf_add_mem b xs =
     (if length (buf_data b) + length xs \<le> buf_size b then Some (b\<lparr>buf_data := buf_data b @ xs\<rparr>) else None)"

text \<open>The wait for the rest of the frame: the Boolean tells whether the blocks of the queue suffice.\<close>

fun collect_blocks :: "nat \<Rightarrow> net_buf \<Rightarrow> net_buf list \<Rightarrow> (net_buf \<times> net_buf list \<times> bool) option" where
  "collect_blocks dur f [] = Some (f, [], \<not> data_len_us (buf_meta f) < dur)"
| "collect_blocks dur f (b # bs) =
     (if data_len_us (buf_meta f) < dur then do {
        f \<leftarrow> net_buf_add_mem f (buf_data b);
        collect_blocks dur
          (f\<lparr>buf_meta := (buf_meta f)\<lparr>data_len_us := data_len_us (buf_meta f) + data_len_us (buf_meta b)\<rparr>\<rparr>) bs }
      else Some (f, b # bs, True))"

text \<open>
  The tone over the samples of the frame, its length staying the same; and the frame that is a tone
  only.
\<close>

definition tone_frame_bytes :: "'x sys_env \<Rightarrow> 'x audio_system \<Rightarrow> (bytes \<times> 'x audio_system) option" where
  "tone_frame_bytes e st = do {
     let (ret, tmp, pos) = x_contin e (FRAME_SIZE_BYTES e div 2) (enc_test_tone st) (enc_test_tone_pos st);
     err_chk ret;
     let (ret, out) = x_copy_pad (s_codec e) tmp;
     err_chk ret;
     assert_ok (length out \<le> FRAME_SIZE_BYTES e);
     Some (out, st\<lparr>enc_test_tone_pos := pos\<rparr>) }"

definition overwrite :: "net_buf \<Rightarrow> bytes \<Rightarrow> net_buf" where
  "overwrite f out = f\<lparr>buf_data := take (length (buf_data f)) (out @ drop (length out) (buf_data f))\<rparr>"

datatype enc_result = Enc_no_buffer | Enc_waits | Enc_sent net_buf | Enc_kept net_buf

definition encode_and_send ::
  "'x sys_env \<Rightarrow> net_buf \<Rightarrow> 'x audio_system \<Rightarrow> (enc_result \<times> 'x audio_system) option" where
  "encode_and_send e f st =
     (if enc_enabled (encoder (sw_codec_cfg st)) then do {
        (ret, f, c) \<leftarrow> sw_codec_encode (s_codec e) f (sys_codec st);
        err_chk ret;
        Some (Enc_sent f, st\<lparr>sys_codec := c\<rparr>) }
      else Some (Enc_kept f, st\<lparr>audio_q_rx_pool := audio_q_rx_pool st - 1\<rparr>))"

text \<open>
  One pass of the thread's loop, once the start signal is raised: \<open>blocks\<close> are the blocks that
  the receive queue delivers, none if it stays empty for a frame duration. The frame sent is handed
  to \<open>streamctrl_send\<close> and its buffer returned; without an encoder the frame's buffer is kept. A
  frame that is a tone only has to be written completely: the rest of its buffer would be
  indeterminate. The second component of the result is what the thread leaves in the queue.
\<close>

definition encoder_thread ::
  "'x sys_env \<Rightarrow> net_buf list \<Rightarrow> 'x audio_system \<Rightarrow> (enc_result \<times> net_buf list \<times> 'x audio_system) option" where
  "encoder_thread e blocks st =
     (if audio_q_rx_pool st = 0 then Some (Enc_no_buffer, blocks, st)
      else case blocks of
        b # bs \<Rightarrow> do {
          f \<leftarrow> net_buf_add_mem \<lparr>buf_data = [], buf_size = FRAME_SIZE_BYTES e, buf_meta = buf_meta b\<rparr> (buf_data b);
          (f, rest, complete) \<leftarrow> collect_blocks (frame_duration_us (s_dp e)) f bs;
          if \<not> complete then Some (Enc_waits, rest, st)
          else do {
            (f, st) \<leftarrow> (if enc_enabled (encoder (sw_codec_cfg st)) \<and> enc_test_tone st \<noteq> []
                        then do { (out, st) \<leftarrow> tone_frame_bytes e st; Some (overwrite f out, st) }
                        else Some (f, st));
            (r, st) \<leftarrow> encode_and_send e f st;
            Some (r, rest, st) } }
      | [] \<Rightarrow>
          if enc_test_tone st = [] then Some (Enc_waits, [], st)
          else do {
            (out, st) \<leftarrow> tone_frame_bytes e st;
            assert_ok (length out = FRAME_SIZE_BYTES e);
            let f = \<lparr>buf_data = out, buf_size = FRAME_SIZE_BYTES e,
                     buf_meta = \<lparr>data_coding = PCM, data_len_us = frame_duration_us (s_dp e),
                       bytes_per_location = 0,
                       locations = or BT_AUDIO_LOCATION_FRONT_LEFT BT_AUDIO_LOCATION_FRONT_RIGHT,
                       meta_ref_ts_us = 0, meta_data_rx_ts_us = 0, meta_bad_data = False\<rparr>\<rparr>;
            (r, st) \<leftarrow> encode_and_send e f st;
            Some (r, [], st) })"

section \<open>Start, stop, initialisation\<close>

definition audio_system_start :: "'x sys_env \<Rightarrow> 'x audio_system \<Rightarrow> 'x audio_system option" where
  "audio_system_start e st = do {
     cfg \<leftarrow> (if is_headset (s_dp e) then audio_headset_configure e (sw_codec_cfg st)
             else audio_gateway_configure e (sw_codec_cfg st));
     let (ret, c) = sw_codec_init (s_codec e) cfg (sys_codec st);
     err_chk ret;
     let cfg = cfg\<lparr>codec_initialized := True\<rparr>;
     let thread = (encoder_thread_id st \<or> enc_enabled (encoder cfg));
     err_chk (if board_audio_dk e then x_hw_conf_enable e else 0);
     (ret, d) \<leftarrow> audio_datapath_start (s_dp e) (audio_q (sys_dp st)) (sys_dp st);
     err_chk ret;
     Some (st\<lparr>sw_codec_cfg := cfg, sys_codec := c, encoder_thread_id := thread, sys_dp := d\<rparr>) }"

definition audio_system_stop :: "'x sys_env \<Rightarrow> 'x audio_system \<Rightarrow> 'x audio_system option" where
  "audio_system_stop e st =
     (if \<not> codec_initialized (sw_codec_cfg st) then Some st
      else do {
        err_chk (if board_audio_dk e then x_hw_soft_reset e else 0);
        (ret, d) \<leftarrow> audio_datapath_stop (s_dp e) (sys_dp st);
        err_chk ret;
        let (ret, c) = sw_codec_uninit (s_codec e) (sw_codec_cfg st) (sys_codec st);
        err_chk ret;
        Some (st\<lparr>sw_codec_cfg := (sw_codec_cfg st)\<lparr>codec_initialized := False\<rparr>, sys_codec := c, sys_dp := d\<rparr>) })"

definition audio_system_init :: "'x sys_env \<Rightarrow> 'x audio_system \<Rightarrow> (int \<times> 'x audio_system) option" where
  "audio_system_init e st = do {
     (ret, d) \<leftarrow> audio_datapath_init (s_dp e) (sys_dp st);
     let st = st\<lparr>sys_dp := d\<rparr>;
     if ret \<noteq> 0 then Some (ret, st)
     else if board_audio_dk e \<and> x_hw_init e \<noteq> 0 then Some (x_hw_init e, st)
     else Some (0, st\<lparr>encoder_sig := False\<rparr>) }"

definition cmd_audio_system_start :: "'x sys_env \<Rightarrow> 'x audio_system \<Rightarrow> (int \<times> 'x audio_system) option" where
  "cmd_audio_system_start e st = map_option (Pair 0) (audio_system_start e st)"

definition cmd_audio_system_stop :: "'x sys_env \<Rightarrow> 'x audio_system \<Rightarrow> (int \<times> 'x audio_system) option" where
  "cmd_audio_system_stop e st = map_option (Pair 0) (audio_system_stop e st)"

section \<open>Decoding for USB\<close>

text \<open>
  The loop drops blocks from the front of the queue while it has fewer free places than a frame
  needs, and breaks when there is none to get; not ending is \<open>None\<close>. Then the frame is split into
  blocks, which must lie inside the decoded bytes (beyond them the static buffer holds old data).
  \<open>audio_q_tx_pool\<close> counts the free buffers.
\<close>

definition drop_stale :: "'x sys_env \<Rightarrow> 'x audio_system \<Rightarrow> 'x audio_system option" where
  "drop_stale e = while_option
     (\<lambda>st. FIFO_TX_BLOCK_COUNT e - length (audio_q_tx st) < FIFO_FRAME_SPLIT_NUM e \<and> audio_q_tx st \<noteq> [])
     (\<lambda>st. st\<lparr>audio_q_tx := tl (audio_q_tx st), audio_q_tx_pool := audio_q_tx_pool st + 1\<rparr>)"

fun split_loop :: "'x sys_env \<Rightarrow> bytes \<Rightarrow> nat \<Rightarrow> nat \<Rightarrow> 'x audio_system \<Rightarrow> (int \<times> 'x audio_system) option" where
  "split_loop e pcm i 0 st = Some (0, st)"
| "split_loop e pcm i (Suc k) st =
     (if audio_q_tx_pool st = 0 then Some (- ENOMEM, st)
      else do {
        b \<leftarrow> rd_range pcm (i * BLOCK_SIZE_BYTES e) (BLOCK_SIZE_BYTES e);
        if FIFO_TX_BLOCK_COUNT e \<le> length (audio_q_tx st) then Some (- ENOMSG, st)
        else split_loop e pcm (Suc i) k
               (st\<lparr>audio_q_tx := audio_q_tx st @ [b], audio_q_tx_pool := audio_q_tx_pool st - 1\<rparr>) })"

definition audio_system_decode :: "'x sys_env \<Rightarrow> net_buf \<Rightarrow> 'x audio_system \<Rightarrow> (int \<times> 'x audio_system) option" where
  "audio_system_decode e frame st =
     (if \<not> codec_initialized (sw_codec_cfg st) then Some (- EPERM, st)
      else do {
        (ret, out, c) \<leftarrow> sw_codec_decode (s_codec e) frame (sys_codec st);
        let st = st\<lparr>sys_codec := c\<rparr>;
        if ret \<noteq> 0 then Some (ret, st)
        else do {
          pcm \<leftarrow> out;
          st \<leftarrow> drop_stale e st;
          split_loop e pcm 0 (FIFO_FRAME_SPLIT_NUM e) st } })"

section \<open>Frames to the datapath\<close>

text \<open>What the datapath reads of a frame.\<close>

definition to_audio_frame :: "net_buf \<Rightarrow> audio_frame" where
  "to_audio_frame f = \<lparr>ref_ts_us = meta_ref_ts_us (buf_meta f), data_rx_ts_us = meta_data_rx_ts_us (buf_meta f),
     frame_data = buf_data f, bad_data = meta_bad_data (buf_meta f)\<rparr>"

text \<open>
  The samples of decoded bytes: little endian and signed, as many bytes each as the build says.
\<close>

fun le_bytes :: "bytes \<Rightarrow> int" where
  "le_bytes [] = 0"
| "le_bytes (b # bs) = uint b + 256 * le_bytes bs"

definition pcm_sample :: "nat \<Rightarrow> bytes \<Rightarrow> int" where
  "pcm_sample octets bs =
     (let v = le_bytes bs in if 2 ^ (8 * octets - 1) \<le> v then v - 2 ^ (8 * octets) else v)"

definition pcm_samples :: "nat \<Rightarrow> bytes \<Rightarrow> int list" where
  "pcm_samples octets bs =
     map (\<lambda>i. pcm_sample octets (take octets (drop (i * octets) bs))) [0..<length bs div octets]"

text \<open>
  The call of \<open>sw_codec_decode\<close> in \<open>audio_datapath_stream_out\<close>, in the codec's present state, and the
  whole function with it: the codec's state is the one after the call, if the frame gets there. A
  decoding error leaves the outputs unset, which makes the function undefined.
\<close>

definition sys_decoder :: "'x sys_env \<Rightarrow> net_buf \<Rightarrow> 'x audio_system \<Rightarrow> audio_frame \<Rightarrow> int \<times> (int list \<times> nat) option" where
  "sys_decoder e frame st = (\<lambda>f. case sw_codec_decode (s_codec e) frame (sys_codec st) of
     None \<Rightarrow> (0, None)
   | Some (ret, out, c) \<Rightarrow>
       (ret, map_option (\<lambda>pcm. (pcm_samples (bit_depth_octets (s_dp e)) pcm, length pcm)) out))"

definition sys_stream_out :: "'x sys_env \<Rightarrow> net_buf \<Rightarrow> 'x audio_system \<Rightarrow> 'x audio_system option" where
  "sys_stream_out e frame st = do {
     d \<leftarrow> audio_datapath_stream_out ((s_dp e)\<lparr>e_decode := sys_decoder e frame st\<rparr>)
            (Some (to_audio_frame frame)) (sys_dp st);
     if taken_up (to_audio_frame frame) (sys_dp st)
     then do {
       (ret, out, c) \<leftarrow> sw_codec_decode (s_codec e) frame (sys_codec st);
       Some (st\<lparr>sys_dp := d, sys_codec := c\<rparr>) }
     else Some (st\<lparr>sys_dp := d\<rparr>) }"

section \<open>The life of the system\<close>

text \<open>
  What is relied on of the libraries and drivers, and a device location that is supported. The
  flags of the configuration and of the codec agree while it runs.
\<close>

definition sys_externals_ok :: "'x sys_env \<Rightarrow> bool" where
  "sys_externals_ok e \<longleftrightarrow> externals_ok (s_dp e) \<and> 0 < bit_depth_octets (s_dp e) \<and> cfg_lc3_selected e \<and> cfg_lc3 (s_codec e)
     \<and> (is_headset (s_dp e) \<longrightarrow> device_location e = 1 \<or> device_location e = 2 \<or> device_location e = 3)
     \<and> x_hw_conf_enable e = 0 \<and> x_hw_soft_reset e = 0 \<and> x_hw_init e = 0
     \<and> (\<forall>x. fst (x_lc3_init (s_codec e) x) = 0 \<and> fst (x_enc_uninit (s_codec e) x) = 0
            \<and> fst (x_dec_uninit (s_codec e) x) = 0)
     \<and> (\<forall>r b n x. fst (x_enc_init (s_codec e) r b n x) = 0) \<and> (\<forall>r n x. fst (x_dec_init (s_codec e) r n x) = 0)"

definition sys_running :: "'x audio_system \<Rightarrow> bool" where
  "sys_running st = stream_started (sys_dp st)"

definition sys_inv :: "'x sys_env \<Rightarrow> 'x audio_system \<Rightarrow> bool" where
  "sys_inv e st \<longleftrightarrow> dp_inv (s_dp e) (sys_dp st)
     \<and> codec_initialized (sw_codec_cfg st) = sys_running st
     \<and> sw_codec_is_initialized (sys_codec st) = sys_running st
     \<and> (sys_running st \<longrightarrow> sw_codec (sw_codec_cfg st) = SW_CODEC_LC3
          \<and> sw_codec (m_config (sys_codec st)) = SW_CODEC_LC3)
     \<and> enc_enabled (encoder (m_config (sys_codec st))) = (sys_running st \<and> enc_enabled (encoder (sw_codec_cfg st)))
     \<and> dec_enabled (decoder (m_config (sys_codec st))) = (sys_running st \<and> dec_enabled (decoder (sw_codec_cfg st)))"

datatype sys_event = Sys_config u32 u32 u32 | Sys_start | Sys_stop | Sys_tone | Sys_frame net_buf | Sys_dp dp_event

definition sys_step :: "'x sys_env \<Rightarrow> sys_event \<Rightarrow> 'x audio_system \<Rightarrow> 'x audio_system option" where
  "sys_step e ev st = (case ev of
     Sys_config er eb dr \<Rightarrow> Some (snd (audio_system_config_set er eb dr st))
   | Sys_start \<Rightarrow> map_option snd (cmd_audio_system_start e st)
   | Sys_stop \<Rightarrow> map_option snd (cmd_audio_system_stop e st)
   | Sys_tone \<Rightarrow> map_option snd (audio_system_encode_test_tone_step e st)
   | Sys_frame f \<Rightarrow> sys_stream_out e f st
   | Sys_dp dev \<Rightarrow> map_option (\<lambda>d. st\<lparr>sys_dp := d\<rparr>) (dp_step (s_dp e) dev (sys_dp st)))"

fun sys_run :: "'x sys_env \<Rightarrow> sys_event list \<Rightarrow> 'x audio_system \<Rightarrow> 'x audio_system option" where
  "sys_run e [] st = Some st"
| "sys_run e (ev # evs) st = do { st \<leftarrow> sys_step e ev st; sys_run e evs st }"

text \<open>
  What is asked of the events: a configuration change or a start only while the system is stopped, a
  tone period that fits its buffer, and a frame that gets to the decoder is decoded by
  \<open>sw_codec_decode\<close>. The datapath's other events are those of its own property, except its start and
  stop, which only the audio system calls.
\<close>

definition decodes :: "'x sys_env \<Rightarrow> net_buf \<Rightarrow> 'x audio_system \<Rightarrow> bool" where
  "decodes e f st \<longleftrightarrow> (taken_up (to_audio_frame f) (sys_dp st) \<longrightarrow>
     (case sw_codec_decode (s_codec e) f (sys_codec st) of Some (ret, Some pcm, c) \<Rightarrow> True | _ \<Rightarrow> False))"

definition sys_ev_ok :: "'x sys_env \<Rightarrow> sys_event \<Rightarrow> 'x audio_system \<Rightarrow> bool" where
  "sys_ev_ok e ev st = (case ev of
     Sys_config _ _ _ \<Rightarrow> \<not> sys_running st
   | Sys_start \<Rightarrow> \<not> sys_running st
   | Sys_stop \<Rightarrow> True
   | Sys_tone \<Rightarrow> (\<forall>hz. fst (x_tone_gen e hz) = 0 \<and> length (snd (x_tone_gen e hz)) \<le> tone_buf_bytes e)
   | Sys_frame f \<Rightarrow> decodes e f st
   | Sys_dp dev \<Rightarrow> ev_ok (s_dp e) dev (sys_dp st) \<and> (\<forall>q. dev \<noteq> Ev_start q) \<and> dev \<noteq> Ev_stop
       \<and> (\<forall>f. dev \<noteq> Ev_frame f))"

fun sys_evs_ok :: "'x sys_env \<Rightarrow> sys_event list \<Rightarrow> 'x audio_system \<Rightarrow> bool" where
  "sys_evs_ok e [] st = True"
| "sys_evs_ok e (ev # evs) st =
     (sys_ev_ok e ev st \<and> (case sys_step e ev st of None \<Rightarrow> True | Some st' \<Rightarrow> sys_evs_ok e evs st'))"

lemma start_codec:
  assumes "sys_externals_ok e" and "sw_codec cfg = SW_CODEC_LC3"
    and "\<not> enc_enabled (encoder (m_config c))" and "\<not> dec_enabled (decoder (m_config c))"
  shows "\<exists>c'. sw_codec_init (s_codec e) cfg c = (0, c') \<and> m_config c' = cfg\<lparr>codec_initialized := True\<rparr>"
proof -
  obtain i eu du ei di where [simp]: "\<And>x. x_lc3_init (s_codec e) x = (0, i x)"
      "\<And>x. x_enc_uninit (s_codec e) x = (0, eu x)" "\<And>x. x_dec_uninit (s_codec e) x = (0, du x)"
      "\<And>r b n x. x_enc_init (s_codec e) r b n x = (0, ei r b n x)"
      "\<And>r n x. x_dec_init (s_codec e) r n x = (0, di r n x)"
    by (rule codec_calls_ok [of "s_codec e"]) (use assms(1) in \<open>simp_all add: sys_externals_ok_def\<close>)
  show ?thesis
    using assms by (auto simp: codec_init_defs sys_externals_ok_def)
qed

lemma stop_codec:
  assumes "sys_externals_ok e" and "sw_codec cfg = SW_CODEC_LC3" and "sw_codec (m_config c) = SW_CODEC_LC3"
    and "enc_enabled (encoder (m_config c)) = enc_enabled (encoder cfg)"
    and "dec_enabled (decoder (m_config c)) = dec_enabled (decoder cfg)"
  shows "\<exists>c'. sw_codec_uninit (s_codec e) cfg c = (0, c') \<and> \<not> sw_codec_is_initialized c'
     \<and> \<not> enc_enabled (encoder (m_config c')) \<and> \<not> dec_enabled (decoder (m_config c'))"
proof -
  obtain i eu du ei di where [simp]: "\<And>x. x_lc3_init (s_codec e) x = (0, i x)"
      "\<And>x. x_enc_uninit (s_codec e) x = (0, eu x)" "\<And>x. x_dec_uninit (s_codec e) x = (0, du x)"
      "\<And>r b n x. x_enc_init (s_codec e) r b n x = (0, ei r b n x)"
      "\<And>r n x. x_dec_init (s_codec e) r n x = (0, di r n x)"
    by (rule codec_calls_ok [of "s_codec e"]) (use assms(1) in \<open>simp_all add: sys_externals_ok_def\<close>)
  have "cfg_lc3 (s_codec e)" using assms(1) by (simp add: sys_externals_ok_def)
  then show ?thesis
    using assms(2-5)
    by (cases "enc_enabled (encoder cfg)"; cases "dec_enabled (decoder cfg)")
      (simp_all add: codec_uninit_defs Let_def)
qed

lemma configure_ok:
  assumes "sys_externals_ok e"
  shows "\<exists>cfg'. (if is_headset (s_dp e) then audio_headset_configure e cfg else audio_gateway_configure e cfg)
           = Some cfg' \<and> sw_codec cfg' = SW_CODEC_LC3
           \<and> enc_enabled (encoder cfg') = enc_enabled (encoder cfg)
           \<and> dec_enabled (decoder cfg') = dec_enabled (decoder cfg)"
  using assms
  by (auto simp: sys_externals_ok_def audio_headset_configure_def audio_gateway_configure_def Let_def)

lemma dp_start_started:
  assumes "dp_inv d s" and "\<not> stream_started s"
  shows "\<exists>s'. audio_datapath_start d (audio_q s) s = Some (0, s') \<and> dp_inv d s' \<and> stream_started s'"
proof -
  obtain r s' where s': "audio_datapath_start d (audio_q s) s = Some (r, s')" "dp_inv d s'"
    using start_inv [OF assms(1), of "audio_q s"] dp_inv_flags [OF assms(1)] by blast
  then have "r = 0 \<and> stream_started s'"
    using assms by (auto simp: audio_datapath_start_def dp_inv_def Let_def split: bind_splits)
  then show ?thesis using s' by blast
qed

lemma dp_stop_stopped:
  assumes "dp_inv d s" and "stream_started s"
  shows "\<exists>s'. audio_datapath_stop d s = Some (0, s') \<and> dp_inv d s' \<and> \<not> stream_started s'"
proof -
  obtain r s' where s': "audio_datapath_stop d s = Some (r, s')" "dp_inv d s'"
    using stop_inv [OF assms(1)] by blast
  then have "r = 0 \<and> \<not> stream_started s'"
    using assms(2)
    by (auto simp: audio_datapath_stop_def audio_datapath_i2s_stop_def alt_buffer_free_both_def
        pres_comp_state_set_def Let_def split: bind_splits if_splits)
  then show ?thesis using s' by blast
qed

lemma sys_start_inv:
  assumes "sys_externals_ok e" and "sys_inv e st" and "\<not> sys_running st"
  shows "\<exists>st'. audio_system_start e st = Some st' \<and> sys_inv e st' \<and> sys_running st'
     \<and> dec_enabled (decoder (sw_codec_cfg st')) = dec_enabled (decoder (sw_codec_cfg st))"
proof -
  obtain cfg where cfg: "(if is_headset (s_dp e) then audio_headset_configure e (sw_codec_cfg st)
        else audio_gateway_configure e (sw_codec_cfg st)) = Some cfg" "sw_codec cfg = SW_CODEC_LC3"
      "dec_enabled (decoder cfg) = dec_enabled (decoder (sw_codec_cfg st))"
    using configure_ok [OF assms(1)] by blast
  obtain c where c: "sw_codec_init (s_codec e) cfg (sys_codec st) = (0, c)" "m_config c = cfg\<lparr>codec_initialized := True\<rparr>"
    using start_codec [OF assms(1) cfg(2)] assms(2,3) by (auto simp: sys_inv_def)
  obtain d where d: "audio_datapath_start (s_dp e) (audio_q (sys_dp st)) (sys_dp st) = Some (0, d)"
      "dp_inv (s_dp e) d" "stream_started d"
    using dp_start_started assms(2,3) by (auto simp: sys_inv_def sys_running_def)
  have hw: "x_hw_conf_enable e = 0" using assms(1) by (simp add: sys_externals_ok_def)
  have "audio_system_start e st = Some (st\<lparr>sw_codec_cfg := cfg\<lparr>codec_initialized := True\<rparr>, sys_codec := c,
      encoder_thread_id := encoder_thread_id st \<or> enc_enabled (encoder cfg), sys_dp := d\<rparr>)"
    using hw by (simp add: audio_system_start_def cfg(1) c(1) d(1) Let_def)
  then show ?thesis
    using cfg(2,3) c(2) d(2,3) by (simp add: sys_inv_def sys_running_def sw_codec_is_initialized_def)
qed

lemma sys_stop_inv:
  assumes "sys_externals_ok e" and "sys_inv e st"
  shows "\<exists>st'. audio_system_stop e st = Some st' \<and> sys_inv e st' \<and> \<not> sys_running st'"
proof (cases "sys_running st")
  case False
  then show ?thesis using assms(2) by (simp add: audio_system_stop_def sys_inv_def)
next
  case True
  obtain d where d: "audio_datapath_stop (s_dp e) (sys_dp st) = Some (0, d)" "dp_inv (s_dp e) d" "\<not> stream_started d"
    using dp_stop_stopped assms(2) True by (auto simp: sys_inv_def sys_running_def)
  obtain c where c: "sw_codec_uninit (s_codec e) (sw_codec_cfg st) (sys_codec st) = (0, c)"
      "\<not> sw_codec_is_initialized c" "\<not> enc_enabled (encoder (m_config c))" "\<not> dec_enabled (decoder (m_config c))"
    using stop_codec [OF assms(1), of "sw_codec_cfg st" "sys_codec st"] assms(2) True by (auto simp: sys_inv_def)
  have hw: "x_hw_soft_reset e = 0" using assms(1) by (simp add: sys_externals_ok_def)
  have "audio_system_stop e st = Some (st\<lparr>sw_codec_cfg := (sw_codec_cfg st)\<lparr>codec_initialized := False\<rparr>,
      sys_codec := c, sys_dp := d\<rparr>)"
    using hw True assms(2) by (simp add: audio_system_stop_def sys_inv_def c(1) d(1))
  then show ?thesis
    using c d by (simp add: sys_inv_def sys_running_def)
qed

text \<open>Only start and stop change whether the datapath is started.\<close>

lemma started_pres_set: "pres_comp_state_set e st s = Some s' \<Longrightarrow> stream_started s' = stream_started s"
  by (auto simp: pres_comp_state_set_def Let_def split: bind_splits if_splits)

lemma started_pres_insert: "pres_insert e recv k s = Some s' \<Longrightarrow> stream_started s' = stream_started s"
  by (induction k arbitrary: s) (auto split: bind_splits)

lemma started_presentation:
  assumes "audio_datapath_presentation_compensation e recv sdu nc s = Some s'"
  shows "stream_started s' = stream_started s"
proof -
  have sw: "stream_started u = stream_started t" if "pres_comp_switch e w t = Some (a, u)" for a t u w
    using that by (auto simp: pres_comp_switch_def Let_def split: pres_comp_state.splits bind_splits if_splits
        dest!: started_pres_set)
  show ?thesis
    using assms by (auto simp: audio_datapath_presentation_compensation_def pres_remove_def Let_def
        split: bind_splits if_splits dest!: started_pres_set sw started_pres_insert)
qed

lemma started_stream_out_loop:
  "stream_out_loop e t i k idx s = Some (j, s') \<Longrightarrow> stream_started s' = stream_started s"
  by (induction k arbitrary: i idx s) (auto split: bind_splits)

lemma started_stream_out:
  "audio_datapath_stream_out e f s = Some s' \<Longrightarrow> stream_started s' = stream_started s"
  by (auto simp: audio_datapath_stream_out_def fifo_put_def Let_def split: bind_splits if_splits prod.splits
      dest!: started_presentation started_stream_out_loop)

lemma started_tx: "i2s_tx e b r s = Some s' \<Longrightarrow> stream_started s' = stream_started s"
  by (auto simp: i2s_tx_def tx_next_def tone_mix_def alt_buffer_get_def tx_write_def err_chk_def Let_def
      split: bind_splits if_splits tx_ptr.splits prod.splits)

lemma started_rx: "i2s_rx e b s = Some s' \<Longrightarrow> stream_started s' = stream_started s"
  by (auto simp: i2s_rx_def Let_def split: bind_splits if_splits list.splits)

lemma started_drift:
  "audio_datapath_drift_compensation e ts s = Some s' \<Longrightarrow> stream_started s' = stream_started s"
  by (auto simp: audio_datapath_drift_compensation_def drift_regulate_def drift_comp_state_set_def
      hfclkaudio_set_def Let_def split: drift_comp_state.splits if_splits bind_splits)

lemma started_handler:
  "i2s_comp_handler e b ts rx s = Some s' \<Longrightarrow> stream_started s' = stream_started s"
  by (auto simp: i2s_comp_handler_def audio_datapath_i2s_blk_complete_def alt_buffer_free_def Let_def
      split: bind_splits if_splits dest!: started_tx started_rx started_drift)

lemma dp_step_running:
  assumes "dp_step d dev s = Some s'" and "\<forall>q. dev \<noteq> Ev_start q" and "dev \<noteq> Ev_stop"
  shows "stream_started s' = stream_started s"
  using assms
  by (cases dev) (auto simp: dp_step_def audio_datapath_sdu_ref_update_def audio_system_fifo_rx_block_drop_def
      audio_datapath_just_in_time_check_and_adjust_def audio_datapath_pres_delay_us_set_def
      audio_datapath_tone_play_def cmd_i2s_tone_stop_def audio_datapath_tone_stop_def tone_stop_timer_handler_def
      tone_stop_worker_def cmd_hfclkaudio_drift_comp_enable_def cmd_hfclkaudio_drift_comp_disable_def
      drift_comp_state_set_def cmd_audio_pres_comp_enable_def cmd_audio_pres_comp_disable_def Let_def
      split: bind_splits if_splits prod.splits list.splits
      dest!: started_stream_out started_handler started_pres_set)

text \<open>The datapath's invariant does not look at the decoder, and the codec's model is one it can rely on.\<close>

lemma decode_irrelevant:
  "wf_fifo (d\<lparr>e_decode := g\<rparr>) s = wf_fifo d s" "dp_inv (d\<lparr>e_decode := g\<rparr>) s = dp_inv d s"
  by (simp_all add: dp_inv_def wf_fifo_def wf_env_def led_ok_def gpio_works_def sync_shown_def i2s_inv_def tx_on_def
      FIFO_NUM_BLKS_def NUM_BLKS_IN_FRAME_def BLK_STEREO_NUM_SAMPS_def BLK_MONO_NUM_SAMPS_def)

lemma sys_decoder_ok:
  assumes "externals_ok (s_dp e)" and "0 < bit_depth_octets (s_dp e)"
  shows "externals_ok ((s_dp e)\<lparr>e_decode := sys_decoder e f st\<rparr>)"
proof -
  let ?d = "(s_dp e)\<lparr>e_decode := sys_decoder e f st\<rparr>"
  have "length pcm = NUM_BLKS_IN_FRAME ?d * BLK_STEREO_NUM_SAMPS ?d"
    if "snd (sys_decoder e f st h) = Some (pcm, BLK_STEREO_SIZE_OCTETS ?d * NUM_BLKS_IN_FRAME ?d)" for h pcm
  proof -
    have "\<exists>bs. pcm = pcm_samples (bit_depth_octets (s_dp e)) bs \<and> length bs = n"
      if "snd (sys_decoder e f st h) = Some (pcm, n)" for n
      using that by (auto simp: sys_decoder_def split: option.splits)
    from this [OF that] obtain bs where "pcm = pcm_samples (bit_depth_octets (s_dp e)) bs"
        "length bs = BLK_STEREO_SIZE_OCTETS ?d * NUM_BLKS_IN_FRAME ?d"
      by blast
    then show ?thesis
      using assms(2) by (simp add: pcm_samples_def BLK_STEREO_SIZE_OCTETS_def BLK_STEREO_NUM_SAMPS_def
          BLK_MONO_NUM_SAMPS_def div_mult_self_is_m)
  qed
  moreover have "sys_decoder e f st (h\<lparr>ref_ts_us := r\<rparr>) = sys_decoder e f st h" for h r
    by (simp add: sys_decoder_def)
  ultimately show ?thesis
    using assms(1) by (simp add: externals_ok_def codec_ok_def wf_env_def FIFO_NUM_BLKS_def NUM_BLKS_IN_FRAME_def)
qed

lemma decode_keeps_config: "sw_codec_decode c f st = Some (r, out, st') \<Longrightarrow> m_config st' = m_config st"
  by (auto simp: sw_codec_decode_def Let_def split: if_splits sw_codec_select.splits bind_splits)

lemma sys_stream_out_keeps:
  assumes "sys_stream_out e f st = Some st'"
  shows "sys_running st' = sys_running st \<and> sw_codec_cfg st' = sw_codec_cfg st"
  using assms
  by (auto simp: sys_stream_out_def sys_running_def split: bind_splits if_splits dest!: started_stream_out)

lemma sys_frame_inv:
  assumes "sys_externals_ok e" and "sys_inv e st" and "decodes e f st"
  shows "\<exists>st'. sys_stream_out e f st = Some st' \<and> sys_inv e st' \<and> sys_running st' = sys_running st
     \<and> sw_codec_cfg st' = sw_codec_cfg st"
proof -
  let ?d = "(s_dp e)\<lparr>e_decode := sys_decoder e f st\<rparr>" and ?f = "to_audio_frame f"
  have ok: "externals_ok ?d" "dp_inv ?d (sys_dp st)"
    using assms(1,2) by (auto simp: sys_externals_ok_def sys_inv_def decode_irrelevant intro: sys_decoder_ok)
  have dec: "\<exists>r pcm c. sw_codec_decode (s_codec e) f (sys_codec st) = Some (r, Some pcm, c)"
    if "taken_up ?f (sys_dp st)"
    using assms(3) that by (auto simp: decodes_def split: option.splits)
  then have "taken_up ?f (sys_dp st) \<Longrightarrow> snd (e_decode ?d ?f) \<noteq> None"
    by (fastforce simp: sys_decoder_def)
  then obtain d where d: "audio_datapath_stream_out ?d (Some ?f) (sys_dp st) = Some d" "dp_inv (s_dp e) d"
    using stream_out_inv [OF ok, of ?f] by (auto simp: decode_irrelevant)
  note run = started_stream_out [OF d(1)]
  show ?thesis
  proof (cases "taken_up ?f (sys_dp st)")
    case False
    then show ?thesis
      using d run assms(2) by (simp add: sys_stream_out_def sys_inv_def sys_running_def)
  next
    case True
    then obtain r pcm c where c: "sw_codec_decode (s_codec e) f (sys_codec st) = Some (r, Some pcm, c)"
      using dec by blast
    then show ?thesis
      using d run True assms(2) decode_keeps_config [OF c]
      by (simp add: sys_stream_out_def sys_inv_def sys_running_def sw_codec_is_initialized_def)
  qed
qed

lemma sys_step_inv:
  assumes "sys_externals_ok e" and "sys_inv e st" and "sys_ev_ok e ev st"
  shows "\<exists>st'. sys_step e ev st = Some st' \<and> sys_inv e st'"
proof (cases ev)
  case (Sys_config er eb dr)
  then have "\<not> sys_running st" using assms(3) by (simp add: sys_ev_ok_def)
  then show ?thesis
    using assms(2) Sys_config
    by (auto simp: sys_step_def audio_system_config_set_def sys_inv_def sys_running_def Let_def)
next
  case Sys_start
  then obtain st' where "audio_system_start e st = Some st'" "sys_inv e st'"
    using sys_start_inv [OF assms(1,2)] assms(3) by (auto simp: sys_ev_ok_def)
  then show ?thesis using Sys_start by (simp add: sys_step_def cmd_audio_system_start_def)
next
  case Sys_stop
  obtain st' where "audio_system_stop e st = Some st'" "sys_inv e st'"
    using sys_stop_inv [OF assms(1,2)] by blast
  then show ?thesis using Sys_stop by (simp add: sys_step_def cmd_audio_system_stop_def)
next
  case Sys_tone
  then have t: "fst (x_tone_gen e hz) = 0" "length (snd (x_tone_gen e hz)) \<le> tone_buf_bytes e" for hz
    using assms(3) by (simp_all add: sys_ev_ok_def)
  have "\<exists>r st'. audio_system_encode_test_tone_set e hz s = Some (r, st') \<and> sys_inv e st'"
    if "sys_inv e s" for hz s
    using t [of hz] that
    by (auto simp: audio_system_encode_test_tone_set_def sys_inv_def sys_running_def split: prod.splits)
  moreover have "sys_inv e (st\<lparr>test_tone_hz := hz\<rparr>)" for hz
    using assms(2) by (simp add: sys_inv_def sys_running_def)
  ultimately have "\<exists>r st'. audio_system_encode_test_tone_step e st = Some (r, st') \<and> sys_inv e st'"
    unfolding audio_system_encode_test_tone_step_def Let_def using assms(2) by simp
  then show ?thesis using Sys_tone by (auto simp: sys_step_def)
next
  case (Sys_frame f)
  then have "decodes e f st" using assms(3) by (simp add: sys_ev_ok_def)
  then show ?thesis using sys_frame_inv [OF assms(1,2)] Sys_frame by (auto simp: sys_step_def)
next
  case (Sys_dp dev)
  then have ok: "ev_ok (s_dp e) dev (sys_dp st)" "\<forall>q. dev \<noteq> Ev_start q" "dev \<noteq> Ev_stop"
    using assms(3) by (simp_all add: sys_ev_ok_def)
  obtain d where d: "dp_step (s_dp e) dev (sys_dp st) = Some d" "dp_inv (s_dp e) d"
    using dp_step_inv [OF _ _ ok(1)] assms(1,2) by (auto simp: sys_externals_ok_def sys_inv_def)
  then show ?thesis
    using Sys_dp assms(2) dp_step_running [OF d(1) ok(2,3)]
    by (simp add: sys_step_def sys_inv_def sys_running_def)
qed

lemma sys_run_inv:
  "sys_externals_ok e \<Longrightarrow> sys_inv e st \<Longrightarrow> sys_evs_ok e evs st \<Longrightarrow>
   \<exists>st'. sys_run e evs st = Some st' \<and> sys_inv e st'"
proof (induction evs arbitrary: st)
  case (Cons ev evs)
  then obtain st1 where "sys_step e ev st = Some st1" "sys_inv e st1"
    using sys_step_inv by fastforce
  then show ?case using Cons by simp
qed simp

text \<open>The memory before \<open>main\<close>, with the datapath's LEDs given.\<close>

definition sys_boot :: "'x sys_env \<Rightarrow> led_state \<Rightarrow> 'x \<Rightarrow> 'x audio_system" where
  "sys_boot e l x =
     (let cfg = \<lparr>sw_codec = SW_CODEC_NONE,
            decoder = \<lparr>dec_enabled = False, dec_channel_mode = 0, dec_num_ch = 0, dec_audio_ch = 0, dec_sample_rate_hz = 0\<rparr>,
            encoder = \<lparr>enc_enabled = False, enc_bitrate = 0, enc_channel_mode = 0, enc_num_ch = 0, enc_audio_ch = 0,
                       enc_sample_rate_hz = 0\<rparr>, codec_initialized = False\<rparr>
      in \<lparr>sw_codec_cfg = cfg, sys_codec = \<lparr>m_config = cfg, codec_ext = x\<rparr>, sys_dp = dp_boot (s_dp e) l,
          encoder_sig = False, encoder_thread_id = False, enc_test_tone = [], enc_test_tone_pos = 0,
          test_tone_hz = 0, audio_q_rx_pool = 0, audio_q_tx = [], audio_q_tx_pool = 0\<rparr>)"

lemma sys_init_inv:
  assumes "sys_externals_ok e" and "led_ok (s_dp e) (dp_boot (s_dp e) l)"
    and "displays l (led_audio_sync_status (e_board (s_dp e))) LED_COLOR_OFF"
  shows "\<exists>st. audio_system_init e (sys_boot e l x) = Some (0, st) \<and> sys_inv e st \<and> \<not> sys_running st
     \<and> \<not> dec_enabled (decoder (sw_codec_cfg st))"
proof -
  have ext: "externals_ok (s_dp e)" "x_hw_init e = 0"
    using assms(1) by (simp_all add: sys_externals_ok_def)
  obtain d where d: "audio_datapath_init (s_dp e) (dp_boot (s_dp e) l) = Some (0, d)" "dp_inv (s_dp e) d"
    using init_inv [OF ext(1) assms(2,3)] by blast
  have "\<not> stream_started d"
    using d(1) by (auto simp: audio_datapath_init_def audio_i2s_init_def assert_ok_def split: bind_splits if_splits)
  then show ?thesis
    using d ext(2)
    by (simp add: audio_system_init_def sys_boot_def sys_inv_def sys_running_def sw_codec_is_initialized_def Let_def)
qed

section \<open>Lemmas on the transmit queue\<close>

definition pcm_blocks :: "'x sys_env \<Rightarrow> bytes \<Rightarrow> nat \<Rightarrow> nat \<Rightarrow> bytes list" where
  "pcm_blocks e pcm i k = map (\<lambda>j. take (BLOCK_SIZE_BYTES e) (drop (j * BLOCK_SIZE_BYTES e) pcm)) [i..<i + k]"

lemma drop_stale_ends:
  assumes "n = length (audio_q_tx st) + FIFO_FRAME_SPLIT_NUM e - FIFO_TX_BLOCK_COUNT e"
    and "FIFO_FRAME_SPLIT_NUM e \<le> FIFO_TX_BLOCK_COUNT e" and "length (audio_q_tx st) \<le> FIFO_TX_BLOCK_COUNT e"
  shows "drop_stale e st = Some (st\<lparr>audio_q_tx := drop n (audio_q_tx st), audio_q_tx_pool := audio_q_tx_pool st + n\<rparr>)"
  using assms
proof (induction n arbitrary: st)
  case 0
  then have "\<not> (FIFO_TX_BLOCK_COUNT e - length (audio_q_tx st) < FIFO_FRAME_SPLIT_NUM e)" by linarith
  then show ?case
    unfolding drop_stale_def by (subst while_option_unfold) simp
next
  case (Suc n)
  let ?st = "st\<lparr>audio_q_tx := tl (audio_q_tx st), audio_q_tx_pool := audio_q_tx_pool st + 1\<rparr>"
  have "audio_q_tx st \<noteq> []" using Suc.prems by auto
  moreover have "FIFO_TX_BLOCK_COUNT e - length (audio_q_tx st) < FIFO_FRAME_SPLIT_NUM e" using Suc.prems by linarith
  ultimately have "drop_stale e st = drop_stale e ?st"
    unfolding drop_stale_def by (subst while_option_unfold) simp
  also have "\<dots> = Some (?st\<lparr>audio_q_tx := drop n (audio_q_tx ?st), audio_q_tx_pool := audio_q_tx_pool ?st + n\<rparr>)"
    using Suc.prems by (intro Suc.IH) auto
  finally show ?case by (simp add: drop_Suc)
qed

lemma split_loop_fits:
  "(i + k) * BLOCK_SIZE_BYTES e \<le> length pcm \<Longrightarrow> k \<le> audio_q_tx_pool st \<Longrightarrow>
   length (audio_q_tx st) + k \<le> FIFO_TX_BLOCK_COUNT e \<Longrightarrow>
   split_loop e pcm i k st = Some (0, st\<lparr>audio_q_tx := audio_q_tx st @ pcm_blocks e pcm i k,
      audio_q_tx_pool := audio_q_tx_pool st - k\<rparr>)"
proof (induction k arbitrary: i st)
  case (Suc k)
  have "i * BLOCK_SIZE_BYTES e + BLOCK_SIZE_BYTES e \<le> (i + Suc k) * BLOCK_SIZE_BYTES e" by (simp add: algebra_simps)
  then have "rd_range pcm (i * BLOCK_SIZE_BYTES e) (BLOCK_SIZE_BYTES e)
      = Some (take (BLOCK_SIZE_BYTES e) (drop (i * BLOCK_SIZE_BYTES e) pcm))"
    using Suc.prems(1) by (intro rd_range_in) linarith
  moreover have "pcm_blocks e pcm i (Suc k) = take (BLOCK_SIZE_BYTES e) (drop (i * BLOCK_SIZE_BYTES e) pcm) # pcm_blocks e pcm (Suc i) k"
    by (simp add: pcm_blocks_def upt_rec)
  ultimately show ?case
    using Suc.prems Suc.IH [of "Suc i"] by simp
qed (simp add: pcm_blocks_def)

section \<open>Lemmas on the encoder thread\<close>

lemma collect_blocks_exact:
  "data_len_us (buf_meta f) + 1000 * length bs = dur \<Longrightarrow> list_all (\<lambda>b. data_len_us (buf_meta b) = 1000) bs \<Longrightarrow>
   length (buf_data f) + length (concat (map buf_data bs)) \<le> buf_size f \<Longrightarrow>
   collect_blocks dur f (bs @ rest) =
     Some (f\<lparr>buf_data := buf_data f @ concat (map buf_data bs),
             buf_meta := (buf_meta f)\<lparr>data_len_us := dur\<rparr>\<rparr>, rest, True)"
proof (induction bs arbitrary: f)
  case Nil
  then show ?case by (cases rest) simp_all
next
  case (Cons b bs)
  then show ?case by (simp add: net_buf_add_mem_def)
qed

section \<open>Example\<close>

definition example_sys :: "unit sys_env" where
  "example_sys = \<lparr>s_dp = example_env\<lparr>audio_test_tone := True\<rparr>, s_codec = example_codec False, cfg_lc3_selected = True,
     mono_to_all_receivers = False, board_audio_dk = True, device_location = 1, device_location_default = 0,
     FRAME_SIZE_BYTES = 8, BLOCK_SIZE_BYTES = 4, FIFO_FRAME_SPLIT_NUM = 2, FIFO_TX_BLOCK_COUNT = 4,
     tone_buf_bytes = 4, bit_depth_bits = 16, x_hw_conf_enable = 0, x_hw_soft_reset = 0, x_hw_init = 0,
     x_tone_gen = (\<lambda>hz. (0, [ucast (drop_bit 3 hz)])), x_contin = (\<lambda>n t p. (0, t, p))\<rparr>"

lemma example_sys_ok: "sys_externals_ok example_sys"
  using example_externals(1)
  by (simp add: sys_externals_ok_def example_sys_def example_codec_def externals_ok_def codec_ok_def wf_env_def
      example_consts)

lemma example_sys_init:
  "\<exists>st. audio_system_init example_sys (sys_boot example_sys example_leds ()) = Some (0, st)
     \<and> sys_inv example_sys st \<and> \<not> sys_running st \<and> \<not> dec_enabled (decoder (sw_codec_cfg st))"
proof (rule sys_init_inv [OF example_sys_ok])
  show "led_ok (s_dp example_sys) (dp_boot (s_dp example_sys) example_leds)"
    using example_externals(2) by (simp add: led_ok_def dp_boot_def example_sys_def)
  show "displays example_leds (led_audio_sync_status (e_board (s_dp example_sys))) LED_COLOR_OFF"
    using example_leds_dark by (simp add: example_sys_def example_env_def)
qed

text \<open>
  A run of the example: it is configured and started, decodes a frame of two samples, serves an
  interrupt and is stopped.
\<close>

definition example_sys_frame :: net_buf where
  "example_sys_frame = \<lparr>buf_data = [1, 0, 2, 0], buf_size = 8, buf_meta = \<lparr>data_coding = LC3, data_len_us = 1000,
     bytes_per_location = 4, locations = 1, meta_ref_ts_us = 1000, meta_data_rx_ts_us = 1000, meta_bad_data = False\<rparr>\<rparr>"

definition example_sys_events :: "sys_event list" where
  "example_sys_events = [Sys_config 48000 96000 48000, Sys_start, Sys_frame example_sys_frame,
     Sys_dp (Ev_block True 5000 (Some [0, 0])), Sys_stop, Sys_stop]"

lemma example_sys_dp: "s_dp example_sys = example_env\<lparr>audio_test_tone := True\<rparr>"
  by (simp add: example_sys_def)

lemma example_sys_started:
  assumes "audio_system_init example_sys (sys_boot example_sys l ()) = Some (r, st0)"
  obtains st2 where "sys_run example_sys [Sys_config 48000 96000 48000, Sys_start] st0 = Some st2"
    and "sys_evs_ok example_sys [Sys_config 48000 96000 48000, Sys_start] st0"
    and "sys_dp st2 = example_dp\<lparr>leds := l\<rparr>"
    and "sw_codec (m_config (sys_codec st2)) = SW_CODEC_LC3"
    and "decoder (m_config (sys_codec st2)) = \<lparr>dec_enabled = True, dec_channel_mode = 1, dec_num_ch = 1, dec_audio_ch = 0,
           dec_sample_rate_hz = 48000\<rparr>"
proof -
  let ?d = "example_env\<lparr>audio_test_tone := True\<rparr>"
  have boot: "sys_dp (sys_boot example_sys l ()) = dp_boot ?d l"
    by (simp add: sys_boot_def example_sys_dp Let_def)
  have zero: "i = 0" if "audio_datapath_init ?d s = Some (i, t)" for i s t
    using that by (auto simp: audio_datapath_init_def split: bind_splits)
  obtain d where d: "audio_datapath_init ?d (dp_boot ?d l) = Some (0, d)"
      and st0: "st0 = (sys_boot example_sys l ())\<lparr>sys_dp := d, encoder_sig := False\<rparr>"
    using assms zero [of "dp_boot ?d l"]
    by (auto simp: audio_system_init_def boot example_sys_dp split: bind_splits if_splits)
      (auto simp: example_sys_def)
  have q: "audio_q d = []" "\<not> stream_started d"
    using d by (auto simp: audio_datapath_init_def audio_i2s_init_def split: bind_splits)
  have start: "audio_datapath_start ?d [] d = Some (0, example_dp\<lparr>leds := l\<rparr>)"
    by (rule example_started [OF d])
  have env: "\<not> is_headset example_env" "stream_bidirectional example_env" by (simp_all add: example_env_def)
  have "\<exists>st2. sys_run example_sys [Sys_config 48000 96000 48000, Sys_start] st0 = Some st2
      \<and> sys_evs_ok example_sys [Sys_config 48000 96000 48000, Sys_start] st0 \<and> sys_dp st2 = example_dp\<lparr>leds := l\<rparr>
      \<and> sw_codec (m_config (sys_codec st2)) = SW_CODEC_LC3
      \<and> decoder (m_config (sys_codec st2)) = \<lparr>dec_enabled = True, dec_channel_mode = 1, dec_num_ch = 1, dec_audio_ch = 0,
           dec_sample_rate_hz = 48000\<rparr>"
    by (simp add: env sys_step_def sys_ev_ok_def st0 q sys_running_def audio_system_config_set_def
      sys_boot_def sample_rate_valid_def cmd_audio_system_start_def audio_system_start_def Let_def
      audio_gateway_configure_def example_sys_def codec_init_defs example_codec_def start)
  then show thesis using that by blast
qed

lemma sys_evs_ok_append:
  "sys_run e xs st = Some st' \<Longrightarrow> sys_evs_ok e xs st \<Longrightarrow> sys_evs_ok e ys st' \<Longrightarrow> sys_evs_ok e (xs @ ys) st"
  by (induction xs arbitrary: st) (auto split: bind_splits)

lemma sys_run_append: "sys_run e (xs @ ys) st = do { st \<leftarrow> sys_run e xs st; sys_run e ys st }"
  by (induction xs arbitrary: st) (auto split: bind_splits)

lemma example_sys_decodes:
  assumes "sw_codec (m_config c) = SW_CODEC_LC3"
    and "decoder (m_config c) = \<lparr>dec_enabled = True, dec_channel_mode = 1, dec_num_ch = 1, dec_audio_ch = 0,
           dec_sample_rate_hz = 48000\<rparr>"
    and "buf_data f = [1, 0, 2, 0]"
  shows "sw_codec_decode (s_codec example_sys) f c = Some (0, Some [1, 0, 2, 0], c)"
  using assms
  by (simp add: sw_codec_decode_def decode_mono_def dec_run_def Let_def example_sys_def example_codec_def
      SW_CODEC_OVERRIDE_PLC_def sw_codec_sample_rate_convert_def mono_buf_def rd_range_def PCM_NUM_BYTES_STEREO_def)

lemma example_sys_framed:
  assumes "sys_dp st = example_dp\<lparr>leds := l\<rparr>" and "sw_codec (m_config (sys_codec st)) = SW_CODEC_LC3"
    and "decoder (m_config (sys_codec st)) = \<lparr>dec_enabled = True, dec_channel_mode = 1, dec_num_ch = 1, dec_audio_ch = 0,
           dec_sample_rate_hz = 48000\<rparr>"
  shows "decodes example_sys example_sys_frame st"
    and "sys_stream_out example_sys example_sys_frame st = Some (st\<lparr>sys_dp := example_dp\<lparr>leds := l,
         prev_pres_sdu_ref_us := 1000, decoded_data := [1, 2],
         fifo := [1, 2, 0, 0, 0, 0, 0, 0, 0, 0, 0, 0], prod_blk_ts := [1000, 0, 0, 0, 0, 0], prod_blk_idx := 1\<rparr>\<rparr>)"
proof -
  have dec: "sw_codec_decode (s_codec example_sys) example_sys_frame (sys_codec st) = Some (0, Some [1, 0, 2, 0], sys_codec st)"
    by (rule example_sys_decodes [OF assms(2,3)]) (simp add: example_sys_frame_def)
  then show "decodes example_sys example_sys_frame st" by (simp add: decodes_def)
  have "pcm_samples 2 [1, 0, 2, 0] = [1, 2]"
    by (simp add: pcm_samples_def pcm_sample_def upt_rec Let_def)
  then have "snd (sys_decoder example_sys example_sys_frame st f) = Some ([1, 2], 4)" for f
    using dec by (simp add: sys_decoder_def) (simp add: example_sys_def example_env_def)
  then have "audio_datapath_stream_out (example_env\<lparr>audio_test_tone := True,
      e_decode := sys_decoder example_sys example_sys_frame st\<rparr>) (Some (to_audio_frame example_sys_frame)) (sys_dp st)
    = Some (example_dp\<lparr>leds := l,
         prev_pres_sdu_ref_us := 1000, decoded_data := [1, 2],
         fifo := [1, 2, 0, 0, 0, 0, 0, 0, 0, 0, 0, 0], prod_blk_ts := [1000, 0, 0, 0, 0, 0], prod_blk_idx := 1\<rparr>)"
    unfolding assms(1) by (intro example_framed) (simp_all add: to_audio_frame_def example_sys_frame_def)
  then show "sys_stream_out example_sys example_sys_frame st = Some (st\<lparr>sys_dp := example_dp\<lparr>leds := l,
         prev_pres_sdu_ref_us := 1000, decoded_data := [1, 2],
         fifo := [1, 2, 0, 0, 0, 0, 0, 0, 0, 0, 0, 0], prod_blk_ts := [1000, 0, 0, 0, 0, 0], prod_blk_idx := 1\<rparr>\<rparr>)"
    using dec by (simp add: sys_stream_out_def example_sys_dp)
qed

lemma example_sys_events_ok:
  assumes "audio_system_init example_sys (sys_boot example_sys l ()) = Some (r, st0)"
  shows "sys_evs_ok example_sys example_sys_events st0"
proof -
  obtain st2 where st2: "sys_run example_sys [Sys_config 48000 96000 48000, Sys_start] st0 = Some st2"
      "sys_evs_ok example_sys [Sys_config 48000 96000 48000, Sys_start] st0" "sys_dp st2 = example_dp\<lparr>leds := l\<rparr>"
      "sw_codec (m_config (sys_codec st2)) = SW_CODEC_LC3"
      "decoder (m_config (sys_codec st2)) = \<lparr>dec_enabled = True, dec_channel_mode = 1, dec_num_ch = 1, dec_audio_ch = 0,
           dec_sample_rate_hz = 48000\<rparr>"
    by (rule example_sys_started [OF assms])
  note f = example_sys_framed [OF st2(3-5)]
  have stop: "sys_ev_ok example_sys Sys_stop st" for st by (simp add: sys_ev_ok_def)
  have "sys_evs_ok example_sys [Sys_frame example_sys_frame, Sys_dp (Ev_block True 5000 (Some [0, 0])), Sys_stop, Sys_stop] st2"
    using f example_block_ok [of True l]
    by (simp add: sys_step_def [of _ "Sys_frame _"] sys_ev_ok_def [of _ "Sys_frame _"] sys_ev_ok_def [of _ "Sys_dp _"]
        example_sys_dp stop split: option.split)
  from sys_evs_ok_append [OF st2(1,2) this] show ?thesis
    by (simp only: example_sys_events_def append.simps)
qed

section \<open>Properties\<close>

text \<open>C35: The audio system and its parts keep in step. After initialisation, for every sequence of
  configuration changes, starts, stops, test tone steps, frames and datapath events (interrupts, time
  references, shell commands): no operation leaves its arrays, fails an assertion or trips an error
  check; and in the state reached the configuration, the software codec and the datapath agree on
  whether the system runs, and the codec's encoder and decoder are enabled exactly if the system runs
  and its configuration asks for them. A stop of a stopped system changes nothing. This is shown for
  sequences in which: configuration changes and starts come only while the system is stopped; a
  frame that gets to the decoder is decoded by sw_codec_decode in the codec's state of that moment,
  so that the decoder was configured and the LC3 and PCM libraries accept the frame (after a decoding
  error the datapath reads an uninitialised size); the period of the test tone fits its buffer; and
  the datapath's events are as in its own property (in particular no jump of the time reference by
  more than about two seconds during calibration, and a free or a queued receive buffer). The hardware
  codec, the drivers and the initialisation of the codec library are assumed to succeed, and LC3 to
  be built in.\<close>

theorem audio_system_lifecycle:
  assumes "sys_externals_ok e" and "led_ok (s_dp e) (dp_boot (s_dp e) l)"
    and "displays l (led_audio_sync_status (e_board (s_dp e))) LED_COLOR_OFF"
    and "audio_system_init e (sys_boot e l x) = Some (r, st0)" and "sys_evs_ok e evs st0"
  shows "\<exists>st. sys_run e evs st0 = Some st
    \<and> codec_initialized (sw_codec_cfg st) = stream_started (sys_dp st)
    \<and> sw_codec_is_initialized (sys_codec st) = stream_started (sys_dp st)
    \<and> enc_enabled (encoder (m_config (sys_codec st)))
        = (stream_started (sys_dp st) \<and> enc_enabled (encoder (sw_codec_cfg st)))
    \<and> dec_enabled (decoder (m_config (sys_codec st)))
        = (stream_started (sys_dp st) \<and> dec_enabled (decoder (sw_codec_cfg st)))
    \<and> (\<not> stream_started (sys_dp st) \<longrightarrow> audio_system_stop e st = Some st)"
proof -
  obtain st where st: "sys_run e evs st0 = Some st" "sys_inv e st"
    using sys_init_inv [OF assms(1-3), of x] assms(4,5) sys_run_inv [OF assms(1)] by auto
  then show ?thesis
    by (auto simp: sys_inv_def sys_running_def audio_system_stop_def)
qed

theorem audio_system_lifecycle_witness:
  "\<exists>st0 st. audio_system_init example_sys (sys_boot example_sys example_leds ()) = Some (0, st0)
    \<and> sys_run example_sys example_sys_events st0 = Some st
    \<and> codec_initialized (sw_codec_cfg st) = stream_started (sys_dp st)"
proof -
  obtain st0 where st0: "audio_system_init example_sys (sys_boot example_sys example_leds ()) = Some (0, st0)"
    using example_sys_init by blast
  have evs: "sys_evs_ok example_sys example_sys_events st0" by (rule example_sys_events_ok [OF st0])
  have led: "led_ok (s_dp example_sys) (dp_boot (s_dp example_sys) example_leds)"
    using example_externals(2) by (simp add: led_ok_def dp_boot_def example_sys_def)
  have dark: "displays example_leds (led_audio_sync_status (e_board (s_dp example_sys))) LED_COLOR_OFF"
    using example_leds_dark by (simp add: example_sys_def example_env_def)
  show ?thesis
    using audio_system_lifecycle [OF example_sys_ok led dark st0 evs] st0 by blast
qed

text \<open>Starting twice, or changing what is enabled while running, stops the firmware. Starting a
  running audio system (as the shell command does without looking) trips an error check, whatever
  is enabled; and if a decoder is enabled by a configuration change while the system runs without
  one, the next stop trips an error check: the codec refuses to uninitialise what was never
  initialised.\<close>

lemma audio_system_misuse_trips:
  assumes "sys_externals_ok e" and "sys_inv e st" and "sys_running st"
    and "sample_rate_valid er" and "sample_rate_valid dr" and "\<not> dec_enabled (decoder (sw_codec_cfg st))"
  shows "cmd_audio_system_start e st = None
    \<and> (case audio_system_config_set er eb dr st of (r, st') \<Rightarrow> r = 0 \<and> cmd_audio_system_stop e st' = None)"
proof -
  obtain cfg where cfg: "(if is_headset (s_dp e) then audio_headset_configure e (sw_codec_cfg st)
        else audio_gateway_configure e (sw_codec_cfg st)) = Some cfg"
    using configure_ok [OF assms(1)] by blast
  have "audio_datapath_start (s_dp e) (audio_q (sys_dp st)) (sys_dp st) = Some (- EALREADY, sys_dp st)"
    using assms(2,3) by (simp add: audio_datapath_start_def sys_running_def sys_inv_def dp_inv_def)
  then have "audio_system_start e st = None"
    by (auto simp: audio_system_start_def cfg err_chk_def split: bind_splits prod.splits)
  moreover have dec: "\<not> dec_enabled (decoder (m_config (sys_codec st)))" "sw_codec (m_config (sys_codec st)) = SW_CODEC_LC3"
    "sw_codec (sw_codec_cfg st) = SW_CODEC_LC3" "cfg_lc3 (s_codec e)"
    using assms(1,2,3,6) by (simp_all add: sys_inv_def sys_externals_ok_def)
  have stop: "audio_system_stop e st' = None"
    if "sw_codec (sw_codec_cfg st') = SW_CODEC_LC3" "dec_enabled (decoder (sw_codec_cfg st'))" "sys_codec st' = sys_codec st"
      "codec_initialized (sw_codec_cfg st')" for st'
  proof -
    have "fst (sw_codec_uninit (s_codec e) (sw_codec_cfg st') (sys_codec st)) \<noteq> 0"
      using dec that
      by (auto simp: sw_codec_uninit_def uninit_encoder_def uninit_decoder_def Let_def split: prod.splits if_splits)
    then show ?thesis
      using that by (auto simp: audio_system_stop_def err_chk_def split: bind_splits prod.splits)
  qed
  moreover have "codec_initialized (sw_codec_cfg st)" using assms(2,3) by (simp add: sys_inv_def)
  ultimately show ?thesis
    using assms(4,5) dec(3)
    by (auto simp: cmd_audio_system_start_def cmd_audio_system_stop_def audio_system_config_set_def Let_def
        intro!: stop)
qed

text \<open>The encoder sends whole frames in order. When the receive queue delivers the one-millisecond
  blocks of one frame and then more, one pass of the encoder thread with the test tone off encodes
  exactly their concatenation, with the metadata of the first block and the length of a frame,
  hands the encoded frame on and leaves the blocks that follow in the queue.\<close>

lemma encoder_frames_blocks:
  assumes "blocks \<noteq> []" and "list_all (\<lambda>b. data_len_us (buf_meta b) = 1000) blocks"
    and "frame_duration_us (s_dp e) = 1000 * length blocks"
    and "length (concat (map buf_data blocks)) \<le> FRAME_SIZE_BYTES e"
    and "0 < audio_q_rx_pool st" and "enc_test_tone st = []" and "enc_enabled (encoder (sw_codec_cfg st))"
    and "sw_codec_encode (s_codec e)
           \<lparr>buf_data = concat (map buf_data blocks), buf_size = FRAME_SIZE_BYTES e,
            buf_meta = (buf_meta (hd blocks))\<lparr>data_len_us := frame_duration_us (s_dp e)\<rparr>\<rparr> (sys_codec st)
         = Some (0, f, c)"
  shows "encoder_thread e (blocks @ rest) st = Some (Enc_sent f, rest, st\<lparr>sys_codec := c\<rparr>)"
proof -
  obtain b bs where b: "blocks = b # bs" using assms(1) by (cases blocks) auto
  let ?f = "\<lparr>buf_data = buf_data b, buf_size = FRAME_SIZE_BYTES e, buf_meta = buf_meta b\<rparr>"
  have "collect_blocks (frame_duration_us (s_dp e)) ?f (bs @ rest) =
      Some (?f\<lparr>buf_data := buf_data b @ concat (map buf_data bs),
              buf_meta := (buf_meta b)\<lparr>data_len_us := frame_duration_us (s_dp e)\<rparr>\<rparr>, rest, True)"
    using collect_blocks_exact [of ?f bs "frame_duration_us (s_dp e)" rest] assms(2-4) b by simp
  then show ?thesis
    using assms(4-8) b by (simp add: encoder_thread_def net_buf_add_mem_def encode_and_send_def)
qed

theorem encoder_frames_blocks_witness:
  "\<exists>f c st. encoder_thread example_sys ([example_buf\<lparr>buf_meta := (buf_meta example_buf)\<lparr>data_len_us := 1000\<rparr>\<rparr>] @ [example_buf]) st
     = Some (Enc_sent f, [example_buf], st\<lparr>sys_codec := c\<rparr>)"
proof -
  let ?b = "example_buf\<lparr>buf_meta := (buf_meta example_buf)\<lparr>data_len_us := 1000\<rparr>\<rparr>"
  let ?st = "(sys_boot example_sys example_leds ())\<lparr>sw_codec_cfg := example_codec_cfg True False,
     sys_codec := \<lparr>m_config = example_codec_cfg True False, codec_ext = ()\<rparr>, audio_q_rx_pool := 1\<rparr>"
  let ?in = "\<lparr>buf_data = concat (map buf_data [?b]), buf_size = FRAME_SIZE_BYTES example_sys,
     buf_meta = (buf_meta (hd [?b]))\<lparr>data_len_us := frame_duration_us (s_dp example_sys)\<rparr>\<rparr>"
  obtain f c where "sw_codec_encode (s_codec example_sys) ?in (sys_codec ?st) = Some (0, f, c)"
    using encode_stereo [of "example_codec False" "\<lparr>m_config = example_codec_cfg True False, codec_ext = ()\<rparr>" ?in "[5]" "[6]" "[5]" "()" "[6]" "()"]
    by (simp add: example_codec_defs stereo_tx_def example_sys_def)
  then have "encoder_thread example_sys ([?b] @ [example_buf]) ?st = Some (Enc_sent f, [example_buf], ?st\<lparr>sys_codec := c\<rparr>)"
    by (intro encoder_frames_blocks)
      (simp_all add: example_codec_defs example_sys_def example_env_def sys_boot_def Let_def)
  then show ?thesis by blast
qed

text \<open>C36: Decoding for USB always ends and makes room for its frame. When the codec is
  initialised, the decoder produces at least one frame of samples and the transmit pool has a buffer for every place of the queue
  that is not taken, the loop that drops old blocks ends, no block of the new frame is refused, and
  afterwards the queue holds the newest blocks only: of the old ones as many of the last as fit beside the
  new frame, then the frame's blocks in order. The loop stops exactly when a frame fits.\<close>

theorem usb_decode_makes_room:
  assumes "codec_initialized (sw_codec_cfg st)"
    and "sw_codec_decode (s_codec e) frame (sys_codec st) = Some (0, Some pcm, c)"
    and "FIFO_FRAME_SPLIT_NUM e * BLOCK_SIZE_BYTES e \<le> length pcm"
    and "FIFO_FRAME_SPLIT_NUM e \<le> FIFO_TX_BLOCK_COUNT e"
    and "audio_q_tx_pool st + length (audio_q_tx st) = FIFO_TX_BLOCK_COUNT e"
  shows "\<exists>st'. audio_system_decode e frame st = Some (0, st')
    \<and> audio_q_tx st' = drop (length (audio_q_tx st) + FIFO_FRAME_SPLIT_NUM e - FIFO_TX_BLOCK_COUNT e) (audio_q_tx st)
         @ pcm_blocks e pcm 0 (FIFO_FRAME_SPLIT_NUM e)
    \<and> audio_q_tx_pool st' + length (audio_q_tx st') = FIFO_TX_BLOCK_COUNT e"
proof -
  define n where "n = length (audio_q_tx st) + FIFO_FRAME_SPLIT_NUM e - FIFO_TX_BLOCK_COUNT e"
  let ?st = "st\<lparr>sys_codec := c\<rparr>"
  let ?st1 = "?st\<lparr>audio_q_tx := drop n (audio_q_tx ?st), audio_q_tx_pool := audio_q_tx_pool ?st + n\<rparr>"
  have "drop_stale e ?st = Some ?st1"
    using assms(4,5) by (intro drop_stale_ends) (simp_all add: n_def)
  moreover have "split_loop e pcm 0 (FIFO_FRAME_SPLIT_NUM e) ?st1 = Some (0, ?st1\<lparr>
      audio_q_tx := audio_q_tx ?st1 @ pcm_blocks e pcm 0 (FIFO_FRAME_SPLIT_NUM e),
      audio_q_tx_pool := audio_q_tx_pool ?st1 - FIFO_FRAME_SPLIT_NUM e\<rparr>)"
    using assms(3,4,5) by (intro split_loop_fits) (simp_all add: n_def)
  ultimately show ?thesis
    using assms(1,2,4,5) by (simp add: audio_system_decode_def n_def pcm_blocks_def)
qed

theorem usb_decode_makes_room_witness:
  "\<exists>st'. audio_system_decode (example_sys\<lparr>BLOCK_SIZE_BYTES := 1\<rparr>) example_buf
       (sys_boot example_sys example_leds ()\<lparr>sw_codec_cfg := example_codec_cfg False True,
          sys_codec := \<lparr>m_config = example_codec_cfg False True, codec_ext = ()\<rparr>,
          audio_q_tx := [[1], [2], [3]], audio_q_tx_pool := 1\<rparr>) = Some (0, st')
    \<and> audio_q_tx st' = [[2], [3], [5], [6]]"
proof -
  let ?e = "example_sys\<lparr>BLOCK_SIZE_BYTES := 1\<rparr>"
  let ?st = "sys_boot example_sys example_leds ()\<lparr>sw_codec_cfg := example_codec_cfg False True,
       sys_codec := \<lparr>m_config = example_codec_cfg False True, codec_ext = ()\<rparr>,
       audio_q_tx := [[1], [2], [3]], audio_q_tx_pool := 1\<rparr>"
  have "sw_codec_decode (s_codec ?e) example_buf (sys_codec ?st) = Some (0, Some [5, 6], sys_codec ?st)"
    using decode_stereo_halves [of "example_codec False" "sys_codec ?st" example_buf "[5]" "[6]" "[5]" "()" "[6]" "()" "[5, 6]"]
    by (simp add: example_codec_defs stereo_rx_def example_sys_def PCM_NUM_BYTES_STEREO_def)
  moreover have "codec_initialized (sw_codec_cfg ?st)" "FIFO_FRAME_SPLIT_NUM ?e * BLOCK_SIZE_BYTES ?e \<le> length [5, 6 :: u8]"
    "FIFO_FRAME_SPLIT_NUM ?e \<le> FIFO_TX_BLOCK_COUNT ?e"
    "audio_q_tx_pool ?st + length (audio_q_tx ?st) = FIFO_TX_BLOCK_COUNT ?e"
    by (simp_all add: example_sys_def example_codec_cfg_def)
  moreover have "drop (length (audio_q_tx ?st) + FIFO_FRAME_SPLIT_NUM ?e - FIFO_TX_BLOCK_COUNT ?e) (audio_q_tx ?st)
      @ pcm_blocks ?e [5, 6] 0 (FIFO_FRAME_SPLIT_NUM ?e) = [[2], [3], [5], [6]]"
    by (simp add: example_sys_def pcm_blocks_def upt_rec)
  ultimately show ?thesis
    using usb_decode_makes_room [of ?st ?e example_buf "[5, 6]" "sys_codec ?st"] by fastforce
qed

text \<open>The test tone steps through 1, 2 and 4 kHz and off.\<close>

lemma test_tone_cycles:
  assumes "bit_depth_bits e = 16" and "audio_test_tone (s_dp e)"
    and "\<forall>hz. fst (x_tone_gen e hz) = 0 \<and> length (snd (x_tone_gen e hz)) \<le> tone_buf_bytes e"
    and "test_tone_hz st = 0" and "enc_test_tone st = []"
  shows "\<exists>s1 s2 s3. audio_system_encode_test_tone_step e st = Some (0, s1) \<and> enc_test_tone s1 = snd (x_tone_gen e 1000)
    \<and> audio_system_encode_test_tone_step e s1 = Some (0, s2) \<and> enc_test_tone s2 = snd (x_tone_gen e 2000)
    \<and> audio_system_encode_test_tone_step e s2 = Some (0, s3) \<and> enc_test_tone s3 = snd (x_tone_gen e 4000)
    \<and> audio_system_encode_test_tone_step e s3 = Some (0, st)"
proof -
  have set: "audio_system_encode_test_tone_set e hz s = Some (0, s\<lparr>enc_test_tone := snd (x_tone_gen e hz)\<rparr>)"
    if "hz \<noteq> 0" for hz s
    using that assms(2,3) spec [OF assms(3), of hz]
    by (cases "x_tone_gen e hz") (simp add: audio_system_encode_test_tone_set_def)
  have home: "st\<lparr>test_tone_hz := 0, enc_test_tone := []\<rparr> = st"
    using assms(4,5) by (cases st) simp
  show ?thesis
    using assms(1,4) home
    by (simp add: audio_system_encode_test_tone_step_def set)
      (simp add: audio_system_encode_test_tone_set_def)
qed

end
