(* ===== verification/LeAudio.thy ===== *)
theory LeAudio
  imports AudioSystem
begin

text \<open>
  The helpers of \<open>src/bluetooth/bt_stream/le_audio.c\<close> and \<open>le_audio.h\<close>: what a stream's codec
  configuration says about its audio, which configurations are accepted, and the metadata of a
  received frame.

  The getters of the Bluetooth host on a codec configuration are the fields of \<open>codec_cfg\<close>: what they
  return for it. Out-parameters are passed as the value they had before the call and returned, since
  a failing call leaves them. \<open>None\<close> is undefined behaviour: a division by zero or a signed overflow.
\<close>

section \<open>Codec configurations and endpoints\<close>

record codec_cfg =
  codec_id :: u8
  x_freq :: int
  x_frame_dur :: int
  x_octets_per_frame :: int
  x_frame_blocks_per_sdu :: int
  x_chan_allocation :: "int \<times> u32"

text \<open>\<open>x_freq_hz\<close> and \<open>x_dur_us\<close> turn the codes of the specification into Hz and microseconds.\<close>

record le_env =
  x_freq_hz :: "int \<Rightarrow> int"
  x_dur_us :: "int \<Rightarrow> int"
  FRAME_DURATION_US :: nat
  LC3_BITRATE_MIN :: u32
  LC3_BITRATE_MAX :: u32
  le_cfg_src :: bool
  le_sample_rate_hz :: u32
  x_meta_num_ch :: "u32 \<Rightarrow> u8"

datatype bap_ep_state = EP_IDLE | EP_CODEC_CONFIGURED | EP_QOS_CONFIGURED | EP_ENABLING | EP_STREAMING
  | EP_DISABLING | EP_RELEASING

record bap_ep =
  ep_info_ret :: int
  ep_state :: bap_ep_state
  ep_dir :: nat

record bap_stream =
  stream_ep :: "bap_ep option"
  stream_codec :: codec_cfg
  qos_interval :: u32

abbreviation (input) BT_HCI_CODING_FORMAT_LC3 :: u8 where "BT_HCI_CODING_FORMAT_LC3 \<equiv> 6"

section \<open>Endpoints\<close>

definition le_audio_ep_state_get :: "bap_ep option \<Rightarrow> bap_ep_state \<Rightarrow> int \<times> bap_ep_state" where
  "le_audio_ep_state_get ep s = (case ep of
     None \<Rightarrow> (- EINVAL, s)
   | Some p \<Rightarrow> if ep_info_ret p \<noteq> 0 then (ep_info_ret p, s) else (0, ep_state p))"

definition le_audio_ep_state_check :: "bap_ep option \<Rightarrow> bap_ep_state \<Rightarrow> bool" where
  "le_audio_ep_state_check ep s =
     (let (ret, st) = le_audio_ep_state_get ep EP_IDLE in if ret \<noteq> 0 then False else st = s)"

definition le_audio_ep_qos_configured :: "bap_ep option \<Rightarrow> bool" where
  "le_audio_ep_qos_configured ep = (case ep of
     None \<Rightarrow> False
   | Some p \<Rightarrow> if ep_info_ret p \<noteq> 0 then False
               else ep_state p = EP_QOS_CONFIGURED \<or> ep_state p = EP_ENABLING
                    \<or> ep_state p = EP_STREAMING \<or> ep_state p = EP_DISABLING)"

text \<open>The host's query refuses a missing endpoint; here the code does not look at it before.\<close>

definition le_audio_stream_dir_get :: "bap_stream \<Rightarrow> int" where
  "le_audio_stream_dir_get s = (case stream_ep s of
     None \<Rightarrow> - EINVAL
   | Some p \<Rightarrow> if ep_info_ret p \<noteq> 0 then ep_info_ret p else int (ep_dir p))"

section \<open>Values of a codec configuration\<close>

definition le_audio_freq_hz_get :: "le_env \<Rightarrow> codec_cfg \<Rightarrow> int \<Rightarrow> int \<times> int" where
  "le_audio_freq_hz_get e c hz =
     (let ret = x_freq c in if ret < 0 then (ret, hz)
      else let ret = x_freq_hz e ret in if ret < 0 then (ret, hz) else (0, ret))"

definition le_audio_duration_us_get :: "le_env \<Rightarrow> codec_cfg \<Rightarrow> int \<Rightarrow> int \<times> int" where
  "le_audio_duration_us_get e c us =
     (let ret = x_frame_dur c in if ret < 0 then (ret, us)
      else let ret = x_dur_us e ret in if ret < 0 then (ret, us) else (0, ret))"

definition le_audio_octets_per_frame_get :: "codec_cfg \<Rightarrow> int \<Rightarrow> int \<times> int" where
  "le_audio_octets_per_frame_get c octets =
     (let ret = x_octets_per_frame c in if ret < 0 then (ret, octets) else (0, ret))"

definition le_audio_frame_blocks_per_sdu_get :: "codec_cfg \<Rightarrow> int \<Rightarrow> int \<times> int" where
  "le_audio_frame_blocks_per_sdu_get c blks =
     (let ret = x_frame_blocks_per_sdu c in if ret < 0 then (ret, blks) else (0, ret))"

text \<open>The multiplications are of C's \<open>int\<close>.\<close>

definition c_int :: "int \<Rightarrow> int option" where
  "c_int x = (if - (2 ^ 31) \<le> x \<and> x < 2 ^ 31 then Some x else None)"

definition le_audio_bitrate_get :: "le_env \<Rightarrow> codec_cfg \<Rightarrow> u32 \<Rightarrow> (int \<times> u32) option" where
  "le_audio_bitrate_get e c bitrate =
     (let (ret, dur_us) = le_audio_duration_us_get e c 0
      in if ret \<noteq> 0 then Some (ret, bitrate)
      else if dur_us = 0 then None
      else let (ret, octets) = le_audio_octets_per_frame_get c 0
           in if ret \<noteq> 0 then Some (ret, bitrate)
           else do {
             bits \<leftarrow> c_int (octets * 8);
             rate \<leftarrow> c_int (c_div 1000000 dur_us * bits);
             Some (0, word_of_int rate) })"

definition LE_AUDIO_SDU_SIZE_OCTETS :: "le_env \<Rightarrow> u32 \<Rightarrow> nat" where
  "LE_AUDIO_SDU_SIZE_OCTETS e bitrate = unat bitrate div (1000000 div FRAME_DURATION_US e) div 8"

section \<open>Accepted configurations\<close>

definition le_audio_bitrate_check :: "le_env \<Rightarrow> codec_cfg \<Rightarrow> bool" where
  "le_audio_bitrate_check e c =
     (let (ret, octets) = le_audio_octets_per_frame_get c 0
      in if ret \<noteq> 0 then False
      else if nat octets < LE_AUDIO_SDU_SIZE_OCTETS e (LC3_BITRATE_MIN e) then False
      else if LE_AUDIO_SDU_SIZE_OCTETS e (LC3_BITRATE_MAX e) < nat octets then False
      else True)"

text \<open>
  The capability bits of the specification, and the ones the build announces
  (\<open>BT_AUDIO_CODEC_CAPABILIY_FREQ\<close>).
\<close>

abbreviation (input) CAP_FREQ_16KHZ :: u16 where "CAP_FREQ_16KHZ \<equiv> 0x4"
abbreviation (input) CAP_FREQ_24KHZ :: u16 where "CAP_FREQ_24KHZ \<equiv> 0x10"
abbreviation (input) CAP_FREQ_48KHZ :: u16 where "CAP_FREQ_48KHZ \<equiv> 0x80"

definition cap_freq :: "int \<Rightarrow> u16" where
  "cap_freq hz =
     (if hz = 8000 then 0x1 else if hz = 11025 then 0x2 else if hz = 16000 then CAP_FREQ_16KHZ
      else if hz = 22050 then 0x8 else if hz = 24000 then CAP_FREQ_24KHZ else if hz = 32000 then 0x20
      else if hz = 44100 then 0x40 else if hz = 48000 then CAP_FREQ_48KHZ else if hz = 88200 then 0x100
      else if hz = 96000 then 0x200 else if hz = 176400 then 0x400 else if hz = 192000 then 0x800
      else if hz = 384000 then 0x1000 else 0)"

definition CAPABILITY_FREQ :: "le_env \<Rightarrow> u16" where
  "CAPABILITY_FREQ e =
     (if le_cfg_src e \<and> le_sample_rate_hz e = 48000 then or CAP_FREQ_48KHZ (or CAP_FREQ_24KHZ CAP_FREQ_16KHZ)
      else if le_sample_rate_hz e = 16000 then CAP_FREQ_16KHZ
      else if le_sample_rate_hz e = 24000 then CAP_FREQ_24KHZ
      else CAP_FREQ_48KHZ)"

definition le_audio_freq_check :: "le_env \<Rightarrow> codec_cfg \<Rightarrow> bool" where
  "le_audio_freq_check e c =
     (let (ret, hz) = le_audio_freq_hz_get e c 0
      in if ret \<noteq> 0 then False else and (cap_freq hz) (CAPABILITY_FREQ e) \<noteq> 0)"

section \<open>Metadata of a received frame\<close>

record iso_recv_info =
  recv_ts :: u32
  recv_valid :: bool

record le_metadata = audio_metadata +
  meta_sample_rate_hz :: int

text \<open>
  \<open>bad_data\<close> is a set of locations of which only emptiness is kept. A frame length other than the
  configured one marks all locations bad.
\<close>

definition le_audio_metadata_populate ::
  "le_env \<Rightarrow> bap_stream \<Rightarrow> iso_recv_info \<Rightarrow> nat \<Rightarrow> le_metadata \<Rightarrow> (int \<times> le_metadata) option" where
  "le_audio_metadata_populate e s info len m =
     (let c = stream_codec s;
          m = m\<lparr>meta_ref_ts_us := recv_ts info, meta_bad_data := False\<rparr>;
          m = m\<lparr>meta_sample_rate_hz := snd (le_audio_freq_hz_get e c (meta_sample_rate_hz m))\<rparr>;
          m = m\<lparr>data_len_us := nat (snd (le_audio_duration_us_get e c (int (data_len_us m))))\<rparr>;
          (ret, loc) = x_chan_allocation c
      in if ret < 0 then Some (ret, m)
      else
        let m = m\<lparr>locations := loc\<rparr>;
            (ret, octets) = le_audio_octets_per_frame_get c 0
        in if ret < 0 then Some (ret, m)
        else if x_meta_num_ch e loc = 0 then None
        else
          let m = m\<lparr>bytes_per_location := nat octets div unat (x_meta_num_ch e loc)\<rparr>
          in if bytes_per_location m = 0 then Some (- EINVAL, m)
          else if codec_id c \<noteq> BT_HCI_CODING_FORMAT_LC3 then Some (- EINVAL, m)
          else
            let m = m\<lparr>data_coding := LC3\<rparr>
            in Some (0, if \<not> recv_valid info \<or> int len \<noteq> x_octets_per_frame c
                        then m\<lparr>meta_bad_data := (loc \<noteq> 0)\<rparr> else m))"

section \<open>Lemmas\<close>

text \<open>
  A configuration that the host reads without errors, of the frame duration of the build and with frames
  of the size LC3 allows at most.
\<close>

definition codec_readable :: "le_env \<Rightarrow> codec_cfg \<Rightarrow> bool" where
  "codec_readable e c \<longleftrightarrow> 0 \<le> x_frame_dur c \<and> x_dur_us e (x_frame_dur c) = int (FRAME_DURATION_US e)
     \<and> FRAME_DURATION_US e \<in> {7500, 10000} \<and> 0 \<le> x_octets_per_frame c \<and> x_octets_per_frame c < 2 ^ 16"

lemma c_int_ok: "0 \<le> x \<Longrightarrow> x < 2 ^ 31 \<Longrightarrow> c_int x = Some x"
  by (simp add: c_int_def)

lemma unat_word_of_int: "0 \<le> x \<Longrightarrow> x < 2 ^ 32 \<Longrightarrow> unat (word_of_int x :: u32) = nat x"
  by (simp only: unsigned_of_int len_num1 take_bit_int_eq_self of_nat_id) (simp add: take_bit_int_eq_self)

lemma bitrate_ok:
  assumes "codec_readable e c"
  shows "\<exists>b. le_audio_bitrate_get e c b0 = Some (0, b) \<and> LE_AUDIO_SDU_SIZE_OCTETS e b = nat (x_octets_per_frame c)"
proof -
  define f :: int where "f = 1000000 div int (FRAME_DURATION_US e)"
  have le32: "x < 2 ^ 31 \<Longrightarrow> x < 2 ^ 32" for x :: int by simp
  define n where "n = x_octets_per_frame c"
  have f: "f = 100 \<or> f = 133" "nat f = 1000000 div FRAME_DURATION_US e"
    using assms by (auto simp: codec_readable_def f_def)
  have n: "0 \<le> n" "n < 2 ^ 16" using assms by (simp_all add: codec_readable_def n_def)
  have fn: "0 \<le> f * (n * 8)" "f * (n * 8) < 2 ^ 31" using f(1) n by auto
  have F: "0 < FRAME_DURATION_US e" using assms by (auto simp: codec_readable_def)
  have "le_audio_duration_us_get e c 0 = (0, int (FRAME_DURATION_US e))"
    using assms by (simp add: le_audio_duration_us_get_def codec_readable_def)
  moreover have "le_audio_octets_per_frame_get c 0 = (0, n)"
    using n(1) by (simp add: le_audio_octets_per_frame_get_def n_def)
  moreover have "c_div 1000000 (int (FRAME_DURATION_US e)) = f"
    using F by (simp add: c_div_nonneg f_def)
  moreover have "c_int (n * 8) = Some (n * 8)" by (rule c_int_ok) (use n in simp_all)
  moreover have "c_int (f * (n * 8)) = Some (f * (n * 8))" using fn by (rule c_int_ok)
  ultimately have "le_audio_bitrate_get e c b0 = Some (0, word_of_int (f * (n * 8)))"
    using F by (simp add: le_audio_bitrate_get_def)
  moreover have "unat (word_of_int (f * (n * 8)) :: u32) = nat (f * (n * 8))"
    using fn by (intro unat_word_of_int) (assumption, erule le32)
  moreover have "nat (f * (n * 8)) div nat f div 8 = nat n"
    using f(1) n by (auto simp: nat_mult_distrib)
  ultimately show ?thesis
    using f(2) by (simp add: LE_AUDIO_SDU_SIZE_OCTETS_def n_def)
qed

lemma ep_state_check_iff:
  "le_audio_ep_state_check ep s \<longleftrightarrow> (\<exists>p. ep = Some p \<and> ep_info_ret p = 0 \<and> ep_state p = s)"
  by (auto simp: le_audio_ep_state_check_def le_audio_ep_state_get_def split: option.splits)

section \<open>Properties\<close>

text \<open>The detour over the bit rate is exact. For a readable configuration of the build's frame duration,
  7.5 or 10 ms, le_audio_bitrate_get succeeds without overflow, and comparing a size with
  the SDU size computed from that bit rate is the same as comparing it with the octets per frame of the
  configuration, although both directions round (a 7.5 ms stream is counted with 133 frames per second).\<close>

lemma sdu_size_is_frame_size:
  assumes "codec_readable e c"
  shows "\<exists>b. le_audio_bitrate_get e c b0 = Some (0, b)
    \<and> (\<forall>sz. sz = LE_AUDIO_SDU_SIZE_OCTETS e b \<longleftrightarrow> int sz = x_octets_per_frame c)"
  using bitrate_ok [OF assms, of b0] assms by (auto simp: codec_readable_def)

theorem sdu_size_is_frame_size_witness:
  "\<exists>b. le_audio_bitrate_get \<lparr>x_freq_hz = (\<lambda>_. 48000), x_dur_us = (\<lambda>_. 7500), FRAME_DURATION_US = 7500,
      LC3_BITRATE_MIN = 32000, LC3_BITRATE_MAX = 124000, le_cfg_src = False, le_sample_rate_hz = 48000,
      x_meta_num_ch = (\<lambda>l. 1)\<rparr> \<lparr>codec_id = 6, x_freq = 8, x_frame_dur = 0, x_octets_per_frame = 75,
        x_frame_blocks_per_sdu = 1, x_chan_allocation = (0, 1)\<rparr> 0 = Some (0, b)"
proof -
  let ?e = "\<lparr>x_freq_hz = (\<lambda>_. 48000), x_dur_us = (\<lambda>_. 7500), FRAME_DURATION_US = 7500,
      LC3_BITRATE_MIN = 32000, LC3_BITRATE_MAX = 124000, le_cfg_src = False, le_sample_rate_hz = 48000,
      x_meta_num_ch = (\<lambda>l. 1)\<rparr> :: le_env"
  let ?c = "\<lparr>codec_id = 6, x_freq = 8, x_frame_dur = 0, x_octets_per_frame = 75,
        x_frame_blocks_per_sdu = 1, x_chan_allocation = (0, 1)\<rparr> :: codec_cfg"
  have "codec_readable ?e ?c" by (simp add: codec_readable_def)
  then show ?thesis using sdu_size_is_frame_size [of ?e ?c 0] by blast
qed

end
