(* ===== verification/BtTx.thy ===== *)
theory BtTx
  imports LeAudio
begin

text \<open>
  The transmitter \<open>src/bluetooth/bt_stream/bt_le_audio_tx/bt_le_audio_tx.c\<close>: an encoded frame is cut
  into one SDU per channel, each handed to the isochronous stream of its channel with a sequence
  number and a time stamp common to all streams of the call.

  What the Bluetooth host answers is an argument (\<open>iso_answers\<close>, one for each stream of a call); the SDUs
  it takes over are recorded in \<open>iso_sent\<close>. \<open>None\<close> is undefined behaviour or a failed assertion of
  \<open>net_buf\<close>.
\<close>

section \<open>State\<close>

record stream_index =
  lvl1 :: u8
  lvl2 :: u8
  lvl3 :: u8

record bt_iso_tx_info =
  ti_ts :: u32
  ti_offset :: u32
  ti_seq_num :: u16

record tx_inf =
  iso_conn_handle :: u16
  iso_tx :: bt_iso_tx_info
  iso_tx_readback :: bt_iso_tx_info
  iso_tx_pool_alloc :: int
  hci_wrn_printed :: bool

record sdu =
  sdu_idx :: stream_index
  sdu_data :: bytes
  sdu_seq :: u16
  sdu_ts :: u32

text \<open>The array \<open>tx_info_arr\<close> is a function of the index; \<open>idx_ok\<close> tells which indices it has.\<close>

record bt_tx =
  tx_initialized :: bool
  tx_info_arr :: "stream_index \<Rightarrow> tx_inf"
  iso_sent :: "sdu list"

record tx_env =
  t_le :: le_env
  GROUP_MAX :: nat
  SUBGROUP_MAX :: nat
  STREAMS_MAX :: nat
  ISO_TX_MTU :: nat

record iso_answers =
  a_buf :: bool
  a_send :: int
  a_conn_handle :: "int \<times> u16"
  a_sync :: "int \<times> u32 \<times> u16"
  a_now :: u32

record le_audio_tx_info =
  tx_idx :: stream_index
  cap_stream :: bap_stream
  audio_channel :: u8

abbreviation (input) HANDLE_INVALID :: u16 where "HANDLE_INVALID \<equiv> 0xFFFF"
abbreviation (input) HCI_ISO_BUF_PER_CHAN :: int where "HCI_ISO_BUF_PER_CHAN \<equiv> 2"

definition idx_ok :: "tx_env \<Rightarrow> stream_index \<Rightarrow> bool" where
  "idx_ok e i \<longleftrightarrow> unat (lvl1 i) < GROUP_MAX e \<and> unat (lvl2 i) < SUBGROUP_MAX e \<and> unat (lvl3 i) < STREAMS_MAX e"

definition set_inf :: "stream_index \<Rightarrow> tx_inf \<Rightarrow> bt_tx \<Rightarrow> bt_tx" where
  "set_inf i t st = st\<lparr>tx_info_arr := (tx_info_arr st)(i := t)\<rparr>"

section \<open>Sending over one stream\<close>

text \<open>
  \<open>ts_tx = 0\<close> stands for a send without a time stamp. The pool counter goes up before the host is
  called and down again if it refuses; the sequence number counts what it took.
\<close>

definition iso_stream_send ::
  "tx_env \<Rightarrow> iso_answers \<Rightarrow> bytes \<Rightarrow> stream_index \<Rightarrow> u32 \<Rightarrow> bt_tx \<Rightarrow> (int \<times> bt_tx) option" where
  "iso_stream_send e a data i ts_tx st =
     (let t = tx_info_arr st i
      in if HCI_ISO_BUF_PER_CHAN \<le> iso_tx_pool_alloc t
      then Some (- ENOMEM, set_inf i (t\<lparr>hci_wrn_printed := True\<rparr>) st)
      else
        let t = t\<lparr>hci_wrn_printed := False\<rparr>
        in if \<not> a_buf a then Some (- ENOMEM, set_inf i t st)
        else do {
          assert_ok (length data \<le> ISO_TX_MTU e);
          let seq = ti_seq_num (iso_tx t);
          if a_send a < 0 then Some (a_send a, set_inf i t st)
          else Some (0, set_inf i (t\<lparr>iso_tx_pool_alloc := iso_tx_pool_alloc t + 1,
                     iso_tx := (iso_tx t)\<lparr>ti_seq_num := seq + 1\<rparr>\<rparr>)
                   (st\<lparr>iso_sent := iso_sent st @
                      [\<lparr>sdu_idx = i, sdu_data = data, sdu_seq = seq, sdu_ts = ts_tx\<rparr>]\<rparr>)) })"

definition get_tx_sync_sdc :: "iso_answers \<Rightarrow> stream_index \<Rightarrow> bt_tx \<Rightarrow> int \<times> bt_tx" where
  "get_tx_sync_sdc a i st =
     (let (ret, ts, seq) = a_sync a; t = tx_info_arr st i
      in if ret \<noteq> 0 then (ret, st)
      else (0, set_inf i (t\<lparr>iso_tx_readback := \<lparr>ti_ts = ts, ti_offset = 0, ti_seq_num = seq\<rparr>\<rparr>) st))"

definition iso_conn_handle_set :: "iso_answers \<Rightarrow> bap_stream \<Rightarrow> stream_index \<Rightarrow> bt_tx \<Rightarrow> int \<times> bt_tx" where
  "iso_conn_handle_set a s i st =
     (let t = tx_info_arr st i
      in if iso_conn_handle t = HANDLE_INVALID then
        (case stream_ep s of
           None \<Rightarrow> (- EACCES, st)
         | Some p \<Rightarrow>
             if ep_info_ret p \<noteq> 0 then (- EACCES, st)
             else let (ret, h) = a_conn_handle a
                  in if ret \<noteq> 0 then (ret, st) else (0, set_inf i (t\<lparr>iso_conn_handle := h\<rparr>) st))
      else (0, st))"

section \<open>Sending a frame\<close>

record tx_acc =
  common_tx_sync_ts_us :: u32
  acc_curr_ts_us :: u32
  ts_common_acquired :: bool
  common_interval :: u32

text \<open>The checks that end the call: the SDU size of the stream and the interval common to all.\<close>

definition tx_check :: "tx_env \<Rightarrow> nat \<Rightarrow> bap_stream \<Rightarrow> tx_acc \<Rightarrow> (int \<times> tx_acc) option" where
  "tx_check e sz s acc = do {
     (ret, bitrate) \<leftarrow> le_audio_bitrate_get (t_le e) (stream_codec s) 0;
     if ret \<noteq> 0 then Some (ret, acc)
     else if sz \<noteq> LE_AUDIO_SDU_SIZE_OCTETS (t_le e) bitrate then Some (- EINVAL, acc)
     else if common_interval acc \<noteq> 0 \<and> common_interval acc \<noteq> qos_interval s then Some (- EINVAL, acc)
     else Some (0, acc\<lparr>common_interval := qos_interval s\<rparr>) }"

text \<open>The slice of the frame: all of it if every stream gets the same audio.\<close>

definition tx_slice :: "bytes \<Rightarrow> u8 \<Rightarrow> nat \<Rightarrow> u8 \<Rightarrow> bytes option" where
  "tx_slice data num_ch sz ch = rd_range data (if num_ch = 1 then 0 else unat ch * sz) sz"

text \<open>Sending, and the time stamp that the controller gave the first SDU; a failure skips the rest.\<close>

definition tx_one ::
  "tx_env \<Rightarrow> bytes \<Rightarrow> le_audio_tx_info \<Rightarrow> iso_answers \<Rightarrow> tx_acc \<Rightarrow> bt_tx \<Rightarrow> (tx_acc \<times> bt_tx) option" where
  "tx_one e data tx a acc st = do {
     (ret, st) \<leftarrow> iso_stream_send e a data (tx_idx tx) (common_tx_sync_ts_us acc) st;
     if ret \<noteq> 0 then Some (acc, st)
     else
       let (ret, st) = iso_conn_handle_set a (cap_stream tx) (tx_idx tx) st
       in if ret \<noteq> 0 then Some (acc, st)
       else
         let (ret, st) = get_tx_sync_sdc a (tx_idx tx) st
         in if ret \<noteq> 0 then Some (acc, st)
         else if ts_common_acquired acc then Some (acc, st)
         else Some (acc\<lparr>acc_curr_ts_us := a_now a, ts_common_acquired := True,
                common_tx_sync_ts_us := ti_ts (iso_tx_readback (tx_info_arr st (tx_idx tx)))\<rparr>, st) }"

fun tx_loop ::
  "tx_env \<Rightarrow> bytes \<Rightarrow> u8 \<Rightarrow> nat \<Rightarrow> (le_audio_tx_info \<times> iso_answers) list \<Rightarrow> tx_acc \<Rightarrow> bt_tx
   \<Rightarrow> (int \<times> tx_acc \<times> bt_tx) option" where
  "tx_loop e data num_ch sz [] acc st = Some (0, acc, st)"
| "tx_loop e data num_ch sz ((tx, a) # txs) acc st = do {
     assert_ok (idx_ok e (tx_idx tx));
     if \<not> le_audio_ep_state_check (stream_ep (cap_stream tx)) EP_STREAMING
     then tx_loop e data num_ch sz txs acc st
     else if num_ch < audio_channel tx then tx_loop e data num_ch sz txs acc st
     else do {
       (ret, acc) \<leftarrow> tx_check e sz (cap_stream tx) acc;
       if ret \<noteq> 0 then Some (ret, acc, st)
       else do {
         sl \<leftarrow> tx_slice data num_ch sz (audio_channel tx);
         (acc, st) \<leftarrow> tx_one e sl tx a acc st;
         tx_loop e data num_ch sz txs acc st } } }"

text \<open>The time reference published, if any, is the second component of the result.\<close>

definition bt_le_audio_tx_send ::
  "tx_env \<Rightarrow> net_buf \<Rightarrow> (le_audio_tx_info \<times> iso_answers) list option \<Rightarrow> bt_tx
   \<Rightarrow> (int \<times> sdu_ref_msg option \<times> bt_tx) option" where
  "bt_le_audio_tx_send e frame tx st =
     (if \<not> tx_initialized st then Some (- EACCES, None, st)
      else case tx of
        None \<Rightarrow> Some (- EINVAL, None, st)
      | Some txs \<Rightarrow>
          let num_ch = x_meta_num_ch (t_le e) (locations (buf_meta frame));
              len = length (buf_data frame)
          in if num_ch = 0 \<or> len mod unat num_ch \<noteq> 0 then Some (- EINVAL, None, st)
          else do {
            (ret, acc, st) \<leftarrow> tx_loop e (buf_data frame) num_ch (len div unat num_ch) txs
              \<lparr>common_tx_sync_ts_us = 0, acc_curr_ts_us = 0, ts_common_acquired = False, common_interval = 0\<rparr> st;
            if ret \<noteq> 0 then Some (ret, None, st)
            else Some (0, if ts_common_acquired acc
                          then Some \<lparr>tx_sync_ts_us = common_tx_sync_ts_us acc, curr_ts_us = acc_curr_ts_us acc, adjust = True\<rparr>
                          else None, st) })"

section \<open>Stream events and initialisation\<close>

definition bt_le_audio_tx_stream_started :: "tx_env \<Rightarrow> stream_index \<Rightarrow> bt_tx \<Rightarrow> (int \<times> bt_tx) option" where
  "bt_le_audio_tx_stream_started e i st =
     (if \<not> tx_initialized st then Some (- EACCES, st)
      else do {
        assert_ok (idx_ok e i);
        let t = tx_info_arr st i;
        Some (0, set_inf i (t\<lparr>iso_tx_pool_alloc := 0, hci_wrn_printed := False, iso_conn_handle := HANDLE_INVALID,
            iso_tx := (iso_tx t)\<lparr>ti_seq_num := 0\<rparr>,
            iso_tx_readback := (iso_tx_readback t)\<lparr>ti_seq_num := 0\<rparr>\<rparr>) st) })"

definition bt_le_audio_tx_stream_sent :: "tx_env \<Rightarrow> stream_index \<Rightarrow> bt_tx \<Rightarrow> (int \<times> bt_tx) option" where
  "bt_le_audio_tx_stream_sent e i st =
     (if \<not> tx_initialized st then Some (- EACCES, st)
      else do {
        assert_ok (idx_ok e i);
        let t = tx_info_arr st i;
        Some (0, set_inf i (t\<lparr>iso_tx_pool_alloc := iso_tx_pool_alloc t - 1\<rparr>) st) })"

text \<open>Initialisation resets every entry but its pool counter.\<close>

definition bt_le_audio_tx_init :: "bt_tx \<Rightarrow> bt_tx" where
  "bt_le_audio_tx_init st =
     (let zero = \<lparr>ti_ts = 0, ti_offset = 0, ti_seq_num = 0\<rparr>
      in st\<lparr>tx_info_arr := (\<lambda>i. (tx_info_arr st i)\<lparr>hci_wrn_printed := False, iso_conn_handle := HANDLE_INVALID,
               iso_tx := zero, iso_tx_readback := zero\<rparr>),
            tx_initialized := True\<rparr>)"

section \<open>Lemmas: a call in which everything succeeds\<close>

text \<open>A stream that is ready for its SDU, with a host that answers without errors.\<close>

definition tx_good :: "tx_env \<Rightarrow> u8 \<Rightarrow> nat \<Rightarrow> u32 \<Rightarrow> bt_tx \<Rightarrow> le_audio_tx_info \<Rightarrow> iso_answers \<Rightarrow> bool" where
  "tx_good e n sz iv st tx a \<longleftrightarrow> idx_ok e (tx_idx tx)
     \<and> le_audio_ep_state_check (stream_ep (cap_stream tx)) EP_STREAMING
     \<and> audio_channel tx < n \<and> qos_interval (cap_stream tx) = iv
     \<and> codec_readable (t_le e) (stream_codec (cap_stream tx))
     \<and> x_octets_per_frame (stream_codec (cap_stream tx)) = int sz
     \<and> iso_tx_pool_alloc (tx_info_arr st (tx_idx tx)) < 2
     \<and> a_buf a \<and> 0 \<le> a_send a \<and> fst (a_conn_handle a) = 0 \<and> fst (a_sync a) = 0"

definition sdu_of :: "bytes \<Rightarrow> u8 \<Rightarrow> nat \<Rightarrow> bt_tx \<Rightarrow> u32 \<Rightarrow> le_audio_tx_info \<Rightarrow> sdu" where
  "sdu_of data n sz st ts tx =
     \<lparr>sdu_idx = tx_idx tx, sdu_data = take sz (drop (if n = 1 then 0 else unat (audio_channel tx) * sz) data),
      sdu_seq = ti_seq_num (iso_tx (tx_info_arr st (tx_idx tx))), sdu_ts = ts\<rparr>"

lemma tx_slice_ok:
  assumes "length data = unat (n :: u8) * sz" and "n \<noteq> 0" and "ch < n \<or> n = 1"
  shows "tx_slice data n sz ch = Some (take sz (drop (if n = 1 then 0 else unat ch * sz) data))"
proof -
  have "(if n = 1 then 0 else unat ch * sz) + sz \<le> length data"
  proof (cases "n = 1")
    case False
    then have "Suc (unat ch) \<le> unat n" using assms(3) by (simp add: word_less_nat_alt)
    then have "Suc (unat ch) * sz \<le> unat n * sz" by (rule mult_le_mono1)
    then show ?thesis using False assms(1) by simp
  qed (use assms in simp)
  then show ?thesis by (simp add: tx_slice_def rd_range_in)
qed

lemma tx_check_ok:
  assumes "codec_readable (t_le e) (stream_codec s)" and "x_octets_per_frame (stream_codec s) = int sz"
    and "common_interval acc = 0 \<or> common_interval acc = qos_interval s"
  shows "tx_check e sz s acc = Some (0, acc\<lparr>common_interval := qos_interval s\<rparr>)"
proof -
  obtain b where "le_audio_bitrate_get (t_le e) (stream_codec s) 0 = Some (0, b)"
      "LE_AUDIO_SDU_SIZE_OCTETS (t_le e) b = sz"
    using bitrate_ok [OF assms(1), of 0] assms(2) by auto
  then show ?thesis using assms(3) by (auto simp: tx_check_def)
qed

definition acc_next :: "u32 \<Rightarrow> iso_answers \<Rightarrow> tx_acc \<Rightarrow> tx_acc" where
  "acc_next iv a acc = (if ts_common_acquired acc then acc\<lparr>common_interval := iv\<rparr>
     else acc\<lparr>common_interval := iv, acc_curr_ts_us := a_now a, ts_common_acquired := True,
              common_tx_sync_ts_us := fst (snd (a_sync a))\<rparr>)"

text \<open>What one stream's turn changes: its own entry, and the list of SDUs.\<close>

definition tx_took :: "stream_index \<Rightarrow> sdu \<Rightarrow> bt_tx \<Rightarrow> bt_tx \<Rightarrow> bool" where
  "tx_took i s st st' \<longleftrightarrow> iso_sent st' = iso_sent st @ [s] \<and> tx_initialized st' = tx_initialized st
     \<and> (\<forall>j. j \<noteq> i \<longrightarrow> tx_info_arr st' j = tx_info_arr st j)
     \<and> iso_tx_pool_alloc (tx_info_arr st' i) = iso_tx_pool_alloc (tx_info_arr st i) + 1
     \<and> ti_seq_num (iso_tx (tx_info_arr st' i)) = ti_seq_num (iso_tx (tx_info_arr st i)) + 1"

lemma tx_one_good:
  assumes "tx_good e n sz iv st tx a" and "length sl \<le> ISO_TX_MTU e"
  shows "\<exists>st'. tx_one e sl tx a (acc\<lparr>common_interval := iv\<rparr>) st = Some (acc_next iv a acc, st')
     \<and> tx_took (tx_idx tx) \<lparr>sdu_idx = tx_idx tx, sdu_data = sl,
         sdu_seq = ti_seq_num (iso_tx (tx_info_arr st (tx_idx tx))), sdu_ts = common_tx_sync_ts_us acc\<rparr> st st'"
proof -
  obtain ts seq h where a: "a_sync a = (0, ts, seq)" "a_conn_handle a = (0, h)"
    using assms(1) by (cases "a_sync a"; cases "a_conn_handle a") (auto simp: tx_good_def)
  obtain p where "stream_ep (cap_stream tx) = Some p" "ep_info_ret p = 0"
    using assms(1) by (auto simp: tx_good_def ep_state_check_iff)
  then show ?thesis
    using assms a
    by (auto simp: tx_one_def tx_good_def iso_stream_send_def iso_conn_handle_set_def get_tx_sync_sdc_def set_inf_def
        acc_next_def tx_took_def Let_def)
qed

lemma tx_step_good:
  assumes "tx_good e n sz iv st tx a" and "length data = unat n * sz" and "sz \<le> ISO_TX_MTU e"
    and "common_interval acc = 0 \<or> common_interval acc = iv"
  shows "\<exists>st'. (\<forall>txs. tx_loop e data n sz ((tx, a) # txs) acc st = tx_loop e data n sz txs (acc_next iv a acc) st')
     \<and> tx_took (tx_idx tx) (sdu_of data n sz st (common_tx_sync_ts_us acc) tx) st st'"
proof -
  have g: "idx_ok e (tx_idx tx)" "le_audio_ep_state_check (stream_ep (cap_stream tx)) EP_STREAMING"
      "audio_channel tx < n" "qos_interval (cap_stream tx) = iv"
    using assms(1) by (simp_all add: tx_good_def)
  have check: "tx_check e sz (cap_stream tx) acc = Some (0, acc\<lparr>common_interval := iv\<rparr>)"
    using tx_check_ok [of e "cap_stream tx" sz acc] assms(1,4) by (auto simp: tx_good_def)
  let ?sl = "take sz (drop (if n = 1 then 0 else unat (audio_channel tx) * sz) data)"
  have slice: "tx_slice data n sz (audio_channel tx) = Some ?sl"
    using g(3) by (intro tx_slice_ok assms(2)) auto
  have len: "length ?sl \<le> ISO_TX_MTU e" using assms(3) by (simp add: min.coboundedI2)
  obtain st' where "tx_one e ?sl tx a (acc\<lparr>common_interval := iv\<rparr>) st = Some (acc_next iv a acc, st')"
      "tx_took (tx_idx tx) (sdu_of data n sz st (common_tx_sync_ts_us acc) tx) st st'"
    using tx_one_good [OF assms(1), of ?sl acc] len by (auto simp: sdu_of_def)
  moreover have "\<not> n < audio_channel tx" using g(3) by simp
  ultimately show ?thesis
    using g check slice by (intro exI [of _ st']) simp
qed

lemma tx_good_other:
  "tx_good e n sz iv st tx a \<Longrightarrow> tx_took i s st st' \<Longrightarrow> tx_idx tx \<noteq> i \<Longrightarrow> tx_good e n sz iv st' tx a"
  by (simp add: tx_good_def tx_took_def)

lemma tx_loop_good:
  assumes "\<forall>(tx, a)\<in>set txs. tx_good e n sz iv st tx a" and "distinct (map (tx_idx \<circ> fst) txs)"
    and "length data = unat n * sz" and "sz \<le> ISO_TX_MTU e"
    and "ts_common_acquired acc" and "common_interval acc = iv"
  shows "\<exists>st'. tx_loop e data n sz txs acc st = Some (0, acc, st')
     \<and> iso_sent st' = iso_sent st @ map (sdu_of data n sz st (common_tx_sync_ts_us acc) \<circ> fst) txs"
  using assms(1,2)
proof (induction txs arbitrary: st)
  case (Cons p txs)
  obtain tx a where p: "p = (tx, a)" by (cases p)
  have acc: "acc_next iv a acc = acc" using assms(5,6) by (simp add: acc_next_def)
  obtain st1 where st1: "\<And>txs. tx_loop e data n sz ((tx, a) # txs) acc st = tx_loop e data n sz txs acc st1"
      "tx_took (tx_idx tx) (sdu_of data n sz st (common_tx_sync_ts_us acc) tx) st st1"
    using tx_step_good [of e n sz iv st tx a data acc] Cons.prems(1) assms(3-6) acc p by auto
  have other: "tx_idx (fst q) \<noteq> tx_idx tx" if "q \<in> set txs" for q
    using Cons.prems(2) that by (simp add: p image_iff) metis
  have "\<forall>(t, b)\<in>set txs. tx_good e n sz iv st1 t b"
    using Cons.prems(1) other tx_good_other [OF _ st1(2)] by fastforce
  moreover have "map (sdu_of data n sz st1 ts \<circ> fst) txs = map (sdu_of data n sz st ts \<circ> fst) txs" for ts
    using st1(2) other by (auto simp: tx_took_def sdu_of_def)
  ultimately show ?case
    using Cons.IH [of st1] Cons.prems(2) st1 by (auto simp: p tx_took_def)
qed simp

section \<open>Lemmas: the SDUs in the controller\<close>

text \<open>What every turn keeps: the pool counter moves with the SDUs taken, and stays at most 2.\<close>

definition sent_count :: "stream_index \<Rightarrow> bt_tx \<Rightarrow> int" where
  "sent_count i st = int (length (filter (\<lambda>s. sdu_idx s = i) (iso_sent st)))"

definition tx_track :: "bt_tx \<Rightarrow> bt_tx \<Rightarrow> bool" where
  "tx_track st st' \<longleftrightarrow> tx_initialized st' = tx_initialized st
     \<and> (\<forall>i. iso_tx_pool_alloc (tx_info_arr st' i) - iso_tx_pool_alloc (tx_info_arr st i)
              = sent_count i st' - sent_count i st
          \<and> (iso_tx_pool_alloc (tx_info_arr st i) \<le> 2 \<longrightarrow> iso_tx_pool_alloc (tx_info_arr st' i) \<le> 2))"

lemma tx_track_refl: "tx_track st st"
  by (simp add: tx_track_def)

lemma tx_track_trans: "tx_track a b \<Longrightarrow> tx_track b c \<Longrightarrow> tx_track a c"
  unfolding tx_track_def by (smt (verit))

lemma track_same:
  "iso_tx_pool_alloc t = iso_tx_pool_alloc (tx_info_arr st i) \<Longrightarrow> tx_track st (set_inf i t st)"
  by (simp add: tx_track_def set_inf_def sent_count_def)

lemma track_send:
  assumes "length sl \<le> ISO_TX_MTU e"
  shows "\<exists>r st'. iso_stream_send e a sl i ts st = Some (r, st') \<and> tx_track st st'"
  using assms by (auto simp: iso_stream_send_def Let_def set_inf_def tx_track_def sent_count_def)

lemma track_conn: "tx_track st (snd (iso_conn_handle_set a s i st))"
  by (auto simp: iso_conn_handle_set_def Let_def tx_track_refl intro!: track_same split: option.split prod.split)

lemma track_sync: "tx_track st (snd (get_tx_sync_sdc a i st))"
  by (auto simp: get_tx_sync_sdc_def Let_def tx_track_refl intro!: track_same split: prod.split)

lemma track_one:
  assumes "length sl \<le> ISO_TX_MTU e"
  shows "\<exists>acc' st'. tx_one e sl tx a acc st = Some (acc', st') \<and> tx_track st st'"
proof -
  obtain r1 s1 where s1: "iso_stream_send e a sl (tx_idx tx) (common_tx_sync_ts_us acc) st = Some (r1, s1)" "tx_track st s1"
    using track_send [OF assms] by blast
  obtain r2 s2 where s2: "iso_conn_handle_set a (cap_stream tx) (tx_idx tx) s1 = (r2, s2)" by fastforce
  obtain r3 s3 where s3: "get_tx_sync_sdc a (tx_idx tx) s2 = (r3, s3)" by fastforce
  have t: "tx_track st s2" "tx_track st s3"
    using s1(2) track_conn [of s1 a "cap_stream tx" "tx_idx tx"] track_sync [of s2 a "tx_idx tx"] s2 s3 tx_track_trans
    by (metis snd_conv)+
  show ?thesis
    using s1 s2 s3 t by (simp add: tx_one_def)
qed

definition tx_safe :: "tx_env \<Rightarrow> u8 \<Rightarrow> le_audio_tx_info \<Rightarrow> bool" where
  "tx_safe e n tx \<longleftrightarrow> idx_ok e (tx_idx tx) \<and> (audio_channel tx < n \<or> n = 1)
     \<and> codec_readable (t_le e) (stream_codec (cap_stream tx))"

lemma track_loop:
  assumes "n \<noteq> 0" and "length data = unat n * sz" and "sz \<le> ISO_TX_MTU e"
  shows "\<forall>(tx, a)\<in>set txs. tx_safe e n tx \<Longrightarrow>
    \<exists>r acc' st'. tx_loop e data n sz txs acc st = Some (r, acc', st') \<and> tx_track st st'"
proof (induction txs arbitrary: acc st)
  case (Cons p txs)
  obtain tx a where p: "p = (tx, a)" by (cases p)
  have safe: "tx_safe e n tx" using Cons.prems p by simp
  have rest: "\<exists>r acc' st'. tx_loop e data n sz txs acc st = Some (r, acc', st') \<and> tx_track st st'" for acc st
    using Cons by simp
  obtain b where b: "le_audio_bitrate_get (t_le e) (stream_codec (cap_stream tx)) 0 = Some (0, b)"
    using bitrate_ok safe by (fastforce simp: tx_safe_def)
  have "\<exists>r acc1. tx_check e sz (cap_stream tx) acc = Some (r, acc1)" using b by (auto simp: tx_check_def)
  then obtain r acc1 where c: "tx_check e sz (cap_stream tx) acc = Some (r, acc1)" by blast
  obtain sl where sl: "tx_slice data n sz (audio_channel tx) = Some sl" "length sl \<le> ISO_TX_MTU e"
    using tx_slice_ok [OF assms(2,1), of "audio_channel tx"] assms(3) safe by (auto simp: tx_safe_def min.coboundedI2)
  obtain acc2 st2 where o: "tx_one e sl tx a acc1 st = Some (acc2, st2)" "tx_track st st2"
    using track_one [OF sl(2)] by blast
  have "\<exists>r acc' st'. tx_loop e data n sz txs acc2 st2 = Some (r, acc', st') \<and> tx_track st st'"
    using rest [of acc2 st2] o(2) tx_track_trans by blast
  then show ?case
    using rest [of acc st] safe c sl(1) o(1)
    by (cases "r = 0") (auto simp: p tx_safe_def tx_track_refl)
qed (simp add: tx_track_refl)

lemma div_bound: "n \<noteq> 0 \<Longrightarrow> l \<le> m * n \<Longrightarrow> l div n \<le> (m :: nat)"
  by (metis div_le_mono nonzero_mult_div_cancel_right)

lemma track_call:
  assumes n: "n = x_meta_num_ch (t_le e) (locations (buf_meta frame))"
    and "\<forall>txs. tx = Some txs \<longrightarrow> (\<forall>(t, a)\<in>set txs. tx_safe e n t)"
    and "length (buf_data frame) \<le> ISO_TX_MTU e * unat n"
  shows "\<exists>r m st'. bt_le_audio_tx_send e frame tx st = Some (r, m, st') \<and> tx_track st st'"
proof (cases "tx_initialized st \<and> n \<noteq> 0 \<and> length (buf_data frame) mod unat n = 0")
  case True
  define sz where "sz = length (buf_data frame) div unat n"
  have sz: "sz \<le> ISO_TX_MTU e"
    unfolding sz_def using True by (intro div_bound assms(3)) (simp add: unsigned_eq_0_iff)
  have len: "length (buf_data frame) = unat n * sz"
    using True mult_div_mod_eq [of "unat n" "length (buf_data frame)"] by (simp add: sz_def)
  show ?thesis
  proof (cases tx)
    case (Some txs)
    let ?acc = "\<lparr>common_tx_sync_ts_us = 0, acc_curr_ts_us = 0, ts_common_acquired = False, common_interval = 0\<rparr>"
    obtain r acc' st' where "tx_loop e (buf_data frame) n sz txs ?acc st = Some (r, acc', st')" "tx_track st st'"
      using track_loop [OF _ len sz, of txs ?acc st] True assms(2) Some by blast
    then show ?thesis
      using True Some n by (simp add: bt_le_audio_tx_send_def Let_def sz_def)
  qed (simp add: bt_le_audio_tx_send_def tx_track_refl)
next
  case False
  then show ?thesis
    using n by (cases tx) (auto simp: bt_le_audio_tx_send_def Let_def tx_track_refl)
qed

datatype tx_event = Tx_send net_buf "(le_audio_tx_info \<times> iso_answers) list option" | Tx_started stream_index
  | Tx_sent stream_index

definition tx_step :: "tx_env \<Rightarrow> tx_event \<Rightarrow> bt_tx \<Rightarrow> bt_tx option" where
  "tx_step e ev st = (case ev of
     Tx_send frame tx \<Rightarrow> map_option (snd \<circ> snd) (bt_le_audio_tx_send e frame tx st)
   | Tx_started i \<Rightarrow> map_option snd (bt_le_audio_tx_stream_started e i st)
   | Tx_sent i \<Rightarrow> map_option snd (bt_le_audio_tx_stream_sent e i st))"

fun tx_run :: "tx_env \<Rightarrow> tx_event list \<Rightarrow> bt_tx \<Rightarrow> bt_tx option" where
  "tx_run e [] st = Some st"
| "tx_run e (ev # evs) st = do { st \<leftarrow> tx_step e ev st; tx_run e evs st }"

definition tx_ev_ok :: "tx_env \<Rightarrow> tx_event \<Rightarrow> bool" where
  "tx_ev_ok e ev = (case ev of
     Tx_send frame tx \<Rightarrow>
       (let n = x_meta_num_ch (t_le e) (locations (buf_meta frame))
        in (\<forall>txs. tx = Some txs \<longrightarrow> (\<forall>(t, a)\<in>set txs. tx_safe e n t))
           \<and> length (buf_data frame) \<le> ISO_TX_MTU e * unat n)
   | Tx_started i \<Rightarrow> idx_ok e i
   | Tx_sent i \<Rightarrow> idx_ok e i)"

definition acks :: "stream_index \<Rightarrow> tx_event list \<Rightarrow> int" where
  "acks i evs = int (length (filter (\<lambda>ev. ev = Tx_sent i) evs))"

text \<open>One event: the counter of a stream that is not started again.\<close>

lemma flow_step:
  assumes "tx_initialized st" and "tx_ev_ok e ev" and "ev \<noteq> Tx_started i"
  shows "\<exists>st'. tx_step e ev st = Some st' \<and> tx_initialized st'
    \<and> iso_tx_pool_alloc (tx_info_arr st' i) - iso_tx_pool_alloc (tx_info_arr st i)
        = sent_count i st' - sent_count i st - acks i [ev]
    \<and> (iso_tx_pool_alloc (tx_info_arr st i) \<le> 2 \<longrightarrow> iso_tx_pool_alloc (tx_info_arr st' i) \<le> 2)"
proof (cases ev)
  case (Tx_send frame tx)
  obtain r m st' where "bt_le_audio_tx_send e frame tx st = Some (r, m, st')" "tx_track st st'"
    using track_call [OF refl, of tx e frame st] assms(2) Tx_send by (auto simp: tx_ev_ok_def Let_def)
  then show ?thesis
    using assms(1) Tx_send by (simp add: tx_step_def tx_track_def acks_def)
qed (use assms in \<open>auto simp: tx_step_def tx_ev_ok_def bt_le_audio_tx_stream_started_def
      bt_le_audio_tx_stream_sent_def set_inf_def acks_def sent_count_def Let_def\<close>)

lemma flow_run:
  "tx_initialized st \<Longrightarrow> \<forall>ev\<in>set evs. tx_ev_ok e ev \<and> ev \<noteq> Tx_started i \<Longrightarrow>
   iso_tx_pool_alloc (tx_info_arr st i) \<le> 2 \<Longrightarrow>
   \<exists>st'. tx_run e evs st = Some st'
     \<and> iso_tx_pool_alloc (tx_info_arr st' i) - iso_tx_pool_alloc (tx_info_arr st i)
         = sent_count i st' - sent_count i st - acks i evs
     \<and> iso_tx_pool_alloc (tx_info_arr st' i) \<le> 2"
proof (induction evs arbitrary: st)
  case (Cons ev evs)
  obtain st1 where st1: "tx_step e ev st = Some st1" "tx_initialized st1"
      "iso_tx_pool_alloc (tx_info_arr st1 i) - iso_tx_pool_alloc (tx_info_arr st i)
        = sent_count i st1 - sent_count i st - acks i [ev]" "iso_tx_pool_alloc (tx_info_arr st1 i) \<le> 2"
    using flow_step [of st e ev i] Cons.prems by fastforce
  obtain st2 where "tx_run e evs st1 = Some st2"
      "iso_tx_pool_alloc (tx_info_arr st2 i) - iso_tx_pool_alloc (tx_info_arr st1 i)
        = sent_count i st2 - sent_count i st1 - acks i evs" "iso_tx_pool_alloc (tx_info_arr st2 i) \<le> 2"
    using Cons.IH [of st1] Cons.prems(2) st1(2,4) by fastforce
  moreover have "acks i (ev # evs) = acks i [ev] + acks i evs" by (simp add: acks_def)
  ultimately show ?case using st1(1,3) by simp
qed (simp add: acks_def)

section \<open>Properties\<close>

lemma concat_slices: "concat (map (\<lambda>k. take sz (drop (k * sz) data)) [0..<m]) = take (m * sz) data"
proof (induction m)
  case (Suc m)
  have "take (Suc m * sz) data = take (m * sz) data @ take sz (drop (m * sz) data)"
    by (simp add: take_add add.commute [of sz])
  then show ?case using Suc by simp
qed simp

text \<open>The whole call, used for the properties of the transmitter and of what feeds it.\<close>

lemma send_frame:
  assumes "tx_initialized st" and "n = x_meta_num_ch (t_le e) (locations (buf_meta frame))" and "n \<noteq> 0"
    and "length (buf_data frame) = unat n * sz" and "sz \<le> ISO_TX_MTU e"
    and "txs = (tx0, a0) # rest" and "\<forall>(tx, a)\<in>set txs. tx_good e n sz iv st tx a"
    and "distinct (map (tx_idx \<circ> fst) txs)"
  shows "\<exists>out st'. bt_le_audio_tx_send e frame (Some txs) st = Some (0, Some \<lparr>tx_sync_ts_us = fst (snd (a_sync a0)),
        curr_ts_us = a_now a0, adjust = True\<rparr>, st')
    \<and> iso_sent st' = iso_sent st @ out
    \<and> out = sdu_of (buf_data frame) n sz st 0 tx0
            # map (sdu_of (buf_data frame) n sz st (fst (snd (a_sync a0))) \<circ> fst) rest"
proof -
  let ?d = "buf_data frame" and ?ts = "fst (snd (a_sync a0))"
  let ?acc = "\<lparr>common_tx_sync_ts_us = 0, acc_curr_ts_us = 0, ts_common_acquired = False, common_interval = 0\<rparr>"
  define out where "out = sdu_of ?d n sz st 0 tx0 # map (sdu_of ?d n sz st ?ts \<circ> fst) rest"
  obtain st1 where st1: "\<And>txs. tx_loop e ?d n sz ((tx0, a0) # txs) ?acc st = tx_loop e ?d n sz txs (acc_next iv a0 ?acc) st1"
      "tx_took (tx_idx tx0) (sdu_of ?d n sz st 0 tx0) st st1"
    using tx_step_good [of e n sz iv st tx0 a0 ?d ?acc] assms(4-7) by auto
  have other: "tx_idx (fst q) \<noteq> tx_idx tx0" if "q \<in> set rest" for q
    using assms(6,8) that by (simp add: image_iff) metis
  have good: "\<forall>(t, b)\<in>set rest. tx_good e n sz iv st1 t b"
    using assms(6,7) other tx_good_other [OF _ st1(2)] by fastforce
  have same: "map (sdu_of ?d n sz st1 ?ts \<circ> fst) rest = map (sdu_of ?d n sz st ?ts \<circ> fst) rest"
    using st1(2) other by (auto simp: tx_took_def sdu_of_def)
  have acq: "ts_common_acquired (acc_next iv a0 ?acc)" "common_interval (acc_next iv a0 ?acc) = iv"
    by (simp_all add: acc_next_def)
  obtain st2 where st2: "tx_loop e ?d n sz rest (acc_next iv a0 ?acc) st1 = Some (0, acc_next iv a0 ?acc, st2)"
      "iso_sent st2 = iso_sent st1 @ map (sdu_of ?d n sz st1 ?ts \<circ> fst) rest"
    using tx_loop_good [OF good _ assms(4,5) acq] assms(6,8) by (auto simp: acc_next_def)
  have len: "length ?d mod unat n = 0" "length ?d div unat n = sz"
    using assms(3,4) by (simp_all add: unsigned_eq_0_iff)
  have "bt_le_audio_tx_send e frame (Some txs) st
      = Some (0, Some \<lparr>tx_sync_ts_us = ?ts, curr_ts_us = a_now a0, adjust = True\<rparr>, st2)"
    using assms(1,3,6) st1(1) st2(1) len
    by (simp add: bt_le_audio_tx_send_def assms(2) [symmetric] Let_def) (simp add: acc_next_def)
  moreover have "iso_sent st2 = iso_sent st @ out"
    using st1(2) st2(2) same by (simp add: tx_took_def out_def)
  ultimately show ?thesis by (auto simp: out_def)
qed

text \<open>C39: Every channel of a frame goes out once, on its own stream, at a common time. If the encoded
  frame has a whole number of bytes per channel, every stream of the call is streaming, accepts the
  SDU and has less than two in the controller, then the call succeeds: each stream is handed, in the
  order of the call and with its own next sequence number, exactly the part of the frame that belongs to its channel
  (the whole frame if it has one channel); the first SDU carries no time stamp, all others carry
  the one the controller gave the first, which is also published as the time reference with the time
  it was read at. If the streams are numbered by the channels, the SDUs are the frame.\<close>

theorem frame_sent_on_all_streams:
  assumes "tx_initialized st" and "n = x_meta_num_ch (t_le e) (locations (buf_meta frame))" and "n \<noteq> 0"
    and "length (buf_data frame) = unat n * sz" and "sz \<le> ISO_TX_MTU e"
    and "txs = (tx0, a0) # rest" and "\<forall>(tx, a)\<in>set txs. tx_good e n sz iv st tx a"
    and "distinct (map (tx_idx \<circ> fst) txs)"
  shows "\<exists>out st'. bt_le_audio_tx_send e frame (Some txs) st = Some (0, Some \<lparr>tx_sync_ts_us = fst (snd (a_sync a0)),
        curr_ts_us = a_now a0, adjust = True\<rparr>, st')
    \<and> iso_sent st' = iso_sent st @ out
    \<and> out = sdu_of (buf_data frame) n sz st 0 tx0
            # map (sdu_of (buf_data frame) n sz st (fst (snd (a_sync a0))) \<circ> fst) rest
    \<and> (map (unat \<circ> audio_channel \<circ> fst) txs = [0..<unat n] \<longrightarrow> concat (map sdu_data out) = buf_data frame)"
proof -
  let ?d = "buf_data frame" and ?ts = "fst (snd (a_sync a0))"
  define out where "out = sdu_of ?d n sz st 0 tx0 # map (sdu_of ?d n sz st ?ts \<circ> fst) rest"
  have "concat (map sdu_data out) = ?d"
    if "map (unat \<circ> audio_channel \<circ> fst) txs = [0..<unat n]"
  proof -
    have "unat (audio_channel (fst q)) \<in> {0..<unat n}" if "q \<in> set txs" for q
      using arg_cong [OF \<open>map _ txs = _\<close>, of set] that by force
    then have eq: "sdu_data (sdu_of ?d n sz st ts (fst q)) = take sz (drop (unat (audio_channel (fst q)) * sz) ?d)"
      if "q \<in> set txs" for q ts
      using that by (cases "n = 1") (auto simp: sdu_of_def)
    have "map sdu_data out = map ((\<lambda>k. take sz (drop (k * sz) ?d)) \<circ> (unat \<circ> audio_channel \<circ> fst)) txs"
      using assms(6) eq [of "(tx0, a0)"] eq by (auto simp: out_def)
    also have "\<dots> = map (\<lambda>k. take sz (drop (k * sz) ?d)) [0..<unat n]"
      using arg_cong [OF that, of "map (\<lambda>k. take sz (drop (k * sz) ?d))"] by (simp only: map_map)
    finally show ?thesis using assms(4) by (simp only: concat_slices) simp
  qed
  then show ?thesis
    using send_frame [OF assms] by (auto simp: out_def)
qed

text \<open>C40: At most two SDUs of a stream are in the controller. Once a stream has been started, for every sequence
  of frames sent, SDUs reported as sent and other streams started, whatever the Bluetooth host
  answers: no operation leaves its arrays or overfills a buffer, and at every moment the number of the stream's
  SDUs handed to the host is at most two more than the number reported as sent; the code's counter
  is their difference.\<close>

theorem two_sdus_in_flight:
  assumes "tx_initialized st0" and "idx_ok e i"
    and "\<forall>ev\<in>set evs. tx_ev_ok e ev \<and> ev \<noteq> Tx_started i"
  shows "\<exists>st1 st. bt_le_audio_tx_stream_started e i st0 = Some (0, st1) \<and> tx_run e evs st1 = Some st
    \<and> iso_tx_pool_alloc (tx_info_arr st i) = sent_count i st - sent_count i st0 - acks i evs
    \<and> sent_count i st - sent_count i st0 \<le> acks i evs + 2"
proof -
  obtain st1 where st1: "bt_le_audio_tx_stream_started e i st0 = Some (0, st1)" "tx_initialized st1"
      "iso_tx_pool_alloc (tx_info_arr st1 i) = 0" "sent_count i st1 = sent_count i st0"
    using assms(1,2) by (auto simp: bt_le_audio_tx_stream_started_def set_inf_def sent_count_def Let_def)
  show ?thesis
    using flow_run [OF st1(2) assms(3)] st1 by auto
qed

section \<open>A concrete transmitter\<close>

definition example_tx :: tx_env where
  "example_tx = \<lparr>t_le = \<lparr>x_freq_hz = (\<lambda>_. 48000), x_dur_us = (\<lambda>_. 10000), FRAME_DURATION_US = 10000,
      LC3_BITRATE_MIN = 32000, LC3_BITRATE_MAX = 124000, le_cfg_src = False, le_sample_rate_hz = 48000,
      x_meta_num_ch = (\<lambda>l. if l = 3 then 2 else 1)\<rparr>,
     GROUP_MAX = 2, SUBGROUP_MAX = 1, STREAMS_MAX = 2, ISO_TX_MTU = 4\<rparr>"

definition example_stream :: bap_stream where
  "example_stream = \<lparr>stream_ep = Some \<lparr>ep_info_ret = 0, ep_state = EP_STREAMING, ep_dir = 2\<rparr>,
     stream_codec = \<lparr>codec_id = 6, x_freq = 8, x_frame_dur = 1, x_octets_per_frame = 1,
        x_frame_blocks_per_sdu = 1, x_chan_allocation = (0, 3)\<rparr>, qos_interval = 10000\<rparr>"

definition example_txi :: "u8 \<Rightarrow> le_audio_tx_info \<times> iso_answers" where
  "example_txi k = (\<lparr>tx_idx = \<lparr>lvl1 = 0, lvl2 = 0, lvl3 = k\<rparr>, cap_stream = example_stream, audio_channel = k\<rparr>,
     \<lparr>a_buf = True, a_send = 0, a_conn_handle = (0, 7), a_sync = (0, 500, 1), a_now = 400\<rparr>)"

definition example_bt_tx :: bt_tx where
  "example_bt_tx = \<lparr>tx_initialized = True, tx_info_arr = (\<lambda>i. \<lparr>iso_conn_handle = 0xFFFF,
     iso_tx = \<lparr>ti_ts = 0, ti_offset = 0, ti_seq_num = 0\<rparr>, iso_tx_readback = \<lparr>ti_ts = 0, ti_offset = 0, ti_seq_num = 0\<rparr>,
     iso_tx_pool_alloc = 0, hci_wrn_printed = False\<rparr>), iso_sent = []\<rparr>"

lemmas example_tx_defs = example_tx_def example_stream_def example_txi_def example_bt_tx_def
  example_buf_def

lemma example_tx_good: "k < 2 \<Longrightarrow> tx_good example_tx 2 1 10000 example_bt_tx (fst (example_txi k)) (snd (example_txi k))"
  by (simp add: example_tx_defs tx_good_def idx_ok_def ep_state_check_iff codec_readable_def word_less_nat_alt)

theorem frame_sent_on_all_streams_witness:
  "\<exists>st'. bt_le_audio_tx_send example_tx example_buf (Some [example_txi 0, example_txi 1]) example_bt_tx
      = Some (0, Some \<lparr>tx_sync_ts_us = 500, curr_ts_us = 400, adjust = True\<rparr>, st')
    \<and> map sdu_data (iso_sent st') = [[5], [6]] \<and> map sdu_ts (iso_sent st') = [0, 500]"
proof -
  let ?tx = "\<lambda>k. fst (example_txi k)" and ?a = "snd (example_txi 0)"
  let ?txs = "(?tx 0, ?a) # [example_txi 1]"
  have good: "\<forall>(tx, a)\<in>set ?txs. tx_good example_tx 2 1 10000 example_bt_tx tx a"
    using example_tx_good [of 0] example_tx_good [of 1] by (simp add: example_txi_def)
  have n: "2 = x_meta_num_ch (t_le example_tx) (locations (buf_meta example_buf))" "(2 :: u8) \<noteq> 0"
    by (simp_all add: example_tx_defs)
  have d: "length (buf_data example_buf) = unat (2 :: u8) * 1" "1 \<le> ISO_TX_MTU example_tx"
      "distinct (map (tx_idx \<circ> fst) ?txs)" "tx_initialized example_bt_tx"
    by (simp_all add: example_tx_defs)
  have v: "fst (snd (a_sync ?a)) = 500" "a_now ?a = 400" "?txs = [example_txi 0, example_txi 1]"
      "map sdu_data (sdu_of (buf_data example_buf) 2 1 example_bt_tx 0 (?tx 0)
         # map (sdu_of (buf_data example_buf) 2 1 example_bt_tx 500 \<circ> fst) [example_txi 1]) = [[5], [6]]"
      "iso_sent example_bt_tx = []"
    by (simp_all add: example_tx_defs sdu_of_def)
  show ?thesis
    using frame_sent_on_all_streams [OF d(4) n d(1,2) refl good d(3)] v by (auto simp: sdu_of_def)
qed

theorem two_sdus_in_flight_witness:
  "\<exists>st1 st. bt_le_audio_tx_stream_started example_tx \<lparr>lvl1 = 0, lvl2 = 0, lvl3 = 1\<rparr> example_bt_tx = Some (0, st1)
    \<and> tx_run example_tx [Tx_send example_buf (Some [example_txi 0, example_txi 1]),
          Tx_sent \<lparr>lvl1 = 0, lvl2 = 0, lvl3 = 1\<rparr>] st1 = Some st
    \<and> sent_count \<lparr>lvl1 = 0, lvl2 = 0, lvl3 = 1\<rparr> st - sent_count \<lparr>lvl1 = 0, lvl2 = 0, lvl3 = 1\<rparr> example_bt_tx \<le> 1 + 2"
proof -
  let ?i = "\<lparr>lvl1 = 0, lvl2 = 0, lvl3 = 1\<rparr> :: stream_index"
  let ?evs = "[Tx_send example_buf (Some [example_txi 0, example_txi 1]), Tx_sent ?i]"
  have ok: "\<forall>ev\<in>set ?evs. tx_ev_ok example_tx ev \<and> ev \<noteq> Tx_started ?i"
    by (simp add: tx_ev_ok_def tx_safe_def example_tx_defs idx_ok_def codec_readable_def)
  have "tx_initialized example_bt_tx" "idx_ok example_tx ?i" "acks ?i ?evs = 1"
    by (simp_all add: example_tx_defs idx_ok_def acks_def)
  then show ?thesis
    using two_sdus_in_flight [OF _ _ ok] by metis
qed

end
