(* ===== verification/BroadcastSource.thy ===== *)
theory BroadcastSource
  imports BtTx BlePaAdapter
begin

text \<open>
  The broadcast source \<open>src/bluetooth/bt_stream/broadcast/broadcast_source.c\<close>: the streams of the
  broadcast groups (BIG), the parameters a source is created with, its advertising data, and the callbacks of
  the streams, which publish the events the application follows; and the two helpers of
  \<open>bt_mgmt_adv.c\<close> that fill advertising buffers.

  The host owns the endpoints of the streams: \<open>cap_streams\<close> is what it last stored there. What it
  answers is an argument of the operation, and the requests it accepts are listed in \<open>host_calls\<close>.
  \<open>None\<close> is undefined behaviour or a tripped \<open>ERR_CHK\<close>.
\<close>

section \<open>State\<close>

datatype le_audio_evt_type = LE_AUDIO_EVT_CONFIG_RECEIVED | LE_AUDIO_EVT_PRES_DELAY_SET | LE_AUDIO_EVT_STREAMING
  | LE_AUDIO_EVT_NOT_STREAMING | LE_AUDIO_EVT_STREAM_SENT | LE_AUDIO_EVT_SYNC_LOST | LE_AUDIO_EVT_NO_VALID_CFG
  | LE_AUDIO_EVT_COORD_SET_DISCOVERED

record le_audio_msg =
  msg_event :: le_audio_evt_type
  msg_idx :: stream_index

record subgroup_config =
  location :: "u32 list"
  num_bises :: u8
  context_type :: u16
  group_codec :: codec_cfg
  group_qos_interval :: u32

record broadcast_source_big =
  subgroups :: "subgroup_config list"
  num_subgroups :: u8
  packing_interleaved :: bool
  encryption :: bool
  broadcast_code :: bytes
  broadcast_name :: bytes

text \<open>A stream parameter points to the stream of its index and to the configuration data of its BIS.\<close>

record stream_param =
  sp_stream :: "nat \<times> nat \<times> nat"
  sp_data :: bytes

record subgroup_param =
  stream_count :: u8
  stream_params :: "stream_param list"
  sub_codec :: codec_cfg

record create_param =
  subgroup_count :: u8
  cp_qos_interval :: u32
  cp_packing_interleaved :: bool
  cp_encryption :: bool
  cp_broadcast_code :: bytes

record bsrc_env =
  b_tx :: tx_env
  BIG_MAX :: nat
  SUBGROUP_COUNT :: nat
  STREAM_COUNT :: nat
  TX_INFO_MAX :: nat
  zbus_evt_stream_sent :: bool
  auracast :: bool
  cfg_interleaved :: bool
  cfg_encrypted :: bool
  ENCRYPTION_KEY :: bytes
  BROADCAST_NAME :: bytes
  preset_codec :: codec_cfg
  preset_qos_interval :: u32
  DEVICE_APPEARANCE :: u16
  PARENTAL_RATING :: u8
  no_stream :: bap_stream

datatype host_call = Host_create nat | Host_start nat nat | Host_stop nat | Host_delete nat

text \<open>
  \<open>subgroup_params\<close> is a static array of the function that fills it, shared by all groups;
  \<open>stream_ops\<close> lists the streams whose callbacks are registered.
\<close>

record bsrc =
  broadcast_sources :: "nat option list"
  create_params :: "create_param list"
  subgroup_params :: "subgroup_param list"
  cap_streams :: "nat \<Rightarrow> nat \<Rightarrow> nat \<Rightarrow> bap_stream"
  stream_ops :: "(nat \<times> nat \<times> nat) list"
  bs_initialized :: bool
  delete_broadcast_src :: "bool list"
  stored_broadcast_id :: u32
  bs_tx :: bt_tx
  le_audio_chan :: "le_audio_msg list"
  host_calls :: "host_call list"

section \<open>Events of the streams\<close>

definition le_audio_event_publish :: "int \<Rightarrow> le_audio_evt_type \<Rightarrow> stream_index \<Rightarrow> bsrc \<Rightarrow> bsrc option" where
  "le_audio_event_publish pub ev idx st = do {
     err_chk pub;
     Some (st\<lparr>le_audio_chan := le_audio_chan st @ [\<lparr>msg_event = ev, msg_idx = idx\<rparr>]\<rparr>) }"

text \<open>The search of the array for the stream: \<open>None\<close> for a pointer to something else.\<close>

definition stream_index_get :: "bsrc_env \<Rightarrow> (nat \<times> nat \<times> nat) option \<Rightarrow> stream_index option" where
  "stream_index_get e stream =
     map_option (\<lambda>(i, j, k). \<lparr>lvl1 = of_nat i, lvl2 = of_nat j, lvl3 = of_nat k\<rparr>)
       (List.find (\<lambda>p. stream = Some p)
          [(i, j, k). i \<leftarrow> [0..<BIG_MAX e], j \<leftarrow> [0..<SUBGROUP_COUNT e], k \<leftarrow> [0..<STREAM_COUNT e]])"

definition stream_sent_cb :: "bsrc_env \<Rightarrow> int \<Rightarrow> (nat \<times> nat \<times> nat) option \<Rightarrow> bsrc \<Rightarrow> bsrc option" where
  "stream_sent_cb e pub stream st = (case stream_index_get e stream of
     None \<Rightarrow> Some st
   | Some idx \<Rightarrow> do {
       st \<leftarrow> (if zbus_evt_stream_sent e then le_audio_event_publish pub LE_AUDIO_EVT_STREAM_SENT idx st else Some st);
       (ret, t) \<leftarrow> bt_le_audio_tx_stream_sent (b_tx e) idx (bs_tx st);
       err_chk ret;
       Some (st\<lparr>bs_tx := t\<rparr>) })"

definition stream_started_cb :: "bsrc_env \<Rightarrow> int \<Rightarrow> (nat \<times> nat \<times> nat) option \<Rightarrow> bsrc \<Rightarrow> bsrc option" where
  "stream_started_cb e pub stream st = (case stream_index_get e stream of
     None \<Rightarrow> Some st
   | Some idx \<Rightarrow> do {
       (ret, t) \<leftarrow> bt_le_audio_tx_stream_started (b_tx e) idx (bs_tx st);
       err_chk ret;
       le_audio_event_publish pub LE_AUDIO_EVT_STREAMING idx (st\<lparr>bs_tx := t\<rparr>) })"

definition is_streaming_at :: "bsrc \<Rightarrow> nat \<Rightarrow> nat \<Rightarrow> nat \<Rightarrow> bool" where
  "is_streaming_at st i j k = le_audio_ep_state_check (stream_ep (cap_streams st i j k)) EP_STREAMING"

definition source_has_streaming_streams :: "bsrc_env \<Rightarrow> nat \<Rightarrow> bsrc \<Rightarrow> bool" where
  "source_has_streaming_streams e big st =
     list_ex (\<lambda>i. list_ex (\<lambda>j. is_streaming_at st big i j) [0..<STREAM_COUNT e]) [0..<SUBGROUP_COUNT e]"

text \<open>\<open>del\<close> is the host's answer to deleting the source.\<close>

definition stream_stopped_cb :: "bsrc_env \<Rightarrow> int \<Rightarrow> int \<Rightarrow> (nat \<times> nat \<times> nat) option \<Rightarrow> bsrc \<Rightarrow> bsrc option" where
  "stream_stopped_cb e pub del stream st = (case stream_index_get e stream of
     None \<Rightarrow> Some st
   | Some idx \<Rightarrow> do {
       st \<leftarrow> le_audio_event_publish pub LE_AUDIO_EVT_NOT_STREAMING idx st;
       let big = unat (lvl1 idx);
       d \<leftarrow> rd (delete_broadcast_src st) big;
       src \<leftarrow> rd (broadcast_sources st) big;
       if d \<and> src \<noteq> None \<and> \<not> source_has_streaming_streams e big st
       then Some (if del \<noteq> 0 then st\<lparr>delete_broadcast_src := (delete_broadcast_src st)[big := False]\<rparr>
                  else st\<lparr>host_calls := host_calls st @ [Host_delete big],
                          broadcast_sources := (broadcast_sources st)[big := None],
                          delete_broadcast_src := (delete_broadcast_src st)[big := False]\<rparr>)
       else Some st })"

section \<open>Advertising data\<close>

abbreviation (input) BT_DATA_UUID16_ALL :: u8 where "BT_DATA_UUID16_ALL \<equiv> 0x03"
abbreviation (input) BT_DATA_SVC_DATA16 :: u8 where "BT_DATA_SVC_DATA16 \<equiv> 0x16"
abbreviation (input) BT_DATA_GAP_APPEARANCE :: u8 where "BT_DATA_GAP_APPEARANCE \<equiv> 0x19"
abbreviation (input) BT_DATA_BROADCAST_NAME :: u8 where "BT_DATA_BROADCAST_NAME \<equiv> 0x30"
abbreviation (input) BT_UUID_BROADCAST_AUDIO_VAL :: u16 where "BT_UUID_BROADCAST_AUDIO_VAL \<equiv> 0x1852"
abbreviation (input) BT_UUID_PBA_VAL :: u16 where "BT_UUID_PBA_VAL \<equiv> 0x1856"
abbreviation (input) METADATA_PARENTAL_RATING :: u8 where "METADATA_PARENTAL_RATING \<equiv> 0x06"
abbreviation (input) METADATA_AUDIO_STATE :: u8 where "METADATA_AUDIO_STATE \<equiv> 0x08"
abbreviation (input) FEATURE_ENCRYPTION :: u8 where "FEATURE_ENCRYPTION \<equiv> 1"
abbreviation (input) FEATURE_STANDARD_QUALITY :: u8 where "FEATURE_STANDARD_QUALITY \<equiv> 2"
abbreviation (input) FEATURE_HIGH_QUALITY :: u8 where "FEATURE_HIGH_QUALITY \<equiv> 4"
abbreviation (input) CODEC_CFG_FREQ_16KHZ :: int where "CODEC_CFG_FREQ_16KHZ \<equiv> 3"
abbreviation (input) CODEC_CFG_FREQ_24KHZ :: int where "CODEC_CFG_FREQ_24KHZ \<equiv> 5"
abbreviation (input) CODEC_CFG_FREQ_48KHZ :: int where "CODEC_CFG_FREQ_48KHZ \<equiv> 8"
abbreviation (input) CODEC_CFG_CHAN_ALLOC :: u8 where "CODEC_CFG_CHAN_ALLOC \<equiv> 3"
abbreviation (input) LTV_CHAN_ALLOC_SIZE :: nat where "LTV_CHAN_ALLOC_SIZE \<equiv> 6"
abbreviation (input) PBA_HEADER_SIZE :: nat where "PBA_HEADER_SIZE \<equiv> 4"

definition le16 :: "u16 \<Rightarrow> bytes" where
  "le16 v = [ucast v, ucast (drop_bit 8 v)]"

definition le24 :: "u32 \<Rightarrow> bytes" where
  "le24 v = [ucast v, ucast (drop_bit 8 v), ucast (drop_bit 16 v)]"

definition le32 :: "u32 \<Rightarrow> bytes" where
  "le32 v = [ucast v, ucast (drop_bit 8 v), ucast (drop_bit 16 v), ucast (drop_bit 24 v)]"

definition bt_mgmt_manufacturer_uuid_populate :: "nat \<Rightarrow> u16 \<Rightarrow> bytes \<Rightarrow> int \<times> bytes" where
  "bt_mgmt_manufacturer_uuid_populate room company_id uuid_buf =
     (if length uuid_buf + 2 \<le> room then (0, uuid_buf @ le16 company_id) else (- ENOMEM, uuid_buf))"

text \<open>The element's length is an octet; its data pointer is the buffer that follows.\<close>

definition bt_mgmt_adv_buffer_put ::
  "nat \<Rightarrow> nat \<Rightarrow> u8 \<Rightarrow> bytes \<Rightarrow> nat \<Rightarrow> bt_data list \<Rightarrow> (int \<times> nat \<times> bt_data list) option" where
  "bt_mgmt_adv_buffer_put vacant data_len ty d index adv_buf =
     (if data_len = 0 then Some (- EINVAL, index, adv_buf)
      else if vacant \<le> index then Some (- ENOMEM, index, adv_buf)
      else do {
        b \<leftarrow> wr adv_buf index \<lparr>ad_type = ty, ad_len = of_nat data_len, ad_data = d\<rparr>;
        Some (0, index + 1, b) })"

definition metadata_u8_add :: "bytes \<Rightarrow> nat \<Rightarrow> u8 \<Rightarrow> u8 \<Rightarrow> (bytes \<times> nat) option" where
  "metadata_u8_add buffer index ty v = do {
     b \<leftarrow> wr_range buffer index [2, ty, v];
     Some (b, index + 3) }"

record ext_adv_data =
  brdcst_id_buf :: bytes
  brdcst_appearance_buf :: bytes
  brdcst_name_buf :: bytes
  pba_buf :: bytes

text \<open>
  The loop of the features runs over the number of subgroups of the first group, whatever the group
  asked for. A frequency that cannot be read, or is none of the three, is only logged.
\<close>

fun features_loop :: "subgroup_param list \<Rightarrow> nat \<Rightarrow> nat \<Rightarrow> u8 \<Rightarrow> u8 option" where
  "features_loop subs i 0 f = Some f"
| "features_loop subs i (Suc k) f = do {
     s \<leftarrow> rd subs i;
     let freq = x_freq (sub_codec s);
     features_loop subs (Suc i) k
       (if freq = CODEC_CFG_FREQ_16KHZ \<or> freq = CODEC_CFG_FREQ_24KHZ then or f FEATURE_STANDARD_QUALITY
        else if freq = CODEC_CFG_FREQ_48KHZ then or f FEATURE_HIGH_QUALITY else f) }"

definition public_broadcast_features_set :: "nat \<Rightarrow> bsrc \<Rightarrow> u8 \<Rightarrow> u8 option" where
  "public_broadcast_features_set big st features =
     (if length (create_params st) \<le> big then Some features
      else do {
        cp \<leftarrow> rd (create_params st) big;
        first \<leftarrow> rd (create_params st) 0;
        features_loop (subgroup_params st) 0 (unat (subgroup_count first))
          (if cp_encryption cp then or features FEATURE_ENCRYPTION else features) })"

text \<open>The Public Broadcast Announcement: service identifier, features, and two metadata entries.\<close>

definition pba_fill :: "bsrc_env \<Rightarrow> nat \<Rightarrow> bsrc \<Rightarrow> bytes \<Rightarrow> (bytes \<times> nat) option" where
  "pba_fill e big st pba = do {
     pba \<leftarrow> wr_range pba 0 (le16 BT_UUID_PBA_VAL);
     f \<leftarrow> rd pba 2;
     f \<leftarrow> public_broadcast_features_set big st f;
     pba \<leftarrow> wr pba 2 f;
     (m, n) \<leftarrow> metadata_u8_add (drop PBA_HEADER_SIZE pba) 0 METADATA_PARENTAL_RATING (PARENTAL_RATING e);
     (m, n) \<leftarrow> metadata_u8_add m n METADATA_AUDIO_STATE 1;
     pba \<leftarrow> wr (take PBA_HEADER_SIZE pba @ m) 3 (of_nat n);
     Some (pba, n) }"

text \<open>The name is read to its terminating zero.\<close>

definition c_strlen :: "bytes \<Rightarrow> nat option" where
  "c_strlen b = (let n = length (takeWhile (\<lambda>c. c \<noteq> 0) b) in if n < length b then Some n else None)"

text \<open>
  \<open>adv_from\<close> is the place of the advertising buffer the caller passes, with \<open>vacant\<close> free elements
  from there; \<open>rand_id\<close> is the answer of the random generator. The result code is the number of elements.
\<close>

definition broadcast_source_ext_adv_populate ::
  "bsrc_env \<Rightarrow> nat \<Rightarrow> int \<times> u32 \<Rightarrow> bool \<Rightarrow> u32 \<Rightarrow> ext_adv_data \<Rightarrow> bt_data list \<Rightarrow> nat \<Rightarrow> bsrc
   \<Rightarrow> (int \<times> ext_adv_data \<times> bt_data list \<times> bsrc) option" where
  "broadcast_source_ext_adv_populate e big rand_id fixed_id broadcast_id d adv vacant st =
     (if BIG_MAX e \<le> big then Some (- EINVAL, d, adv, st)
      else if vacant = 0 then Some (- EINVAL, d, adv, st)
      else do {
        n \<leftarrow> c_strlen (brdcst_name_buf d);
        (ret, i, adv) \<leftarrow> bt_mgmt_adv_buffer_put vacant n BT_DATA_BROADCAST_NAME (brdcst_name_buf d) 0 adv;
        if ret \<noteq> 0 then Some (ret, d, adv, st)
        else if \<not> fixed_id \<and> fst rand_id \<noteq> 0 then Some (fst rand_id, d, adv, st)
        else do {
          let broadcast_id = (if fixed_id then broadcast_id else snd rand_id);
          let st = st\<lparr>stored_broadcast_id := broadcast_id\<rparr>;
          b \<leftarrow> wr_range (brdcst_id_buf d) 0 (le16 BT_UUID_BROADCAST_AUDIO_VAL);
          b \<leftarrow> wr_range b 2 (le24 broadcast_id);
          let d = d\<lparr>brdcst_id_buf := b\<rparr>;
          (ret, i, adv) \<leftarrow> bt_mgmt_adv_buffer_put vacant (length b) BT_DATA_SVC_DATA16 b i adv;
          if ret \<noteq> 0 then Some (ret, d, adv, st)
          else do {
            b \<leftarrow> wr_range (brdcst_appearance_buf d) 0 (le16 (DEVICE_APPEARANCE e));
            let d = d\<lparr>brdcst_appearance_buf := b\<rparr>;
            (ret, i, adv) \<leftarrow> bt_mgmt_adv_buffer_put vacant (length b) BT_DATA_GAP_APPEARANCE b i adv;
            if ret \<noteq> 0 then Some (ret, d, adv, st)
            else if \<not> auracast e then Some (int i, d, adv, st)
            else do {
              (pba, n) \<leftarrow> pba_fill e big st (pba_buf d);
              let d = d\<lparr>pba_buf := pba\<rparr>;
              (ret, i, adv) \<leftarrow> bt_mgmt_adv_buffer_put vacant (PBA_HEADER_SIZE + n) BT_DATA_SVC_DATA16 pba i adv;
              if ret \<noteq> 0 then Some (ret, d, adv, st) else Some (int i, d, adv, st) } } } })"

text \<open>\<open>base\<close> is the host's answer: its code and the encoded BASE.\<close>

definition broadcast_source_per_adv_populate ::
  "bsrc_env \<Rightarrow> nat \<Rightarrow> int \<times> bytes \<Rightarrow> bt_data list \<Rightarrow> nat \<Rightarrow> (int \<times> bt_data list) option" where
  "broadcast_source_per_adv_populate e big base adv vacant =
     (if BIG_MAX e \<le> big then Some (- EINVAL, adv)
      else if vacant = 0 then Some (- EINVAL, adv)
      else if fst base \<noteq> 0 then Some (fst base, adv)
      else do {
        (ret, i, adv) \<leftarrow> bt_mgmt_adv_buffer_put vacant (length (snd base)) BT_DATA_SVC_DATA16 (snd base) 0 adv;
        if ret \<noteq> 0 then Some (ret, adv) else Some (int i, adv) })"

section \<open>Creating a source\<close>

text \<open>What the host answers when a source is enabled; \<open>en_create\<close> is its code and the handle.\<close>

record enable_answers =
  en_register_cb :: int
  en_set_allocation :: "nat \<Rightarrow> int"
  en_set_context :: "nat \<Rightarrow> int"
  en_create :: "int \<times> nat"

definition bt_audio_codec_allocation_set :: "nat \<Rightarrow> u32 \<Rightarrow> bytes" where
  "bt_audio_codec_allocation_set data_len loc = [of_nat (data_len - 1), CODEC_CFG_CHAN_ALLOC] @ le32 loc"

text \<open>The total is counted in an octet.\<close>

fun count_bises :: "subgroup_config list \<Rightarrow> nat \<Rightarrow> nat \<Rightarrow> u8 \<Rightarrow> u8 option" where
  "count_bises sgs i 0 nbis = Some nbis"
| "count_bises sgs i (Suc k) nbis = do { sg \<leftarrow> rd sgs i; count_bises sgs (Suc i) k (nbis + num_bises sg) }"

text \<open>The parameters of a subgroup's streams go to the rows, of two, of a static array.\<close>

fun bis_loop :: "nat \<Rightarrow> nat \<Rightarrow> u32 list \<Rightarrow> nat \<Rightarrow> nat \<Rightarrow> u32 \<Rightarrow> (stream_param list \<times> u32) option" where
  "bis_loop big i locs j 0 acc = Some ([], acc)"
| "bis_loop big i locs j (Suc k) acc = do {
     assert_ok (j < 2);
     loc \<leftarrow> rd locs j;
     (ps, acc) \<leftarrow> bis_loop big i locs (Suc j) k (or acc loc);
     Some (\<lparr>sp_stream = (big, i, j), sp_data = bt_audio_codec_allocation_set LTV_CHAN_ALLOC_SIZE loc\<rparr> # ps, acc) }"

fun subgroup_loop ::
  "nat \<Rightarrow> enable_answers \<Rightarrow> subgroup_config list \<Rightarrow> nat \<Rightarrow> nat \<Rightarrow> subgroup_param list
   \<Rightarrow> (int \<times> subgroup_param list) option" where
  "subgroup_loop big a sgs i 0 subs = Some (0, subs)"
| "subgroup_loop big a sgs i (Suc k) subs = do {
     sg \<leftarrow> rd sgs i;
     (ps, loc) \<leftarrow> bis_loop big i (location sg) 0 (unat (num_bises sg)) 0;
     subs \<leftarrow> wr subs i \<lparr>stream_count = num_bises sg, stream_params = ps, sub_codec = group_codec sg\<rparr>;
     if en_set_allocation a i < 0 then Some (- EINVAL, subs)
     else do {
       subs \<leftarrow> wr subs i \<lparr>stream_count = num_bises sg, stream_params = ps,
                sub_codec = (group_codec sg)\<lparr>x_chan_allocation := (0, loc)\<rparr>\<rparr>;
       if en_set_context a i < 0 then Some (- EINVAL, subs)
       else subgroup_loop big a sgs (Suc i) k subs } }"

definition create_param_produce ::
  "bsrc_env \<Rightarrow> nat \<Rightarrow> enable_answers \<Rightarrow> broadcast_source_big \<Rightarrow> bsrc \<Rightarrow> (int \<times> bsrc) option" where
  "create_param_produce e big a p st =
     (if BIG_MAX e \<le> big then Some (- EINVAL, st)
      else if SUBGROUP_COUNT e < unat (num_subgroups p) then Some (- EINVAL, st)
      else do {
        nbis \<leftarrow> count_bises (subgroups p) 0 (unat (num_subgroups p)) 0;
        if STREAM_COUNT e < unat nbis then Some (- EINVAL, st)
        else do {
          let st = st\<lparr>cap_streams := (cap_streams st)(big := \<lambda>j k. no_stream e)\<rparr>;
          (ret, subs) \<leftarrow> subgroup_loop big a (subgroups p) 0 (unat (num_subgroups p)) (subgroup_params st);
          let st = st\<lparr>subgroup_params := subs\<rparr>;
          if ret \<noteq> 0 then Some (ret, st)
          else do {
            old \<leftarrow> rd (create_params st) big;
            sg \<leftarrow> rd (subgroups p) 0;
            cps \<leftarrow> wr (create_params st) big \<lparr>subgroup_count = num_subgroups p,
               cp_qos_interval = group_qos_interval sg, cp_packing_interleaved = packing_interleaved p,
               cp_encryption = encryption p,
               cp_broadcast_code = (if encryption p then broadcast_code p else cp_broadcast_code old)\<rparr>;
            Some (0, st\<lparr>create_params := cps\<rparr>) } } })"

text \<open>The callbacks are registered for the streams that the parameters point to.\<close>

definition streams_of :: "subgroup_param \<Rightarrow> (nat \<times> nat \<times> nat) list option" where
  "streams_of s = map_option (map sp_stream) (rd_range (stream_params s) 0 (unat (stream_count s)))"

fun register_loop :: "subgroup_param list \<Rightarrow> nat \<Rightarrow> nat \<Rightarrow> (nat \<times> nat \<times> nat) list option" where
  "register_loop subs j 0 = Some []"
| "register_loop subs j (Suc k) = do {
     s \<leftarrow> rd subs j;
     xs \<leftarrow> streams_of s;
     ys \<leftarrow> register_loop subs (Suc j) k;
     Some (xs @ ys) }"

definition broadcast_source_enable ::
  "bsrc_env \<Rightarrow> enable_answers \<Rightarrow> broadcast_source_big \<Rightarrow> nat \<Rightarrow> bsrc \<Rightarrow> (int \<times> bsrc) option" where
  "broadcast_source_enable e a p big st =
     (if BIG_MAX e \<le> big then Some (- EINVAL, st)
      else
        let st = (if bs_initialized st then st else st\<lparr>bs_tx := bt_le_audio_tx_init (bs_tx st)\<rparr>)
        in if en_register_cb a \<noteq> 0 \<and> en_register_cb a \<noteq> - EALREADY then Some (en_register_cb a, st)
        else do {
          (ret, st) \<leftarrow> create_param_produce e big a p st;
          if ret \<noteq> 0 then Some (ret, st)
          else do {
            cp \<leftarrow> rd (create_params st) big;
            ops \<leftarrow> register_loop (subgroup_params st) 0 (unat (subgroup_count cp));
            let st = st\<lparr>stream_ops := stream_ops st @ ops\<rparr>;
            if fst (en_create a) \<noteq> 0 then Some (fst (en_create a), st)
            else do {
              srcs \<leftarrow> wr (broadcast_sources st) big (Some (snd (en_create a)));
              Some (0, st\<lparr>broadcast_sources := srcs, bs_initialized := True,
                          host_calls := host_calls st @ [Host_create big]\<rparr>) } } })"

text \<open>
  The default: one group of one subgroup with a left and a right stream. The metadata of the codec
  configuration (language, immediate rendering) is not part of the model. The key and the
  name are C strings: their terminating zero is copied if there is room for it.
\<close>

definition broadcast_source_default_create :: "bsrc_env \<Rightarrow> broadcast_source_big \<Rightarrow> broadcast_source_big option" where
  "broadcast_source_default_create e p = do {
     let sg = \<lparr>location = [BT_AUDIO_LOCATION_FRONT_LEFT, BT_AUDIO_LOCATION_FRONT_RIGHT], num_bises = 2,
               context_type = 4, group_codec = preset_codec e, group_qos_interval = preset_qos_interval e\<rparr>;
     let code = (if cfg_encrypted e
                 then take 16 (ENCRYPTION_KEY e @ replicate 16 0) else broadcast_code p);
     name \<leftarrow> wr_range (broadcast_name p) 0 (BROADCAST_NAME e @ [0]);
     Some (p\<lparr>subgroups := [sg], num_subgroups := 1, packing_interleaved := cfg_interleaved e,
             encryption := cfg_encrypted e, broadcast_code := code, broadcast_name := name\<rparr>) }"

section \<open>Running a source\<close>

definition broadcast_source_is_streaming :: "bsrc_env \<Rightarrow> nat \<Rightarrow> bsrc \<Rightarrow> bool option" where
  "broadcast_source_is_streaming e big st =
     (if BIG_MAX e \<le> big then Some False
      else do {
        src \<leftarrow> rd (broadcast_sources st) big;
        Some (if src = None then False else is_streaming_at st big 0 0) })"

definition broadcast_source_start :: "bsrc_env \<Rightarrow> int \<Rightarrow> nat \<Rightarrow> nat option \<Rightarrow> bsrc \<Rightarrow> int \<times> bsrc" where
  "broadcast_source_start e ans big adv st = (case adv of
     None \<Rightarrow> (- EINVAL, st)
   | Some ad \<Rightarrow>
       if BIG_MAX e \<le> big then (- EINVAL, st)
       else if stream_ep (cap_streams st big 0 0) = None then (- ECANCELED, st)
       else if is_streaming_at st big 0 0 then (- EALREADY, st)
       else if ans \<noteq> 0 then (ans, st)
       else (0, st\<lparr>host_calls := host_calls st @ [Host_start big ad]\<rparr>))"

definition broadcast_source_stop :: "bsrc_env \<Rightarrow> int \<Rightarrow> nat \<Rightarrow> bsrc \<Rightarrow> int \<times> bsrc" where
  "broadcast_source_stop e ans big st =
     (if BIG_MAX e \<le> big then (- EINVAL, st)
      else if stream_ep (cap_streams st big 0 0) = None then (- ECANCELED, st)
      else if is_streaming_at st big 0 0 then
        if ans \<noteq> 0 then (ans, st) else (0, st\<lparr>host_calls := host_calls st @ [Host_stop big]\<rparr>)
      else (- EINVAL, st))"

definition broadcast_source_id_get :: "bsrc_env \<Rightarrow> nat \<Rightarrow> u32 option \<Rightarrow> bsrc \<Rightarrow> (int \<times> u32 option) option" where
  "broadcast_source_id_get e big broadcast_id st =
     (if BIG_MAX e \<le> big then Some (- EINVAL, broadcast_id)
      else do {
        src \<leftarrow> rd (broadcast_sources st) big;
        Some (if src = None \<or> broadcast_id = None then (- EINVAL, broadcast_id)
              else (0, Some (stored_broadcast_id st))) })"

text \<open>
  The streaming streams of the subgroup, the channel of each being its number; they go to an array of
  \<open>TX_INFO_MAX\<close> entries. \<open>ans k\<close> is what the host answers for stream \<open>k\<close>.
\<close>

fun collect_tx ::
  "bsrc_env \<Rightarrow> (nat \<Rightarrow> iso_answers) \<Rightarrow> nat \<Rightarrow> nat \<Rightarrow> nat \<Rightarrow> nat \<Rightarrow> (le_audio_tx_info \<times> iso_answers) list \<Rightarrow> bsrc
   \<Rightarrow> (le_audio_tx_info \<times> iso_answers) list option" where
  "collect_tx e ans big sub i 0 tx st = Some tx"
| "collect_tx e ans big sub i (Suc k) tx st =
     (if \<not> is_streaming_at st big sub i then collect_tx e ans big sub (Suc i) k tx st
      else do {
        assert_ok (length tx < TX_INFO_MAX e);
        collect_tx e ans big sub (Suc i) k
          (tx @ [(\<lparr>tx_idx = \<lparr>lvl1 = of_nat big, lvl2 = of_nat sub, lvl3 = of_nat i\<rparr>,
                   cap_stream = cap_streams st big sub i, audio_channel = of_nat i\<rparr>, ans i)]) st })"

definition broadcast_source_send ::
  "bsrc_env \<Rightarrow> (nat \<Rightarrow> iso_answers) \<Rightarrow> net_buf \<Rightarrow> nat \<Rightarrow> nat \<Rightarrow> bsrc \<Rightarrow> (int \<times> sdu_ref_msg option \<times> bsrc) option" where
  "broadcast_source_send e ans frame big sub st =
     (if BIG_MAX e \<le> big then Some (- EINVAL, None, st)
      else do {
        assert_ok (sub < SUBGROUP_COUNT e);
        tx \<leftarrow> collect_tx e ans big sub 0 (STREAM_COUNT e) [] st;
        if tx = [] then Some (- ECANCELED, None, st)
        else do {
          (ret, m, t) \<leftarrow> bt_le_audio_tx_send (b_tx e) frame (Some tx) (bs_tx st);
          Some (ret, m, st\<lparr>bs_tx := t\<rparr>) } })"

text \<open>A streaming source is deleted later, by the callback of its last stream that stops.\<close>

definition broadcast_source_disable :: "bsrc_env \<Rightarrow> int \<Rightarrow> nat \<Rightarrow> bsrc \<Rightarrow> (int \<times> bsrc) option" where
  "broadcast_source_disable e ans big st =
     (if BIG_MAX e \<le> big then Some (- EINVAL, st)
      else do {
        src \<leftarrow> rd (broadcast_sources st) big;
        if is_streaming_at st big 0 0 then do {
          d \<leftarrow> wr (delete_broadcast_src st) big True;
          let st = st\<lparr>delete_broadcast_src := d\<rparr>;
          if ans \<noteq> 0 then Some (ans, st)
          else Some (0, st\<lparr>host_calls := host_calls st @ [Host_stop big], bs_initialized := False\<rparr>) }
        else if src \<noteq> None then
          if ans \<noteq> 0 then Some (ans, st)
          else do {
            srcs \<leftarrow> wr (broadcast_sources st) big None;
            Some (0, st\<lparr>host_calls := host_calls st @ [Host_delete big], broadcast_sources := srcs,
                        bs_initialized := False\<rparr>) }
        else Some (0, st\<lparr>bs_initialized := False\<rparr>) })"

end
