(* ===== verification/BroadcastMain.thy ===== *)
theory BroadcastMain
  imports BroadcastSource PaFirmware
begin

text \<open>
  The broadcast source application \<open>broadcast_source/main.c\<close>: it wires the PA service, the broadcast
  source and the audio system, and follows the events of the streams, the buttons and the advertiser.
  The state of the application is made of the states of its parts; its threads and callbacks are the events of
  \<open>app_step\<close>, each atomic. \<open>None\<close> is undefined behaviour or a tripped \<open>ERR_CHK\<close>.
\<close>

section \<open>State\<close>

datatype stream_state = STATE_STREAMING | STATE_PAUSED

record 'x app_env =
  p_src :: bsrc_env
  p_sys :: "'x sys_env"
  EXT_ADV_BUF_MAX :: nat
  adv_name :: bytes
  MANUFACTURER_ID :: u16
  id_fixed :: bool
  id_value :: u32
  pref_sample_rate_hz :: u32
  BITRATE_BROADCAST_SRC :: u32
  p_uart_ready :: bool

text \<open>What the parts that are not modelled answer while the application starts.\<close>

record main_answers =
  a_peripherals :: int
  a_fw_info :: int
  a_bt_mgmt :: int
  a_button :: int
  a_zbus_sub :: int
  a_zbus_link :: int
  a_enable :: enable_answers
  a_rand :: "int \<times> u32"
  a_base :: "int \<times> bytes"
  a_adv_start :: int

record 'x app =
  m_src :: bsrc
  m_sys :: "'x audio_system"
  m_fw :: fw
  strm_state :: stream_state
  m_ext_adv :: "nat option"
  test_count :: u8

definition stream_state_get :: "'x app \<Rightarrow> stream_state" where
  "stream_state_get st = strm_state st"

section \<open>LEDs\<close>

text \<open>The LED port, on the LED module that the audio datapath uses too; its result is not looked at.\<close>

definition with_leds :: "(led_state \<Rightarrow> (int \<times> led_state) option) \<Rightarrow> 'x audio_system \<Rightarrow> 'x audio_system option" where
  "with_leds f sys = do {
     (ret, l) \<leftarrow> f (leds (sys_dp sys));
     Some (sys\<lparr>sys_dp := (sys_dp sys)\<lparr>leds := l\<rparr>\<rparr>) }"

section \<open>Buttons\<close>

fun dec_digits :: "nat \<Rightarrow> bytes" where
  "dec_digits n = (if n < 10 then [of_nat (48 + n)] else dec_digits (n div 10) @ [of_nat (48 + n mod 10)])"

text \<open>
  \<open>snprintf\<close> with the format \<open>TEST%u\<close> into eight bytes: the text that fits, a zero, and what was there
  before; the length it returns is that of the whole text.
\<close>

definition test_data :: "u8 \<Rightarrow> bytes \<times> nat" where
  "test_data n = (let t = [0x54, 0x45, 0x53, 0x54] @ dec_digits (unat n)
                  in (take 8 (take 7 t @ replicate 8 0), length t))"

text \<open>
  \<open>ans\<close> is the host's answer to starting or stopping; \<open>verdict\<close> the stack's to advertising data. The
  test data go directly to the advertising port, as the event \<open>Button_data\<close> of the PA firmware.
\<close>

definition button_event_handler ::
  "'x app_env \<Rightarrow> int \<Rightarrow> (nat \<Rightarrow> bt_data list \<Rightarrow> int) \<Rightarrow> pa_button_id \<Rightarrow> 'x app \<Rightarrow> 'x app option" where
  "button_event_handler e ans verdict button st =
     (if button = PA_BUTTON_PLAY_PAUSE \<or> button = PA_BUTTON_VOLUME_DOWN then
        (if strm_state st = STATE_STREAMING
         then Some (st\<lparr>m_src := snd (broadcast_source_stop (p_src e) ans 0 (m_src st))\<rparr>)
         else Some (st\<lparr>m_src := snd (broadcast_source_start (p_src e) ans 0 (m_ext_adv st) (m_src st))\<rparr>))
      else if button = PA_BUTTON_ACTION then
        (if ble_adapter_is_ready (z_ble (world (m_fw st))) then do {
           let (d, len) = test_data (test_count st);
           d \<leftarrow> rd_range d 0 len;
           f \<leftarrow> fw_step (Button_data verdict d) (m_fw st);
           Some (st\<lparr>m_fw := f, test_count := test_count st + 1\<rparr>) }
         else Some st)
      else if button = PA_BUTTON_VOLUME_UP then
        (if audio_test_tone (s_dp (p_sys e)) \<and> strm_state st = STATE_STREAMING then do {
           (ret, sys) \<leftarrow> audio_system_encode_test_tone_step (p_sys e) (m_sys st);
           Some (st\<lparr>m_sys := sys\<rparr>) }
         else Some st)
      else Some st)"

section \<open>Events of the streams and of the advertiser\<close>

definition on_streaming :: "'x app_env \<Rightarrow> 'x app \<Rightarrow> 'x app option" where
  "on_streaming e st =
     (let st = st\<lparr>m_sys := audio_system_encoder_start (m_sys st)\<rparr>
      in if strm_state st = STATE_STREAMING then Some st
      else do {
        sys \<leftarrow> audio_system_start (p_sys e) (m_sys st);
        let st = st\<lparr>m_sys := sys, strm_state := STATE_STREAMING\<rparr>;
        sys \<leftarrow> with_leds (adapter_led_blink (e_gpio (s_dp (p_sys e))) (e_board (s_dp (p_sys e))) PA_LED_CONN_STATUS) (m_sys st);
        Some (st\<lparr>m_sys := sys\<rparr>) })"

definition on_not_streaming :: "'x app_env \<Rightarrow> 'x app \<Rightarrow> 'x app option" where
  "on_not_streaming e st =
     (let st = st\<lparr>m_sys := audio_system_encoder_stop (m_sys st)\<rparr>
      in if strm_state st = STATE_PAUSED then Some st
      else do {
        let st = st\<lparr>strm_state := STATE_PAUSED\<rparr>;
        sys \<leftarrow> audio_system_stop (p_sys e) (m_sys st);
        sys \<leftarrow> with_leds (adapter_led_on (e_gpio (s_dp (p_sys e))) (e_board (s_dp (p_sys e))) PA_LED_CONN_STATUS) sys;
        Some (st\<lparr>m_sys := sys\<rparr>) })"

text \<open>One iteration of the thread, with the next message of its queue; with none it waits.\<close>

definition le_audio_msg_sub_thread :: "'x app_env \<Rightarrow> 'x app \<Rightarrow> 'x app option" where
  "le_audio_msg_sub_thread e st = (case le_audio_chan (m_src st) of
     [] \<Rightarrow> Some st
   | msg # msgs \<Rightarrow>
       (let st = st\<lparr>m_src := (m_src st)\<lparr>le_audio_chan := msgs\<rparr>\<rparr>
        in if msg_event msg = LE_AUDIO_EVT_STREAMING then on_streaming e st
           else if msg_event msg = LE_AUDIO_EVT_NOT_STREAMING then on_not_streaming e st
           else Some st))"

text \<open>The event \<open>BT_MGMT_EXT_ADV_WITH_PA_READY\<close>, with the group index and the advertising set.\<close>

definition bt_mgmt_evt_handler :: "'x app_env \<Rightarrow> int \<Rightarrow> nat \<Rightarrow> nat \<Rightarrow> 'x app \<Rightarrow> 'x app option" where
  "bt_mgmt_evt_handler e ans index adv st = do {
     f \<leftarrow> fw_step (Ext_adv_ready adv) (m_fw st);
     Some (st\<lparr>m_ext_adv := Some adv, m_fw := f,
              m_src := snd (broadcast_source_start (p_src e) ans index (Some adv) (m_src st))\<rparr>) }"

text \<open>A frame from the encoder; the listener of the published time reference runs at once.\<close>

definition streamctrl_send :: "'x app_env \<Rightarrow> (nat \<Rightarrow> iso_answers) \<Rightarrow> net_buf \<Rightarrow> 'x app \<Rightarrow> 'x app option" where
  "streamctrl_send e ans frame st =
     (if strm_state st = STATE_STREAMING then do {
        (ret, m, src) \<leftarrow> broadcast_source_send (p_src e) ans frame 0 0 (m_src st);
        let st = st\<lparr>m_src := src\<rparr>;
        Some (case m of
            None \<Rightarrow> st
          | Some msg \<Rightarrow> st\<lparr>m_sys := (m_sys st)\<lparr>sys_dp :=
                            audio_datapath_sdu_ref_update (s_dp (p_sys e)) msg (sys_dp (m_sys st))\<rparr>\<rparr>) }
      else Some st)"

section \<open>Starting\<close>

text \<open>
  The identifiers go to the first element, the rest is the broadcast source's. \<open>uuid_max\<close> is the size of
  the identifier buffer.
\<close>

definition ext_adv_populate ::
  "'x app_env \<Rightarrow> nat \<Rightarrow> int \<times> u32 \<Rightarrow> nat \<Rightarrow> bytes \<Rightarrow> ext_adv_data \<Rightarrow> bt_data list \<Rightarrow> bsrc
   \<Rightarrow> (int \<times> bt_data list \<times> nat \<times> bsrc) option" where
  "ext_adv_populate e big rand_id uuid_max uuid_buf d adv st =
     (if length (brdcst_name_buf d) < length (adv_name e) + 1 then Some (- EINVAL, adv, 0, st)
      else do {
        nm \<leftarrow> wr_range (brdcst_name_buf d) 0 (adv_name e);
        let (ret, uuid_buf) = bt_mgmt_manufacturer_uuid_populate uuid_max (MANUFACTURER_ID e) uuid_buf;
        if ret \<noteq> 0 then Some (ret, adv, 0, st)
        else do {
          (ret, d, sub, st) \<leftarrow> broadcast_source_ext_adv_populate (p_src e) big rand_id (id_fixed e)
             (if id_fixed e then id_value e else 0) (d\<lparr>brdcst_name_buf := nm\<rparr>) (drop 1 adv) (length adv - 1) st;
          if ret < 0 then Some (ret, adv, 0, st)
          else do {
            adv \<leftarrow> wr (take 1 adv @ sub) 0
               \<lparr>ad_type = BT_DATA_UUID16_ALL, ad_len = of_nat (length uuid_buf), ad_data = uuid_buf\<rparr>;
            Some (0, adv, 1 + nat ret, st) } } })"

definition per_adv_populate ::
  "'x app_env \<Rightarrow> nat \<Rightarrow> int \<times> bytes \<Rightarrow> bt_data list \<Rightarrow> nat \<Rightarrow> (int \<times> bt_data list \<times> nat) option" where
  "per_adv_populate e big base adv room = do {
     (ret, adv) \<leftarrow> broadcast_source_per_adv_populate (p_src e) big base adv room;
     if ret < 0 then Some (ret, adv, 0) else Some (0, adv, nat ret) }"

text \<open>
  The adapters and the service are created and initialised by \<open>fw_init\<close>, with the BASE element registered;
  \<open>bt\<close> is the advertising data of the stack before. The parameters and buffers of \<open>main\<close> start as zeros.
\<close>

definition main_init :: "'x app_env \<Rightarrow> main_answers \<Rightarrow> bt_stack \<Rightarrow> 'x app \<Rightarrow> 'x app option" where
  "main_init e a bt st = do {
     err_chk (a_peripherals a);
     err_chk (a_fw_info a);
     err_chk (a_bt_mgmt a);
     (ret, sys) \<leftarrow> audio_system_init (p_sys e) (m_sys st);
     err_chk ret;
     err_chk (fst (uart_adapter_init (p_uart_ready e) zephyr_uart_adapter_create Pa_service_on_command));
     err_chk (a_button a);
     err_chk (a_zbus_sub a);
     err_chk (a_zbus_link a);
     p \<leftarrow> broadcast_source_default_create (p_src e)
       \<lparr>subgroups = [], num_subgroups = 0, packing_interleaved = False, encryption = False,
        broadcast_code = replicate 16 0, broadcast_name = replicate 33 0\<rparr>;
     (ret, src) \<leftarrow> broadcast_source_enable (p_src e) (a_enable a) p 0 (m_src st);
     err_chk ret;
     let (ret, sys) = audio_system_config_set (pref_sample_rate_hz e) (BITRATE_BROADCAST_SRC e) 0 sys;
     err_chk ret;
     (ret, ext, n, src) \<leftarrow> ext_adv_populate e 0 (a_rand a) 128 []
       \<lparr>brdcst_id_buf = replicate 5 0, brdcst_appearance_buf = replicate 2 0, brdcst_name_buf = replicate 32 0,
        pba_buf = replicate 20 0\<rparr>
       (replicate (EXT_ADV_BUF_MAX e) \<lparr>ad_type = 0, ad_len = 0, ad_data = []\<rparr>) src;
     err_chk ret;
     (ret, per, cnt) \<leftarrow> per_adv_populate e 0 (a_base a) (replicate 1 \<lparr>ad_type = 0, ad_len = 0, ad_data = []\<rparr>) 1;
     err_chk ret;
     base \<leftarrow> rd per 0;
     err_chk (a_adv_start a);
     Some (st\<lparr>m_src := src, m_sys := sys, m_fw := fw_init base cnt (ad_len base + 2) 0 bt\<rparr>) }"

section \<open>The application as events\<close>

text \<open>
  \<open>App_host\<close> is the host changing a stream's endpoint; \<open>App_pa\<close> an event of the PA firmware, \<open>App_dp\<close>
  one of the audio datapath.
\<close>

datatype app_event =
  App_msg
| App_button int "nat \<Rightarrow> bt_data list \<Rightarrow> int" pa_button_id
| App_adv_ready int nat nat
| App_sent int "(nat \<times> nat \<times> nat) option"
| App_started int "(nat \<times> nat \<times> nat) option"
| App_stopped int int "(nat \<times> nat \<times> nat) option"
| App_host nat nat nat bap_stream
| App_frame "nat \<Rightarrow> iso_answers" net_buf
| App_pa event
| App_dp dp_event

definition app_step :: "'x app_env \<Rightarrow> app_event \<Rightarrow> 'x app \<Rightarrow> 'x app option" where
  "app_step e ev st = (case ev of
     App_msg \<Rightarrow> le_audio_msg_sub_thread e st
   | App_button ans verdict b \<Rightarrow> button_event_handler e ans verdict b st
   | App_adv_ready ans i adv \<Rightarrow> bt_mgmt_evt_handler e ans i adv st
   | App_sent pub p \<Rightarrow> map_option (\<lambda>s. st\<lparr>m_src := s\<rparr>) (stream_sent_cb (p_src e) pub p (m_src st))
   | App_started pub p \<Rightarrow> map_option (\<lambda>s. st\<lparr>m_src := s\<rparr>) (stream_started_cb (p_src e) pub p (m_src st))
   | App_stopped pub del p \<Rightarrow> map_option (\<lambda>s. st\<lparr>m_src := s\<rparr>) (stream_stopped_cb (p_src e) pub del p (m_src st))
   | App_host i j k s \<Rightarrow> Some (st\<lparr>m_src := (m_src st)\<lparr>cap_streams := (cap_streams (m_src st))(i :=
                           (cap_streams (m_src st) i)(j := (cap_streams (m_src st) i j)(k := s)))\<rparr>\<rparr>)
   | App_frame ans f \<Rightarrow> streamctrl_send e ans f st
   | App_pa pev \<Rightarrow> map_option (\<lambda>f. st\<lparr>m_fw := f\<rparr>) (fw_step pev (m_fw st))
   | App_dp dev \<Rightarrow> map_option (\<lambda>s. st\<lparr>m_sys := s\<rparr>) (sys_step (p_sys e) (Sys_dp dev) (m_sys st)))"

fun app_run :: "'x app_env \<Rightarrow> app_event list \<Rightarrow> 'x app \<Rightarrow> 'x app option" where
  "app_run e [] st = Some st"
| "app_run e (ev # evs) st = do { st \<leftarrow> app_step e ev st; app_run e evs st }"

end
