(* ===== verification/BroadcastSafety.thy ===== *)
theory BroadcastSafety
  imports BroadcastMain
begin

text \<open>
  The broadcast source application as a whole: an invariant that joins those of its parts, kept by every
  event, and the properties that follow.
\<close>

section \<open>The LED port and the audio datapath share the LED module\<close>

lemma led_set_other:
  assumes "gpio_works drv" and "led_inv gs s" and "u < length gs" and "led_set drv u c b s = Some (r, s')"
    and "v \<noteq> u" and "displays s v d"
  shows "displays s' v d"
proof (cases "led_initialized s \<and> u \<noteq> 255")
  case True
  note units = led_inv_units [OF assms(2)]
  have u: "u < length (led_units s)" "num_gpios (led_units s ! u) = 1 \<or> num_gpios (led_units s ! u) = 3"
    using assms(3) units by auto
  obtain l where l: "led_set_int drv u c s = Some (0, s\<lparr>led_log := l\<rparr>)"
      "\<And>u' i. u' \<noteq> u \<Longrightarrow> pin_level l u' i = pin_level (led_log s) u' i"
    by (rule led_set_int_ok [OF assms(1) u(1) _ u(2), of c]) (use True in auto)
  have "led_units s' = (led_units s)[u := (led_units s ! u)\<lparr>cfg_blink := b, cfg_color := c\<rparr>]" "led_log s' = l"
    using assms(4) True l(1) u(1) by (auto simp: led_set_def mem_simps)
  then show ?thesis
    using assms(5,6) l(2) by (simp add: displays_def)
next
  case False
  then show ?thesis using assms(4,6) by (auto simp: led_set_def split: if_splits)
qed

definition conn_call :: "'x app_env \<Rightarrow> (led_state \<Rightarrow> (int \<times> led_state) option) \<Rightarrow> bool" where
  "conn_call e f \<longleftrightarrow> (\<exists>b. \<forall>s. led_inv (board_gpios (e_board (s_dp (p_sys e)))) s \<longrightarrow>
     f s = led_set (e_gpio (s_dp (p_sys e))) (led_audio_conn_status (e_board (s_dp (p_sys e)))) 7 b s)"

lemma conn_call_ok:
  assumes "e_board (s_dp (p_sys e)) = audio_dk_leds \<or> e_board (s_dp (p_sys e)) = nrf5340dk_leds"
  shows "conn_call e (adapter_led_on (e_gpio (s_dp (p_sys e))) (e_board (s_dp (p_sys e))) PA_LED_CONN_STATUS)"
    and "conn_call e (adapter_led_blink (e_gpio (s_dp (p_sys e))) (e_board (s_dp (p_sys e))) PA_LED_CONN_STATUS)"
proof -
  let ?b = "e_board (s_dp (p_sys e))" and ?g = "e_gpio (s_dp (p_sys e))"
  let ?u = "led_audio_conn_status ?b"
  have u: "?u < length (board_gpios ?b)" "board_gpios ?b ! ?u = 1" "?u \<noteq> 255"
    using assms by (auto simp: audio_dk_leds_def nrf5340dk_leds_def)
  have "led_colored ?g ?u [] bl s = led_set ?g ?u LED_ON bl s" if "led_inv (board_gpios ?b) s" for bl s
    using u led_inv_units [OF that] by (simp add: led_colored_def mem_simps)
  then show "conn_call e (adapter_led_on ?g ?b PA_LED_CONN_STATUS)" "conn_call e (adapter_led_blink ?g ?b PA_LED_CONN_STATUS)"
    by (auto simp: conn_call_def adapter_led_on_def adapter_led_blink_def led_on_def led_blink_def)
qed

lemma with_leds_inv:
  assumes "sys_inv (p_sys e) sys" and "conn_call e f"
  shows "\<exists>sys'. with_leds f sys = Some sys' \<and> sys_inv (p_sys e) sys' \<and> sys_running sys' = sys_running sys"
proof -
  let ?d = "s_dp (p_sys e)"
  let ?b = "e_board ?d"
  let ?u = "led_audio_conn_status ?b" and ?v = "led_audio_sync_status ?b"
  have dp: "dp_inv ?d (sys_dp sys)" using assms(1) by (simp add: sys_inv_def)
  have ok: "gpio_works (e_gpio ?d)" "led_inv (board_gpios ?b) (leds (sys_dp sys))" "led_initialized (leds (sys_dp sys))"
      "?b = audio_dk_leds \<or> ?b = nrf5340dk_leds"
    using dp by (simp_all add: dp_inv_def led_ok_def)
  have u: "?u < length (board_gpios ?b)" "?u \<noteq> 255" "?v \<noteq> ?u"
    using ok(4) by (auto simp: audio_dk_leds_def nrf5340dk_leds_def)
  obtain bl where f: "f (leds (sys_dp sys)) = led_set (e_gpio ?d) ?u 7 bl (leds (sys_dp sys))"
    using assms(2) ok(2) by (auto simp: conn_call_def)
  obtain r l where l: "led_set (e_gpio ?d) ?u 7 bl (leds (sys_dp sys)) = Some (r, l)" "led_inv (board_gpios ?b) l"
      "led_initialized l"
    by (rule led_set_ok [OF ok(1,2), of ?u 7 bl]) (use u ok(3) in auto)
  let ?s = "(sys_dp sys)\<lparr>leds := l\<rparr>"
  have "sync_shown ?d ?s"
    using dp led_set_other [OF ok(1,2) u(1) l(1) u(3)] by (auto simp: dp_inv_def sync_shown_def)
  then have "dp_inv ?d ?s"
    using dp l ok i2s_inv_cong [of ?s "sys_dp sys" ?d] by (simp add: dp_inv_def led_ok_def wf_fifo_def)
  then show ?thesis
    using assms(1) f l(1) by (auto simp: with_leds_def sys_inv_def sys_running_def)
qed

section \<open>Invariant\<close>

definition app_wf :: "'x app_env \<Rightarrow> bool" where
  "app_wf e \<longleftrightarrow> sys_externals_ok (p_sys e)
     \<and> 0 < BIG_MAX (p_src e) \<and> BIG_MAX (p_src e) \<le> GROUP_MAX (b_tx (p_src e)) \<and> BIG_MAX (p_src e) \<le> 256
     \<and> 0 < SUBGROUP_COUNT (p_src e) \<and> SUBGROUP_COUNT (p_src e) \<le> SUBGROUP_MAX (b_tx (p_src e))
     \<and> SUBGROUP_COUNT (p_src e) \<le> 256
     \<and> STREAM_COUNT (p_src e) \<le> STREAMS_MAX (b_tx (p_src e)) \<and> STREAM_COUNT (p_src e) \<le> 256
     \<and> STREAM_COUNT (p_src e) \<le> TX_INFO_MAX (p_src e)"

definition src_inv :: "bsrc_env \<Rightarrow> bsrc \<Rightarrow> bool" where
  "src_inv e st \<longleftrightarrow> tx_initialized (bs_tx st)
     \<and> length (broadcast_sources st) = BIG_MAX e \<and> length (delete_broadcast_src st) = BIG_MAX e
     \<and> (\<forall>i j k. is_streaming_at st i j k \<longrightarrow> codec_readable (t_le (b_tx e)) (stream_codec (cap_streams st i j k)))"

definition app_inv :: "'x app_env \<Rightarrow> 'x app \<Rightarrow> bool" where
  "app_inv e st \<longleftrightarrow> src_inv (p_src e) (m_src st) \<and> sys_inv (p_sys e) (m_sys st) \<and> fw_inv (m_fw st)
     \<and> (strm_state st = STATE_STREAMING \<longleftrightarrow> sys_running (m_sys st))"

text \<open>
  What the environment has to respect: the callbacks' publications succeed, an endpoint has a readable
  configuration, a frame has a part for each stream (or one for all) that fits an SDU, the tone
  generator succeeds, and the events of the parts keep their own conditions. The source receives no
  frames.
\<close>

definition app_ev_ok :: "'x app_env \<Rightarrow> app_event \<Rightarrow> 'x app \<Rightarrow> bool" where
  "app_ev_ok e ev st = (case ev of
     App_msg \<Rightarrow> True
   | App_button ans verdict b \<Rightarrow> sys_ev_ok (p_sys e) Sys_tone (m_sys st)
   | App_adv_ready ans i adv \<Rightarrow> True
   | App_sent pub p \<Rightarrow> pub = 0
   | App_started pub p \<Rightarrow> pub = 0
   | App_stopped pub del p \<Rightarrow> pub = 0
   | App_host i j k s \<Rightarrow> codec_readable (t_le (b_tx (p_src e))) (stream_codec s)
   | App_frame ans f \<Rightarrow>
       (let n = unat (x_meta_num_ch (t_le (b_tx (p_src e))) (locations (buf_meta f)))
        in (STREAM_COUNT (p_src e) \<le> n \<or> n = 1) \<and> length (buf_data f) \<le> ISO_TX_MTU (b_tx (p_src e)) * n)
   | App_pa pev \<Rightarrow> wf_event pev
   | App_dp dev \<Rightarrow> sys_ev_ok (p_sys e) (Sys_dp dev) (m_sys st))"

fun app_evs_ok :: "'x app_env \<Rightarrow> app_event list \<Rightarrow> 'x app \<Rightarrow> bool" where
  "app_evs_ok e [] st = True"
| "app_evs_ok e (ev # evs) st =
     (app_ev_ok e ev st \<and> (case app_step e ev st of None \<Rightarrow> True | Some st' \<Rightarrow> app_evs_ok e evs st'))"

section \<open>Every event keeps the invariant\<close>

lemma index_ok:
  assumes "app_wf e" and "stream_index_get (p_src e) p = Some idx"
  shows "idx_ok (b_tx (p_src e)) idx \<and> unat (lvl1 idx) < BIG_MAX (p_src e)"
proof -
  obtain i j k where ijk: "idx = \<lparr>lvl1 = of_nat i, lvl2 = of_nat j, lvl3 = of_nat k\<rparr>"
      "i < BIG_MAX (p_src e)" "j < SUBGROUP_COUNT (p_src e)" "k < STREAM_COUNT (p_src e)"
    using assms(2) by (auto simp: stream_index_get_def find_Some_iff dest!: nth_mem)
  then show ?thesis
    using assms(1) by (simp add: idx_ok_def app_wf_def u8_of_nat)
qed

lemma src_inv_same:
  "src_inv e s \<Longrightarrow> cap_streams s' = cap_streams s \<Longrightarrow> tx_initialized (bs_tx s') \<Longrightarrow>
   length (broadcast_sources s') = length (broadcast_sources s) \<Longrightarrow>
   length (delete_broadcast_src s') = length (delete_broadcast_src s) \<Longrightarrow> src_inv e s'"
  by (simp add: src_inv_def is_streaming_at_def)

lemma sent_cb_inv:
  assumes "app_wf e" and "src_inv (p_src e) s"
  shows "\<exists>s'. stream_sent_cb (p_src e) 0 p s = Some s' \<and> src_inv (p_src e) s'"
proof (cases "stream_index_get (p_src e) p")
  case (Some idx)
  then have "idx_ok (b_tx (p_src e)) idx" using index_ok [OF assms(1)] by blast
  moreover have "tx_initialized (bs_tx s)" using assms(2) by (simp add: src_inv_def)
  ultimately show ?thesis
    using assms(2) Some
    by (auto simp: stream_sent_cb_def le_audio_event_publish_def bt_le_audio_tx_stream_sent_def set_inf_def Let_def
        intro!: src_inv_same [of _ s])
qed (use assms in \<open>simp add: stream_sent_cb_def\<close>)

lemma started_cb_inv:
  assumes "app_wf e" and "src_inv (p_src e) s"
  shows "\<exists>s'. stream_started_cb (p_src e) 0 p s = Some s' \<and> src_inv (p_src e) s'"
proof (cases "stream_index_get (p_src e) p")
  case (Some idx)
  then have "idx_ok (b_tx (p_src e)) idx" using index_ok [OF assms(1)] by blast
  moreover have "tx_initialized (bs_tx s)" using assms(2) by (simp add: src_inv_def)
  ultimately show ?thesis
    using assms(2) Some
    by (auto simp: stream_started_cb_def le_audio_event_publish_def bt_le_audio_tx_stream_started_def set_inf_def Let_def
        intro!: src_inv_same [of _ s])
qed (use assms in \<open>simp add: stream_started_cb_def\<close>)

lemma stopped_cb_inv:
  assumes "app_wf e" and "src_inv (p_src e) s"
  shows "\<exists>s'. stream_stopped_cb (p_src e) 0 del p s = Some s' \<and> src_inv (p_src e) s'"
proof (cases "stream_index_get (p_src e) p")
  case (Some idx)
  then have "unat (lvl1 idx) < length (broadcast_sources s)" "unat (lvl1 idx) < length (delete_broadcast_src s)"
    using index_ok [OF assms(1)] assms(2) by (auto simp: src_inv_def)
  moreover have "tx_initialized (bs_tx s)" using assms(2) by (simp add: src_inv_def)
  ultimately show ?thesis
    using assms(2) Some
    by (auto simp: stream_stopped_cb_def le_audio_event_publish_def mem_simps Let_def intro!: src_inv_same [of _ s])
qed (use assms in \<open>simp add: stream_stopped_cb_def\<close>)

lemma start_stop_inv:
  assumes "src_inv (p_src e) s"
  shows "src_inv (p_src e) (snd (broadcast_source_start (p_src e) ans i adv s))"
    and "src_inv (p_src e) (snd (broadcast_source_stop (p_src e) ans i s))"
  using assms
  by (auto simp: broadcast_source_start_def broadcast_source_stop_def src_inv_def is_streaming_at_def split: option.split)

lemma collect_tx_safe:
  assumes "src_inv (p_src e) s" and "app_wf e" and "(STREAM_COUNT (p_src e) \<le> unat n \<or> n = 1)"
    and "big < BIG_MAX (p_src e)" and "sub < SUBGROUP_COUNT (p_src e)"
  shows "i + k = STREAM_COUNT (p_src e) \<Longrightarrow> length tx \<le> i \<Longrightarrow> \<forall>(t, a)\<in>set tx. tx_safe (b_tx (p_src e)) n t \<Longrightarrow>
    \<exists>tx'. collect_tx (p_src e) ans big sub i k tx s = Some tx' \<and> (\<forall>(t, a)\<in>set tx'. tx_safe (b_tx (p_src e)) n t)"
proof (induction k arbitrary: i tx)
  case (Suc k)
  let ?t = "\<lparr>tx_idx = \<lparr>lvl1 = of_nat big, lvl2 = of_nat sub, lvl3 = of_nat i\<rparr>,
        cap_stream = cap_streams s big sub i, audio_channel = of_nat i\<rparr>"
  have i: "i < STREAM_COUNT (p_src e)" using Suc.prems(1) by simp
  show ?case
  proof (cases "is_streaming_at s big sub i")
    case True
    have "tx_safe (b_tx (p_src e)) n ?t"
      using assms i True
      by (auto simp: tx_safe_def idx_ok_def app_wf_def u8_of_nat word_less_nat_alt src_inv_def)
    then have "\<forall>(t, a)\<in>set (tx @ [(?t, ans i)]). tx_safe (b_tx (p_src e)) n t" using Suc.prems(3) by auto
    moreover have "length tx < TX_INFO_MAX (p_src e)" using assms(2) i Suc.prems(2) by (simp add: app_wf_def)
    ultimately show ?thesis
      using Suc.IH [of "Suc i" "tx @ [(?t, ans i)]"] Suc.prems(1,2) True by simp
  next
    case False
    then show ?thesis using Suc.IH [of "Suc i" tx] Suc.prems by simp
  qed
qed simp

lemma send_inv:
  assumes "app_wf e" and "app_inv e st" and "app_ev_ok e (App_frame ans f) st"
  shows "\<exists>r m s'. broadcast_source_send (p_src e) ans f 0 0 (m_src st) = Some (r, m, s') \<and> src_inv (p_src e) s'"
proof -
  let ?e = "b_tx (p_src e)" and ?s = "m_src st"
  define n where "n = x_meta_num_ch (t_le ?e) (locations (buf_meta f))"
  have src: "src_inv (p_src e) ?s" using assms(2) by (simp add: app_inv_def)
  have n: "STREAM_COUNT (p_src e) \<le> unat n \<or> n = 1" "length (buf_data f) \<le> ISO_TX_MTU ?e * unat n"
    using assms(3) by (auto simp: app_ev_ok_def Let_def n_def word_unat_eq_iff)
  obtain tx where tx: "collect_tx (p_src e) ans 0 0 0 (STREAM_COUNT (p_src e)) [] ?s = Some tx"
      "\<forall>(t, a)\<in>set tx. tx_safe ?e n t"
    using collect_tx_safe [OF src assms(1) n(1), of 0 0 0 "STREAM_COUNT (p_src e)" "[]" ans] assms(1)
    by (auto simp: app_wf_def)
  obtain r m t where t: "bt_le_audio_tx_send ?e f (Some tx) (bs_tx ?s) = Some (r, m, t)" "tx_track (bs_tx ?s) t"
    using track_call [OF n_def, of "Some tx" "bs_tx ?s"] tx(2) n(2) by auto
  have "src_inv (p_src e) (?s\<lparr>bs_tx := t\<rparr>)"
    using src t(2) by (intro src_inv_same [OF src]) (simp_all add: tx_track_def src_inv_def)
  then show ?thesis
    using tx(1) t(1) assms(1) src by (auto simp: broadcast_source_send_def app_wf_def)
qed

lemma signal_inv:
  "sys_inv e s \<Longrightarrow> sys_inv e (audio_system_encoder_start s) \<and> sys_running (audio_system_encoder_start s) = sys_running s"
  "sys_inv e s \<Longrightarrow> sys_inv e (audio_system_encoder_stop s) \<and> sys_running (audio_system_encoder_stop s) = sys_running s"
  by (simp_all add: audio_system_encoder_start_def audio_system_encoder_stop_def sys_inv_def sys_running_def)

lemma boards: "app_wf e \<Longrightarrow> sys_inv (p_sys e) s \<Longrightarrow>
   e_board (s_dp (p_sys e)) = audio_dk_leds \<or> e_board (s_dp (p_sys e)) = nrf5340dk_leds"
  by (simp add: sys_inv_def dp_inv_def led_ok_def)

lemma on_streaming_inv:
  assumes "app_wf e" and "app_inv e st"
  shows "\<exists>st'. on_streaming e st = Some st' \<and> app_inv e st'"
proof -
  let ?s = "audio_system_encoder_start (m_sys st)"
  have inv: "sys_inv (p_sys e) ?s" "sys_running ?s = sys_running (m_sys st)" "sys_externals_ok (p_sys e)"
      "strm_state st = STATE_STREAMING \<longleftrightarrow> sys_running (m_sys st)"
    using assms signal_inv(1) [of "p_sys e" "m_sys st"] by (simp_all add: app_inv_def app_wf_def)
  show ?thesis
  proof (cases "strm_state st = STATE_STREAMING")
    case True
    then show ?thesis using assms(2) inv by (simp add: on_streaming_def app_inv_def)
  next
    case False
    obtain s1 where s1: "audio_system_start (p_sys e) ?s = Some s1" "sys_inv (p_sys e) s1" "sys_running s1"
      using sys_start_inv [OF inv(3,1)] inv(2,4) False by auto
    obtain s2 where "with_leds (adapter_led_blink (e_gpio (s_dp (p_sys e))) (e_board (s_dp (p_sys e))) PA_LED_CONN_STATUS) s1
        = Some s2" "sys_inv (p_sys e) s2" "sys_running s2"
      using with_leds_inv [OF s1(2) conn_call_ok(2) [OF boards [OF assms(1) s1(2)]]] s1(3) by auto
    then show ?thesis
      using s1 False assms(2) by (simp add: on_streaming_def app_inv_def)
  qed
qed

lemma on_not_streaming_inv:
  assumes "app_wf e" and "app_inv e st"
  shows "\<exists>st'. on_not_streaming e st = Some st' \<and> app_inv e st'"
proof -
  let ?s = "audio_system_encoder_stop (m_sys st)"
  have inv: "sys_inv (p_sys e) ?s" "sys_running ?s = sys_running (m_sys st)" "sys_externals_ok (p_sys e)"
      "strm_state st = STATE_STREAMING \<longleftrightarrow> sys_running (m_sys st)"
    using assms signal_inv(2) [of "p_sys e" "m_sys st"] by (simp_all add: app_inv_def app_wf_def)
  show ?thesis
  proof (cases "strm_state st = STATE_PAUSED")
    case True
    then show ?thesis using assms(2) inv by (simp add: on_not_streaming_def app_inv_def)
  next
    case False
    obtain s1 where s1: "audio_system_stop (p_sys e) ?s = Some s1" "sys_inv (p_sys e) s1" "\<not> sys_running s1"
      using sys_stop_inv [OF inv(3,1)] by auto
    obtain s2 where "with_leds (adapter_led_on (e_gpio (s_dp (p_sys e))) (e_board (s_dp (p_sys e))) PA_LED_CONN_STATUS) s1
        = Some s2" "sys_inv (p_sys e) s2" "\<not> sys_running s2"
      using with_leds_inv [OF s1(2) conn_call_ok(1) [OF boards [OF assms(1) s1(2)]]] s1(3) by auto
    then show ?thesis
      using s1 False assms(2) by (simp add: on_not_streaming_def app_inv_def)
  qed
qed

lemma tone_keeps_running:
  "audio_system_encode_test_tone_step e s = Some (r, s') \<Longrightarrow> sys_running s' = sys_running s"
  by (auto simp: audio_system_encode_test_tone_step_def audio_system_encode_test_tone_set_def sys_running_def Let_def
      split: if_splits prod.splits bind_splits)

lemma dp_event_inv:
  assumes "sys_externals_ok e" and "sys_inv e s" and "sys_ev_ok e (Sys_dp dev) s"
  shows "\<exists>s'. sys_step e (Sys_dp dev) s = Some s' \<and> sys_inv e s' \<and> sys_running s' = sys_running s"
proof -
  obtain s' where s': "sys_step e (Sys_dp dev) s = Some s'" "sys_inv e s'"
    using sys_step_inv [OF assms] by blast
  then obtain d where "dp_step (s_dp e) dev (sys_dp s) = Some d" "s' = s\<lparr>sys_dp := d\<rparr>"
    by (auto simp: sys_step_def)
  then show ?thesis
    using s' dp_step_running [of "s_dp e" dev "sys_dp s" d] assms(3) by (auto simp: sys_ev_ok_def sys_running_def)
qed

declare dec_digits.simps [simp del]

lemma digits_length: "length (dec_digits (unat (n :: u8))) \<le> 3"
proof -
  have "length (dec_digits m) \<le> 3" if "m < 256" for m
  proof -
    have "m div 10 div 10 < 10" using that by simp
    then show ?thesis
      by (simp add: dec_digits.simps [of m] dec_digits.simps [of "m div 10"] dec_digits.simps [of "m div 10 div 10"])
  qed
  then show ?thesis using u8_less by blast
qed

lemma button_inv:
  assumes "app_wf e" and "app_inv e st" and "app_ev_ok e (App_button ans verdict b) st"
  shows "\<exists>st'. button_event_handler e ans verdict b st = Some st' \<and> app_inv e st'"
proof -
  have inv: "src_inv (p_src e) (m_src st)" "fw_inv (m_fw st)" "sys_inv (p_sys e) (m_sys st)"
    using assms(2) by (simp_all add: app_inv_def)
  have len: "length (fst (test_data n)) = 8" "snd (test_data n) \<le> 7" for n
    using digits_length [of n] by (simp_all add: test_data_def Let_def)
  define d where "d = take (snd (test_data (test_count st))) (fst (test_data (test_count st)))"
  have d: "rd_range (fst (test_data (test_count st))) 0 (snd (test_data (test_count st))) = Some d" "length d \<le> 8"
    using len [of "test_count st"] by (simp_all add: rd_range_in d_def)
  obtain f where f: "fw_step (Button_data verdict d) (m_fw st) = Some f" "fw_inv f"
    using step_inv [OF inv(2), of "Button_data verdict d"] d(2) by auto
  obtain s where s: "sys_step (p_sys e) Sys_tone (m_sys st) = Some s" "sys_inv (p_sys e) s"
    using sys_step_inv [OF _ inv(3)] assms(1,3) by (fastforce simp: app_wf_def app_ev_ok_def)
  obtain r where r: "audio_system_encode_test_tone_step (p_sys e) (m_sys st) = Some (r, s)"
    using s(1) by (auto simp: sys_step_def)
  have run: "sys_running s = sys_running (m_sys st)"
    using r by (auto simp: tone_keeps_running)
  show ?thesis
    using assms(2) start_stop_inv [OF inv(1)] f s(2) r run d(1)
    by (auto simp: button_event_handler_def app_inv_def split_beta Let_def)
qed

lemma msg_inv:
  assumes "app_wf e" and "app_inv e st"
  shows "\<exists>st'. le_audio_msg_sub_thread e st = Some st' \<and> app_inv e st'"
proof (cases "le_audio_chan (m_src st)")
  case (Cons msg msgs)
  let ?st = "st\<lparr>m_src := (m_src st)\<lparr>le_audio_chan := msgs\<rparr>\<rparr>"
  have "app_inv e ?st"
    using assms(2) by (auto simp: app_inv_def src_inv_def is_streaming_at_def)
  then have "\<exists>st'. on_streaming e ?st = Some st' \<and> app_inv e st'" "\<exists>st'. on_not_streaming e ?st = Some st' \<and> app_inv e st'"
    using on_streaming_inv [OF assms(1)] on_not_streaming_inv [OF assms(1)] by blast+
  then show ?thesis
    using Cons \<open>app_inv e ?st\<close> by (simp add: le_audio_msg_sub_thread_def Let_def)
qed (use assms in \<open>simp add: le_audio_msg_sub_thread_def\<close>)

lemma app_step_inv:
  assumes "app_wf e" and "app_inv e st" and "app_ev_ok e ev st"
  shows "\<exists>st'. app_step e ev st = Some st' \<and> app_inv e st'"
proof -
  have inv: "src_inv (p_src e) (m_src st)" "fw_inv (m_fw st)" "sys_inv (p_sys e) (m_sys st)"
      "strm_state st = STATE_STREAMING \<longleftrightarrow> sys_running (m_sys st)"
    using assms(2) by (simp_all add: app_inv_def)
  have ext: "sys_externals_ok (p_sys e)" using assms(1) by (simp add: app_wf_def)
  show ?thesis
  proof (cases ev)
    case App_msg
    then show ?thesis using msg_inv [OF assms(1,2)] by (simp add: app_step_def)
  next
    case (App_button ans verdict b)
    then show ?thesis using button_inv [OF assms(1,2)] assms(3) by (simp add: app_step_def)
  next
    case (App_adv_ready ans i adv)
    obtain f where "fw_step (Ext_adv_ready adv) (m_fw st) = Some f" "fw_inv f"
      using step_ext_adv [OF inv(2)] by blast
    then show ?thesis
      using App_adv_ready inv start_stop_inv(1) [OF inv(1)] by (simp add: app_step_def bt_mgmt_evt_handler_def app_inv_def)
  next
    case (App_sent pub p)
    then show ?thesis
      using sent_cb_inv [OF assms(1) inv(1), of p] assms(3) inv by (auto simp: app_step_def app_ev_ok_def app_inv_def)
  next
    case (App_started pub p)
    then show ?thesis
      using started_cb_inv [OF assms(1) inv(1), of p] assms(3) inv by (auto simp: app_step_def app_ev_ok_def app_inv_def)
  next
    case (App_stopped pub del p)
    then show ?thesis
      using stopped_cb_inv [OF assms(1) inv(1), of del p] assms(3) inv
      by (auto simp: app_step_def app_ev_ok_def app_inv_def)
  next
    case (App_host i j k s)
    have "src_inv (p_src e) ((m_src st)\<lparr>cap_streams := (cap_streams (m_src st))(i :=
        (cap_streams (m_src st) i)(j := (cap_streams (m_src st) i j)(k := s)))\<rparr>)"
      using inv(1) assms(3) App_host by (auto simp: src_inv_def is_streaming_at_def app_ev_ok_def)
    then show ?thesis using App_host inv by (simp add: app_step_def app_inv_def)
  next
    case (App_frame ans f)
    obtain r m s' where s': "broadcast_source_send (p_src e) ans f 0 0 (m_src st) = Some (r, m, s')" "src_inv (p_src e) s'"
      using send_inv [OF assms(1,2)] assms(3) App_frame by blast
    have ref: "sys_inv (p_sys e) ((m_sys st)\<lparr>sys_dp := audio_datapath_sdu_ref_update (s_dp (p_sys e)) msg (sys_dp (m_sys st))\<rparr>)
        \<and> sys_running ((m_sys st)\<lparr>sys_dp := audio_datapath_sdu_ref_update (s_dp (p_sys e)) msg (sys_dp (m_sys st))\<rparr>)
          = sys_running (m_sys st)" for msg
      using dp_event_inv [OF ext inv(3), of "Ev_sdu_ref msg"] by (auto simp: sys_ev_ok_def ev_ok_def sys_step_def dp_step_def)
    show ?thesis
      using App_frame s' inv ref assms(2)
      by (auto simp: app_step_def streamctrl_send_def app_inv_def Let_def split: option.split)
  next
    case (App_pa pev)
    obtain f where "fw_step pev (m_fw st) = Some f" "fw_inv f"
      using step_inv [OF inv(2)] assms(3) App_pa by (auto simp: app_ev_ok_def)
    then show ?thesis using App_pa inv by (simp add: app_step_def app_inv_def)
  next
    case (App_dp dev)
    then show ?thesis
      using dp_event_inv [OF ext inv(3), of dev] assms(3) inv by (auto simp: app_step_def app_ev_ok_def app_inv_def)
  qed
qed

lemma app_run_inv:
  "app_wf e \<Longrightarrow> app_inv e st \<Longrightarrow> app_evs_ok e evs st \<Longrightarrow> \<exists>st'. app_run e evs st = Some st' \<and> app_inv e st'"
proof (induction evs arbitrary: st)
  case (Cons ev evs)
  then obtain st1 where "app_step e ev st = Some st1" "app_inv e st1"
    using app_step_inv by fastforce
  then show ?case using Cons by simp
qed simp

section \<open>Starting\<close>

lemma produce_keeps:
  assumes "create_param_produce e big a p st = Some (r, st')"
  shows "bs_tx st' = bs_tx st \<and> broadcast_sources st' = broadcast_sources st
    \<and> delete_broadcast_src st' = delete_broadcast_src st
    \<and> (\<forall>i j k. cap_streams st' i j k = cap_streams st i j k \<or> cap_streams st' i j k = no_stream e)"
  using assms by (auto simp: create_param_produce_def Let_def split: if_splits bind_splits)

lemma enable_src_inv:
  assumes "broadcast_source_enable e a p big st = Some (0, st')" and "\<not> bs_initialized st"
    and "length (broadcast_sources st) = BIG_MAX e" and "length (delete_broadcast_src st) = BIG_MAX e"
    and "\<forall>i j k. stream_ep (cap_streams st i j k) = None" and "stream_ep (no_stream e) = None"
  shows "src_inv e st'"
proof -
  let ?st = "st\<lparr>bs_tx := bt_le_audio_tx_init (bs_tx st)\<rparr>"
  have reg: "en_register_cb a = 0 \<or> en_register_cb a = - EALREADY" and big: "big < BIG_MAX e"
    using assms(1,2) by (auto simp: broadcast_source_enable_def Let_def split: if_splits)
  obtain st1 cp ops srcs where st1: "create_param_produce e big a p ?st = Some (0, st1)"
      "wr (broadcast_sources st1) big (Some (snd (en_create a))) = Some srcs"
      "st' = st1\<lparr>stream_ops := stream_ops st1 @ ops, broadcast_sources := srcs, bs_initialized := True,
                 host_calls := host_calls st1 @ [Host_create big]\<rparr>"
    using assms(1,2) reg big
    by (auto simp: broadcast_source_enable_def Let_def split: if_splits bind_splits)
  have keep: "bs_tx st1 = bt_le_audio_tx_init (bs_tx st)" "broadcast_sources st1 = broadcast_sources st"
      "delete_broadcast_src st1 = delete_broadcast_src st"
      "\<And>i j k. cap_streams st1 i j k = cap_streams st i j k \<or> cap_streams st1 i j k = no_stream e"
    using produce_keeps [OF st1(1)] by auto
  have "stream_ep (cap_streams st1 i j k) = None" for i j k
    using keep(4) [of i j k] assms(5,6) by metis
  then show ?thesis
    using st1(2,3) keep(1-3) assms(3,4) wr_length [OF st1(2)]
    by (simp add: src_inv_def is_streaming_at_def ep_state_check_iff bt_le_audio_tx_init_def Let_def)
qed

lemma put_one: "bt_mgmt_adv_buffer_put v n ty d 0 [x] = Some (r, i, adv) \<Longrightarrow> r \<le> 0 \<and> i \<le> 1"
  by (auto simp: bt_mgmt_adv_buffer_put_def split: if_splits bind_splits)

text \<open>The host's code is 0 or negative: a positive one would pass for a number of elements.\<close>

lemma per_adv_count:
  assumes "per_adv_populate e big base [x] m = Some (0, per, cnt)" and "fst base \<le> 0"
  shows "cnt \<le> 1"
proof (cases "BIG_MAX (p_src e) \<le> big \<or> m = 0 \<or> fst base \<noteq> 0")
  case True
  then show ?thesis
    using assms by (auto simp: per_adv_populate_def broadcast_source_per_adv_populate_def split: if_splits)
next
  case False
  then obtain r i adv where "bt_mgmt_adv_buffer_put m (length (snd base)) BT_DATA_SVC_DATA16 (snd base) 0 [x] = Some (r, i, adv)"
    using assms by (auto simp: per_adv_populate_def broadcast_source_per_adv_populate_def split: bind_splits)
  then show ?thesis
    using False assms put_one
    by (fastforce simp: per_adv_populate_def broadcast_source_per_adv_populate_def split: if_splits)
qed

lemma ext_adv_src:
  "ext_adv_populate e big rnd mx ub d adv st = Some (r, adv', n, st') \<Longrightarrow>
   bs_tx st' = bs_tx st \<and> cap_streams st' = cap_streams st \<and> broadcast_sources st' = broadcast_sources st
   \<and> delete_broadcast_src st' = delete_broadcast_src st"
  by (auto simp: ext_adv_populate_def broadcast_source_ext_adv_populate_def Let_def split: if_splits bind_splits prod.splits)

definition app_boot :: "'x app_env \<Rightarrow> led_state \<Rightarrow> 'x app \<Rightarrow> bool" where
  "app_boot e l st \<longleftrightarrow> (\<exists>x. m_sys st = sys_boot (p_sys e) l x) \<and> strm_state st = STATE_PAUSED
     \<and> led_ok (s_dp (p_sys e)) (dp_boot (s_dp (p_sys e)) l)
     \<and> displays l (led_audio_sync_status (e_board (s_dp (p_sys e)))) LED_COLOR_OFF
     \<and> \<not> bs_initialized (m_src st)
     \<and> length (broadcast_sources (m_src st)) = BIG_MAX (p_src e)
     \<and> length (delete_broadcast_src (m_src st)) = BIG_MAX (p_src e)
     \<and> (\<forall>i j k. stream_ep (cap_streams (m_src st) i j k) = None) \<and> stream_ep (no_stream (p_src e)) = None"

lemma config_keeps:
  assumes "sys_inv e s" and "\<not> sys_running s" and "audio_system_config_set er eb dr s = (r, s')"
  shows "sys_inv e s' \<and> \<not> sys_running s'"
  using assms by (auto simp: audio_system_config_set_def sys_inv_def sys_running_def Let_def split: if_splits)

lemma main_parts:
  assumes "main_init e a bt st = Some st0"
  obtains s0 p src s1 d ext n src1 per cnt base where "audio_system_init (p_sys e) (m_sys st) = Some (0, s0)"
    and "broadcast_source_enable (p_src e) (a_enable a) p 0 (m_src st) = Some (0, src)"
    and "audio_system_config_set (pref_sample_rate_hz e) (BITRATE_BROADCAST_SRC e) 0 s0 = (0, s1)"
    and "ext_adv_populate e 0 (a_rand a) 128 [] d (replicate (EXT_ADV_BUF_MAX e) \<lparr>ad_type = 0, ad_len = 0, ad_data = []\<rparr>) src
           = Some (0, ext, n, src1)"
    and "per_adv_populate e 0 (a_base a) [\<lparr>ad_type = 0, ad_len = 0, ad_data = []\<rparr>] 1 = Some (0, per, cnt)"
    and "rd per 0 = Some base"
    and "st0 = st\<lparr>m_src := src1, m_sys := s1, m_fw := fw_init base cnt (ad_len base + 2) 0 bt\<rparr>"
  using assms unfolding main_init_def err_chk_def
  by (auto split: if_splits bind_splits prod.splits intro: that)

lemma main_init_inv:
  assumes "app_wf e" and "app_boot e l st" and "main_init e a bt st = Some st0" and "fst (a_base a) \<le> 0"
  shows "app_inv e st0 \<and> strm_state st0 = STATE_PAUSED"
proof -
  obtain x where boot: "m_sys st = sys_boot (p_sys e) l x" using assms(2) by (auto simp: app_boot_def)
  obtain s0 p src s1 d ext n src1 per cnt base where
      s0: "audio_system_init (p_sys e) (m_sys st) = Some (0, s0)"
    and src: "broadcast_source_enable (p_src e) (a_enable a) p 0 (m_src st) = Some (0, src)"
    and s1: "audio_system_config_set (pref_sample_rate_hz e) (BITRATE_BROADCAST_SRC e) 0 s0 = (0, s1)"
    and src1: "ext_adv_populate e 0 (a_rand a) 128 [] d (replicate (EXT_ADV_BUF_MAX e) \<lparr>ad_type = 0, ad_len = 0, ad_data = []\<rparr>) src
           = Some (0, ext, n, src1)"
    and per: "per_adv_populate e 0 (a_base a) [\<lparr>ad_type = 0, ad_len = 0, ad_data = []\<rparr>] 1 = Some (0, per, cnt)"
    and st0: "st0 = st\<lparr>m_src := src1, m_sys := s1, m_fw := fw_init base cnt (ad_len base + 2) 0 bt\<rparr>"
    by (rule main_parts [OF assms(3)])
  have inv0: "sys_inv (p_sys e) s0" "\<not> sys_running s0"
    using sys_init_inv [of "p_sys e" l x] assms(1,2) boot s0 by (auto simp: app_wf_def app_boot_def)
  have "src_inv (p_src e) src"
    using enable_src_inv [OF src] assms(2) by (simp add: app_boot_def)
  then have "src_inv (p_src e) src1"
    using ext_adv_src [OF src1] by (auto simp: src_inv_def is_streaming_at_def)
  moreover have "fw_inv (m_fw st0)" using fw_init_inv [OF per_adv_count [OF per assms(4)]] by (simp add: st0)
  moreover have "sys_inv (p_sys e) s1 \<and> \<not> sys_running s1" using config_keeps [OF inv0 s1] .
  ultimately show ?thesis
    using assms(2) by (simp add: st0 app_inv_def app_boot_def)
qed

end
