(* ===== verification/BroadcastApp.thy ===== *)
theory BroadcastApp
  imports BroadcastSafety
begin

text \<open>
  What the broadcast source application promises as a whole, from the encoder to the streams and from the
  stream events to the audio system, and where its buttons interfere with the PA service.
\<close>

section \<open>Lemmas\<close>

text \<open>The state that an event of the streams asks for.\<close>

definition asked_state :: "le_audio_evt_type \<Rightarrow> stream_state \<Rightarrow> stream_state" where
  "asked_state ev s = (if ev = LE_AUDIO_EVT_STREAMING then STATE_STREAMING
     else if ev = LE_AUDIO_EVT_NOT_STREAMING then STATE_PAUSED else s)"

lemma asked_states:
  "on_streaming e st = Some st' \<Longrightarrow> strm_state st' = STATE_STREAMING"
  "on_not_streaming e st = Some st' \<Longrightarrow> strm_state st' = STATE_PAUSED"
  by (auto simp: on_streaming_def on_not_streaming_def Let_def split: if_splits bind_splits)

lemma msg_state:
  assumes "le_audio_chan (m_src st) = msg # msgs" and "app_step e App_msg st = Some st'"
  shows "strm_state st' = asked_state (msg_event msg) (strm_state st)"
  using assms
  by (auto simp: app_step_def le_audio_msg_sub_thread_def asked_state_def Let_def dest: asked_states split: if_splits)

definition stream_tx :: "bsrc \<Rightarrow> nat \<Rightarrow> le_audio_tx_info" where
  "stream_tx st k = \<lparr>tx_idx = \<lparr>lvl1 = 0, lvl2 = 0, lvl3 = of_nat k\<rparr>, cap_stream = cap_streams st 0 0 k,
     audio_channel = of_nat k\<rparr>"

lemma collect_two:
  assumes "is_streaming_at st 0 0 0" and "is_streaming_at st 0 0 1" and "2 \<le> TX_INFO_MAX e"
  shows "collect_tx e ans 0 0 0 2 [] st = Some [(stream_tx st 0, ans 0), (stream_tx st 1, ans 1)]"
  using assms by (simp add: numeral_2_eq_2 stream_tx_def)

lemma good_streams: "tx_good e n sz iv st (stream_tx src k) a \<Longrightarrow> is_streaming_at src 0 0 k"
  by (simp add: tx_good_def is_streaming_at_def stream_tx_def)

lemma button_takes:
  assumes "fw_inv f" and "ext_adv (z_ble (world f)) = Some adv" and "length d \<le> 7"
  shows "\<exists>w. set_data (ble_pa_port (bt_set_of (\<lambda>_ _. 0)) (\<lambda>_. (0, 0))) (world f) 0 d (of_nat (length d)) = Some (0, w)
     \<and> z_wire w = z_wire (world f) \<and> z_timer w = z_timer (world f) \<and> custom_data (z_bt w) = d"
proof -
  have len: "unat (of_nat (length d) :: u8) = length d" using assms(3) by (simp add: u8_of_nat)
  have wf: "z_ok (world f)" using assms(1) by (simp add: fw_inv_def)
  obtain r w where w: "set_data (ble_pa_port (bt_set_of (\<lambda>_ _. 0)) (\<lambda>_. (0, 0))) (world f) 0 d (of_nat (length d)) = Some (r, w)"
      "z_wire w = z_wire (world f)" "z_timer w = z_timer (world f)"
      "custom_data (z_bt w) = (if r = 0 then d else custom_data (z_bt (world f)))"
    using port_set_data [OF wf, of "of_nat (length d)" d "\<lambda>_ _. 0" "\<lambda>_. (0, 0)" 0] len assms(3) by auto
  have "r = 0"
    using w(1) assms(2,3) len
    by (auto simp: ble_pa_port_def ble_adapter_set_data_def bt_set_of_def Let_def split: if_splits bind_splits)
  then show ?thesis using w by auto
qed

section \<open>Properties\<close>

text \<open>C4: The application follows its streams and never trips. Once main() has returned, for every
  sequence of stream callbacks, host changes of the endpoints, messages processed, buttons, advertiser
  events, encoded frames, audio interrupts and PA interrupts and work items: nothing leaves its
  arrays and no error check trips; the application is in the streaming state exactly while the audio
  datapath and the software codec run; and processing the next message of a stream always succeeds and
  brings the application into the state it asks for, whatever state it is in. This is shown for
  sequences in which the callbacks' publications of stream events succeed (each is followed by an error
  check on its result); every endpoint has a codec configuration that can be read; an encoded frame has
  as many channels as a subgroup has streams, or one, and an SDU holds a channel's share of it (with
  fewer channels than streams the code reads behind the frame); the test tone's period fits its
  buffer; and the audio interrupts are as in the datapath's property: only while the stream runs,
  with a receive buffer and a free or a queued one, and with no jump of the time reference by more
  than about two seconds while drift compensation calibrates (the adjustment would overflow). The
  libraries and drivers of the audio system are assumed to succeed. The answers of the Bluetooth host
  to the other calls are arbitrary.\<close>

theorem application_follows_streams:
  assumes "app_wf e" and "app_boot e l boot" and "main_init e a bt boot = Some st0" and "fst (a_base a) \<le> 0"
    and "app_evs_ok e evs st0"
  shows "\<exists>st. app_run e evs st0 = Some st
    \<and> (strm_state st = STATE_STREAMING \<longleftrightarrow> stream_started (sys_dp (m_sys st)))
    \<and> codec_initialized (sw_codec_cfg (m_sys st)) = stream_started (sys_dp (m_sys st))
    \<and> sw_codec_is_initialized (sys_codec (m_sys st)) = stream_started (sys_dp (m_sys st))
    \<and> state (pa_ctx (svc (m_fw st))) \<noteq> PA_STATE_COMPLETE
    \<and> (\<forall>msg msgs. le_audio_chan (m_src st) = msg # msgs \<longrightarrow>
         (\<exists>st'. app_step e App_msg st = Some st' \<and> strm_state st' = asked_state (msg_event msg) (strm_state st)))"
proof -
  obtain st where st: "app_run e evs st0 = Some st" "app_inv e st"
    using main_init_inv [OF assms(1-4)] app_run_inv [OF assms(1) _ assms(5)] by blast
  have "\<exists>st'. app_step e App_msg st = Some st' \<and> strm_state st' = asked_state (msg_event msg) (strm_state st)"
    if "le_audio_chan (m_src st) = msg # msgs" for msg msgs
    using app_step_inv [OF assms(1) st(2), of App_msg] msg_state [OF that] by (auto simp: app_ev_ok_def)
  then show ?thesis
    using st by (auto simp: app_inv_def sys_inv_def sys_running_def fw_inv_def)
qed

text \<open>C5: Left and right reach their streams. If the encoder produces as many bytes for the left samples as for
  the right and both streams of the default source are streaming and accept an SDU, then the frame
  that the encoder hands on makes exactly two SDUs: the first stream is sent the left channel's bytes
  and the second the right channel's, with the time the controller gave the first.\<close>

theorem stereo_reaches_streams:
  assumes "stereo_tx c cs" and "x_split c (buf_data frame) = (0, l, r)"
    and "length l \<le> PCM_NUM_BYTES_MONO c" and "length r = length l"
    and "x_enc_run c 0 l (ENC_MAX_FRAME_SIZE c * enc_channels_max c) (codec_ext cs) = (0, left, x1)"
    and "x_enc_run c 1 r (ENC_MAX_FRAME_SIZE c * enc_channels_max c - length left) x1 = (0, right, x2)"
    and "length left = length right" and "length left + length right \<le> ENC_MAX_FRAME_SIZE c * enc_channels_max c"
    and "length right + length right < 2 ^ 16" and "length right + length right \<le> buf_size frame"
    and "STREAM_COUNT e = 2" and "0 < BIG_MAX e" and "0 < SUBGROUP_COUNT e" and "2 \<le> TX_INFO_MAX e"
    and "tx_initialized (bs_tx src)" and "x_meta_num_ch (t_le (b_tx e)) (locations (buf_meta frame)) = 2"
    and "length right \<le> ISO_TX_MTU (b_tx e)"
    and "\<forall>k<2. tx_good (b_tx e) 2 (length right) iv (bs_tx src) (stream_tx src k) (ans k)"
  shows "\<exists>frame' src'. sw_codec_encode c frame cs = Some (0, frame', cs\<lparr>codec_ext := x2\<rparr>)
    \<and> broadcast_source_send e ans frame' 0 0 src = Some (0, Some \<lparr>tx_sync_ts_us = fst (snd (a_sync (ans 0))),
          curr_ts_us = a_now (ans 0), adjust = True\<rparr>, src')
    \<and> map (\<lambda>s. (sdu_idx s, sdu_data s, sdu_ts s)) (iso_sent (bs_tx src'))
        = map (\<lambda>s. (sdu_idx s, sdu_data s, sdu_ts s)) (iso_sent (bs_tx src))
          @ [(\<lparr>lvl1 = 0, lvl2 = 0, lvl3 = 0\<rparr>, left, 0),
             (\<lparr>lvl1 = 0, lvl2 = 0, lvl3 = 1\<rparr>, right, fst (snd (a_sync (ans 0))))]"
proof -
  let ?f = "frame\<lparr>buf_data := left @ right, buf_meta := (buf_meta frame)\<lparr>data_coding := LC3\<rparr>\<rparr>"
  let ?txs = "[(stream_tx src 0, ans 0), (stream_tx src 1, ans 1)]"
  have enc: "sw_codec_encode c frame cs = Some (0, ?f, cs\<lparr>codec_ext := x2\<rparr>)"
    using encode_stereo [OF assms(1-6,8-10)] assms(7) by simp
  have good: "tx_good (b_tx e) 2 (length right) iv (bs_tx src) (stream_tx src 0) (ans 0)"
      "tx_good (b_tx e) 2 (length right) iv (bs_tx src) (stream_tx src 1) (ans 1)"
    using assms(18) by simp_all
  have tx: "collect_tx e ans 0 0 0 2 [] src = Some ?txs"
    using collect_two [OF good_streams [OF good(1)] good_streams [OF good(2)] assms(14)] .
  have "2 = x_meta_num_ch (t_le (b_tx e)) (locations (buf_meta ?f))" using assms(16) by simp
  moreover have "length (buf_data ?f) = unat (2 :: u8) * length right" using assms(7) by simp
  moreover have "\<forall>(t, b)\<in>set ?txs. tx_good (b_tx e) 2 (length right) iv (bs_tx src) t b" using good by simp
  moreover have "distinct (map (tx_idx \<circ> fst) ?txs)" by (simp add: stream_tx_def)
  ultimately obtain out t where t: "bt_le_audio_tx_send (b_tx e) ?f (Some ?txs) (bs_tx src)
        = Some (0, Some \<lparr>tx_sync_ts_us = fst (snd (a_sync (ans 0))), curr_ts_us = a_now (ans 0), adjust = True\<rparr>, t)"
      "iso_sent t = iso_sent (bs_tx src) @ out"
      "out = sdu_of (left @ right) 2 (length right) (bs_tx src) 0 (stream_tx src 0)
         # map (sdu_of (left @ right) 2 (length right) (bs_tx src) (fst (snd (a_sync (ans 0)))) \<circ> fst) [(stream_tx src 1, ans 1)]"
    using send_frame [of "bs_tx src" 2 "b_tx e" ?f "length right" ?txs] assms(15,17) by fastforce
  have "broadcast_source_send e ans ?f 0 0 src = Some (0, Some \<lparr>tx_sync_ts_us = fst (snd (a_sync (ans 0))),
      curr_ts_us = a_now (ans 0), adjust = True\<rparr>, src\<lparr>bs_tx := t\<rparr>)"
    using tx t(1) assms(11-13) by (simp add: broadcast_source_send_def)
  then show ?thesis
    using enc t(2,3) assms(7) by (auto simp: sdu_of_def stream_tx_def)
qed

text \<open>C16: The ACTION button replaces a transmission that is reported as sent. While a data request is
  pending, whatever its payload, pressing the ACTION button makes the advertising stack broadcast the
  button's text instead: it goes to the port directly, past the manager. When the interval timer
  expires, the host is nevertheless sent the completion of its request, and the button's text is
  what is on the air. This is what the code does; the architecture document and the README of the
  application say that the button plays test tones, and only while streaming.\<close>

theorem button_replaces_transmission:
  assumes "app_inv e st" and "queue (m_fw st) = []" and "ktimer (z_timer (world (m_fw st))) = Some 250"
    and "ext_adv (z_ble (world (m_fw st))) = Some adv"
  shows "state (pa_ctx (svc (m_fw st))) = PA_STATE_PENDING
    \<and> (\<exists>st'. app_run e [App_button ans (\<lambda>_ _. 0) PA_BUTTON_ACTION, App_pa Timer_irq,
            App_pa (Run_work verdict bt_info info0 op0 p0)] st = Some st'
        \<and> z_wire (world (m_fw st')) = z_wire (world (m_fw st)) @ frame_data_send_complete
        \<and> custom_data (z_bt (world (m_fw st'))) = [0x54, 0x45, 0x53, 0x54] @ dec_digits (unat (test_count st)))"
proof -
  let ?t = "[0x54, 0x45, 0x53, 0x54] @ dec_digits (unat (test_count st))"
  have inv: "fw_inv (m_fw st)" using assms(1) by (simp add: app_inv_def)
  have len: "length ?t \<le> 7" using digits_length [of "test_count st"] by simp
  have data: "fst (test_data (test_count st)) = take 8 (?t @ replicate 8 0)" "snd (test_data (test_count st)) = length ?t"
    using len by (simp_all add: test_data_def Let_def)
  have d: "rd_range (fst (test_data (test_count st))) 0 (snd (test_data (test_count st))) = Some ?t"
    using len by (simp add: data rd_range_def)
  have ready: "ble_adapter_is_ready (z_ble (world (m_fw st)))" using assms(4) by (simp add: ble_adapter_is_ready_def)
  obtain w where w: "set_data (ble_pa_port (bt_set_of (\<lambda>_ _. 0)) (\<lambda>_. (0, 0))) (world (m_fw st)) 0 ?t (of_nat (length ?t)) = Some (0, w)"
      "z_wire w = z_wire (world (m_fw st))" "z_timer w = z_timer (world (m_fw st))" "custom_data (z_bt w) = ?t"
    using button_takes [OF inv assms(4) len] by blast
  let ?f1 = "(m_fw st)\<lparr>world := w\<rparr>"
  have step1: "fw_step (Button_data (\<lambda>_ _. 0) ?t) (m_fw st) = Some ?f1"
    using w(1) ready by (simp add: fw_step.simps ble_pa_port_def Let_def)
  have inv1: "fw_inv ?f1" using step_button [OF inv, of ?t "\<lambda>_ _. 0"] len step1 by auto
  obtain f2 where f2: "fw_step Timer_irq ?f1 = Some f2" "fw_inv f2" "z_wire (world f2) = z_wire w"
      "z_bt (world f2) = z_bt w" "queue f2 = [Timer_work]"
    using step_timer [OF inv1] w(3) assms(2,3) by auto
  obtain f3 where f3: "fw_step (Run_work verdict bt_info info0 op0 p0) f2 = Some f3"
      "z_wire (world f3) = z_wire w @ frame_data_send_complete" "custom_data (z_bt (world f3)) = ?t"
    using run_timer [OF f2(2,5), of verdict bt_info info0 op0 p0] f2(3,4) w(4) by auto
  have "app_run e [App_button ans (\<lambda>_ _. 0) PA_BUTTON_ACTION, App_pa Timer_irq,
            App_pa (Run_work verdict bt_info info0 op0 p0)] st
      = Some (st\<lparr>m_fw := f3, test_count := test_count st + 1\<rparr>)"
    using ready d step1 f2(1) f3(1) by (simp add: app_step_def button_event_handler_def split_beta)
  moreover have "state (pa_ctx (svc (m_fw st))) = PA_STATE_PENDING" using inv assms(3) by (simp add: fw_inv_def)
  ultimately show ?thesis using f3(2,3) w(2) by simp
qed

section \<open>A concrete application\<close>

definition example_bsrc_env :: bsrc_env where
  "example_bsrc_env = \<lparr>b_tx = example_tx, BIG_MAX = 1, SUBGROUP_COUNT = 1, STREAM_COUNT = 2, TX_INFO_MAX = 2,
     zbus_evt_stream_sent = False, auracast = False, cfg_interleaved = False, cfg_encrypted = True,
     ENCRYPTION_KEY = [1, 2], BROADCAST_NAME = [0x50, 0x41], preset_codec = stream_codec example_stream,
     preset_qos_interval = 10000, DEVICE_APPEARANCE = 2181, PARENTAL_RATING = 0,
     no_stream = example_stream\<lparr>stream_ep := None\<rparr>\<rparr>"

definition example_app :: "unit app_env" where
  "example_app = \<lparr>p_src = example_bsrc_env, p_sys = example_sys, EXT_ADV_BUF_MAX = 5, adv_name = [0x50, 0x41],
     MANUFACTURER_ID = 0x59, id_fixed = True, id_value = 0x123456, pref_sample_rate_hz = 48000,
     BITRATE_BROADCAST_SRC = 96000, p_uart_ready = True\<rparr>"

definition example_answers :: main_answers where
  "example_answers = \<lparr>a_peripherals = 0, a_fw_info = 0, a_bt_mgmt = 0, a_button = 0, a_zbus_sub = 0, a_zbus_link = 0,
     a_enable = \<lparr>en_register_cb = 0, en_set_allocation = (\<lambda>_. 0), en_set_context = (\<lambda>_. 0), en_create = (0, 1)\<rparr>,
     a_rand = (0, 0), a_base = (0, [1, 2, 3]), a_adv_start = 0\<rparr>"

definition example_src :: bsrc where
  "example_src = \<lparr>broadcast_sources = [None], create_params = [\<lparr>subgroup_count = 0, cp_qos_interval = 0,
       cp_packing_interleaved = False, cp_encryption = False, cp_broadcast_code = replicate 16 0\<rparr>],
     subgroup_params = [\<lparr>stream_count = 0, stream_params = [], sub_codec = stream_codec example_stream\<rparr>],
     cap_streams = (\<lambda>i j k. example_stream\<lparr>stream_ep := None\<rparr>), stream_ops = [], bs_initialized = False,
     delete_broadcast_src = [False], stored_broadcast_id = 0, bs_tx = example_bt_tx\<lparr>tx_initialized := False\<rparr>,
     le_audio_chan = [], host_calls = []\<rparr>"

definition example_boot :: "unit app" where
  "example_boot = \<lparr>m_src = example_src, m_sys = sys_boot example_sys example_leds (), m_fw = fw_example,
     strm_state = STATE_PAUSED, m_ext_adv = None, test_count = 0\<rparr>"

lemmas example_app_defs = example_app_def example_bsrc_env_def example_answers_def example_src_def example_boot_def

lemma example_app_wf: "app_wf example_app"
  using example_sys_ok by (simp add: app_wf_def example_app_def example_bsrc_env_def example_tx_def)

lemma example_app_boot: "app_boot example_app example_leds example_boot"
proof -
  have "led_ok (s_dp example_sys) (dp_boot (s_dp example_sys) example_leds)"
    using example_externals(2) by (simp add: led_ok_def dp_boot_def example_sys_def)
  moreover have "displays example_leds (led_audio_sync_status (e_board (s_dp example_sys))) LED_COLOR_OFF"
    using example_leds_dark by (simp add: example_sys_def example_env_def)
  ultimately show ?thesis by (auto simp: app_boot_def example_app_defs)
qed

lemma bis_two:
  "bis_loop big i [a, b] 0 2 acc = Some ([\<lparr>sp_stream = (big, i, 0), sp_data = bt_audio_codec_allocation_set LTV_CHAN_ALLOC_SIZE a\<rparr>,
      \<lparr>sp_stream = (big, i, 1), sp_data = bt_audio_codec_allocation_set LTV_CHAN_ALLOC_SIZE b\<rparr>], or (or acc a) b)"
  by (simp add: numeral_2_eq_2 rd_def)

lemma example_enable:
  "\<exists>p src. broadcast_source_default_create example_bsrc_env \<lparr>subgroups = [], num_subgroups = 0, packing_interleaved = False,
        encryption = False, broadcast_code = replicate 16 0, broadcast_name = replicate 33 0\<rparr> = Some p
     \<and> broadcast_source_enable example_bsrc_env (a_enable example_answers) p 0 example_src = Some (0, src)"
  by (simp add: example_app_defs broadcast_source_default_create_def broadcast_source_enable_def
      create_param_produce_def wr_range_def rd_def wr_def streams_of_def rd_range_def bis_two Let_def)

lemma example_put:
  assumes "0 < n" "i < vacant" "i < length adv"
  shows "bt_mgmt_adv_buffer_put vacant n ty d i adv
    = Some (0, i + 1, adv[i := \<lparr>ad_type = ty, ad_len = of_nat n, ad_data = d\<rparr>])"
  using assms by (simp add: bt_mgmt_adv_buffer_put_def wr_def)

lemma example_ext_adv:
  "\<exists>ext n src'. ext_adv_populate example_app 0 (a_rand example_answers) 128 []
       \<lparr>brdcst_id_buf = replicate 5 0, brdcst_appearance_buf = replicate 2 0, brdcst_name_buf = replicate 32 0,
        pba_buf = replicate 20 0\<rparr>
       (replicate (EXT_ADV_BUF_MAX example_app) \<lparr>ad_type = 0, ad_len = 0, ad_data = []\<rparr>) src = Some (0, ext, n, src')"
proof -
  let ?nm = "[0x50, 0x41] @ replicate 30 (0 :: u8)"
  have nm: "wr_range (replicate 32 0) 0 [0x50, 0x41] = Some ?nm" "c_strlen ?nm = Some 2"
    by (simp_all add: wr_range_def c_strlen_def)
  have cfg: "adv_name example_app = [0x50, 0x41]" "id_fixed example_app" "BIG_MAX (p_src example_app) = 1"
      "EXT_ADV_BUF_MAX example_app = 5" "\<not> auracast (p_src example_app)"
    by (simp_all add: example_app_def example_bsrc_env_def)
  show ?thesis
    by (simp add: ext_adv_populate_def broadcast_source_ext_adv_populate_def bt_mgmt_manufacturer_uuid_populate_def
        nm [simplified] cfg example_put wr_range_def wr_def le16_def le24_def Let_def)
qed

lemma example_per_adv:
  "\<exists>per cnt base. per_adv_populate example_app 0 (a_base example_answers) [\<lparr>ad_type = 0, ad_len = 0, ad_data = []\<rparr>] 1
     = Some (0, per, cnt) \<and> rd per 0 = Some base"
  by (simp add: per_adv_populate_def broadcast_source_per_adv_populate_def bt_mgmt_adv_buffer_put_def example_app_defs
      wr_def rd_def)

lemma example_main: "\<exists>st0. main_init example_app example_answers [] example_boot = Some st0"
proof -
  obtain s0 where s0: "audio_system_init example_sys (sys_boot example_sys example_leds ()) = Some (0, s0)"
    using example_sys_init by blast
  obtain p src where src: "broadcast_source_default_create example_bsrc_env \<lparr>subgroups = [], num_subgroups = 0,
        packing_interleaved = False, encryption = False, broadcast_code = replicate 16 0, broadcast_name = replicate 33 0\<rparr> = Some p"
      "broadcast_source_enable example_bsrc_env (a_enable example_answers) p 0 example_src = Some (0, src)"
    using example_enable by blast
  obtain s1 where s1: "audio_system_config_set 48000 96000 0 s0 = (0, s1)"
    by (simp add: audio_system_config_set_def sample_rate_valid_def Let_def)
  obtain ext n src1 where ext: "ext_adv_populate example_app 0 (a_rand example_answers) 128 []
       \<lparr>brdcst_id_buf = replicate 5 0, brdcst_appearance_buf = replicate 2 0, brdcst_name_buf = replicate 32 0,
        pba_buf = replicate 20 0\<rparr>
       (replicate (EXT_ADV_BUF_MAX example_app) \<lparr>ad_type = 0, ad_len = 0, ad_data = []\<rparr>) src = Some (0, ext, n, src1)"
    using example_ext_adv by blast
  obtain per cnt base where per: "per_adv_populate example_app 0 (a_base example_answers)
       (replicate 1 \<lparr>ad_type = 0, ad_len = 0, ad_data = []\<rparr>) 1 = Some (0, per, cnt)" "rd per 0 = Some base"
    using example_per_adv by auto
  have parts: "p_sys example_app = example_sys" "p_src example_app = example_bsrc_env" "m_src example_boot = example_src"
      "m_sys example_boot = sys_boot example_sys example_leds ()" "pref_sample_rate_hz example_app = 48000"
      "BITRATE_BROADCAST_SRC example_app = 96000" "p_uart_ready example_app"
    by (simp_all add: example_app_def example_boot_def)
  have zeros: "a_peripherals example_answers = 0" "a_fw_info example_answers = 0" "a_bt_mgmt example_answers = 0"
      "a_button example_answers = 0" "a_zbus_sub example_answers = 0" "a_zbus_link example_answers = 0"
      "a_adv_start example_answers = 0"
    by (simp_all add: example_answers_def)
  have uart: "fst (uart_adapter_init True zephyr_uart_adapter_create Pa_service_on_command) = 0"
    by (simp add: uart_adapter_init_def)
  show ?thesis
    unfolding main_init_def parts zeros uart
    by (simp only: s0 src s1 ext per uart parts zeros err_chk_0 Option.bind.bind_lunit prod.case Let_def simp_thms if_True)
      blast
qed

theorem application_follows_streams_witness:
  "\<exists>st0 st. main_init example_app example_answers [] example_boot = Some st0
    \<and> app_run example_app [App_host 0 0 0 example_stream, App_started 0 (Some (0, 0, 0)), App_msg,
        App_stopped 0 0 (Some (0, 0, 0)), App_msg] st0 = Some st
    \<and> (strm_state st = STATE_STREAMING \<longleftrightarrow> stream_started (sys_dp (m_sys st)))"
proof -
  let ?evs = "[App_host 0 0 0 example_stream, App_started 0 (Some (0, 0, 0)), App_msg,
        App_stopped 0 0 (Some (0, 0, 0)), App_msg]"
  obtain st0 where st0: "main_init example_app example_answers [] example_boot = Some st0"
    using example_main by blast
  have "codec_readable (t_le (b_tx (p_src example_app))) (stream_codec example_stream)"
    by (simp add: example_app_defs example_tx_defs codec_readable_def)
  then have "app_evs_ok example_app ?evs st0"
    by (simp add: app_ev_ok_def split: option.split)
  then show ?thesis
    using application_follows_streams [OF example_app_wf example_app_boot st0, of ?evs] st0
    by (fastforce simp: example_answers_def)
qed

theorem stereo_reaches_streams_witness:
  "\<exists>frame' src'. sw_codec_encode (example_codec False) example_buf \<lparr>m_config = example_codec_cfg True True, codec_ext = ()\<rparr>
      = Some (0, frame', \<lparr>m_config = example_codec_cfg True True, codec_ext = ()\<rparr>)
    \<and> (\<exists>m. broadcast_source_send example_bsrc_env (\<lambda>k. snd (example_txi 0)) frame' 0 0
          (example_src\<lparr>bs_tx := example_bt_tx, cap_streams := (\<lambda>i j k. example_stream)\<rparr>) = Some (0, m, src'))
    \<and> map sdu_data (iso_sent (bs_tx src')) = [[5], [6]]"
proof -
  let ?src = "example_src\<lparr>bs_tx := example_bt_tx, cap_streams := (\<lambda>i j k. example_stream)\<rparr>"
  let ?c = "\<lparr>m_config = example_codec_cfg True True, codec_ext = ()\<rparr>"
  let ?ans = "\<lambda>k :: nat. snd (example_txi 0)"
  have good: "tx_good example_tx 2 1 10000 example_bt_tx (stream_tx ?src k) (snd (example_txi 0))" if "k < 2" for k
  proof -
    have "stream_tx ?src k = fst (example_txi (of_nat k))" "(of_nat k :: u8) < 2"
      using that by (simp_all add: stream_tx_def example_txi_def u8_of_nat word_less_nat_alt)
    then show ?thesis using example_tx_good [of "of_nat k"] by (simp add: example_txi_def)
  qed
  have "\<exists>frame' src'. sw_codec_encode (example_codec False) example_buf ?c = Some (0, frame', ?c\<lparr>codec_ext := ()\<rparr>)
    \<and> broadcast_source_send example_bsrc_env ?ans frame' 0 0 ?src = Some (0, Some \<lparr>tx_sync_ts_us = fst (snd (a_sync (?ans 0))),
          curr_ts_us = a_now (?ans 0), adjust = True\<rparr>, src')
    \<and> map (\<lambda>s. (sdu_idx s, sdu_data s, sdu_ts s)) (iso_sent (bs_tx src'))
        = map (\<lambda>s. (sdu_idx s, sdu_data s, sdu_ts s)) (iso_sent (bs_tx ?src))
          @ [(\<lparr>lvl1 = 0, lvl2 = 0, lvl3 = 0\<rparr>, [5], 0), (\<lparr>lvl1 = 0, lvl2 = 0, lvl3 = 1\<rparr>, [6], fst (snd (a_sync (?ans 0))))]"
    by (rule stereo_reaches_streams [where l = "[5]" and r = "[6]" and ?x1.0 = "()" and iv = 10000])
      (use good in \<open>simp_all add: example_codec_defs stereo_tx_def example_bsrc_env_def example_tx_def example_src_def example_bt_tx_def\<close>)
  then obtain frame' src' where *: "sw_codec_encode (example_codec False) example_buf ?c = Some (0, frame', ?c)"
      "\<exists>m. broadcast_source_send example_bsrc_env ?ans frame' 0 0 ?src = Some (0, m, src')"
      "map (\<lambda>s. (sdu_idx s, sdu_data s, sdu_ts s)) (iso_sent (bs_tx src'))
          = [(\<lparr>lvl1 = 0, lvl2 = 0, lvl3 = 0\<rparr>, [5], 0), (\<lparr>lvl1 = 0, lvl2 = 0, lvl3 = 1\<rparr>, [6], fst (snd (a_sync (?ans 0))))]"
    by (auto simp: example_bt_tx_def)
  have sdus: "map sdu_data (iso_sent (bs_tx src')) = [[5], [6]]"
    using arg_cong [OF *(3), of "map (fst \<circ> snd)"] by (simp add: comp_def)
  show ?thesis
    by (rule exI [of _ frame'], rule exI [of _ src'], intro conjI, rule *(1), rule *(2), rule sdus)
qed

theorem button_replaces_transmission_witness:
  "\<exists>st st'. state (pa_ctx (svc (m_fw st))) = PA_STATE_PENDING
    \<and> app_run example_app [App_button 0 (\<lambda>_ _. 0) PA_BUTTON_ACTION, App_pa Timer_irq, App_pa run_work] st = Some st'
    \<and> custom_data (z_bt (world (m_fw st'))) = [0x54, 0x45, 0x53, 0x54, 0x30]"
proof -
  obtain st0 where st0: "main_init example_app example_answers [] example_boot = Some st0"
    using example_main by blast
  have inv0: "app_inv example_app st0"
    using main_init_inv [OF example_app_wf example_app_boot st0] by (simp add: example_answers_def)
  have count: "test_count st0 = 0" using st0 by (rule main_parts) (simp add: example_boot_def)
  let ?svc = "svc fw_example" and ?w = "world fw_example"
  define f where "f = fw_example\<lparr>svc := ?svc\<lparr>pa_ctx := (pa_ctx ?svc)\<lparr>state := PA_STATE_PENDING\<rparr>\<rparr>,
     world := ?w\<lparr>z_timer := \<lparr>ktimer = Some 250, timer_cb = Some Pa_service_on_pa_interval\<rparr>\<rparr>\<rparr>"
  have f: "fw_inv f" "queue f = []" "ktimer (z_timer (world f)) = Some 250" "ext_adv (z_ble (world f)) = Some 1"
    using reach_inv [OF fw_example_reach]
    by (simp_all add: f_def fw_example_facts fw_inv_def z_ok_def wf_svc_def wf_ctx_def)
  let ?st = "st0\<lparr>m_fw := f\<rparr>"
  have "app_inv example_app ?st" using inv0 f(1) by (simp add: app_inv_def)
  then have "state (pa_ctx (svc (m_fw ?st))) = PA_STATE_PENDING
    \<and> (\<exists>st'. app_run example_app [App_button 0 (\<lambda>_ _. 0) PA_BUTTON_ACTION, App_pa Timer_irq, App_pa run_work] ?st = Some st'
        \<and> z_wire (world (m_fw st')) = z_wire (world (m_fw ?st)) @ frame_data_send_complete
        \<and> custom_data (z_bt (world (m_fw st'))) = [0x54, 0x45, 0x53, 0x54] @ dec_digits (unat (test_count ?st)))"
    by (rule button_replaces_transmission) (use f(2-4) in simp_all)
  moreover have "[0x54, 0x45, 0x53, 0x54] @ dec_digits (unat (test_count ?st)) = [0x54, 0x45, 0x53, 0x54, 0x30]"
    using count by (simp add: dec_digits.simps [of 0])
  ultimately show ?thesis by (elim conjE exE) (rule exI, rule exI, intro conjI, assumption+, erule (1) trans)
qed

end
