(* ===== verification/LeAudioRx.thy ===== *)
theory LeAudioRx
  imports AudioSystem
begin

text \<open>
  Reception of ISO audio frames, \<open>src/audio/le_audio_rx.c\<close>: the frames of the channels of one
  moment are joined to one frame, which goes through the message queue \<open>ble_q_rx\<close> to the thread that
  feeds the audio datapath. \<open>None\<close> is undefined behaviour or a tripped \<open>ERR_CHK\<close>.
\<close>

section \<open>State\<close>

text \<open>
  \<open>x_num_ch\<close> is the SDK's \<open>metadata_num_ch_get\<close>, the number of channels of a set of locations;
  \<open>x_stale n\<close> the content of \<open>n\<close> bytes of a pool buffer that were not written.
\<close>

record rx_env =
  BLE_RX_PACKET_NUM :: nat
  BLE_RX_BUF_SIZE :: nat
  rx_is_gateway :: bool
  rx_usb :: bool
  SDU_REF_DELTA_MAX :: nat
  x_num_ch :: "u32 \<Rightarrow> nat"
  x_stale :: "nat \<Rightarrow> bytes"

record rx_stats =
  recv_cnt :: u32
  bad_frame_cnt :: u32

record le_audio_rx =
  rx_initialized :: bool
  rx_frame :: "net_buf option"
  rx_stats_arr :: "rx_stats list"
  rx_num_overruns :: u32
  rx_num_thrown :: u32
  ble_q_rx :: "net_buf list"
  ble_rx_pool :: nat

section \<open>Operations\<close>

definition audio_frame_add :: "rx_env \<Rightarrow> net_buf \<Rightarrow> bytes \<Rightarrow> audio_metadata \<Rightarrow> net_buf option" where
  "audio_frame_add e audio_frame audio_frame_rx meta =
     (if audio_frame_rx \<noteq> [] \<and> \<not> meta_bad_data meta
      then net_buf_add_mem audio_frame audio_frame_rx
      else net_buf_add_mem audio_frame (x_stale e (bytes_per_location meta * x_num_ch e (locations meta))))"

text \<open>\<open>k_msgq_put\<close> without waiting, under \<open>ERR_CHK\<close>: \<open>None\<close> if the queue is full.\<close>

definition ble_q_put :: "rx_env \<Rightarrow> net_buf \<Rightarrow> le_audio_rx \<Rightarrow> le_audio_rx option" where
  "ble_q_put e f st =
     (if length (ble_q_rx st) < BLE_RX_PACKET_NUM e then Some (st\<lparr>ble_q_rx := ble_q_rx st @ [f]\<rparr>) else None)"

text \<open>The difference of the reference times: \<open>abs\<close> of the smallest integer is undefined.\<close>

definition ref_ts_diff :: "u32 \<Rightarrow> u32 \<Rightarrow> nat option" where
  "ref_ts_diff a b = (let d = sint (a - b) in if d = - (2 ^ 31) then None else Some (nat \<bar>d\<bar>))"

definition rx_make_room :: "rx_env \<Rightarrow> le_audio_rx \<Rightarrow> le_audio_rx" where
  "rx_make_room e st =
     (if length (ble_q_rx st) < BLE_RX_PACKET_NUM e then st
      else case ble_q_rx st of
        [] \<Rightarrow> st
      | stale # q \<Rightarrow> st\<lparr>ble_q_rx := q, rx_num_overruns := rx_num_overruns st + 1,
                        ble_rx_pool := ble_rx_pool st + 1\<rparr>)"

text \<open>The label \<open>check_send\<close>: the frame goes on when it has the channels waited for.\<close>

definition check_send :: "rx_env \<Rightarrow> nat \<Rightarrow> net_buf \<Rightarrow> le_audio_rx \<Rightarrow> le_audio_rx option" where
  "check_send e sync_num f st =
     (if sync_num = x_num_ch e (locations (buf_meta f))
      then ble_q_put e f (st\<lparr>rx_frame := None\<rparr>)
      else Some (st\<lparr>rx_frame := Some f\<rparr>))"

text \<open>A frame of a new moment; \<open>now\<close> is the captured time.\<close>

definition rx_new_frame ::
  "rx_env \<Rightarrow> nat \<Rightarrow> u32 \<Rightarrow> bytes \<Rightarrow> audio_metadata \<Rightarrow> le_audio_rx \<Rightarrow> le_audio_rx option" where
  "rx_new_frame e sync_num now audio_frame_rx meta st =
     (let meta = meta\<lparr>meta_data_rx_ts_us := now\<rparr> in
      if ble_rx_pool st = 0 then Some (st\<lparr>rx_frame := None\<rparr>)
      else do {
        let st = st\<lparr>ble_rx_pool := ble_rx_pool st - 1\<rparr>;
        f \<leftarrow> audio_frame_add e \<lparr>buf_data = [], buf_size = BLE_RX_BUF_SIZE e, buf_meta = meta\<rparr> audio_frame_rx meta;
        check_send e sync_num f st })"

text \<open>
  The frame is joined to the one waiting if they are of the same moment; otherwise the one waiting
  goes on as it is.
\<close>

definition rx_join ::
  "rx_env \<Rightarrow> nat \<Rightarrow> u32 \<Rightarrow> bytes \<Rightarrow> audio_metadata \<Rightarrow> le_audio_rx \<Rightarrow> le_audio_rx option" where
  "rx_join e sync_num now audio_frame_rx meta st = (case rx_frame st of
     None \<Rightarrow> rx_new_frame e sync_num now audio_frame_rx meta st
   | Some f \<Rightarrow> do {
       diff \<leftarrow> ref_ts_diff (meta_ref_ts_us meta) (meta_ref_ts_us (buf_meta f));
       if diff < SDU_REF_DELTA_MAX e then
         if locations (buf_meta f) \<noteq> locations meta then do {
           let m = (buf_meta f)\<lparr>locations := or (locations (buf_meta f)) (locations meta),
                     meta_bad_data := meta_bad_data (buf_meta f) \<or> meta_bad_data meta\<rparr>;
           f \<leftarrow> audio_frame_add e (f\<lparr>buf_meta := m\<rparr>) audio_frame_rx meta;
           check_send e sync_num f st }
         else Some st
       else do {
         st \<leftarrow> ble_q_put e f st;
         rx_new_frame e sync_num now audio_frame_rx meta (st\<lparr>rx_frame := None\<rparr>) } })"

definition rx_count :: "audio_metadata \<Rightarrow> nat \<Rightarrow> le_audio_rx \<Rightarrow> le_audio_rx option" where
  "rx_count meta channel_index st = do {
     c \<leftarrow> rd (rx_stats_arr st) channel_index;
     let c = c\<lparr>recv_cnt := recv_cnt c + 1\<rparr>;
     let c = (if meta_bad_data meta then c\<lparr>bad_frame_cnt := bad_frame_cnt c + 1\<rparr> else c);
     Some (st\<lparr>rx_stats_arr := (rx_stats_arr st)[channel_index := c]\<rparr>) }"

text \<open>\<open>sync_num\<close> is \<open>le_audio_concurrent_sync_num_get()\<close>, \<open>streaming\<close> the state of the stream.\<close>

definition le_audio_rx_data_handler ::
  "rx_env \<Rightarrow> bool \<Rightarrow> nat \<Rightarrow> u32 \<Rightarrow> bytes \<Rightarrow> audio_metadata \<Rightarrow> nat \<Rightarrow> le_audio_rx \<Rightarrow> le_audio_rx option" where
  "le_audio_rx_data_handler e streaming sync_num now audio_frame_rx meta channel_index st = do {
     assert_ok (rx_initialized st);
     st \<leftarrow> rx_count meta channel_index st;
     if \<not> streaming then Some (st\<lparr>rx_num_thrown := rx_num_thrown st + 1\<rparr>)
     else if channel_index \<noteq> 0 \<and> rx_is_gateway e then Some st
     else rx_join e sync_num now audio_frame_rx meta (rx_make_room e st) }"

text \<open>
  One pass of the datapath thread, when the queue has a frame: to the decoder for USB on a gateway,
  to the datapath otherwise; then the buffer is returned.
\<close>

definition audio_datapath_thread ::
  "rx_env \<Rightarrow> 'x sys_env \<Rightarrow> le_audio_rx \<times> 'x audio_system \<Rightarrow> (le_audio_rx \<times> 'x audio_system) option" where
  "audio_datapath_thread e se = (\<lambda>(st, sys). case ble_q_rx st of
     [] \<Rightarrow> Some (st, sys)
   | f # q \<Rightarrow> do {
       sys \<leftarrow> (if rx_usb e \<and> rx_is_gateway e
               then do { (ret, sys) \<leftarrow> audio_system_decode se f sys; err_chk ret; Some sys }
               else sys_stream_out se f sys);
       Some (st\<lparr>ble_q_rx := q, ble_rx_pool := ble_rx_pool st + 1\<rparr>, sys) })"

definition le_audio_rx_init :: "le_audio_rx \<Rightarrow> int \<times> le_audio_rx" where
  "le_audio_rx_init st =
     (if rx_initialized st then (- EALREADY, st) else (0, st\<lparr>rx_initialized := True\<rparr>))"

section \<open>Reception as a system\<close>

datatype rx_event = Rx_data bool u32 bytes audio_metadata nat | Rx_thread

definition rx_step ::
  "rx_env \<Rightarrow> 'x sys_env \<Rightarrow> nat \<Rightarrow> rx_event \<Rightarrow> le_audio_rx \<times> 'x audio_system \<Rightarrow> (le_audio_rx \<times> 'x audio_system) option" where
  "rx_step e se n ev s = (case ev of
     Rx_data streaming now d m ch \<Rightarrow>
       map_option (\<lambda>st. (st, snd s)) (le_audio_rx_data_handler e streaming n now d m ch (fst s))
   | Rx_thread \<Rightarrow> audio_datapath_thread e se s)"

fun rx_run ::
  "rx_env \<Rightarrow> 'x sys_env \<Rightarrow> nat \<Rightarrow> rx_event list \<Rightarrow> le_audio_rx \<times> 'x audio_system \<Rightarrow> (le_audio_rx \<times> 'x audio_system) option" where
  "rx_run e se n [] s = Some s"
| "rx_run e se n (ev # evs) s = do { s \<leftarrow> rx_step e se n ev s; rx_run e se n evs s }"

text \<open>
  What is relied on: the number of channels counts locations, the pool's buffers hold two channels of
  at most \<open>mtu\<close> bytes, and the datapath is fed (no USB).
\<close>

definition rx_env_ok :: "rx_env \<Rightarrow> nat \<Rightarrow> bool" where
  "rx_env_ok e mtu \<longleftrightarrow> 0 < BLE_RX_PACKET_NUM e \<and> 2 * mtu \<le> BLE_RX_BUF_SIZE e \<and> \<not> rx_usb e
     \<and> (\<forall>n. length (x_stale e n) = n)
     \<and> (\<forall>a b. x_num_ch e a = 1 \<longrightarrow> x_num_ch e b = 1 \<longrightarrow> a \<noteq> b \<longrightarrow> x_num_ch e (or a b) = 2)"

text \<open>
  A frame of one channel that fits, from a channel of the array; its reference time is not
  exactly half the range of the clock away from the frame waiting.
\<close>

definition rx_data_ok :: "rx_env \<Rightarrow> nat \<Rightarrow> bytes \<Rightarrow> audio_metadata \<Rightarrow> nat \<Rightarrow> le_audio_rx \<Rightarrow> bool" where
  "rx_data_ok e mtu d m ch st \<longleftrightarrow> ch < length (rx_stats_arr st) \<and> x_num_ch e (locations m) = 1
     \<and> length d \<le> mtu \<and> bytes_per_location m \<le> mtu
     \<and> (\<forall>f. rx_frame st = Some f \<longrightarrow> ref_ts_diff (meta_ref_ts_us m) (meta_ref_ts_us (buf_meta f)) \<noteq> None)"

text \<open>The frame at the head of the queue, if the datapath takes it up, is decoded.\<close>

definition rx_thread_ok :: "'x sys_env \<Rightarrow> le_audio_rx \<times> 'x audio_system \<Rightarrow> bool" where
  "rx_thread_ok se s \<longleftrightarrow> (case ble_q_rx (fst s) of [] \<Rightarrow> True | f # q \<Rightarrow> decodes se f (snd s))"

fun rx_evs_ok :: "rx_env \<Rightarrow> 'x sys_env \<Rightarrow> nat \<Rightarrow> nat \<Rightarrow> rx_event list \<Rightarrow> le_audio_rx \<times> 'x audio_system \<Rightarrow> bool" where
  "rx_evs_ok e se n mtu [] s = True"
| "rx_evs_ok e se n mtu (ev # evs) s =
     ((case ev of Rx_data _ _ d m ch \<Rightarrow> rx_data_ok e mtu d m ch (fst s) | Rx_thread \<Rightarrow> rx_thread_ok se s)
      \<and> (case rx_step e se n ev s of None \<Rightarrow> True | Some s' \<Rightarrow> rx_evs_ok e se n mtu evs s'))"

definition rx_buffers :: "le_audio_rx \<Rightarrow> nat" where
  "rx_buffers st = ble_rx_pool st + length (ble_q_rx st) + (case rx_frame st of None \<Rightarrow> 0 | Some _ \<Rightarrow> 1)"

text \<open>A frame waits only if two channels are expected; it is then of one channel.\<close>

definition rx_inv :: "rx_env \<Rightarrow> nat \<Rightarrow> nat \<Rightarrow> le_audio_rx \<Rightarrow> bool" where
  "rx_inv e n mtu st \<longleftrightarrow> rx_initialized st \<and> length (ble_q_rx st) \<le> BLE_RX_PACKET_NUM e
     \<and> (case rx_frame st of None \<Rightarrow> True
        | Some f \<Rightarrow> n = 2 \<and> x_num_ch e (locations (buf_meta f)) = 1 \<and> length (buf_data f) \<le> mtu
                    \<and> buf_size f = BLE_RX_BUF_SIZE e)"

lemma audio_frame_add_ok:
  assumes "rx_env_ok e mtu" and "x_num_ch e (locations m) = 1" and "length d \<le> mtu" and "bytes_per_location m \<le> mtu"
    and "length (buf_data f) \<le> k" and "k + mtu \<le> buf_size f"
  shows "\<exists>b. audio_frame_add e f d m = Some (f\<lparr>buf_data := b\<rparr>) \<and> length b \<le> k + mtu"
  using assms
  by (auto simp: audio_frame_add_def net_buf_add_mem_def rx_env_ok_def
      intro!: exI [of _ "buf_data f @ (if d \<noteq> [] \<and> \<not> meta_bad_data m then d else x_stale e (bytes_per_location m))"])

lemma rx_make_room_inv:
  assumes "rx_env_ok e mtu" and "rx_inv e n mtu st"
  shows "rx_inv e n mtu (rx_make_room e st) \<and> length (ble_q_rx (rx_make_room e st)) < BLE_RX_PACKET_NUM e
     \<and> rx_buffers (rx_make_room e st) = rx_buffers st \<and> rx_frame (rx_make_room e st) = rx_frame st"
  using assms
  by (cases "ble_q_rx st") (auto simp: rx_make_room_def rx_inv_def rx_buffers_def rx_env_ok_def)

lemma rx_new_frame_inv:
  assumes "rx_env_ok e mtu" and "n = 1 \<or> n = 2" and "rx_inv e n mtu st" and "rx_frame st = None"
    and "n = 1 \<Longrightarrow> length (ble_q_rx st) < BLE_RX_PACKET_NUM e"
    and "x_num_ch e (locations m) = 1" "length d \<le> mtu" "bytes_per_location m \<le> mtu"
  shows "\<exists>st'. rx_new_frame e n now d m st = Some st' \<and> rx_inv e n mtu st' \<and> rx_buffers st' = rx_buffers st"
proof -
  let ?m = "m\<lparr>meta_data_rx_ts_us := now\<rparr>"
  let ?f = "\<lparr>buf_data = [], buf_size = BLE_RX_BUF_SIZE e, buf_meta = ?m\<rparr>"
  have "mtu + mtu \<le> BLE_RX_BUF_SIZE e" using assms(1) by (simp add: rx_env_ok_def)
  then have "\<exists>b. audio_frame_add e ?f d ?m = Some (?f\<lparr>buf_data := b\<rparr>) \<and> length b \<le> 0 + mtu"
    using assms(6-8) by (intro audio_frame_add_ok [OF assms(1)]) simp_all
  then obtain b where b: "audio_frame_add e ?f d ?m = Some (?f\<lparr>buf_data := b\<rparr>)" "length b \<le> mtu" by auto
  show ?thesis
    using assms(2-6) b
    by (auto simp: rx_new_frame_def check_send_def ble_q_put_def rx_inv_def rx_buffers_def Let_def)
qed

lemma rx_handler_inv:
  assumes "rx_env_ok e mtu" and "n = 1 \<or> n = 2" and "rx_inv e n mtu st" and "rx_data_ok e mtu d m ch st"
  shows "\<exists>st'. le_audio_rx_data_handler e streaming n now d m ch st = Some st' \<and> rx_inv e n mtu st'
     \<and> rx_buffers st' = rx_buffers st"
proof -
  have ok: "ch < length (rx_stats_arr st)" "x_num_ch e (locations m) = 1" "length d \<le> mtu" "bytes_per_location m \<le> mtu"
    using assms(4) by (simp_all add: rx_data_ok_def)
  obtain s1 where s1: "rx_count m ch st = Some s1" "rx_inv e n mtu s1" "rx_buffers s1 = rx_buffers st"
      "rx_frame s1 = rx_frame st"
    using ok(1) assms(3) by (simp add: rx_count_def rd_def rx_inv_def rx_buffers_def Let_def)
  have run: "le_audio_rx_data_handler e streaming n now d m ch st =
      (if \<not> streaming then Some (s1\<lparr>rx_num_thrown := rx_num_thrown s1 + 1\<rparr>)
       else if ch \<noteq> 0 \<and> rx_is_gateway e then Some s1 else rx_join e n now d m (rx_make_room e s1))"
    using s1(1) assms(3) by (simp add: le_audio_rx_data_handler_def rx_inv_def)
  let ?s2 = "rx_make_room e s1"
  have s2: "rx_inv e n mtu ?s2" "length (ble_q_rx ?s2) < BLE_RX_PACKET_NUM e" "rx_buffers ?s2 = rx_buffers st"
      "rx_frame ?s2 = rx_frame st"
    using rx_make_room_inv [OF assms(1) s1(2)] s1(3,4) by simp_all
  show ?thesis
  proof (cases "streaming \<and> \<not> (ch \<noteq> 0 \<and> rx_is_gateway e)")
    case False
    then show ?thesis using run s1 by (auto simp: rx_inv_def rx_buffers_def)
  next
    case go: True
    show ?thesis
    proof (cases "rx_frame st")
      case None
      then show ?thesis
        using rx_new_frame_inv [OF assms(1,2) s2(1) _ s2(2) ok(2-4)] go run s2(3,4) by (auto simp: rx_join_def)
    next
      case (Some f)
      have f: "n = 2" "x_num_ch e (locations (buf_meta f)) = 1" "length (buf_data f) \<le> mtu" "buf_size f = BLE_RX_BUF_SIZE e"
        using assms(3) Some by (simp_all add: rx_inv_def)
      obtain diff where diff: "ref_ts_diff (meta_ref_ts_us m) (meta_ref_ts_us (buf_meta f)) = Some diff"
        using assms(4) Some by (auto simp: rx_data_ok_def)
      let ?m = "(buf_meta f)\<lparr>locations := or (locations (buf_meta f)) (locations m),
                         meta_bad_data := meta_bad_data (buf_meta f) \<or> meta_bad_data m\<rparr>"
      have room: "mtu + mtu \<le> buf_size (f\<lparr>buf_meta := ?m\<rparr>)" using assms(1) f(4) by (simp add: rx_env_ok_def)
      obtain b where b: "audio_frame_add e (f\<lparr>buf_meta := ?m\<rparr>) d m = Some (f\<lparr>buf_meta := ?m, buf_data := b\<rparr>)"
        using audio_frame_add_ok [OF assms(1) ok(2-4) _ room] f(3) by auto
      have two: "x_num_ch e (or (locations (buf_meta f)) (locations m)) = 2" if "locations (buf_meta f) \<noteq> locations m"
        using assms(1) that f(2) ok(2) by (simp add: rx_env_ok_def)
      have join: "\<exists>t. check_send e n (f\<lparr>buf_meta := ?m, buf_data := b\<rparr>) ?s2 = Some t \<and> rx_inv e n mtu t
          \<and> rx_buffers t = rx_buffers st" if "locations (buf_meta f) \<noteq> locations m"
        using two [OF that] s2 f(1) Some
        by (auto simp: check_send_def ble_q_put_def rx_inv_def rx_buffers_def)
      let ?t = "?s2\<lparr>ble_q_rx := ble_q_rx ?s2 @ [f], rx_frame := None\<rparr>"
      have "rx_inv e n mtu ?t" "rx_buffers ?t = rx_buffers st"
        using s2 Some by (auto simp: rx_inv_def rx_buffers_def)
      then have new: "\<exists>st'. rx_new_frame e n now d m ?t = Some st' \<and> rx_inv e n mtu st' \<and> rx_buffers st' = rx_buffers st"
        using rx_new_frame_inv [OF assms(1,2) _ _ _ ok(2-4), of ?t now] f(1) by auto
      show ?thesis
        using go run Some s2 diff b join new by (auto simp: rx_join_def ble_q_put_def Let_def)
    qed
  qed
qed

lemma rx_thread_inv:
  assumes "rx_env_ok e mtu" and "rx_inv e n mtu st" and "sys_externals_ok se" and "sys_inv se sys"
    and "rx_thread_ok se (st, sys)"
  shows "\<exists>st' sys'. audio_datapath_thread e se (st, sys) = Some (st', sys') \<and> rx_inv e n mtu st'
     \<and> rx_buffers st' = rx_buffers st \<and> sys_inv se sys'"
proof (cases "ble_q_rx st")
  case Nil
  then show ?thesis using assms by (simp add: audio_datapath_thread_def)
next
  case (Cons f q)
  then have "decodes se f sys" using assms(5) by (simp add: rx_thread_ok_def)
  then obtain sys' where "sys_stream_out se f sys = Some sys'" "sys_inv se sys'"
    using sys_frame_inv [OF assms(3,4)] by blast
  then show ?thesis
    using Cons assms(1,2)
    by (auto simp: audio_datapath_thread_def rx_env_ok_def rx_inv_def rx_buffers_def split: option.splits)
qed

lemma rx_run_inv:
  "rx_env_ok e mtu \<Longrightarrow> n = 1 \<or> n = 2 \<Longrightarrow> sys_externals_ok se \<Longrightarrow> rx_inv e n mtu (fst s) \<Longrightarrow> sys_inv se (snd s) \<Longrightarrow>
   rx_evs_ok e se n mtu evs s \<Longrightarrow>
   \<exists>s'. rx_run e se n evs s = Some s' \<and> rx_inv e n mtu (fst s') \<and> rx_buffers (fst s') = rx_buffers (fst s) \<and> sys_inv se (snd s')"
proof (induction evs arbitrary: s)
  case (Cons ev evs)
  have "\<exists>s1. rx_step e se n ev s = Some s1 \<and> rx_inv e n mtu (fst s1) \<and> rx_buffers (fst s1) = rx_buffers (fst s) \<and> sys_inv se (snd s1)"
  proof (cases ev)
    case (Rx_data streaming now d m ch)
    then have "rx_data_ok e mtu d m ch (fst s)" using Cons.prems(6) by simp
    then show ?thesis
      using rx_handler_inv [OF Cons.prems(1,2,4)] Cons.prems(5) Rx_data by (fastforce simp: rx_step_def)
  next
    case Rx_thread
    then show ?thesis
      using rx_thread_inv [OF Cons.prems(1,4,3,5)] Cons.prems(6) by (cases s) (auto simp: rx_step_def)
  qed
  then show ?case using Cons by fastforce
qed simp

section \<open>Example\<close>

definition example_rx_env :: rx_env where
  "example_rx_env = \<lparr>BLE_RX_PACKET_NUM = 2, BLE_RX_BUF_SIZE = 8, rx_is_gateway = False, rx_usb = False,
     SDU_REF_DELTA_MAX = 10, x_num_ch = POPCOUNT, x_stale = (\<lambda>n. replicate n 0)\<rparr>"

definition example_rx :: "net_buf option \<Rightarrow> net_buf list \<Rightarrow> le_audio_rx" where
  "example_rx f q = \<lparr>rx_initialized = True, rx_frame = f, rx_stats_arr = replicate 2 \<lparr>recv_cnt = 0, bad_frame_cnt = 0\<rparr>,
     rx_num_overruns = 0, rx_num_thrown = 0, ble_q_rx = q, ble_rx_pool = 1\<rparr>"

text \<open>A frame of one channel of the given location and reference time.\<close>

definition example_meta :: "u32 \<Rightarrow> u32 \<Rightarrow> audio_metadata" where
  "example_meta loc ts = \<lparr>data_coding = LC3, data_len_us = 10000, bytes_per_location = 1, locations = loc,
     meta_ref_ts_us = ts, meta_data_rx_ts_us = 0, meta_bad_data = False\<rparr>"

lemma popcount_one: "POPCOUNT a = 1 \<Longrightarrow> POPCOUNT b = 1 \<Longrightarrow> a \<noteq> b \<Longrightarrow> POPCOUNT (or a b) = 2"
proof -
  assume a: "POPCOUNT a = 1" and b: "POPCOUNT b = 1" and ne: "a \<noteq> b"
  obtain i where i: "filter (bit a) [0..<32] = [i]" using a by (auto simp: POPCOUNT_def length_Suc_conv)
  obtain j where j: "filter (bit b) [0..<32] = [j]" using b by (auto simp: POPCOUNT_def length_Suc_conv)
  have bits: "bit a k = (k = i)" "bit b k = (k = j)" if "k < 32" for k
    using that arg_cong [OF i, of set] arg_cong [OF j, of set] by auto
  have lt: "i < 32" "j < 32"
    using arg_cong [OF i, of set] arg_cong [OF j, of set] by auto
  have "i \<noteq> j"
  proof
    assume "i = j"
    then have "a = b" using bits by (intro bit_word_eqI) simp
    then show False using ne by simp
  qed
  have "filter (bit (or a b)) [0..<32] = filter (\<lambda>k. k = i \<or> k = j) [0..<32]"
    using bits by (intro filter_cong) (auto simp: bit_or_iff)
  moreover have "distinct (filter (\<lambda>k. k = i \<or> k = j) [0..<32])"
      "set (filter (\<lambda>k. k = i \<or> k = j) [0..<32]) = {i, j}"
    using lt by auto
  ultimately show "POPCOUNT (or a b) = 2"
    using \<open>i \<noteq> j\<close> by (metis POPCOUNT_def card_2_iff distinct_card)
qed

lemma example_rx_env_ok: "rx_env_ok example_rx_env 4"
  using popcount_one by (simp add: rx_env_ok_def example_rx_env_def)

section \<open>Properties\<close>

text \<open>C38: Reception never trips an error check, and loses no buffer. While the number of synchronised
  streams stays one or two, for every sequence of received frames, streaming or not, good or bad, and
  passes of the datapath thread: no operation leaves its arrays, overflows a buffer or trips an error
  check; the queue never holds more than its size; and every buffer of the pool is either free, in the
  queue, or the one frame waiting for its other channel. This is shown for frames of one channel,
  whose index the statistics have a place for and of which two fit into a buffer; for reference times
  that are not exactly 2^31 microseconds from that of the waiting frame (the code takes abs of the
  smallest integer there); and for passes of the thread in which sw_codec_decode decodes the frame if
  the datapath takes it up (after a decoding error the datapath reads an uninitialised size). Between
  the events the audio system stays as it is; its libraries and drivers are assumed to succeed, and
  the USB source is not built in.\<close>

theorem reception_safe:
  assumes "rx_env_ok e mtu" and "n = 1 \<or> n = 2" and "sys_externals_ok se" and "rx_inv e n mtu st"
    and "sys_inv se sys" and "rx_evs_ok e se n mtu evs (st, sys)"
  shows "\<exists>st' sys'. rx_run e se n evs (st, sys) = Some (st', sys')
    \<and> length (ble_q_rx st') \<le> BLE_RX_PACKET_NUM e
    \<and> ble_rx_pool st' + length (ble_q_rx st') + (if rx_frame st' = None then 0 else 1)
        = ble_rx_pool st + length (ble_q_rx st) + (if rx_frame st = None then 0 else 1)
    \<and> (n = 1 \<longrightarrow> rx_frame st' = None)"
proof -
  obtain st' sys' where s': "rx_run e se n evs (st, sys) = Some (st', sys')" "rx_inv e n mtu st'"
      "rx_buffers st' = rx_buffers st"
    using rx_run_inv [OF assms(1-3), of "(st, sys)" evs] assms(4-6) by auto
  then show ?thesis
    by (auto simp: rx_inv_def rx_buffers_def split: option.splits)
qed

text \<open>Two channels of a moment, and a pass of the thread that decodes the frame they make.\<close>

definition example_rx_events :: "rx_event list" where
  "example_rx_events = [Rx_data True 1000 [1, 0] ((example_meta 1 1000)\<lparr>bytes_per_location := 2\<rparr>) 0,
     Rx_data True 1001 [2, 0] ((example_meta 2 1003)\<lparr>bytes_per_location := 2\<rparr>) 1, Rx_thread]"

lemma example_rx_events_ok:
  assumes "sw_codec (m_config (sys_codec sys)) = SW_CODEC_LC3"
    and "decoder (m_config (sys_codec sys)) = \<lparr>dec_enabled = True, dec_channel_mode = 1, dec_num_ch = 1, dec_audio_ch = 0,
           dec_sample_rate_hz = 48000\<rparr>"
  shows "rx_evs_ok example_rx_env example_sys 2 4 example_rx_events (example_rx None [], sys)"
proof -
  have p: "POPCOUNT 1 = 1" "POPCOUNT 2 = 1" "POPCOUNT 3 = 2" by (simp_all add: POPCOUNT_def upt_rec)
  have d: "ref_ts_diff 1003 1000 = Some 3" by (simp add: ref_ts_diff_def Let_def)
  have dec: "decodes example_sys f sys" if "buf_data f = [1, 0, 2, 0]" for f
    using example_sys_decodes [OF assms that] by (simp add: decodes_def)
  show ?thesis
    by (simp add: example_rx_events_def example_rx_def example_rx_env_def example_meta_def rx_data_ok_def p d
        rx_step_def le_audio_rx_data_handler_def rx_count_def rd_def Let_def rx_make_room_def rx_join_def
        rx_new_frame_def audio_frame_add_def net_buf_add_mem_def check_send_def ble_q_put_def rx_thread_ok_def dec
        split: option.split)
qed

theorem reception_safe_witness:
  "\<exists>sys st' sys'. sys_running sys
    \<and> rx_run example_rx_env example_sys 2 example_rx_events (example_rx None [], sys) = Some (st', sys')
    \<and> length (ble_q_rx st') \<le> 2"
proof -
  obtain st0 where st0: "audio_system_init example_sys (sys_boot example_sys example_leds ()) = Some (0, st0)"
      "sys_inv example_sys st0"
    using example_sys_init by blast
  obtain sys where run: "sys_run example_sys [Sys_config 48000 96000 48000, Sys_start] st0 = Some sys"
      "sys_evs_ok example_sys [Sys_config 48000 96000 48000, Sys_start] st0"
      "sys_dp sys = example_dp\<lparr>leds := example_leds\<rparr>" "sw_codec (m_config (sys_codec sys)) = SW_CODEC_LC3"
      "decoder (m_config (sys_codec sys)) = \<lparr>dec_enabled = True, dec_channel_mode = 1, dec_num_ch = 1, dec_audio_ch = 0,
           dec_sample_rate_hz = 48000\<rparr>"
    by (rule example_sys_started [OF st0(1)])
  have sys: "sys_inv example_sys sys" "sys_running sys"
    using sys_run_inv [OF example_sys_ok st0(2) run(2)] run(1,3)
    by (auto simp: sys_running_def example_dp_simps)
  have inv: "rx_inv example_rx_env 2 4 (example_rx None [])"
    by (simp add: rx_inv_def example_rx_def)
  show ?thesis
    using reception_safe [OF example_rx_env_ok _ example_sys_ok inv sys(1) example_rx_events_ok [OF run(4,5)]] sys(2)
    by (auto simp: example_rx_env_def)
qed

text \<open>The channels of one moment are joined in the order in which they arrive. With two streams
  synchronised and room in the queue, a good frame a of one channel and then a good frame b of
  another location with a reference time less than the limit away make one frame in the queue: its
  bytes are a followed by b, its locations both, its reference and reception times those of the
  first. The stereo decoder therefore hands a to its decoder 0, whose output is the left channel,
  even if a came from the right: the code sorts nowhere.\<close>

lemma channels_joined_by_arrival:
  assumes "rx_env_ok e mtu" and "rx_inv e 2 mtu st" and "rx_frame st = None" and "0 < ble_rx_pool st"
    and "length (ble_q_rx st) < BLE_RX_PACKET_NUM e" and "\<not> rx_is_gateway e"
    and "rx_data_ok e mtu a m1 c1 st" and "rx_data_ok e mtu b m2 c2 (st\<lparr>rx_frame := None\<rparr>)"
    and "a \<noteq> []" and "b \<noteq> []" and "\<not> meta_bad_data m1" and "\<not> meta_bad_data m2"
    and "locations m1 \<noteq> locations m2"
    and "\<bar>sint (meta_ref_ts_us m2 - meta_ref_ts_us m1)\<bar> < int (SDU_REF_DELTA_MAX e)"
    and "SDU_REF_DELTA_MAX e \<le> 2 ^ 31"
    and "length a = length b" and "stereo_rx e' c"
    and "x_dec_run e' 0 a False (codec_ext c) = (0, pl, y1)" and "x_dec_run e' 1 b False y1 = (0, pr, y2)"
    and "length pl \<le> PCM_NUM_BYTES_MONO e'" and "length pr = length pl" and "length pr < 2 ^ 16"
    and "x_combine e' pl pr = (0, s)" and "length s \<le> PCM_NUM_BYTES_STEREO e'"
  shows "\<exists>st1 st2 f. le_audio_rx_data_handler e True 2 t1 a m1 c1 st = Some st1
    \<and> le_audio_rx_data_handler e True 2 t2 b m2 c2 st1 = Some st2
    \<and> ble_q_rx st2 = ble_q_rx st @ [f] \<and> rx_frame st2 = None
    \<and> buf_data f = a @ b \<and> locations (buf_meta f) = or (locations m1) (locations m2)
    \<and> meta_ref_ts_us (buf_meta f) = meta_ref_ts_us m1 \<and> meta_data_rx_ts_us (buf_meta f) = t1
    \<and> sw_codec_decode e' f c = Some (0, Some s, c\<lparr>codec_ext := y2\<rparr>)"
proof -
  have ok: "c1 < length (rx_stats_arr st)" "c2 < length (rx_stats_arr st)" "x_num_ch e (locations m1) = 1"
      "x_num_ch e (or (locations m1) (locations m2)) = 2" "length a + length b \<le> BLE_RX_BUF_SIZE e" "rx_initialized st"
    using assms(1,2,7,8,13) by (auto simp: rx_data_ok_def rx_env_ok_def rx_inv_def)
  obtain s1 where s1: "rx_count m1 c1 st = Some s1" "s1 = st\<lparr>rx_stats_arr := rx_stats_arr s1\<rparr>"
      "length (rx_stats_arr s1) = length (rx_stats_arr st)"
    using ok(1) by (simp add: rx_count_def rd_def Let_def)
  let ?f1 = "\<lparr>buf_data = a, buf_size = BLE_RX_BUF_SIZE e, buf_meta = m1\<lparr>meta_data_rx_ts_us := t1\<rparr>\<rparr>"
  let ?t1 = "s1\<lparr>ble_rx_pool := ble_rx_pool st - 1, rx_frame := Some ?f1\<rparr>"
  have room: "rx_make_room e u = u" if "ble_q_rx u = ble_q_rx st" for u
    using assms(5) that by (simp add: rx_make_room_def)
  have q1: "ble_q_rx s1 = ble_q_rx st" "rx_frame s1 = None" "ble_rx_pool s1 = ble_rx_pool st" "rx_initialized s1"
    using ok(6) assms(3) by (subst s1(2), simp)+
  have h1: "le_audio_rx_data_handler e True 2 t1 a m1 c1 st = Some ?t1"
    using s1(1) ok(3,5,6) assms(4,6,9,11) q1 room [OF q1(1)]
    by (simp add: le_audio_rx_data_handler_def rx_join_def rx_new_frame_def audio_frame_add_def net_buf_add_mem_def
        check_send_def)
  obtain s2 where s2: "rx_count m2 c2 ?t1 = Some s2" "s2 = ?t1\<lparr>rx_stats_arr := rx_stats_arr s2\<rparr>"
    using ok(2) s1(3) by (simp add: rx_count_def rd_def Let_def)
  let ?f = "?f1\<lparr>buf_data := a @ b, buf_meta := (m1\<lparr>meta_data_rx_ts_us := t1\<rparr>)
     \<lparr>locations := or (locations m1) (locations m2), meta_bad_data := False\<rparr>\<rparr>"
  have q2: "ble_q_rx s2 = ble_q_rx st" "rx_frame s2 = Some ?f1"
    using q1(1) by (subst s2(2), simp)+
  have diff: "\<exists>d. ref_ts_diff (meta_ref_ts_us m2) (meta_ref_ts_us m1) = Some d \<and> d < SDU_REF_DELTA_MAX e"
    using assms(14,15) by (auto simp: ref_ts_diff_def Let_def)
  have h2: "le_audio_rx_data_handler e True 2 t2 b m2 c2 ?t1 = Some (s2\<lparr>rx_frame := None, ble_q_rx := ble_q_rx st @ [?f]\<rparr>)"
    using s2(1) q1(4) q2 room [OF q2(1)] diff assms(5,6,10,11,12,13) ok(4,5)
    by (auto simp: le_audio_rx_data_handler_def rx_join_def audio_frame_add_def net_buf_add_mem_def check_send_def
        ble_q_put_def Let_def)
  have "sw_codec_decode e' ?f c = Some (0, Some s, c\<lparr>codec_ext := y2\<rparr>)"
    by (rule decode_stereo_halves [OF assms(17) _ assms(16)]) (use assms(18-24) in simp_all)
  then show ?thesis
    using h1 h2 by (intro exI [of _ ?t1] exI conjI) (rule h1, rule h2, simp_all)
qed

theorem channels_joined_by_arrival_witness:
  "\<exists>st1 st2 f. le_audio_rx_data_handler example_rx_env True 2 5 [1] (example_meta 2 100) 1 (example_rx None []) = Some st1
    \<and> le_audio_rx_data_handler example_rx_env True 2 6 [2] (example_meta 1 103) 0 st1 = Some st2
    \<and> ble_q_rx st2 = [f] \<and> buf_data f = [1] @ [2]
    \<and> sw_codec_decode (example_codec False) f \<lparr>m_config = example_codec_cfg False True, codec_ext = ()\<rparr>
        = Some (0, Some [1, 2], \<lparr>m_config = example_codec_cfg False True, codec_ext = ()\<rparr>)"
proof -
  let ?c = "\<lparr>m_config = example_codec_cfg False True, codec_ext = ()\<rparr>"
  have p: "POPCOUNT 1 = 1" "POPCOUNT 2 = 1" by (simp_all add: POPCOUNT_def upt_rec)
  have rx: "rx_inv example_rx_env 2 4 (example_rx None [])"
    by (simp add: rx_inv_def example_rx_def)
  have d: "rx_data_ok example_rx_env 4 [1] (example_meta 2 100) 1 (example_rx None [])"
      "rx_data_ok example_rx_env 4 [2] (example_meta 1 103) 0 ((example_rx None [])\<lparr>rx_frame := None\<rparr>)"
    using p by (simp_all add: rx_data_ok_def example_rx_def example_rx_env_def example_meta_def)
  have c: "stereo_rx (example_codec False) ?c" by (simp add: stereo_rx_def example_codec_defs)
  show ?thesis
    using channels_joined_by_arrival [OF example_rx_env_ok rx _ _ _ _ d, of "example_codec False" ?c "[1]" "()" "[2]" "()" "[1, 2]" 5 6] c
    by (simp add: example_rx_def example_rx_env_def example_meta_def example_codec_def PCM_NUM_BYTES_STEREO_def) blast
qed

text \<open>When the number of synchronised streams drops, reception can stop the firmware. If one
  channel's frame is still waiting and the queue has a single free place, and now only one stream
  is synchronised, the next frame with another reference time puts two frames into the queue; the
  second finds it full, and the error check stops the firmware.\<close>

lemma sync_drop_trips:
  assumes "rx_initialized st" and "rx_frame st = Some f" and "length (ble_q_rx st) + 1 = BLE_RX_PACKET_NUM e"
    and "0 < ble_rx_pool st" and "ch < length (rx_stats_arr st)" and "\<not> rx_is_gateway e"
    and "ref_ts_diff (meta_ref_ts_us m) (meta_ref_ts_us (buf_meta f)) = Some diff" and "SDU_REF_DELTA_MAX e \<le> diff"
    and "x_num_ch e (locations m) = 1" and "d \<noteq> []" and "\<not> meta_bad_data m" and "length d \<le> BLE_RX_BUF_SIZE e"
  shows "le_audio_rx_data_handler e True 1 now d m ch st = None"
proof -
  obtain s1 where s1: "rx_count m ch st = Some s1" "s1 = st\<lparr>rx_stats_arr := rx_stats_arr s1\<rparr>"
    using assms(5) by (simp add: rx_count_def rd_def Let_def)
  have q: "ble_q_rx s1 = ble_q_rx st" "rx_frame s1 = Some f" "ble_rx_pool s1 = ble_rx_pool st"
    using assms(2) by (subst s1(2), simp)+
  show ?thesis
    using s1(1) q assms
    by (simp add: le_audio_rx_data_handler_def rx_join_def rx_make_room_def ble_q_put_def rx_new_frame_def
        audio_frame_add_def net_buf_add_mem_def check_send_def)
qed

end
