(* ===== verification/BroadcastSink.thy ===== *)
theory BroadcastSink
  imports BroadcastSource LeAudioRx
begin

text \<open>
  The broadcast sink \<open>src/bluetooth/bt_stream/broadcast/broadcast_sink.c\<close>: what a received BASE says
  about the streams of a broadcaster, which of them are synchronised, and their callbacks, which publish
  the events the receiver application follows.

  The state is the static data of the file; the application extends the record by its own, so that a callback
  of the host that runs inside a call can reach both. The host owns the endpoints of the streams, and
  what it answers is an argument of the operation; the requests it accepts are listed in \<open>sink_calls\<close>.
  \<open>None\<close> is undefined behaviour or a tripped \<open>ERR_CHK\<close>.
\<close>

section \<open>State\<close>

record audio_codec_info =
  ci_id :: u8
  ci_cid :: u16
  ci_vid :: u16
  ci_frequency :: int
  ci_frame_duration_us :: int
  ci_chan_allocation :: u32
  ci_octets_per_sdu :: int
  ci_bitrate :: u32
  ci_blocks_per_sdu :: int
  ci_pd :: u32

record snk_msg =
  sm_event :: le_audio_evt_type
  sm_pa_sync :: "nat option"

datatype sink_call = Sink_create nat u32 | Sink_delete | Sink_sync u32 bytes | Sink_stop

record snk_env =
  k_le :: le_env
  k_location :: u32
  RX_STREAMS_MAX :: nat
  snk_encrypted :: bool
  SNK_KEY :: bytes
  csip_member :: bool
  scan_delegator :: bool
  csip_test_data :: bool
  SIRK :: bytes
  SNK_APPEARANCE :: u16

text \<open>\<open>streams_p\<close> is \<open>audio_streams_p\<close>, the pointers that the host is given.\<close>

record bsink =
  bis_encryption_key :: bytes
  broadcast_code_received :: bool
  broadcast_sink :: "nat option"
  audio_streams :: "bap_stream list"
  streams_p :: "nat option list"
  stream_ops_set :: "bool list"
  codec_infos :: "audio_codec_info list"
  bis_index_bitfield :: u32
  pa_sync_stored :: "nat option"
  sync_stream_cnt :: u8
  receive_cb_set :: bool
  init_routine_completed :: bool
  paused :: bool
  prev_broadcast_id :: u32
  bis_cleanup_queued :: bool
  snk_initialized :: bool
  csip_rank :: u8
  csip_sirk :: bytes
  csip_rsi_adv_data :: bytes
  snk_chan :: "snk_msg list"
  sink_calls :: "sink_call list"

definition snk_stream_index_get :: "nat option \<Rightarrow> 'a bsink_scheme \<Rightarrow> int" where
  "snk_stream_index_get stream st = (case stream of
     Some i \<Rightarrow> if i < length (audio_streams st) then int i else - ENODEV
   | None \<Rightarrow> - ENODEV)"

section \<open>Advertising data\<close>

abbreviation (input) BT_DATA_FLAGS :: u8 where "BT_DATA_FLAGS \<equiv> 0x01"
abbreviation (input) BT_DATA_CSIS_RSI :: u8 where "BT_DATA_CSIS_RSI \<equiv> 0x2e"
abbreviation (input) BT_UUID_BASS_VAL :: u16 where "BT_UUID_BASS_VAL \<equiv> 0x184f"
abbreviation (input) BT_UUID_PACS_VAL :: u16 where "BT_UUID_PACS_VAL \<equiv> 0x1850"
abbreviation (input) BT_LE_AD_GENERAL_NO_BREDR :: u8 where "BT_LE_AD_GENERAL_NO_BREDR \<equiv> 6"

text \<open>Room for three identifiers is asked for, two are added.\<close>

definition broadcast_sink_uuid_populate :: "nat \<Rightarrow> bytes \<Rightarrow> int \<times> bytes" where
  "broadcast_sink_uuid_populate room uuid_buf =
     (if length uuid_buf + 6 \<le> room then (0, uuid_buf @ le16 BT_UUID_BASS_VAL @ le16 BT_UUID_PACS_VAL)
      else (- ENOMEM, uuid_buf))"

definition broadcast_sink_adv_populate ::
  "snk_env \<Rightarrow> bt_data list \<Rightarrow> nat \<Rightarrow> 'a bsink_scheme \<Rightarrow> (int \<times> bt_data list) option" where
  "broadcast_sink_adv_populate e adv vacant st = do {
     (ret, i, adv) \<leftarrow> (if csip_member e
       then bt_mgmt_adv_buffer_put vacant (length (csip_rsi_adv_data st)) BT_DATA_CSIS_RSI (csip_rsi_adv_data st) 0 adv
       else Some (0, 0, adv));
     if ret \<noteq> 0 then Some (ret, adv)
     else do {
       (ret, i, adv) \<leftarrow> bt_mgmt_adv_buffer_put vacant 2 BT_DATA_SVC_DATA16 (le16 BT_UUID_BASS_VAL) i adv;
       if ret \<noteq> 0 then Some (ret, adv)
       else do {
         (ret, i, adv) \<leftarrow> bt_mgmt_adv_buffer_put vacant 2 BT_DATA_GAP_APPEARANCE (le16 (SNK_APPEARANCE e)) i adv;
         if ret \<noteq> 0 then Some (ret, adv)
         else do {
           (ret, i, adv) \<leftarrow> bt_mgmt_adv_buffer_put vacant 1 BT_DATA_FLAGS [BT_LE_AD_GENERAL_NO_BREDR] i adv;
           if ret \<noteq> 0 then Some (ret, adv) else Some (int i, adv) } } } }"

section \<open>Events\<close>

text \<open>\<open>ans\<close> is the host's answer to deleting the sink.\<close>

definition broadcast_sink_cleanup :: "int \<Rightarrow> 'a bsink_scheme \<Rightarrow> int \<times> 'a bsink_scheme" where
  "broadcast_sink_cleanup ans st =
     (let st = st\<lparr>init_routine_completed := False\<rparr>
      in if broadcast_sink st \<noteq> None then
           if ans \<noteq> 0 \<and> ans \<noteq> - EALREADY then (ans, st)
           else (0, st\<lparr>broadcast_sink := None, sink_calls := sink_calls st @ [Sink_delete]\<rparr>)
         else (0, st))"

text \<open>The work item, when it is queued.\<close>

definition bis_cleanup_worker :: "int \<Rightarrow> 'a bsink_scheme \<Rightarrow> 'a bsink_scheme" where
  "bis_cleanup_worker ans st =
     (if bis_cleanup_queued st then snd (broadcast_sink_cleanup ans (st\<lparr>bis_cleanup_queued := False\<rparr>)) else st)"

text \<open>The synchronisation is part of the message of a lost one, and only there.\<close>

definition snk_event_publish :: "int \<Rightarrow> le_audio_evt_type \<Rightarrow> 'a bsink_scheme \<Rightarrow> 'a bsink_scheme option" where
  "snk_event_publish pub ev st = do {
     let sync = (if ev = LE_AUDIO_EVT_SYNC_LOST then pa_sync_stored st else None);
     let st = (if ev = LE_AUDIO_EVT_SYNC_LOST then st\<lparr>pa_sync_stored := None\<rparr> else st);
     err_chk pub;
     Some (st\<lparr>snk_chan := snk_chan st @ [\<lparr>sm_event = ev, sm_pa_sync = sync\<rparr>]\<rparr>) }"

text \<open>Values that cannot be read stay what they were.\<close>

definition get_codec_info :: "le_env \<Rightarrow> codec_cfg \<Rightarrow> audio_codec_info \<Rightarrow> audio_codec_info option" where
  "get_codec_info e c ci = do {
     let ci = ci\<lparr>ci_frequency := snd (le_audio_freq_hz_get e c (ci_frequency ci))\<rparr>;
     let ci = ci\<lparr>ci_frame_duration_us := snd (le_audio_duration_us_get e c (ci_frame_duration_us ci))\<rparr>;
     let (ret, loc) = x_chan_allocation c;
     let ci = (if ret = - ENODATA then ci\<lparr>ci_chan_allocation := 0\<rparr>
               else if ret \<noteq> 0 then ci else ci\<lparr>ci_chan_allocation := loc\<rparr>);
     let ci = ci\<lparr>ci_octets_per_sdu := snd (le_audio_octets_per_frame_get c (ci_octets_per_sdu ci))\<rparr>;
     (ret, rate) \<leftarrow> le_audio_bitrate_get e c (ci_bitrate ci);
     let ci = ci\<lparr>ci_bitrate := rate\<rparr>;
     Some (ci\<lparr>ci_blocks_per_sdu := snd (le_audio_frame_blocks_per_sdu_get c (ci_blocks_per_sdu ci))\<rparr>) }"

text \<open>The codec of the stream is printed: its place in the array is read.\<close>

definition snk_stream_started_cb :: "int \<Rightarrow> nat option \<Rightarrow> 'a bsink_scheme \<Rightarrow> 'a bsink_scheme option" where
  "snk_stream_started_cb pub stream st = do {
     st \<leftarrow> snk_event_publish pub LE_AUDIO_EVT_STREAMING st;
     let st = st\<lparr>sync_stream_cnt := sync_stream_cnt st + 1\<rparr>;
     let i = snk_stream_index_get stream st;
     assert_ok (0 \<le> i);
     ci \<leftarrow> rd (codec_infos st) (nat i);
     Some st }"

abbreviation (input) HCI_ERR_CONN_TIMEOUT :: u8 where "HCI_ERR_CONN_TIMEOUT \<equiv> 0x08"
abbreviation (input) HCI_ERR_REMOTE_USER_TERM_CONN :: u8 where "HCI_ERR_REMOTE_USER_TERM_CONN \<equiv> 0x13"
abbreviation (input) HCI_ERR_LOCALHOST_TERM_CONN :: u8 where "HCI_ERR_LOCALHOST_TERM_CONN \<equiv> 0x16"
abbreviation (input) HCI_ERR_CONN_FAIL_TO_ESTAB :: u8 where "HCI_ERR_CONN_FAIL_TO_ESTAB \<equiv> 0x3e"

definition snk_stream_stopped_cb :: "int \<Rightarrow> u8 \<Rightarrow> 'a bsink_scheme \<Rightarrow> 'a bsink_scheme option" where
  "snk_stream_stopped_cb pub reason st =
     (if sync_stream_cnt st = 0 then Some st
      else
        let st = st\<lparr>sync_stream_cnt := sync_stream_cnt st - 1\<rparr>
        in if reason = HCI_ERR_LOCALHOST_TERM_CONN then snk_event_publish pub LE_AUDIO_EVT_NOT_STREAMING st
           else if reason = HCI_ERR_CONN_FAIL_TO_ESTAB \<or> reason = HCI_ERR_CONN_TIMEOUT
           then snk_event_publish pub LE_AUDIO_EVT_SYNC_LOST (st\<lparr>bis_cleanup_queued := True\<rparr>)
           else if reason = HCI_ERR_REMOTE_USER_TERM_CONN then snk_event_publish pub LE_AUDIO_EVT_NOT_STREAMING st
           else Some st)"

text \<open>
  A received frame: what the receive callback is called with, metadata and channel index (an octet);
  \<open>None\<close> inside when it is not called. \<open>meta\<close> is the uninitialised structure.
\<close>

definition snk_stream_recv_cb ::
  "snk_env \<Rightarrow> nat \<Rightarrow> iso_recv_info \<Rightarrow> nat \<Rightarrow> le_metadata \<Rightarrow> 'a bsink_scheme \<Rightarrow> (le_metadata \<times> u8) option option" where
  "snk_stream_recv_cb e stream info len meta st =
     (if \<not> receive_cb_set st then Some None
      else do {
        s \<leftarrow> rd (audio_streams st) stream;
        (ret, m) \<leftarrow> le_audio_metadata_populate (k_le e) s info len meta;
        if ret \<noteq> 0 then Some None
        else Some (Some (m, word_of_int (snk_stream_index_get (Some stream) st))) })"

section \<open>The BASE\<close>

text \<open>
  What the host's accessors return for a BASE: for a subgroup the configuration, the codec identifier
  and the streams (BIS), each with their code. \<open>base_ret\<close> is the host's own error after the last
  subgroup.
\<close>

record base_bis =
  bis_index :: u8
  bis_cfg :: "int \<times> codec_cfg"

record base_subgroup =
  sub_cfg :: "int \<times> codec_cfg"
  sub_codec_id :: "int \<times> u8 \<times> u16 \<times> u16"
  sub_bis_count :: int
  sub_bises :: "base_bis list"

record base_info =
  base_subgroups :: "base_subgroup list"
  base_ret :: int
  base_pres_delay :: int

text \<open>The index is not compared with the size of the array.\<close>

definition bis_per_subgroup_parse :: "snk_env \<Rightarrow> base_bis \<Rightarrow> 'a bsink_scheme \<Rightarrow> 'a bsink_scheme option" where
  "bis_per_subgroup_parse e bis st =
     (if fst (bis_cfg bis) \<noteq> 0 then Some st
      else do {
        assert_ok (bis_index bis \<noteq> 0);
        let i = unat (bis_index bis) - 1;
        ci \<leftarrow> rd (codec_infos st) i;
        ci \<leftarrow> get_codec_info (k_le e) (snd (bis_cfg bis)) ci;
        infos \<leftarrow> wr (codec_infos st) i ci;
        let st = st\<lparr>codec_infos := infos\<rparr>;
        if and (ci_chan_allocation ci) (k_location e) = 0 then Some st
        else if RX_STREAMS_MAX e \<le> POPCOUNT (bis_index_bitfield st) then Some st
        else Some (st\<lparr>bis_index_bitfield := or (bis_index_bitfield st) (push_bit i 1)\<rparr>) })"

fun foreach_bis :: "snk_env \<Rightarrow> base_bis list \<Rightarrow> 'a bsink_scheme \<Rightarrow> 'a bsink_scheme option" where
  "foreach_bis e [] st = Some st"
| "foreach_bis e (b # bs) st = do { st \<leftarrow> bis_per_subgroup_parse e b st; foreach_bis e bs st }"

fun info_loop ::
  "le_env \<Rightarrow> codec_cfg \<Rightarrow> u8 \<times> u16 \<times> u16 \<Rightarrow> nat \<Rightarrow> nat \<Rightarrow> audio_codec_info list \<Rightarrow> audio_codec_info list option" where
  "info_loop e c cod i 0 infos = Some infos"
| "info_loop e c cod i (Suc k) infos = do {
     ci \<leftarrow> rd infos i;
     ci \<leftarrow> get_codec_info e c ci;
     infos \<leftarrow> wr infos i (ci\<lparr>ci_id := fst cod, ci_cid := fst (snd cod), ci_vid := snd (snd cod)\<rparr>);
     info_loop e c cod (Suc i) k infos }"

text \<open>
  The result says whether the search goes on and whether a suitable subgroup was found. The codec is
  refused only if the identifier could not be read \<^emph>\<open>and\<close> is not LC3.
\<close>

definition base_subgroup_cb ::
  "snk_env \<Rightarrow> base_subgroup \<Rightarrow> 'a bsink_scheme \<Rightarrow> (bool \<times> bool \<times> 'a bsink_scheme) option" where
  "base_subgroup_cb e sg st =
     (let (ret, c) = sub_cfg sg; (id_ret, cod) = sub_codec_id sg
      in if ret \<noteq> 0 then Some (True, False, st)
      else if id_ret \<noteq> 0 \<and> fst (snd cod) \<noteq> ucast BT_HCI_CODING_FORMAT_LC3 then Some (True, False, st)
      else if \<not> le_audio_bitrate_check (k_le e) c then Some (True, False, st)
      else if \<not> le_audio_freq_check (k_le e) c then Some (True, False, st)
      else if 0 < sub_bis_count sg then do {
        infos \<leftarrow> info_loop (k_le e) c cod 0 (nat (sub_bis_count sg)) (codec_infos st);
        st \<leftarrow> foreach_bis e (sub_bises sg) (st\<lparr>codec_infos := infos\<rparr>);
        Some (False, True, st) }
      else Some (True, False, st))"

text \<open>A callback that stops the search makes the host return \<open>-ECANCELED\<close>.\<close>

fun foreach_subgroup ::
  "snk_env \<Rightarrow> base_subgroup list \<Rightarrow> int \<Rightarrow> 'a bsink_scheme \<Rightarrow> (int \<times> bool \<times> 'a bsink_scheme) option" where
  "foreach_subgroup e [] ret st = Some (ret, False, st)"
| "foreach_subgroup e (sg # sgs) ret st = do {
     (go, found, st) \<leftarrow> base_subgroup_cb e sg st;
     if \<not> go then Some (- ECANCELED, found, st) else foreach_subgroup e sgs ret st }"

definition base_recv_cb :: "snk_env \<Rightarrow> int \<Rightarrow> base_info \<Rightarrow> 'a bsink_scheme \<Rightarrow> 'a bsink_scheme option" where
  "base_recv_cb e pub base st =
     (if init_routine_completed st then Some st
      else do {
        let st = st\<lparr>sync_stream_cnt := 0\<rparr>;
        (ret, found, st) \<leftarrow> foreach_subgroup e (base_subgroups base) (base_ret base) st;
        if ret \<noteq> 0 \<and> ret \<noteq> - ECANCELED then Some st
        else if found then do {
          ci \<leftarrow> rd (codec_infos st) 0;
          let pd = (if base_pres_delay base = - EINVAL then 0 else word_of_int (base_pres_delay base));
          infos \<leftarrow> wr (codec_infos st) 0 (ci\<lparr>ci_pd := pd\<rparr>);
          snk_event_publish pub LE_AUDIO_EVT_CONFIG_RECEIVED (st\<lparr>codec_infos := infos\<rparr>) }
        else snk_event_publish pub LE_AUDIO_EVT_NO_VALID_CFG st })"

text \<open>
  \<open>sink_id\<close> is the broadcast identifier of the sink, \<open>encrypted\<close> what its BIGInfo says; \<open>ans\<close> the host's
  answer to synchronising. A configured key is copied without its terminating zero.
\<close>

definition syncable_cb :: "snk_env \<Rightarrow> int \<Rightarrow> u32 \<Rightarrow> bool \<Rightarrow> 'a bsink_scheme \<Rightarrow> 'a bsink_scheme" where
  "syncable_cb e ans sink_id encrypted st =
     (if paused st then st
      else if bis_index_bitfield st = 0 then st
      else if \<not> snk_encrypted e \<and> \<not> broadcast_code_received st \<and> encrypted \<and> sink_id \<noteq> prev_broadcast_id st
      then st
      else
        let n = min (length (SNK_KEY e)) (length (bis_encryption_key st));
            st = (if snk_encrypted e
                  then st\<lparr>bis_encryption_key := take n (SNK_KEY e) @ drop n (bis_encryption_key st)\<rparr>
                  else st\<lparr>broadcast_code_received := False\<rparr>)
        in if ans \<noteq> 0 then st
           else st\<lparr>sink_calls := sink_calls st @ [Sink_sync (bis_index_bitfield st) (bis_encryption_key st)],
                   prev_broadcast_id := sink_id, init_routine_completed := True\<rparr>)"

section \<open>Operations\<close>

definition is_any_active_streams :: "'a bsink_scheme \<Rightarrow> bool" where
  "is_any_active_streams st =
     list_ex (\<lambda>s. case stream_ep s of None \<Rightarrow> False | Some p \<Rightarrow> ep_state p = EP_STREAMING) (audio_streams st)"

definition le_audio_concurrent_sync_num_get :: "'a bsink_scheme \<Rightarrow> int" where
  "le_audio_concurrent_sync_num_get st = int (unat (sync_stream_cnt st))"

text \<open>The three places to write to, \<open>None\<close> for a null pointer.\<close>

definition broadcast_sink_config_get ::
  "u32 option \<Rightarrow> u32 option \<Rightarrow> u32 option \<Rightarrow> 'a bsink_scheme
   \<Rightarrow> (int \<times> u32 option \<times> u32 option \<times> u32 option) option" where
  "broadcast_sink_config_get bitrate sampling_rate pres_delay st =
     (if bitrate = None \<and> sampling_rate = None \<and> pres_delay = None
      then Some (- ENXIO, bitrate, sampling_rate, pres_delay)
      else do {
        ci \<leftarrow> rd (codec_infos st) 0;
        Some (0, map_option (\<lambda>_. ci_bitrate ci) bitrate,
              map_option (\<lambda>_. word_of_int (ci_frequency ci)) sampling_rate,
              map_option (\<lambda>_. ci_pd ci) pres_delay) })"

text \<open>What the host answers to stopping, deleting (twice) and creating a sink.\<close>

record pa_sync_answers =
  ps_stop :: int
  ps_delete1 :: int
  ps_delete2 :: int
  ps_create :: "int \<times> nat"

definition broadcast_sink_pa_sync_set ::
  "pa_sync_answers \<Rightarrow> nat option \<Rightarrow> u32 \<Rightarrow> 'a bsink_scheme \<Rightarrow> int \<times> 'a bsink_scheme" where
  "broadcast_sink_pa_sync_set a pa_sync broadcast_id st = (case pa_sync of
     None \<Rightarrow> (- EINVAL, st)
   | Some sync \<Rightarrow>
       if is_any_active_streams st \<and> ps_stop a \<noteq> 0 then (ps_stop a, st)
       else
         let st = (if is_any_active_streams st
                   then snd (broadcast_sink_cleanup (ps_delete1 a) (st\<lparr>sink_calls := sink_calls st @ [Sink_stop]\<rparr>))
                   else st);
             st = (if broadcast_sink st \<noteq> None then snd (broadcast_sink_cleanup (ps_delete2 a) st) else st)
         in if fst (ps_create a) \<noteq> 0 then (fst (ps_create a), st)
            else (0, st\<lparr>broadcast_sink := Some (snd (ps_create a)), pa_sync_stored := Some sync,
                        sink_calls := sink_calls st @ [Sink_create sync broadcast_id]\<rparr>))"

definition broadcast_sink_broadcast_code_set :: "bytes option \<Rightarrow> 'a bsink_scheme \<Rightarrow> (int \<times> 'a bsink_scheme) option" where
  "broadcast_sink_broadcast_code_set code st = (case code of
     None \<Rightarrow> Some (- EINVAL, st)
   | Some c \<Rightarrow> do {
       c \<leftarrow> rd_range c 0 16;
       k \<leftarrow> wr_range (bis_encryption_key st) 0 c;
       Some (0, st\<lparr>bis_encryption_key := k, broadcast_code_received := True\<rparr>) })"

definition broadcast_sink_start :: "'a bsink_scheme \<Rightarrow> int \<times> 'a bsink_scheme" where
  "broadcast_sink_start st = (if \<not> paused st then (- EALREADY, st) else (0, st\<lparr>paused := False\<rparr>))"

definition broadcast_sink_stop :: "int \<Rightarrow> 'a bsink_scheme \<Rightarrow> int \<times> 'a bsink_scheme" where
  "broadcast_sink_stop ans st =
     (if paused st then (- EALREADY, st)
      else if \<not> is_any_active_streams st then (- EALREADY, st)
      else
        let st = st\<lparr>paused := True\<rparr>
        in if ans \<noteq> 0 then (ans, st) else (0, st\<lparr>sink_calls := sink_calls st @ [Sink_stop]\<rparr>))"

text \<open>
  \<open>stop\<close> and \<open>cleanup\<close> are answers of the host; \<open>del\<close> is its deletion of a synchronisation, which
  can run the callback of the application.
\<close>

definition broadcast_sink_disable ::
  "int \<Rightarrow> (nat \<Rightarrow> 'a bsink_scheme \<Rightarrow> (int \<times> 'a bsink_scheme) option) \<Rightarrow> int \<Rightarrow> 'a bsink_scheme
   \<Rightarrow> (int \<times> 'a bsink_scheme) option" where
  "broadcast_sink_disable stop del cleanup st = do {
     let st = (if is_any_active_streams st \<and> stop = 0 then st\<lparr>sink_calls := sink_calls st @ [Sink_stop]\<rparr> else st);
     (ret, st) \<leftarrow> (case pa_sync_stored st of None \<Rightarrow> Some (0, st) | Some sync \<Rightarrow> del sync st);
     if ret \<noteq> 0 then Some (ret, st)
     else Some (broadcast_sink_cleanup cleanup st) }"

record snk_enable_answers =
  se_pacs :: int
  se_location :: int
  se_supported :: int
  se_available :: int
  se_capability :: int
  se_acceptor :: int
  se_rsi :: "int \<times> bytes"
  se_delegator :: int

definition csip_rank_of :: "u32 \<Rightarrow> u8" where
  "csip_rank_of loc = (if loc = BT_AUDIO_LOCATION_FRONT_LEFT then 1
     else if loc = BT_AUDIO_LOCATION_FRONT_RIGHT then 2 else 1)"

text \<open>The registration of the scan delegator: the identity key, the acceptor, the set identifier.\<close>

definition delegator_register ::
  "snk_env \<Rightarrow> snk_enable_answers \<Rightarrow> 'a bsink_scheme \<Rightarrow> (int \<times> 'a bsink_scheme) option" where
  "delegator_register e a st =
     (if \<not> scan_delegator e then Some (0, st)
      else do {
        st \<leftarrow> (if csip_test_data e then Some st
               else do { k \<leftarrow> rd_range (SIRK e) 0 16; Some (st\<lparr>csip_sirk := k\<rparr>) });
        Some (if se_acceptor a \<noteq> 0 then (se_acceptor a, st)
              else if fst (se_rsi a) \<noteq> 0 then (fst (se_rsi a), st)
              else (0, st\<lparr>csip_rsi_adv_data := snd (se_rsi a)\<rparr>)) })"

definition broadcast_sink_enable ::
  "snk_env \<Rightarrow> snk_enable_answers \<Rightarrow> bool \<Rightarrow> 'a bsink_scheme \<Rightarrow> (int \<times> 'a bsink_scheme) option" where
  "broadcast_sink_enable e a recv_cb st =
     (if snk_initialized st then Some (- EALREADY, st)
      else if \<not> recv_cb then Some (- EINVAL, st)
      else
        let st = st\<lparr>receive_cb_set := True\<rparr>
        in if se_pacs a \<noteq> 0 then Some (se_pacs a, st)
        else if se_location a \<noteq> 0 then Some (se_location a, st)
        else
          let st = st\<lparr>csip_rank := csip_rank_of (k_location e)\<rparr>
          in if se_supported a \<noteq> 0 then Some (se_supported a, st)
          else if se_available a \<noteq> 0 then Some (se_available a, st)
          else if se_capability a \<noteq> 0 then Some (se_capability a, st)
          else do {
            (ret, st) \<leftarrow> delegator_register e a st;
            Some (if ret \<noteq> 0 then (ret, st)
                  else if se_delegator a \<noteq> 0 then (se_delegator a, st)
                  else let n = length (audio_streams st)
                       in (0, st\<lparr>stream_ops_set := replicate n True, streams_p := map Some [0..<n],
                               snk_initialized := True\<rparr>)) })"

end
