(* ===== verification/SinkMain.thy ===== *)
theory SinkMain
  imports BroadcastSink BroadcastMain
begin

text \<open>
  The receiver application: \<open>broadcast_sink/main.c\<close> and its GATT service \<open>broadcast_sink/auracast_gatt.c\<close>.
  A phone searches for broadcasters, has the receiver synchronise to one, starts and stops its audio and is
  sent the data of its periodic advertising.

  The state extends the static data of the broadcast sink. Every handler is one event; the Bluetooth host's
  answers are arguments. The host can run its termination callback while it deletes a
  synchronisation: the answer says whether it does. Its other callbacks are events of their own.
  \<open>None\<close> is undefined behaviour or a tripped \<open>ERR_CHK\<close>.
\<close>

section \<open>State\<close>

abbreviation (input) AC_STATE_SEARCHING :: u8 where "AC_STATE_SEARCHING \<equiv> 1"
abbreviation (input) AC_STATE_PA_SYNCED :: u8 where "AC_STATE_PA_SYNCED \<equiv> 2"
abbreviation (input) AC_STATE_BIS_SYNCED :: u8 where "AC_STATE_BIS_SYNCED \<equiv> 4"
abbreviation (input) AC_RESULT_SUCCESS :: u8 where "AC_RESULT_SUCCESS \<equiv> 0"
abbreviation (input) AC_RESULT_FAIL :: u8 where "AC_RESULT_FAIL \<equiv> 1"
abbreviation (input) BRDCAST_ID_NOT_USED :: u32 where "BRDCAST_ID_NOT_USED \<equiv> 0x1000000"
abbreviation (input) PA_MAX_DATA_LEN :: nat where "PA_MAX_DATA_LEN \<equiv> 255"

record bt_addr =
  addr_type :: u8
  addr_val :: bytes

record scan_cache_entry =
  sc_addr :: bt_addr
  sc_sid :: u8
  sc_broadcast_id :: u32
  sc_valid :: bool

text \<open>
  \<open>gatt_out\<close> lists the notifications: connection, attribute index and bytes; \<open>bis_sync_queued\<close> is
  the pending work item.
\<close>

record 'x sink_app = bsink +
  receiver_state :: u8
  pa_data_notify_enabled :: bool
  current_conn :: "nat option"
  command_busy :: bool
  current_volume :: u8
  current_mute :: u8
  pa_sync_handle :: "nat option"
  pa_sync_addr :: bt_addr
  pa_sync_sid :: u8
  pa_sync_broadcast_id :: u32
  snk_strm_state :: stream_state
  bis_sync_queued :: bool
  bis_sync_code :: bytes
  bis_sync_has_code :: bool
  scan_cache :: "scan_cache_entry list"
  prev_pa_data :: bytes
  prev_pa_data_len :: u8
  pa_data_received_once :: bool
  gatt_out :: "(nat \<times> nat \<times> bytes) list"
  k_sys :: "'x audio_system"
  k_rx :: le_audio_rx

record 'x sink_env =
  k_snk :: snk_env
  k_syse :: "'x sys_env"
  k_rxe :: rx_env

text \<open>The bits of the state.\<close>

definition in_state :: "u8 \<Rightarrow> 'x sink_app \<Rightarrow> bool" where
  "in_state m st = (and (receiver_state st) m \<noteq> 0)"

definition enter_state :: "u8 \<Rightarrow> 'x sink_app \<Rightarrow> 'x sink_app" where
  "enter_state m st = st\<lparr>receiver_state := or (receiver_state st) m\<rparr>"

definition leave_state :: "u8 \<Rightarrow> 'x sink_app \<Rightarrow> 'x sink_app" where
  "leave_state m st = st\<lparr>receiver_state := and (receiver_state st) (not m)\<rparr>"

section \<open>The scan cache\<close>

definition first_index :: "('a \<Rightarrow> bool) \<Rightarrow> 'a list \<Rightarrow> nat option" where
  "first_index P xs = (let n = length (takeWhile (\<lambda>x. \<not> P x) xs) in if n < length xs then Some n else None)"

definition cache_scan_result ::
  "bt_addr \<Rightarrow> u8 \<Rightarrow> u32 \<Rightarrow> scan_cache_entry list \<Rightarrow> scan_cache_entry list option" where
  "cache_scan_result addr asid broadcast_id cache =
     (case first_index (\<lambda>c. sc_valid c \<and> sc_addr c = addr \<and> sc_sid c = asid) cache of
        Some i \<Rightarrow> Some (cache[i := (cache ! i)\<lparr>sc_broadcast_id := broadcast_id\<rparr>])
      | None \<Rightarrow>
          (case first_index (\<lambda>c. \<not> sc_valid c) cache of
             Some i \<Rightarrow> Some (cache[i := \<lparr>sc_addr = addr, sc_sid = asid, sc_broadcast_id = broadcast_id, sc_valid = True\<rparr>])
           | None \<Rightarrow> do {
               c \<leftarrow> rd cache 0;
               wr cache 0 (c\<lparr>sc_addr := addr, sc_sid := asid, sc_broadcast_id := broadcast_id\<rparr>) }))"

definition lookup_broadcast_id :: "bt_addr \<Rightarrow> u8 \<Rightarrow> scan_cache_entry list \<Rightarrow> u32" where
  "lookup_broadcast_id addr asid cache =
     (case first_index (\<lambda>c. sc_valid c \<and> sc_addr c = addr \<and> sc_sid c = asid) cache of
        Some i \<Rightarrow> sc_broadcast_id (cache ! i)
      | None \<Rightarrow> BRDCAST_ID_NOT_USED)"

section \<open>GATT service\<close>

definition be16 :: "u16 \<Rightarrow> bytes" where
  "be16 v = [ucast (drop_bit 8 v), ucast v]"

definition be32 :: "u32 \<Rightarrow> bytes" where
  "be32 v = [ucast (drop_bit 24 v), ucast (drop_bit 16 v), ucast (drop_bit 8 v), ucast v]"

definition get_be16 :: "u8 \<Rightarrow> u8 \<Rightarrow> u16" where
  "get_be16 a b = or (push_bit 8 (ucast a)) (ucast b)"

text \<open>
  A response is a header of opcode and length, and the parameters, in a buffer of 512 bytes. What the two
  functions return is at most logged by their callers and not modelled.
\<close>

definition auracast_gatt_send_response :: "nat \<Rightarrow> u16 \<Rightarrow> bytes \<Rightarrow> 'x sink_app \<Rightarrow> 'x sink_app" where
  "auracast_gatt_send_response conn opcode params st =
     (if 512 < 4 + length params then st
      else st\<lparr>gatt_out := gatt_out st @ [(conn, 4, be16 opcode @ be16 (of_nat (length params)) @ params)]\<rparr>)"

abbreviation (input) AC_OP_PA_DATA_NTF :: u16 where "AC_OP_PA_DATA_NTF \<equiv> 0x0C04"

definition auracast_gatt_send_pa_data :: "nat \<Rightarrow> bytes \<Rightarrow> 'x sink_app \<Rightarrow> 'x sink_app" where
  "auracast_gatt_send_pa_data conn data st =
     (if 512 < 4 + length data then st
      else st\<lparr>gatt_out := gatt_out st @ [(conn, 7, be16 AC_OP_PA_DATA_NTF @ be16 (of_nat (length data)) @ data)]\<rparr>)"

section \<open>Notifications\<close>

definition notify_conn :: "u16 \<Rightarrow> bytes \<Rightarrow> 'x sink_app \<Rightarrow> 'x sink_app" where
  "notify_conn opcode params st = (case current_conn st of
     None \<Rightarrow> st | Some c \<Rightarrow> auracast_gatt_send_response c opcode params st)"

definition notify_state_transition :: "'x sink_app \<Rightarrow> 'x sink_app" where
  "notify_state_transition st = notify_conn 0x0C06 [receiver_state st] st"

definition notify_pa_sync_state :: "u8 \<Rightarrow> bt_addr \<Rightarrow> u32 \<Rightarrow> 'x sink_app \<Rightarrow> 'x sink_app" where
  "notify_pa_sync_state s addr audio_location st =
     notify_conn 0x0C02 ([s] @ addr_val addr @ be32 audio_location) st"

definition notify_bis_sync_state :: "u8 \<Rightarrow> 'x sink_app \<Rightarrow> 'x sink_app" where
  "notify_bis_sync_state s st = notify_conn 0x0C03 [s] st"

definition notify_volume_change :: "'x sink_app \<Rightarrow> 'x sink_app" where
  "notify_volume_change st = notify_conn 0x0C05 [current_volume st, current_mute st] st"

section \<open>Scanning\<close>

record scan_found =
  sf_name :: bytes
  sf_name_len :: nat
  sf_id :: bytes
  sf_has_id :: bool
  sf_encrypted :: u8

definition get_le16 :: "u8 \<Rightarrow> u8 \<Rightarrow> u16" where
  "get_le16 a b = or (ucast a) (push_bit 8 (ucast b))"

definition get_le24 :: "u8 \<Rightarrow> u8 \<Rightarrow> u8 \<Rightarrow> u32" where
  "get_le24 a b c = or (or (ucast a) (push_bit 8 (ucast b))) (push_bit 16 (ucast c))"

text \<open>One element of type \<open>ty\<close> whose \<open>n\<close> bytes of data are at the start of \<open>buf\<close>.\<close>

definition scan_element :: "u8 \<Rightarrow> nat \<Rightarrow> bytes \<Rightarrow> scan_found \<Rightarrow> scan_found option" where
  "scan_element ty n buf r =
     (if ty = BT_DATA_BROADCAST_NAME \<and> 0 < n then do {
        let len = min n 128;
        d \<leftarrow> rd_range buf 0 len;
        name \<leftarrow> wr_range (sf_name r) 0 d;
        Some (r\<lparr>sf_name := name, sf_name_len := len\<rparr>) }
      else if ty = BT_DATA_SVC_DATA16 \<and> 2 \<le> n then do {
        a \<leftarrow> rd buf 0;
        b \<leftarrow> rd buf 1;
        if get_le16 a b = BT_UUID_BROADCAST_AUDIO_VAL \<and> 5 \<le> n then do {
          d \<leftarrow> rd_range buf 2 3;
          Some (r\<lparr>sf_id := d, sf_has_id := True\<rparr>) }
        else if get_le16 a b = BT_UUID_PBA_VAL \<and> 3 \<le> n then do {
          f \<leftarrow> rd buf 2;
          Some (r\<lparr>sf_encrypted := (if and f 1 \<noteq> 0 then 1 else 0)\<rparr>) }
        else Some r }
      else Some r)"

text \<open>The loop over the elements of the report: a length octet, a type and data.\<close>

function ad_loop :: "bytes \<Rightarrow> scan_found \<Rightarrow> scan_found option" where
  "ad_loop buf r =
     (if length buf \<le> 1 then Some r
      else
        let len = unat (hd buf); buf' = tl buf
        in if len = 0 \<or> length buf' < len then Some r
           else do {
             r \<leftarrow> scan_element (hd buf') (len - 1) (tl buf') r;
             ad_loop (drop (len - 1) (tl buf')) r })"
  by pat_completeness auto
termination by (relation "measure (\<lambda>(buf, r). length buf)") auto

declare ad_loop.simps [simp del]

record scan_info =
  si_addr :: bt_addr
  si_sid :: u8
  si_rssi :: u8

definition scan_recv_cb :: "scan_info \<Rightarrow> bytes \<Rightarrow> 'x sink_app \<Rightarrow> 'x sink_app option" where
  "scan_recv_cb info buf st = (case current_conn st of
     None \<Rightarrow> Some st
   | Some conn \<Rightarrow>
       if \<not> in_state AC_STATE_SEARCHING st then Some st
       else do {
         r \<leftarrow> ad_loop buf \<lparr>sf_name = replicate 129 0, sf_name_len = 0, sf_id = [0, 0, 0], sf_has_id = False,
                            sf_encrypted = 0\<rparr>;
         if \<not> sf_has_id r \<or> sf_name_len r = 0 then Some st
         else do {
           let bcast_id = get_le24 (sf_id r ! 0) (sf_id r ! 1) (sf_id r ! 2);
           cache \<leftarrow> cache_scan_result (si_addr info) (si_sid info) bcast_id (scan_cache st);
           name \<leftarrow> rd_range (sf_name r) 0 (sf_name_len r);
           let ntf = [si_sid info, addr_type (si_addr info)] @ addr_val (si_addr info) @ [of_nat (sf_name_len r)] @ name
                     @ sf_id r @ [sf_encrypted r, si_rssi info];
           assert_ok (length ntf \<le> 256);
           Some (auracast_gatt_send_response conn 0x0C01 ntf (st\<lparr>scan_cache := cache\<rparr>)) } })"

section \<open>Data of the periodic advertising\<close>

text \<open>The result tells the host's parser whether to go on to the next element.\<close>

definition pa_data_parse_cb :: "bt_data \<Rightarrow> 'x sink_app \<Rightarrow> (bool \<times> 'x sink_app) option" where
  "pa_data_parse_cb d st =
     (if ad_type d \<noteq> BT_DATA_VS then Some (True, st)
      else do {
        data \<leftarrow> rd_range (ad_data d) 0 (unat (ad_len d));
        changed \<leftarrow> (if \<not> pa_data_received_once st \<or> ad_len d \<noteq> prev_pa_data_len st then Some True
                    else do { old \<leftarrow> rd_range (prev_pa_data st) 0 (unat (ad_len d)); Some (data \<noteq> old) });
        if \<not> changed then Some (False, st)
        else do {
          prev \<leftarrow> wr_range (prev_pa_data st) 0 data;
          let st = st\<lparr>prev_pa_data := prev, prev_pa_data_len := ad_len d, pa_data_received_once := True\<rparr>;
          Some (False, (case current_conn st of
              None \<Rightarrow> st
            | Some c \<Rightarrow> if pa_data_notify_enabled st then auracast_gatt_send_pa_data c data st else st)) } })"

text \<open>\<open>bt_data_parse\<close> calls it with each element of the report until it returns false.\<close>

fun pa_recv_cb :: "bt_data list \<Rightarrow> 'x sink_app \<Rightarrow> 'x sink_app option" where
  "pa_recv_cb [] st = Some st"
| "pa_recv_cb (d # ds) st = do {
     (go, st) \<leftarrow> pa_data_parse_cb d st;
     if go then pa_recv_cb ds st else Some st }"

section \<open>Synchronisation to periodic advertising\<close>

definition pa_synced_cb :: "nat \<Rightarrow> bt_addr \<Rightarrow> 'x sink_app \<Rightarrow> 'x sink_app" where
  "pa_synced_cb sync addr st =
     (let st = enter_state AC_STATE_PA_SYNCED (st\<lparr>pa_sync_handle := Some sync\<rparr>);
          st = notify_state_transition (notify_pa_sync_state 1 addr 3 st)
      in st\<lparr>command_busy := False\<rparr>)"

text \<open>\<open>stop\<close> is the host's answer to stopping the sink.\<close>

definition pa_sync_term_cb :: "int \<Rightarrow> 'x sink_app \<Rightarrow> 'x sink_app" where
  "pa_sync_term_cb stop st =
     (let st = (if in_state AC_STATE_BIS_SYNCED st
                then notify_bis_sync_state 0 (leave_state AC_STATE_BIS_SYNCED (snd (broadcast_sink_stop stop st)))
                else st);
          st = leave_state AC_STATE_PA_SYNCED
                 (st\<lparr>pa_data_notify_enabled := False, pa_data_received_once := False, pa_sync_handle := None\<rparr>);
          st = notify_state_transition (notify_pa_sync_state 0 (pa_sync_addr st) 3 st)
      in st\<lparr>command_busy := False\<rparr>)"

text \<open>
  The host's \<open>bt_le_per_adv_sync_delete\<close>: its code, whether it runs the termination callback, and the
  answer to the stop that the callback asks for.
\<close>

record del_answer =
  da_ret :: int
  da_term :: bool
  da_stop :: int

definition per_adv_sync_delete :: "del_answer \<Rightarrow> 'x sink_app \<Rightarrow> int \<times> 'x sink_app" where
  "per_adv_sync_delete d st = (da_ret d, if da_term d then pa_sync_term_cb (da_stop d) st else st)"

section \<open>Commands of the phone\<close>

text \<open>Reading the parameters of a command: outside of what was written it is undefined.\<close>

definition handle_device_info_req :: "nat \<Rightarrow> 'x sink_app \<Rightarrow> 'x sink_app" where
  "handle_device_info_req conn st = auracast_gatt_send_response conn 0x0801
     ([0, 6] @ [0x4E, 0x6F, 0x72, 0x64, 0x69, 0x63]
      @ [1, 7] @ [0x6E, 0x52, 0x46, 0x35, 0x33, 0x34, 0x30]
      @ [2, 5] @ [0x31, 0x2E, 0x30, 0x2E, 0x30]
      @ [3, 4] @ be32 3) st"

text \<open>\<open>scan\<close> is the host's answer to starting the scan.\<close>

definition handle_search_start_req :: "int \<Rightarrow> nat \<Rightarrow> 'x sink_app \<Rightarrow> 'x sink_app" where
  "handle_search_start_req scan conn st =
     (if in_state AC_STATE_SEARCHING st then auracast_gatt_send_response conn 0x0802 [AC_RESULT_FAIL] st
      else
        let result = (if scan = 0 then AC_RESULT_SUCCESS else AC_RESULT_FAIL);
            st = auracast_gatt_send_response conn 0x0802 [result] st
        in if result = AC_RESULT_SUCCESS then notify_state_transition (enter_state AC_STATE_SEARCHING st) else st)"

definition handle_search_stop_req :: "nat \<Rightarrow> 'x sink_app \<Rightarrow> 'x sink_app" where
  "handle_search_stop_req conn st =
     (if \<not> in_state AC_STATE_SEARCHING st then auracast_gatt_send_response conn 0x0803 [AC_RESULT_FAIL] st
      else notify_state_transition (leave_state AC_STATE_SEARCHING
             (auracast_gatt_send_response conn 0x0803 [AC_RESULT_SUCCESS] st)))"

text \<open>\<open>create\<close> is the host's answer: its code and the handle it stores on success.\<close>

definition handle_pa_sync_start_req ::
  "int \<Rightarrow> del_answer \<Rightarrow> int \<times> nat \<Rightarrow> nat \<Rightarrow> bytes \<Rightarrow> nat \<Rightarrow> 'x sink_app \<Rightarrow> 'x sink_app option" where
  "handle_pa_sync_start_req stop del create conn params param_len st =
     (if param_len < 8 then Some (auracast_gatt_send_response conn 0x0804 [AC_RESULT_FAIL] st)
      else do {
        adv_sid \<leftarrow> rd params 0;
        ty \<leftarrow> rd params 1;
        val \<leftarrow> rd_range params 2 6;
        let addr = \<lparr>addr_type = ty, addr_val = val\<rparr>;
        let st = (if pa_sync_handle st = None then st
          else
            let st = (if in_state AC_STATE_BIS_SYNCED st
                      then leave_state AC_STATE_BIS_SYNCED (snd (broadcast_sink_stop stop st)) else st);
                st = st\<lparr>pa_data_notify_enabled := False\<rparr>;
                st = snd (per_adv_sync_delete del st)
            in leave_state AC_STATE_PA_SYNCED (st\<lparr>pa_sync_handle := None\<rparr>));
        let result = (if fst create = 0 then AC_RESULT_SUCCESS else AC_RESULT_FAIL);
        let st = (if result = AC_RESULT_SUCCESS
          then st\<lparr>pa_sync_handle := Some (snd create), pa_sync_addr := addr, pa_sync_sid := adv_sid,
                  pa_sync_broadcast_id := lookup_broadcast_id addr adv_sid (scan_cache st), command_busy := True\<rparr>
          else st);
        Some (auracast_gatt_send_response conn 0x0804 [result] st) })"

definition handle_pa_sync_release_req :: "int \<Rightarrow> del_answer \<Rightarrow> nat \<Rightarrow> 'x sink_app \<Rightarrow> 'x sink_app" where
  "handle_pa_sync_release_req stop del conn st =
     (if \<not> in_state AC_STATE_PA_SYNCED st then auracast_gatt_send_response conn 0x0805 [AC_RESULT_FAIL] st
      else
        let st = (if in_state AC_STATE_BIS_SYNCED st
                  then notify_bis_sync_state 0 (leave_state AC_STATE_BIS_SYNCED (snd (broadcast_sink_stop stop st)))
                  else st);
            st = st\<lparr>pa_data_notify_enabled := False\<rparr>;
            (ret, st) = per_adv_sync_delete del st;
            result = (if ret = 0 then AC_RESULT_SUCCESS else AC_RESULT_FAIL);
            st = auracast_gatt_send_response conn 0x0805 [result] st
        in if result = AC_RESULT_SUCCESS then
             let st = leave_state AC_STATE_PA_SYNCED (st\<lparr>pa_sync_handle := None, pa_data_received_once := False\<rparr>)
             in notify_state_transition (notify_pa_sync_state 0 (pa_sync_addr st) 3 st)
           else st)"

text \<open>The work item that synchronises to the audio, when it is queued.\<close>

definition bis_sync_work_handler :: "pa_sync_answers \<Rightarrow> 'x sink_app \<Rightarrow> 'x sink_app option" where
  "bis_sync_work_handler a st =
     (if \<not> bis_sync_queued st then Some st
      else do {
        let st = st\<lparr>bis_sync_queued := False\<rparr>;
        st \<leftarrow> (if bis_sync_has_code st
               then map_option snd (broadcast_sink_broadcast_code_set (Some (bis_sync_code st)) st) else Some st);
        let (ret, st) = broadcast_sink_pa_sync_set a (pa_sync_handle st) (pa_sync_broadcast_id st) st;
        if ret \<noteq> 0 then Some (notify_conn 0x0806 [AC_RESULT_FAIL] st)
        else
          let (ret, st) = broadcast_sink_start st;
              result = (if ret = 0 then AC_RESULT_SUCCESS else AC_RESULT_FAIL);
              st = notify_conn 0x0806 [result] st
          in Some (if result = AC_RESULT_SUCCESS then st\<lparr>command_busy := True\<rparr> else st) })"

definition handle_bis_sync_start_req :: "nat \<Rightarrow> bytes \<Rightarrow> nat \<Rightarrow> 'x sink_app \<Rightarrow> 'x sink_app option" where
  "handle_bis_sync_start_req conn params param_len st =
     (if \<not> in_state AC_STATE_PA_SYNCED st then Some (auracast_gatt_send_response conn 0x0806 [AC_RESULT_FAIL] st)
      else if in_state AC_STATE_BIS_SYNCED st then Some (auracast_gatt_send_response conn 0x0806 [AC_RESULT_FAIL] st)
      else do {
        let st = st\<lparr>bis_sync_has_code := 16 \<le> param_len\<rparr>;
        st \<leftarrow> (if bis_sync_has_code st
               then do { c \<leftarrow> rd_range params 0 16; b \<leftarrow> wr_range (bis_sync_code st) 0 c; Some (st\<lparr>bis_sync_code := b\<rparr>) }
               else Some st);
        Some (st\<lparr>bis_sync_queued := True\<rparr>) })"

definition handle_bis_sync_stop_req :: "'x sys_env \<Rightarrow> int \<Rightarrow> nat \<Rightarrow> 'x sink_app \<Rightarrow> 'x sink_app option" where
  "handle_bis_sync_stop_req e stop conn st =
     (if \<not> in_state AC_STATE_BIS_SYNCED st then Some (auracast_gatt_send_response conn 0x0807 [AC_RESULT_FAIL] st)
      else
        let (ret, st) = broadcast_sink_stop stop st;
            result = (if ret = 0 then AC_RESULT_SUCCESS else AC_RESULT_FAIL);
            st = auracast_gatt_send_response conn 0x0807 [result] st
        in if result = AC_RESULT_SUCCESS then do {
             let st = (leave_state AC_STATE_BIS_SYNCED st)\<lparr>snk_strm_state := STATE_PAUSED\<rparr>;
             sys \<leftarrow> audio_system_stop e (k_sys st);
             Some (notify_state_transition (notify_bis_sync_state 0 (st\<lparr>k_sys := sys\<rparr>))) }
           else Some st)"

definition handle_pa_data_ntf_start_req :: "nat \<Rightarrow> 'x sink_app \<Rightarrow> 'x sink_app" where
  "handle_pa_data_ntf_start_req conn st =
     (if \<not> in_state AC_STATE_PA_SYNCED st then auracast_gatt_send_response conn 0x0808 [AC_RESULT_FAIL] st
      else auracast_gatt_send_response conn 0x0808 [AC_RESULT_SUCCESS] (st\<lparr>pa_data_notify_enabled := True\<rparr>))"

definition handle_pa_data_ntf_stop_req :: "nat \<Rightarrow> 'x sink_app \<Rightarrow> 'x sink_app" where
  "handle_pa_data_ntf_stop_req conn st =
     (if \<not> pa_data_notify_enabled st then auracast_gatt_send_response conn 0x0809 [AC_RESULT_FAIL] st
      else auracast_gatt_send_response conn 0x0809 [AC_RESULT_SUCCESS] (st\<lparr>pa_data_notify_enabled := False\<rparr>))"

definition handle_volume_set_req :: "nat \<Rightarrow> bytes \<Rightarrow> nat \<Rightarrow> 'x sink_app \<Rightarrow> 'x sink_app option" where
  "handle_volume_set_req conn params param_len st =
     (if param_len < 1 then Some (auracast_gatt_send_response conn 0x080A [AC_RESULT_FAIL] st)
      else do {
        v \<leftarrow> rd params 0;
        Some (notify_volume_change (auracast_gatt_send_response conn 0x080A [AC_RESULT_SUCCESS] (st\<lparr>current_volume := v\<rparr>))) })"

definition handle_mute_set_req :: "nat \<Rightarrow> bytes \<Rightarrow> nat \<Rightarrow> 'x sink_app \<Rightarrow> 'x sink_app option" where
  "handle_mute_set_req conn params param_len st =
     (if param_len < 1 then Some (auracast_gatt_send_response conn 0x080B [AC_RESULT_FAIL] st)
      else do {
        v \<leftarrow> rd params 0;
        Some (notify_volume_change (auracast_gatt_send_response conn 0x080B [AC_RESULT_SUCCESS] (st\<lparr>current_mute := v\<rparr>))) })"

definition handle_volume_get_req :: "nat \<Rightarrow> 'x sink_app \<Rightarrow> 'x sink_app" where
  "handle_volume_get_req conn st =
     auracast_gatt_send_response conn 0x080C [current_volume st, current_mute st] st"

text \<open>The location is read, and only logged.\<close>

definition handle_audio_output_req :: "nat \<Rightarrow> bytes \<Rightarrow> nat \<Rightarrow> 'x sink_app \<Rightarrow> 'x sink_app option" where
  "handle_audio_output_req conn params param_len st =
     (if param_len < 4 then Some (auracast_gatt_send_response conn 0x080D [AC_RESULT_FAIL] st)
      else do {
        location \<leftarrow> rd_range params 0 4;
        Some (auracast_gatt_send_response conn 0x080D [AC_RESULT_SUCCESS] st) })"

text \<open>What the host answers while a command is handled.\<close>

record cmd_answers =
  ca_scan :: int
  ca_stop :: int
  ca_del :: del_answer
  ca_create :: "int \<times> nat"

definition gatt_cmd_handler ::
  "'x sys_env \<Rightarrow> cmd_answers \<Rightarrow> nat \<Rightarrow> u16 \<Rightarrow> bytes \<Rightarrow> nat \<Rightarrow> 'x sink_app \<Rightarrow> 'x sink_app option" where
  "gatt_cmd_handler e a conn opcode params param_len st =
     (if command_busy st then Some (auracast_gatt_send_response conn (or (and opcode 0x00FF) 0x0800) [AC_RESULT_FAIL] st)
      else if opcode = 0x0001 then Some (handle_device_info_req conn st)
      else if opcode = 0x0002 then Some (handle_search_start_req (ca_scan a) conn st)
      else if opcode = 0x0003 then Some (handle_search_stop_req conn st)
      else if opcode = 0x0004 then handle_pa_sync_start_req (ca_stop a) (ca_del a) (ca_create a) conn params param_len st
      else if opcode = 0x0005 then Some (handle_pa_sync_release_req (ca_stop a) (ca_del a) conn st)
      else if opcode = 0x0006 then handle_bis_sync_start_req conn params param_len st
      else if opcode = 0x0007 then handle_bis_sync_stop_req e (ca_stop a) conn st
      else if opcode = 0x0008 then Some (handle_pa_data_ntf_start_req conn st)
      else if opcode = 0x0009 then Some (handle_pa_data_ntf_stop_req conn st)
      else if opcode = 0x000A then handle_volume_set_req conn params param_len st
      else if opcode = 0x000B then handle_mute_set_req conn params param_len st
      else if opcode = 0x000C then Some (handle_volume_get_req conn st)
      else if opcode = 0x000D then handle_audio_output_req conn params param_len st
      else Some st)"

abbreviation (input) ATT_ERR_INVALID_ATTRIBUTE_LEN :: int where "ATT_ERR_INVALID_ATTRIBUTE_LEN \<equiv> 13"

text \<open>
  The write of a command: the length of the parameters is the one the command says, not what was
  written after its header. The callback is set by \<open>main\<close>.
\<close>

definition write_cmd_req :: "'x sys_env \<Rightarrow> cmd_answers \<Rightarrow> nat \<Rightarrow> bytes \<Rightarrow> 'x sink_app \<Rightarrow> (int \<times> 'x sink_app) option" where
  "write_cmd_req e a conn data st =
     (if length data < 4 then Some (- ATT_ERR_INVALID_ATTRIBUTE_LEN, st)
      else do {
        let opcode = get_be16 (data ! 0) (data ! 1);
        let param_len = unat (get_be16 (data ! 2) (data ! 3));
        st \<leftarrow> gatt_cmd_handler e a conn opcode (drop 4 data) param_len st;
        Some (int (length data), st) })"

section \<open>Threads\<close>

text \<open>The answers of the host while an event is handled.\<close>

record evt_answers =
  ea_stop :: int
  ea_del :: del_answer
  ea_cleanup :: int

definition on_config_received :: "'x sys_env \<Rightarrow> 'x sink_app \<Rightarrow> 'x sink_app option" where
  "on_config_received e st = do {
     (ret, bitrate, rate, pd) \<leftarrow> broadcast_sink_config_get (Some 0) (Some 0) (Some 0) st;
     if ret \<noteq> 0 then Some st
     else do {
       let (ret, sys) = audio_system_config_set 0 0 (the rate) (k_sys st);
       err_chk ret;
       let (ret, d) = audio_datapath_pres_delay_us_set (s_dp e) (the pd) (sys_dp sys);
       Some (st\<lparr>k_sys := sys\<lparr>sys_dp := d\<rparr>\<rparr>) } }"

definition on_sink_streaming :: "'x sys_env \<Rightarrow> 'x sink_app \<Rightarrow> 'x sink_app option" where
  "on_sink_streaming e st = do {
     st \<leftarrow> (if snk_strm_state st \<noteq> STATE_STREAMING
            then do {
              sys \<leftarrow> audio_system_start e (k_sys st);
              Some (st\<lparr>k_sys := sys, snk_strm_state := STATE_STREAMING\<rparr>) }
            else Some st);
     let st = notify_state_transition (notify_bis_sync_state 1 (enter_state AC_STATE_BIS_SYNCED st));
     Some (st\<lparr>command_busy := False\<rparr>) }"

definition sink_audio_stop :: "'x sys_env \<Rightarrow> 'x sink_app \<Rightarrow> 'x sink_app option" where
  "sink_audio_stop e st =
     (if snk_strm_state st \<noteq> STATE_PAUSED
      then do {
        let st = st\<lparr>snk_strm_state := STATE_PAUSED\<rparr>;
        sys \<leftarrow> audio_system_stop e (k_sys st);
        Some (st\<lparr>k_sys := sys\<rparr>) }
      else Some st)"

text \<open>\<open>bt_mgmt_pa_sync_delete\<close> deletes the synchronisation of the message.\<close>

definition on_sync_lost :: "'x sys_env \<Rightarrow> evt_answers \<Rightarrow> nat option \<Rightarrow> 'x sink_app \<Rightarrow> 'x sink_app option" where
  "on_sync_lost e a pa_sync st = do {
     let st = (if pa_sync \<noteq> None then snd (per_adv_sync_delete (ea_del a) st) else st);
     st \<leftarrow> sink_audio_stop e st;
     let st = st\<lparr>pa_data_received_once := False, pa_data_notify_enabled := False\<rparr>;
     let st = (if in_state AC_STATE_BIS_SYNCED st
               then notify_bis_sync_state 2 (leave_state AC_STATE_BIS_SYNCED st) else st);
     let st = notify_state_transition ((leave_state AC_STATE_PA_SYNCED st)\<lparr>pa_sync_handle := None\<rparr>);
     Some (st\<lparr>command_busy := False\<rparr>) }"

text \<open>One iteration of the thread, with the next message of its queue; with none it waits.\<close>

definition snk_le_audio_msg_sub_thread :: "'x sys_env \<Rightarrow> evt_answers \<Rightarrow> 'x sink_app \<Rightarrow> 'x sink_app option" where
  "snk_le_audio_msg_sub_thread e a st = (case snk_chan st of
     [] \<Rightarrow> Some st
   | msg # msgs \<Rightarrow>
       (let st = st\<lparr>snk_chan := msgs\<rparr>
        in if sm_event msg = LE_AUDIO_EVT_CONFIG_RECEIVED then on_config_received e st
           else if sm_event msg = LE_AUDIO_EVT_NO_VALID_CFG
           then map_option snd (broadcast_sink_disable (ea_stop a) (\<lambda>sync st. Some (per_adv_sync_delete (ea_del a) st))
                                  (ea_cleanup a) st)
           else if sm_event msg = LE_AUDIO_EVT_STREAMING then on_sink_streaming e st
           else if sm_event msg = LE_AUDIO_EVT_NOT_STREAMING then sink_audio_stop e st
           else if sm_event msg = LE_AUDIO_EVT_SYNC_LOST then on_sync_lost e a (sm_pa_sync msg) st
           else Some st))"

datatype bt_mgmt_evt = Mgmt_connected nat | Mgmt_disconnected | Mgmt_other

definition bt_mgmt_msg_sub_thread :: "bt_mgmt_evt \<Rightarrow> 'x sink_app \<Rightarrow> 'x sink_app" where
  "bt_mgmt_msg_sub_thread ev st = (case ev of
     Mgmt_connected c \<Rightarrow> st\<lparr>current_conn := Some c\<rparr>
   | Mgmt_disconnected \<Rightarrow> st\<lparr>current_conn := None, pa_data_notify_enabled := False\<rparr>
   | Mgmt_other \<Rightarrow> st)"

text \<open>A received frame goes from the stream to the reception path.\<close>

definition sink_recv ::
  "'x sink_env \<Rightarrow> nat \<Rightarrow> iso_recv_info \<Rightarrow> u32 \<Rightarrow> bytes \<Rightarrow> le_metadata \<Rightarrow> 'x sink_app \<Rightarrow> 'x sink_app option" where
  "sink_recv e stream info now data meta st = do {
     call \<leftarrow> snk_stream_recv_cb (k_snk e) stream info (length data) meta st;
     case call of
       None \<Rightarrow> Some st
     | Some (m, ch) \<Rightarrow> do {
         rx \<leftarrow> le_audio_rx_data_handler (k_rxe e) (snk_strm_state st = STATE_STREAMING)
                (nat (le_audio_concurrent_sync_num_get st)) now data (audio_metadata.truncate m) (unat ch) (k_rx st);
         Some (st\<lparr>k_rx := rx\<rparr>) } }"

section \<open>Starting\<close>

text \<open>What \<open>main\<close> is answered: the peripherals, the threads and channels, the sink, the advertiser.\<close>

record sink_main_answers =
  sa_peripherals :: int
  sa_fw_info :: int
  sa_bt_mgmt :: int
  sa_subscribers :: int
  sa_link :: int
  sa_enable :: snk_enable_answers
  sa_adv_start :: int

definition sink_main :: "'x sink_env \<Rightarrow> sink_main_answers \<Rightarrow> 'x sink_app \<Rightarrow> 'x sink_app option" where
  "sink_main e a st = do {
     err_chk (sa_peripherals a);
     err_chk (sa_fw_info a);
     err_chk (sa_bt_mgmt a);
     (ret, sys) \<leftarrow> audio_system_init (k_syse e) (k_sys st);
     err_chk ret;
     err_chk (sa_subscribers a);
     err_chk (sa_link a);
     let (ret, rx) = le_audio_rx_init (k_rx st);
     err_chk ret;
     (ret, st) \<leftarrow> broadcast_sink_enable (k_snk e) (sa_enable a) True (st\<lparr>k_sys := sys, k_rx := rx\<rparr>);
     err_chk ret;
     err_chk (sa_adv_start a);
     Some st }"

section \<open>The receiver as events\<close>

text \<open>\<open>Sink_host\<close> is the host changing a stream.\<close>

datatype sink_event =
  Sink_write cmd_answers nat bytes
| Sink_report scan_info bytes
| Sink_pa_data "bt_data list"
| Sink_pa_synced nat bt_addr
| Sink_pa_term int
| Sink_base int base_info
| Sink_syncable int u32 bool
| Sink_started int "nat option"
| Sink_stopped int u8
| Sink_cleanup int
| Sink_bis_work pa_sync_answers
| Sink_msg evt_answers
| Sink_mgmt bt_mgmt_evt
| Sink_host nat bap_stream
| Sink_recv nat iso_recv_info u32 bytes le_metadata
| Sink_rx_thread
| Sink_dp dp_event

definition sink_step :: "'x sink_env \<Rightarrow> sink_event \<Rightarrow> 'x sink_app \<Rightarrow> 'x sink_app option" where
  "sink_step e ev st = (case ev of
     Sink_write a conn data \<Rightarrow> map_option snd (write_cmd_req (k_syse e) a conn data st)
   | Sink_report info buf \<Rightarrow> scan_recv_cb info buf st
   | Sink_pa_data ds \<Rightarrow> pa_recv_cb ds st
   | Sink_pa_synced sync addr \<Rightarrow> Some (pa_synced_cb sync addr st)
   | Sink_pa_term stop \<Rightarrow> Some (pa_sync_term_cb stop st)
   | Sink_base pub base \<Rightarrow> base_recv_cb (k_snk e) pub base st
   | Sink_syncable ans sink_id enc \<Rightarrow> Some (syncable_cb (k_snk e) ans sink_id enc st)
   | Sink_started pub s \<Rightarrow> snk_stream_started_cb pub s st
   | Sink_stopped pub reason \<Rightarrow> snk_stream_stopped_cb pub reason st
   | Sink_cleanup ans \<Rightarrow> Some (bis_cleanup_worker ans st)
   | Sink_bis_work a \<Rightarrow> bis_sync_work_handler a st
   | Sink_msg a \<Rightarrow> snk_le_audio_msg_sub_thread (k_syse e) a st
   | Sink_mgmt ev \<Rightarrow> Some (bt_mgmt_msg_sub_thread ev st)
   | Sink_host i s \<Rightarrow> Some (st\<lparr>audio_streams := (audio_streams st)[i := s]\<rparr>)
   | Sink_recv i info now data m \<Rightarrow> sink_recv e i info now data m st
   | Sink_rx_thread \<Rightarrow>
       map_option (\<lambda>(rx, sys). st\<lparr>k_rx := rx, k_sys := sys\<rparr>)
         (audio_datapath_thread (k_rxe e) (k_syse e) (k_rx st, k_sys st))
   | Sink_dp ev \<Rightarrow>
       map_option (\<lambda>sys. st\<lparr>k_sys := sys\<rparr>) (sys_step (k_syse e) (Sys_dp ev) (k_sys st)))"

fun sink_run :: "'x sink_env \<Rightarrow> sink_event list \<Rightarrow> 'x sink_app \<Rightarrow> 'x sink_app option" where
  "sink_run e [] st = Some st"
| "sink_run e (ev # evs) st = do { st \<leftarrow> sink_step e ev st; sink_run e evs st }"

end
