(* ===== verification/SinkSafety.thy ===== *)
theory SinkSafety
  imports SinkMain BroadcastSafety
begin

text \<open>
  The receiver application as a whole: an invariant of its state, kept by every event, from which its
  safety follows.
\<close>

section \<open>State bits and notifications\<close>

lemma in_state_enter: "in_state m (enter_state m' st) \<longleftrightarrow> in_state m st \<or> and m' m \<noteq> 0"
  by (simp add: in_state_def enter_state_def bit.conj_disj_distrib2 or_eq_0_iff)

lemma and_not_disjoint:
  assumes "and m' m = (0 :: u8)"
  shows "and (and r (not m')) m = and r m"
proof (rule bit_word_eqI)
  fix n assume "n < LENGTH(8)"
  have "bit (and m' m) n = False" using assms by simp
  then show "bit (and (and r (not m')) m) n = bit (and r m) n" using \<open>n < LENGTH(8)\<close> by (auto simp: bit_simps)
qed

lemma in_state_leave: "and m' m = 0 \<Longrightarrow> in_state m (leave_state m' st) \<longleftrightarrow> in_state m st"
  by (simp add: in_state_def leave_state_def and_not_disjoint)

lemma in_state_leave_same [simp]: "\<not> in_state m (leave_state m st)"
  by (simp add: in_state_def leave_state_def and.assoc)

lemma in_state_update [simp]:
  "in_state m (st\<lparr>pa_sync_handle := h\<rparr>) = in_state m st"
  "in_state m (st\<lparr>pa_data_notify_enabled := b\<rparr>) = in_state m st"
  "in_state m (st\<lparr>pa_data_received_once := b\<rparr>) = in_state m st"
  "in_state m (st\<lparr>command_busy := b\<rparr>) = in_state m st"
  "in_state m (st\<lparr>pa_sync_addr := a\<rparr>) = in_state m st"
  "in_state m (st\<lparr>pa_sync_sid := s\<rparr>) = in_state m st"
  "in_state m (st\<lparr>pa_sync_broadcast_id := i\<rparr>) = in_state m st"
  "in_state m (st\<lparr>snk_strm_state := t\<rparr>) = in_state m st"
  "in_state m (st\<lparr>k_sys := sys\<rparr>) = in_state m st"
  "in_state m (st\<lparr>gatt_out := g\<rparr>) = in_state m st"
  "in_state m (st\<lparr>scan_cache := c\<rparr>) = in_state m st"
  "in_state m (st\<lparr>snk_chan := q\<rparr>) = in_state m st"
  by (simp_all add: in_state_def)

text \<open>
  What the audio side of the invariant speaks of: nothing that a notification or a bit of the state changes.
\<close>

definition sync_asked :: "'a bsink_scheme \<Rightarrow> bool" where
  "sync_asked st \<longleftrightarrow> (\<exists>b k. Sink_sync b k \<in> set (sink_calls st))"

definition core where
  "core st = (k_sys st, snk_strm_state st, snk_chan st, codec_infos st, bis_index_bitfield st, k_rx st,
     sync_asked st, length (audio_streams st), length (bis_encryption_key st), length (bis_sync_code st),
     length (prev_pa_data st), length (scan_cache st))"

text \<open>What the protocol side speaks of.\<close>

definition link where
  "link st = (in_state AC_STATE_PA_SYNCED st, pa_sync_handle st, pa_data_notify_enabled st)"

lemma send_keeps [simp]:
  "core (auracast_gatt_send_response c oc p st) = core st" "link (auracast_gatt_send_response c oc p st) = link st"
  "core (auracast_gatt_send_pa_data c d st) = core st" "link (auracast_gatt_send_pa_data c d st) = link st"
  by (simp_all add: auracast_gatt_send_response_def auracast_gatt_send_pa_data_def core_def link_def sync_asked_def)

lemma notify_keeps [simp]:
  "core (notify_conn oc p st) = core st" "link (notify_conn oc p st) = link st"
  by (simp_all add: notify_conn_def split: option.split)

lemma notifications_keep [simp]:
  "core (notify_state_transition st) = core st" "link (notify_state_transition st) = link st"
  "core (notify_pa_sync_state s a l st) = core st" "link (notify_pa_sync_state s a l st) = link st"
  "core (notify_bis_sync_state s st) = core st" "link (notify_bis_sync_state s st) = link st"
  "core (notify_volume_change st) = core st" "link (notify_volume_change st) = link st"
  by (simp_all add: notify_state_transition_def notify_pa_sync_state_def notify_bis_sync_state_def notify_volume_change_def)

lemma bits_keep [simp]:
  "core (enter_state m st) = core st" "core (leave_state m st) = core st"
  "link (enter_state 1 st) = link st" "link (leave_state 1 st) = link st"
  "link (enter_state 4 st) = link st" "link (leave_state 4 st) = link st"
  by (simp_all add: core_def link_def sync_asked_def in_state_enter in_state_leave)
    (simp_all add: enter_state_def leave_state_def)

lemma sink_stop_keeps [simp]:
  "core (snd (broadcast_sink_stop ans st)) = core st" "link (snd (broadcast_sink_stop ans st)) = link st"
  by (auto simp: broadcast_sink_stop_def core_def link_def sync_asked_def in_state_def Let_def)

lemma cleanup_keeps [simp]:
  "core (snd (broadcast_sink_cleanup ans st)) = core st" "link (snd (broadcast_sink_cleanup ans st)) = link st"
  by (auto simp: broadcast_sink_cleanup_def core_def link_def sync_asked_def in_state_def Let_def)

section \<open>Invariant\<close>

definition rate_ok :: "int \<Rightarrow> bool" where
  "rate_ok hz \<longleftrightarrow> hz = 16000 \<or> hz = 24000 \<or> hz = 48000"

text \<open>Streams are reported only once the decoder was configured, or will be by an earlier message.\<close>

fun chan_ok :: "bool \<Rightarrow> snk_msg list \<Rightarrow> bool" where
  "chan_ok c [] = True"
| "chan_ok c (m # ms) =
     (if sm_event m = LE_AUDIO_EVT_CONFIG_RECEIVED then chan_ok True ms
      else (sm_event m = LE_AUDIO_EVT_STREAMING \<longrightarrow> c) \<and> chan_ok c ms)"

definition config_queued :: "snk_msg list \<Rightarrow> bool" where
  "config_queued q \<longleftrightarrow> LE_AUDIO_EVT_CONFIG_RECEIVED \<in> sm_event ` set q"

definition dec_ready :: "'x audio_system \<Rightarrow> bool" where
  "dec_ready sys = dec_enabled (decoder (sw_codec_cfg sys))"

definition core_inv :: "'x sink_env \<Rightarrow> nat \<Rightarrow> 'x sink_app \<Rightarrow> bool" where
  "core_inv e mtu st \<longleftrightarrow> sys_inv (k_syse e) (k_sys st)
     \<and> (snk_strm_state st = STATE_STREAMING \<longleftrightarrow> sys_running (k_sys st))
     \<and> (sys_running (k_sys st) \<longrightarrow> dec_ready (k_sys st))
     \<and> chan_ok (dec_ready (k_sys st)) (snk_chan st)
     \<and> (sync_asked st \<or> bis_index_bitfield st \<noteq> 0 \<longrightarrow> dec_ready (k_sys st) \<or> config_queued (snk_chan st))
     \<and> (\<forall>ci\<in>set (codec_infos st). ci_frequency ci = 0 \<or> rate_ok (ci_frequency ci))
     \<and> (config_queued (snk_chan st) \<longrightarrow> rate_ok (ci_frequency (codec_infos st ! 0)))
     \<and> rx_inv (k_rxe e) 2 mtu (k_rx st)
     \<and> length (codec_infos st) = length (audio_streams st) \<and> 0 < length (audio_streams st)
     \<and> length (bis_encryption_key st) = 16 \<and> length (bis_sync_code st) = 16
     \<and> length (prev_pa_data st) = PA_MAX_DATA_LEN \<and> 0 < length (scan_cache st)"

definition link_inv :: "'x sink_app \<Rightarrow> bool" where
  "link_inv st \<longleftrightarrow> (pa_data_notify_enabled st \<longrightarrow> in_state AC_STATE_PA_SYNCED st)
     \<and> (in_state AC_STATE_PA_SYNCED st \<longrightarrow> pa_sync_handle st \<noteq> None)"

definition sink_inv :: "'x sink_env \<Rightarrow> nat \<Rightarrow> 'x sink_app \<Rightarrow> bool" where
  "sink_inv e mtu st \<longleftrightarrow> core_inv e mtu st \<and> link_inv st"

lemma core_inv_same: "core st' = core st \<Longrightarrow> core_inv e mtu st' = core_inv e mtu st"
  by (simp add: core_def core_inv_def)

lemma link_inv_same: "link st' = link st \<Longrightarrow> link_inv st' = link_inv st"
  by (simp add: link_def link_inv_def)

lemma sink_inv_same: "core st' = core st \<Longrightarrow> link st' = link st \<Longrightarrow> sink_inv e mtu st' = sink_inv e mtu st"
  unfolding sink_inv_def by (metis core_inv_same link_inv_same)

section \<open>Commands\<close>

text \<open>An operation that leaves the core alone and keeps the link.\<close>

definition keeps :: "'x sink_app \<Rightarrow> 'x sink_app \<Rightarrow> bool" where
  "keeps st st' \<longleftrightarrow> core st' = core st \<and> (link_inv st \<longrightarrow> link_inv st')"

lemma keeps_inv: "keeps st st' \<Longrightarrow> sink_inv e mtu st \<Longrightarrow> sink_inv e mtu st'"
  unfolding keeps_def sink_inv_def by (metis core_inv_same)

lemma keeps_same: "core st' = core st \<Longrightarrow> link st' = link st \<Longrightarrow> keeps st st'"
  unfolding keeps_def by (metis link_inv_same)

lemma keeps_trans: "keeps st st1 \<Longrightarrow> keeps st1 st2 \<Longrightarrow> keeps st st2"
  by (simp add: keeps_def)

text \<open>The fields that are in neither.\<close>

lemma core_update [simp]:
  "core (st\<lparr>pa_sync_handle := h\<rparr>) = core st" "core (st\<lparr>pa_data_notify_enabled := b\<rparr>) = core st"
  "core (st\<lparr>pa_data_received_once := b\<rparr>) = core st" "core (st\<lparr>command_busy := b\<rparr>) = core st"
  "core (st\<lparr>pa_sync_addr := a\<rparr>) = core st" "core (st\<lparr>pa_sync_sid := s\<rparr>) = core st"
  "core (st\<lparr>pa_sync_broadcast_id := i\<rparr>) = core st" "core (st\<lparr>current_volume := v\<rparr>) = core st"
  "core (st\<lparr>current_mute := v\<rparr>) = core st" "core (st\<lparr>current_conn := c\<rparr>) = core st"
  "core (st\<lparr>bis_sync_queued := b\<rparr>) = core st" "core (st\<lparr>bis_sync_has_code := b\<rparr>) = core st"
  "core (st\<lparr>broadcast_code_received := b\<rparr>) = core st" "core (st\<lparr>bis_cleanup_queued := b\<rparr>) = core st"
  "core (st\<lparr>paused := b\<rparr>) = core st" "core (st\<lparr>prev_pa_data_len := l\<rparr>) = core st"
  "core (st\<lparr>broadcast_sink := k\<rparr>) = core st" "core (st\<lparr>pa_sync_stored := h\<rparr>) = core st"
  "core (st\<lparr>sync_stream_cnt := n\<rparr>) = core st"
  by (simp_all add: core_def sync_asked_def)

lemma link_update [simp]:
  "link (st\<lparr>pa_data_received_once := b\<rparr>) = link st" "link (st\<lparr>command_busy := b\<rparr>) = link st"
  "link (st\<lparr>pa_sync_addr := a\<rparr>) = link st" "link (st\<lparr>pa_sync_sid := s\<rparr>) = link st"
  "link (st\<lparr>pa_sync_broadcast_id := i\<rparr>) = link st" "link (st\<lparr>current_volume := v\<rparr>) = link st"
  "link (st\<lparr>current_mute := v\<rparr>) = link st" "link (st\<lparr>current_conn := c\<rparr>) = link st"
  "link (st\<lparr>bis_sync_queued := b\<rparr>) = link st" "link (st\<lparr>bis_sync_has_code := b\<rparr>) = link st"
  "link (st\<lparr>broadcast_code_received := b\<rparr>) = link st" "link (st\<lparr>bis_cleanup_queued := b\<rparr>) = link st"
  "link (st\<lparr>bis_sync_code := y\<rparr>) = link st" "link (st\<lparr>bis_encryption_key := y\<rparr>) = link st"
  "link (st\<lparr>paused := b\<rparr>) = link st" "link (st\<lparr>prev_pa_data_len := l\<rparr>) = link st"
  "link (st\<lparr>prev_pa_data := y\<rparr>) = link st" "link (st\<lparr>scan_cache := z\<rparr>) = link st"
  "link (st\<lparr>snk_strm_state := t\<rparr>) = link st" "link (st\<lparr>k_sys := sys\<rparr>) = link st"
  "link (st\<lparr>k_rx := rx\<rparr>) = link st" "link (st\<lparr>snk_chan := q\<rparr>) = link st"
  "link (st\<lparr>codec_infos := is\<rparr>) = link st" "link (st\<lparr>bis_index_bitfield := w\<rparr>) = link st"
  "link (st\<lparr>sync_stream_cnt := n\<rparr>) = link st" "link (st\<lparr>audio_streams := ss\<rparr>) = link st"
  "link (st\<lparr>broadcast_sink := k\<rparr>) = link st" "link (st\<lparr>pa_sync_stored := h\<rparr>) = link st"
  "link (st\<lparr>sink_calls := cs\<rparr>) = link st" "link (st\<lparr>init_routine_completed := b\<rparr>) = link st"
  "link (st\<lparr>prev_broadcast_id := i\<rparr>) = link st"
  by (simp_all add: link_def in_state_def)

text \<open>The link only goes down with the notifications off.\<close>

lemma link_leave: "link_inv (leave_state AC_STATE_PA_SYNCED st) \<longleftrightarrow> \<not> pa_data_notify_enabled st"
  by (simp add: link_inv_def) (simp add: leave_state_def)

lemma notify_enabled_link: "link st' = link st \<Longrightarrow> pa_data_notify_enabled st' = pa_data_notify_enabled st"
  by (simp add: link_def)

lemma term_keeps: "keeps st (pa_sync_term_cb stop st)"
proof -
  let ?s = "if in_state AC_STATE_BIS_SYNCED st
      then notify_bis_sync_state 0 (leave_state AC_STATE_BIS_SYNCED (snd (broadcast_sink_stop stop st))) else st"
  let ?t = "leave_state AC_STATE_PA_SYNCED
      (?s\<lparr>pa_data_notify_enabled := False, pa_data_received_once := False, pa_sync_handle := None\<rparr>)"
  let ?u = "notify_state_transition (notify_pa_sync_state 0 (pa_sync_addr ?t) 3 ?t)\<lparr>command_busy := False\<rparr>"
  have u: "pa_sync_term_cb stop st = ?u" by (simp add: pa_sync_term_cb_def Let_def)
  have "core ?u = core st" by simp
  moreover have "link_inv ?t" by (simp add: link_leave)
  then have "link_inv ?u" by (rule link_inv_same [THEN iffD2, rotated]) simp
  ultimately show ?thesis unfolding u keeps_def by blast
qed

lemma delete_keeps: "keeps st (snd (per_adv_sync_delete d st))"
  using term_keeps [of st] by (simp add: per_adv_sync_delete_def keeps_def)

lemma synced_keeps: "keeps st (pa_synced_cb sync addr st)"
proof -
  let ?t = "enter_state AC_STATE_PA_SYNCED (st\<lparr>pa_sync_handle := Some sync\<rparr>)"
  let ?u = "notify_state_transition (notify_pa_sync_state 1 addr 3 ?t)\<lparr>command_busy := False\<rparr>"
  have u: "pa_synced_cb sync addr st = ?u" by (simp add: pa_synced_cb_def Let_def)
  have "link_inv ?t" by (simp add: link_inv_def in_state_enter) (simp add: enter_state_def)
  then have "link_inv ?u" by (rule link_inv_same [THEN iffD2, rotated]) simp
  then show ?thesis unfolding u keeps_def by simp
qed

lemma notifications_notify [simp]:
  "pa_data_notify_enabled (notify_state_transition st) = pa_data_notify_enabled st"
  "pa_data_notify_enabled (notify_pa_sync_state s a l st) = pa_data_notify_enabled st"
  "pa_data_notify_enabled (leave_state m st) = pa_data_notify_enabled st"
  by (rule notify_enabled_link, simp)+ (simp add: leave_state_def)

lemma delete_notify: "\<not> pa_data_notify_enabled st \<Longrightarrow> \<not> pa_data_notify_enabled (snd (per_adv_sync_delete d st))"
  by (simp add: per_adv_sync_delete_def pa_sync_term_cb_def Let_def)

lemma link_some: "link_inv st \<Longrightarrow> link_inv (st\<lparr>pa_sync_handle := Some h\<rparr>)"
  by (simp add: link_inv_def)

text \<open>Leaving the synchronisation: the notifications go off before it is deleted.\<close>

lemma release_keeps:
  "keeps st (leave_state AC_STATE_PA_SYNCED
     ((snd (per_adv_sync_delete del (st\<lparr>pa_data_notify_enabled := False\<rparr>)))\<lparr>pa_sync_handle := None\<rparr>))"
proof -
  let ?s = "snd (per_adv_sync_delete del (st\<lparr>pa_data_notify_enabled := False\<rparr>))"
  have "\<not> pa_data_notify_enabled ?s" by (rule delete_notify) simp
  moreover have "core ?s = core st" using delete_keeps [of "st\<lparr>pa_data_notify_enabled := False\<rparr>" del] by (simp add: keeps_def)
  ultimately show ?thesis by (simp add: keeps_def link_leave)
qed

lemma sync_start_keeps:
  assumes "param_len \<le> length params"
  shows "\<exists>st'. handle_pa_sync_start_req stop del create conn params param_len st = Some st' \<and> keeps st st'"
proof (cases "param_len < 8")
  case True
  then show ?thesis by (simp add: handle_pa_sync_start_req_def keeps_same)
next
  case False
  let ?s0 = "if in_state AC_STATE_BIS_SYNCED st
      then leave_state AC_STATE_BIS_SYNCED (snd (broadcast_sink_stop stop st)) else st"
  let ?s1 = "if pa_sync_handle st = None then st else leave_state AC_STATE_PA_SYNCED
      ((snd (per_adv_sync_delete del (?s0\<lparr>pa_data_notify_enabled := False\<rparr>)))\<lparr>pa_sync_handle := None\<rparr>)"
  let ?addr = "\<lparr>addr_type = params ! 1, addr_val = take 6 (drop 2 params)\<rparr>"
  let ?s2 = "if fst create = 0 then ?s1\<lparr>pa_sync_handle := Some (snd create), pa_sync_addr := ?addr, pa_sync_sid := params ! 0,
      pa_sync_broadcast_id := lookup_broadcast_id ?addr (params ! 0) (scan_cache ?s1), command_busy := True\<rparr> else ?s1"
  have rds: "rd params 0 = Some (params ! 0)" "rd params 1 = Some (params ! 1)"
      "rd_range params 2 6 = Some (take 6 (drop 2 params))"
    using False assms by (auto simp: rd_def rd_range_def)
  have run: "handle_pa_sync_start_req stop del create conn params param_len st
      = Some (auracast_gatt_send_response conn 0x0804 [if fst create = 0 then 0 else 1] ?s2)"
    using False by (simp add: handle_pa_sync_start_req_def rds Let_def del: One_nat_def)
  have "keeps st ?s0" by (simp add: keeps_same)
  then have k1: "keeps st ?s1" using release_keeps [of ?s0 del] keeps_trans by (auto simp: keeps_def)
  have "link_inv ?s1 \<Longrightarrow> link_inv (?s1\<lparr>pa_sync_handle := Some (snd create), pa_sync_addr := ?addr, pa_sync_sid := params ! 0,
      pa_sync_broadcast_id := lookup_broadcast_id ?addr (params ! 0) (scan_cache ?s1), command_busy := True\<rparr>)"
    by (rule link_inv_same [THEN iffD2, rotated], rule link_some [of _ "snd create"]) simp_all
  then have "keeps ?s1 ?s2" by (simp add: keeps_def)
  then have "keeps st ?s2" using k1 keeps_trans by blast
  then have "keeps st (auracast_gatt_send_response conn 0x0804 [if fst create = 0 then 0 else 1] ?s2)"
    by (rule keeps_trans) (simp only: keeps_same send_keeps)
  then show ?thesis using run by blast
qed

lemma sync_release_keeps: "keeps st (handle_pa_sync_release_req stop del conn st)"
proof (cases "in_state AC_STATE_PA_SYNCED st")
  case False
  then show ?thesis by (simp add: handle_pa_sync_release_req_def keeps_same)
next
  case True
  let ?s0 = "if in_state AC_STATE_BIS_SYNCED st
      then notify_bis_sync_state 0 (leave_state AC_STATE_BIS_SYNCED (snd (broadcast_sink_stop stop st))) else st"
  let ?d = "per_adv_sync_delete del (?s0\<lparr>pa_data_notify_enabled := False\<rparr>)"
  let ?s1 = "auracast_gatt_send_response conn 0x0805 [if fst ?d = 0 then 0 else 1] (snd ?d)"
  let ?s2 = "leave_state AC_STATE_PA_SYNCED (?s1\<lparr>pa_sync_handle := None, pa_data_received_once := False\<rparr>)"
  have run: "handle_pa_sync_release_req stop del conn st
      = (if fst ?d = 0 then notify_state_transition (notify_pa_sync_state 0 (pa_sync_addr ?s2) 3 ?s2) else ?s1)"
    using True by (simp add: handle_pa_sync_release_req_def Let_def split_beta)
  have "keeps st ?s0" by (simp add: keeps_same)
  moreover have "keeps ?s0 (?s0\<lparr>pa_data_notify_enabled := False\<rparr>)" by (auto simp: keeps_def link_inv_def)
  moreover have "keeps (?s0\<lparr>pa_data_notify_enabled := False\<rparr>) (snd ?d)" by (rule delete_keeps)
  ultimately have k1: "keeps st ?s1" by (meson keeps_trans keeps_same send_keeps(1,2))
  have "\<not> pa_data_notify_enabled (snd ?d)" by (rule delete_notify) simp
  then have "\<not> pa_data_notify_enabled ?s1" using notify_enabled_link [of ?s1 "snd ?d"] by simp
  then have "keeps ?s1 ?s2" by (simp add: keeps_def link_leave)
  then have k2: "keeps st (notify_state_transition (notify_pa_sync_state 0 (pa_sync_addr ?s2) 3 ?s2))"
    using k1 by (meson keeps_trans keeps_same notifications_keep(1-4))
  show ?thesis
  proof (cases "fst ?d = 0")
    case True
    show ?thesis unfolding run if_P [OF True] using k2 unfolding if_P [OF True] .
  next
    case False
    show ?thesis unfolding run if_not_P [OF False] using k1 unfolding if_not_P [OF False] .
  qed
qed

lemma bis_start_inv:
  assumes "sink_inv e mtu st" and "param_len \<le> length params"
  shows "\<exists>st'. handle_bis_sync_start_req conn params param_len st = Some st' \<and> sink_inv e mtu st'"
proof (cases "in_state AC_STATE_PA_SYNCED st \<and> \<not> in_state AC_STATE_BIS_SYNCED st")
  case False
  then have "\<exists>st'. handle_bis_sync_start_req conn params param_len st = Some st' \<and> keeps st st'"
    by (auto simp: handle_bis_sync_start_req_def keeps_same)
  then show ?thesis using keeps_inv assms(1) by blast
next
  case True
  have "length (bis_sync_code st) = 16" using assms(1) by (simp add: sink_inv_def core_inv_def)
  then have wr: "wr_range (bis_sync_code st) 0 c = Some (c @ drop (length c) (bis_sync_code st))" if "length c = 16" for c
    using that by (simp add: wr_range_def)
  have "\<exists>st'. handle_bis_sync_start_req conn params param_len st = Some st' \<and> core st' = core st \<and> link st' = link st"
  proof (cases "16 \<le> param_len")
    case True
    then show ?thesis
      using \<open>in_state AC_STATE_PA_SYNCED st \<and> \<not> in_state AC_STATE_BIS_SYNCED st\<close> assms(2) wr \<open>length (bis_sync_code st) = 16\<close>
      by (simp add: handle_bis_sync_start_req_def mem_simps Let_def) (simp add: core_def sync_asked_def)
  next
    case False
    then show ?thesis
      using \<open>in_state AC_STATE_PA_SYNCED st \<and> \<not> in_state AC_STATE_BIS_SYNCED st\<close>
      by (simp add: handle_bis_sync_start_req_def Let_def)
  qed
  then show ?thesis using sink_inv_same assms(1) by metis
qed

text \<open>The audio system stops, whatever the rest of the state does.\<close>

lemma stop_keeps_dec: "audio_system_stop e s = Some s' \<Longrightarrow> dec_ready s' = dec_ready s"
  by (auto simp: audio_system_stop_def dec_ready_def Let_def split: if_splits bind_splits prod.splits)

lemma paused_core_inv:
  assumes "core_inv e mtu st" and "sys_externals_ok (k_syse e)"
  shows "\<exists>sys. audio_system_stop (k_syse e) (k_sys st) = Some sys
     \<and> core_inv e mtu (st\<lparr>snk_strm_state := STATE_PAUSED, k_sys := sys\<rparr>)"
proof -
  obtain sys where sys: "audio_system_stop (k_syse e) (k_sys st) = Some sys" "sys_inv (k_syse e) sys" "\<not> sys_running sys"
    using sys_stop_inv [OF assms(2)] assms(1) by (auto simp: core_inv_def)
  then show ?thesis
    using assms(1) stop_keeps_dec [OF sys(1)] by (simp add: core_inv_def sync_asked_def)
qed

lemma bis_stop_inv:
  assumes "sink_inv e mtu st" and "sys_externals_ok (k_syse e)"
  shows "\<exists>st'. handle_bis_sync_stop_req (k_syse e) stop conn st = Some st' \<and> sink_inv e mtu st'"
proof (cases "in_state AC_STATE_BIS_SYNCED st")
  case False
  then have "keeps st (auracast_gatt_send_response conn 0x0807 [1] st)" by (simp add: keeps_same)
  then show ?thesis using False keeps_inv [OF _ assms(1)] by (simp add: handle_bis_sync_stop_req_def)
next
  case True
  let ?p = "broadcast_sink_stop stop st"
  let ?s1 = "auracast_gatt_send_response conn 0x0807 [if fst ?p = 0 then 0 else 1] (snd ?p)"
  have inv1: "sink_inv e mtu ?s1" using assms(1) by (rule keeps_inv [rotated]) (simp add: keeps_same)
  show ?thesis
  proof (cases "fst ?p = 0")
    case False
    then show ?thesis using True inv1 by (simp add: handle_bis_sync_stop_req_def Let_def split_beta)
  next
    case ok: True
    let ?s2 = "leave_state AC_STATE_BIS_SYNCED ?s1"
    have inv2: "core_inv e mtu ?s2" "link_inv ?s2"
      using inv1 core_inv_same [of ?s2 ?s1 e mtu] link_inv_same [of ?s2 ?s1] by (simp_all add: sink_inv_def)
    obtain sys where sys: "audio_system_stop (k_syse e) (k_sys ?s2) = Some sys"
        "core_inv e mtu (?s2\<lparr>snk_strm_state := STATE_PAUSED, k_sys := sys\<rparr>)"
      using paused_core_inv [OF inv2(1) assms(2)] by blast
    let ?s3 = "?s2\<lparr>snk_strm_state := STATE_PAUSED, k_sys := sys\<rparr>"
    have "link_inv ?s3" using inv2(2) link_inv_same [of ?s3 ?s2] by simp
    then have "sink_inv e mtu (notify_state_transition (notify_bis_sync_state 0 ?s3))"
      using sys(2) sink_inv_same [of "notify_state_transition (notify_bis_sync_state 0 ?s3)" ?s3 e mtu]
      by (simp add: sink_inv_def)
    then show ?thesis
      using True ok sys(1) by (simp add: handle_bis_sync_stop_req_def Let_def split_beta)
  qed
qed

lemma simple_commands_keep:
  "keeps st (handle_device_info_req c st)" "keeps st (handle_search_start_req n c st)"
  "keeps st (handle_search_stop_req c st)" "keeps st (handle_pa_data_ntf_stop_req c st)"
  "keeps st (handle_volume_get_req c st)" "keeps st (handle_pa_data_ntf_start_req c st)"
proof -
  show "keeps st (handle_device_info_req c st)" "keeps st (handle_search_start_req n c st)"
      "keeps st (handle_search_stop_req c st)" "keeps st (handle_volume_get_req c st)"
    by (simp_all add: keeps_same handle_device_info_req_def handle_search_start_req_def handle_search_stop_req_def
        handle_volume_get_req_def Let_def)
  have off: "keeps st (st\<lparr>pa_data_notify_enabled := False\<rparr>)" by (auto simp: keeps_def link_inv_def)
  show "keeps st (handle_pa_data_ntf_stop_req c st)"
    by (simp add: handle_pa_data_ntf_stop_req_def keeps_same keeps_trans [OF off])
  have on: "keeps st (st\<lparr>pa_data_notify_enabled := True\<rparr>)" if "in_state AC_STATE_PA_SYNCED st"
    using that by (auto simp: keeps_def link_inv_def)
  show "keeps st (handle_pa_data_ntf_start_req c st)"
    by (simp add: handle_pa_data_ntf_start_req_def keeps_same keeps_trans [OF on])
qed

lemma parameter_commands_keep:
  assumes "param_len \<le> length params"
  shows "\<exists>st'. handle_volume_set_req c params param_len st = Some st' \<and> keeps st st'"
    and "\<exists>st'. handle_mute_set_req c params param_len st = Some st' \<and> keeps st st'"
    and "\<exists>st'. handle_audio_output_req c params param_len st = Some st' \<and> keeps st st'"
  using assms
  by (cases params; simp add: keeps_same handle_volume_set_req_def handle_mute_set_req_def handle_audio_output_req_def
        rd_def rd_range_def)+

text \<open>A write whose header is honest about the length of the parameters.\<close>

definition honest :: "bytes \<Rightarrow> bool" where
  "honest data \<longleftrightarrow> length data < 4 \<or> unat (get_be16 (data ! 2) (data ! 3)) \<le> length data - 4"

lemma command_inv:
  assumes "sink_inv e mtu st" and "sys_externals_ok (k_syse e)" and "param_len \<le> length params"
  shows "\<exists>st'. gatt_cmd_handler (k_syse e) a conn opcode params param_len st = Some st' \<and> sink_inv e mtu st'"
proof -
  note k = keeps_inv [OF _ assms(1)]
  have e1: "\<exists>st'. handle_pa_sync_start_req (ca_stop a) (ca_del a) (ca_create a) conn params param_len st = Some st'
      \<and> sink_inv e mtu st'"
    using sync_start_keeps [OF assms(3)] k by blast
  have e2: "\<exists>st'. handle_volume_set_req conn params param_len st = Some st' \<and> sink_inv e mtu st'"
      "\<exists>st'. handle_mute_set_req conn params param_len st = Some st' \<and> sink_inv e mtu st'"
      "\<exists>st'. handle_audio_output_req conn params param_len st = Some st' \<and> sink_inv e mtu st'"
    using parameter_commands_keep [OF assms(3)] k by blast+
  have e3: "sink_inv e mtu (handle_device_info_req conn st)" "sink_inv e mtu (handle_search_start_req (ca_scan a) conn st)"
      "sink_inv e mtu (handle_search_stop_req conn st)" "sink_inv e mtu (handle_pa_data_ntf_stop_req conn st)"
      "sink_inv e mtu (handle_volume_get_req conn st)" "sink_inv e mtu (handle_pa_data_ntf_start_req conn st)"
      "sink_inv e mtu (handle_pa_sync_release_req (ca_stop a) (ca_del a) conn st)"
    using simple_commands_keep sync_release_keeps k by blast+
  have e4: "sink_inv e mtu (auracast_gatt_send_response conn oc p st)" for oc p
    using k keeps_same by (metis send_keeps(1,2))
  show ?thesis
    unfolding gatt_cmd_handler_def
    using e1 e2 e3 e4 bis_start_inv [OF assms(1,3)] bis_stop_inv [OF assms(1,2)] assms(1)
    by (simp only: option.inject ex_simps simp_thms split: if_split)
qed

lemma write_inv:
  assumes "sink_inv e mtu st" and "sys_externals_ok (k_syse e)" and "honest data"
  shows "\<exists>r st'. write_cmd_req (k_syse e) a conn data st = Some (r, st') \<and> sink_inv e mtu st'"
proof (cases "length data < 4")
  case True
  then show ?thesis using assms(1) by (simp add: write_cmd_req_def)
next
  case False
  let ?oc = "get_be16 (data ! 0) (data ! 1)" and ?n = "unat (get_be16 (data ! 2) (data ! 3))"
  obtain st' where "gatt_cmd_handler (k_syse e) a conn ?oc (drop 4 data) ?n st = Some st'" "sink_inv e mtu st'"
    using command_inv [OF assms(1,2), of ?n "drop 4 data" a conn ?oc] assms(3) False by (auto simp: honest_def)
  then show ?thesis using False by (simp add: write_cmd_req_def Let_def)
qed

section \<open>Scan reports\<close>

definition found_ok :: "scan_found \<Rightarrow> bool" where
  "found_ok r \<longleftrightarrow> length (sf_name r) = 129 \<and> length (sf_id r) = 3 \<and> sf_name_len r \<le> 128"

lemma scan_element_ok:
  assumes "found_ok r" and "n \<le> length buf"
  shows "\<exists>r'. scan_element ty n buf r = Some r' \<and> found_ok r'"
proof -
  have "rd buf 0 = Some (buf ! 0)" "rd buf 1 = Some (buf ! 1)" if "2 \<le> n" using that assms(2) by (auto simp: rd_def)
  moreover have "rd buf 2 = Some (buf ! 2)" if "3 \<le> n" using that assms(2) by (auto simp: rd_def)
  ultimately show ?thesis
    using assms
    by (auto simp: scan_element_def found_ok_def rd_range_def wr_range_def Let_def)
qed

lemma ad_loop_ok: "found_ok r \<Longrightarrow> \<exists>r'. ad_loop buf r = Some r' \<and> found_ok r'"
proof (induction buf r rule: ad_loop.induct)
  case (1 buf r)
  let ?n = "unat (hd buf) - 1" and ?b = "tl (tl buf)"
  show ?case
  proof (cases "length buf \<le> 1 \<or> unat (hd buf) = 0 \<or> length (tl buf) < unat (hd buf)")
    case True
    then show ?thesis using 1(2) by (auto simp: ad_loop.simps [of buf] Let_def)
  next
    case False
    then have n: "?n \<le> length ?b" by (simp, arith)
    obtain r1 where r1: "scan_element (hd (tl buf)) ?n ?b r = Some r1" "found_ok r1"
      using scan_element_ok [OF 1(2) n] by blast
    then have "\<exists>r'. ad_loop (drop ?n ?b) r1 = Some r' \<and> found_ok r'"
      using 1(1) [of "unat (hd buf)" "tl buf" r1] False by auto
    then show ?thesis using False r1(1) by (simp add: ad_loop.simps [of buf] Let_def)
  qed
qed

lemma first_index_less: "first_index P xs = Some i \<Longrightarrow> i < length xs"
  by (auto simp: first_index_def Let_def split: if_splits)

lemma cache_ok:
  assumes "0 < length cache"
  shows "\<exists>c. cache_scan_result a i b cache = Some c \<and> length c = length cache"
  using assms by (auto simp: cache_scan_result_def mem_simps split: option.split)

lemma report_inv:
  assumes "sink_inv e mtu st" and "length (addr_val (si_addr info)) = 6"
  shows "\<exists>st'. scan_recv_cb info buf st = Some st' \<and> sink_inv e mtu st'"
proof (cases "current_conn st")
  case None
  then show ?thesis using assms(1) by (simp add: scan_recv_cb_def)
next
  case (Some conn)
  let ?r0 = "\<lparr>sf_name = replicate 129 0, sf_name_len = 0, sf_id = [0, 0, 0], sf_has_id = False, sf_encrypted = 0\<rparr>"
  have "found_ok ?r0" by (simp add: found_ok_def)
  then obtain r where r: "ad_loop buf ?r0 = Some r" "found_ok r" using ad_loop_ok by blast
  have "0 < length (scan_cache st)" using assms(1) by (simp add: sink_inv_def core_inv_def)
  then obtain c where c: "cache_scan_result (si_addr info) (si_sid info) (get_le24 (sf_id r ! 0) (sf_id r ! 1) (sf_id r ! 2))
      (scan_cache st) = Some c" "length c = length (scan_cache st)"
    using cache_ok by blast
  have "sink_inv e mtu (auracast_gatt_send_response conn 0x0C01 p (st\<lparr>scan_cache := c\<rparr>))" for p
  proof (rule sink_inv_same [THEN iffD2, OF _ _ assms(1)])
    show "core (auracast_gatt_send_response conn 0x0C01 p (st\<lparr>scan_cache := c\<rparr>)) = core st"
      using c(2) by (simp, simp add: core_def sync_asked_def)
  qed simp
  moreover have "rd_range (sf_name r) 0 (sf_name_len r) = Some (take (sf_name_len r) (sf_name r))"
    using r(2) by (simp add: rd_range_def found_ok_def)
  ultimately show ?thesis
    using Some r c(1) assms by (auto simp: scan_recv_cb_def found_ok_def Let_def)
qed

text \<open>A report of the periodic advertising whose elements have the data they announce.\<close>

lemma pa_notify_keeps:
  "core (case c of None \<Rightarrow> s | Some c \<Rightarrow> if b then auracast_gatt_send_pa_data c d s else s) = core s"
  "link (case c of None \<Rightarrow> s | Some c \<Rightarrow> if b then auracast_gatt_send_pa_data c d s else s) = link s"
  by (simp_all split: option.split)

lemma if_pair:
  "P s \<Longrightarrow> P t \<Longrightarrow> \<exists>go st'. Some (if a then (True, s) else if b then (False, s) else (False, t)) = Some (go, st') \<and> P st'"
  by (cases a; cases b) auto

lemma if_some:
  "(if a then Some x else if b then Some y else Some z) = Some (if a then x else if b then y else z)"
  by simp

lemma pa_element_inv:
  assumes "sink_inv e mtu st" and "unat (ad_len d) \<le> length (ad_data d)"
  shows "\<exists>go st'. pa_data_parse_cb d st = Some (go, st') \<and> sink_inv e mtu st'"
proof -
  have len: "length (prev_pa_data st) = 255" using assms(1) by (simp add: sink_inv_def core_inv_def)
  have n: "unat (ad_len d) \<le> 255" using u8_less [of "ad_len d"] by simp
  let ?data = "take (unat (ad_len d)) (ad_data d)"
  let ?prev = "?data @ drop (unat (ad_len d)) (prev_pa_data st)"
  let ?s1 = "st\<lparr>prev_pa_data := ?prev, prev_pa_data_len := ad_len d, pa_data_received_once := True\<rparr>"
  let ?s2 = "case current_conn ?s1 of None \<Rightarrow> ?s1
      | Some c \<Rightarrow> if pa_data_notify_enabled ?s1 then auracast_gatt_send_pa_data c ?data ?s1 else ?s1"
  have wr: "wr_range (prev_pa_data st) 0 ?data = Some ?prev" using assms(2) len n by (simp add: wr_range_def)
  have rd: "rd_range (ad_data d) 0 (unat (ad_len d)) = Some ?data" using assms(2) by (simp add: rd_range_def)
  obtain old where old: "rd_range (prev_pa_data st) 0 (unat (ad_len d)) = Some old" using len n by (simp add: rd_range_def)
  have changed: "(if c then Some True
        else do { old \<leftarrow> rd_range (prev_pa_data st) 0 (unat (ad_len d)); Some (?data \<noteq> old) }) = Some (c \<or> ?data \<noteq> old)" for c
    by (simp add: old)
  have run: "pa_data_parse_cb d st = Some (if ad_type d \<noteq> BT_DATA_VS then (True, st)
      else if \<not> ((\<not> pa_data_received_once st \<or> ad_len d \<noteq> prev_pa_data_len st) \<or> ?data \<noteq> old) then (False, st)
      else (False, ?s2))"
    unfolding pa_data_parse_cb_def rd Option.bind.bind_lunit changed wr Let_def by (rule if_some)
  have core1: "core ?s1 = core st" using assms(2) len n by (simp, simp add: core_def sync_asked_def)
  have link1: "link ?s1 = link st" by simp
  have "core ?s2 = core ?s1" "link ?s2 = link ?s1" by (rule pa_notify_keeps)+
  then have "sink_inv e mtu ?s2"
    by (intro sink_inv_same [THEN iffD2, OF trans trans assms(1)]) (assumption | rule core1 link1)+
  then show ?thesis
    unfolding run by (rule if_pair [where P = "sink_inv e mtu", OF assms(1)])
qed

lemma pa_report_inv:
  "sink_inv e mtu st \<Longrightarrow> \<forall>d\<in>set ds. unat (ad_len d) \<le> length (ad_data d) \<Longrightarrow>
   \<exists>st'. pa_recv_cb ds st = Some st' \<and> sink_inv e mtu st'"
proof (induction ds arbitrary: st)
  case (Cons d ds)
  obtain go st1 where st1: "pa_data_parse_cb d st = Some (go, st1)" "sink_inv e mtu st1"
    using pa_element_inv [OF Cons.prems(1), of d] Cons.prems(2) by auto
  obtain st2 where "pa_recv_cb ds st1 = Some st2" "sink_inv e mtu st2"
    using Cons.IH [OF st1(2)] Cons.prems(2) by auto
  then show ?case using st1 by (cases go) simp_all
qed simp

section \<open>The BASE\<close>

text \<open>A configuration whose bitrate can be computed, with frames of at least a millisecond.\<close>

definition codec_bounded :: "le_env \<Rightarrow> codec_cfg \<Rightarrow> bool" where
  "codec_bounded e c \<longleftrightarrow> x_octets_per_frame c \<le> 65535
     \<and> (0 \<le> x_frame_dur c \<and> 0 \<le> x_dur_us e (x_frame_dur c) \<longrightarrow> 1000 \<le> x_dur_us e (x_frame_dur c))"

text \<open>
  A BASE that the receiver can take: no more streams than it has, with indices from one, and rates that
  it supports where a stream says its own.
\<close>

definition base_ok :: "snk_env \<Rightarrow> nat \<Rightarrow> base_info \<Rightarrow> bool" where
  "base_ok e n base \<longleftrightarrow> (\<forall>sg\<in>set (base_subgroups base). sub_bis_count sg \<le> int n
     \<and> codec_bounded (k_le e) (snd (sub_cfg sg))
     \<and> (\<forall>b\<in>set (sub_bises sg). 0 < unat (bis_index b) \<and> unat (bis_index b) \<le> n
          \<and> codec_bounded (k_le e) (snd (bis_cfg b))
          \<and> (fst (le_audio_freq_hz_get (k_le e) (snd (bis_cfg b)) 0) \<noteq> 0
             \<or> rate_ok (snd (le_audio_freq_hz_get (k_le e) (snd (bis_cfg b)) 0)))))"

lemma bitrate_some:
  assumes "codec_bounded e c"
  shows "\<exists>ret rate. le_audio_bitrate_get e c b = Some (ret, rate)"
proof (cases "0 \<le> x_frame_dur c \<and> 0 \<le> x_dur_us e (x_frame_dur c) \<and> 0 \<le> x_octets_per_frame c")
  case True
  let ?d = "x_dur_us e (x_frame_dur c)" and ?o = "x_octets_per_frame c"
  have d: "1000 \<le> ?d" and oc: "?o \<le> 65535" using assms True by (auto simp: codec_bounded_def)
  have q: "c_div 1000000 ?d = 1000000 div ?d" using d by (simp add: c_div_nonneg)
  have "1000000 div ?d \<le> 1000000 div 1000" using d by (intro zdiv_mono2) auto
  then have "0 \<le> 1000000 div ?d" "1000000 div ?d \<le> 1000" using d by (simp_all add: pos_imp_zdiv_nonneg_iff)
  then have "0 \<le> 1000000 div ?d * (?o * 8)" "1000000 div ?d * (?o * 8) \<le> 1000 * (65535 * 8)"
    using True oc by (simp, intro mult_mono) simp_all
  then show ?thesis
    using True d oc q
    by (simp add: le_audio_bitrate_get_def le_audio_duration_us_get_def le_audio_octets_per_frame_get_def c_int_def Let_def)
next
  case False
  then show ?thesis
    using assms
    by (auto simp: le_audio_bitrate_get_def le_audio_duration_us_get_def le_audio_octets_per_frame_get_def
        codec_bounded_def Let_def)
qed

lemma freq_checked:
  assumes "le_audio_freq_check e c"
  shows "fst (le_audio_freq_hz_get e c hz) = 0 \<and> rate_ok (snd (le_audio_freq_hz_get e c hz))"
proof -
  let ?r = "le_audio_freq_hz_get e c"
  have same: "fst (?r hz) = fst (?r 0)" "fst (?r 0) = 0 \<Longrightarrow> snd (?r hz) = snd (?r 0)"
    by (auto simp: le_audio_freq_hz_get_def Let_def split: if_splits)
  have ok: "fst (?r 0) = 0" "and (cap_freq (snd (?r 0))) (CAPABILITY_FREQ e) \<noteq> 0"
    using assms by (auto simp: le_audio_freq_check_def split_beta split: if_splits)
  have "rate_ok (snd (?r 0))"
    using ok(2) by (auto simp: cap_freq_def CAPABILITY_FREQ_def rate_ok_def split: if_splits)
  then show ?thesis using same ok(1) by simp
qed

lemma get_info_ok:
  assumes "codec_bounded e c"
  shows "\<exists>ci'. get_codec_info e c ci = Some ci' \<and> ci_frequency ci' = snd (le_audio_freq_hz_get e c (ci_frequency ci))"
proof -
  obtain ret rate where "le_audio_bitrate_get e c (ci_bitrate ci) = Some (ret, rate)" using bitrate_some [OF assms] by blast
  then show ?thesis
    by (cases "fst (x_chan_allocation c) = - ENODATA"; cases "fst (x_chan_allocation c) = 0")
      (simp_all add: get_codec_info_def split_beta Let_def)
qed

definition rates_ok :: "audio_codec_info list \<Rightarrow> bool" where
  "rates_ok infos \<longleftrightarrow> (\<forall>ci\<in>set infos. ci_frequency ci = 0 \<or> rate_ok (ci_frequency ci))"

lemma rates_update:
  "rates_ok infos \<Longrightarrow> ci_frequency ci = 0 \<or> rate_ok (ci_frequency ci) \<Longrightarrow> rates_ok (infos[i := ci])"
  by (auto simp: rates_ok_def dest!: set_update_subset_insert [THEN subsetD])

text \<open>The places that the loop over the streams writes all have the rate of the subgroup.\<close>

lemma info_loop_ok:
  assumes "codec_bounded e c" and "le_audio_freq_check e c"
  shows "i + k \<le> length infos \<Longrightarrow> rates_ok infos \<Longrightarrow> \<exists>infos'. info_loop e c cod i k infos = Some infos'
     \<and> length infos' = length infos \<and> rates_ok infos'
     \<and> (\<forall>j<length infos. rate_ok (ci_frequency (infos ! j)) \<or> i \<le> j \<and> j < i + k \<longrightarrow> rate_ok (ci_frequency (infos' ! j)))"
proof (induction k arbitrary: i infos)
  case (Suc k)
  obtain ci where ci: "get_codec_info e c (infos ! i) = Some ci"
      "ci_frequency ci = snd (le_audio_freq_hz_get e c (ci_frequency (infos ! i)))"
    using get_info_ok [OF assms(1)] by blast
  let ?ci = "ci\<lparr>ci_id := fst cod, ci_cid := fst (snd cod), ci_vid := snd (snd cod)\<rparr>"
  have rate: "rate_ok (ci_frequency ?ci)" using freq_checked [OF assms(2)] ci(2) by simp
  have len: "Suc i + k \<le> length (infos[i := ?ci])" "i < length infos" using Suc.prems(1) by simp_all
  obtain infos' where infos': "info_loop e c cod (Suc i) k (infos[i := ?ci]) = Some infos'"
      "length infos' = length infos" "rates_ok infos'"
      "\<forall>j<length infos. rate_ok (ci_frequency (infos[i := ?ci] ! j)) \<or> Suc i \<le> j \<and> j < Suc i + k
         \<longrightarrow> rate_ok (ci_frequency (infos' ! j))"
    using Suc.IH [OF len(1) rates_update [OF Suc.prems(2)]] rate by auto
  have "rate_ok (ci_frequency (infos' ! j))" if "j < length infos" "rate_ok (ci_frequency (infos ! j)) \<or> i \<le> j \<and> j < i + Suc k" for j
    using infos'(4) that rate len(2) by (cases "j = i") auto
  then show ?case
    using infos'(1-3) ci(1) len(2) by (simp add: mem_simps)
qed auto

text \<open>What parsing a BASE does to the state: other codec values, more streams selected.\<close>

definition base_rel :: "'a bsink_scheme \<Rightarrow> 'a bsink_scheme \<Rightarrow> bool" where
  "base_rel st st' \<longleftrightarrow> (\<exists>infos w. st' = st\<lparr>codec_infos := infos, bis_index_bitfield := w\<rparr>
     \<and> length infos = length (codec_infos st) \<and> rates_ok infos
     \<and> (rate_ok (ci_frequency (codec_infos st ! 0)) \<longrightarrow> rate_ok (ci_frequency (infos ! 0))))"

lemma base_rel_fields:
  "base_rel st st' \<Longrightarrow> length (codec_infos st') = length (codec_infos st) \<and> rates_ok (codec_infos st')
     \<and> (rate_ok (ci_frequency (codec_infos st ! 0)) \<longrightarrow> rate_ok (ci_frequency (codec_infos st' ! 0)))"
  by (auto simp: base_rel_def)

lemma base_rel_refl: "rates_ok (codec_infos st) \<Longrightarrow> base_rel st st"
  unfolding base_rel_def by (rule exI [of _ "codec_infos st"], rule exI [of _ "bis_index_bitfield st"]) simp

lemma base_rel_trans: "base_rel st st1 \<Longrightarrow> base_rel st1 st2 \<Longrightarrow> base_rel st st2"
  unfolding base_rel_def by (elim exE conjE) (rename_tac i w i' w', rule_tac x = i' in exI, rule_tac x = w' in exI, simp)

lemma bis_parse_ok:
  assumes "rates_ok (codec_infos st)" and "0 < unat (bis_index b)" and "unat (bis_index b) \<le> length (codec_infos st)"
    and "codec_bounded (k_le e) (snd (bis_cfg b))"
    and "fst (le_audio_freq_hz_get (k_le e) (snd (bis_cfg b)) 0) \<noteq> 0
      \<or> rate_ok (snd (le_audio_freq_hz_get (k_le e) (snd (bis_cfg b)) 0))"
  shows "\<exists>st'. bis_per_subgroup_parse e b st = Some st' \<and> base_rel st st'"
proof (cases "fst (bis_cfg b) = 0")
  case False
  then show ?thesis using base_rel_refl [OF assms(1)] by (simp add: bis_per_subgroup_parse_def)
next
  case True
  let ?i = "unat (bis_index b) - 1" and ?c = "snd (bis_cfg b)"
  let ?old = "codec_infos st ! ?i"
  have i: "?i < length (codec_infos st)" "bis_index b \<noteq> 0" using assms(2,3) by auto
  obtain ci where ci: "get_codec_info (k_le e) ?c ?old = Some ci"
      "ci_frequency ci = snd (le_audio_freq_hz_get (k_le e) ?c (ci_frequency ?old))"
    using get_info_ok [OF assms(4)] by blast
  have same: "fst (le_audio_freq_hz_get (k_le e) ?c hz) = fst (le_audio_freq_hz_get (k_le e) ?c 0)"
      "snd (le_audio_freq_hz_get (k_le e) ?c hz) = (if fst (le_audio_freq_hz_get (k_le e) ?c 0) \<noteq> 0 then hz
         else snd (le_audio_freq_hz_get (k_le e) ?c 0))" for hz
    by (auto simp: le_audio_freq_hz_get_def Let_def)
  have freq: "ci_frequency ci = ci_frequency ?old \<or> rate_ok (ci_frequency ci)"
    using assms(5) unfolding ci(2) same(2) [of "ci_frequency ?old"] by (auto split: if_split)
  have old: "ci_frequency ?old = 0 \<or> rate_ok (ci_frequency ?old)" using assms(1) i(1) by (simp add: rates_ok_def)
  let ?infos = "(codec_infos st)[?i := ci]"
  have "rates_ok ?infos" using rates_update [OF assms(1)] freq old by auto
  moreover have "rate_ok (ci_frequency (codec_infos st ! 0)) \<longrightarrow> rate_ok (ci_frequency (?infos ! 0))"
    using freq i(1) by (cases "?i = 0") auto
  moreover define w where "w = (if and (ci_chan_allocation ci) (k_location e) = 0 \<or> RX_STREAMS_MAX e \<le> POPCOUNT (bis_index_bitfield st)
      then bis_index_bitfield st else or (bis_index_bitfield st) (push_bit ?i 1))"
  have "bis_per_subgroup_parse e b st = Some (st\<lparr>codec_infos := ?infos, bis_index_bitfield := w\<rparr>)"
    using True i ci(1) by (simp add: bis_per_subgroup_parse_def w_def mem_simps Let_def)
  moreover have "base_rel st (st\<lparr>codec_infos := ?infos, bis_index_bitfield := w\<rparr>)"
    unfolding base_rel_def using calculation(1,2)
    by (intro exI [of _ ?infos] exI [of _ w] conjI refl) simp_all
  ultimately show ?thesis by blast
qed

lemma foreach_bis_ok:
  assumes "\<forall>b\<in>set bs. 0 < unat (bis_index b) \<and> unat (bis_index b) \<le> n
      \<and> codec_bounded (k_le e) (snd (bis_cfg b))
      \<and> (fst (le_audio_freq_hz_get (k_le e) (snd (bis_cfg b)) 0) \<noteq> 0
         \<or> rate_ok (snd (le_audio_freq_hz_get (k_le e) (snd (bis_cfg b)) 0)))"
  shows "rates_ok (codec_infos st) \<Longrightarrow> length (codec_infos st) = n \<Longrightarrow>
    \<exists>st'. foreach_bis e bs st = Some st' \<and> base_rel st st'"
  using assms
proof (induction bs arbitrary: st)
  case Nil
  then show ?case by (simp add: base_rel_refl)
next
  case (Cons b bs)
  obtain st1 where st1: "bis_per_subgroup_parse e b st = Some st1" "base_rel st st1"
    using bis_parse_ok [OF Cons.prems(1), of b e] Cons.prems(2,3) by auto
  then obtain st2 where "foreach_bis e bs st1 = Some st2" "base_rel st1 st2"
    using Cons.IH [of st1] base_rel_fields [OF st1(2)] Cons.prems(2,3) by auto
  then show ?case using st1 base_rel_trans by fastforce
qed

lemma subgroup_ok:
  assumes "rates_ok (codec_infos st)" and "base_ok e (length (codec_infos st)) base" and "sg \<in> set (base_subgroups base)"
  shows "\<exists>go found st'. base_subgroup_cb e sg st = Some (go, found, st') \<and> base_rel st st'
    \<and> (found \<longrightarrow> \<not> go \<and> rate_ok (ci_frequency (codec_infos st' ! 0))) \<and> (\<not> found \<longrightarrow> go \<and> st' = st)"
proof -
  let ?c = "snd (sub_cfg sg)" and ?cod = "snd (sub_codec_id sg)" and ?n = "nat (sub_bis_count sg)"
  have sg: "?n \<le> length (codec_infos st)" "codec_bounded (k_le e) ?c"
    and bis: "\<forall>b\<in>set (sub_bises sg). 0 < unat (bis_index b) \<and> unat (bis_index b) \<le> length (codec_infos st)
          \<and> codec_bounded (k_le e) (snd (bis_cfg b))
          \<and> (fst (le_audio_freq_hz_get (k_le e) (snd (bis_cfg b)) 0) \<noteq> 0
             \<or> rate_ok (snd (le_audio_freq_hz_get (k_le e) (snd (bis_cfg b)) 0)))"
    using assms(2,3) by (auto simp: base_ok_def)
  let ?no = "fst (sub_cfg sg) \<noteq> 0 \<or> fst (sub_codec_id sg) \<noteq> 0 \<and> fst (snd ?cod) \<noteq> ucast (6 :: u8)
      \<or> \<not> le_audio_bitrate_check (k_le e) ?c \<or> \<not> le_audio_freq_check (k_le e) ?c \<or> \<not> 0 < sub_bis_count sg"
  show ?thesis
  proof (cases ?no)
    case True
    then have "base_subgroup_cb e sg st = Some (True, False, st)"
      by (auto simp: base_subgroup_cb_def split_beta Let_def)
    then show ?thesis using base_rel_refl [OF assms(1)] by auto
  next
    case False
    then have freq: "le_audio_freq_check (k_le e) ?c" and n: "0 < ?n" by auto
    obtain infos where infos: "info_loop (k_le e) ?c ?cod 0 ?n (codec_infos st) = Some infos"
        "length infos = length (codec_infos st)" "rates_ok infos"
        "\<forall>j<length (codec_infos st). rate_ok (ci_frequency (codec_infos st ! j)) \<or> 0 \<le> j \<and> j < 0 + ?n
           \<longrightarrow> rate_ok (ci_frequency (infos ! j))"
      using info_loop_ok [OF sg(2) freq, of 0 ?n "codec_infos st" ?cod] sg(1) assms(1) by auto
    have "0 < length (codec_infos st)" using sg(1) n by arith
    then have first: "rate_ok (ci_frequency (infos ! 0))" using infos(4) n by auto
    let ?s1 = "st\<lparr>codec_infos := infos\<rparr>"
    obtain st2 where st2: "foreach_bis e (sub_bises sg) ?s1 = Some st2" "base_rel ?s1 st2"
      using foreach_bis_ok [OF bis, of ?s1] infos(2,3) by auto
    have "base_rel st ?s1"
      unfolding base_rel_def using infos first by (intro exI [of _ infos] exI [of _ "bis_index_bitfield st"]) simp
    then have "base_rel st st2" using st2(2) base_rel_trans by blast
    moreover have "rate_ok (ci_frequency (codec_infos st2 ! 0))" using base_rel_fields [OF st2(2)] first by simp
    moreover have "base_subgroup_cb e sg st = Some (False, True, st2)"
      using False infos(1) st2(1) by (simp add: base_subgroup_cb_def split_beta Let_def)
    ultimately show ?thesis by auto
  qed
qed

lemma subgroups_ok:
  assumes "base_ok e (length (codec_infos st)) base"
  shows "rates_ok (codec_infos st) \<Longrightarrow> set sgs \<subseteq> set (base_subgroups base) \<Longrightarrow>
    \<exists>ret' found st'. foreach_subgroup e sgs ret st = Some (ret', found, st') \<and> base_rel st st'
      \<and> (found \<longrightarrow> ret' = - ECANCELED \<and> rate_ok (ci_frequency (codec_infos st' ! 0))) \<and> (\<not> found \<longrightarrow> st' = st)"
proof (induction sgs)
  case Nil
  then show ?case using base_rel_refl by auto
next
  case (Cons sg sgs)
  obtain go found st1 where st1: "base_subgroup_cb e sg st = Some (go, found, st1)" "base_rel st st1"
      "found \<longrightarrow> \<not> go \<and> rate_ok (ci_frequency (codec_infos st1 ! 0))" "\<not> found \<longrightarrow> go \<and> st1 = st"
    using subgroup_ok [OF Cons.prems(1) assms, of sg] Cons.prems(2) by auto
  show ?case
  proof (cases found)
    case True
    then show ?thesis using st1 by auto
  next
    case False
    then show ?thesis using st1 Cons.IH Cons.prems by simp
  qed
qed

section \<open>Every event keeps the invariant\<close>

lemma chan_ok_append:
  "chan_ok c (q @ [m]) \<longleftrightarrow> chan_ok c q \<and> (sm_event m = LE_AUDIO_EVT_STREAMING \<longrightarrow> c \<or> config_queued q)"
  by (induction q arbitrary: c) (auto simp: config_queued_def)

lemma config_queued_append: "config_queued (q @ [m]) \<longleftrightarrow> config_queued q \<or> sm_event m = LE_AUDIO_EVT_CONFIG_RECEIVED"
  by (auto simp: config_queued_def)

lemma core_inv_rates: "core_inv e mtu st \<Longrightarrow> rates_ok (codec_infos st)"
  by (simp add: core_inv_def rates_ok_def)

text \<open>Publishing: a message other than a configuration, streams only with one under way.\<close>

lemma publish_inv:
  assumes "sink_inv e mtu st" and "ev = LE_AUDIO_EVT_STREAMING \<longrightarrow> sync_asked st" and "ev \<noteq> LE_AUDIO_EVT_CONFIG_RECEIVED"
  shows "\<exists>st'. snk_event_publish 0 ev st = Some st' \<and> sink_inv e mtu st' \<and> sync_stream_cnt st' = sync_stream_cnt st
    \<and> audio_streams st' = audio_streams st \<and> codec_infos st' = codec_infos st"
proof -
  let ?q = "if ev = LE_AUDIO_EVT_SYNC_LOST then None else pa_sync_stored st"
  let ?st = "st\<lparr>pa_sync_stored := ?q,
      snk_chan := snk_chan st @ [\<lparr>sm_event = ev, sm_pa_sync = (if ev = LE_AUDIO_EVT_SYNC_LOST then pa_sync_stored st else None)\<rparr>]\<rparr>"
  have q: "snk_event_publish 0 ev st = Some ?st" by (simp add: snk_event_publish_def Let_def)
  have "core_inv e mtu ?st"
    using assms by (auto simp: sink_inv_def core_inv_def chan_ok_append config_queued_append sync_asked_def)
  moreover have "link_inv ?st" using assms(1) link_inv_same [of ?st st] by (simp add: sink_inv_def)
  ultimately show ?thesis unfolding q by (simp add: sink_inv_def)
qed

lemma started_inv:
  assumes "sink_inv e mtu st" and "sync_asked st" and "i < length (audio_streams st)"
  shows "\<exists>st'. snk_stream_started_cb 0 (Some i) st = Some st' \<and> sink_inv e mtu st'"
proof -
  obtain s1 where s1: "snk_event_publish 0 LE_AUDIO_EVT_STREAMING st = Some s1" "sink_inv e mtu s1"
      "audio_streams s1 = audio_streams st" "codec_infos s1 = codec_infos st"
    using publish_inv [OF assms(1)] assms(2) by blast
  let ?s2 = "s1\<lparr>sync_stream_cnt := sync_stream_cnt s1 + 1\<rparr>"
  have len: "length (codec_infos st) = length (audio_streams st)" using assms(1) by (simp add: sink_inv_def core_inv_def)
  have "sink_inv e mtu ?s2" using s1(2) by (rule sink_inv_same [THEN iffD2, rotated 2]) simp_all
  then show ?thesis
    using s1(1,3,4) assms(3) len by (simp add: snk_stream_started_cb_def snk_stream_index_get_def mem_simps Let_def)
qed

lemma stopped_inv:
  assumes "sink_inv e mtu st"
  shows "\<exists>st'. snk_stream_stopped_cb 0 reason st = Some st' \<and> sink_inv e mtu st'"
proof (cases "sync_stream_cnt st = 0")
  case True
  then show ?thesis using assms by (simp add: snk_stream_stopped_cb_def)
next
  case False
  let ?s1 = "st\<lparr>sync_stream_cnt := sync_stream_cnt st - 1\<rparr>" and ?s2 = "st\<lparr>sync_stream_cnt := sync_stream_cnt st - 1, bis_cleanup_queued := True\<rparr>"
  have inv: "sink_inv e mtu ?s1" "sink_inv e mtu ?s2"
    using assms by (rule sink_inv_same [THEN iffD2, rotated 2]; simp)+
  have "\<exists>st'. snk_event_publish 0 LE_AUDIO_EVT_NOT_STREAMING ?s1 = Some st' \<and> sink_inv e mtu st'"
      "\<exists>st'. snk_event_publish 0 LE_AUDIO_EVT_SYNC_LOST ?s2 = Some st' \<and> sink_inv e mtu st'"
    using publish_inv [OF inv(1), of LE_AUDIO_EVT_NOT_STREAMING] publish_inv [OF inv(2), of LE_AUDIO_EVT_SYNC_LOST] by auto
  then show ?thesis
    using False inv(1) by (simp add: snk_stream_stopped_cb_def Let_def)
qed

lemma base_inv:
  assumes "sink_inv e mtu st" and "base_ok (k_snk e) (length (audio_streams st)) base"
  shows "\<exists>st'. base_recv_cb (k_snk e) 0 base st = Some st' \<and> sink_inv e mtu st'"
proof (cases "init_routine_completed st")
  case True
  then show ?thesis using assms(1) by (simp add: base_recv_cb_def)
next
  case False
  let ?s0 = "st\<lparr>sync_stream_cnt := 0\<rparr>"
  have inv0: "sink_inv e mtu ?s0" using assms(1) by (rule sink_inv_same [THEN iffD2, rotated 2]) simp_all
  have len: "length (codec_infos ?s0) = length (audio_streams ?s0)" "0 < length (audio_streams ?s0)"
    using inv0 by (simp_all add: sink_inv_def core_inv_def)
  have rates: "rates_ok (codec_infos ?s0)" using inv0 core_inv_rates [of e mtu ?s0] unfolding sink_inv_def by blast
  have ok: "base_ok (k_snk e) (length (codec_infos ?s0)) base" using assms(2) len by simp
  obtain ret found s1 where s1: "foreach_subgroup (k_snk e) (base_subgroups base) (base_ret base) ?s0 = Some (ret, found, s1)"
      "base_rel ?s0 s1" "found \<longrightarrow> ret = - ECANCELED \<and> rate_ok (ci_frequency (codec_infos s1 ! 0))" "\<not> found \<longrightarrow> s1 = ?s0"
    using subgroups_ok [OF ok rates subset_refl, of "base_ret base"] by blast
  show ?thesis
  proof (cases found)
    case no: False
    obtain s2 where "snk_event_publish 0 LE_AUDIO_EVT_NO_VALID_CFG ?s0 = Some s2" "sink_inv e mtu s2"
      using publish_inv [OF inv0, of LE_AUDIO_EVT_NO_VALID_CFG] by auto
    then show ?thesis using no s1 False inv0 by (simp add: base_recv_cb_def)
  next
    case yes: True
    obtain infos w where w: "s1 = ?s0\<lparr>codec_infos := infos, bis_index_bitfield := w\<rparr>"
        "length infos = length (codec_infos st)" "rates_ok infos"
      using s1(2) by (auto simp: base_rel_def)
    have first: "rate_ok (ci_frequency (infos ! 0))" "0 < length infos" using s1(3) yes w len by simp_all
    let ?pd = "if base_pres_delay base = - EINVAL then 0 else word_of_int (base_pres_delay base)"
    let ?infos = "infos[0 := (infos ! 0)\<lparr>ci_pd := ?pd\<rparr>]"
    let ?s2 = "st\<lparr>sync_stream_cnt := 0, bis_index_bitfield := w, codec_infos := ?infos,
        snk_chan := snk_chan st @ [\<lparr>sm_event = LE_AUDIO_EVT_CONFIG_RECEIVED, sm_pa_sync = None\<rparr>]\<rparr>"
    have "rates_ok ?infos" using rates_update [OF w(3)] first(1) by simp
    then have "core_inv e mtu ?s2"
      using assms(1) first w(2)
      by (auto simp: sink_inv_def core_inv_def chan_ok_append config_queued_append sync_asked_def rates_ok_def)
    moreover have "link_inv ?s2" using assms(1) link_inv_same [of ?s2 st] by (simp add: sink_inv_def)
    moreover have "base_recv_cb (k_snk e) 0 base st = Some ?s2"
      using False yes s1(1,3) w(1) first(2) by (simp add: base_recv_cb_def snk_event_publish_def mem_simps Let_def)
    ultimately show ?thesis by (simp add: sink_inv_def)
  qed
qed

text \<open>The application's thread: taking a message off the queue, and what it does.\<close>

lemma pop_inv:
  assumes "sink_inv e mtu st" and "snk_chan st = m # ms" and "sm_event m \<noteq> LE_AUDIO_EVT_CONFIG_RECEIVED"
  shows "sink_inv e mtu (st\<lparr>snk_chan := ms\<rparr>) \<and> (sm_event m = LE_AUDIO_EVT_STREAMING \<longrightarrow> dec_ready (k_sys st))"
proof -
  have "core_inv e mtu (st\<lparr>snk_chan := ms\<rparr>)" and "sm_event m = LE_AUDIO_EVT_STREAMING \<longrightarrow> dec_ready (k_sys st)"
    using assms by (auto simp: sink_inv_def core_inv_def config_queued_def sync_asked_def)
  moreover have "link_inv (st\<lparr>snk_chan := ms\<rparr>)"
    using assms(1) link_inv_same [of "st\<lparr>snk_chan := ms\<rparr>" st] by (simp add: sink_inv_def)
  ultimately show ?thesis by (simp add: sink_inv_def)
qed

lemma decoder_set:
  assumes "sys_inv e sys" and "sys_running sys \<longrightarrow> dec_ready sys" and "rate_ok hz"
  shows "\<exists>sys'. audio_system_config_set 0 0 (word_of_int hz) sys = (0, sys') \<and> sys_inv e sys' \<and> dec_ready sys'
     \<and> sys_running sys' = sys_running sys"
  using assms
  by (auto simp: audio_system_config_set_def sample_rate_valid_def sys_inv_def sys_running_def dec_ready_def rate_ok_def Let_def)

lemma delay_set:
  assumes "sys_externals_ok e" and "sys_inv e sys" and "dec_ready sys"
  shows "\<exists>ret d. audio_datapath_pres_delay_us_set (s_dp e) pd (sys_dp sys) = (ret, d) \<and> sys_inv e (sys\<lparr>sys_dp := d\<rparr>)
     \<and> dec_ready (sys\<lparr>sys_dp := d\<rparr>) \<and> sys_running (sys\<lparr>sys_dp := d\<rparr>) = sys_running sys"
proof -
  obtain ret d where d: "audio_datapath_pres_delay_us_set (s_dp e) pd (sys_dp sys) = (ret, d)" by fastforce
  then have step: "sys_step e (Sys_dp (Ev_pres_delay pd)) sys = Some (sys\<lparr>sys_dp := d\<rparr>)"
    by (simp add: sys_step_def dp_step_def)
  have ok: "sys_ev_ok e (Sys_dp (Ev_pres_delay pd)) sys" by (simp add: sys_ev_ok_def ev_ok_def)
  have "sys_inv e (sys\<lparr>sys_dp := d\<rparr>) \<and> sys_running (sys\<lparr>sys_dp := d\<rparr>) = sys_running sys"
    using dp_event_inv [OF assms(1,2) ok] unfolding step by blast
  then show ?thesis using d assms(3) by (simp add: dec_ready_def)
qed

lemma config_inv:
  assumes "sink_inv e mtu st" and "sys_externals_ok (k_syse e)"
    and "snk_chan st = m # ms" and "sm_event m = LE_AUDIO_EVT_CONFIG_RECEIVED"
  shows "\<exists>st'. on_config_received (k_syse e) (st\<lparr>snk_chan := ms\<rparr>) = Some st' \<and> sink_inv e mtu st'"
proof -
  let ?ci = "codec_infos st ! 0"
  have inv: "sys_inv (k_syse e) (k_sys st)" "sys_running (k_sys st) \<longrightarrow> dec_ready (k_sys st)" "rate_ok (ci_frequency ?ci)"
      "0 < length (codec_infos st)" "chan_ok True ms"
    using assms(1,3,4) by (auto simp: sink_inv_def core_inv_def config_queued_def)
  obtain sys where sys: "audio_system_config_set 0 0 (word_of_int (ci_frequency ?ci)) (k_sys st) = (0, sys)"
      "sys_inv (k_syse e) sys" "dec_ready sys" "sys_running sys = sys_running (k_sys st)"
    using decoder_set [OF inv(1-3)] by blast
  obtain ret d where d: "audio_datapath_pres_delay_us_set (s_dp (k_syse e)) (ci_pd ?ci) (sys_dp sys) = (ret, d)"
      "sys_inv (k_syse e) (sys\<lparr>sys_dp := d\<rparr>)" "dec_ready (sys\<lparr>sys_dp := d\<rparr>)"
      "sys_running (sys\<lparr>sys_dp := d\<rparr>) = sys_running (k_sys st)"
    using delay_set [OF assms(2) sys(2,3), of "ci_pd ?ci"] sys(4) by auto
  let ?st = "st\<lparr>snk_chan := ms, k_sys := sys\<lparr>sys_dp := d\<rparr>\<rparr>"
  have run: "on_config_received (k_syse e) (st\<lparr>snk_chan := ms\<rparr>) = Some ?st"
    using sys(1) d(1) inv(4)
    by (simp add: on_config_received_def broadcast_sink_config_get_def mem_simps)
  have "core_inv e mtu ?st"
    using assms(1,3) d(2-4) inv(5) by (auto simp: sink_inv_def core_inv_def config_queued_def sync_asked_def)
  moreover have "link_inv ?st" using assms(1) link_inv_same [of ?st st] by (simp add: sink_inv_def)
  ultimately show ?thesis using run by (simp add: sink_inv_def)
qed

lemma streaming_inv:
  assumes "sink_inv e mtu st" and "sys_externals_ok (k_syse e)" and "dec_ready (k_sys st)"
  shows "\<exists>st'. on_sink_streaming (k_syse e) st = Some st' \<and> sink_inv e mtu st' \<and> snk_strm_state st' = STATE_STREAMING"
proof -
  obtain sys where sys: "(if snk_strm_state st \<noteq> STATE_STREAMING
        then do { sys \<leftarrow> audio_system_start (k_syse e) (k_sys st);
                  Some (st\<lparr>k_sys := sys, snk_strm_state := STATE_STREAMING\<rparr>) } else Some st)
      = Some (st\<lparr>k_sys := sys, snk_strm_state := STATE_STREAMING\<rparr>)"
      "sys_inv (k_syse e) sys" "sys_running sys" "dec_ready sys"
  proof (cases "snk_strm_state st = STATE_STREAMING")
    case True
    then have "st\<lparr>k_sys := k_sys st, snk_strm_state := STATE_STREAMING\<rparr> = st" by simp
    then show ?thesis using that [of "k_sys st"] True assms(1,3) by (simp add: sink_inv_def core_inv_def)
  next
    case False
    then have "sys_inv (k_syse e) (k_sys st)" "\<not> sys_running (k_sys st)" using assms(1) by (auto simp: sink_inv_def core_inv_def)
    then obtain sys where "audio_system_start (k_syse e) (k_sys st) = Some sys" "sys_inv (k_syse e) sys" "sys_running sys"
        "dec_enabled (decoder (sw_codec_cfg sys)) = dec_enabled (decoder (sw_codec_cfg (k_sys st)))"
      using sys_start_inv [OF assms(2)] by blast
    then show ?thesis using that [of sys] False assms(3) by (simp add: dec_ready_def)
  qed
  let ?s1 = "st\<lparr>k_sys := sys, snk_strm_state := STATE_STREAMING\<rparr>"
  let ?s2 = "notify_state_transition (notify_bis_sync_state 1 (enter_state AC_STATE_BIS_SYNCED ?s1))\<lparr>command_busy := False\<rparr>"
  have "core_inv e mtu ?s1" using assms(1,3) sys(2-4) by (auto simp: sink_inv_def core_inv_def sync_asked_def)
  moreover have "link_inv ?s1" using assms(1) link_inv_same [of ?s1 st] by (simp add: sink_inv_def)
  ultimately have "sink_inv e mtu ?s1" by (simp add: sink_inv_def)
  then have "sink_inv e mtu ?s2" by (rule keeps_inv [rotated]) (rule keeps_same; simp)
  moreover have "core ?s2 = core ?s1" by simp
  then have "snk_strm_state ?s2 = STATE_STREAMING" by (simp add: core_def)
  moreover have "on_sink_streaming (k_syse e) st = Some ?s2"
    unfolding on_sink_streaming_def sys(1) by (simp add: Let_def)
  ultimately show ?thesis by blast
qed

lemma audio_stop_inv:
  assumes "sink_inv e mtu st" and "sys_externals_ok (k_syse e)"
  shows "\<exists>st'. sink_audio_stop (k_syse e) st = Some st' \<and> sink_inv e mtu st' \<and> snk_strm_state st' = STATE_PAUSED"
proof (cases "snk_strm_state st = STATE_PAUSED")
  case True
  then show ?thesis using assms(1) by (simp add: sink_audio_stop_def)
next
  case False
  obtain sys where sys: "audio_system_stop (k_syse e) (k_sys st) = Some sys"
      "core_inv e mtu (st\<lparr>snk_strm_state := STATE_PAUSED, k_sys := sys\<rparr>)"
    using paused_core_inv [OF _ assms(2), of mtu st] assms(1) by (auto simp: sink_inv_def)
  moreover have "link_inv (st\<lparr>snk_strm_state := STATE_PAUSED, k_sys := sys\<rparr>)"
    using assms(1) link_inv_same [of "st\<lparr>snk_strm_state := STATE_PAUSED, k_sys := sys\<rparr>" st] by (simp add: sink_inv_def)
  ultimately show ?thesis using False by (simp add: sink_audio_stop_def sink_inv_def)
qed

lemma link_down: "\<not> pa_data_notify_enabled st \<Longrightarrow> link_inv ((leave_state AC_STATE_PA_SYNCED st)\<lparr>pa_sync_handle := None\<rparr>)"
  by (simp add: link_inv_def)

lemma lost_inv:
  assumes "sink_inv e mtu st" and "sys_externals_ok (k_syse e)"
  shows "\<exists>st'. on_sync_lost (k_syse e) a pa_sync st = Some st' \<and> sink_inv e mtu st'"
proof -
  let ?s0 = "if pa_sync \<noteq> None then snd (per_adv_sync_delete (ea_del a) st) else st"
  have "sink_inv e mtu ?s0" using keeps_inv [OF delete_keeps assms(1)] assms(1) by simp
  then obtain s1 where s1: "sink_audio_stop (k_syse e) ?s0 = Some s1" "sink_inv e mtu s1"
    using audio_stop_inv assms(2) by blast
  let ?s2 = "s1\<lparr>pa_data_received_once := False, pa_data_notify_enabled := False\<rparr>"
  let ?s3 = "if in_state AC_STATE_BIS_SYNCED ?s2 then notify_bis_sync_state 2 (leave_state AC_STATE_BIS_SYNCED ?s2) else ?s2"
  let ?s4 = "(leave_state AC_STATE_PA_SYNCED ?s3)\<lparr>pa_sync_handle := None\<rparr>"
  let ?s5 = "notify_state_transition ?s4\<lparr>command_busy := False\<rparr>"
  have "link ?s3 = link ?s2" by simp
  then have "\<not> pa_data_notify_enabled ?s3" using notify_enabled_link [of ?s3 ?s2] by simp
  then have "link_inv ?s4" by (rule link_down)
  then have "link_inv ?s5" by (rule link_inv_same [THEN iffD2, rotated]) simp
  moreover have "core ?s5 = core s1" by simp
  ultimately have "keeps s1 ?s5" by (simp add: keeps_def)
  then have "sink_inv e mtu ?s5" using s1(2) by (rule keeps_inv)
  moreover have "on_sync_lost (k_syse e) a pa_sync st = Some ?s5"
    unfolding on_sync_lost_def Let_def s1(1) Option.bind.bind_lunit by simp
  ultimately show ?thesis by blast
qed

lemma if_result: "P (snd x) \<Longrightarrow> P (snd y) \<Longrightarrow> \<exists>r st'. Some (if c then x else y) = Some (r, st') \<and> P st'"
  by (cases c; cases x; cases y) auto

lemma case_some: "(case x of None \<Rightarrow> Some a | Some y \<Rightarrow> Some (f y)) = Some (case x of None \<Rightarrow> a | Some y \<Rightarrow> f y)"
  by (cases x) simp_all

lemma disable_inv:
  assumes "sink_inv e mtu st"
  shows "\<exists>r st'. broadcast_sink_disable stop (\<lambda>sync st. Some (per_adv_sync_delete d st)) ans st = Some (r, st')
    \<and> sink_inv e mtu st'"
proof -
  let ?s0 = "if is_any_active_streams st \<and> stop = 0 then st\<lparr>sink_calls := sink_calls st @ [Sink_stop]\<rparr> else st"
  have "keeps st ?s0" by (simp add: keeps_same) (simp add: core_def sync_asked_def keeps_same link_def in_state_def)
  then have s0: "sink_inv e mtu ?s0" by (rule keeps_inv [OF _ assms])
  let ?p = "case pa_sync_stored ?s0 of None \<Rightarrow> (0, ?s0) | Some sync \<Rightarrow> per_adv_sync_delete d ?s0"
  have s1: "sink_inv e mtu (snd ?p)" 
    by (cases "pa_sync_stored ?s0") (simp_all only: option.case snd_conv keeps_inv [OF delete_keeps s0] s0)
  have s2: "sink_inv e mtu (snd (broadcast_sink_cleanup ans (snd ?p)))" using s1 by (rule keeps_inv [rotated]) (simp add: keeps_same)
  have run: "broadcast_sink_disable stop (\<lambda>sync st. Some (per_adv_sync_delete d st)) ans st
      = Some (if fst ?p \<noteq> 0 then ?p else broadcast_sink_cleanup ans (snd ?p))"
    unfolding broadcast_sink_disable_def Let_def case_some Option.bind.bind_lunit split_beta prod.collapse
    by (rule if_distrib [symmetric])
  show ?thesis unfolding run by (rule if_result [where P = "sink_inv e mtu", OF s1 s2])
qed

lemma sink_msg_inv:
  assumes "sink_inv e mtu st" and "sys_externals_ok (k_syse e)"
  shows "\<exists>st'. snk_le_audio_msg_sub_thread (k_syse e) a st = Some st' \<and> sink_inv e mtu st'"
proof (cases "snk_chan st")
  case Nil
  then show ?thesis using assms(1) by (simp add: snk_le_audio_msg_sub_thread_def)
next
  case (Cons m ms)
  show ?thesis
  proof (cases "sm_event m = LE_AUDIO_EVT_CONFIG_RECEIVED")
    case True
    then show ?thesis using Cons config_inv [OF assms Cons True] by (simp add: snk_le_audio_msg_sub_thread_def Let_def)
  next
    case False
    let ?s = "st\<lparr>snk_chan := ms\<rparr>"
    have inv: "sink_inv e mtu ?s" "sm_event m = LE_AUDIO_EVT_STREAMING \<Longrightarrow> dec_ready (k_sys ?s)"
      using pop_inv [OF assms(1) Cons False] by simp_all
    obtain r s1 where s1: "broadcast_sink_disable (ea_stop a) (\<lambda>sync st. Some (per_adv_sync_delete (ea_del a) st)) (ea_cleanup a) ?s
        = Some (r, s1)" "sink_inv e mtu s1"
      using disable_inv [OF inv(1)] by blast
    show ?thesis
      using Cons False s1 inv(1) streaming_inv [OF inv(1) assms(2) inv(2)] audio_stop_inv [OF inv(1) assms(2)]
        lost_inv [OF inv(1) assms(2), of a "sm_pa_sync m"]
      by (auto simp: snk_le_audio_msg_sub_thread_def Let_def)
  qed
qed

lemma syncable_inv:
  assumes "sink_inv e mtu st"
  shows "sink_inv e mtu (syncable_cb (k_snk e) ans sink_id enc st)"
proof -
  let ?key = "take (min (length (SNK_KEY (k_snk e))) (length (bis_encryption_key st))) (SNK_KEY (k_snk e))
      @ drop (min (length (SNK_KEY (k_snk e))) (length (bis_encryption_key st))) (bis_encryption_key st)"
  have key: "length ?key = length (bis_encryption_key st)" by simp
  have key_inv: "core_inv e mtu (st\<lparr>bis_encryption_key := ?key\<rparr>)" "core_inv e mtu (st\<lparr>broadcast_code_received := False\<rparr>)"
    using assms key by (simp_all add: sink_inv_def core_inv_def sync_asked_def)
  have sync: "core_inv e mtu (s\<lparr>sink_calls := sink_calls s @ [Sink_sync b k], prev_broadcast_id := sink_id, init_routine_completed := True\<rparr>)"
    if "core_inv e mtu s" "bis_index_bitfield s \<noteq> 0" for s b k
    using that by (auto simp: core_inv_def sync_asked_def)
  have "core_inv e mtu (syncable_cb (k_snk e) ans sink_id enc st)"
  proof (cases "paused st \<or> bis_index_bitfield st = 0
      \<or> \<not> snk_encrypted (k_snk e) \<and> \<not> broadcast_code_received st \<and> enc \<and> sink_id \<noteq> prev_broadcast_id st")
    case True
    then show ?thesis using assms by (auto simp: syncable_cb_def sink_inv_def)
  next
    case False
    then show ?thesis
      using assms key_inv sync [of "st\<lparr>bis_encryption_key := ?key\<rparr>"] sync [of "st\<lparr>broadcast_code_received := False\<rparr>"]
      by (simp add: syncable_cb_def sink_inv_def Let_def)
  qed
  moreover have "link (syncable_cb (k_snk e) ans sink_id enc st) = link st"
    by (simp add: syncable_cb_def Let_def)
  ultimately show ?thesis using assms link_inv_same by (auto simp: sink_inv_def)
qed

text \<open>The host's requests that a synchronisation to the audio makes change nothing that the invariant speaks of.\<close>

lemma pa_sync_set_keeps [simp]:
  "core (snd (broadcast_sink_pa_sync_set a sync i st)) = core st"
  "link (snd (broadcast_sink_pa_sync_set a sync i st)) = link st"
proof -
  have stop: "core (st\<lparr>sink_calls := sink_calls st @ [Sink_stop]\<rparr>) = core st" for st :: "'x sink_app"
    by (simp add: core_def sync_asked_def)
  have create: "core (st\<lparr>broadcast_sink := k, pa_sync_stored := h, sink_calls := sink_calls st @ [Sink_create n i]\<rparr>) = core st"
      "link (st\<lparr>broadcast_sink := k, pa_sync_stored := h, sink_calls := sink_calls st @ [Sink_create n i]\<rparr>) = link st"
    for st :: "'x sink_app" and k h n i
    by (simp_all add: core_def sync_asked_def link_def in_state_def)
  show "core (snd (broadcast_sink_pa_sync_set a sync i st)) = core st"
      "link (snd (broadcast_sink_pa_sync_set a sync i st)) = link st"
    by (simp_all add: broadcast_sink_pa_sync_set_def stop create Let_def split: option.split)
qed

lemma sink_start_keeps [simp]:
  "core (snd (broadcast_sink_start st)) = core st" "link (snd (broadcast_sink_start st)) = link st"
  by (simp_all add: broadcast_sink_start_def)

lemma bis_work_inv:
  assumes "sink_inv e mtu st"
  shows "\<exists>st'. bis_sync_work_handler a st = Some st' \<and> sink_inv e mtu st'"
proof (cases "bis_sync_queued st")
  case False
  then show ?thesis using assms by (simp add: bis_sync_work_handler_def)
next
  case True
  let ?s0 = "st\<lparr>bis_sync_queued := False\<rparr>"
  have inv0: "sink_inv e mtu ?s0" using assms by (rule keeps_inv [rotated]) (simp add: keeps_same)
  have len: "length (bis_sync_code st) = 16" "length (bis_encryption_key st) = 16"
    using assms by (simp_all add: sink_inv_def core_inv_def)
  let ?s1 = "if bis_sync_has_code st then ?s0\<lparr>bis_encryption_key := bis_sync_code st, broadcast_code_received := True\<rparr> else ?s0"
  have s1: "(if bis_sync_has_code ?s0
      then map_option snd (broadcast_sink_broadcast_code_set (Some (bis_sync_code ?s0)) ?s0) else Some ?s0) = Some ?s1"
    using len by (simp add: broadcast_sink_broadcast_code_set_def rd_range_def wr_range_def)
  have "core ?s1 = core ?s0" "link ?s1 = link ?s0" using len by (simp_all add: core_def sync_asked_def)
  then have inv1: "sink_inv e mtu ?s1" by (intro keeps_inv [OF _ inv0] keeps_same)
  let ?p = "broadcast_sink_pa_sync_set a (pa_sync_handle ?s1) (pa_sync_broadcast_id ?s1) ?s1"
  let ?q = "broadcast_sink_start (snd ?p)"
  let ?t = "notify_conn 0x0806 [if fst ?q = 0 then 0 else 1] (snd ?q)"
  have run: "bis_sync_work_handler a st = (if fst ?p \<noteq> 0 then Some (notify_conn 0x0806 [1] (snd ?p))
      else Some (if fst ?q = 0 then ?t\<lparr>command_busy := True\<rparr> else ?t))"
    unfolding bis_sync_work_handler_def Let_def split_beta s1 Option.bind.bind_lunit
    using True by simp
  have p: "core (snd ?p) = core ?s1" "link (snd ?p) = link ?s1" by (rule pa_sync_set_keeps)+
  have t: "core ?t = core (snd ?p)" "link ?t = link (snd ?p)" by (simp_all only: notify_keeps sink_start_keeps)
  have inv2: "sink_inv e mtu (snd ?p)" using keeps_inv [OF keeps_same [OF p] inv1] .
  have fail: "sink_inv e mtu (notify_conn 0x0806 [1] (snd ?p))" using keeps_inv [OF keeps_same [OF notify_keeps] inv2] .
  have ok: "sink_inv e mtu ?t" using keeps_inv [OF keeps_same [OF t] inv2] .
  have busy: "sink_inv e mtu (?t\<lparr>command_busy := True\<rparr>)"
    by (rule keeps_inv [OF keeps_same ok]) (rule core_update link_update)+
  show ?thesis unfolding run using fail ok busy by (cases "fst ?p \<noteq> 0"; cases "fst ?q = 0") simp_all
qed

lemma mgmt_keeps: "keeps st (bt_mgmt_msg_sub_thread ev st)"
proof (cases ev)
  case Mgmt_disconnected
  then show ?thesis by (simp add: bt_mgmt_msg_sub_thread_def keeps_def) (simp add: link_inv_def in_state_def)
qed (simp_all add: bt_mgmt_msg_sub_thread_def keeps_same)

section \<open>Events\<close>

text \<open>
  The environment: the audio system's libraries answer, the buffers of the reception hold two frames of
  \<open>mtu\<close> octets, and a configured set identity has its 16 octets.
\<close>

definition sink_wf :: "'x sink_env \<Rightarrow> nat \<Rightarrow> bool" where
  "sink_wf e mtu \<longleftrightarrow> sys_externals_ok (k_syse e) \<and> rx_env_ok (k_rxe e) mtu
     \<and> (scan_delegator (k_snk e) \<and> \<not> csip_test_data (k_snk e) \<longrightarrow> 16 \<le> length (SIRK (k_snk e)))"

text \<open>
  What the host and the phone have to respect: the length in a command's header, addresses of six octets,
  elements and BASE of the size they say, a codec and rate of the BASE that the receiver supports, streams
  that the receiver asked for, frames with a readable configuration while one or two streams are
  synchronised, and frames that the codec decodes. Messages are published without errors.
\<close>

definition sink_ev_ok :: "'x sink_env \<Rightarrow> nat \<Rightarrow> sink_event \<Rightarrow> 'x sink_app \<Rightarrow> bool" where
  "sink_ev_ok e mtu ev st = (case ev of
     Sink_write a conn data \<Rightarrow> honest data
   | Sink_report info buf \<Rightarrow> length (addr_val (si_addr info)) = 6
   | Sink_pa_data ds \<Rightarrow> list_all (\<lambda>d. unat (ad_len d) \<le> length (ad_data d)) ds
   | Sink_base pub base \<Rightarrow> pub = 0 \<and> base_ok (k_snk e) (length (audio_streams st)) base
   | Sink_started pub s \<Rightarrow> pub = 0 \<and> (\<exists>i<length (audio_streams st). s = Some i) \<and> sync_asked st
   | Sink_stopped pub reason \<Rightarrow> pub = 0
   | Sink_recv i info now data m \<Rightarrow> i < length (audio_streams st)
       \<and> x_meta_num_ch (k_le (k_snk e)) (snd (x_chan_allocation (stream_codec (audio_streams st ! i)))) \<noteq> 0
       \<and> (sync_stream_cnt st = 2 \<or> sync_stream_cnt st = 1 \<and> le_audio_rx.rx_frame (k_rx st) = None)
       \<and> (case snk_stream_recv_cb (k_snk e) i info (length data) m st of
            Some (Some (m', ch)) \<Rightarrow> rx_data_ok (k_rxe e) mtu data (audio_metadata.truncate m') (unat ch) (k_rx st)
          | _ \<Rightarrow> True)
   | Sink_rx_thread \<Rightarrow> rx_thread_ok (k_syse e) (k_rx st, k_sys st)
   | Sink_dp dev \<Rightarrow> sys_ev_ok (k_syse e) (Sys_dp dev) (k_sys st)
   | _ \<Rightarrow> True)"

fun sink_evs_ok :: "'x sink_env \<Rightarrow> nat \<Rightarrow> sink_event list \<Rightarrow> 'x sink_app \<Rightarrow> bool" where
  "sink_evs_ok e mtu [] st = True"
| "sink_evs_ok e mtu (ev # evs) st =
     (sink_ev_ok e mtu ev st \<and> (case sink_step e ev st of None \<Rightarrow> True | Some st' \<Rightarrow> sink_evs_ok e mtu evs st'))"

lemma recv_some:
  assumes "i < length (audio_streams st)"
    and "x_meta_num_ch (k_le e) (snd (x_chan_allocation (stream_codec (audio_streams st ! i)))) \<noteq> 0"
  shows "\<exists>call. snk_stream_recv_cb e i info len m st = Some call"
  using assms
  by (simp add: snk_stream_recv_cb_def le_audio_metadata_populate_def rd_def split_beta Let_def)

text \<open>A new content of the reception path that keeps its invariant.\<close>

lemma rx_update_inv:
  assumes "sink_inv e mtu st" and "rx_inv (k_rxe e) 2 mtu rx"
  shows "sink_inv e mtu (st\<lparr>k_rx := rx\<rparr>)"
  using assms link_inv_same [of "st\<lparr>k_rx := rx\<rparr>" st] by (simp add: sink_inv_def core_inv_def sync_asked_def)

lemma sys_update_inv:
  assumes "sink_inv e mtu st" and "sys_inv (k_syse e) sys" and "sys_running sys = sys_running (k_sys st)"
    and "dec_ready sys = dec_ready (k_sys st)"
  shows "sink_inv e mtu (st\<lparr>k_sys := sys\<rparr>)"
  using assms link_inv_same [of "st\<lparr>k_sys := sys\<rparr>" st] by (simp add: sink_inv_def core_inv_def sync_asked_def)

lemma recv_inv:
  assumes "sink_wf e mtu" and "sink_inv e mtu st" and "sink_ev_ok e mtu (Sink_recv i info now data m) st"
  shows "\<exists>st'. sink_recv e i info now data m st = Some st' \<and> sink_inv e mtu st'"
proof -
  obtain call where call: "snk_stream_recv_cb (k_snk e) i info (length data) m st = Some call"
    using recv_some [of i st "k_snk e" info "length data" m] assms(3) by (auto simp: sink_ev_ok_def)
  show ?thesis
  proof (cases call)
    case None
    then show ?thesis using call assms(2) by (simp add: sink_recv_def)
  next
    case (Some p)
    obtain m' ch where p: "p = (m', ch)" by (cases p)
    let ?n = "nat (le_audio_concurrent_sync_num_get st)"
    have ok: "rx_data_ok (k_rxe e) mtu data (audio_metadata.truncate m') (unat ch) (k_rx st)"
        "?n = 2 \<or> ?n = 1 \<and> le_audio_rx.rx_frame (k_rx st) = None"
      using assms(3) call Some p by (auto simp: sink_ev_ok_def le_audio_concurrent_sync_num_get_def)
    have inv2: "rx_inv (k_rxe e) 2 mtu (k_rx st)" using assms(2) by (simp add: sink_inv_def core_inv_def)
    then have "rx_inv (k_rxe e) ?n mtu (k_rx st)" using ok(2) by (auto simp: rx_inv_def split: option.splits)
    moreover have ext: "rx_env_ok (k_rxe e) mtu" and n: "?n = 1 \<or> ?n = 2" using assms(1) ok(2) by (auto simp: sink_wf_def)
    ultimately obtain rx where rx: "le_audio_rx_data_handler (k_rxe e) (snk_strm_state st = STATE_STREAMING) ?n now data
        (audio_metadata.truncate m') (unat ch) (k_rx st) = Some rx" "rx_inv (k_rxe e) ?n mtu rx"
      using rx_handler_inv [OF ext n _ ok(1)] by blast
    have "rx_inv (k_rxe e) 2 mtu rx" using rx(2) ok(2) by (auto simp: rx_inv_def split: option.splits)
    then have "sink_inv e mtu (st\<lparr>k_rx := rx\<rparr>)" using rx_update_inv [OF assms(2)] by blast
    then show ?thesis using call Some p rx(1) by (simp add: sink_recv_def)
  qed
qed

lemma rx_thread_dec:
  assumes "\<not> rx_usb e" and "audio_datapath_thread e se (rx, sys) = Some (rx', sys')"
  shows "sys_running sys' = sys_running sys \<and> dec_ready sys' = dec_ready sys"
proof (cases "ble_q_rx rx")
  case Nil
  then show ?thesis using assms(2) by (simp add: audio_datapath_thread_def)
next
  case (Cons f q)
  then have "sys_stream_out se f sys = Some sys'"
    using assms by (auto simp: audio_datapath_thread_def split: bind_splits)
  then show ?thesis using sys_stream_out_keeps by (fastforce simp: dec_ready_def)
qed

lemma dp_step_dec: "sys_step e (Sys_dp dev) sys = Some sys' \<Longrightarrow> dec_ready sys' = dec_ready sys"
  by (auto simp: sys_step_def dec_ready_def)

lemma sink_step_inv:
  assumes "sink_wf e mtu" and "sink_inv e mtu st" and "sink_ev_ok e mtu ev st"
  shows "\<exists>st'. sink_step e ev st = Some st' \<and> sink_inv e mtu st'"
proof -
  have ext: "sys_externals_ok (k_syse e)" "rx_env_ok (k_rxe e) mtu" using assms(1) by (simp_all add: sink_wf_def)
  note ok = assms(3) and inv = assms(2)
  show ?thesis
  proof (cases ev)
    case (Sink_write a conn data)
    then obtain r st' where "write_cmd_req (k_syse e) a conn data st = Some (r, st')" "sink_inv e mtu st'"
      using write_inv [OF inv ext(1), of data a conn] ok by (auto simp: sink_ev_ok_def)
    then show ?thesis using Sink_write by (simp add: sink_step_def)
  next
    case (Sink_report info buf)
    then show ?thesis using report_inv [OF inv, of info buf] ok by (simp add: sink_step_def sink_ev_ok_def)
  next
    case (Sink_pa_data ds)
    then show ?thesis using pa_report_inv [OF inv, of ds] ok by (simp add: sink_step_def sink_ev_ok_def list_all_iff)
  next
    case (Sink_pa_synced sync addr)
    then show ?thesis using keeps_inv [OF synced_keeps inv] by (simp add: sink_step_def)
  next
    case (Sink_pa_term stop)
    then show ?thesis using keeps_inv [OF term_keeps inv] by (simp add: sink_step_def)
  next
    case (Sink_base pub base)
    then show ?thesis using base_inv [OF inv, of base] ok by (simp add: sink_step_def sink_ev_ok_def)
  next
    case (Sink_syncable ans i enc)
    then show ?thesis using syncable_inv [OF inv] by (simp add: sink_step_def)
  next
    case (Sink_started pub s)
    then show ?thesis using started_inv [OF inv] ok by (auto simp: sink_step_def sink_ev_ok_def)
  next
    case (Sink_stopped pub reason)
    then show ?thesis using stopped_inv [OF inv, of reason] ok by (simp add: sink_step_def sink_ev_ok_def)
  next
    case (Sink_cleanup ans)
    have "keeps st (bis_cleanup_worker ans st)" by (simp add: bis_cleanup_worker_def keeps_same)
    then show ?thesis using Sink_cleanup keeps_inv [OF _ inv] by (simp add: sink_step_def)
  next
    case (Sink_bis_work a)
    then show ?thesis using bis_work_inv [OF inv, of a] by (simp add: sink_step_def)
  next
    case (Sink_msg a)
    then show ?thesis using sink_msg_inv [OF inv ext(1), of a] by (simp add: sink_step_def)
  next
    case (Sink_mgmt mev)
    then show ?thesis using keeps_inv [OF mgmt_keeps inv] by (simp add: sink_step_def)
  next
    case (Sink_host i s)
    have "keeps st (st\<lparr>audio_streams := (audio_streams st)[i := s]\<rparr>)"
      by (rule keeps_same) (simp_all add: core_def sync_asked_def)
    then show ?thesis using Sink_host keeps_inv [OF _ inv] by (simp add: sink_step_def)
  next
    case (Sink_recv i info now data m)
    then show ?thesis using recv_inv [OF assms(1) inv, of i info now data m] ok by (simp add: sink_step_def)
  next
    case Sink_rx_thread
    obtain rx sys where s: "audio_datapath_thread (k_rxe e) (k_syse e) (k_rx st, k_sys st) = Some (rx, sys)"
        "rx_inv (k_rxe e) 2 mtu rx" "sys_inv (k_syse e) sys"
      using rx_thread_inv [OF ext(2), of 2 "k_rx st" "k_syse e" "k_sys st"] ext(1) inv ok Sink_rx_thread
      by (auto simp: sink_inv_def core_inv_def sink_ev_ok_def)
    have "sink_inv e mtu (st\<lparr>k_rx := rx, k_sys := sys\<rparr>)"
      using sys_update_inv [OF rx_update_inv [OF inv s(2)], of sys] s(3) rx_thread_dec [OF _ s(1)] ext(2)
      by (simp add: rx_env_ok_def)
    then show ?thesis using Sink_rx_thread s(1) by (simp add: sink_step_def)
  next
    case (Sink_dp dev)
    obtain sys where s: "sys_step (k_syse e) (Sys_dp dev) (k_sys st) = Some sys" "sys_inv (k_syse e) sys"
        "sys_running sys = sys_running (k_sys st)"
      using dp_event_inv [OF ext(1), of "k_sys st" dev] inv ok Sink_dp by (auto simp: sink_inv_def core_inv_def sink_ev_ok_def)
    then show ?thesis using Sink_dp sys_update_inv [OF inv s(2,3)] dp_step_dec [OF s(1)] by (simp add: sink_step_def)
  qed
qed

lemma sink_run_inv:
  "sink_wf e mtu \<Longrightarrow> sink_inv e mtu st \<Longrightarrow> sink_evs_ok e mtu evs st \<Longrightarrow>
   \<exists>st'. sink_run e evs st = Some st' \<and> sink_inv e mtu st'"
proof (induction evs arbitrary: st)
  case (Cons ev evs)
  then obtain st1 where "sink_step e ev st = Some st1" "sink_inv e mtu st1"
    using sink_step_inv by fastforce
  then show ?case using Cons by simp
qed simp

section \<open>Starting\<close>

text \<open>The memory before \<open>main\<close>: the static data of both files, and no request made.\<close>

definition sink_boot :: "'x sink_env \<Rightarrow> led_state \<Rightarrow> 'x sink_app \<Rightarrow> bool" where
  "sink_boot e l st \<longleftrightarrow> (\<exists>x. k_sys st = sys_boot (k_syse e) l x) \<and> snk_strm_state st = STATE_PAUSED
     \<and> led_ok (s_dp (k_syse e)) (dp_boot (s_dp (k_syse e)) l)
     \<and> displays l (led_audio_sync_status (e_board (s_dp (k_syse e)))) LED_COLOR_OFF
     \<and> \<not> rx_initialized (k_rx st) \<and> ble_q_rx (k_rx st) = [] \<and> le_audio_rx.rx_frame (k_rx st) = None
     \<and> \<not> snk_initialized st \<and> snk_chan st = [] \<and> sink_calls st = [] \<and> bis_index_bitfield st = 0
     \<and> (\<forall>ci\<in>set (codec_infos st). ci_frequency ci = 0) \<and> length (codec_infos st) = length (audio_streams st)
     \<and> audio_streams st \<noteq> [] \<and> length (bis_encryption_key st) = 16 \<and> length (bis_sync_code st) = 16
     \<and> length (prev_pa_data st) = PA_MAX_DATA_LEN \<and> scan_cache st \<noteq> []
     \<and> receiver_state st = 0 \<and> \<not> pa_data_notify_enabled st"

lemma setup_update [simp]:
  "core (st\<lparr>receive_cb_set := b\<rparr>) = core st" "core (st\<lparr>csip_rank := v\<rparr>) = core st"
  "core (st\<lparr>csip_sirk := d\<rparr>) = core st" "core (st\<lparr>csip_rsi_adv_data := d\<rparr>) = core st"
  "core (st\<lparr>stream_ops_set := bs\<rparr>) = core st" "core (st\<lparr>streams_p := ps\<rparr>) = core st"
  "core (st\<lparr>snk_initialized := b\<rparr>) = core st"
  "link (st\<lparr>receive_cb_set := b\<rparr>) = link st" "link (st\<lparr>csip_rank := v\<rparr>) = link st"
  "link (st\<lparr>csip_sirk := d\<rparr>) = link st" "link (st\<lparr>csip_rsi_adv_data := d\<rparr>) = link st"
  "link (st\<lparr>stream_ops_set := bs\<rparr>) = link st" "link (st\<lparr>streams_p := ps\<rparr>) = link st"
  "link (st\<lparr>snk_initialized := b\<rparr>) = link st"
  by (simp_all add: core_def sync_asked_def link_def in_state_def)

lemma delegator_keeps:
  fixes st :: "'x sink_app"
  shows "delegator_register e a st = Some (r, st') \<Longrightarrow> core st' = core st \<and> link st' = link st"
  by (auto simp: delegator_register_def split: if_splits bind_splits)

lemma enable_keeps:
  fixes st :: "'x sink_app"
  assumes "broadcast_sink_enable e a True st = Some (0, st')" and "\<not> snk_initialized st"
  shows "core st' = core st \<and> link st' = link st"
proof -
  let ?s = "st\<lparr>receive_cb_set := True, csip_rank := csip_rank_of (k_location e)\<rparr>"
  obtain s1 where s1: "delegator_register e a ?s = Some (0, s1)"
      "st' = s1\<lparr>stream_ops_set := replicate (length (audio_streams s1)) True,
        streams_p := map Some [0..<length (audio_streams s1)], snk_initialized := True\<rparr>"
    using assms by (auto simp: broadcast_sink_enable_def Let_def split: if_splits bind_splits)
  show ?thesis using delegator_keeps [OF s1(1)] s1(2) by simp
qed

lemma sink_main_parts:
  assumes "sink_main e a st = Some st0"
  obtains sys rx where "audio_system_init (k_syse e) (k_sys st) = Some (0, sys)" and "le_audio_rx_init (k_rx st) = (0, rx)"
    and "broadcast_sink_enable (k_snk e) (sa_enable a) True (st\<lparr>k_sys := sys, k_rx := rx\<rparr>) = Some (0, st0)"
  using assms unfolding sink_main_def err_chk_def
  by (auto split: if_splits bind_splits prod.splits intro: that)

lemma sink_main_inv:
  assumes "sink_wf e mtu" and "sink_boot e l st" and "sink_main e a st = Some st0"
  shows "sink_inv e mtu st0"
proof -
  obtain sys rx where p: "audio_system_init (k_syse e) (k_sys st) = Some (0, sys)" "le_audio_rx_init (k_rx st) = (0, rx)"
      "broadcast_sink_enable (k_snk e) (sa_enable a) True (st\<lparr>k_sys := sys, k_rx := rx\<rparr>) = Some (0, st0)"
    by (rule sink_main_parts [OF assms(3)])
  obtain x where x: "k_sys st = sys_boot (k_syse e) l x" using assms(2) by (auto simp: sink_boot_def)
  have sys: "sys_inv (k_syse e) sys" "\<not> sys_running sys"
    using sys_init_inv [of "k_syse e" l x] assms(1,2) p(1) unfolding x by (auto simp: sink_wf_def sink_boot_def)
  have "rx_inv (k_rxe e) 2 mtu rx"
    using assms(2) p(2) by (auto simp: le_audio_rx_init_def rx_inv_def sink_boot_def split: if_splits)
  then have "core_inv e mtu (st\<lparr>k_sys := sys, k_rx := rx\<rparr>)"
    using assms(2) sys by (auto simp: core_inv_def sink_boot_def sync_asked_def config_queued_def)
  moreover have "link_inv (st\<lparr>k_sys := sys, k_rx := rx\<rparr>)"
    using assms(2) by (simp add: link_inv_def sink_boot_def in_state_def)
  ultimately show ?thesis
    using sink_inv_same [of st0 "st\<lparr>k_sys := sys, k_rx := rx\<rparr>" e mtu] enable_keeps [OF p(3)] assms(2)
    by (simp add: sink_inv_def sink_boot_def)
qed

end
