(* ===== verification/SinkFrames.thy ===== *)
theory SinkFrames
  imports SinkMain
begin

text \<open>
  The type of what the receiver sends to its phone: every notification is a frame whose header says its
  length, of a response or of a notification, on the attribute that carries it.
\<close>

section \<open>Frames\<close>

definition frame_opcode :: "bytes \<Rightarrow> u16" where
  "frame_opcode b = get_be16 (b ! 0) (b ! 1)"

definition frame_ok :: "nat \<times> nat \<times> bytes \<Rightarrow> bool" where
  "frame_ok = (\<lambda>(conn, attr, b). 4 \<le> length b \<and> length b \<le> 512
     \<and> unat (get_be16 (b ! 2) (b ! 3)) = length b - 4
     \<and> (if attr = 7 then frame_opcode b = AC_OP_PA_DATA_NTF
        else attr = 4 \<and> (drop_bit 8 (frame_opcode b) = 0x08 \<or> drop_bit 8 (frame_opcode b) = 0x0C)))"

definition frames_ok :: "'x sink_app \<Rightarrow> bool" where
  "frames_ok st \<longleftrightarrow> list_all frame_ok (gatt_out st)"

lemma get_be16_back: "get_be16 (ucast (drop_bit 8 v)) (ucast v) = v"
proof (rule bit_word_eqI)
  fix n assume "n < LENGTH(16)"
  then consider "n < 8" | "8 \<le> n" "n < 16" by fastforce
  then show "bit (get_be16 (ucast (drop_bit 8 v)) (ucast v)) n = bit v n"
    by cases (auto simp: get_be16_def bit_simps)
qed

lemma be16_frame:
  "length (be16 a) = 2" "frame_opcode (be16 a @ be16 b @ p) = a"
  "get_be16 ((be16 a @ be16 b @ p) ! 2) ((be16 a @ be16 b @ p) ! 3) = b"
  by (simp_all add: be16_def frame_opcode_def get_be16_back)

lemma response_frames:
  assumes "frames_ok st" and "drop_bit 8 oc = (0x08 :: u16) \<or> drop_bit 8 oc = (0x0C :: u16)"
  shows "frames_ok (auracast_gatt_send_response c oc p st)"
  using assms
  by (auto simp: auracast_gatt_send_response_def frames_ok_def frame_ok_def be16_frame unat_of_nat simp del: append_assoc)

lemma pa_data_frames [intro]: "frames_ok st \<Longrightarrow> frames_ok (auracast_gatt_send_pa_data c d st)"
  by (auto simp: auracast_gatt_send_pa_data_def frames_ok_def frame_ok_def be16_frame unat_of_nat simp del: append_assoc)

lemma busy_opcode: "drop_bit 8 (or (and oc 0x00FF) 0x0800 :: u16) = 0x08"
proof -
  have "drop_bit 8 (and oc (mask 8) :: u16) = 0" by (rule bit_word_eqI) (simp add: bit_simps)
  moreover have "(0x00FF :: u16) = mask 8" by (simp add: mask_eq_exp_minus_1)
  ultimately show ?thesis by (simp add: drop_bit_or)
qed

section \<open>Every operation sends frames\<close>

text \<open>Notifications, and what changes no notification.\<close>

lemma frames_update [simp]:
  "frames_ok (st\<lparr>receiver_state := r\<rparr>) = frames_ok st" "frames_ok (st\<lparr>pa_data_notify_enabled := b\<rparr>) = frames_ok st"
  "frames_ok (st\<lparr>current_conn := c\<rparr>) = frames_ok st" "frames_ok (st\<lparr>command_busy := b\<rparr>) = frames_ok st"
  "frames_ok (st\<lparr>current_volume := v\<rparr>) = frames_ok st" "frames_ok (st\<lparr>current_mute := v\<rparr>) = frames_ok st"
  "frames_ok (st\<lparr>pa_sync_handle := h\<rparr>) = frames_ok st" "frames_ok (st\<lparr>pa_sync_addr := a\<rparr>) = frames_ok st"
  "frames_ok (st\<lparr>pa_sync_sid := v\<rparr>) = frames_ok st" "frames_ok (st\<lparr>pa_sync_broadcast_id := i\<rparr>) = frames_ok st"
  "frames_ok (st\<lparr>snk_strm_state := t\<rparr>) = frames_ok st" "frames_ok (st\<lparr>bis_sync_queued := b\<rparr>) = frames_ok st"
  "frames_ok (st\<lparr>bis_sync_code := y\<rparr>) = frames_ok st" "frames_ok (st\<lparr>bis_sync_has_code := b\<rparr>) = frames_ok st"
  "frames_ok (st\<lparr>scan_cache := z\<rparr>) = frames_ok st" "frames_ok (st\<lparr>prev_pa_data := y\<rparr>) = frames_ok st"
  "frames_ok (st\<lparr>prev_pa_data_len := v\<rparr>) = frames_ok st" "frames_ok (st\<lparr>pa_data_received_once := b\<rparr>) = frames_ok st"
  "frames_ok (st\<lparr>k_sys := s\<rparr>) = frames_ok st" "frames_ok (st\<lparr>k_rx := x\<rparr>) = frames_ok st"
  "frames_ok (st\<lparr>snk_chan := q\<rparr>) = frames_ok st"
  by (simp_all add: frames_ok_def)

lemma frames_same: "gatt_out st' = gatt_out st \<Longrightarrow> frames_ok st' = frames_ok st"
  by (simp add: frames_ok_def)

lemma frames_bits [simp]: "frames_ok (enter_state m st) = frames_ok st" "frames_ok (leave_state m st) = frames_ok st"
  by (simp_all add: enter_state_def leave_state_def)

lemma notify_frames: "frames_ok st \<Longrightarrow> drop_bit 8 oc = (0x08 :: u16) \<or> drop_bit 8 oc = (0x0C :: u16) \<Longrightarrow> frames_ok (notify_conn oc p st)"
  by (simp add: notify_conn_def response_frames split: option.split)

lemma notifications_frames [simp]:
  "frames_ok st \<Longrightarrow> frames_ok (notify_state_transition st)" "frames_ok st \<Longrightarrow> frames_ok (notify_pa_sync_state s a l st)"
  "frames_ok st \<Longrightarrow> frames_ok (notify_bis_sync_state s st)" "frames_ok st \<Longrightarrow> frames_ok (notify_volume_change st)"
  by (simp_all add: notify_state_transition_def notify_pa_sync_state_def notify_bis_sync_state_def notify_volume_change_def
      notify_frames)

text \<open>The operations of the broadcast sink send nothing.\<close>

lemma sink_quiet [simp]:
  "gatt_out (snd (broadcast_sink_stop ans st)) = gatt_out st" "gatt_out (snd (broadcast_sink_cleanup ans st)) = gatt_out st"
  "gatt_out (snd (broadcast_sink_start st)) = gatt_out st" "gatt_out (bis_cleanup_worker ans st) = gatt_out st"
  "gatt_out (syncable_cb e ans i enc st) = gatt_out st"
  by (simp_all add: broadcast_sink_stop_def broadcast_sink_cleanup_def broadcast_sink_start_def bis_cleanup_worker_def
      syncable_cb_def Let_def)

lemma pa_sync_set_quiet [simp]: "gatt_out (snd (broadcast_sink_pa_sync_set a h i st)) = gatt_out st"
  by (simp add: broadcast_sink_pa_sync_set_def Let_def split: option.split)

lemma publish_quiet: "snk_event_publish pub ev st = Some st' \<Longrightarrow> gatt_out st' = gatt_out st"
  by (auto simp: snk_event_publish_def Let_def split: bind_splits)

lemma callbacks_quiet:
  "snk_stream_started_cb pub i st = Some st' \<Longrightarrow> gatt_out st' = gatt_out st"
  "snk_stream_stopped_cb pub r st = Some st' \<Longrightarrow> gatt_out st' = gatt_out st"
  by (auto simp: snk_stream_started_cb_def snk_stream_stopped_cb_def Let_def dest!: publish_quiet split: bind_splits if_splits)

lemma bis_parse_quiet: "bis_per_subgroup_parse e b st = Some st' \<Longrightarrow> gatt_out st' = gatt_out st"
  by (auto simp: bis_per_subgroup_parse_def Let_def split: bind_splits if_splits)

lemma foreach_bis_quiet: "foreach_bis e bs st = Some st' \<Longrightarrow> gatt_out st' = gatt_out st"
  by (induction bs arbitrary: st) (auto dest!: bis_parse_quiet split: bind_splits)

lemma subgroup_quiet: "base_subgroup_cb e sg st = Some (go, found, st') \<Longrightarrow> gatt_out st' = gatt_out st"
  by (auto simp: base_subgroup_cb_def split_beta Let_def dest!: foreach_bis_quiet split: bind_splits if_splits)

lemma subgroups_quiet: "foreach_subgroup e sgs ret st = Some (ret', found, st') \<Longrightarrow> gatt_out st' = gatt_out st"
  by (induction sgs arbitrary: st) (auto dest!: subgroup_quiet split: bind_splits if_splits)

lemma base_quiet: "base_recv_cb e pub base st = Some st' \<Longrightarrow> gatt_out st' = gatt_out st"
  by (auto simp: base_recv_cb_def Let_def dest!: publish_quiet subgroups_quiet split: bind_splits if_splits)

text \<open>Callbacks of the synchronisation, and deleting one.\<close>

lemma stop_frames [simp]:
  "frames_ok (snd (broadcast_sink_stop ans st)) = frames_ok st" "frames_ok (snd (broadcast_sink_cleanup ans st)) = frames_ok st"
  "frames_ok (snd (broadcast_sink_start st)) = frames_ok st" "frames_ok (snd (broadcast_sink_pa_sync_set a h i st)) = frames_ok st"
  by (simp_all add: frames_ok_def)

lemma term_frames [simp]:
  assumes "frames_ok st"
  shows "frames_ok (pa_sync_term_cb stop st)"
proof -
  let ?s = "if in_state AC_STATE_BIS_SYNCED st
      then notify_bis_sync_state 0 (leave_state AC_STATE_BIS_SYNCED (snd (broadcast_sink_stop stop st))) else st"
  have "frames_ok ?s" using assms by simp
  then have "frames_ok (leave_state AC_STATE_PA_SYNCED
      (?s\<lparr>pa_data_notify_enabled := False, pa_data_received_once := False, pa_sync_handle := None\<rparr>))"
    by (simp only: frames_bits frames_update)
  then show ?thesis by (simp only: pa_sync_term_cb_def Let_def frames_update notifications_frames)
qed

lemma delete_frames [simp]: "frames_ok st \<Longrightarrow> frames_ok (snd (per_adv_sync_delete d st))"
  by (simp add: per_adv_sync_delete_def)

lemma synced_frames: "frames_ok st \<Longrightarrow> frames_ok (pa_synced_cb sync a st)"
  by (simp add: pa_synced_cb_def Let_def)

text \<open>Commands. A response has an opcode of the range 0x08.\<close>

lemma answer_frames [simp]:
  "frames_ok st \<Longrightarrow> drop_bit 8 oc = (0x08 :: u16) \<Longrightarrow> frames_ok (auracast_gatt_send_response c oc p st)"
  by (simp add: response_frames)

lemma plain_handler_frames:
  "frames_ok st \<Longrightarrow> frames_ok (handle_device_info_req c st)" "frames_ok st \<Longrightarrow> frames_ok (handle_search_start_req n c st)"
  "frames_ok st \<Longrightarrow> frames_ok (handle_search_stop_req c st)" "frames_ok st \<Longrightarrow> frames_ok (handle_pa_data_ntf_start_req c st)"
  "frames_ok st \<Longrightarrow> frames_ok (handle_pa_data_ntf_stop_req c st)" "frames_ok st \<Longrightarrow> frames_ok (handle_volume_get_req c st)"
  by (simp_all add: handle_device_info_req_def handle_search_start_req_def handle_search_stop_req_def
      handle_pa_data_ntf_start_req_def handle_pa_data_ntf_stop_req_def handle_volume_get_req_def Let_def)

lemma release_frames: "frames_ok st \<Longrightarrow> frames_ok (handle_pa_sync_release_req stop del c st)"
  by (simp add: handle_pa_sync_release_req_def split_beta Let_def)

lemma sync_start_frames:
  "handle_pa_sync_start_req stop del cr c params n st = Some st' \<Longrightarrow> frames_ok st \<Longrightarrow> frames_ok st'"
  by (auto simp: handle_pa_sync_start_req_def Let_def split: bind_splits if_splits)

lemma handler_frames:
  "handle_bis_sync_start_req c params n st = Some st' \<Longrightarrow> frames_ok st \<Longrightarrow> frames_ok st'"
  "handle_volume_set_req c params n st = Some st' \<Longrightarrow> frames_ok st \<Longrightarrow> frames_ok st'"
  "handle_mute_set_req c params n st = Some st' \<Longrightarrow> frames_ok st \<Longrightarrow> frames_ok st'"
  "handle_audio_output_req c params n st = Some st' \<Longrightarrow> frames_ok st \<Longrightarrow> frames_ok st'"
  by (auto simp: handle_bis_sync_start_req_def handle_volume_set_req_def handle_mute_set_req_def handle_audio_output_req_def
      Let_def split: bind_splits if_splits)

lemma bis_stop_frames: "handle_bis_sync_stop_req e stop c st = Some st' \<Longrightarrow> frames_ok st \<Longrightarrow> frames_ok st'"
  by (auto simp: handle_bis_sync_stop_req_def split_beta Let_def split: bind_splits if_splits)

lemma command_frames:
  "gatt_cmd_handler e a c oc params n st = Some st' \<Longrightarrow> frames_ok st \<Longrightarrow> frames_ok st'"
  by (auto simp: gatt_cmd_handler_def busy_opcode plain_handler_frames release_frames
      dest: sync_start_frames handler_frames bis_stop_frames split: if_splits)

lemma write_frames: "write_cmd_req e a c data st = Some (r, st') \<Longrightarrow> frames_ok st \<Longrightarrow> frames_ok st'"
  by (auto simp: write_cmd_req_def Let_def dest: command_frames split: bind_splits if_splits)

text \<open>Reports, messages and received frames.\<close>

lemma report_frames: "scan_recv_cb info buf st = Some st' \<Longrightarrow> frames_ok st \<Longrightarrow> frames_ok st'"
  by (auto simp: scan_recv_cb_def Let_def intro!: response_frames split: bind_splits if_splits option.splits)

lemma pa_element_frames: "pa_data_parse_cb d st = Some (go, st') \<Longrightarrow> frames_ok st \<Longrightarrow> frames_ok st'"
  by (auto simp: pa_data_parse_cb_def Let_def split: bind_splits if_splits option.splits)

lemma pa_report_frames: "pa_recv_cb ds st = Some st' \<Longrightarrow> frames_ok st \<Longrightarrow> frames_ok st'"
  by (induction ds arbitrary: st) (auto dest: pa_element_frames split: bind_splits if_splits)

lemma code_quiet: "broadcast_sink_broadcast_code_set c st = Some (r, st') \<Longrightarrow> gatt_out st' = gatt_out st"
  by (auto simp: broadcast_sink_broadcast_code_set_def split: option.splits bind_splits)

lemma one_of_three:
  "(if c then Some x else Some (if d then y else z)) = Some s \<Longrightarrow> P x \<Longrightarrow> P y \<Longrightarrow> P z \<Longrightarrow> P s"
  by (auto split: if_splits)

lemma bis_work_frames:
  assumes "bis_sync_work_handler a st = Some st'" and "frames_ok st"
  shows "frames_ok st'"
proof (cases "bis_sync_queued st")
  case True
  let ?s0 = "st\<lparr>bis_sync_queued := False\<rparr>"
  obtain s1 where s1: "(if bis_sync_has_code ?s0
        then map_option snd (broadcast_sink_broadcast_code_set (Some (bis_sync_code ?s0)) ?s0) else Some ?s0) = Some s1"
    using assms(1) True by (auto simp: bis_sync_work_handler_def Let_def split: bind_splits if_splits)
  have f1: "frames_ok s1" using s1 assms(2) by (auto simp: frames_ok_def dest!: code_quiet split: if_splits)
  let ?p = "broadcast_sink_pa_sync_set a (pa_sync_handle s1) (pa_sync_broadcast_id s1) s1"
  let ?q = "broadcast_sink_start (snd ?p)"
  let ?t = "notify_conn 0x0806 [if fst ?q = 0 then 0 else 1] (snd ?q)"
  have run: "bis_sync_work_handler a st = (if fst ?p \<noteq> 0 then Some (notify_conn 0x0806 [1] (snd ?p))
      else Some (if fst ?q = 0 then ?t\<lparr>command_busy := True\<rparr> else ?t))"
    unfolding bis_sync_work_handler_def Let_def split_beta s1 Option.bind.bind_lunit using True by simp
  have fail: "frames_ok (notify_conn 0x0806 [1] (snd ?p))" and sent: "frames_ok ?t"
    using f1 by (simp_all add: notify_frames)
  show ?thesis
    by (rule one_of_three [OF assms(1) [unfolded run], where P = frames_ok, OF fail _ sent]) (simp only: frames_update sent)
qed (use assms in \<open>simp add: bis_sync_work_handler_def\<close>)

lemma config_frames: "on_config_received e st = Some st' \<Longrightarrow> frames_ok st \<Longrightarrow> frames_ok st'"
  by (auto simp: on_config_received_def split_beta Let_def split: bind_splits if_splits)

lemma streaming_frames: "on_sink_streaming e st = Some st' \<Longrightarrow> frames_ok st \<Longrightarrow> frames_ok st'"
  by (auto simp: on_sink_streaming_def Let_def split: bind_splits if_splits)

lemma audio_stop_frames: "sink_audio_stop e st = Some st' \<Longrightarrow> frames_ok st \<Longrightarrow> frames_ok st'"
  by (auto simp: sink_audio_stop_def Let_def split: bind_splits if_splits)

lemma lost_frames: "on_sync_lost e a h st = Some st' \<Longrightarrow> frames_ok st \<Longrightarrow> frames_ok st'"
  by (auto simp: on_sync_lost_def Let_def dest!: audio_stop_frames split: bind_splits if_splits)

lemma disable_frames:
  assumes "broadcast_sink_disable stop (\<lambda>sync st. Some (per_adv_sync_delete d st)) ans st = Some (r, st')" and "frames_ok st"
  shows "frames_ok st'"
proof -
  let ?s = "if is_any_active_streams st \<and> stop = 0 then st\<lparr>sink_calls := sink_calls st @ [Sink_stop]\<rparr> else st"
  have s: "frames_ok ?s" using assms(2) by (simp add: frames_ok_def)
  have del: "frames_ok (snd (per_adv_sync_delete d ?s))" by (rule delete_frames [OF s])
  show ?thesis
  proof (cases "pa_sync_stored ?s")
    case None
    then have "Some (r, st') = Some (broadcast_sink_cleanup ans ?s)"
      using assms(1) unfolding broadcast_sink_disable_def Let_def by (simp only: option.case Option.bind.bind_lunit) simp
    then have "st' = snd (broadcast_sink_cleanup ans ?s)" by (metis option.inject snd_conv)
    then show ?thesis using s by (simp only: stop_frames)
  next
    case (Some sync)
    let ?d = "per_adv_sync_delete d ?s"
    have "broadcast_sink_disable stop (\<lambda>sync st. Some (per_adv_sync_delete d st)) ans st
        = Some (if fst ?d \<noteq> 0 then ?d else broadcast_sink_cleanup ans (snd ?d))"
      unfolding broadcast_sink_disable_def Let_def Some option.case Option.bind.bind_lunit split_beta prod.collapse
      by (rule if_distrib [symmetric])
    then have "st' = snd (if fst ?d \<noteq> 0 then ?d else broadcast_sink_cleanup ans (snd ?d))" using assms(1) by (metis option.inject snd_conv)
    then show ?thesis using del by (simp only: if_distrib [of snd] if_distrib [of frames_ok] stop_frames if_cancel)
  qed
qed

lemma msg_frames:
  assumes "snk_le_audio_msg_sub_thread e a st = Some st'" and "frames_ok st"
  shows "frames_ok st'"
proof (cases "snk_chan st")
  case Nil
  then show ?thesis using assms by (simp add: snk_le_audio_msg_sub_thread_def)
next
  case (Cons m ms)
  let ?s = "st\<lparr>snk_chan := ms\<rparr>"
  have f: "frames_ok ?s" using assms(2) by simp
  show ?thesis
    using assms(1) Cons f
    by (auto simp: snk_le_audio_msg_sub_thread_def Let_def split: if_splits
        dest: config_frames [OF _ f] streaming_frames [OF _ f] audio_stop_frames [OF _ f] lost_frames [OF _ f] disable_frames [OF _ f])
qed

lemma recv_quiet: "sink_recv e i info now data m st = Some st' \<Longrightarrow> gatt_out st' = gatt_out st"
  by (auto simp: sink_recv_def split: bind_splits option.splits prod.splits)

lemmas quiet_frames = recv_quiet [THEN frames_same] base_quiet [THEN frames_same] callbacks_quiet [THEN frames_same]

lemma host_frames [simp]: "frames_ok (syncable_cb e ans i enc st) = frames_ok st" "frames_ok (bis_cleanup_worker ans st) = frames_ok st"
  by (simp_all add: frames_ok_def)

lemma step_frames:
  assumes "sink_step e ev st = Some st'" and "frames_ok st"
  shows "frames_ok st'"
proof (cases ev)
  case (Sink_pa_synced sync a)
  then show ?thesis using assms synced_frames by (auto simp: sink_step_def)
next
  case (Sink_mgmt mev)
  then show ?thesis using assms by (cases mev) (auto simp: sink_step_def bt_mgmt_msg_sub_thread_def)
next
  case (Sink_host i s)
  then show ?thesis using assms by (auto simp: sink_step_def frames_ok_def)
qed (use assms in \<open>auto simp: sink_step_def dest: write_frames report_frames pa_report_frames
      bis_work_frames msg_frames quiet_frames\<close>)

lemma run_frames: "sink_run e evs st = Some st' \<Longrightarrow> frames_ok st \<Longrightarrow> frames_ok st'"
  by (induction evs arbitrary: st) (auto dest: step_frames split: bind_splits)

end
