(* ===== verification/SinkApp.thy ===== *)
theory SinkApp
  imports SinkSafety SinkFrames BroadcastApp
begin

text \<open>
  Properties of the receiver application, and of the broadcaster and the receiver together: what one
  advertises the other finds and passes on to the phone.
\<close>

section \<open>Advertising data on the air\<close>

text \<open>
  The format of the Bluetooth Core Specification: each element is a length octet, which counts
  the type, the type, and the data.
\<close>

definition ad_structure :: "bt_data \<Rightarrow> bytes" where
  "ad_structure d = (ad_len d + 1) # ad_type d # ad_bytes d"

definition on_air :: "bt_data list \<Rightarrow> bytes" where
  "on_air ds = concat (map ad_structure ds)"

definition element_ok :: "bt_data \<Rightarrow> bool" where
  "element_ok d \<longleftrightarrow> unat (ad_len d) < 255 \<and> unat (ad_len d) \<le> length (ad_data d)"

lemma bytes_length: "element_ok d \<Longrightarrow> length (ad_bytes d) = unat (ad_len d)"
  by (simp add: element_ok_def ad_bytes_def)

lemma scan_element_append: "scan_element ty (length bs) (bs @ rest) r = scan_element ty (length bs) bs r"
proof -
  have "rd (bs @ rest) 0 = rd bs 0" "rd (bs @ rest) 1 = rd bs 1" if "2 \<le> length bs"
    using that by (auto simp: rd_def nth_append)
  moreover have "rd (bs @ rest) 2 = rd bs 2" if "3 \<le> length bs" using that by (auto simp: rd_def nth_append)
  moreover have "rd_range (bs @ rest) 2 3 = rd_range bs 2 3" if "5 \<le> length bs" using that by (auto simp: rd_range_def)
  moreover have "rd_range (bs @ rest) 0 (min (length bs) 128) = rd_range bs 0 (min (length bs) 128)"
    by (simp add: rd_range_def)
  ultimately show ?thesis
    by (cases "5 \<le> length bs"; cases "3 \<le> length bs") (simp_all add: scan_element_def Let_def cong: if_cong)
qed

text \<open>The scan of whole elements, one after the other.\<close>

fun scan_all :: "bt_data list \<Rightarrow> scan_found \<Rightarrow> scan_found option" where
  "scan_all [] r = Some r"
| "scan_all (d # ds) r = do { r \<leftarrow> scan_element (ad_type d) (length (ad_bytes d)) (ad_bytes d) r; scan_all ds r }"

lemma ad_loop_on_air:
  "\<forall>d\<in>set ds. element_ok d \<Longrightarrow> ad_loop (on_air ds) r = scan_all ds r"
proof (induction ds arbitrary: r)
  case Nil
  then show ?case by (simp add: on_air_def ad_loop.simps)
next
  case (Cons d ds)
  have d: "element_ok d" using Cons.prems by simp
  then have n: "unat (ad_len d + 1) = Suc (length (ad_bytes d))"
    by (simp add: bytes_length [OF d] unat_word_ariths) (simp add: element_ok_def)
  have "ad_loop (on_air (d # ds)) r
      = do { r \<leftarrow> scan_element (ad_type d) (length (ad_bytes d)) (ad_bytes d @ on_air ds) r; ad_loop (on_air ds) r }"
    by (subst ad_loop.simps) (simp add: on_air_def ad_structure_def n Let_def)
  then show ?case using Cons by (simp add: scan_element_append)
qed

section \<open>What the broadcaster advertises\<close>

lemma features_encryption:
  "features_loop subs i k f = Some f' \<Longrightarrow> and f' 1 = and f 1"
proof (induction subs i k f rule: features_loop.induct)
  case (2 subs i k f)
  have "and (or f 2) 1 = and f 1" "and (or f 4) 1 = and f 1" for f :: u8
    by (simp_all add: bit.conj_disj_distrib2)
  then show ?case using 2 by (auto simp: Let_def split: bind_splits if_splits)
qed simp

lemma encryption_bit:
  assumes "public_broadcast_features_set big st f = Some f'" and "big < length (create_params st)" and "and f 1 = 0"
  shows "and f' 1 = (if cp_encryption (create_params st ! big) then 1 else 0)"
proof -
  have "and (or f 1) (1 :: u8) = 1" by (simp add: bit.conj_disj_distrib2 assms(3))
  then show ?thesis
    using assms by (auto simp: public_broadcast_features_set_def rd_def split: bind_splits if_splits dest!: features_encryption)
qed

lemma announcement:
  assumes "pba_fill e big st buf = Some (pba, n)" and "big < length (create_params st)" and "buf ! 2 = 0"
  shows "n = 6 \<and> 10 \<le> length pba \<and> pba ! 0 = 0x56 \<and> pba ! 1 = 0x18
    \<and> and (pba ! 2) 1 = (if cp_encryption (create_params st ! big) then 1 else 0)"
proof -
  obtain p0 f0 f p1 m1 n1 m2 where s: "wr_range buf 0 (le16 BT_UUID_PBA_VAL) = Some p0" "rd p0 2 = Some f0"
      "public_broadcast_features_set big st f0 = Some f" "wr p0 2 f = Some p1"
      "metadata_u8_add (drop PBA_HEADER_SIZE p1) 0 METADATA_PARENTAL_RATING (PARENTAL_RATING e) = Some (m1, n1)"
      "metadata_u8_add m1 n1 METADATA_AUDIO_STATE 1 = Some (m2, n)"
      "wr (take PBA_HEADER_SIZE p1 @ m2) 3 (of_nat n) = Some pba"
    using assms(1) by (auto simp: pba_fill_def split: bind_splits)
  have le: "le16 BT_UUID_PBA_VAL = [0x56, 0x18]" by (simp add: le16_def)
  have p0: "p0 = [0x56, 0x18] @ drop 2 buf" "2 \<le> length buf"
    using s(1) unfolding le by (auto simp: wr_range_def numeral_2_eq_2 split: if_splits)
  have two: "2 < length p0" "f0 = p0 ! 2" using s(2) by (auto simp: rd_def split: if_splits)
  then have f0: "f0 = 0" "2 < length buf" using p0 assms(3) by (simp_all add: nth_append)
  have "p1 = p0[2 := f]" using s(4) by (auto simp: wr_def split: if_splits)
  then have p1: "p1 ! 0 = 0x56" "p1 ! 1 = 0x18" "p1 ! 2 = f" using p0(1) two(1) by (simp_all del: drop_eq_Nil)
  have n: "n1 = 3" "n = 6" "length m1 = length (drop 4 p1)" "3 \<le> length m1" "length m2 = length m1" "6 \<le> length m1"
    using s(5,6) by (auto simp: metadata_u8_add_def wr_range_def split: if_splits bind_splits)
  then have len: "10 \<le> length p1" by simp
  have "pba = (take 4 p1 @ m2)[3 := 6]" using s(7) n by (auto simp: wr_def split: if_splits)
  then have "pba ! k = p1 ! k" if "k < 3" for k using that len by (simp add: nth_append)
  moreover have "length pba = 4 + length m2" using \<open>pba = _\<close> len by simp
  ultimately show ?thesis
    using n len p1 encryption_bit [OF s(3) assms(2)] f0(1) by simp
qed

text \<open>The elements of a broadcaster: its company, its name, its identifier, its appearance, and the announcement.\<close>

definition announced :: "bytes \<Rightarrow> bytes \<Rightarrow> u32 \<Rightarrow> u16 \<Rightarrow> bytes option \<Rightarrow> bt_data list \<Rightarrow> bool" where
  "announced uuids name bid app pba ds \<longleftrightarrow> (\<exists>z. ds =
     [\<lparr>ad_type = BT_DATA_UUID16_ALL, ad_len = of_nat (length uuids), ad_data = uuids\<rparr>,
      \<lparr>ad_type = BT_DATA_BROADCAST_NAME, ad_len = of_nat (length name), ad_data = name @ z\<rparr>,
      \<lparr>ad_type = BT_DATA_SVC_DATA16, ad_len = 5, ad_data = [0x52, 0x18] @ le24 bid\<rparr>,
      \<lparr>ad_type = BT_DATA_GAP_APPEARANCE, ad_len = 2, ad_data = le16 app\<rparr>]
     @ (case pba of None \<Rightarrow> [] | Some d \<Rightarrow> [\<lparr>ad_type = BT_DATA_SVC_DATA16, ad_len = 10, ad_data = d\<rparr>]))"

lemma c_strlen_name: "0 \<notin> set name \<Longrightarrow> c_strlen (name @ 0 # z) = Some (length name)"
proof -
  assume "0 \<notin> set name"
  then have "takeWhile (\<lambda>c. c \<noteq> 0) (name @ 0 # z) = name" by (induction name) auto
  then show ?thesis by (simp add: c_strlen_def Let_def)
qed

lemma four_elements:
  assumes "3 \<le> length xs"
  shows "take 4 (x # xs[0 := a, 1 := b, 2 := c]) = [x, a, b, c]"
  using assms by (cases xs; cases "tl xs"; cases "tl (tl xs)") (auto simp: numeral_eq_Suc)

lemma five_elements:
  assumes "4 \<le> length xs"
  shows "take 5 (x # xs[0 := a, 1 := b, 2 := c, 3 := d]) = [x, a, b, c, d]"
proof -
  have "take 5 (x # xs[0 := a, 1 := b, 2 := c, 3 := d]) = take 4 (x # xs[0 := a, 1 := b, 2 := c]) @ [d]"
    using assms take_Suc_conv_app_nth [of 4 "x # xs[0 := a, 1 := b, 2 := c, 3 := d]"] by simp
  then show ?thesis using four_elements [of xs x a b c] assms by simp
qed

text \<open>The structure of the advertising data as the program has it at start: static, hence zero.\<close>

definition ext_data_fresh :: "ext_adv_data \<Rightarrow> bool" where
  "ext_data_fresh d \<longleftrightarrow> length (brdcst_id_buf d) = 5 \<and> length (brdcst_appearance_buf d) = 2
     \<and> set (brdcst_name_buf d) \<subseteq> {0} \<and> pba_buf d ! 2 = 0"

definition announcement_ok :: "bsrc_env \<Rightarrow> nat \<Rightarrow> bsrc \<Rightarrow> bytes option \<Rightarrow> bool" where
  "announcement_ok e big st pba = (case pba of
     None \<Rightarrow> \<not> auracast e
   | Some p \<Rightarrow> auracast e \<and> 10 \<le> length p \<and> p ! 0 = 0x56 \<and> p ! 1 = 0x18
       \<and> and (p ! 2) 1 = (if cp_encryption (create_params st ! big) then 1 else 0))"

lemma source_elements:
  assumes "broadcast_source_ext_adv_populate e big rand fixed bid d adv vacant st = Some (ret, d', adv', st')" and "0 \<le> ret"
    and "length (brdcst_id_buf d) = 5" and "length (brdcst_appearance_buf d) = 2" and "pba_buf d ! 2 = 0"
    and "c_strlen (brdcst_name_buf d) = Some k" and "length (create_params st) = BIG_MAX e" and "vacant \<le> length adv"
    and "fst rand \<le> 0"
  shows "\<exists>a b c pba. a = \<lparr>ad_type = BT_DATA_BROADCAST_NAME, ad_len = of_nat k, ad_data = brdcst_name_buf d\<rparr>
    \<and> b = \<lparr>ad_type = BT_DATA_SVC_DATA16, ad_len = 5, ad_data = [0x52, 0x18] @ le24 (stored_broadcast_id st')\<rparr>
    \<and> c = \<lparr>ad_type = BT_DATA_GAP_APPEARANCE, ad_len = 2, ad_data = le16 (DEVICE_APPEARANCE e)\<rparr>
    \<and> announcement_ok e big st pba \<and> nat ret \<le> vacant
    \<and> (case pba of None \<Rightarrow> ret = 3 \<and> adv' = adv[0 := a, 1 := b, 2 := c]
       | Some p \<Rightarrow> ret = 4 \<and> adv' = adv[0 := a, 1 := b, 2 := c,
           3 := \<lparr>ad_type = BT_DATA_SVC_DATA16, ad_len = 10, ad_data = p\<rparr>])"
proof -
  let ?bid = "if fixed then bid else snd rand"
  let ?st = "st\<lparr>stored_broadcast_id := ?bid\<rparr>"
  have id: "wr_range (brdcst_id_buf d) 0 (le16 BT_UUID_BROADCAST_AUDIO_VAL) = Some (0x52 # 0x18 # drop 2 (brdcst_id_buf d))"
      "wr_range (0x52 # 0x18 # drop 2 (brdcst_id_buf d)) 2 (le24 ?bid) = Some (0x52 # 0x18 # le24 ?bid)"
    and app: "wr_range (brdcst_appearance_buf d) 0 (le16 (DEVICE_APPEARANCE e)) = Some (le16 (DEVICE_APPEARANCE e))"
  proof -
    have le: "le16 BT_UUID_BROADCAST_AUDIO_VAL = [0x52, 0x18]" by (simp add: le16_def)
    show "wr_range (brdcst_id_buf d) 0 (le16 BT_UUID_BROADCAST_AUDIO_VAL) = Some (0x52 # 0x18 # drop 2 (brdcst_id_buf d))"
      using assms(3) unfolding le by (simp add: wr_range_def, simp add: numeral_2_eq_2)
    show "wr_range (0x52 # 0x18 # drop 2 (brdcst_id_buf d)) 2 (le24 ?bid) = Some (0x52 # 0x18 # le24 ?bid)"
      using assms(3) by (simp add: wr_range_def le24_def)
    show "wr_range (brdcst_appearance_buf d) 0 (le16 (DEVICE_APPEARANCE e)) = Some (le16 (DEVICE_APPEARANCE e))"
      using assms(4) by (simp add: wr_range_def le16_def)
  qed
  have len: "length (le24 v) = 3" "length (le16 w) = 2" for v w by (simp_all add: le16_def le24_def)
  let ?a = "\<lparr>ad_type = BT_DATA_BROADCAST_NAME, ad_len = of_nat k, ad_data = brdcst_name_buf d\<rparr>"
  let ?b = "\<lparr>ad_type = BT_DATA_SVC_DATA16, ad_len = 5, ad_data = [0x52, 0x18] @ le24 ?bid\<rparr>"
  let ?c = "\<lparr>ad_type = BT_DATA_GAP_APPEARANCE, ad_len = 2, ad_data = le16 (DEVICE_APPEARANCE e)\<rparr>"
  note run = assms(1) [unfolded broadcast_source_ext_adv_populate_def]
  have big: "big < BIG_MAX e"
  proof (rule ccontr)
    assume "\<not> big < BIG_MAX e"
    then show False using run assms(2) by simp
  qed
  have one: "0 < k" "0 < vacant"
  proof -
    show v: "0 < vacant"
    proof (rule ccontr)
      assume "\<not> 0 < vacant"
      then show False using run assms(2) big by simp
    qed
    show "0 < k"
    proof (rule ccontr)
      assume "\<not> 0 < k"
      then show False using run assms(2,6) big v by (simp add: bt_mgmt_adv_buffer_put_def)
    qed
  qed
  have put: "bt_mgmt_adv_buffer_put vacant n ty x i xs = Some (0, i + 1, xs[i := \<lparr>ad_type = ty, ad_len = of_nat n, ad_data = x\<rparr>])"
    if "0 < n" "i < vacant" "length xs = length adv" for n ty x i xs
    using that assms(8) by (simp add: bt_mgmt_adv_buffer_put_def wr_def)
  have full: "bt_mgmt_adv_buffer_put vacant n ty x i xs = Some (- ENOMEM, i, xs)" if "0 < n" "vacant \<le> i" for n ty x i xs
    using that by (simp add: bt_mgmt_adv_buffer_put_def)
  have rand: "(\<not> fixed \<and> fst rand \<noteq> 0) = False"
  proof (rule ccontr)
    assume "\<not> ?thesis"
    then show False using run assms(2,6,9) big one by (simp add: put)
  qed
  let ?adv1 = "adv[0 := ?a]" and ?adv2 = "adv[0 := ?a, 1 := ?b]" and ?adv3 = "adv[0 := ?a, 1 := ?b, 2 := ?c]"
  have two: "1 < vacant"
  proof (rule ccontr)
    assume "\<not> 1 < vacant"
    then show False using run assms(2,6) big one by (simp add: rand put full id len Let_def)
  qed
  have three: "2 < vacant"
  proof (rule ccontr)
    assume "\<not> 2 < vacant"
    then show False using run assms(2,6) big one two by (simp add: rand put full id app len Let_def)
  qed
  show ?thesis
  proof (cases "auracast e")
    case False
    have "ret = 3 \<and> adv' = ?adv3 \<and> st' = ?st"
      using run assms(2,6) big one two three False
      by (simp add: rand put id app len Let_def, auto simp: numeral_2_eq_2)
    then show ?thesis
      using three False
      by (intro exI [of _ ?a] exI [of _ ?b] exI [of _ ?c] exI [of _ None]) (simp add: announcement_ok_def)
  next
    case True
    obtain p m where p: "pba_fill e big ?st (pba_buf d) = Some (p, m)"
    proof (cases "pba_fill e big ?st (pba_buf d)")
      case None
      then show ?thesis using run assms(2,6) big one two three True by (simp add: rand put id app len Let_def)
    next
      case (Some q)
      then show ?thesis using that by (cases q) simp
    qed
    have m: "m = 6" "announcement_ok e big st (Some p)"
      using announcement [OF p _ assms(5)] big assms(7) True by (simp_all add: announcement_ok_def)
    have four: "3 < vacant"
    proof (rule ccontr)
      assume "\<not> 3 < vacant"
      then show False using run assms(2,6) big one two three True p m(1) by (simp add: rand put full id app len Let_def)
    qed
    have "ret = 4 \<and> adv' = ?adv3[3 := \<lparr>ad_type = BT_DATA_SVC_DATA16, ad_len = 10, ad_data = p\<rparr>] \<and> st' = ?st"
      using run assms(2,6) big one two three four True p m(1)
      by (simp add: rand put id app len Let_def, auto simp: numeral_2_eq_2 numeral_3_eq_3)
    then show ?thesis
      using four m(2)
      by (intro exI [of _ ?a] exI [of _ ?b] exI [of _ ?c] exI [of _ "Some p"]) simp
  qed
qed

lemma populate_announces:
  assumes "ext_adv_populate e big rand room uuids d adv st = Some (0, ext, n, st')" and "ext_data_fresh d"
    and "0 \<notin> set (adv_name e)" and "length (create_params st) = BIG_MAX (p_src e)" and "fst rand \<le> 0"
  shows "\<exists>pba. announced (uuids @ le16 (MANUFACTURER_ID e)) (adv_name e) (stored_broadcast_id st')
      (DEVICE_APPEARANCE (p_src e)) pba (take n ext) \<and> announcement_ok (p_src e) big st pba"
proof -
  note run = assms(1) [unfolded ext_adv_populate_def]
  let ?name = "adv_name e" and ?u = "uuids @ le16 (MANUFACTURER_ID e)"
  have room: "length ?name + 1 \<le> length (brdcst_name_buf d)" using run by (auto split: if_splits)
  let ?buf = "?name @ drop (length ?name) (brdcst_name_buf d)"
  have buf: "wr_range (brdcst_name_buf d) 0 ?name = Some ?buf" using room by (simp add: wr_range_def)
  have zero: "drop (length ?name) (brdcst_name_buf d) = 0 # drop (length ?name + 1) (brdcst_name_buf d)"
  proof -
    have "brdcst_name_buf d ! length ?name \<in> set (brdcst_name_buf d)" using room by simp
    then have "brdcst_name_buf d ! length ?name = 0" using assms(2) by (auto simp: ext_data_fresh_def)
    then show ?thesis using room Cons_nth_drop_Suc [of "length ?name" "brdcst_name_buf d"] by simp
  qed
  have uuid: "bt_mgmt_manufacturer_uuid_populate room (MANUFACTURER_ID e) uuids = (0, ?u)"
    using run room by (auto simp: buf bt_mgmt_manufacturer_uuid_populate_def split: if_splits)
  obtain ret d' sub st1 where src: "broadcast_source_ext_adv_populate (p_src e) big rand (id_fixed e)
      (if id_fixed e then id_value e else 0) (d\<lparr>brdcst_name_buf := ?buf\<rparr>) (drop 1 adv) (length adv - 1) st = Some (ret, d', sub, st1)"
      "0 \<le> ret" "st' = st1" "n = 1 + nat ret"
      "wr (take 1 adv @ sub) 0 \<lparr>ad_type = BT_DATA_UUID16_ALL, ad_len = of_nat (length ?u), ad_data = ?u\<rparr> = Some ext"
    using run room by (auto simp: buf uuid split: bind_splits if_splits prod.splits)
  have strlen: "c_strlen (brdcst_name_buf (d\<lparr>brdcst_name_buf := ?buf\<rparr>)) = Some (length ?name)"
    unfolding zero using c_strlen_name [OF assms(3)] by simp
  obtain a b c pba where abc: "a = \<lparr>ad_type = BT_DATA_BROADCAST_NAME, ad_len = of_nat (length ?name), ad_data = ?buf\<rparr>"
      "b = \<lparr>ad_type = BT_DATA_SVC_DATA16, ad_len = 5, ad_data = [0x52, 0x18] @ le24 (stored_broadcast_id st')\<rparr>"
      "c = \<lparr>ad_type = BT_DATA_GAP_APPEARANCE, ad_len = 2, ad_data = le16 (DEVICE_APPEARANCE (p_src e))\<rparr>"
      "announcement_ok (p_src e) big st pba" "nat ret \<le> length adv - 1"
      "case pba of None \<Rightarrow> ret = 3 \<and> sub = (drop 1 adv)[0 := a, 1 := b, 2 := c]
       | Some p \<Rightarrow> ret = 4 \<and> sub = (drop 1 adv)[0 := a, 1 := b, 2 := c,
           3 := \<lparr>ad_type = BT_DATA_SVC_DATA16, ad_len = 10, ad_data = p\<rparr>]"
    using source_elements [OF src(1,2) _ _ _ strlen assms(4) _ assms(5)] assms(2) src(3) by (auto simp: ext_data_fresh_def)
  have adv: "adv \<noteq> []" using abc(5,6) by (auto split: option.splits)
  then have ext: "ext = \<lparr>ad_type = BT_DATA_UUID16_ALL, ad_len = of_nat (length ?u), ad_data = ?u\<rparr> # sub"
    using src(5) by (cases adv) (auto simp: wr_def split: if_splits)
  show ?thesis
  proof (cases pba)
    case None
    then have len: "3 \<le> length (drop 1 adv)" and "n = 4" using abc(5,6) src(4) by simp_all
    then have "take n ext = [\<lparr>ad_type = BT_DATA_UUID16_ALL, ad_len = of_nat (length ?u), ad_data = ?u\<rparr>, a, b, c]"
      using None abc(6) ext four_elements [OF len] by simp
    then show ?thesis
      using None abc(1-4) by (intro exI [of _ None]) (auto simp: announced_def)
  next
    case (Some p)
    then have len: "4 \<le> length (drop 1 adv)" and "n = 5" using abc(5,6) src(4) by simp_all
    then have "take n ext = [\<lparr>ad_type = BT_DATA_UUID16_ALL, ad_len = of_nat (length ?u), ad_data = ?u\<rparr>, a, b, c,
        \<lparr>ad_type = BT_DATA_SVC_DATA16, ad_len = 10, ad_data = p\<rparr>]"
      using Some abc(6) ext five_elements [OF len] by simp
    then show ?thesis
      using Some abc(1-4) by (intro exI [of _ "Some p"]) (auto simp: announced_def)
  qed
qed

section \<open>What the receiver finds\<close>

lemma le24_back: "get_le24 (le24 v ! 0) (le24 v ! 1) (le24 v ! 2) = take_bit 24 v"
proof -
  have "get_le24 (ucast v) (ucast (drop_bit 8 v)) (ucast (drop_bit 16 v)) = take_bit 24 v"
  proof (rule bit_word_eqI)
    fix n assume "n < LENGTH(32)"
    then consider "n < 8" | "8 \<le> n" "n < 16" | "16 \<le> n" "n < 24" | "24 \<le> n" "n < 32" by fastforce
    then show "bit (get_le24 (ucast v) (ucast (drop_bit 8 v)) (ucast (drop_bit 16 v))) n = bit (take_bit 24 v) n"
      by cases (auto simp: get_le24_def bit_simps)
  qed
  then show ?thesis by (simp add: le24_def)
qed

text \<open>The scan of an announcement finds the name, the identifier and whether it is encrypted.\<close>

lemma scan_announced:
  assumes "announced uuids name bid app pba ds" and "announcement_ok e big st pba"
    and "length uuids \<le> 254" and "0 < length name" and "length name \<le> 128" and "length (sf_name r) = 129"
    and "sf_encrypted r = 0"
  shows "(\<forall>d\<in>set ds. element_ok d) \<and> scan_all ds r = Some (r\<lparr>sf_name := name @ drop (length name) (sf_name r),
      sf_name_len := length name, sf_id := le24 bid, sf_has_id := True,
      sf_encrypted := (if auracast e \<and> cp_encryption (create_params st ! big) then 1 else 0)\<rparr>)"
proof -
  let ?p = "case pba of None \<Rightarrow> [] | Some d \<Rightarrow> [\<lparr>ad_type = BT_DATA_SVC_DATA16, ad_len = 10, ad_data = d\<rparr>]"
  obtain z where ds: "ds =
     [\<lparr>ad_type = BT_DATA_UUID16_ALL, ad_len = of_nat (length uuids), ad_data = uuids\<rparr>,
      \<lparr>ad_type = BT_DATA_BROADCAST_NAME, ad_len = of_nat (length name), ad_data = name @ z\<rparr>,
      \<lparr>ad_type = BT_DATA_SVC_DATA16, ad_len = 5, ad_data = [0x52, 0x18] @ le24 bid\<rparr>,
      \<lparr>ad_type = BT_DATA_GAP_APPEARANCE, ad_len = 2, ad_data = le16 app\<rparr>] @ ?p"
    using assms(1) by (auto simp: announced_def)
  have lens: "unat (of_nat (length uuids) :: u8) = length uuids" "unat (of_nat (length name) :: u8) = length name"
    using assms(3,5) by (simp_all add: unat_of_nat)
  have ok: "\<forall>d\<in>set ds. element_ok d"
    using assms(2,3,5) by (auto simp: ds element_ok_def lens le16_def le24_def announcement_ok_def split: option.splits)
  have uuid: "get_le16 0x52 0x18 = BT_UUID_BROADCAST_AUDIO_VAL" "get_le16 0x56 0x18 = BT_UUID_PBA_VAL"
    by (simp_all add: get_le16_def)
  let ?r = "r\<lparr>sf_name := name @ drop (length name) (sf_name r), sf_name_len := length name, sf_id := le24 bid, sf_has_id := True\<rparr>"
  have four: "scan_all ds r = scan_all ?p ?r"
    using assms(4-6)
    by (simp add: ds ad_bytes_def lens scan_element_def rd_range_def wr_range_def rd_def uuid le24_def le16_def Let_def)
  have "scan_all ?p ?r = Some (?r\<lparr>sf_encrypted := (if auracast e \<and> cp_encryption (create_params st ! big) then 1 else 0)\<rparr>)"
  proof (cases pba)
    case None
    then show ?thesis using assms(2,7) by (simp add: announcement_ok_def)
  next
    case (Some p)
    then have p: "p ! 0 = 0x56" "p ! 1 = 0x18" "10 \<le> length p"
        "and (p ! 2) 1 = (if auracast e \<and> cp_encryption (create_params st ! big) then 1 else 0)"
      using assms(2) by (auto simp: announcement_ok_def)
    have "and (p ! 2) 1 \<noteq> 0 \<longleftrightarrow> auracast e \<and> cp_encryption (create_params st ! big)" using p(4) by simp
    then show ?thesis
      using Some p(1-3) by (simp add: ad_bytes_def scan_element_def rd_def uuid Let_def)
  qed
  then show ?thesis using four ok by simp
qed

lemma first_index_some:
  "first_index P xs = Some i \<longleftrightarrow> i < length xs \<and> P (xs ! i) \<and> (\<forall>j<i. \<not> P (xs ! j))"
proof (induction xs arbitrary: i)
  case Nil
  then show ?case by (simp add: first_index_def)
next
  case (Cons x xs)
  have "first_index P (x # xs) = (if P x then Some 0 else map_option Suc (first_index P xs))"
    by (simp add: first_index_def Let_def)
  then show ?case using Cons by (cases i) (auto simp: nth_Cons split: nat.splits)
qed

lemma first_index_none: "first_index P xs = None \<longleftrightarrow> (\<forall>x\<in>set xs. \<not> P x)"
proof -
  have "length (takeWhile (\<lambda>x. \<not> P x) xs) < length xs \<longleftrightarrow> (\<exists>x\<in>set xs. P x)" by (induction xs) auto
  then show ?thesis by (simp add: first_index_def Let_def)
qed

text \<open>A cached result is looked up again, whether it replaced an entry, took a free one or evicted the first.\<close>

lemma lookup_cached:
  assumes "cache_scan_result a i b cache = Some c"
  shows "lookup_broadcast_id a i c = b"
proof -
  let ?P = "\<lambda>c. sc_valid c \<and> sc_addr c = a \<and> sc_sid c = i"
  have "\<exists>k x. c = cache[k := x] \<and> k < length cache \<and> ?P x \<and> sc_broadcast_id x = b \<and> (\<forall>j<k. \<not> ?P (cache ! j))"
  proof (cases "first_index ?P cache")
    case (Some k)
    then have "c = cache[k := (cache ! k)\<lparr>sc_broadcast_id := b\<rparr>]" using assms by (simp add: cache_scan_result_def)
    moreover have "k < length cache" "?P (cache ! k)" "\<forall>j<k. \<not> ?P (cache ! j)"
      using Some by (simp_all add: first_index_some)
    ultimately show ?thesis by (intro exI [of _ k] exI [of _ "(cache ! k)\<lparr>sc_broadcast_id := b\<rparr>"]) simp
  next
    case none: None
    then have no: "\<forall>j<k. \<not> ?P (cache ! j)" if "k < length cache" for k using that by (auto simp: first_index_none)
    show ?thesis
    proof (cases "first_index (\<lambda>c. \<not> sc_valid c) cache")
      case (Some k)
      let ?x = "\<lparr>sc_addr = a, sc_sid = i, sc_broadcast_id = b, sc_valid = True\<rparr>"
      have "k < length cache" "c = cache[k := ?x]"
        using assms none Some by (simp_all add: cache_scan_result_def) (simp add: first_index_some)
      then show ?thesis using no by (intro exI [of _ k] exI [of _ ?x]) simp
    next
      case None
      let ?x = "(cache ! 0)\<lparr>sc_addr := a, sc_sid := i, sc_broadcast_id := b\<rparr>"
      have "0 < length cache" "c = cache[0 := ?x]"
        using assms none None by (auto simp: cache_scan_result_def rd_def wr_def split: if_splits)
      moreover have "sc_valid (cache ! 0)" using None calculation(1) by (simp add: first_index_none)
      ultimately show ?thesis by (intro exI [of _ 0] exI [of _ ?x]) simp
    qed
  qed
  then obtain k x where k: "c = cache[k := x]" "k < length cache" "?P x" "sc_broadcast_id x = b" "\<forall>j<k. \<not> ?P (cache ! j)"
    by blast
  then have "first_index ?P c = Some k" by (simp add: first_index_some)
  then show ?thesis using k by (simp add: lookup_broadcast_id_def)
qed

section \<open>Example\<close>

definition example_snk_env :: snk_env where
  "example_snk_env = \<lparr>k_le = t_le example_tx, k_location = 1, RX_STREAMS_MAX = 2, snk_encrypted = False, SNK_KEY = [],
     csip_member = False, scan_delegator = False, csip_test_data = False, SIRK = [], SNK_APPEARANCE = 0x0841\<rparr>"

definition example_sink_env :: "unit sink_env" where
  "example_sink_env = \<lparr>k_snk = example_snk_env, k_syse = example_sys, k_rxe = example_rx_env\<rparr>"

definition zero_info :: audio_codec_info where
  "zero_info = \<lparr>ci_id = 0, ci_cid = 0, ci_vid = 0, ci_frequency = 0, ci_frame_duration_us = 0, ci_chan_allocation = 0,
     ci_octets_per_sdu = 0, ci_bitrate = 0, ci_blocks_per_sdu = 0, ci_pd = 0\<rparr>"

definition no_addr :: bt_addr where
  "no_addr = \<lparr>addr_type = 0, addr_val = replicate 6 0\<rparr>"

definition example_sink :: "unit sink_app" where
  "example_sink = \<lparr>bis_encryption_key = replicate 16 0, broadcast_code_received = False, broadcast_sink = None,
     audio_streams = [example_stream\<lparr>stream_ep := None\<rparr>], streams_p = [None], stream_ops_set = [False],
     codec_infos = [zero_info], bis_index_bitfield = 0, pa_sync_stored = None, sync_stream_cnt = 0,
     receive_cb_set = False, init_routine_completed = False, paused = False, prev_broadcast_id = 0,
     bis_cleanup_queued = False, snk_initialized = False, csip_rank = 0, csip_sirk = [], csip_rsi_adv_data = [],
     snk_chan = [], sink_calls = [], receiver_state = 0, pa_data_notify_enabled = False, current_conn = None,
     command_busy = False, current_volume = 0, current_mute = 0, pa_sync_handle = None, pa_sync_addr = no_addr,
     pa_sync_sid = 0, pa_sync_broadcast_id = 0, snk_strm_state = STATE_PAUSED, bis_sync_queued = False,
     bis_sync_code = replicate 16 0, bis_sync_has_code = False,
     scan_cache = replicate 16 \<lparr>sc_addr = no_addr, sc_sid = 0, sc_broadcast_id = 0, sc_valid = False\<rparr>,
     prev_pa_data = replicate 255 0, prev_pa_data_len = 0, pa_data_received_once = False, gatt_out = [],
     k_sys = sys_boot example_sys example_leds (), k_rx = (example_rx None [])\<lparr>rx_initialized := False\<rparr>\<rparr>"

definition example_sink_answers :: sink_main_answers where
  "example_sink_answers = \<lparr>sa_peripherals = 0, sa_fw_info = 0, sa_bt_mgmt = 0, sa_subscribers = 0, sa_link = 0,
     sa_enable = \<lparr>se_pacs = 0, se_location = 0, se_supported = 0, se_available = 0, se_capability = 0, se_acceptor = 0,
       se_rsi = (0, []), se_delegator = 0\<rparr>, sa_adv_start = 0\<rparr>"

text \<open>One stream, left, with frames of 60 octets; and the same that says it has two.\<close>

definition example_cfg :: codec_cfg where
  "example_cfg = \<lparr>codec_id = 6, x_freq = 8, x_frame_dur = 1, x_octets_per_frame = 60, x_frame_blocks_per_sdu = 1,
     x_chan_allocation = (0, 1)\<rparr>"

definition example_base :: "int \<Rightarrow> base_info" where
  "example_base n = \<lparr>base_subgroups = [\<lparr>sub_cfg = (0, example_cfg), sub_codec_id = (0, 6, 0, 0), sub_bis_count = n,
       sub_bises = [\<lparr>bis_index = 1, bis_cfg = (0, example_cfg)\<rparr>]\<rparr>], base_ret = 0, base_pres_delay = 10000\<rparr>"

definition no_del :: del_answer where
  "no_del = \<lparr>da_ret = 0, da_term = False, da_stop = 0\<rparr>"

definition no_answers :: evt_answers where
  "no_answers = \<lparr>ea_stop = 0, ea_del = no_del, ea_cleanup = 0\<rparr>"

definition cmd_ok :: cmd_answers where
  "cmd_ok = \<lparr>ca_scan = 0, ca_stop = 0, ca_del = no_del, ca_create = (0, 3)\<rparr>"

lemma example_checks:
  "le_audio_bitrate_check (k_le example_snk_env) example_cfg" "le_audio_freq_check (k_le example_snk_env) example_cfg"
  by (simp_all add: le_audio_bitrate_check_def le_audio_freq_check_def le_audio_octets_per_frame_get_def le_audio_freq_hz_get_def
      LE_AUDIO_SDU_SIZE_OCTETS_def CAPABILITY_FREQ_def cap_freq_def example_snk_env_def example_tx_def example_cfg_def)

lemma example_base_received:
  assumes "codec_infos st = [zero_info]" and "bis_index_bitfield st = 0" and "\<not> init_routine_completed st"
  shows "\<exists>ci q. base_recv_cb example_snk_env 0 (example_base 1) st
     = Some (st\<lparr>sync_stream_cnt := 0, codec_infos := [ci], bis_index_bitfield := 1, snk_chan := q\<rparr>)"
proof -
  have info: "\<exists>ci'. get_codec_info (k_le example_snk_env) example_cfg ci = Some ci' \<and> ci_chan_allocation ci' = 1" for ci
    by (simp add: get_codec_info_def le_audio_bitrate_get_def le_audio_duration_us_get_def le_audio_octets_per_frame_get_def 
       c_int_def c_div_def example_snk_env_def example_tx_def example_cfg_def Let_def split_beta)
  obtain c1 where c1: "get_codec_info (k_le example_snk_env) example_cfg zero_info = Some c1" using info by blast
  let ?c1 = "c1\<lparr>ci_id := 6, ci_cid := 0, ci_vid := 0\<rparr>"
  obtain c2 where c2: "get_codec_info (k_le example_snk_env) example_cfg ?c1 = Some c2" "ci_chan_allocation c2 = 1"
    using info by blast
  have env: "k_location example_snk_env = 1" "RX_STREAMS_MAX example_snk_env = 2" by (simp_all add: example_snk_env_def)
  show ?thesis
    using assms
    by (intro exI [of _ "c2\<lparr>ci_pd := 10000\<rparr>"]
        exI [of _ "snk_chan st @ [\<lparr>sm_event = LE_AUDIO_EVT_CONFIG_RECEIVED, sm_pa_sync = None\<rparr>]"])
      (simp add: base_recv_cb_def example_base_def example_checks c1 c2 env base_subgroup_cb_def bis_per_subgroup_parse_def
        rd_def wr_def snk_event_publish_def Let_def POPCOUNT_def)
qed

lemma example_sink_wf: "sink_wf example_sink_env 4"
  using example_sys_ok example_rx_env_ok by (simp add: sink_wf_def example_sink_env_def example_snk_env_def)

lemma example_sink_boot: "sink_boot example_sink_env example_leds example_sink"
proof -
  have "led_ok (s_dp example_sys) (dp_boot (s_dp example_sys) example_leds)"
    using example_externals(2) by (simp add: led_ok_def dp_boot_def example_sys_def)
  moreover have "displays example_leds (led_audio_sync_status (e_board (s_dp example_sys))) LED_COLOR_OFF"
    using example_leds_dark by (simp add: example_sys_def example_env_def)
  ultimately show ?thesis
    by (auto simp: sink_boot_def example_sink_def example_sink_env_def zero_info_def example_rx_def)
qed

text \<open>What \<open>main\<close> leaves of the example.\<close>

definition started :: "unit audio_system \<Rightarrow> unit sink_app" where
  "started sys = example_sink\<lparr>k_sys := sys, k_rx := example_rx None [], receive_cb_set := True, csip_rank := 1,
     stream_ops_set := [True], streams_p := [Some 0], snk_initialized := True\<rparr>"

lemma example_sink_main: "\<exists>sys. sink_main example_sink_env example_sink_answers example_sink = Some (started sys)"
proof -
  obtain sys where sys: "audio_system_init example_sys (sys_boot example_sys example_leds ()) = Some (0, sys)"
    using example_sys_init by blast
  have "example_rx None [] = (example_rx None [])\<lparr>rx_initialized := True\<rparr>" by (simp add: example_rx_def)
  then have "sink_main example_sink_env example_sink_answers example_sink = Some (started sys)"
    by (simp add: sink_main_def example_sink_answers_def example_sink_def example_sink_env_def example_snk_env_def sys
        le_audio_rx_init_def example_rx_def broadcast_sink_enable_def delegator_register_def csip_rank_of_def started_def
        Let_def)
  then show ?thesis by blast
qed

section \<open>Properties\<close>

text \<open>C6: A receiver finds a broadcaster. Whatever the configuration with which the source application
  fills its extended advertising (a name of 1 to 128 octets without zeros): the receiver, searching for a
  connected phone, scans the advertised octets and sends the phone exactly one notification, with the
  advertiser's SID and address, the name, the three octets of the broadcast identifier the source has stored,
  and the encryption flag (set iff the public announcement is sent and the group is encrypted); and the identifier
  is what it looks up when the phone selects that advertiser.\<close>

theorem advertised_source_found:
  assumes "ext_adv_populate e big rand room uuids d adv src = Some (0, ext, n, src')" and "ext_data_fresh d"
    and "0 \<notin> set (adv_name e)" and "0 < length (adv_name e)" and "length (adv_name e) \<le> 128" and "length uuids \<le> 252"
    and "length (create_params src) = BIG_MAX (p_src e)" and "fst rand \<le> 0"
    and "current_conn st = Some conn" and "in_state AC_STATE_SEARCHING st" and "scan_cache st \<noteq> []"
    and "length (addr_val (si_addr info)) = 6"
  shows "\<exists>st'. scan_recv_cb info (on_air (take n ext)) st = Some st'
     \<and> gatt_out st' = gatt_out st @ [(conn, 4, be16 0x0C01 @ be16 (of_nat (length (adv_name e) + 14))
          @ [si_sid info, addr_type (si_addr info)] @ addr_val (si_addr info) @ [of_nat (length (adv_name e))] @ adv_name e
          @ le24 (stored_broadcast_id src')
          @ [if auracast (p_src e) \<and> cp_encryption (create_params src ! big) then 1 else 0, si_rssi info])]
     \<and> lookup_broadcast_id (si_addr info) (si_sid info) (scan_cache st') = take_bit 24 (stored_broadcast_id src')"
proof -
  let ?start = "\<lparr>sf_name = replicate 129 0, sf_name_len = 0, sf_id = [0, 0, 0], sf_has_id = False, sf_encrypted = 0\<rparr>"
  let ?enc = "if auracast (p_src e) \<and> cp_encryption (create_params src ! big) then 1 else 0 :: u8"
  let ?name = "adv_name e @ drop (length (adv_name e)) (replicate 129 0)"
  let ?found = "\<lparr>sf_name = ?name, sf_name_len = length (adv_name e), sf_id = le24 (stored_broadcast_id src'), sf_has_id = True,
      sf_encrypted = ?enc\<rparr>"
  obtain pba where pba: "announced (uuids @ le16 (MANUFACTURER_ID e)) (adv_name e) (stored_broadcast_id src')
      (DEVICE_APPEARANCE (p_src e)) pba (take n ext)" "announcement_ok (p_src e) big src pba"
    using populate_announces [OF assms(1-3,7,8)] by blast
  have "length (uuids @ le16 (MANUFACTURER_ID e)) \<le> 254" using assms(6) by (simp add: le16_def)
  then have scan: "ad_loop (on_air (take n ext)) ?start = Some ?found"
    using scan_announced [OF pba _ assms(4,5), of ?start] ad_loop_on_air by simp
  obtain c where c: "cache_scan_result (si_addr info) (si_sid info) (take_bit 24 (stored_broadcast_id src')) (scan_cache st) = Some c"
    using cache_ok [of "scan_cache st"] assms(11) by blast
  have name: "rd_range ?name 0 (length (adv_name e)) = Some (adv_name e)" by (simp add: rd_range_def)
  have len: "length (le24 v) = 3" for v by (simp add: le24_def)
  have again: "get_le24 (le24 v ! 0) (le24 v ! Suc 0) (le24 v ! 2) = take_bit 24 v" for v using le24_back by simp
  show ?thesis
    using assms(4,5,9,10,12) lookup_cached [OF c]
    by (simp add: scan_recv_cb_def scan again add.commute c name len auracast_gatt_send_response_def del: drop_replicate)
qed

theorem advertised_source_found_witness:
  "\<exists>ext n src' st'. scan_recv_cb \<lparr>si_addr = no_addr, si_sid = 5, si_rssi = 200\<rparr> (on_air (take n ext))
       (example_sink\<lparr>current_conn := Some 7, receiver_state := 1\<rparr>) = Some st'
     \<and> ext_adv_populate example_app 0 (0, 0) 128 []
         \<lparr>brdcst_id_buf = replicate 5 0, brdcst_appearance_buf = replicate 2 0, brdcst_name_buf = replicate 32 0,
          pba_buf = replicate 20 0\<rparr>
         (replicate 5 \<lparr>ad_type = 0, ad_len = 0, ad_data = []\<rparr>) example_src = Some (0, ext, n, src')
     \<and> gatt_out st' = [(7, 4, be16 0x0C01 @ be16 16 @ [5, 0, 0, 0, 0, 0, 0, 0, 2, 0x50, 0x41]
          @ le24 (stored_broadcast_id src') @ [0, 200])]"
proof -
  let ?d = "\<lparr>brdcst_id_buf = replicate 5 0, brdcst_appearance_buf = replicate 2 0, brdcst_name_buf = replicate 32 0,
      pba_buf = replicate 20 0\<rparr>"
  let ?st = "example_sink\<lparr>current_conn := Some 7, receiver_state := 1\<rparr>"
  let ?info = "\<lparr>si_addr = no_addr, si_sid = 5, si_rssi = 200\<rparr>"
  have app: "adv_name example_app = [0x50, 0x41]" "EXT_ADV_BUF_MAX example_app = 5" "BIG_MAX (p_src example_app) = 1"
      "\<not> auracast (p_src example_app)" "a_rand example_answers = (0, 0)"
    by (simp_all add: example_app_defs)
  obtain ext n src' where ext: "ext_adv_populate example_app 0 (0, 0) 128 [] ?d
      (replicate 5 \<lparr>ad_type = 0, ad_len = 0, ad_data = []\<rparr>) example_src = Some (0, ext, n, src')"
    using example_ext_adv [of example_src] unfolding app by blast
  have fresh: "ext_data_fresh ?d" by (simp add: ext_data_fresh_def)
  have "length (create_params example_src) = 1" by (simp add: example_src_def)
  moreover have "in_state AC_STATE_SEARCHING ?st" by (simp add: in_state_def)
  moreover have "scan_cache ?st \<noteq> []" "current_conn ?st = Some 7" "gatt_out ?st = []" by (simp_all add: example_sink_def)
  moreover have "addr_val (si_addr ?info) = [0, 0, 0, 0, 0, 0]" "addr_type (si_addr ?info) = 0"
    by (simp_all add: no_addr_def numeral_eq_Suc)
  ultimately have "\<exists>st'. scan_recv_cb ?info (on_air (take n ext)) ?st = Some st'
      \<and> gatt_out st' = [(7, 4, be16 0x0C01 @ be16 16 @ [5, 0, 0, 0, 0, 0, 0, 0, 2, 0x50, 0x41]
          @ le24 (stored_broadcast_id src') @ [0, 200])]"
    using advertised_source_found [OF ext fresh, of ?st 7 ?info] by (auto simp: app)
  then show ?thesis using ext by blast
qed

text \<open>C8: The receiver is safe, and keeps its parts in step. After \<open>main\<close>, for every sequence of commands of the
  phone, scan and periodic advertising reports, callbacks of the host, messages, received frames, and
  interrupts of the audio hardware: no array is left, no assertion fails and no error check trips; the
  stream state is \<open>STREAMING\<close> exactly while the audio runs, and then with the decoder enabled; the data of
  the periodic advertising are passed on only while it is synchronised, on a known handle; and the queue of
  received frames keeps its bound. The sequences are those in which: commands, elements and
  addresses have the lengths they say; a received BASE has at most as many streams as the receiver, with
  indices from one, and rates of 16, 24 or 48 kHz where a stream says its own (more streams overrun a
  table, another rate trips an error check); the callbacks' publications succeed; streams start only
  after the receiver asked for them; when a frame comes, two streams are synchronised, or one and
  no half of a frame waits (otherwise an error check can trip), it is as in the property of the
  reception, and its channel allocation is known; each frame is decoded by sw_codec_decode when the
  datapath takes it up (after an error an uninitialised size is read); and the interrupts are as in the datapath's
  property (only while the stream runs, with no jump of the time reference by more than about two seconds during
  calibration). The libraries and drivers of the audio system are assumed to succeed.\<close>

theorem receiver_safe:
  assumes "sink_wf e mtu" and "sink_boot e l st" and "sink_main e a st = Some st0" and "sink_evs_ok e mtu evs st0"
  shows "\<exists>st'. sink_run e evs st0 = Some st'
     \<and> (snk_strm_state st' = STATE_STREAMING \<longleftrightarrow> stream_started (sys_dp (k_sys st')))
     \<and> (stream_started (sys_dp (k_sys st')) \<longrightarrow> dec_enabled (decoder (m_config (sys_codec (k_sys st')))))
     \<and> (pa_data_notify_enabled st' \<longrightarrow> in_state AC_STATE_PA_SYNCED st' \<and> pa_sync_handle st' \<noteq> None)
     \<and> length (ble_q_rx (k_rx st')) \<le> BLE_RX_PACKET_NUM (k_rxe e)"
proof -
  obtain st' where "sink_run e evs st0 = Some st'" "sink_inv e mtu st'"
    using sink_run_inv [OF assms(1) sink_main_inv [OF assms(1-3)] assms(4)] by blast
  then show ?thesis
    by (auto simp: sink_inv_def core_inv_def link_inv_def sys_inv_def sys_running_def dec_ready_def rx_inv_def)
qed

theorem receiver_safe_witness:
  "\<exists>st0 st'. sink_main example_sink_env example_sink_answers example_sink = Some st0
     \<and> sink_run example_sink_env
         [Sink_mgmt (Mgmt_connected 7), Sink_write cmd_ok 7 [0, 2, 0, 0], Sink_base 0 (example_base 1), Sink_syncable 0 9 False,
          Sink_started 0 (Some 0), Sink_msg no_answers, Sink_msg no_answers] st0 = Some st'
     \<and> (snk_strm_state st' = STATE_STREAMING \<longleftrightarrow> stream_started (sys_dp (k_sys st')))"
proof -
  obtain sys where main: "sink_main example_sink_env example_sink_answers example_sink = Some (started sys)"
    using example_sink_main by blast
  let ?evs = "[Sink_mgmt (Mgmt_connected 7), Sink_write cmd_ok 7 [0, 2, 0, 0], Sink_base 0 (example_base 1), Sink_syncable 0 9 False,
      Sink_started 0 (Some 0), Sink_msg no_answers, Sink_msg no_answers]"
  let ?s1 = "(started sys)\<lparr>current_conn := Some 7\<rparr>"
  let ?s2 = "?s1\<lparr>receiver_state := 1, gatt_out := [(7, 4, [8, 2, 0, 1, 0]), (7, 4, [12, 6, 0, 1, 1])]\<rparr>"
  have 1: "sink_step example_sink_env (Sink_mgmt (Mgmt_connected 7)) (started sys) = Some ?s1"
    by (simp add: sink_step_def bt_mgmt_msg_sub_thread_def)
  have 2: "sink_step example_sink_env (Sink_write cmd_ok 7 [0, 2, 0, 0]) ?s1 = Some ?s2"
    by (simp add: sink_step_def write_cmd_req_def get_be16_def gatt_cmd_handler_def handle_search_start_req_def
        auracast_gatt_send_response_def notify_state_transition_def notify_conn_def in_state_def enter_state_def
        started_def example_sink_def cmd_ok_def be16_def Let_def)
  obtain ci q where base: "base_recv_cb example_snk_env 0 (example_base 1) ?s2
      = Some (?s2\<lparr>sync_stream_cnt := 0, codec_infos := [ci], bis_index_bitfield := 1, snk_chan := q\<rparr>)"
    using example_base_received [of ?s2] by (auto simp: started_def example_sink_def)
  let ?s3 = "?s2\<lparr>sync_stream_cnt := 0, codec_infos := [ci], bis_index_bitfield := 1, snk_chan := q\<rparr>"
  let ?s4 = "?s3\<lparr>sink_calls := [Sink_sync 1 (replicate 16 0)], prev_broadcast_id := 9, init_routine_completed := True\<rparr>"
  have 3: "sink_step example_sink_env (Sink_base 0 (example_base 1)) ?s2 = Some ?s3"
    using base by (simp add: sink_step_def example_sink_env_def)
  have 4: "sink_step example_sink_env (Sink_syncable 0 9 False) ?s3 = Some ?s4"
    by (simp add: sink_step_def syncable_cb_def started_def example_sink_def example_sink_env_def example_snk_env_def)
  have base_ok: "base_ok (k_snk example_sink_env) (length (audio_streams ?s2)) (example_base 1)"
    by (simp add: base_ok_def example_base_def codec_bounded_def example_cfg_def example_sink_env_def example_snk_env_def
        example_tx_def rate_ok_def le_audio_freq_hz_get_def started_def example_sink_def)
  have asked: "sync_asked ?s4" "length (audio_streams ?s4) = 1"
    by (auto simp: sync_asked_def started_def example_sink_def)
  have "sink_evs_ok example_sink_env 4 ?evs (started sys)"
    unfolding sink_evs_ok.simps 1 2 3 4 option.case
    using base_ok asked by (simp add: sink_ev_ok_def honest_def get_be16_def split: option.split)
  then show ?thesis
    using receiver_safe [OF example_sink_wf example_sink_boot main, of ?evs] main by blast
qed

text \<open>
  The elements that a receiver gets for what was advertised: the octets that count. And the data it was sent last.
\<close>

definition received :: "bt_data list \<Rightarrow> bt_data list" where
  "received = map (\<lambda>d. d\<lparr>ad_data := ad_bytes d\<rparr>)"

definition last_pa_data :: "'x sink_app \<Rightarrow> bytes option" where
  "last_pa_data st = (if pa_data_received_once st then Some (take (unat (prev_pa_data_len st)) (prev_pa_data st)) else None)"

lemma skip_elements:
  "list_all (\<lambda>d. ad_type d \<noteq> BT_DATA_VS) ds \<Longrightarrow> pa_recv_cb (ds @ ds') st = pa_recv_cb ds' st"
  by (induction ds) (simp_all add: pa_data_parse_cb_def)

text \<open>What a report of data makes the receiver send.\<close>

definition pa_ntf :: "'x sink_app \<Rightarrow> bytes \<Rightarrow> (nat \<times> nat \<times> bytes) list" where
  "pa_ntf st d = (case current_conn st of None \<Rightarrow> []
     | Some c \<Rightarrow> if pa_data_notify_enabled st \<and> last_pa_data st \<noteq> Some d
         then [(c, 7, be16 AC_OP_PA_DATA_NTF @ be16 (of_nat (length d)) @ d)] else [])"

lemma pa_element:
  assumes "ad_type d = BT_DATA_VS" and "length (ad_data d) = unat (ad_len d)" and "length (prev_pa_data st) = PA_MAX_DATA_LEN"
  shows "\<exists>st'. pa_recv_cb [d] st = Some st' \<and> last_pa_data st' = Some (ad_data d) \<and> length (prev_pa_data st') = PA_MAX_DATA_LEN
     \<and> gatt_out st' = gatt_out st @ pa_ntf st (ad_data d)
     \<and> current_conn st' = current_conn st \<and> pa_data_notify_enabled st' = pa_data_notify_enabled st"
proof -
  have n: "length (ad_data d) \<le> 255" using assms(2) u8_less [of "ad_len d"] by simp
  have p: "length (take (unat (prev_pa_data_len st)) (prev_pa_data st)) = unat (prev_pa_data_len st)"
    using assms(3) u8_less [of "prev_pa_data_len st"] by simp
  have "take (unat (prev_pa_data_len st)) (prev_pa_data st) = ad_data d
      \<longleftrightarrow> ad_len d = prev_pa_data_len st \<and> ad_data d = take (length (ad_data d)) (prev_pa_data st)"
  proof
    assume eq: "take (unat (prev_pa_data_len st)) (prev_pa_data st) = ad_data d"
    then have "unat (ad_len d) = unat (prev_pa_data_len st)" using p assms(2) by metis
    then have "ad_len d = prev_pa_data_len st" by (simp add: word_unat_eq_iff)
    then show "ad_len d = prev_pa_data_len st \<and> ad_data d = take (length (ad_data d)) (prev_pa_data st)"
      using eq assms(2) by simp
  qed (use assms(2) in auto)
  then have same: "last_pa_data st = Some (ad_data d)
      \<longleftrightarrow> pa_data_received_once st \<and> ad_len d = prev_pa_data_len st \<and> ad_data d = take (length (ad_data d)) (prev_pa_data st)"
    by (simp add: last_pa_data_def)
  have rd: "rd_range (ad_data d) 0 (length (ad_data d)) = Some (ad_data d)"
      "rd_range (prev_pa_data st) 0 (length (ad_data d)) = Some (take (length (ad_data d)) (prev_pa_data st))"
      "wr_range (prev_pa_data st) 0 (ad_data d) = Some (ad_data d @ drop (length (ad_data d)) (prev_pa_data st))"
    using n assms(3) by (simp_all add: rd_range_def wr_range_def)
  have changed: "(if \<not> pa_data_received_once st \<or> ad_len d \<noteq> prev_pa_data_len st then Some True
      else do { old \<leftarrow> rd_range (prev_pa_data st) 0 (unat (ad_len d)); Some (ad_data d \<noteq> old) })
      = Some (last_pa_data st \<noteq> Some (ad_data d))"
    unfolding same assms(2) [symmetric] rd by auto
  let ?prev = "ad_data d @ drop (length (ad_data d)) (prev_pa_data st)"
  let ?st = "st\<lparr>prev_pa_data := ?prev, prev_pa_data_len := ad_len d, pa_data_received_once := True\<rparr>"
  let ?sent = "?st\<lparr>gatt_out := gatt_out st @ pa_ntf st (ad_data d)\<rparr>"
  have send: "(case current_conn ?st of None \<Rightarrow> ?st
      | Some c \<Rightarrow> if pa_data_notify_enabled ?st then auracast_gatt_send_pa_data c (ad_data d) ?st else ?st) = ?sent"
    if "last_pa_data st \<noteq> Some (ad_data d)"
    using that n by (simp add: auracast_gatt_send_pa_data_def pa_ntf_def split: option.split)
  have rd0: "rd_range (ad_data d) 0 (unat (ad_len d)) = Some (ad_data d)" using rd(1) assms(2) by simp
  have run: "pa_data_parse_cb d st = (if last_pa_data st = Some (ad_data d) then Some (False, st) else Some (False, ?sent))"
    using assms(1) send unfolding pa_data_parse_cb_def rd0 Option.bind.bind_lunit changed rd(3) Let_def
    by (cases "last_pa_data st = Some (ad_data d)") simp_all
  have once: "last_pa_data ?sent = Some (ad_data d)"
    using assms(2) by (simp add: last_pa_data_def)
  have len: "length ?prev = PA_MAX_DATA_LEN" using n assms(3) by simp
  show ?thesis
  proof (cases "last_pa_data st = Some (ad_data d)")
    case True
    then show ?thesis using assms(3) by (simp add: run pa_ntf_def split: option.split)
  next
    case False
    then show ?thesis using once len by (simp add: run)
  qed
qed

text \<open>C7: Data cross from the broadcaster to the phone, if they are new when they are reported. Whatever data
  of at most 252 octets the source's BLE adapter sets with success (its other element being the BASE, not
  manufacturer data), and however often its elements are reported to the receiver: at the first report a
  connected phone with notifications on is sent exactly these octets, unless they are the data the
  receiver has stored; the receiver then has stored them, and further reports of the same send
  nothing. It stores them also when it cannot send them: a phone that turns notifications on only after
  the first report is not sent the data that are on the air, for any number of further reports, until the
  broadcaster changes them.\<close>

theorem pa_data_reaches_phone:
  assumes "ble_adapter_set_data (bt_set_of verdict) s bt asid data dl = Some (0, s', bt')" and "wf_ble s"
    and "unat dl \<le> length data" and "list_all (\<lambda>d. ad_type d \<noteq> BT_DATA_VS) (base_elements s)"
    and "length (prev_pa_data st) = PA_MAX_DATA_LEN"
  shows "\<exists>st'. sink_run e (replicate (Suc k) (Sink_pa_data (received bt'))) st = Some st'
     \<and> gatt_out st' = gatt_out st @ (case current_conn st of None \<Rightarrow> []
          | Some c \<Rightarrow> if pa_data_notify_enabled st \<and> last_pa_data st \<noteq> Some (take (unat dl) data)
              then [(c, 7, be16 AC_OP_PA_DATA_NTF @ be16 (of_nat (unat dl)) @ take (unat dl) data)] else [])
     \<and> last_pa_data st' = Some (take (unat dl) data)
     \<and> (let on = handle_pa_data_ntf_start_req c' st' in
         \<exists>t. sink_run e (replicate j (Sink_pa_data (received bt'))) on = Some t \<and> gatt_out t = gatt_out on)"
proof -
  obtain adv where adv: "ext_adv s = Some adv" using assms(1) by (auto simp: ble_adapter_set_data_def split: option.splits)
  have small: "unat dl \<le> PA_MAX_DATA_SIZE" using assms(1) adv by (auto simp: ble_adapter_set_data_def split: if_splits)
  obtain s2 buf where set: "ble_adapter_set_data (bt_set_of verdict) s bt asid data dl =
       (let (r, bt') = bt_set_of verdict adv (base_elements s @ [\<lparr>ad_type = BT_DATA_VS, ad_len = dl, ad_data = buf\<rparr>]) bt
        in Some (r, s2, bt'))" "take (unat dl) buf = take (unat dl) data"
    using set_data_ok [OF assms(2) adv small assms(3), of "bt_set_of verdict" bt asid] by blast
  let ?data = "take (unat dl) data"
  let ?d = "\<lparr>ad_type = BT_DATA_VS, ad_len = dl, ad_data = ?data\<rparr>"
  have "bt' = base_elements s @ [\<lparr>ad_type = BT_DATA_VS, ad_len = dl, ad_data = buf\<rparr>]"
    using assms(1) set(1) by (auto simp: bt_set_of_def Let_def split: if_splits)
  then have bt: "received bt' = received (base_elements s) @ [?d]" using set(2) by (simp add: received_def ad_bytes_def)
  have "list_all (\<lambda>d. ad_type d \<noteq> BT_DATA_VS) (received (base_elements s))"
    using assms(4) by (auto simp: received_def list_all_iff)
  then have step: "sink_step e (Sink_pa_data (received bt')) t = pa_recv_cb [?d] t" for t
    unfolding bt by (simp only: sink_step_def sink_event.case skip_elements)
  have d: "ad_type ?d = BT_DATA_VS" "length (ad_data ?d) = unat (ad_len ?d)" using assms(3) by simp_all
  have again: "\<exists>t'. sink_run e (replicate j (Sink_pa_data (received bt'))) t = Some t' \<and> gatt_out t' = gatt_out t
      \<and> last_pa_data t' = Some ?data \<and> length (prev_pa_data t') = PA_MAX_DATA_LEN"
    if "last_pa_data t = Some ?data" "length (prev_pa_data t) = PA_MAX_DATA_LEN" for j t
    using that
  proof (induction j arbitrary: t)
    case (Suc j)
    then obtain t1 where "pa_recv_cb [?d] t = Some t1" "last_pa_data t1 = Some ?data"
        "length (prev_pa_data t1) = PA_MAX_DATA_LEN" "gatt_out t1 = gatt_out t"
      using pa_element [OF d Suc.prems(2)] by (auto simp: pa_ntf_def split: option.splits)
    then show ?case using Suc.IH [of t1] step [of t] by simp
  qed simp
  obtain t where t: "pa_recv_cb [?d] st = Some t" "last_pa_data t = Some ?data"
      "length (prev_pa_data t) = PA_MAX_DATA_LEN" "gatt_out t = gatt_out st @ pa_ntf st ?data"
    using pa_element [OF d assms(5)] by auto
  obtain st' where st': "sink_run e (replicate (Suc k) (Sink_pa_data (received bt'))) st = Some st'"
      "gatt_out st' = gatt_out st @ pa_ntf st ?data" "last_pa_data st' = Some ?data"
      "length (prev_pa_data st') = PA_MAX_DATA_LEN"
    using again [OF t(2,3), of k] step [of st, unfolded t(1)] t(4) by auto
  let ?on = "handle_pa_data_ntf_start_req c' st'"
  have "last_pa_data ?on = Some ?data" "length (prev_pa_data ?on) = PA_MAX_DATA_LEN"
    using st'(3,4) by (auto simp: handle_pa_data_ntf_start_req_def auracast_gatt_send_response_def last_pa_data_def Let_def split: if_splits)
  from again [OF this, of j] have "\<exists>t. sink_run e (replicate j (Sink_pa_data (received bt'))) ?on = Some t \<and> gatt_out t = gatt_out ?on"
    by blast
  moreover have len: "length ?data = unat dl" using assms(3) by simp
  ultimately show ?thesis
    using st'(1-3) unfolding pa_ntf_def Let_def len by blast
qed

theorem pa_data_reaches_phone_witness:
  "\<exists>bt' st'. sink_run example_sink_env (replicate 3 (Sink_pa_data (received bt')))
       (example_sink\<lparr>current_conn := Some 7, pa_data_notify_enabled := True\<rparr>) = Some st'
     \<and> gatt_out st' = [(7, 7, [0x0C, 4, 0, 2, 7, 8])]"
proof -
  let ?s = "zephyr_ble_pa_adapter_set_ext_adv zephyr_ble_pa_adapter_create (Some 1)"
  let ?st = "example_sink\<lparr>current_conn := Some 7, pa_data_notify_enabled := True\<rparr>"
  have wf: "wf_ble ?s" by (intro set_ext_adv_wf wf_ble_create)
  have ready: "ext_adv ?s = Some 1" by (simp add: zephyr_ble_pa_adapter_set_ext_adv_def)
  have none: "base_elements ?s = []"
    by (simp add: base_elements_def zephyr_ble_pa_adapter_set_ext_adv_def zephyr_ble_pa_adapter_create_def)
  obtain s' bt' where set: "ble_adapter_set_data (bt_set_of (\<lambda>_ _. 0)) ?s [] 0 [7, 8] 2 = Some (0, s', bt')"
    using set_data_ok [OF wf ready, of 2 "[7, 8]" "bt_set_of (\<lambda>_ _. 0)" "[]" 0] by (auto simp: bt_set_of_def)
  have st: "current_conn ?st = Some 7" "pa_data_notify_enabled ?st" "length (prev_pa_data ?st) = PA_MAX_DATA_LEN"
      "gatt_out ?st = []" "last_pa_data ?st = None"
    by (simp_all add: example_sink_def last_pa_data_def)
  have "unat (2 :: u8) \<le> length [7 :: u8, 8]" "list_all (\<lambda>d. ad_type d \<noteq> BT_DATA_VS) (base_elements ?s)"
    unfolding none by simp_all
  from pa_data_reaches_phone [OF set wf this st(3), of example_sink_env 2 7 1]
  obtain st' where run: "sink_run example_sink_env (replicate (Suc 2) (Sink_pa_data (received bt'))) ?st = Some st'"
    and out: "gatt_out st' = gatt_out ?st @ (case current_conn ?st of None \<Rightarrow> []
        | Some c \<Rightarrow> if pa_data_notify_enabled ?st \<and> last_pa_data ?st \<noteq> Some (take (unat (2 :: u8)) [7, 8])
            then [(c, 7, be16 AC_OP_PA_DATA_NTF @ be16 (of_nat (unat (2 :: u8))) @ take (unat (2 :: u8)) [7, 8])] else [])"
    by blast
  have "gatt_out st' = [(7, 7, [0x0C, 4, 0, 2, 7, 8])]" unfolding out st by (simp add: be16_def)
  moreover have "(3 :: nat) = Suc 2" by simp
  ultimately show ?thesis using run by metis
qed

text \<open>C9: Everything the receiver sends its phone is a well-formed frame, whatever happens: for every
  sequence of events (honest or not) that runs, every notification has a header whose length field is the number
  of octets after it, fits the buffer of 512 octets, has an opcode of the response or notification range on
  the response attribute, and only the opcode of the advertising data on the attribute of those.\<close>

theorem notifications_well_formed:
  assumes "sink_run e evs st = Some st'" and "gatt_out st = []"
  shows "list_all frame_ok (gatt_out st')"
  using run_frames [OF assms(1)] assms(2) by (simp add: frames_ok_def)

theorem notifications_well_formed_witness:
  "\<exists>st'. sink_run example_sink_env [Sink_mgmt (Mgmt_connected 7), Sink_write cmd_ok 7 [0, 2, 0, 0], Sink_write cmd_ok 7 [0, 5, 0, 0]]
       example_sink = Some st'
     \<and> gatt_out st' = [(7, 4, [8, 2, 0, 1, 0]), (7, 4, [12, 6, 0, 1, 1]), (7, 4, [8, 5, 0, 1, 1])]
     \<and> list_all frame_ok (gatt_out st')"
proof -
  let ?s1 = "example_sink\<lparr>current_conn := Some 7\<rparr>"
  let ?s2 = "?s1\<lparr>receiver_state := 1, gatt_out := [(7, 4, [8, 2, 0, 1, 0]), (7, 4, [12, 6, 0, 1, 1])]\<rparr>"
  let ?s3 = "?s2\<lparr>gatt_out := [(7, 4, [8, 2, 0, 1, 0]), (7, 4, [12, 6, 0, 1, 1]), (7, 4, [8, 5, 0, 1, 1])]\<rparr>"
  have "sink_step example_sink_env (Sink_mgmt (Mgmt_connected 7)) example_sink = Some ?s1"
    by (simp add: sink_step_def bt_mgmt_msg_sub_thread_def)
  moreover have "sink_step example_sink_env (Sink_write cmd_ok 7 [0, 2, 0, 0]) ?s1 = Some ?s2"
    by (simp add: sink_step_def write_cmd_req_def get_be16_def gatt_cmd_handler_def handle_search_start_req_def
        auracast_gatt_send_response_def notify_state_transition_def notify_conn_def in_state_def enter_state_def
        example_sink_def cmd_ok_def be16_def Let_def)
  moreover have "sink_step example_sink_env (Sink_write cmd_ok 7 [0, 5, 0, 0]) ?s2 = Some ?s3"
    by (simp add: sink_step_def write_cmd_req_def get_be16_def gatt_cmd_handler_def handle_pa_sync_release_req_def
        auracast_gatt_send_response_def in_state_def example_sink_def be16_def Let_def)
  ultimately have run: "sink_run example_sink_env [Sink_mgmt (Mgmt_connected 7), Sink_write cmd_ok 7 [0, 2, 0, 0],
      Sink_write cmd_ok 7 [0, 5, 0, 0]] example_sink = Some ?s3"
    by (simp only: sink_run.simps Option.bind.bind_lunit)
  have "gatt_out example_sink = []" by (simp add: example_sink_def)
  from notifications_well_formed [OF run this] show ?thesis using run by (intro exI [of _ ?s3]) simp
qed

section \<open>Errors\<close>

text \<open>The first start of the audio is reported as a failure although it is made. The sink is not paused at start,
  and \<open>broadcast_sink_start\<close> refuses to start what is not paused: the work item for a phone's first start
  request creates the sink, answers \<open>FAIL\<close> and leaves the receiver free for other commands; when the
  broadcaster's information arrives, the audio is synchronised all the same.\<close>

lemma first_start_reported_failed:
  assumes "bis_sync_queued st" and "\<not> bis_sync_has_code st" and "\<not> paused st" and "pa_sync_handle st = Some h"
    and "fst (ps_create a) = 0" and "broadcast_sink st = None" and "\<not> is_any_active_streams st"
    and "current_conn st = Some c" and "bis_index_bitfield st \<noteq> 0" and "\<not> snk_encrypted e"
  shows "\<exists>st'. bis_sync_work_handler a st = Some st' \<and> command_busy st' = command_busy st
     \<and> gatt_out st' = gatt_out st @ [(c, 4, [0x08, 0x06, 0, 1, AC_RESULT_FAIL])]
     \<and> sink_calls (syncable_cb e 0 i False st') = sink_calls st
         @ [Sink_create h (pa_sync_broadcast_id st), Sink_sync (bis_index_bitfield st) (bis_encryption_key st)]"
  using assms
  by (simp add: bis_sync_work_handler_def broadcast_sink_pa_sync_set_def broadcast_sink_start_def is_any_active_streams_def
      notify_conn_def auracast_gatt_send_response_def be16_def syncable_cb_def Let_def)

theorem first_start_reported_failed_witness:
  "\<exists>st'. bis_sync_work_handler \<lparr>ps_stop = 0, ps_delete1 = 0, ps_delete2 = 0, ps_create = (0, 1)\<rparr>
       (example_sink\<lparr>bis_sync_queued := True, pa_sync_handle := Some 3, current_conn := Some 7, bis_index_bitfield := 1\<rparr>) = Some st'
     \<and> gatt_out st' = [(7, 4, [0x08, 0x06, 0, 1, 1])]
     \<and> sink_calls (syncable_cb example_snk_env 0 9 False st') = [Sink_create 3 0, Sink_sync 1 (replicate 16 0)]"
proof -
  let ?st = "example_sink\<lparr>bis_sync_queued := True, pa_sync_handle := Some 3, current_conn := Some 7, bis_index_bitfield := 1\<rparr>"
  let ?a = "\<lparr>ps_stop = 0, ps_delete1 = 0, ps_delete2 = 0, ps_create = (0, 1)\<rparr>"
  have "bis_sync_queued ?st" "\<not> bis_sync_has_code ?st" "\<not> paused ?st" "pa_sync_handle ?st = Some 3"
      "fst (ps_create ?a) = 0" "broadcast_sink ?st = None" "\<not> is_any_active_streams ?st" "current_conn ?st = Some 7"
      "bis_index_bitfield ?st \<noteq> 0" "\<not> snk_encrypted example_snk_env"
    by (simp_all add: example_sink_def is_any_active_streams_def example_snk_env_def)
  from first_start_reported_failed [OF this, of 9]
  have "\<exists>st'. bis_sync_work_handler ?a ?st = Some st' \<and> gatt_out st' = gatt_out ?st @ [(7, 4, [0x08, 0x06, 0, 1, 1])]
      \<and> sink_calls (syncable_cb example_snk_env 0 9 False st')
          = sink_calls ?st @ [Sink_create 3 (pa_sync_broadcast_id ?st), Sink_sync (bis_index_bitfield ?st) (bis_encryption_key ?st)]"
    by blast
  moreover have "gatt_out ?st = []" "sink_calls ?st = []" "pa_sync_broadcast_id ?st = 0" "bis_index_bitfield ?st = 1"
      "bis_encryption_key ?st = replicate 16 0"
    by (simp_all add: example_sink_def)
  ultimately show ?thesis by simp
qed

text \<open>C17: A broadcaster that stops leaves the receiver in a state that its phone cannot leave by the audio commands. The
  message that the streams have stopped pauses the audio, but the bit of the audio synchronisation stays:
  a start request is answered \<open>FAIL\<close> and queues nothing, and so is a stop request, the sink having no stream to
  stop, whatever the host would say.\<close>

theorem stopped_source_blocks_audio:
  assumes "sink_inv e mtu st" and "sys_externals_ok (k_syse e)"
    and "snk_chan st = m # ms" and "sm_event m = LE_AUDIO_EVT_NOT_STREAMING"
    and "in_state AC_STATE_PA_SYNCED st" and "in_state AC_STATE_BIS_SYNCED st" and "\<not> is_any_active_streams st"
  shows "\<exists>st'. snk_le_audio_msg_sub_thread (k_syse e) a st = Some st' \<and> snk_strm_state st' = STATE_PAUSED
     \<and> \<not> stream_started (sys_dp (k_sys st'))
     \<and> handle_bis_sync_start_req c params n st' = Some (auracast_gatt_send_response c 0x0806 [AC_RESULT_FAIL] st')
     \<and> handle_bis_sync_stop_req (k_syse e) stop c st' = Some (auracast_gatt_send_response c 0x0807 [AC_RESULT_FAIL] st')"
proof -
  let ?st = "st\<lparr>snk_chan := ms\<rparr>"
  have inv: "sink_inv e mtu ?st" using pop_inv [OF assms(1,3)] assms(4) by simp
  obtain st' where st': "sink_audio_stop (k_syse e) ?st = Some st'" "sink_inv e mtu st'" "snk_strm_state st' = STATE_PAUSED"
    using audio_stop_inv [OF inv assms(2)] by blast
  have same: "receiver_state st' = receiver_state st" "audio_streams st' = audio_streams st" "paused st' = paused st"
    using st'(1) by (auto simp: sink_audio_stop_def Let_def split: if_splits bind_splits)
  have "snk_le_audio_msg_sub_thread (k_syse e) a st = Some st'"
    using st'(1) assms(3,4) by (simp add: snk_le_audio_msg_sub_thread_def Let_def)
  moreover have "\<not> stream_started (sys_dp (k_sys st'))"
    using st'(2,3) by (simp add: sink_inv_def core_inv_def sys_running_def)
  moreover have "in_state m' st' = in_state m' st" for m' using same by (simp add: in_state_def)
  moreover have "broadcast_sink_stop stop st' = (- EALREADY, st')"
    using assms(7) same by (simp add: broadcast_sink_stop_def is_any_active_streams_def)
  ultimately show ?thesis
    using st'(3) assms(5,6) by (simp add: handle_bis_sync_start_req_def handle_bis_sync_stop_req_def Let_def)
qed

theorem stopped_source_blocks_audio_witness:
  "\<exists>st st'. snk_le_audio_msg_sub_thread example_sys no_answers st = Some st' \<and> snk_strm_state st' = STATE_PAUSED
     \<and> handle_bis_sync_start_req 7 [] 0 st' = Some (auracast_gatt_send_response 7 0x0806 [1] st')
     \<and> handle_bis_sync_stop_req example_sys 0 7 st' = Some (auracast_gatt_send_response 7 0x0807 [1] st')"
proof -
  obtain sys where main: "sink_main example_sink_env example_sink_answers example_sink = Some (started sys)"
    using example_sink_main by blast
  let ?m = "\<lparr>sm_event = LE_AUDIO_EVT_NOT_STREAMING, sm_pa_sync = None\<rparr>"
  let ?st = "(started sys)\<lparr>receiver_state := 6, pa_sync_handle := Some 3, snk_chan := [?m]\<rparr>"
  have "sink_inv example_sink_env 4 (started sys)"
    using sink_main_inv [OF example_sink_wf example_sink_boot main] .
  then have inv: "sink_inv example_sink_env 4 ?st"
    by (simp add: sink_inv_def core_inv_def link_inv_def started_def example_sink_def sync_asked_def config_queued_def)
  have ext: "sys_externals_ok (k_syse example_sink_env)" using example_sys_ok by (simp add: example_sink_env_def)
  have "snk_chan ?st = ?m # []" "sm_event ?m = LE_AUDIO_EVT_NOT_STREAMING" "in_state AC_STATE_PA_SYNCED ?st"
      "in_state AC_STATE_BIS_SYNCED ?st" "\<not> is_any_active_streams ?st"
    by (simp_all add: in_state_def started_def example_sink_def is_any_active_streams_def)
  from stopped_source_blocks_audio [OF inv ext this, of no_answers 7 "[]" 0 0]
  show ?thesis by (auto simp: example_sink_env_def)
qed

lemma be16_back: "get_be16 (be16 v ! 0) (be16 v ! 1) = v"
  by (simp add: be16_def get_be16_back)

text \<open>C18: A phone can make the receiver read past a command. The length of the parameters is taken from the
  command and not compared with what was written: a command that says it has the parameters its
  handler wants (eight octets to synchronise, one for volume or mute, four for the output) but carries fewer is
  read beyond its end.\<close>

theorem command_reads_past_end:
  assumes "(oc, k) \<in> {(0x0004, 8), (0x000A, 1), (0x000B, 1), (0x000D, 4)}" and "k \<le> unat len" and "length params < k"
    and "\<not> command_busy st"
  shows "write_cmd_req e a c (be16 oc @ be16 len @ params) st = None"
proof -
  have hd: "length (be16 v) = 2" for v by (simp add: be16_def)
  have bytes: "(be16 oc @ be16 len @ params) ! 0 = be16 oc ! 0" "(be16 oc @ be16 len @ params) ! 1 = be16 oc ! 1"
      "(be16 oc @ be16 len @ params) ! 2 = be16 len ! 0" "(be16 oc @ be16 len @ params) ! 3 = be16 len ! 1"
      "drop 4 (be16 oc @ be16 len @ params) = params"
    by (simp_all add: be16_def)
  have sync: "handle_pa_sync_start_req s d cr c params (unat len) st = None" if "8 \<le> unat len" "length params < 8" for s d cr
  proof -
    have "rd_range params 2 6 = None" using that(2) by (simp add: rd_range_def)
    then show ?thesis
      using that(1) by (cases "rd params 0"; cases "rd params 1") (simp_all add: handle_pa_sync_start_req_def del: One_nat_def)
  qed
  have vol: "handle_volume_set_req c [] (unat len) st = None" "handle_mute_set_req c [] (unat len) st = None" if "1 \<le> unat len"
    using that by (simp_all add: handle_volume_set_req_def handle_mute_set_req_def rd_def)
  have aud: "handle_audio_output_req c params (unat len) st = None" if "4 \<le> unat len" "length params < 4"
    using that by (simp add: handle_audio_output_req_def rd_range_def)
  have none: "gatt_cmd_handler e a c oc params (unat len) st = None"
  proof -
    consider "oc = 0x0004" "k = 8" | "oc = 0x000A" "k = 1" | "oc = 0x000B" "k = 1" | "oc = 0x000D" "k = 4"
      using assms(1) by auto
    then show ?thesis
    proof cases
      case 1
      then show ?thesis using sync assms(2-4) by (simp add: gatt_cmd_handler_def)
    next
      case 2
      then show ?thesis using vol(1) assms(2-4) by (simp add: gatt_cmd_handler_def)
    next
      case 3
      then show ?thesis using vol(2) assms(2-4) by (simp add: gatt_cmd_handler_def)
    next
      case 4
      then show ?thesis using aud assms(2-4) by (simp add: gatt_cmd_handler_def)
    qed
  qed
  have "\<not> length (be16 oc @ be16 len @ params) < 4" by (simp add: hd)
  then show ?thesis unfolding write_cmd_req_def bytes be16_back none Let_def by simp
qed

theorem command_reads_past_end_witness:
  "write_cmd_req example_sys cmd_ok 7 [0, 10, 0, 1] example_sink = None"
proof -
  have "\<not> command_busy example_sink" by (simp add: example_sink_def)
  then show ?thesis
    using command_reads_past_end [of 10 1 1 "[]" example_sink example_sys cmd_ok 7] by (simp add: be16_def)
qed

lemma info_loop_overruns:
  "i \<le> length infos \<Longrightarrow> length infos < i + k \<Longrightarrow> info_loop e c cod i k infos = None"
proof (induction k arbitrary: i infos)
  case (Suc k)
  show ?case
  proof (cases "i = length infos")
    case True
    then show ?thesis by (simp add: rd_def)
  next
    case False
    then have "i < length infos" using Suc.prems(1) by simp
    then have "info_loop e c cod (Suc i) k (infos[i := ci]) = None" for ci using Suc by simp
    then show ?thesis using \<open>i < length infos\<close> by (simp add: rd_def wr_def split: bind_splits)
  qed
qed simp

text \<open>C19: A broadcaster can make the receiver write past its codec table. The number of streams that a received
  BASE says is not compared with the number the receiver has: a subgroup of the supported codec with more
  makes the loop over them leave the array.\<close>

theorem base_overruns_streams:
  assumes "\<not> init_routine_completed st" and "base_subgroups base = sg # sgs" and "fst (sub_cfg sg) = 0"
    and "fst (sub_codec_id sg) = 0" and "le_audio_bitrate_check (k_le e) (snd (sub_cfg sg))"
    and "le_audio_freq_check (k_le e) (snd (sub_cfg sg))" and "int (length (codec_infos st)) < sub_bis_count sg"
  shows "base_recv_cb e pub base st = None"
proof -
  have "info_loop (k_le e) (snd (sub_cfg sg)) (snd (sub_codec_id sg)) 0 (nat (sub_bis_count sg)) (codec_infos st) = None"
    by (rule info_loop_overruns) (use assms(7) in simp_all)
  then show ?thesis
    using assms by (simp add: base_recv_cb_def base_subgroup_cb_def split_beta Let_def)
qed

theorem base_overruns_streams_witness:
  "base_recv_cb example_snk_env 0 (example_base 2) example_sink = None"
proof -
  have "\<not> init_routine_completed example_sink" "length (codec_infos example_sink) = 1" by (simp_all add: example_sink_def)
  then show ?thesis
    using base_overruns_streams [of example_sink "example_base 2" _ "[]" example_snk_env 0] example_checks
    by (simp add: example_base_def)
qed

end
