(* ===== verification/SdCard.thy ===== *)
theory SdCard
  imports Prelude "HOL-Library.Sublist"
begin

text \<open>
  The SD card module (\<open>src/modules/sd_card.c\<close>): paths, files, listing of directories and the search
  of the card for files whose name contains a pattern.

  The file system and the disk driver are Zephyr's. They are the parameter \<open>sd_env\<close>: each of their
  calls is a function of its arguments and of the file object, so that a property says what it needs
  of them as a hypothesis. A directory is the list of the results that \<open>fs_readdir\<close> will give;
  behind its end the empty name is read. Paths are C strings, modelled by their characters without
  the terminator; a path buffer is the string it holds and its size, and writing past the size is
  \<open>None\<close>.
\<close>

section \<open>The file system\<close>

datatype fs_open_flags = FS_O_READ | FS_O_CREATE_WRITE_APPEND

record fs_dirent =
  dirent_is_dir :: bool
  dirent_name :: string

record 'f sd_env =
  FATFS_MAX_LFN :: nat
  FR_INVALID_NAME :: int
  fs_file_init :: 'f
  fs_open :: "fs_open_flags \<Rightarrow> string \<Rightarrow> 'f \<Rightarrow> int \<times> 'f"
  fs_read :: "nat \<Rightarrow> 'f \<Rightarrow> int \<times> u8 list \<times> 'f"
  fs_seek_end :: "'f \<Rightarrow> int \<times> 'f"
  fs_write :: "u8 list \<Rightarrow> 'f \<Rightarrow> int \<times> 'f"
  fs_close :: "'f \<Rightarrow> int \<times> 'f"
  fs_opendir :: "string \<Rightarrow> int + (int \<times> fs_dirent) list"
  fs_closedir :: int
  disk_access_init :: int
  disk_sector_count :: int
  disk_sector_size :: int
  fs_mount :: int
  slab_content :: "nat \<Rightarrow> string"

abbreviation (input) ENAMETOOLONG :: int where "ENAMETOOLONG \<equiv> 91"

definition SD_ROOT_PATH :: string where "SD_ROOT_PATH = ''/SD:/''"
definition sd_root_path :: string where "sd_root_path = ''/SD:''"
definition SD_CARD_LEVELS_MAX :: nat where "SD_CARD_LEVELS_MAX = 8"
definition SD_CARD_BUF_SIZE :: nat where "SD_CARD_BUF_SIZE = 700"

definition PATH_MAX_LEN :: "'f sd_env \<Rightarrow> nat" where
  "PATH_MAX_LEN e = 4 * (FATFS_MAX_LFN e div 4)"

section \<open>C strings\<close>

abbreviation NUL :: char where "NUL \<equiv> CHR 0x00"
abbreviation CR :: char where "CR \<equiv> CHR 0x0D"
abbreviation LF :: char where "LF \<equiv> CHR 0x0A"

text \<open>The string that a character array holds; without a terminator it is read past its end.\<close>

definition c_string :: "char list \<Rightarrow> string option" where
  "c_string a = (if NUL \<in> set a then Some (takeWhile (\<lambda>c. c \<noteq> NUL) a) else None)"

definition strcat :: "nat \<Rightarrow> string \<Rightarrow> string \<Rightarrow> string option" where
  "strcat room s t = (if length s + length t < room then Some (s @ t) else None)"

fun strstr :: "string \<Rightarrow> string \<Rightarrow> bool" where
  "strstr [] needle \<longleftrightarrow> needle = []"
| "strstr (c # cs) needle \<longleftrightarrow> prefix needle (c # cs) \<or> strstr cs needle"

text \<open>\<open>strtok_r\<close>: the token, and what is left behind the separator that ended it.\<close>

definition strtok_r :: "char set \<Rightarrow> string \<Rightarrow> (string \<times> string) option" where
  "strtok_r seps s =
     (let s' = dropWhile (\<lambda>c. c \<in> seps) s in
      if s' = [] then None
      else Some (takeWhile (\<lambda>c. c \<notin> seps) s', drop 1 (dropWhile (\<lambda>c. c \<notin> seps) s')))"

definition cr_lf_remove :: "string \<Rightarrow> string" where
  "cr_lf_remove s = takeWhile (\<lambda>c. c \<noteq> CR \<and> c \<noteq> LF) s"

lemma strtok_r_shorter: "strtok_r seps s = Some (t, r) \<Longrightarrow> length r < length s"
  using length_dropWhile_le [of "\<lambda>c. c \<in> seps" s]
    length_dropWhile_le [of "\<lambda>c. c \<notin> seps" "dropWhile (\<lambda>c. c \<in> seps) s"]
  by (cases s) (auto simp: strtok_r_def Let_def split: if_splits)

section \<open>Files\<close>

record sd_card =
  sd_init_success :: bool
  num_files_added :: nat
  slab_A_free :: nat
  slab_B_free :: nat
  slab_A_allocs :: nat

definition sd_card_open_write_close ::
  "'f sd_env \<Rightarrow> string \<Rightarrow> u8 list \<Rightarrow> nat \<Rightarrow> sd_card \<Rightarrow> (int \<times> nat) option" where
  "sd_card_open_write_close e filename data_bytes n s =
     (if \<not> sd_init_success s then Some (- ENODEV, n)
      else if PATH_MAX_LEN e < length filename then Some (- ENAMETOOLONG, n)
      else do {
        path \<leftarrow> strcat (PATH_MAX_LEN e + 1) SD_ROOT_PATH filename;
        let (ret, f) = fs_open e FS_O_CREATE_WRITE_APPEND path (fs_file_init e);
        if ret \<noteq> 0 then Some (ret, n)
        else let (ret, f) = fs_seek_end e f in
          if ret \<noteq> 0 then Some (ret, n)
          else do {
            bs \<leftarrow> rd_range data_bytes 0 n;
            let (ret, f) = fs_write e bs f;
            if ret < 0 then Some (ret, n)
            else Some (fst (fs_close e f), nat ret) } })"

definition sd_card_open_read_close ::
  "'f sd_env \<Rightarrow> string \<Rightarrow> u8 list \<Rightarrow> nat \<Rightarrow> sd_card \<Rightarrow> (int \<times> u8 list \<times> nat) option" where
  "sd_card_open_read_close e filename buf n s =
     (if \<not> sd_init_success s then Some (- ENODEV, buf, n)
      else if PATH_MAX_LEN e < length filename then Some (- FR_INVALID_NAME e, buf, n)
      else do {
        path \<leftarrow> strcat (PATH_MAX_LEN e + 1) SD_ROOT_PATH filename;
        let (ret, f) = fs_open e FS_O_READ path (fs_file_init e);
        if ret \<noteq> 0 then Some (ret, buf, n)
        else let (ret, bs, f) = fs_read e n f in
          if ret < 0 then Some (ret, buf, n)
          else do {
            buf \<leftarrow> wr_range buf 0 bs;
            Some (fst (fs_close e f), buf, nat ret) } })"

text \<open>The file object is initialised anew when the name passes the checks, whatever it held.\<close>

definition sd_card_open :: "'f sd_env \<Rightarrow> string \<Rightarrow> 'f \<Rightarrow> sd_card \<Rightarrow> (int \<times> 'f) option" where
  "sd_card_open e filename f s =
     (if \<not> sd_init_success s then Some (- ENODEV, f)
      else if FATFS_MAX_LFN e < length filename then Some (- ENAMETOOLONG, f)
      else if PATH_MAX_LEN e < length SD_ROOT_PATH + length filename then Some (- EINVAL, f)
      else do {
        path \<leftarrow> strcat (PATH_MAX_LEN e + 1) SD_ROOT_PATH
                (take (PATH_MAX_LEN e - length SD_ROOT_PATH) filename);
        Some (fs_open e FS_O_READ path (fs_file_init e)) })"

text \<open>The bytes read go to the buffer that starts at \<open>off\<close> of the array \<open>buf\<close>.\<close>

definition sd_card_read ::
  "'f sd_env \<Rightarrow> u8 list \<Rightarrow> nat \<Rightarrow> nat \<Rightarrow> 'f \<Rightarrow> (int \<times> u8 list \<times> nat \<times> 'f) option" where
  "sd_card_read e buf off n f =
     (let (ret, bs, f) = fs_read e n f in
      if ret < 0 then Some (ret, buf, n, f)
      else do {
        buf \<leftarrow> wr_range buf off bs;
        Some (0, buf, nat ret, f) })"

definition sd_card_close :: "'f sd_env \<Rightarrow> 'f \<Rightarrow> int \<times> 'f" where
  "sd_card_close e f = fs_close e f"

definition sd_card_init :: "'f sd_env \<Rightarrow> sd_card \<Rightarrow> int \<times> sd_card" where
  "sd_card_init e s =
     (if disk_access_init e \<noteq> 0 then (- ENODEV, s)
      else if disk_sector_count e \<noteq> 0 then (disk_sector_count e, s)
      else if disk_sector_size e \<noteq> 0 then (disk_sector_size e, s)
      else if fs_mount e \<noteq> 0 then (fs_mount e, s)
      else (0, s\<lparr>sd_init_success := True\<rparr>))"

section \<open>Listing a directory\<close>

definition dirent_text :: "bool \<Rightarrow> fs_dirent \<Rightarrow> string" where
  "dirent_text extra_info entry =
     (if extra_info
      then ''['' @ (if dirent_is_dir entry then ''DIR '' else ''FILE'') @ '']'' @ [CHR 0x09]
        @ dirent_name entry @ [CR, LF]
      else dirent_name entry @ [CR, LF])"

text \<open>\<open>snprintk\<close> writes at most the given room, the terminator included.\<close>

definition snprintk :: "char list \<Rightarrow> nat \<Rightarrow> nat \<Rightarrow> string \<Rightarrow> char list option" where
  "snprintk buf off room t =
     (if room = 0 then Some buf else wr_range buf off (take (room - 1) t @ [NUL]))"

text \<open>The reading loop: the error that left the function early, or the buffer and what was used of it.\<close>

fun list_entries ::
  "bool \<Rightarrow> nat \<Rightarrow> (int \<times> fs_dirent) list \<Rightarrow> char list option \<Rightarrow> nat
   \<Rightarrow> (int \<times> char list option \<times> nat) option" where
  "list_entries extra_info buf_size [] buf used = Some (0, buf, used)"
| "list_entries extra_info buf_size ((ret, entry) # rs) buf used =
     (if ret \<noteq> 0 then Some (ret, buf, used)
      else if dirent_name entry = [] then Some (0, buf, used)
      else (case buf of
        None \<Rightarrow> list_entries extra_info buf_size rs buf used
      | Some b \<Rightarrow>
          let t = dirent_text extra_info entry in do {
            b \<leftarrow> snprintk b used (buf_size - used) t;
            if buf_size - used \<le> length t then Some (- EINVAL, Some b, used)
            else list_entries extra_info buf_size rs (Some b) (used + length t) }))"

definition sd_card_list_files ::
  "'f sd_env \<Rightarrow> string option \<Rightarrow> char list option \<Rightarrow> nat \<Rightarrow> bool \<Rightarrow> sd_card
   \<Rightarrow> (int \<times> char list option \<times> nat) option" where
  "sd_card_list_files e path buf buf_size extra_info s =
     (let list_dir = (\<lambda>p. case fs_opendir e p of
            Inl ret \<Rightarrow> Some (ret, buf, buf_size)
          | Inr rs \<Rightarrow> do {
              (ret, buf, used) \<leftarrow> list_entries extra_info buf_size rs buf 0;
              if ret \<noteq> 0 then Some (ret, buf, buf_size)
              else if fs_closedir e \<noteq> 0 then Some (fs_closedir e, buf, buf_size)
              else Some (0, buf, used) })
      in if \<not> sd_init_success s then Some (- ENODEV, buf, buf_size)
      else (case path of
        None \<Rightarrow> list_dir sd_root_path
      | Some p \<Rightarrow>
          if PATH_MAX_LEN e < length p then Some (- FR_INVALID_NAME e, buf, buf_size)
          else do {
            a \<leftarrow> strcat (PATH_MAX_LEN e + 1) SD_ROOT_PATH p;
            if CHR ''.'' \<in> set a then Some (- ENOENT, buf, buf_size)
            else list_dir a }))"

section \<open>Searching the card\<close>

text \<open>
  \<open>traverse_down\<close> allocates a block for the listing and a block for the paths below the directory.
  The listing block is not cleared: \<open>slab_content n\<close> is what the \<open>n\<close>-th block handed out holds. The
  first argument of \<open>traverse_down\<close> counts the levels that may still be entered,
  \<open>SD_CARD_LEVELS_MAX + 1\<close> less the depth.
\<close>

function later_tokens :: "string \<Rightarrow> string list" where
  "later_tokens s = (case strtok_r {LF} s of None \<Rightarrow> [] | Some (t, r) \<Rightarrow> t # later_tokens r)"
  by auto
termination
  by (relation "measure length") (auto dest: strtok_r_shorter)

declare later_tokens.simps [simp del]

definition tokens :: "string \<Rightarrow> string list" where
  "tokens s = (case strtok_r {CR, LF} s of None \<Rightarrow> [] | Some (t, r) \<Rightarrow> t # later_tokens r)"

text \<open>\<open>result\<close> is the caller's table: its rows have \<open>path_len\<close> characters each.\<close>

definition path_below :: "'f sd_env \<Rightarrow> string option \<Rightarrow> string \<Rightarrow> string option" where
  "path_below e path tok = (case path of
       None \<Rightarrow> strcat (PATH_MAX_LEN e) [] tok
     | Some p \<Rightarrow> do {
         b \<leftarrow> strcat (PATH_MAX_LEN e) [] p;
         b \<leftarrow> strcat (PATH_MAX_LEN e) (cr_lf_remove b) ''/'';
         strcat (PATH_MAX_LEN e) b tok })"

fun token_loop ::
  "'f sd_env \<Rightarrow> nat \<Rightarrow> nat \<Rightarrow> string
   \<Rightarrow> (string \<Rightarrow> string list \<Rightarrow> sd_card \<Rightarrow> (int \<times> string list \<times> sd_card) option)
   \<Rightarrow> string option \<Rightarrow> string list \<Rightarrow> int \<Rightarrow> string list \<Rightarrow> sd_card
   \<Rightarrow> (int \<times> string list \<times> sd_card) option" where
  "token_loop e file_max path_len pattern down path [] ret result s = Some (ret, result, s)"
| "token_loop e file_max path_len pattern down path (tok # toks) ret result s =
     (if strstr tok ''System Volume Information''
      then token_loop e file_max path_len pattern down path toks ret result s
      else do {
        b \<leftarrow> path_below e path (cr_lf_remove tok);
        if strstr (cr_lf_remove tok) pattern then
          if file_max \<le> num_files_added s then Some (- ENOMEM, result, s)
          else do {
            assert_ok (length b < path_len);
            result \<leftarrow> wr result (num_files_added s) b;
            token_loop e file_max path_len pattern down path toks ret result
              (s\<lparr>num_files_added := num_files_added s + 1\<rparr>) }
        else do {
          (ret, result, s) \<leftarrow> down b result s;
          token_loop e file_max path_len pattern down path toks ret result s } })"

primrec traverse_down ::
  "nat \<Rightarrow> 'f sd_env \<Rightarrow> nat \<Rightarrow> nat \<Rightarrow> string \<Rightarrow> string option \<Rightarrow> string list \<Rightarrow> sd_card
   \<Rightarrow> (int \<times> string list \<times> sd_card) option" where
  "traverse_down 0 e file_max path_len pattern path result s = Some (0, result, s)"
| "traverse_down (Suc k) e file_max path_len pattern path result s =
     (if slab_A_free s = 0 then Some (- ENOMEM, result, s)
      else if slab_B_free s = 0 then Some (- ENOMEM, result, s\<lparr>slab_A_allocs := slab_A_allocs s + 1\<rparr>)
      else
        let a = slab_content e (slab_A_allocs s);
            s = s\<lparr>slab_A_free := slab_A_free s - 1, slab_B_free := slab_B_free s - 1,
                  slab_A_allocs := slab_A_allocs s + 1\<rparr>;
            cleanup = (\<lambda>s. s\<lparr>slab_A_free := slab_A_free s + 1, slab_B_free := slab_B_free s + 1\<rparr>)
        in do {
          (ret, a, n) \<leftarrow> sd_card_list_files e path (Some a) SD_CARD_BUF_SIZE False s;
          if ret = - ENOENT then Some (0, result, cleanup s)
          else if ret \<noteq> 0 then Some (ret, result, cleanup s)
          else do {
            text \<leftarrow> c_string (the a);
            (ret, result, s) \<leftarrow> token_loop e file_max path_len pattern
               (\<lambda>p. traverse_down k e file_max path_len pattern (Some p)) path (tokens text) 0 result s;
            Some (ret, result, cleanup s) } })"

definition sd_card_list_files_match ::
  "'f sd_env \<Rightarrow> nat \<Rightarrow> nat \<Rightarrow> string list option \<Rightarrow> string option \<Rightarrow> string option \<Rightarrow> sd_card
   \<Rightarrow> (int \<times> string list option \<times> sd_card) option" where
  "sd_card_list_files_match e file_max path_len result path pattern s =
     (let s = s\<lparr>num_files_added := 0\<rparr> in
      case (result, pattern) of
        (Some r, Some pat) \<Rightarrow>
          if file_max = 0 \<or> path_len = 0 \<or> PATH_MAX_LEN e < path_len then Some (- EINVAL, result, s)
          else do {
            (ret, r, s) \<leftarrow> traverse_down (SD_CARD_LEVELS_MAX + 1) e file_max path_len pat path r
               (s\<lparr>slab_A_free := SD_CARD_LEVELS_MAX, slab_B_free := SD_CARD_LEVELS_MAX\<rparr>);
            if ret \<noteq> 0 then Some (ret, Some r, s)
            else Some (int (num_files_added s), Some r, s) }
      | _ \<Rightarrow> Some (- EINVAL, result, s))"

end
