(* ===== verification/Lc3File.thy ===== *)
theory Lc3File
  imports SdCard
begin

text \<open>
  LC3 files (\<open>src/modules/lc3_file.c\<close>): the file header, and the frames, each behind its length as a
  16-bit little-endian number. \<open>frames_bytes\<close> is the format that \<open>lc3_file_frame_get\<close> reads;
  \<open>frame_get_next\<close> shows that on a card that works it reads it frame by frame, and that it reports
  the end by \<open>-ENODATA\<close>.
\<close>

section \<open>The header\<close>

record lc3_file_header =
  hdr_file_id :: u16
  hdr_size :: u16
  hdr_sample_rate :: u16
  hdr_bit_rate :: u16
  hdr_channels :: u16
  hdr_frame_duration :: u16
  hdr_rfu :: u16
  hdr_signal_len_lsb :: u16
  hdr_signal_len_msb :: u16

record 'f lc3_file_ctx =
  file_object :: 'f
  lc3_header :: lc3_file_header
  number_of_samples :: u32

definition LC3_FILE_ID :: u16 where "LC3_FILE_ID = 0xCC1C"
definition LC3_HEADER_SIZE :: nat where "LC3_HEADER_SIZE = 18"

definition u16_bytes :: "u16 \<Rightarrow> u8 list" where
  "u16_bytes x = [ucast x, ucast (drop_bit 8 x)]"

definition u16_of :: "u8 \<Rightarrow> u8 \<Rightarrow> u16" where
  "u16_of lo hi = or (ucast lo) (push_bit 8 (ucast hi))"

text \<open>The packed structure and the bytes that it occupies.\<close>

definition header_bytes :: "lc3_file_header \<Rightarrow> u8 list" where
  "header_bytes h = concat (map u16_bytes [hdr_file_id h, hdr_size h, hdr_sample_rate h, hdr_bit_rate h,
     hdr_channels h, hdr_frame_duration h, hdr_rfu h, hdr_signal_len_lsb h, hdr_signal_len_msb h])"

definition header_of :: "u8 list \<Rightarrow> lc3_file_header" where
  "header_of b =
     \<lparr>hdr_file_id = u16_of (b ! 0) (b ! 1), hdr_size = u16_of (b ! 2) (b ! 3),
      hdr_sample_rate = u16_of (b ! 4) (b ! 5), hdr_bit_rate = u16_of (b ! 6) (b ! 7),
      hdr_channels = u16_of (b ! 8) (b ! 9), hdr_frame_duration = u16_of (b ! 10) (b ! 11),
      hdr_rfu = u16_of (b ! 12) (b ! 13), hdr_signal_len_lsb = u16_of (b ! 14) (b ! 15),
      hdr_signal_len_msb = u16_of (b ! 16) (b ! 17)\<rparr>"

definition lc3_header_get ::
  "'f lc3_file_ctx option \<Rightarrow> lc3_file_header option \<Rightarrow> int \<times> lc3_file_header option" where
  "lc3_header_get f header = (case (f, header) of
       (Some f, Some h) \<Rightarrow> (0, Some (lc3_header f))
     | _ \<Rightarrow> (- EINVAL, header))"

section \<open>Reading\<close>

text \<open>
  The frame goes to the buffer that starts at \<open>off\<close> of the array \<open>buf\<close>. A header of which only one
  byte was read is compared although its other byte was never written.
\<close>

definition lc3_file_frame_get ::
  "'f sd_env \<Rightarrow> 'f lc3_file_ctx \<Rightarrow> u8 list \<Rightarrow> nat \<Rightarrow> nat \<Rightarrow> (int \<times> u8 list \<times> 'f lc3_file_ctx) option" where
  "lc3_file_frame_get e c buf off buffer_size = do {
     (ret, hd, n, f) \<leftarrow> sd_card_read e [0, 0] 0 2 (file_object c);
     let c = c\<lparr>file_object := f\<rparr>;
     if ret \<noteq> 0 then Some (ret, buf, c)
     else if n = 0 then Some (- ENODATA, buf, c)
     else do {
       assert_ok (n = 2);
       let frame_header = unat (u16_of (hd ! 0) (hd ! 1));
       if frame_header = 0 then Some (- ENODATA, buf, c)
       else if buffer_size < frame_header then Some (- ENOMEM, buf, c)
       else do {
         (ret, buf, n, f) \<leftarrow> sd_card_read e buf off frame_header f;
         let c = c\<lparr>file_object := f\<rparr>;
         if ret \<noteq> 0 then Some (ret, buf, c)
         else if n \<noteq> frame_header then Some (- EIO, buf, c)
         else Some (0, buf, c) } } }"

definition lc3_file_open ::
  "'f sd_env \<Rightarrow> 'f lc3_file_ctx \<Rightarrow> string \<Rightarrow> sd_card \<Rightarrow> (int \<times> 'f lc3_file_ctx) option" where
  "lc3_file_open e c file_name s = do {
     (ret, f) \<leftarrow> sd_card_open e file_name (file_object c) s;
     let c = c\<lparr>file_object := f\<rparr>;
     if ret \<noteq> 0 then Some (ret, c)
     else do {
       (ret, b, n, f) \<leftarrow> sd_card_read e (header_bytes (lc3_header c)) 0 LC3_HEADER_SIZE f;
       let c = c\<lparr>file_object := f, lc3_header := header_of b\<rparr>;
       if ret \<noteq> 0 then Some (ret, c)
       else if hdr_file_id (lc3_header c) \<noteq> LC3_FILE_ID then Some (- EINVAL, c)
       else Some (0, c) } }"

definition lc3_file_close :: "'f sd_env \<Rightarrow> 'f lc3_file_ctx \<Rightarrow> int \<times> 'f lc3_file_ctx" where
  "lc3_file_close e c = (let (ret, f) = sd_card_close e (file_object c) in (ret, c\<lparr>file_object := f\<rparr>))"

definition lc3_file_init :: "'f sd_env \<Rightarrow> sd_card \<Rightarrow> int \<times> sd_card" where
  "lc3_file_init e s = sd_card_init e s"

section \<open>The format\<close>

definition frame_bytes :: "u8 list \<Rightarrow> u8 list" where
  "frame_bytes fr = u16_bytes (of_nat (length fr)) @ fr"

definition frames_bytes :: "u8 list list \<Rightarrow> u8 list" where
  "frames_bytes frs = concat (map frame_bytes frs)"

lemma frames_bytes_simps [simp]:
  "frames_bytes [] = []"
  "frames_bytes (fr # frs) = frame_bytes fr @ frames_bytes frs"
  by (simp_all add: frames_bytes_def)

lemma length_u16_bytes [simp]: "length (u16_bytes x) = 2"
  by (simp add: u16_bytes_def)

lemma u16_of_halves: "u16_of (ucast x) (ucast (drop_bit 8 x)) = x"
  by (rule bit_word_eqI) (auto simp: u16_of_def bit_simps)

lemma u16_of_bytes: "u16_of (u16_bytes x ! 0) (u16_bytes x ! 1) = x"
  by (simp add: u16_bytes_def u16_of_halves)

lemma length_header_bytes [simp]: "length (header_bytes h) = LC3_HEADER_SIZE"
  by (simp add: header_bytes_def u16_bytes_def LC3_HEADER_SIZE_def)

lemma header_of_bytes: "header_of (header_bytes h) = h"
  by (simp add: header_of_def header_bytes_def u16_bytes_def u16_of_halves)

text \<open>
  A card that works: \<open>rest f\<close> is what an open file has still to deliver, \<open>files\<close> the contents of the
  files by their absolute path. Reading delivers as many of the bytes asked for as there are.
\<close>

definition working_card ::
  "'f sd_env \<Rightarrow> ('f \<Rightarrow> u8 list) \<Rightarrow> (string \<Rightarrow> u8 list option) \<Rightarrow> bool" where
  "working_card e rest files \<longleftrightarrow>
     (\<forall>n f. \<exists>f'. fs_read e n f = (int (length (take n (rest f))), take n (rest f), f') \<and> rest f' = drop n (rest f)) \<and>
     (\<forall>path f. case files path of
        None \<Rightarrow> fst (fs_open e FS_O_READ path f) < 0
      | Some bs \<Rightarrow> \<exists>f'. fs_open e FS_O_READ path f = (0, f') \<and> rest f' = bs) \<and>
     (\<forall>f. fst (fs_close e f) = 0)"

lemma card_read:
  assumes "working_card e rest files" and "off + n \<le> length buf"
  shows "\<exists>f'. sd_card_read e buf off n f = Some (0,
      take off buf @ take n (rest f) @ drop (off + length (take n (rest f))) buf, length (take n (rest f)), f')
    \<and> rest f' = drop n (rest f)"
proof -
  obtain f' where "fs_read e n f = (int (length (take n (rest f))), take n (rest f), f')"
      and *: "rest f' = drop n (rest f)"
    using assms(1) unfolding working_card_def by blast
  then have "sd_card_read e buf off n f = Some (0,
      take off buf @ take n (rest f) @ drop (off + length (take n (rest f))) buf, length (take n (rest f)), f')"
    using assms(2) by (simp add: sd_card_read_def mem_simps)
  with * show ?thesis by blast
qed

lemma frame_get_end:
  assumes "working_card e rest files" and "rest (file_object c) = []"
  shows "\<exists>c'. lc3_file_frame_get e c buf off n = Some (- ENODATA, buf, c')"
proof -
  obtain f' where "sd_card_read e [0, 0] 0 2 (file_object c) = Some (0, [0, 0], 0, f')"
    using card_read [OF assms(1), of 0 2 "[0, 0]" "file_object c"] assms(2) by auto
  then show ?thesis
    by (simp add: lc3_file_frame_get_def)
qed

lemma frame_header_read:
  assumes "working_card e rest files" and "rest (file_object c) = frame_bytes fr @ r" and "length fr < 65536"
  shows "\<exists>h f. sd_card_read e [0, 0] 0 2 (file_object c) = Some (0, h, 2, f) \<and> rest f = fr @ r
    \<and> unat (u16_of (h ! 0) (h ! 1)) = length fr"
proof -
  let ?h = "u16_bytes (of_nat (length fr))"
  have rest2: "take 2 (rest (file_object c)) = ?h" "drop 2 (rest (file_object c)) = fr @ r"
    using assms(2) by (simp_all add: frame_bytes_def)
  have "unat (u16_of (?h ! 0) (?h ! 1)) = length fr"
    using assms(3) by (simp only: u16_of_bytes) (simp add: unat_of_nat)
  then show ?thesis
    using card_read [OF assms(1), of 0 2 "[0, 0]" "file_object c"] unfolding rest2 by auto
qed

lemma frame_get_next:
  assumes works: "working_card e rest files"
    and rest: "rest (file_object c) = frame_bytes fr @ r"
    and fr: "fr \<noteq> []" "length fr < 65536" "length fr \<le> n" "off + length fr \<le> length buf"
  shows "\<exists>c'. lc3_file_frame_get e c buf off n
      = Some (0, take off buf @ fr @ drop (off + length fr) buf, c') \<and> rest (file_object c') = r"
proof -
  obtain h f1 where f1: "sd_card_read e [0, 0] 0 2 (file_object c) = Some (0, h, 2, f1)" "rest f1 = fr @ r"
      "unat (u16_of (h ! 0) (h ! 1)) = length fr"
    using frame_header_read [OF works rest fr(2)] by blast
  obtain f2 where f2: "sd_card_read e buf off (length fr) f1
      = Some (0, take off buf @ fr @ drop (off + length fr) buf, length fr, f2)" "rest f2 = r"
    using card_read [OF works fr(4), of f1] f1(2) by auto
  have "\<not> n < length fr" "length fr \<noteq> 0"
    using fr(1,3) by auto
  then have "lc3_file_frame_get e c buf off n
      = Some (0, take off buf @ fr @ drop (off + length fr) buf, c\<lparr>file_object := f2\<rparr>)"
    unfolding lc3_file_frame_get_def f1(1) Let_def Option.bind.bind_lunit prod.case f1(3)
    by (simp add: f2(1))
  moreover have "rest (file_object (c\<lparr>file_object := f2\<rparr>)) = r"
    using f2(2) by simp
  ultimately show ?thesis by blast
qed

lemma frame_get_overruns:
  assumes works: "working_card e rest files"
    and rest: "rest (file_object c) = frame_bytes fr @ r"
    and fr: "fr \<noteq> []" "length fr < 65536" "length fr \<le> n" "length buf < off + length fr"
  shows "lc3_file_frame_get e c buf off n = None"
proof -
  obtain h f1 where f1: "sd_card_read e [0, 0] 0 2 (file_object c) = Some (0, h, 2, f1)" "rest f1 = fr @ r"
      "unat (u16_of (h ! 0) (h ! 1)) = length fr"
    using frame_header_read [OF works rest fr(2)] by blast
  have "\<exists>f2. fs_read e (length fr) f1 = (int (length (take (length fr) (rest f1))), take (length fr) (rest f1), f2)"
    using works unfolding working_card_def by blast
  then obtain f2 where "fs_read e (length fr) f1 = (int (length fr), fr, f2)"
    using f1(2) by auto
  then have "sd_card_read e buf off (length fr) f1 = None"
    using fr(4) by (simp add: sd_card_read_def wr_range_def)
  moreover have "\<not> n < length fr" "length fr \<noteq> 0"
    using fr(1,3) by auto
  ultimately show ?thesis
    unfolding lc3_file_frame_get_def f1(1) Let_def Option.bind.bind_lunit prod.case f1(3) by simp
qed

lemma card_open:
  assumes "working_card e rest files" and "sd_init_success s"
    and "length SD_ROOT_PATH + length name \<le> PATH_MAX_LEN e"
    and "files (SD_ROOT_PATH @ name) = Some bs"
  shows "\<exists>f'. sd_card_open e name f s = Some (0, f') \<and> rest f' = bs"
proof -
  have "PATH_MAX_LEN e \<le> FATFS_MAX_LFN e"
    by (simp add: PATH_MAX_LEN_def)
  then have "\<not> FATFS_MAX_LFN e < length name"
    using assms(3) by (simp add: SD_ROOT_PATH_def)
  moreover have "take (PATH_MAX_LEN e - length SD_ROOT_PATH) name = name"
    using assms(3) by simp
  moreover obtain f' where "fs_open e FS_O_READ (SD_ROOT_PATH @ name) (fs_file_init e) = (0, f')" "rest f' = bs"
    using assms(1) unfolding working_card_def using assms(4)
    by (auto dest!: spec [of _ "SD_ROOT_PATH @ name"] spec [of _ "fs_file_init e"])
  ultimately show ?thesis
    using assms(2,3) by (simp add: sd_card_open_def strcat_def)
qed

lemma file_open_ok:
  assumes works: "working_card e rest files" and "sd_init_success s"
    and "length SD_ROOT_PATH + length name \<le> PATH_MAX_LEN e"
    and "files (SD_ROOT_PATH @ name) = Some (header_bytes h @ r)" and "hdr_file_id h = LC3_FILE_ID"
  shows "\<exists>c'. lc3_file_open e c name s = Some (0, c') \<and> rest (file_object c') = r \<and> lc3_header c' = h"
proof -
  obtain f1 where f1: "sd_card_open e name (file_object c) s = Some (0, f1)" "rest f1 = header_bytes h @ r"
    using card_open [OF assms(1-4)] by blast
  obtain f2 where f2: "sd_card_read e (header_bytes (lc3_header c)) 0 LC3_HEADER_SIZE f1
      = Some (0, header_bytes h, LC3_HEADER_SIZE, f2)" "rest f2 = r"
    using card_read [OF works, of 0 LC3_HEADER_SIZE "header_bytes (lc3_header c)" f1] f1(2) by auto
  show ?thesis
    using assms(5) f2(2) by (simp add: lc3_file_open_def f1(1) f2(1) Let_def header_of_bytes)
qed

end
