(* ===== verification/Lc3Streamer.thy ===== *)
theory Lc3Streamer
  imports Lc3File ZephyrKernel
begin

text \<open>
  The LC3 streamer (\<open>src/modules/lc3_streamer.c\<close>): a table of streams that read their files ahead of
  the caller, one frame at a time, on a work queue. A caller gets a pointer into the stream's buffer,
  which is valid until its next call; the call starts the reading of the next frame.

  The FIFO of blocks (\<open>data_fifo\<close>) is a library of the SDK: the parameter \<open>fifo_ops\<close>, whose documented
  behaviour is \<open>fifo_contract\<close>. A block is the offset at which it starts in the stream's own array
  \<open>slab_buffer\<close>. Work items are the indices of the streams.

  \<open>streamer_implements_players\<close> compares the module with what it promises, a table of players that
  deliver the frames of their files in order: each request is answered by the next frame, or by "not
  ready" while it is being read, until the end.
\<close>

section \<open>State\<close>

datatype lc3_stream_states = STREAM_IDLE | STREAM_PLAYING | STREAM_PLAYING_LAST_FRAME | STREAM_ENDED

record ('f, 'd) lc3_stream =
  strm_state :: lc3_stream_states
  loop_stream :: bool
  active_buffer :: "nat option"
  strm_filename :: string
  strm_file :: "'f lc3_file_ctx"
  strm_fifo :: 'd
  fifo_initialized :: bool
  slab_buffer :: "u8 list"

record ('f, 'd) streamer =
  lc3_streams :: "('f, 'd) lc3_stream list"
  lc3_initialized :: bool
  lc3_work_q :: "nat list"
  lc3_sd :: sd_card

record 'd fifo_ops =
  data_fifo_init :: "nat \<Rightarrow> nat \<Rightarrow> 'd \<Rightarrow> int \<times> 'd"
  data_fifo_pointer_first_vacant_get :: "'d \<Rightarrow> int \<times> nat \<times> 'd"
  data_fifo_block_lock :: "nat \<Rightarrow> nat \<Rightarrow> 'd \<Rightarrow> int \<times> 'd"
  data_fifo_pointer_last_filled_get :: "'d \<Rightarrow> int \<times> nat \<times> nat \<times> 'd"
  data_fifo_block_free :: "nat \<Rightarrow> 'd \<Rightarrow> 'd"
  data_fifo_uninit :: "'d \<Rightarrow> int \<times> 'd"

record ('f, 'd) lc3_env =
  sd :: "'f sd_env"
  ops :: "'d fifo_ops"
  MAX_FRAME_SIZE :: nat
  MAX_NUM_STREAMS :: nat
  stack_ctx :: "'f lc3_file_ctx"

definition LC3_STREAMER_BUFFER_NUM_FRAMES :: nat where "LC3_STREAMER_BUFFER_NUM_FRAMES = 2"

text \<open>\<open>WB_UP\<close> rounds up to the 4 bytes of a pointer.\<close>

definition WB_UP :: "nat \<Rightarrow> nat" where "WB_UP n = 4 * ((n + 3) div 4)"

definition SLAB_BUFFER_SIZE :: "('f, 'd) lc3_env \<Rightarrow> nat" where
  "SLAB_BUFFER_SIZE e = LC3_STREAMER_BUFFER_NUM_FRAMES * MAX_FRAME_SIZE e"

section \<open>Streams\<close>

text \<open>A FIFO has to be initialised when it is used; a work item that runs too late trips over that.\<close>

definition stream_block_free :: "('f, 'd) lc3_env \<Rightarrow> nat \<Rightarrow> ('f, 'd) lc3_stream \<Rightarrow> ('f, 'd) lc3_stream option" where
  "stream_block_free e p st = do {
     assert_ok (fifo_initialized st);
     Some (st\<lparr>strm_fifo := data_fifo_block_free (ops e) p (strm_fifo st)\<rparr>) }"

definition active_buffer_free :: "('f, 'd) lc3_env \<Rightarrow> ('f, 'd) lc3_stream \<Rightarrow> ('f, 'd) lc3_stream option" where
  "active_buffer_free e st = (case active_buffer st of
       None \<Rightarrow> Some st
     | Some p \<Rightarrow> do {
         st \<leftarrow> stream_block_free e p st;
         Some (st\<lparr>active_buffer := None\<rparr>) })"

definition stream_close :: "('f, 'd) lc3_env \<Rightarrow> ('f, 'd) lc3_stream \<Rightarrow> (int \<times> ('f, 'd) lc3_stream) option" where
  "stream_close e st = do {
     st \<leftarrow> active_buffer_free e st;
     let st = st\<lparr>strm_file := snd (lc3_file_close (sd e) (strm_file st))\<rparr>;
     let st = (if fifo_initialized st
               then let (ret, d) = data_fifo_uninit (ops e) (strm_fifo st)
                    in st\<lparr>strm_fifo := d, fifo_initialized := ret \<noteq> 0\<rparr>
               else st);
     Some (0, st\<lparr>strm_state := STREAM_IDLE, strm_filename := []\<rparr>) }"

definition put_next_frame_to_fifo ::
  "('f, 'd) lc3_env \<Rightarrow> ('f, 'd) lc3_stream \<Rightarrow> (int \<times> ('f, 'd) lc3_stream) option" where
  "put_next_frame_to_fifo e st = do {
     assert_ok (fifo_initialized st);
     let (ret, p, d) = data_fifo_pointer_first_vacant_get (ops e) (strm_fifo st);
     let st = st\<lparr>strm_fifo := d\<rparr>;
     if ret \<noteq> 0 then Some (ret, st)
     else do {
       (ret, b, f) \<leftarrow> lc3_file_frame_get (sd e) (strm_file st) (slab_buffer st) p (MAX_FRAME_SIZE e);
       let st = st\<lparr>slab_buffer := b, strm_file := f\<rparr>;
       if ret \<noteq> 0 then do {
         st \<leftarrow> stream_block_free e p st;
         Some (ret, st) }
       else
         let (ret, d) = data_fifo_block_lock (ops e) p (MAX_FRAME_SIZE e) (strm_fifo st)
         in Some (ret, st\<lparr>strm_fifo := d\<rparr>) } }"

definition stream_loop ::
  "('f, 'd) lc3_env \<Rightarrow> sd_card \<Rightarrow> ('f, 'd) lc3_stream \<Rightarrow> (int \<times> ('f, 'd) lc3_stream) option" where
  "stream_loop e sdc st = (
     let (ret, f) = lc3_file_close (sd e) (strm_file st); st = st\<lparr>strm_file := f\<rparr> in
     if ret \<noteq> 0 then Some (ret, st)
     else do {
       (ret, f) \<leftarrow> lc3_file_open (sd e) (strm_file st) (strm_filename st) sdc;
       let st = st\<lparr>strm_file := f\<rparr>;
       if ret \<noteq> 0 then Some (ret, st)
       else do {
         (ret, st) \<leftarrow> put_next_frame_to_fifo e st;
         if ret \<noteq> 0 then Some (ret, st\<lparr>strm_file := snd (lc3_file_close (sd e) (strm_file st))\<rparr>)
         else Some (0, st) } })"

definition next_frame_load ::
  "('f, 'd) lc3_env \<Rightarrow> sd_card \<Rightarrow> ('f, 'd) lc3_stream \<Rightarrow> ('f, 'd) lc3_stream option" where
  "next_frame_load e sdc st = do {
     (ret, st) \<leftarrow> put_next_frame_to_fifo e st;
     if ret = - ENODATA then
       if loop_stream st then do {
         (ret, st) \<leftarrow> stream_loop e sdc st;
         Some (if ret \<noteq> 0 then st\<lparr>strm_state := STREAM_ENDED\<rparr> else st) }
       else Some (st\<lparr>strm_state := STREAM_PLAYING_LAST_FRAME\<rparr>)
     else if ret \<noteq> 0 then Some (st\<lparr>strm_state := STREAM_ENDED\<rparr>)
     else Some st }"

section \<open>The module\<close>

definition set_stream ::
  "nat \<Rightarrow> ('f, 'd) lc3_stream \<Rightarrow> ('f, 'd) streamer \<Rightarrow> ('f, 'd) streamer" where
  "set_stream i st s = s\<lparr>lc3_streams := (lc3_streams s)[i := st]\<rparr>"

text \<open>The work queue thread takes the first item; without one nothing happens.\<close>

definition lc3_streamer_work :: "('f, 'd) lc3_env \<Rightarrow> ('f, 'd) streamer \<Rightarrow> ('f, 'd) streamer option" where
  "lc3_streamer_work e s = (case lc3_work_q s of
       [] \<Rightarrow> Some s
     | i # q \<Rightarrow> do {
         st \<leftarrow> rd (lc3_streams s) i;
         st \<leftarrow> next_frame_load e (lc3_sd s) st;
         Some (set_stream i st (s\<lparr>lc3_work_q := q\<rparr>)) })"

definition lc3_streamer_next_frame_get ::
  "('f, 'd) lc3_env \<Rightarrow> nat \<Rightarrow> ('f, 'd) streamer \<Rightarrow> (int \<times> nat option \<times> ('f, 'd) streamer) option" where
  "lc3_streamer_next_frame_get e i s =
     (if \<not> lc3_initialized s then Some (- EFAULT, None, s)
      else if length (lc3_streams s) \<le> i then Some (- EINVAL, None, s)
      else
        let st = lc3_streams s ! i in
        if strm_state st \<noteq> STREAM_PLAYING \<and> strm_state st \<noteq> STREAM_PLAYING_LAST_FRAME
        then Some (- EFAULT, None, s)
        else do {
          st \<leftarrow> active_buffer_free e st;
          if strm_state st = STREAM_PLAYING_LAST_FRAME
          then Some (- ENODATA, None, set_stream i (st\<lparr>strm_state := STREAM_ENDED\<rparr>) s)
          else do {
            assert_ok (fifo_initialized st);
            let (ret, p, n, d) = data_fifo_pointer_last_filled_get (ops e) (strm_fifo st);
            let st = st\<lparr>strm_fifo := d\<rparr>;
            if ret \<noteq> 0 then Some (ret, None, set_stream i st s)
            else Some (0, Some p, set_stream i (st\<lparr>active_buffer := Some p\<rparr>)
                   (s\<lparr>lc3_work_q := k_work_submit i (lc3_work_q s)\<rparr>)) } })"

record lc3_stream_cfg =
  sample_rate_hz :: u32
  bit_rate_bps :: u32
  frame_duration_us :: u32

definition lc3_streamer_file_compatible_check ::
  "('f, 'd) lc3_env \<Rightarrow> string option \<Rightarrow> lc3_stream_cfg option \<Rightarrow> sd_card \<Rightarrow> bool option" where
  "lc3_streamer_file_compatible_check e filename cfg sdc = (case (filename, cfg) of
       (Some name, Some c) \<Rightarrow>
         if FATFS_MAX_LFN (sd e) - 1 < length name then Some False
         else do {
           (ret, f) \<leftarrow> lc3_file_open (sd e) (stack_ctx e) name sdc;
           if ret \<noteq> 0 then Some False
           else let h = lc3_header f in
             Some (ucast (hdr_sample_rate h) * 100 = sample_rate_hz c
               \<and> ucast (hdr_bit_rate h) * 100 = bit_rate_bps c
               \<and> ucast (hdr_frame_duration h) * 10 = frame_duration_us c) }
     | _ \<Rightarrow> Some False)"

text \<open>The first slot that is free.\<close>

fun free_slot :: "nat \<Rightarrow> ('f, 'd) lc3_stream list \<Rightarrow> nat option" where
  "free_slot i [] = None"
| "free_slot i (st # sts) = (if strm_state st = STREAM_IDLE then Some i else free_slot (Suc i) sts)"

text \<open>
  The result carries the index written to the caller's variable. \<open>k_work_init\<close> must not be called
  for an item that is still queued.
\<close>

definition lc3_streamer_stream_register ::
  "('f, 'd) lc3_env \<Rightarrow> string option \<Rightarrow> bool \<Rightarrow> ('f, 'd) streamer
   \<Rightarrow> (int \<times> nat option \<times> ('f, 'd) streamer) option" where
  "lc3_streamer_stream_register e filename loop s =
     (if \<not> lc3_initialized s then Some (- EFAULT, None, s)
      else case filename of
        None \<Rightarrow> Some (- EINVAL, None, s)
      | Some name \<Rightarrow>
          if FATFS_MAX_LFN (sd e) - 1 < length name then Some (- EINVAL, None, s)
          else (case free_slot 0 (lc3_streams s) of
            None \<Rightarrow> Some (- EAGAIN, None, s)
          | Some i \<Rightarrow> do {
              let st = lc3_streams s ! i;
              (ret, f) \<leftarrow> lc3_file_open (sd e) (strm_file st) name (lc3_sd s);
              let st = st\<lparr>strm_file := f\<rparr>;
              if ret \<noteq> 0 then Some (ret, Some i, set_stream i st s)
              else
                let (ret, d) = data_fifo_init (ops e) (WB_UP (MAX_FRAME_SIZE e)) LC3_STREAMER_BUFFER_NUM_FRAMES
                                 (strm_fifo st);
                    st = st\<lparr>strm_filename := name, strm_fifo := d\<rparr> in
                if ret \<noteq> 0
                then Some (ret, Some i,
                  set_stream i (st\<lparr>strm_file := snd (lc3_file_close (sd e) (strm_file st))\<rparr>) s)
                else do {
                  assert_ok (i \<notin> set (lc3_work_q s));
                  (ret, st) \<leftarrow> put_next_frame_to_fifo e (st\<lparr>fifo_initialized := True\<rparr>);
                  if ret \<noteq> 0 then Some (ret, Some i, set_stream i (st\<lparr>strm_state := STREAM_ENDED\<rparr>) s)
                  else Some (0, Some i,
                    set_stream i (st\<lparr>strm_state := STREAM_PLAYING, loop_stream := loop\<rparr>) s) } }))"

definition lc3_streamer_num_active_streams :: "('f, 'd) streamer \<Rightarrow> u8" where
  "lc3_streamer_num_active_streams s =
     (if \<not> lc3_initialized s then 0
      else of_nat (length (filter
        (\<lambda>st. strm_state st = STREAM_PLAYING \<or> strm_state st = STREAM_PLAYING_LAST_FRAME) (lc3_streams s))))"

text \<open>\<open>strncpy\<close> fills the rest of the buffer with zeros, and leaves a long name without terminator.\<close>

definition lc3_streamer_file_path_get ::
  "nat \<Rightarrow> char list option \<Rightarrow> nat \<Rightarrow> ('f, 'd) streamer \<Rightarrow> (int \<times> char list option) option" where
  "lc3_streamer_file_path_get i path path_len s =
     (if length (lc3_streams s) \<le> i then Some (- EINVAL, path)
      else case path of
        None \<Rightarrow> Some (- EINVAL, None)
      | Some buf \<Rightarrow>
          let name = strm_filename (lc3_streams s ! i) in do {
            buf \<leftarrow> wr_range buf 0 (take path_len (name @ replicate path_len NUL));
            Some (0, Some buf) })"

definition lc3_streamer_is_looping :: "nat \<Rightarrow> ('f, 'd) streamer \<Rightarrow> bool" where
  "lc3_streamer_is_looping i s =
     (if length (lc3_streams s) \<le> i then False else loop_stream (lc3_streams s ! i))"

definition lc3_streamer_stream_close ::
  "('f, 'd) lc3_env \<Rightarrow> nat \<Rightarrow> ('f, 'd) streamer \<Rightarrow> (int \<times> ('f, 'd) streamer) option" where
  "lc3_streamer_stream_close e i s =
     (if \<not> lc3_initialized s then Some (- EFAULT, s)
      else if length (lc3_streams s) \<le> i then Some (- EINVAL, s)
      else do {
        (ret, st) \<leftarrow> stream_close e (lc3_streams s ! i);
        Some (ret, set_stream i st s) })"

text \<open>Draining the queue runs the items that are in it; none of them submits another.\<close>

fun work_queue_drain ::
  "('f, 'd) lc3_env \<Rightarrow> nat \<Rightarrow> ('f, 'd) streamer \<Rightarrow> ('f, 'd) streamer option" where
  "work_queue_drain e 0 s = Some s"
| "work_queue_drain e (Suc n) s = do { s \<leftarrow> lc3_streamer_work e s; work_queue_drain e n s }"

fun close_streams ::
  "('f, 'd) lc3_env \<Rightarrow> nat \<Rightarrow> nat \<Rightarrow> int \<Rightarrow> ('f, 'd) streamer \<Rightarrow> (int \<times> ('f, 'd) streamer) option" where
  "close_streams e i 0 first_error s = Some (first_error, s)"
| "close_streams e i (Suc n) first_error s = do {
     st \<leftarrow> rd (lc3_streams s) i;
     (ret, st) \<leftarrow> stream_close e st;
     close_streams e (Suc i) n (if ret \<noteq> 0 \<and> first_error = 0 then ret else first_error) (set_stream i st s) }"

definition lc3_streamer_close_all_streams ::
  "('f, 'd) lc3_env \<Rightarrow> ('f, 'd) streamer \<Rightarrow> (int \<times> ('f, 'd) streamer) option" where
  "lc3_streamer_close_all_streams e s =
     (if \<not> lc3_initialized s then Some (- EFAULT, s)
      else do {
        s \<leftarrow> work_queue_drain e (length (lc3_work_q s)) s;
        close_streams e 0 (length (lc3_streams s)) 0 s })"

definition lc3_streamer_init :: "('f, 'd) lc3_env \<Rightarrow> ('f, 'd) streamer \<Rightarrow> int \<times> ('f, 'd) streamer" where
  "lc3_streamer_init e s =
     (if lc3_initialized s then (0, s)
      else
        let s = s\<lparr>lc3_streams := map (\<lambda>st. st\<lparr>fifo_initialized := False, active_buffer := None,
                     strm_state := STREAM_IDLE\<rparr>) (lc3_streams s)\<rparr>;
            (ret, sdc) = lc3_file_init (sd e) (lc3_sd s);
            s = s\<lparr>lc3_sd := sdc\<rparr> in
        if ret \<noteq> 0 then (ret, s)
        else (0, s\<lparr>lc3_work_q := [], lc3_initialized := True\<rparr>))"

text \<open>The static variables of the module before the start.\<close>

definition lc3_boot :: "('f, 'd) lc3_env \<Rightarrow> 'f lc3_file_ctx \<Rightarrow> 'd \<Rightarrow> ('f, 'd) streamer" where
  "lc3_boot e f d =
     \<lparr>lc3_streams = replicate (MAX_NUM_STREAMS e)
        \<lparr>strm_state = STREAM_IDLE, loop_stream = False, active_buffer = None, strm_filename = [],
         strm_file = f, strm_fifo = d, fifo_initialized = False,
         slab_buffer = replicate (SLAB_BUFFER_SIZE e) 0\<rparr>,
      lc3_initialized = False, lc3_work_q = [],
      lc3_sd = \<lparr>sd_init_success = False, num_files_added = 0, slab_A_free = 0, slab_B_free = 0,
                slab_A_allocs = 0\<rparr>\<rparr>"

end
