(* ===== verification/Lc3Players.thy ===== *)
theory Lc3Players
  imports Lc3Streamer
begin

text \<open>
  What the LC3 streamer promises, and that it keeps it. The specification is a table of players: a
  player has the frames of its file, the number of frames it has delivered, and whether it loops; a
  queue names the players whose next frame is still to be read. \<open>streamer_implements_players\<close> shows
  that the streamer answers every sequence of requests as the players do, on a card and a FIFO that
  work. \<open>second_block_overruns\<close> shows why the frames have to be shorter than the configuration says.
\<close>

section \<open>The specification\<close>

type_synonym lc3_library = "string \<Rightarrow> u8 list list option"

datatype player = P_idle | P_playing bool "u8 list list" nat | P_ended

datatype request = Req_register string bool | Req_next nat | Req_work | Req_close nat

datatype answer = Ans_registered nat | Ans_refused | Ans_frame "u8 list" | Ans_not_ready | Ans_end
  | Ans_fault | Ans_done

fun idle_player :: "nat \<Rightarrow> player list \<Rightarrow> nat option" where
  "idle_player i [] = None"
| "idle_player i (p # ps) = (if p = P_idle then Some i else idle_player (Suc i) ps)"

definition next_answer :: "nat \<Rightarrow> player list \<Rightarrow> nat list \<Rightarrow> answer \<times> player list \<times> nat list" where
  "next_answer i ps q = (case ps ! i of
       P_playing loop frs k \<Rightarrow>
         if i \<in> set q then (Ans_not_ready, ps, q)
         else if loop \<or> k < length frs
         then (Ans_frame (frs ! (k mod length frs)), ps[i := P_playing loop frs (Suc k)], q @ [i])
         else (Ans_end, ps[i := P_ended], q)
     | _ \<Rightarrow> (Ans_fault, ps, q))"

text \<open>A stream must not be closed while its next frame is still to be read.\<close>

fun player_step ::
  "lc3_library \<Rightarrow> request \<Rightarrow> player list \<times> nat list \<Rightarrow> (answer \<times> player list \<times> nat list) option" where
  "player_step lib (Req_register name loop) (ps, q) = Some (case idle_player 0 ps of
       None \<Rightarrow> (Ans_refused, ps, q)
     | Some i \<Rightarrow> (case lib name of
         None \<Rightarrow> (Ans_refused, ps, q)
       | Some [] \<Rightarrow> (Ans_refused, ps[i := P_ended], q)
       | Some frs \<Rightarrow> (Ans_registered i, ps[i := P_playing loop frs 0], q)))"
| "player_step lib (Req_next i) (ps, q) = Some (
     if length ps \<le> i then (Ans_refused, ps, q) else next_answer i ps q)"
| "player_step lib Req_work (ps, q) = Some (Ans_done, ps, drop 1 q)"
| "player_step lib (Req_close i) (ps, q) =
     (if length ps \<le> i then Some (Ans_refused, ps, q)
      else if i \<in> set q then None
      else Some (Ans_done, ps[i := P_idle], q))"

fun player_run ::
  "lc3_library \<Rightarrow> request list \<Rightarrow> player list \<times> nat list \<Rightarrow> answer list option" where
  "player_run lib [] ps = Some []"
| "player_run lib (r # rs) ps = do {
     (a, ps) \<leftarrow> player_step lib r ps;
     as \<leftarrow> player_run lib rs ps;
     Some (a # as) }"

section \<open>The requests of the code\<close>

text \<open>A reply: the value returned, the index, and what the caller sees at the pointer it got.\<close>

fun streamer_step ::
  "('f, 'd) lc3_env \<Rightarrow> request \<Rightarrow> ('f, 'd) streamer \<Rightarrow> ((int \<times> nat option \<times> u8 list) \<times> ('f, 'd) streamer) option" where
  "streamer_step e (Req_register name loop) s = do {
     (ret, i, s) \<leftarrow> lc3_streamer_stream_register e (Some name) loop s;
     Some ((ret, i, []), s) }"
| "streamer_step e (Req_next i) s = do {
     (ret, p, s) \<leftarrow> lc3_streamer_next_frame_get e i s;
     Some ((ret, None, case p of None \<Rightarrow> [] | Some p \<Rightarrow> drop p (slab_buffer (lc3_streams s ! i))), s) }"
| "streamer_step e Req_work s = do {
     s \<leftarrow> lc3_streamer_work e s;
     Some ((0, None, []), s) }"
| "streamer_step e (Req_close i) s = do {
     (ret, s) \<leftarrow> lc3_streamer_stream_close e i s;
     Some ((ret, None, []), s) }"

fun streamer_run ::
  "('f, 'd) lc3_env \<Rightarrow> request list \<Rightarrow> ('f, 'd) streamer \<Rightarrow> (int \<times> nat option \<times> u8 list) list option" where
  "streamer_run e [] s = Some []"
| "streamer_run e (r # rs) s = do {
     (a, s) \<leftarrow> streamer_step e r s;
     as \<leftarrow> streamer_run e rs s;
     Some (a # as) }"

fun replies :: "int \<times> nat option \<times> u8 list \<Rightarrow> answer \<Rightarrow> bool" where
  "replies (ret, i, bs) (Ans_registered j) \<longleftrightarrow> ret = 0 \<and> i = Some j"
| "replies (ret, i, bs) Ans_refused \<longleftrightarrow> ret < 0"
| "replies (ret, i, bs) (Ans_frame fr) \<longleftrightarrow> ret = 0 \<and> take (length fr) bs = fr"
| "replies (ret, i, bs) Ans_not_ready \<longleftrightarrow> ret = - ENOMSG"
| "replies (ret, i, bs) Ans_end \<longleftrightarrow> ret = - ENODATA"
| "replies (ret, i, bs) Ans_fault \<longleftrightarrow> ret = - EFAULT"
| "replies (ret, i, bs) Ans_done \<longleftrightarrow> ret = 0"

section \<open>What the streamer needs\<close>

text \<open>
  The FIFO's documented behaviour, for the calls the streamer makes: \<open>vac d\<close> are the blocks that can
  be handed out, \<open>filled d\<close> the blocks that wait to be read, with their sizes.
\<close>

definition fifo_contract ::
  "('f, 'd) lc3_env \<Rightarrow> ('d \<Rightarrow> nat set) \<Rightarrow> ('d \<Rightarrow> (nat \<times> nat) list) \<Rightarrow> bool" where
  "fifo_contract e vac filled \<longleftrightarrow>
     (\<forall>d. \<exists>d'. data_fifo_init (ops e) (WB_UP (MAX_FRAME_SIZE e)) 2 d = (0, d')
        \<and> vac d' = {0, WB_UP (MAX_FRAME_SIZE e)} \<and> filled d' = []) \<and>
     (\<forall>d. vac d \<noteq> {} \<longrightarrow> (\<exists>p d'. data_fifo_pointer_first_vacant_get (ops e) d = (0, p, d')
        \<and> p \<in> vac d \<and> vac d' = vac d - {p} \<and> filled d' = filled d)) \<and>
     (\<forall>p d. p \<notin> vac d \<longrightarrow> p \<notin> fst ` set (filled d) \<longrightarrow>
        (\<exists>d'. data_fifo_block_lock (ops e) p (MAX_FRAME_SIZE e) d = (0, d')
          \<and> vac d' = vac d \<and> filled d' = filled d @ [(p, MAX_FRAME_SIZE e)])) \<and>
     (\<forall>d. (case filled d of
          [] \<Rightarrow> (\<exists>p n d'. data_fifo_pointer_last_filled_get (ops e) d = (- ENOMSG, p, n, d')
            \<and> vac d' = vac d \<and> filled d' = [])
        | (p, n) # r \<Rightarrow> (\<exists>d'. data_fifo_pointer_last_filled_get (ops e) d = (0, p, n, d')
            \<and> vac d' = vac d \<and> filled d' = r))) \<and>
     (\<forall>p d. vac (data_fifo_block_free (ops e) p d) = insert p (vac d)
        \<and> filled (data_fifo_block_free (ops e) p d) = filled d) \<and>
     (\<forall>d. fst (data_fifo_uninit (ops e) d) = 0)"

text \<open>Frames that fit: the second block starts behind the rounded size of the first.\<close>

definition frame_fits :: "('f, 'd) lc3_env \<Rightarrow> u8 list \<Rightarrow> bool" where
  "frame_fits e fr \<longleftrightarrow> fr \<noteq> [] \<and> length fr < 65536 \<and> length fr \<le> MAX_FRAME_SIZE e
     \<and> WB_UP (MAX_FRAME_SIZE e) + length fr \<le> SLAB_BUFFER_SIZE e"

definition library_on_card ::
  "('f, 'd) lc3_env \<Rightarrow> (string \<Rightarrow> u8 list option) \<Rightarrow> lc3_library \<Rightarrow> bool" where
  "library_on_card e files lib \<longleftrightarrow> (\<forall>name.
     let fits = length SD_ROOT_PATH + length name \<le> PATH_MAX_LEN (sd e) in
     case lib name of
       None \<Rightarrow> \<not> fits \<or> files (SD_ROOT_PATH @ name) = None
     | Some frs \<Rightarrow> fits \<and> list_all (frame_fits e) frs
         \<and> (\<exists>h. hdr_file_id h = LC3_FILE_ID
              \<and> files (SD_ROOT_PATH @ name) = Some (header_bytes h @ frames_bytes frs)))"

section \<open>The relation\<close>

definition lc3_blocks :: "('f, 'd) lc3_env \<Rightarrow> nat set" where
  "lc3_blocks e = {0, WB_UP (MAX_FRAME_SIZE e)}"

definition opt_set :: "'a option \<Rightarrow> 'a set" where
  "opt_set x = (case x of None \<Rightarrow> {} | Some y \<Rightarrow> {y})"

lemma opt_set_simps [simp]: "opt_set None = {}" "opt_set (Some y) = {y}"
  by (simp_all add: opt_set_def)

text \<open>A stream whose next frame lies ready, one whose next frame is being read, one at its end.\<close>

definition frame_lies where
  "frame_lies e rest vac filled st frs k \<longleftrightarrow>
     (\<exists>p. filled (strm_fifo st) = [(p, MAX_FRAME_SIZE e)] \<and> p \<in> lc3_blocks e \<and> p \<notin> opt_set (active_buffer st)
        \<and> vac (strm_fifo st) = lc3_blocks e - {p} - opt_set (active_buffer st)
        \<and> take (length (frs ! (k mod length frs))) (drop p (slab_buffer st)) = frs ! (k mod length frs)
        \<and> rest (file_object (strm_file st)) = frames_bytes (drop (Suc (k mod length frs)) frs))"

definition frame_ready where
  "frame_ready e rest vac filled st loop frs k \<longleftrightarrow> strm_state st = STREAM_PLAYING \<and> (loop \<or> k < length frs)
     \<and> frame_lies e rest vac filled st frs k"

definition frame_pending where
  "frame_pending e rest vac filled st loop frs k \<longleftrightarrow> strm_state st = STREAM_PLAYING \<and> 0 < k \<and> (loop \<or> k \<le> length frs) \<and>
     filled (strm_fifo st) = [] \<and> vac (strm_fifo st) = lc3_blocks e - opt_set (active_buffer st)
     \<and> rest (file_object (strm_file st)) = frames_bytes (drop (Suc ((k - 1) mod length frs)) frs)"

definition frames_done where
  "frames_done e vac filled st loop frs k \<longleftrightarrow> strm_state st = STREAM_PLAYING_LAST_FRAME \<and> \<not> loop \<and> k = length frs \<and>
     filled (strm_fifo st) = [] \<and> vac (strm_fifo st) = lc3_blocks e - opt_set (active_buffer st)"

definition stream_rel ::
  "('f, 'd) lc3_env \<Rightarrow> ('f \<Rightarrow> u8 list) \<Rightarrow> ('d \<Rightarrow> nat set) \<Rightarrow> ('d \<Rightarrow> (nat \<times> nat) list) \<Rightarrow> lc3_library
   \<Rightarrow> ('f, 'd) lc3_stream \<Rightarrow> player \<Rightarrow> bool \<Rightarrow> bool" where
  "stream_rel e rest vac filled lib st pl pending \<longleftrightarrow>
     length (slab_buffer st) = SLAB_BUFFER_SIZE e \<and>
     (case pl of
        P_idle \<Rightarrow> strm_state st = STREAM_IDLE \<and> active_buffer st = None \<and> \<not> fifo_initialized st \<and> \<not> pending
      | P_ended \<Rightarrow> strm_state st = STREAM_ENDED \<and> active_buffer st = None \<and> fifo_initialized st \<and> \<not> pending
      | P_playing loop frs k \<Rightarrow> fifo_initialized st \<and> loop_stream st = loop \<and> frs \<noteq> []
          \<and> lib (strm_filename st) = Some frs \<and> opt_set (active_buffer st) \<subseteq> lc3_blocks e
          \<and> (if pending then frame_pending e rest vac filled st loop frs k
             else frame_ready e rest vac filled st loop frs k \<or> frames_done e vac filled st loop frs k))"

definition streamer_rel ::
  "('f, 'd) lc3_env \<Rightarrow> ('f \<Rightarrow> u8 list) \<Rightarrow> ('d \<Rightarrow> nat set) \<Rightarrow> ('d \<Rightarrow> (nat \<times> nat) list) \<Rightarrow> lc3_library
   \<Rightarrow> ('f, 'd) streamer \<Rightarrow> player list \<times> nat list \<Rightarrow> bool" where
  "streamer_rel e rest vac filled lib s a \<longleftrightarrow> (case a of (ps, q) \<Rightarrow>
     lc3_initialized s \<and> sd_init_success (lc3_sd s) \<and> lc3_work_q s = q \<and> distinct q
     \<and> length (lc3_streams s) = length ps \<and> set q \<subseteq> {..<length ps}
     \<and> (\<forall>i<length ps. stream_rel e rest vac filled lib (lc3_streams s ! i) (ps ! i) (i \<in> set q)))"

section \<open>Reading ahead\<close>

lemma fifo_init:
  "fifo_contract e vac filled \<Longrightarrow>
   \<exists>d'. data_fifo_init (ops e) (WB_UP (MAX_FRAME_SIZE e)) 2 d = (0, d') \<and> vac d' = lc3_blocks e \<and> filled d' = []"
  by (simp add: fifo_contract_def lc3_blocks_def)

lemma fifo_vacant:
  "fifo_contract e vac filled \<Longrightarrow> vac d \<noteq> {} \<Longrightarrow>
   \<exists>p d'. data_fifo_pointer_first_vacant_get (ops e) d = (0, p, d') \<and> p \<in> vac d \<and> vac d' = vac d - {p}
     \<and> filled d' = filled d"
  by (simp add: fifo_contract_def)

lemma fifo_lock:
  "fifo_contract e vac filled \<Longrightarrow> p \<notin> vac d \<Longrightarrow> filled d = [] \<Longrightarrow>
   \<exists>d'. data_fifo_block_lock (ops e) p (MAX_FRAME_SIZE e) d = (0, d') \<and> vac d' = vac d
     \<and> filled d' = [(p, MAX_FRAME_SIZE e)]"
  by (auto simp: fifo_contract_def dest!: spec [of _ p] spec [of _ d])

lemma fifo_last:
  "fifo_contract e vac filled \<Longrightarrow>
   case filled d of
     [] \<Rightarrow> (\<exists>p n d'. data_fifo_pointer_last_filled_get (ops e) d = (- ENOMSG, p, n, d')
       \<and> vac d' = vac d \<and> filled d' = [])
   | (p, n) # r \<Rightarrow> (\<exists>d'. data_fifo_pointer_last_filled_get (ops e) d = (0, p, n, d')
       \<and> vac d' = vac d \<and> filled d' = r)"
  by (simp add: fifo_contract_def)

lemma fifo_none_filled:
  "fifo_contract e vac filled \<Longrightarrow> filled d = [] \<Longrightarrow>
   \<exists>p n d'. data_fifo_pointer_last_filled_get (ops e) d = (- ENOMSG, p, n, d') \<and> vac d' = vac d \<and> filled d' = []"
  using fifo_last [of e vac filled d] by simp

lemma fifo_filled:
  "fifo_contract e vac filled \<Longrightarrow> filled d = [(p, n)] \<Longrightarrow>
   \<exists>d'. data_fifo_pointer_last_filled_get (ops e) d = (0, p, n, d') \<and> vac d' = vac d \<and> filled d' = []"
  using fifo_last [of e vac filled d] by simp

lemma fifo_free [simp]:
  "fifo_contract e vac filled \<Longrightarrow> vac (data_fifo_block_free (ops e) p d) = insert p (vac d)"
  "fifo_contract e vac filled \<Longrightarrow> filled (data_fifo_block_free (ops e) p d) = filled d"
  unfolding fifo_contract_def by blast+

lemma fifo_uninit: "fifo_contract e vac filled \<Longrightarrow> fst (data_fifo_uninit (ops e) d) = 0"
  unfolding fifo_contract_def by blast

lemma put_at:
  assumes works: "working_card (sd e) rest files" and fifo: "fifo_contract e vac filled"
    and st: "fifo_initialized st" "filled (strm_fifo st) = []"
    and p: "data_fifo_pointer_first_vacant_get (ops e) (strm_fifo st) = (0, p, d1)" "p \<notin> vac d1" "filled d1 = []"
    and rest: "rest (file_object (strm_file st)) = frame_bytes fr @ r"
    and fr: "fr \<noteq> []" "length fr < 65536" "length fr \<le> MAX_FRAME_SIZE e" "p + length fr \<le> length (slab_buffer st)"
  shows "\<exists>d f. put_next_frame_to_fifo e st = Some (0, st\<lparr>strm_fifo := d,
      slab_buffer := take p (slab_buffer st) @ fr @ drop (p + length fr) (slab_buffer st), strm_file := f\<rparr>)
    \<and> vac d = vac d1 \<and> filled d = [(p, MAX_FRAME_SIZE e)] \<and> rest (file_object f) = r"
proof -
  obtain f where f: "lc3_file_frame_get (sd e) (strm_file st) (slab_buffer st) p (MAX_FRAME_SIZE e)
      = Some (0, take p (slab_buffer st) @ fr @ drop (p + length fr) (slab_buffer st), f)" "rest (file_object f) = r"
    using frame_get_next [OF works rest fr] by blast
  obtain d2 where d2: "data_fifo_block_lock (ops e) p (MAX_FRAME_SIZE e) d1 = (0, d2)" "vac d2 = vac d1"
      "filled d2 = [(p, MAX_FRAME_SIZE e)]"
    using fifo_lock [OF fifo p(2,3)] by blast
  have "put_next_frame_to_fifo e st = Some (0, st\<lparr>strm_fifo := d2,
      slab_buffer := take p (slab_buffer st) @ fr @ drop (p + length fr) (slab_buffer st), strm_file := f\<rparr>)"
    using st(1) by (simp add: put_next_frame_to_fifo_def p(1) f(1) d2(1))
  then show ?thesis
    using d2(2,3) f(2) by blast
qed

lemma put_ok:
  assumes works: "working_card (sd e) rest files" and fifo: "fifo_contract e vac filled"
    and st: "fifo_initialized st" "vac (strm_fifo st) \<noteq> {}" "vac (strm_fifo st) \<subseteq> lc3_blocks e"
      "filled (strm_fifo st) = []" "length (slab_buffer st) = SLAB_BUFFER_SIZE e"
    and rest: "rest (file_object (strm_file st)) = frame_bytes fr @ r" and fits: "frame_fits e fr"
  shows "\<exists>p d b f. put_next_frame_to_fifo e st = Some (0, st\<lparr>strm_fifo := d, slab_buffer := b, strm_file := f\<rparr>)
    \<and> p \<in> vac (strm_fifo st) \<and> vac d = vac (strm_fifo st) - {p} \<and> filled d = [(p, MAX_FRAME_SIZE e)]
    \<and> length b = SLAB_BUFFER_SIZE e \<and> take (length fr) (drop p b) = fr \<and> rest (file_object f) = r"
proof -
  obtain p d1 where d1: "data_fifo_pointer_first_vacant_get (ops e) (strm_fifo st) = (0, p, d1)"
      "p \<in> vac (strm_fifo st)" "vac d1 = vac (strm_fifo st) - {p}" "filled d1 = []"
    using fifo_vacant [OF fifo st(2)] st(4) by auto
  have fr: "fr \<noteq> []" "length fr < 65536" "length fr \<le> MAX_FRAME_SIZE e" "p + length fr \<le> length (slab_buffer st)"
    using d1(2) st(3,5) fits by (auto simp: lc3_blocks_def frame_fits_def)
  have "p \<notin> vac d1"
    using d1(3) by simp
  then obtain d f where "put_next_frame_to_fifo e st = Some (0, st\<lparr>strm_fifo := d,
      slab_buffer := take p (slab_buffer st) @ fr @ drop (p + length fr) (slab_buffer st), strm_file := f\<rparr>)"
    "vac d = vac d1" "filled d = [(p, MAX_FRAME_SIZE e)]" "rest (file_object f) = r"
    using put_at [OF works fifo st(1,4) d1(1) _ d1(4) rest fr] by blast
  moreover have "length (take p (slab_buffer st) @ fr @ drop (p + length fr) (slab_buffer st)) = SLAB_BUFFER_SIZE e"
      "take (length fr) (drop p (take p (slab_buffer st) @ fr @ drop (p + length fr) (slab_buffer st))) = fr"
    using fr(4) st(5) by simp_all
  ultimately show ?thesis
    using d1(2,3) by metis
qed

text \<open>A block that does not hold the frame is overrun.\<close>

lemma put_overruns:
  assumes works: "working_card (sd e) rest files" and st: "fifo_initialized st"
    and p: "data_fifo_pointer_first_vacant_get (ops e) (strm_fifo st) = (0, p, d1)"
    and rest: "rest (file_object (strm_file st)) = frame_bytes fr @ r"
    and fr: "fr \<noteq> []" "length fr < 65536" "length fr \<le> MAX_FRAME_SIZE e" "length (slab_buffer st) < p + length fr"
  shows "put_next_frame_to_fifo e st = None"
  using frame_get_overruns [OF works rest fr] st by (simp add: put_next_frame_to_fifo_def p)

lemma put_end:
  assumes works: "working_card (sd e) rest files" and fifo: "fifo_contract e vac filled"
    and st: "fifo_initialized st" "vac (strm_fifo st) \<noteq> {}"
    and rest: "rest (file_object (strm_file st)) = []"
  shows "\<exists>d f. put_next_frame_to_fifo e st = Some (- ENODATA, st\<lparr>strm_fifo := d, strm_file := f\<rparr>)
    \<and> vac d = vac (strm_fifo st) \<and> filled d = filled (strm_fifo st)"
proof -
  obtain p d1 where d1: "data_fifo_pointer_first_vacant_get (ops e) (strm_fifo st) = (0, p, d1)"
      "p \<in> vac (strm_fifo st)" "vac d1 = vac (strm_fifo st) - {p}" "filled d1 = filled (strm_fifo st)"
    using fifo_vacant [OF fifo st(2)] by blast
  obtain f where f: "lc3_file_frame_get (sd e) (strm_file st) (slab_buffer st) p (MAX_FRAME_SIZE e)
      = Some (- ENODATA, slab_buffer st, f)"
    using frame_get_end [OF works rest] by blast
  have "put_next_frame_to_fifo e st
      = Some (- ENODATA, st\<lparr>strm_fifo := data_fifo_block_free (ops e) p d1, strm_file := f\<rparr>)"
    using st(1) by (simp add: put_next_frame_to_fifo_def d1(1) f stream_block_free_def)
  moreover have "vac (data_fifo_block_free (ops e) p d1) = vac (strm_fifo st)"
    using fifo d1(2,3) by auto
  moreover have "filled (data_fifo_block_free (ops e) p d1) = filled (strm_fifo st)"
    using fifo d1(4) by simp
  ultimately show ?thesis by blast
qed

lemma library_file:
  assumes "library_on_card e files lib" and "lib name = Some frs"
  shows "length SD_ROOT_PATH + length name \<le> PATH_MAX_LEN (sd e)" "list_all (frame_fits e) frs"
    "\<exists>h. hdr_file_id h = LC3_FILE_ID \<and> files (SD_ROOT_PATH @ name) = Some (header_bytes h @ frames_bytes frs)"
  using assms unfolding library_on_card_def by (auto dest!: spec [of _ name] simp: Let_def)

lemma library_open:
  assumes "working_card (sd e) rest files" and "library_on_card e files lib" and "lib name = Some frs"
    and "sd_init_success s"
  shows "\<exists>c'. lc3_file_open (sd e) c name s = Some (0, c') \<and> rest (file_object c') = frames_bytes frs"
proof -
  obtain h where "hdr_file_id h = LC3_FILE_ID" "files (SD_ROOT_PATH @ name) = Some (header_bytes h @ frames_bytes frs)"
    using library_file(3) [OF assms(2,3)] by blast
  then show ?thesis
    using file_open_ok [OF assms(1,4) library_file(1) [OF assms(2,3)]] by blast
qed

section \<open>Each request keeps the relation\<close>

lemma stream_rel_slab: "stream_rel e rest vac filled lib st pl b \<Longrightarrow> length (slab_buffer st) = SLAB_BUFFER_SIZE e"
  by (simp add: stream_rel_def)

lemma stream_rel_active:
  "stream_rel e rest vac filled lib st pl b \<Longrightarrow> active_buffer st = None \<or> fifo_initialized st"
  by (cases pl) (auto simp: stream_rel_def)

lemma active_free:
  "active_buffer st = None \<or> fifo_initialized st \<Longrightarrow> active_buffer_free e st = Some (st\<lparr>active_buffer := None,
      strm_fifo := (case active_buffer st of None \<Rightarrow> strm_fifo st
        | Some p \<Rightarrow> data_fifo_block_free (ops e) p (strm_fifo st))\<rparr>)"
  by (auto simp: active_buffer_free_def stream_block_free_def split: option.split)

lemma stream_close_rel:
  assumes "fifo_contract e vac filled" and "stream_rel e rest vac filled lib st pl False"
  shows "\<exists>st'. stream_close e st = Some (0, st') \<and> stream_rel e rest vac filled lib st' P_idle False"
proof -
  note act = active_free [OF stream_rel_active [OF assms(2)]]
  show ?thesis
    using stream_rel_slab [OF assms(2)] fifo_uninit [OF assms(1)]
    by (auto simp: stream_close_def act stream_rel_def Let_def split: prod.splits) (metis fst_conv)+
qed

lemma mod_successor:
  assumes "k mod n = (0 :: nat)" "0 < n" "0 < k" shows "Suc ((k - 1) mod n) = n"
  using assms by (cases k) (auto simp: mod_Suc split: if_splits)

lemma mod_next:
  assumes "k mod n \<noteq> (0 :: nat)" "0 < k" shows "Suc ((k - 1) mod n) = k mod n"
  using assms by (cases k) (auto simp: mod_Suc split: if_splits)

lemma drop_frames:
  "i < length frs \<Longrightarrow> frames_bytes (drop i frs) = frame_bytes (frs ! i) @ frames_bytes (drop (Suc i) frs)"
  by (simp flip: Cons_nth_drop_Suc)

lemma frame_of:
  "list_all (frame_fits e) frs \<Longrightarrow> frs \<noteq> [] \<Longrightarrow> frame_fits e (frs ! (k mod length frs))"
  by (simp add: list_all_length)

lemma WB_UP_pos: "0 < n \<Longrightarrow> 0 < WB_UP n"
  by (simp add: WB_UP_def div_greater_zero_iff)

lemma blocks_left: "frame_fits e fr \<Longrightarrow> lc3_blocks e - opt_set a \<noteq> {}"
  using WB_UP_pos [of "MAX_FRAME_SIZE e"] by (cases a; cases fr) (auto simp: lc3_blocks_def frame_fits_def)

text \<open>A frame read makes the stream ready again.\<close>

lemma put_ready:
  assumes works: "working_card (sd e) rest files" and fifo: "fifo_contract e vac filled"
    and st: "fifo_initialized st" "vac (strm_fifo st) = lc3_blocks e - opt_set (active_buffer st)"
      "filled (strm_fifo st) = []" "length (slab_buffer st) = SLAB_BUFFER_SIZE e"
    and frs: "frs \<noteq> []" "list_all (frame_fits e) frs"
    and rest: "rest (file_object (strm_file st)) = frames_bytes (drop (k mod length frs) frs)"
  shows "\<exists>d b f. put_next_frame_to_fifo e st = Some (0, st\<lparr>strm_fifo := d, slab_buffer := b, strm_file := f\<rparr>)
    \<and> length b = SLAB_BUFFER_SIZE e
    \<and> frame_lies e rest vac filled (st\<lparr>strm_fifo := d, slab_buffer := b, strm_file := f\<rparr>) frs k"
proof -
  let ?fr = "frs ! (k mod length frs)"
  have fits: "frame_fits e ?fr"
    using frame_of [OF frs(2,1)] .
  have rest': "rest (file_object (strm_file st)) = frame_bytes ?fr @ frames_bytes (drop (Suc (k mod length frs)) frs)"
    using rest frs(1) drop_frames by simp
  have vac: "vac (strm_fifo st) \<noteq> {}" "vac (strm_fifo st) \<subseteq> lc3_blocks e"
    using blocks_left [OF fits] by (auto simp: st(2))
  obtain p d b f where *:
      "put_next_frame_to_fifo e st = Some (0, st\<lparr>strm_fifo := d, slab_buffer := b, strm_file := f\<rparr>)"
      "p \<in> vac (strm_fifo st)" "vac d = vac (strm_fifo st) - {p}" "filled d = [(p, MAX_FRAME_SIZE e)]"
      "length b = SLAB_BUFFER_SIZE e" "take (length ?fr) (drop p b) = ?fr"
      "rest (file_object f) = frames_bytes (drop (Suc (k mod length frs)) frs)"
    using put_ok [OF works fifo st(1) vac st(3,4) rest' fits] by blast
  have "frame_lies e rest vac filled (st\<lparr>strm_fifo := d, slab_buffer := b, strm_file := f\<rparr>) frs k"
    using *(2-7) st(2) by (auto simp: frame_lies_def)
  then show ?thesis
    using *(1,5) by blast
qed

text \<open>The three outcomes of the work item: the next frame, the end, and the first frame again.\<close>

lemma load_next:
  assumes "working_card (sd e) rest files" "fifo_contract e vac filled"
    and rel: "stream_rel e rest vac filled lib st (P_playing loop frs k) True"
    and frs: "list_all (frame_fits e) frs" "k mod length frs \<noteq> 0"
  shows "\<exists>st'. next_frame_load e sdc st = Some st' \<and> stream_rel e rest vac filled lib st' (P_playing loop frs k) False"
proof -
  have k: "0 < k" "loop \<or> k < length frs"
    using rel frs(2) by (auto simp: stream_rel_def frame_pending_def le_less)
  have "rest (file_object (strm_file st)) = frames_bytes (drop (k mod length frs) frs)"
    using rel mod_next [OF frs(2) k(1)] by (simp add: stream_rel_def frame_pending_def)
  moreover have "fifo_initialized st" "filled (strm_fifo st) = []" "frs \<noteq> []"
      "vac (strm_fifo st) = lc3_blocks e - opt_set (active_buffer st)" "length (slab_buffer st) = SLAB_BUFFER_SIZE e"
    using rel by (simp_all add: stream_rel_def frame_pending_def)
  ultimately obtain d b f where *:
      "put_next_frame_to_fifo e st = Some (0, st\<lparr>strm_fifo := d, slab_buffer := b, strm_file := f\<rparr>)"
      "length b = SLAB_BUFFER_SIZE e"
      "frame_lies e rest vac filled (st\<lparr>strm_fifo := d, slab_buffer := b, strm_file := f\<rparr>) frs k"
    using put_ready [OF assms(1,2) _ _ _ _ _ frs(1), of st] by blast
  then show ?thesis
    using rel k(2) by (simp add: next_frame_load_def stream_rel_def frame_ready_def frame_pending_def)
qed

lemma load_end:
  assumes "working_card (sd e) rest files" "fifo_contract e vac filled"
    and rel: "stream_rel e rest vac filled lib st (P_playing False frs k) True"
    and frs: "list_all (frame_fits e) frs" "k mod length frs = 0"
  shows "\<exists>st'. next_frame_load e sdc st = Some st' \<and> stream_rel e rest vac filled lib st' (P_playing False frs k) False"
proof -
  have k: "frs \<noteq> []" "0 < k" "k \<le> length frs"
    using rel by (auto simp: stream_rel_def frame_pending_def)
  have "k = length frs"
    using k frs(2) by (metis le_neq_implies_less mod_less not_less0)
  have vac: "vac (strm_fifo st) \<noteq> {}"
    using rel blocks_left [OF frame_of [OF frs(1) k(1), of 0]] by (auto simp: stream_rel_def frame_pending_def)
  have "rest (file_object (strm_file st)) = []"
    using rel mod_successor [OF frs(2) _ k(2)] k(1) by (simp add: stream_rel_def frame_pending_def)
  then obtain d f where "put_next_frame_to_fifo e st = Some (- ENODATA, st\<lparr>strm_fifo := d, strm_file := f\<rparr>)"
      "vac d = vac (strm_fifo st)" "filled d = filled (strm_fifo st)"
    using put_end [OF assms(1,2) _ vac] rel by (auto simp: stream_rel_def)
  then show ?thesis
    using rel \<open>k = length frs\<close>
    by (simp add: next_frame_load_def stream_rel_def frame_pending_def frames_done_def)
qed

lemma load_again:
  assumes works: "working_card (sd e) rest files" and fifo: "fifo_contract e vac filled"
    and lib: "library_on_card e files lib" "sd_init_success sdc"
    and rel: "stream_rel e rest vac filled lib st (P_playing True frs k) True"
    and frs: "k mod length frs = 0"
  shows "\<exists>st'. next_frame_load e sdc st = Some st' \<and> stream_rel e rest vac filled lib st' (P_playing True frs k) False"
proof -
  have k: "frs \<noteq> []" "0 < k" "lib (strm_filename st) = Some frs"
    using rel by (auto simp: stream_rel_def frame_pending_def)
  have all: "list_all (frame_fits e) frs"
    using library_file(2) [OF lib(1) k(3)] .
  have vac: "vac (strm_fifo st) \<noteq> {}"
    using rel blocks_left [OF frame_of [OF all k(1), of 0]] by (auto simp: stream_rel_def frame_pending_def)
  have "rest (file_object (strm_file st)) = []"
    using rel mod_successor [OF frs(1) _ k(2)] k(1) by (simp add: stream_rel_def frame_pending_def)
  then obtain d f where end_reached:
      "put_next_frame_to_fifo e st = Some (- ENODATA, st\<lparr>strm_fifo := d, strm_file := f\<rparr>)"
      "vac d = vac (strm_fifo st)" "filled d = filled (strm_fifo st)"
    using put_end [OF works fifo _ vac] rel by (auto simp: stream_rel_def)
  obtain f1 where f1: "lc3_file_close (sd e) f = (0, f1)"
    using works unfolding working_card_def lc3_file_close_def sd_card_close_def
    by (metis (no_types, lifting) case_prod_beta fst_conv)
  obtain f2 where f2: "lc3_file_open (sd e) f1 (strm_filename st) sdc = Some (0, f2)"
      "rest (file_object f2) = frames_bytes frs"
    using library_open [OF works lib(1) k(3) lib(2)] by blast
  let ?st = "st\<lparr>strm_fifo := d, strm_file := f2\<rparr>"
  obtain d' b f' where *:
      "put_next_frame_to_fifo e ?st = Some (0, ?st\<lparr>strm_fifo := d', slab_buffer := b, strm_file := f'\<rparr>)"
      "length b = SLAB_BUFFER_SIZE e"
      "frame_lies e rest vac filled (?st\<lparr>strm_fifo := d', slab_buffer := b, strm_file := f'\<rparr>) frs k"
    using put_ready [OF works fifo, of ?st frs k] rel k(1) all f2(2) frs end_reached(2,3)
    by (auto simp: stream_rel_def frame_pending_def)
  show ?thesis
    using rel *(2,3) by (simp add: next_frame_load_def end_reached(1) stream_loop_def f1 f2(1) *(1) stream_rel_def
      frame_ready_def frame_pending_def)
qed

lemma load_rel:
  assumes "working_card (sd e) rest files" "fifo_contract e vac filled" "library_on_card e files lib" "sd_init_success sdc"
    and rel: "stream_rel e rest vac filled lib st pl True"
  shows "\<exists>st'. next_frame_load e sdc st = Some st' \<and> stream_rel e rest vac filled lib st' pl False"
proof -
  obtain loop frs k where pl: "pl = P_playing loop frs k"
    using rel by (cases pl) (auto simp: stream_rel_def)
  have frs: "list_all (frame_fits e) frs"
    using rel library_file(2) [OF assms(3)] by (auto simp: pl stream_rel_def)
  consider "k mod length frs \<noteq> 0" | "k mod length frs = 0" "loop" | "k mod length frs = 0" "\<not> loop"
    by blast
  then show ?thesis
  proof cases
    case 1
    then show ?thesis
      using load_next [OF assms(1,2) _ frs] rel by (simp add: pl)
  next
    case 2
    then show ?thesis
      using load_again [OF assms(1-4)] rel by (simp add: pl)
  next
    case 3
    then show ?thesis
      using load_end [OF assms(1,2) _ frs] rel by (simp add: pl)
  qed
qed

text \<open>Taking a frame.\<close>

lemma active_free_rel:
  assumes "fifo_contract e vac filled" and "fifo_initialized st"
    and "vac (strm_fifo st) = B - opt_set (active_buffer st)" and "opt_set (active_buffer st) \<subseteq> B"
  shows "\<exists>d. active_buffer_free e st = Some (st\<lparr>active_buffer := None, strm_fifo := d\<rparr>)
    \<and> vac d = B \<and> filled d = filled (strm_fifo st)"
  using assms(1,3,4) unfolding active_free [OF disjI2 [OF assms(2)]]
  by (intro exI [of _ "case active_buffer st of None \<Rightarrow> strm_fifo st
        | Some p \<Rightarrow> data_fifo_block_free (ops e) p (strm_fifo st)"])
    (auto simp: insert_absorb split: option.split)

text \<open>
  The reply to a request for stream \<open>i\<close>, whatever the other streams do: what is returned, what the
  stream becomes, and whether a frame is to be read.
\<close>

definition next_of ::
  "('f, 'd) lc3_env \<Rightarrow> ('f, 'd) lc3_stream \<Rightarrow> int \<Rightarrow> nat option \<Rightarrow> ('f, 'd) lc3_stream \<Rightarrow> bool" where
  "next_of e st ret p st' \<longleftrightarrow> (\<forall>i s. lc3_initialized s \<longrightarrow> i < length (lc3_streams s) \<longrightarrow> lc3_streams s ! i = st \<longrightarrow>
     lc3_streamer_next_frame_get e i s = Some (ret, p, set_stream i st'
       (if p = None then s else s\<lparr>lc3_work_q := k_work_submit i (lc3_work_q s)\<rparr>)))"

lemma next_ready:
  assumes fifo: "fifo_contract e vac filled"
    and rel: "stream_rel e rest vac filled lib st (P_playing loop frs k) False"
    and ready: "frame_ready e rest vac filled st loop frs k"
  shows "\<exists>p st'. next_of e st 0 (Some p) st' \<and> stream_rel e rest vac filled lib st' (P_playing loop frs (Suc k)) True
    \<and> take (length (frs ! (k mod length frs))) (drop p (slab_buffer st')) = frs ! (k mod length frs)"
proof -
  obtain p where p: "filled (strm_fifo st) = [(p, MAX_FRAME_SIZE e)]" "p \<in> lc3_blocks e" "p \<notin> opt_set (active_buffer st)"
      "vac (strm_fifo st) = lc3_blocks e - {p} - opt_set (active_buffer st)"
    using ready unfolding frame_ready_def frame_lies_def by blast
  obtain d where d: "active_buffer_free e st = Some (st\<lparr>active_buffer := None, strm_fifo := d\<rparr>)"
      "vac d = lc3_blocks e - {p}" "filled d = [(p, MAX_FRAME_SIZE e)]"
    using active_free_rel [OF fifo, of st "lc3_blocks e - {p}"] rel p by (auto simp: stream_rel_def)
  obtain d' where d': "data_fifo_pointer_last_filled_get (ops e) d = (0, p, MAX_FRAME_SIZE e, d')"
      "vac d' = vac d" "filled d' = []"
    using fifo_filled [OF fifo d(3)] by blast
  let ?st = "st\<lparr>strm_fifo := d', active_buffer := Some p\<rparr>"
  have "next_of e st 0 (Some p) ?st"
    using ready rel by (simp add: next_of_def lc3_streamer_next_frame_get_def d(1) d'(1) frame_ready_def stream_rel_def)
  moreover have "stream_rel e rest vac filled lib ?st (P_playing loop frs (Suc k)) True"
    using rel ready p(2) d(2) d'(2,3) by (auto simp: stream_rel_def frame_pending_def frame_ready_def frame_lies_def)
  moreover have "take (length (frs ! (k mod length frs))) (drop p (slab_buffer ?st)) = frs ! (k mod length frs)"
    using ready p(1) by (auto simp: frame_ready_def frame_lies_def)
  ultimately show ?thesis by blast
qed

lemma next_not_ready:
  assumes fifo: "fifo_contract e vac filled"
    and rel: "stream_rel e rest vac filled lib st (P_playing loop frs k) True"
  shows "\<exists>st'. next_of e st (- ENOMSG) None st' \<and> stream_rel e rest vac filled lib st' (P_playing loop frs k) True"
proof -
  have pend: "frame_pending e rest vac filled st loop frs k"
    using rel by (simp add: stream_rel_def)
  obtain d where d: "active_buffer_free e st = Some (st\<lparr>active_buffer := None, strm_fifo := d\<rparr>)"
      "vac d = lc3_blocks e" "filled d = []"
    using active_free_rel [OF fifo, of st "lc3_blocks e"] rel pend by (auto simp: stream_rel_def frame_pending_def)
  obtain p n d' where d': "data_fifo_pointer_last_filled_get (ops e) d = (- ENOMSG, p, n, d')"
      "vac d' = vac d" "filled d' = []"
    using fifo_none_filled [OF fifo d(3)] by blast
  let ?st = "st\<lparr>active_buffer := None, strm_fifo := d'\<rparr>"
  have "next_of e st (- ENOMSG) None ?st"
    using pend rel by (simp add: next_of_def lc3_streamer_next_frame_get_def d(1) d'(1) frame_pending_def stream_rel_def)
  moreover have "stream_rel e rest vac filled lib ?st (P_playing loop frs k) True"
    using rel pend d(2) d'(2,3) by (simp add: stream_rel_def frame_pending_def)
  ultimately show ?thesis by blast
qed

lemma next_end:
  assumes fifo: "fifo_contract e vac filled"
    and rel: "stream_rel e rest vac filled lib st (P_playing loop frs k) False"
    and "frames_done e vac filled st loop frs k"
  shows "\<exists>st'. next_of e st (- ENODATA) None st' \<and> stream_rel e rest vac filled lib st' P_ended False"
proof -
  obtain d where d: "active_buffer_free e st = Some (st\<lparr>active_buffer := None, strm_fifo := d\<rparr>)"
    using active_free_rel [OF fifo, of st "lc3_blocks e"] rel \<open>frames_done e vac filled st loop frs k\<close>
    by (auto simp: stream_rel_def frames_done_def)
  let ?st = "st\<lparr>active_buffer := None, strm_fifo := d, strm_state := STREAM_ENDED\<rparr>"
  have "next_of e st (- ENODATA) None ?st"
    using \<open>frames_done e vac filled st loop frs k\<close>
    by (simp add: next_of_def lc3_streamer_next_frame_get_def d frames_done_def)
  moreover have "stream_rel e rest vac filled lib ?st P_ended False"
    using rel by (simp add: stream_rel_def)
  ultimately show ?thesis by blast
qed

text \<open>Registering.\<close>

lemma idle_slot:
  assumes "length xs = length ps"
    and "\<And>i. i < length ps \<Longrightarrow> strm_state (xs ! i) = STREAM_IDLE \<longleftrightarrow> ps ! i = P_idle"
  shows "free_slot n xs = idle_player n ps"
  using assms
proof (induction xs ps arbitrary: n rule: list_induct2)
  case (Cons x xs p ps)
  have "free_slot (Suc n) xs = idle_player (Suc n) ps"
    using Cons.prems [of "Suc _"] by (intro Cons.IH) auto
  then show ?case
    using Cons.prems [of 0] by simp
qed simp

lemma idle_player_idle: "idle_player n ps = Some i \<Longrightarrow> n \<le> i \<and> i < n + length ps \<and> ps ! (i - n) = P_idle"
proof (induction ps arbitrary: n)
  case (Cons p ps)
  then show ?case
    by (cases "p = P_idle") (fastforce dest!: Cons.IH simp: nth_Cons')+
qed simp

lemma stream_rel_idle:
  "stream_rel e rest vac filled lib st pl b \<Longrightarrow> strm_state st = STREAM_IDLE \<longleftrightarrow> pl = P_idle"
  by (cases pl) (auto simp: stream_rel_def frame_pending_def frame_ready_def frames_done_def split: if_splits)

lemma rel_stream:
  "streamer_rel e rest vac filled lib s (ps, q) \<Longrightarrow> i < length ps \<Longrightarrow>
   stream_rel e rest vac filled lib (lc3_streams s ! i) (ps ! i) (i \<in> set q)"
  by (simp add: streamer_rel_def)

lemma rel_update:
  assumes "streamer_rel e rest vac filled lib s (ps, q)"
    and "stream_rel e rest vac filled lib st' pl' (i \<in> set q)"
  shows "streamer_rel e rest vac filled lib (set_stream i st' s) (ps[i := pl'], q)"
proof -
  have "stream_rel e rest vac filled lib ((lc3_streams s)[i := st'] ! j) (ps[i := pl'] ! j) (j \<in> set q)"
    if "j < length ps" for j
    using assms that by (cases "j = i") (auto simp: streamer_rel_def)
  then show ?thesis
    using assms(1) by (simp add: streamer_rel_def set_stream_def)
qed

lemma library_missing:
  assumes "working_card (sd e) rest files" and "library_on_card e files lib" and "lib name = None"
    and "sd_init_success sdc"
  shows "\<exists>ret c'. lc3_file_open (sd e) c name sdc = Some (ret, c') \<and> ret < 0"
proof (cases "length SD_ROOT_PATH + length name \<le> PATH_MAX_LEN (sd e)")
  case False
  then show ?thesis
    using assms(4) by (simp add: lc3_file_open_def sd_card_open_def)
next
  case True
  then have "files (SD_ROOT_PATH @ name) = None"
    using assms(2,3) unfolding library_on_card_def by (auto dest!: spec [of _ name] simp: Let_def)
  then have "fst (fs_open (sd e) FS_O_READ (SD_ROOT_PATH @ name) (fs_file_init (sd e))) < 0"
    using assms(1) unfolding working_card_def by (auto dest!: spec [of _ "SD_ROOT_PATH @ name"])
  moreover have "take (PATH_MAX_LEN (sd e) - length SD_ROOT_PATH) name = name"
    using True by simp
  ultimately show ?thesis
    using assms(4) True
    by (auto simp: lc3_file_open_def sd_card_open_def strcat_def split: prod.splits)
qed

lemma register_missing:
  assumes "working_card (sd e) rest files" "library_on_card e files lib" "lib name = None"
    and rel: "stream_rel e rest vac filled lib st P_idle False" and s: "sd_init_success (lc3_sd s)" "lc3_initialized s"
    "free_slot 0 (lc3_streams s) = Some i" "lc3_streams s ! i = st"
  shows "\<exists>ret j st'. lc3_streamer_stream_register e (Some name) loop s = Some (ret, j, set_stream i st' s) \<and> ret < 0
    \<and> stream_rel e rest vac filled lib st' P_idle False"
proof -
  obtain ret f where f: "lc3_file_open (sd e) (strm_file st) name (lc3_sd s) = Some (ret, f)" "ret < 0"
    using library_missing [OF assms(1-3) s(1)] by blast
  have "set_stream i st s = s"
    using s(4) by (auto simp: set_stream_def)
  moreover have "stream_rel e rest vac filled lib (st\<lparr>strm_file := f\<rparr>) P_idle False"
    using rel by (simp add: stream_rel_def)
  ultimately show ?thesis
    using f s rel unfolding lc3_streamer_stream_register_def
    by (cases "FATFS_MAX_LFN (sd e) - 1 < length name") (force simp: Let_def)+
qed

lemma register_start:
  assumes works: "working_card (sd e) rest files" and fifo: "fifo_contract e vac filled"
    and name: "length SD_ROOT_PATH + length name \<le> PATH_MAX_LEN (sd e)"
      "files (SD_ROOT_PATH @ name) = Some (header_bytes h @ bs)" "hdr_file_id h = LC3_FILE_ID"
    and s: "sd_init_success (lc3_sd s)" "lc3_initialized s" "free_slot 0 (lc3_streams s) = Some i"
      "lc3_streams s ! i = st" "i \<notin> set (lc3_work_q s)"
  shows "\<exists>f d. rest (file_object f) = bs \<and> vac d = lc3_blocks e \<and> filled d = []
    \<and> lc3_streamer_stream_register e (Some name) loop s = do {
      (ret, st) \<leftarrow> put_next_frame_to_fifo e
         (st\<lparr>strm_file := f, strm_filename := name, strm_fifo := d, fifo_initialized := True\<rparr>);
      if ret \<noteq> 0 then Some (ret, Some i, set_stream i (st\<lparr>strm_state := STREAM_ENDED\<rparr>) s)
      else Some (0, Some i, set_stream i (st\<lparr>strm_state := STREAM_PLAYING, loop_stream := loop\<rparr>) s) }"
proof -
  obtain f where f: "lc3_file_open (sd e) (strm_file st) name (lc3_sd s) = Some (0, f)" "rest (file_object f) = bs"
    using file_open_ok [OF works s(1) name] by blast
  obtain d where d: "data_fifo_init (ops e) (WB_UP (MAX_FRAME_SIZE e)) 2 (strm_fifo st) = (0, d)"
      "vac d = lc3_blocks e" "filled d = []"
    using fifo_init [OF fifo] by blast
  have "\<not> FATFS_MAX_LFN (sd e) - 1 < length name"
    using name(1) by (simp add: PATH_MAX_LEN_def SD_ROOT_PATH_def)
  then have "lc3_streamer_stream_register e (Some name) loop s = do {
      (ret, st) \<leftarrow> put_next_frame_to_fifo e
         (st\<lparr>strm_file := f, strm_filename := name, strm_fifo := d, fifo_initialized := True\<rparr>);
      if ret \<noteq> 0 then Some (ret, Some i, set_stream i (st\<lparr>strm_state := STREAM_ENDED\<rparr>) s)
      else Some (0, Some i, set_stream i (st\<lparr>strm_state := STREAM_PLAYING, loop_stream := loop\<rparr>) s) }"
    using s by (simp add: lc3_streamer_stream_register_def f(1) d(1) LC3_STREAMER_BUFFER_NUM_FRAMES_def)
  then show ?thesis
    using f(2) d(2,3) by blast
qed

lemma register_found:
  assumes works: "working_card (sd e) rest files" and fifo: "fifo_contract e vac filled"
    and lib: "library_on_card e files lib" "lib name = Some frs"
    and rel: "stream_rel e rest vac filled lib st P_idle False" and s: "sd_init_success (lc3_sd s)" "lc3_initialized s"
    "free_slot 0 (lc3_streams s) = Some i" "lc3_streams s ! i = st" "i \<notin> set (lc3_work_q s)"
  shows "\<exists>ret st'. lc3_streamer_stream_register e (Some name) loop s = Some (ret, Some i, set_stream i st' s)
    \<and> (if frs = [] then ret < 0 \<and> stream_rel e rest vac filled lib st' P_ended False
        else ret = 0 \<and> stream_rel e rest vac filled lib st' (P_playing loop frs 0) False)"
proof -
  obtain h where h: "files (SD_ROOT_PATH @ name) = Some (header_bytes h @ frames_bytes frs)" "hdr_file_id h = LC3_FILE_ID"
    using library_file(3) [OF lib] by blast
  obtain f d where f: "rest (file_object f) = frames_bytes frs" and d: "vac d = lc3_blocks e" "filled d = []"
    and reg: "lc3_streamer_stream_register e (Some name) loop s = do {
      (ret, st) \<leftarrow> put_next_frame_to_fifo e
         (st\<lparr>strm_file := f, strm_filename := name, strm_fifo := d, fifo_initialized := True\<rparr>);
      if ret \<noteq> 0 then Some (ret, Some i, set_stream i (st\<lparr>strm_state := STREAM_ENDED\<rparr>) s)
      else Some (0, Some i, set_stream i (st\<lparr>strm_state := STREAM_PLAYING, loop_stream := loop\<rparr>) s) }"
    using register_start [OF works fifo library_file(1) [OF lib] h s, of loop] by blast
  let ?st = "st\<lparr>strm_file := f, strm_filename := name, strm_fifo := d, fifo_initialized := True\<rparr>"
  have slab: "length (slab_buffer st) = SLAB_BUFFER_SIZE e" "active_buffer st = None"
    using rel by (simp_all add: stream_rel_def)
  show ?thesis
  proof (cases "frs = []")
    case True
    then obtain d' f' where "put_next_frame_to_fifo e ?st = Some (- ENODATA, ?st\<lparr>strm_fifo := d', strm_file := f'\<rparr>)"
      using put_end [OF works fifo, of ?st] f d(1) by (auto simp: lc3_blocks_def)
    then have "lc3_streamer_stream_register e (Some name) loop s = Some (- ENODATA, Some i,
        set_stream i (?st\<lparr>strm_fifo := d', strm_file := f', strm_state := STREAM_ENDED\<rparr>) s)"
      by (simp add: reg)
    moreover have "stream_rel e rest vac filled lib
        (?st\<lparr>strm_fifo := d', strm_file := f', strm_state := STREAM_ENDED\<rparr>) P_ended False"
      using slab by (simp add: stream_rel_def)
    moreover have "- ENODATA < (0 :: int)" by simp
    ultimately show ?thesis
      using True by metis
  next
    case False
    then obtain d' b f' where *:
        "put_next_frame_to_fifo e ?st = Some (0, ?st\<lparr>strm_fifo := d', slab_buffer := b, strm_file := f'\<rparr>)"
        "length b = SLAB_BUFFER_SIZE e"
        "frame_lies e rest vac filled (?st\<lparr>strm_fifo := d', slab_buffer := b, strm_file := f'\<rparr>) frs 0"
      using put_ready [OF works fifo _ _ _ _ False library_file(2) [OF lib], of ?st 0] f d slab by auto
    let ?st' = "?st\<lparr>strm_fifo := d', slab_buffer := b, strm_file := f', strm_state := STREAM_PLAYING, loop_stream := loop\<rparr>"
    have "lc3_streamer_stream_register e (Some name) loop s = Some (0, Some i, set_stream i ?st' s)"
      using *(1) by (simp add: reg)
    moreover have "stream_rel e rest vac filled lib ?st' (P_playing loop frs 0) False"
      using *(2,3) False slab lib(2) by (simp add: stream_rel_def frame_ready_def frame_lies_def)
    ultimately show ?thesis
      using False by metis
  qed
qed

section \<open>The streamer implements the players\<close>

lemma refine_register:
  assumes "working_card (sd e) rest files" "fifo_contract e vac filled" "library_on_card e files lib"
    and R: "streamer_rel e rest vac filled lib s (ps, q)"
    and step: "player_step lib (Req_register name loop) (ps, q) = Some (a, t)"
  shows "\<exists>b s'. streamer_step e (Req_register name loop) s = Some (b, s') \<and> replies b a
    \<and> streamer_rel e rest vac filled lib s' t"
proof -
  have s: "lc3_initialized s" "sd_init_success (lc3_sd s)" "lc3_work_q s = q" "length (lc3_streams s) = length ps"
    using R by (simp_all add: streamer_rel_def)
  have slot: "free_slot 0 (lc3_streams s) = idle_player 0 ps"
    using rel_stream [OF R] stream_rel_idle by (intro idle_slot s(4)) blast
  show ?thesis
  proof (cases "idle_player 0 ps")
    case None
    then show ?thesis
      using s step R slot by (cases "FATFS_MAX_LFN (sd e) - 1 < length name")
        (auto simp: lc3_streamer_stream_register_def)
  next
    case (Some i)
    then have i: "i < length ps" "ps ! i = P_idle"
      using idle_player_idle [OF Some] by simp_all
    have "i \<notin> set q" and rel: "stream_rel e rest vac filled lib (lc3_streams s ! i) P_idle False"
      using rel_stream [OF R i(1)] by (auto simp: i(2) stream_rel_def)
    have upd: "streamer_rel e rest vac filled lib (set_stream i st' s) (ps[i := pl'], q)"
      if "stream_rel e rest vac filled lib st' pl' False" for st' pl'
      using rel_update [OF R, of st' pl' i] that \<open>i \<notin> set q\<close> by simp
    have idx: "free_slot 0 (lc3_streams s) = Some i" "i \<notin> set (lc3_work_q s)"
      using slot Some s(3) \<open>i \<notin> set q\<close> by simp_all
    show ?thesis
    proof (cases "lib name")
      case None
      obtain ret j st' where reg: "lc3_streamer_stream_register e (Some name) loop s = Some (ret, j, set_stream i st' s)"
          "ret < 0" "stream_rel e rest vac filled lib st' P_idle False"
        using register_missing [OF assms(1,3) None rel s(2,1) idx(1) refl] by blast
      have "ps[i := P_idle] = ps"
        using i(2) by (metis list_update_id)
      then show ?thesis
        using upd [OF reg(3)] reg(1,2) step None Some by simp
    next
      case (Some frs)
      obtain ret st' where reg: "lc3_streamer_stream_register e (Some name) loop s = Some (ret, Some i, set_stream i st' s)"
          "if frs = [] then ret < 0 \<and> stream_rel e rest vac filled lib st' P_ended False
           else ret = 0 \<and> stream_rel e rest vac filled lib st' (P_playing loop frs 0) False"
        using register_found [OF assms(1-3) Some rel s(2,1) idx(1) refl idx(2)] by blast
      then show ?thesis
        using upd [of st'] step Some \<open>idle_player 0 ps = Some i\<close> by (cases frs) auto
    qed
  qed
qed

lemma refine_next:
  assumes fifo: "fifo_contract e vac filled"
    and R: "streamer_rel e rest vac filled lib s (ps, q)"
    and step: "player_step lib (Req_next i) (ps, q) = Some (a, t)"
  shows "\<exists>b s'. streamer_step e (Req_next i) s = Some (b, s') \<and> replies b a
    \<and> streamer_rel e rest vac filled lib s' t"
proof (cases "i < length ps")
  case False
  then show ?thesis
    using R step by (auto simp: lc3_streamer_next_frame_get_def streamer_rel_def)
next
  case True
  have s: "lc3_initialized s" "i < length (lc3_streams s)" "lc3_work_q s = q"
    using R True by (simp_all add: streamer_rel_def)
  have rel: "stream_rel e rest vac filled lib (lc3_streams s ! i) (ps ! i) (i \<in> set q)"
    using rel_stream [OF R True] .
  show ?thesis
  proof (cases "ps ! i")
    case (P_playing loop frs k)
    show ?thesis
    proof (cases "i \<in> set q")
      case True
      then obtain st' where st': "next_of e (lc3_streams s ! i) (- ENOMSG) None st'"
          "stream_rel e rest vac filled lib st' (P_playing loop frs k) True"
        using next_not_ready [OF fifo, of rest lib "lc3_streams s ! i" loop frs k] rel P_playing by auto
      have "ps[i := P_playing loop frs k] = ps"
        using P_playing by (metis list_update_id)
      then show ?thesis
        using rel_update [OF R, of st' "P_playing loop frs k" i] st' s step True P_playing \<open>i < length ps\<close>
        by (simp add: next_of_def next_answer_def)
    next
      case False
      then consider "frame_ready e rest vac filled (lc3_streams s ! i) loop frs k"
        | "frames_done e vac filled (lc3_streams s ! i) loop frs k"
        using rel P_playing by (auto simp: stream_rel_def)
      then show ?thesis
      proof cases
        case 1
        obtain p st' where st': "next_of e (lc3_streams s ! i) 0 (Some p) st'"
            "stream_rel e rest vac filled lib st' (P_playing loop frs (Suc k)) True"
            "take (length (frs ! (k mod length frs))) (drop p (slab_buffer st')) = frs ! (k mod length frs)"
          using next_ready [OF fifo _ 1, of lib] rel False P_playing by auto
        have "streamer_rel e rest vac filled lib
            (set_stream i st' (s\<lparr>lc3_work_q := q @ [i]\<rparr>)) (ps[i := P_playing loop frs (Suc k)], q @ [i])"
        proof -
          have "stream_rel e rest vac filled lib ((lc3_streams s)[i := st'] ! j)
              (ps[i := P_playing loop frs (Suc k)] ! j) (j \<in> set (q @ [i]))" if "j < length ps" for j
            using R that st'(2) by (cases "j = i") (auto simp: streamer_rel_def)
          then show ?thesis
            using R False True by (simp add: streamer_rel_def set_stream_def)
        qed
        then show ?thesis
          using st' s step False P_playing True 1
          by (auto simp: next_of_def next_answer_def k_work_submit_def frame_ready_def set_stream_def)
      next
        case 2
        then obtain st' where st': "next_of e (lc3_streams s ! i) (- ENODATA) None st'"
            "stream_rel e rest vac filled lib st' P_ended False"
          using next_end [OF fifo _ 2, of rest lib] rel False P_playing by auto
        then show ?thesis
          using rel_update [OF R, of st' P_ended i] s step False P_playing True 2
          by (simp add: next_of_def next_answer_def frames_done_def)
      qed
    qed
  qed (use R s step rel True in \<open>simp_all add: next_answer_def lc3_streamer_next_frame_get_def stream_rel_def\<close>)
qed

lemma refine_work:
  assumes "working_card (sd e) rest files" "fifo_contract e vac filled" "library_on_card e files lib"
    and R: "streamer_rel e rest vac filled lib s (ps, q)"
    and step: "player_step lib Req_work (ps, q) = Some (a, t)"
  shows "\<exists>b s'. streamer_step e Req_work s = Some (b, s') \<and> replies b a \<and> streamer_rel e rest vac filled lib s' t"
proof (cases q)
  case Nil
  then show ?thesis
    using R step by (auto simp: lc3_streamer_work_def streamer_rel_def)
next
  case (Cons i q')
  have s: "i < length ps" "length (lc3_streams s) = length ps" "lc3_work_q s = i # q'" "i \<notin> set q'"
    using R Cons by (auto simp: streamer_rel_def)
  obtain st' where st': "next_frame_load e (lc3_sd s) (lc3_streams s ! i) = Some st'"
      "stream_rel e rest vac filled lib st' (ps ! i) False"
    using load_rel [OF assms(1-3), of "lc3_sd s" "lc3_streams s ! i" "ps ! i"] rel_stream [OF R s(1)] R Cons
    by (auto simp: streamer_rel_def)
  have "stream_rel e rest vac filled lib ((lc3_streams s)[i := st'] ! j) (ps ! j) (j \<in> set q')" if "j < length ps" for j
    using R that st'(2) s(2,4) Cons by (cases "j = i") (auto simp: streamer_rel_def)
  then have "streamer_rel e rest vac filled lib (set_stream i st' (s\<lparr>lc3_work_q := q'\<rparr>)) (ps, q')"
    using R Cons by (simp add: streamer_rel_def set_stream_def)
  then show ?thesis
    using st'(1) s step Cons by (simp add: lc3_streamer_work_def mem_simps)
qed

lemma refine_close:
  assumes fifo: "fifo_contract e vac filled"
    and R: "streamer_rel e rest vac filled lib s (ps, q)"
    and step: "player_step lib (Req_close i) (ps, q) = Some (a, t)"
  shows "\<exists>b s'. streamer_step e (Req_close i) s = Some (b, s') \<and> replies b a
    \<and> streamer_rel e rest vac filled lib s' t"
proof (cases "i < length ps")
  case False
  then show ?thesis
    using R step by (auto simp: lc3_streamer_stream_close_def streamer_rel_def)
next
  case True
  have s: "lc3_initialized s" "i < length (lc3_streams s)" "i \<notin> set q"
    using R True step by (auto simp: streamer_rel_def split: if_splits)
  then obtain st' where "stream_close e (lc3_streams s ! i) = Some (0, st')"
      "stream_rel e rest vac filled lib st' P_idle False"
    using stream_close_rel [OF fifo, of rest lib "lc3_streams s ! i" "ps ! i"] rel_stream [OF R True] by auto
  then show ?thesis
    using rel_update [OF R, of st' P_idle i] s step True by (simp add: lc3_streamer_stream_close_def)
qed

lemma refine_step:
  assumes "working_card (sd e) rest files" "fifo_contract e vac filled" "library_on_card e files lib"
    and "streamer_rel e rest vac filled lib s t" and "player_step lib r t = Some (a, t')"
  shows "\<exists>b s'. streamer_step e r s = Some (b, s') \<and> replies b a \<and> streamer_rel e rest vac filled lib s' t'"
proof (cases t)
  case (Pair ps q)
  show ?thesis
  proof (cases r)
    case (Req_register name loop)
    then show ?thesis
      using refine_register [OF assms(1-3)] assms(4,5) unfolding Pair by blast
  next
    case (Req_next i)
    then show ?thesis
      using refine_next [OF assms(2)] assms(4,5) unfolding Pair by blast
  next
    case Req_work
    then show ?thesis
      using refine_work [OF assms(1-3)] assms(4,5) unfolding Pair by blast
  next
    case (Req_close i)
    then show ?thesis
      using refine_close [OF assms(2)] assms(4,5) unfolding Pair by blast
  qed
qed

lemma refine_run:
  assumes "working_card (sd e) rest files" "fifo_contract e vac filled" "library_on_card e files lib"
  shows "streamer_rel e rest vac filled lib s t \<Longrightarrow> player_run lib rs t = Some as \<Longrightarrow>
    \<exists>bs. streamer_run e rs s = Some bs \<and> list_all2 replies bs as"
proof (induction rs arbitrary: s t as)
  case (Cons r rs)
  obtain a t' as' where step: "player_step lib r t = Some (a, t')" "player_run lib rs t' = Some as'" "as = a # as'"
    using Cons.prems(2) by (auto split: bind_splits)
  obtain b s' where b: "streamer_step e r s = Some (b, s')" "replies b a" "streamer_rel e rest vac filled lib s' t'"
    using refine_step [OF assms Cons.prems(1) step(1)] by blast
  obtain bs where "streamer_run e rs s' = Some bs" "list_all2 replies bs as'"
    using Cons.IH [OF b(3) step(2)] by blast
  then show ?case
    using b(1,2) step(3) by simp
qed simp

lemma boot_rel:
  assumes "lc3_streamer_init e (lc3_boot e f d) = (0, s)"
  shows "streamer_rel e rest vac filled lib s (replicate (MAX_NUM_STREAMS e) P_idle, [])"
  using assms
  by (auto simp: lc3_streamer_init_def lc3_boot_def lc3_file_init_def sd_card_init_def streamer_rel_def
      stream_rel_def Let_def split: if_splits)

text \<open>C24: The LC3 streamer delivers files frame by frame. On a card and a FIFO that work, if every frame
  of the library fits into its block, every sequence of registrations, requests for the next frame,
  executions of the work queue and closings (of streams whose next frame is not still to be read),
  starting from the initialised module, is answered as a table of players answers it: a registered
  file is delivered from its first frame to its last, in order and over again when it loops, each
  request either gets the next frame or the message that it is not yet read, and the end of a file
  is reported once, whatever the other streams do.\<close>

theorem streamer_implements_players:
  assumes "working_card (sd e) rest files" "fifo_contract e vac filled" "library_on_card e files lib"
    and "lc3_streamer_init e (lc3_boot e f d) = (0, s)"
    and "player_run lib rs (replicate (MAX_NUM_STREAMS e) P_idle, []) = Some as"
  shows "\<exists>bs. streamer_run e rs s = Some bs \<and> list_all2 replies bs as"
  using refine_run [OF assms(1-3) boot_rel [OF assms(4)] assms(5)] .

text \<open>A card with one file of two frames, and a FIFO kept as two lists.\<close>

type_synonym example_fifo = "nat list \<times> (nat \<times> nat) list"

definition example_fifo_ops :: "example_fifo fifo_ops" where
  "example_fifo_ops =
     \<lparr>data_fifo_init = (\<lambda>b n d. (0, ([0, b], []))),
      data_fifo_pointer_first_vacant_get = (\<lambda>(v, l). case v of [] \<Rightarrow> (- ENOMEM, 0, (v, l)) | p # v' \<Rightarrow> (0, p, (removeAll p v', l))),
      data_fifo_block_lock = (\<lambda>p n (v, l). (0, (v, l @ [(p, n)]))),
      data_fifo_pointer_last_filled_get = (\<lambda>(v, l). case l of [] \<Rightarrow> (- ENOMSG, 0, 0, (v, l))
         | (p, n) # l' \<Rightarrow> (0, p, n, (v, l'))),
      data_fifo_block_free = (\<lambda>p (v, l). (p # v, l)),
      data_fifo_uninit = (\<lambda>d. (0, d))\<rparr>"

definition example_header :: lc3_file_header where
  "example_header = \<lparr>hdr_file_id = LC3_FILE_ID, hdr_size = 18, hdr_sample_rate = 480, hdr_bit_rate = 960,
     hdr_channels = 1, hdr_frame_duration = 1000, hdr_rfu = 0, hdr_signal_len_lsb = 960, hdr_signal_len_msb = 0\<rparr>"

definition example_library :: lc3_library where
  "example_library name = (if name = ''a.lc3'' then Some [[1, 2], [3]] else None)"

definition example_files :: "string \<Rightarrow> u8 list option" where
  "example_files path = (if path = ''/SD:/a.lc3'' then Some (header_bytes example_header @ frames_bytes [[1, 2], [3]]) else None)"

definition example_sd :: "u8 list sd_env" where
  "example_sd =
     \<lparr>FATFS_MAX_LFN = 255, FR_INVALID_NAME = 6, fs_file_init = [],
      fs_open = (\<lambda>flags path f. case example_files path of None \<Rightarrow> (- ENOENT, f) | Some bs \<Rightarrow> (0, bs)),
      fs_read = (\<lambda>n f. (int (length (take n f)), take n f, drop n f)),
      fs_seek_end = (\<lambda>f. (0, f)), fs_write = (\<lambda>bs f. (int (length bs), f)), fs_close = (\<lambda>f. (0, f)),
      fs_opendir = (\<lambda>path. Inr []), fs_closedir = 0, disk_access_init = 0, disk_sector_count = 0,
      disk_sector_size = 0, fs_mount = 0, slab_content = (\<lambda>n. [])\<rparr>"

definition example_ctx :: "u8 list lc3_file_ctx" where
  "example_ctx = \<lparr>file_object = [], lc3_header = example_header, number_of_samples = 0\<rparr>"

definition example_lc3 :: "nat \<Rightarrow> (u8 list, example_fifo) lc3_env" where
  "example_lc3 n = \<lparr>sd = example_sd, ops = example_fifo_ops, MAX_FRAME_SIZE = n, MAX_NUM_STREAMS = 2,
     stack_ctx = example_ctx\<rparr>"

lemma example_card: "working_card (sd (example_lc3 n)) id example_files"
  by (auto simp: working_card_def example_lc3_def example_sd_def split: option.split)

lemma example_fifo_contract: "fifo_contract (example_lc3 n) (\<lambda>d. set (fst d)) snd"
  unfolding fifo_contract_def
  by (auto simp: example_lc3_def example_fifo_ops_def split: list.split)

lemma example_header_on_card:
  "\<exists>h. hdr_file_id h = LC3_FILE_ID \<and> header_bytes example_header = header_bytes h"
  by (rule exI [of _ example_header]) (simp add: example_header_def)

lemma example_library_on_card: "library_on_card (example_lc3 251) example_files example_library"
  using example_header_on_card
  by (auto simp: library_on_card_def example_library_def example_files_def SD_ROOT_PATH_def Let_def PATH_MAX_LEN_def
      example_lc3_def example_sd_def frame_fits_def WB_UP_def SLAB_BUFFER_SIZE_def
      LC3_STREAMER_BUFFER_NUM_FRAMES_def)

theorem streamer_implements_players_witness:
  "\<exists>bs. streamer_run (example_lc3 251)
       [Req_register ''a.lc3'' False, Req_next 0, Req_next 0, Req_work, Req_next 0, Req_work, Req_next 0, Req_next 0]
       (snd (lc3_streamer_init (example_lc3 251) (lc3_boot (example_lc3 251) example_ctx ([], [])))) = Some bs
     \<and> list_all2 replies bs [Ans_registered 0, Ans_frame [1, 2], Ans_not_ready, Ans_done, Ans_frame [3], Ans_done,
         Ans_end, Ans_fault]"
proof -
  have "lc3_streamer_init (example_lc3 251) (lc3_boot (example_lc3 251) example_ctx ([], []))
      = (0, snd (lc3_streamer_init (example_lc3 251) (lc3_boot (example_lc3 251) example_ctx ([], []))))"
    by (simp add: lc3_streamer_init_def lc3_boot_def lc3_file_init_def sd_card_init_def example_lc3_def example_sd_def Let_def)
  moreover have "player_run example_library
       [Req_register ''a.lc3'' False, Req_next 0, Req_next 0, Req_work, Req_next 0, Req_work, Req_next 0, Req_next 0]
       (replicate (MAX_NUM_STREAMS (example_lc3 251)) P_idle, [])
     = Some [Ans_registered 0, Ans_frame [1, 2], Ans_not_ready, Ans_done, Ans_frame [3], Ans_done, Ans_end, Ans_fault]"
    by (simp add: example_lc3_def example_library_def next_answer_def numeral_2_eq_2)
  ultimately show ?thesis
    using streamer_implements_players [OF example_card example_fifo_contract example_library_on_card] by blast
qed

text \<open>The two blocks with frames of the maximum size, when that size is not a multiple of four.\<close>

lemma blocks_exceed_slab:
  "\<not> 4 dvd MAX_FRAME_SIZE e \<Longrightarrow> SLAB_BUFFER_SIZE e < WB_UP (MAX_FRAME_SIZE e) + MAX_FRAME_SIZE e"
  unfolding SLAB_BUFFER_SIZE_def LC3_STREAMER_BUFFER_NUM_FRAMES_def WB_UP_def by presburger

lemma overrun_next:
  assumes works: "working_card (sd e) rest files" and fifo: "fifo_contract e vac filled"
    and s: "lc3_initialized s" "lc3_work_q s = []" "0 < length (lc3_streams s)" "lc3_streams s ! 0 = st"
    and st: "strm_state st = STREAM_PLAYING" "fifo_initialized st" "active_buffer st = None"
      "filled (strm_fifo st) = [(0, MAX_FRAME_SIZE e)]" "vac (strm_fifo st) = lc3_blocks e - {0}"
      "length (slab_buffer st) = SLAB_BUFFER_SIZE e" "rest (file_object (strm_file st)) = frame_bytes fr @ r"
    and size: "length fr = MAX_FRAME_SIZE e" "MAX_FRAME_SIZE e < 65536" "\<not> 4 dvd MAX_FRAME_SIZE e"
  shows "streamer_run e [Req_next 0, Req_work] s = None"
proof -
  have pos: "0 < MAX_FRAME_SIZE e" "fr \<noteq> []"
    using size by (auto intro: Nat.gr0I)
  obtain d where d: "data_fifo_pointer_last_filled_get (ops e) (strm_fifo st) = (0, 0, MAX_FRAME_SIZE e, d)"
      "vac d = lc3_blocks e - {0}"
    using fifo_filled [OF fifo st(4)] st(5) by auto
  let ?st = "st\<lparr>strm_fifo := d, active_buffer := Some 0\<rparr>"
  have run: "lc3_streamer_next_frame_get e 0 s = Some (0, Some 0, set_stream 0 ?st (s\<lparr>lc3_work_q := [0]\<rparr>))"
    using s st(1-3) d(1) by (simp add: lc3_streamer_next_frame_get_def active_buffer_free_def k_work_submit_def)
  obtain d' where "data_fifo_pointer_first_vacant_get (ops e) (strm_fifo ?st) = (0, WB_UP (MAX_FRAME_SIZE e), d')"
    using fifo_vacant [OF fifo, of d] d(2) WB_UP_pos [OF pos(1)] by (auto simp: lc3_blocks_def)
  then have "put_next_frame_to_fifo e ?st = None"
    using put_overruns [OF works, of ?st _ d' fr r] st(2,6,7) pos(2) size blocks_exceed_slab [OF size(3)] by simp
  then show ?thesis
    using run s(3) by (simp add: lc3_streamer_work_def set_stream_def mem_simps next_frame_load_def)
qed

lemma overrun_register:
  assumes works: "working_card (sd e) rest files" and fifo: "fifo_contract e vac filled"
    and name: "length SD_ROOT_PATH + length name \<le> PATH_MAX_LEN (sd e)"
      "files (SD_ROOT_PATH @ name) = Some (header_bytes h @ frame_bytes fr @ r)" "hdr_file_id h = LC3_FILE_ID"
    and s: "sd_init_success (lc3_sd s)" "lc3_initialized s" "free_slot 0 (lc3_streams s) = Some 0" "lc3_work_q s = []"
      "active_buffer (lc3_streams s ! 0) = None" "length (slab_buffer (lc3_streams s ! 0)) = SLAB_BUFFER_SIZE e"
    and size: "length fr = MAX_FRAME_SIZE e" "MAX_FRAME_SIZE e < 65536" "\<not> 4 dvd MAX_FRAME_SIZE e"
    and reg: "lc3_streamer_stream_register e (Some name) loop s = Some x"
  shows "\<exists>st. x = (0, Some 0, set_stream 0 st s) \<and> strm_state st = STREAM_PLAYING \<and> fifo_initialized st
    \<and> active_buffer st = None \<and> filled (strm_fifo st) = [(0, MAX_FRAME_SIZE e)] \<and> vac (strm_fifo st) = lc3_blocks e - {0}
    \<and> length (slab_buffer st) = SLAB_BUFFER_SIZE e \<and> rest (file_object (strm_file st)) = r"
proof -
  obtain f d where start: "rest (file_object f) = frame_bytes fr @ r" "vac d = lc3_blocks e" "filled d = []"
    "lc3_streamer_stream_register e (Some name) loop s = do {
      (ret, st) \<leftarrow> put_next_frame_to_fifo e
         ((lc3_streams s ! 0)\<lparr>strm_file := f, strm_filename := name, strm_fifo := d, fifo_initialized := True\<rparr>);
      if ret \<noteq> 0 then Some (ret, Some 0, set_stream 0 (st\<lparr>strm_state := STREAM_ENDED\<rparr>) s)
      else Some (0, Some 0, set_stream 0 (st\<lparr>strm_state := STREAM_PLAYING, loop_stream := loop\<rparr>) s) }"
    using register_start [OF works fifo name s(1-3) refl, of loop] s(4) by auto
  let ?st = "(lc3_streams s ! 0)\<lparr>strm_file := f, strm_filename := name, strm_fifo := d, fifo_initialized := True\<rparr>"
  have ne: "fr \<noteq> []"
    using size by auto
  obtain p d1 where d1: "data_fifo_pointer_first_vacant_get (ops e) (strm_fifo ?st) = (0, p, d1)"
      "p \<in> lc3_blocks e" "vac d1 = lc3_blocks e - {p}" "filled d1 = []"
    using fifo_vacant [OF fifo, of d] start(2,3) by (auto simp: lc3_blocks_def)
  have "p = 0"
  proof (rule ccontr)
    assume "p \<noteq> 0"
    then have "put_next_frame_to_fifo e ?st = None"
      using put_overruns [OF works _ d1(1), of fr r] start(1) ne size s(6) d1(2) blocks_exceed_slab [OF size(3)]
      by (simp add: lc3_blocks_def)
    then show False
      using reg start(4) by simp
  qed
  have room: "p + length fr \<le> length (slab_buffer ?st)"
    using size(1) s(6) \<open>p = 0\<close> by (simp add: SLAB_BUFFER_SIZE_def LC3_STREAMER_BUFFER_NUM_FRAMES_def)
  obtain d2 f' where put: "put_next_frame_to_fifo e ?st = Some (0, ?st\<lparr>strm_fifo := d2,
        slab_buffer := take p (slab_buffer ?st) @ fr @ drop (p + length fr) (slab_buffer ?st), strm_file := f'\<rparr>)"
      "vac d2 = vac d1" "filled d2 = [(p, MAX_FRAME_SIZE e)]" "rest (file_object f') = r"
    using put_at [OF works fifo _ _ d1(1) _ d1(4) _ ne _ _ room] start(1,3) d1(3) size(1,2) by auto
  have "length (take p (slab_buffer ?st) @ fr @ drop (p + length fr) (slab_buffer ?st)) = SLAB_BUFFER_SIZE e"
    using room s(6) by simp
  then show ?thesis
    using reg unfolding start(4) put(1) using put(2-4) d1(3) s(5) \<open>p = 0\<close>
    by (intro exI [of _ "?st\<lparr>strm_fifo := d2, slab_buffer := take p (slab_buffer ?st) @ fr
        @ drop (p + length fr) (slab_buffer ?st), strm_file := f', strm_state := STREAM_PLAYING, loop_stream := loop\<rparr>"])
      simp
qed

text \<open>Frames of the configured size do not fit. The two blocks of a stream are rounded up to whole
  words, but the array for them is not: unless the maximum frame size is a multiple of four (it is 251
  by default), a file whose first two frames have the maximum size makes the streamer write behind its
  array once both blocks are in use, however the FIFO orders them.\<close>

lemma second_block_overruns:
  assumes works: "working_card (sd e) rest files" and fifo: "fifo_contract e vac filled"
    and name: "length SD_ROOT_PATH + length name \<le> PATH_MAX_LEN (sd e)"
      "files (SD_ROOT_PATH @ name) = Some (header_bytes h @ frames_bytes (f1 # f2 # frs))" "hdr_file_id h = LC3_FILE_ID"
    and size: "length f1 = MAX_FRAME_SIZE e" "length f2 = MAX_FRAME_SIZE e" "MAX_FRAME_SIZE e < 65536"
      "\<not> 4 dvd MAX_FRAME_SIZE e"
    and init: "lc3_streamer_init e (lc3_boot e f d) = (0, s)" "0 < MAX_NUM_STREAMS e"
  shows "streamer_run e [Req_register name loop, Req_next 0, Req_work] s = None"
proof (cases "lc3_streamer_stream_register e (Some name) loop s")
  case (Some x)
  have R: "streamer_rel e rest vac filled Map.empty s (replicate (MAX_NUM_STREAMS e) P_idle, [])"
    using boot_rel [OF init(1)] .
  have s: "sd_init_success (lc3_sd s)" "lc3_initialized s" "lc3_work_q s = []" "0 < length (lc3_streams s)"
    using R init(2) by (simp_all add: streamer_rel_def)
  have st: "length (slab_buffer (lc3_streams s ! 0)) = SLAB_BUFFER_SIZE e" "strm_state (lc3_streams s ! 0) = STREAM_IDLE"
      "active_buffer (lc3_streams s ! 0) = None"
    using rel_stream [OF R, of 0] init(2) by (simp_all add: stream_rel_def)
  have "free_slot 0 (lc3_streams s) = Some 0"
    using st(2) s(4) by (cases "lc3_streams s") auto
  then obtain st' where st': "x = (0, Some 0, set_stream 0 st' s)" "strm_state st' = STREAM_PLAYING" "fifo_initialized st'"
      "active_buffer st' = None" "filled (strm_fifo st') = [(0, MAX_FRAME_SIZE e)]" "vac (strm_fifo st') = lc3_blocks e - {0}"
      "length (slab_buffer st') = SLAB_BUFFER_SIZE e"
      "rest (file_object (strm_file st')) = frame_bytes f2 @ frames_bytes frs"
    using overrun_register [OF works fifo name(1) _ name(3) s(1,2) _ s(3) st(3,1) size(1,3,4) Some] name(2) by auto
  have "streamer_run e [Req_next 0, Req_work] (set_stream 0 st' s) = None"
    using overrun_next [OF works fifo _ _ _ _ st'(2-8) size(2-4), of "set_stream 0 st' s"] s
    by (simp add: set_stream_def)
  then show ?thesis
    using Some st'(1) by (simp add: streamer_run.simps(2) [of e "Req_register name loop"] del: streamer_run.simps(2))
qed simp

definition example_full_files :: "string \<Rightarrow> u8 list option" where
  "example_full_files path = (if path = ''/SD:/b.lc3'' then Some (header_bytes example_header
     @ frames_bytes [replicate 251 1, replicate 251 2]) else None)"

definition example_full :: "(u8 list, example_fifo) lc3_env" where
  "example_full = (example_lc3 251)\<lparr>sd := example_sd\<lparr>fs_open := (\<lambda>flags path f. case example_full_files path of
       None \<Rightarrow> (- ENOENT, f) | Some bs \<Rightarrow> (0, bs))\<rparr>\<rparr>"

theorem second_block_overruns_witness:
  "streamer_run example_full [Req_register ''b.lc3'' True, Req_next 0, Req_work]
     (snd (lc3_streamer_init example_full (lc3_boot example_full example_ctx ([], [])))) = None"
proof -
  have card: "working_card (sd example_full) id example_full_files"
    by (auto simp: working_card_def example_full_def example_sd_def split: option.split)
  have fifo: "fifo_contract example_full (\<lambda>d. set (fst d)) snd"
    unfolding fifo_contract_def by (auto simp: example_full_def example_lc3_def example_fifo_ops_def split: list.split)
  have init: "lc3_streamer_init example_full (lc3_boot example_full example_ctx ([], []))
      = (0, snd (lc3_streamer_init example_full (lc3_boot example_full example_ctx ([], []))))"
    by (simp add: lc3_streamer_init_def lc3_boot_def lc3_file_init_def sd_card_init_def example_full_def example_lc3_def
        example_sd_def Let_def)
  show ?thesis
    by (rule second_block_overruns [OF card fifo, of "''b.lc3''" example_header "replicate 251 1" "replicate 251 2" "[]",
          OF _ _ _ _ _ _ _ init])
      (simp_all add: example_full_def example_lc3_def example_sd_def example_full_files_def PATH_MAX_LEN_def SD_ROOT_PATH_def
        example_header_def)
qed

end
