(* ===== verification/SdSearch.thy ===== *)
theory SdSearch
  imports SdCard
begin

text \<open>
  What the search of the SD card finds. \<open>find_files\<close> walks the tree of directories by the names alone, as
  the code does: an entry whose name contains the pattern is taken, be it a file or a directory, and
  is not entered. \<open>matching_files\<close> says what the header file promises: the files, in all directories,
  whose name contains the pattern. \<open>search_finds_files\<close> shows that \<open>sd_card_list_files_match\<close>, with its
  text buffers, tokens and memory blocks, returns the paths of the walk in its order, and that these
  are the matching files when no name of a directory contains the pattern (\<open>plain_directories\<close>).
  \<open>searchable\<close> collects what that takes, and with
  it the limits of the code: eight levels, listings of fewer than 700 characters, no empty directory,
  no directory with a dot in its name, and no file without one unless it matches.
  \<open>long_name_overruns\<close> shows that three of the four functions that build a path check its length
  without the root.
\<close>

section \<open>The walk\<close>

abbreviation SVI :: string where "SVI \<equiv> ''System Volume Information''"

definition join :: "string option \<Rightarrow> string \<Rightarrow> string" where
  "join path n = (case path of None \<Rightarrow> n | Some p \<Rightarrow> p @ ''/'' @ n)"

definition absolute :: "string option \<Rightarrow> string" where
  "absolute path = (case path of None \<Rightarrow> ''/SD:'' | Some p \<Rightarrow> ''/SD:/'' @ p)"

primrec find_files ::
  "(string \<Rightarrow> (bool \<times> string) list option) \<Rightarrow> string \<Rightarrow> nat \<Rightarrow> string option \<Rightarrow> string list" where
  "find_files dirs pattern 0 path = []"
| "find_files dirs pattern (Suc m) path = (case dirs (absolute path) of
       None \<Rightarrow> []
     | Some l \<Rightarrow> concat (map (\<lambda>n. if strstr n pattern then [join path n]
          else find_files dirs pattern m (Some (join path n))) (filter (\<lambda>n. \<not> strstr n SVI) (map snd l))))"

text \<open>
  The flag of an entry, which the walk does not look at, says whether it is a directory.
\<close>

primrec matching_files ::
  "(string \<Rightarrow> (bool \<times> string) list option) \<Rightarrow> string \<Rightarrow> nat \<Rightarrow> string option \<Rightarrow> string list" where
  "matching_files dirs pattern 0 path = []"
| "matching_files dirs pattern (Suc m) path = (case dirs (absolute path) of
       None \<Rightarrow> []
     | Some l \<Rightarrow> concat (map (\<lambda>(is_dir, n).
            if is_dir then matching_files dirs pattern m (Some (join path n))
            else if strstr n pattern then [join path n] else [])
          (filter (\<lambda>(is_dir, n). \<not> strstr n SVI) l)))"

definition plain_directories :: "(string \<Rightarrow> (bool \<times> string) list option) \<Rightarrow> string \<Rightarrow> bool" where
  "plain_directories dirs pattern \<longleftrightarrow> (\<forall>path l is_dir n. dirs (absolute path) = Some l \<longrightarrow> (is_dir, n) \<in> set l \<longrightarrow>
     (is_dir \<longleftrightarrow> dirs (absolute (Some (join path n))) \<noteq> None) \<and> (is_dir \<longrightarrow> \<not> strstr n pattern))"

lemma find_files_matching:
  assumes "plain_directories dirs pattern"
  shows "find_files dirs pattern m path = matching_files dirs pattern m path"
proof (induction m arbitrary: path)
  case (Suc m)
  have none: "find_files dirs pattern m (Some p) = []" if "dirs (absolute (Some p)) = None" for p
    using that by (cases m) simp_all
  show ?case
  proof (cases "dirs (absolute path)")
    case (Some l)
    have entry: "(if strstr n pattern then [join path n] else find_files dirs pattern m (Some (join path n)))
        = (if is_dir then matching_files dirs pattern m (Some (join path n))
           else if strstr n pattern then [join path n] else [])" if "(is_dir, n) \<in> set l" for is_dir n
    proof -
      have "is_dir \<longleftrightarrow> dirs (absolute (Some (join path n))) \<noteq> None" "is_dir \<longrightarrow> \<not> strstr n pattern"
        using assms Some that unfolding plain_directories_def by blast+
      then show ?thesis
        using none [of "join path n"] Suc.IH by (cases is_dir) simp_all
    qed
    have "concat (map (\<lambda>n. if strstr n pattern then [join path n] else find_files dirs pattern m (Some (join path n)))
          (filter (\<lambda>n. \<not> strstr n SVI) (map snd k)))
        = concat (map (\<lambda>(is_dir, n). if is_dir then matching_files dirs pattern m (Some (join path n))
            else if strstr n pattern then [join path n] else []) (filter (\<lambda>(is_dir, n). \<not> strstr n SVI) k))"
      if "set k \<subseteq> set l" for k
      using that
    proof (induction k)
      case (Cons x k)
      obtain is_dir n where x: "x = (is_dir, n)" by fastforce
      then show ?case
        using Cons entry [of is_dir n] by simp
    qed simp
    then show ?thesis
      using Some by simp
  qed simp
qed simp

section \<open>What the search needs\<close>

definition name_ok :: "string \<Rightarrow> bool" where
  "name_ok n \<longleftrightarrow> n \<noteq> [] \<and> NUL \<notin> set n \<and> CR \<notin> set n \<and> LF \<notin> set n"

definition listing :: "string list \<Rightarrow> string" where
  "listing ns = concat (map (\<lambda>n. n @ [CR, LF]) ns)"

primrec searchable ::
  "'f sd_env \<Rightarrow> (string \<Rightarrow> (bool \<times> string) list option) \<Rightarrow> string \<Rightarrow> nat \<Rightarrow> string option \<Rightarrow> bool" where
  "searchable e dirs pattern 0 path = False"
| "searchable e dirs pattern (Suc m) path = (case dirs (absolute path) of
       None \<Rightarrow> False
     | Some l \<Rightarrow> l \<noteq> [] \<and> list_all name_ok (map snd l) \<and> length (listing (map snd l)) < SD_CARD_BUF_SIZE
         \<and> (\<forall>n \<in> set (map snd l). \<not> strstr n SVI \<longrightarrow>
             length (join path n) < PATH_MAX_LEN e \<and>
             (strstr n pattern \<or> length (join path n) + 5 \<le> PATH_MAX_LEN e \<and> m \<noteq> 0 \<and>
               (if CHR ''.'' \<in> set n then dirs (absolute (Some (join path n))) = None
                else searchable e dirs pattern m (Some (join path n))))))"

definition honest_dirs :: "'f sd_env \<Rightarrow> (string \<Rightarrow> (bool \<times> string) list option) \<Rightarrow> bool" where
  "honest_dirs e dirs \<longleftrightarrow> fs_closedir e = 0 \<and> (\<forall>k. length (slab_content e k) = SD_CARD_BUF_SIZE) \<and>
     (\<forall>p l. dirs p = Some l \<longrightarrow>
        fs_opendir e p = Inr (map (\<lambda>(d, n). (0, \<lparr>dirent_is_dir = d, dirent_name = n\<rparr>)) l))"

section \<open>The listing\<close>

lemma listing_simps [simp]: "listing [] = []" "listing (n # ns) = n @ [CR, LF] @ listing ns"
  by (simp_all add: listing_def)

lemma list_entries_text:
  assumes "list_all name_ok (map snd l)" and "used + length (listing (map snd l)) < N" and "N \<le> length b"
  shows "\<exists>b'. list_entries False N (map (\<lambda>(d, n). (0, \<lparr>dirent_is_dir = d, dirent_name = n\<rparr>)) l) (Some b) used
      = Some (0, Some b', used + length (listing (map snd l)))
    \<and> length b' = length b \<and> take (used + length (listing (map snd l))) b' = take used b @ listing (map snd l)
    \<and> (l \<noteq> [] \<longrightarrow> b' ! (used + length (listing (map snd l))) = NUL)"
  using assms
proof (induction l arbitrary: used b)
  case (Cons x l)
  obtain d n where x: "x = (d, n)" by fastforce
  let ?t = "n @ [CR, LF]"
  let ?b = "take used b @ ?t @ [NUL] @ drop (used + length ?t + 1) b"
  have room: "used + length ?t + 1 \<le> N" "used + length ?t + 1 \<le> length b"
    using Cons.prems(2,3) by (simp_all add: x)
  have put: "snprintk b used (N - used) ?t = Some ?b"
    using room by (simp add: snprintk_def mem_simps)
  have len: "length ?b = length b"
    using room by simp
  obtain b' where b': "list_entries False N (map (\<lambda>(d, n). (0, \<lparr>dirent_is_dir = d, dirent_name = n\<rparr>)) l) (Some ?b) (used + length ?t)
        = Some (0, Some b', used + length ?t + length (listing (map snd l)))"
      "length b' = length ?b"
      "take (used + length ?t + length (listing (map snd l))) b' = take (used + length ?t) ?b @ listing (map snd l)"
      "l \<noteq> [] \<longrightarrow> b' ! (used + length ?t + length (listing (map snd l))) = NUL"
    using Cons.IH [of "used + length ?t" ?b] Cons.prems len by (auto simp: x)
  have take_b: "take (used + length ?t) ?b = take used b @ ?t"
    using room by simp
  have last: "b' ! (used + length ?t + length (listing (map snd l))) = NUL"
  proof (cases "l = []")
    case True
    then have "b' = ?b"
      using b'(1) by simp
    then show ?thesis
      using True room by (simp add: nth_append)
  qed (use b'(4) in blast)
  have "dirent_name \<lparr>dirent_is_dir = d, dirent_name = n\<rparr> \<noteq> []"
    using Cons.prems(1) by (simp add: x name_ok_def)
  then have "list_entries False N (map (\<lambda>(d, n). (0, \<lparr>dirent_is_dir = d, dirent_name = n\<rparr>)) (x # l)) (Some b) used
      = Some (0, Some b', used + length (listing (map snd (x # l))))"
    using put b'(1) room by (simp add: x dirent_text_def add.assoc)
  moreover have "take (used + length (listing (map snd (x # l)))) b' = take used b @ listing (map snd (x # l))"
    using b'(3) take_b by (simp add: x add.assoc)
  ultimately show ?case
    using b'(2) len last by (auto simp: x add.assoc)
qed simp

lemma listing_no_nul: "list_all name_ok ns \<Longrightarrow> NUL \<notin> set (listing ns)"
  by (induction ns) (auto simp: name_ok_def)

lemma c_string_text:
  assumes "take k b = t" and "b ! k = NUL" and "k < length b" and "NUL \<notin> set t"
  shows "c_string b = Some t"
proof -
  have "b = t @ NUL # drop (Suc k) b"
    using assms by (metis append_take_drop_id Cons_nth_drop_Suc)
  moreover have "NUL \<in> set b"
    using assms by (metis nth_mem)
  moreover have "takeWhile (\<lambda>c. c \<noteq> NUL) (t @ NUL # drop (Suc k) b) = t"
    using assms(4) by (subst takeWhile_append2) (auto simp: takeWhile_eq_all_conv)
  ultimately show ?thesis
    unfolding c_string_def by metis
qed

section \<open>The tokens\<close>

lemma strtok_name:
  assumes "name_ok n" and "LF \<in> seps" "seps \<subseteq> {CR, LF}"
  shows "strtok_r seps (n @ CR # LF # r)
    = (if CR \<in> seps then Some (n, LF # r) else Some (n @ [CR], r))"
proof -
  have in_seps: "c \<notin> seps" if "c \<in> set n" for c
    using assms that by (auto simp: name_ok_def)
  obtain c cs where n: "n = c # cs"
    using assms(1) by (cases n) (auto simp: name_ok_def)
  have "dropWhile (\<lambda>c. c \<in> seps) (n @ CR # LF # r) = n @ CR # LF # r"
    using in_seps by (simp add: n)
  moreover have "takeWhile (\<lambda>c. c \<notin> seps) (n @ CR # LF # r) = n @ takeWhile (\<lambda>c. c \<notin> seps) (CR # LF # r)"
    using in_seps by (intro takeWhile_append2) simp
  moreover have "dropWhile (\<lambda>c. c \<notin> seps) (n @ CR # LF # r) = dropWhile (\<lambda>c. c \<notin> seps) (CR # LF # r)"
    using in_seps by (intro dropWhile_append2) simp
  ultimately show ?thesis
    using assms(2) by (simp add: strtok_r_def Let_def n)
qed

lemma strtok_LF: "strtok_r {LF} (LF # r) = strtok_r {LF} r"
  by (simp add: strtok_r_def)

lemma strtok_nil: "strtok_r seps [] = None"
  by (simp add: strtok_r_def)

lemma later_tokens_listing: "list_all name_ok ns \<Longrightarrow> later_tokens (listing ns) = map (\<lambda>n. n @ [CR]) ns"
proof (induction ns)
  case Nil
  then show ?case by (simp add: later_tokens.simps [of "[]"] strtok_nil)
next
  case (Cons n ns)
  then show ?case
    by (subst later_tokens.simps) (simp add: strtok_name [of n "{LF}"])
qed

lemma tokens_listing:
  assumes "list_all name_ok ns"
  shows "tokens (listing ns) = (case ns of [] \<Rightarrow> [] | n # ms \<Rightarrow> n # map (\<lambda>n. n @ [CR]) ms)"
proof (cases ns)
  case Nil
  then show ?thesis by (simp add: tokens_def strtok_nil)
next
  case (Cons n ms)
  have "later_tokens (LF # listing ms) = later_tokens (listing ms)"
    by (simp add: later_tokens.simps [of "LF # listing ms"] later_tokens.simps [of "listing ms"] strtok_LF)
  then show ?thesis
    using assms by (simp add: Cons tokens_def strtok_name [of n "{CR, LF}"] later_tokens_listing)
qed

lemma tokens_names:
  assumes "list_all name_ok ns"
  shows "list_all2 (\<lambda>t n. name_ok n \<and> (t = n \<or> t = n @ [CR])) (tokens (listing ns)) ns"
  using assms unfolding tokens_listing [OF assms]
  by (cases ns) (auto simp: list_all2_map1 list_all2_same list_all_iff)

lemma strstr_snoc: "needle \<noteq> [] \<Longrightarrow> c \<notin> set needle \<Longrightarrow> strstr (s @ [c]) needle \<longleftrightarrow> strstr s needle"
proof (induction s)
  case Nil
  then show ?case by (cases needle) auto
next
  case (Cons a s)
  have "prefix needle ((a # s) @ [c]) \<longleftrightarrow> prefix needle (a # s)"
    using Cons.prems by (auto simp only: prefix_snoc set_append) auto
  then show ?case
    using Cons by simp
qed

lemma cr_lf_remove_name: "name_ok n \<Longrightarrow> cr_lf_remove n = n" "name_ok n \<Longrightarrow> cr_lf_remove (n @ [CR]) = n"
proof -
  assume ok: "name_ok n"
  have all: "\<And>c. c \<in> set n \<Longrightarrow> c \<noteq> CR \<and> c \<noteq> LF"
    using ok by (auto simp: name_ok_def)
  then show "cr_lf_remove n = n"
    by (simp add: cr_lf_remove_def takeWhile_eq_all_conv)
  show "cr_lf_remove (n @ [CR]) = n"
    using all by (simp add: cr_lf_remove_def takeWhile_append2)
qed

section \<open>One directory\<close>

definition path_ok :: "'f sd_env \<Rightarrow> string option \<Rightarrow> bool" where
  "path_ok e path \<longleftrightarrow> (case path of None \<Rightarrow> True | Some p \<Rightarrow> CHR ''.'' \<notin> set p \<and> CR \<notin> set p \<and> LF \<notin> set p
     \<and> length p + 5 \<le> PATH_MAX_LEN e)"

lemma path_below_join:
  assumes "path_ok e path" and "length (join path n) < PATH_MAX_LEN e"
  shows "path_below e path n = Some (join path n)"
proof (cases path)
  case (Some p)
  have "\<And>c. c \<in> set p \<Longrightarrow> c \<noteq> CR \<and> c \<noteq> LF"
    using assms(1) Some by (auto simp: path_ok_def)
  then have "cr_lf_remove p = p"
    by (simp add: cr_lf_remove_def takeWhile_eq_all_conv)
  then show ?thesis
    using assms Some by (simp add: path_below_def join_def strcat_def)
qed (use assms in \<open>simp add: path_below_def join_def strcat_def\<close>)

lemma list_files_ok:
  assumes honest: "honest_dirs e dirs" and "sd_init_success s" and path: "path_ok e path"
    and dir: "dirs (absolute path) = Some l" "l \<noteq> []" "list_all name_ok (map snd l)"
      "length (listing (map snd l)) < SD_CARD_BUF_SIZE"
    and b: "length b = SD_CARD_BUF_SIZE"
  shows "\<exists>b' n. sd_card_list_files e path (Some b) SD_CARD_BUF_SIZE False s = Some (0, Some b', n)
    \<and> c_string b' = Some (listing (map snd l))"
proof -
  obtain b' where b': "list_entries False SD_CARD_BUF_SIZE
        (map (\<lambda>(d, n). (0, \<lparr>dirent_is_dir = d, dirent_name = n\<rparr>)) l) (Some b) 0
        = Some (0, Some b', length (listing (map snd l)))" "length b' = length b"
      "take (length (listing (map snd l))) b' = listing (map snd l)" "b' ! length (listing (map snd l)) = NUL"
    using list_entries_text [OF dir(3), of 0 SD_CARD_BUF_SIZE b] dir(2,4) b by auto
  have "c_string b' = Some (listing (map snd l))"
    using c_string_text [OF b'(3,4)] b'(2) b dir(3,4) listing_no_nul by simp
  moreover have "fs_opendir e (absolute path) = Inr (map (\<lambda>(d, n). (0, \<lparr>dirent_is_dir = d, dirent_name = n\<rparr>)) l)"
      "fs_closedir e = 0"
    using honest dir(1) by (simp_all add: honest_dirs_def)
  ultimately show ?thesis
    using b'(1) path assms(2)
    by (cases path) (simp_all add: sd_card_list_files_def absolute_def sd_root_path_def SD_ROOT_PATH_def path_ok_def strcat_def)
qed

lemma list_files_dot:
  assumes "sd_init_success s" and "CHR ''.'' \<in> set p" and "length p + 5 \<le> PATH_MAX_LEN e"
  shows "sd_card_list_files e (Some p) b k x s = Some (- ENOENT, b, k)"
  using assms by (simp add: sd_card_list_files_def SD_ROOT_PATH_def strcat_def)

section \<open>The loop over the names\<close>

definition fill :: "'a list \<Rightarrow> nat \<Rightarrow> 'a list \<Rightarrow> 'a list" where
  "fill r k xs = take k r @ xs @ drop (k + length xs) r"

lemma fill_nil [simp]: "k \<le> length r \<Longrightarrow> fill r k [] = r"
  by (simp add: fill_def)

lemma fill_fill: "k + length xs + length ys \<le> length r \<Longrightarrow> fill (fill r k xs) (k + length xs) ys = fill r k (xs @ ys)"
  by (simp add: fill_def ac_simps)

lemma fill_one: "k < length r \<Longrightarrow> r[k := x] = fill r k [x]"
  by (simp add: fill_def upd_conv_take_nth_drop)

lemma length_fill [simp]: "k + length xs \<le> length r \<Longrightarrow> length (fill r k xs) = length r"
  by (simp add: fill_def)

text \<open>A search that finds the paths \<open>fs\<close>: it adds them to the table and to the count.\<close>

definition finds ::
  "nat \<Rightarrow> nat \<Rightarrow> (string list \<Rightarrow> sd_card \<Rightarrow> (int \<times> string list \<times> sd_card) option) \<Rightarrow> sd_card \<Rightarrow> string list \<Rightarrow> bool" where
  "finds file_max path_len search s fs \<longleftrightarrow> (\<forall>r k a. k + length fs \<le> file_max \<longrightarrow> file_max \<le> length r \<longrightarrow>
     list_all (\<lambda>p. length p < path_len) fs \<longrightarrow>
     (\<exists>a'. search r (s\<lparr>num_files_added := k, slab_A_allocs := a\<rparr>)
        = Some (0, fill r k fs, s\<lparr>num_files_added := k + length fs, slab_A_allocs := a'\<rparr>)))"

lemma finds_nil: "finds file_max path_len (\<lambda>r s. Some (0, r, s)) s []"
  by (simp add: finds_def) blast

lemma finds_append:
  assumes f: "finds file_max path_len f s xs" and g: "finds file_max path_len (g 0) s ys"
  shows "finds file_max path_len (\<lambda>r s. do { (ret, r, s) \<leftarrow> f r s; g ret r s }) s (xs @ ys)"
  unfolding finds_def
proof (intro allI impI)
  fix r :: "string list" and k a
  assume fits: "k + length (xs @ ys) \<le> file_max" "file_max \<le> length r" "list_all (\<lambda>p. length p < path_len) (xs @ ys)"
  obtain a1 where a1: "f r (s\<lparr>num_files_added := k, slab_A_allocs := a\<rparr>)
      = Some (0, fill r k xs, s\<lparr>num_files_added := k + length xs, slab_A_allocs := a1\<rparr>)"
    using f [unfolded finds_def, rule_format, of k r a] fits by auto
  have "length (fill r k xs) = length r"
    using fits by simp
  then obtain a2 where "g 0 (fill r k xs) (s\<lparr>num_files_added := k + length xs, slab_A_allocs := a1\<rparr>)
      = Some (0, fill (fill r k xs) (k + length xs) ys,
          s\<lparr>num_files_added := k + length xs + length ys, slab_A_allocs := a2\<rparr>)"
    using g [unfolded finds_def, rule_format, of "k + length xs" "fill r k xs" a1] fits by auto
  then show "\<exists>a'. do { (ret, r, s) \<leftarrow> f r (s\<lparr>num_files_added := k, slab_A_allocs := a\<rparr>); g ret r s }
      = Some (0, fill r k (xs @ ys), s\<lparr>num_files_added := k + length (xs @ ys), slab_A_allocs := a'\<rparr>)"
    using a1 fits fill_fill [of k xs ys r] by (intro exI [of _ a2]) (simp add: add.assoc)
qed

text \<open>A path that is found is put into the next row.\<close>

lemma finds_row:
  "finds file_max path_len (\<lambda>r s. do {
       assert_ok (length p < path_len);
       r \<leftarrow> wr r (num_files_added s) p;
       Some (0, r, s\<lparr>num_files_added := num_files_added s + 1\<rparr>) }) s [p]"
  unfolding finds_def
proof (intro allI impI)
  fix r :: "string list" and k a
  assume "k + length [p] \<le> file_max" "file_max \<le> length r" "list_all (\<lambda>p. length p < path_len) [p]"
  then show "\<exists>a'. do {
       assert_ok (length p < path_len);
       r \<leftarrow> wr r (num_files_added (s\<lparr>num_files_added := k, slab_A_allocs := a\<rparr>)) p;
       Some (0, r, s\<lparr>num_files_added := k, slab_A_allocs := a,
         num_files_added := num_files_added (s\<lparr>num_files_added := k, slab_A_allocs := a\<rparr>) + 1\<rparr>) }
     = Some (0, fill r k [p], s\<lparr>num_files_added := k + length [p], slab_A_allocs := a'\<rparr>)"
    by (intro exI [of _ a]) (simp add: mem_simps fill_one)
qed

lemma token_loop_finds:
  assumes path: "path_ok e path"
  shows "list_all2 (\<lambda>t n. name_ok n \<and> (t = n \<or> t = n @ [CR])) toks ns \<Longrightarrow>
    (\<And>n. n \<in> set ns \<Longrightarrow> \<not> strstr n SVI \<Longrightarrow> length (join path n) < PATH_MAX_LEN e
      \<and> (strstr n pattern \<or> finds file_max path_len (down (join path n)) s (found n))) \<Longrightarrow>
    finds file_max path_len (token_loop e file_max path_len pattern down path toks 0) s
      (concat (map (\<lambda>n. if strstr n pattern then [join path n] else found n) (filter (\<lambda>n. \<not> strstr n SVI) ns)))"
proof (induction toks ns rule: list_all2_induct)
  case Nil
  then show ?case using finds_nil by (simp add: fun_eq_iff)
next
  case (Cons t toks n ns)
  let ?loop = "token_loop e file_max path_len pattern down path toks"
  have IH: "finds file_max path_len (?loop 0) s
      (concat (map (\<lambda>n. if strstr n pattern then [join path n] else found n) (filter (\<lambda>n. \<not> strstr n SVI) ns)))"
    using Cons.IH Cons.prems by simp
  have n: "name_ok n" "cr_lf_remove t = n" "strstr t SVI = strstr n SVI"
    using Cons.hyps(1) cr_lf_remove_name by (auto simp: strstr_snoc)
  consider "strstr n SVI" | "\<not> strstr n SVI" "strstr n pattern"
    | "\<not> strstr n SVI" "\<not> strstr n pattern" "finds file_max path_len (down (join path n)) s (found n)"
    using Cons.prems [of n] by auto
  then show ?case
  proof cases
    case 1
    then show ?thesis
      using IH n(3) by (simp add: finds_def)
  next
    case 2
    then have below: "path_below e path n = Some (join path n)"
      using path_below_join [OF path] Cons.prems [of n] by simp
    let ?put = "\<lambda>r s. do { assert_ok (length (join path n) < path_len);
               r \<leftarrow> wr r (num_files_added s) (join path n);
               Some (0, r, s\<lparr>num_files_added := num_files_added s + 1\<rparr>) }"
    have "token_loop e file_max path_len pattern down path (t # toks) 0 r s
        = do { (ret, r, s) \<leftarrow> ?put r s; ?loop ret r s }" if "num_files_added s < file_max" for r s
      using 2 n(2,3) below that by simp
    then show ?thesis
      using finds_append [where g = ?loop, OF finds_row [of file_max path_len "join path n" s] IH] 2(1,2)
      unfolding finds_def by (simp del: token_loop.simps)
  next
    case 3
    then have "path_below e path n = Some (join path n)"
      using path_below_join [OF path] Cons.prems [of n] by simp
    then have "token_loop e file_max path_len pattern down path (t # toks) 0
        = (\<lambda>r s. do { (ret, r, s) \<leftarrow> down (join path n) r s; ?loop ret r s })"
      using 3 n(2,3) by (simp add: fun_eq_iff)
    then show ?thesis
      using finds_append [where g = ?loop, OF 3(3) IH] 3(1,2) by simp
  qed
qed

section \<open>The search\<close>

lemma traverse_step:
  assumes "slab_A_free s = Suc m" "slab_B_free s = Suc m"
    and "sd_card_list_files e path (Some (slab_content e (slab_A_allocs s))) SD_CARD_BUF_SIZE False
      (s\<lparr>slab_A_free := m, slab_B_free := m, slab_A_allocs := Suc (slab_A_allocs s)\<rparr>) = Some (0, Some b, n)"
    and "c_string b = Some text"
    and "token_loop e file_max path_len pattern (\<lambda>p. traverse_down k e file_max path_len pattern (Some p)) path
        (tokens text) 0 r (s\<lparr>slab_A_free := m, slab_B_free := m, slab_A_allocs := Suc (slab_A_allocs s)\<rparr>)
      = Some (ret, r', s')"
  shows "traverse_down (Suc k) e file_max path_len pattern path r s
    = Some (ret, r', s'\<lparr>slab_A_free := Suc (slab_A_free s'), slab_B_free := Suc (slab_B_free s')\<rparr>)"
  using assms by (simp add: Let_def)

lemma search_level:
  assumes honest: "honest_dirs e dirs"
  shows "searchable e dirs pattern m path \<Longrightarrow> path_ok e path \<Longrightarrow> sd_init_success s \<Longrightarrow> slab_A_free s = m \<Longrightarrow> slab_B_free s = m \<Longrightarrow>
    finds file_max path_len (traverse_down (Suc m) e file_max path_len pattern path) s (find_files dirs pattern m path)"
proof (induction m arbitrary: path s)
  case (Suc m)
  obtain l where l: "dirs (absolute path) = Some l" "l \<noteq> []" "list_all name_ok (map snd l)"
      "length (listing (map snd l)) < SD_CARD_BUF_SIZE"
    and below: "\<And>n. n \<in> set (map snd l) \<Longrightarrow> \<not> strstr n SVI \<Longrightarrow> length (join path n) < PATH_MAX_LEN e \<and>
             (strstr n pattern \<or> length (join path n) + 5 \<le> PATH_MAX_LEN e \<and> m \<noteq> 0 \<and>
               (if CHR ''.'' \<in> set n then dirs (absolute (Some (join path n))) = None
                else searchable e dirs pattern m (Some (join path n))))"
    using Suc.prems(1) by (auto split: option.splits)
  let ?s = "s\<lparr>slab_A_free := m, slab_B_free := m\<rparr>"
  let ?down = "\<lambda>p. traverse_down (Suc m) e file_max path_len pattern (Some p)"
  have down: "strstr n pattern \<or> finds file_max path_len (?down (join path n)) ?s (find_files dirs pattern m (Some (join path n)))"
    if n: "n \<in> set (map snd l)" "\<not> strstr n SVI" for n
  proof (cases "strstr n pattern")
    case False
    then have b: "length (join path n) + 5 \<le> PATH_MAX_LEN e" "m \<noteq> 0"
      using below [OF n] by simp_all
    show ?thesis
    proof (cases "CHR ''.'' \<in> set n")
      case True
      then have dot: "CHR ''.'' \<in> set (join path n)" "find_files dirs pattern m (Some (join path n)) = []"
        using False below [OF n] by (cases path; cases m; simp add: join_def)+
      have "?down (join path n) r (?s\<lparr>num_files_added := k, slab_A_allocs := a\<rparr>)
          = Some (0, r, ?s\<lparr>num_files_added := k, slab_A_allocs := Suc a\<rparr>)" for r k a
        using b(2) list_files_dot [OF _ dot(1) b(1)] Suc.prems(3) by (simp add: Let_def)
      then show ?thesis
        unfolding finds_def dot(2) by (auto simp del: traverse_down.simps)
    next
      case no_dot: False
      have "name_ok n"
        using l(3) n(1) by (auto simp: list_all_iff)
      then have "path_ok e (Some (join path n))"
        using Suc.prems(2) no_dot b(1) by (cases path) (auto simp: path_ok_def join_def name_ok_def)
      then show ?thesis
        using Suc.IH [of "Some (join path n)" ?s] below [OF n] False no_dot Suc.prems(3)
        by (simp del: traverse_down.simps)
    qed
  qed simp
  have toks: "list_all2 (\<lambda>t n. name_ok n \<and> (t = n \<or> t = n @ [CR])) (tokens (listing (map snd l))) (map snd l)"
    using tokens_names [OF l(3)] .
  have loop: "finds file_max path_len (token_loop e file_max path_len pattern ?down path (tokens (listing (map snd l))) 0) ?s
      (find_files dirs pattern (Suc m) path)"
    using token_loop_finds [OF Suc.prems(2) toks, of pattern file_max path_len ?down ?s
        "\<lambda>n. find_files dirs pattern m (Some (join path n))"] below down l(1) by (simp add: conj_commute)
  show ?case
    unfolding finds_def
  proof (intro allI impI)
    fix r :: "string list" and k a
    assume fits: "k + length (find_files dirs pattern (Suc m) path) \<le> file_max" "file_max \<le> length r"
      "list_all (\<lambda>p. length p < path_len) (find_files dirs pattern (Suc m) path)"
    let ?s1 = "s\<lparr>num_files_added := k, slab_A_allocs := a\<rparr>"
    have entered: "?s1\<lparr>slab_A_free := m, slab_B_free := m, slab_A_allocs := Suc (slab_A_allocs ?s1)\<rparr>
        = ?s\<lparr>num_files_added := k, slab_A_allocs := Suc a\<rparr>"
      by (cases s) simp
    have left: "?s\<lparr>num_files_added := j, slab_A_allocs := a', slab_A_free := Suc m, slab_B_free := Suc m\<rparr>
        = s\<lparr>num_files_added := j, slab_A_allocs := a'\<rparr>" for j a'
      using Suc.prems(4,5) by (cases s) simp
    have "length (slab_content e a) = SD_CARD_BUF_SIZE"
      using honest by (simp add: honest_dirs_def)
    then obtain b' n where b': "sd_card_list_files e path (Some (slab_content e a)) SD_CARD_BUF_SIZE False
          (?s\<lparr>num_files_added := k, slab_A_allocs := Suc a\<rparr>) = Some (0, Some b', n)"
        "c_string b' = Some (listing (map snd l))"
      using list_files_ok [OF honest _ Suc.prems(2) l, of "?s\<lparr>num_files_added := k, slab_A_allocs := Suc a\<rparr>" "slab_content e a"]
        Suc.prems(3) by auto
    obtain a' where "token_loop e file_max path_len pattern ?down path (tokens (listing (map snd l))) 0 r
        (?s\<lparr>num_files_added := k, slab_A_allocs := Suc a\<rparr>)
      = Some (0, fill r k (find_files dirs pattern (Suc m) path),
          ?s\<lparr>num_files_added := k + length (find_files dirs pattern (Suc m) path), slab_A_allocs := a'\<rparr>)"
      using loop fits unfolding finds_def by blast
    moreover have "slab_A_free ?s1 = Suc m" "slab_B_free ?s1 = Suc m" "slab_A_allocs ?s1 = a"
      using Suc.prems(4,5) by simp_all
    ultimately have "traverse_down (Suc (Suc m)) e file_max path_len pattern path r ?s1
      = Some (0, fill r k (find_files dirs pattern (Suc m) path),
          ?s\<lparr>num_files_added := k + length (find_files dirs pattern (Suc m) path), slab_A_allocs := a',
            slab_A_free := Suc m, slab_B_free := Suc m\<rparr>)"
      using traverse_step [of ?s1 m e path b' n "listing (map snd l)" file_max path_len pattern "Suc m" r, unfolded entered] b'
      by simp
    then show "\<exists>a'. traverse_down (Suc (Suc m)) e file_max path_len pattern path r ?s1
      = Some (0, fill r k (find_files dirs pattern (Suc m) path),
          s\<lparr>num_files_added := k + length (find_files dirs pattern (Suc m) path), slab_A_allocs := a'\<rparr>)"
      unfolding left by blast
  qed
qed simp

text \<open>C27: The card is searched as the tree of its directories is walked. If the card's directories are
  read without error and the tree below the path stays within the limits of the code (searchable: at
  most eight levels, listings of fewer than 700 characters, no empty directory, a dot in the name of
  every file that does not match and in that of no directory that does not), and the table has a row
  for every entry found and room in each row for its path, then sd_card_list_files_match returns the
  number of the entries whose name contains the pattern, and the first rows of the table are their
  paths, in the order of the walk; the rest of the table is as before. The search does not tell files
  from directories: a directory whose name contains the pattern is counted like a file, and what is in
  it is not searched. Only if no directory's name contains the pattern (and the directories are the
  entries marked as such) are the entries found the files whose name contains the pattern, in all the
  directories but System Volume Information, as the header file says.\<close>

theorem search_finds_files:
  assumes "honest_dirs e dirs" and "sd_init_success s" and "path_ok e path"
    and "searchable e dirs pattern SD_CARD_LEVELS_MAX path"
    and "found = find_files dirs pattern SD_CARD_LEVELS_MAX path"
    and "0 < file_max" "length found \<le> file_max" "length rows = file_max"
    and "0 < path_len" "path_len \<le> PATH_MAX_LEN e" "list_all (\<lambda>p. length p < path_len) found"
  shows "(\<exists>s'. sd_card_list_files_match e file_max path_len (Some rows) path (Some pattern) s
      = Some (int (length found), Some (found @ drop (length found) rows), s'))
    \<and> (plain_directories dirs pattern \<longrightarrow> found = matching_files dirs pattern SD_CARD_LEVELS_MAX path)"
proof -
  let ?s = "s\<lparr>slab_A_free := SD_CARD_LEVELS_MAX, slab_B_free := SD_CARD_LEVELS_MAX\<rparr>"
  have "finds file_max path_len (traverse_down (Suc SD_CARD_LEVELS_MAX) e file_max path_len pattern path) ?s found"
    using search_level [OF assms(1,4,3), of ?s] assms(2,5) by (simp del: traverse_down.simps)
  moreover have "s\<lparr>num_files_added := 0, slab_A_free := SD_CARD_LEVELS_MAX, slab_B_free := SD_CARD_LEVELS_MAX\<rparr>
      = ?s\<lparr>num_files_added := 0, slab_A_allocs := slab_A_allocs s\<rparr>"
    by (cases s) simp
  ultimately obtain a' where "traverse_down (Suc SD_CARD_LEVELS_MAX) e file_max path_len pattern path rows
        (s\<lparr>num_files_added := 0, slab_A_free := SD_CARD_LEVELS_MAX, slab_B_free := SD_CARD_LEVELS_MAX\<rparr>)
      = Some (0, fill rows 0 found, ?s\<lparr>num_files_added := length found, slab_A_allocs := a'\<rparr>)"
    using assms(7,8,11) unfolding finds_def by (metis add_0 order_refl)
  then have "\<exists>s'. sd_card_list_files_match e file_max path_len (Some rows) path (Some pattern) s
      = Some (int (length found), Some (found @ drop (length found) rows), s')"
    using assms(6,9,10) by (simp add: sd_card_list_files_match_def fill_def Let_def del: traverse_down.simps)
  moreover have "found = matching_files dirs pattern SD_CARD_LEVELS_MAX path" if "plain_directories dirs pattern"
    using find_files_matching [OF that] assms(5) by simp
  ultimately show ?thesis
    by blast
qed

definition example_dirs :: "string \<Rightarrow> (bool \<times> string) list option" where
  "example_dirs p = (if p = ''/SD:'' then Some [(True, ''music''), (False, ''read.me''), (False, ''a.lc3'')]
     else if p = ''/SD:/music'' then Some [(False, ''b.lc3''), (False, ''c.lc3'')] else None)"

definition example_dir_env :: "unit sd_env" where
  "example_dir_env =
     \<lparr>FATFS_MAX_LFN = 255, FR_INVALID_NAME = 6, fs_file_init = (), fs_open = (\<lambda>flags path f. (- ENOENT, f)),
      fs_read = (\<lambda>n f. (0, [], f)), fs_seek_end = (\<lambda>f. (0, f)), fs_write = (\<lambda>bs f. (int (length bs), f)),
      fs_close = (\<lambda>f. (0, f)),
      fs_opendir = (\<lambda>path. case example_dirs path of None \<Rightarrow> Inl (- ENOENT)
        | Some l \<Rightarrow> Inr (map (\<lambda>(d, n). (0, \<lparr>dirent_is_dir = d, dirent_name = n\<rparr>)) l)),
      fs_closedir = 0, disk_access_init = 0, disk_sector_count = 0, disk_sector_size = 0, fs_mount = 0,
      slab_content = (\<lambda>n. replicate SD_CARD_BUF_SIZE NUL)\<rparr>"

definition example_sd_card :: sd_card where
  "example_sd_card = \<lparr>sd_init_success = True, num_files_added = 0, slab_A_free = 0, slab_B_free = 0, slab_A_allocs = 0\<rparr>"

lemma two_levels: "SD_CARD_LEVELS_MAX = Suc (Suc 6)"
  by (simp add: SD_CARD_LEVELS_MAX_def)

lemma example_two_levels:
  "find_files example_dirs ''.lc3'' (Suc (Suc m)) None = [''music/b.lc3'', ''music/c.lc3'', ''a.lc3'']"
  "searchable example_dir_env example_dirs ''.lc3'' (Suc (Suc m)) None"
  by (simp_all add: example_dirs_def absolute_def join_def name_ok_def listing_def SD_CARD_BUF_SIZE_def
      PATH_MAX_LEN_def example_dir_env_def)

lemma example_find: "find_files example_dirs ''.lc3'' SD_CARD_LEVELS_MAX None = [''music/b.lc3'', ''music/c.lc3'', ''a.lc3'']"
  by (simp only: two_levels example_two_levels)

lemma example_searchable: "searchable example_dir_env example_dirs ''.lc3'' SD_CARD_LEVELS_MAX None"
  by (simp only: two_levels example_two_levels)

lemma example_plain: "plain_directories example_dirs ''.lc3''"
  unfolding plain_directories_def
proof (intro allI impI)
  fix path l is_dir n
  assume l: "example_dirs (absolute path) = Some l" and n: "(is_dir, n) \<in> set l"
  from l consider "path = None" | "path = Some ''music''"
    by (cases path) (auto simp: example_dirs_def absolute_def split: if_splits)
  then show "(is_dir \<longleftrightarrow> example_dirs (absolute (Some (join path n))) \<noteq> None) \<and> (is_dir \<longrightarrow> \<not> strstr n ''.lc3'')"
    using l n by cases (auto simp: example_dirs_def absolute_def join_def)
qed

theorem search_finds_files_witness:
  "matching_files example_dirs ''.lc3'' SD_CARD_LEVELS_MAX None = [''music/b.lc3'', ''music/c.lc3'', ''a.lc3'']
   \<and> (\<exists>s'. sd_card_list_files_match example_dir_env 4 32 (Some [''x'', ''x'', ''x'', ''x'']) None (Some ''.lc3'') example_sd_card
    = Some (3, Some [''music/b.lc3'', ''music/c.lc3'', ''a.lc3'', ''x''], s'))"
proof -
  have "honest_dirs example_dir_env example_dirs"
    by (auto simp: honest_dirs_def example_dir_env_def)
  moreover have "sd_init_success example_sd_card" "path_ok example_dir_env None" "32 \<le> PATH_MAX_LEN example_dir_env"
    by (simp_all add: example_sd_card_def path_ok_def PATH_MAX_LEN_def example_dir_env_def)
  ultimately show ?thesis
    using search_finds_files [OF _ _ _ example_searchable example_find [symmetric],
        of example_sd_card 4 "[''x'', ''x'', ''x'', ''x'']" 32] example_plain by simp
qed

section \<open>Names that are too long\<close>

text \<open>
  The buffer for the absolute path has room for \<open>PATH_MAX_LEN\<close> characters. Only \<open>sd_card_open\<close> counts
  the five characters of the root; the other functions let names through that do not fit.
\<close>

lemma long_name_overruns:
  assumes "sd_init_success s" and "length name \<le> PATH_MAX_LEN e" and "PATH_MAX_LEN e < length name + 5"
  shows "sd_card_open_write_close e name bs n s = None" "sd_card_open_read_close e name buf n s = None"
    "sd_card_list_files e (Some name) b k x s = None" "sd_card_open e name f s = Some (- EINVAL, f)"
proof -
  have "length name \<le> FATFS_MAX_LFN e"
    using assms(2) by (simp add: PATH_MAX_LEN_def)
  then show "sd_card_open e name f s = Some (- EINVAL, f)"
    using assms by (simp add: sd_card_open_def SD_ROOT_PATH_def)
qed (use assms in \<open>simp_all add: sd_card_open_write_close_def sd_card_open_read_close_def sd_card_list_files_def
  SD_ROOT_PATH_def strcat_def\<close>)

end
