(* ===== verification/BtAdvertising.thy ===== *)
theory BtAdvertising
  imports BlePaAdapter ZephyrKernel
begin

text \<open>
  Advertising (\<open>src/bluetooth/bt_management/advertising/bt_mgmt_adv.c\<close>). The module keeps the data of
  each advertising set, queues the index of a set that is to be started, and starts it in a work item:
  directed to a bonded peer that is not connected, if there is one, otherwise open with the stored
  data. A directed advertisement that times out is followed by an open one.

  The Bluetooth host is the parameter \<open>bt_host\<close>: each call is a function of its arguments and of
  the host's state. Handles of advertising sets and of connections are numbers; a set that was never
  created is \<open>None\<close>. \<open>None\<close> as a result is an access outside an array or a tripped \<open>ERR_CHK\<close>.
\<close>

section \<open>The host\<close>

type_synonym bt_addr_le = "u8 \<times> u8 list"

record adv_param =
  ap_sid :: u8
  ap_ext :: bool
  ap_conn :: bool
  ap_filter_conn :: bool
  ap_use_identity :: bool
  ap_dir_addr_rpa :: bool
  ap_interval_min :: nat
  ap_interval_max :: nat
  ap_peer :: "bt_addr_le option"

datatype bt_mgmt_msg =
    Msg_connected nat
  | Msg_disconnected nat
  | Msg_security_changed nat
  | Msg_ext_adv_with_pa_ready "nat option" nat
  | Msg_pa_synced nat u32
  | Msg_pa_sync_lost nat u8
  | Msg_broadcast_sink_disable
  | Msg_broadcast_code_received

text \<open>
  \<open>h_conn_lookup\<close> is \<open>None\<close> when there is no connection to the address, otherwise the result of
  \<open>bt_conn_get_info\<close> and whether the state is connected. The second argument of \<open>h_start\<close> asks for the
  time limit of high duty cycle advertising.
\<close>

record 'b bt_host =
  h_create :: "adv_param \<Rightarrow> 'b \<Rightarrow> int \<times> nat \<times> 'b"
  h_set_data :: "nat option \<Rightarrow> bt_data list \<Rightarrow> 'b \<Rightarrow> int \<times> 'b"
  h_update_param :: "nat option \<Rightarrow> adv_param \<Rightarrow> 'b \<Rightarrow> int \<times> 'b"
  h_get_info :: "nat option \<Rightarrow> 'b \<Rightarrow> int \<times> bt_addr_le option"
  h_start :: "nat option \<Rightarrow> bool \<Rightarrow> 'b \<Rightarrow> int \<times> 'b"
  h_stop :: "nat option \<Rightarrow> 'b \<Rightarrow> int \<times> 'b"
  h_delete :: "nat option \<Rightarrow> 'b \<Rightarrow> int \<times> 'b"
  h_per_set_param :: "nat option \<Rightarrow> 'b \<Rightarrow> int \<times> 'b"
  h_per_set_data :: "nat option \<Rightarrow> bt_data list \<Rightarrow> 'b \<Rightarrow> int \<times> 'b"
  h_per_start :: "nat option \<Rightarrow> 'b \<Rightarrow> int \<times> 'b"
  h_per_stop :: "nat option \<Rightarrow> 'b \<Rightarrow> int \<times> 'b"
  h_bonds :: "'b \<Rightarrow> bt_addr_le list"
  h_conn_lookup :: "bt_addr_le \<Rightarrow> 'b \<Rightarrow> (int \<times> bool) option"
  h_fal_clear :: "'b \<Rightarrow> int \<times> 'b"
  h_fal_add :: "bt_addr_le \<Rightarrow> 'b \<Rightarrow> int \<times> 'b"
  h_publish :: "bt_mgmt_msg \<Rightarrow> 'b \<Rightarrow> int \<times> 'b"
  CONN_DIR_PARAM :: "bt_addr_le \<Rightarrow> adv_param"

record mgmt_config =
  CFG_BONDABLE :: bool
  CFG_FILTER_ACCEPT_LIST :: bool
  CFG_PER_ADV :: bool
  CFG_PRIVACY :: bool
  CFG_MAX_ADV_SET :: nat
  CFG_BONDS_QUEUE_SIZE :: nat
  CFG_ADV_SID :: u8
  CFG_EXT_ADV_INT_MIN :: nat
  CFG_EXT_ADV_INT_MAX :: nat

definition LE_AUDIO_EXTENDED_ADV :: "mgmt_config \<Rightarrow> adv_param" where
  "LE_AUDIO_EXTENDED_ADV c =
     \<lparr>ap_sid = 0, ap_ext = True, ap_conn = False, ap_filter_conn = False, ap_use_identity = False,
      ap_dir_addr_rpa = False, ap_interval_min = CFG_EXT_ADV_INT_MIN c, ap_interval_max = CFG_EXT_ADV_INT_MAX c,
      ap_peer = None\<rparr>"

definition LE_AUDIO_EXTENDED_ADV_CONN :: "mgmt_config \<Rightarrow> adv_param" where
  "LE_AUDIO_EXTENDED_ADV_CONN c = (LE_AUDIO_EXTENDED_ADV c)\<lparr>ap_conn := True\<rparr>"

definition LE_AUDIO_EXTENDED_ADV_CONN_FILTER :: "mgmt_config \<Rightarrow> adv_param" where
  "LE_AUDIO_EXTENDED_ADV_CONN_FILTER c = (LE_AUDIO_EXTENDED_ADV c)\<lparr>ap_conn := True, ap_filter_conn := True\<rparr>"

section \<open>State\<close>

record 'b adv_mgmt =
  ext_adv_set :: "nat option list"
  adv_local :: "bt_data list option list"
  adv_local_size :: "nat list"
  per_adv_local :: "bt_data list option list"
  per_adv_local_size :: "nat list"
  adv_q :: "nat list"
  bonds_q :: "bt_addr_le list"
  dir_adv_timed_out :: bool
  ext_adv_param :: adv_param
  adv_work_queued :: bool
  mgmt_host :: 'b

definition adv_mgmt_boot :: "mgmt_config \<Rightarrow> 'b \<Rightarrow> 'b adv_mgmt" where
  "adv_mgmt_boot c h =
     \<lparr>ext_adv_set = replicate (CFG_MAX_ADV_SET c) None, adv_local = replicate (CFG_MAX_ADV_SET c) None,
      adv_local_size = replicate (CFG_MAX_ADV_SET c) 0, per_adv_local = replicate (CFG_MAX_ADV_SET c) None,
      per_adv_local_size = replicate (CFG_MAX_ADV_SET c) 0, adv_q = [], bonds_q = [], dir_adv_timed_out = False,
      ext_adv_param = (LE_AUDIO_EXTENDED_ADV c)\<lparr>ap_sid := CFG_ADV_SID c\<rparr>, adv_work_queued = False, mgmt_host = h\<rparr>"

text \<open>A call of the host: its result, and the state with the host as the call leaves it.\<close>

definition host_call :: "('b \<Rightarrow> int \<times> 'b) \<Rightarrow> ('b, 'x) adv_mgmt_scheme \<Rightarrow> int \<times> ('b, 'x) adv_mgmt_scheme" where
  "host_call f s = (let (ret, h) = f (mgmt_host s) in (ret, s\<lparr>mgmt_host := h\<rparr>))"

section \<open>Bonds\<close>

text \<open>A peer that is connected, or whose connection cannot be read, is not put into the queue.\<close>

definition bond_find :: "mgmt_config \<Rightarrow> 'b bt_host \<Rightarrow> bt_addr_le \<Rightarrow> ('b, 'x) adv_mgmt_scheme \<Rightarrow> ('b, 'x) adv_mgmt_scheme" where
  "bond_find c e addr s =
     (if \<not> CFG_BONDABLE c then s
      else
        let skip = (case h_conn_lookup e addr (mgmt_host s) of
              None \<Rightarrow> False
            | Some (ret, connected) \<Rightarrow> ret \<noteq> 0 \<or> connected)
        in if skip \<or> CFG_BONDS_QUEUE_SIZE c \<le> length (bonds_q s) then s
           else s\<lparr>bonds_q := bonds_q s @ [addr]\<rparr>)"

definition filter_accept_list_add :: "'b bt_host \<Rightarrow> bt_addr_le \<Rightarrow> ('b, 'x) adv_mgmt_scheme \<Rightarrow> ('b, 'x) adv_mgmt_scheme" where
  "filter_accept_list_add e addr s = snd (host_call (h_fal_add e addr) s)"

definition bt_foreach_bond ::
  "'b bt_host \<Rightarrow> (bt_addr_le \<Rightarrow> ('b, 'x) adv_mgmt_scheme \<Rightarrow> ('b, 'x) adv_mgmt_scheme)
   \<Rightarrow> ('b, 'x) adv_mgmt_scheme \<Rightarrow> ('b, 'x) adv_mgmt_scheme" where
  "bt_foreach_bond e f s = fold f (h_bonds e (mgmt_host s)) s"

definition adv_addr_print :: "bt_addr_le option \<Rightarrow> int" where
  "adv_addr_print local_addr = (if local_addr = None then - EINVAL else 0)"

section \<open>The work item\<close>

definition direct_adv_create ::
  "'b bt_host \<Rightarrow> nat \<Rightarrow> bt_addr_le \<Rightarrow> ('b, 'x) adv_mgmt_scheme \<Rightarrow> (int \<times> ('b, 'x) adv_mgmt_scheme) option" where
  "direct_adv_create e i addr s = do {
     let s = s\<lparr>ext_adv_param := (CONN_DIR_PARAM e addr)\<lparr>ap_dir_addr_rpa := True\<rparr>\<rparr>;
     adv \<leftarrow> rd (ext_adv_set s) i;
     let (ret, s) = host_call (h_set_data e adv []) s;
     if ret \<noteq> 0 then Some (ret, s)
     else let (ret, s) = host_call (h_update_param e adv (ext_adv_param s)) s in
       if ret \<noteq> 0 then Some (ret, s)
       else let (ret, a) = h_get_info e adv (mgmt_host s) in
         if ret \<noteq> 0 then Some (ret, s) else Some (adv_addr_print a, s) }"

definition extended_adv_create ::
  "mgmt_config \<Rightarrow> 'b bt_host \<Rightarrow> nat \<Rightarrow> ('b, 'x) adv_mgmt_scheme \<Rightarrow> (int \<times> ('b, 'x) adv_mgmt_scheme) option" where
  "extended_adv_create c e i s = do {
     data \<leftarrow> rd (adv_local s) i;
     n \<leftarrow> rd (adv_local_size s) i;
     adv \<leftarrow> rd (ext_adv_set s) i;
     pdata \<leftarrow> rd (per_adv_local s) i;
     pn \<leftarrow> rd (per_adv_local_size s) i;
     let info = (\<lambda>s. let (ret, a) = h_get_info e adv (mgmt_host s) in
           if ret \<noteq> 0 then Some (ret, s) else Some (adv_addr_print a, s));
     case data of
       None \<Rightarrow> Some (- ENXIO, s)
     | Some d \<Rightarrow> do {
         ad \<leftarrow> rd_range d 0 n;
         let (ret, s) = host_call (h_set_data e adv ad) s;
         if ret \<noteq> 0 then Some (ret, s)
         else (case pdata of
           None \<Rightarrow> info s
         | Some p \<Rightarrow>
             if \<not> CFG_PER_ADV c then info s
             else let (ret, s) = host_call (h_per_set_param e adv) s in
               if ret \<noteq> 0 then Some (ret, s)
               else do {
                 pad \<leftarrow> rd_range p 0 pn;
                 let (ret, s) = host_call (h_per_set_data e adv pad) s;
                 if ret \<noteq> 0 then Some (ret, s) else info s }) } }"

text \<open>The set is started; with periodic data its periodic advertising too, and that is announced.\<close>

definition advertising_started ::
  "mgmt_config \<Rightarrow> 'b bt_host \<Rightarrow> nat \<Rightarrow> int \<Rightarrow> ('b, 'x) adv_mgmt_scheme \<Rightarrow> ('b, 'x) adv_mgmt_scheme option" where
  "advertising_started c e i ret s =
     (if ret \<noteq> 0 then Some s
      else do {
        pdata \<leftarrow> rd (per_adv_local s) i;
        adv \<leftarrow> rd (ext_adv_set s) i;
        if pdata \<noteq> None \<and> CFG_PER_ADV c then
          let (ret, s) = host_call (h_per_start e adv) s in
          if ret \<noteq> 0 then Some s
          else do {
            let (ret, s) = host_call (h_publish e (Msg_ext_adv_with_pa_ready adv i)) s;
            err_chk ret;
            Some s }
        else Some s })"

definition directed_start ::
  "'b bt_host \<Rightarrow> nat \<Rightarrow> bt_addr_le \<Rightarrow> ('b, 'x) adv_mgmt_scheme \<Rightarrow> (int \<times> ('b, 'x) adv_mgmt_scheme) option" where
  "directed_start e i addr s = do {
     (ret, s) \<leftarrow> direct_adv_create e i addr s;
     if ret \<noteq> 0 then Some (ret, s)
     else do {
       adv \<leftarrow> rd (ext_adv_set s) i;
       Some (host_call (h_start e adv True) s) } }"

definition open_start ::
  "mgmt_config \<Rightarrow> 'b bt_host \<Rightarrow> nat \<Rightarrow> ('b, 'x) adv_mgmt_scheme \<Rightarrow> (int \<times> ('b, 'x) adv_mgmt_scheme) option" where
  "open_start c e i s = do {
     (ret, s) \<leftarrow> extended_adv_create c e i s;
     if ret \<noteq> 0 then Some (ret, s)
     else do {
       adv \<leftarrow> rd (ext_adv_set s) i;
       Some (host_call (h_start e adv False) (s\<lparr>dir_adv_timed_out := False\<rparr>)) } }"

text \<open>The bonds are collected and the filter accept list is filled before a set is started.\<close>

definition bonds_collect ::
  "mgmt_config \<Rightarrow> 'b bt_host \<Rightarrow> ('b, 'x) adv_mgmt_scheme \<Rightarrow> int \<times> ('b, 'x) adv_mgmt_scheme" where
  "bonds_collect c e s =
     (let s = s\<lparr>bonds_q := []\<rparr> in
      if \<not> CFG_BONDABLE c then (0, s)
      else
        let s = bt_foreach_bond e (bond_find c e) s in
        if \<not> CFG_FILTER_ACCEPT_LIST c then (0, s)
        else let (ret, s) = host_call (h_fal_clear e) s in
          if ret \<noteq> 0 then (ret, s) else (0, bt_foreach_bond e (filter_accept_list_add e) s))"

definition advertising_process ::
  "mgmt_config \<Rightarrow> 'b bt_host \<Rightarrow> ('b, 'x) adv_mgmt_scheme \<Rightarrow> ('b, 'x) adv_mgmt_scheme option" where
  "advertising_process c e s = (case adv_q s of
       [] \<Rightarrow> Some s
     | i # q \<Rightarrow>
         let (ret, s) = bonds_collect c e (s\<lparr>adv_q := q\<rparr>) in
         if ret \<noteq> 0 then Some s
         else
           let bond = (case bonds_q s of [] \<Rightarrow> None | addr # r \<Rightarrow> Some addr);
               s = s\<lparr>bonds_q := tl (bonds_q s)\<rparr> in do {
           (ret, s) \<leftarrow> (case bond of
               Some addr \<Rightarrow> if \<not> dir_adv_timed_out s then directed_start e i addr s else open_start c e i s
             | None \<Rightarrow> open_start c e i s);
           advertising_started c e i ret s })"

text \<open>The work queue runs the item when it is queued; an item that is queued is not queued again.\<close>

definition adv_work :: "mgmt_config \<Rightarrow> 'b bt_host \<Rightarrow> ('b, 'x) adv_mgmt_scheme \<Rightarrow> ('b, 'x) adv_mgmt_scheme option" where
  "adv_work c e s = (if adv_work_queued s then advertising_process c e (s\<lparr>adv_work_queued := False\<rparr>) else Some s)"

section \<open>Starting and stopping\<close>

definition adv_queue :: "mgmt_config \<Rightarrow> nat \<Rightarrow> ('b, 'x) adv_mgmt_scheme \<Rightarrow> int \<times> ('b, 'x) adv_mgmt_scheme" where
  "adv_queue c i s =
     (if CFG_MAX_ADV_SET c \<le> length (adv_q s) then (- ENOMEM, s)
      else (0, s\<lparr>adv_q := adv_q s @ [i], adv_work_queued := True\<rparr>))"

definition bt_mgmt_adv_start ::
  "mgmt_config \<Rightarrow> 'b bt_host \<Rightarrow> nat \<Rightarrow> bt_data list option \<Rightarrow> nat \<Rightarrow> bt_data list option \<Rightarrow> nat \<Rightarrow> bool
   \<Rightarrow> ('b, 'x) adv_mgmt_scheme \<Rightarrow> (int \<times> ('b, 'x) adv_mgmt_scheme) option" where
  "bt_mgmt_adv_start c e i adv adv_size per per_size connectable s =
     (if adv = None \<and> adv_size = 0 \<and> per = None \<and> per_size = 0 then do {
        d \<leftarrow> rd (adv_local s) i;
        if d = None then Some (- ENOENT, s) else Some (adv_queue c i s) }
      else if adv = None then Some (- EINVAL, s)
      else if adv_size = 0 then Some (- EINVAL, s)
      else do {
        al \<leftarrow> wr (adv_local s) i adv;
        as \<leftarrow> wr (adv_local_size s) i adv_size;
        pl \<leftarrow> wr (per_adv_local s) i per;
        ps \<leftarrow> wr (per_adv_local_size s) i per_size;
        let s = s\<lparr>adv_local := al, adv_local_size := as, per_adv_local := pl, per_adv_local_size := ps,
                  ext_adv_param := (ext_adv_param s)\<lparr>ap_use_identity := \<not> CFG_PRIVACY c \<and> i = 0\<rparr>\<rparr>;
        let (ret, adv_h, h) = h_create e (if connectable then LE_AUDIO_EXTENDED_ADV_CONN c else ext_adv_param s)
                            (mgmt_host s);
        let s = s\<lparr>mgmt_host := h\<rparr>;
        if ret \<noteq> 0 then Some (ret, s)
        else do {
          sets \<leftarrow> wr (ext_adv_set s) i (Some adv_h);
          Some (adv_queue c i (s\<lparr>ext_adv_set := sets\<rparr>)) } })"

definition bt_mgmt_dir_adv_timed_out ::
  "mgmt_config \<Rightarrow> 'b bt_host \<Rightarrow> nat \<Rightarrow> ('b, 'x) adv_mgmt_scheme \<Rightarrow> ('b, 'x) adv_mgmt_scheme option" where
  "bt_mgmt_dir_adv_timed_out c e i s = do {
     let s = s\<lparr>dir_adv_timed_out := True\<rparr>;
     adv \<leftarrow> rd (ext_adv_set s) i;
     let s = snd (host_call (h_delete e adv) s);
     let (ret, adv_h, h) = h_create e (if CFG_FILTER_ACCEPT_LIST c then LE_AUDIO_EXTENDED_ADV_CONN_FILTER c
                         else LE_AUDIO_EXTENDED_ADV_CONN c) (mgmt_host s);
     let s = s\<lparr>mgmt_host := h\<rparr>;
     if ret \<noteq> 0 then Some s
     else do {
       sets \<leftarrow> wr (ext_adv_set s) i (Some adv_h);
       (ret, s) \<leftarrow> bt_mgmt_adv_start c e i None 0 None 0 True (s\<lparr>ext_adv_set := sets\<rparr>);
       Some s } }"

definition bt_mgmt_per_adv_stop ::
  "'b bt_host \<Rightarrow> nat \<Rightarrow> ('b, 'x) adv_mgmt_scheme \<Rightarrow> (int \<times> ('b, 'x) adv_mgmt_scheme) option" where
  "bt_mgmt_per_adv_stop e i s = do {
     adv \<leftarrow> rd (ext_adv_set s) i;
     Some (host_call (h_per_stop e adv) s) }"

definition bt_mgmt_ext_adv_stop ::
  "'b bt_host \<Rightarrow> nat \<Rightarrow> ('b, 'x) adv_mgmt_scheme \<Rightarrow> (int \<times> ('b, 'x) adv_mgmt_scheme) option" where
  "bt_mgmt_ext_adv_stop e i s = do {
     adv \<leftarrow> rd (ext_adv_set s) i;
     let (ret, s) = host_call (h_stop e adv) s;
     if ret \<noteq> 0 then Some (ret, s)
     else Some (host_call (h_delete e adv) s) }"

definition bt_mgmt_adv_init :: "('b, 'x) adv_mgmt_scheme \<Rightarrow> ('b, 'x) adv_mgmt_scheme" where
  "bt_mgmt_adv_init s = s\<lparr>adv_work_queued := False\<rparr>"

end
