(* ===== verification/BtMgmt.thy ===== *)
theory BtMgmt
  imports BtAdvertising ButtonModule
begin

text \<open>
  Connections and start-up of the Bluetooth management
  (\<open>src/bluetooth/bt_management/bt_mgmt.c\<close>,
  \<open>src/bluetooth/bt_management/controller_config/bt_mgmt_ctlr_cfg.c\<close>). The callbacks publish what
  happens to a connection and bring a receiver back on air; start-up enables the stack, clears the
  bonds when the button asks for it and supervises the controller with a watchdog.

  The calls of the host that are not about advertising are the parameter \<open>conn_host\<close>; they act on the
  same state as those of \<open>bt_host\<close>. A connection is a number.
\<close>

section \<open>The host and the state\<close>

abbreviation (input) BT_HCI_ERR_UNKNOWN_CONN_ID :: u8 where "BT_HCI_ERR_UNKNOWN_CONN_ID \<equiv> 0x02"
abbreviation (input) BT_HCI_ERR_AUTH_FAIL :: u8 where "BT_HCI_ERR_AUTH_FAIL \<equiv> 0x05"
abbreviation (input) BT_HCI_ERR_ADV_TIMEOUT :: u8 where "BT_HCI_ERR_ADV_TIMEOUT \<equiv> 0x3C"

text \<open>
  \<open>c_version\<close> is the command that reads the controller's version: its result, and the buffer and the
  manufacturer of the response. \<open>c_id_get\<close> is the number of local identities. \<open>c_enabled\<close> is the error with which the stack
  has called back when start-up waits for it, if it has.
\<close>

record 'b conn_host =
  c_conns :: "'b \<Rightarrow> nat list"
  c_connected :: "nat \<Rightarrow> 'b \<Rightarrow> int \<times> bool"
  c_unref :: "nat \<Rightarrow> 'b \<Rightarrow> 'b"
  c_set_security :: "nat \<Rightarrow> 'b \<Rightarrow> int \<times> 'b"
  c_disconnect :: "nat \<Rightarrow> u8 \<Rightarrow> 'b \<Rightarrow> int \<times> 'b"
  c_scan_restart :: "'b \<Rightarrow> int \<times> 'b"
  c_unpair_all :: "'b \<Rightarrow> int \<times> 'b"
  c_sync_delete :: "nat option \<Rightarrow> 'b \<Rightarrow> int \<times> 'b"
  c_enable :: "'b \<Rightarrow> int \<times> 'b"
  c_enabled :: "'b \<Rightarrow> int option"
  c_create_static :: "'b \<Rightarrow> int \<times> 'b"
  c_id_create :: "'b \<Rightarrow> int \<times> 'b"
  c_id_get :: "'b \<Rightarrow> nat"
  c_settings_load :: "'b \<Rightarrow> int \<times> 'b"
  c_smp_unregister :: "'b \<Rightarrow> int \<times> 'b"
  c_version :: "'b \<Rightarrow> int \<times> nat \<times> u16 \<times> 'b"
  c_buf_unref :: "nat \<Rightarrow> 'b \<Rightarrow> 'b"
  c_wdt_init :: "'b \<Rightarrow> int \<times> 'b"
  c_wdt_add :: "nat \<Rightarrow> 'b \<Rightarrow> int \<times> 'b"
  c_wdt_feed :: "int \<Rightarrow> 'b \<Rightarrow> int \<times> 'b"

record conn_config = mgmt_config +
  CFG_PERIPHERAL :: bool
  CFG_CENTRAL :: bool
  CFG_BROADCASTER :: bool
  CFG_CONN :: bool
  CFG_PER_ADV_SYNC :: bool
  CFG_SETTINGS :: bool
  CFG_RANDOM_ADDRESS :: bool
  CFG_DFU :: bool
  CFG_SMP_DYNAMIC :: bool
  CFG_WDT_CTLR :: bool
  CFG_ID_MAX :: nat

record 'b bt_mgmt = "'b adv_mgmt" +
  wdt_ch_id :: int
  ctlr_poll_timer :: bool
  ctlr_poll_queued :: bool
  conn_callbacks :: bool
  sem_bt_enabled :: nat
  adv_initialised :: bool

text \<open>A call without a result.\<close>

definition host_do :: "('b \<Rightarrow> 'b) \<Rightarrow> ('b, 'x) adv_mgmt_scheme \<Rightarrow> ('b, 'x) adv_mgmt_scheme" where
  "host_do f s = s\<lparr>mgmt_host := f (mgmt_host s)\<rparr>"

section \<open>Connections\<close>

definition conn_state_connected_check :: "'b conn_host \<Rightarrow> 'b \<Rightarrow> nat \<Rightarrow> u8 \<Rightarrow> u8" where
  "conn_state_connected_check m h conn num_conn =
     (case c_connected m conn h of (ret, connected) \<Rightarrow>
        if ret \<noteq> 0 then num_conn else if \<not> connected then num_conn else num_conn + 1)"

definition bt_mgmt_num_conn_get :: "'b conn_host \<Rightarrow> ('b, 'x) adv_mgmt_scheme \<Rightarrow> u8 \<Rightarrow> u8" where
  "bt_mgmt_num_conn_get m s num_conn =
     fold (conn_state_connected_check m (mgmt_host s)) (c_conns m (mgmt_host s)) num_conn"

definition connected_cb ::
  "conn_config \<Rightarrow> 'b bt_host \<Rightarrow> 'b conn_host \<Rightarrow> nat \<Rightarrow> u8 \<Rightarrow> 'b bt_mgmt \<Rightarrow> 'b bt_mgmt option" where
  "connected_cb c e m conn err s =
     (if err = BT_HCI_ERR_ADV_TIMEOUT \<and> CFG_PERIPHERAL c then bt_mgmt_dir_adv_timed_out (mgmt_config.truncate c) e 0 s
      else if err \<noteq> 0 then do {
        let s = host_do (c_unref m conn) s;
        let s = (if CFG_CENTRAL c then snd (host_call (c_scan_restart m) s) else s);
        if CFG_PERIPHERAL c then do {
          (ret, s) \<leftarrow> bt_mgmt_adv_start (mgmt_config.truncate c) e 0 None 0 None 0 True s;
          Some s }
        else Some s }
      else do {
        let (ret, s) = host_call (h_publish e (Msg_connected conn)) s;
        err_chk ret;
        Some (if CFG_CENTRAL c then snd (host_call (c_set_security m conn) s) else s) })"

definition disconnected_cb ::
  "conn_config \<Rightarrow> 'b bt_host \<Rightarrow> 'b conn_host \<Rightarrow> nat \<Rightarrow> 'b bt_mgmt \<Rightarrow> 'b bt_mgmt option" where
  "disconnected_cb c e m conn s = do {
     let s = (if CFG_CENTRAL c then host_do (c_unref m conn) s else s);
     let (ret, s) = host_call (h_publish e (Msg_disconnected conn)) s;
     err_chk ret;
     s \<leftarrow> (if CFG_PERIPHERAL c then do {
              (ret, s) \<leftarrow> bt_mgmt_adv_start (mgmt_config.truncate c) e 0 None 0 None 0 True s;
              err_chk ret;
              Some s }
            else Some s);
     Some (if CFG_CENTRAL c then snd (host_call (c_scan_restart m) s) else s) }"

definition security_changed_cb ::
  "'b bt_host \<Rightarrow> 'b conn_host \<Rightarrow> nat \<Rightarrow> nat \<Rightarrow> 'b bt_mgmt \<Rightarrow> 'b bt_mgmt option" where
  "security_changed_cb e m conn err s =
     (if err \<noteq> 0 then Some (snd (host_call (c_disconnect m conn BT_HCI_ERR_AUTH_FAIL) s))
      else do {
        let (ret, s) = host_call (h_publish e (Msg_security_changed conn)) s;
        err_chk ret;
        Some s })"

definition bt_mgmt_conn_disconnect ::
  "conn_config \<Rightarrow> 'b conn_host \<Rightarrow> nat \<Rightarrow> u8 \<Rightarrow> 'b bt_mgmt \<Rightarrow> int \<times> 'b bt_mgmt" where
  "bt_mgmt_conn_disconnect c m conn reason s =
     (if CFG_CONN c then host_call (c_disconnect m conn reason) s else (- ENOTSUP, s))"

text \<open>The synchronisation may be one that was never made.\<close>

definition bt_mgmt_pa_sync_delete ::
  "conn_config \<Rightarrow> 'b conn_host \<Rightarrow> nat option \<Rightarrow> ('b, 'x) adv_mgmt_scheme \<Rightarrow> int \<times> ('b, 'x) adv_mgmt_scheme" where
  "bt_mgmt_pa_sync_delete c m pa_sync s =
     (if CFG_PER_ADV_SYNC c then host_call (c_sync_delete m pa_sync) s else (- ENOTSUP, s))"

definition bt_mgmt_bonding_clear :: "conn_config \<Rightarrow> 'b conn_host \<Rightarrow> 'b bt_mgmt \<Rightarrow> int \<times> 'b bt_mgmt" where
  "bt_mgmt_bonding_clear c m s = (if CFG_SETTINGS c then host_call (c_unpair_all m) s else (0, s))"

section \<open>The controller and its watchdog\<close>

abbreviation (input) COMPANY_ID_NORDIC :: u16 where "COMPANY_ID_NORDIC \<equiv> 0x0059"
abbreviation (input) WDT_TIMEOUT_MS :: nat where "WDT_TIMEOUT_MS \<equiv> 3000"

text \<open>The manufacturer is written only when it is returned; the buffer of the response is not released when it is not.\<close>

definition bt_mgmt_ctlr_cfg_manufacturer_get ::
  "'b conn_host \<Rightarrow> bool \<Rightarrow> u16 \<Rightarrow> ('b, 'x) adv_mgmt_scheme \<Rightarrow> int \<times> u16 \<times> ('b, 'x) adv_mgmt_scheme" where
  "bt_mgmt_ctlr_cfg_manufacturer_get m print_version manufacturer s =
     (let (ret, rsp, mf, h) = c_version m (mgmt_host s); s = s\<lparr>mgmt_host := h\<rparr> in
      if ret \<noteq> 0 then (ret, manufacturer, s)
      else if print_version \<and> mf \<noteq> COMPANY_ID_NORDIC then (- EPERM, manufacturer, s)
      else (0, mf, host_do (c_buf_unref m rsp) s))"

definition work_ctlr_poll_handler :: "'b conn_host \<Rightarrow> 'b bt_mgmt \<Rightarrow> 'b bt_mgmt option" where
  "work_ctlr_poll_handler m s = do {
     let (ret, manufacturer, s) = bt_mgmt_ctlr_cfg_manufacturer_get m False 0 s;
     err_chk ret;
     let (ret, s) = host_call (c_wdt_feed m (wdt_ch_id s)) s;
     err_chk ret;
     Some s }"

definition ctlr_poll_timer_handler :: "'b bt_mgmt \<Rightarrow> 'b bt_mgmt" where
  "ctlr_poll_timer_handler s = s\<lparr>ctlr_poll_queued := True\<rparr>"

definition ctlr_poll_work :: "'b conn_host \<Rightarrow> 'b bt_mgmt \<Rightarrow> 'b bt_mgmt option" where
  "ctlr_poll_work m s = (if ctlr_poll_queued s then work_ctlr_poll_handler m (s\<lparr>ctlr_poll_queued := False\<rparr>) else Some s)"

definition wdt_timeout_cb :: "'b bt_mgmt \<Rightarrow> 'b bt_mgmt option" where
  "wdt_timeout_cb s = do { err_chk (- ETIMEDOUT); Some s }"

definition bt_mgmt_ctlr_cfg_init :: "'b conn_host \<Rightarrow> bool \<Rightarrow> 'b bt_mgmt \<Rightarrow> int \<times> 'b bt_mgmt" where
  "bt_mgmt_ctlr_cfg_init m watchdog_enable s =
     (let (ret, manufacturer, s) = bt_mgmt_ctlr_cfg_manufacturer_get m True 0 s in
      if ret \<noteq> 0 then (ret, s)
      else if \<not> watchdog_enable then (0, s)
      else let (ret, s) = host_call (c_wdt_init m) s in
        if ret \<noteq> 0 then (ret, s)
        else let (ret, s) = host_call (c_wdt_add m WDT_TIMEOUT_MS) s; s = s\<lparr>wdt_ch_id := ret\<rparr> in
          if ret < 0 then (ret, s)
          else (0, s\<lparr>ctlr_poll_queued := False, ctlr_poll_timer := True\<rparr>))"

section \<open>Start-up\<close>

text \<open>
  The buttons are read through the button handler; the variable that receives the answer is read only
  when the result is zero, and then it has been written.
\<close>

record button_gpio =
  bg_board :: button_board
  bg_ready :: "nat \<Rightarrow> bool"
  bg_level :: "u8 \<Rightarrow> int"

definition button_read :: "button_gpio \<Rightarrow> u8 \<Rightarrow> int \<times> bool option" where
  "button_read g pin = button_pressed (bg_board g) (bg_ready g) (bg_level g pin) pin (Some False)"

definition bonding_clear_check :: "conn_config \<Rightarrow> 'b conn_host \<Rightarrow> button_gpio \<Rightarrow> 'b bt_mgmt \<Rightarrow> int \<times> 'b bt_mgmt" where
  "bonding_clear_check c m g s =
     (let (ret, pressed) = button_read g (ucast (pin_button_5 (bg_board g))) in
      if ret \<noteq> 0 then (ret, s)
      else if pressed = Some True then bt_mgmt_bonding_clear c m s else (0, s))"

definition random_static_addr_set :: "'b conn_host \<Rightarrow> 'b bt_mgmt \<Rightarrow> int \<times> 'b bt_mgmt" where
  "random_static_addr_set m s =
     (let (ret, s) = host_call (c_create_static m) s in
      if ret < 0 then (ret, s)
      else let (ret, s) = host_call (c_id_create m) s in
        if ret < 0 then (ret, s) else (0, s))"

definition local_identity_addr_print :: "conn_config \<Rightarrow> 'b conn_host \<Rightarrow> 'b bt_mgmt \<Rightarrow> int" where
  "local_identity_addr_print c m s = (if c_id_get m (mgmt_host s) \<noteq> CFG_ID_MAX c then - ENOMEM else 0)"

text \<open>Start-up returns a result, or stays in the firmware update for good.\<close>

datatype init_end = Init_returned int | Init_dfu

definition bt_mgmt_init_bonds ::
  "conn_config \<Rightarrow> 'b conn_host \<Rightarrow> button_gpio \<Rightarrow> 'b bt_mgmt \<Rightarrow> int \<times> 'b bt_mgmt" where
  "bt_mgmt_init_bonds c m g s =
     (let (ret, s) = (if CFG_RANDOM_ADDRESS c then random_static_addr_set m s else (0, s)) in
      if ret \<noteq> 0 then (ret, s)
      else if \<not> CFG_SETTINGS c then (0, s)
      else let (ret, s) = host_call (c_settings_load m) s in
        if ret \<noteq> 0 then (ret, s)
        else let (ret, s) = bonding_clear_check c m g s in
          if ret \<noteq> 0 then (ret, s)
          else if CFG_RANDOM_ADDRESS c then bt_mgmt_bonding_clear c m s else (0, s))"

definition bt_mgmt_init_rest :: "conn_config \<Rightarrow> 'b conn_host \<Rightarrow> 'b bt_mgmt \<Rightarrow> int \<times> 'b bt_mgmt" where
  "bt_mgmt_init_rest c m s =
     (let (ret, s) = (if CFG_SMP_DYNAMIC c then host_call (c_smp_unregister m) s else (0, s)) in
      if ret \<noteq> 0 then (ret, s)
      else let (ret, s) = bt_mgmt_ctlr_cfg_init m (CFG_WDT_CTLR c) s in
        if ret \<noteq> 0 then (ret, s)
        else let ret = local_identity_addr_print c m s in
          if ret \<noteq> 0 then (ret, s)
          else let s = (if CFG_CONN c then s\<lparr>conn_callbacks := True\<rparr> else s) in
            (0, if CFG_PERIPHERAL c \<or> CFG_BROADCASTER c
                then (bt_mgmt_adv_init s)\<lparr>adv_initialised := True\<rparr> else s))"

definition bt_enabled_cb :: "int \<Rightarrow> 'b bt_mgmt \<Rightarrow> 'b bt_mgmt option" where
  "bt_enabled_cb err s = do { err_chk err; Some (s\<lparr>sem_bt_enabled := 1\<rparr>) }"

text \<open>The wait for the stack: it has called back by then, or the wait times out.\<close>

definition bt_enabled_wait :: "'b conn_host \<Rightarrow> 'b bt_mgmt \<Rightarrow> (int \<times> 'b bt_mgmt) option" where
  "bt_enabled_wait m s = do {
     s \<leftarrow> (case c_enabled m (mgmt_host s) of None \<Rightarrow> Some s | Some err \<Rightarrow> bt_enabled_cb err s);
     Some (if sem_bt_enabled s = 0 then (- EAGAIN, s) else (0, s\<lparr>sem_bt_enabled := sem_bt_enabled s - 1\<rparr>)) }"

definition bt_mgmt_init :: "conn_config \<Rightarrow> 'b conn_host \<Rightarrow> button_gpio \<Rightarrow> 'b bt_mgmt \<Rightarrow> (init_end \<times> 'b bt_mgmt) option" where
  "bt_mgmt_init c m g s = (case host_call (c_enable m) s of (ret, s) \<Rightarrow>
     if ret \<noteq> 0 then Some (Init_returned ret, s)
     else do {
       (ret, s) \<leftarrow> bt_enabled_wait m s;
       if ret \<noteq> 0 then Some (Init_returned ret, s)
       else
         let (ret, s) = bt_mgmt_init_bonds c m g s in
         if ret \<noteq> 0 then Some (Init_returned ret, s)
         else
           let rest = (\<lambda>s. case bt_mgmt_init_rest c m s of (ret, s) \<Rightarrow> Some (Init_returned ret, s)) in
           if \<not> CFG_DFU c then rest s
           else let (ret, pressed) = button_read g (ucast (pin_button_4 (bg_board g))) in
             if ret \<noteq> 0 then Some (Init_returned ret, s)
             else if pressed \<noteq> Some True then rest s
             else let (ret, s) = bt_mgmt_ctlr_cfg_init m False s in
               if ret \<noteq> 0 then Some (Init_returned ret, s) else Some (Init_dfu, s) })"

end
