(* ===== verification/BtOnAir.thy ===== *)
theory BtOnAir
  imports BtMgmt
begin

text \<open>
  What advertising promises: the contract of the Bluetooth host (what its calls do to the advertising
  sets and to the messages that are published), that a set which is announced is on air with the data
  it was given, that a receiver whose connection ends comes back on air, and how the queue of the work
  item can be left behind.
\<close>

section \<open>The contract of the host\<close>

text \<open>An advertising set as the peers see it.\<close>

record adv_view =
  av_param :: adv_param
  av_data :: "bt_data list"
  av_on :: bool
  av_limited :: bool
  av_per_data :: "bt_data list"
  av_per_on :: bool

definition new_set :: "adv_param \<Rightarrow> adv_view" where
  "new_set p = \<lparr>av_param = p, av_data = [], av_on = False, av_limited = False, av_per_data = [], av_per_on = False\<rparr>"

type_synonym 'b host_view = "'b \<Rightarrow> (nat \<rightharpoonup> adv_view) \<times> bt_mgmt_msg list"

text \<open>A call changes the set it is given as \<open>f\<close> says when it returns zero, and nothing otherwise.\<close>

definition acts_on :: "'b host_view \<Rightarrow> (nat option \<Rightarrow> 'b \<Rightarrow> int \<times> 'b) \<Rightarrow> (adv_view \<Rightarrow> adv_view) \<Rightarrow> bool" where
  "acts_on vw op f \<longleftrightarrow> (\<forall>a b. case op a b of (ret, b') \<Rightarrow>
     if ret = 0 then (\<exists>h v. a = Some h \<and> fst (vw b) h = Some v \<and> vw b' = ((fst (vw b))(h \<mapsto> f v), snd (vw b)))
     else vw b' = vw b)"

text \<open>A set is made new under an unused handle, deleted, and a message is published.\<close>

definition creates :: "'b host_view \<Rightarrow> 'b bt_host \<Rightarrow> bool" where
  "creates vw e \<longleftrightarrow> (\<forall>p b ret h b'. h_create e p b = (ret, h, b') \<longrightarrow>
     (if ret = 0 then fst (vw b) h = None \<and> vw b' = ((fst (vw b))(h \<mapsto> new_set p), snd (vw b)) else vw b' = vw b))"

definition deletes :: "'b host_view \<Rightarrow> 'b bt_host \<Rightarrow> bool" where
  "deletes vw e \<longleftrightarrow> (\<forall>a b ret b'. h_delete e a b = (ret, b') \<longrightarrow>
     (if ret = 0 then (\<exists>h. a = Some h \<and> vw b' = ((fst (vw b))(h := None), snd (vw b))) else vw b' = vw b))"

definition publishes :: "'b host_view \<Rightarrow> 'b bt_host \<Rightarrow> bool" where
  "publishes vw e \<longleftrightarrow> (\<forall>m b ret b'. h_publish e m b = (ret, b') \<longrightarrow>
     vw b' = (fst (vw b), snd (vw b) @ (if ret = 0 then [m] else [])))"

definition adv_host :: "'b host_view \<Rightarrow> 'b bt_host \<Rightarrow> bool" where
  "adv_host vw e \<longleftrightarrow>
     (\<forall>d. acts_on vw (\<lambda>a. h_set_data e a d) (\<lambda>v. v\<lparr>av_data := d\<rparr>)) \<and>
     (\<forall>p. acts_on vw (\<lambda>a. h_update_param e a p) (\<lambda>v. v\<lparr>av_param := p\<rparr>)) \<and>
     (\<forall>t. acts_on vw (\<lambda>a. h_start e a t) (\<lambda>v. v\<lparr>av_on := True, av_limited := t\<rparr>)) \<and>
     acts_on vw (h_stop e) (\<lambda>v. v\<lparr>av_on := False\<rparr>) \<and>
     acts_on vw (h_per_set_param e) (\<lambda>v. v) \<and>
     (\<forall>d. acts_on vw (\<lambda>a. h_per_set_data e a d) (\<lambda>v. v\<lparr>av_per_data := d\<rparr>)) \<and>
     acts_on vw (h_per_start e) (\<lambda>v. v\<lparr>av_per_on := True\<rparr>) \<and>
     acts_on vw (h_per_stop e) (\<lambda>v. v\<lparr>av_per_on := False\<rparr>) \<and>
     creates vw e \<and> deletes vw e \<and> publishes vw e \<and>
     (\<forall>b. vw (snd (h_fal_clear e b)) = vw b) \<and> (\<forall>a b. vw (snd (h_fal_add e a b)) = vw b)"

text \<open>
  The host serves: a call on a set that exists does not fail. Real hosts refuse to change the parameters
  of a set that is advertising, to start it again or to delete it, and likewise for periodic
  advertising; \<open>host_serves False\<close> asks these calls to succeed only on a set that is off.
\<close>

definition never_fails :: "'b host_view \<Rightarrow> (adv_view \<Rightarrow> bool) \<Rightarrow> (nat option \<Rightarrow> 'b \<Rightarrow> int \<times> 'b) \<Rightarrow> bool" where
  "never_fails vw g op \<longleftrightarrow> (\<forall>h b v. fst (vw b) h = Some v \<and> g v \<longrightarrow> fst (op (Some h) b) = 0)"

definition ready :: "bool \<Rightarrow> adv_view \<Rightarrow> bool" where
  "ready busy v \<longleftrightarrow> busy \<or> \<not> av_on v \<and> \<not> av_per_on v"

definition host_serves :: "bool \<Rightarrow> 'b host_view \<Rightarrow> 'b bt_host \<Rightarrow> bool" where
  "host_serves busy vw e \<longleftrightarrow>
     (\<forall>d. never_fails vw (\<lambda>v. True) (\<lambda>a. h_set_data e a d)) \<and>
     (\<forall>p. never_fails vw (ready busy) (\<lambda>a. h_update_param e a p)) \<and>
     (\<forall>t. never_fails vw (ready busy) (\<lambda>a. h_start e a t)) \<and> never_fails vw (ready busy) (h_per_set_param e) \<and>
     (\<forall>d. never_fails vw (\<lambda>v. True) (\<lambda>a. h_per_set_data e a d)) \<and>
     never_fails vw (\<lambda>v. busy \<or> \<not> av_per_on v) (h_per_start e) \<and>
     never_fails vw (ready busy) (h_delete e) \<and>
     (\<forall>h b. fst (vw b) h \<noteq> None \<longrightarrow> (\<exists>a. h_get_info e (Some h) b = (0, Some a))) \<and>
     (\<forall>p b. fst (h_create e p b) = 0) \<and> (\<forall>m b. fst (h_publish e m b) = 0) \<and> (\<forall>b. fst (h_fal_clear e b) = 0)"

abbreviation host_up :: "'b host_view \<Rightarrow> 'b bt_host \<Rightarrow> bool" where
  "host_up \<equiv> host_serves True"

definition sets :: "'b host_view \<Rightarrow> ('b, 'x) adv_mgmt_scheme \<Rightarrow> nat \<rightharpoonup> adv_view" where
  "sets vw s = fst (vw (mgmt_host s))"

definition sent :: "'b host_view \<Rightarrow> ('b, 'x) adv_mgmt_scheme \<Rightarrow> bt_mgmt_msg list" where
  "sent vw s = snd (vw (mgmt_host s))"

lemma acts_onD:
  assumes "acts_on vw op f" "op a b = (ret, b')"
  shows "if ret = 0 then \<exists>h v. a = Some h \<and> fst (vw b) h = Some v \<and> vw b' = ((fst (vw b))(h \<mapsto> f v), snd (vw b))
    else vw b' = vw b"
  using assms(1)[unfolded acts_on_def, THEN spec, THEN spec, of a b] assms(2) by simp

text \<open>A call on a set, as the module makes it.\<close>

lemma host_call_acts:
  assumes "acts_on vw op f" "host_call (op a) s = (ret, s')"
  shows "\<exists>b'. s' = s\<lparr>mgmt_host := b'\<rparr> \<and> sent vw s' = sent vw s \<and>
    (if ret = 0 then \<exists>h v. a = Some h \<and> sets vw s h = Some v \<and> sets vw s' = (sets vw s)(h \<mapsto> f v)
     else sets vw s' = sets vw s)"
proof -
  obtain r b' where op: "op a (mgmt_host s) = (r, b')" by (cases "op a (mgmt_host s)")
  with assms(2) have s': "s' = s\<lparr>mgmt_host := b'\<rparr>" "ret = r" by (auto simp: host_call_def)
  show ?thesis using acts_onD [OF assms(1) op] s' by (auto simp: sets_def sent_def split: if_splits)
qed

lemma host_call_up:
  assumes "acts_on vw op f" "never_fails vw g op" "sets vw s h = Some v" "g v"
  shows "\<exists>b'. host_call (op (Some h)) s = (0, s\<lparr>mgmt_host := b'\<rparr>) \<and>
    vw b' = ((sets vw s)(h \<mapsto> f v), sent vw s)"
proof -
  obtain r b' where op: "op (Some h) (mgmt_host s) = (r, b')" by (cases "op (Some h) (mgmt_host s)")
  have "r = 0" using assms(2-4) op unfolding never_fails_def sets_def by (metis fst_conv)
  moreover have "vw b' = ((fst (vw (mgmt_host s)))(h \<mapsto> f v), snd (vw (mgmt_host s)))"
    using acts_onD [OF assms(1) op] \<open>r = 0\<close> assms(3) by (auto simp: sets_def)
  ultimately show ?thesis using op by (intro exI [of _ b']) (simp add: host_call_def sets_def sent_def)
qed

text \<open>The conjuncts of the contract that the proofs use.\<close>

lemma adv_hostD:
  assumes "adv_host vw e"
  shows "acts_on vw (\<lambda>a. h_set_data e a d) (\<lambda>v. v\<lparr>av_data := d\<rparr>)"
    and "acts_on vw (\<lambda>a. h_update_param e a p) (\<lambda>v. v\<lparr>av_param := p\<rparr>)"
    and "acts_on vw (\<lambda>a. h_start e a t) (\<lambda>v. v\<lparr>av_on := True, av_limited := t\<rparr>)"
    and "acts_on vw (h_per_set_param e) (\<lambda>v. v)"
    and "acts_on vw (\<lambda>a. h_per_set_data e a d) (\<lambda>v. v\<lparr>av_per_data := d\<rparr>)"
    and "acts_on vw (h_per_start e) (\<lambda>v. v\<lparr>av_per_on := True\<rparr>)"
  using assms unfolding adv_host_def by simp_all

lemma adv_host_rest:
  assumes "adv_host vw e"
  shows "h_publish e m b = (ret, b') \<Longrightarrow> vw b' = (fst (vw b), snd (vw b) @ (if ret = 0 then [m] else []))"
    and "h_fal_clear e b = (ret, b') \<Longrightarrow> vw b' = vw b"
    and "vw (snd (h_fal_add e a b)) = vw b"
    and "h_delete e (Some h) b = (0, b') \<Longrightarrow> vw b' = ((fst (vw b))(h := None), snd (vw b))"
    and "h_create e p b = (0, h, b') \<Longrightarrow> fst (vw b) h = None \<and> vw b' = ((fst (vw b))(h \<mapsto> new_set p), snd (vw b))"
proof -
  note c = assms [unfolded adv_host_def]
  have "publishes vw e" "deletes vw e" "creates vw e" using c by simp_all
  then show "h_publish e m b = (ret, b') \<Longrightarrow> vw b' = (fst (vw b), snd (vw b) @ (if ret = 0 then [m] else []))"
    "h_delete e (Some h) b = (0, b') \<Longrightarrow> vw b' = ((fst (vw b))(h := None), snd (vw b))"
    "h_create e p b = (0, h, b') \<Longrightarrow> fst (vw b) h = None \<and> vw b' = ((fst (vw b))(h \<mapsto> new_set p), snd (vw b))"
    unfolding publishes_def deletes_def creates_def by fastforce+
  have "vw (snd (h_fal_clear e b)) = vw b" using c by simp
  then show "h_fal_clear e b = (ret, b') \<Longrightarrow> vw b' = vw b" by simp
  show "vw (snd (h_fal_add e a b)) = vw b" using c by (cases a) simp
qed

section \<open>The bonds\<close>

text \<open>A bonded peer to which a connection can be asked for: none is there, or it is known not to be up.\<close>

definition reconnectable :: "'b bt_host \<Rightarrow> 'b \<Rightarrow> bt_addr_le \<Rightarrow> bool" where
  "reconnectable e b addr = (case h_conn_lookup e addr b of None \<Rightarrow> True | Some (ret, up) \<Rightarrow> ret = 0 \<and> \<not> up)"

definition wanted_peers :: "mgmt_config \<Rightarrow> 'b bt_host \<Rightarrow> 'b \<Rightarrow> bt_addr_le list" where
  "wanted_peers c e b =
     (if CFG_BONDABLE c then take (CFG_BONDS_QUEUE_SIZE c) (filter (reconnectable e b) (h_bonds e b)) else [])"

lemma bonds_found:
  assumes "CFG_BONDABLE c" "length (bonds_q s) \<le> CFG_BONDS_QUEUE_SIZE c"
  shows "fold (bond_find c e) as s =
    s\<lparr>bonds_q := bonds_q s @ take (CFG_BONDS_QUEUE_SIZE c - length (bonds_q s)) (filter (reconnectable e (mgmt_host s)) as)\<rparr>"
  using assms(2)
proof (induction as arbitrary: s)
  case (Cons a as)
  show ?case
  proof (cases "reconnectable e (mgmt_host s) a \<and> length (bonds_q s) < CFG_BONDS_QUEUE_SIZE c")
    case True
    then have "bond_find c e a s = s\<lparr>bonds_q := bonds_q s @ [a]\<rparr>"
      using assms(1) by (auto simp: bond_find_def reconnectable_def split: option.splits)
    moreover obtain k where "CFG_BONDS_QUEUE_SIZE c - length (bonds_q s) = Suc k"
      using True by (metis Suc_diff_Suc)
    ultimately show ?thesis using Cons.IH [of "s\<lparr>bonds_q := bonds_q s @ [a]\<rparr>"] True by (simp add: diff_Suc)
  next
    case False
    then have "bond_find c e a s = s"
      using assms(1) by (auto simp: bond_find_def reconnectable_def split: option.splits)
    then show ?thesis using Cons False by auto
  qed
qed simp

lemma accept_list_filled:
  assumes "adv_host vw e"
  shows "\<exists>b. fold (filter_accept_list_add e) as s = s\<lparr>mgmt_host := b\<rparr> \<and> vw b = vw (mgmt_host s)"
proof (induction as arbitrary: s)
  case Nil
  show ?case by (rule exI [of _ "mgmt_host s"]) simp
next
  case (Cons a as)
  have "filter_accept_list_add e a s = s\<lparr>mgmt_host := snd (h_fal_add e a (mgmt_host s))\<rparr>"
    by (simp add: filter_accept_list_add_def host_call_def split: prod.splits)
  then show ?case
    using Cons.IH [of "s\<lparr>mgmt_host := snd (h_fal_add e a (mgmt_host s))\<rparr>"] adv_host_rest(3) [OF assms] by simp
qed

lemma bonds_collected:
  assumes "adv_host vw e" "bonds_collect c e s = (ret, s')"
  shows "\<exists>b. s' = s\<lparr>bonds_q := wanted_peers c e (mgmt_host s), mgmt_host := b\<rparr> \<and> vw b = vw (mgmt_host s)"
proof -
  let ?s = "s\<lparr>bonds_q := wanted_peers c e (mgmt_host s)\<rparr>"
  show ?thesis
  proof (cases "CFG_BONDABLE c")
    case False
    then have "s' = ?s" using assms(2) by (simp add: bonds_collect_def wanted_peers_def)
    then show ?thesis by (intro exI [of _ "mgmt_host s"]) simp
  next
    case bondable: True
    then have found: "bt_foreach_bond e (bond_find c e) (s\<lparr>bonds_q := []\<rparr>) = ?s"
      using bonds_found [of c "s\<lparr>bonds_q := []\<rparr>" e] by (simp add: bt_foreach_bond_def wanted_peers_def)
    show ?thesis
    proof (cases "CFG_FILTER_ACCEPT_LIST c")
      case False
      then have "s' = ?s" using assms(2) bondable by (simp add: bonds_collect_def found)
      then show ?thesis by (intro exI [of _ "mgmt_host s"]) simp
    next
      case True
      obtain r b where clr: "h_fal_clear e (mgmt_host s) = (r, b)" by (cases "h_fal_clear e (mgmt_host s)")
      have vwb: "vw b = vw (mgmt_host s)" using adv_host_rest(2) [OF assms(1) clr] .
      obtain b' where fal: "bt_foreach_bond e (filter_accept_list_add e) (?s\<lparr>mgmt_host := b\<rparr>) = ?s\<lparr>mgmt_host := b'\<rparr>"
          "vw b' = vw b"
        using accept_list_filled [OF assms(1), of "h_bonds e b" "?s\<lparr>mgmt_host := b\<rparr>"] by (auto simp: bt_foreach_bond_def)
      show ?thesis using assms(2) bondable True clr fal vwb
        by (auto simp: bonds_collect_def found host_call_def Let_def split: if_splits intro: exI [of _ b] exI [of _ b'])
    qed
  qed
qed

lemma bonds_collect_up: "host_serves busy vw e \<Longrightarrow> fst (bonds_collect c e s) = 0"
  by (auto simp: bonds_collect_def host_call_def host_serves_def Let_def split: prod.splits)
     (metis fst_conv)

section \<open>Starting a set\<close>

definition open_view :: "mgmt_config \<Rightarrow> ('b, 'x) adv_mgmt_scheme \<Rightarrow> nat \<Rightarrow> adv_view \<Rightarrow> adv_view" where
  "open_view c s i v =
     (let v = v\<lparr>av_data := take (adv_local_size s ! i) (the (adv_local s ! i))\<rparr> in
      case per_adv_local s ! i of
        None \<Rightarrow> v
      | Some p \<Rightarrow> if CFG_PER_ADV c then v\<lparr>av_per_data := take (per_adv_local_size s ! i) p\<rparr> else v)"

text \<open>The arrays of the module have one entry for each set.\<close>

definition adv_wf :: "mgmt_config \<Rightarrow> ('b, 'x) adv_mgmt_scheme \<Rightarrow> bool" where
  "adv_wf c s \<longleftrightarrow> length (ext_adv_set s) = CFG_MAX_ADV_SET c \<and> length (adv_local s) = CFG_MAX_ADV_SET c \<and>
     length (adv_local_size s) = CFG_MAX_ADV_SET c \<and> length (per_adv_local s) = CFG_MAX_ADV_SET c \<and>
     length (per_adv_local_size s) = CFG_MAX_ADV_SET c \<and> (\<forall>i\<in>set (adv_q s). i < CFG_MAX_ADV_SET c) \<and>
     length (adv_q s) \<le> CFG_MAX_ADV_SET c \<and>
     (\<forall>i < CFG_MAX_ADV_SET c. (\<forall>d. adv_local s ! i = Some d \<longrightarrow> adv_local_size s ! i \<le> length d) \<and>
        (\<forall>d. per_adv_local s ! i = Some d \<longrightarrow> per_adv_local_size s ! i \<le> length d))"

text \<open>What a group of calls on the set of handle \<open>h\<close> leaves: nothing but that set has changed.\<close>

definition touched :: "'b host_view \<Rightarrow> nat option \<Rightarrow> ('b, 'x) adv_mgmt_scheme \<Rightarrow> ('b, 'x) adv_mgmt_scheme \<Rightarrow> bool" where
  "touched vw a s s' \<longleftrightarrow> sent vw s' = sent vw s \<and> (\<forall>k. a \<noteq> Some k \<longrightarrow> sets vw s' k = sets vw s k)"

lemma touched_refl [simp]: "touched vw a s s"
  by (simp add: touched_def)

lemma touched_trans: "touched vw a s s' \<Longrightarrow> touched vw a s' s'' \<Longrightarrow> touched vw a s s''"
  by (simp add: touched_def)

text \<open>
  The outcome of a group of calls on one set: the module's own state is as before, no other set has
  changed, and if the group has succeeded the set has changed as \<open>f\<close> says. The group cannot fail on a
  set that \<open>u\<close> holds of.
\<close>

definition outcome ::
  "'b host_view \<Rightarrow> (adv_view \<Rightarrow> bool) \<Rightarrow> nat option \<Rightarrow> ('b, 'x) adv_mgmt_scheme \<Rightarrow> (adv_view \<Rightarrow> adv_view) \<Rightarrow> int \<Rightarrow> ('b, 'x) adv_mgmt_scheme \<Rightarrow> bool"
  where
  "outcome vw u a s f ret s' \<longleftrightarrow> (\<exists>b. s' = s\<lparr>mgmt_host := b\<rparr>) \<and> touched vw a s s' \<and>
     (ret = 0 \<longrightarrow> (\<exists>h v. a = Some h \<and> sets vw s h = Some v \<and> sets vw s' = (sets vw s)(h \<mapsto> f v))) \<and>
     ((\<exists>h v. a = Some h \<and> sets vw s h = Some v \<and> u v) \<longrightarrow> ret = 0)"

lemma call_outcome:
  assumes "acts_on vw op f" "\<And>v. u v \<Longrightarrow> never_fails vw g op \<and> g v" "host_call (op a) s = (ret, s')"
  shows "outcome vw u a s f ret s'"
proof -
  have "ret = 0" if "u v" "a = Some h" "sets vw s h = Some v" for h v
    using host_call_up [OF assms(1) conjunct1 [OF assms(2) [OF that(1)]] that(3)] assms(2) [OF that(1)] assms(3) that(2) by auto
  then have "(\<exists>h v. a = Some h \<and> sets vw s h = Some v \<and> u v) \<longrightarrow> ret = 0" by blast
  then show ?thesis
    using host_call_acts [OF assms(1,3)] unfolding outcome_def touched_def by (auto split: if_splits)
qed

lemma outcome_state:
  assumes "outcome vw u a s f ret s'"
  shows "ext_adv_set s' = ext_adv_set s" "dir_adv_timed_out s' = dir_adv_timed_out s" "ext_adv_param s' = ext_adv_param s"
  using assms by (auto simp: outcome_def)

lemma outcome_failed:
  assumes "ret \<noteq> 0" "\<And>v. \<not> u v"
  shows "outcome vw u a s f ret s"
  unfolding outcome_def using assms by (auto intro: exI [of _ "mgmt_host s"])

lemma outcome_seq:
  assumes "outcome vw u a s f 0 s1" "outcome vw u a s1 g ret s2" "\<And>v. u v \<Longrightarrow> u (f v)"
  shows "outcome vw u a s (\<lambda>v. g (f v)) ret s2"
proof -
  obtain h v where f: "a = Some h" "sets vw s h = Some v" "sets vw s1 = (sets vw s)(h \<mapsto> f v)"
    using assms(1) by (auto simp: outcome_def)
  have "touched vw a s s1" "touched vw a s1 s2" using assms by (simp_all add: outcome_def)
  then have "touched vw a s s2" by (rule touched_trans)
  moreover have "\<exists>b. s2 = s\<lparr>mgmt_host := b\<rparr>" using assms by (auto simp: outcome_def)
  moreover have "ret = 0 \<longrightarrow> sets vw s2 = (sets vw s)(h \<mapsto> g (f v))"
    using assms(2) f by (auto simp: outcome_def)
  moreover have "u v \<longrightarrow> ret = 0" using assms(2,3) f by (auto simp: outcome_def)
  ultimately show ?thesis using f by (auto simp: outcome_def)
qed

lemma outcome_ret:
  "outcome vw u a s f 0 s' \<Longrightarrow> (\<And>h v. u v \<Longrightarrow> a = Some h \<Longrightarrow> sets vw s' h \<noteq> None \<Longrightarrow> ret = 0) \<Longrightarrow> outcome vw u a s f ret s'"
  by (auto simp: outcome_def)

lemma outcome_fail: "outcome vw u a s f ret s' \<Longrightarrow> ret \<noteq> 0 \<Longrightarrow> outcome vw u a s g ret s'"
  by (simp add: outcome_def)

lemma outcome_cong: "outcome vw u a s f ret s' \<Longrightarrow> (\<And>v. f v = g v) \<Longrightarrow> outcome vw u a s g ret s'"
  by (simp add: outcome_def)

text \<open>The data of an open advertisement.\<close>

definition adv_info :: "'b bt_host \<Rightarrow> nat option \<Rightarrow> ('b, 'x) adv_mgmt_scheme \<Rightarrow> int" where
  "adv_info e a s = (case h_get_info e a (mgmt_host s) of (ret, addr) \<Rightarrow> if ret \<noteq> 0 then ret else adv_addr_print addr)"

lemma host_servesD:
  assumes "host_serves busy vw e"
  shows "never_fails vw (\<lambda>v. True) (\<lambda>a. h_set_data e a d)" "never_fails vw (ready busy) (\<lambda>a. h_update_param e a p)"
    "never_fails vw (ready busy) (\<lambda>a. h_start e a t)" "never_fails vw (ready busy) (h_per_set_param e)"
    "never_fails vw (\<lambda>v. True) (\<lambda>a. h_per_set_data e a d)" "never_fails vw (\<lambda>v. busy \<or> \<not> av_per_on v) (h_per_start e)"
    "sets vw s h \<noteq> None \<Longrightarrow> adv_info e (Some h) s = 0"
proof -
  note c = assms [unfolded host_serves_def]
  show "never_fails vw (\<lambda>v. True) (\<lambda>a. h_set_data e a d)" "never_fails vw (ready busy) (\<lambda>a. h_update_param e a p)"
    "never_fails vw (ready busy) (\<lambda>a. h_start e a t)" "never_fails vw (ready busy) (h_per_set_param e)"
    "never_fails vw (\<lambda>v. True) (\<lambda>a. h_per_set_data e a d)" "never_fails vw (\<lambda>v. busy \<or> \<not> av_per_on v) (h_per_start e)"
    using c by simp_all
  have "\<forall>h b. fst (vw b) h \<noteq> None \<longrightarrow> (\<exists>a. h_get_info e (Some h) b = (0, Some a))" using c by blast
  then show "sets vw s h \<noteq> None \<Longrightarrow> adv_info e (Some h) s = 0"
    by (fastforce simp: adv_info_def adv_addr_print_def sets_def)
qed

lemma ready_views [simp]:
  "ready busy (v\<lparr>av_data := d\<rparr>) = ready busy v" "ready busy (v\<lparr>av_param := p\<rparr>) = ready busy v"
  "ready busy (v\<lparr>av_per_data := d\<rparr>) = ready busy v" "ready busy (open_view c s i v) = ready busy v"
  by (simp_all add: ready_def open_view_def Let_def split: option.split)

lemma call_any:
  assumes "acts_on vw op f" "host_serves busy vw e \<Longrightarrow> never_fails vw (\<lambda>v. True) op" "host_call (op a) s = (ret, s')"
  shows "outcome vw (\<lambda>v. host_serves busy vw e \<and> Q \<and> ready busy v) a s f ret s'"
  by (rule call_outcome [OF assms(1) _ assms(3), where g = "\<lambda>v. True"]) (use assms(2) in auto)

lemma call_ready:
  assumes "acts_on vw op f" "host_serves busy vw e \<Longrightarrow> never_fails vw (ready busy) op" "host_call (op a) s = (ret, s')"
  shows "outcome vw (\<lambda>v. host_serves busy vw e \<and> Q \<and> ready busy v) a s f ret s'"
  by (rule call_outcome [OF assms(1) _ assms(3), where g = "ready busy"]) (use assms(2) in auto)

lemma adv_info_simp:
  "(case h_get_info e a (mgmt_host s) of (ret, addr) \<Rightarrow> if ret \<noteq> 0 then Some (ret, s) else Some (adv_addr_print addr, s)) =
   Some (adv_info e a s, s)"
  by (simp add: adv_info_def split: prod.splits)

lemma outcome_info:
  assumes "outcome vw u a s f 0 s'" "\<And>v. u v \<Longrightarrow> host_serves busy vw e"
  shows "outcome vw u a s f (adv_info e a s') s'"
proof (rule outcome_ret [OF assms(1)])
  fix h v
  assume "u v" "a = Some h" "sets vw s' h \<noteq> None"
  then show "adv_info e a s' = 0" using host_servesD(7) assms(2) by blast
qed

lemma extended_adv_created:
  assumes host: "adv_host vw e" and wf: "adv_wf c s" "i < CFG_MAX_ADV_SET c"
  shows "\<exists>ret s'. extended_adv_create c e i s = Some (ret, s') \<and>
    outcome vw (\<lambda>v. host_serves busy vw e \<and> adv_local s ! i \<noteq> None \<and> ready busy v) (ext_adv_set s ! i) s (open_view c s i) ret s' \<and> (ret = 0 \<longrightarrow> adv_local s ! i \<noteq> None)"
proof (cases "adv_local s ! i")
  case None
  then show ?thesis using wf by (simp add: extended_adv_create_def adv_wf_def mem_simps outcome_failed)
next
  case (Some d)
  let ?a = "ext_adv_set s ! i" and ?u = "\<lambda>v. host_serves busy vw e \<and> adv_local s ! i \<noteq> None \<and> ready busy v"
  have n: "adv_local_size s ! i \<le> length d" using wf Some by (auto simp: adv_wf_def)
  let ?d = "take (adv_local_size s ! i) d"
  obtain r1 s1 where c1: "host_call (h_set_data e ?a ?d) s = (r1, s1)"
    by (cases "host_call (h_set_data e ?a ?d) s")
  have o1: "outcome vw ?u ?a s (\<lambda>v. v\<lparr>av_data := ?d\<rparr>) r1 s1"
    using call_any [OF adv_hostD(1) [OF host] host_servesD(1) c1] .
  have rds: "rd (adv_local s) i = Some (Some d)" "rd (adv_local_size s) i = Some (adv_local_size s ! i)"
    "rd (ext_adv_set s) i = Some ?a" "rd (per_adv_local s) i = Some (per_adv_local s ! i)"
    "rd (per_adv_local_size s) i = Some (per_adv_local_size s ! i)"
    "rd_range d 0 (adv_local_size s ! i) = Some ?d"
    using wf Some n by (simp_all add: adv_wf_def mem_simps)
  show ?thesis
  proof (cases "r1 = 0")
    case False
    then have "extended_adv_create c e i s = Some (r1, s1)" by (simp add: extended_adv_create_def rds c1)
    then show ?thesis using outcome_fail [OF o1 False] Some by auto
  next
    case r1: True
    show ?thesis
    proof (cases "per_adv_local s ! i = None \<or> \<not> CFG_PER_ADV c")
      case True
      then have "extended_adv_create c e i s = Some (adv_info e ?a s1, s1)"
        using r1 by (auto simp: extended_adv_create_def rds c1 adv_info_simp Let_def split: option.splits)
      moreover have "open_view c s i = (\<lambda>v. v\<lparr>av_data := ?d\<rparr>)"
        using True Some by (auto simp: open_view_def Let_def split: option.splits)
      moreover have "outcome vw ?u ?a s (\<lambda>v. v\<lparr>av_data := ?d\<rparr>) (adv_info e ?a s1) s1"
        by (rule outcome_info) (use o1 r1 in auto)
      ultimately show ?thesis using Some by auto
    next
      case False
      then obtain p where p: "per_adv_local s ! i = Some p" "CFG_PER_ADV c" by auto
      then have pn: "rd_range p 0 (per_adv_local_size s ! i) = Some (take (per_adv_local_size s ! i) p)"
        using wf by (simp add: adv_wf_def mem_simps)
      let ?p = "take (per_adv_local_size s ! i) p"
      have view: "open_view c s i = (\<lambda>v. v\<lparr>av_data := ?d, av_per_data := ?p\<rparr>)"
        using p Some by (intro ext) (simp add: open_view_def Let_def)
      obtain r2 s2 where c2: "host_call (h_per_set_param e ?a) s1 = (r2, s2)"
        by (cases "host_call (h_per_set_param e ?a) s1")
      have o2: "outcome vw ?u ?a s (\<lambda>v. v\<lparr>av_data := ?d\<rparr>) r2 s2"
        using outcome_seq [OF _ call_ready [OF adv_hostD(4) [OF host] host_servesD(4) c2]] o1 r1 by simp
      obtain r3 s3 where c3: "host_call (h_per_set_data e ?a ?p) s2 = (r3, s3)"
        by (cases "host_call (h_per_set_data e ?a ?p) s2")
      have "extended_adv_create c e i s =
          (if r2 \<noteq> 0 then Some (r2, s2) else if r3 \<noteq> 0 then Some (r3, s3) else Some (adv_info e ?a s3, s3))"
        using r1 p by (simp add: extended_adv_create_def rds c1 c2 c3 pn adv_info_simp)
      moreover have "r2 = 0 \<Longrightarrow> outcome vw ?u ?a s (open_view c s i) r3 s3"
        unfolding view using outcome_seq [OF _ call_any [OF adv_hostD(5) [OF host] host_servesD(5) c3]] o2 by simp
      moreover have "outcome vw ?u ?a s (open_view c s i) (adv_info e ?a s3) s3" if "r2 = 0" "r3 = 0"
        by (rule outcome_info) (use calculation(2) that in auto)
      ultimately show ?thesis using outcome_fail [OF o2] Some by auto
    qed
  qed
qed

definition open_on_air :: "mgmt_config \<Rightarrow> ('b, 'x) adv_mgmt_scheme \<Rightarrow> nat \<Rightarrow> adv_view \<Rightarrow> adv_view" where
  "open_on_air c s i v = (open_view c s i v)\<lparr>av_on := True, av_limited := False\<rparr>"

definition directed_param :: "'b bt_host \<Rightarrow> bt_addr_le \<Rightarrow> adv_param" where
  "directed_param e addr = (CONN_DIR_PARAM e addr)\<lparr>ap_dir_addr_rpa := True\<rparr>"

definition directed_on_air :: "'b bt_host \<Rightarrow> bt_addr_le \<Rightarrow> adv_view \<Rightarrow> adv_view" where
  "directed_on_air e addr v =
     v\<lparr>av_data := [], av_param := directed_param e addr, av_on := True, av_limited := True\<rparr>"

text \<open>The module's own state apart from the host, the time-out flag and the parameters.\<close>

definition kept :: "('b, 'x) adv_mgmt_scheme \<Rightarrow> ('b, 'x) adv_mgmt_scheme \<Rightarrow> bool" where
  "kept s s' \<longleftrightarrow> (\<exists>b t p. s' = s\<lparr>dir_adv_timed_out := t, ext_adv_param := p, mgmt_host := b\<rparr>)"

lemma keptI: "kept s (s\<lparr>dir_adv_timed_out := t, ext_adv_param := p, mgmt_host := b\<rparr>)"
  unfolding kept_def by blast

lemma kept_steps:
  assumes "kept s s'"
  shows "kept s (s'\<lparr>mgmt_host := b\<rparr>)" and "kept s (s'\<lparr>dir_adv_timed_out := t\<rparr>)" and "kept s (s'\<lparr>ext_adv_param := p\<rparr>)"
proof -
  obtain b0 t0 p0 where "s' = s\<lparr>dir_adv_timed_out := t0, ext_adv_param := p0, mgmt_host := b0\<rparr>"
    using assms by (auto simp: kept_def)
  then have "s'\<lparr>mgmt_host := b\<rparr> = s\<lparr>dir_adv_timed_out := t0, ext_adv_param := p0, mgmt_host := b\<rparr>"
    "s'\<lparr>dir_adv_timed_out := t\<rparr> = s\<lparr>dir_adv_timed_out := t, ext_adv_param := p0, mgmt_host := b0\<rparr>"
    "s'\<lparr>ext_adv_param := p\<rparr> = s\<lparr>dir_adv_timed_out := t0, ext_adv_param := p, mgmt_host := b0\<rparr>"
    by (cases s, simp)+
  then show "kept s (s'\<lparr>mgmt_host := b\<rparr>)" "kept s (s'\<lparr>dir_adv_timed_out := t\<rparr>)"
    "kept s (s'\<lparr>ext_adv_param := p\<rparr>)"
    by (simp_all only: keptI)
qed

lemma kept_refl: "kept s s"
  using keptI [of s "mgmt_host s" "ext_adv_param s" "dir_adv_timed_out s"] by simp

lemma kept_outcome: "kept s s1 \<Longrightarrow> outcome vw u a s1 f ret s2 \<Longrightarrow> kept s s2"
  by (auto simp: outcome_def intro: kept_steps)

text \<open>The outcome of an attempt to start a set.\<close>

definition attempt ::
  "'b host_view \<Rightarrow> (adv_view \<Rightarrow> bool) \<Rightarrow> nat option \<Rightarrow> ('b, 'x) adv_mgmt_scheme \<Rightarrow> (adv_view \<Rightarrow> adv_view) \<Rightarrow> int \<Rightarrow> ('b, 'x) adv_mgmt_scheme \<Rightarrow> bool"
  where
  "attempt vw u a s f ret s' \<longleftrightarrow> kept s s' \<and> touched vw a s s' \<and>
     (ret = 0 \<longrightarrow> (\<exists>h v. a = Some h \<and> sets vw s h = Some v \<and> sets vw s' = (sets vw s)(h \<mapsto> f v))) \<and>
     ((\<exists>h v. a = Some h \<and> sets vw s h = Some v \<and> u v) \<longrightarrow> ret = 0)"

lemma outcome_attempt: "outcome vw u a s f ret s' \<Longrightarrow> attempt vw u a s f ret s'"
  unfolding attempt_def using kept_outcome [OF kept_refl, of vw u a s f ret s'] by (simp add: outcome_def)

lemma attempt_seq:
  assumes "attempt vw u a s f 0 s1" "outcome vw u a s1 g ret s2" "\<And>v. u v \<Longrightarrow> u (f v)"
  shows "attempt vw u a s (\<lambda>v. g (f v)) ret s2"
proof -
  obtain h v where f: "a = Some h" "sets vw s h = Some v" "sets vw s1 = (sets vw s)(h \<mapsto> f v)"
    using assms(1) by (auto simp: attempt_def)
  have "touched vw a s s1" "touched vw a s1 s2" using assms by (simp_all add: outcome_def attempt_def)
  then have "touched vw a s s2" by (rule touched_trans)
  moreover have "kept s s2" using assms kept_outcome by (auto simp: attempt_def)
  moreover have "ret = 0 \<longrightarrow> sets vw s2 = (sets vw s)(h \<mapsto> g (f v))"
    using assms(2) f by (auto simp: outcome_def)
  moreover have "u v \<longrightarrow> ret = 0" using assms(2,3) f by (auto simp: outcome_def)
  ultimately show ?thesis using f by (auto simp: attempt_def)
qed

lemma attempt_fail: "attempt vw u a s f ret s' \<Longrightarrow> ret \<noteq> 0 \<Longrightarrow> attempt vw u a s g ret s'"
  by (simp add: attempt_def)

lemma attempt_cong:
  "attempt vw u a s f ret s' \<Longrightarrow> sets vw s' = sets vw s'' \<Longrightarrow> sent vw s' = sent vw s'' \<Longrightarrow> kept s s'' \<Longrightarrow> attempt vw u a s f ret s''"
  by (simp add: attempt_def touched_def)

lemma open_started:
  assumes host: "adv_host vw e" and wf: "adv_wf c s" "i < CFG_MAX_ADV_SET c"
  shows "\<exists>ret s'. open_start c e i s = Some (ret, s') \<and> attempt vw (\<lambda>v. host_serves busy vw e \<and> adv_local s ! i \<noteq> None \<and> ready busy v) (ext_adv_set s ! i) s (open_on_air c s i) ret s' \<and>
    (ret = 0 \<longrightarrow> adv_local s ! i \<noteq> None \<and> \<not> dir_adv_timed_out s')"
proof -
  let ?a = "ext_adv_set s ! i" and ?u = "\<lambda>v. host_serves busy vw e \<and> adv_local s ! i \<noteq> None \<and> ready busy v"
  obtain r1 s1 where c1: "extended_adv_create c e i s = Some (r1, s1)"
    and o1: "outcome vw ?u ?a s (open_view c s i) r1 s1" and d: "r1 = 0 \<Longrightarrow> adv_local s ! i \<noteq> None"
    using extended_adv_created [OF host wf] by blast
  let ?s1 = "s1\<lparr>dir_adv_timed_out := False\<rparr>"
  have sets1: "ext_adv_set s1 = ext_adv_set s" using o1 by (auto simp: outcome_def)
  obtain r2 s2 where c2: "host_call (h_start e ?a False) ?s1 = (r2, s2)"
    by (cases "host_call (h_start e ?a False) ?s1")
  have res: "open_start c e i s = (if r1 \<noteq> 0 then Some (r1, s1) else Some (r2, s2))"
    using wf c2 by (simp add: open_start_def c1 sets1 adv_wf_def mem_simps)
  have "attempt vw ?u ?a s (open_on_air c s i) r2 s2 \<and> \<not> dir_adv_timed_out s2" if "r1 = 0"
  proof -
    have "kept s ?s1" using kept_steps(2) [OF kept_outcome [OF kept_refl o1]] .
    then have "attempt vw ?u ?a s (open_view c s i) 0 ?s1"
      using attempt_cong [OF outcome_attempt [OF o1], of ?s1] that by (simp add: sets_def sent_def)
    note o0 = this
    have o2: "outcome vw ?u ?a ?s1 (\<lambda>v. v\<lparr>av_on := True, av_limited := False\<rparr>) r2 s2"
      using call_ready [OF adv_hostD(3) [OF host] host_servesD(3) c2] .
    have "attempt vw ?u ?a s (open_on_air c s i) r2 s2"
      using attempt_seq [OF o0 o2] by (simp add: open_on_air_def [abs_def])
    moreover have "\<not> dir_adv_timed_out s2" using o2 by (auto simp: outcome_def)
    ultimately show ?thesis by simp
  qed
  then show ?thesis using res d attempt_fail [OF outcome_attempt [OF o1]] by auto
qed

lemma directed_started:
  assumes host: "adv_host vw e" and wf: "adv_wf c s" "i < CFG_MAX_ADV_SET c"
  shows "\<exists>ret s'. directed_start e i addr s = Some (ret, s') \<and>
    attempt vw (\<lambda>v. host_serves busy vw e \<and> True \<and> ready busy v) (ext_adv_set s ! i) s (directed_on_air e addr) ret s' \<and> dir_adv_timed_out s' = dir_adv_timed_out s"
proof -
  let ?a = "ext_adv_set s ! i" and ?u = "\<lambda>v. host_serves busy vw e \<and> True \<and> ready busy v"
  let ?s = "s\<lparr>ext_adv_param := directed_param e addr\<rparr>"
  have rds: "rd (ext_adv_set s) i = Some ?a" using wf by (simp add: adv_wf_def mem_simps)
  obtain r1 s1 where c1: "host_call (h_set_data e ?a []) ?s = (r1, s1)" by (cases "host_call (h_set_data e ?a []) ?s")
  have o1: "outcome vw ?u ?a ?s (\<lambda>v. v\<lparr>av_data := []\<rparr>) r1 s1" using call_any [OF adv_hostD(1) [OF host] host_servesD(1) c1] .
  obtain r2 s2 where c2: "host_call (h_update_param e ?a (directed_param e addr)) s1 = (r2, s2)"
    by (cases "host_call (h_update_param e ?a (directed_param e addr)) s1")
  have o2: "outcome vw ?u ?a s1 (\<lambda>v. v\<lparr>av_param := directed_param e addr\<rparr>) r2 s2"
    using call_ready [OF adv_hostD(2) [OF host] host_servesD(2) c2] .
  obtain r3 s3 where c3: "host_call (h_start e ?a True) s2 = (r3, s3)" by (cases "host_call (h_start e ?a True) s2")
  have o3: "outcome vw ?u ?a s2 (\<lambda>v. v\<lparr>av_on := True, av_limited := True\<rparr>) r3 s3"
    using call_ready [OF adv_hostD(3) [OF host] host_servesD(3) c3] .
  have p1: "ext_adv_param s1 = directed_param e addr" using o1 by (auto simp: outcome_def)
  have k: "ext_adv_set s2 = ext_adv_set s" "dir_adv_timed_out s3 = dir_adv_timed_out s"
    "dir_adv_timed_out s2 = dir_adv_timed_out s" "dir_adv_timed_out s1 = dir_adv_timed_out s"
    using outcome_state(1,2) [OF o1] outcome_state(1,2) [OF o2] outcome_state(1,2) [OF o3] by simp_all
  have res: "directed_start e i addr s =
      (if r1 \<noteq> 0 then Some (r1, s1) else if r2 \<noteq> 0 then Some (r2, s2)
       else if adv_info e ?a s2 \<noteq> 0 then Some (adv_info e ?a s2, s2) else Some (r3, s3))"
    using rds c1 c2 c3 p1 k(1)
    by (simp add: directed_start_def direct_adv_create_def directed_param_def [symmetric] adv_info_simp)
  have base: "attempt vw ?u ?a s f r s'" if "outcome vw ?u ?a ?s f r s'" for f r s'
  proof -
    have "kept s s'" using kept_outcome [OF kept_steps(3) [OF kept_refl] that] .
    then show ?thesis using that by (auto simp: outcome_def attempt_def touched_def sets_def sent_def)
  qed
  have a2: "outcome vw ?u ?a ?s (\<lambda>v. v\<lparr>av_data := [], av_param := directed_param e addr\<rparr>) r2 s2" if "r1 = 0"
    using outcome_seq [OF _ o2] o1 that by simp
  have a3: "outcome vw ?u ?a ?s (directed_on_air e addr) r3 s3" if "r1 = 0" "r2 = 0"
    using outcome_seq [OF _ o3] a2 that by (simp add: directed_on_air_def [abs_def])
  have a2': "outcome vw ?u ?a ?s (\<lambda>v. v\<lparr>av_data := [], av_param := directed_param e addr\<rparr>) (adv_info e ?a s2) s2"
    if "r1 = 0" "r2 = 0"
    by (rule outcome_info) (use a2 that in auto)
  show ?thesis
    using res k base [OF outcome_fail [OF o1]] base [OF outcome_fail [OF a2]] base [OF a3]
      base [OF outcome_fail [OF a2']]
    by (cases "r1 = 0"; cases "r2 = 0"; cases "adv_info e ?a s2 = 0") auto
qed

section \<open>The work item\<close>

definition announces :: "mgmt_config \<Rightarrow> ('b, 'x) adv_mgmt_scheme \<Rightarrow> nat \<Rightarrow> bool" where
  "announces c s i \<longleftrightarrow> per_adv_local s ! i \<noteq> None \<and> CFG_PER_ADV c"

text \<open>How a set is on air once the work item has started it.\<close>

definition started_view :: "mgmt_config \<Rightarrow> 'b bt_host \<Rightarrow> ('b, 'x) adv_mgmt_scheme \<Rightarrow> nat \<Rightarrow> adv_view \<Rightarrow> adv_view" where
  "started_view c e s i v =
     (if wanted_peers c e (mgmt_host s) \<noteq> [] \<and> \<not> dir_adv_timed_out s
      then directed_on_air e (hd (wanted_peers c e (mgmt_host s))) v else open_on_air c s i v)"

definition on_air :: "mgmt_config \<Rightarrow> 'b bt_host \<Rightarrow> ('b, 'x) adv_mgmt_scheme \<Rightarrow> nat \<Rightarrow> adv_view \<Rightarrow> adv_view" where
  "on_air c e s i v =
     (if announces c s i then (started_view c e s i v)\<lparr>av_per_on := True\<rparr> else started_view c e s i v)"

text \<open>The sets and the data of the module, and whether its work item is queued.\<close>

definition adv_data :: "('b, 'x) adv_mgmt_scheme
    \<Rightarrow> nat option list \<times> bt_data list option list \<times> nat list \<times> bt_data list option list \<times> nat list \<times> bool" where
  "adv_data s =
     (ext_adv_set s, adv_local s, adv_local_size s, per_adv_local s, per_adv_local_size s, adv_work_queued s)"

lemma kept_data: "kept s s' \<Longrightarrow> adv_data s' = adv_data s \<and> adv_q s' = adv_q s"
  by (auto simp: kept_def adv_data_def)

lemma attempt_kept:
  assumes "attempt vw u a s f ret s'"
  shows "adv_data s' = adv_data s" "adv_q s' = adv_q s" "sent vw s' = sent vw s"
proof -
  have "kept s s'" "sent vw s' = sent vw s" using assms by (simp_all add: attempt_def touched_def)
  then show "adv_data s' = adv_data s" "adv_q s' = adv_q s" "sent vw s' = sent vw s" using kept_data by auto
qed

lemma open_on_air_data:
  "adv_data s' = adv_data s \<Longrightarrow> open_on_air c s' i = open_on_air c s i"
  by (intro ext) (auto simp: open_on_air_def open_view_def adv_data_def Let_def split: option.splits)

lemma adv_wf_step: "adv_wf c s \<Longrightarrow> adv_q s = i # q \<Longrightarrow> adv_data s' = adv_data s \<Longrightarrow> adv_q s' = q \<Longrightarrow> adv_wf c s'"
  by (auto simp: adv_wf_def adv_data_def)

text \<open>The attempt the work item makes, before the announcement.\<close>

lemma processed:
  assumes host: "adv_host vw e" and wf: "adv_wf c s" and q: "adv_q s = i # q"
  shows "(\<exists>s'. advertising_process c e s = Some s' \<and> \<not> host_serves busy vw e \<and> sent vw s' = sent vw s \<and>
       adv_data s' = adv_data s \<and> adv_q s' = q) \<or>
    (\<exists>ret s0 s1. advertising_process c e s = advertising_started c e i ret s1 \<and>
       adv_data s0 = adv_data s \<and> adv_q s0 = q \<and> sets vw s0 = sets vw s \<and> sent vw s0 = sent vw s \<and>
       attempt vw (\<lambda>v. host_serves busy vw e \<and> adv_local s ! i \<noteq> None \<and> ready busy v) (ext_adv_set s ! i) s0 (started_view c e s i) ret s1 \<and>
       (ret = 0 \<longrightarrow> \<not> dir_adv_timed_out s1))"
proof -
  let ?u = "\<lambda>v. host_serves busy vw e \<and> adv_local s ! i \<noteq> None \<and> ready busy v"
  obtain r1 s1 where c1: "bonds_collect c e (s\<lparr>adv_q := q\<rparr>) = (r1, s1)"
    by (cases "bonds_collect c e (s\<lparr>adv_q := q\<rparr>)")
  obtain b where s1: "s1 = s\<lparr>adv_q := q, bonds_q := wanted_peers c e (mgmt_host s), mgmt_host := b\<rparr>"
    and vwb: "vw b = vw (mgmt_host s)"
    using bonds_collected [OF host c1] by auto
  show ?thesis
  proof (cases "r1 = 0")
    case False
    then have "advertising_process c e s = Some s1" by (simp add: advertising_process_def q c1)
    moreover have "\<not> host_serves busy vw e" using bonds_collect_up [of busy vw e c "s\<lparr>adv_q := q\<rparr>"] c1 False by auto
    ultimately show ?thesis using s1 vwb by (auto simp: sent_def adv_data_def)
  next
    case r1: True
    define s2 where "s2 = s1\<lparr>bonds_q := tl (bonds_q s1)\<rparr>"
    have s2: "adv_data s2 = adv_data s" "adv_q s2 = q" "sets vw s2 = sets vw s" "sent vw s2 = sent vw s"
      "dir_adv_timed_out s2 = dir_adv_timed_out s" "ext_adv_set s2 = ext_adv_set s" "adv_local s2 = adv_local s"
      by (simp_all add: s2_def s1 adv_data_def sets_def sent_def vwb)
    have wf2: "adv_wf c s2" "i < CFG_MAX_ADV_SET c"
      using adv_wf_step [OF wf q s2(1,2)] wf q by (auto simp: adv_wf_def)
    show ?thesis
    proof (cases "wanted_peers c e (mgmt_host s) \<noteq> [] \<and> \<not> dir_adv_timed_out s")
      case True
      then obtain addr r where w: "wanted_peers c e (mgmt_host s) = addr # r" by (cases "wanted_peers c e (mgmt_host s)") auto
      obtain ret s3 where st: "directed_start e i addr s2 = Some (ret, s3)"
          "attempt vw (\<lambda>v. host_serves busy vw e \<and> True \<and> ready busy v) (ext_adv_set s2 ! i) s2 (directed_on_air e addr) ret s3"
          "dir_adv_timed_out s3 = dir_adv_timed_out s2"
        using directed_started [OF host wf2] by blast
      have "attempt vw ?u (ext_adv_set s ! i) s2 (started_view c e s i) ret s3"
        using st(2) True w s2(6) by (auto simp: started_view_def [abs_def] attempt_def)
      moreover have "advertising_process c e s = advertising_started c e i ret s3"
        using True w st(1) r1 s2(5)
        by (simp add: advertising_process_def q c1 s2_def s1)
      ultimately show ?thesis using s2 st(3) True
        by (intro disjI2 exI [of _ ret] exI [of _ s2] exI [of _ s3]) simp
    next
      case False
      obtain ret s3 where st: "open_start c e i s2 = Some (ret, s3)"
          "attempt vw (\<lambda>v. host_serves busy vw e \<and> adv_local s2 ! i \<noteq> None \<and> ready busy v) (ext_adv_set s2 ! i) s2 (open_on_air c s2 i) ret s3"
          "ret = 0 \<longrightarrow> \<not> dir_adv_timed_out s3"
        using open_started [OF host wf2] by blast
      have "attempt vw ?u (ext_adv_set s ! i) s2 (started_view c e s i) ret s3"
        using st(2) False s2(6,7) open_on_air_data [OF s2(1)] by (auto simp: started_view_def [abs_def])
      moreover have "advertising_process c e s = advertising_started c e i ret s3"
        using False st(1) r1 s2(5)
        by (auto simp: advertising_process_def q c1 s2_def s1 split: list.splits)
      ultimately show ?thesis using s2 st(3)
        by (intro disjI2 exI [of _ ret] exI [of _ s2] exI [of _ s3]) simp
    qed
  qed
qed

lemma announced:
  assumes host: "adv_host vw e" and wf: "adv_wf c s" "i < CFG_MAX_ADV_SET c"
    and ret: "ret = 0" and h: "ext_adv_set s ! i = Some h" "sets vw s h = Some v"
  shows "advertising_started c e i ret s = (if announces c s i then
      (let (r, s') = host_call (h_per_start e (Some h)) s in
       if r \<noteq> 0 then Some s'
       else let (r, s'') = host_call (h_publish e (Msg_ext_adv_with_pa_ready (Some h) i)) s' in
         if r \<noteq> 0 then None else Some s'')
      else Some s)"
  using wf h ret by (simp add: advertising_started_def adv_wf_def mem_simps announces_def err_chk_def Let_def
      split: prod.splits)

text \<open>What the announcement does: it is made only for a set whose periodic advertising is on.\<close>

lemma pa_announcement:
  assumes host: "adv_host vw e" and wf: "adv_wf c s" "i < CFG_MAX_ADV_SET c"
    and h: "ext_adv_set s ! i = Some h" "sets vw s h = Some v" and res: "advertising_started c e i 0 s = Some s'"
  shows "(\<not> announces c s i \<longrightarrow> s' = s) \<and>
    (announces c s i \<longrightarrow> adv_data s' = adv_data s \<and> adv_q s' = adv_q s \<and> dir_adv_timed_out s' = dir_adv_timed_out s \<and>
      (sent vw s' = sent vw s \<or>
       sent vw s' = sent vw s @ [Msg_ext_adv_with_pa_ready (Some h) i] \<and> sets vw s' = (sets vw s)(h \<mapsto> v\<lparr>av_per_on := True\<rparr>)))"
proof (cases "announces c s i")
  case False
  then show ?thesis using res announced [OF host wf refl h] by simp
next
  case True
  obtain r1 s1 where c1: "host_call (h_per_start e (Some h)) s = (r1, s1)" by (cases "host_call (h_per_start e (Some h)) s")
  have a1: "\<exists>b'. s1 = s\<lparr>mgmt_host := b'\<rparr> \<and> sent vw s1 = sent vw s \<and>
      (if r1 = 0 then \<exists>k w. Some h = Some k \<and> sets vw s k = Some w \<and> sets vw s1 = (sets vw s)(k \<mapsto> w\<lparr>av_per_on := True\<rparr>)
       else sets vw s1 = sets vw s)"
    using host_call_acts [OF adv_hostD(6) [OF host] c1] .
  obtain r2 b2 where c2: "h_publish e (Msg_ext_adv_with_pa_ready (Some h) i) (mgmt_host s1) = (r2, b2)"
    by (cases "h_publish e (Msg_ext_adv_with_pa_ready (Some h) i) (mgmt_host s1)")
  have vw2: "vw b2 = (fst (vw (mgmt_host s1)),
      snd (vw (mgmt_host s1)) @ (if r2 = 0 then [Msg_ext_adv_with_pa_ready (Some h) i] else []))"
    using adv_host_rest(1) [OF host c2] .
  have "s' = (if r1 \<noteq> 0 then s1 else s1\<lparr>mgmt_host := b2\<rparr>) \<and> (r1 = 0 \<longrightarrow> r2 = 0)"
    using res True announced [OF host wf refl h] c1 c2 by (auto simp: host_call_def split: if_splits)
  then show ?thesis using a1 vw2 h True by (auto simp: sets_def sent_def adv_data_def split: if_splits)
qed

lemma pa_announcement_up:
  assumes host: "adv_host vw e" "host_serves busy vw e" and wf: "adv_wf c s" "i < CFG_MAX_ADV_SET c"
    and h: "ext_adv_set s ! i = Some h" "sets vw s h = Some v" "busy \<or> \<not> av_per_on v"
  shows "\<exists>s'. advertising_started c e i 0 s = Some s' \<and>
    (announces c s i \<longrightarrow> sent vw s' = sent vw s @ [Msg_ext_adv_with_pa_ready (Some h) i] \<and>
      sets vw s' = (sets vw s)(h \<mapsto> v\<lparr>av_per_on := True\<rparr>))"
proof (cases "announces c s i")
  case False
  then show ?thesis using announced [OF host(1) wf refl h(1,2)] by simp
next
  case True
  obtain b1 where c1: "host_call (h_per_start e (Some h)) s = (0, s\<lparr>mgmt_host := b1\<rparr>)"
      "vw b1 = ((sets vw s)(h \<mapsto> v\<lparr>av_per_on := True\<rparr>), sent vw s)"
    using host_call_up [OF adv_hostD(6) [OF host(1)] host_servesD(6) [OF host(2)] h(2,3)] by blast
  obtain r2 b2 where c2: "h_publish e (Msg_ext_adv_with_pa_ready (Some h) i) b1 = (r2, b2)"
    by (cases "h_publish e (Msg_ext_adv_with_pa_ready (Some h) i) b1")
  have "fst (h_publish e (Msg_ext_adv_with_pa_ready (Some h) i) b1) = 0" using host(2) by (simp add: host_serves_def)
  then have r2: "r2 = 0" using c2 by simp
  then have vw2: "vw b2 = (fst (vw b1), snd (vw b1) @ [Msg_ext_adv_with_pa_ready (Some h) i])"
    using adv_host_rest(1) [OF host(1) c2] by simp
  have "advertising_started c e i 0 s = Some (s\<lparr>mgmt_host := b2\<rparr>)"
    using announced [OF host(1) wf refl h(1,2)] True c1(1) c2 r2 by (simp add: host_call_def)
  then show ?thesis using vw2 c1(2) by (simp add: sets_def sent_def)
qed

lemma work_started:
  assumes "adv_host vw e" "host_serves busy vw e" "adv_wf c s" "adv_q s = i # q"
    and "ext_adv_set s ! i = Some h" "sets vw s h = Some v" "adv_local s ! i \<noteq> None" "ready busy v"
  shows "\<exists>s'. advertising_process c e s = Some s' \<and> adv_q s' = q \<and> adv_data s' = adv_data s \<and> \<not> dir_adv_timed_out s' \<and>
    sets vw s' = (sets vw s)(h \<mapsto> on_air c e s i v) \<and>
    sent vw s' = sent vw s @ (if announces c s i then [Msg_ext_adv_with_pa_ready (Some h) i] else [])"
proof -
  obtain ret s0 s1 where p: "advertising_process c e s = advertising_started c e i ret s1"
      "adv_data s0 = adv_data s" "adv_q s0 = q" "sets vw s0 = sets vw s" "sent vw s0 = sent vw s"
      "attempt vw (\<lambda>v. host_serves busy vw e \<and> adv_local s ! i \<noteq> None \<and> ready busy v) (ext_adv_set s ! i) s0 (started_view c e s i) ret s1"
      "ret = 0 \<longrightarrow> \<not> dir_adv_timed_out s1"
    using processed [OF assms(1,3,4)] assms(2) by blast
  have ret: "ret = 0" using p(4,6) assms(2,5,6,7,8) by (auto simp: attempt_def)
  have k: "adv_data s1 = adv_data s" "adv_q s1 = q" "sent vw s1 = sent vw s"
    using attempt_kept [OF p(6)] p(2,3,5) by simp_all
  have sets1: "sets vw s1 = (sets vw s)(h \<mapsto> started_view c e s i v)"
    using p(4,6) ret assms(5,6) by (auto simp: attempt_def)
  have wf1: "adv_wf c s1" "i < CFG_MAX_ADV_SET c" using adv_wf_step [OF assms(3,4) k(1,2)] assms(3,4) by (auto simp: adv_wf_def)
  have h1: "ext_adv_set s1 ! i = Some h" "announces c s1 i = announces c s i"
    using k(1) assms(5) by (simp_all add: adv_data_def announces_def)
  have v1: "sets vw s1 h = Some (started_view c e s i v)" "busy \<or> \<not> av_per_on (started_view c e s i v)"
    using sets1 assms(8)
    by (auto simp: ready_def started_view_def directed_on_air_def open_on_air_def open_view_def Let_def split: option.splits)
  obtain s' where s': "advertising_started c e i 0 s1 = Some s'"
      "announces c s1 i \<longrightarrow> sent vw s' = sent vw s1 @ [Msg_ext_adv_with_pa_ready (Some h) i] \<and>
        sets vw s' = (sets vw s1)(h \<mapsto> (started_view c e s i v)\<lparr>av_per_on := True\<rparr>)"
    using pa_announcement_up [OF assms(1,2) wf1 h1(1) v1] by blast
  note a = pa_announcement [OF assms(1) wf1 h1(1) v1(1) s'(1)]
  show ?thesis
    using p(1,7) ret s' a h1(2) k sets1 by (auto simp: on_air_def)
qed

text \<open>However it ends, the work item takes one index and leaves the data of the module.\<close>

lemma started_keeps:
  assumes "advertising_started c e i ret s = Some s'"
  shows "adv_data s' = adv_data s" "adv_q s' = adv_q s"
proof -
  have "\<exists>b. s' = s\<lparr>mgmt_host := b\<rparr>"
    using assms unfolding advertising_started_def host_call_def
    by (auto simp: err_chk_def Let_def split: if_splits bind_splits prod.splits intro: exI [of _ "mgmt_host s"])
  then show "adv_data s' = adv_data s" "adv_q s' = adv_q s" by (auto simp: adv_data_def)
qed

lemma processed_keeps:
  assumes "adv_host vw e" "adv_wf c s" "adv_q s = i # q" "advertising_process c e s = Some s'"
  shows "adv_q s' = q" "adv_data s' = adv_data s"
proof -
  from processed [OF assms(1-3), where busy = True] have "adv_q s' = q \<and> adv_data s' = adv_data s"
  proof (elim disjE exE conjE)
    fix ret s0 s1
    assume p: "advertising_process c e s = advertising_started c e i ret s1" "adv_data s0 = adv_data s" "adv_q s0 = q"
      and a: "attempt vw (\<lambda>v. host_serves True vw e \<and> adv_local s ! i \<noteq> None \<and> ready True v) (ext_adv_set s ! i) s0 (started_view c e s i) ret s1"
    have st: "advertising_started c e i ret s1 = Some s'" using p(1) assms(4) by simp
    show ?thesis using started_keeps [OF st] attempt_kept(1,2) [OF a] p(2,3) by simp
  qed (use assms(4) in auto)
  then show "adv_q s' = q" "adv_data s' = adv_data s" by simp_all
qed


text \<open>
  What is announced is on air. Whatever calls of the host fail, when the work item ends nothing has
  been published, or the set whose index it took is announced with its handle, its extended and its
  periodic advertising are on and it has the data that the work item gives it; no other set has changed.
\<close>

lemma announced_is_on_air:
  assumes "adv_host vw e" "adv_wf c s" "advertising_process c e s = Some s'"
  shows "sent vw s' = sent vw s \<or>
    (\<exists>i q h v. adv_q s = i # q \<and> ext_adv_set s ! i = Some h \<and> announces c s i \<and> sets vw s h = Some v \<and>
       sent vw s' = sent vw s @ [Msg_ext_adv_with_pa_ready (Some h) i] \<and>
       sets vw s' = (sets vw s)(h \<mapsto> on_air c e s i v))"
proof (cases "adv_q s")
  case Nil
  then show ?thesis using assms(3) by (simp add: advertising_process_def)
next
  case (Cons i q)
  show ?thesis
  proof (cases "sent vw s' = sent vw s")
    case False
    then obtain ret s0 s1 where p: "advertising_process c e s = advertising_started c e i ret s1"
        "adv_data s0 = adv_data s" "adv_q s0 = q" "sets vw s0 = sets vw s" "sent vw s0 = sent vw s"
        "attempt vw (\<lambda>v. host_serves True vw e \<and> adv_local s ! i \<noteq> None \<and> ready True v) (ext_adv_set s ! i) s0 (started_view c e s i) ret s1"
      using processed [OF assms(1,2) Cons, where busy = True] assms(3) by auto
    have k: "adv_data s1 = adv_data s" "adv_q s1 = q" "sent vw s1 = sent vw s"
      using attempt_kept [OF p(6)] p(2,3,5) by simp_all
    have ret: "ret = 0" using p(1) assms(3) False k(3) by (auto simp: advertising_started_def split: if_splits)
    obtain h v where h: "ext_adv_set s ! i = Some h" "sets vw s h = Some v"
        "sets vw s1 = (sets vw s)(h \<mapsto> started_view c e s i v)"
      using p(4,6) ret by (auto simp: attempt_def)
    have wf1: "adv_wf c s1" "i < CFG_MAX_ADV_SET c"
      using adv_wf_step [OF assms(2) Cons k(1,2)] assms(2) Cons by (auto simp: adv_wf_def)
    have h1: "ext_adv_set s1 ! i = Some h" "announces c s1 i = announces c s i"
      using k(1) h(1) by (simp_all add: adv_data_def announces_def)
    have v1: "sets vw s1 h = Some (started_view c e s i v)" using h(3) by simp
    have "advertising_started c e i 0 s1 = Some s'" using p(1) ret assms(3) by simp
    from pa_announcement [OF assms(1) wf1 h1(1) v1 this] show ?thesis
      using False Cons h h1(2) k(3) by (auto simp: on_air_def)
  qed simp
qed

section \<open>A receiver comes back on air\<close>

abbreviation bm :: "conn_config \<Rightarrow> mgmt_config" where "bm \<equiv> mgmt_config.truncate"

text \<open>Advertising is asked for again: the index is queued and the work item too.\<close>

lemma restart_queues:
  assumes "adv_wf c s" "i < CFG_MAX_ADV_SET c" "adv_local s ! i \<noteq> None"
  shows "bt_mgmt_adv_start c e i None 0 None 0 t s =
    Some (if CFG_MAX_ADV_SET c \<le> length (adv_q s) then (- ENOMEM, s)
      else (0, s\<lparr>adv_q := adv_q s @ [i], adv_work_queued := True\<rparr>))"
  using assms by (auto simp: bt_mgmt_adv_start_def adv_wf_def mem_simps adv_queue_def)

lemma on_air_queued [simp]:
  "on_air c e (s\<lparr>adv_work_queued := q\<rparr>) i v = on_air c e s i v"
  by (auto simp: on_air_def started_view_def open_on_air_def open_view_def announces_def Let_def split: option.splits)

lemma published_up:
  assumes "adv_host vw e" "host_serves busy vw e"
  shows "\<exists>b. host_call (h_publish e m) s = (0, s\<lparr>mgmt_host := b\<rparr>) \<and> vw b = (sets vw s, sent vw s @ [m])"
proof -
  obtain r b where c: "h_publish e m (mgmt_host s) = (r, b)" by (cases "h_publish e m (mgmt_host s)")
  have "fst (h_publish e m (mgmt_host s)) = 0" using assms(2) by (simp add: host_serves_def)
  then have "r = 0" using c by simp
  then show ?thesis using c adv_host_rest(1) [OF assms(1) c] by (auto simp: host_call_def sets_def sent_def)
qed

text \<open>C21: A receiver whose connection ends comes back on air, if the host accepts the calls. On a receiver
  with an idle work item, and whose set is neither advertising nor has periodic advertising (as after a
  connection on it), the callback of a lost connection publishes the disconnection and asks for
  advertising; once the work item has run, the set is on air as the work item starts it (directed to a
  bonded peer that is not connected, or open with the stored data) and nothing is left in the queue. It
  is assumed that the host refuses none of the calls that documentation allows on such a set (new data and
  parameters, a start of the set, of its periodic advertising), nor clearing the accept list, and that the
  publications succeed: a start that fails is only logged and never tried again, and a publication that
  fails trips an error check.
\<close>

theorem disconnected_back_on_air:
  assumes "adv_host vw e" "host_serves False vw e" "adv_wf (bm c) s" "0 < CFG_MAX_ADV_SET c"
    and "CFG_PERIPHERAL c" "\<not> CFG_CENTRAL c" "adv_q s = []"
    and "ext_adv_set s ! 0 = Some h" "sets vw s h = Some v" "\<not> av_on v" "\<not> av_per_on v" "adv_local s ! 0 \<noteq> None"
  shows "\<exists>s1 s2. disconnected_cb c e m conn s = Some s1 \<and> adv_work (bm c) e s1 = Some s2 \<and> adv_q s2 = [] \<and>
    dir_adv_timed_out s1 = dir_adv_timed_out s \<and>
    sets vw s2 = (sets vw s)(h \<mapsto> on_air (bm c) e s1 0 v) \<and>
    sent vw s2 = sent vw s @ Msg_disconnected conn #
      (if announces (bm c) s 0 then [Msg_ext_adv_with_pa_ready (Some h) 0] else [])"
proof -
  have max: "CFG_MAX_ADV_SET (bm c) = CFG_MAX_ADV_SET c" by (simp add: mgmt_config.truncate_def)
  obtain b where b: "host_call (h_publish e (Msg_disconnected conn)) s = (0, s\<lparr>mgmt_host := b\<rparr>)"
      "vw b = (sets vw s, sent vw s @ [Msg_disconnected conn])"
    using published_up [OF assms(1,2)] by blast
  let ?s = "s\<lparr>mgmt_host := b\<rparr>"
  have "adv_wf (bm c) ?s" using assms(3) by (simp add: adv_wf_def)
  then have "bt_mgmt_adv_start (bm c) e 0 None 0 None 0 True ?s = Some (0, ?s\<lparr>adv_q := [0], adv_work_queued := True\<rparr>)"
    using restart_queues [of "bm c" ?s 0 e True] assms(4,7,12) max by simp
  then have s1: "disconnected_cb c e m conn s = Some (?s\<lparr>adv_q := [0], adv_work_queued := True\<rparr>)"
    using b(1) assms(5,6) by (simp add: disconnected_cb_def)
  let ?s1 = "?s\<lparr>adv_q := [0], adv_work_queued := True\<rparr>"
  let ?w = "?s1\<lparr>adv_work_queued := False\<rparr>"
  have w: "adv_wf (bm c) ?w" "adv_q ?w = 0 # []" "ext_adv_set ?w ! 0 = Some h" "sets vw ?w h = Some v"
      "adv_local ?w ! 0 \<noteq> None" "ready False v"
    using assms(3,4,8-12) max b(2) by (auto simp: adv_wf_def sets_def ready_def)
  obtain s2 where s2: "advertising_process (bm c) e ?w = Some s2" "adv_q s2 = []"
      "sets vw s2 = (sets vw ?w)(h \<mapsto> on_air (bm c) e ?w 0 v)"
      "sent vw s2 = sent vw ?w @ (if announces (bm c) ?w 0 then [Msg_ext_adv_with_pa_ready (Some h) 0] else [])"
    using work_started [OF assms(1,2) w] by blast
  have same: "on_air (bm c) e ?w 0 v = on_air (bm c) e ?s1 0 v" "announces (bm c) ?w 0 = announces (bm c) s 0"
      "sets vw ?w = sets vw s" "sent vw ?w = sent vw s @ [Msg_disconnected conn]"
    using b(2) on_air_queued [where s = ?s1] by (simp_all add: announces_def sets_def sent_def)
  show ?thesis
    using s1 s2 unfolding same by (intro exI [of _ ?s1] exI [of _ s2]) (simp add: adv_work_def)
qed

definition timed_out_param :: "mgmt_config \<Rightarrow> adv_param" where
  "timed_out_param c = (if CFG_FILTER_ACCEPT_LIST c then LE_AUDIO_EXTENDED_ADV_CONN_FILTER c else LE_AUDIO_EXTENDED_ADV_CONN c)"

text \<open>A directed advertisement that times out is followed by an open one. When the host reports the
  time-out, the receiver deletes the set and makes a new connectable one (for the accept list only, where
  there is one); once the work item has run, that set is on air without a time limit and with exactly the
  stored data, whatever bonded peers there are, and the old set is gone.
\<close>

lemma timed_out_goes_open:
  assumes "adv_host vw e" "host_up vw e" "adv_wf (bm c) s" "0 < CFG_MAX_ADV_SET c"
    and "CFG_PERIPHERAL c" "adv_q s = []"
    and "ext_adv_set s ! 0 = Some h" "sets vw s h = Some v" "adv_local s ! 0 = Some d" "per_adv_local s ! 0 = None"
  shows "\<exists>s1 s2 h'. connected_cb c e m conn BT_HCI_ERR_ADV_TIMEOUT s = Some s1 \<and> adv_work (bm c) e s1 = Some s2 \<and>
    adv_q s2 = [] \<and> \<not> dir_adv_timed_out s2 \<and> ext_adv_set s2 ! 0 = Some h' \<and> sent vw s2 = sent vw s \<and>
    sets vw s2 = (sets vw s)(h := None, h' \<mapsto> (new_set (timed_out_param (bm c)))
      \<lparr>av_data := take (adv_local_size s ! 0) d, av_on := True, av_limited := False\<rparr>)"
proof -
  have max: "CFG_MAX_ADV_SET (bm c) = CFG_MAX_ADV_SET c" by (simp add: mgmt_config.truncate_def)
  have len: "0 < length (ext_adv_set s)" using assms(3,4) max by (simp add: adv_wf_def)
  obtain r b1 where d: "h_delete e (Some h) (mgmt_host s) = (r, b1)" by (cases "h_delete e (Some h) (mgmt_host s)")
  have "never_fails vw (ready True) (h_delete e)" using assms(2) by (simp add: host_serves_def)
  then have "fst (h_delete e (Some h) (mgmt_host s)) = 0" using assms(8) by (simp add: never_fails_def sets_def ready_def)
  then have d0: "h_delete e (Some h) (mgmt_host s) = (0, b1)" using d by simp
  have b1: "vw b1 = ((sets vw s)(h := None), sent vw s)"
    using adv_host_rest(4) [OF assms(1) d0] by (simp add: sets_def sent_def)
  let ?p = "timed_out_param (bm c)"
  obtain r2 h' b2 where c2: "h_create e ?p b1 = (r2, h', b2)" by (cases "h_create e ?p b1")
  have "fst (h_create e ?p b1) = 0" using assms(2) by (simp add: host_serves_def)
  then have c0: "h_create e ?p b1 = (0, h', b2)" using c2 by simp
  have b2: "vw b2 = ((sets vw s)(h := None, h' \<mapsto> new_set ?p), sent vw s)"
    using adv_host_rest(5) [OF assms(1) c0] b1 by simp
  let ?s = "s\<lparr>dir_adv_timed_out := True, mgmt_host := b2, ext_adv_set := (ext_adv_set s)[0 := Some h']\<rparr>"
  let ?s1 = "?s\<lparr>adv_q := [0], adv_work_queued := True\<rparr>"
  let ?w = "?s1\<lparr>adv_work_queued := False\<rparr>"
  have "bt_mgmt_adv_start (bm c) e 0 None 0 None 0 True ?s = Some (0, ?s1)"
    using restart_queues [of "bm c" ?s 0 e True] assms(3,4,6,9) max by (simp add: adv_wf_def)
  then have s1: "connected_cb c e m conn BT_HCI_ERR_ADV_TIMEOUT s = Some ?s1"
    using assms(5,7) d0 c0 len
    by (simp add: connected_cb_def bt_mgmt_dir_adv_timed_out_def mem_simps host_call_def timed_out_param_def
        split: if_splits)
  have w: "adv_wf (bm c) ?w" "adv_q ?w = 0 # []" "ext_adv_set ?w ! 0 = Some h'" "sets vw ?w h' = Some (new_set ?p)"
      "adv_local ?w ! 0 \<noteq> None"
    using assms(3,4,9) max b2 len by (simp_all add: adv_wf_def sets_def)
  have rdy: "ready True (new_set ?p)" by (simp add: ready_def)
  obtain s2 where s2: "advertising_process (bm c) e ?w = Some s2" "adv_q s2 = []" "adv_data s2 = adv_data ?w"
      "\<not> dir_adv_timed_out s2"
      "sets vw s2 = (sets vw ?w)(h' \<mapsto> on_air (bm c) e ?w 0 (new_set ?p))"
      "sent vw s2 = sent vw ?w @ (if announces (bm c) ?w 0 then [Msg_ext_adv_with_pa_ready (Some h') 0] else [])"
    using work_started [OF assms(1,2) w rdy] by blast
  have view: "on_air (bm c) e ?w 0 (new_set ?p) =
      (new_set ?p)\<lparr>av_data := take (adv_local_size s ! 0) d, av_on := True, av_limited := False\<rparr>"
    using assms(9,10) by (simp add: on_air_def announces_def started_view_def open_on_air_def open_view_def Let_def)
  have "\<not> announces (bm c) ?w 0" using assms(10) by (simp add: announces_def)
  then show ?thesis
    using s1 s2 b2 len unfolding view
    by (intro exI [of _ ?s1] exI [of _ s2] exI [of _ h']) (simp add: adv_work_def sets_def sent_def adv_data_def)
qed

section \<open>The queue that is left behind\<close>

text \<open>C22: Two restarts leave an index behind, and the next ones trip. The work item starts one set each time
  it runs, but is queued only once: when advertising is asked for twice before it runs, one index stays in
  the queue and nothing starts it. With two sets, a lost connection whose advertising is asked for once
  more is then refused, and the next lost connection trips the error check of the callback. All this is
  of a peripheral whose first set has been created and whose queue is empty at the start; the last two requests
  come before the work item has run again.
\<close>

theorem restarts_fill_queue:
  assumes "adv_host vw e" "adv_wf (bm c) s" "CFG_MAX_ADV_SET c = 2" "CFG_PERIPHERAL c" "adv_q s = []" "adv_local s ! 0 \<noteq> None"
  shows "\<exists>s1 s2. bt_mgmt_adv_start (bm c) e 0 None 0 None 0 True s = Some (0, s1) \<and>
    bt_mgmt_adv_start (bm c) e 0 None 0 None 0 True s1 = Some (0, s2) \<and>
    (\<forall>s3. adv_work (bm c) e s2 = Some s3 \<longrightarrow>
      adv_q s3 = [0] \<and> adv_work (bm c) e s3 = Some s3 \<and>
      (\<exists>s4. bt_mgmt_adv_start (bm c) e 0 None 0 None 0 True s3 = Some (0, s4) \<and>
        bt_mgmt_adv_start (bm c) e 0 None 0 None 0 True s4 = Some (- ENOMEM, s4) \<and>
        disconnected_cb c e m conn s4 = None))"
proof -
  have max: "CFG_MAX_ADV_SET (bm c) = 2" using assms(3) by (simp add: mgmt_config.truncate_def)
  let ?start = "bt_mgmt_adv_start (bm c) e 0 None 0 None 0 True"
  let ?s1 = "s\<lparr>adv_q := [0], adv_work_queued := True\<rparr>"
  let ?s2 = "s\<lparr>adv_q := [0, 0], adv_work_queued := True\<rparr>"
  have wf: "adv_wf (bm c) ?s1" "adv_wf (bm c) ?s2" using assms(2) max by (simp_all add: adv_wf_def)
  have one: "?start s = Some (0, ?s1)" and two: "?start ?s1 = Some (0, ?s2)"
    using restart_queues [OF assms(2), of 0 e True] restart_queues [OF wf(1), of 0 e True] assms(5,6) max by simp_all
  have "adv_q s3 = [0] \<and> adv_work (bm c) e s3 = Some s3 \<and>
      (\<exists>s4. ?start s3 = Some (0, s4) \<and> ?start s4 = Some (- ENOMEM, s4) \<and> disconnected_cb c e m conn s4 = None)"
    if run: "adv_work (bm c) e ?s2 = Some s3" for s3
  proof -
    let ?w = "?s2\<lparr>adv_work_queued := False\<rparr>"
    have "advertising_process (bm c) e ?w = Some s3" using run by (simp add: adv_work_def)
    then have s3: "adv_q s3 = [0]" "adv_data s3 = adv_data ?w"
      using processed_keeps [OF assms(1), of "bm c" ?w 0 "[0]" s3] wf(2) by (simp_all add: adv_wf_def)
    let ?s4 = "s3\<lparr>adv_q := [0, 0], adv_work_queued := True\<rparr>"
    have wf3: "adv_wf (bm c) s3" "adv_wf (bm c) ?s4" "adv_local s3 ! 0 \<noteq> None" "adv_local ?s4 ! 0 \<noteq> None"
      using wf(2) s3 assms(6) by (auto simp: adv_wf_def adv_data_def)
    have three: "?start s3 = Some (0, ?s4)" and four: "?start ?s4 = Some (- ENOMEM, ?s4)"
      using restart_queues [OF wf3(1) _ wf3(3), of e True] restart_queues [OF wf3(2) _ wf3(4), of e True] s3(1) max
      by simp_all
    have again: "?start (?s4\<lparr>mgmt_host := b\<rparr>) = Some (- ENOMEM, ?s4\<lparr>mgmt_host := b\<rparr>)" for b
      using restart_queues [of "bm c" "?s4\<lparr>mgmt_host := b\<rparr>" 0 e True] wf3 max by (simp add: adv_wf_def)
    have "disconnected_cb c e m conn ?s4 = None"
    proof -
      obtain b where pre: "(if CFG_CENTRAL c then host_do (c_unref m conn) ?s4 else ?s4) = ?s4\<lparr>mgmt_host := b\<rparr>"
      proof (cases "CFG_CENTRAL c")
        case True
        then show ?thesis using that by (simp add: host_do_def)
      next
        case False
        then show ?thesis using that [of "mgmt_host s3"] by (cases s3) simp
      qed
      obtain r b' where pub: "host_call (h_publish e (Msg_disconnected conn)) (?s4\<lparr>mgmt_host := b\<rparr>) = (r, ?s4\<lparr>mgmt_host := b'\<rparr>)"
        by (cases "h_publish e (Msg_disconnected conn) b") (simp add: host_call_def)
      show ?thesis unfolding disconnected_cb_def pre using pub again [of b'] assms(4)
        by (auto simp: err_chk_def Let_def)
    qed
    moreover have "adv_work (bm c) e s3 = Some s3" using s3(2) by (simp add: adv_work_def adv_data_def)
    ultimately show ?thesis using s3(1) three four by blast
  qed
  then show ?thesis using one two by blast
qed

section \<open>Instances\<close>

text \<open>A host that keeps its sets in a list and its messages in another; a bonded peer is never connected.\<close>

type_synonym demo_host = "adv_view option list \<times> bt_mgmt_msg list"

definition demo_view :: "demo_host \<Rightarrow> (nat \<rightharpoonup> adv_view) \<times> bt_mgmt_msg list" where
  "demo_view b = ((\<lambda>h. if h < length (fst b) then fst b ! h else None), snd b)"

definition demo_call :: "(adv_view \<Rightarrow> adv_view) \<Rightarrow> nat option \<Rightarrow> demo_host \<Rightarrow> int \<times> demo_host" where
  "demo_call f a b = (case a of
       None \<Rightarrow> (- EINVAL, b)
     | Some h \<Rightarrow> (case fst (demo_view b) h of
         None \<Rightarrow> (- EINVAL, b)
       | Some v \<Rightarrow> (0, (fst b)[h := Some (f v)], snd b)))"

definition demo_delete :: "nat option \<Rightarrow> demo_host \<Rightarrow> int \<times> demo_host" where
  "demo_delete a b = (case a of None \<Rightarrow> (- EINVAL, b) | Some h \<Rightarrow> (0, (fst b)[h := None], snd b))"

definition demo_bt_host :: "bt_addr_le list \<Rightarrow> demo_host bt_host" where
  "demo_bt_host bonds =
     \<lparr>h_create = \<lambda>p b. (0, length (fst b), fst b @ [Some (new_set p)], snd b),
      h_set_data = \<lambda>a d. demo_call (\<lambda>v. v\<lparr>av_data := d\<rparr>) a,
      h_update_param = \<lambda>a p. demo_call (\<lambda>v. v\<lparr>av_param := p\<rparr>) a,
      h_get_info = \<lambda>a b. (0, Some (0, [])),
      h_start = \<lambda>a t. demo_call (\<lambda>v. v\<lparr>av_on := True, av_limited := t\<rparr>) a,
      h_stop = demo_call (\<lambda>v. v\<lparr>av_on := False\<rparr>),
      h_delete = demo_delete,
      h_per_set_param = demo_call (\<lambda>v. v),
      h_per_set_data = \<lambda>a d. demo_call (\<lambda>v. v\<lparr>av_per_data := d\<rparr>) a,
      h_per_start = demo_call (\<lambda>v. v\<lparr>av_per_on := True\<rparr>),
      h_per_stop = demo_call (\<lambda>v. v\<lparr>av_per_on := False\<rparr>),
      h_bonds = \<lambda>b. bonds, h_conn_lookup = \<lambda>a b. None,
      h_fal_clear = \<lambda>b. (0, b), h_fal_add = \<lambda>a b. (0, b),
      h_publish = \<lambda>m b. (0, fst b, snd b @ [m]),
      CONN_DIR_PARAM = \<lambda>a. \<lparr>ap_sid = 0, ap_ext = False, ap_conn = True, ap_filter_conn = False, ap_use_identity = False,
        ap_dir_addr_rpa = False, ap_interval_min = 0, ap_interval_max = 0, ap_peer = Some a\<rparr>\<rparr>"

lemma demo_call_acts: "acts_on demo_view (demo_call f) f"
  unfolding acts_on_def
proof (intro allI)
  fix a b
  show "case demo_call f a b of (ret, b') \<Rightarrow>
      if ret = 0 then (\<exists>h v. a = Some h \<and> fst (demo_view b) h = Some v \<and>
        demo_view b' = ((fst (demo_view b))(h \<mapsto> f v), snd (demo_view b)))
      else demo_view b' = demo_view b"
  proof (cases "\<exists>h v. a = Some h \<and> fst (demo_view b) h = Some v")
    case True
    then obtain h v where h: "a = Some h" "fst (demo_view b) h = Some v" by blast
    then have "h < length (fst b)" by (auto simp: demo_view_def split: if_splits)
    then have "demo_view ((fst b)[h := Some (f v)], snd b) = ((fst (demo_view b))(h \<mapsto> f v), snd (demo_view b))"
      by (auto simp: demo_view_def fun_eq_iff nth_list_update)
    then show ?thesis using h by (simp add: demo_call_def)
  next
    case False
    then show ?thesis by (auto simp: demo_call_def split: option.splits)
  qed
qed

lemma demo_never_fails: "never_fails demo_view g (demo_call f)"
  by (auto simp: never_fails_def demo_call_def split: option.splits)

lemma demo_adv_host: "adv_host demo_view (demo_bt_host bonds)"
  by (auto simp: adv_host_def demo_bt_host_def demo_call_acts creates_def deletes_def publishes_def demo_view_def
      demo_delete_def fun_eq_iff nth_append nth_list_update split: option.splits)

lemma demo_delete_never_fails: "never_fails demo_view g demo_delete"
  by (simp add: never_fails_def demo_delete_def)

lemma demo_host_serves: "host_serves busy demo_view (demo_bt_host bonds)"
  by (simp add: host_serves_def demo_bt_host_def demo_never_fails demo_delete_never_fails)

definition demo_bm_cfg :: conn_config where
  "demo_bm_cfg =
     \<lparr>CFG_BONDABLE = True, CFG_FILTER_ACCEPT_LIST = False, CFG_PER_ADV = True, CFG_PRIVACY = False, CFG_MAX_ADV_SET = 2,
      CFG_BONDS_QUEUE_SIZE = 4, CFG_ADV_SID = 0, CFG_EXT_ADV_INT_MIN = 32, CFG_EXT_ADV_INT_MAX = 64,
      CFG_PERIPHERAL = True, CFG_CENTRAL = False, CFG_BROADCASTER = False, CFG_CONN = True, CFG_PER_ADV_SYNC = True,
      CFG_SETTINGS = True, CFG_RANDOM_ADDRESS = False, CFG_DFU = False, CFG_SMP_DYNAMIC = False, CFG_WDT_CTLR = False,
      CFG_ID_MAX = 1\<rparr>"

text \<open>A receiver that has started its set; \<open>p\<close> is its periodic data, \<open>q\<close> its queue.\<close>

definition demo_set :: adv_view where
  "demo_set = new_set (LE_AUDIO_EXTENDED_ADV_CONN (bm demo_bm_cfg))"

definition demo_data :: "bt_data list" where
  "demo_data = [\<lparr>ad_type = 9, ad_len = 1, ad_data = [65]\<rparr>]"

definition demo_bm :: "bt_data list option \<Rightarrow> nat list \<Rightarrow> demo_host bt_mgmt" where
  "demo_bm p q =
     \<lparr>ext_adv_set = [Some 0, None], adv_local = [Some demo_data, None], adv_local_size = [1, 0],
      per_adv_local = [p, None], per_adv_local_size = [if p = None then 0 else 1, 0], adv_q = q, bonds_q = [],
      dir_adv_timed_out = False, ext_adv_param = LE_AUDIO_EXTENDED_ADV (bm demo_bm_cfg), adv_work_queued = False,
      mgmt_host = ([Some demo_set], []), wdt_ch_id = 0, ctlr_poll_timer = False, ctlr_poll_queued = False,
      conn_callbacks = True, sem_bt_enabled = 0, adv_initialised = True\<rparr>"

lemma demo_bm_wf: "p = None \<or> p = Some demo_data \<Longrightarrow> q = [] \<or> q = [0] \<Longrightarrow> adv_wf (bm demo_bm_cfg) (demo_bm p q)"
  by (auto simp: adv_wf_def demo_bm_def demo_bm_cfg_def mgmt_config.truncate_def demo_data_def less_Suc_eq numeral_2_eq_2)

lemma demo_bm_sets: "sets demo_view (demo_bm p q) 0 = Some demo_set" "ext_adv_set (demo_bm p q) ! 0 = Some 0"
  "adv_local (demo_bm p q) ! 0 = Some demo_data" "adv_q (demo_bm p q) = q" "per_adv_local (demo_bm p q) ! 0 = p"
  by (simp_all add: sets_def demo_view_def demo_bm_def)

definition demo_conn_host :: "demo_host conn_host" where
  "demo_conn_host =
     \<lparr>c_conns = \<lambda>b. [], c_connected = \<lambda>k b. (0, False), c_unref = \<lambda>k b. b, c_set_security = \<lambda>k b. (0, b),
      c_disconnect = \<lambda>k r b. (0, b), c_scan_restart = \<lambda>b. (0, b), c_unpair_all = \<lambda>b. (0, b), c_sync_delete = \<lambda>p b. (0, b),
      c_enable = \<lambda>b. (0, b), c_enabled = \<lambda>b. Some 0, c_create_static = \<lambda>b. (0, b), c_id_create = \<lambda>b. (0, b),
      c_id_get = \<lambda>b. 1, c_settings_load = \<lambda>b. (0, b), c_smp_unregister = \<lambda>b. (0, b),
      c_version = \<lambda>b. (0, 0, COMPANY_ID_NORDIC, b), c_buf_unref = \<lambda>k b. b, c_wdt_init = \<lambda>b. (0, b),
      c_wdt_add = \<lambda>t b. (0, b), c_wdt_feed = \<lambda>k b. (0, b)\<rparr>"

lemma demo_truncate: "CFG_MAX_ADV_SET demo_bm_cfg = 2" "CFG_PERIPHERAL demo_bm_cfg" "\<not> CFG_CENTRAL demo_bm_cfg"
  by (simp_all add: demo_bm_cfg_def)


theorem disconnected_back_on_air_witness:
  "\<exists>s1 s2. disconnected_cb demo_bm_cfg (demo_bt_host [(0, [1])]) demo_conn_host 7 (demo_bm None []) = Some s1 \<and>
     adv_work (bm demo_bm_cfg) (demo_bt_host [(0, [1])]) s1 = Some s2 \<and> sent demo_view s2 = [Msg_disconnected 7]"
proof -
  have "\<not> announces (bm demo_bm_cfg) (demo_bm None []) 0" "sent demo_view (demo_bm None []) = []"
      "\<not> av_on demo_set" "\<not> av_per_on demo_set"
    by (simp_all add: announces_def demo_bm_sets sent_def demo_view_def demo_bm_def demo_set_def new_set_def)
  then show ?thesis
    using disconnected_back_on_air [where vw = demo_view and e = "demo_bt_host [(0, [1])]" and c = demo_bm_cfg
        and s = "demo_bm None []" and h = 0 and v = demo_set and m = demo_conn_host and conn = 7,
        OF demo_adv_host demo_host_serves demo_bm_wf] demo_bm_sets demo_truncate by auto
qed

theorem timed_out_goes_open_witness:
  "\<exists>s1 s2. connected_cb demo_bm_cfg (demo_bt_host [(0, [1])]) demo_conn_host 7 BT_HCI_ERR_ADV_TIMEOUT (demo_bm None []) = Some s1 \<and>
     adv_work (bm demo_bm_cfg) (demo_bt_host [(0, [1])]) s1 = Some s2 \<and> \<not> dir_adv_timed_out s2"
  using timed_out_goes_open [where vw = demo_view and e = "demo_bt_host [(0, [1])]" and c = demo_bm_cfg
      and s = "demo_bm None []" and h = 0 and v = demo_set and d = demo_data and m = demo_conn_host and conn = 7,
      OF demo_adv_host demo_host_serves demo_bm_wf] demo_bm_sets demo_truncate by auto

theorem restarts_fill_queue_witness:
  "\<exists>s1 s2. bt_mgmt_adv_start (bm demo_bm_cfg) (demo_bt_host []) 0 None 0 None 0 True (demo_bm None []) = Some (0, s1) \<and>
     bt_mgmt_adv_start (bm demo_bm_cfg) (demo_bt_host []) 0 None 0 None 0 True s1 = Some (0, s2) \<and>
     (\<forall>s3. adv_work (bm demo_bm_cfg) (demo_bt_host []) s2 = Some s3 \<longrightarrow> adv_q s3 = [0])"
  using restarts_fill_queue [where vw = demo_view and e = "demo_bt_host []" and c = demo_bm_cfg and s = "demo_bm None []"
      and m = demo_conn_host and conn = 0, OF demo_adv_host demo_bm_wf] demo_bm_sets demo_truncate by auto

end
