(* ===== verification/HwCodec.thy ===== *)
theory HwCodec
  imports Prelude
begin

text \<open>
  The hardware codec (\<open>src/modules/hw_codec.c\<close> with the register tables of
  \<open>src/drivers/cs47l63_reg_conf.h\<close>). The module sets the codec up, and keeps the volume and the mute
  bit of its output in one register that it reads and writes back.

  The driver of the codec is the parameter \<open>codec_drv\<close>; it acts on a state of its own. The names of
  the registers are those of the vendor's header, as constructors, and the three bit fields of the
  volume register that this header defines are the parameter \<open>cs47l63_spec\<close>.
\<close>

unbundle bit_operations_syntax

section \<open>Registers\<close>

text \<open>\<open>SPI_BUSY_WAIT\<close> is not a register: it stands for a wait.\<close>

datatype cs_reg =
    CS47L63_SAMPLE_RATE3 | CS47L63_SAMPLE_RATE2 | CS47L63_SAMPLE_RATE1 | CS47L63_SYSTEM_CLOCK1
  | CS47L63_ASYNC_CLOCK1 | CS47L63_FLL1_CONTROL2 | CS47L63_FLL1_CONTROL3 | CS47L63_FLL1_GPIO_CLOCK
  | CS47L63_FLL1_CONTROL1 | CS47L63_GPIO6_CTRL1 | CS47L63_GPIO7_CTRL1 | CS47L63_GPIO8_CTRL1
  | CS47L63_GPIO10_CTRL1 | CS47L63_LDO2_CTRL1 | CS47L63_MICBIAS_CTRL1 | CS47L63_MICBIAS_CTRL5
  | CS47L63_INPUT_CONTROL | CS47L63_INPUT1_CONTROL1 | CS47L63_IN1L_CONTROL2 | CS47L63_IN1R_CONTROL2
  | CS47L63_INPUT_CONTROL3 | CS47L63_ASP1TX1_INPUT1 | CS47L63_ASP1TX2_INPUT1 | CS47L63_INPUT2_CONTROL1
  | CS47L63_IN2L_CONTROL1 | CS47L63_IN2R_CONTROL1 | CS47L63_IN2L_CONTROL2 | CS47L63_IN2R_CONTROL2
  | CS47L63_OUTPUT_ENABLE_1 | CS47L63_OUT1L_INPUT1 | CS47L63_OUT1L_INPUT2 | CS47L63_GPIO1_CTRL1
  | CS47L63_GPIO2_CTRL1 | CS47L63_GPIO3_CTRL1 | CS47L63_GPIO4_CTRL1 | CS47L63_GPIO5_CTRL1
  | CS47L63_SAMPLE_RATE4 | CS47L63_ASP1_CONTROL2 | CS47L63_ASP1_CONTROL3 | CS47L63_ASP1_DATA_CONTROL1
  | CS47L63_ASP1_DATA_CONTROL5 | CS47L63_ASP1_ENABLES1 | SPI_BUSY_WAIT | CS47L63_SFT_RESET
  | CS47L63_OUT1L_VOLUME_1

definition clock_configuration :: "(cs_reg \<times> u32) list" where
  "clock_configuration =
     [(CS47L63_SAMPLE_RATE3, 0x0012), (CS47L63_SAMPLE_RATE2, 0x0002), (CS47L63_SAMPLE_RATE1, 0x0003),
      (CS47L63_SYSTEM_CLOCK1, 0x034C), (CS47L63_ASYNC_CLOCK1, 0x034C),
      (CS47L63_FLL1_CONTROL2, 0x88200008), (CS47L63_FLL1_CONTROL3, 0x10000),
      (CS47L63_FLL1_GPIO_CLOCK, 0x0005), (CS47L63_FLL1_CONTROL1, 0x0001)]"

definition GPIO_configuration :: "(cs_reg \<times> u32) list" where
  "GPIO_configuration =
     [(CS47L63_GPIO6_CTRL1, 0x61000001), (CS47L63_GPIO7_CTRL1, 0x61000001),
      (CS47L63_GPIO8_CTRL1, 0x61000001), (CS47L63_GPIO10_CTRL1, 0x41008001)]"

definition pdm_mic_enable_configure :: "(cs_reg \<times> u32) list" where
  "pdm_mic_enable_configure =
     [(CS47L63_LDO2_CTRL1, 0x0005), (CS47L63_MICBIAS_CTRL1, 0x00EC), (CS47L63_MICBIAS_CTRL5, 0x0272),
      (CS47L63_INPUT_CONTROL, 0x000F), (CS47L63_INPUT1_CONTROL1, 0x50021),
      (CS47L63_IN1L_CONTROL2, 0x800080), (CS47L63_IN1R_CONTROL2, 0x800080),
      (CS47L63_INPUT_CONTROL3, 0x20000000), (CS47L63_ASP1TX1_INPUT1, 0x800010),
      (CS47L63_ASP1TX2_INPUT1, 0x800011)]"

definition line_in_enable :: "(cs_reg \<times> u32) list" where
  "line_in_enable =
     [(CS47L63_INPUT2_CONTROL1, 0x50020), (CS47L63_IN2L_CONTROL1, 0x10000000),
      (CS47L63_IN2R_CONTROL1, 0x10000000), (CS47L63_IN2L_CONTROL2, 0x800080),
      (CS47L63_IN2R_CONTROL2, 0x800080), (CS47L63_INPUT_CONTROL, 0x000F),
      (CS47L63_INPUT_CONTROL3, 0x20000000), (CS47L63_ASP1TX1_INPUT1, 0x800012),
      (CS47L63_ASP1TX2_INPUT1, 0x800013)]"

definition output_enable :: "(cs_reg \<times> u32) list" where
  "output_enable =
     [(CS47L63_OUTPUT_ENABLE_1, 0x0002), (CS47L63_OUT1L_INPUT1, 0x800020),
      (CS47L63_OUT1L_INPUT2, 0x800021)]"

definition output_disable :: "(cs_reg \<times> u32) list" where
  "output_disable =
     [(CS47L63_OUTPUT_ENABLE_1, 0x00)]"

text \<open>The sample rate is the one of the configuration; a rate that is none of the three has no entry.\<close>

definition asp1_enable :: "nat \<Rightarrow> (cs_reg \<times> u32) list" where
  "asp1_enable hz =
     [(CS47L63_GPIO1_CTRL1, 0x61000000), (CS47L63_GPIO2_CTRL1, 0xE1000000), (CS47L63_GPIO3_CTRL1, 0xE1000000),
      (CS47L63_GPIO4_CTRL1, 0xE1000000), (CS47L63_GPIO5_CTRL1, 0x61000001)] @
     (if hz = 16000 then [(CS47L63_SAMPLE_RATE1, 0x12)] else if hz = 24000 then [(CS47L63_SAMPLE_RATE1, 0x2)]
      else if hz = 48000 then [(CS47L63_SAMPLE_RATE1, 0x3)] else []) @
     [(CS47L63_SAMPLE_RATE2, 0), (CS47L63_SAMPLE_RATE3, 0), (CS47L63_SAMPLE_RATE4, 0),
      (CS47L63_ASP1_CONTROL2, 0x10100200), (CS47L63_ASP1_CONTROL3, 0x0000), (CS47L63_ASP1_DATA_CONTROL1, 0x0020),
      (CS47L63_ASP1_DATA_CONTROL5, 0x0020), (CS47L63_ASP1_ENABLES1, 0x30003)]"

definition FLL_toggle :: "(cs_reg \<times> u32) list" where
  "FLL_toggle =
     [(CS47L63_FLL1_CONTROL1, 0x0000), (SPI_BUSY_WAIT, 1000), (CS47L63_FLL1_CONTROL1, 0x0001)]"

definition soft_reset :: "(cs_reg \<times> u32) list" where
  "soft_reset =
     [(CS47L63_SFT_RESET, 0x5A000000), (SPI_BUSY_WAIT, 3000)]"

abbreviation (input) MAX_VOLUME_REG_VAL :: int where "MAX_VOLUME_REG_VAL \<equiv> 0x80"
abbreviation (input) OUT_VOLUME_DEFAULT :: u32 where "OUT_VOLUME_DEFAULT \<equiv> 0x62"
abbreviation (input) VOLUME_ADJUST_STEP_DB :: "8 word" where "VOLUME_ADJUST_STEP_DB \<equiv> 3"

record cs47l63_spec =
  CS47L63_OUT_VU :: u32
  CS47L63_OUT1L_VOL_MASK :: u32
  CS47L63_OUT1L_MUTE_MASK :: u32

section \<open>The driver and the state\<close>

record 'h codec_drv =
  cs47l63_read_reg :: "cs_reg \<Rightarrow> 'h \<Rightarrow> int \<times> u32 \<times> 'h"
  cs47l63_write_reg :: "cs_reg \<Rightarrow> u32 \<Rightarrow> 'h \<Rightarrow> int \<times> 'h"
  cs47l63_wait :: "u32 \<Rightarrow> 'h \<Rightarrow> 'h"
  cs47l63_comm_init :: "'h \<Rightarrow> int \<times> 'h"

record 'h hw_codec =
  prev_volume_reg_val :: u32
  codec_standby :: bool
  volume_thread :: bool
  codec_dev :: 'h

definition hw_codec_boot :: "'h \<Rightarrow> 'h hw_codec" where
  "hw_codec_boot h =
     \<lparr>prev_volume_reg_val = OUT_VOLUME_DEFAULT, codec_standby = False, volume_thread = False, codec_dev = h\<rparr>"

record codec_build =
  CODEC_GATEWAY :: bool
  CODEC_SOURCE_I2S :: bool
  CODEC_SOURCE_USB :: bool
  CODEC_WALKIE_TALKIE :: bool
  CODEC_BIDIRECTIONAL :: bool
  CODEC_SAMPLE_RATE :: nat

definition reg_write :: "'h codec_drv \<Rightarrow> cs_reg \<Rightarrow> u32 \<Rightarrow> 'h hw_codec \<Rightarrow> int \<times> 'h hw_codec" where
  "reg_write d r v s = (case cs47l63_write_reg d r v (codec_dev s) of (ret, h) \<Rightarrow> (ret, s\<lparr>codec_dev := h\<rparr>))"

definition reg_read :: "'h codec_drv \<Rightarrow> cs_reg \<Rightarrow> 'h hw_codec \<Rightarrow> int \<times> u32 \<times> 'h hw_codec" where
  "reg_read d r s = (case cs47l63_read_reg d r (codec_dev s) of (ret, v, h) \<Rightarrow> (ret, v, s\<lparr>codec_dev := h\<rparr>))"

fun cs47l63_comm_reg_conf_write :: "'h codec_drv \<Rightarrow> (cs_reg \<times> u32) list \<Rightarrow> 'h hw_codec \<Rightarrow> int \<times> 'h hw_codec" where
  "cs47l63_comm_reg_conf_write d [] s = (0, s)"
| "cs47l63_comm_reg_conf_write d ((reg, val) # cfg) s =
     (if reg = SPI_BUSY_WAIT then cs47l63_comm_reg_conf_write d cfg (s\<lparr>codec_dev := cs47l63_wait d val (codec_dev s)\<rparr>)
      else let (ret, s) = reg_write d reg val s in
        if ret \<noteq> 0 then (ret, s) else cs47l63_comm_reg_conf_write d cfg s)"

section \<open>Volume\<close>

definition zbus_vol_conversion :: "u8 \<Rightarrow> u16" where
  "zbus_vol_conversion volume = (ucast volume + 1) div 2"

definition hw_codec_volume_set :: "cs47l63_spec \<Rightarrow> 'h codec_drv \<Rightarrow> u8 \<Rightarrow> 'h hw_codec \<Rightarrow> int \<times> 'h hw_codec" where
  "hw_codec_volume_set sp d set_val s =
     (let v = (ucast set_val :: u32);
          v = (if uint v \<ge> MAX_VOLUME_REG_VAL then of_int MAX_VOLUME_REG_VAL else v);
          (ret, s) = reg_write d CS47L63_OUT1L_VOLUME_1 (v OR CS47L63_OUT_VU sp) s in
      if ret \<noteq> 0 then (ret, s) else (0, s\<lparr>prev_volume_reg_val := v\<rparr>))"

definition hw_codec_volume_adjust :: "cs47l63_spec \<Rightarrow> 'h codec_drv \<Rightarrow> 8 word \<Rightarrow> 'h hw_codec \<Rightarrow> int \<times> 'h hw_codec" where
  "hw_codec_volume_adjust sp d adj s =
     (if adj = 0 then hw_codec_volume_set sp d (ucast (prev_volume_reg_val s)) s
      else let (ret, v, s) = reg_read d CS47L63_OUT1L_VOLUME_1 s in
        if ret \<noteq> 0 then (ret, s)
        else
          let new_val = sint ((v AND CS47L63_OUT1L_VOL_MASK sp) + of_int (sint adj * 2));
              new_val = (if new_val \<le> 0 then 0 else if new_val \<ge> MAX_VOLUME_REG_VAL then MAX_VOLUME_REG_VAL else new_val)
          in hw_codec_volume_set sp d (of_int new_val) s)"

definition hw_codec_volume_decrease :: "cs47l63_spec \<Rightarrow> 'h codec_drv \<Rightarrow> 'h hw_codec \<Rightarrow> int \<times> 'h hw_codec" where
  "hw_codec_volume_decrease sp d s = hw_codec_volume_adjust sp d (- VOLUME_ADJUST_STEP_DB) s"

definition hw_codec_volume_increase :: "cs47l63_spec \<Rightarrow> 'h codec_drv \<Rightarrow> 'h hw_codec \<Rightarrow> int \<times> 'h hw_codec" where
  "hw_codec_volume_increase sp d s = hw_codec_volume_adjust sp d VOLUME_ADJUST_STEP_DB s"

definition hw_codec_volume_mute :: "cs47l63_spec \<Rightarrow> 'h codec_drv \<Rightarrow> 'h hw_codec \<Rightarrow> int \<times> 'h hw_codec" where
  "hw_codec_volume_mute sp d s =
     (let (ret, v, s) = reg_read d CS47L63_OUT1L_VOLUME_1 s in
      if ret \<noteq> 0 then (ret, s)
      else reg_write d CS47L63_OUT1L_VOLUME_1 (v OR CS47L63_OUT1L_MUTE_MASK sp OR CS47L63_OUT_VU sp) s)"

definition hw_codec_volume_unmute :: "cs47l63_spec \<Rightarrow> 'h codec_drv \<Rightarrow> 'h hw_codec \<Rightarrow> int \<times> 'h hw_codec" where
  "hw_codec_volume_unmute sp d s =
     (let (ret, v, s) = reg_read d CS47L63_OUT1L_VOLUME_1 s in
      if ret \<noteq> 0 then (ret, s)
      else reg_write d CS47L63_OUT1L_VOLUME_1 (v AND NOT (CS47L63_OUT1L_MUTE_MASK sp) OR CS47L63_OUT_VU sp) s)"

section \<open>Events\<close>

datatype volume_evt_type = VOLUME_UP | VOLUME_DOWN | VOLUME_SET | VOLUME_MUTE | VOLUME_UNMUTE

record volume_msg =
  vol_event :: volume_evt_type
  vol_volume :: u8

text \<open>What the thread does with a message that it has read; errors are logged.\<close>

definition volume_event :: "cs47l63_spec \<Rightarrow> 'h codec_drv \<Rightarrow> volume_msg \<Rightarrow> 'h hw_codec \<Rightarrow> int \<times> 'h hw_codec" where
  "volume_event sp d msg s = (case vol_event msg of
       VOLUME_UP \<Rightarrow> hw_codec_volume_increase sp d s
     | VOLUME_DOWN \<Rightarrow> hw_codec_volume_decrease sp d s
     | VOLUME_SET \<Rightarrow> hw_codec_volume_set sp d (ucast (zbus_vol_conversion (vol_volume msg))) s
     | VOLUME_MUTE \<Rightarrow> hw_codec_volume_mute sp d s
     | VOLUME_UNMUTE \<Rightarrow> hw_codec_volume_unmute sp d s)"

section \<open>Set-up\<close>

definition hw_codec_default_conf_enable ::
  "codec_build \<Rightarrow> cs47l63_spec \<Rightarrow> 'h codec_drv \<Rightarrow> 'h hw_codec \<Rightarrow> int \<times> 'h hw_codec" where
  "hw_codec_default_conf_enable b sp d s =
     (let (ret, s) = cs47l63_comm_reg_conf_write d clock_configuration s in
      if ret \<noteq> 0 then (ret, s)
      else let (ret, s) = cs47l63_comm_reg_conf_write d GPIO_configuration s in
      if ret \<noteq> 0 then (ret, s)
      else let (ret, s) = cs47l63_comm_reg_conf_write d (asp1_enable (CODEC_SAMPLE_RATE b)) s in
      if ret \<noteq> 0 then (ret, s)
      else let (ret, s) = cs47l63_comm_reg_conf_write d output_enable s in
      if ret \<noteq> 0 then (ret, s)
      else let (ret, s) = hw_codec_volume_adjust sp d 0 s in
      if ret \<noteq> 0 then (ret, s)
      else let (ret, s) =
          (if CODEC_GATEWAY b \<and> CODEC_SOURCE_I2S b
           then cs47l63_comm_reg_conf_write d (if CODEC_WALKIE_TALKIE b then pdm_mic_enable_configure else line_in_enable) s
           else (0, s)) in
      if ret \<noteq> 0 then (ret, s)
      else let (ret, s) =
          (if \<not> CODEC_GATEWAY b \<and> CODEC_BIDIRECTIONAL b
           then cs47l63_comm_reg_conf_write d pdm_mic_enable_configure s else (0, s)) in
      if ret \<noteq> 0 then (ret, s)
      else cs47l63_comm_reg_conf_write d FLL_toggle s)"

definition hw_codec_soft_reset :: "'h codec_drv \<Rightarrow> 'h hw_codec \<Rightarrow> int \<times> 'h hw_codec" where
  "hw_codec_soft_reset d s =
     (let (ret, s) = cs47l63_comm_reg_conf_write d output_disable s in
      if ret \<noteq> 0 then (ret, s) else cs47l63_comm_reg_conf_write d soft_reset s)"

definition hw_codec_init :: "'h codec_drv \<Rightarrow> int \<Rightarrow> 'h hw_codec \<Rightarrow> (int \<times> 'h hw_codec) option" where
  "hw_codec_init d name_ret s =
     (let (ret, h) = cs47l63_comm_init d (codec_dev s); s = s\<lparr>codec_dev := h\<rparr> in
      if ret \<noteq> 0 then Some (ret, s)
      else let (ret, s) = cs47l63_comm_reg_conf_write d soft_reset s in
        if ret \<noteq> 0 then Some (ret, s)
        else do { err_chk name_ret; Some (0, s\<lparr>codec_standby := True, volume_thread := True\<rparr>) })"

section \<open>Shell commands\<close>

text \<open>The argument is read as a number of eight bits.\<close>

definition shell_idx :: "string \<Rightarrow> u8" where
  "shell_idx a = of_nat (strtoul a)"

definition shell_numeric :: "string \<Rightarrow> bool" where
  "shell_numeric a = (a \<noteq> [] \<and> is_digit (hd a))"

definition cmd_input :: "codec_build \<Rightarrow> 'h codec_drv \<Rightarrow> string list \<Rightarrow> 'h hw_codec \<Rightarrow> int \<times> 'h hw_codec" where
  "cmd_input b d argv s =
     (if length argv \<noteq> 2 then (- EINVAL, s)
      else if CODEC_GATEWAY b \<and> CODEC_SOURCE_USB b then (- EINVAL, s)
      else if \<not> CODEC_GATEWAY b \<and> \<not> CODEC_BIDIRECTIONAL b then (- EINVAL, s)
      else if \<not> shell_numeric (argv ! 1) then (- EINVAL, s)
      else if shell_idx (argv ! 1) = 0 then
        let (ret, s) = (if \<not> CODEC_GATEWAY b then cs47l63_comm_reg_conf_write d line_in_enable s else (0, s)) in
        if ret \<noteq> 0 then (ret, s)
        else let (ret, s) = reg_write d CS47L63_ASP1TX1_INPUT1 0x800012 s in
          if ret \<noteq> 0 then (ret, s) else reg_write d CS47L63_ASP1TX2_INPUT1 0x800013 s
      else if shell_idx (argv ! 1) = 1 then
        let (ret, s) = (if CODEC_GATEWAY b then cs47l63_comm_reg_conf_write d pdm_mic_enable_configure s else (0, s)) in
        if ret \<noteq> 0 then (ret, s)
        else let (ret, s) = reg_write d CS47L63_ASP1TX1_INPUT1 0x800010 s in
          if ret \<noteq> 0 then (ret, s) else reg_write d CS47L63_ASP1TX2_INPUT1 0x800011 s
      else (- EINVAL, s))"

definition analog_out1l_disconnect :: "'h codec_drv \<Rightarrow> 'h hw_codec \<Rightarrow> int \<times> 'h hw_codec" where
  "analog_out1l_disconnect d s =
     (let (ret, s) = reg_write d CS47L63_OUT1L_INPUT1 0x808000 s in
      if ret \<noteq> 0 then (ret, s) else reg_write d CS47L63_OUT1L_INPUT2 0x808000 s)"

definition cmd_i2s_to_output_mapping :: "'h codec_drv \<Rightarrow> string list \<Rightarrow> 'h hw_codec \<Rightarrow> int \<times> 'h hw_codec" where
  "cmd_i2s_to_output_mapping d argv s =
     (if length argv \<noteq> 2 then (- EINVAL, s)
      else if \<not> shell_numeric (argv ! 1) then (- EINVAL, s)
      else let (ret, s) = analog_out1l_disconnect d s in
        if ret \<noteq> 0 then (ret, s)
        else if shell_idx (argv ! 1) = 0 then reg_write d CS47L63_OUT1L_INPUT1 0x808020 s
        else if shell_idx (argv ! 1) = 1 then reg_write d CS47L63_OUT1L_INPUT2 0x808021 s
        else if shell_idx (argv ! 1) = 2 then
          let (ret, s) = reg_write d CS47L63_OUT1L_INPUT1 0x808020 s in
          if ret \<noteq> 0 then (ret, s) else reg_write d CS47L63_OUT1L_INPUT2 0x808021 s
        else (- EINVAL, s))"

section \<open>The volume as a listener sees it\<close>

text \<open>
  What the driver promises: a read returns what the register holds and changes nothing, a write that
  returns zero stores the value (of the volume register, everything but the update bit, which triggers
  the update), a write that fails changes nothing. A write of the reset register is not covered.
\<close>

definition reads_ok :: "('h \<Rightarrow> cs_reg \<Rightarrow> u32) \<Rightarrow> 'h codec_drv \<Rightarrow> bool" where
  "reads_ok regs d \<longleftrightarrow> (\<forall>r h ret v h'. cs47l63_read_reg d r h = (ret, v, h') \<longrightarrow>
     regs h' = regs h \<and> (ret = 0 \<longrightarrow> v = regs h r))"

definition writes_ok :: "('h \<Rightarrow> cs_reg \<Rightarrow> u32) \<Rightarrow> cs47l63_spec \<Rightarrow> 'h codec_drv \<Rightarrow> bool" where
  "writes_ok regs sp d \<longleftrightarrow> (\<forall>r v h ret h'. r \<noteq> CS47L63_SFT_RESET \<longrightarrow> cs47l63_write_reg d r v h = (ret, h') \<longrightarrow>
     (if ret = 0 then \<exists>v'. regs h' = (regs h)(r := v') \<and> v' AND NOT (CS47L63_OUT_VU sp) = v AND NOT (CS47L63_OUT_VU sp)
      else regs h' = regs h))"

definition codec_drv_ok :: "('h \<Rightarrow> cs_reg \<Rightarrow> u32) \<Rightarrow> cs47l63_spec \<Rightarrow> 'h codec_drv \<Rightarrow> bool" where
  "codec_drv_ok regs sp d \<longleftrightarrow> reads_ok regs d \<and> writes_ok regs sp d \<and> (\<forall>t h. regs (cs47l63_wait d t h) = regs h)"

lemma codec_read:
  assumes "codec_drv_ok regs sp d" "cs47l63_read_reg d r h = (ret, v, h')"
  shows "regs h' = regs h" "ret = 0 \<Longrightarrow> v = regs h r"
proof -
  have "reads_ok regs d" using assms(1) by (simp add: codec_drv_ok_def)
  from this [unfolded reads_ok_def, rule_format, OF assms(2)]
  show "regs h' = regs h" "ret = 0 \<Longrightarrow> v = regs h r" by blast+
qed

lemma codec_write:
  assumes "codec_drv_ok regs sp d" "cs47l63_write_reg d r v h = (ret, h')" "r \<noteq> CS47L63_SFT_RESET"
  shows "if ret = 0 then \<exists>v'. regs h' = (regs h)(r := v') \<and> v' AND NOT (CS47L63_OUT_VU sp) = v AND NOT (CS47L63_OUT_VU sp)
    else regs h' = regs h"
proof -
  have "writes_ok regs sp d" using assms(1) by (simp add: codec_drv_ok_def)
  from this [unfolded writes_ok_def, THEN spec, THEN spec, THEN spec, THEN spec, THEN spec, THEN mp, OF assms(3), THEN mp, OF assms(2)]
  show ?thesis .
qed

text \<open>The fields of the volume register: the level in half decibels, the mute bit and the update bit.\<close>

definition volume_fields :: "cs47l63_spec \<Rightarrow> bool" where
  "volume_fields sp \<longleftrightarrow> CS47L63_OUT_VU sp = 0x200 \<and> CS47L63_OUT1L_MUTE_MASK sp = 0x100 \<and> CS47L63_OUT1L_VOL_MASK sp = 0xFF"

record mixer =
  mix_level :: nat
  mix_muted :: bool

definition mixer_of :: "u32 \<Rightarrow> mixer" where
  "mixer_of r = \<lparr>mix_level = unat (r AND 0xFF), mix_muted = r AND 0x100 \<noteq> 0\<rparr>"

definition mixer :: "('h \<Rightarrow> cs_reg \<Rightarrow> u32) \<Rightarrow> 'h hw_codec \<Rightarrow> mixer" where
  "mixer regs s = mixer_of (regs (codec_dev s) CS47L63_OUT1L_VOLUME_1)"

text \<open>What the events mean: a step is three decibels, and setting or stepping the volume ends a mute.\<close>

definition mix_event :: "volume_msg \<Rightarrow> mixer \<Rightarrow> mixer" where
  "mix_event msg m = (case vol_event msg of
       VOLUME_UP \<Rightarrow> \<lparr>mix_level = min 128 (mix_level m + 6), mix_muted = False\<rparr>
     | VOLUME_DOWN \<Rightarrow> \<lparr>mix_level = min 128 (mix_level m - 6), mix_muted = False\<rparr>
     | VOLUME_SET \<Rightarrow> \<lparr>mix_level = (unat (vol_volume msg) + 1) div 2, mix_muted = False\<rparr>
     | VOLUME_MUTE \<Rightarrow> m\<lparr>mix_muted := True\<rparr>
     | VOLUME_UNMUTE \<Rightarrow> m\<lparr>mix_muted := False\<rparr>)"

lemma vu_bit: "NOT (0x200 :: u32) AND 0xFF = 0xFF" "NOT (0x200 :: u32) AND 0x100 = 0x100"
  by simp_all

lemma mixer_of_mask:
  assumes "v AND NOT 0x200 = w AND NOT (0x200 :: u32)"
  shows "mixer_of v = mixer_of w"
proof -
  have "v AND 0xFF = (v AND NOT 0x200) AND 0xFF" "w AND 0xFF = (w AND NOT 0x200) AND 0xFF"
    "v AND 0x100 = (v AND NOT 0x200) AND 0x100" "w AND 0x100 = (w AND NOT 0x200) AND 0x100"
    by (simp_all only: and.assoc vu_bit)
  then show ?thesis using assms by (simp add: mixer_of_def)
qed

lemma mixer_of_vu [simp]: "mixer_of (v OR 0x200) = mixer_of v"
proof -
  have "(v OR m) AND NOT m = v AND NOT m" for m :: u32
    by (rule bit_eqI) (auto simp: bit_and_iff bit_or_iff bit_not_iff)
  then show ?thesis by (rule mixer_of_mask)
qed

lemma mixer_of_mute: "mixer_of (v OR 0x100) = (mixer_of v)\<lparr>mix_muted := True\<rparr>"
proof -
  have "(v OR 0x100) AND 0xFF = (v AND 0xFF) OR (0x100 AND (0xFF :: u32))" by (rule bit.conj_disj_distrib2)
  moreover have "(v OR 0x100) AND 0x100 = (0x100 :: u32)" by (simp add: bit.conj_disj_distrib2)
  ultimately show ?thesis by (simp add: mixer_of_def)
qed

lemma mixer_of_unmute: "mixer_of (v AND NOT 0x100) = (mixer_of v)\<lparr>mix_muted := False\<rparr>"
proof -
  have "NOT (0x100 :: u32) AND 0xFF = 0xFF" "NOT (0x100 :: u32) AND 0x100 = 0" by simp_all
  then have "(v AND NOT 0x100) AND 0xFF = v AND 0xFF" "(v AND NOT 0x100) AND 0x100 = 0"
    by (simp_all only: and.assoc and_zero_eq)
  then show ?thesis by (simp add: mixer_of_def)
qed

lemma mixer_of_level:
  assumes "n \<le> 128"
  shows "mixer_of (of_nat n) = \<lparr>mix_level = n, mix_muted = False\<rparr>"
proof -
  have "n AND 255 = n mod 256" using take_bit_eq_mask [of 8 n] by (simp add: take_bit_eq_mod mask_eq_exp_minus_1)
  then have low: "of_nat n AND (0xFF :: u32) = of_nat n" using assms of_nat_and_eq [of n 255, where ?'a = u32] by simp
  then have "of_nat n AND (0x100 :: u32) = of_nat n AND (0xFF AND 0x100)" by (metis and.assoc)
  then have "of_nat n AND (0x100 :: u32) = 0" by simp
  then show ?thesis using assms low by (simp add: mixer_of_def unat_of_nat)
qed

section \<open>The operations on the volume\<close>

text \<open>Nothing but the volume register has changed.\<close>

definition others_kept :: "('h \<Rightarrow> cs_reg \<Rightarrow> u32) \<Rightarrow> 'h hw_codec \<Rightarrow> 'h hw_codec \<Rightarrow> bool" where
  "others_kept regs s s' \<longleftrightarrow> (\<forall>r. r \<noteq> CS47L63_OUT1L_VOLUME_1 \<longrightarrow> regs (codec_dev s') r = regs (codec_dev s) r)"

lemma volume_written:
  assumes d: "codec_drv_ok regs sp d" "volume_fields sp"
    and w: "reg_write d CS47L63_OUT1L_VOLUME_1 (v OR CS47L63_OUT_VU sp) s = (ret, s')"
  shows "mixer regs s' = (if ret = 0 then mixer_of v else mixer regs s)" "others_kept regs s s'"
proof -
  obtain h where h: "cs47l63_write_reg d CS47L63_OUT1L_VOLUME_1 (v OR CS47L63_OUT_VU sp) (codec_dev s) = (ret, h)"
      "s' = s\<lparr>codec_dev := h\<rparr>"
    using w by (auto simp: reg_write_def split: prod.splits)
  have "if ret = 0 then \<exists>v'. regs h = (regs (codec_dev s))(CS47L63_OUT1L_VOLUME_1 := v') \<and>
      v' AND NOT (CS47L63_OUT_VU sp) = (v OR CS47L63_OUT_VU sp) AND NOT (CS47L63_OUT_VU sp)
    else regs h = regs (codec_dev s)"
    using codec_write [OF d(1) h(1)] by simp
  moreover have "mixer_of v' = mixer_of v"
    if "v' AND NOT (CS47L63_OUT_VU sp) = (v OR CS47L63_OUT_VU sp) AND NOT (CS47L63_OUT_VU sp)" for v'
    using mixer_of_mask [of v' "v OR 0x200"] that d(2) by (simp add: volume_fields_def)
  ultimately show "mixer regs s' = (if ret = 0 then mixer_of v else mixer regs s)" "others_kept regs s s'"
    using h(2) by (auto simp: mixer_def others_kept_def split: if_splits)
qed

lemma volume_read:
  assumes "codec_drv_ok regs sp d" "reg_read d CS47L63_OUT1L_VOLUME_1 s = (ret, v, s')"
  shows "regs (codec_dev s') = regs (codec_dev s)" "ret = 0 \<Longrightarrow> mixer_of v = mixer regs s"
proof -
  obtain h where h: "cs47l63_read_reg d CS47L63_OUT1L_VOLUME_1 (codec_dev s) = (ret, v, h)" "s' = s\<lparr>codec_dev := h\<rparr>"
    using assms(2) by (auto simp: reg_read_def split: prod.splits)
  show "regs (codec_dev s') = regs (codec_dev s)" "ret = 0 \<Longrightarrow> mixer_of v = mixer regs s"
    using codec_read [OF assms(1) h(1)] by (simp_all add: h(2) mixer_def)
qed

lemma volume_set_mixes:
  assumes d: "codec_drv_ok regs sp d" "volume_fields sp" and res: "hw_codec_volume_set sp d x s = (ret, s')"
  shows "mixer regs s' = (if ret = 0 then \<lparr>mix_level = min 128 (unat x), mix_muted = False\<rparr> else mixer regs s)"
    "others_kept regs s s'"
proof -
  let ?v = "if uint (ucast x :: u32) \<ge> MAX_VOLUME_REG_VAL then of_int MAX_VOLUME_REG_VAL else ucast x :: u32"
  have u: "uint (ucast x :: u32) = int (unat x)" by (simp add: uint_up_ucast is_up)
  have v: "?v = of_nat (min 128 (unat x))"
  proof -
    have "(MAX_VOLUME_REG_VAL \<le> int (unat x)) = (128 \<le> unat x)" by linarith
    then show ?thesis unfolding u by (simp only: min_def) simp
  qed
  obtain r s1 where w: "reg_write d CS47L63_OUT1L_VOLUME_1 (?v OR CS47L63_OUT_VU sp) s = (r, s1)"
    by (cases "reg_write d CS47L63_OUT1L_VOLUME_1 (?v OR CS47L63_OUT_VU sp) s")
  have s': "ret = r" "codec_dev s' = codec_dev s1"
    using res w by (auto simp: hw_codec_volume_set_def Let_def split: if_splits)
  have "mixer_of ?v = \<lparr>mix_level = min 128 (unat x), mix_muted = False\<rparr>"
    using mixer_of_level [of "min 128 (unat x)"] unfolding v by simp
  then show "mixer regs s' = (if ret = 0 then \<lparr>mix_level = min 128 (unat x), mix_muted = False\<rparr> else mixer regs s)"
    "others_kept regs s s'"
    using volume_written [OF d w] s' by (auto simp: mixer_def others_kept_def)
qed

text \<open>A step of the volume saturates at both ends.\<close>

lemma sint_sum:
  assumes "- (2 ^ 31) \<le> int n + k" "int n + k < 2 ^ 31"
  shows "sint (of_nat n + of_int k :: u32) = int n + k"
proof -
  have "(of_nat n + of_int k :: u32) = of_int (int n + k)" by simp
  then show ?thesis using assms by (simp only: signed_of_int) (simp add: signed_take_bit_int_eq_self)
qed

lemma volume_adjust_mixes:
  assumes d: "codec_drv_ok regs sp d" "volume_fields sp" and res: "hw_codec_volume_adjust sp d adj s = (ret, s')"
    and adj: "adj \<noteq> 0"
  shows "mixer regs s' = (if ret = 0
      then \<lparr>mix_level = nat (max 0 (min 128 (int (mix_level (mixer regs s)) + 2 * sint adj))), mix_muted = False\<rparr>
      else mixer regs s)"
    "others_kept regs s s'"
proof -
  obtain r v s1 where rd: "reg_read d CS47L63_OUT1L_VOLUME_1 s = (r, v, s1)"
    by (cases "reg_read d CS47L63_OUT1L_VOLUME_1 s")
  have same: "mixer regs s1 = mixer regs s" "\<And>s2. others_kept regs s1 s2 = others_kept regs s s2"
    using volume_read(1) [OF d(1) rd] by (simp_all add: mixer_def others_kept_def)
  let ?n = "unat (v AND 0xFF)"
  let ?new = "int ?n + 2 * sint adj"
  define sat where "sat = nat (max 0 (min 128 ?new))"
  have sat: "sat \<le> 128" by (simp add: sat_def)
  have n: "?n \<le> 255" using word_and_le1 [of v "0xFF"] by (simp add: word_le_nat_alt)
  have a: "- 128 \<le> sint adj" "sint adj < 128" using sint_greater_eq [of adj] sint_less [of adj] by simp_all
  have bd: "- (2 ^ 31) \<le> int ?n + 2 * sint adj" "int ?n + 2 * sint adj < 2 ^ 31"
  proof -
    have "int ?n \<le> 255" "0 \<le> int ?n" using n by linarith+
    then have "- 256 \<le> int ?n + 2 * sint adj" "int ?n + 2 * sint adj \<le> 509" using a by linarith+
    then have range: "- 2147483648 \<le> int ?n + 2 * sint adj" "int ?n + 2 * sint adj < 2147483648" by linarith+
    show "- (2 ^ 31) \<le> int ?n + 2 * sint adj" using range(1) by simp
    show "int ?n + 2 * sint adj < 2 ^ 31" using range(2) by simp
  qed
  have new: "sint ((v AND CS47L63_OUT1L_VOL_MASK sp) + of_int (sint adj * 2)) = ?new"
    using sint_sum [OF bd] d(2) by (simp add: volume_fields_def mult.commute)
  have x: "(of_int (if ?new \<le> 0 then 0 else if ?new \<ge> MAX_VOLUME_REG_VAL then MAX_VOLUME_REG_VAL else ?new) :: u8) = of_nat sat"
  proof -
    have "(if ?new \<le> 0 then 0 else if ?new \<ge> MAX_VOLUME_REG_VAL then MAX_VOLUME_REG_VAL else ?new) = int sat" by (auto simp: sat_def)
    then show ?thesis by (simp only: of_int_of_nat_eq)
  qed
  show "mixer regs s' = (if ret = 0
      then \<lparr>mix_level = nat (max 0 (min 128 (int (mix_level (mixer regs s)) + 2 * sint adj))), mix_muted = False\<rparr>
      else mixer regs s)" "others_kept regs s s'"
  proof (atomize (full), cases "r = 0")
    case False
    then have "ret = r" "s' = s1" using res rd adj by (simp_all add: hw_codec_volume_adjust_def)
    then show "mixer regs s' = (if ret = 0
        then \<lparr>mix_level = nat (max 0 (min 128 (int (mix_level (mixer regs s)) + 2 * sint adj))), mix_muted = False\<rparr>
        else mixer regs s) \<and> others_kept regs s s'"
      using False same(1) volume_read(1) [OF d(1) rd] by (simp add: others_kept_def)
  next
    case True
    have "hw_codec_volume_set sp d (of_nat sat) s1 = (ret, s')"
      using res rd adj True unfolding hw_codec_volume_adjust_def Let_def by (simp only: new x [symmetric] prod.case if_False if_True simp_thms)
    note set = volume_set_mixes [OF d this]
    have "unat (of_nat sat :: u8) = sat" using sat by (simp add: unat_of_nat)
    moreover have "mix_level (mixer regs s) = ?n" using volume_read(2) [OF d(1) rd True, symmetric] by (simp add: mixer_of_def)
    then have "nat (max 0 (min 128 (int (mix_level (mixer regs s)) + 2 * sint adj))) = sat" by (simp only: sat_def)
    ultimately show "mixer regs s' = (if ret = 0
        then \<lparr>mix_level = nat (max 0 (min 128 (int (mix_level (mixer regs s)) + 2 * sint adj))), mix_muted = False\<rparr>
        else mixer regs s) \<and> others_kept regs s s'"
      using set same sat by simp
  qed
qed

lemma mute_mixes:
  assumes d: "codec_drv_ok regs sp d" "volume_fields sp"
  shows "hw_codec_volume_mute sp d s = (ret, s') \<Longrightarrow>
      mixer regs s' = (if ret = 0 then (mixer regs s)\<lparr>mix_muted := True\<rparr> else mixer regs s)"
    and "hw_codec_volume_mute sp d s = (ret, s') \<Longrightarrow> others_kept regs s s'"
    and "hw_codec_volume_unmute sp d s = (ret, s') \<Longrightarrow>
      mixer regs s' = (if ret = 0 then (mixer regs s)\<lparr>mix_muted := False\<rparr> else mixer regs s)"
    and "hw_codec_volume_unmute sp d s = (ret, s') \<Longrightarrow> others_kept regs s s'"
proof -
  obtain r v s1 where rd: "reg_read d CS47L63_OUT1L_VOLUME_1 s = (r, v, s1)"
    by (cases "reg_read d CS47L63_OUT1L_VOLUME_1 s")
  note read = volume_read [OF d(1) rd]
  have same: "mixer regs s1 = mixer regs s" "\<And>s2. others_kept regs s1 s2 = others_kept regs s s2" "others_kept regs s s1"
    using read(1) by (simp_all add: mixer_def others_kept_def)
  have m: "CS47L63_OUT1L_MUTE_MASK sp = 0x100" using d(2) by (simp add: volume_fields_def)
  show "mixer regs s' = (if ret = 0 then (mixer regs s)\<lparr>mix_muted := True\<rparr> else mixer regs s)" "others_kept regs s s'"
    if mute: "hw_codec_volume_mute sp d s = (ret, s')"
    using mute rd same read(2) volume_written [OF d, of "v OR 0x100" s1 ret s']
    by (auto simp: hw_codec_volume_mute_def m mixer_of_mute or.assoc split: if_splits)
  show "mixer regs s' = (if ret = 0 then (mixer regs s)\<lparr>mix_muted := False\<rparr> else mixer regs s)" "others_kept regs s s'"
    if unmute: "hw_codec_volume_unmute sp d s = (ret, s')"
    using unmute rd same read(2) volume_written [OF d, of "v AND NOT 0x100" s1 ret s']
    by (auto simp: hw_codec_volume_unmute_def m mixer_of_unmute [simplified] split: if_splits)
qed

text \<open>
  The codec follows the volume events. Whatever the volume register holds, the thread's handling of an
  event has exactly the effect on the level and the mute bit that the event means, when it succeeds, and
  none when it fails: a step is three decibels and stops at the ends of the scale, a set volume is halved
  to the codec's scale, mute and unmute keep the level, and every other register keeps its value.
\<close>

lemma volume_event_refines:
  assumes "codec_drv_ok regs sp d" "volume_fields sp" "volume_event sp d msg s = (ret, s')"
  shows "mixer regs s' = (if ret = 0 then mix_event msg (mixer regs s) else mixer regs s) \<and> others_kept regs s s'"
proof (cases "vol_event msg")
  case VOLUME_UP
  then have "hw_codec_volume_adjust sp d 3 s = (ret, s')"
    using assms(3) by (simp add: volume_event_def hw_codec_volume_increase_def)
  moreover have "nat (max 0 (min 128 (int n + 2 * sint (3 :: 8 word)))) = min 128 (n + 6)" for n
    by (simp add: min_def max_def nat_eq_iff)
  ultimately show ?thesis using VOLUME_UP volume_adjust_mixes [OF assms(1,2), of 3 s ret s']
    by (simp only: mix_event_def) simp
next
  case VOLUME_DOWN
  then have "hw_codec_volume_adjust sp d (- 3) s = (ret, s')"
    using assms(3) by (simp add: volume_event_def hw_codec_volume_decrease_def)
  moreover have "nat (max 0 (min 128 (int n + 2 * sint (- 3 :: 8 word)))) = min 128 (n - 6)" for n
    by (simp add: min_def max_def nat_eq_iff) arith
  ultimately show ?thesis using VOLUME_DOWN volume_adjust_mixes [OF assms(1,2), of "- 3" s ret s']
    by (simp only: mix_event_def) simp
next
  case VOLUME_SET
  then have set: "hw_codec_volume_set sp d (ucast (zbus_vol_conversion (vol_volume msg))) s = (ret, s')"
    using assms(3) by (simp add: volume_event_def)
  have "unat (ucast (zbus_vol_conversion x) :: u8) = (unat x + 1) div 2" "unat x < 256" for x
  proof -
    show "unat x < 256" by (rule u8_less)
    note u8_less [of x]
    moreover have "unat (ucast x :: u16) = unat x"
      using u8_less [of x] by (simp add: unsigned_ucast_eq take_bit_nat_eq_self)
    ultimately have "unat (zbus_vol_conversion x) = (unat x + 1) div 2"
      by (simp add: zbus_vol_conversion_def unat_div unat_word_ariths)
    then show "unat (ucast (zbus_vol_conversion x) :: u8) = (unat x + 1) div 2"
      using u8_less [of x] by (simp add: unsigned_ucast_eq take_bit_nat_eq_self)
  qed
  note conv = this
  have "min 128 ((unat (vol_volume msg) + 1) div 2) = (unat (vol_volume msg) + 1) div 2"
    using u8_less [of "vol_volume msg"] by linarith
  then show ?thesis using VOLUME_SET volume_set_mixes [OF assms(1,2) set] conv(1) [of "vol_volume msg"]
    by (simp add: mix_event_def)
next
  case VOLUME_MUTE
  then have "hw_codec_volume_mute sp d s = (ret, s')" using assms(3) by (simp add: volume_event_def)
  then show ?thesis using VOLUME_MUTE mute_mixes(1,2) [OF assms(1,2)] by (simp add: mix_event_def)
next
  case VOLUME_UNMUTE
  then have "hw_codec_volume_unmute sp d s = (ret, s')" using assms(3) by (simp add: volume_event_def)
  then show ?thesis using VOLUME_UNMUTE mute_mixes(3,4) [OF assms(1,2)] by (simp add: mix_event_def)
qed

section \<open>A run of the thread, and a restart of the codec\<close>

text \<open>The thread's loop over the messages that it reads; an error ends the handling of one message only.\<close>

fun volume_msg_sub_thread :: "cs47l63_spec \<Rightarrow> 'h codec_drv \<Rightarrow> volume_msg list \<Rightarrow> 'h hw_codec \<Rightarrow> 'h hw_codec" where
  "volume_msg_sub_thread sp d [] s = s"
| "volume_msg_sub_thread sp d (msg # msgs) s = volume_msg_sub_thread sp d msgs (snd (volume_event sp d msg s))"

text \<open>The messages among them whose handling succeeds.\<close>

fun volume_handled :: "cs47l63_spec \<Rightarrow> 'h codec_drv \<Rightarrow> volume_msg list \<Rightarrow> 'h hw_codec \<Rightarrow> volume_msg list" where
  "volume_handled sp d [] s = []"
| "volume_handled sp d (msg # msgs) s = (case volume_event sp d msg s of (ret, s') \<Rightarrow>
     if ret = 0 then msg # volume_handled sp d msgs s' else volume_handled sp d msgs s')"

text \<open>The stored volume is the level of the register.\<close>

definition level_kept :: "('h \<Rightarrow> cs_reg \<Rightarrow> u32) \<Rightarrow> 'h hw_codec \<Rightarrow> bool" where
  "level_kept regs s \<longleftrightarrow> unat (prev_volume_reg_val s) = mix_level (mixer regs s) \<and> mix_level (mixer regs s) \<le> 128"

lemma reg_write_prev: "reg_write d r v s = (ret, s') \<Longrightarrow> prev_volume_reg_val s' = prev_volume_reg_val s"
  by (auto simp: reg_write_def split: prod.splits)

lemma reg_read_prev: "reg_read d r s = (ret, v, s') \<Longrightarrow> prev_volume_reg_val s' = prev_volume_reg_val s"
  by (auto simp: reg_read_def split: prod.splits)

lemma mute_prev:
  assumes "hw_codec_volume_mute sp d s = (ret, s')"
  shows "prev_volume_reg_val s' = prev_volume_reg_val s"
proof -
  obtain r v s1 where rd: "reg_read d CS47L63_OUT1L_VOLUME_1 s = (r, v, s1)"
    by (cases "reg_read d CS47L63_OUT1L_VOLUME_1 s")
  then show ?thesis using assms reg_read_prev [OF rd]
    by (auto simp: hw_codec_volume_mute_def dest: reg_write_prev split: if_splits)
qed

lemma unmute_prev:
  assumes "hw_codec_volume_unmute sp d s = (ret, s')"
  shows "prev_volume_reg_val s' = prev_volume_reg_val s"
proof -
  obtain r v s1 where rd: "reg_read d CS47L63_OUT1L_VOLUME_1 s = (r, v, s1)"
    by (cases "reg_read d CS47L63_OUT1L_VOLUME_1 s")
  then show ?thesis using assms reg_read_prev [OF rd]
    by (auto simp: hw_codec_volume_unmute_def dest: reg_write_prev split: if_splits)
qed

lemma volume_set_prev:
  assumes "hw_codec_volume_set sp d x s = (ret, s')"
  shows "unat (prev_volume_reg_val s') = (if ret = 0 then min 128 (unat x) else unat (prev_volume_reg_val s))"
proof -
  have "unat (ucast x :: u32) = unat x"
    using u8_less [of x] by (simp add: unsigned_ucast_eq take_bit_nat_eq_self)
  moreover have "uint (ucast x :: u32) = int (unat x)" by (simp add: uint_up_ucast is_up)
  ultimately have u: "uint (ucast x :: u32) = int (unat x)" "unat (ucast x :: u32) = unat x" by blast+
  have "(MAX_VOLUME_REG_VAL \<le> int (unat x)) = (128 \<le> unat x)" by linarith
  then show ?thesis
    using assms u(2)
    by (auto simp: hw_codec_volume_set_def u(1) Let_def min_def dest: reg_write_prev split: prod.splits if_splits)
qed

lemma volume_adjust_prev:
  assumes "hw_codec_volume_adjust sp d adj s = (ret, s')" "adj \<noteq> 0"
  shows "(ret = 0 \<longrightarrow> (\<exists>x s1. hw_codec_volume_set sp d x s1 = (0, s'))) \<and>
    (ret \<noteq> 0 \<longrightarrow> prev_volume_reg_val s' = prev_volume_reg_val s)"
proof -
  obtain r v s1 where rd: "reg_read d CS47L63_OUT1L_VOLUME_1 s = (r, v, s1)"
    by (cases "reg_read d CS47L63_OUT1L_VOLUME_1 s")
  show ?thesis
  proof (cases "r = 0")
    case False
    then show ?thesis using assms rd reg_read_prev [OF rd] by (simp add: hw_codec_volume_adjust_def)
  next
    case True
    then obtain x where x: "hw_codec_volume_set sp d x s1 = (ret, s')"
      using assms rd by (auto simp: hw_codec_volume_adjust_def Let_def)
    show ?thesis using x volume_set_prev [OF x] reg_read_prev [OF rd] by (auto simp: unsigned_word_eqI)
  qed
qed

lemma event_keeps_level:
  assumes d: "codec_drv_ok regs sp d" "volume_fields sp" and kept: "level_kept regs s"
    and ev: "volume_event sp d msg s = (ret, s')"
  shows "level_kept regs s'"
proof -
  have m: "mixer regs s' = (if ret = 0 then mix_event msg (mixer regs s) else mixer regs s)"
    using volume_event_refines [OF d ev] by simp
  have set: "level_kept regs s'" if "hw_codec_volume_set sp d x s1 = (0, s')" for x s1
    using volume_set_prev [OF that] volume_set_mixes(1) [OF d that] by (simp add: level_kept_def)
  have fail: "level_kept regs s'" if "ret \<noteq> 0" "unat (prev_volume_reg_val s') = unat (prev_volume_reg_val s)"
    using m that kept by (simp add: level_kept_def)
  show ?thesis
  proof (cases "vol_event msg")
    case VOLUME_UP
    then have "hw_codec_volume_adjust sp d 3 s = (ret, s')" using ev by (simp add: volume_event_def hw_codec_volume_increase_def)
    from volume_adjust_prev [OF this] show ?thesis using set fail by (cases "ret = 0") auto
  next
    case VOLUME_DOWN
    then have "hw_codec_volume_adjust sp d (- 3) s = (ret, s')" using ev by (simp add: volume_event_def hw_codec_volume_decrease_def)
    from volume_adjust_prev [OF this] show ?thesis using set fail by (cases "ret = 0") auto
  next
    case VOLUME_SET
    then have "hw_codec_volume_set sp d (ucast (zbus_vol_conversion (vol_volume msg))) s = (ret, s')"
      using ev by (simp add: volume_event_def)
    from volume_set_prev [OF this] this show ?thesis using set fail by (cases "ret = 0") auto
  next
    case VOLUME_MUTE
    then have "prev_volume_reg_val s' = prev_volume_reg_val s"
      using ev mute_prev by (simp add: volume_event_def)
    then show ?thesis using m VOLUME_MUTE kept by (simp add: level_kept_def mix_event_def)
  next
    case VOLUME_UNMUTE
    then have "prev_volume_reg_val s' = prev_volume_reg_val s"
      using ev unmute_prev by (simp add: volume_event_def)
    then show ?thesis using m VOLUME_UNMUTE kept by (simp add: level_kept_def mix_event_def)
  qed
qed

lemma thread_refines:
  assumes d: "codec_drv_ok regs sp d" "volume_fields sp" and kept: "level_kept regs s"
  shows "level_kept regs (volume_msg_sub_thread sp d msgs s)"
    and "mixer regs (volume_msg_sub_thread sp d msgs s) = fold mix_event (volume_handled sp d msgs s) (mixer regs s)"
proof -
  have "level_kept regs (volume_msg_sub_thread sp d msgs s) \<and>
      mixer regs (volume_msg_sub_thread sp d msgs s) = fold mix_event (volume_handled sp d msgs s) (mixer regs s)"
    using kept
  proof (induction msgs arbitrary: s)
    case (Cons msg msgs)
    obtain ret s' where ev: "volume_event sp d msg s = (ret, s')" by (cases "volume_event sp d msg s")
    show ?case
      using Cons.IH [OF event_keeps_level [OF d Cons.prems ev]] ev volume_event_refines [OF d ev]
      by (simp split: if_splits)
  qed simp
  then show "level_kept regs (volume_msg_sub_thread sp d msgs s)"
    "mixer regs (volume_msg_sub_thread sp d msgs s) = fold mix_event (volume_handled sp d msgs s) (mixer regs s)"
    by simp_all
qed

text \<open>The tables of the set-up do not touch the volume.\<close>

lemma conf_written:
  assumes d: "codec_drv_ok regs sp d" and w: "cs47l63_comm_reg_conf_write d cfg s = (ret, s')"
    and cfg: "CS47L63_OUT1L_VOLUME_1 \<notin> fst ` set cfg" "CS47L63_SFT_RESET \<notin> fst ` set cfg"
  shows "mixer regs s' = mixer regs s"
  using w cfg
proof (induction cfg arbitrary: s)
  case (Cons rv cfg)
  obtain reg val where rv: "rv = (reg, val)" by (cases rv)
  show ?case
  proof (cases "reg = SPI_BUSY_WAIT")
    case True
    have "regs (cs47l63_wait d val (codec_dev s)) = regs (codec_dev s)" using d by (simp add: codec_drv_ok_def)
    then show ?thesis using Cons True rv by (auto simp: mixer_def)
  next
    case False
    obtain r h where h: "cs47l63_write_reg d reg val (codec_dev s) = (r, h)"
      by (cases "cs47l63_write_reg d reg val (codec_dev s)")
    have "reg \<noteq> CS47L63_SFT_RESET" "reg \<noteq> CS47L63_OUT1L_VOLUME_1" using Cons.prems rv by auto
    then have "mixer regs (s\<lparr>codec_dev := h\<rparr>) = mixer regs s"
      using codec_write [OF d h] by (auto simp: mixer_def split: if_splits)
    then show ?thesis using Cons False rv h by (auto simp: reg_write_def split: if_splits)
  qed
qed simp

lemma conf_write_prev:
  "cs47l63_comm_reg_conf_write d cfg s = (ret, s') \<Longrightarrow> prev_volume_reg_val s' = prev_volume_reg_val s"
proof (induction cfg arbitrary: s)
  case (Cons rv cfg)
  obtain reg val where rv: "rv = (reg, val)" by (cases rv)
  obtain r s1 where w: "reg_write d reg val s = (r, s1)" by (cases "reg_write d reg val s")
  then show ?case using Cons rv reg_write_prev [OF w] by (fastforce split: if_splits)
qed simp

lemma tables_spare_volume:
  "CS47L63_OUT1L_VOLUME_1 \<notin> fst ` set line_in_enable" "CS47L63_SFT_RESET \<notin> fst ` set line_in_enable"
  "CS47L63_OUT1L_VOLUME_1 \<notin> fst ` set pdm_mic_enable_configure" "CS47L63_SFT_RESET \<notin> fst ` set pdm_mic_enable_configure"
  "CS47L63_OUT1L_VOLUME_1 \<notin> fst ` set FLL_toggle" "CS47L63_SFT_RESET \<notin> fst ` set FLL_toggle"
  by (simp_all add: line_in_enable_def pdm_mic_enable_configure_def FLL_toggle_def)

lemma default_conf_level:
  assumes d: "codec_drv_ok regs sp d" "volume_fields sp" and prev: "unat (prev_volume_reg_val s) \<le> 128"
    and conf: "hw_codec_default_conf_enable b sp d s = (0, s')"
  shows "mixer regs s' = \<lparr>mix_level = unat (prev_volume_reg_val s), mix_muted = False\<rparr>" "level_kept regs s'"
proof -
  obtain s1 where c1: "cs47l63_comm_reg_conf_write d clock_configuration s = (0, s1)"
    using conf by (auto simp: hw_codec_default_conf_enable_def Let_def split: prod.splits if_splits)
  obtain s2 where c2: "cs47l63_comm_reg_conf_write d GPIO_configuration s1 = (0, s2)"
    using conf c1 by (auto simp: hw_codec_default_conf_enable_def Let_def split: prod.splits if_splits)
  obtain s3 where c3: "cs47l63_comm_reg_conf_write d (asp1_enable (CODEC_SAMPLE_RATE b)) s2 = (0, s3)"
    using conf c1 c2 by (auto simp: hw_codec_default_conf_enable_def Let_def split: prod.splits if_splits)
  obtain s4 where c4: "cs47l63_comm_reg_conf_write d output_enable s3 = (0, s4)"
    using conf c1 c2 c3 by (auto simp: hw_codec_default_conf_enable_def Let_def split: prod.splits if_splits)
  obtain s5 where c5: "hw_codec_volume_set sp d (ucast (prev_volume_reg_val s4)) s4 = (0, s5)"
    using conf c1 c2 c3 c4
    by (auto simp: hw_codec_default_conf_enable_def hw_codec_volume_adjust_def Let_def split: prod.splits if_splits)
  let ?line = "if CODEC_WALKIE_TALKIE b then pdm_mic_enable_configure else line_in_enable"
  obtain s6 where c6: "(if CODEC_GATEWAY b \<and> CODEC_SOURCE_I2S b then cs47l63_comm_reg_conf_write d ?line s5 else (0, s5)) = (0, s6)"
    using conf c1 c2 c3 c4 c5
    by (auto simp: hw_codec_default_conf_enable_def hw_codec_volume_adjust_def Let_def split: prod.splits if_splits)
  obtain s7 where c7: "(if \<not> CODEC_GATEWAY b \<and> CODEC_BIDIRECTIONAL b
      then cs47l63_comm_reg_conf_write d pdm_mic_enable_configure s6 else (0, s6)) = (0, s7)"
    using conf c1 c2 c3 c4 c5 c6
    by (auto simp: hw_codec_default_conf_enable_def hw_codec_volume_adjust_def Let_def split: prod.splits if_splits)
  have c8: "cs47l63_comm_reg_conf_write d FLL_toggle s7 = (0, s')"
    using conf c1 c2 c3 c4 c5 c6 c7
    by (auto simp: hw_codec_default_conf_enable_def hw_codec_volume_adjust_def Let_def split: prod.splits if_splits)
  have p4: "prev_volume_reg_val s4 = prev_volume_reg_val s"
    using conf_write_prev [OF c1] conf_write_prev [OF c2] conf_write_prev [OF c3] conf_write_prev [OF c4] by simp
  have x: "min 128 (unat (ucast (prev_volume_reg_val s4) :: u8)) = unat (prev_volume_reg_val s)"
    using prev by (simp add: p4 unsigned_ucast_eq take_bit_nat_eq_self)
  have m5: "mixer regs s5 = \<lparr>mix_level = unat (prev_volume_reg_val s), mix_muted = False\<rparr>"
    using volume_set_mixes(1) [OF d c5] x by simp
  have p5: "unat (prev_volume_reg_val s5) = unat (prev_volume_reg_val s)" using volume_set_prev [OF c5] x by simp
  have s6: "mixer regs s6 = mixer regs s5 \<and> prev_volume_reg_val s6 = prev_volume_reg_val s5"
    using c6 conf_written [OF d(1)] conf_write_prev tables_spare_volume by (fastforce split: if_splits)
  have s7: "mixer regs s7 = mixer regs s6 \<and> prev_volume_reg_val s7 = prev_volume_reg_val s6"
    using c7 conf_written [OF d(1)] conf_write_prev tables_spare_volume by (fastforce split: if_splits)
  have s8: "mixer regs s' = mixer regs s7 \<and> prev_volume_reg_val s' = prev_volume_reg_val s7"
    using conf_written [OF d(1) c8 tables_spare_volume(5,6)] conf_write_prev [OF c8] by simp
  show "mixer regs s' = \<lparr>mix_level = unat (prev_volume_reg_val s), mix_muted = False\<rparr>" "level_kept regs s'"
    using m5 p5 s6 s7 s8 prev by (simp_all add: level_kept_def)
qed

lemma soft_reset_prev:
  "hw_codec_soft_reset d s = (ret, s') \<Longrightarrow> prev_volume_reg_val s' = prev_volume_reg_val s"
  by (auto simp: hw_codec_soft_reset_def dest!: conf_write_prev split: prod.splits if_splits)

text \<open>C23: The volume survives a restart of the codec, a mute does not. From a set-up codec, whatever volume
  messages the thread reads, the level and the mute bit are what the messages handled without an error
  mean, one after the other, and the level never exceeds the 128 half decibels of full scale; when the
  codec is then reset and set up again, without an error, it plays at the level it had, and unmuted.
\<close>

theorem volume_survives_restart:
  assumes "codec_drv_ok regs sp d" "volume_fields sp" "level_kept regs s"
    and "volume_msg_sub_thread sp d msgs s = s1"
    and "hw_codec_soft_reset d s1 = (0, s2)" "hw_codec_default_conf_enable b sp d s2 = (0, s3)"
  shows "mixer regs s1 = fold mix_event (volume_handled sp d msgs s) (mixer regs s) \<and> mix_level (mixer regs s1) \<le> 128 \<and>
    mixer regs s3 = (mixer regs s1)\<lparr>mix_muted := False\<rparr> \<and> level_kept regs s3"
proof -
  have k: "level_kept regs s1" "mixer regs s1 = fold mix_event (volume_handled sp d msgs s) (mixer regs s)"
    using thread_refines [OF assms(1-3), of msgs] assms(4) by simp_all
  have "prev_volume_reg_val s2 = prev_volume_reg_val s1" using soft_reset_prev [OF assms(5)] .
  then have "unat (prev_volume_reg_val s2) = mix_level (mixer regs s1)" "mix_level (mixer regs s1) \<le> 128"
    using k(1) by (simp_all add: level_kept_def)
  then show ?thesis using default_conf_level [OF assms(1,2) _ assms(6)] k(2) by simp
qed

section \<open>An instance\<close>

definition demo_codec :: "(cs_reg \<Rightarrow> u32) codec_drv" where
  "demo_codec = \<lparr>cs47l63_read_reg = \<lambda>r h. (0, h r, h), cs47l63_write_reg = \<lambda>r v h. (0, h(r := v)),
     cs47l63_wait = \<lambda>t h. h, cs47l63_comm_init = \<lambda>h. (0, h)\<rparr>"

definition demo_fields :: cs47l63_spec where
  "demo_fields = \<lparr>CS47L63_OUT_VU = 0x200, CS47L63_OUT1L_VOL_MASK = 0xFF, CS47L63_OUT1L_MUTE_MASK = 0x100\<rparr>"

definition demo_build :: codec_build where
  "demo_build = \<lparr>CODEC_GATEWAY = False, CODEC_SOURCE_I2S = False, CODEC_SOURCE_USB = False,
     CODEC_WALKIE_TALKIE = False, CODEC_BIDIRECTIONAL = False, CODEC_SAMPLE_RATE = 48000\<rparr>"

lemma demo_codec_ok: "codec_drv_ok (\<lambda>h. h) demo_fields demo_codec" "volume_fields demo_fields"
  by (auto simp: codec_drv_ok_def reads_ok_def writes_ok_def demo_codec_def demo_fields_def volume_fields_def)

lemma demo_write [simp]: "fst (cs47l63_comm_reg_conf_write demo_codec cfg s) = 0"
proof (induction cfg arbitrary: s)
  case (Cons rv cfg)
  then show ?case by (cases rv) (simp add: reg_write_def demo_codec_def)
qed simp

lemma demo_set [simp]: "fst (hw_codec_volume_adjust demo_fields demo_codec 0 s) = 0"
  by (simp add: hw_codec_volume_adjust_def hw_codec_volume_set_def reg_write_def demo_codec_def Let_def)

lemma demo_restart:
  "fst (hw_codec_soft_reset demo_codec s) = 0"
  "fst (hw_codec_default_conf_enable demo_build demo_fields demo_codec s) = 0"
  by (simp_all add: hw_codec_soft_reset_def hw_codec_default_conf_enable_def demo_build_def case_prod_beta Let_def)

definition demo_messages :: "volume_msg list" where
  "demo_messages = [\<lparr>vol_event = VOLUME_SET, vol_volume = 99\<rparr>, \<lparr>vol_event = VOLUME_MUTE, vol_volume = 0\<rparr>]"

definition demo_on :: "(cs_reg \<Rightarrow> u32) hw_codec" where
  "demo_on = hw_codec_boot ((\<lambda>r. 0)(CS47L63_OUT1L_VOLUME_1 := 0x62))"

lemma demo_on_level: "level_kept (\<lambda>h. h) demo_on"
  by (simp add: level_kept_def demo_on_def hw_codec_boot_def mixer_def mixer_of_def)

lemma demo_handled: "volume_handled demo_fields demo_codec demo_messages demo_on = demo_messages"
  by (simp add: demo_messages_def volume_event_def hw_codec_volume_set_def hw_codec_volume_mute_def reg_write_def
      reg_read_def demo_codec_def Let_def)

text \<open>The volume is set and the codec muted; after the restart it plays at that volume.\<close>

theorem volume_survives_restart_witness:
  "mixer (\<lambda>h. h) (snd (hw_codec_default_conf_enable demo_build demo_fields demo_codec
     (snd (hw_codec_soft_reset demo_codec (volume_msg_sub_thread demo_fields demo_codec demo_messages demo_on))))) =
   \<lparr>mix_level = 50, mix_muted = False\<rparr>"
proof -
  have "fold mix_event demo_messages (mixer (\<lambda>h. h) demo_on) = \<lparr>mix_level = 50, mix_muted = True\<rparr>"
    by (simp add: demo_messages_def mix_event_def)
  moreover have pair: "fst p = 0 \<Longrightarrow> p = (0, snd p)" for p :: "int \<times> (cs_reg \<Rightarrow> u32) hw_codec"
    by (cases p) simp
  ultimately show ?thesis
    using volume_survives_restart [OF demo_codec_ok demo_on_level refl pair [OF demo_restart(1)] pair [OF demo_restart(2)],
        of demo_messages]
    by (simp add: demo_handled)
qed

end
