(* ===== verification/VolumeControl.thy ===== *)
theory VolumeControl
  imports HwCodec
begin

text \<open>
  Volume control over Bluetooth (\<open>bt_rendering_and_capture.c\<close>, \<open>volume/bt_vol_ctlr.c\<close> and
  \<open>volume/bt_vol_rend.c\<close> under \<open>src/bluetooth/bt_rendering_and_capture\<close>). A request goes to the local
  renderer of the volume control service, or to every peer that a controller has discovered, or, where
  neither is built, to the channel of the hardware codec; what a remote controller asks of the renderer
  goes to that channel too.

  The service of the host is the parameter \<open>vcp_host\<close>. A peer is a number; an entry of the table
  without a peer is \<open>None\<close>.
\<close>

section \<open>State\<close>

abbreviation (input) ENOTCONN :: int where "ENOTCONN \<equiv> 128"

datatype vcp_request = Vcp_set u8 | Vcp_up | Vcp_down | Vcp_mute | Vcp_unmute

text \<open>\<open>v_conn\<close> is \<open>bt_vcp_vol_ctlr_conn_get\<close>: its result and the connection of the peer.\<close>

record 'b vcp_host =
  v_rend :: "vcp_request \<Rightarrow> 'b \<Rightarrow> int \<times> 'b"
  v_ctlr :: "nat \<Rightarrow> vcp_request \<Rightarrow> 'b \<Rightarrow> int \<times> 'b"
  v_conn :: "nat option \<Rightarrow> 'b \<Rightarrow> int \<times> nat"
  v_discover :: "nat \<Rightarrow> 'b \<Rightarrow> int \<times> nat option \<times> 'b"
  v_rend_register :: "'b \<Rightarrow> int \<times> 'b"
  v_ctlr_register :: "'b \<Rightarrow> int \<times> 'b"

record vol_config =
  CFG_VOL_REND :: bool
  CFG_VOL_CTLR :: bool
  CFG_VOL_SUB_QUEUE :: nat
  BT_UUID_VCS_VAL :: u16

text \<open>\<open>vol_observed\<close> says whether the codec's subscriber has been added to the channel; \<open>vol_pending\<close> counts its notifications.\<close>

record 'b volume_state =
  vcs_client_peer :: "nat option list"
  volume_chan :: "volume_msg option"
  vol_observed :: bool
  vol_pending :: nat
  vcp :: 'b

definition volume_boot :: "nat \<Rightarrow> 'b \<Rightarrow> 'b volume_state" where
  "volume_boot max_conn h =
     \<lparr>vcs_client_peer = replicate max_conn None, volume_chan = None, vol_observed = False, vol_pending = 0, vcp = h\<rparr>"

definition vcp_call :: "('b \<Rightarrow> int \<times> 'b) \<Rightarrow> 'b volume_state \<Rightarrow> int \<times> 'b volume_state" where
  "vcp_call f s = (case f (vcp s) of (ret, h) \<Rightarrow> (ret, s\<lparr>vcp := h\<rparr>))"

text \<open>\<open>zbus_chan_pub\<close>: the message replaces the one before, and a subscriber is notified if its queue has room.\<close>

definition volume_chan_pub :: "vol_config \<Rightarrow> volume_msg \<Rightarrow> 'b volume_state \<Rightarrow> int \<times> 'b volume_state" where
  "volume_chan_pub c m s =
     (let s = s\<lparr>volume_chan := Some m\<rparr> in
      if \<not> vol_observed s then (0, s)
      else if CFG_VOL_SUB_QUEUE c \<le> vol_pending s then (- ENOMSG, s)
      else (0, s\<lparr>vol_pending := vol_pending s + 1\<rparr>))"

section \<open>The controller\<close>

fun peer_index_free :: "nat option list \<Rightarrow> nat \<Rightarrow> int" where
  "peer_index_free [] i = - ENOMEM"
| "peer_index_free (p # ps) i = (if p = None then int i else peer_index_free ps (i + 1))"

definition vcs_client_peer_index_free_get :: "'b volume_state \<Rightarrow> int" where
  "vcs_client_peer_index_free_get s = peer_index_free (vcs_client_peer s) 0"

text \<open>The search through the table: it ends at a peer that is no longer connected, whose entry it frees.\<close>

fun peer_exists_from :: "'b vcp_host \<Rightarrow> 'b \<Rightarrow> nat \<Rightarrow> nat option list \<Rightarrow> bool \<times> nat option list" where
  "peer_exists_from v h conn [] = (False, [])"
| "peer_exists_from v h conn (p # ps) =
     (case v_conn v p h of (ret, result_conn) \<Rightarrow>
        if ret = 0 \<and> conn = result_conn then (True, p # ps)
        else if ret = - ENOTCONN then (False, None # ps)
        else case peer_exists_from v h conn ps of (found, ps) \<Rightarrow> (found, p # ps))"

definition vcs_client_peer_exists :: "'b vcp_host \<Rightarrow> nat \<Rightarrow> 'b volume_state \<Rightarrow> bool \<times> 'b volume_state" where
  "vcs_client_peer_exists v conn s =
     (case peer_exists_from v (vcp s) conn (vcs_client_peer s) of (found, ps) \<Rightarrow> (found, s\<lparr>vcs_client_peer := ps\<rparr>))"

text \<open>A request to every peer of the table but \<open>skip\<close>; errors are logged.\<close>

fun peers_request :: "'b vcp_host \<Rightarrow> nat option \<Rightarrow> vcp_request \<Rightarrow> nat option list \<Rightarrow> 'b volume_state \<Rightarrow> 'b volume_state" where
  "peers_request v skip r [] s = s"
| "peers_request v skip r (p # ps) s =
     (case p of
        None \<Rightarrow> peers_request v skip r ps s
      | Some k \<Rightarrow> if p = skip then peers_request v skip r ps s
                  else peers_request v skip r ps (snd (vcp_call (v_ctlr v k r) s)))"

definition vcs_state_ctlr_cb_handler :: "'b vcp_host \<Rightarrow> nat \<Rightarrow> int \<Rightarrow> u8 \<Rightarrow> 'b volume_state \<Rightarrow> 'b volume_state" where
  "vcs_state_ctlr_cb_handler v vcs err volume s =
     (if err \<noteq> 0 then s else peers_request v (Some vcs) (Vcp_set volume) (vcs_client_peer s) s)"

definition bt_vol_ctlr_set :: "'b vcp_host \<Rightarrow> u8 \<Rightarrow> 'b volume_state \<Rightarrow> int \<times> 'b volume_state" where
  "bt_vol_ctlr_set v volume s = (0, peers_request v None (Vcp_set volume) (vcs_client_peer s) s)"

definition bt_vol_ctlr_up :: "'b vcp_host \<Rightarrow> 'b volume_state \<Rightarrow> int \<times> 'b volume_state" where
  "bt_vol_ctlr_up v s = (0, peers_request v None Vcp_up (vcs_client_peer s) s)"

definition bt_vol_ctlr_down :: "'b vcp_host \<Rightarrow> 'b volume_state \<Rightarrow> int \<times> 'b volume_state" where
  "bt_vol_ctlr_down v s = (0, peers_request v None Vcp_down (vcs_client_peer s) s)"

definition bt_vol_ctlr_mute :: "'b vcp_host \<Rightarrow> 'b volume_state \<Rightarrow> int \<times> 'b volume_state" where
  "bt_vol_ctlr_mute v s = (0, peers_request v None Vcp_mute (vcs_client_peer s) s)"

definition bt_vol_ctlr_unmute :: "'b vcp_host \<Rightarrow> 'b volume_state \<Rightarrow> int \<times> 'b volume_state" where
  "bt_vol_ctlr_unmute v s = (0, peers_request v None Vcp_unmute (vcs_client_peer s) s)"

text \<open>Discovery writes the peer into the entry, if the host gives one.\<close>

definition bt_vol_ctlr_discover :: "'b vcp_host \<Rightarrow> nat \<Rightarrow> 'b volume_state \<Rightarrow> int \<times> 'b volume_state" where
  "bt_vol_ctlr_discover v conn s =
     (let (found, s) = vcs_client_peer_exists v conn s in
      if found then (- EAGAIN, s)
      else let index = vcs_client_peer_index_free_get s in
        if index < 0 then (index, s)
        else let (ret, p, h) = v_discover v conn (vcp s); s = s\<lparr>vcp := h\<rparr> in
          (ret, case p of None \<Rightarrow> s | Some k \<Rightarrow> s\<lparr>vcs_client_peer := (vcs_client_peer s)[nat index := Some k]\<rparr>))"

definition bt_vol_ctlr_init :: "'b vcp_host \<Rightarrow> 'b volume_state \<Rightarrow> int \<times> 'b volume_state" where
  "bt_vol_ctlr_init v s = vcp_call (v_ctlr_register v) s"

section \<open>The renderer\<close>

definition bt_vol_rend_set :: "'b vcp_host \<Rightarrow> u8 \<Rightarrow> 'b volume_state \<Rightarrow> int \<times> 'b volume_state" where
  "bt_vol_rend_set v volume s = vcp_call (v_rend v (Vcp_set volume)) s"

definition bt_vol_rend_up :: "'b vcp_host \<Rightarrow> 'b volume_state \<Rightarrow> int \<times> 'b volume_state" where
  "bt_vol_rend_up v s = vcp_call (v_rend v Vcp_up) s"

definition bt_vol_rend_down :: "'b vcp_host \<Rightarrow> 'b volume_state \<Rightarrow> int \<times> 'b volume_state" where
  "bt_vol_rend_down v s = vcp_call (v_rend v Vcp_down) s"

definition bt_vol_rend_mute :: "'b vcp_host \<Rightarrow> 'b volume_state \<Rightarrow> int \<times> 'b volume_state" where
  "bt_vol_rend_mute v s = vcp_call (v_rend v Vcp_mute) s"

definition bt_vol_rend_unmute :: "'b vcp_host \<Rightarrow> 'b volume_state \<Rightarrow> int \<times> 'b volume_state" where
  "bt_vol_rend_unmute v s = vcp_call (v_rend v Vcp_unmute) s"

definition bt_vol_rend_init :: "'b vcp_host \<Rightarrow> 'b volume_state \<Rightarrow> int \<times> 'b volume_state" where
  "bt_vol_rend_init v s = vcp_call (v_rend_register v) s"

section \<open>Rendering and capture\<close>

definition bt_r_and_c_volume_up :: "vol_config \<Rightarrow> 'b vcp_host \<Rightarrow> 'b volume_state \<Rightarrow> int \<times> 'b volume_state" where
  "bt_r_and_c_volume_up c v s =
     (if CFG_VOL_REND c then bt_vol_rend_up v s
      else if CFG_VOL_CTLR c then bt_vol_ctlr_up v s
      else volume_chan_pub c \<lparr>vol_event = VOLUME_UP, vol_volume = 0\<rparr> s)"

definition bt_r_and_c_volume_down :: "vol_config \<Rightarrow> 'b vcp_host \<Rightarrow> 'b volume_state \<Rightarrow> int \<times> 'b volume_state" where
  "bt_r_and_c_volume_down c v s =
     (if CFG_VOL_REND c then bt_vol_rend_down v s
      else if CFG_VOL_CTLR c then bt_vol_ctlr_down v s
      else volume_chan_pub c \<lparr>vol_event = VOLUME_DOWN, vol_volume = 0\<rparr> s)"

definition bt_r_and_c_volume_set ::
  "vol_config \<Rightarrow> 'b vcp_host \<Rightarrow> u8 \<Rightarrow> bool \<Rightarrow> 'b volume_state \<Rightarrow> int \<times> 'b volume_state" where
  "bt_r_and_c_volume_set c v volume from_vcp s =
     (if CFG_VOL_REND c \<and> \<not> from_vcp then bt_vol_rend_set v volume s
      else if CFG_VOL_CTLR c \<and> \<not> from_vcp then bt_vol_ctlr_set v volume s
      else volume_chan_pub c \<lparr>vol_event = VOLUME_SET, vol_volume = volume\<rparr> s)"

definition bt_r_and_c_volume_mute :: "vol_config \<Rightarrow> 'b vcp_host \<Rightarrow> bool \<Rightarrow> 'b volume_state \<Rightarrow> int \<times> 'b volume_state" where
  "bt_r_and_c_volume_mute c v from_vcp s =
     (if CFG_VOL_REND c \<and> \<not> from_vcp then bt_vol_rend_mute v s
      else if CFG_VOL_CTLR c \<and> \<not> from_vcp then bt_vol_ctlr_mute v s
      else volume_chan_pub c \<lparr>vol_event = VOLUME_MUTE, vol_volume = 0\<rparr> s)"

definition bt_r_and_c_volume_unmute :: "vol_config \<Rightarrow> 'b vcp_host \<Rightarrow> 'b volume_state \<Rightarrow> int \<times> 'b volume_state" where
  "bt_r_and_c_volume_unmute c v s =
     (if CFG_VOL_REND c then bt_vol_rend_unmute v s
      else if CFG_VOL_CTLR c then bt_vol_ctlr_unmute v s
      else volume_chan_pub c \<lparr>vol_event = VOLUME_UNMUTE, vol_volume = 0\<rparr> s)"

definition bt_r_and_c_discover :: "vol_config \<Rightarrow> 'b vcp_host \<Rightarrow> nat \<Rightarrow> 'b volume_state \<Rightarrow> int \<times> 'b volume_state" where
  "bt_r_and_c_discover c v conn s = (if CFG_VOL_CTLR c then bt_vol_ctlr_discover v conn s else (- ENOTSUP, s))"

text \<open>The identifier of the service is added to a buffer with the given room.\<close>

definition bt_r_and_c_uuid_populate :: "vol_config \<Rightarrow> nat \<Rightarrow> u8 list \<Rightarrow> int \<times> u8 list" where
  "bt_r_and_c_uuid_populate c tailroom buf =
     (if \<not> CFG_VOL_REND c then (- ENOTSUP, buf)
      else if 2 \<le> tailroom then (0, buf @ [ucast (BT_UUID_VCS_VAL c), ucast (drop_bit 8 (BT_UUID_VCS_VAL c))]) else (- ENOMEM, buf))"

definition bt_r_and_c_init :: "vol_config \<Rightarrow> 'b vcp_host \<Rightarrow> 'b volume_state \<Rightarrow> int \<times> 'b volume_state" where
  "bt_r_and_c_init c v s =
     (let (ret, s) = (if CFG_VOL_REND c then bt_vol_rend_init v s else (0, s)) in
      if ret \<noteq> 0 then (ret, s)
      else if CFG_VOL_CTLR c then bt_vol_ctlr_init v s else (0, s))"

text \<open>What a remote controller has set: the volume, and a mute, are passed to the codec.\<close>

definition vcs_state_rend_cb_handler ::
  "vol_config \<Rightarrow> 'b vcp_host \<Rightarrow> int \<Rightarrow> u8 \<Rightarrow> u8 \<Rightarrow> 'b volume_state \<Rightarrow> 'b volume_state" where
  "vcs_state_rend_cb_handler c v err volume mute s =
     (if err \<noteq> 0 then s
      else let (ret, s) = bt_r_and_c_volume_set c v volume True s in
        if mute \<noteq> 0 then snd (bt_r_and_c_volume_mute c v True s) else s)"

text \<open>The codec's thread takes a notification and reads the message that is then in the channel.\<close>

definition volume_chan_read :: "'b volume_state \<Rightarrow> volume_msg option \<times> 'b volume_state" where
  "volume_chan_read s = (if vol_pending s = 0 then (None, s) else (volume_chan s, s\<lparr>vol_pending := vol_pending s - 1\<rparr>))"

section \<open>What the operations do\<close>

text \<open>The peers that a request goes to, in the order of the table.\<close>

definition peers_but :: "nat option \<Rightarrow> nat option list \<Rightarrow> nat list" where
  "peers_but skip ps = map the (filter (\<lambda>p. p \<noteq> None \<and> p \<noteq> skip) ps)"

lemma request_reaches_peers:
  "peers_request v skip r ps s = fold (\<lambda>k s. snd (vcp_call (v_ctlr v k r) s)) (peers_but skip ps) s"
  by (induction v skip r ps s rule: peers_request.induct) (auto simp: peers_but_def split: option.splits)

text \<open>The table keeps its size, and a peer that is found is in it.\<close>

lemma peer_exists_length: "length (snd (peer_exists_from v h conn ps)) = length ps"
  by (induction ps) (auto split: prod.splits)

lemma peer_exists_sound:
  "fst (peer_exists_from v h conn ps) \<Longrightarrow> \<exists>p\<in>set ps. v_conn v p h = (0, conn)"
  by (induction ps) (auto split: prod.splits if_splits)

lemma peer_exists_complete:
  assumes "\<forall>p\<in>set ps. fst (v_conn v p h) \<noteq> - ENOTCONN" "p \<in> set ps" "v_conn v p h = (0, conn)"
  shows "fst (peer_exists_from v h conn ps)"
  using assms by (induction ps) (auto split: prod.splits)

text \<open>
  A peer that is no longer connected hides the peers behind it: the search frees its entry and ends, so a
  connection whose peer comes later in the table is taken for a new one.
\<close>

lemma lost_peer_hides_others:
  assumes "v_conn v p h = (- ENOTCONN, k)"
  shows "peer_exists_from v h conn (p # ps) = (False, None # ps)"
  using assms by simp

text \<open>
  A volume and a mute that a remote controller sets together: both notifications are there before the
  thread runs, and it reads the mute twice; the volume is lost.
\<close>

lemma mute_replaces_volume:
  assumes "vol_observed s" "vol_pending s = 0" "2 \<le> CFG_VOL_SUB_QUEUE c" "mute \<noteq> 0"
  shows "\<exists>s1 s2. volume_chan_read (vcs_state_rend_cb_handler c v 0 volume mute s) =
      (Some \<lparr>vol_event = VOLUME_MUTE, vol_volume = 0\<rparr>, s1) \<and>
    volume_chan_read s1 = (Some \<lparr>vol_event = VOLUME_MUTE, vol_volume = 0\<rparr>, s2) \<and> vol_pending s2 = 0"
  using assms by (simp add: vcs_state_rend_cb_handler_def bt_r_and_c_volume_set_def bt_r_and_c_volume_mute_def
      volume_chan_pub_def volume_chan_read_def Let_def)

text \<open>When the thread runs between the two, it reads both.\<close>

lemma volume_then_mute:
  assumes "vol_observed s" "vol_pending s = 0" "1 \<le> CFG_VOL_SUB_QUEUE c"
  shows "\<exists>s1. volume_chan_read (snd (bt_r_and_c_volume_set c v volume True s)) =
      (Some \<lparr>vol_event = VOLUME_SET, vol_volume = volume\<rparr>, s1) \<and> vol_pending s1 = 0 \<and> vol_observed s1"
  using assms by (simp add: bt_r_and_c_volume_set_def volume_chan_pub_def volume_chan_read_def Let_def)

end
