(* ===== verification/BtScan.thy ===== *)
theory BtScan
  imports BtMgmt
begin

text \<open>
  Scanning (\<open>bt_mgmt_scan.c\<close>, \<open>bt_mgmt_scan_for_broadcast.c\<close> and \<open>bt_mgmt_scan_for_conn.c\<close> under
  \<open>src/bluetooth/bt_management/scanning\<close>). A scan looks for a broadcaster, by its identifier or by its
  name, and synchronises to its periodic advertising, or for a device to connect to, by its name, its
  bond or its coordinated set. The callbacks of the scan delegator, through which a phone asks for a
  broadcaster, are here too.

  The calls of the host are the parameter \<open>scan_host\<close>. A scan report is given by its properties and the
  list of the elements that \<open>bt_data_parse\<close> hands to its callback. Names are lists of octets without the
  terminating zero.
\<close>

section \<open>The host and the state\<close>

abbreviation (input) BRDCAST_ID_NOT_USED :: u32 where "BRDCAST_ID_NOT_USED \<equiv> 0x1000000"
abbreviation (input) INVALID_BROADCAST_ID :: u32 where "INVALID_BROADCAST_ID \<equiv> 0xFFFFFFFF"
abbreviation (input) BLE_SEARCH_NAME_MAX_LEN :: nat where "BLE_SEARCH_NAME_MAX_LEN \<equiv> 33"
abbreviation (input) PA_SYNC_INTERVAL_TO_TIMEOUT_RATIO :: nat where "PA_SYNC_INTERVAL_TO_TIMEOUT_RATIO \<equiv> 20"

datatype pa_sync_state = Pa_not_synced | Pa_info_req | Pa_synced | Pa_failed | Pa_no_past

record recv_state =
  rs_src_id :: u8
  rs_pa_sync_state :: pa_sync_state
  rs_broadcast_id :: u32

record pa_sync_param =
  ps_addr :: bt_addr_le
  ps_sid :: u8
  ps_timeout :: nat

text \<open>
  \<open>sc_callback k on\<close> registers or unregisters the scan callback of the kind \<open>k\<close>. The last two are
  \<open>bt_csip_set_coordinator_is_set_member\<close> and the key of the set of a connection's member.
\<close>

datatype bt_mgmt_scan_type = BT_MGMT_SCAN_TYPE_CONN | BT_MGMT_SCAN_TYPE_BROADCAST

record 'b scan_host =
  sc_start :: "nat \<Rightarrow> nat \<Rightarrow> 'b \<Rightarrow> int \<times> 'b"
  sc_stop :: "'b \<Rightarrow> int \<times> 'b"
  sc_callback :: "bt_mgmt_scan_type \<Rightarrow> bool \<Rightarrow> 'b \<Rightarrow> 'b"
  sc_sync_callback :: "'b \<Rightarrow> 'b"
  sc_delegator_callback :: "'b \<Rightarrow> 'b"
  sc_sync_create :: "pa_sync_param \<Rightarrow> 'b \<Rightarrow> int \<times> nat option \<times> 'b"
  sc_transfer_subscribe :: "nat \<Rightarrow> nat \<Rightarrow> 'b \<Rightarrow> int \<times> 'b"
  sc_set_pa_state :: "u8 \<Rightarrow> pa_sync_state \<Rightarrow> 'b \<Rightarrow> int \<times> 'b"
  sc_conn_create :: "bt_addr_le \<Rightarrow> 'b \<Rightarrow> int \<times> 'b"
  sc_set_member :: "u8 list \<Rightarrow> bt_data \<Rightarrow> bool"
  sc_member_sirk :: "nat \<Rightarrow> 'b \<Rightarrow> u8 list option"

record scan_config =
  CFG_SCAN_INTERVAL :: nat
  CFG_SCAN_WINDOW :: nat
  CFG_SCAN_CENTRAL :: bool
  CFG_SCAN_SINK :: bool
  CFG_SCAN_PAST :: bool
  CFG_SCAN_MAX_PAIRED :: nat
  BT_UUID_BROADCAST_AUDIO :: u16

record broadcast_source =
  bs_name :: "u8 list"
  bs_id :: u32

record 'b bt_scan = "'b bt_mgmt" +
  srch_name :: "u8 list"
  scan_interval :: nat
  scan_window :: nat
  scan_cb_registered :: bool
  scan_dlg_cb_registered :: bool
  sync_cb_registered :: bool
  bcast_name_set :: bool
  srch_brdcast_id :: u32
  scan_pa_sync :: "nat option"
  req_recv_state :: "recv_state option"
  bt_mgmt_broadcast_code :: "u8 list"
  brcast_src_info :: broadcast_source
  pa_sync_timer :: "nat option"
  pa_timer :: "nat option"
  scan_restart_queued :: bool
  bonded_num :: u8
  conn_cb_registered :: bool
  conn_name_set :: bool
  server_sirk :: "u8 list option"

section \<open>Starting a scan\<close>

definition bt_mgmt_scan_for_broadcast_start ::
  "'b scan_host \<Rightarrow> u32 \<Rightarrow> ('b, 'x) bt_scan_scheme \<Rightarrow> int \<times> ('b, 'x) bt_scan_scheme" where
  "bt_mgmt_scan_for_broadcast_start h brdcast_id s =
     (let s = (if sync_cb_registered s then s else (host_do (sc_sync_callback h) s)\<lparr>sync_cb_registered := True\<rparr>);
          go = (\<lambda>s. host_call (sc_start h (scan_interval s) (scan_window s))
                 (s\<lparr>bcast_name_set := True,
                    srch_brdcast_id := (if brdcast_id \<noteq> BRDCAST_ID_NOT_USED then brdcast_id else srch_brdcast_id s)\<rparr>)) in
      if \<not> scan_cb_registered s
      then go ((host_do (sc_callback h BT_MGMT_SCAN_TYPE_BROADCAST True) s)\<lparr>scan_cb_registered := True\<rparr>)
      else if bcast_name_set s \<and> brdcast_id = BRDCAST_ID_NOT_USED then (- EALREADY, s)
      else let (ret, s) = host_call (sc_stop h) s in
        if ret \<noteq> 0 \<and> ret \<noteq> - EALREADY then (ret, s) else go s)"

definition bt_mgmt_scan_for_conn_start ::
  "scan_config \<Rightarrow> 'b bt_host \<Rightarrow> 'b scan_host \<Rightarrow> ('b, 'x) bt_scan_scheme \<Rightarrow> int \<times> ('b, 'x) bt_scan_scheme" where
  "bt_mgmt_scan_for_conn_start c e h s =
     (let s = s\<lparr>conn_name_set := True\<rparr>;
          go = (\<lambda>s. let s = s\<lparr>bonded_num := of_nat (length (h_bonds e (mgmt_host s)))\<rparr>;
                 (ret, s) = host_call (sc_start h (scan_interval s) (scan_window s)) s in
               if ret \<noteq> 0 \<and> ret \<noteq> - EALREADY then (ret, s) else (0, s)) in
      if \<not> conn_cb_registered s
      then go ((host_do (sc_callback h BT_MGMT_SCAN_TYPE_CONN True) s)\<lparr>conn_cb_registered := True\<rparr>)
      else let (ret, s) = host_call (sc_stop h) s in
        if ret \<noteq> 0 \<and> ret \<noteq> - EALREADY then (ret, s) else go s)"

text \<open>A new name, an interval or a window other than zero replaces the stored one.\<close>

definition bt_mgmt_scan_start ::
  "scan_config \<Rightarrow> 'b bt_host \<Rightarrow> 'b scan_host \<Rightarrow> nat \<Rightarrow> nat \<Rightarrow> bt_mgmt_scan_type \<Rightarrow> u8 list option \<Rightarrow> u32
   \<Rightarrow> ('b, 'x) bt_scan_scheme \<Rightarrow> int \<times> ('b, 'x) bt_scan_scheme" where
  "bt_mgmt_scan_start c e h intvl win type name brdcast_id s =
     (let s = (case name of None \<Rightarrow> s | Some n \<Rightarrow> s\<lparr>srch_name := take (BLE_SEARCH_NAME_MAX_LEN - 1) n\<rparr>);
          s = (if intvl \<noteq> 0 then s\<lparr>scan_interval := intvl\<rparr> else s);
          s = (if win \<noteq> 0 then s\<lparr>scan_window := win\<rparr> else s) in
      if type = BT_MGMT_SCAN_TYPE_CONN \<and> CFG_SCAN_CENTRAL c then bt_mgmt_scan_for_conn_start c e h s
      else if type = BT_MGMT_SCAN_TYPE_BROADCAST \<and> CFG_SCAN_SINK c then bt_mgmt_scan_for_broadcast_start h brdcast_id s
      else (- EINVAL, s))"

section \<open>Scanning for a broadcaster\<close>

text \<open>The advertising interval in units of 1.25 ms; the timeout in units of 10 ms, between 0x000A and 0x4000.\<close>

definition interval_to_sync_timeout :: "u16 \<Rightarrow> nat" where
  "interval_to_sync_timeout interval =
     (let interval_ms = unat interval * 5 div 4; timeout = interval_ms * PA_SYNC_INTERVAL_TO_TIMEOUT_RATIO div 10 in
      if timeout < 0x000A then 0x000A else if 0x4000 < timeout then 0x4000 else timeout)"

record scan_report =
  sr_connectable :: bool
  sr_interval :: u16
  sr_addr :: bt_addr_le
  sr_sid :: u8
  sr_direct :: bool
  sr_payload :: bool

definition periodic_adv_sync ::
  "conn_config \<Rightarrow> 'b conn_host \<Rightarrow> 'b scan_host \<Rightarrow> scan_report \<Rightarrow> broadcast_source
   \<Rightarrow> ('b, 'x) bt_scan_scheme \<Rightarrow> ('b, 'x) bt_scan_scheme" where
  "periodic_adv_sync cc m h info source s =
     (let s = (host_do (sc_callback h BT_MGMT_SCAN_TYPE_BROADCAST False) s)\<lparr>scan_cb_registered := False\<rparr>;
          timeout = interval_to_sync_timeout (sr_interval info);
          s = s\<lparr>pa_sync_timer := Some (timeout * 10)\<rparr>;
          (ret, sync, hb) = sc_sync_create h \<lparr>ps_addr = sr_addr info, ps_sid = sr_sid info, ps_timeout = timeout\<rparr> (mgmt_host s);
          s = s\<lparr>mgmt_host := hb, scan_pa_sync := (case sync of None \<Rightarrow> scan_pa_sync s | Some k \<Rightarrow> Some k)\<rparr> in
      if ret \<noteq> 0 then snd (bt_mgmt_pa_sync_delete cc m (scan_pa_sync s) s) else s\<lparr>brcast_src_info := source\<rparr>)"

abbreviation (input) BT_DATA_BROADCAST_NAME :: u8 where "BT_DATA_BROADCAST_NAME \<equiv> 0x30"
abbreviation (input) BT_DATA_SVC_DATA16 :: u8 where "BT_DATA_SVC_DATA16 \<equiv> 0x16"

text \<open>\<open>None\<close> is a read past the data; the flag says whether the parsing goes on. A string ends at its first zero.\<close>

definition c_str :: "u8 list \<Rightarrow> u8 list" where
  "c_str = takeWhile (\<lambda>b. b \<noteq> 0)"

definition scan_check_broadcast_source :: "scan_config \<Rightarrow> bt_data \<Rightarrow> broadcast_source \<Rightarrow> (bool \<times> broadcast_source) option" where
  "scan_check_broadcast_source c data source =
     (if ad_type data = BT_DATA_BROADCAST_NAME \<and> ad_len data \<noteq> 0 then
        (if unat (ad_len data) < BLE_SEARCH_NAME_MAX_LEN then do {
           n \<leftarrow> rd_range (ad_data data) 0 (unat (ad_len data));
           Some (True, source\<lparr>bs_name := c_str n\<rparr>) }
         else Some (True, source))
      else if ad_type data \<noteq> BT_DATA_SVC_DATA16 then Some (True, source)
      else if unat (ad_len data) < 5 then Some (True, source)
      else do {
        u \<leftarrow> rd_range (ad_data data) 0 2;
        if (ucast (u ! 0) + 256 * ucast (u ! 1) :: u16) \<noteq> BT_UUID_BROADCAST_AUDIO c then Some (True, source)
        else do {
          d \<leftarrow> rd_range (ad_data data) 2 3;
          Some (True, source\<lparr>bs_id := ucast (d ! 0) + 256 * ucast (d ! 1) + 65536 * ucast (d ! 2)\<rparr>) } })"

text \<open>\<open>bt_data_parse\<close> calls back for each element until it is told to stop.\<close>

fun data_parse :: "(bt_data \<Rightarrow> 's \<Rightarrow> (bool \<times> 's) option) \<Rightarrow> bt_data list \<Rightarrow> 's \<Rightarrow> 's option" where
  "data_parse f [] s = Some s"
| "data_parse f (d # ds) s = do {
     (more, s) \<leftarrow> f d s;
     if more then data_parse f ds s else Some s }"

definition bcast_scan_recv_cb ::
  "scan_config \<Rightarrow> conn_config \<Rightarrow> 'b conn_host \<Rightarrow> 'b scan_host \<Rightarrow> scan_report \<Rightarrow> bt_data list
   \<Rightarrow> ('b, 'x) bt_scan_scheme \<Rightarrow> ('b, 'x) bt_scan_scheme option" where
  "bcast_scan_recv_cb c cc m h info ad s =
     (if sr_connectable info \<or> sr_interval info = 0 then Some s
      else do {
        source \<leftarrow> data_parse (scan_check_broadcast_source c) ad \<lparr>bs_name = [], bs_id = INVALID_BROADCAST_ID\<rparr>;
        if bs_id source = INVALID_BROADCAST_ID then Some s
        else if srch_brdcast_id s < BRDCAST_ID_NOT_USED then
          (if bs_id source \<noteq> srch_brdcast_id s then Some s else Some (periodic_adv_sync cc m h info source s))
        else if bs_name source \<noteq> c_str (srch_name s) then Some s
        else Some (periodic_adv_sync cc m h info source s) })"

definition bcast_pa_synced_cb ::
  "'b bt_host \<Rightarrow> 'b scan_host \<Rightarrow> nat \<Rightarrow> ('b, 'x) bt_scan_scheme \<Rightarrow> ('b, 'x) bt_scan_scheme option" where
  "bcast_pa_synced_cb e h sync s = do {
     let s = snd (host_call (sc_stop h) (s\<lparr>pa_sync_timer := None\<rparr>));
     let (ret, s) = host_call (h_publish e (Msg_pa_synced sync (bs_id (brcast_src_info s)))) s;
     err_chk ret;
     Some s }"

definition pa_sync_terminated_cb :: "'b bt_host \<Rightarrow> nat \<Rightarrow> u8 \<Rightarrow> ('b, 'x) bt_scan_scheme \<Rightarrow> ('b, 'x) bt_scan_scheme option" where
  "pa_sync_terminated_cb e sync reason s = do {
     let (ret, s) = host_call (h_publish e (Msg_pa_sync_lost sync reason)) s;
     err_chk ret;
     Some s }"

text \<open>The synchronisation has not come in time: the work item starts the scan again.\<close>

definition pa_sync_timeout :: "('b, 'x) bt_scan_scheme \<Rightarrow> ('b, 'x) bt_scan_scheme" where
  "pa_sync_timeout s = (if pa_sync_timer s = None then s else s\<lparr>pa_sync_timer := None, scan_restart_queued := True\<rparr>)"

definition scan_restart_worker ::
  "scan_config \<Rightarrow> conn_config \<Rightarrow> 'b bt_host \<Rightarrow> 'b conn_host \<Rightarrow> 'b scan_host \<Rightarrow> ('b, 'x) bt_scan_scheme \<Rightarrow> ('b, 'x) bt_scan_scheme" where
  "scan_restart_worker c cc e m h s =
     (if \<not> scan_restart_queued s then s
      else
        let s = snd (host_call (sc_stop h) (s\<lparr>scan_restart_queued := False\<rparr>));
            s = snd (bt_mgmt_pa_sync_delete cc m (scan_pa_sync s) s)
        in snd (bt_mgmt_scan_start c e h 0 0 BT_MGMT_SCAN_TYPE_BROADCAST None BRDCAST_ID_NOT_USED s))"

section \<open>The scan delegator\<close>

definition pa_timer_handler :: "'b scan_host \<Rightarrow> ('b, 'x) bt_scan_scheme \<Rightarrow> ('b, 'x) bt_scan_scheme" where
  "pa_timer_handler h s =
     (case pa_timer s of
        None \<Rightarrow> s
      | Some t \<Rightarrow>
          let s = s\<lparr>pa_timer := None\<rparr> in
          (case req_recv_state s of
             None \<Rightarrow> s
           | Some r \<Rightarrow> snd (host_call (sc_set_pa_state h (rs_src_id r)
               (if rs_pa_sync_state r = Pa_info_req then Pa_no_past else Pa_failed)) s)))"

definition pa_sync_past :: "'b scan_host \<Rightarrow> nat \<Rightarrow> u16 \<Rightarrow> ('b, 'x) bt_scan_scheme \<Rightarrow> int \<times> ('b, 'x) bt_scan_scheme" where
  "pa_sync_past h conn pa_interval s =
     (let timeout = interval_to_sync_timeout pa_interval; (ret, s) = host_call (sc_transfer_subscribe h conn timeout) s in
      if ret \<noteq> 0 then (ret, s) else (0, s\<lparr>pa_timer := Some (timeout * 10)\<rparr>))"

definition pa_sync_req_cb ::
  "scan_config \<Rightarrow> 'b bt_host \<Rightarrow> 'b scan_host \<Rightarrow> nat \<Rightarrow> recv_state \<Rightarrow> bool \<Rightarrow> u16
   \<Rightarrow> ('b, 'x) bt_scan_scheme \<Rightarrow> int \<times> ('b, 'x) bt_scan_scheme" where
  "pa_sync_req_cb c e h conn r past_avail pa_interval s =
     (let s = s\<lparr>req_recv_state := Some r\<rparr> in
      if rs_pa_sync_state r = Pa_synced \<or> rs_pa_sync_state r = Pa_info_req then (- EALREADY, s)
      else
        let s = s\<lparr>brcast_src_info := (brcast_src_info s)\<lparr>bs_id := rs_broadcast_id r\<rparr>\<rparr> in
        if CFG_SCAN_PAST c \<and> past_avail then
          let (ret, s) = pa_sync_past h conn pa_interval s in
          if ret \<noteq> 0 then (ret, s)
          else let (ret, s) = host_call (sc_set_pa_state h (rs_src_id r) Pa_info_req) s in
            if ret \<noteq> 0 then (ret, s) else (0, s)
        else if bs_id (brcast_src_info s) \<noteq> INVALID_BROADCAST_ID then
          bt_mgmt_scan_start c e h 0 0 BT_MGMT_SCAN_TYPE_BROADCAST None (bs_id (brcast_src_info s)) s
        else (0, s))"

definition pa_sync_term_req_cb :: "'b bt_host \<Rightarrow> ('b, 'x) bt_scan_scheme \<Rightarrow> (int \<times> ('b, 'x) bt_scan_scheme) option" where
  "pa_sync_term_req_cb e s = do {
     let (ret, s) = host_call (h_publish e Msg_broadcast_sink_disable) s;
     err_chk ret;
     Some (0, s) }"

definition broadcast_code_cb :: "'b bt_host \<Rightarrow> u8 list \<Rightarrow> ('b, 'x) bt_scan_scheme \<Rightarrow> ('b, 'x) bt_scan_scheme option" where
  "broadcast_code_cb e code s = do {
     code \<leftarrow> rd_range code 0 16;
     let (ret, s) = host_call (h_publish e Msg_broadcast_code_received) (s\<lparr>bt_mgmt_broadcast_code := code\<rparr>);
     err_chk ret;
     Some s }"

definition bis_sync_req_cb :: "'b bt_host \<Rightarrow> u32 list \<Rightarrow> ('b, 'x) bt_scan_scheme \<Rightarrow> (int \<times> ('b, 'x) bt_scan_scheme) option" where
  "bis_sync_req_cb e bis_sync_req s = do {
     r \<leftarrow> rd bis_sync_req 0;
     if r = 0 then do {
       let (ret, s) = host_call (h_publish e Msg_broadcast_sink_disable) s;
       err_chk ret;
       Some (0, s) }
     else Some (0, s) }"

definition bt_mgmt_scan_delegator_init :: "'b scan_host \<Rightarrow> ('b, 'x) bt_scan_scheme \<Rightarrow> ('b, 'x) bt_scan_scheme" where
  "bt_mgmt_scan_delegator_init h s =
     (let s = (if scan_dlg_cb_registered s then s else (host_do (sc_delegator_callback h) s)\<lparr>scan_dlg_cb_registered := True\<rparr>) in
      if sync_cb_registered s then s else (host_do (sc_sync_callback h) s)\<lparr>sync_cb_registered := True\<rparr>)"

section \<open>Scanning for a device to connect to\<close>

text \<open>The device is there: the scan ends and a connection is made; if that fails the scan starts again.\<close>

definition connect_to ::
  "scan_config \<Rightarrow> 'b bt_host \<Rightarrow> 'b scan_host \<Rightarrow> bt_addr_le \<Rightarrow> ('b, 'x) bt_scan_scheme \<Rightarrow> ('b, 'x) bt_scan_scheme" where
  "connect_to c e h addr s =
     (let s = (host_do (sc_callback h BT_MGMT_SCAN_TYPE_CONN False) s)\<lparr>conn_cb_registered := False\<rparr>;
          s = snd (host_call (sc_stop h) s);
          (ret, s) = host_call (sc_conn_create h addr) s in
      if ret \<noteq> 0 then snd (bt_mgmt_scan_start c e h 0 0 BT_MGMT_SCAN_TYPE_CONN None BRDCAST_ID_NOT_USED s) else s)"

definition conn_exist_check :: "'b bt_host \<Rightarrow> bt_addr_le \<Rightarrow> ('b, 'x) bt_scan_scheme \<Rightarrow> bool" where
  "conn_exist_check e addr s =
     (case h_conn_lookup e addr (mgmt_host s) of None \<Rightarrow> False | Some (ret, up) \<Rightarrow> ret = 0 \<and> up)"

definition bond_connect ::
  "scan_config \<Rightarrow> 'b bt_host \<Rightarrow> 'b scan_host \<Rightarrow> bt_addr_le \<Rightarrow> bt_addr_le \<Rightarrow> ('b, 'x) bt_scan_scheme \<Rightarrow> ('b, 'x) bt_scan_scheme" where
  "bond_connect c e h adv_addr bond s =
     (if bond \<noteq> adv_addr then s
      else if conn_exist_check e bond s then s
      else connect_to c e h adv_addr s)"

definition device_name_check ::
  "scan_config \<Rightarrow> 'b bt_host \<Rightarrow> 'b scan_host \<Rightarrow> bt_addr_le \<Rightarrow> bt_data \<Rightarrow> ('b, 'x) bt_scan_scheme
   \<Rightarrow> (bool \<times> ('b, 'x) bt_scan_scheme) option" where
  "device_name_check c e h addr data s =
     (if ad_type data \<noteq> 0x09 \<and> ad_type data \<noteq> 0x08 then Some (True, s)
      else if unat (ad_len data) \<noteq> length (c_str (srch_name s)) then Some (True, s)
      else do {
        n \<leftarrow> rd_range (ad_data data) 0 (length (c_str (srch_name s)));
        if n \<noteq> c_str (srch_name s) then Some (True, s)
        else if conn_exist_check e addr s then Some (False, s)
        else Some (False, connect_to c e h addr s) })"

definition csip_found ::
  "scan_config \<Rightarrow> 'b bt_host \<Rightarrow> 'b scan_host \<Rightarrow> bt_addr_le \<Rightarrow> bt_data \<Rightarrow> ('b, 'x) bt_scan_scheme
   \<Rightarrow> (bool \<times> ('b, 'x) bt_scan_scheme) option" where
  "csip_found c e h addr data s = do {
     sirk \<leftarrow> server_sirk s;
     if \<not> sc_set_member h sirk data then Some (True, s)
     else if conn_exist_check e addr s then Some (False, s)
     else Some (False, connect_to c e h addr (s\<lparr>server_sirk := None\<rparr>)) }"

definition conn_scan_recv_cb ::
  "scan_config \<Rightarrow> 'b bt_host \<Rightarrow> 'b scan_host \<Rightarrow> scan_report \<Rightarrow> bt_data list
   \<Rightarrow> ('b, 'x) bt_scan_scheme \<Rightarrow> ('b, 'x) bt_scan_scheme option" where
  "conn_scan_recv_cb c e h info ad s =
     (if \<not> sr_connectable info then Some s
      else if sr_direct info then Some (fold (bond_connect c e h (sr_addr info)) (h_bonds e (mgmt_host s)) s)
      else if \<not> sr_payload info then Some s
      else if unat (bonded_num s) < CFG_SCAN_MAX_PAIRED c then
        (if server_sirk s = None then data_parse (device_name_check c e h (sr_addr info)) ad s
         else data_parse (csip_found c e h (sr_addr info)) ad s)
      else Some (fold (bond_connect c e h (sr_addr info)) (h_bonds e (mgmt_host s)) s))"

text \<open>The key of the set is read even when there is none any more.\<close>

definition conn_in_coord_set_check ::
  "'b conn_host \<Rightarrow> 'b scan_host \<Rightarrow> nat \<Rightarrow> ('b, 'x) bt_scan_scheme \<Rightarrow> u8 \<Rightarrow> u8 option" where
  "conn_in_coord_set_check m h conn s num_filled =
     (case c_connected m conn (mgmt_host s) of (ret, up) \<Rightarrow>
        if ret \<noteq> 0 then Some num_filled
        else if \<not> up then Some num_filled
        else do {
          sirk \<leftarrow> server_sirk s;
          member \<leftarrow> sc_member_sirk h conn (mgmt_host s);
          Some (if sirk = member then num_filled + 1 else num_filled) })"

fun set_size_filled :: "'b conn_host \<Rightarrow> 'b scan_host \<Rightarrow> nat list \<Rightarrow> ('b, 'x) bt_scan_scheme \<Rightarrow> u8 \<Rightarrow> u8 option" where
  "set_size_filled m h [] s n = Some n"
| "set_size_filled m h (k # ks) s n = do { n \<leftarrow> conn_in_coord_set_check m h k s n; set_size_filled m h ks s n }"

definition bt_mgmt_set_size_filled_get :: "'b conn_host \<Rightarrow> 'b scan_host \<Rightarrow> ('b, 'x) bt_scan_scheme \<Rightarrow> u8 \<Rightarrow> u8 option" where
  "bt_mgmt_set_size_filled_get m h s num_filled = set_size_filled m h (c_conns m (mgmt_host s)) s num_filled"

definition bt_mgmt_scan_sirk_set :: "u8 list option \<Rightarrow> ('b, 'x) bt_scan_scheme \<Rightarrow> ('b, 'x) bt_scan_scheme" where
  "bt_mgmt_scan_sirk_set sirk s = s\<lparr>server_sirk := sirk\<rparr>"

section \<open>What a search finds\<close>

text \<open>The elements of a broadcaster's advertisement: its identifier and its name.\<close>

definition source_elements :: "scan_config \<Rightarrow> u8 list \<Rightarrow> u8 \<times> u8 \<times> u8 \<Rightarrow> bt_data list" where
  "source_elements c name i = (case i of (a, b, d) \<Rightarrow>
     [\<lparr>ad_type = BT_DATA_SVC_DATA16, ad_len = 5,
        ad_data = [ucast (BT_UUID_BROADCAST_AUDIO c), ucast (drop_bit 8 (BT_UUID_BROADCAST_AUDIO c)), a, b, d]\<rparr>,
      \<lparr>ad_type = BT_DATA_BROADCAST_NAME, ad_len = of_nat (length name), ad_data = name\<rparr>])"

definition id24 :: "u8 \<times> u8 \<times> u8 \<Rightarrow> u32" where
  "id24 i = (case i of (a, b, d) \<Rightarrow> ucast a + 256 * ucast b + 65536 * ucast d)"

lemma u16_bytes: "ucast (ucast (w :: u16) :: u8) + 256 * ucast (ucast (drop_bit 8 w) :: u8) = w"
proof -
  have w: "0 \<le> uint w" "uint w < 65536" using uint_bounded [of w] by simp_all
  have "uint w div 256 < 256" "0 \<le> uint w div 256" using w by linarith+
  then have e: "uint w div 256 mod 256 = uint w div 256" by (simp only: mod_pos_pos_trivial)
  have s: "uint w mod 256 + 256 * (uint w div 256) = uint w" by simp
  have "256 * (uint w div 256) < 65536" "0 \<le> 256 * (uint w div 256)"
    using \<open>uint w div 256 < 256\<close> \<open>0 \<le> uint w div 256\<close> by linarith+
  then have "256 * (uint w div 256) mod 65536 = 256 * (uint w div 256)" by (simp only: mod_pos_pos_trivial)
  moreover have "uint w mod 65536 = uint w" using w by (simp only: mod_pos_pos_trivial)
  ultimately have "(uint w mod 256 + 256 * (uint w div 256 mod 256) mod 65536) mod 65536 = uint w"
    by (simp only: e s)
  then show ?thesis
    by (simp add: word_uint_eq_iff uint_word_ariths unsigned_ucast_eq unsigned_drop_bit_eq take_bit_eq_mod
        drop_bit_eq_div uint_mod uint_div)
qed

lemma id24_valid: "id24 i < BRDCAST_ID_NOT_USED"
proof -
  obtain a b d where i: "i = (a, b, d)" by (cases i)
  have n: "unat a + 256 * unat b + 65536 * unat d < 16777216"
    using u8_less [of a] u8_less [of b] u8_less [of d] by linarith
  have "(ucast x :: u32) = of_nat (unat x)" for x :: u8 by simp
  then have "id24 i = of_nat (unat a + 256 * unat b + 65536 * unat d)" by (simp add: id24_def i)
  moreover have "unat (of_nat (unat a + 256 * unat b + 65536 * unat d) :: u32) = unat a + 256 * unat b + 65536 * unat d"
    using n by (subst unat_of_nat) simp
  ultimately show ?thesis using n by (simp only: word_less_nat_alt) simp
qed

lemma source_parsed:
  assumes "0 < length name" "length name < BLE_SEARCH_NAME_MAX_LEN" "0 \<notin> set name"
  shows "data_parse (scan_check_broadcast_source c) (source_elements c name i) \<lparr>bs_name = [], bs_id = INVALID_BROADCAST_ID\<rparr> =
    Some \<lparr>bs_name = name, bs_id = id24 i\<rparr>"
proof -
  obtain a b d where i: "i = (a, b, d)" by (cases i)
  have n: "unat (of_nat (length name) :: u8) = length name" using assms(2) by (simp add: unat_of_nat)
  then have "(of_nat (length name) :: u8) \<noteq> 0" using assms(1) by (metis unat_0 less_irrefl)
  moreover have "c_str name = name" using assms(3) by (auto simp: c_str_def takeWhile_eq_all_conv)
  ultimately show ?thesis
    using assms(2) n by (simp add: source_elements_def i scan_check_broadcast_source_def rd_range_def id24_def u16_bytes)
qed

text \<open>A broadcaster is synchronised to when it has the identifier searched for, or without one the name.\<close>

lemma search_decides:
  assumes "0 < length name" "length name < BLE_SEARCH_NAME_MAX_LEN" "0 \<notin> set name"
    and "\<not> sr_connectable info" "sr_interval info \<noteq> 0"
  shows "bcast_scan_recv_cb c cc m h info (source_elements c name i) s = Some
    (if (if srch_brdcast_id s < BRDCAST_ID_NOT_USED then id24 i = srch_brdcast_id s else name = c_str (srch_name s))
     then periodic_adv_sync cc m h info \<lparr>bs_name = name, bs_id = id24 i\<rparr> s else s)"
proof -
  have "id24 i \<noteq> INVALID_BROADCAST_ID" using id24_valid [of i] by auto
  then show ?thesis using assms(4,5) source_parsed [OF assms(1-3)] by (simp add: bcast_scan_recv_cb_def)
qed

text \<open>What a started scan keeps: the name that was asked for, and the identifier, if one was.\<close>

lemma broadcast_start_keeps:
  assumes "bt_mgmt_scan_for_broadcast_start h k s = (ret, s')"
  shows "srch_name s' = srch_name s"
    and "srch_brdcast_id s' = srch_brdcast_id s \<or> k \<noteq> BRDCAST_ID_NOT_USED \<and> srch_brdcast_id s' = k"
  using assms by (auto simp: bt_mgmt_scan_for_broadcast_start_def host_do_def host_call_def Let_def
      split: if_splits prod.splits)

lemma search_started:
  assumes "CFG_SCAN_SINK c" "bt_mgmt_scan_start c e h iv w BT_MGMT_SCAN_TYPE_BROADCAST (Some name) k s = (ret, s')"
  shows "srch_name s' = take 32 name"
    and "srch_brdcast_id s' = srch_brdcast_id s \<or> k \<noteq> BRDCAST_ID_NOT_USED \<and> srch_brdcast_id s' = k"
proof -
  obtain s1 where s1: "bt_mgmt_scan_for_broadcast_start h k s1 = (ret, s')" "srch_name s1 = take 32 name"
      "srch_brdcast_id s1 = srch_brdcast_id s"
    using assms by (auto simp: bt_mgmt_scan_start_def Let_def split: if_splits)
  show "srch_name s' = take 32 name" using broadcast_start_keeps(1) [OF s1(1)] s1(2) by simp
  show "srch_brdcast_id s' = srch_brdcast_id s \<or> k \<noteq> BRDCAST_ID_NOT_USED \<and> srch_brdcast_id s' = k"
    using broadcast_start_keeps(2) [OF s1(1)] s1(3) by simp
qed

text \<open>
  A search by name finds the broadcaster of that name, as long as no search by identifier came before:
  the identifier stays, and a broadcaster of the name with another identifier is passed over.
\<close>

lemma name_search:
  assumes "CFG_SCAN_SINK c"
    "bt_mgmt_scan_start c e h iv w BT_MGMT_SCAN_TYPE_BROADCAST (Some name) BRDCAST_ID_NOT_USED s = (ret, s')"
    and "0 < length name" "length name < BLE_SEARCH_NAME_MAX_LEN" "0 \<notin> set name"
    and "\<not> sr_connectable info" "sr_interval info \<noteq> 0"
  shows "bcast_scan_recv_cb c cc m h info (source_elements c name i) s' = Some
    (if srch_brdcast_id s < BRDCAST_ID_NOT_USED \<and> id24 i \<noteq> srch_brdcast_id s then s'
     else periodic_adv_sync cc m h info \<lparr>bs_name = name, bs_id = id24 i\<rparr> s')"
proof -
  have "srch_brdcast_id s' = srch_brdcast_id s" "srch_name s' = name"
    using search_started [OF assms(1,2)] assms(4) by auto
  moreover have "c_str name = name" using assms(5) by (auto simp: c_str_def takeWhile_eq_all_conv)
  ultimately show ?thesis using search_decides [OF assms(3-7), of c cc m h i s'] by simp
qed

text \<open>A scan that is asked for again by name while its callback is registered is refused.\<close>

lemma scan_again_refused:
  assumes "CFG_SCAN_SINK c" "scan_cb_registered s" "bcast_name_set s" "sync_cb_registered s"
  shows "fst (bt_mgmt_scan_start c e h 0 0 BT_MGMT_SCAN_TYPE_BROADCAST None BRDCAST_ID_NOT_USED s) = - EALREADY"
  using assms by (simp add: bt_mgmt_scan_start_def bt_mgmt_scan_for_broadcast_start_def)

text \<open>Once the member of a set has been connected to, its key is gone: asking how many are there reads through NULL.\<close>

lemma set_size_needs_key:
  assumes "server_sirk s = None" "c_connected m k (mgmt_host s) = (0, True)"
  shows "conn_in_coord_set_check m h k s n = None"
  using assms by (simp add: conn_in_coord_set_check_def)

text \<open>The timeout is never below the minimum and never above the maximum.\<close>

lemma sync_timeout_bounds: "10 \<le> interval_to_sync_timeout iv \<and> interval_to_sync_timeout iv \<le> 16384"
  by (simp add: interval_to_sync_timeout_def Let_def)

end
