(* ===== verification/SdPlayback.thy ===== *)
theory SdPlayback
  imports Lc3File
begin

text \<open>
  Playback of files from the SD card (\<open>src/modules/sd_card_playback.c\<close>): the playback thread reads a
  WAV or an LC3 file and puts its frames into a ring buffer, from which the audio datapath takes one
  frame at each call of \<open>sd_card_playback_mix_with_stream\<close> and mixes it into the stream.

  The two threads meet at the ring buffer: the thread waits for \<open>m_sem_ringbuf_space_available\<close>, both
  take \<open>mtx_ringbuf\<close> without waiting. A schedule gives for every frame of the file the calls of the
  datapath that run before the thread's next wait is over; \<open>mix_log\<close>, which the code does not have,
  keeps their results. The file system, the claim of a ring buffer region, the mixer, the LC3 decoder
  and the rounding of a floating point quotient are parameters.
\<close>

section \<open>State\<close>

datatype audio_formats = SD_CARD_PLAYBACK_WAV | SD_CARD_PLAYBACK_LC3

datatype ctx = Playback_thread | Datapath_thread

text \<open>
  \<open>playback_file_name\<close> is a pointer: \<open>None\<close> when what it points to does not exist any more. The two
  packed file headers are kept as their bytes.
\<close>

record ('f, 'd) playback =
  sd_card_playback_active :: bool
  playback_file_name :: "string option"
  playback_file_format :: audio_formats
  pcm_frame_size :: u16
  playback_file_path :: string
  lc3_file_header :: "u8 list"
  wav_file_header :: "u8 list"
  lc3_frame_length_bytes :: "u8 list"
  f_seg_read_entry :: 'f
  ringbuf_data :: "u8 list"
  ringbuf_put :: nat
  sem_space_available :: bool
  sem_playback :: bool
  mtx_ringbuf :: "(ctx \<times> nat) option"
  decoder :: 'd
  mix_log :: "(int \<times> u8 list) list"

record ('f, 'd) play_env =
  card :: "'f sd_env"
  sd_state :: sd_card
  RING_BUF_SIZE :: nat
  MAX_PATH_LEN :: nat
  FRAME_DURATION_US :: nat
  AUDIO_BIT_DEPTH_BITS :: nat
  codec_initialized :: bool
  decoder_num_ch :: nat
  ring_claim :: "nat \<Rightarrow> nat \<Rightarrow> nat \<Rightarrow> nat"
  pcm_mix :: "u8 list \<Rightarrow> u8 list \<Rightarrow> int \<times> u8 list"
  lc3_dec_run :: "u8 list \<Rightarrow> nat \<Rightarrow> int \<Rightarrow> 'd \<Rightarrow> int \<times> u8 list \<times> nat \<times> 'd"
  float_ceil_div :: "int \<Rightarrow> int \<Rightarrow> int"

definition FRAME_DURATION_MS :: "('f, 'd) play_env \<Rightarrow> nat" where
  "FRAME_DURATION_MS e = FRAME_DURATION_US e div 1000"

definition LIST_FILES_BUF_SIZE :: nat where "LIST_FILES_BUF_SIZE = 512"
definition WAV_FORMAT_PCM :: int where "WAV_FORMAT_PCM = 1"
definition WAV_SAMPLE_RATE_48K :: u32 where "WAV_SAMPLE_RATE_48K = 48000"
definition SW_CODEC_MONO :: int where "SW_CODEC_MONO = 1"
definition WAV_HEADER_SIZE :: nat where "WAV_HEADER_SIZE = 44"

text \<open>The fields of the packed headers, little endian.\<close>

definition le16 :: "u8 list \<Rightarrow> nat \<Rightarrow> u16" where
  "le16 b i = u16_of (b ! i) (b ! (i + 1))"

definition le32 :: "u8 list \<Rightarrow> nat \<Rightarrow> u32" where
  "le32 b i = or (ucast (le16 b i)) (push_bit 16 (ucast (le16 b (i + 2))))"

definition wav_size :: "u8 list \<Rightarrow> u32" where "wav_size h = le32 h 4"
definition audio_format :: "u8 list \<Rightarrow> int" where "audio_format h = sint (le16 h 20)"
definition num_channels :: "u8 list \<Rightarrow> int" where "num_channels h = sint (le16 h 22)"
definition wav_sample_rate :: "u8 list \<Rightarrow> u32" where "wav_sample_rate h = le32 h 24"
definition byte_rate :: "u8 list \<Rightarrow> u32" where "byte_rate h = le32 h 28"
definition bit_depth :: "u8 list \<Rightarrow> int" where "bit_depth h = sint (le16 h 34)"

definition lc3_sample_rate :: "u8 list \<Rightarrow> u16" where "lc3_sample_rate h = le16 h 4"
definition lc3_frame_duration :: "u8 list \<Rightarrow> u16" where "lc3_frame_duration h = le16 h 10"
definition signal_len_lsb :: "u8 list \<Rightarrow> u16" where "signal_len_lsb h = le16 h 14"
definition signal_len_msb :: "u8 list \<Rightarrow> u16" where "signal_len_msb h = le16 h 16"

section \<open>The mutex and the ring buffer\<close>

definition mutex_lock :: "ctx \<Rightarrow> ('f, 'd) playback \<Rightarrow> int \<times> ('f, 'd) playback" where
  "mutex_lock c s = (case mtx_ringbuf s of
       None \<Rightarrow> (0, s\<lparr>mtx_ringbuf := Some (c, 1)\<rparr>)
     | Some (c', n) \<Rightarrow> if c' = c then (0, s\<lparr>mtx_ringbuf := Some (c, n + 1)\<rparr>) else (- EBUSY, s))"

definition mutex_unlock :: "ctx \<Rightarrow> ('f, 'd) playback \<Rightarrow> int \<times> ('f, 'd) playback" where
  "mutex_unlock c s = (case mtx_ringbuf s of
       None \<Rightarrow> (- EINVAL, s)
     | Some (c', n) \<Rightarrow>
         if c' \<noteq> c then (- EPERM, s)
         else (0, s\<lparr>mtx_ringbuf := (if n = 1 then None else Some (c, n - 1))\<rparr>))"

definition ring_space :: "('f, 'd) play_env \<Rightarrow> ('f, 'd) playback \<Rightarrow> nat" where
  "ring_space e s = RING_BUF_SIZE e - length (ringbuf_data s)"

definition ring_buf_reset :: "('f, 'd) playback \<Rightarrow> ('f, 'd) playback" where
  "ring_buf_reset s = s\<lparr>ringbuf_data := [], ringbuf_put := 0\<rparr>"

definition sd_card_playback_ringbuf_read ::
  "('f, 'd) play_env \<Rightarrow> nat \<Rightarrow> ('f, 'd) playback \<Rightarrow> int \<times> u8 list \<times> ('f, 'd) playback" where
  "sd_card_playback_ringbuf_read e n s =
     (let (ret, s) = mutex_lock Datapath_thread s in
      if ret \<noteq> 0 then (ret, [], s)
      else
        let bs = take n (ringbuf_data s);
            s = s\<lparr>ringbuf_data := drop n (ringbuf_data s)\<rparr>;
            (ret, s) = mutex_unlock Datapath_thread s
        in if ret \<noteq> 0 then (ret, bs, s)
        else if unat (pcm_frame_size s) \<le> ring_space e s
          then (0, bs, s\<lparr>sem_space_available := True\<rparr>)
          else (0, bs, s))"

text \<open>
  Writing, up to the claim and from the copy on: between the two the mutex is held. The claim may be
  shorter than asked, when there is less room or when the region would wrap at the end of the buffer.
\<close>

definition ringbuf_claim ::
  "('f, 'd) play_env \<Rightarrow> nat \<Rightarrow> ('f, 'd) playback \<Rightarrow> (int + nat) \<times> ('f, 'd) playback" where
  "ringbuf_claim e numbytes s =
     (if \<not> sem_space_available s then (Inl (- EAGAIN), s)
      else
        let (ret, s) = mutex_lock Playback_thread (s\<lparr>sem_space_available := False\<rparr>) in
        if ret \<noteq> 0 then (Inl ret, s)
        else (Inr (ring_claim e (ringbuf_put s) (ring_space e s) numbytes), s))"

definition ringbuf_copy ::
  "('f, 'd) play_env \<Rightarrow> u8 list \<Rightarrow> nat \<Rightarrow> ('f, 'd) playback \<Rightarrow> (int \<times> ('f, 'd) playback) option" where
  "ringbuf_copy e buffer numbytes s = do {
     bs \<leftarrow> rd_range buffer 0 numbytes;
     if ring_space e s < numbytes then Some (- EINVAL, s)
     else
       let s = s\<lparr>ringbuf_data := ringbuf_data s @ bs, ringbuf_put := ringbuf_put s + numbytes\<rparr>;
           (ret, s) = mutex_unlock Playback_thread s
       in if ret \<noteq> 0 then Some (ret, s) else Some (int numbytes, s) }"

definition sd_card_playback_ringbuf_write ::
  "('f, 'd) play_env \<Rightarrow> u8 list \<Rightarrow> nat \<Rightarrow> ('f, 'd) playback \<Rightarrow> (int \<times> ('f, 'd) playback) option" where
  "sd_card_playback_ringbuf_write e buffer numbytes s = (case ringbuf_claim e numbytes s of
       (Inl ret, s) \<Rightarrow> Some (ret, s)
     | (Inr n, s) \<Rightarrow> ringbuf_copy e buffer n s)"

section \<open>The datapath\<close>

definition sd_card_playback_is_active :: "('f, 'd) playback \<Rightarrow> bool" where
  "sd_card_playback_is_active s \<longleftrightarrow> sd_card_playback_active s"

definition sd_card_playback_mix_with_stream ::
  "('f, 'd) play_env \<Rightarrow> u8 list \<Rightarrow> ('f, 'd) playback \<Rightarrow> int \<times> u8 list \<times> ('f, 'd) playback" where
  "sd_card_playback_mix_with_stream e pcm_a s =
     (if \<not> sd_card_playback_active s then (- EACCES, pcm_a, s)
      else
        let (ret, pcm_b, s) = sd_card_playback_ringbuf_read e (unat (pcm_frame_size s)) s in
        if ret \<noteq> 0 then (ret, pcm_a, s)
        else if pcm_b \<noteq> [] then
          let (ret, pcm_a) = pcm_mix e pcm_a pcm_b in
          if ret \<noteq> 0 then (ret, pcm_a, s) else (0, pcm_a, s)
        else (0, pcm_a, s))"

text \<open>The datapath asks first whether the playback is active.\<close>

fun datapath_calls :: "('f, 'd) play_env \<Rightarrow> u8 list list \<Rightarrow> ('f, 'd) playback \<Rightarrow> ('f, 'd) playback" where
  "datapath_calls e [] s = s"
| "datapath_calls e (pcm_a # frames) s =
     (if sd_card_playback_is_active s then
        let (ret, pcm, s) = sd_card_playback_mix_with_stream e pcm_a s
        in datapath_calls e frames (s\<lparr>mix_log := mix_log s @ [(ret, pcm)]\<rparr>)
      else datapath_calls e frames s)"

section \<open>Playing a WAV file\<close>

definition sd_card_playback_check_wav_header :: "('f, 'd) play_env \<Rightarrow> u8 list \<Rightarrow> int" where
  "sd_card_playback_check_wav_header e h =
     (if audio_format h \<noteq> WAV_FORMAT_PCM then - EPERM
      else if num_channels h \<noteq> SW_CODEC_MONO then - EPERM
      else if wav_sample_rate h \<noteq> WAV_SAMPLE_RATE_48K then - EPERM
      else if bit_depth h \<noteq> int (AUDIO_BIT_DEPTH_BITS e) then - EPERM
      else 0)"

text \<open>The frame \<open>i\<close> is read, the datapath runs, the frame is written.\<close>

primrec wav_loop ::
  "nat \<Rightarrow> ('f, 'd) play_env \<Rightarrow> (nat \<Rightarrow> u8 list list) \<Rightarrow> nat \<Rightarrow> u8 list \<Rightarrow> nat \<Rightarrow> int
   \<Rightarrow> ('f, 'd) playback \<Rightarrow> (int \<times> ('f, 'd) playback) option" where
  "wav_loop 0 e sched i frame wav_read_size ret s = Some (ret, s)"
| "wav_loop (Suc k) e sched i frame wav_read_size ret s = do {
     (ret, frame, wav_read_size, f) \<leftarrow> sd_card_read (card e) frame 0 wav_read_size (f_seg_read_entry s);
     let s = s\<lparr>f_seg_read_entry := f\<rparr>;
     if ret < 0 then Some (ret, s)
     else do {
       let s = datapath_calls e (sched i) s;
       (ret, s) \<leftarrow> sd_card_playback_ringbuf_write e frame wav_read_size s;
       if ret < 0 then Some (ret, s)
       else wav_loop k e sched (i + 1) frame wav_read_size ret
         (if i = 0 then s\<lparr>sd_card_playback_active := True\<rparr> else s) } }"

text \<open>Closing the file on an early return: the error of closing hides the one that led there.\<close>

definition close_after ::
  "('f, 'd) play_env \<Rightarrow> int \<Rightarrow> ('f, 'd) playback \<Rightarrow> int \<times> ('f, 'd) playback" where
  "close_after e ret s =
     (let (ret_close, f) = sd_card_close (card e) (f_seg_read_entry s);
          s = s\<lparr>f_seg_read_entry := f\<rparr>
      in (if ret_close \<noteq> 0 then ret_close else ret, s))"

text \<open>The end of both players, where the error of closing is tested but not returned.\<close>

definition playback_end ::
  "('f, 'd) play_env \<Rightarrow> int \<Rightarrow> ('f, 'd) playback \<Rightarrow> int \<times> ('f, 'd) playback" where
  "playback_end e ret s =
     (let s = s\<lparr>sd_card_playback_active := False\<rparr>;
          (ret_close, f) = sd_card_close (card e) (f_seg_read_entry s);
          s = s\<lparr>f_seg_read_entry := f\<rparr>
      in if ret < 0 then (ret, s) else if ret_close \<noteq> 0 then (ret, s) else (0, s))"

definition wav_frame_size :: "('f, 'd) play_env \<Rightarrow> u8 list \<Rightarrow> u16" where
  "wav_frame_size e h = ucast (byte_rate h * of_nat (FRAME_DURATION_MS e) div 1000)"

definition wav_audio_length :: "u8 list \<Rightarrow> int" where
  "wav_audio_length h = sint (wav_size h + 8 - of_nat WAV_HEADER_SIZE)"

definition sd_card_playback_play_wav ::
  "('f, 'd) play_env \<Rightarrow> (nat \<Rightarrow> u8 list list) \<Rightarrow> ('f, 'd) playback
   \<Rightarrow> (int \<times> ('f, 'd) playback) option" where
  "sd_card_playback_play_wav e sched s = do {
     name \<leftarrow> playback_file_name s;
     (ret, f) \<leftarrow> sd_card_open (card e) name (f_seg_read_entry s) (sd_state e);
     let s = s\<lparr>f_seg_read_entry := f\<rparr>;
     if ret \<noteq> 0 then Some (ret, s)
     else do {
       (ret, h, n, f) \<leftarrow> sd_card_read (card e) (wav_file_header s) 0 WAV_HEADER_SIZE f;
       let s = s\<lparr>f_seg_read_entry := f, wav_file_header := h\<rparr>;
       if ret \<noteq> 0 then Some (close_after e ret s)
       else
         let ret = sd_card_playback_check_wav_header e h in
         if ret \<noteq> 0 then Some (close_after e ret s)
         else do {
           let s = s\<lparr>pcm_frame_size := wav_frame_size e h\<rparr>;
           let wav_read_size = unat (pcm_frame_size s);
           assert_ok (wav_read_size \<noteq> 0);
           let n_iter = float_ceil_div e (wav_audio_length h) (int wav_read_size);
           (ret, s) \<leftarrow> wav_loop (nat n_iter) e sched 0 (replicate wav_read_size 0) wav_read_size ret s;
           Some (playback_end e ret s) } } }"

section \<open>Playing an LC3 file\<close>

primrec lc3_loop ::
  "nat \<Rightarrow> ('f, 'd) play_env \<Rightarrow> (nat \<Rightarrow> u8 list list) \<Rightarrow> nat \<Rightarrow> u8 list \<Rightarrow> nat \<Rightarrow> int
   \<Rightarrow> ('f, 'd) playback \<Rightarrow> (int \<times> ('f, 'd) playback) option" where
  "lc3_loop 0 e sched i pcm_mono_frame hd_size ret s = Some (ret, s)"
| "lc3_loop (Suc k) e sched i pcm_mono_frame hd_size ret s = do {
     (ret, lb, hd_size, f) \<leftarrow> sd_card_read (card e) (lc3_frame_length_bytes s) 0 hd_size (f_seg_read_entry s);
     let s = s\<lparr>f_seg_read_entry := f, lc3_frame_length_bytes := lb\<rparr>;
     if ret < 0 then Some (ret, s)
     else do {
       let len = unat (le16 lb 0);
       (ret, lc3_frame, lc3_fr_len, f) \<leftarrow> sd_card_read (card e) (replicate len 0) 0 len f;
       let s = s\<lparr>f_seg_read_entry := f\<rparr>;
       if ret < 0 then Some (ret, s)
       else if lc3_fr_len \<noteq> len then Some (- EPERM, s)
       else
         let (ret, pcm, write_size, d) =
               lc3_dec_run e lc3_frame (unat (pcm_frame_size s)) (int (decoder_num_ch e) - 1) (decoder s);
             s = s\<lparr>decoder := d\<rparr>
         in if ret \<noteq> 0 then Some (ret, s)
         else do {
           pcm_mono_frame \<leftarrow> wr_range pcm_mono_frame 0 pcm;
           let s = datapath_calls e (sched i) s;
           (ret, s) \<leftarrow> sd_card_playback_ringbuf_write e pcm_mono_frame write_size s;
           if ret < 0 then Some (ret, s)
           else lc3_loop k e sched (i + 1) pcm_mono_frame hd_size ret
             (if i = 0 then s\<lparr>sd_card_playback_active := True\<rparr> else s) } } }"

definition lc3_pcm_frame_size :: "u8 list \<Rightarrow> u16" where
  "lc3_pcm_frame_size h =
     ucast ((2 * ucast (lc3_sample_rate h) * ucast (lc3_frame_duration h) :: u32) div 1000)"

text \<open>A length whose upper half has its top bit set is shifted into the sign: undefined.\<close>

definition lc3_frames_num :: "u8 list \<Rightarrow> u16 \<Rightarrow> u16 option" where
  "lc3_frames_num h frame_size = do {
     assert_ok (unat (signal_len_msb h) < 2 ^ 15);
     assert_ok (frame_size \<noteq> 0);
     Some (ucast ((2 * (push_bit 16 (ucast (signal_len_msb h)) + ucast (signal_len_lsb h)) :: u32)
       div ucast frame_size)) }"

definition sd_card_playback_play_lc3 ::
  "('f, 'd) play_env \<Rightarrow> (nat \<Rightarrow> u8 list list) \<Rightarrow> ('f, 'd) playback
   \<Rightarrow> (int \<times> ('f, 'd) playback) option" where
  "sd_card_playback_play_lc3 e sched s = do {
     name \<leftarrow> playback_file_name s;
     (ret, f) \<leftarrow> sd_card_open (card e) name (f_seg_read_entry s) (sd_state e);
     let s = s\<lparr>f_seg_read_entry := f\<rparr>;
     if ret \<noteq> 0 then Some (ret, s)
     else do {
       (ret, h, n, f) \<leftarrow> sd_card_read (card e) (lc3_file_header s) 0 LC3_HEADER_SIZE f;
       let s = s\<lparr>f_seg_read_entry := f, lc3_file_header := h\<rparr>;
       if ret < 0 then Some (close_after e ret s)
       else do {
         let s = s\<lparr>pcm_frame_size := lc3_pcm_frame_size h\<rparr>;
         frames \<leftarrow> lc3_frames_num h (pcm_frame_size s);
         (ret, s) \<leftarrow> lc3_loop (unat frames) e sched 0
            (replicate (unat (pcm_frame_size s)) 0) 2 ret s;
         Some (playback_end e ret s) } } }"

section \<open>The thread and the commands\<close>

definition space_sem_restart :: "('f, 'd) playback \<Rightarrow> ('f, 'd) playback" where
  "space_sem_restart s = (ring_buf_reset s)\<lparr>sem_space_available := True\<rparr>"

text \<open>One round of the thread; without the semaphore it sleeps.\<close>

definition sd_card_playback_thread ::
  "('f, 'd) play_env \<Rightarrow> (nat \<Rightarrow> u8 list list) \<Rightarrow> ('f, 'd) playback \<Rightarrow> ('f, 'd) playback option" where
  "sd_card_playback_thread e sched s =
     (if \<not> sem_playback s then Some s
      else
        let s = s\<lparr>sem_playback := False\<rparr> in
        case playback_file_format s of
          SD_CARD_PLAYBACK_WAV \<Rightarrow> map_option snd (sd_card_playback_play_wav e sched (space_sem_restart s))
        | SD_CARD_PLAYBACK_LC3 \<Rightarrow> map_option snd (sd_card_playback_play_lc3 e sched (space_sem_restart s)))"

definition sd_card_playback_wav ::
  "('f, 'd) play_env \<Rightarrow> string \<Rightarrow> ('f, 'd) playback \<Rightarrow> int \<times> ('f, 'd) playback" where
  "sd_card_playback_wav e filename s =
     (if \<not> codec_initialized e then (- EACCES, s)
      else (0, s\<lparr>playback_file_format := SD_CARD_PLAYBACK_WAV, playback_file_name := Some filename,
                 sem_playback := True\<rparr>))"

definition sd_card_playback_lc3 ::
  "('f, 'd) play_env \<Rightarrow> string \<Rightarrow> ('f, 'd) playback \<Rightarrow> int \<times> ('f, 'd) playback" where
  "sd_card_playback_lc3 e filename s =
     (if \<not> codec_initialized e then (- EACCES, s)
      else (0, s\<lparr>playback_file_format := SD_CARD_PLAYBACK_LC3, playback_file_name := Some filename,
                 sem_playback := True\<rparr>))"

text \<open>
  The commands build the path in an array of their own and pass a pointer to it. \<open>run\<close> is what the
  playback thread does before the command returns; then the array is gone.
\<close>

definition cmd_play_wav_file ::
  "('f, 'd) play_env \<Rightarrow> (('f, 'd) playback \<Rightarrow> ('f, 'd) playback option) \<Rightarrow> string list
   \<Rightarrow> ('f, 'd) playback \<Rightarrow> (int \<times> ('f, 'd) playback) option" where
  "cmd_play_wav_file e run argv s =
     (if length argv \<noteq> 2 then Some (- EINVAL, s)
      else if MAX_PATH_LEN e \<le> length (playback_file_path s) + length (argv ! 1) then Some (- ENOMEM, s)
      else do {
        file_loc \<leftarrow> strcat (MAX_PATH_LEN e) (playback_file_path s) (argv ! 1);
        let (ret, s) = sd_card_playback_wav e file_loc s;
        if ret \<noteq> 0 then Some (ret, s)
        else do { s \<leftarrow> run s; Some (0, s\<lparr>playback_file_name := None\<rparr>) } })"

definition cmd_play_lc3_file ::
  "('f, 'd) play_env \<Rightarrow> (('f, 'd) playback \<Rightarrow> ('f, 'd) playback option) \<Rightarrow> string list
   \<Rightarrow> ('f, 'd) playback \<Rightarrow> (int \<times> ('f, 'd) playback) option" where
  "cmd_play_lc3_file e run argv s =
     (if length argv \<noteq> 2 then Some (- EINVAL, s)
      else if MAX_PATH_LEN e \<le> length (playback_file_path s) + length (argv ! 1) then Some (- ENOMEM, s)
      else do {
        file_loc \<leftarrow> strcat (MAX_PATH_LEN e) (playback_file_path s) (argv ! 1);
        let (ret, s) = sd_card_playback_lc3 e file_loc s;
        if ret \<noteq> 0 then Some (ret, s)
        else do { s \<leftarrow> run s; Some (0, s\<lparr>playback_file_name := None\<rparr>) } })"

definition cmd_change_dir ::
  "('f, 'd) play_env \<Rightarrow> string list \<Rightarrow> ('f, 'd) playback \<Rightarrow> (int \<times> ('f, 'd) playback) option" where
  "cmd_change_dir e argv s =
     (if length argv \<noteq> 2 then Some (- EINVAL, s)
      else if take 1 (argv ! 1) = ''/'' then Some (0, s\<lparr>playback_file_path := []\<rparr>)
      else if MAX_PATH_LEN e \<le> length (playback_file_path s) + length (argv ! 1) then Some (- ENOMEM, s)
      else do {
        p \<leftarrow> strcat (MAX_PATH_LEN e) (playback_file_path s) (argv ! 1);
        p \<leftarrow> strcat (MAX_PATH_LEN e) p ''/'';
        Some (0, s\<lparr>playback_file_path := p\<rparr>) })"

text \<open>The array of the listing is not cleared; \<open>stack\<close> is what it holds before.\<close>

definition cmd_list_files ::
  "('f, 'd) play_env \<Rightarrow> char list \<Rightarrow> ('f, 'd) playback \<Rightarrow> (int \<times> string) option" where
  "cmd_list_files e stack s = do {
     (ret, buf, n) \<leftarrow> sd_card_list_files (card e) (Some (playback_file_path s)) (Some stack)
        LIST_FILES_BUF_SIZE True (sd_state e);
     if ret \<noteq> 0 then Some (ret, [])
     else do { text \<leftarrow> c_string (the buf); Some (0, text) } }"

section \<open>The ring buffer carries the frames\<close>

text \<open>
  The claim as documented: as much as was asked for, less when there is less room or when the region
  would wrap at the end of the buffer.
\<close>

definition claims :: "('f, 'd) play_env \<Rightarrow> bool" where
  "claims e \<longleftrightarrow> (\<forall>put space n. ring_claim e put space n
     = min n (min space (RING_BUF_SIZE e - put mod RING_BUF_SIZE e)))"

text \<open>One frame is in the ring buffer, which has just the size of a frame.\<close>

definition frame_waits :: "('f, 'd) play_env \<Rightarrow> u8 list \<Rightarrow> ('f, 'd) playback \<Rightarrow> bool" where
  "frame_waits e prev s \<longleftrightarrow> sd_card_playback_active s \<and> ringbuf_data s = prev \<and> mtx_ringbuf s = None
     \<and> prev \<noteq> [] \<and> length prev = RING_BUF_SIZE e \<and> ringbuf_put s mod RING_BUF_SIZE e = 0
     \<and> unat (pcm_frame_size s) = RING_BUF_SIZE e"

definition room_waits :: "('f, 'd) play_env \<Rightarrow> ('f, 'd) playback \<Rightarrow> bool" where
  "room_waits e s \<longleftrightarrow> ringbuf_data s = [] \<and> mtx_ringbuf s = None \<and> sem_space_available s
     \<and> ringbuf_put s mod RING_BUF_SIZE e = 0 \<and> unat (pcm_frame_size s) = RING_BUF_SIZE e"

lemma datapath_takes_frame:
  assumes "frame_waits e prev s"
  shows "datapath_calls e [a] s
    = s\<lparr>ringbuf_data := [], sem_space_available := True, mix_log := mix_log s @ [pcm_mix e a prev]\<rparr>"
  using assms
  by (cases s) (simp add: frame_waits_def sd_card_playback_is_active_def sd_card_playback_mix_with_stream_def
      sd_card_playback_ringbuf_read_def mutex_lock_def mutex_unlock_def ring_space_def Let_def
      split: prod.split)

lemma write_into_room:
  assumes "claims e" and "room_waits e s" and "length c \<le> length frame" and "length c \<le> RING_BUF_SIZE e"
    and "take (length c) frame = c"
  shows "sd_card_playback_ringbuf_write e frame (length c) s = Some (int (length c),
    s\<lparr>ringbuf_data := c, ringbuf_put := ringbuf_put s + length c, sem_space_available := False\<rparr>)"
  using assms
  by (cases s) (simp add: claims_def room_waits_def sd_card_playback_ringbuf_write_def ringbuf_claim_def
      ringbuf_copy_def mutex_lock_def mutex_unlock_def ring_space_def mem_simps Let_def)

text \<open>A read that preempts a writer between claim and copy fails, and takes nothing.\<close>

lemma read_during_write:
  assumes "ringbuf_claim e n s = (Inr k, s')"
  shows "sd_card_playback_ringbuf_read e m s' = (- EBUSY, [], s')"
  using assms
  by (auto simp: ringbuf_claim_def mutex_lock_def sd_card_playback_ringbuf_read_def
      split: if_splits option.splits)

section \<open>A WAV file is heard in order, up to its last frame\<close>

definition chunked :: "nat \<Rightarrow> u8 list list \<Rightarrow> bool" where
  "chunked m cs \<longleftrightarrow> (\<forall>c \<in> set (butlast cs). length c = m) \<and> (cs \<noteq> [] \<longrightarrow> last cs \<noteq> [] \<and> length (last cs) \<le> m)"

lemma chunked_Cons:
  "chunked m (c # cs) \<longleftrightarrow> (if cs = [] then c \<noteq> [] \<and> length c \<le> m else length c = m \<and> chunked m cs)"
  by (auto simp: chunked_def)

lemma chunk_first: "chunked m (c # cs) \<Longrightarrow> take m (c @ concat cs) = c \<and> length c \<le> m
    \<and> (cs \<noteq> [] \<longrightarrow> length c = m \<and> drop m (c @ concat cs) = concat cs)"
  by (auto simp: chunked_Cons split: if_splits)

lemma chunk_read:
  assumes "working_card e rest files" and "chunked m (c # cs)" and "rest f = concat (c # cs)" and "length frame = m"
  shows "\<exists>f' frame'. sd_card_read e frame 0 m f = Some (0, frame', length c, f') \<and> length frame' = m
    \<and> take (length c) frame' = c \<and> (cs \<noteq> [] \<longrightarrow> length c = m \<and> rest f' = concat cs)"
  using card_read [OF assms(1), of 0 m frame f] chunk_first [OF assms(2)] assms(3,4) by fastforce

text \<open>From the second frame on: before each write the datapath takes the frame written before.\<close>

lemma wav_frame_step:
  assumes works: "working_card (card e) rest files" and cl: "claims e"
    and cs: "chunked (RING_BUF_SIZE e) (c # cs)" "rest (f_seg_read_entry s) = concat (c # cs)"
    and st: "frame_waits e prev s" "length frame = RING_BUF_SIZE e"
  shows "\<exists>s' frame'. wav_loop (Suc k) e (\<lambda>j. [a j]) (Suc i) frame (RING_BUF_SIZE e) ret s
      = wav_loop k e (\<lambda>j. [a j]) (Suc (Suc i)) frame' (length c) (int (length c)) s'
    \<and> length frame' = RING_BUF_SIZE e \<and> mix_log s' = mix_log s @ [pcm_mix e (a (Suc i)) prev]
    \<and> ringbuf_data s' = c \<and> (cs \<noteq> [] \<longrightarrow> length c = RING_BUF_SIZE e
        \<and> frame_waits e c s' \<and> rest (f_seg_read_entry s') = concat cs)"
proof -
  obtain f' frame' where rd: "sd_card_read (card e) frame 0 (RING_BUF_SIZE e) (f_seg_read_entry s)
      = Some (0, frame', length c, f')" "length frame' = RING_BUF_SIZE e" "take (length c) frame' = c"
      "cs \<noteq> [] \<longrightarrow> length c = RING_BUF_SIZE e \<and> rest f' = concat cs"
    using chunk_read [OF works cs(1) cs(2) st(2)] by blast
  let ?s1 = "s\<lparr>f_seg_read_entry := f'\<rparr>"
  let ?s2 = "?s1\<lparr>ringbuf_data := [], sem_space_available := True, mix_log := mix_log s @ [pcm_mix e (a (Suc i)) prev]\<rparr>"
  let ?s3 = "?s2\<lparr>ringbuf_data := c, ringbuf_put := ringbuf_put s + length c, sem_space_available := False\<rparr>"
  have "frame_waits e prev ?s1"
    using st(1) by (simp add: frame_waits_def)
  then have s2: "datapath_calls e [a (Suc i)] ?s1 = ?s2"
    by (simp add: datapath_takes_frame del: datapath_calls.simps)
  have "length c \<le> RING_BUF_SIZE e"
    using chunk_first [OF cs(1)] by simp
  moreover have "room_waits e ?s2"
    using st(1) by (simp add: frame_waits_def room_waits_def)
  ultimately have s3: "sd_card_playback_ringbuf_write e frame' (length c) ?s2 = Some (int (length c), ?s3)"
    using write_into_room [OF cl, of ?s2 c frame'] rd(2,3) by simp
  have "wav_loop (Suc k) e (\<lambda>j. [a j]) (Suc i) frame (RING_BUF_SIZE e) ret s
      = wav_loop k e (\<lambda>j. [a j]) (Suc (Suc i)) frame' (length c) (int (length c)) ?s3"
    by (simp add: rd(1) s2 s3 Let_def del: datapath_calls.simps)
  moreover have "cs \<noteq> [] \<longrightarrow> frame_waits e c ?s3"
    using st(1) rd(4) by (auto simp: frame_waits_def)
  ultimately show ?thesis
    using rd(2,4) by (intro exI [of _ ?s3] exI [of _ frame']) auto
qed

lemma wav_loop_plays:
  assumes works: "working_card (card e) rest files" and cl: "claims e"
  shows "chunked (RING_BUF_SIZE e) cs \<Longrightarrow> rest (f_seg_read_entry s) = concat cs
    \<Longrightarrow> (cs \<noteq> [] \<Longrightarrow> frame_waits e prev s \<and> n = RING_BUF_SIZE e) \<Longrightarrow> length frame = RING_BUF_SIZE e
    \<Longrightarrow> ringbuf_data s = prev \<Longrightarrow> 0 \<le> ret
    \<Longrightarrow> \<exists>ret' s'. wav_loop (length cs) e (\<lambda>j. [a j]) (Suc i) frame n ret s = Some (ret', s') \<and> 0 \<le> ret'
      \<and> mix_log s' = mix_log s @ map2 (\<lambda>j. pcm_mix e (a j)) [Suc i..<Suc i + length cs] (prev # cs)
      \<and> ringbuf_data s' = last (prev # cs)"
proof (induction cs arbitrary: i frame n ret s prev)
  case Nil
  then show ?case by simp
next
  case (Cons c cs)
  have w: "frame_waits e prev s" and n: "n = RING_BUF_SIZE e"
    using Cons.prems(3) by auto
  obtain s1 frame1 where s1: "wav_loop (Suc (length cs)) e (\<lambda>j. [a j]) (Suc i) frame (RING_BUF_SIZE e) ret s
      = wav_loop (length cs) e (\<lambda>j. [a j]) (Suc (Suc i)) frame1 (length c) (int (length c)) s1"
      "length frame1 = RING_BUF_SIZE e" "mix_log s1 = mix_log s @ [pcm_mix e (a (Suc i)) prev]"
      "ringbuf_data s1 = c" "cs \<noteq> [] \<longrightarrow> length c = RING_BUF_SIZE e
        \<and> frame_waits e c s1 \<and> rest (f_seg_read_entry s1) = concat cs"
    using wav_frame_step [OF works cl Cons.prems(1,2) w Cons.prems(4)] by blast
  have upt: "[Suc i..<Suc i + length (c # cs)] = Suc i # [Suc (Suc i)..<Suc (Suc i) + length cs]"
    by (simp add: upt_rec)
  show ?case
  proof (cases "cs = []")
    case True
    then show ?thesis
      using s1 by (simp add: n)
  next
    case False
    then have ch: "chunked (RING_BUF_SIZE e) cs"
      using Cons.prems(1) by (simp add: chunked_Cons)
    obtain ret' s' where "wav_loop (length cs) e (\<lambda>j. [a j]) (Suc (Suc i)) frame1 (length c) (int (length c)) s1
        = Some (ret', s')" "0 \<le> ret'" "ringbuf_data s' = last (c # cs)"
        "mix_log s' = mix_log s1 @ map2 (\<lambda>j. pcm_mix e (a j)) [Suc (Suc i)..<Suc (Suc i) + length cs] (c # cs)"
      using Cons.IH [OF ch, of s1 c "length c" frame1 "int (length c)" "Suc i"] s1(2,4,5) False by auto
    then show ?thesis
      using s1(1,3) unfolding n upt by simp
  qed
qed

lemma wav_loop_from_start:
  assumes works: "working_card (card e) rest files" and cl: "claims e"
    and cs: "chunked (RING_BUF_SIZE e) cs" "cs \<noteq> []" "rest (f_seg_read_entry s) = concat cs"
    and st: "room_waits e s" "\<not> sd_card_playback_active s" "length frame = RING_BUF_SIZE e" "0 < RING_BUF_SIZE e"
  shows "\<exists>ret' s'. wav_loop (length cs) e (\<lambda>j. [a j]) 0 frame (RING_BUF_SIZE e) ret s = Some (ret', s')
    \<and> 0 \<le> ret' \<and> mix_log s' = mix_log s @ map2 (\<lambda>j. pcm_mix e (a j)) [1..<length cs] cs
    \<and> ringbuf_data s' = last cs"
proof -
  obtain c ds where c: "cs = c # ds"
    using cs(2) by (cases cs) auto
  obtain f' frame' where rd: "sd_card_read (card e) frame 0 (RING_BUF_SIZE e) (f_seg_read_entry s)
      = Some (0, frame', length c, f')" "length frame' = RING_BUF_SIZE e" "take (length c) frame' = c"
      "ds \<noteq> [] \<longrightarrow> length c = RING_BUF_SIZE e \<and> rest f' = concat ds"
    using chunk_read [OF works cs(1,3) [unfolded c] st(3)] by blast
  let ?s1 = "s\<lparr>f_seg_read_entry := f'\<rparr>"
  let ?s2 = "?s1\<lparr>ringbuf_data := c, ringbuf_put := ringbuf_put s + length c, sem_space_available := False\<rparr>"
  let ?s3 = "?s2\<lparr>sd_card_playback_active := True\<rparr>"
  have first: "length c \<le> RING_BUF_SIZE e" "c \<noteq> []"
    using cs(1) st(4) unfolding c by (auto simp: chunked_Cons split: if_splits)
  have "room_waits e ?s1"
    using st(1) by (simp add: room_waits_def)
  then have s2: "sd_card_playback_ringbuf_write e frame' (length c) ?s1 = Some (int (length c), ?s2)"
    using write_into_room [OF cl, of ?s1 c frame'] rd(2,3) first(1) by simp
  have one: "wav_loop (length cs) e (\<lambda>j. [a j]) 0 frame (RING_BUF_SIZE e) ret s
      = wav_loop (length ds) e (\<lambda>j. [a j]) (Suc 0) frame' (length c) (int (length c)) ?s3"
    using st(2) by (simp add: c rd(1) s2 sd_card_playback_is_active_def)
  have ready: "ds \<noteq> [] \<Longrightarrow> frame_waits e c ?s3 \<and> length c = RING_BUF_SIZE e"
    using st(1) rd(4) first(2) by (auto simp: frame_waits_def room_waits_def)
  show ?thesis
  proof (cases "ds = []")
    case True
    then show ?thesis
      by (simp add: one) (simp add: c)
  next
    case False
    then have ds: "chunked (RING_BUF_SIZE e) ds" "rest (f_seg_read_entry ?s3) = concat ds"
      using cs(1) rd(4) by (simp_all add: c chunked_Cons)
    have "\<exists>ret' s'. wav_loop (length ds) e (\<lambda>j. [a j]) (Suc 0) frame' (length c) (int (length c)) ?s3
        = Some (ret', s') \<and> 0 \<le> ret'
        \<and> mix_log s' = mix_log ?s3 @ map2 (\<lambda>j. pcm_mix e (a j)) [Suc 0..<Suc 0 + length ds] (c # ds)
        \<and> ringbuf_data s' = last (c # ds)"
      by (rule wav_loop_plays [OF works cl ds]) (use ready rd(2) in auto)
    then show ?thesis
      unfolding one by (simp add: c)
  qed
qed

text \<open>The quotient of two \<open>float\<close>s is exact enough for its ceiling as long as they hold the operands.\<close>

definition exact_quotients :: "('f, 'd) play_env \<Rightarrow> bool" where
  "exact_quotients e \<longleftrightarrow> (\<forall>a b. 0 \<le> a \<longrightarrow> a < 2 ^ 24 \<longrightarrow> 0 < b \<longrightarrow> b < 2 ^ 24
     \<longrightarrow> float_ceil_div e a b = (a + b - 1) div b)"

lemma chunks_counted:
  assumes "0 < m" and "chunked m cs"
  shows "(length (concat cs) + m - 1) div m = length cs"
  using assms(2)
proof (induction cs)
  case Nil
  then show ?case using assms(1) by (simp add: chunked_def)
next
  case (Cons c cs)
  show ?case
  proof (cases "cs = []")
    case True
    then have c: "0 < length c" "length c \<le> m"
      using Cons.prems by (auto simp: chunked_Cons)
    have "(length c + m - 1) div m = 1"
      using c assms(1) div_add_self2 [of m "length c - 1"] by (cases "length c") auto
    then show ?thesis
      by (simp add: True)
  next
    case False
    then have c: "length c = m" "chunked m cs"
      using Cons.prems by (auto simp: chunked_Cons)
    have "length (concat (c # cs)) + m - 1 = (length (concat cs) + m - 1) + m"
      using c(1) assms(1) by simp
    then show ?thesis
      using Cons.IH [OF c(2)] assms(1) by (simp only: div_add_self2) simp
  qed
qed

lemma frames_counted:
  assumes "exact_quotients e" and "chunked m cs" and "0 < m" and "m < 2 ^ 16" and "length (concat cs) < 2 ^ 24"
  shows "nat (float_ceil_div e (int (length (concat cs))) (int m)) = length cs"
proof -
  have "(int (length (concat cs)) + int m - 1) div int m = int ((length (concat cs) + m - 1) div m)"
    using assms(3) by (simp add: zdiv_int of_nat_diff)
  moreover have "float_ceil_div e (int (length (concat cs))) (int m) = (int (length (concat cs)) + int m - 1) div int m"
    using assms(1,3-5) unfolding exact_quotients_def by simp
  ultimately show ?thesis
    using chunks_counted [OF assms(3,2)] by simp
qed

text \<open>A WAV file that the player accepts: its header and its samples, cut into frames.\<close>

definition wav_file :: "('f, 'd) play_env \<Rightarrow> u8 list \<Rightarrow> u8 list list \<Rightarrow> bool" where
  "wav_file e h cs \<longleftrightarrow> length h = WAV_HEADER_SIZE \<and> sd_card_playback_check_wav_header e h = 0
     \<and> unat (wav_frame_size e h) = RING_BUF_SIZE e \<and> 0 < RING_BUF_SIZE e
     \<and> cs \<noteq> [] \<and> chunked (RING_BUF_SIZE e) cs \<and> length (concat cs) < 2 ^ 24
     \<and> wav_audio_length h = int (length (concat cs))"

lemma u16_less: "unat (x :: u16) < 65536"
  using unsigned_less [of x] by simp

lemma play_wav_plays:
  assumes works: "working_card (card e) rest files" and cl: "claims e" "exact_quotients e"
    and fl: "wav_file e h cs" "files (SD_ROOT_PATH @ name) = Some (h @ concat cs)"
      "length SD_ROOT_PATH + length name \<le> PATH_MAX_LEN (card e)" "sd_init_success (sd_state e)"
    and s: "playback_file_name s = Some name" "length (wav_file_header s) = WAV_HEADER_SIZE"
      "ringbuf_data s = []" "mtx_ringbuf s = None" "sem_space_available s" "ringbuf_put s = 0"
      "\<not> sd_card_playback_active s"
  shows "\<exists>s'. sd_card_playback_play_wav e (\<lambda>j. [a j]) s = Some (0, s')
    \<and> mix_log s' = mix_log s @ map2 (\<lambda>j. pcm_mix e (a j)) [1..<length cs] cs
    \<and> ringbuf_data s' = last cs \<and> \<not> sd_card_playback_active s'"
proof -
  let ?m = "RING_BUF_SIZE e"
  obtain f1 where f1: "sd_card_open (card e) name (f_seg_read_entry s) (sd_state e) = Some (0, f1)"
      "rest f1 = h @ concat cs"
    using card_open [OF works fl(4,3,2)] by blast
  obtain f2 where f2: "sd_card_read (card e) (wav_file_header s) 0 WAV_HEADER_SIZE f1 = Some (0, h, WAV_HEADER_SIZE, f2)"
      "rest f2 = concat cs"
    using card_read [OF works, of 0 WAV_HEADER_SIZE "wav_file_header s" f1] f1(2) s(2) fl(1)
    by (auto simp: wav_file_def)
  let ?s2 = "s\<lparr>f_seg_read_entry := f2, wav_file_header := h, pcm_frame_size := wav_frame_size e h\<rparr>"
  have m: "unat (wav_frame_size e h) = ?m" "0 < ?m" "?m < 2 ^ 16"
    using fl(1) u16_less [of "wav_frame_size e h"] by (auto simp: wav_file_def)
  have cs: "chunked ?m cs" "cs \<noteq> []" "rest (f_seg_read_entry ?s2) = concat cs"
    using fl(1) f2(2) by (simp_all add: wav_file_def)
  have n: "nat (float_ceil_div e (wav_audio_length h) (int ?m)) = length cs"
    using frames_counted [OF cl(2) cs(1) m(2,3)] fl(1) by (simp add: wav_file_def)
  have room: "room_waits e ?s2"
    using s m(1) by (simp add: room_waits_def)
  have still: "\<not> sd_card_playback_active ?s2" "length (replicate ?m (0 :: u8)) = ?m"
    using s(7) by simp_all
  obtain ret s' where s': "wav_loop (length cs) e (\<lambda>j. [a j]) 0 (replicate ?m 0) ?m 0 ?s2 = Some (ret, s')"
      "0 \<le> ret" "mix_log s' = mix_log ?s2 @ map2 (\<lambda>j. pcm_mix e (a j)) [1..<length cs] cs"
      "ringbuf_data s' = last cs"
    using wav_loop_from_start [OF works cl(1) cs room still m(2), of a 0] by auto
  have closed: "fst (fs_close (card e) f) = 0" for f
    using works by (simp add: working_card_def)
  have "playback_end e ret s' = (0, s'\<lparr>sd_card_playback_active := False,
      f_seg_read_entry := snd (fs_close (card e) (f_seg_read_entry s'))\<rparr>)"
    using closed [of "f_seg_read_entry s'"] s'(2)
    by (simp add: playback_end_def sd_card_close_def Let_def case_prod_beta)
  moreover have "nat (float_ceil_div e (int (length (concat cs))) (uint (wav_frame_size e h))) = length cs"
    using n fl(1) by (simp add: wav_file_def flip: m(1))
  ultimately show ?thesis
    using fl(1) m s'(1,3,4)
    by (simp add: sd_card_playback_play_wav_def s(1) f1(1) f2(1) n Let_def wav_file_def)
qed

text \<open>C25: Playing a WAV file. The file is a header the player accepts and samples that make up a whole
  number of frames, but for the last, fewer than 2^24 bytes of samples in all (the number of frames is
  the ceiling of a quotient in \<open>float\<close>, which is exact only up to there); the ring buffer has room for
  just one frame and the datapath asks for one frame before each write; the card reads without error, the
  codec is initialised and no other playback is active. Then after the command and one round of the thread every frame but
  the last has been mixed into the stream, in the order of the file: the \<open>j\<close>-th call of the datapath,
  counted from 0, mixes frame \<open>j - 1\<close> into its own frame. The last frame stays in the ring buffer, where
  no one asks for it any more, because the playback is no longer active.
\<close>

theorem wav_heard_but_last:
  assumes works: "working_card (card e) rest files" and env: "claims e" "exact_quotients e" "codec_initialized e"
    and fl: "wav_file e h cs" "files (SD_ROOT_PATH @ name) = Some (h @ concat cs)"
      "length SD_ROOT_PATH + length name \<le> PATH_MAX_LEN (card e)" "sd_init_success (sd_state e)"
    and s: "length (wav_file_header s) = WAV_HEADER_SIZE" "mtx_ringbuf s = None" "\<not> sd_card_playback_active s"
  shows "fst (sd_card_playback_wav e name s) = 0
    \<and> (\<exists>s'. sd_card_playback_thread e (\<lambda>j. [a j]) (snd (sd_card_playback_wav e name s)) = Some s'
        \<and> mix_log s' = mix_log s @ map2 (\<lambda>j. pcm_mix e (a j)) [1..<length cs] (butlast cs)
        \<and> ringbuf_data s' = last cs \<and> \<not> sd_card_playback_active s')"
proof -
  let ?s1 = "space_sem_restart ((snd (sd_card_playback_wav e name s))\<lparr>sem_playback := False\<rparr>)"
  have "playback_file_name ?s1 = Some name" "length (wav_file_header ?s1) = WAV_HEADER_SIZE"
      "ringbuf_data ?s1 = []" "mtx_ringbuf ?s1 = None" "sem_space_available ?s1" "ringbuf_put ?s1 = 0"
      "\<not> sd_card_playback_active ?s1" "mix_log ?s1 = mix_log s"
    using s env(3) by (simp_all add: sd_card_playback_wav_def space_sem_restart_def ring_buf_reset_def)
  then obtain s' where s': "sd_card_playback_play_wav e (\<lambda>j. [a j]) ?s1 = Some (0, s')"
      "mix_log s' = mix_log s @ map2 (\<lambda>j. pcm_mix e (a j)) [1..<length cs] cs"
      "ringbuf_data s' = last cs" "\<not> sd_card_playback_active s'"
    using play_wav_plays [OF works env(1,2) fl, of ?s1 a] by auto
  have "zip [1..<length cs] cs = zip [1..<length cs] (butlast cs)"
    by (rule nth_equalityI) (auto simp: nth_butlast)
  then show ?thesis
    using env(3) s' by (simp add: sd_card_playback_thread_def sd_card_playback_wav_def Let_def)
qed

text \<open>A card with a short file, of three frames of four bytes, the last of them cut.\<close>

definition wav_example_header :: "u8 list" where
  "wav_example_header =
     [0x52, 0x49, 0x46, 0x46, 46, 0, 0, 0, 0x57, 0x41, 0x56, 0x45, 0x66, 0x6D, 0x74, 0x20, 16, 0, 0, 0,
      1, 0, 1, 0, 0x80, 0xBB, 0, 0, 0x90, 1, 0, 0, 2, 0, 16, 0, 0x64, 0x61, 0x74, 0x61, 10, 0, 0, 0]"

definition wav_example_frames :: "u8 list list" where
  "wav_example_frames = [[1, 2, 3, 4], [5, 6, 7, 8], [9, 10]]"

definition wav_example_files :: "string \<Rightarrow> u8 list option" where
  "wav_example_files path =
     (if path = ''/SD:/a.wav'' then Some (wav_example_header @ concat wav_example_frames) else None)"

definition wav_example_card :: "u8 list sd_env" where
  "wav_example_card =
     \<lparr>FATFS_MAX_LFN = 255, FR_INVALID_NAME = 6, fs_file_init = [],
      fs_open = (\<lambda>flags path f. case wav_example_files path of None \<Rightarrow> (- ENOENT, f) | Some bs \<Rightarrow> (0, bs)),
      fs_read = (\<lambda>n f. (int (length (take n f)), take n f, drop n f)),
      fs_seek_end = (\<lambda>f. (0, f)), fs_write = (\<lambda>bs f. (int (length bs), f)), fs_close = (\<lambda>f. (0, f)),
      fs_opendir = (\<lambda>path. Inr []), fs_closedir = 0, disk_access_init = 0, disk_sector_count = 0,
      disk_sector_size = 0, fs_mount = 0, slab_content = (\<lambda>n. [])\<rparr>"

definition wav_example :: "(u8 list, unit) play_env" where
  "wav_example = \<lparr>card = wav_example_card,
     sd_state = \<lparr>sd_init_success = True, num_files_added = 0, slab_A_free = 0, slab_B_free = 0, slab_A_allocs = 0\<rparr>,
     RING_BUF_SIZE = 4, MAX_PATH_LEN = 255, FRAME_DURATION_US = 10000, AUDIO_BIT_DEPTH_BITS = 16,
     codec_initialized = True, decoder_num_ch = 1,
     ring_claim = (\<lambda>put space n. min n (min space (4 - put mod 4))), pcm_mix = (\<lambda>a b. (0, b)),
     lc3_dec_run = (\<lambda>frame n ch d. (0, [], 0, d)), float_ceil_div = (\<lambda>a b. (a + b - 1) div b)\<rparr>"

definition playback_boot :: "'f \<Rightarrow> 'd \<Rightarrow> ('f, 'd) playback" where
  "playback_boot f d = \<lparr>sd_card_playback_active = False, playback_file_name = None,
     playback_file_format = SD_CARD_PLAYBACK_WAV, pcm_frame_size = 0, playback_file_path = [],
     lc3_file_header = replicate LC3_HEADER_SIZE 0, wav_file_header = replicate WAV_HEADER_SIZE 0,
     lc3_frame_length_bytes = [0, 0], f_seg_read_entry = f, ringbuf_data = [], ringbuf_put = 0,
     sem_space_available = False, sem_playback = False, mtx_ringbuf = None, decoder = d, mix_log = []\<rparr>"

lemma wav_example_works:
  "working_card (card wav_example) id wav_example_files" "claims wav_example" "exact_quotients wav_example"
  by (auto simp: working_card_def claims_def exact_quotients_def wav_example_def wav_example_card_def
      split: option.split)

lemma wav_example_ok: "wav_file wav_example wav_example_header wav_example_frames"
proof -
  have "wav_frame_size wav_example wav_example_header = 4" "wav_audio_length wav_example_header = 10"
      "sd_card_playback_check_wav_header wav_example wav_example_header = 0"
    by code_simp+
  then show ?thesis
    by (simp add: wav_file_def wav_example_def chunked_def) (simp add: wav_example_header_def wav_example_frames_def WAV_HEADER_SIZE_def)
qed

theorem wav_heard_but_last_witness:
  "\<exists>s'. sd_card_playback_thread wav_example (\<lambda>j. [[]])
      (snd (sd_card_playback_wav wav_example ''a.wav'' (playback_boot [] ()))) = Some s'
    \<and> mix_log s' = [(0, [1, 2, 3, 4]), (0, [5, 6, 7, 8])] \<and> ringbuf_data s' = [9, 10]"
proof -
  let ?s = "playback_boot [] () :: (u8 list, unit) playback"
  have "codec_initialized wav_example" "sd_init_success (sd_state wav_example)"
      "wav_example_files (SD_ROOT_PATH @ ''a.wav'') = Some (wav_example_header @ concat wav_example_frames)"
      "length SD_ROOT_PATH + length ''a.wav'' \<le> PATH_MAX_LEN (card wav_example)"
      "length (wav_file_header ?s) = WAV_HEADER_SIZE" "mtx_ringbuf ?s = None" "\<not> sd_card_playback_active ?s"
    by (simp_all add: wav_example_def wav_example_card_def wav_example_files_def SD_ROOT_PATH_def
        PATH_MAX_LEN_def playback_boot_def)
  moreover have "map2 (\<lambda>j. pcm_mix wav_example ([] :: u8 list)) [1..<length wav_example_frames] (butlast wav_example_frames)
      = [(0, [1, 2, 3, 4]), (0, [5, 6, 7, 8])]" "last wav_example_frames = [9, 10]" "mix_log ?s = []"
    by (simp_all add: wav_example_frames_def wav_example_def playback_boot_def upt_rec)
  ultimately show ?thesis
    using wav_heard_but_last [OF wav_example_works _ wav_example_ok, of "''a.wav''" ?s "\<lambda>j. []"] by auto
qed

section \<open>What the code does not do\<close>

text \<open>
  The default ring buffer of 960 bytes holds one frame of 10 ms. The second frame of 7.5 ms does not fit
  behind the first, and the claim stops at the end of the buffer: two thirds of the frame are dropped.
\<close>

lemma short_frame_cut_at_wrap:
  assumes "claims e" "RING_BUF_SIZE e = 960" and "ringbuf_data s = []" "ringbuf_put s = 720"
    and "mtx_ringbuf s = None" "sem_space_available s" and "length frame = 720"
  shows "\<exists>s'. sd_card_playback_ringbuf_write e frame 720 s = Some (240, s') \<and> ringbuf_data s' = take 240 frame"
  using assms
  by (simp add: claims_def sd_card_playback_ringbuf_write_def ringbuf_claim_def ringbuf_copy_def
      mutex_lock_def mutex_unlock_def ring_space_def mem_simps Let_def)

text \<open>A frame of 7.5 ms counts as 7 ms.\<close>

lemma short_frame_rounded: "FRAME_DURATION_US e = 7500 \<Longrightarrow> byte_rate h = 96000 \<Longrightarrow> wav_frame_size e h = 672"
  by (simp add: wav_frame_size_def FRAME_DURATION_MS_def)

text \<open>The datapath that asks for no frame for 20 ms ends the playback, although the log says that a frame is skipped.\<close>

lemma writer_gives_up: "\<not> sem_space_available s \<Longrightarrow> sd_card_playback_ringbuf_write e frame n s = Some (- EAGAIN, s)"
  by (simp add: sd_card_playback_ringbuf_write_def ringbuf_claim_def)

text \<open>A command that returns before the thread has opened the file leaves it a name that does not exist any more.\<close>

lemma name_outlives_command:
  assumes "cmd_play_wav_file e Some argv s = Some (0, s')"
  shows "sd_card_playback_thread e sched s' = None"
  using assms
  by (auto simp: cmd_play_wav_file_def sd_card_playback_wav_def sd_card_playback_thread_def
      sd_card_playback_play_wav_def space_sem_restart_def ring_buf_reset_def split: if_splits bind_splits)

text \<open>The path of a directory is checked without the separator that is appended to it.\<close>

lemma change_dir_overruns:
  assumes "length (playback_file_path s) + length d + 1 = MAX_PATH_LEN e" and "take 1 d \<noteq> ''/''"
  shows "cmd_change_dir e [c, d] s = None"
  using assms by (simp add: cmd_change_dir_def strcat_def Let_def)

lemma change_dir_ok:
  assumes "length (playback_file_path s) + length d + 1 < MAX_PATH_LEN e" and "take 1 d \<noteq> ''/''"
  shows "cmd_change_dir e [c, d] s = Some (0, s\<lparr>playback_file_path := playback_file_path s @ d @ ''/''\<rparr>)"
  using assms by (simp add: cmd_change_dir_def strcat_def Let_def)

end
