(* ===== verification/ContentControl.thy ===== *)
theory ContentControl
  imports Prelude
begin

text \<open>
  Content control (\<open>src/bluetooth/bt_content_control/bt_content_ctrl.c\<close>,
  \<open>src/bluetooth/bt_content_control/media/bt_content_ctrl_media.c\<close>): starting and stopping the media,
  with the media control service of a peer (MCC), of the device itself (MCS), or by a message to the
  application when the firmware has neither.

  The calls of the host and of its media proxy are the parameter \<open>media_host\<close>; they act on a state
  of the host. A connection is a number, the null pointer is \<open>None\<close>. The content events that are
  published are collected in \<open>cont_media_chan\<close>.
\<close>

section \<open>The host and the state\<close>

abbreviation (input) ESRCH :: int where "ESRCH \<equiv> 3"
abbreviation (input) BT_MCS_MEDIA_STATE_PLAYING :: u8 where "BT_MCS_MEDIA_STATE_PLAYING \<equiv> 1"
abbreviation (input) BT_MCS_MEDIA_STATE_PAUSED :: u8 where "BT_MCS_MEDIA_STATE_PAUSED \<equiv> 2"
abbreviation (input) BT_MCS_OPC_PLAY :: u8 where "BT_MCS_OPC_PLAY \<equiv> 1"
abbreviation (input) BT_MCS_OPC_PAUSE :: u8 where "BT_MCS_OPC_PAUSE \<equiv> 2"

datatype mcs_disc_status = IDLE | IN_PROGRESS | FINISHED

datatype content_control_evt_type = MEDIA_START | MEDIA_STOP

text \<open>\<open>use_param\<close> is \<open>None\<close> when the command is sent without having set it.\<close>

record mpl_cmd =
  opcode :: u8
  use_param :: "bool option"

record media_ctlr =
  mcp_mcs_disc_status :: mcs_disc_status
  peer_conn :: "nat option"

record 'h media_host =
  CFG_MCC :: bool
  CFG_MCS :: bool
  MAX_CONN :: nat
  h_discover :: "nat \<Rightarrow> 'h \<Rightarrow> int \<times> 'h"
  h_read_state :: "nat \<Rightarrow> 'h \<Rightarrow> int \<times> 'h"
  h_send_cmd :: "nat \<Rightarrow> mpl_cmd \<Rightarrow> 'h \<Rightarrow> int \<times> 'h"
  h_proxy_send :: "nat option \<Rightarrow> mpl_cmd \<Rightarrow> 'h \<Rightarrow> int \<times> 'h"
  h_mcc_init :: "'h \<Rightarrow> int \<times> 'h"
  h_proxy_init :: "'h \<Rightarrow> int \<times> 'h"
  h_proxy_register :: "'h \<Rightarrow> int \<times> 'h"
  h_pub :: "'h \<Rightarrow> int \<times> 'h"

record 'h content =
  media_player_state :: u8
  local_player :: "nat option"
  play_pause_cb :: bool
  mcc_peer :: "media_ctlr list"
  cont_media_chan :: "content_control_evt_type list"
  media_hst :: 'h

definition content_boot :: "'h media_host \<Rightarrow> 'h \<Rightarrow> 'h content" where
  "content_boot m h = \<lparr>media_player_state = BT_MCS_MEDIA_STATE_PLAYING, local_player = None, play_pause_cb = False,
     mcc_peer = replicate (MAX_CONN m) \<lparr>mcp_mcs_disc_status = IDLE, peer_conn = None\<rparr>,
     cont_media_chan = [], media_hst = h\<rparr>"

section \<open>The table of peers\<close>

fun peer_search :: "nat option \<Rightarrow> nat \<Rightarrow> media_ctlr list \<Rightarrow> nat option" where
  "peer_search c i [] = None"
| "peer_search c i (p # ps) = (if peer_conn p = c then Some i else peer_search c (i + 1) ps)"

definition mcc_peer_index_free_get :: "'h content \<Rightarrow> int" where
  "mcc_peer_index_free_get s =
     (case peer_search None 0 (mcc_peer s) of Some i \<Rightarrow> int i | None \<Rightarrow> - ENOMEM)"

definition mcc_peer_index_get :: "nat option \<Rightarrow> 'h content \<Rightarrow> int" where
  "mcc_peer_index_get conn s =
     (if conn = None then - EINVAL
      else case peer_search conn 0 (mcc_peer s) of Some i \<Rightarrow> int i | None \<Rightarrow> - ESRCH)"

definition set_status :: "nat \<Rightarrow> mcs_disc_status \<Rightarrow> 'h content \<Rightarrow> 'h content" where
  "set_status i d s = s\<lparr>mcc_peer := (mcc_peer s)[i := (mcc_peer s ! i)\<lparr>mcp_mcs_disc_status := d\<rparr>]\<rparr>"

definition set_conn :: "nat \<Rightarrow> nat option \<Rightarrow> 'h content \<Rightarrow> 'h content" where
  "set_conn i c s = s\<lparr>mcc_peer := (mcc_peer s)[i := (mcc_peer s ! i)\<lparr>peer_conn := c\<rparr>]\<rparr>"

definition peer_status :: "nat \<Rightarrow> 'h content \<Rightarrow> mcs_disc_status" where
  "peer_status i s = mcp_mcs_disc_status (mcc_peer s ! i)"

section \<open>Discovery and state of the player\<close>

definition bt_content_ctrl_media_state_update ::
  "'h media_host \<Rightarrow> nat option \<Rightarrow> 'h content \<Rightarrow> int \<times> 'h content" where
  "bt_content_ctrl_media_state_update m conn s =
     (if \<not> CFG_MCC m then (- ECANCELED, s)
      else
        let idx = mcc_peer_index_get conn s in
        if idx < 0 then (idx, s)
        else if peer_status (nat idx) s \<noteq> FINISHED then (- EBUSY, s)
        else let (ret, h) = h_read_state m (the conn) (media_hst s) in (ret, s\<lparr>media_hst := h\<rparr>))"

definition mcc_discover_mcs_cb :: "'h media_host \<Rightarrow> nat option \<Rightarrow> int \<Rightarrow> 'h content \<Rightarrow> 'h content" where
  "mcc_discover_mcs_cb m conn err s =
     (let idx = mcc_peer_index_get conn s in
      if idx < 0 then s
      else if err \<noteq> 0 then set_status (nat idx) IDLE s
      else if peer_status (nat idx) s \<noteq> IN_PROGRESS then s
      else snd (bt_content_ctrl_media_state_update m conn (set_status (nat idx) FINISHED s)))"

definition bt_content_ctrl_media_discover ::
  "'h media_host \<Rightarrow> nat option \<Rightarrow> 'h content \<Rightarrow> int \<times> 'h content" where
  "bt_content_ctrl_media_discover m conn s =
     (let start = (\<lambda>i s.
        if peer_status i s = FINISHED \<or> peer_status i s = IN_PROGRESS then (- EALREADY, s)
        else
          let s = set_status i IN_PROGRESS s;
              (ret, h) = h_discover m (the conn) (media_hst s);
              s = s\<lparr>media_hst := h\<rparr>
          in if ret \<noteq> 0 then (ret, set_status i IDLE s) else (0, s))
      in if \<not> CFG_MCC m then (- ECANCELED, s)
      else if conn = None then (- EINVAL, s)
      else
        let idx = mcc_peer_index_get conn s in
        if idx = - ESRCH then
          let idx = mcc_peer_index_free_get s in
          if idx < 0 then (idx, s) else start (nat idx) (set_conn (nat idx) conn s)
        else start (nat idx) s)"

definition mcc_read_media_state_cb :: "int \<Rightarrow> u8 \<Rightarrow> 'h content \<Rightarrow> 'h content" where
  "mcc_read_media_state_cb err state s = (if err \<noteq> 0 then s else s\<lparr>media_player_state := state\<rparr>)"

definition mcs_media_state_cb :: "int \<Rightarrow> u8 \<Rightarrow> 'h content \<Rightarrow> 'h content" where
  "mcs_media_state_cb err state s = (if err \<noteq> 0 then s else s\<lparr>media_player_state := state\<rparr>)"

definition bt_content_ctlr_media_state_playing :: "'h content \<Rightarrow> bool" where
  "bt_content_ctlr_media_state_playing s \<longleftrightarrow> media_player_state s = BT_MCS_MEDIA_STATE_PLAYING"

definition bt_content_ctrl_media_conn_disconnected :: "nat option \<Rightarrow> 'h content \<Rightarrow> int \<times> 'h content" where
  "bt_content_ctrl_media_conn_disconnected conn s =
     (let idx = mcc_peer_index_get conn s in
      if idx < 0 then (idx, s)
      else (0, set_conn (nat idx) None (set_status (nat idx) IDLE s)))"

section \<open>Commands\<close>

text \<open>The command to every peer: the error of the last one that failed.\<close>

fun send_all ::
  "'h media_host \<Rightarrow> mpl_cmd \<Rightarrow> media_ctlr list \<Rightarrow> int \<Rightarrow> 'h \<Rightarrow> int \<times> 'h" where
  "send_all m cmd [] any_failures h = (any_failures, h)"
| "send_all m cmd (p # ps) any_failures h = (case peer_conn p of
       None \<Rightarrow> send_all m cmd ps any_failures h
     | Some c \<Rightarrow>
         if mcp_mcs_disc_status p = FINISHED then
           let (ret, h) = h_send_cmd m c cmd h
           in send_all m cmd ps (if ret \<noteq> 0 then ret else any_failures) h
         else send_all m cmd ps (- EBUSY) h)"

definition mcc_cmd_send :: "'h media_host \<Rightarrow> nat option \<Rightarrow> mpl_cmd \<Rightarrow> 'h content \<Rightarrow> int \<times> 'h content" where
  "mcc_cmd_send m conn cmd s = (case conn of
       Some c \<Rightarrow>
         let idx = mcc_peer_index_get conn s in
         if idx < 0 then (idx, s)
         else if peer_status (nat idx) s = FINISHED then
           let (ret, h) = h_send_cmd m c cmd (media_hst s) in (ret, s\<lparr>media_hst := h\<rparr>)
         else (- EBUSY, s)
     | None \<Rightarrow>
         let (any_failures, h) = send_all m cmd (mcc_peer s) 0 (media_hst s)
         in (any_failures, s\<lparr>media_hst := h\<rparr>))"

definition mpl_cmd_send :: "'h media_host \<Rightarrow> nat option \<Rightarrow> mpl_cmd \<Rightarrow> 'h content \<Rightarrow> int \<times> 'h content" where
  "mpl_cmd_send m conn cmd s =
     (let (ret, s) = (if CFG_MCS m then
            let (ret, h) = h_proxy_send m (local_player s) cmd (media_hst s) in (ret, s\<lparr>media_hst := h\<rparr>)
          else (0, s))
      in if ret \<noteq> 0 then (ret, s)
      else if CFG_MCC m then mcc_cmd_send m conn cmd s
      else (0, s))"

definition bt_content_ctrl_media_play :: "'h media_host \<Rightarrow> nat option \<Rightarrow> 'h content \<Rightarrow> int \<times> 'h content" where
  "bt_content_ctrl_media_play m conn s =
     (if media_player_state s \<noteq> BT_MCS_MEDIA_STATE_PLAYING \<and> media_player_state s \<noteq> BT_MCS_MEDIA_STATE_PAUSED
      then (- ECANCELED, s)
      else if media_player_state s = BT_MCS_MEDIA_STATE_PLAYING then (- EAGAIN, s)
      else mpl_cmd_send m conn \<lparr>opcode = BT_MCS_OPC_PLAY, use_param = Some False\<rparr> s)"

definition bt_content_ctrl_media_pause :: "'h media_host \<Rightarrow> nat option \<Rightarrow> 'h content \<Rightarrow> int \<times> 'h content" where
  "bt_content_ctrl_media_pause m conn s =
     (if media_player_state s \<noteq> BT_MCS_MEDIA_STATE_PLAYING \<and> media_player_state s \<noteq> BT_MCS_MEDIA_STATE_PAUSED
      then (- ECANCELED, s)
      else if media_player_state s = BT_MCS_MEDIA_STATE_PAUSED then (- EAGAIN, s)
      else mpl_cmd_send m conn \<lparr>opcode = BT_MCS_OPC_PAUSE, use_param = Some False\<rparr> s)"

section \<open>Messages to the application, the service of the device\<close>

definition content_pub ::
  "'h media_host \<Rightarrow> content_control_evt_type \<Rightarrow> 'h content \<Rightarrow> 'h content option" where
  "content_pub m evt s =
     (let (ret, h) = h_pub m (media_hst s) in do {
        assert_ok (ret = 0);
        Some (s\<lparr>media_hst := h, cont_media_chan := cont_media_chan s @ [evt]\<rparr>) })"

definition media_control_cb :: "'h media_host \<Rightarrow> bool \<Rightarrow> 'h content \<Rightarrow> 'h content option" where
  "media_control_cb m play s = content_pub m (if play then MEDIA_START else MEDIA_STOP) s"

definition mcs_command_recv_cb :: "'h media_host \<Rightarrow> int \<Rightarrow> u8 \<Rightarrow> 'h content \<Rightarrow> 'h content option" where
  "mcs_command_recv_cb m err requested_opcode s =
     (if err \<noteq> 0 then Some s
      else if requested_opcode = BT_MCS_OPC_PLAY then do { assert_ok (play_pause_cb s); media_control_cb m True s }
      else if requested_opcode = BT_MCS_OPC_PAUSE then do { assert_ok (play_pause_cb s); media_control_cb m False s }
      else Some s)"

definition mcs_local_player_instance_cb :: "'h media_host \<Rightarrow> nat option \<Rightarrow> int \<Rightarrow> 'h content \<Rightarrow> 'h content" where
  "mcs_local_player_instance_cb m player err s =
     (if err \<noteq> 0 then s
      else
        let (ret, h) = h_proxy_send m player \<lparr>opcode = BT_MCS_OPC_PLAY, use_param = None\<rparr> (media_hst s)
        in s\<lparr>local_player := player, media_hst := h\<rparr>)"

definition bt_content_ctrl_media_client_init :: "'h media_host \<Rightarrow> 'h content \<Rightarrow> int \<times> 'h content" where
  "bt_content_ctrl_media_client_init m s =
     (if \<not> CFG_MCC m then (- ECANCELED, s)
      else let (ret, h) = h_mcc_init m (media_hst s) in (ret, s\<lparr>media_hst := h\<rparr>))"

definition bt_content_ctrl_media_server_init :: "'h media_host \<Rightarrow> 'h content \<Rightarrow> int \<times> 'h content" where
  "bt_content_ctrl_media_server_init m s =
     (if \<not> CFG_MCS m then (- ECANCELED, s)
      else
        let s = s\<lparr>play_pause_cb := True\<rparr>;
            (ret, h) = h_proxy_init m (media_hst s);
            s = s\<lparr>media_hst := h\<rparr>
        in if ret \<noteq> 0 then (ret, s)
        else
          let (ret, h) = h_proxy_register m (media_hst s);
              s = s\<lparr>media_hst := h\<rparr>
          in if ret \<noteq> 0 then (ret, s) else (0, s))"

section \<open>The interface of the module\<close>

definition bt_content_ctrl_start ::
  "'h media_host \<Rightarrow> nat option \<Rightarrow> 'h content \<Rightarrow> (int \<times> 'h content) option" where
  "bt_content_ctrl_start m conn s =
     (if CFG_MCC m \<or> CFG_MCS m then Some (bt_content_ctrl_media_play m conn s)
      else map_option (Pair 0) (content_pub m MEDIA_START s))"

definition bt_content_ctrl_stop ::
  "'h media_host \<Rightarrow> nat option \<Rightarrow> 'h content \<Rightarrow> (int \<times> 'h content) option" where
  "bt_content_ctrl_stop m conn s =
     (if CFG_MCC m \<or> CFG_MCS m then Some (bt_content_ctrl_media_pause m conn s)
      else map_option (Pair 0) (content_pub m MEDIA_STOP s))"

definition bt_content_ctrl_conn_disconnected ::
  "'h media_host \<Rightarrow> nat option \<Rightarrow> 'h content \<Rightarrow> int \<times> 'h content" where
  "bt_content_ctrl_conn_disconnected m conn s =
     (0, if CFG_MCC m then snd (bt_content_ctrl_media_conn_disconnected conn s) else s)"

definition bt_content_ctrl_discover :: "'h media_host \<Rightarrow> nat option \<Rightarrow> 'h content \<Rightarrow> int \<times> 'h content" where
  "bt_content_ctrl_discover m conn s =
     (if CFG_MCC m then bt_content_ctrl_media_discover m conn s else (0, s))"

text \<open>The identifier of the media control service, into a buffer of \<open>room\<close> octets.\<close>

definition bt_content_ctrl_uuid_populate :: "'h media_host \<Rightarrow> nat \<Rightarrow> u8 list \<Rightarrow> int \<times> u8 list" where
  "bt_content_ctrl_uuid_populate m room uuid_buf =
     (if CFG_MCC m then
        if 2 \<le> room - length uuid_buf then (0, uuid_buf @ [0x48, 0x18]) else (- ENOMEM, uuid_buf)
      else (0, uuid_buf))"

definition bt_content_ctrl_init :: "'h media_host \<Rightarrow> 'h content \<Rightarrow> int \<times> 'h content" where
  "bt_content_ctrl_init m s =
     (let (ret, s) = (if CFG_MCS m then bt_content_ctrl_media_server_init m s else (0, s)) in
      if ret \<noteq> 0 then (ret, s)
      else if CFG_MCC m then bt_content_ctrl_media_client_init m s
      else (0, s))"

section \<open>The table is a finite map\<close>

text \<open>
  What the table is for: the discovery status of each connected peer, for at most \<open>MAX_CONN\<close> peers.
\<close>

definition peer_entry :: "media_ctlr \<Rightarrow> (nat \<times> mcs_disc_status) list" where
  "peer_entry p = (case peer_conn p of None \<Rightarrow> [] | Some c \<Rightarrow> [(c, mcp_mcs_disc_status p)])"

definition peers :: "media_ctlr list \<Rightarrow> nat \<rightharpoonup> mcs_disc_status" where
  "peers ps = map_of (concat (map peer_entry ps))"

definition conns :: "media_ctlr list \<Rightarrow> nat list" where
  "conns ps = map fst (concat (map peer_entry ps))"

definition peers_wf :: "'h media_host \<Rightarrow> media_ctlr list \<Rightarrow> bool" where
  "peers_wf m ps \<longleftrightarrow> length ps = MAX_CONN m \<and> distinct (conns ps)
     \<and> (\<forall>p \<in> set ps. peer_conn p = None \<longrightarrow> mcp_mcs_disc_status p = IDLE)"

lemma peers_Nil [simp]: "peers [] = Map.empty" "conns [] = []"
  by (simp_all add: peers_def conns_def)

lemma conns_append [simp]: "conns (xs @ ys) = conns xs @ conns ys"
  by (simp add: conns_def)

lemma conns_Cons: "conns (p # ps) = (case peer_conn p of None \<Rightarrow> conns ps | Some c \<Rightarrow> c # conns ps)"
  by (auto simp: conns_def peer_entry_def split: option.split)

lemma peers_Cons: "peers (p # ps) = (case peer_conn p of None \<Rightarrow> peers ps
    | Some c \<Rightarrow> (peers ps)(c \<mapsto> mcp_mcs_disc_status p))"
  by (auto simp: peers_def peer_entry_def split: option.split)

lemma dom_peers: "dom (peers ps) = set (conns ps)"
  by (simp add: peers_def conns_def dom_map_of_conv_image_fst)

lemma peers_append [simp]:
  assumes "set (conns xs) \<inter> set (conns ys) = {}"
  shows "peers (xs @ ys) = peers xs ++ peers ys"
proof -
  have "peers (xs @ ys) = peers ys ++ peers xs"
    by (simp add: peers_def)
  also have "\<dots> = peers xs ++ peers ys"
    using assms by (intro map_add_comm) (auto simp: dom_peers)
  finally show ?thesis .
qed

lemma search_Some: "peer_search c k ps = Some i \<Longrightarrow>
    \<exists>xs p ys. ps = xs @ p # ys \<and> i = k + length xs \<and> peer_conn p = c"
proof (induction ps arbitrary: k)
  case (Cons q ps)
  show ?case
  proof (cases "peer_conn q = c")
    case True
    then show ?thesis
      using Cons.prems by (intro exI [of _ "[]"]) auto
  next
    case False
    then obtain xs p ys where "ps = xs @ p # ys" "i = k + 1 + length xs" "peer_conn p = c"
      using Cons by fastforce
    then show ?thesis
      by (intro exI [of _ "q # xs"]) auto
  qed
qed simp

lemma search_None: "peer_search c k ps = None \<longleftrightarrow> (\<forall>p \<in> set ps. peer_conn p \<noteq> c)"
  by (induction ps arbitrary: k) auto

lemma in_conns: "c \<in> set (conns ps) \<longleftrightarrow> (\<exists>p \<in> set ps. peer_conn p = Some c)"
  by (induction ps) (auto simp: conns_Cons split: option.split)

lemma conns_full: "length (conns ps) \<le> length ps \<and>
    (length (conns ps) < length ps \<longleftrightarrow> (\<exists>p \<in> set ps. peer_conn p = None))"
  by (induction ps) (auto simp: conns_Cons split: option.split)

text \<open>Looking a connection up, by the map.\<close>

lemma index_known:
  assumes "mcc_peer_index_get (Some c) s = i" and "peers (mcc_peer s) c = Some d" and "peers_wf m (mcc_peer s)"
  shows "\<exists>xs p ys. mcc_peer s = xs @ p # ys \<and> i = int (length xs) \<and> peer_conn p = Some c
    \<and> mcp_mcs_disc_status p = d \<and> c \<notin> set (conns (xs @ ys))"
proof -
  have "c \<in> set (conns (mcc_peer s))"
    using assms(2) by (auto simp flip: dom_peers)
  then obtain j where j: "peer_search (Some c) 0 (mcc_peer s) = Some j"
    using search_None [of "Some c" 0 "mcc_peer s"] in_conns by fastforce
  then obtain xs p ys where sp: "mcc_peer s = xs @ p # ys" "j = length xs" "peer_conn p = Some c"
    using search_Some by fastforce
  have c: "c \<notin> set (conns (xs @ ys))" "set (conns xs) \<inter> set (conns (p # ys)) = {}"
    using assms(3) by (auto simp: peers_wf_def sp(1,3) conns_Cons)
  then have "peers (mcc_peer s) c = Some (mcp_mcs_disc_status p)"
    by (simp add: sp peers_Cons)
  then show ?thesis
    using assms(1,2) c(1) j sp by (auto simp: mcc_peer_index_get_def)
qed

lemma index_unknown: "peers (mcc_peer s) c = None \<Longrightarrow> mcc_peer_index_get (Some c) s = - ESRCH"
  using search_None [of "Some c" 0 "mcc_peer s"] in_conns [of c "mcc_peer s"] dom_peers [of "mcc_peer s"]
  by (auto simp: mcc_peer_index_get_def domIff split: option.split)

lemma free_slot:
  assumes "peers_wf m (mcc_peer s)" and "card (dom (peers (mcc_peer s))) < MAX_CONN m"
  shows "\<exists>xs p ys. mcc_peer s = xs @ p # ys \<and> mcc_peer_index_free_get s = int (length xs) \<and> peer_conn p = None"
proof -
  have "card (dom (peers (mcc_peer s))) = length (conns (mcc_peer s))"
    using assms(1) by (simp add: dom_peers distinct_card peers_wf_def)
  then have "\<exists>p \<in> set (mcc_peer s). peer_conn p = None"
    using assms conns_full [of "mcc_peer s"] by (simp add: peers_wf_def)
  then obtain j where "peer_search None 0 (mcc_peer s) = Some j"
    using search_None [of None 0 "mcc_peer s"] by fastforce
  then show ?thesis
    using search_Some [of None 0 "mcc_peer s" j] by (auto simp: mcc_peer_index_free_get_def)
qed

lemma no_free_slot:
  assumes "peers_wf m (mcc_peer s)" and "\<not> card (dom (peers (mcc_peer s))) < MAX_CONN m"
  shows "mcc_peer_index_free_get s = - ENOMEM"
proof -
  have "card (dom (peers (mcc_peer s))) = length (conns (mcc_peer s))"
    using assms(1) by (simp add: dom_peers distinct_card peers_wf_def)
  then have "\<forall>p \<in> set (mcc_peer s). peer_conn p \<noteq> None"
    using assms conns_full [of "mcc_peer s"] by (auto simp: peers_wf_def)
  then show ?thesis
    using search_None [of None 0 "mcc_peer s"] by (simp add: mcc_peer_index_free_get_def)
qed

text \<open>One entry replaced, in the table and in the map.\<close>

lemma replace_entry:
  assumes "peers_wf m (xs @ p # ys)" and "c \<notin> set (conns (xs @ ys))"
    and "peer_conn p = Some c \<or> peer_conn p = None"
  shows "peers_wf m (xs @ p\<lparr>mcp_mcs_disc_status := d, peer_conn := Some c\<rparr> # ys)"
    and "peers (xs @ p\<lparr>mcp_mcs_disc_status := d, peer_conn := Some c\<rparr> # ys) = (peers (xs @ p # ys))(c \<mapsto> d)"
    and "peers_wf m (xs @ p\<lparr>mcp_mcs_disc_status := IDLE, peer_conn := None\<rparr> # ys)"
    and "peers (xs @ p\<lparr>mcp_mcs_disc_status := IDLE, peer_conn := None\<rparr> # ys) = (peers (xs @ p # ys))(c := None)"
proof -
  have d: "set (conns xs) \<inter> set (conns ys) = {}" "set (conns xs) \<inter> set (conns (p # ys)) = {}"
    using assms by (auto simp: peers_wf_def conns_Cons split: option.splits)
  have u: "peers xs c = None" "peers ys c = None"
    using assms(2) by (auto simp flip: dom_peers)
  show "peers_wf m (xs @ p\<lparr>mcp_mcs_disc_status := d, peer_conn := Some c\<rparr> # ys)"
    using assms by (auto simp: peers_wf_def conns_Cons split: option.splits)
  show "peers_wf m (xs @ p\<lparr>mcp_mcs_disc_status := IDLE, peer_conn := None\<rparr> # ys)"
    using assms by (auto simp: peers_wf_def conns_Cons split: option.splits)
  show "peers (xs @ p\<lparr>mcp_mcs_disc_status := d, peer_conn := Some c\<rparr> # ys) = (peers (xs @ p # ys))(c \<mapsto> d)"
    using assms(2,3) d by (auto simp: conns_Cons peers_Cons)
  show "peers (xs @ p\<lparr>mcp_mcs_disc_status := IDLE, peer_conn := None\<rparr> # ys) = (peers (xs @ p # ys))(c := None)"
    using assms(2,3) d u by (auto simp: conns_Cons peers_Cons map_add_def fun_eq_iff split: option.splits)
qed

text \<open>The operations on the map; \<open>r\<close> is what the host answers to the request for a discovery.\<close>

definition spec_discover ::
  "nat \<Rightarrow> int \<Rightarrow> nat \<Rightarrow> (nat \<rightharpoonup> mcs_disc_status) \<Rightarrow> int \<times> (nat \<rightharpoonup> mcs_disc_status)" where
  "spec_discover N r c M =
     (let start = (r, M(c \<mapsto> if r = 0 then IN_PROGRESS else IDLE)) in
      case M c of
        None \<Rightarrow> if card (dom M) < N then start else (- ENOMEM, M)
      | Some IDLE \<Rightarrow> start
      | Some _ \<Rightarrow> (- EALREADY, M))"

text \<open>
  An end of a discovery: with an error, any peer of the table is idle again; without one, only a
  discovery that runs is finished.
\<close>

definition spec_discovered ::
  "int \<Rightarrow> nat \<Rightarrow> (nat \<rightharpoonup> mcs_disc_status) \<Rightarrow> nat \<rightharpoonup> mcs_disc_status" where
  "spec_discovered err c M =
     (case M c of
        None \<Rightarrow> M
      | Some d \<Rightarrow> if err \<noteq> 0 then M(c \<mapsto> IDLE) else if d = IN_PROGRESS then M(c \<mapsto> FINISHED) else M)"

lemma set_status_at [simp]: "mcc_peer s = xs @ p # ys \<Longrightarrow>
    mcc_peer (set_status (length xs) d s) = xs @ p\<lparr>mcp_mcs_disc_status := d\<rparr> # ys"
  by (simp add: set_status_def)

lemma set_conn_at [simp]: "mcc_peer s = xs @ p # ys \<Longrightarrow>
    mcc_peer (set_conn (length xs) c s) = xs @ p\<lparr>peer_conn := c\<rparr> # ys"
  by (simp add: set_conn_def)

lemma set_media_hst [simp]: "media_hst (set_status i d s) = media_hst s" "media_hst (set_conn i c s) = media_hst s"
  by (simp_all add: set_status_def set_conn_def)

lemma peer_status_at [simp]: "mcc_peer s = xs @ p # ys \<Longrightarrow> peer_status (length xs) s = mcp_mcs_disc_status p"
  by (simp add: peer_status_def)

lemma same_conn: "peer_conn p = Some c \<Longrightarrow>
    p\<lparr>mcp_mcs_disc_status := d, peer_conn := Some c\<rparr> = p\<lparr>mcp_mcs_disc_status := d\<rparr>"
  by (cases p) simp

lemma update_order: "p\<lparr>peer_conn := c, mcp_mcs_disc_status := d\<rparr> = p\<lparr>mcp_mcs_disc_status := d, peer_conn := c\<rparr>"
  by (cases p) simp

text \<open>The start of a discovery in a slot that is the peer's or has just been given to it.\<close>

lemma discover_in_slot:
  assumes wf: "peers_wf m (mcc_peer s)" and mcc: "CFG_MCC m"
    and s: "mcc_peer s = xs @ p # ys" "c \<notin> set (conns (xs @ ys))" "mcp_mcs_disc_status p = IDLE"
    and idx: "mcc_peer_index_get (Some c) s = int (length xs) \<and> peer_conn p = Some c
      \<or> mcc_peer_index_get (Some c) s = - ESRCH \<and> mcc_peer_index_free_get s = int (length xs) \<and> peer_conn p = None"
    and r: "h_discover m c (media_hst s) = (r, h)"
  shows "\<exists>s'. bt_content_ctrl_discover m (Some c) s = (r, s') \<and> peers_wf m (mcc_peer s')
    \<and> peers (mcc_peer s') = (peers (mcc_peer s))(c \<mapsto> if r = 0 then IN_PROGRESS else IDLE)"
proof -
  have p: "peer_conn p = Some c \<or> peer_conn p = None" "peers_wf m (xs @ p # ys)"
    using idx wf s(1) by auto
  note rep = replace_entry(1,2) [OF p(2) s(2) p(1)]
  have two: "p\<lparr>mcp_mcs_disc_status := d, mcp_mcs_disc_status := d'\<rparr> = p\<lparr>mcp_mcs_disc_status := d'\<rparr>" for d d'
    by (cases p) simp
  show ?thesis
    using idx
  proof (elim disjE conjE)
    assume i: "mcc_peer_index_get (Some c) s = int (length xs)" and "peer_conn p = Some c"
    note rep' = rep [unfolded same_conn [OF this(2)]]
    show ?thesis
      using mcc s(1,3) i r rep'
      by (auto simp: bt_content_ctrl_discover_def bt_content_ctrl_media_discover_def Let_def two split: prod.split)
  next
    assume "mcc_peer_index_get (Some c) s = - ESRCH" "mcc_peer_index_free_get s = int (length xs)" "peer_conn p = None"
    then show ?thesis
      using mcc s(1,3) r rep
      by (auto simp: bt_content_ctrl_discover_def bt_content_ctrl_media_discover_def Let_def update_order split: prod.split)
  qed
qed

lemma discover_refines:
  assumes wf: "peers_wf m (mcc_peer s)" and mcc: "CFG_MCC m"
  shows "\<exists>ret s'. bt_content_ctrl_discover m (Some c) s = (ret, s') \<and> peers_wf m (mcc_peer s')
    \<and> (ret, peers (mcc_peer s'))
      = spec_discover (MAX_CONN m) (fst (h_discover m c (media_hst s))) c (peers (mcc_peer s))"
proof -
  let ?M = "peers (mcc_peer s)"
  obtain r h where r: "h_discover m c (media_hst s) = (r, h)"
    by fastforce
  show ?thesis
  proof (cases "?M c")
    case None
    note unk = index_unknown [OF None]
    show ?thesis
    proof (cases "card (dom ?M) < MAX_CONN m")
      case True
      obtain xs p ys where f: "mcc_peer s = xs @ p # ys" "mcc_peer_index_free_get s = int (length xs)" "peer_conn p = None"
        using free_slot [OF wf True] by blast
      have "c \<notin> set (conns (xs @ ys))" "mcp_mcs_disc_status p = IDLE"
        using None f wf dom_peers [of "mcc_peer s"] by (auto simp: peers_wf_def conns_Cons domIff)
      then show ?thesis
        using discover_in_slot [OF wf mcc f(1) _ _ _ r] unk f(2,3) None True r
        by (fastforce simp: spec_discover_def)
    next
      case False
      then show ?thesis
        using no_free_slot [OF wf False] mcc unk wf None
        by (simp add: bt_content_ctrl_discover_def bt_content_ctrl_media_discover_def spec_discover_def)
    qed
  next
    case (Some d)
    obtain xs p ys where k: "mcc_peer s = xs @ p # ys" "mcc_peer_index_get (Some c) s = int (length xs)"
        "peer_conn p = Some c" "mcp_mcs_disc_status p = d" "c \<notin> set (conns (xs @ ys))"
      using index_known [OF refl Some wf] by blast
    show ?thesis
    proof (cases "d = IDLE")
      case True
      then show ?thesis
        using discover_in_slot [OF wf mcc k(1) k(5) _ _ r] k(2,3,4) Some r
        by (fastforce simp: spec_discover_def)
    next
      case False
      then show ?thesis
        using mcc k wf Some
        by (cases d) (simp_all add: bt_content_ctrl_discover_def bt_content_ctrl_media_discover_def spec_discover_def)
    qed
  qed
qed

lemma update_keeps_peers [simp]: "mcc_peer (snd (bt_content_ctrl_media_state_update m conn s)) = mcc_peer s"
  by (auto simp: bt_content_ctrl_media_state_update_def Let_def split: prod.split)

lemma discovered_refines:
  assumes wf: "peers_wf m (mcc_peer s)"
  shows "peers_wf m (mcc_peer (mcc_discover_mcs_cb m (Some c) err s))
    \<and> peers (mcc_peer (mcc_discover_mcs_cb m (Some c) err s)) = spec_discovered err c (peers (mcc_peer s))"
proof (cases "peers (mcc_peer s) c")
  case None
  then show ?thesis
    using index_unknown [OF None] wf by (simp add: mcc_discover_mcs_cb_def spec_discovered_def)
next
  case (Some d)
  obtain xs p ys where k: "mcc_peer s = xs @ p # ys" "mcc_peer_index_get (Some c) s = int (length xs)"
      "peer_conn p = Some c" "mcp_mcs_disc_status p = d" "c \<notin> set (conns (xs @ ys))"
    using index_known [OF refl Some wf] by blast
  have "peers_wf m (xs @ p # ys)"
    using wf k(1) by simp
  note rep = replace_entry(1,2) [OF this k(5), unfolded same_conn [OF k(3)]]
  show ?thesis
    using k(1,4) wf Some rep k(3) unfolding mcc_discover_mcs_cb_def spec_discovered_def k(2)
    by (simp add: Let_def)
qed

lemma disconnected_refines:
  assumes wf: "peers_wf m (mcc_peer s)" and "CFG_MCC m"
  shows "peers_wf m (mcc_peer (snd (bt_content_ctrl_conn_disconnected m (Some c) s)))
    \<and> peers (mcc_peer (snd (bt_content_ctrl_conn_disconnected m (Some c) s))) = (peers (mcc_peer s))(c := None)"
proof (cases "peers (mcc_peer s) c")
  case None
  then show ?thesis
    using index_unknown [OF None] wf
    by (auto simp: bt_content_ctrl_conn_disconnected_def bt_content_ctrl_media_conn_disconnected_def)
next
  case (Some d)
  obtain xs p ys where k: "mcc_peer s = xs @ p # ys" "mcc_peer_index_get (Some c) s = int (length xs)"
      "peer_conn p = Some c" "c \<notin> set (conns (xs @ ys))"
    using index_known [OF refl Some wf] by blast
  have "peers_wf m (xs @ p # ys)"
    using wf k(1) by simp
  note rep = replace_entry(3,4) [OF this k(4)]
  show ?thesis
    using k(1-3) assms rep
    by (simp add: bt_content_ctrl_conn_disconnected_def bt_content_ctrl_media_conn_disconnected_def Let_def)
qed

section \<open>Everything that can happen\<close>

datatype content_event =
  E_discover nat | E_discovered nat int | E_disconnected nat | E_start "nat option" | E_stop "nat option"
| E_state int u8 | E_player_state int u8 | E_command int u8 | E_player "nat option" int | E_init

fun content_step :: "'h media_host \<Rightarrow> content_event \<Rightarrow> 'h content \<Rightarrow> 'h content option" where
  "content_step m (E_discover c) s = Some (snd (bt_content_ctrl_discover m (Some c) s))"
| "content_step m (E_discovered c err) s = Some (mcc_discover_mcs_cb m (Some c) err s)"
| "content_step m (E_disconnected c) s = Some (snd (bt_content_ctrl_conn_disconnected m (Some c) s))"
| "content_step m (E_start conn) s = map_option snd (bt_content_ctrl_start m conn s)"
| "content_step m (E_stop conn) s = map_option snd (bt_content_ctrl_stop m conn s)"
| "content_step m (E_state err st) s = Some (mcc_read_media_state_cb err st s)"
| "content_step m (E_player_state err st) s = Some (mcs_media_state_cb err st s)"
| "content_step m (E_command err op) s = mcs_command_recv_cb m err op s"
| "content_step m (E_player pl err) s = Some (mcs_local_player_instance_cb m pl err s)"
| "content_step m E_init s = Some (snd (bt_content_ctrl_init m s))"

inductive content_reach :: "'h media_host \<Rightarrow> 'h \<Rightarrow> 'h content \<Rightarrow> bool" for m h where
  reach_boot: "content_reach m h (content_boot m h)"
| reach_step: "content_reach m h s \<Longrightarrow> content_step m ev s = Some s' \<Longrightarrow> content_reach m h s'"

lemma cmd_send_keeps [simp]: "mcc_peer (snd (mpl_cmd_send m conn cmd s)) = mcc_peer s"
  by (auto simp: mpl_cmd_send_def mcc_cmd_send_def Let_def split: prod.splits option.splits)

lemma pub_keeps: "content_pub m evt s = Some s' \<Longrightarrow> mcc_peer s' = mcc_peer s"
  by (auto simp: content_pub_def Let_def split: prod.splits bind_splits)

lemma play_keeps [simp]:
  "mcc_peer (snd (bt_content_ctrl_media_play m conn s)) = mcc_peer s"
  "mcc_peer (snd (bt_content_ctrl_media_pause m conn s)) = mcc_peer s"
  by (simp_all add: bt_content_ctrl_media_play_def bt_content_ctrl_media_pause_def)

lemma start_keeps:
  "bt_content_ctrl_start m conn s = Some (r, s') \<Longrightarrow> mcc_peer s' = mcc_peer s"
  "bt_content_ctrl_stop m conn s = Some (r, s') \<Longrightarrow> mcc_peer s' = mcc_peer s"
  using play_keeps [of m conn s]
  by (auto simp: bt_content_ctrl_start_def bt_content_ctrl_stop_def simp del: play_keeps
      dest: pub_keeps split: if_splits)

lemma command_keeps: "mcs_command_recv_cb m err op s = Some s' \<Longrightarrow> mcc_peer s' = mcc_peer s"
  by (auto simp: mcs_command_recv_cb_def media_control_cb_def dest: pub_keeps split: if_splits bind_splits)

lemma init_keeps [simp]: "mcc_peer (snd (bt_content_ctrl_init m s)) = mcc_peer s"
  by (auto simp: bt_content_ctrl_init_def bt_content_ctrl_media_server_init_def
      bt_content_ctrl_media_client_init_def Let_def split: prod.splits)

lemma boot_peers [simp]: "peers_wf m (mcc_peer (content_boot m h))"
proof -
  have "conns (replicate n \<lparr>mcp_mcs_disc_status = IDLE, peer_conn = None\<rparr>) = []" for n
    by (induction n) (auto simp: conns_Cons)
  then show ?thesis
    by (simp add: peers_wf_def content_boot_def)
qed

lemma step_keeps_peers:
  assumes "peers_wf m (mcc_peer s)" and "CFG_MCC m" and "content_step m ev s = Some s'"
  shows "peers_wf m (mcc_peer s')"
proof (cases ev)
  case (E_discover c)
  then show ?thesis
    using discover_refines [OF assms(1,2), of c] assms(3) by auto
next
  case (E_discovered c err)
  then show ?thesis
    using discovered_refines [OF assms(1), of c err] assms(3) by auto
next
  case (E_disconnected c)
  then show ?thesis
    using disconnected_refines [OF assms(1,2), of c] assms(3) by auto
qed (use assms in \<open>auto simp: mcc_read_media_state_cb_def mcs_media_state_cb_def mcs_local_player_instance_cb_def
      Let_def dest!: start_keeps command_keeps split: prod.splits\<close>)

lemma reach_peers: "content_reach m h s \<Longrightarrow> CFG_MCC m \<Longrightarrow> peers_wf m (mcc_peer s)"
  by (induction rule: content_reach.induct) (auto dest: step_keeps_peers)

text \<open>C26: The table of peers is a map from connections to the state of their discovery. Whatever has
  happened since start-up, a request for a discovery, the end of one and the end of a connection
  act on the table as on a finite map of at most \<open>MAX_CONN\<close> connections: a discovery that runs or
  has finished is not started again, a new peer is refused only when the map is full, and nothing of a peer
  is left when its connection ends. An end without error counts only if the peer's discovery runs; an end
  with an error sets a peer of the table back to \<open>IDLE\<close> whatever its state, also one that has finished or
  was not asked for, so that its discovery can be requested again.
\<close>

theorem peers_tracked:
  assumes "content_reach m h s" and "CFG_MCC m"
  shows "(\<exists>ret s'. bt_content_ctrl_discover m (Some c) s = (ret, s') \<and> (ret, peers (mcc_peer s'))
        = spec_discover (MAX_CONN m) (fst (h_discover m c (media_hst s))) c (peers (mcc_peer s)))
    \<and> peers (mcc_peer (mcc_discover_mcs_cb m (Some c) err s)) = spec_discovered err c (peers (mcc_peer s))
    \<and> peers (mcc_peer (snd (bt_content_ctrl_conn_disconnected m (Some c) s))) = (peers (mcc_peer s))(c := None)"
proof -
  have wf: "peers_wf m (mcc_peer s)"
    using reach_peers [OF assms] .
  then show ?thesis
    using discover_refines [OF wf assms(2), of c] discovered_refines [OF wf, of c err]
      disconnected_refines [OF wf assms(2), of c] by blast
qed

definition media_example :: "nat media_host" where
  "media_example = \<lparr>CFG_MCC = True, CFG_MCS = False, MAX_CONN = 1, h_discover = (\<lambda>c h. (0, h + 1)),
     h_read_state = (\<lambda>c h. (0, h)), h_send_cmd = (\<lambda>c cmd h. (0, h)), h_proxy_send = (\<lambda>p cmd h. (0, h)),
     h_mcc_init = (\<lambda>h. (0, h)), h_proxy_init = (\<lambda>h. (0, h)), h_proxy_register = (\<lambda>h. (0, h)), h_pub = (\<lambda>h. (0, h))\<rparr>"

theorem peers_tracked_witness:
  "\<exists>s. content_step media_example (E_discover 7) (content_boot media_example 0) = Some s
    \<and> peers (mcc_peer s) = [7 \<mapsto> IN_PROGRESS]
    \<and> peers (mcc_peer (mcc_discover_mcs_cb media_example (Some 7) 0 s)) = [7 \<mapsto> FINISHED]"
proof -
  let ?s = "snd (bt_content_ctrl_discover media_example (Some 7) (content_boot media_example 0))"
  have step: "content_step media_example (E_discover 7) (content_boot media_example 0) = Some ?s"
    by simp
  have reach: "content_reach media_example 0 ?s"
    by (rule reach_step [OF reach_boot step])
  have mcc: "CFG_MCC media_example" and host: "MAX_CONN media_example = 1" "fst (h_discover media_example c h) = 0" for c h
    by (simp_all add: media_example_def)
  have "peers (mcc_peer (content_boot media_example 0)) = Map.empty"
    by (simp add: content_boot_def media_example_def peers_def peer_entry_def)
  then have "peers (mcc_peer ?s) = [7 \<mapsto> IN_PROGRESS]"
    using peers_tracked [OF reach_boot mcc, where h = 0 and c = 7 and err = 0] host by (auto simp: spec_discover_def)
  then show ?thesis
    using peers_tracked [OF reach mcc, where c = 7 and err = 0] step by (simp add: spec_discovered_def)
qed

section \<open>Who gets a command\<close>

definition discovered :: "media_ctlr list \<Rightarrow> nat list" where
  "discovered ps = concat (map (\<lambda>p. case peer_conn p of Some c \<Rightarrow> if mcp_mcs_disc_status p = FINISHED then [c] else []
     | None \<Rightarrow> []) ps)"

text \<open>Without a connection, just the peers whose service was found get the command, each once.\<close>

lemma send_all_discovered:
  "snd (send_all m cmd ps a h) = fold (\<lambda>c h. snd (h_send_cmd m c cmd h)) (discovered ps) h"
proof (induction ps arbitrary: a h)
  case (Cons p ps)
  then show ?case
    by (auto simp: discovered_def Let_def case_prod_beta split: option.split)
qed (simp add: discovered_def)

lemma play_reaches_discovered:
  assumes "CFG_MCC m" "\<not> CFG_MCS m" and "media_player_state s = BT_MCS_MEDIA_STATE_PAUSED"
  shows "\<exists>r s'. bt_content_ctrl_start m None s = Some (r, s') \<and> media_hst s'
    = fold (\<lambda>c h. snd (h_send_cmd m c \<lparr>opcode = BT_MCS_OPC_PLAY, use_param = Some False\<rparr> h))
        (discovered (mcc_peer s)) (media_hst s)"
  using assms
  by (simp add: bt_content_ctrl_start_def bt_content_ctrl_media_play_def mpl_cmd_send_def mcc_cmd_send_def
      case_prod_beta Let_def flip: send_all_discovered [where a = 0])

text \<open>A peer that is still being discovered is reported as busy although the others were served.\<close>

lemma undiscovered_reported:
  "p \<in> set ps \<Longrightarrow> peer_conn p \<noteq> None \<Longrightarrow> mcp_mcs_disc_status p \<noteq> FINISHED \<Longrightarrow> fst (send_all m cmd ps a h) \<noteq> 0"
proof -
  have keep: "a \<noteq> 0 \<Longrightarrow> fst (send_all m cmd ps a h) \<noteq> 0" for a h ps
    by (induction ps arbitrary: a h) (auto simp: Let_def split: option.split prod.split)
  show "p \<in> set ps \<Longrightarrow> peer_conn p \<noteq> None \<Longrightarrow> mcp_mcs_disc_status p \<noteq> FINISHED \<Longrightarrow> fst (send_all m cmd ps a h) \<noteq> 0"
    by (induction ps arbitrary: a h) (auto simp: Let_def keep split: option.split prod.split)
qed

text \<open>The command with which the local player is started has its parameter flag never set.\<close>

lemma first_play_flag_unset:
  "mcs_local_player_instance_cb m pl 0 s
    = s\<lparr>local_player := pl, media_hst := snd (h_proxy_send m pl \<lparr>opcode = BT_MCS_OPC_PLAY, use_param = None\<rparr> (media_hst s))\<rparr>"
  by (simp add: mcs_local_player_instance_cb_def case_prod_beta)

end
