(* ===== verification/Spec2Isabelle.thy ===== *)
theory Spec2Isabelle
  imports PaFirmware LedModule ButtonModule BroadcastApp SinkApp Lc3Players SdSearch BtOnAir VolumeControl BtScan SdPlayback ContentControl
begin

text \<open>
  A verification development for the PA data broadcaster: the two applications for the nRF5340, a
  \<^emph>\<open>broadcast source\<close> that sends LE Audio and, inside its periodic advertising (PA), data that a host computer
  gives it over UART, and a \<^emph>\<open>receiver\<close> (broadcast sink) that a phone controls over GATT.

  \<^bold>\<open>Parts and their theories\<close> (paths are below \<open>src/\<close>)

  \<^item> Shared: \<open>Prelude\<close> (machine integers, errno values, arrays with checked bounds, C division),
    \<open>ZephyrKernel\<close> (one-shot timer, work queue).

  \<^item> The PA firmware: \<open>PaCmdParser\<close> (\<open>src/core/pa_protocol.h\<close>, \<open>pa_cmd_parser.c\<close>), \<open>PaDataManager\<close>
    (\<open>src/core/pa_data_manager.c\<close>), \<open>PaPorts\<close> (\<open>src/ports\<close>, with the contract \<open>pa_platform\<close> as a locale),
    \<open>PaService\<close> (\<open>src/app/pa_service.c\<close>, generic over the ports), \<open>UartAdapter\<close>, \<open>BlePaAdapter\<close>,
    \<open>TimerAdapter\<close> (\<open>src/adapters\<close>), and \<open>PaFirmware\<close>, their composition: interrupts and work items as
    events, the ports interpreted in the contract, and the end-to-end properties.

  \<^item> Board modules: \<open>LedModule\<close> (\<open>src/modules/led.c\<close> and its adapter), \<open>ButtonModule\<close>
    (\<open>src/modules/button_handler.c\<close> and its adapter thread).

  \<^item> Audio: \<open>DatapathModel\<close> (every operation of \<open>src/audio/audio_datapath.c\<close> and
    \<open>src/modules/audio_i2s.c\<close>), with its properties in \<open>DatapathFifo\<close> (the sample FIFO as a
    queue of blocks), \<open>DatapathSync\<close> (drift and presentation compensation) and \<open>DatapathSafety\<close> (its
    invariant, and what is played); \<open>SwCodec\<close>
    (\<open>sw_codec_select.c\<close>), \<open>AudioSystem\<close> (\<open>audio_system.c\<close>), \<open>LeAudioRx\<close> (\<open>le_audio_rx.c\<close>).

  \<^item> LE Audio: \<open>LeAudio\<close> (\<open>le_audio.c\<close>), \<open>BtTx\<close> (\<open>bt_le_audio_tx.c\<close>), \<open>BroadcastSource\<close>
    (\<open>broadcast_source.c\<close> and two helpers of \<open>bt_mgmt_adv.c\<close>), \<open>BroadcastSink\<close> (\<open>broadcast_sink.c\<close>).

  \<^item> Bluetooth management (\<open>src/bluetooth/bt_management\<close>): \<open>BtAdvertising\<close> (\<open>bt_mgmt_adv.c\<close>: the data of
    the advertising sets, the queue and the work item that starts them), \<open>BtMgmt\<close> (\<open>bt_mgmt.c\<close> and
    \<open>bt_mgmt_ctlr_cfg.c\<close>: connection callbacks, start-up, the controller's watchdog), \<open>BtOnAir\<close> (their
    properties: the contract of the host and what is on air) and \<open>BtScan\<close> (\<open>bt_mgmt_scan.c\<close>,
    \<open>bt_mgmt_scan_for_broadcast.c\<close>, \<open>bt_mgmt_scan_for_conn.c\<close>).

  \<^item> Volume: \<open>HwCodec\<close> (\<open>src/modules/hw_codec.c\<close> and its register tables) and \<open>VolumeControl\<close>
    (\<open>src/bluetooth/bt_rendering_and_capture\<close>).

  \<^item> Files: \<open>SdCard\<close> (\<open>src/modules/sd_card.c\<close>), \<open>SdSearch\<close> (its search against the walk of a tree of
    directories), \<open>Lc3File\<close> (\<open>lc3_file.c\<close>), \<open>Lc3Streamer\<close> (\<open>lc3_streamer.c\<close>), \<open>Lc3Players\<close> (the
    streamer against players that hand out the frames of a file one by one) and \<open>SdPlayback\<close>
    (\<open>sd_card_playback.c\<close>, with the waits of its thread and the calls of the datapath interleaved by a schedule).

  \<^item> Media: \<open>ContentControl\<close> (\<open>src/bluetooth/bt_content_control\<close>, its table of peers against a finite map).

  \<^item> The applications: \<open>BroadcastMain\<close> (\<open>broadcast_source/main.c\<close>: the PA firmware, the audio system
    and the broadcast source together), \<open>BroadcastSafety\<close> (its invariant) and \<open>BroadcastApp\<close> (its
    properties); \<open>SinkMain\<close> (\<open>broadcast_sink/main.c\<close>, \<open>auracast_gatt.c\<close>), \<open>SinkSafety\<close> (its
    invariant), \<open>SinkFrames\<close> (the form of what it sends) and \<open>SinkApp\<close> (its properties, and those of a
    broadcaster and a receiver together).

  \<^bold>\<open>How code becomes definitions\<close>

  A C structure, or the static data of a file, is a record with the same fields; an operation is a function of
  its arguments and that record which returns the new one. A result of type \<open>option\<close> is \<open>None\<close> where the
  program has undefined behaviour (an access outside an array, a null pointer, a signed overflow), fails an
  assertion, or trips \<open>ERR_CHK\<close>, which stops the system; that a part is safe is the theorem that it never
  returns \<open>None\<close>. Error codes are the negative integers of the code. Octets, 16- and 32-bit unsigned values are
  words of that width wherever they can wrap.

  Interrupt handlers, work items, callbacks and one pass of a thread's loop are events that run to
  completion; an execution is any sequence of them (\<open>fw_run\<close>, \<open>dp_run\<close>, \<open>sys_run\<close>, \<open>rx_run\<close>, \<open>app_run\<close>,
  \<open>sink_run\<close>), so every order is covered, but not preemption in the middle of a handler.

  What is not in the repository is a parameter: the Bluetooth host and controller, the LC3 codec, the tone
  generator and mixer of the SDK, the GPIO and I2S drivers, build-time configuration. Each call returns what
  an argument or a field of an environment record says. Where a property relies on them, the hypothesis says so by
  name (\<open>externals_ok\<close>, \<open>sys_externals_ok\<close>, \<open>app_wf\<close>, \<open>sink_wf\<close>, \<open>gpio_works\<close>; \<open>adv_host\<close>, \<open>host_up\<close> and
  \<open>host_serves\<close> for the advertising sets of the host, \<open>codec_drv_ok\<close> for the codec's registers, \<open>working_card\<close>, \<open>library_on_card\<close>,
  \<open>honest_dirs\<close> and \<open>searchable\<close> for the card and its file system, \<open>fifo_contract\<close> for the data FIFO of the
  SDK, \<open>claims\<close> for its ring buffer, \<open>exact_quotients\<close> for floating point division), and its witness instantiates them.

  Where a check of the code trips in cases that do occur, what excludes them is a condition on the single event
  (\<open>ev_ok\<close>, \<open>sys_ev_ok\<close>, \<open>rx_evs_ok\<close>, \<open>app_evs_ok\<close>, \<open>sink_ev_ok\<close>), and the text of each property names those
  cases: a jump of the I2S clock that overflows the product of the drift error (\<open>drift_jump_ok\<close>), a reference time
  2^31 microseconds away from the last, a frame that the decoder refuses (\<open>decodes\<close>, in the datapath a condition on
  the decoder's answer; in \<open>AudioSystem\<close> and above the answer is that of the model of \<open>sw_codec_decode\<close>, whose
  error without a decoder, -ENXIO, is among the excluded), a publication that fails.

  \<^bold>\<open>What the lemmas show\<close>

  For each component: its invariant and that every operation keeps it (hence memory safety and no tripped
  check), the behaviour of each branch, and refinements of an abstract description: the parser
  against a frame decoder, the interrupt-driven UART receiver against a deframing function, the data manager
  against a slot, the sample FIFO against a queue of blocks. Across components: a request reaches the
  advertising data and its completion the host; the audio plays in order; a stereo frame keeps its
  channels through encoder, transmitter and decoder; the applications follow their streams; what a broadcaster
  advertises its receiver finds, and the data of its periodic advertising reach the phone once. The advertising work
  item puts on air what was stored, and a receiver that loses its connection comes back; the codec's register follows
  the volume events and survives a restart; the pins of the LEDs show what was last asked for; the LC3 streamer hands out the frames of a file in order; the
  search of the card is the walk of its directories by name, and finds the files when no directory's name matches; a WAV file is heard in order, but for its last frame. Several theorems prove what goes wrong: frames that are lost or never accepted, a full FIFO read as empty,
  hidden codec errors, a button that replaces data in flight, a phone or a broadcaster that makes the receiver
  leave an array, a receiver that a stopped broadcaster leaves stuck, advertising that is queued and never started.

  \<^bold>\<open>Loops\<close> over arrays are structural recursions; the loops that drain queues (\<open>drop_stale\<close>, the switch of
  the LED worker) are bounded by the queue or shown to end, so no fuel is used.

  \<^bold>\<open>Not modelled\<close>

  The unicast client and server, which no application of this repository links; the SPI transfers of the CS47L63 driver, hardware timers, USB audio and
  power measurement, which are register sequences and driver calls; the firmware update loop, which only
  advertises; the log and OS wrappers and board utilities. Reference counts of connections and buffers of the host
  are not modelled where the code only passes them on.
\<close>

end
